(* ===== verification/Js_Prelude.thy ===== *)
theory Js_Prelude
  imports Main "HOL-Library.Word" "HOL-Library.AList"
begin

text \<open>
  Shared vocabulary of the development: bytes and byte strings, results that carry an error,
  the bit lists the codecs are specified with, and JavaScript's insertion-ordered Map as an
  association list (with the interface its clients rely on as a locale).
\<close>

named_theorems codec_simps "bit-list facts of the base-N codecs"
named_theorems result_simps "case analysis of results"

section \<open>Bytes and results\<close>

type_synonym byte = "8 word"
type_synonym bytes = "byte list"

text \<open>The 32-bit integers JavaScript's bitwise operators compute with.\<close>

type_synonym int32 = "32 word"

text \<open>A JavaScript call that may throw: the error on the left, the value on the right.\<close>

fun and_then :: "'e + 'a \<Rightarrow> ('a \<Rightarrow> 'e + 'b) \<Rightarrow> 'e + 'b" where
  "and_then (Inl e) f = Inl e"
| "and_then (Inr x) f = f x"

definition guard_err :: "bool \<Rightarrow> 'e \<Rightarrow> 'e + unit" where
  "guard_err ok e = (if ok then Inr () else Inl e)"

definition is_err :: "'e + 'a \<Rightarrow> bool" where
  "is_err r = (case r of Inl _ \<Rightarrow> True | Inr _ \<Rightarrow> False)"

lemma is_err_simps [simp]: "is_err (Inl e)" "\<not> is_err (Inr x)"
  by (simp_all add: is_err_def)

lemma and_then_Inr [result_simps]:
  "and_then r f = Inr y \<longleftrightarrow> (\<exists>x. r = Inr x \<and> f x = Inr y)"
  by (cases r) auto

lemma and_then_Inl [result_simps]:
  "and_then r f = Inl e \<longleftrightarrow> r = Inl e \<or> (\<exists>x. r = Inr x \<and> f x = Inl e)"
  by (cases r) auto

lemma guard_err_Inr [result_simps]: "guard_err ok e = Inr u \<longleftrightarrow> ok"
  by (simp add: guard_err_def)

lemma guard_err_Inl [result_simps]: "guard_err ok e = Inl e' \<longleftrightarrow> \<not> ok \<and> e' = e"
  by (auto simp: guard_err_def)

text \<open>Map a throwing function over a list, stopping at the first error.\<close>

fun map_err :: "('a \<Rightarrow> 'e + 'b) \<Rightarrow> 'a list \<Rightarrow> 'e + 'b list" where
  "map_err f [] = Inr []"
| "map_err f (x # xs) = and_then (f x) (\<lambda>y. and_then (map_err f xs) (\<lambda>ys. Inr (y # ys)))"

lemma map_err_Inr:
  "map_err f xs = Inr ys \<longleftrightarrow> list_all2 (\<lambda>x y. f x = Inr y) xs ys"
  by (induction xs arbitrary: ys) (auto simp: result_simps list_all2_Cons1)

lemma map_err_all_Inr: "(\<And>x. x \<in> set xs \<Longrightarrow> f x = Inr (g x)) \<Longrightarrow> map_err f xs = Inr (map g xs)"
  by (induction xs) auto

section \<open>Bit lists, most significant bit first\<close>

primrec word_bits :: "nat \<Rightarrow> 'a::len word \<Rightarrow> bool list" where
  "word_bits 0 w = []"
| "word_bits (Suc n) w = bit w n # word_bits n w"

definition bits_nat :: "bool list \<Rightarrow> nat" where
  "bits_nat bs = foldl (\<lambda>a b. 2 * a + of_bool b) 0 bs"

lemma length_word_bits [simp]: "length (word_bits n w) = n"
  by (induction n) auto

lemma nth_word_bits: "i < n \<Longrightarrow> word_bits n w ! i = bit w (n - 1 - i)"
  by (induction n arbitrary: i) (auto simp: nth_Cons split: nat.splits)

lemma foldl_bits_acc:
  "foldl (\<lambda>a b. 2 * a + of_bool b) (c::nat) bs =
   c * 2 ^ length bs + foldl (\<lambda>a b. 2 * a + of_bool b) 0 bs"
proof (induction bs arbitrary: c)
  case (Cons b bs)
  show ?case
    using Cons.IH [of "2 * c + of_bool b"] Cons.IH [of "of_bool b"]
    by (simp only: foldl_Cons list.size mult_0_right add_0 power_Suc power_add add_mult_distrib mult.assoc mult.commute mult.left_commute)
      (simp add: algebra_simps)
qed simp

lemma bits_nat_Nil [simp]: "bits_nat [] = 0"
  by (simp add: bits_nat_def)

lemma bits_nat_Cons: "bits_nat (b # bs) = of_bool b * 2 ^ length bs + bits_nat bs"
  by (simp add: bits_nat_def foldl_bits_acc [of "of_bool b"])

lemma bits_nat_less: "bits_nat bs < 2 ^ length bs"
  by (induction bs) (auto simp: bits_nat_Cons)

lemma bits_nat_inject:
  "length xs = length ys \<Longrightarrow> bits_nat xs = bits_nat ys \<Longrightarrow> xs = ys"
proof (induction xs ys rule: list_induct2)
  case (Cons x xs y ys)
  have "bits_nat xs < 2 ^ length ys" using bits_nat_less [of xs] Cons.hyps by simp
  moreover have "bits_nat ys < 2 ^ length ys" by (rule bits_nat_less)
  ultimately show ?case using Cons by (cases x; cases y) (auto simp: bits_nat_Cons)
qed simp

lemma unat_take_bits:
  fixes w :: "'a::len word"
  assumes "n \<le> LENGTH('a)"
  shows "unat (take_bit n w) = bits_nat (word_bits n w)"
  using assms
proof (induction n)
  case (Suc n)
  have "unat (take_bit (Suc n) w) = of_bool (bit w n) * 2 ^ n + unat (take_bit n w)"
    by (simp add: unsigned_take_bit_eq take_bit_Suc_from_most bit_unsigned_iff ac_simps)
  then show ?case using Suc by (simp add: bits_nat_Cons)
qed simp

lemma word_bits_inject:
  fixes v w :: "'a::len word"
  assumes "word_bits LENGTH('a) v = word_bits LENGTH('a) w"
  shows "v = w"
proof -
  have "unat (take_bit LENGTH('a) v) = unat (take_bit LENGTH('a) w)"
    by (simp only: assms unat_take_bits order_refl)
  then show ?thesis by (simp only: take_bit_length_eq unsigned_word_eqI)
qed

lemma word_of_bits:
  fixes w :: "'a::len word"
  shows "word_of_nat (bits_nat (word_bits LENGTH('a) w)) = w"
proof -
  have "bits_nat (word_bits LENGTH('a) w) = unat w"
    using unat_take_bits [of "LENGTH('a)" w] by (simp add: take_bit_length_eq)
  then show ?thesis by simp
qed

section \<open>JavaScript's Map\<close>

text \<open>
  A Map keeps its keys in insertion order; setting a present key keeps its place. As an association
  list: \<open>AList.update\<close>, \<open>AList.delete\<close> and \<open>map_of\<close>, on lists with distinct keys.
\<close>

type_synonym ('k, 'v) js_map = "('k \<times> 'v) list"

abbreviation map_ok :: "('k, 'v) js_map \<Rightarrow> bool" where
  "map_ok m \<equiv> distinct (map fst m)"

abbreviation map_get :: "('k, 'v) js_map \<Rightarrow> 'k \<Rightarrow> 'v option" where
  "map_get \<equiv> map_of"

abbreviation map_set :: "'k \<Rightarrow> 'v \<Rightarrow> ('k, 'v) js_map \<Rightarrow> ('k, 'v) js_map" where
  "map_set \<equiv> AList.update"

abbreviation map_del :: "'k \<Rightarrow> ('k, 'v) js_map \<Rightarrow> ('k, 'v) js_map" where
  "map_del \<equiv> AList.delete"

lemma map_get_set [simp]: "map_get (map_set k v m) = (map_get m)(k \<mapsto> v)"
  by (rule update_conv')

lemma map_get_del [simp]: "map_get (map_del k m) = (map_get m)(k := None)"
  by (rule delete_conv')

lemma map_ok_set [simp]: "map_ok m \<Longrightarrow> map_ok (map_set k v m)"
  by (rule distinct_update)

lemma map_ok_del [simp]: "map_ok m \<Longrightarrow> map_ok (map_del k m)"
  by (rule distinct_delete)

text \<open>
  A loop over the entries of a Map whose body changes only what is stored for the entry's own key:
  \<open>V\<close> reads what the state stores for a key, \<open>g\<close> is the body's effect on it.
\<close>

lemma fold_entries:
  assumes "map_ok m" "\<And>s k v j. V (f s (k, v)) j = (if j = k then g k v (V s k) else V s j)"
  shows "V (foldl f s m) j = (case map_get m j of None \<Rightarrow> V s j | Some v \<Rightarrow> g j v (V s j))"
  using assms(1)
proof (induction m arbitrary: s)
  case (Cons p m)
  obtain k v where p: "p = (k, v)" by (cases p)
  have "V (foldl f (f s p) m) j = (case map_get m j of None \<Rightarrow> V (f s p) j | Some u \<Rightarrow> g j u (V (f s p) j))"
    using Cons.IH [of "f s p"] Cons.prems by simp
  moreover have "map_get m k = None" using Cons.prems p by (simp add: map_of_eq_None_iff)
  ultimately show ?case by (auto simp: p assms(2) split: option.splits)
qed simp

text \<open>A predicate on the state that every iteration keeps holds after the loop.\<close>

lemma foldl_invariant: "P s \<Longrightarrow> (\<And>s x. x \<in> set xs \<Longrightarrow> P s \<Longrightarrow> P (f s x)) \<Longrightarrow> P (foldl f s xs)"
  by (induction xs arbitrary: s) auto

text \<open>Counting the entries that satisfy a predicate.\<close>

lemma card_filter_map:
  assumes "map_ok m"
  shows "card {k. \<exists>v. map_get m k = Some v \<and> P k v} = length (filter (\<lambda>(k, v). P k v) m)"
proof -
  have "{k. \<exists>v. map_get m k = Some v \<and> P k v} = fst ` set (filter (\<lambda>(k, v). P k v) m)"
  proof (intro set_eqI iffI)
    fix k assume "k \<in> {k. \<exists>v. map_get m k = Some v \<and> P k v}"
    then obtain v where "(k, v) \<in> set m" "P k v" using map_of_SomeD [of m k] by blast
    then have "(k, v) \<in> set (filter (\<lambda>(k, v). P k v) m)" by simp
    then show "k \<in> fst ` set (filter (\<lambda>(k, v). P k v) m)" by (metis fst_conv imageI)
  qed (use map_of_is_SomeI [OF assms] in auto)
  moreover have "distinct (map fst (filter (\<lambda>(k, v). P k v) m))"
    using assms by (induction m) auto
  ultimately show ?thesis by (metis distinct_card length_map set_map)
qed

text \<open>The same loop with a counter of the entries the body acted on.\<close>

lemma fold_entries_count:
  assumes "map_ok m"
    "\<And>s n k v j. V (fst (f (s, n) (k, v))) j = (if j = k then g k v (V s k) else V s j)"
    "\<And>s n k v. snd (f (s, n) (k, v)) = n + of_bool (Q k v (V s k))"
  shows "snd (foldl f (s, n) m) = n + card {k. \<exists>v. map_get m k = Some v \<and> Q k v (V s k)}"
proof -
  have "snd (foldl f (s, n) m) = n + length (filter (\<lambda>(k, v). Q k v (V s k)) m)"
    using assms(1)
  proof (induction m arbitrary: s n)
    case (Cons p m)
    obtain k v where p: "p = (k, v)" by (cases p)
    obtain s1 n1 where f: "f (s, n) p = (s1, n1)" by (cases "f (s, n) p")
    have s1: "V s1 j = (if j = k then g k v (V s k) else V s j)" for j
      using assms(2) [of s n k v j] f p by simp
    have n1: "n1 = n + of_bool (Q k v (V s k))" using assms(3) [of s n k v] f p by simp
    have "k \<notin> fst ` set m" using Cons.prems p by simp
    then have "filter (\<lambda>(k, v). Q k v (V s1 k)) m = filter (\<lambda>(k, v). Q k v (V s k)) m"
      by (intro filter_cong refl) (auto simp: s1 image_iff)
    then show ?case using Cons.IH [of s1 n1] Cons.prems f by (simp add: n1 p)
  qed simp
  then show ?thesis using card_filter_map [OF assms(1), of "\<lambda>k v. Q k v (V s k)"] by simp
qed

section \<open>Decimal numbers in template strings\<close>

definition digit_char :: "nat \<Rightarrow> char" where
  "digit_char d = ''0123456789'' ! d"

fun show_nat :: "nat \<Rightarrow> string" where
  "show_nat n = (if n < 10 then [digit_char n] else show_nat (n div 10) @ [digit_char (n mod 10)])"

declare show_nat.simps [simp del]

definition show_int :: "int \<Rightarrow> string" where
  "show_int i = (if i < 0 then CHR ''-'' # show_nat (nat (- i)) else show_nat (nat i))"

definition digit_val :: "char \<Rightarrow> nat" where
  "digit_val c = (of_char c :: nat) - 48"

lemma less_ten_cases: "d < 10 \<Longrightarrow> d \<in> {0, 1, 2, 3, 4, 5, 6, 7, 8, 9 :: nat}"
  by auto

lemma digit_val_char [simp]: "d < 10 \<Longrightarrow> digit_val (digit_char d) = d"
  by (drule less_ten_cases) (auto simp: digit_val_def digit_char_def)

lemma digit_char_plain: "d < 10 \<Longrightarrow> digit_char d \<notin> {CHR '':'', CHR ''-''}"
  by (drule less_ten_cases) (auto simp: digit_char_def)

lemma show_nat_value: "foldl (\<lambda>a c. 10 * a + digit_val c) 0 (show_nat n) = n"
proof (induction n rule: show_nat.induct)
  case (1 n)
  then show ?case by (cases "n < 10") (simp_all add: show_nat.simps [of n])
qed

lemma show_nat_inject: "show_nat m = show_nat n \<longleftrightarrow> m = n"
  by (metis show_nat_value)

lemma show_nat_plain: "c \<in> set (show_nat n) \<Longrightarrow> c \<noteq> CHR '':'' \<and> c \<noteq> CHR ''-''"
proof (induction n rule: show_nat.induct)
  case (1 n)
  show ?case
  proof (cases "n < 10")
    case True
    then show ?thesis using 1 digit_char_plain [of n] by (simp add: show_nat.simps [of n])
  next
    case False
    then show ?thesis using 1 digit_char_plain [of "n mod 10"] by (auto simp: show_nat.simps [of n])
  qed
qed

lemma show_int_plain: "CHR '':'' \<notin> set (show_int i)"
  using show_nat_plain by (auto simp: show_int_def)

lemma show_nat_nonempty: "show_nat n \<noteq> []"
  by (subst show_nat.simps) simp

lemma show_int_inject: "show_int i = show_int j \<longleftrightarrow> i = j"
proof
  assume eq: "show_int i = show_int j"
  have "hd (show_nat k) \<noteq> CHR ''-''" for k
    using show_nat_plain [of "hd (show_nat k)" k] show_nat_nonempty [of k] by simp
  then have no: "CHR ''-'' # xs \<noteq> show_nat k" for xs k by (metis list.sel(1))
  show "i = j"
    using eq no [of _ "nat i"] no [of _ "nat j"] not_sym [OF no]
    by (auto simp: show_int_def show_nat_inject split: if_splits)
qed simp

text \<open>A key followed by a colon and a number determines both.\<close>

lemma key_colon_inject:
  assumes "a @ CHR '':'' # show_int i = b @ CHR '':'' # show_int j"
  shows "a = b \<and> i = j"
proof -
  have split: "rev (takeWhile (\<lambda>c. c \<noteq> CHR '':'') (rev (a @ CHR '':'' # show_int i))) = show_int i
      \<and> rev (tl (dropWhile (\<lambda>c. c \<noteq> CHR '':'') (rev (a @ CHR '':'' # show_int i)))) = a" for a i
  proof -
    have "takeWhile (\<lambda>c. c \<noteq> CHR '':'') (rev (show_int i) @ CHR '':'' # rev a) = rev (show_int i)"
      by (subst takeWhile_append2) (use show_int_plain [of i] in auto)
    moreover have "dropWhile (\<lambda>c. c \<noteq> CHR '':'') (rev (show_int i) @ CHR '':'' # rev a) = CHR '':'' # rev a"
      by (subst dropWhile_append2) (use show_int_plain [of i] in auto)
    ultimately show ?thesis by simp
  qed
  have "show_int i = show_int j \<and> a = b" using split [of a i] split [of b j] assms by metis
  then show ?thesis by (simp add: show_int_inject)
qed

end
