(* ===== verification/Link_Spec.thy ===== *)
theory Link_Spec
  imports Js_Prelude
begin

text \<open>
  What a link store promises (packages/server-store/src/interfaces.ts and types.ts): an abstract
  store maps a link id to one entry, and each operation of the interface is a function on it. The
  memory and the Postgres store are shown to implement it in their own theories. The comparison of
  token hashes (constant-time.ts) and the retention setting (retention.ts) are here too.
\<close>

section \<open>Data\<close>

datatype link_status = Active | Revoked | Expired

text \<open>LinkMetadata; times are milliseconds.\<close>

record link_metadata =
  lm_id :: string
  lm_status :: link_status
  lm_createdAt :: "int option"
  lm_expiresAt :: int
  lm_maxOpens :: int
  lm_opensCount :: int

text \<open>CreateLinkRecord.\<close>

record create_record =
  cr_id :: string
  cr_expiresAt :: int
  cr_maxOpens :: int
  cr_tokenHash :: "string option"

record purge_result =
  pr_found :: bool
  pr_wasActive :: bool
  pr_ciphertextRemoved :: bool

datatype store_error = DuplicateLink | ConstraintViolation | NoCiphertextStore | WriteFailed

definition new_meta :: "create_record \<Rightarrow> link_metadata" where
  "new_meta r = \<lparr>lm_id = cr_id r, lm_status = Active, lm_createdAt = None, lm_expiresAt = cr_expiresAt r,
     lm_maxOpens = cr_maxOpens r, lm_opensCount = 0\<rparr>"

definition terminal :: "link_metadata \<Rightarrow> bool" where
  "terminal m = (lm_status m = Expired \<or> lm_status m = Revoked)"

lemma terminal_iff: "terminal m \<longleftrightarrow> lm_status m \<noteq> Active"
  by (cases "lm_status m") (simp_all add: terminal_def)

section \<open>Comparing token hashes\<close>

definition hex_digit :: "char \<Rightarrow> nat option" where
  "hex_digit c =
     map_of (zip ''0123456789abcdef'' [0..<16] @ zip ''ABCDEF'' [10..<16]) c"

text \<open>\<open>Buffer.from(s, "hex")\<close> stops at the first pair that is not two hex digits.\<close>

fun hex_buffer :: "string \<Rightarrow> bytes" where
  "hex_buffer (a # b # s) =
     (case (hex_digit a, hex_digit b) of
        (Some x, Some y) \<Rightarrow> of_nat (16 * x + y) # hex_buffer s
      | _ \<Rightarrow> [])"
| "hex_buffer _ = []"

definition timingSafeEqualHex :: "string \<Rightarrow> string \<Rightarrow> bool" where
  "timingSafeEqualHex a b =
     (let bufA = hex_buffer a; bufB = hex_buffer b
      in if length bufA = 0 \<or> length bufA \<noteq> length bufB then False else bufA = bufB)"

lemma timingSafeEqualHex_sym: "timingSafeEqualHex a b = timingSafeEqualHex b a"
  by (auto simp: timingSafeEqualHex_def Let_def)

section \<open>Retention\<close>

definition DEFAULT_TERMINAL_ROW_RETENTION_MS :: int where
  "DEFAULT_TERMINAL_ROW_RETENTION_MS = 30 * 24 * 60 * 60 * 1000"

text \<open>
  The environment variable, with \<open>Number(raw)\<close> as an argument: None stands for NaN and the
  infinities. (The empty string is caught before the conversion.)
\<close>

definition terminalRetentionMs :: "(string \<Rightarrow> int option) \<Rightarrow> string option \<Rightarrow> int" where
  "terminalRetentionMs to_number raw =
     (case raw of
        None \<Rightarrow> DEFAULT_TERMINAL_ROW_RETENTION_MS
      | Some s \<Rightarrow>
          if s = [] then DEFAULT_TERMINAL_ROW_RETENTION_MS
          else case to_number s of
                 Some n \<Rightarrow> if 0 \<le> n then n else DEFAULT_TERMINAL_ROW_RETENTION_MS
               | None \<Rightarrow> DEFAULT_TERMINAL_ROW_RETENTION_MS)"

lemma terminalRetentionMs_nonneg: "0 \<le> terminalRetentionMs to_number raw"
  by (auto simp: terminalRetentionMs_def DEFAULT_TERMINAL_ROW_RETENTION_MS_def split: option.splits)

section \<open>The abstract store\<close>

record entry =
  e_meta :: link_metadata
  e_token :: "string option"
  e_terminal :: "int option"
  e_blob :: "bytes option"

type_synonym abs_store = "string \<Rightarrow> entry option"

definition spec_create :: "create_record \<Rightarrow> bytes \<Rightarrow> abs_store \<Rightarrow> (store_error + link_metadata) \<times> abs_store" where
  "spec_create r blob \<sigma> =
     (if \<sigma> (cr_id r) \<noteq> None then (Inl DuplicateLink, \<sigma>)
      else (Inr (new_meta r), \<sigma>(cr_id r \<mapsto>
              \<lparr>e_meta = new_meta r, e_token = cr_tokenHash r, e_terminal = None, e_blob = Some blob\<rparr>)))"

definition open_entry :: "int \<Rightarrow> entry \<Rightarrow> entry option" where
  "open_entry now e =
     (let m = e_meta e in
      if lm_status m \<noteq> Active \<or> lm_expiresAt m \<le> now then None
      else let n = lm_opensCount m + 1;
               exhausted = (lm_maxOpens m \<noteq> -1 \<and> lm_maxOpens m \<le> n)
           in Some (e\<lparr>e_meta := m\<lparr>lm_opensCount := n, lm_status := if exhausted then Expired else lm_status m\<rparr>,
                      e_terminal := if exhausted then Some now else e_terminal e,
                      e_blob := if exhausted then None else e_blob e\<rparr>))"

definition spec_increment :: "int \<Rightarrow> string \<Rightarrow> abs_store \<Rightarrow> link_metadata option \<times> abs_store" where
  "spec_increment now i \<sigma> =
     (case Option.bind (\<sigma> i) (open_entry now) of
        None \<Rightarrow> (None, \<sigma>)
      | Some e \<Rightarrow> (Some (e_meta e), \<sigma>(i \<mapsto> e)))"

definition authorized :: "string option \<Rightarrow> string option \<Rightarrow> bool" where
  "authorized stored provided =
     (case stored of
        None \<Rightarrow> True
      | Some t \<Rightarrow> (case provided of None \<Rightarrow> False | Some p \<Rightarrow> timingSafeEqualHex t p))"

definition close_entry :: "link_status \<Rightarrow> int \<Rightarrow> entry \<Rightarrow> entry" where
  "close_entry st now e =
     e\<lparr>e_meta := (e_meta e)\<lparr>lm_status := st\<rparr>, e_terminal := Some now, e_blob := None\<rparr>"

definition spec_revoke :: "int \<Rightarrow> string \<Rightarrow> string option \<Rightarrow> abs_store \<Rightarrow> abs_store" where
  "spec_revoke now i provided \<sigma> =
     (case \<sigma> i of
        None \<Rightarrow> \<sigma>
      | Some e \<Rightarrow> if lm_status (e_meta e) \<noteq> Active \<or> \<not> authorized (e_token e) provided then \<sigma>
                  else \<sigma>(i \<mapsto> close_entry Revoked now e))"

text \<open>The sweep: past-due links expire, terminal links lose their ciphertext.\<close>

definition past_due :: "int \<Rightarrow> entry \<Rightarrow> bool" where
  "past_due now e = (lm_status (e_meta e) = Active \<and> lm_expiresAt (e_meta e) \<le> now)"

definition expire_entry :: "int \<Rightarrow> entry \<Rightarrow> entry" where
  "expire_entry now e =
     (let e' = (if past_due now e
                then e\<lparr>e_meta := (e_meta e)\<lparr>lm_status := Expired\<rparr>, e_terminal := Some now\<rparr> else e)
      in if terminal (e_meta e') then e'\<lparr>e_blob := None\<rparr> else e')"

definition purgeable :: "int \<Rightarrow> entry \<Rightarrow> bool" where
  "purgeable now e = ((past_due now e \<or> terminal (e_meta e)) \<and> e_blob e \<noteq> None)"

definition prunable :: "int \<Rightarrow> entry \<Rightarrow> bool" where
  "prunable before e =
     (terminal (e_meta e) \<and> (case e_terminal e of None \<Rightarrow> False | Some t \<Rightarrow> t < before))"

definition count_entries :: "(entry \<Rightarrow> bool) \<Rightarrow> abs_store \<Rightarrow> nat" where
  "count_entries P \<sigma> = card {i. \<exists>e. \<sigma> i = Some e \<and> P e}"

definition prune_map :: "int \<Rightarrow> abs_store \<Rightarrow> abs_store" where
  "prune_map before \<sigma> i = (case \<sigma> i of Some e \<Rightarrow> if prunable before e then None else Some e | None \<Rightarrow> None)"

definition spec_prune :: "int \<Rightarrow> abs_store \<Rightarrow> nat \<times> abs_store" where
  "spec_prune before \<sigma> = (count_entries (prunable before) \<sigma>, prune_map before \<sigma>)"

definition expire_map :: "int \<Rightarrow> abs_store \<Rightarrow> abs_store" where
  "expire_map now \<sigma> i = map_option (expire_entry now) (\<sigma> i)"

definition spec_expirePastDue :: "int \<Rightarrow> int \<Rightarrow> abs_store \<Rightarrow> nat \<times> abs_store" where
  "spec_expirePastDue now retention \<sigma> =
     (count_entries (purgeable now) \<sigma>, prune_map (now - retention) (expire_map now \<sigma>))"

definition spec_adminPurge :: "int \<Rightarrow> string \<Rightarrow> abs_store \<Rightarrow> purge_result \<times> abs_store" where
  "spec_adminPurge now i \<sigma> =
     (case \<sigma> i of
        None \<Rightarrow> (\<lparr>pr_found = False, pr_wasActive = False, pr_ciphertextRemoved = False\<rparr>, \<sigma>)
      | Some e \<Rightarrow>
          (\<lparr>pr_found = True, pr_wasActive = (lm_status (e_meta e) = Active), pr_ciphertextRemoved = (e_blob e \<noteq> None)\<rparr>,
           \<sigma>(i \<mapsto> (if lm_status (e_meta e) = Active then close_entry Revoked now e else e\<lparr>e_blob := None\<rparr>))))"

text \<open>A record the Postgres schema accepts: \<open>max_opens\<close> is a 32-bit column with a CHECK.\<close>

definition valid_record :: "create_record \<Rightarrow> bool" where
  "valid_record r = ((0 < cr_maxOpens r \<or> cr_maxOpens r = -1) \<and> cr_maxOpens r < 2 ^ 31)"

section \<open>The invariant of the abstract store\<close>

definition entry_ok :: "entry \<Rightarrow> bool" where
  "entry_ok e =
     (let m = e_meta e in
      (e_terminal e = None \<longleftrightarrow> lm_status m = Active) \<and>
      (e_blob e = None \<longleftrightarrow> lm_status m \<noteq> Active) \<and>
      0 \<le> lm_opensCount m \<and>
      (lm_maxOpens m = -1 \<or>
       (0 < lm_maxOpens m \<and> lm_opensCount m \<le> lm_maxOpens m \<and>
        (lm_status m = Active \<longrightarrow> lm_opensCount m < lm_maxOpens m))))"

definition store_ok :: "abs_store \<Rightarrow> bool" where
  "store_ok \<sigma> = (\<forall>i e. \<sigma> i = Some e \<longrightarrow> lm_id (e_meta e) = i \<and> entry_ok e)"

lemma store_ok_D: "store_ok \<sigma> \<Longrightarrow> \<sigma> i = Some e \<Longrightarrow> entry_ok e \<and> lm_id (e_meta e) = i"
  by (simp add: store_ok_def)

lemma store_ok_update:
  "store_ok \<sigma> \<Longrightarrow> entry_ok e \<Longrightarrow> lm_id (e_meta e) = i \<Longrightarrow> store_ok (\<sigma>(i \<mapsto> e))"
  by (simp add: store_ok_def)

lemma open_entry_Some:
  assumes "open_entry now e = Some e'"
  shows "lm_status (e_meta e) = Active" "now < lm_expiresAt (e_meta e)" "e_token e' = e_token e"
    "lm_opensCount (e_meta e') = lm_opensCount (e_meta e) + 1" "lm_maxOpens (e_meta e') = lm_maxOpens (e_meta e)"
    "lm_id (e_meta e') = lm_id (e_meta e)" "lm_expiresAt (e_meta e') = lm_expiresAt (e_meta e)"
    "lm_createdAt (e_meta e') = lm_createdAt (e_meta e)"
  using assms by (auto simp: open_entry_def Let_def split: if_splits)

lemma open_entry_ok: "open_entry now e = Some e' \<Longrightarrow> entry_ok e \<Longrightarrow> entry_ok e'"
  by (auto simp: open_entry_def entry_ok_def Let_def split: if_splits)

lemma close_entry_ok: "entry_ok e \<Longrightarrow> st \<noteq> Active \<Longrightarrow> entry_ok (close_entry st now e)"
  by (auto simp: close_entry_def entry_ok_def Let_def)

lemma expire_entry_ok: "entry_ok e \<Longrightarrow> entry_ok (expire_entry now e)"
  by (auto simp: expire_entry_def entry_ok_def Let_def past_due_def terminal_iff)

lemma spec_create_ok:
  assumes "store_ok \<sigma>" "0 < cr_maxOpens r \<or> cr_maxOpens r = -1"
  shows "store_ok (snd (spec_create r b \<sigma>))"
  using assms by (auto simp: spec_create_def store_ok_def entry_ok_def new_meta_def Let_def)

lemma spec_increment_ok: "store_ok \<sigma> \<Longrightarrow> store_ok (snd (spec_increment now i \<sigma>))"
  by (auto simp: spec_increment_def bind_eq_Some_conv intro!: store_ok_update
      dest: store_ok_D open_entry_Some(6) intro: open_entry_ok split: option.splits)

lemma spec_revoke_ok: "store_ok \<sigma> \<Longrightarrow> store_ok (spec_revoke now i h \<sigma>)"
  by (auto simp: spec_revoke_def close_entry_def intro!: store_ok_update dest: store_ok_D
      intro: close_entry_ok [unfolded close_entry_def] split: option.splits)

lemma prune_map_ok: "store_ok \<sigma> \<Longrightarrow> store_ok (prune_map before \<sigma>)"
  by (auto simp: store_ok_def prune_map_def split: option.splits if_splits)

lemma expire_map_ok:
  assumes "store_ok \<sigma>"
  shows "store_ok (expire_map now \<sigma>)"
proof -
  have "lm_id (e_meta (expire_entry now e)) = lm_id (e_meta e)" for e
    by (simp add: expire_entry_def Let_def)
  then show ?thesis using assms by (auto simp: store_ok_def expire_map_def expire_entry_ok)
qed

lemma spec_adminPurge_ok: "store_ok \<sigma> \<Longrightarrow> store_ok (snd (spec_adminPurge now i \<sigma>))"
  by (auto simp: spec_adminPurge_def close_entry_def entry_ok_def Let_def store_ok_def split: option.splits)

section \<open>The interface\<close>

text \<open>LinkMetadataStore together with CiphertextStore.get, as the handlers receive them.\<close>

record 's link_ops =
  createWithCiphertext :: "create_record \<Rightarrow> bytes \<Rightarrow> 's \<Rightarrow> (store_error + link_metadata) \<times> 's"
  get_link :: "string \<Rightarrow> 's \<Rightarrow> link_metadata option"
  incrementOpens :: "int \<Rightarrow> string \<Rightarrow> 's \<Rightarrow> link_metadata option \<times> 's"
  revoke_link :: "int \<Rightarrow> string \<Rightarrow> string option \<Rightarrow> 's \<Rightarrow> 's"
  expirePastDue :: "int \<Rightarrow> int \<Rightarrow> 's \<Rightarrow> nat \<times> 's"
  pruneTerminal :: "int \<Rightarrow> 's \<Rightarrow> nat \<times> 's"
  adminPurge :: "int \<Rightarrow> string \<Rightarrow> 's \<Rightarrow> purge_result \<times> 's"
  get_blob :: "string \<Rightarrow> 's \<Rightarrow> bytes option"

datatype store_op =
    OpCreate create_record bytes
  | OpGet string
  | OpIncrement string
  | OpRevoke string "string option"
  | OpExpire int
  | OpPrune int
  | OpAdminPurge string
  | OpBlob string

datatype store_reply =
    RCreate "store_error + link_metadata"
  | RMeta "link_metadata option"
  | RUnit
  | RCount nat
  | RPurge purge_result
  | RBlob "bytes option"

fun op_valid :: "store_op \<Rightarrow> bool" where
  "op_valid (OpCreate r b) = valid_record r"
| "op_valid _ = True"

fun ops_step :: "'s link_ops \<Rightarrow> int \<Rightarrow> store_op \<Rightarrow> 's \<Rightarrow> store_reply \<times> 's" where
  "ops_step ops now (OpCreate r b) s = map_prod RCreate id (createWithCiphertext ops r b s)"
| "ops_step ops now (OpGet i) s = (RMeta (get_link ops i s), s)"
| "ops_step ops now (OpIncrement i) s = map_prod RMeta id (incrementOpens ops now i s)"
| "ops_step ops now (OpRevoke i h) s = (RUnit, revoke_link ops now i h s)"
| "ops_step ops now (OpExpire ret) s = map_prod RCount id (expirePastDue ops now ret s)"
| "ops_step ops now (OpPrune before) s = map_prod RCount id (pruneTerminal ops before s)"
| "ops_step ops now (OpAdminPurge i) s = map_prod RPurge id (adminPurge ops now i s)"
| "ops_step ops now (OpBlob i) s = (RBlob (get_blob ops i s), s)"

text \<open>A sequence of timed operations, as the event loop runs them one after the other.\<close>

fun ops_run :: "'s link_ops \<Rightarrow> (int \<times> store_op) list \<Rightarrow> 's \<Rightarrow> store_reply list \<times> 's" where
  "ops_run ops [] s = ([], s)"
| "ops_run ops ((now, p) # ps) s =
     (let (r, s1) = ops_step ops now p s; (rs, s2) = ops_run ops ps s1 in (r # rs, s2))"

text \<open>The abstract store as an implementation of the interface.\<close>

definition spec_ops :: "abs_store link_ops" where
  "spec_ops = \<lparr>createWithCiphertext = spec_create,
     get_link = (\<lambda>i \<sigma>. map_option e_meta (\<sigma> i)),
     incrementOpens = spec_increment, revoke_link = spec_revoke, expirePastDue = spec_expirePastDue,
     pruneTerminal = spec_prune, adminPurge = spec_adminPurge,
     get_blob = (\<lambda>i \<sigma>. Option.bind (\<sigma> i) e_blob)\<rparr>"

lemma spec_ops_sel [simp]:
  "createWithCiphertext spec_ops = spec_create" "get_link spec_ops i \<sigma> = map_option e_meta (\<sigma> i)"
  "incrementOpens spec_ops = spec_increment" "revoke_link spec_ops = spec_revoke"
  "expirePastDue spec_ops = spec_expirePastDue" "pruneTerminal spec_ops = spec_prune"
  "adminPurge spec_ops = spec_adminPurge" "get_blob spec_ops i \<sigma> = Option.bind (\<sigma> i) e_blob"
  by (simp_all add: spec_ops_def)

lemma spec_step_ok:
  "store_ok \<sigma> \<Longrightarrow> op_valid p \<Longrightarrow> store_ok (snd (ops_step spec_ops now p \<sigma>))"
  by (cases p) (auto simp: spec_create_ok spec_increment_ok spec_revoke_ok spec_prune_def prune_map_ok
      spec_expirePastDue_def expire_map_ok spec_adminPurge_ok valid_record_def)

lemma map_reply_eq: "map_prod f id x = (r, s') \<longleftrightarrow> (\<exists>q. x = (q, s') \<and> r = f q)"
  by (cases x) auto

text \<open>
  The contract: an implementation state represents an abstract store, every operation answers as
  the abstract one does and its result state represents the abstract result.
\<close>

locale link_store =
  fixes ops :: "'s link_ops" and abs :: "'s \<Rightarrow> abs_store" and inv :: "'s \<Rightarrow> bool"
  assumes create_sim: "inv s \<Longrightarrow> valid_record r \<Longrightarrow>
      createWithCiphertext ops r b s = (q, s') \<Longrightarrow> spec_create r b (abs s) = (q, abs s') \<and> inv s'"
    and create_any: "inv s \<Longrightarrow> createWithCiphertext ops r b s = (q, s') \<Longrightarrow>
      inv s' \<and> (is_err q \<and> abs s' = abs s \<or> spec_create r b (abs s) = (q, abs s'))"
    and get_sim: "inv s \<Longrightarrow> get_link ops i s = map_option e_meta (abs s i)"
    and increment_sim: "inv s \<Longrightarrow> incrementOpens ops now i s = (q2, s') \<Longrightarrow>
      spec_increment now i (abs s) = (q2, abs s') \<and> inv s'"
    and revoke_sim: "inv s \<Longrightarrow> abs (revoke_link ops now i h s) = spec_revoke now i h (abs s)
      \<and> inv (revoke_link ops now i h s)"
    and expire_sim: "inv s \<Longrightarrow> expirePastDue ops now ret s = (n, s') \<Longrightarrow>
      spec_expirePastDue now ret (abs s) = (n, abs s') \<and> inv s'"
    and prune_sim: "inv s \<Longrightarrow> pruneTerminal ops before s = (n, s') \<Longrightarrow>
      spec_prune before (abs s) = (n, abs s') \<and> inv s'"
    and purge_sim: "inv s \<Longrightarrow> adminPurge ops now i s = (pr, s') \<Longrightarrow>
      spec_adminPurge now i (abs s) = (pr, abs s') \<and> inv s'"
    and blob_sim: "inv s \<Longrightarrow> get_blob ops i s = Option.bind (abs s i) e_blob"
begin

lemma step_sim:
  assumes "inv s" "op_valid p" "ops_step ops now p s = (r, s')"
  shows "ops_step spec_ops now p (abs s) = (r, abs s') \<and> inv s'"
  using assms
  by (cases p) (auto simp: map_reply_eq get_sim blob_sim revoke_sim dest: create_sim increment_sim expire_sim prune_sim purge_sim)

lemma run_sim:
  assumes "inv s" "list_all (op_valid \<circ> snd) ps" "ops_run ops ps s = (rs, s')"
  shows "ops_run spec_ops ps (abs s) = (rs, abs s') \<and> inv s'"
  using assms
proof (induction ps arbitrary: s rs s')
  case (Cons p ps)
  obtain now q where p: "p = (now, q)" by (cases p)
  obtain r s1 where s1: "ops_step ops now q s = (r, s1)" by (cases "ops_step ops now q s")
  obtain rs2 s2 where s2: "ops_run ops ps s1 = (rs2, s2)" by (cases "ops_run ops ps s1")
  have "ops_step spec_ops now q (abs s) = (r, abs s1) \<and> inv s1"
    using step_sim [OF Cons.prems(1) _ s1] Cons.prems(2) p by simp
  moreover from this have "ops_run spec_ops ps (abs s1) = (rs2, abs s2) \<and> inv s2"
    using Cons.IH [OF _ _ s2] Cons.prems(2) by simp
  ultimately show ?case using Cons.prems(3) s1 s2 p by auto
qed simp

end

section \<open>Histories\<close>

text \<open>The opens of a link that a history granted.\<close>

definition granted :: "store_reply \<Rightarrow> bool" where
  "granted r = (case r of RMeta m \<Rightarrow> m \<noteq> None | _ \<Rightarrow> False)"

definition won :: "string \<Rightarrow> store_op \<Rightarrow> store_reply \<Rightarrow> nat" where
  "won i p r = (if p = OpIncrement i \<and> granted r then 1 else 0)"

fun opens_won :: "string \<Rightarrow> (int \<times> store_op) list \<Rightarrow> store_reply list \<Rightarrow> nat" where
  "opens_won i ((now, p) # ps) (r # rs) = won i p r + opens_won i ps rs"
| "opens_won i _ _ = 0"

fun creates :: "string \<Rightarrow> store_op \<Rightarrow> bool" where
  "creates i (OpCreate r b) = (cr_id r = i)"
| "creates i _ = False"

definition bounded_link :: "abs_store \<Rightarrow> string \<Rightarrow> bool" where
  "bounded_link \<sigma> i = (\<forall>e. \<sigma> i = Some e \<longrightarrow> lm_maxOpens (e_meta e) \<noteq> -1)"

definition opens_left :: "abs_store \<Rightarrow> string \<Rightarrow> nat" where
  "opens_left \<sigma> i =
     (case \<sigma> i of
        None \<Rightarrow> 0
      | Some e \<Rightarrow> if lm_status (e_meta e) = Active then nat (lm_maxOpens (e_meta e) - lm_opensCount (e_meta e)) else 0)"

definition closed_link :: "abs_store \<Rightarrow> string \<Rightarrow> bool" where
  "closed_link \<sigma> i = (\<forall>e. \<sigma> i = Some e \<longrightarrow> terminal (e_meta e))"

text \<open>What the operations other than create do to the entry of one link.\<close>

lemma expire_entry_meta:
  "lm_maxOpens (e_meta (expire_entry now e)) = lm_maxOpens (e_meta e)"
  "lm_opensCount (e_meta (expire_entry now e)) = lm_opensCount (e_meta e)"
  "lm_status (e_meta (expire_entry now e)) = Active \<Longrightarrow> lm_status (e_meta e) = Active"
  "terminal (e_meta e) \<Longrightarrow> terminal (e_meta (expire_entry now e))"
  by (simp_all add: expire_entry_def Let_def terminal_iff split: if_splits)

text \<open>
  Another operation on a link either opens it or leaves it absent or with its open counts, and never
  active again.
\<close>

definition same_counts :: "entry \<Rightarrow> entry \<Rightarrow> bool" where
  "same_counts e e' =
     (lm_maxOpens (e_meta e') = lm_maxOpens (e_meta e) \<and> lm_opensCount (e_meta e') = lm_opensCount (e_meta e) \<and>
      (lm_status (e_meta e') = Active \<longrightarrow> lm_status (e_meta e) = Active))"

lemma same_counts_simps [simp]:
  "same_counts e e" "st \<noteq> Active \<Longrightarrow> same_counts e (close_entry st now e)" "same_counts e (expire_entry now e)"
  "same_counts e (e\<lparr>e_blob := b\<rparr>)"
  by (auto simp: same_counts_def close_entry_def expire_entry_meta)

lemma step_entry:
  assumes "\<not> creates i p" "ops_step spec_ops now p \<sigma> = (r, \<sigma>')" "\<sigma>' i = Some e'"
  shows "\<exists>e. \<sigma> i = Some e \<and> (open_entry now e = Some e' \<and> p = OpIncrement i \<or> same_counts e e')"
proof (cases p)
  case (OpCreate c b)
  then show ?thesis using assms by (auto simp: spec_create_def split: if_splits)
next
  case (OpIncrement j)
  then show ?thesis using assms
    by (auto simp: spec_increment_def map_reply_eq bind_eq_Some_conv split: option.splits if_splits)
next
  case (OpRevoke j h)
  then show ?thesis using assms
    by (auto simp: spec_revoke_def split: option.splits if_splits)
next
  case (OpExpire ret)
  then show ?thesis using assms
    by (auto simp: spec_expirePastDue_def prune_map_def expire_map_def split: option.splits if_splits)
next
  case (OpPrune t)
  then show ?thesis using assms
    by (auto simp: spec_prune_def prune_map_def split: option.splits if_splits)
next
  case (OpAdminPurge j)
  then show ?thesis using assms
    by (auto simp: spec_adminPurge_def map_reply_eq split: option.splits if_splits)
qed (use assms in auto)

lemma step_won:
  assumes "ops_step spec_ops now p \<sigma> = (r, \<sigma>')" "won i p r = 1"
  obtains e e' where "p = OpIncrement i" "\<sigma> i = Some e" "open_entry now e = Some e'" "\<sigma>' i = Some e'"
    "r = RMeta (Some (e_meta e'))"
proof -
  have "p = OpIncrement i" "granted r" using assms(2) by (auto simp: won_def split: if_splits)
  then show ?thesis
    using assms(1) that
    by (auto simp: spec_increment_def map_reply_eq granted_def bind_eq_Some_conv split: option.splits)
qed

lemma won_le: "won i p r = 0 \<or> won i p r = 1"
  by (simp add: won_def)

lemma step_opens_left:
  assumes "store_ok \<sigma>" "bounded_link \<sigma> i" "\<not> creates i p" "ops_step spec_ops now p \<sigma> = (r, \<sigma>')"
  shows "won i p r + opens_left \<sigma>' i \<le> opens_left \<sigma> i \<and> bounded_link \<sigma>' i"
proof (cases "\<sigma>' i")
  case None
  have "won i p r \<noteq> 1"
    using step_won [OF assms(4)] None by (metis option.distinct(1))
  then show ?thesis using won_le [of i p r] None by (simp add: opens_left_def bounded_link_def)
next
  case (Some e')
  obtain e where e: "\<sigma> i = Some e"
    and step: "open_entry now e = Some e' \<and> p = OpIncrement i \<or> same_counts e e'"
    using step_entry [OF assms(3,4) Some] by blast
  have ok: "entry_ok e" "lm_maxOpens (e_meta e) \<noteq> -1"
    using assms(1,2) e by (auto simp: bounded_link_def dest: store_ok_D)
  show ?thesis
  proof (cases "open_entry now e = Some e'")
    case True
    note o = open_entry_Some [OF True]
    have "1 + opens_left \<sigma>' i \<le> opens_left \<sigma> i"
      using Some e o ok by (auto simp: opens_left_def entry_ok_def Let_def)
    then show ?thesis
      using e Some o ok won_le [of i p r] by (auto simp: bounded_link_def)
  next
    case False
    have "won i p r \<noteq> 1"
    proof
      assume "won i p r = 1"
      then obtain e2 e2' where "\<sigma> i = Some e2" "open_entry now e2 = Some e2'" "\<sigma>' i = Some e2'"
        using step_won [OF assms(4)] by metis
      then show False using False e Some by simp
    qed
    then show ?thesis
      using False step e ok Some won_le [of i p r] by (auto simp: same_counts_def opens_left_def bounded_link_def)
  qed
qed

lemma step_ok_run:
  assumes "store_ok \<sigma>" "op_valid p" "ops_step spec_ops now p \<sigma> = (r, \<sigma>')"
  shows "store_ok \<sigma>'"
  using spec_step_ok [OF assms(1,2), of now] assms(3) by simp

lemma spec_run_ok:
  "store_ok \<sigma> \<Longrightarrow> list_all (op_valid \<circ> snd) ps \<Longrightarrow> ops_run spec_ops ps \<sigma> = (rs, \<sigma>') \<Longrightarrow> store_ok \<sigma>'"
proof (induction ps arbitrary: \<sigma> rs)
  case (Cons p ps)
  obtain now q where p: "p = (now, q)" by (cases p)
  obtain r s1 where s1: "ops_step spec_ops now q \<sigma> = (r, s1)" by (cases "ops_step spec_ops now q \<sigma>")
  have "store_ok s1" using step_ok_run [OF Cons.prems(1) _ s1] Cons.prems(2) p by simp
  then show ?case using Cons.IH Cons.prems s1 p by (auto split: prod.splits)
qed simp

lemma opens_bounded_spec:
  assumes "store_ok \<sigma>" "bounded_link \<sigma> i" "list_all (op_valid \<circ> snd) ps"
    "list_all (\<lambda>q. \<not> creates i (snd q)) ps" "ops_run spec_ops ps \<sigma> = (rs, \<sigma>')"
  shows "opens_won i ps rs + opens_left \<sigma>' i \<le> opens_left \<sigma> i"
  using assms
proof (induction ps arbitrary: \<sigma> rs)
  case Nil
  then show ?case by simp
next
  case (Cons p ps)
  obtain now q where p: "p = (now, q)" by (cases p)
  obtain r s1 where s1: "ops_step spec_ops now q \<sigma> = (r, s1)" by (cases "ops_step spec_ops now q \<sigma>")
  obtain rs2 s2 where s2: "ops_run spec_ops ps s1 = (rs2, s2)" by (cases "ops_run spec_ops ps s1")
  have rs: "rs = r # rs2" "\<sigma>' = s2" using Cons.prems(5) p s1 s2 by auto
  have "won i q r + opens_left s1 i \<le> opens_left \<sigma> i \<and> bounded_link s1 i"
    using Cons.prems p s1 by (intro step_opens_left) auto
  moreover have "store_ok s1" using step_ok_run [OF Cons.prems(1) _ s1] Cons.prems(3) p by simp
  ultimately have "opens_won i ps rs2 + opens_left s2 i \<le> opens_left s1 i"
    using Cons.IH [of s1 rs2] Cons.prems s2 rs by simp
  then show ?case
    using \<open>won i q r + opens_left s1 i \<le> opens_left \<sigma> i \<and> bounded_link s1 i\<close> by (simp add: p rs)
qed

lemma step_closed:
  assumes "closed_link \<sigma> i" "\<not> creates i p" "ops_step spec_ops now p \<sigma> = (r, \<sigma>')"
  shows "closed_link \<sigma>' i \<and> won i p r = 0"
proof
  show "closed_link \<sigma>' i"
    unfolding closed_link_def
  proof (intro allI impI)
    fix e' assume "\<sigma>' i = Some e'"
    then show "terminal (e_meta e')"
      using step_entry [OF assms(2,3)] assms(1) open_entry_Some(1)
      by (force simp: closed_link_def terminal_iff same_counts_def)
  qed
  have "won i p r \<noteq> 1"
    using step_won [OF assms(3)] assms(1) open_entry_Some(1) unfolding closed_link_def terminal_iff by metis
  then show "won i p r = 0" using won_le [of i p r] by simp
qed

lemma closed_stays_closed:
  assumes "closed_link \<sigma> i" "list_all (\<lambda>q. \<not> creates i (snd q)) ps" "ops_run spec_ops ps \<sigma> = (rs, \<sigma>')"
  shows "closed_link \<sigma>' i \<and> opens_won i ps rs = 0"
  using assms
proof (induction ps arbitrary: \<sigma> rs)
  case Nil
  then show ?case by simp
next
  case (Cons p ps)
  obtain now q where p: "p = (now, q)" by (cases p)
  obtain r s1 where s1: "ops_step spec_ops now q \<sigma> = (r, s1)" by (cases "ops_step spec_ops now q \<sigma>")
  obtain rs2 s2 where s2: "ops_run spec_ops ps s1 = (rs2, s2)" by (cases "ops_run spec_ops ps s1")
  have rs: "rs = r # rs2" "\<sigma>' = s2" using Cons.prems(3) p s1 s2 by auto
  have "closed_link s1 i \<and> won i q r = 0" using Cons.prems p s1 by (intro step_closed) auto
  then show ?case using Cons.IH [of s1 rs2] Cons.prems(2) s2 by (simp add: p rs)
qed

end
