(* ===== verification/Rate_Limiter.thy ===== *)
theory Rate_Limiter
  imports Js_Prelude
begin

text \<open>
  The fixed-window rate limiter: the interface RateLimitStore of packages/server-store/src/interfaces.ts,
  the in-memory store (memory/rate-limit-store.ts) and the Redis store (redis/rate-limit-store.ts),
  whose server is modelled as counters with an expiry and may fail at any call.
\<close>

section \<open>Windows\<close>

text \<open>\<open>Math.floor(Date.now() / 1000 / windowSeconds) * windowSeconds\<close>, with \<open>now\<close> in milliseconds.\<close>

definition windowFloor :: "int \<Rightarrow> int \<Rightarrow> int" where
  "windowFloor now w = now div (1000 * w) * w"

lemma window_end:
  assumes "0 < w"
  shows "now < (windowFloor now w + w) * 1000" "windowFloor now w * 1000 \<le> now"
proof -
  have "now = now div (1000 * w) * (1000 * w) + now mod (1000 * w)"
    by (rule div_mult_mod_eq [symmetric])
  moreover have "0 \<le> now mod (1000 * w)" "now mod (1000 * w) < 1000 * w" using assms by simp_all
  moreover have "(windowFloor now w + w) * 1000 = now div (1000 * w) * (1000 * w) + 1000 * w"
    "windowFloor now w * 1000 = now div (1000 * w) * (1000 * w)"
    by (simp_all add: windowFloor_def algebra_simps)
  ultimately show "now < (windowFloor now w + w) * 1000" "windowFloor now w * 1000 \<le> now" by linarith+
qed

datatype limiter_error = RateLimitUnavailable

section \<open>The memory store\<close>

type_synonym mem_limiter = "(string, nat) js_map"

definition mem_incrementAndGet :: "int \<Rightarrow> string \<Rightarrow> int \<Rightarrow> mem_limiter \<Rightarrow> (limiter_error + nat) \<times> mem_limiter" where
  "mem_incrementAndGet now key windowSeconds windows =
     (let windowKey = key @ CHR '':'' # show_int (windowFloor now windowSeconds);
          nxt = (case map_get windows windowKey of None \<Rightarrow> 0 | Some n \<Rightarrow> n) + 1
      in (Inr nxt, map_set windowKey nxt windows))"

section \<open>The Redis store\<close>

text \<open>
  A counter is stored with the time it expires (None without a TTL). A call can fail before the
  transaction reaches the server, or after it ran but before the reply arrived.
\<close>

datatype redis_fault = NoFault | NotExecuted | ReplyLost

record redis =
  counters :: "(string, nat \<times> int option) js_map"
  faults :: "redis_fault list"

definition redis_live :: "int \<Rightarrow> (nat \<times> int option) option \<Rightarrow> (nat \<times> int option) option" where
  "redis_live now c =
     (case c of
        Some (n, Some t) \<Rightarrow> if t \<le> now then None else Some (n, Some t)
      | c \<Rightarrow> c)"

text \<open>MULTI; INCR key; EXPIRE key seconds NX; EXEC, with the reply of INCR.\<close>

definition redis_multi :: "int \<Rightarrow> string \<Rightarrow> int \<Rightarrow> (string, nat \<times> int option) js_map
    \<Rightarrow> nat \<times> (string, nat \<times> int option) js_map" where
  "redis_multi now k seconds cs =
     (let (n, ttl) = (case redis_live now (map_get cs k) of None \<Rightarrow> (0, None) | Some c \<Rightarrow> c);
          ttl' = (case ttl of None \<Rightarrow> Some (now + seconds * 1000) | Some t \<Rightarrow> Some t)
      in (n + 1, map_set k (n + 1, ttl') cs))"

definition redis_incrementAndGet :: "int \<Rightarrow> string \<Rightarrow> int \<Rightarrow> redis \<Rightarrow> (limiter_error + nat) \<times> redis" where
  "redis_incrementAndGet now key windowSeconds r =
     (let redisKey = ''ratelimit:'' @ key @ CHR '':'' # show_int (windowFloor now windowSeconds);
          fault = (case faults r of [] \<Rightarrow> NoFault | f # _ \<Rightarrow> f);
          (count, cs) = redis_multi now redisKey windowSeconds (counters r)
      in case fault of
           NotExecuted \<Rightarrow> (Inl RateLimitUnavailable, r\<lparr>faults := tl (faults r)\<rparr>)
         | ReplyLost \<Rightarrow> (Inl RateLimitUnavailable, r\<lparr>counters := cs, faults := tl (faults r)\<rparr>)
         | NoFault \<Rightarrow> (Inr count, r\<lparr>counters := cs, faults := tl (faults r)\<rparr>))"

section \<open>The contract\<close>

text \<open>Calls of the limiter at given times; the replies that let a request with limit \<open>l\<close> pass.\<close>

fun limiter_run :: "(int \<Rightarrow> string \<Rightarrow> 'r \<Rightarrow> (limiter_error + nat) \<times> 'r) \<Rightarrow> (int \<times> string) list \<Rightarrow> 'r
    \<Rightarrow> (limiter_error + nat) list \<times> 'r" where
  "limiter_run incr [] s = ([], s)"
| "limiter_run incr ((now, k) # ks) s =
     (let (r, s1) = incr now k s; (rs, s2) = limiter_run incr ks s1 in (r # rs, s2))"

definition passes :: "nat \<Rightarrow> limiter_error + nat \<Rightarrow> bool" where
  "passes l r = (case r of Inl _ \<Rightarrow> False | Inr n \<Rightarrow> n \<le> l)"

definition passed :: "int \<Rightarrow> nat \<Rightarrow> string \<Rightarrow> int \<Rightarrow> (int \<times> string) list \<Rightarrow> (limiter_error + nat) list \<Rightarrow> nat" where
  "passed w l key f ks rs =
     length (filter (\<lambda>((now, k), r). k = key \<and> windowFloor now w = f \<and> passes l r) (zip ks rs))"

locale rate_limiter =
  fixes w :: int and incr :: "int \<Rightarrow> string \<Rightarrow> 'r \<Rightarrow> (limiter_error + nat) \<times> 'r"
    and cnt :: "'r \<Rightarrow> string \<Rightarrow> int \<Rightarrow> nat" and inv :: "'r \<Rightarrow> bool"
  assumes incr_ok: "inv s \<Longrightarrow> incr now k s = (Inr n, s') \<Longrightarrow>
      n = Suc (cnt s k (windowFloor now w)) \<and> cnt s' k (windowFloor now w) = n
      \<and> (\<forall>k' f. (k', f) \<noteq> (k, windowFloor now w) \<longrightarrow> cnt s' k' f = cnt s k' f) \<and> inv s'"
    and incr_err: "inv s \<Longrightarrow> incr now k s = (Inl e, s') \<Longrightarrow> (\<forall>k' f. cnt s k' f \<le> cnt s' k' f) \<and> inv s'"
begin

lemma passed_bounded:
  assumes "inv s" "limiter_run incr ks s = (rs, s')"
  shows "passed w l key f ks rs \<le> l - cnt s key f"
  using assms
proof (induction ks arbitrary: s rs s')
  case Nil
  then show ?case by (simp add: passed_def)
next
  case (Cons p ks)
  obtain now k where p: "p = (now, k)" by (cases p)
  obtain r s1 where s1: "incr now k s = (r, s1)" by (cases "incr now k s")
  obtain rs2 s2 where s2: "limiter_run incr ks s1 = (rs2, s2)" by (cases "limiter_run incr ks s1")
  have rs: "rs = r # rs2" using Cons.prems(2) p s1 s2 by auto
  show ?case
  proof (cases r)
    case (Inl e)
    have "cnt s key f \<le> cnt s1 key f" "inv s1" using incr_err [OF Cons.prems(1)] s1 Inl by auto
    then show ?thesis using Cons.IH [OF _ s2] by (simp add: rs p Inl passed_def passes_def)
  next
    case (Inr n)
    have n: "n = Suc (cnt s k (windowFloor now w))" "cnt s1 k (windowFloor now w) = n" "inv s1"
      "\<And>k' f. (k', f) \<noteq> (k, windowFloor now w) \<Longrightarrow> cnt s1 k' f = cnt s k' f"
      using incr_ok [OF Cons.prems(1), of now k n s1] s1 Inr by auto
    have IH: "passed w l key f ks rs2 \<le> l - cnt s1 key f" using Cons.IH [OF n(3) s2] .
    show ?thesis
    proof (cases "key = k \<and> f = windowFloor now w")
      case True
      then show ?thesis using IH n(1,2) by (auto simp: rs p Inr passed_def passes_def)
    next
      case False
      then show ?thesis using IH n(4) [of key f] by (auto simp: rs p Inr passed_def)
    qed
  qed
qed

end

section \<open>Both stores keep it\<close>

definition mem_cnt :: "mem_limiter \<Rightarrow> string \<Rightarrow> int \<Rightarrow> nat" where
  "mem_cnt s k f = (case map_get s (k @ CHR '':'' # show_int f) of None \<Rightarrow> 0 | Some n \<Rightarrow> n)"

lemma mem_cnt_set:
  "mem_cnt (map_set (k @ CHR '':'' # show_int f) n s) k' f' = (if (k', f') = (k, f) then n else mem_cnt s k' f')"
  using key_colon_inject [of k' f' k f] by (auto simp: mem_cnt_def)

interpretation mem_rl: rate_limiter w "\<lambda>now k. mem_incrementAndGet now k w" mem_cnt "\<lambda>s. True" for w
  by unfold_locales (auto simp: mem_incrementAndGet_def Let_def mem_cnt_set, simp_all add: mem_cnt_def)

definition redis_cnt :: "redis \<Rightarrow> string \<Rightarrow> int \<Rightarrow> nat" where
  "redis_cnt r k f =
     (case map_get (counters r) (''ratelimit:'' @ k @ CHR '':'' # show_int f) of None \<Rightarrow> 0 | Some (n, t) \<Rightarrow> n)"

text \<open>A counter of a window outlives the window.\<close>

definition redis_inv :: "int \<Rightarrow> redis \<Rightarrow> bool" where
  "redis_inv w r =
     (\<forall>k f n t. map_get (counters r) (''ratelimit:'' @ k @ CHR '':'' # show_int f) = Some (n, t) \<longrightarrow>
        (\<exists>e. t = Some e \<and> (f + w) * 1000 \<le> e))"

lemma redis_multi_window:
  assumes "0 < w" "redis_inv w r"
  defines "key \<equiv> \<lambda>k f. ''ratelimit:'' @ k @ CHR '':'' # show_int f"
  obtains e where "redis_multi now (key k (windowFloor now w)) w (counters r) =
      (Suc (redis_cnt r k (windowFloor now w)),
       map_set (key k (windowFloor now w)) (Suc (redis_cnt r k (windowFloor now w)), Some e) (counters r))"
    "(windowFloor now w + w) * 1000 \<le> e"
proof (cases "map_get (counters r) (key k (windowFloor now w))")
  case None
  then show ?thesis
    using that [of "now + w * 1000"] window_end(2) [OF assms(1), of now]
    by (simp add: redis_multi_def redis_cnt_def redis_live_def key_def algebra_simps)
next
  case (Some c)
  then obtain n e where c: "c = (n, Some e)" and e: "(windowFloor now w + w) * 1000 \<le> e"
    using assms(2) unfolding redis_inv_def key_def by (metis surj_pair)
  have "now < e" using window_end(1) [OF assms(1), of now] e by linarith
  then show ?thesis using that [of e] Some c e by (simp add: redis_multi_def redis_cnt_def redis_live_def key_def)
qed

lemma redis_set:
  assumes "redis_inv w r" "(f + w) * 1000 \<le> e"
  shows "redis_inv w (r\<lparr>counters := map_set (''ratelimit:'' @ k @ CHR '':'' # show_int f) (n, Some e) (counters r), faults := fs\<rparr>)"
    "redis_cnt (r\<lparr>counters := map_set (''ratelimit:'' @ k @ CHR '':'' # show_int f) (n, Some e) (counters r), faults := fs\<rparr>) k' f' =
       (if (k', f') = (k, f) then n else redis_cnt r k' f')"
  using assms key_colon_inject [of k' f' k f]
  by (auto simp: redis_inv_def redis_cnt_def dest: key_colon_inject)

lemma redis_incr:
  assumes "0 < w" "redis_inv w r" "redis_incrementAndGet now k w r = (q, r')"
  shows "redis_inv w r'
    \<and> (\<forall>k' f. (k', f) \<noteq> (k, windowFloor now w) \<longrightarrow> redis_cnt r' k' f = redis_cnt r k' f)
    \<and> redis_cnt r k (windowFloor now w) \<le> redis_cnt r' k (windowFloor now w)
    \<and> (\<forall>n. q = Inr n \<longrightarrow> n = Suc (redis_cnt r k (windowFloor now w)) \<and> redis_cnt r' k (windowFloor now w) = n)"
proof -
  obtain e where m: "redis_multi now (''ratelimit:'' @ k @ CHR '':'' # show_int (windowFloor now w)) w (counters r) =
      (Suc (redis_cnt r k (windowFloor now w)),
       map_set (''ratelimit:'' @ k @ CHR '':'' # show_int (windowFloor now w)) (Suc (redis_cnt r k (windowFloor now w)), Some e) (counters r))"
    and e: "(windowFloor now w + w) * 1000 \<le> e"
    using redis_multi_window [OF assms(1,2)] by blast
  have nof: "redis_inv w (r\<lparr>faults := fs\<rparr>)" "redis_cnt (r\<lparr>faults := fs\<rparr>) = redis_cnt r" for fs
    using assms(2) by (simp_all add: redis_inv_def redis_cnt_def fun_eq_iff)
  show ?thesis
    using assms(3) m redis_set [OF assms(2) e] nof
    by (auto simp: redis_incrementAndGet_def Let_def split: redis_fault.splits list.splits)
qed

interpretation redis_rl: rate_limiter 60 "\<lambda>now k. redis_incrementAndGet now k 60" redis_cnt "redis_inv 60"
proof (unfold_locales, goal_cases)
  case (1 s now k n s')
  then show ?case using redis_incr [of 60 s now k "Inr n" s'] by simp
next
  case (2 s now k e s')
  then have r: "redis_inv 60 s'" "redis_cnt s k (windowFloor now 60) \<le> redis_cnt s' k (windowFloor now 60)"
    "\<And>k' f. (k', f) \<noteq> (k, windowFloor now 60) \<Longrightarrow> redis_cnt s' k' f = redis_cnt s k' f"
    using redis_incr [of 60 s now k "Inl e" s'] by simp_all
  have "redis_cnt s k' f \<le> redis_cnt s' k' f" for k' f
    using r(2) r(3) [of k' f] by (cases "(k', f) = (k, windowFloor now 60)") auto
  with r(1) show ?case by blast
qed

lemma redis_empty_inv: "redis_inv w \<lparr>counters = [], faults = fs\<rparr>"
  by (simp add: redis_inv_def)

end
