(* ===== verification/Js_Number.thy ===== *)
theory Js_Number
  imports Complex_Main Js_Prelude
begin

text \<open>
  JavaScript numbers where the code distinguishes integers from other numbers: finite values are
  rationals, beside NaN and the infinities.
  Rounding to doubles is not modelled: the values come from JSON texts and integer arithmetic far
  below 2^53.
\<close>

datatype js_num = Fin rat | PosInf | NegInf | NaN

definition num :: "int \<Rightarrow> js_num" where
  "num i = Fin (of_int i)"

definition isInteger :: "js_num \<Rightarrow> bool" where
  "isInteger x = (case x of Fin q \<Rightarrow> of_int \<lfloor>q\<rfloor> = q | _ \<Rightarrow> False)"

definition int_of_num :: "js_num \<Rightarrow> int" where
  "int_of_num x = (case x of Fin q \<Rightarrow> \<lfloor>q\<rfloor> | _ \<Rightarrow> 0)"

definition isSafeInteger :: "js_num \<Rightarrow> bool" where
  "isSafeInteger x = (isInteger x \<and> \<bar>int_of_num x\<bar> \<le> 2 ^ 53 - 1)"

definition is_finite :: "js_num \<Rightarrow> bool" where
  "is_finite x = (case x of Fin q \<Rightarrow> True | _ \<Rightarrow> False)"

text \<open>The operator \<open><\<close>: false as soon as NaN is involved.\<close>

fun num_less :: "js_num \<Rightarrow> js_num \<Rightarrow> bool" where
  "num_less (Fin a) (Fin b) = (a < b)"
| "num_less NegInf y = (y \<noteq> NegInf \<and> y \<noteq> NaN)"
| "num_less x PosInf = (x \<noteq> PosInf \<and> x \<noteq> NaN)"
| "num_less _ _ = False"

lemma num_less_num [simp]: "num_less (num i) (num j) \<longleftrightarrow> i < j" "is_finite (num i)"
  by (simp_all add: num_def is_finite_def)

lemma isInteger_num [simp]: "isInteger (num i)" "int_of_num (num i) = i"
  by (simp_all add: isInteger_def int_of_num_def num_def)

lemma isInteger_iff: "isInteger x \<longleftrightarrow> (\<exists>i. x = num i)"
proof
  assume "isInteger x"
  then obtain q where "x = Fin q" "of_int \<lfloor>q\<rfloor> = q" by (auto simp: isInteger_def split: js_num.splits)
  then show "\<exists>i. x = num i" by (metis num_def)
qed auto

lemma num_inject [simp]: "num i = num j \<longleftrightarrow> i = j"
  by (simp add: num_def)

lemma num_int_of_num: "isInteger x \<Longrightarrow> num (int_of_num x) = x"
  by (auto simp: isInteger_iff)

end
