(* ===== verification/Json_Model.thy ===== *)
theory Json_Model
  imports Js_Number
begin

text \<open>
  JSON values as JSON.parse returns them and JSON.stringify takes them. The text syntax is the
  standard library's and stays a parameter of the definitions that parse; an object is the
  association list of its own properties.
\<close>

datatype json =
    JNull
  | JBool bool
  | JNum js_num
  | JStr string
  | JArr "json list"
  | JObj "(string \<times> json) list"

text \<open>Reading a property of a parsed value: None is undefined.\<close>

definition json_prop :: "string \<Rightarrow> json \<Rightarrow> json option" where
  "json_prop k v = (case v of JObj kvs \<Rightarrow> map_of kvs k | _ \<Rightarrow> None)"

text \<open>\<open>typeof v === "object" && v !== null\<close>\<close>

definition is_object :: "json \<Rightarrow> bool" where
  "is_object v = (case v of JObj _ \<Rightarrow> True | JArr _ \<Rightarrow> True | _ \<Rightarrow> False)"

definition prop_string :: "string \<Rightarrow> json \<Rightarrow> string option" where
  "prop_string k v = (case json_prop k v of Some (JStr s) \<Rightarrow> Some s | _ \<Rightarrow> None)"

definition prop_num :: "string \<Rightarrow> json \<Rightarrow> js_num option" where
  "prop_num k v = (case json_prop k v of Some (JNum n) \<Rightarrow> Some n | _ \<Rightarrow> None)"

definition prop_bool :: "string \<Rightarrow> json \<Rightarrow> bool option" where
  "prop_bool k v = (case json_prop k v of Some (JBool b) \<Rightarrow> Some b | _ \<Rightarrow> None)"

definition jint :: "int \<Rightarrow> json" where
  "jint i = JNum (num i)"

lemma prop_string_Some: "prop_string k v = Some s \<longleftrightarrow> json_prop k v = Some (JStr s)"
  by (auto simp: prop_string_def split: option.splits json.splits)

lemma prop_num_Some: "prop_num k v = Some n \<longleftrightarrow> json_prop k v = Some (JNum n)"
  by (auto simp: prop_num_def split: option.splits json.splits)


text \<open>
  The values that survive JSON.stringify and JSON.parse. A number that is not finite is written as null;
  an object has each property once; properties named like array indices are read back in their numeric
  order, whatever the order of insertion, so they are left out.
\<close>

definition index_like :: "string \<Rightarrow> bool" where
  "index_like k = (k \<noteq> [] \<and> list_all (\<lambda>c. c \<in> set ''0123456789'') k)"

fun json_plain :: "json \<Rightarrow> bool" where
  "json_plain (JNum n) = is_finite n"
| "json_plain (JArr vs) = list_all json_plain vs"
| "json_plain (JObj kvs) =
     (distinct (map fst kvs) \<and> list_all (\<lambda>kv. \<not> index_like (fst kv) \<and> json_plain (snd kv)) kvs)"
| "json_plain _ = True"

lemma json_plain_jint [simp]: "json_plain (jint i)"
  by (simp add: jint_def)

lemma index_like_Cons [simp]: "c \<notin> set ''0123456789'' \<Longrightarrow> \<not> index_like (c # k)"
  by (simp add: index_like_def)

text \<open>What the code relies on of the two functions, over the texts of any type.\<close>

definition json_returns :: "(json \<Rightarrow> 't) \<Rightarrow> ('t \<Rightarrow> json option) \<Rightarrow> bool" where
  "json_returns stringify parse = (\<forall>v. json_plain v \<longrightarrow> parse (stringify v) = Some v)"

lemma json_returns_D: "json_returns f g \<Longrightarrow> json_plain v \<Longrightarrow> g (f v) = Some v"
  by (simp add: json_returns_def)

end
