(* ===== verification/Base_Codec.thy ===== *)
theory Base_Codec
  imports Js_Prelude
begin

unbundle bit_operations_syntax

text \<open>
  The base-N codecs: packages/crypto/src/wire.ts (base64url, base32, upper hex), the mobile
  client's apps/mobile/src/lib/base64.ts and link-id.ts, and the API's lib/base64.ts and
  lib/link-id.ts. The loops keep JavaScript's 32-bit signed accumulator, whose high bits are
  lost at every left shift; the lemmas show that this never loses a bit that is still to be
  written, so each loop computes the textbook regrouping of the bit string.
\<close>

section \<open>Alphabets\<close>

definition BASE64URL_ALPHABET :: string where
  "BASE64URL_ALPHABET = ''ABCDEFGHIJKLMNOPQRSTUVWXYZabcdefghijklmnopqrstuvwxyz0123456789-_''"

definition BASE64_ALPHABET :: string where
  "BASE64_ALPHABET = ''ABCDEFGHIJKLMNOPQRSTUVWXYZabcdefghijklmnopqrstuvwxyz0123456789+/''"

definition BASE32_ALPHABET :: string where
  "BASE32_ALPHABET = ''abcdefghijklmnopqrstuvwxyz234567''"

definition HEX_CHARS :: string where
  "HEX_CHARS = ''0123456789ABCDEF''"

lemma length_alphabets [simp]:
  "length BASE64URL_ALPHABET = 64" "length BASE64_ALPHABET = 64"
  "length BASE32_ALPHABET = 32" "length HEX_CHARS = 16"
  by (simp_all add: BASE64URL_ALPHABET_def BASE64_ALPHABET_def BASE32_ALPHABET_def HEX_CHARS_def)

lemma distinct_alphabets [simp]:
  "distinct BASE64URL_ALPHABET" "distinct BASE64_ALPHABET" "distinct BASE32_ALPHABET" "distinct HEX_CHARS"
  by (simp_all add: BASE64URL_ALPHABET_def BASE64_ALPHABET_def BASE32_ALPHABET_def HEX_CHARS_def)

section \<open>The encoding loops\<close>

text \<open>
  The inner loop \<open>while (bits >= w)\<close>, returning the bits left over and the extended result;
  \<open>w\<close> is 6 for base64 and 5 for base32, and \<open>mask w\<close> the literal 0x3f or 0x1f.
\<close>

function drain :: "nat \<Rightarrow> string \<Rightarrow> int32 \<Rightarrow> nat \<Rightarrow> string \<Rightarrow> nat \<times> string" where
  "drain w alpha value bits result =
     (if 0 < w \<and> w \<le> bits
      then drain w alpha value (bits - w)
             (result @ [alpha ! unat (signed_drop_bit (bits - w) value AND mask w)])
      else (bits, result))"
  by auto
termination by (relation "measure (\<lambda>(w, alpha, value, bits, result). bits)") auto

declare drain.simps [simp del]

text \<open>The outer loop over the input bytes; \<open>value\<close> is shifted as a 32-bit integer.\<close>

fun pack_loop :: "nat \<Rightarrow> string \<Rightarrow> bytes \<Rightarrow> nat \<Rightarrow> int32 \<Rightarrow> string \<Rightarrow> nat \<times> int32 \<times> string" where
  "pack_loop w alpha [] bits value result = (bits, value, result)"
| "pack_loop w alpha (b # bs) bits value result =
     (let value' = push_bit 8 value OR ucast b;
          (bits', result') = drain w alpha value' (bits + 8) result
      in pack_loop w alpha bs bits' value' result')"

definition pack :: "nat \<Rightarrow> string \<Rightarrow> bytes \<Rightarrow> string" where
  "pack w alpha bs =
     (let (bits, value, result) = pack_loop w alpha bs 0 0 []
      in if 0 < bits then result @ [alpha ! unat (push_bit (w - bits) value AND mask w)] else result)"

definition base64urlEncode :: "bytes \<Rightarrow> string" where
  "base64urlEncode bs = pack 6 BASE64URL_ALPHABET bs"

definition base32EncodeLower :: "bytes \<Rightarrow> string" where
  "base32EncodeLower bs = pack 5 BASE32_ALPHABET bs"

section \<open>The decoding loop\<close>

definition decode_table :: "string \<Rightarrow> char \<Rightarrow> nat option" where
  "decode_table alpha = map_of (zip alpha [0..<length alpha])"

fun unpack_loop :: "string \<Rightarrow> string \<Rightarrow> nat \<Rightarrow> int32 \<Rightarrow> bytes \<Rightarrow> bytes option" where
  "unpack_loop alpha [] bits value out = Some out"
| "unpack_loop alpha (c # cs) bits value out =
     (case decode_table alpha c of
        None \<Rightarrow> None
      | Some v \<Rightarrow>
          (let value' = push_bit 6 value OR of_nat v; bits' = bits + 6
           in if 8 \<le> bits'
              then unpack_loop alpha cs (bits' - 8) value'
                     (out @ [ucast (signed_drop_bit (bits' - 8) value' AND mask 8)])
              else unpack_loop alpha cs bits' value' out))"

text \<open>
  The errors of packages/crypto/src/errors.ts, and JavaScript's own Error. Messages are kept where
  they tell branches apart; values interpolated into them are left out.
\<close>

datatype crypto_error =
    DecryptionError string
  | InvalidFormatError string
  | BadPassphraseError
  | RecipientMismatchError
  | PlainError string

text \<open>\<open>BadPassphraseError\<close> extends \<open>DecryptionError\<close>.\<close>

fun is_DecryptionError :: "crypto_error \<Rightarrow> bool" where
  "is_DecryptionError (DecryptionError m) = True"
| "is_DecryptionError BadPassphraseError = True"
| "is_DecryptionError _ = False"

definition base64urlDecode :: "string \<Rightarrow> crypto_error + bytes" where
  "base64urlDecode s =
     (case unpack_loop BASE64URL_ALPHABET s 0 0 [] of
        None \<Rightarrow> Inl (InvalidFormatError ''Invalid base64url character'')
      | Some out \<Rightarrow> Inr out)"

section \<open>Regrouping a bit string\<close>

text \<open>The complete groups of \<open>w\<close> bits, and the bits left over.\<close>

function groups :: "nat \<Rightarrow> bool list \<Rightarrow> bool list list" where
  "groups w bs = (if w = 0 \<or> length bs < w then [] else take w bs # groups w (drop w bs))"
  by auto
termination by (relation "measure (\<lambda>(w, bs). length bs)") auto

declare groups.simps [simp del]

definition leftover :: "nat \<Rightarrow> bool list \<Rightarrow> bool list" where
  "leftover w bs = drop (w * (length bs div w)) bs"

definition padded_groups :: "nat \<Rightarrow> bool list \<Rightarrow> bool list list" where
  "padded_groups w bs = groups w bs @
     (if leftover w bs = [] then []
      else [leftover w bs @ replicate (w - length (leftover w bs)) False])"

definition bytes_bits :: "bytes \<Rightarrow> bool list" where
  "bytes_bits bs = concat (map (word_bits 8) bs)"

lemma groups_short [codec_simps]: "length bs < w \<Longrightarrow> groups w bs = []"
  by (subst groups.simps) simp

lemma groups_step [codec_simps]:
  "0 < w \<Longrightarrow> length g = w \<Longrightarrow> groups w (g @ bs) = g # groups w bs"
  by (subst groups.simps) simp

lemma leftover_short [codec_simps]: "length bs < w \<Longrightarrow> leftover w bs = bs"
  by (simp add: leftover_def)

lemma leftover_step [codec_simps]:
  assumes "0 < w" "length g = w"
  shows "leftover w (g @ bs) = leftover w bs"
proof -
  have "(w + length bs) div w = Suc (length bs div w)"
    using assms by (simp add: div_add_self1)
  then show ?thesis using assms by (simp add: leftover_def)
qed

lemma length_leftover: "length (leftover w bs) = length bs mod w"
  by (simp add: leftover_def minus_mult_div_eq_mod)

lemma groups_induct [consumes 1, case_names short step]:
  assumes "0 < w" "\<And>bs. 0 < w \<Longrightarrow> length bs < w \<Longrightarrow> P bs"
    "\<And>g bs. 0 < w \<Longrightarrow> length g = w \<Longrightarrow> P bs \<Longrightarrow> P (g @ bs)"
  shows "P (bs :: bool list)"
proof (induction bs rule: measure_induct_rule [of length])
  case (less bs)
  show ?case
  proof (cases "length bs < w")
    case False
    then have "P (take w bs @ drop w bs)"
      using less [of "drop w bs"] assms(1)
      by (intro assms(3)) (auto simp del: append_take_drop_id)
    then show ?thesis by simp
  qed (simp add: assms)
qed

lemma groups_append:
  assumes "0 < w"
  shows "groups w (xs @ ys) = groups w xs @ groups w (leftover w xs @ ys)"
  using assms by (induction xs rule: groups_induct) (simp_all add: codec_simps)

lemma leftover_append:
  assumes "0 < w"
  shows "leftover w (xs @ ys) = leftover w (leftover w xs @ ys)"
  using assms by (induction xs rule: groups_induct) (simp_all add: codec_simps)

lemma concat_groups:
  assumes "0 < w"
  shows "concat (groups w bs) @ leftover w bs = bs"
  using assms by (induction bs rule: groups_induct) (simp_all add: codec_simps)

lemma groups_length:
  assumes "0 < w" "g \<in> set (groups w bs)"
  shows "length g = w"
  using assms by (induction bs rule: groups_induct) (auto simp: codec_simps)

lemma padded_groups_length:
  assumes "0 < w" "g \<in> set (padded_groups w bs)"
  shows "length g = w"
proof -
  have "length (leftover w bs) < w" using assms by (simp add: length_leftover)
  then show ?thesis
    using assms by (auto simp: padded_groups_def intro: groups_length [OF assms(1)] split: if_splits)
qed

lemma concat_padded_groups:
  assumes "0 < w"
  shows "\<exists>n < w. concat (padded_groups w bs) = bs @ replicate n False"
proof (cases "leftover w bs = []")
  case True
  then have "concat (padded_groups w bs) = bs @ replicate 0 False"
    using concat_groups [OF assms, of bs] by (simp add: padded_groups_def)
  with assms show ?thesis by blast
next
  case False
  let ?n = "w - length (leftover w bs)"
  have "concat (padded_groups w bs) = (concat (groups w bs) @ leftover w bs) @ replicate ?n False"
    using False by (simp add: padded_groups_def)
  also have "\<dots> = bs @ replicate ?n False"
    by (simp only: concat_groups [OF assms])
  finally show ?thesis
    using assms False by (intro exI [of _ ?n]) auto
qed

lemma groups_of_bytes:
  "length pad < 8 \<Longrightarrow> groups 8 (bytes_bits bs @ pad) = map (word_bits 8) bs"
  by (induction bs) (simp_all add: bytes_bits_def codec_simps)

section \<open>The loops compute the regrouping\<close>

lemma word_bits_snoc_bits [codec_simps]:
  fixes val :: int32 and x :: "'a::len word"
  assumes "bits + k \<le> 32" "\<And>i. bit x i \<Longrightarrow> i < k"
  shows "word_bits (bits + k) (push_bit k val OR ucast x) = word_bits bits val @ word_bits k x"
proof (rule nth_equalityI)
  fix i assume i: "i < length (word_bits (bits + k) (push_bit k val OR ucast x))"
  then have eq: "word_bits (bits + k) (push_bit k val OR ucast x) ! i =
      bit (push_bit k val OR (ucast x :: int32)) (bits + k - 1 - i)"
    by (simp add: nth_word_bits)
  show "word_bits (bits + k) (push_bit k val OR ucast x) ! i =
      (word_bits bits val @ word_bits k x) ! i"
  proof (cases "i < bits")
    case True
    then have "\<not> bit x (bits + k - 1 - i)" using assms(2) [of "bits + k - 1 - i"] by auto
    with True assms show ?thesis
      unfolding eq by (auto simp: nth_append nth_word_bits bit_or_iff bit_push_bit_iff bit_ucast_iff)
  next
    case False
    moreover have "k - 1 - (i - bits) = bits + k - 1 - i" "bits + k - 1 - i < k"
        "bits + k - 1 - i < 32"
      using False assms(1) i by auto
    ultimately show ?thesis
      using i assms(1) unfolding eq
      by (simp add: nth_append nth_word_bits bit_or_iff bit_push_bit_iff bit_ucast_iff)
  qed
qed simp

lemma word_bits_take:
  assumes "w \<le> bits" "bits \<le> 32"
  shows "word_bits w (signed_drop_bit (bits - w) (val :: int32)) = take w (word_bits bits val)"
  using assms by (intro nth_equalityI) (auto simp: nth_word_bits bit_signed_drop_bit_iff)

lemma word_bits_drop:
  "w \<le> bits \<Longrightarrow> word_bits (bits - w) val = drop w (word_bits bits val)"
  by (intro nth_equalityI) (auto simp: nth_word_bits)

lemma word_bits_push:
  "bits \<le> w \<Longrightarrow> w \<le> 32 \<Longrightarrow>
   word_bits w (push_bit (w - bits) (val :: int32)) = word_bits bits val @ replicate (w - bits) False"
  by (intro nth_equalityI) (auto simp: nth_word_bits nth_append bit_push_bit_iff)

lemma unat_masked:
  "w \<le> 32 \<Longrightarrow> unat ((x :: int32) AND mask w) = bits_nat (word_bits w x)"
  using unat_take_bits [of w x] by (simp add: take_bit_eq_mask)

abbreviation (input) digit :: "string \<Rightarrow> bool list \<Rightarrow> char" where
  "digit alpha g \<equiv> alpha ! bits_nat g"

lemma drain_groups:
  assumes "0 < w" "bits \<le> 32"
  shows "drain w alpha val bits result =
     (bits mod w, result @ map (digit alpha) (groups w (word_bits bits val)))"
  using assms
proof (induction w alpha val bits result rule: drain.induct)
  case (1 w alpha val bits result)
  show ?case
  proof (cases "w \<le> bits")
    case True
    have "groups w (word_bits bits val) =
        take w (word_bits bits val) # groups w (drop w (word_bits bits val))"
      using True 1 by (subst groups.simps) auto
    moreover have "bits mod w = (bits - w) mod w" using True by (simp add: le_mod_geq)
    ultimately show ?thesis
      using True 1
      by (subst drain.simps) (simp add: unat_masked word_bits_take word_bits_drop)
  next
    case False
    then show ?thesis using 1 by (subst drain.simps) (simp add: codec_simps)
  qed
qed

lemma word_bits_leftover:
  assumes "0 < w"
  shows "leftover w (word_bits bits val) = word_bits (bits mod w) val"
proof -
  have "bits - bits div w * w = bits mod w" by (simp add: minus_div_mult_eq_mod)
  then show ?thesis
    using word_bits_drop [of "w * (bits div w)" bits val]
    by (simp add: leftover_def mult.commute)
qed

lemma pack_loop_groups:
  assumes "0 < w" "w \<le> 24" "bits < w"
  shows "\<exists>val'. pack_loop w alpha bs bits val result =
      (let B = word_bits bits val @ bytes_bits bs
       in (length B mod w, val', result @ map (digit alpha) (groups w B)))
     \<and> word_bits (length (word_bits bits val @ bytes_bits bs) mod w) val' =
       leftover w (word_bits bits val @ bytes_bits bs)"
  using assms
proof (induction bs arbitrary: bits val result)
  case Nil
  then show ?case by (simp add: bytes_bits_def codec_simps)
next
  case (Cons b bs)
  let ?v = "push_bit 8 val OR ucast b :: int32"
  let ?X = "word_bits bits val @ word_bits 8 b"
  have X: "word_bits (bits + 8) ?v = ?X"
    using Cons.prems by (intro word_bits_snoc_bits) (auto dest: bit_imp_le_length)
  let ?m = "(bits + 8) mod w"
  let ?res = "result @ map (digit alpha) (groups w ?X)"
  have drain: "drain w alpha ?v (bits + 8) result = (?m, ?res)"
    using Cons.prems by (simp add: drain_groups X)
  have left: "word_bits ?m ?v = leftover w ?X"
    using Cons.prems word_bits_leftover [of w "bits + 8" ?v] by (simp add: X)
  have B: "word_bits bits val @ bytes_bits (b # bs) = ?X @ bytes_bits bs"
    by (simp add: bytes_bits_def)
  have "?m < w" using Cons.prems by simp
  from Cons.IH [OF Cons.prems(1,2) this, of ?v ?res] obtain v' where
    v': "pack_loop w alpha bs ?m ?v ?res =
        (let B = leftover w ?X @ bytes_bits bs
         in (length B mod w, v', ?res @ map (digit alpha) (groups w B)))"
      "word_bits (length (leftover w ?X @ bytes_bits bs) mod w) v' = leftover w (leftover w ?X @ bytes_bits bs)"
    unfolding left by blast
  have "length (?X @ bytes_bits bs) mod w = length (leftover w ?X @ bytes_bits bs) mod w"
    by (simp add: length_leftover mod_add_left_eq add.assoc)
  moreover have "groups w (?X @ bytes_bits bs) = groups w ?X @ groups w (leftover w ?X @ bytes_bits bs)"
    "leftover w (?X @ bytes_bits bs) = leftover w (leftover w ?X @ bytes_bits bs)"
    using Cons.prems(1) by (rule groups_append, rule leftover_append)
  ultimately show ?case
    using v' drain unfolding B
    by (intro exI [of _ v']) (simp only: Let_def pack_loop.simps prod.case map_append append_assoc)
qed

text \<open>The encoder writes the groups of the bit string, the last one filled with zero bits.\<close>

lemma pack_groups:
  assumes "0 < w" "w \<le> 24"
  shows "pack w alpha bs = map (digit alpha) (padded_groups w (bytes_bits bs))"
proof -
  let ?B = "bytes_bits bs"
  obtain v where v: "pack_loop w alpha bs 0 0 [] =
      (length ?B mod w, v, map (digit alpha) (groups w ?B))"
    "word_bits (length ?B mod w) v = leftover w ?B"
    using pack_loop_groups [OF assms, of 0 alpha bs 0 "[]"] assms by (auto simp: Let_def)
  have "leftover w ?B = [] \<longleftrightarrow> length ?B mod w = 0"
    by (metis length_0_conv length_leftover)
  moreover have "word_bits w (push_bit (w - length ?B mod w) v) =
      leftover w ?B @ replicate (w - length (leftover w ?B)) False"
    using assms by (simp add: word_bits_push v(2) length_leftover less_imp_le)
  ultimately show ?thesis
    using assms by (simp add: pack_def v(1) padded_groups_def unat_masked)
qed

section \<open>Decoding\<close>

lemma decode_table_nth:
  assumes "distinct alpha" "k < length alpha"
  shows "decode_table alpha (alpha ! k) = Some k"
proof -
  have "(alpha ! k, k) \<in> set (zip alpha [0..<length alpha])"
    using assms by (auto simp: set_zip intro!: exI [of _ k])
  then show ?thesis using assms by (simp add: decode_table_def)
qed

lemma decode_table_Some:
  assumes "decode_table alpha c = Some k"
  shows "k < length alpha \<and> alpha ! k = c"
  using assms by (auto simp: decode_table_def dest!: map_of_SomeD simp: set_zip)

lemma decode_table_None: "decode_table alpha c = None \<longleftrightarrow> c \<notin> set alpha"
  by (simp add: decode_table_def map_of_zip_is_None)

lemma word_bits_of_bits_nat:
  assumes "length g \<le> LENGTH('a::len)"
  shows "word_bits (length g) (of_nat (bits_nat g) :: 'a word) = g"
proof (rule bits_nat_inject)
  have "bits_nat g < 2 ^ LENGTH('a)"
    using less_le_trans [OF bits_nat_less power_increasing [OF assms]] by simp
  then have "unat (of_nat (bits_nat g) :: 'a word) = bits_nat g"
    by (simp add: unat_of_nat take_bit_nat_eq_self)
  then show "bits_nat (word_bits (length g) (of_nat (bits_nat g) :: 'a word)) = bits_nat g"
    using bits_nat_less [of g]
    by (simp add: unat_take_bits [OF assms, symmetric] unsigned_take_bit_eq take_bit_nat_eq_self)
qed simp

definition byte_of_bits :: "bool list \<Rightarrow> byte" where
  "byte_of_bits g = of_nat (bits_nat g)"

lemma byte_of_word_bits [simp]: "byte_of_bits (word_bits 8 b) = b"
  using word_of_bits [of b] by (simp add: byte_of_bits_def)

lemma masked_byte:
  "ucast ((x :: int32) AND mask 8) = byte_of_bits (word_bits 8 x)"
proof -
  have "byte_of_bits (word_bits 8 x) = of_nat (unat (x AND mask 8))"
    by (simp add: byte_of_bits_def unat_masked)
  also have "\<dots> = ucast (x AND mask 8)" by (rule of_nat_unat)
  finally show ?thesis by simp
qed

lemma unpack_loop_groups:
  assumes "distinct alpha" "length alpha = 64" "\<forall>g \<in> set gs. length g = 6" "bits < 8"
  shows "unpack_loop alpha (map (digit alpha) gs) bits val out =
     Some (out @ map byte_of_bits (groups 8 (word_bits bits val @ concat gs)))"
  using assms(3,4)
proof (induction gs arbitrary: bits val out)
  case Nil
  then show ?case by (simp add: codec_simps)
next
  case (Cons g gs)
  let ?v = "push_bit 6 val OR of_nat (bits_nat g) :: int32"
  let ?x = "of_nat (bits_nat g) :: int32"
  have lg: "length g = 6" using Cons.prems by simp
  have small: "bits_nat g < 64" using bits_nat_less [of g] lg by simp
  have "unat ?x = bits_nat g" using small by (simp add: unat_of_nat take_bit_nat_eq_self)
  then have "unat (take_bit 6 ?x) = unat ?x"
    using small by (simp add: unsigned_take_bit_eq take_bit_nat_eq_self)
  then have "take_bit 6 ?x = ?x"
    by (rule unsigned_word_eqI)
  then have bit: "bit ?x i \<Longrightarrow> i < 6" for i
    by (metis bit_take_bit_iff)
  have B: "word_bits (bits + 6) ?v = word_bits bits val @ g"
    using word_bits_snoc_bits [of bits 6 ?x val] bit Cons.prems lg word_bits_of_bits_nat [of g, where 'a=32]
    by simp
  have dec: "decode_table alpha (digit alpha g) = Some (bits_nat g)"
    using assms small by (simp add: decode_table_nth)
  show ?case
  proof (cases "bits < 2")
    case True
    then show ?thesis using Cons lg dec by (simp add: Let_def B)
  next
    case False
    let ?b = "bits - 2"
    have split: "word_bits (bits + 6) ?v = word_bits 8 (signed_drop_bit ?b ?v) @ word_bits ?b ?v"
      using False Cons.prems word_bits_take [of 8 "bits + 6" ?v] word_bits_drop [of 8 "bits + 6" ?v]
      by (simp del: append_take_drop_id) (metis append_take_drop_id)
    have "word_bits bits val @ concat (g # gs) =
        word_bits 8 (signed_drop_bit ?b ?v) @ (word_bits ?b ?v @ concat gs)"
      using split B by simp
    then have "groups 8 (word_bits bits val @ concat (g # gs)) =
        word_bits 8 (signed_drop_bit ?b ?v) # groups 8 (word_bits ?b ?v @ concat gs)"
      by (simp only: groups_step length_word_bits zero_less_numeral)
    then show ?thesis using False Cons dec by (simp add: Let_def masked_byte)
  qed
qed

lemma unpack_pack:
  assumes "distinct alpha" "length alpha = 64"
  shows "unpack_loop alpha (pack 6 alpha bs) 0 0 [] = Some bs"
proof -
  obtain n where "n < 6" "concat (padded_groups 6 (bytes_bits bs)) = bytes_bits bs @ replicate n False"
    using concat_padded_groups [of 6 "bytes_bits bs"] by auto
  moreover have "\<forall>g \<in> set (padded_groups 6 (bytes_bits bs)). length g = 6"
    using padded_groups_length [of 6] by simp
  ultimately show ?thesis
    using unpack_loop_groups [OF assms, of "padded_groups 6 (bytes_bits bs)" 0 0 "[]"]
    by (simp add: pack_groups groups_of_bytes comp_def)
qed

lemma base64url_roundtrip: "base64urlDecode (base64urlEncode bs) = Inr bs"
  by (simp add: base64urlDecode_def base64urlEncode_def unpack_pack)

lemma unpack_loop_total:
  "unpack_loop alpha s bits val out = None \<longleftrightarrow> \<not> set s \<subseteq> set alpha"
  by (induction alpha s bits val out rule: unpack_loop.induct)
    (auto simp: Let_def decode_table_None dest: decode_table_Some split: option.splits)

lemma base64urlDecode_rejects:
  "is_err (base64urlDecode s) \<longleftrightarrow> \<not> set s \<subseteq> set BASE64URL_ALPHABET"
  using unpack_loop_total [of BASE64URL_ALPHABET s 0 0 "[]"]
  by (auto simp: base64urlDecode_def split: option.splits)

end
