(* ===== verification/Base64_Text.thy ===== *)
theory Base64_Text
  imports Base_Codec
begin

text \<open>
  Standard base64 and link ids. The mobile client carries its own codec
  (apps/mobile/src/lib/base64.ts); the API encodes with the platform's \<open>btoa\<close>
  (apps/api/src/lib/base64.ts) and decodes request bodies with a regular expression and
  \<open>atob\<close> (decodeBase64 in handlers/messages-handler.ts). \<open>btoa\<close> and \<open>atob\<close> are written out
  from the WHATWG "forgiving-base64" rules; they are the standard library, so they are modelled.
\<close>

section \<open>The mobile codec\<close>

lemma pad_count_step:
  fixes m :: nat
  assumes "m mod 4 \<noteq> 0"
  shows "(4 - m mod 4) mod 4 = Suc ((4 - Suc m mod 4) mod 4)"
proof -
  have "m mod 4 = 1 \<or> m mod 4 = 2 \<or> m mod 4 = 3"
    using assms mod_less_divisor [of 4 m] by linarith
  then show ?thesis by (auto simp: mod_Suc)
qed

lemma pad_total:
  fixes m :: nat
  shows "(m + (4 - m mod 4) mod 4) mod 4 = 0"
proof -
  have "m mod 4 = 0 \<or> m mod 4 = 1 \<or> m mod 4 = 2 \<or> m mod 4 = 3"
    using mod_less_divisor [of 4 m] by linarith
  then have "(m mod 4 + (4 - m mod 4) mod 4) mod 4 = 0" by auto
  then show ?thesis by (simp only: mod_add_left_eq)
qed

lemma pad_count_less: "0 < (m::nat) mod 4 \<Longrightarrow> (4 - Suc m mod 4) mod 4 < 4 - m mod 4"
  using pad_count_step [of m] mod_less_eq_dividend [of "4 - m mod 4" 4] by linarith

function pad_eq :: "string \<Rightarrow> string" where
  "pad_eq s = (if length s mod 4 \<noteq> 0 then pad_eq (s @ ''='') else s)"
  by auto
termination
  by (relation "measure (\<lambda>s. (4 - length s mod 4) mod 4)") (simp_all add: pad_count_less)

declare pad_eq.simps [simp del]

definition strip_eq :: "string \<Rightarrow> string" where
  "strip_eq s = rev (dropWhile (\<lambda>c. c = CHR ''='') (rev s))"

definition bytesToBase64 :: "bytes \<Rightarrow> string" where
  "bytesToBase64 bs = pad_eq (pack 6 BASE64_ALPHABET bs)"

definition bytesToBase64Url :: "bytes \<Rightarrow> string" where
  "bytesToBase64Url bs =
     strip_eq (map (\<lambda>c. if c = CHR ''/'' then CHR ''_'' else c)
                (map (\<lambda>c. if c = CHR ''+'' then CHR ''-'' else c) (bytesToBase64 bs)))"

definition base64ToBytes :: "string \<Rightarrow> crypto_error + bytes" where
  "base64ToBytes s =
     (case unpack_loop BASE64_ALPHABET (strip_eq s) 0 0 [] of
        None \<Rightarrow> Inl (PlainError ''Invalid base64 character'')
      | Some out \<Rightarrow> Inr out)"

section \<open>The platform's btoa and atob\<close>

definition sextet :: "nat \<Rightarrow> char" where
  "sextet n = BASE64_ALPHABET ! n"

fun btoa :: "bytes \<Rightarrow> string" where
  "btoa [] = []"
| "btoa [a] = [sextet (unat a div 4), sextet (unat a mod 4 * 16), CHR ''='', CHR ''='']"
| "btoa [a, b] = [sextet (unat a div 4), sextet (unat a mod 4 * 16 + unat b div 16),
     sextet (unat b mod 16 * 4), CHR ''='']"
| "btoa (a # b # c # r) = [sextet (unat a div 4), sextet (unat a mod 4 * 16 + unat b div 16),
     sextet (unat b mod 16 * 4 + unat c div 64), sextet (unat c mod 64)] @ btoa r"

definition ascii_ws :: "char \<Rightarrow> bool" where
  "ascii_ws c = ((of_char c :: nat) \<in> {9, 10, 12, 13, 32})"

definition ends_with :: "'a list \<Rightarrow> 'a list \<Rightarrow> bool" where
  "ends_with t s = (take (length t) (rev s) = rev t)"

definition drop_pad :: "string \<Rightarrow> string" where
  "drop_pad s =
     (if length s mod 4 = 0
      then if ends_with ''=='' s then take (length s - 2) s
           else if ends_with ''='' s then take (length s - 1) s else s
      else s)"

definition atob :: "string \<Rightarrow> bytes option" where
  "atob s0 =
     (let s = drop_pad (filter (\<lambda>c. \<not> ascii_ws c) s0)
      in if length s mod 4 = 1 \<or> \<not> set s \<subseteq> set BASE64_ALPHABET then None
         else Some (map byte_of_bits (groups 8 (concat (map (\<lambda>c.
                word_bits 6 (of_nat (the (decode_table BASE64_ALPHABET c)) :: byte)) s)))))"

section \<open>The API's codec\<close>

text \<open>\<open>btoa\<close> on the binary string of char codes: the bytes themselves.\<close>

definition api_bytesToBase64 :: "bytes \<Rightarrow> string" where
  "api_bytesToBase64 bs = btoa bs"

definition char_in :: "char \<Rightarrow> char \<Rightarrow> char \<Rightarrow> bool" where
  "char_in lo hi c = ((of_char lo :: nat) \<le> of_char c \<and> (of_char c :: nat) \<le> of_char hi)"

definition alnum :: "char \<Rightarrow> bool" where
  "alnum c = (char_in CHR ''A'' CHR ''Z'' c \<or> char_in CHR ''a'' CHR ''z'' c \<or> char_in CHR ''0'' CHR ''9'' c)"

text \<open>\<open>/^[A-Za-z0-9+/]*={0,2}$/\<close>\<close>

definition BASE64_REGEX :: "string \<Rightarrow> bool" where
  "BASE64_REGEX s =
     (let body = takeWhile (\<lambda>c. alnum c \<or> c = CHR ''+'' \<or> c = CHR ''/'') s; tl = drop (length body) s
      in tl = [] \<or> tl = ''='' \<or> tl = ''=='')"

definition decodeBase64 :: "string \<Rightarrow> bytes option" where
  "decodeBase64 s = (if \<not> BASE64_REGEX s then None else atob s)"

section \<open>Link ids\<close>

text \<open>\<open>/^[A-Za-z0-9_-]{16}$/\<close>\<close>

definition LINK_ID_REGEX :: "string \<Rightarrow> bool" where
  "LINK_ID_REGEX s = (length s = 16 \<and> list_all (\<lambda>c. alnum c \<or> c = CHR ''_'' \<or> c = CHR ''-'') s)"

text \<open>The 12 random bytes are an argument.\<close>

definition generateLinkId :: "bytes \<Rightarrow> string" where
  "generateLinkId random12 = bytesToBase64Url random12"

section \<open>Agreement of the codecs\<close>

lemma alphabet_chars:
  "\<forall>c \<in> set BASE64_ALPHABET. alnum c \<or> c = CHR ''+'' \<or> c = CHR ''/''"
  "\<forall>c \<in> set BASE64URL_ALPHABET. alnum c \<or> c = CHR ''_'' \<or> c = CHR ''-''"
  by (simp_all add: BASE64_ALPHABET_def BASE64URL_ALPHABET_def alnum_def char_in_def)

lemma eq_not_in_alphabet: "CHR ''='' \<notin> set BASE64_ALPHABET" "CHR ''='' \<notin> set BASE64URL_ALPHABET"
  by (simp_all add: BASE64_ALPHABET_def BASE64URL_ALPHABET_def)

lemma alphabet_translate:
  "map (\<lambda>c. if c = CHR ''/'' then CHR ''_'' else c) (map (\<lambda>c. if c = CHR ''+'' then CHR ''-'' else c) BASE64_ALPHABET) =
   BASE64URL_ALPHABET"
  by (simp add: BASE64_ALPHABET_def BASE64URL_ALPHABET_def)

lemma set_pack:
  assumes "length alpha = 64"
  shows "set (pack 6 alpha bs) \<subseteq> set alpha"
proof -
  have "bits_nat g < length alpha" if "g \<in> set (padded_groups 6 (bytes_bits bs))" for g
    using padded_groups_length [OF _ that] bits_nat_less [of g] assms by simp
  then show ?thesis by (auto simp: pack_groups)
qed

lemma length_groups: "0 < w \<Longrightarrow> length (groups w bs) = length bs div w"
proof (induction w bs rule: groups.induct)
  case (1 w bs)
  show ?case
  proof (cases "length bs < w")
    case False
    then have "length bs div w = Suc ((length bs - w) div w)" using 1(2) by (simp add: le_div_geq)
    with False 1 show ?thesis by (subst groups.simps) simp
  qed (simp add: groups_short)
qed

lemma length_bytes_bits [simp]: "length (bytes_bits bs) = 8 * length bs"
  by (induction bs) (simp_all add: bytes_bits_def)

lemma length_pack:
  "length (pack 6 alpha bs) = 8 * length bs div 6 + of_bool (8 * length bs mod 6 \<noteq> 0)"
proof -
  have "leftover 6 (bytes_bits bs) = [] \<longleftrightarrow> 8 * length bs mod 6 = 0"
    using length_leftover [of 6 "bytes_bits bs"] by (metis length_0_conv length_bytes_bits)
  then show ?thesis
    by (simp add: pack_groups padded_groups_def length_groups)
qed

lemma pad_eq_count: "pad_eq s = s @ replicate ((4 - length s mod 4) mod 4) CHR ''=''"
proof (induction s rule: pad_eq.induct)
  case (1 s)
  show ?case
  proof (cases "length s mod 4 = 0")
    case True
    then show ?thesis by (subst pad_eq.simps) simp
  next
    case False
    then have "(4 - length s mod 4) mod 4 = Suc ((4 - length (s @ ''='') mod 4) mod 4)"
      using pad_count_step [of "length s"] by simp
    with False 1 show ?thesis by (subst pad_eq.simps) simp
  qed
qed

lemma strip_eq_pad:
  assumes "CHR ''='' \<notin> set s"
  shows "strip_eq (s @ replicate n CHR ''='') = s"
proof -
  have "dropWhile (\<lambda>c. c = CHR ''='') (replicate n CHR ''='' @ rev s) = rev s"
    using assms by (induction n) (cases "rev s"; auto simp: dropWhile_eq_self_iff hd_rev)+
  then show ?thesis by (simp add: strip_eq_def)
qed

lemma pack_no_eq: "CHR ''='' \<notin> set (pack 6 BASE64_ALPHABET bs)" "CHR ''='' \<notin> set (pack 6 BASE64URL_ALPHABET bs)"
  using set_pack [of BASE64_ALPHABET bs] set_pack [of BASE64URL_ALPHABET bs] eq_not_in_alphabet by auto

lemma base64_roundtrip: "base64ToBytes (bytesToBase64 bs) = Inr bs"
  by (simp add: base64ToBytes_def bytesToBase64_def pad_eq_count strip_eq_pad pack_no_eq unpack_pack)

lemma map_pack:
  assumes "length alpha = 64"
  shows "map f (pack 6 alpha bs) = pack 6 (map f alpha) bs"
proof -
  have "bits_nat g < length alpha" if "g \<in> set (padded_groups 6 (bytes_bits bs))" for g
    using padded_groups_length [OF _ that] bits_nat_less [of g] assms by simp
  then show ?thesis by (simp add: pack_groups)
qed

text \<open>The mobile url-safe encoder and the crypto package's agree.\<close>

lemma bytesToBase64Url_eq: "bytesToBase64Url bs = base64urlEncode bs"
proof -
  let ?p = "\<lambda>c. if c = CHR ''+'' then CHR ''-'' else c"
  let ?s = "\<lambda>c. if c = CHR ''/'' then CHR ''_'' else c"
  have "map ?s (map ?p (pack 6 BASE64_ALPHABET bs)) = pack 6 BASE64URL_ALPHABET bs"
    using alphabet_translate by (simp only: map_pack length_alphabets length_map)
  then show ?thesis
    by (simp add: bytesToBase64Url_def bytesToBase64_def base64urlEncode_def pad_eq_count
        strip_eq_pad pack_no_eq del: map_map)
qed

lemma generateLinkId_valid:
  assumes "length rnd = 12"
  shows "LINK_ID_REGEX (generateLinkId rnd)"
proof -
  have "set (base64urlEncode rnd) \<subseteq> set BASE64URL_ALPHABET"
    by (simp add: base64urlEncode_def set_pack)
  then show ?thesis
    using assms alphabet_chars(2)
    by (auto simp: LINK_ID_REGEX_def generateLinkId_def bytesToBase64Url_eq list_all_iff
        base64urlEncode_def length_pack)
qed

lemma generateLinkId_inject: "generateLinkId a = generateLinkId b \<longleftrightarrow> a = b"
  by (metis generateLinkId_def bytesToBase64Url_eq base64url_roundtrip sum.inject(2))

section \<open>The platform's btoa agrees with the mobile encoder\<close>

lemma bits_nat_append: "bits_nat (xs @ ys) = bits_nat xs * 2 ^ length ys + bits_nat ys"
  by (induction xs) (simp_all add: bits_nat_Cons algebra_simps power_add)

lemma bits_nat_replicate [simp]: "bits_nat (replicate n False) = 0"
  by (induction n) (simp_all add: bits_nat_Cons)

lemma bits_nat_zeros: "bits_nat (xs @ replicate n False) = bits_nat xs * 2 ^ n"
  by (simp add: bits_nat_append)

lemma unat_bits: "unat (b :: byte) = bits_nat (word_bits 8 b)"
  using unat_take_bits [of 8 b] by (simp add: take_bit_word_eq_self)

lemma bits_nat_split:
  assumes "n \<le> length xs"
  shows "bits_nat (take n xs) = bits_nat xs div 2 ^ (length xs - n)"
    "bits_nat (drop n xs) = bits_nat xs mod 2 ^ (length xs - n)"
proof -
  have "bits_nat (drop n xs) < 2 ^ (length xs - n)" using bits_nat_less [of "drop n xs"] by simp
  moreover have "bits_nat xs = bits_nat (take n xs) * 2 ^ (length xs - n) + bits_nat (drop n xs)"
    using bits_nat_append [of "take n xs" "drop n xs"] by simp
  ultimately show "bits_nat (take n xs) = bits_nat xs div 2 ^ (length xs - n)"
    "bits_nat (drop n xs) = bits_nat xs mod 2 ^ (length xs - n)" by simp_all
qed

lemma padded_step: "length g = 6 \<Longrightarrow> padded_groups 6 (g @ bs) = g # padded_groups 6 bs"
  by (simp add: padded_groups_def codec_simps)

lemma padded_last:
  "bs \<noteq> [] \<Longrightarrow> length bs < 6 \<Longrightarrow> padded_groups 6 bs = [bs @ replicate (6 - length bs) False]"
  by (simp add: padded_groups_def codec_simps)

lemma pad_eq_step: "length g = 4 \<Longrightarrow> pad_eq (g @ s) = g @ pad_eq s"
  by (simp add: pad_eq_count)

lemma pack64: "pack 6 BASE64_ALPHABET bs = map (\<lambda>g. sextet (bits_nat g)) (padded_groups 6 (bytes_bits bs))"
  by (simp add: pack_groups sextet_def)

lemma bits_split3:
  "bytes_bits (a # b # c # r) = take 6 (word_bits 8 a) @ (drop 6 (word_bits 8 a) @ take 4 (word_bits 8 b)) @
     (drop 4 (word_bits 8 b) @ take 2 (word_bits 8 c)) @ drop 2 (word_bits 8 c) @ bytes_bits r"
  by (simp add: bytes_bits_def)

lemma bits_split2:
  "bytes_bits [a, b] = take 6 (word_bits 8 a) @ (drop 6 (word_bits 8 a) @ take 4 (word_bits 8 b)) @
     drop 4 (word_bits 8 b)"
  by (simp add: bytes_bits_def)

lemma bits_split1: "bytes_bits [a] = take 6 (word_bits 8 a) @ drop 6 (word_bits 8 a)"
  by (simp add: bytes_bits_def)

lemma btoa_eq_bytesToBase64: "btoa bs = bytesToBase64 bs"
proof (induction bs rule: btoa.induct)
  case 1
  show ?case by (simp add: bytesToBase64_def pack64 padded_groups_def bytes_bits_def codec_simps pad_eq_count)
next
  case (2 a)
  have "drop 6 (word_bits 8 a) \<noteq> []" by (simp flip: length_greater_0_conv)
  then have "pack 6 BASE64_ALPHABET [a] = [sextet (unat a div 4), sextet (unat a mod 4 * 16)]"
    by (simp only: pack64 bits_split1 padded_step length_take length_word_bits)
      (simp add: padded_step padded_last bits_nat_zeros bits_nat_split unat_bits)
  then show ?case by (simp add: bytesToBase64_def pad_eq_count numeral_2_eq_2)
next
  case (3 a b)
  have "drop 4 (word_bits 8 b) \<noteq> []" by (simp flip: length_greater_0_conv)
  then have "pack 6 BASE64_ALPHABET [a, b] = [sextet (unat a div 4),
      sextet (unat a mod 4 * 16 + unat b div 16), sextet (unat b mod 16 * 4)]"
    by (simp only: pack64 bits_split2 padded_step length_append length_take length_drop length_word_bits)
      (simp add: padded_step padded_last bits_nat_zeros bits_nat_split bits_nat_append unat_bits)
  then show ?case by (simp add: bytesToBase64_def pad_eq_count)
next
  case (4 a b c r)
  have "pack 6 BASE64_ALPHABET (a # b # c # r) = [sextet (unat a div 4),
      sextet (unat a mod 4 * 16 + unat b div 16), sextet (unat b mod 16 * 4 + unat c div 64),
      sextet (unat c mod 64)] @ pack 6 BASE64_ALPHABET r"
    by (simp only: pack64 bits_split3 padded_step length_append length_take length_drop length_word_bits)
      (simp add: padded_step bits_nat_split bits_nat_append unat_bits)
  then show ?case
    using 4 by (simp only: bytesToBase64_def btoa.simps) (subst pad_eq_step; simp)
qed

section \<open>The API decodes what the clients encode\<close>

lemma pad_bound: "(4 - length (pack 6 BASE64_ALPHABET bs) mod 4) mod 4 \<le> 2"
proof -
  have "(8 * n div 6 + of_bool (8 * n mod 6 \<noteq> 0)) mod 4 \<noteq> (1 :: nat)" for n :: nat
    by (cases "8 * n mod 6 = 0") (simp_all, presburger+)
  then have "length (pack 6 BASE64_ALPHABET bs) mod 4 \<noteq> 1" by (simp only: length_pack not_False_eq_True)
  then have "length (pack 6 BASE64_ALPHABET bs) mod 4 = 0 \<or> length (pack 6 BASE64_ALPHABET bs) mod 4 = 2
      \<or> length (pack 6 BASE64_ALPHABET bs) mod 4 = 3"
    using mod_less_divisor [of 4 "length (pack 6 BASE64_ALPHABET bs)"] by linarith
  then show ?thesis by auto
qed

lemma drop_pad_padded:
  assumes "CHR ''='' \<notin> set p" "k \<le> 2" "(length p + k) mod 4 = 0"
  shows "drop_pad (p @ replicate k CHR ''='') = p"
proof -
  have "k = 0 \<or> k = 1 \<or> k = 2" using assms(2) by linarith
  moreover have "rev p = [] \<or> hd (rev p) \<noteq> CHR ''=''"
    using assms(1) by (cases "rev p") auto
  ultimately show ?thesis
    using assms by (cases "rev p") (auto simp: drop_pad_def ends_with_def numeral_2_eq_2)
qed

lemma pack_no_ws: "c \<in> set (pack 6 BASE64_ALPHABET bs) \<Longrightarrow> \<not> ascii_ws c"
proof -
  have "\<forall>c \<in> set BASE64_ALPHABET. \<not> ascii_ws c"
    by (simp add: BASE64_ALPHABET_def ascii_ws_def)
  then show "c \<in> set (pack 6 BASE64_ALPHABET bs) \<Longrightarrow> \<not> ascii_ws c"
    using set_pack [of BASE64_ALPHABET bs] by auto
qed

lemma sextet_bits:
  assumes "length g = 6"
  shows "word_bits 6 (of_nat (the (decode_table BASE64_ALPHABET (BASE64_ALPHABET ! bits_nat g))) :: byte) = g"
  using bits_nat_less [of g] word_bits_of_bits_nat [of g, where 'a = 8] assms
  by (simp add: decode_table_nth)

lemma atob_bytesToBase64: "atob (bytesToBase64 bs) = Some bs"
proof -
  let ?p = "pack 6 BASE64_ALPHABET bs" and ?G = "padded_groups 6 (bytes_bits bs)"
  let ?k = "(4 - length ?p mod 4) mod 4"
  have "\<not> ascii_ws CHR ''=''" by (simp add: ascii_ws_def)
  then have ws: "filter (\<lambda>c. \<not> ascii_ws c) (bytesToBase64 bs) = ?p @ replicate ?k CHR ''=''"
    by (auto simp: bytesToBase64_def pad_eq_count filter_id_conv pack_no_ws)
  have "(length ?p + ?k) mod 4 = 0"
    by (rule pad_total)
  then have drop: "drop_pad (?p @ replicate ?k CHR ''='') = ?p"
    using pack_no_eq pad_bound by (intro drop_pad_padded) auto
  have len: "length ?p mod 4 \<noteq> 1"
    using pad_bound [of bs] by auto
  obtain n where "n < 6" "concat ?G = bytes_bits bs @ replicate n False"
    using concat_padded_groups [of 6 "bytes_bits bs"] by auto
  moreover have "\<forall>g \<in> set ?G. length g = 6" using padded_groups_length [of 6] by simp
  then have "concat (map (\<lambda>c. word_bits 6 (of_nat (the (decode_table BASE64_ALPHABET c)) :: byte)) ?p) = concat ?G"
    by (simp add: pack_groups sextet_bits comp_def cong: map_cong)
  ultimately show ?thesis
    using len set_pack [of BASE64_ALPHABET bs]
    by (simp add: atob_def ws drop groups_of_bytes comp_def)
qed

lemma regex_bytesToBase64: "BASE64_REGEX (bytesToBase64 bs)"
proof -
  let ?P = "\<lambda>c. alnum c \<or> c = CHR ''+'' \<or> c = CHR ''/''"
  let ?p = "pack 6 BASE64_ALPHABET bs" and ?k = "(4 - length (pack 6 BASE64_ALPHABET bs) mod 4) mod 4"
  have "\<not> ?P CHR ''=''" by (simp add: alnum_def char_in_def)
  then have "takeWhile ?P (replicate ?k CHR ''='') = []" by (cases ?k) simp_all
  moreover have "\<forall>c \<in> set ?p. ?P c"
    using set_pack [of BASE64_ALPHABET bs] alphabet_chars(1) by auto
  ultimately have "takeWhile ?P (bytesToBase64 bs) = ?p"
    by (simp add: bytesToBase64_def pad_eq_count takeWhile_append)
  moreover have "?k = 0 \<or> ?k = 1 \<or> ?k = 2" using pad_bound [of bs] by linarith
  ultimately show ?thesis
    by (auto simp: BASE64_REGEX_def Let_def bytesToBase64_def pad_eq_count numeral_2_eq_2)
qed

lemma decodeBase64_bytesToBase64: "decodeBase64 (bytesToBase64 bs) = Some bs"
  by (simp add: decodeBase64_def regex_bytesToBase64 atob_bytesToBase64)

end
