(* ===== verification/Messages_Api.thy ===== *)
theory Messages_Api
  imports Link_Spec Rate_Limiter Json_Model Base64_Text
begin

text \<open>
  The HTTP handlers of apps/api/src/handlers/messages-handler.ts over the store interface of
  \<open>Link_Spec\<close> and a rate limiter. A handler takes the request and the state and returns the response
  with the new state; a thrown error (the limiter being down) is the left summand, which Fastify
  turns into an error response. What the handlers use of JSON.parse, Date, SHA-256 and HMAC is the
  record \<open>api_env\<close>.
\<close>

section \<open>Environment, requests and responses\<close>

record api_env =
  parse_json :: "string \<Rightarrow> json option"
  parse_date :: "string \<Rightarrow> int option"
  iso_date :: "int \<Rightarrow> string"
  hash_token :: "string \<Rightarrow> string"
  hash_ip :: "string \<Rightarrow> string"
  publicLinkOrigin :: string
  maxRetentionMs :: "int option"

record request =
  client_ip :: "string option"
  raw_body :: string
  token_header :: "string option"

record response =
  status_code :: nat
  resp_body :: json

text \<open>The deps object: the store's operations and the limiter's.\<close>

record ('s, 'r) deps =
  d_links :: "'s link_ops"
  d_rate :: "int \<Rightarrow> string \<Rightarrow> int \<Rightarrow> 'r \<Rightarrow> (limiter_error + nat) \<times> 'r"
  d_env :: api_env

record ('s, 'r) server =
  store :: 's
  limiter :: 'r

type_synonym ('s, 'r) handled = "(limiter_error + response) \<times> ('s, 'r) server"

definition MAX_BODY_BYTES :: nat where "MAX_BODY_BYTES = 37 * 1024 * 1024"
definition MAX_CIPHERTEXT_BYTES :: nat where "MAX_CIPHERTEXT_BYTES = 26 * 1024 * 1024"
definition MIN_CIPHERTEXT_BYTES :: nat where "MIN_CIPHERTEXT_BYTES = 32"
definition DEFAULT_MAX_RETENTION_MS :: int where "DEFAULT_MAX_RETENTION_MS = 365 * 24 * 60 * 60 * 1000"
definition RETENTION_GRACE_MS :: int where "RETENTION_GRACE_MS = 60 * 60 * 1000"
definition RATE_LIMIT_WINDOW_SECONDS :: int where "RATE_LIMIT_WINDOW_SECONDS = 60"
definition RATE_LIMIT_MAX :: nat where "RATE_LIMIT_MAX = 30"
definition GET_RATE_LIMIT_MAX :: nat where "GET_RATE_LIMIT_MAX = 60"
definition LIST_RATE_LIMIT_MAX :: nat where "LIST_RATE_LIMIT_MAX = 60"
definition LIST_MAX_IDS :: nat where "LIST_MAX_IDS = 100"

text \<open>
  \<open>Number(raw)\<close> is an argument; None stands for NaN and the infinities.
\<close>

definition resolveMaxRetentionMs :: "(string \<Rightarrow> int option) \<Rightarrow> string option \<Rightarrow> int" where
  "resolveMaxRetentionMs to_number raw =
     (case raw of
        None \<Rightarrow> DEFAULT_MAX_RETENTION_MS
      | Some s \<Rightarrow>
          if list_all (\<lambda>c. (of_char c :: nat) \<in> {9, 10, 11, 12, 13, 32, 160}) s then DEFAULT_MAX_RETENTION_MS
          else case to_number s of
                 None \<Rightarrow> DEFAULT_MAX_RETENTION_MS
               | Some n \<Rightarrow> if n \<le> 0 then DEFAULT_MAX_RETENTION_MS else n)"

definition jsonError :: "nat \<Rightarrow> string \<Rightarrow> response" where
  "jsonError st code = \<lparr>status_code = st, resp_body = JObj [(''error'', JStr code)]\<rparr>"

definition jsonOk :: "json \<Rightarrow> response" where
  "jsonOk body = \<lparr>status_code = 201, resp_body = body\<rparr>"

definition ok200 :: "json \<Rightarrow> response" where
  "ok200 body = \<lparr>status_code = 200, resp_body = body\<rparr>"

definition getClientIp :: "request \<Rightarrow> string" where
  "getClientIp req = (case client_ip req of None \<Rightarrow> ''unknown'' | Some ip \<Rightarrow> ip)"

text \<open>The rate limit check that opens every handler: over the limit is a 429.\<close>

definition with_limit :: "('s, 'r) deps \<Rightarrow> int \<Rightarrow> string \<Rightarrow> nat \<Rightarrow> request \<Rightarrow> ('s, 'r) server
    \<Rightarrow> (('s, 'r) server \<Rightarrow> ('s, 'r) handled) \<Rightarrow> ('s, 'r) handled" where
  "with_limit d now prefix limit req sv k =
     (case d_rate d now (prefix @ hash_ip (d_env d) (getClientIp req)) RATE_LIMIT_WINDOW_SECONDS (limiter sv) of
        (Inl e, r) \<Rightarrow> (Inl e, sv\<lparr>limiter := r\<rparr>)
      | (Inr count, r) \<Rightarrow>
          if limit < count then (Inr (jsonError 429 ''rate_limited''), sv\<lparr>limiter := r\<rparr>)
          else k (sv\<lparr>limiter := r\<rparr>))"

section \<open>Create\<close>

record request_body =
  b_id :: string
  b_ciphertext :: string
  b_expiresAt :: string
  b_maxOpens :: js_num

definition parseBody :: "api_env \<Rightarrow> string \<Rightarrow> request_body option" where
  "parseBody env raw =
     (case parse_json env raw of
        None \<Rightarrow> None
      | Some p \<Rightarrow>
          if \<not> is_object p then None
          else case (prop_string ''id'' p, prop_string ''ciphertext'' p, prop_string ''expiresAt'' p, prop_num ''maxOpens'' p) of
                 (Some i, Some c, Some e, Some m) \<Rightarrow>
                   Some \<lparr>b_id = i, b_ciphertext = c, b_expiresAt = e, b_maxOpens = m\<rparr>
               | _ \<Rightarrow> None)"

definition isEmptyBody :: "string \<Rightarrow> bool" where
  "isEmptyBody raw = (length raw = 0 \<or> raw = [CHR 0x00])"

definition bad_request :: response where
  "bad_request = jsonError 400 ''bad_request''"

text \<open>
  The checks on a parsed body, in the handler's order: Some is the link's expiry and ciphertext.
\<close>

definition check_create :: "api_env \<Rightarrow> int \<Rightarrow> request_body \<Rightarrow> (int \<times> bytes) option" where
  "check_create env now body =
     (if \<not> LINK_ID_REGEX (b_id body) then None
      else if \<not> isInteger (b_maxOpens body) \<or>
              (int_of_num (b_maxOpens body) \<le> 0 \<and> int_of_num (b_maxOpens body) \<noteq> -1) then None
      else case parse_date env (b_expiresAt body) of
             None \<Rightarrow> None
           | Some expiresAt \<Rightarrow>
               if expiresAt \<le> now then None
               else if expiresAt - now >
                         (case maxRetentionMs env of None \<Rightarrow> DEFAULT_MAX_RETENTION_MS | Some m \<Rightarrow> m) + RETENTION_GRACE_MS
               then None
               else case decodeBase64 (b_ciphertext body) of
                      None \<Rightarrow> None
                    | Some blob \<Rightarrow>
                        if length blob < MIN_CIPHERTEXT_BYTES \<or> length blob > MAX_CIPHERTEXT_BYTES then None
                        else Some (expiresAt, blob))"

text \<open>\<open>token\<close> is the revocation token that mintRevocationToken draws.\<close>

definition create_message :: "('s, 'r) deps \<Rightarrow> int \<Rightarrow> string \<Rightarrow> request \<Rightarrow> ('s, 'r) server \<Rightarrow> ('s, 'r) handled" where
  "create_message d now token req sv =
     with_limit d now ''messages:'' RATE_LIMIT_MAX req sv (\<lambda>sv.
       if length (raw_body req) > MAX_BODY_BYTES then (Inr bad_request, sv)
       else case parseBody (d_env d) (raw_body req) of
              None \<Rightarrow> (Inr bad_request, sv)
            | Some body \<Rightarrow>
                (case check_create (d_env d) now body of
                   None \<Rightarrow> (Inr bad_request, sv)
                 | Some (expiresAt, blob) \<Rightarrow>
                     if get_link (d_links d) (b_id body) (store sv) \<noteq> None
                     then (Inr (jsonError 409 ''id_conflict''), sv)
                     else
                       (case createWithCiphertext (d_links d)
                               \<lparr>cr_id = b_id body, cr_expiresAt = expiresAt, cr_maxOpens = int_of_num (b_maxOpens body),
                                cr_tokenHash = Some (hash_token (d_env d) token)\<rparr> blob (store sv) of
                          (Inl e, s) \<Rightarrow> (Inr (jsonError 500 ''internal_error''), sv\<lparr>store := s\<rparr>)
                        | (Inr meta, s) \<Rightarrow>
                            (Inr (jsonOk (JObj [(''id'', JStr (b_id body)),
                                (''url'', JStr (publicLinkOrigin (d_env d) @ ''/l/'' @ b_id body)),
                                (''revocationToken'', JStr token)])), sv\<lparr>store := s\<rparr>))))"

section \<open>Get\<close>

fun status_string :: "link_status \<Rightarrow> string" where
  "status_string Active = ''active''"
| "status_string Revoked = ''revoked''"
| "status_string Expired = ''expired''"

definition get_message :: "('s, 'r) deps \<Rightarrow> int \<Rightarrow> string \<Rightarrow> request \<Rightarrow> ('s, 'r) server \<Rightarrow> ('s, 'r) handled" where
  "get_message d now i req sv =
     (if \<not> LINK_ID_REGEX i then (Inr bad_request, sv)
      else with_limit d now ''messages:get:'' GET_RATE_LIMIT_MAX req sv (\<lambda>sv.
        case get_link (d_links d) i (store sv) of
          None \<Rightarrow> (Inr (jsonError 404 ''not_found''), sv)
        | Some row \<Rightarrow>
            if lm_status row \<noteq> Active then (Inr (jsonError 404 ''not_found''), sv)
            else if lm_expiresAt row \<le> now then (Inr (jsonError 404 ''not_found''), sv)
            else (Inr (ok200 (JObj [(''status'', JStr (status_string (lm_status row))),
                    (''expiresAt'', JStr (iso_date (d_env d) (lm_expiresAt row))),
                    (''maxOpens'', jint (lm_maxOpens row)), (''opensCount'', jint (lm_opensCount row))])), sv)))"

section \<open>Open\<close>

definition gone_response :: response where
  "gone_response = jsonError 410 ''no_longer_available''"

definition open_response :: "api_env \<Rightarrow> bytes \<Rightarrow> link_metadata \<Rightarrow> response" where
  "open_response env blob row =
     ok200 (JObj [(''ciphertext'', JStr (api_bytesToBase64 blob)),
       (''createdAt'', (case lm_createdAt row of None \<Rightarrow> JNull | Some c \<Rightarrow> JStr (iso_date env c))),
       (''expiresAt'', JStr (iso_date env (lm_expiresAt row))),
       (''opensCount'', jint (lm_opensCount row)), (''maxOpens'', jint (lm_maxOpens row)),
       (''status'', JStr (status_string (lm_status row)))])"

definition open_message :: "('s, 'r) deps \<Rightarrow> int \<Rightarrow> string \<Rightarrow> request \<Rightarrow> ('s, 'r) server \<Rightarrow> ('s, 'r) handled" where
  "open_message d now i req sv =
     (if \<not> LINK_ID_REGEX i then (Inr bad_request, sv)
      else if \<not> isEmptyBody (raw_body req) then (Inr bad_request, sv)
      else with_limit d now ''messages:open:'' RATE_LIMIT_MAX req sv (\<lambda>sv.
        let blob = get_blob (d_links d) i (store sv);
            (row, s) = incrementOpens (d_links d) now i (store sv);
            sv' = sv\<lparr>store := s\<rparr>
        in case row of
             None \<Rightarrow> (Inr gone_response, sv')
           | Some r \<Rightarrow>
               (case blob of
                  None \<Rightarrow> (Inr gone_response, sv')
                | Some b \<Rightarrow> (Inr (open_response (d_env d) b r), sv'))))"

section \<open>List\<close>

definition json_link_id :: "json \<Rightarrow> string option" where
  "json_link_id v = (case v of JStr s \<Rightarrow> if LINK_ID_REGEX s then Some s else None | _ \<Rightarrow> None)"

definition parseListBody :: "api_env \<Rightarrow> string \<Rightarrow> string list option" where
  "parseListBody env raw =
     (case parse_json env raw of
        None \<Rightarrow> None
      | Some p \<Rightarrow>
          if \<not> is_object p then None
          else case json_prop ''ids'' p of
                 Some (JArr ids) \<Rightarrow>
                   if length ids = 0 \<or> length ids > LIST_MAX_IDS then None
                   else those (map json_link_id ids)
               | _ \<Rightarrow> None)"

definition list_entry :: "('s, 'r) deps \<Rightarrow> int \<Rightarrow> 's \<Rightarrow> string \<Rightarrow> json" where
  "list_entry d now s i =
     (let gone = JObj [(''id'', JStr i), (''status'', JStr ''gone'')] in
      case get_link (d_links d) i s of
        None \<Rightarrow> gone
      | Some row \<Rightarrow>
          if lm_status row \<noteq> Active \<or> lm_expiresAt row \<le> now then gone
          else JObj [(''id'', JStr i), (''status'', JStr (status_string (lm_status row))),
                 (''expiresAt'', JStr (iso_date (d_env d) (lm_expiresAt row))),
                 (''maxOpens'', jint (lm_maxOpens row)), (''opensCount'', jint (lm_opensCount row))])"

definition list_messages :: "('s, 'r) deps \<Rightarrow> int \<Rightarrow> request \<Rightarrow> ('s, 'r) server \<Rightarrow> ('s, 'r) handled" where
  "list_messages d now req sv =
     with_limit d now ''messages:list:'' LIST_RATE_LIMIT_MAX req sv (\<lambda>sv.
       case parseListBody (d_env d) (raw_body req) of
         None \<Rightarrow> (Inr bad_request, sv)
       | Some ids \<Rightarrow> (Inr (ok200 (JObj [(''results'', JArr (map (list_entry d now (store sv)) ids))])), sv))"

section \<open>Revoke\<close>

definition revoke_message :: "('s, 'r) deps \<Rightarrow> int \<Rightarrow> string \<Rightarrow> request \<Rightarrow> ('s, 'r) server \<Rightarrow> ('s, 'r) handled" where
  "revoke_message d now i req sv =
     (if \<not> LINK_ID_REGEX i then (Inr bad_request, sv)
      else if \<not> isEmptyBody (raw_body req) then (Inr bad_request, sv)
      else with_limit d now ''messages:revoke:'' RATE_LIMIT_MAX req sv (\<lambda>sv.
        let provided = (case token_header req of
                          None \<Rightarrow> None
                        | Some t \<Rightarrow> if t = [] then None else Some (hash_token (d_env d) t))
        in (Inr (ok200 (JObj [(''id'', JStr i), (''status'', JStr ''revoked'')])),
            sv\<lparr>store := revoke_link (d_links d) now i provided (store sv)\<rparr>)))"

end
