(* ===== verification/Mem_Store.thy ===== *)
theory Mem_Store
  imports Link_Spec
begin

text \<open>
  The in-memory stores of packages/server-store/src/memory: the ciphertext store and the link
  metadata store with its three Maps. The methods run on a single thread and are modelled as one
  step each. For \<open>create\<close>, \<open>get\<close>, \<open>incrementOpens\<close> and \<open>revoke\<close> that is what happens: all their changes are made before
  the first suspension. \<open>createWithCiphertext\<close>, the sweep, the prune and \<open>adminPurge\<close> suspend between their changes
  until the microtask queue comes round; what another call could do there is left out. \<open>now\<close> is the value of
  Date.now() during the call.
\<close>

section \<open>The ciphertext store\<close>

type_synonym ct_store = "(string, bytes) js_map"

definition ct_put :: "string \<Rightarrow> bytes \<Rightarrow> ct_store \<Rightarrow> ct_store" where
  "ct_put i blob s = map_set i blob s"

definition ct_get :: "string \<Rightarrow> ct_store \<Rightarrow> bytes option" where
  "ct_get i s = map_get s i"

definition ct_delete :: "string \<Rightarrow> ct_store \<Rightarrow> ct_store" where
  "ct_delete i s = map_del i s"

definition ct_totalBytes :: "ct_store \<Rightarrow> nat" where
  "ct_totalBytes s = foldl (\<lambda>n (k, blob). n + length blob) 0 s"

section \<open>The link metadata store\<close>

record mem_store =
  rows :: "(string, link_metadata) js_map"
  revocationTokenHashes :: "(string, string option) js_map"
  terminalAt :: "(string, int) js_map"
  ciphertexts :: "ct_store option"

text \<open>The optional \<open>this.ciphertexts?.delete(id)\<close>.\<close>

definition ct_delete_if_wired :: "string \<Rightarrow> mem_store \<Rightarrow> mem_store" where
  "ct_delete_if_wired i s = s\<lparr>ciphertexts := map_option (ct_delete i) (ciphertexts s)\<rparr>"

definition mem_create :: "create_record \<Rightarrow> mem_store \<Rightarrow> (store_error + link_metadata) \<times> mem_store" where
  "mem_create r s =
     (if map_get (rows s) (cr_id r) \<noteq> None then (Inl DuplicateLink, s)
      else (Inr (new_meta r),
            s\<lparr>rows := map_set (cr_id r) (new_meta r) (rows s),
              revocationTokenHashes := map_set (cr_id r) (cr_tokenHash r) (revocationTokenHashes s)\<rparr>))"

text \<open>\<open>put_fails\<close> says that the blob write throws; the row is then taken back.\<close>

definition mem_createWithCiphertext :: "bool \<Rightarrow> create_record \<Rightarrow> bytes \<Rightarrow> mem_store
    \<Rightarrow> (store_error + link_metadata) \<times> mem_store" where
  "mem_createWithCiphertext put_fails r blob s =
     (case ciphertexts s of
        None \<Rightarrow> (Inl NoCiphertextStore, s)
      | Some _ \<Rightarrow>
          (case mem_create r s of
             (Inl e, s1) \<Rightarrow> (Inl e, s1)
           | (Inr meta, s1) \<Rightarrow>
               if put_fails
               then (Inl WriteFailed,
                     s1\<lparr>rows := map_del (cr_id r) (rows s1),
                        revocationTokenHashes := map_del (cr_id r) (revocationTokenHashes s1)\<rparr>)
               else (Inr meta, s1\<lparr>ciphertexts := map_option (ct_put (cr_id r) blob) (ciphertexts s1)\<rparr>)))"

definition mem_get :: "string \<Rightarrow> mem_store \<Rightarrow> link_metadata option" where
  "mem_get i s = map_get (rows s) i"

definition mem_incrementOpens :: "int \<Rightarrow> string \<Rightarrow> mem_store \<Rightarrow> link_metadata option \<times> mem_store" where
  "mem_incrementOpens now i s =
     (case map_get (rows s) i of
        None \<Rightarrow> (None, s)
      | Some row \<Rightarrow>
          if lm_status row \<noteq> Active then (None, s)
          else if lm_expiresAt row \<le> now then (None, s)
          else
            let newCount = lm_opensCount row + 1;
                newStatus = (if lm_maxOpens row \<noteq> -1 \<and> newCount \<ge> lm_maxOpens row then Expired else lm_status row);
                updated = row\<lparr>lm_opensCount := newCount, lm_status := newStatus\<rparr>;
                s1 = s\<lparr>rows := map_set i updated (rows s)\<rparr>
            in (Some updated,
                if newStatus = Expired
                then ct_delete_if_wired i (s1\<lparr>terminalAt := map_set i now (terminalAt s1)\<rparr>)
                else s1))"

definition mem_revoke :: "int \<Rightarrow> string \<Rightarrow> string option \<Rightarrow> mem_store \<Rightarrow> mem_store" where
  "mem_revoke now i providedTokenHash s =
     (case map_get (rows s) i of
        None \<Rightarrow> s
      | Some row \<Rightarrow>
          if lm_status row \<noteq> Active then s
          else
            let storedHash = Option.bind (map_get (revocationTokenHashes s) i) id;
                denied = (case storedHash of
                            None \<Rightarrow> False
                          | Some t \<Rightarrow> (case providedTokenHash of
                                         None \<Rightarrow> True | Some p \<Rightarrow> \<not> timingSafeEqualHex t p))
            in if denied then s
               else ct_delete_if_wired i
                      (s\<lparr>rows := map_set i (row\<lparr>lm_status := Revoked\<rparr>) (rows s),
                         terminalAt := map_set i now (terminalAt s)\<rparr>))"

text \<open>The loops of the sweep, each over the entries present when it starts.\<close>

definition mem_expire_row :: "int \<Rightarrow> mem_store \<Rightarrow> string \<times> link_metadata \<Rightarrow> mem_store" where
  "mem_expire_row now s kv =
     (case kv of (i, row) \<Rightarrow>
        if lm_status row = Active \<and> lm_expiresAt row \<le> now
        then s\<lparr>rows := map_set i (row\<lparr>lm_status := Expired\<rparr>) (rows s), terminalAt := map_set i now (terminalAt s)\<rparr>
        else s)"

definition mem_purge_row :: "mem_store \<times> nat \<Rightarrow> string \<times> link_metadata \<Rightarrow> mem_store \<times> nat" where
  "mem_purge_row sn kv =
     (case (sn, kv) of ((s, purged), (i, row)) \<Rightarrow>
        if lm_status row \<noteq> Expired \<and> lm_status row \<noteq> Revoked then (s, purged)
        else if Option.bind (ciphertexts s) (ct_get i) = None then (s, purged)
        else (ct_delete_if_wired i s, Suc purged))"

definition mem_prune_row :: "int \<Rightarrow> mem_store \<times> nat \<Rightarrow> string \<times> link_metadata \<Rightarrow> mem_store \<times> nat" where
  "mem_prune_row cutoff sn kv =
     (case (sn, kv) of ((s, deleted), (i, row)) \<Rightarrow>
        if lm_status row \<noteq> Expired \<and> lm_status row \<noteq> Revoked then (s, deleted)
        else case map_get (terminalAt s) i of
               None \<Rightarrow> (s, deleted)
             | Some t \<Rightarrow>
                 if t \<ge> cutoff then (s, deleted)
                 else (ct_delete_if_wired i
                        (s\<lparr>rows := map_del i (rows s),
                           revocationTokenHashes := map_del i (revocationTokenHashes s),
                           terminalAt := map_del i (terminalAt s)\<rparr>), Suc deleted))"

definition mem_pruneTerminal :: "int \<Rightarrow> mem_store \<Rightarrow> nat \<times> mem_store" where
  "mem_pruneTerminal before s =
     (case foldl (mem_prune_row before) (s, 0) (rows s) of (s', n) \<Rightarrow> (n, s'))"

definition mem_expirePastDue :: "int \<Rightarrow> int \<Rightarrow> mem_store \<Rightarrow> nat \<times> mem_store" where
  "mem_expirePastDue now retention s =
     (let s1 = foldl (mem_expire_row now) s (rows s)
      in case ciphertexts s1 of
           None \<Rightarrow> (0, snd (mem_pruneTerminal (now - retention) s1))
         | Some _ \<Rightarrow>
             (case foldl mem_purge_row (s1, 0) (rows s1) of
                (s2, purged) \<Rightarrow> (purged, snd (mem_pruneTerminal (now - retention) s2))))"

definition mem_aggregateStats :: "mem_store \<Rightarrow> nat \<times> nat" where
  "mem_aggregateStats s =
     (foldl (\<lambda>n (i, row). if lm_status row = Active then Suc n else n) 0 (rows s),
      (case ciphertexts s of None \<Rightarrow> 0 | Some cs \<Rightarrow> ct_totalBytes cs))"

definition mem_adminPurge :: "int \<Rightarrow> string \<Rightarrow> mem_store \<Rightarrow> purge_result \<times> mem_store" where
  "mem_adminPurge now i s =
     (let row = map_get (rows s) i;
          found = (row \<noteq> None);
          wasActive = (case row of None \<Rightarrow> False | Some r \<Rightarrow> lm_status r = Active);
          s1 = (if wasActive
                then s\<lparr>rows := map_set i ((the row)\<lparr>lm_status := Revoked\<rparr>) (rows s),
                       terminalAt := map_set i now (terminalAt s)\<rparr>
                else s);
          removed = (Option.bind (ciphertexts s1) (ct_get i) \<noteq> None)
      in (\<lparr>pr_found = found, pr_wasActive = wasActive, pr_ciphertextRemoved = removed\<rparr>,
          if removed then ct_delete_if_wired i s1 else s1))"

definition mem_get_blob :: "string \<Rightarrow> mem_store \<Rightarrow> bytes option" where
  "mem_get_blob i s = Option.bind (ciphertexts s) (ct_get i)"

definition mem_empty :: mem_store where
  "mem_empty = \<lparr>rows = [], revocationTokenHashes = [], terminalAt = [], ciphertexts = Some []\<rparr>"

definition mem_ops :: "mem_store link_ops" where
  "mem_ops = \<lparr>createWithCiphertext = mem_createWithCiphertext False, get_link = mem_get,
     incrementOpens = mem_incrementOpens, revoke_link = mem_revoke, expirePastDue = mem_expirePastDue,
     pruneTerminal = mem_pruneTerminal, adminPurge = mem_adminPurge, get_blob = mem_get_blob\<rparr>"

section \<open>What the Maps represent\<close>

type_synonym link_view = "link_metadata option \<times> string option option \<times> int option \<times> bytes option"

definition mem_view :: "mem_store \<Rightarrow> string \<Rightarrow> link_view" where
  "mem_view s i = (map_get (rows s) i, map_get (revocationTokenHashes s) i, map_get (terminalAt s) i,
     Option.bind (ciphertexts s) (ct_get i))"

fun entry_of_view :: "link_view \<Rightarrow> entry option" where
  "entry_of_view (None, tok, t, b) = None"
| "entry_of_view (Some m, tok, t, b) =
     Some \<lparr>e_meta = m, e_token = Option.bind tok id, e_terminal = t, e_blob = b\<rparr>"

definition mem_abs :: "mem_store \<Rightarrow> abs_store" where
  "mem_abs s i = entry_of_view (mem_view s i)"

definition view_ok :: "link_view \<Rightarrow> bool" where
  "view_ok v = (case v of (m, tok, t, b) \<Rightarrow> m = None \<longrightarrow> tok = None \<and> t = None \<and> b = None)"

definition mem_inv :: "mem_store \<Rightarrow> bool" where
  "mem_inv s = (map_ok (rows s) \<and> ciphertexts s \<noteq> None \<and> (\<forall>i. view_ok (mem_view s i)))"

section \<open>Views of the updated store\<close>

lemma view_set [simp]:
  "mem_view (s\<lparr>rows := map_set i r (rows s)\<rparr>) j = (if j = i then (Some r, snd (mem_view s i)) else mem_view s j)"
  "mem_view (s\<lparr>rows := map_set i r (rows s), terminalAt := map_set i t (terminalAt s)\<rparr>) j =
     (if j = i then (Some r, fst (snd (mem_view s i)), Some t, snd (snd (snd (mem_view s i)))) else mem_view s j)"
  by (auto simp: mem_view_def)

lemma view_ct_delete [simp]:
  "mem_view (ct_delete_if_wired i s) j =
     (if j = i then (case mem_view s i of (m, tok, t, b) \<Rightarrow> (m, tok, t, None)) else mem_view s j)"
  by (cases "ciphertexts s") (auto simp: mem_view_def ct_delete_if_wired_def ct_get_def ct_delete_def)

lemma fields_ct_delete [simp]:
  "rows (ct_delete_if_wired i s) = rows s" "terminalAt (ct_delete_if_wired i s) = terminalAt s"
  "ciphertexts (ct_delete_if_wired i s) = None \<longleftrightarrow> ciphertexts s = None"
  "(\<exists>y. ciphertexts (ct_delete_if_wired i s) = Some y) \<longleftrightarrow> (\<exists>y. ciphertexts s = Some y)"
  by (simp_all add: ct_delete_if_wired_def)

lemma fst_view: "fst (mem_view s i) = map_get (rows s) i"
  by (simp add: mem_view_def)

lemma mem_abs_None: "mem_abs s i = None \<longleftrightarrow> map_get (rows s) i = None"
  by (cases "map_get (rows s) i") (simp_all add: mem_abs_def mem_view_def)

lemma mem_abs_Some:
  "map_get (rows s) i = Some m \<Longrightarrow>
   mem_abs s i = Some \<lparr>e_meta = m, e_token = Option.bind (map_get (revocationTokenHashes s) i) id,
     e_terminal = map_get (terminalAt s) i, e_blob = Option.bind (ciphertexts s) (ct_get i)\<rparr>"
  by (simp add: mem_abs_def mem_view_def)

lemma mem_inv_D:
  assumes "mem_inv s"
  shows "map_ok (rows s)" "ciphertexts s \<noteq> None"
    "map_get (rows s) i = None \<Longrightarrow> Option.bind (ciphertexts s) (ct_get i) = None"
    "map_get (rows s) i = None \<Longrightarrow> map_get (terminalAt s) i = None"
  using assms by (auto simp: mem_inv_def view_ok_def mem_view_def)

text \<open>
  To show that an operation on one link keeps the invariant and changes the abstract store at that
  link only, it is enough to look at the views.
\<close>

lemma mem_point:
  assumes "mem_inv s" "map_ok (rows s')" "ciphertexts s' \<noteq> None"
    "\<And>j. j \<noteq> i \<Longrightarrow> mem_view s' j = mem_view s j" "view_ok (mem_view s' i)"
  shows "mem_inv s' \<and> mem_abs s' = (mem_abs s)(i := entry_of_view (mem_view s' i))"
proof -
  have "view_ok (mem_view s' j)" for j
    using assms by (cases "j = i") (auto simp: mem_inv_def)
  then have "mem_inv s'" using assms(2,3) by (simp add: mem_inv_def)
  moreover have "mem_abs s' = (mem_abs s)(i := entry_of_view (mem_view s' i))"
    using assms(4) by (auto simp: mem_abs_def fun_eq_iff)
  ultimately show ?thesis ..
qed

lemma mem_view_row:
  assumes "map_get (rows s) i = Some row"
  obtains tok t b where "mem_view s i = (Some row, tok, t, b)"
    "mem_abs s i = Some \<lparr>e_meta = row, e_token = Option.bind tok id, e_terminal = t, e_blob = b\<rparr>"
  using assms that by (simp add: mem_view_def mem_abs_Some)

section \<open>Simulation of the abstract store\<close>

lemma mem_create_sim:
  assumes "mem_inv s" "mem_createWithCiphertext False r b s = (q, s')"
  shows "spec_create r b (mem_abs s) = (q, mem_abs s') \<and> mem_inv s'"
proof (cases "map_get (rows s) (cr_id r)")
  case (Some m)
  then show ?thesis
    using assms mem_abs_Some [OF Some] mem_inv_D(2) [OF assms(1)]
    by (auto simp: mem_createWithCiphertext_def mem_create_def spec_create_def split: option.splits)
next
  case None
  obtain cs where cs: "ciphertexts s = Some cs" using mem_inv_D(2) [OF assms(1)] by blast
  let ?s = "s\<lparr>rows := map_set (cr_id r) (new_meta r) (rows s),
    revocationTokenHashes := map_set (cr_id r) (cr_tokenHash r) (revocationTokenHashes s),
    ciphertexts := Some (ct_put (cr_id r) b cs)\<rparr>"
  have s': "q = Inr (new_meta r)" "s' = ?s"
    using assms(2) None cs by (auto simp: mem_createWithCiphertext_def mem_create_def)
  have v: "mem_view ?s (cr_id r) = (Some (new_meta r), Some (cr_tokenHash r), None, Some b)"
    using mem_inv_D(4) [OF assms(1) None] by (simp add: mem_view_def ct_get_def ct_put_def)
  have p: "mem_inv ?s \<and> mem_abs ?s = (mem_abs s)(cr_id r := entry_of_view (mem_view ?s (cr_id r)))"
  proof (rule mem_point [OF assms(1)])
    show "map_ok (rows ?s)" using mem_inv_D(1) [OF assms(1)] by simp
    show "view_ok (mem_view ?s (cr_id r))" by (simp only: v) (simp add: view_ok_def)
  qed (simp_all add: mem_view_def cs ct_get_def ct_put_def)
  have "mem_abs s (cr_id r) = None" using None by (simp add: mem_abs_None)
  then show ?thesis using p s' by (simp add: spec_create_def v)
qed

lemma mem_get_sim: "mem_get i s = map_option e_meta (mem_abs s i)"
  by (cases "map_get (rows s) i") (simp_all add: mem_get_def mem_abs_def mem_view_def)

lemma mem_get_blob_sim:
  assumes "mem_inv s"
  shows "mem_get_blob i s = Option.bind (mem_abs s i) e_blob"
  using mem_inv_D(3) [OF assms, of i]
  by (cases "map_get (rows s) i") (simp_all add: mem_get_blob_def mem_abs_def mem_view_def)

lemma mem_increment_sim:
  assumes "mem_inv s" "mem_incrementOpens now i s = (q, s')"
  shows "spec_increment now i (mem_abs s) = (q, mem_abs s') \<and> mem_inv s'"
proof (cases "map_get (rows s) i")
  case None
  then have "mem_abs s i = None" by (simp add: mem_abs_None)
  then show ?thesis using assms None by (simp add: mem_incrementOpens_def spec_increment_def)
next
  case (Some row)
  from mem_view_row [OF this] obtain tok t b where v: "mem_view s i = (Some row, tok, t, b)"
    and e: "mem_abs s i = Some \<lparr>e_meta = row, e_token = Option.bind tok id, e_terminal = t, e_blob = b\<rparr>" .
  show ?thesis
  proof (cases "lm_status row \<noteq> Active \<or> lm_expiresAt row \<le> now")
    case True
    then show ?thesis using assms Some e
      by (auto simp: mem_incrementOpens_def spec_increment_def open_entry_def split: if_splits)
  next
    case False
    let ?x = "lm_maxOpens row \<noteq> -1 \<and> lm_opensCount row + 1 \<ge> lm_maxOpens row"
    let ?m = "row\<lparr>lm_opensCount := lm_opensCount row + 1, lm_status := if ?x then Expired else lm_status row\<rparr>"
    let ?s1 = "s\<lparr>rows := map_set i ?m (rows s)\<rparr>"
    let ?s2 = "if ?x then ct_delete_if_wired i (?s1\<lparr>terminalAt := map_set i now (terminalAt s)\<rparr>) else ?s1"
    have s': "q = Some ?m" "s' = ?s2"
      using assms(2) Some False by (auto simp: mem_incrementOpens_def Let_def split: if_splits)
    have v2: "mem_view ?s2 i = (Some ?m, tok, if ?x then Some now else t, if ?x then None else b)"
      by (simp add: v)
    have p: "mem_inv ?s2 \<and> mem_abs ?s2 = (mem_abs s)(i := entry_of_view (mem_view ?s2 i))"
    proof (rule mem_point [OF assms(1)])
      show "view_ok (mem_view ?s2 i)" by (simp only: v2) (simp add: view_ok_def)
    qed (use mem_inv_D(1,2) [OF assms(1)] in simp_all)
    show ?thesis
      using p False unfolding s' v2 by (auto simp: spec_increment_def e open_entry_def Let_def)
  qed
qed

lemma mem_close:
  fixes now :: int
  assumes "mem_inv s" "map_get (rows s) i = Some row" "st \<noteq> Active"
  defines "s1 \<equiv> ct_delete_if_wired i (s\<lparr>rows := map_set i (row\<lparr>lm_status := st\<rparr>) (rows s),
      terminalAt := map_set i now (terminalAt s)\<rparr>)"
  shows "mem_inv s1" "mem_abs s1 = (mem_abs s)(i \<mapsto> close_entry st now (the (mem_abs s i)))"
proof -
  from mem_view_row [OF assms(2)] obtain tok t b where v: "mem_view s i = (Some row, tok, t, b)"
    and e: "mem_abs s i = Some \<lparr>e_meta = row, e_token = Option.bind tok id, e_terminal = t, e_blob = b\<rparr>" .
  have v1: "mem_view s1 i = (Some (row\<lparr>lm_status := st\<rparr>), tok, Some now, None)"
    by (simp add: s1_def v)
  have "mem_inv s1 \<and> mem_abs s1 = (mem_abs s)(i := entry_of_view (mem_view s1 i))"
  proof (rule mem_point [OF assms(1)])
    show "view_ok (mem_view s1 i)" by (simp only: v1) (simp add: view_ok_def)
  qed (use mem_inv_D(1,2) [OF assms(1)] in \<open>simp_all add: s1_def\<close>)
  then show "mem_inv s1" "mem_abs s1 = (mem_abs s)(i \<mapsto> close_entry st now (the (mem_abs s i)))"
    by (simp_all add: v1 e close_entry_def)
qed

lemma mem_revoke_sim:
  assumes "mem_inv s"
  shows "mem_abs (mem_revoke now i h s) = spec_revoke now i h (mem_abs s) \<and> mem_inv (mem_revoke now i h s)"
proof (cases "map_get (rows s) i")
  case None
  then have "mem_abs s i = None" by (simp add: mem_abs_None)
  then show ?thesis using assms None by (simp add: mem_revoke_def spec_revoke_def)
next
  case (Some row)
  note e = mem_abs_Some [OF Some] and c = mem_close [OF assms Some, of Revoked now]
  show ?thesis
    using assms Some c
    by (auto simp: mem_revoke_def spec_revoke_def e authorized_def Let_def split: option.splits)
qed

lemma mem_purge_sim:
  assumes "mem_inv s" "mem_adminPurge now i s = (r, s')"
  shows "spec_adminPurge now i (mem_abs s) = (r, mem_abs s') \<and> mem_inv s'"
proof (cases "map_get (rows s) i")
  case None
  then have "mem_abs s i = None" by (simp add: mem_abs_None)
  then show ?thesis
    using assms None mem_inv_D(3) [OF assms(1) None]
    by (auto simp: mem_adminPurge_def spec_adminPurge_def Let_def)
next
  case (Some row)
  from mem_view_row [OF this] obtain tok t b where v: "mem_view s i = (Some row, tok, t, b)"
    and e: "mem_abs s i = Some \<lparr>e_meta = row, e_token = Option.bind tok id, e_terminal = t, e_blob = b\<rparr>" .
  have b: "Option.bind (ciphertexts s) (ct_get i) = b" using v by (simp add: mem_view_def)
  let ?act = "lm_status row = Active"
  let ?s1 = "if ?act then s\<lparr>rows := map_set i (row\<lparr>lm_status := Revoked\<rparr>) (rows s),
      terminalAt := map_set i now (terminalAt s)\<rparr> else s"
  let ?s2 = "if b \<noteq> None then ct_delete_if_wired i ?s1 else ?s1"
  have ct: "ciphertexts ?s1 = ciphertexts s" by simp
  have s': "r = \<lparr>pr_found = True, pr_wasActive = ?act, pr_ciphertextRemoved = (b \<noteq> None)\<rparr>" "s' = ?s2"
  proof -
    have "mem_adminPurge now i s = (\<lparr>pr_found = True, pr_wasActive = ?act, pr_ciphertextRemoved = (b \<noteq> None)\<rparr>, ?s2)"
      unfolding mem_adminPurge_def Let_def Some option.case option.sel ct b [symmetric] by (simp add: Some)
    then show "r = \<lparr>pr_found = True, pr_wasActive = ?act, pr_ciphertextRemoved = (b \<noteq> None)\<rparr>" "s' = ?s2"
      using assms(2) by simp_all
  qed
  have v2: "mem_view ?s2 i = (if ?act then (Some (row\<lparr>lm_status := Revoked\<rparr>), tok, Some now, None) else (Some row, tok, t, None))"
    by (cases b) (simp_all add: v)
  have "mem_inv ?s2 \<and> mem_abs ?s2 = (mem_abs s)(i := entry_of_view (mem_view ?s2 i))"
  proof (rule mem_point [OF assms(1)])
    show "view_ok (mem_view ?s2 i)" by (simp only: v2) (simp add: view_ok_def)
  qed (use mem_inv_D(1,2) [OF assms(1)] in simp_all)
  then show ?thesis unfolding s' v2 by (simp add: spec_adminPurge_def e close_entry_def)
qed

text \<open>The loops, one entry at a time.\<close>

lemma expire_row_view:
  "mem_view (mem_expire_row now s (i, row)) j =
     (if j = i then
        (if lm_status row = Active \<and> lm_expiresAt row \<le> now
         then (Some (row\<lparr>lm_status := Expired\<rparr>), fst (snd (mem_view s i)), Some now, snd (snd (snd (mem_view s i))))
         else mem_view s i)
      else mem_view s j)"
  by (simp add: mem_expire_row_def)

lemma purge_row_view:
  "mem_view (fst (mem_purge_row (s, n) (i, row))) j =
     (if j = i then
        (if terminal row then (case mem_view s i of (m, tok, t, b) \<Rightarrow> (m, tok, t, None)) else mem_view s i)
      else mem_view s j)"
  by (cases "ciphertexts s")
    (auto simp: mem_purge_row_def terminal_def mem_view_def ct_delete_if_wired_def ct_get_def ct_delete_def
      split: prod.splits)

lemma purge_row_count:
  "snd (mem_purge_row (s, n) (i, row)) =
     n + of_bool (terminal row \<and> snd (snd (snd (mem_view s i))) \<noteq> None)"
  by (auto simp: mem_purge_row_def terminal_def mem_view_def)

definition row_prunable :: "int \<Rightarrow> link_metadata \<Rightarrow> int option \<Rightarrow> bool" where
  "row_prunable before row t = (terminal row \<and> (case t of None \<Rightarrow> False | Some t \<Rightarrow> t < before))"

lemma prune_row_view:
  "mem_view (fst (mem_prune_row before (s, n) (i, row))) j =
     (if j = i then
        (if row_prunable before row (fst (snd (snd (mem_view s i)))) then (None, None, None, None) else mem_view s i)
      else mem_view s j)"
  by (cases "ciphertexts s")
    (auto simp: mem_prune_row_def row_prunable_def terminal_def mem_view_def ct_delete_if_wired_def ct_get_def
      ct_delete_def split: option.splits)

lemma prune_row_count:
  "snd (mem_prune_row before (s, n) (i, row)) =
     n + of_bool (row_prunable before row (fst (snd (snd (mem_view s i)))))"
  by (auto simp: mem_prune_row_def row_prunable_def terminal_def mem_view_def split: option.splits)

text \<open>What each loop does to the view of a link.\<close>

fun expire_view :: "int \<Rightarrow> link_view \<Rightarrow> link_view" where
  "expire_view now (Some row, tok, t, b) =
     (if lm_status row = Active \<and> lm_expiresAt row \<le> now
      then (Some (row\<lparr>lm_status := Expired\<rparr>), tok, Some now, b) else (Some row, tok, t, b))"
| "expire_view now (None, tok, t, b) = (None, tok, t, b)"

fun purge_view :: "link_view \<Rightarrow> link_view" where
  "purge_view (Some row, tok, t, b) = (if terminal row then (Some row, tok, t, None) else (Some row, tok, t, b))"
| "purge_view (None, tok, t, b) = (None, tok, t, b)"

fun prune_view :: "int \<Rightarrow> link_view \<Rightarrow> link_view" where
  "prune_view before (Some row, tok, t, b) =
     (if row_prunable before row t then (None, None, None, None) else (Some row, tok, t, b))"
| "prune_view before (None, tok, t, b) = (None, tok, t, b)"

definition mem_wf :: "mem_store \<Rightarrow> bool" where
  "mem_wf s = (map_ok (rows s) \<and> ciphertexts s \<noteq> None)"

lemma mem_inv_wf: "mem_inv s \<longleftrightarrow> mem_wf s \<and> (\<forall>i. view_ok (mem_view s i))"
  by (simp add: mem_inv_def mem_wf_def)

lemma view_cases: obtains row tok t b where "mem_view s j = (row, tok, t, b)" "map_get (rows s) j = row"
  by (simp add: mem_view_def)

lemma wf_expire_row: "mem_wf s \<Longrightarrow> mem_wf (mem_expire_row now s kv)"
  by (cases kv) (simp add: mem_wf_def mem_expire_row_def)

lemma wf_purge_row: "mem_wf (fst sn) \<Longrightarrow> mem_wf (fst (mem_purge_row sn kv))"
  by (cases sn; cases kv) (simp add: mem_wf_def mem_purge_row_def)

lemma wf_prune_row: "mem_wf (fst sn) \<Longrightarrow> mem_wf (fst (mem_prune_row before sn kv))"
  by (cases sn; cases kv) (auto simp: mem_wf_def mem_prune_row_def split: option.splits)

lemma expire_all:
  fixes now :: int
  assumes "mem_wf s"
  defines "s1 \<equiv> foldl (mem_expire_row now) s (rows s)"
  shows "mem_wf s1" "mem_view s1 j = expire_view now (mem_view s j)"
proof -
  show "mem_wf s1" unfolding s1_def by (rule foldl_invariant) (use assms(1) wf_expire_row in auto)
  have ok: "map_ok (rows s)" using assms(1) by (simp add: mem_wf_def)
  have "mem_view s1 j = (case map_get (rows s) j of None \<Rightarrow> mem_view s j
      | Some row \<Rightarrow> if lm_status row = Active \<and> lm_expiresAt row \<le> now
          then (Some (row\<lparr>lm_status := Expired\<rparr>), fst (snd (mem_view s j)), Some now, snd (snd (snd (mem_view s j))))
          else mem_view s j)"
    unfolding s1_def by (rule fold_entries [OF ok]) (rule expire_row_view)
  then show "mem_view s1 j = expire_view now (mem_view s j)"
    by (cases rule: view_cases [of s j]) (auto split: option.splits)
qed

lemma purge_all:
  assumes "mem_wf s"
  defines "p \<equiv> foldl mem_purge_row (s, 0) (rows s)"
  shows "mem_wf (fst p)" "mem_view (fst p) j = purge_view (mem_view s j)"
    "snd p = card {i. \<exists>row. map_get (rows s) i = Some row \<and> terminal row \<and> snd (snd (snd (mem_view s i))) \<noteq> None}"
proof -
  show "mem_wf (fst p)" unfolding p_def by (rule foldl_invariant) (use assms(1) wf_purge_row in auto)
  have ok: "map_ok (rows s)" using assms(1) by (simp add: mem_wf_def)
  let ?g = "\<lambda>k row v. if terminal row then (case v of (m, tok, t, b) \<Rightarrow> (m, tok, t, None)) else v"
  have step: "mem_view (fst (mem_purge_row p (k, v))) i = (if i = k then ?g k v (mem_view (fst p) k) else mem_view (fst p) i)"
    for p :: "mem_store \<times> nat" and k v i
    by (cases p) (simp add: purge_row_view)
  have "mem_view (fst p) j = (case map_get (rows s) j of None \<Rightarrow> mem_view s j
      | Some row \<Rightarrow> ?g j row (mem_view s j))"
    unfolding p_def using fold_entries [OF ok, where V = "\<lambda>p. mem_view (fst p)" and f = "mem_purge_row" and g = ?g, OF step]
    by (simp only: fst_conv)
  then show "mem_view (fst p) j = purge_view (mem_view s j)"
    by (cases rule: view_cases [of s j]) (auto split: option.splits)
  show "snd p = card {i. \<exists>row. map_get (rows s) i = Some row \<and> terminal row \<and> snd (snd (snd (mem_view s i))) \<noteq> None}"
    unfolding p_def
    using fold_entries_count [OF ok, where V = mem_view and f = mem_purge_row and s = s and n = 0 and g = ?g
        and Q = "\<lambda>k row v. terminal row \<and> snd (snd (snd v)) \<noteq> None", OF purge_row_view purge_row_count]
    by simp
qed

lemma prune_all:
  fixes before :: int
  assumes "mem_wf s"
  defines "p \<equiv> foldl (mem_prune_row before) (s, 0) (rows s)"
  shows "mem_wf (fst p)" "mem_view (fst p) j = prune_view before (mem_view s j)"
    "snd p = card {i. \<exists>row. map_get (rows s) i = Some row \<and> row_prunable before row (fst (snd (snd (mem_view s i))))}"
proof -
  show "mem_wf (fst p)" unfolding p_def by (rule foldl_invariant) (use assms(1) wf_prune_row in auto)
  have ok: "map_ok (rows s)" using assms(1) by (simp add: mem_wf_def)
  let ?g = "\<lambda>k row v. if row_prunable before row (fst (snd (snd v))) then (None, None, None, None) else v"
  have step: "mem_view (fst (mem_prune_row before p (k, v))) i = (if i = k then ?g k v (mem_view (fst p) k) else mem_view (fst p) i)"
    for p :: "mem_store \<times> nat" and k v i
    by (cases p) (simp add: prune_row_view)
  have "mem_view (fst p) j = (case map_get (rows s) j of None \<Rightarrow> mem_view s j
      | Some row \<Rightarrow> ?g j row (mem_view s j))"
    unfolding p_def using fold_entries [OF ok, where V = "\<lambda>p. mem_view (fst p)" and f = "mem_prune_row before" and g = ?g, OF step]
    by (simp only: fst_conv)
  then show "mem_view (fst p) j = prune_view before (mem_view s j)"
    by (cases rule: view_cases [of s j]) (auto split: option.splits)
  show "snd p = card {i. \<exists>row. map_get (rows s) i = Some row \<and> row_prunable before row (fst (snd (snd (mem_view s i))))}"
    unfolding p_def
    using fold_entries_count [OF ok, where V = mem_view and f = "mem_prune_row before" and s = s and n = 0 and g = ?g
        and Q = "\<lambda>k row v. row_prunable before row (fst (snd (snd v)))", OF prune_row_view prune_row_count]
    by simp
qed

lemma view_loops_ok:
  "view_ok v \<Longrightarrow> view_ok (expire_view now v)" "view_ok v \<Longrightarrow> view_ok (purge_view v)"
  "view_ok v \<Longrightarrow> view_ok (prune_view before v)"
  by (cases "(now, v)" rule: expire_view.cases; simp add: view_ok_def split: if_splits)+

lemma entry_prune_view:
  "entry_of_view (prune_view before v) =
     (case entry_of_view v of None \<Rightarrow> None | Some e \<Rightarrow> if prunable before e then None else Some e)"
  by (cases "(before, v)" rule: expire_view.cases) (auto simp: row_prunable_def prunable_def)

lemma entry_expire_view:
  "entry_of_view (purge_view (expire_view now v)) = map_option (expire_entry now) (entry_of_view v)"
  by (cases "(now, v)" rule: expire_view.cases) (auto simp: expire_entry_def past_due_def terminal_def Let_def)

lemma mem_prune_sim:
  assumes "mem_inv s" "mem_pruneTerminal before s = (n, s')"
  shows "spec_prune before (mem_abs s) = (n, mem_abs s') \<and> mem_inv s'"
proof -
  have wf: "mem_wf s" using assms(1) by (simp add: mem_inv_wf)
  note all = prune_all [OF wf, of before]
  let ?p = "foldl (mem_prune_row before) (s, 0) (rows s)"
  have p: "n = snd ?p" "s' = fst ?p" using assms(2) by (auto simp: mem_pruneTerminal_def split: prod.splits)
  have "mem_inv s'"
    using all(1,2) assms(1) by (simp add: p mem_inv_wf view_loops_ok)
  moreover have "mem_abs s' = prune_map before (mem_abs s)"
    by (simp add: fun_eq_iff mem_abs_def p all(2) entry_prune_view prune_map_def)
  moreover have "(\<exists>row. map_get (rows s) i = Some row \<and> row_prunable before row (fst (snd (snd (mem_view s i)))))
      \<longleftrightarrow> (\<exists>e. mem_abs s i = Some e \<and> prunable before e)" for i
    by (cases rule: view_cases [of s i]; cases "map_get (rows s) i")
      (auto simp: mem_abs_def row_prunable_def prunable_def)
  then have "n = count_entries (prunable before) (mem_abs s)"
    by (simp add: p all(3) count_entries_def)
  ultimately show ?thesis by (simp add: spec_prune_def)
qed

lemma mem_expire_sim:
  assumes "mem_inv s" "mem_expirePastDue now ret s = (n, s')"
  shows "spec_expirePastDue now ret (mem_abs s) = (n, mem_abs s') \<and> mem_inv s'"
proof -
  have wf: "mem_wf s" using assms(1) by (simp add: mem_inv_wf)
  let ?s1 = "foldl (mem_expire_row now) s (rows s)"
  note e = expire_all [OF wf, of now]
  let ?p = "foldl mem_purge_row (?s1, 0) (rows ?s1)"
  note q = purge_all [OF e(1)]
  have "ciphertexts ?s1 \<noteq> None" using e(1) by (simp add: mem_wf_def)
  then have p: "n = snd ?p" "s' = snd (mem_pruneTerminal (now - ret) (fst ?p))"
    using assms(2) by (auto simp: mem_expirePastDue_def Let_def split: prod.splits)
  have "mem_inv (fst ?p)"
    using q(1,2) e(2) assms(1) by (simp add: mem_inv_wf view_loops_ok)
  moreover have abs: "mem_abs (fst ?p) = expire_map now (mem_abs s)"
    by (simp add: fun_eq_iff mem_abs_def q(2) e(2) entry_expire_view expire_map_def)
  ultimately have "mem_abs s' = prune_map (now - ret) (expire_map now (mem_abs s)) \<and> mem_inv s'"
    using mem_prune_sim [of "fst ?p" "now - ret"] by (cases "mem_pruneTerminal (now - ret) (fst ?p)")
      (auto simp: p spec_prune_def)
  moreover have "(\<exists>row. map_get (rows ?s1) i = Some row \<and> terminal row \<and> snd (snd (snd (mem_view ?s1 i))) \<noteq> None)
      \<longleftrightarrow> (\<exists>x. mem_abs s i = Some x \<and> purgeable now x)" for i
    unfolding fst_view [symmetric] e(2)
    by (cases rule: view_cases [of s i]; cases "map_get (rows s) i")
      (auto simp: mem_abs_def terminal_def purgeable_def past_due_def split: if_splits)
  then have "n = count_entries (purgeable now) (mem_abs s)"
    by (simp only: p q(3) count_entries_def)
  ultimately show ?thesis by (simp add: spec_expirePastDue_def)
qed

interpretation mem: link_store mem_ops mem_abs mem_inv
proof (unfold_locales, goal_cases)
  case 1
  then show ?case by (simp add: mem_ops_def mem_create_sim)
next
  case 2
  then show ?case by (simp add: mem_ops_def mem_create_sim)
next
  case 3
  then show ?case by (simp add: mem_ops_def mem_get_sim)
next
  case 4
  then show ?case by (simp add: mem_ops_def mem_increment_sim)
next
  case 5
  then show ?case by (simp add: mem_ops_def mem_revoke_sim)
next
  case 6
  then show ?case by (simp add: mem_ops_def mem_expire_sim)
next
  case 7
  then show ?case by (simp add: mem_ops_def mem_prune_sim)
next
  case 8
  then show ?case by (simp add: mem_ops_def mem_purge_sim)
next
  case 9
  then show ?case by (simp add: mem_ops_def mem_get_blob_sim)
qed

lemma mem_empty_ok: "mem_inv mem_empty" "mem_abs mem_empty = (\<lambda>i. None)"
  by (simp_all add: mem_empty_def mem_inv_def view_ok_def mem_view_def mem_abs_def ct_get_def fun_eq_iff)

text \<open>A failed blob write leaves the Maps as they were.\<close>

lemma map_del_set_new: "map_get m k = None \<Longrightarrow> map_del k (map_set k v m) = m"
  by (induction m) (auto split: if_splits)

lemma mem_create_rollback:
  assumes "mem_inv s" "mem_createWithCiphertext True r b s = (q, s')"
  shows "s' = s \<and> is_err q"
proof (cases "map_get (rows s) (cr_id r)")
  case None
  have "map_get (revocationTokenHashes s) (cr_id r) = None"
    using assms(1) None by (auto simp: mem_inv_def view_ok_def mem_view_def)
  then show ?thesis
    using assms(2) None by (auto simp: mem_createWithCiphertext_def mem_create_def map_del_set_new split: option.splits)
next
  case (Some m)
  then show ?thesis
    using assms(2) by (auto simp: mem_createWithCiphertext_def mem_create_def split: option.splits)
qed

end
