(* ===== verification/Pg_Store.thy ===== *)
theory Pg_Store
  imports Link_Spec
begin

text \<open>
  The Postgres stores of packages/server-store/src/pg over the tables the migrations create. A
  table is a list of rows; UPDATE, DELETE and RETURNING are \<open>map\<close> and \<open>filter\<close>, the primary keys,
  CHECKs and the ON DELETE CASCADE foreign key are written out, and a transaction that fails
  returns the database it started from. \<open>now\<close> is the database's now(); opens_count is taken to
  stay below 2^31, the range of its column.
\<close>

section \<open>Tables\<close>

record pg_link =
  pl_id :: string
  pl_status :: link_status
  pl_created_at :: "int option"
  pl_expires_at :: int
  pl_max_opens :: int
  pl_opens_count :: int
  pl_token_hash :: "string option"
  pl_terminal_at :: "int option"

record pg_blob =
  pb_link_id :: string
  pb_blob :: bytes
  pb_size :: nat

record pg_db =
  links :: "pg_link list"
  link_ciphertexts :: "pg_blob list"

definition rowToMeta :: "pg_link \<Rightarrow> link_metadata" where
  "rowToMeta r = \<lparr>lm_id = pl_id r, lm_status = pl_status r, lm_createdAt = pl_created_at r,
     lm_expiresAt = pl_expires_at r, lm_maxOpens = pl_max_opens r, lm_opensCount = pl_opens_count r\<rparr>"

section \<open>The ciphertext store\<close>

definition pg_ct_put :: "string \<Rightarrow> bytes \<Rightarrow> pg_db \<Rightarrow> store_error + pg_db" where
  "pg_ct_put i blob db =
     (if i \<notin> pl_id ` set (links db) then Inl ConstraintViolation
      else if i \<in> pb_link_id ` set (link_ciphertexts db)
      then Inr (db\<lparr>link_ciphertexts := map (\<lambda>b. if pb_link_id b = i then b\<lparr>pb_blob := blob, pb_size := length blob\<rparr> else b)
                    (link_ciphertexts db)\<rparr>)
      else Inr (db\<lparr>link_ciphertexts := link_ciphertexts db @ [\<lparr>pb_link_id = i, pb_blob = blob, pb_size = length blob\<rparr>]\<rparr>))"

definition pg_ct_get :: "string \<Rightarrow> pg_db \<Rightarrow> bytes option" where
  "pg_ct_get i db = map_option pb_blob (find (\<lambda>b. pb_link_id b = i) (link_ciphertexts db))"

definition pg_ct_delete :: "string \<Rightarrow> pg_db \<Rightarrow> pg_db" where
  "pg_ct_delete i db = db\<lparr>link_ciphertexts := filter (\<lambda>b. pb_link_id b \<noteq> i) (link_ciphertexts db)\<rparr>"

definition pg_ct_totalBytes :: "pg_db \<Rightarrow> nat" where
  "pg_ct_totalBytes db = sum_list (map pb_size (link_ciphertexts db))"

section \<open>The link metadata store\<close>

text \<open>INSERT INTO links, with its primary key and CHECK constraints.\<close>

definition sql_insert_link :: "create_record \<Rightarrow> pg_db \<Rightarrow> store_error + (pg_link \<times> pg_db)" where
  "sql_insert_link r db =
     (if \<not> ((0 < cr_maxOpens r \<or> cr_maxOpens r = -1) \<and> cr_maxOpens r < 2 ^ 31) then Inl ConstraintViolation
      else if cr_id r \<in> pl_id ` set (links db) then Inl DuplicateLink
      else let row = \<lparr>pl_id = cr_id r, pl_status = Active, pl_created_at = None, pl_expires_at = cr_expiresAt r,
                      pl_max_opens = cr_maxOpens r, pl_opens_count = 0, pl_token_hash = cr_tokenHash r,
                      pl_terminal_at = None\<rparr>
           in Inr (row, db\<lparr>links := links db @ [row]\<rparr>))"

definition pg_create :: "create_record \<Rightarrow> pg_db \<Rightarrow> (store_error + link_metadata) \<times> pg_db" where
  "pg_create r db =
     (case sql_insert_link r db of
        Inl e \<Rightarrow> (Inl e, db)
      | Inr (row, db1) \<Rightarrow> (Inr (rowToMeta row), db1))"

text \<open>\<open>fails\<close> says that the second INSERT or the COMMIT fails; every error rolls both rows back.\<close>

definition pg_createWithCiphertext :: "bool \<Rightarrow> create_record \<Rightarrow> bytes \<Rightarrow> pg_db
    \<Rightarrow> (store_error + link_metadata) \<times> pg_db" where
  "pg_createWithCiphertext fails r blob db =
     (case sql_insert_link r db of
        Inl e \<Rightarrow> (Inl e, db)
      | Inr (row, db1) \<Rightarrow>
          if fails \<or> cr_id r \<in> pb_link_id ` set (link_ciphertexts db1) then (Inl WriteFailed, db)
          else (Inr (rowToMeta row),
                db1\<lparr>link_ciphertexts := link_ciphertexts db1 @
                     [\<lparr>pb_link_id = cr_id r, pb_blob = blob, pb_size = length blob\<rparr>]\<rparr>))"

definition pg_select :: "string \<Rightarrow> pg_db \<Rightarrow> pg_link option" where
  "pg_select i db = find (\<lambda>r. pl_id r = i) (links db)"

definition pg_get :: "string \<Rightarrow> pg_db \<Rightarrow> link_metadata option" where
  "pg_get i db = map_option rowToMeta (pg_select i db)"

text \<open>The SET clauses of the guarded UPDATE.\<close>

definition sql_count_open :: "int \<Rightarrow> pg_link \<Rightarrow> pg_link" where
  "sql_count_open now r =
     r\<lparr>pl_opens_count := pl_opens_count r + 1,
       pl_status := if pl_max_opens r \<noteq> -1 \<and> pl_opens_count r + 1 \<ge> pl_max_opens r then Expired else pl_status r,
       pl_terminal_at := if pl_max_opens r \<noteq> -1 \<and> pl_opens_count r + 1 \<ge> pl_max_opens r then Some now else pl_terminal_at r\<rparr>"

definition pg_incrementOpens :: "int \<Rightarrow> string \<Rightarrow> pg_db \<Rightarrow> link_metadata option \<times> pg_db" where
  "pg_incrementOpens now i db =
     (let live = (\<lambda>r. pl_id r = i \<and> pl_status r = Active \<and> pl_expires_at r > now);
          updated = map (sql_count_open now) (filter live (links db));
          exhausted = map pl_id (filter (\<lambda>r. pl_status r = Expired) updated)
      in (case updated of [] \<Rightarrow> None | r # _ \<Rightarrow> Some (rowToMeta r),
          db\<lparr>links := map (\<lambda>r. if live r then sql_count_open now r else r) (links db),
            link_ciphertexts := filter (\<lambda>b. pb_link_id b \<notin> set exhausted) (link_ciphertexts db)\<rparr>))"

definition sql_close :: "int \<Rightarrow> string \<Rightarrow> pg_db \<Rightarrow> pg_db" where
  "sql_close now i db =
     db\<lparr>links := map (\<lambda>r. if pl_id r = i then r\<lparr>pl_status := Revoked, pl_terminal_at := Some now\<rparr> else r) (links db)\<rparr>"

definition pg_revoke :: "int \<Rightarrow> string \<Rightarrow> string option \<Rightarrow> pg_db \<Rightarrow> pg_db" where
  "pg_revoke now i providedTokenHash db =
     (case pg_select i db of
        None \<Rightarrow> db
      | Some row \<Rightarrow>
          if pl_status row \<noteq> Active then db
          else
            let denied = (case pl_token_hash row of
                            None \<Rightarrow> False
                          | Some t \<Rightarrow> (case providedTokenHash of
                                         None \<Rightarrow> True | Some p \<Rightarrow> \<not> timingSafeEqualHex t p))
            in if denied then db else pg_ct_delete i (sql_close now i db))"

definition sql_terminal :: "pg_link \<Rightarrow> bool" where
  "sql_terminal r = (pl_status r = Expired \<or> pl_status r = Revoked)"

definition sql_prunable :: "int \<Rightarrow> pg_link \<Rightarrow> bool" where
  "sql_prunable before r =
     (sql_terminal r \<and> (case pl_terminal_at r of None \<Rightarrow> False | Some t \<Rightarrow> t < before))"

text \<open>DELETE FROM links cascades to the ciphertexts.\<close>

definition pg_pruneTerminal :: "int \<Rightarrow> pg_db \<Rightarrow> nat \<times> pg_db" where
  "pg_pruneTerminal before db =
     (let gone = filter (sql_prunable before) (links db)
      in (length gone,
          db\<lparr>links := filter (\<lambda>r. \<not> sql_prunable before r) (links db),
            link_ciphertexts := filter (\<lambda>b. pb_link_id b \<notin> pl_id ` set gone) (link_ciphertexts db)\<rparr>))"

text \<open>
  expirePastDue sends three statements, each committed on its own. \<open>pg_expirePastDue\<close> is the sweep that
  nothing comes between; theory Pg_Sweep interleaves and cuts off the statements.
\<close>

definition sql_expire_past_due :: "int \<Rightarrow> pg_db \<Rightarrow> pg_db" where
  "sql_expire_past_due now db =
     db\<lparr>links := map (\<lambda>r. if pl_status r = Active \<and> pl_expires_at r \<le> now
        then r\<lparr>pl_status := Expired, pl_terminal_at := Some now\<rparr> else r) (links db)\<rparr>"

definition sql_purge_terminal :: "pg_db \<Rightarrow> nat \<times> pg_db" where
  "sql_purge_terminal db =
     (let ids = pl_id ` set (filter sql_terminal (links db))
      in (length (filter (\<lambda>b. pb_link_id b \<in> ids) (link_ciphertexts db)),
          db\<lparr>link_ciphertexts := filter (\<lambda>b. pb_link_id b \<notin> ids) (link_ciphertexts db)\<rparr>))"

definition pg_expirePastDue :: "int \<Rightarrow> int \<Rightarrow> pg_db \<Rightarrow> nat \<times> pg_db" where
  "pg_expirePastDue now retention db =
     (let (rowCount, db2) = sql_purge_terminal (sql_expire_past_due now db)
      in (rowCount, snd (pg_pruneTerminal (now - retention) db2)))"

definition pg_aggregateStats :: "pg_db \<Rightarrow> nat \<times> nat" where
  "pg_aggregateStats db =
     (length (filter (\<lambda>r. pl_status r = Active) (links db)), pg_ct_totalBytes db)"

definition pg_adminPurge :: "int \<Rightarrow> string \<Rightarrow> pg_db \<Rightarrow> purge_result \<times> pg_db" where
  "pg_adminPurge now i db =
     (let row = pg_select i db;
          found = (row \<noteq> None);
          wasActive = (case row of None \<Rightarrow> False | Some r \<Rightarrow> pl_status r = Active);
          db1 = (if wasActive then sql_close now i db else db);
          rowCount = length (filter (\<lambda>b. pb_link_id b = i) (link_ciphertexts db1))
      in (\<lparr>pr_found = found, pr_wasActive = wasActive, pr_ciphertextRemoved = (0 < rowCount)\<rparr>,
          pg_ct_delete i db1))"

definition pg_ops :: "pg_db link_ops" where
  "pg_ops = \<lparr>createWithCiphertext = pg_createWithCiphertext False, get_link = pg_get,
     incrementOpens = pg_incrementOpens, revoke_link = pg_revoke, expirePastDue = pg_expirePastDue,
     pruneTerminal = pg_pruneTerminal, adminPurge = pg_adminPurge, get_blob = pg_ct_get\<rparr>"

definition pg_empty :: pg_db where
  "pg_empty = \<lparr>links = [], link_ciphertexts = []\<rparr>"

section \<open>What the tables represent\<close>

definition pg_abs :: "pg_db \<Rightarrow> abs_store" where
  "pg_abs db i =
     map_option (\<lambda>r. \<lparr>e_meta = rowToMeta r, e_token = pl_token_hash r, e_terminal = pl_terminal_at r,
                      e_blob = pg_ct_get i db\<rparr>) (pg_select i db)"

definition pg_inv :: "pg_db \<Rightarrow> bool" where
  "pg_inv db =
     (distinct (map pl_id (links db)) \<and> distinct (map pb_link_id (link_ciphertexts db)) \<and>
      pb_link_id ` set (link_ciphertexts db) \<subseteq> pl_id ` set (links db))"

section \<open>Rows found by key\<close>

lemma find_key_Some: "find (\<lambda>r. key r = i) xs = Some r \<Longrightarrow> key r = i \<and> r \<in> set xs"
  by (auto simp: find_Some_iff)

lemma find_map_key:
  assumes "\<And>r. key (g r) = key r"
  shows "find (\<lambda>r. key r = i) (map g xs) = map_option g (find (\<lambda>r. key r = i) xs)"
  by (induction xs) (auto simp: assms)

lemma find_absent: "i \<notin> key ` set xs \<Longrightarrow> find (\<lambda>r. key r = i) xs = None"
  by (auto simp: find_None_iff)

lemma find_present:
  assumes "distinct (map key xs)" "r \<in> set xs" "key r = i"
  shows "find (\<lambda>x. key x = i) xs = Some r"
  using assms by (induction xs) (auto simp: image_iff)

lemma in_key_image:
  assumes "distinct (map key xs)"
  shows "j \<in> key ` set (filter P xs) \<longleftrightarrow> (\<exists>r. find (\<lambda>r. key r = j) xs = Some r \<and> P r)"
proof
  assume "j \<in> key ` set (filter P xs)"
  then obtain r where "r \<in> set xs" "P r" "key r = j" by auto
  then show "\<exists>r. find (\<lambda>r. key r = j) xs = Some r \<and> P r"
    using find_present [OF assms, of r j] by blast
next
  assume "\<exists>r. find (\<lambda>r. key r = j) xs = Some r \<and> P r"
  then obtain r where r: "find (\<lambda>r. key r = j) xs = Some r" "P r" by blast
  with find_key_Some [OF r(1)] show "j \<in> key ` set (filter P xs)" by auto
qed

lemma find_filter_key:
  assumes "distinct (map key xs)"
  shows "find (\<lambda>r. key r = i) (filter P xs) =
    (case find (\<lambda>r. key r = i) xs of None \<Rightarrow> None | Some r \<Rightarrow> if P r then Some r else None)"
  using assms
proof (induction xs)
  case (Cons x xs)
  show ?case
  proof (cases "key x = i")
    case True
    then have "find (\<lambda>r. key r = i) xs = None" using Cons.prems by (intro find_absent) auto
    then show ?thesis using True Cons by simp
  qed (use Cons in auto)
qed simp

lemma find_filter_by_key:
  "find (\<lambda>r. key r = i) (filter (\<lambda>r. Q (key r)) xs) = (if Q i then find (\<lambda>r. key r = i) xs else None)"
  by (induction xs) auto

lemma filter_one_key:
  assumes "distinct (map key xs)"
  shows "filter (\<lambda>r. key r = i \<and> C r) xs =
    (case find (\<lambda>r. key r = i) xs of None \<Rightarrow> [] | Some r \<Rightarrow> if C r then [r] else [])"
  using assms
proof (induction xs)
  case (Cons x xs)
  show ?case
  proof (cases "key x = i")
    case True
    then have "find (\<lambda>r. key r = i) xs = None" using Cons.prems by (intro find_absent) auto
    then show ?thesis using True Cons by simp
  qed (use Cons in auto)
qed simp

lemma find_append: "find P (xs @ ys) = (case find P xs of None \<Rightarrow> find P ys | Some x \<Rightarrow> Some x)"
  by (induction xs) auto

lemma find_key_None: "find (\<lambda>r. key r = i) xs = None \<longleftrightarrow> i \<notin> key ` set xs"
  by (auto simp: find_None_iff)

lemma card_filter_key:
  assumes "distinct (map key xs)"
  shows "length (filter P xs) = card {i. \<exists>r. find (\<lambda>r. key r = i) xs = Some r \<and> P r}"
proof -
  have "{i. \<exists>r. find (\<lambda>r. key r = i) xs = Some r \<and> P r} = key ` set (filter P xs)"
    using assms by (induction xs) (auto simp: image_iff)
  moreover have "distinct (map key (filter P xs))" using assms by (simp add: distinct_map_filter)
  ultimately show ?thesis by (metis distinct_card length_map set_map)
qed

section \<open>Simulation of the abstract store\<close>

lemma pg_abs_None: "pg_abs db i = None \<longleftrightarrow> pg_select i db = None"
  by (simp add: pg_abs_def)

lemma pg_inv_D:
  assumes "pg_inv db"
  shows "distinct (map pl_id (links db))" "distinct (map pb_link_id (link_ciphertexts db))"
    "pg_select i db = None \<Longrightarrow> pg_ct_get i db = None"
  using assms by (auto simp: pg_inv_def pg_select_def pg_ct_get_def find_key_None)

text \<open>Operations that rewrite rows in place and drop ciphertexts by link id.\<close>

definition pg_edit :: "(pg_link \<Rightarrow> pg_link) \<Rightarrow> (string \<Rightarrow> bool) \<Rightarrow> pg_db \<Rightarrow> pg_db" where
  "pg_edit g Q db = db\<lparr>links := map g (links db),
     link_ciphertexts := filter (\<lambda>b. Q (pb_link_id b)) (link_ciphertexts db)\<rparr>"

lemma pg_edit_inv:
  assumes "pg_inv db" "\<And>r. pl_id (g r) = pl_id r"
  shows "pg_inv (pg_edit g Q db)"
  using assms by (auto simp: pg_inv_def pg_edit_def comp_def distinct_map_filter image_image)

lemma pg_edit_abs:
  assumes "\<And>r. pl_id (g r) = pl_id r"
  shows "pg_abs (pg_edit g Q db) i =
    map_option (\<lambda>r. \<lparr>e_meta = rowToMeta (g r), e_token = pl_token_hash (g r), e_terminal = pl_terminal_at (g r),
      e_blob = (if Q i then pg_ct_get i db else None)\<rparr>) (pg_select i db)"
  by (simp add: pg_abs_def pg_edit_def pg_select_def pg_ct_get_def find_map_key [of pl_id, OF assms]
      find_filter_by_key [of pb_link_id] option.map_comp comp_def)

lemma pg_create_sim:
  assumes "pg_inv db" "valid_record r" "pg_createWithCiphertext False r b db = (q, db')"
  shows "spec_create r b (pg_abs db) = (q, pg_abs db') \<and> pg_inv db'"
proof (cases "pg_select (cr_id r) db")
  case (Some row)
  then have "cr_id r \<in> pl_id ` set (links db)"
    by (metis pg_select_def find_key_None option.distinct(1))
  then show ?thesis
    using assms Some by (auto simp: pg_createWithCiphertext_def sql_insert_link_def valid_record_def
        spec_create_def pg_abs_def)
next
  case None
  then have new: "cr_id r \<notin> pl_id ` set (links db)" by (simp add: pg_select_def find_key_None)
  then have newb: "cr_id r \<notin> pb_link_id ` set (link_ciphertexts db)" using assms(1) by (auto simp: pg_inv_def)
  let ?row = "\<lparr>pl_id = cr_id r, pl_status = Active, pl_created_at = None, pl_expires_at = cr_expiresAt r,
    pl_max_opens = cr_maxOpens r, pl_opens_count = 0, pl_token_hash = cr_tokenHash r, pl_terminal_at = None\<rparr>"
  let ?db = "db\<lparr>links := links db @ [?row],
    link_ciphertexts := link_ciphertexts db @ [\<lparr>pb_link_id = cr_id r, pb_blob = b, pb_size = length b\<rparr>]\<rparr>"
  have q: "q = Inr (new_meta r)" "db' = ?db"
    using assms(2,3) new newb
    by (auto simp: pg_createWithCiphertext_def sql_insert_link_def valid_record_def Let_def rowToMeta_def new_meta_def)
  have "pg_inv ?db" using assms(1) new newb by (auto simp: pg_inv_def)
  moreover have "pg_ct_get i ?db = (if i = cr_id r then Some b else pg_ct_get i db)"
    "pg_select i ?db = (if i = cr_id r then Some ?row else pg_select i db)" for i
    using find_absent [OF new] find_absent [OF newb]
    by (auto simp: pg_ct_get_def pg_select_def find_append split: option.splits)
  then have "pg_abs ?db = (pg_abs db)(cr_id r \<mapsto>
      \<lparr>e_meta = new_meta r, e_token = cr_tokenHash r, e_terminal = None, e_blob = Some b\<rparr>)"
    by (auto simp: fun_eq_iff pg_abs_def rowToMeta_def new_meta_def)
  ultimately show ?thesis using None by (simp add: q spec_create_def pg_abs_None)
qed

lemma pg_get_sim: "pg_get i db = map_option e_meta (pg_abs db i)"
  by (simp add: pg_get_def pg_abs_def option.map_comp comp_def)

lemma pg_blob_sim: "pg_inv db \<Longrightarrow> pg_ct_get i db = Option.bind (pg_abs db i) e_blob"
  using pg_inv_D(3) [of db i] by (cases "pg_select i db") (simp_all add: pg_abs_def)

lemma pg_select_id: "pg_select i db = Some r \<Longrightarrow> pl_id r = i"
  unfolding pg_select_def by (drule find_key_Some) simp

lemma pg_increment_edit:
  assumes "pg_inv db"
  shows "pg_incrementOpens now i db =
    (case pg_select i db of
       None \<Rightarrow> (None, db)
     | Some r \<Rightarrow>
         if pl_status r = Active \<and> pl_expires_at r > now
         then (Some (rowToMeta (sql_count_open now r)),
               pg_edit (\<lambda>r. if pl_id r = i \<and> pl_status r = Active \<and> pl_expires_at r > now
                            then sql_count_open now r else r)
                 (\<lambda>k. \<not> (k = i \<and> pl_status (sql_count_open now r) = Expired)) db)
         else (None, db))"
proof -
  have f: "filter (\<lambda>r. pl_id r = i \<and> pl_status r = Active \<and> pl_expires_at r > now) (links db) =
      (case pg_select i db of None \<Rightarrow> [] | Some r \<Rightarrow> if pl_status r = Active \<and> pl_expires_at r > now then [r] else [])"
    unfolding pg_select_def by (rule filter_one_key [OF pg_inv_D(1) [OF assms]])
  have same: "map (\<lambda>r. if pl_id r = i \<and> pl_status r = Active \<and> pl_expires_at r > now then sql_count_open now r else r)
      (links db) = links db" if "filter (\<lambda>r. pl_id r = i \<and> pl_status r = Active \<and> pl_expires_at r > now) (links db) = []"
    using that by (intro map_idI) (auto simp: filter_empty_conv)
  show ?thesis
  proof (cases "\<exists>r. pg_select i db = Some r \<and> pl_status r = Active \<and> pl_expires_at r > now")
    case False
    then have empty: "filter (\<lambda>r. pl_id r = i \<and> pl_status r = Active \<and> pl_expires_at r > now) (links db) = []"
      unfolding f by (auto split: option.splits)
    then have "pg_incrementOpens now i db = (None, db)"
      unfolding pg_incrementOpens_def Let_def empty same [OF empty] by simp
    then show ?thesis using False by (auto split: option.splits)
  next
    case True
    then obtain r where r: "pg_select i db = Some r" "pl_status r = Active" "pl_expires_at r > now" by blast
    then have one: "filter (\<lambda>r. pl_id r = i \<and> pl_status r = Active \<and> pl_expires_at r > now) (links db) = [r]"
      unfolding f by simp
    have "pl_id (sql_count_open now r) = i" using pg_select_id [OF r(1)] by (simp add: sql_count_open_def)
    then have "pg_incrementOpens now i db = (Some (rowToMeta (sql_count_open now r)),
        pg_edit (\<lambda>r. if pl_id r = i \<and> pl_status r = Active \<and> pl_expires_at r > now
                     then sql_count_open now r else r)
          (\<lambda>k. \<not> (k = i \<and> pl_status (sql_count_open now r) = Expired)) db)"
      unfolding pg_incrementOpens_def Let_def one pg_edit_def by (auto simp: filter_id_conv)
    then show ?thesis using r by simp
  qed
qed

text \<open>An edit of one row.\<close>

lemma pg_edit_point:
  assumes "pg_select i db = Some r" "\<And>r. pl_id (g r) = pl_id r" "\<And>x. pl_id x \<noteq> i \<Longrightarrow> g x = x"
    "\<And>k. k \<noteq> i \<Longrightarrow> Q k"
  shows "pg_abs (pg_edit g Q db) = (pg_abs db)(i \<mapsto>
    \<lparr>e_meta = rowToMeta (g r), e_token = pl_token_hash (g r), e_terminal = pl_terminal_at (g r),
     e_blob = (if Q i then pg_ct_get i db else None)\<rparr>)"
proof
  fix j
  show "pg_abs (pg_edit g Q db) j = ((pg_abs db)(i \<mapsto>
    \<lparr>e_meta = rowToMeta (g r), e_token = pl_token_hash (g r), e_terminal = pl_terminal_at (g r),
     e_blob = (if Q i then pg_ct_get i db else None)\<rparr>)) j"
  proof (cases "j = i")
    case True
    then show ?thesis using assms(1) by (simp add: pg_edit_abs [of g, OF assms(2)])
  next
    case False
    have "g x = x" if "pg_select j db = Some x" for x
      using pg_select_id [OF that] False by (intro assms(3)) simp
    then show ?thesis using False assms(4) [of j]
      by (cases "pg_select j db") (simp_all add: pg_edit_abs [of g, OF assms(2)], simp_all add: pg_abs_def)
  qed
qed

lemma pg_increment_sim:
  assumes "pg_inv db" "pg_incrementOpens now i db = (q, db')"
  shows "spec_increment now i (pg_abs db) = (q, pg_abs db') \<and> pg_inv db'"
proof (cases "pg_select i db")
  case None
  then show ?thesis using assms by (simp add: pg_increment_edit spec_increment_def pg_abs_def)
next
  case (Some r)
  let ?e = "\<lparr>e_meta = rowToMeta r, e_token = pl_token_hash r, e_terminal = pl_terminal_at r, e_blob = pg_ct_get i db\<rparr>"
  have abs: "pg_abs db i = Some ?e" using Some by (simp add: pg_abs_def)
  show ?thesis
  proof (cases "pl_status r = Active \<and> pl_expires_at r > now")
    case False
    then show ?thesis using assms Some abs
      by (auto simp: pg_increment_edit spec_increment_def open_entry_def rowToMeta_def)
  next
    case True
    let ?g = "\<lambda>r. if pl_id r = i \<and> pl_status r = Active \<and> pl_expires_at r > now then sql_count_open now r else r"
    let ?Q = "\<lambda>k. \<not> (k = i \<and> pl_status (sql_count_open now r) = Expired)"
    have db': "q = Some (rowToMeta (sql_count_open now r))" "db' = pg_edit ?g ?Q db"
      using assms Some True by (auto simp: pg_increment_edit)
    have id: "pl_id (?g r) = pl_id r" for r by (simp add: sql_count_open_def)
    have "?g r = sql_count_open now r" using True pg_select_id [OF Some] by simp
    then have "pg_abs db' = (pg_abs db)(i \<mapsto> \<lparr>e_meta = rowToMeta (sql_count_open now r), e_token = pl_token_hash r,
        e_terminal = pl_terminal_at (sql_count_open now r),
        e_blob = (if pl_status (sql_count_open now r) = Expired then None else pg_ct_get i db)\<rparr>)"
      unfolding db' by (subst pg_edit_point [OF Some id]) (auto simp: sql_count_open_def)
    moreover have "pg_inv db'" unfolding db' by (rule pg_edit_inv [OF assms(1) id])
    ultimately show ?thesis
      using True
      by (auto simp: spec_increment_def abs open_entry_def Let_def db'(1) rowToMeta_def sql_count_open_def)
  qed
qed

lemma pg_close_edit:
  "pg_ct_delete i (sql_close now i db) =
   pg_edit (\<lambda>r. if pl_id r = i then r\<lparr>pl_status := Revoked, pl_terminal_at := Some now\<rparr> else r) (\<lambda>k. k \<noteq> i) db"
  by (simp add: pg_ct_delete_def sql_close_def pg_edit_def)

lemma pg_close:
  assumes "pg_inv db" "pg_select i db = Some r"
  shows "pg_inv (pg_ct_delete i (sql_close now i db))"
    "pg_abs (pg_ct_delete i (sql_close now i db)) = (pg_abs db)(i \<mapsto> close_entry Revoked now (the (pg_abs db i)))"
proof -
  let ?g = "\<lambda>r. if pl_id r = i then r\<lparr>pl_status := Revoked, pl_terminal_at := Some now\<rparr> else r"
  have id: "pl_id (?g r) = pl_id r" for r by simp
  show "pg_inv (pg_ct_delete i (sql_close now i db))"
    unfolding pg_close_edit by (rule pg_edit_inv [OF assms(1) id])
  show "pg_abs (pg_ct_delete i (sql_close now i db)) = (pg_abs db)(i \<mapsto> close_entry Revoked now (the (pg_abs db i)))"
    unfolding pg_close_edit using assms(2) pg_select_id [OF assms(2)]
    by (subst pg_edit_point [OF assms(2) id]) (auto simp: pg_abs_def close_entry_def rowToMeta_def)
qed

lemma pg_revoke_sim:
  assumes "pg_inv db"
  shows "pg_abs (pg_revoke now i h db) = spec_revoke now i h (pg_abs db) \<and> pg_inv (pg_revoke now i h db)"
proof (cases "pg_select i db")
  case None
  then show ?thesis using assms by (simp add: pg_revoke_def spec_revoke_def pg_abs_def)
next
  case (Some r)
  have "pg_abs db i = Some \<lparr>e_meta = rowToMeta r, e_token = pl_token_hash r, e_terminal = pl_terminal_at r,
      e_blob = pg_ct_get i db\<rparr>" using Some by (simp add: pg_abs_def)
  then show ?thesis
    using assms Some pg_close [OF assms Some, of now]
    by (auto simp: pg_revoke_def spec_revoke_def authorized_def rowToMeta_def Let_def split: option.splits)
qed

lemma pg_delete_row:
  assumes "pg_inv db" "pg_select i db = Some r"
  shows "pg_inv (pg_ct_delete i db)" "pg_abs (pg_ct_delete i db) = (pg_abs db)(i \<mapsto> (the (pg_abs db i))\<lparr>e_blob := None\<rparr>)"
proof -
  have e: "pg_ct_delete i db = pg_edit (\<lambda>r. r) (\<lambda>k. k \<noteq> i) db" by (simp add: pg_ct_delete_def pg_edit_def)
  show "pg_inv (pg_ct_delete i db)" unfolding e by (rule pg_edit_inv [OF assms(1)]) simp
  show "pg_abs (pg_ct_delete i db) = (pg_abs db)(i \<mapsto> (the (pg_abs db i))\<lparr>e_blob := None\<rparr>)"
    unfolding e using assms(2) by (subst pg_edit_point [OF assms(2)]) (auto simp: pg_abs_def)
qed

lemma pg_rowcount: "0 < length (filter (\<lambda>b. pb_link_id b = i) (link_ciphertexts db)) \<longleftrightarrow> pg_ct_get i db \<noteq> None"
  by (auto simp: pg_ct_get_def find_None_iff filter_empty_conv)

lemma pg_purge_sim:
  assumes "pg_inv db" "pg_adminPurge now i db = (r, db')"
  shows "spec_adminPurge now i (pg_abs db) = (r, pg_abs db') \<and> pg_inv db'"
proof (cases "pg_select i db")
  case None
  note none = pg_inv_D(3) [OF assms(1) None]
  then have "filter (\<lambda>b. pb_link_id b \<noteq> i) (link_ciphertexts db) = link_ciphertexts db"
    by (auto simp: pg_ct_get_def find_None_iff filter_id_conv)
  then have "pg_ct_delete i db = db" by (simp add: pg_ct_delete_def)
  moreover have "\<not> 0 < length (filter (\<lambda>b. pb_link_id b = i) (link_ciphertexts db))"
    using none pg_rowcount by blast
  ultimately show ?thesis
    using assms None by (auto simp: pg_adminPurge_def Let_def spec_adminPurge_def pg_abs_def)
next
  case (Some row)
  have abs: "pg_abs db i = Some \<lparr>e_meta = rowToMeta row, e_token = pl_token_hash row, e_terminal = pl_terminal_at row,
      e_blob = pg_ct_get i db\<rparr>" using Some by (simp add: pg_abs_def)
  have "link_ciphertexts (sql_close now i db) = link_ciphertexts db" by (simp add: sql_close_def)
  then have "pg_adminPurge now i db =
      (\<lparr>pr_found = True, pr_wasActive = (pl_status row = Active), pr_ciphertextRemoved = (pg_ct_get i db \<noteq> None)\<rparr>,
       pg_ct_delete i (if pl_status row = Active then sql_close now i db else db))"
    using Some pg_rowcount [of i db] by (simp add: pg_adminPurge_def Let_def)
  then show ?thesis
    using assms(2) pg_close [OF assms(1) Some, of now] pg_delete_row [OF assms(1) Some]
    by (auto simp: spec_adminPurge_def abs rowToMeta_def)
qed

lemma sql_prunable_entry:
  "sql_prunable before r \<longleftrightarrow> prunable before \<lparr>e_meta = rowToMeta r, e_token = tk, e_terminal = pl_terminal_at r, e_blob = b\<rparr>"
  by (simp add: sql_prunable_def prunable_def sql_terminal_def terminal_def rowToMeta_def)

lemma pg_prune_sim:
  assumes "pg_inv db" "pg_pruneTerminal before db = (n, db')"
  shows "spec_prune before (pg_abs db) = (n, pg_abs db') \<and> pg_inv db'"
proof -
  note d = pg_inv_D(1,2) [OF assms(1)]
  define G where "G = pl_id ` set (filter (sql_prunable before) (links db))"
  let ?db = "db\<lparr>links := filter (\<lambda>r. \<not> sql_prunable before r) (links db),
    link_ciphertexts := filter (\<lambda>b. pb_link_id b \<notin> G) (link_ciphertexts db)\<rparr>"
  have db': "n = length (filter (sql_prunable before) (links db))" "db' = ?db"
    using assms(2) by (auto simp: pg_pruneTerminal_def Let_def G_def)
  have sel: "pg_select j ?db = (case pg_select j db of None \<Rightarrow> None | Some r \<Rightarrow> if sql_prunable before r then None else Some r)"
    for j using find_filter_key [OF d(1), of j "\<lambda>r. \<not> sql_prunable before r"]
    by (auto simp: pg_select_def split: option.splits)
  have gone: "j \<in> G \<longleftrightarrow> (\<exists>r. pg_select j db = Some r \<and> sql_prunable before r)" for j
    unfolding pg_select_def G_def by (rule in_key_image [OF d(1)])
  have ct: "pg_ct_get j ?db = (if j \<in> G then None else pg_ct_get j db)" for j
    using find_filter_by_key [of "pb_link_id :: pg_blob \<Rightarrow> string" j "\<lambda>k. k \<notin> G"] by (simp add: pg_ct_get_def)
  have "pg_abs ?db = prune_map before (pg_abs db)"
  proof
    fix j
    show "pg_abs ?db j = prune_map before (pg_abs db) j"
      using gone [of j] by (cases "pg_select j db")
        (simp_all add: pg_abs_def prune_map_def sel ct sql_prunable_entry [symmetric])
  qed
  moreover have "n = count_entries (prunable before) (pg_abs db)"
    unfolding db' card_filter_key [OF d(1)] count_entries_def pg_select_def [symmetric]
    by (rule arg_cong [of _ _ card]) (auto simp: pg_abs_def sql_prunable_entry [symmetric])
  moreover have "pg_inv ?db"
  proof -
    have "pb_link_id b \<in> pl_id ` set (filter (\<lambda>r. \<not> sql_prunable before r) (links db))"
      if b: "b \<in> set (link_ciphertexts db)" "pb_link_id b \<notin> G" for b
    proof -
      have "pb_link_id b \<in> pl_id ` set (links db)" using assms(1) b(1) by (auto simp: pg_inv_def)
      then show ?thesis using b(2) by (auto simp: G_def)
    qed
    then show ?thesis using d by (auto simp: pg_inv_def distinct_map_filter)
  qed
  ultimately show ?thesis by (simp add: spec_prune_def db'(2))
qed

lemma sql_terminal_meta: "sql_terminal r \<longleftrightarrow> terminal (rowToMeta r)"
  by (simp add: sql_terminal_def terminal_def rowToMeta_def)

lemma pg_expire_sim:
  assumes "pg_inv db" "pg_expirePastDue now ret db = (n, db')"
  shows "spec_expirePastDue now ret (pg_abs db) = (n, pg_abs db') \<and> pg_inv db'"
proof -
  let ?g = "\<lambda>r. if pl_status r = Active \<and> pl_expires_at r \<le> now then r\<lparr>pl_status := Expired, pl_terminal_at := Some now\<rparr> else r"
  define ids where "ids = pl_id ` set (filter sql_terminal (map ?g (links db)))"
  let ?db2 = "pg_edit ?g (\<lambda>k. k \<notin> ids) db"
  have db': "n = length (filter (\<lambda>b. pb_link_id b \<in> ids) (link_ciphertexts db))"
    "db' = snd (pg_pruneTerminal (now - ret) ?db2)"
    using assms(2)
    by (auto simp: pg_expirePastDue_def sql_expire_past_due_def sql_purge_terminal_def Let_def pg_edit_def ids_def)
  have id: "pl_id (?g r) = pl_id r" for r by simp
  note d = pg_inv_D(1,2) [OF assms(1)]
  have "set (filter sql_terminal (map ?g (links db))) = ?g ` set (filter (\<lambda>r. sql_terminal (?g r)) (links db))"
    by auto
  then have ids_eq: "ids = pl_id ` set (filter (\<lambda>r. sql_terminal (?g r)) (links db))"
    by (simp only: image_image id ids_def)
  have ids: "j \<in> ids \<longleftrightarrow> (\<exists>r. pg_select j db = Some r \<and> sql_terminal (?g r))" for j
    unfolding pg_select_def ids_eq by (rule in_key_image [OF d(1)])
  have inv2: "pg_inv ?db2" by (rule pg_edit_inv [OF assms(1) id])
  have "pg_abs ?db2 = expire_map now (pg_abs db)"
  proof
    fix j
    show "pg_abs ?db2 j = expire_map now (pg_abs db) j"
    proof (cases "pg_select j db")
      case None
      then show ?thesis
        unfolding pg_edit_abs [of ?g, OF id] expire_map_def by (simp add: pg_abs_def)
    next
      case (Some r)
      then have "j \<in> ids \<longleftrightarrow> sql_terminal (?g r)" using ids [of j] by simp
      then show ?thesis
        unfolding pg_edit_abs [of ?g, OF id] expire_map_def
        using Some by (simp add: pg_abs_def expire_entry_def
            past_due_def Let_def sql_terminal_meta rowToMeta_def terminal_def)
    qed
  qed
  then have "pg_abs db' = prune_map (now - ret) (expire_map now (pg_abs db)) \<and> pg_inv db'"
    using pg_prune_sim [OF inv2, of "now - ret"] by (cases "pg_pruneTerminal (now - ret) ?db2") (auto simp: db'(2) spec_prune_def)
  moreover have "n = count_entries (purgeable now) (pg_abs db)"
  proof -
    have "(\<exists>b. find (\<lambda>b. pb_link_id b = i) (link_ciphertexts db) = Some b \<and> pb_link_id b \<in> ids)
        \<longleftrightarrow> (\<exists>e. pg_abs db i = Some e \<and> purgeable now e)" for i
    proof -
      have "(\<exists>b. find (\<lambda>b. pb_link_id b = i) (link_ciphertexts db) = Some b \<and> pb_link_id b \<in> ids)
          \<longleftrightarrow> pg_ct_get i db \<noteq> None \<and> i \<in> ids"
      proof (cases "find (\<lambda>b. pb_link_id b = i) (link_ciphertexts db)")
        case (Some b)
        then have "pb_link_id b = i" by (rule find_key_Some [THEN conjunct1])
        with Some show ?thesis by (simp add: pg_ct_get_def)
      qed (simp add: pg_ct_get_def)
      then show ?thesis
        unfolding ids by (cases "pg_select i db")
          (auto simp: pg_abs_def purgeable_def past_due_def sql_terminal_meta rowToMeta_def terminal_def)
    qed
    then show ?thesis unfolding db'(1) card_filter_key [OF d(2)] count_entries_def by simp
  qed
  ultimately show ?thesis by (simp add: spec_expirePastDue_def)
qed

lemma pg_create_any:
  assumes "pg_inv db" "pg_createWithCiphertext False r b db = (q, db')"
  shows "pg_inv db' \<and> (is_err q \<and> pg_abs db' = pg_abs db \<or> spec_create r b (pg_abs db) = (q, pg_abs db'))"
proof (cases "valid_record r")
  case True
  then show ?thesis using pg_create_sim [OF assms(1) True assms(2)] by simp
next
  case False
  then have "q = Inl ConstraintViolation" "db' = db"
    using assms(2) by (auto simp: pg_createWithCiphertext_def sql_insert_link_def valid_record_def split: if_splits)
  then show ?thesis using assms(1) by simp
qed

interpretation pg: link_store pg_ops pg_abs pg_inv
proof (unfold_locales, goal_cases)
  case 1
  then show ?case by (simp add: pg_ops_def pg_create_sim)
next
  case 2
  then show ?case by (simp add: pg_ops_def pg_create_any)
next
  case 3
  then show ?case by (simp add: pg_ops_def pg_get_sim)
next
  case 4
  then show ?case by (simp add: pg_ops_def pg_increment_sim)
next
  case 5
  then show ?case by (simp add: pg_ops_def pg_revoke_sim)
next
  case 6
  then show ?case by (simp add: pg_ops_def pg_expire_sim)
next
  case 7
  then show ?case by (simp add: pg_ops_def pg_prune_sim)
next
  case 8
  then show ?case by (simp add: pg_ops_def pg_purge_sim)
next
  case 9
  then show ?case by (simp add: pg_ops_def pg_blob_sim)
qed

lemma pg_empty_ok: "pg_inv pg_empty" "pg_abs pg_empty = (\<lambda>i. None)"
  by (simp_all add: pg_empty_def pg_inv_def pg_abs_def pg_select_def fun_eq_iff)

end
