(* ===== verification/Api_Laws.thy ===== *)
theory Api_Laws
  imports Messages_Api Mem_Store Pg_Store
begin

text \<open>
  What the handlers guarantee over any store that keeps the contract of \<open>Link_Spec\<close>: proved once
  in the context of the locale and inherited by the memory and the Postgres store. The limiter is
  arbitrary unless a lemma says otherwise.
\<close>

section \<open>The common opening of the handlers\<close>

lemma with_limit_cases:
  assumes "with_limit d now p l req sv k = (out, sv')"
  obtains (down) e r where "out = Inl e" "sv' = sv\<lparr>limiter := r\<rparr>"
    | (limited) r where "out = Inr (jsonError 429 ''rate_limited'')" "sv' = sv\<lparr>limiter := r\<rparr>"
    | (passed) n r where "n \<le> l" "k (sv\<lparr>limiter := r\<rparr>) = (out, sv')"
        "d_rate d now (p @ hash_ip (d_env d) (getClientIp req)) RATE_LIMIT_WINDOW_SECONDS (limiter sv) = (Inr n, r)"
  using assms unfolding with_limit_def
  by (auto split: prod.splits sum.splits if_splits simp: not_less)

lemma status_codes [simp]:
  "status_code (jsonError c m) = c" "status_code (jsonOk b) = 201" "status_code (ok200 b) = 200"
  "status_code bad_request = 400" "status_code gone_response = 410" "status_code (open_response env bl r) = 200"
  by (simp_all add: jsonError_def jsonOk_def ok200_def bad_request_def gone_response_def open_response_def)

text \<open>The calls a client can make, at given times.\<close>

datatype api_call =
    CallCreate string request
  | CallGet string request
  | CallOpen string request
  | CallList request
  | CallRevoke string request

fun api_step :: "('s, 'r) deps \<Rightarrow> int \<Rightarrow> api_call \<Rightarrow> ('s, 'r) server \<Rightarrow> ('s, 'r) handled" where
  "api_step d now (CallCreate token req) sv = create_message d now token req sv"
| "api_step d now (CallGet i req) sv = get_message d now i req sv"
| "api_step d now (CallOpen i req) sv = open_message d now i req sv"
| "api_step d now (CallList req) sv = list_messages d now req sv"
| "api_step d now (CallRevoke i req) sv = revoke_message d now i req sv"

fun api_run :: "('s, 'r) deps \<Rightarrow> (int \<times> api_call) list \<Rightarrow> ('s, 'r) server
    \<Rightarrow> (limiter_error + response) list \<times> ('s, 'r) server" where
  "api_run d [] sv = ([], sv)"
| "api_run d ((now, c) # cs) sv =
     (let (out, sv1) = api_step d now c sv; (outs, sv2) = api_run d cs sv1 in (out # outs, sv2))"

text \<open>How many of the calls delivered the ciphertext of a link.\<close>

definition delivers :: "string \<Rightarrow> api_call \<Rightarrow> limiter_error + response \<Rightarrow> bool" where
  "delivers i c out = ((\<exists>req. c = CallOpen i req) \<and> (\<exists>r. out = Inr r \<and> status_code r = 200))"

fun deliveries :: "string \<Rightarrow> (int \<times> api_call) list \<Rightarrow> (limiter_error + response) list \<Rightarrow> nat" where
  "deliveries i ((now, c) # cs) (out # outs) = (if delivers i c out then 1 else 0) + deliveries i cs outs"
| "deliveries i _ _ = 0"

text \<open>The store operations a client call can amount to.\<close>

definition client_op :: "store_op \<Rightarrow> bool" where
  "client_op p =
     (case p of
        OpCreate r b \<Rightarrow> 0 < cr_maxOpens r \<or> cr_maxOpens r = -1
      | OpIncrement i \<Rightarrow> True
      | OpRevoke i h \<Rightarrow> True
      | _ \<Rightarrow> False)"

lemma client_op_ok:
  assumes "store_ok \<sigma>" "client_op p" "ops_step spec_ops now p \<sigma> = (r, \<sigma>')"
  shows "store_ok \<sigma>'"
proof -
  have "store_ok (snd (ops_step spec_ops now p \<sigma>))"
    using assms(1,2)
    by (cases p) (simp_all add: client_op_def spec_create_ok spec_increment_ok spec_revoke_ok)
  then show ?thesis using assms(3) by simp
qed

lemma client_op_keeps:
  assumes "client_op p" "ops_step spec_ops now p \<sigma> = (r, \<sigma>')" "\<sigma> i \<noteq> None"
  shows "\<sigma>' i \<noteq> None"
  using assms
  by (cases p) (auto simp: client_op_def map_reply_eq spec_create_def spec_increment_def spec_revoke_def
      split: option.splits if_splits)

lemma check_create_opens:
  assumes "check_create env now body = Some (e, b)"
  shows "0 < int_of_num (b_maxOpens body) \<or> int_of_num (b_maxOpens body) = -1"
  using assms by (auto simp: check_create_def split: if_splits)

text \<open>A link that can still be opened; the answer of the open handler for the others.\<close>

definition live :: "int \<Rightarrow> abs_store \<Rightarrow> string \<Rightarrow> bool" where
  "live now \<sigma> i =
     (case \<sigma> i of None \<Rightarrow> False | Some e \<Rightarrow> lm_status (e_meta e) = Active \<and> now < lm_expiresAt (e_meta e))"

definition open_refused :: "('s, 'r) deps \<Rightarrow> int \<Rightarrow> string \<Rightarrow> request \<Rightarrow> 'r \<Rightarrow> limiter_error + response" where
  "open_refused d now i req rl =
     (if \<not> LINK_ID_REGEX i \<or> \<not> isEmptyBody (raw_body req) then Inr bad_request
      else case fst (d_rate d now (''messages:open:'' @ hash_ip (d_env d) (getClientIp req)) RATE_LIMIT_WINDOW_SECONDS rl) of
             Inl e \<Rightarrow> Inl e
           | Inr n \<Rightarrow> Inr (if RATE_LIMIT_MAX < n then jsonError 429 ''rate_limited'' else gone_response))"

text \<open>The token hash a revocation request presents.\<close>

definition presented :: "api_env \<Rightarrow> string option \<Rightarrow> string option" where
  "presented env header =
     (case header of None \<Rightarrow> None | Some t \<Rightarrow> if t = [] then None else Some (hash_token env t))"

text \<open>The record a checked request asks the store to create.\<close>

definition requested :: "api_env \<Rightarrow> string \<Rightarrow> int \<Rightarrow> request_body \<Rightarrow> create_record" where
  "requested env token expiresAt body =
     \<lparr>cr_id = b_id body, cr_expiresAt = expiresAt, cr_maxOpens = int_of_num (b_maxOpens body),
      cr_tokenHash = Some (hash_token env token)\<rparr>"

text \<open>What the checks of a request to create establish.\<close>

lemma check_create_facts:
  assumes "check_create env now body = Some (expiresAt, blob)"
  shows "LINK_ID_REGEX (b_id body)" "now < expiresAt"
    "expiresAt \<le> now + (case maxRetentionMs env of None \<Rightarrow> DEFAULT_MAX_RETENTION_MS | Some m \<Rightarrow> m) + RETENTION_GRACE_MS"
    "decodeBase64 (b_ciphertext body) = Some blob" "MIN_CIPHERTEXT_BYTES \<le> length blob" "length blob \<le> MAX_CIPHERTEXT_BYTES"
  using assms by (auto simp: check_create_def split: if_splits option.splits)

section \<open>Each handler's effect on the store\<close>

lemma get_effect:
  assumes "get_message d now i req sv = (out, sv')"
  shows "store sv' = store sv"
  using assms unfolding get_message_def
  by (auto elim!: with_limit_cases split: if_splits option.splits)

lemma list_effect:
  assumes "list_messages d now req sv = (out, sv')"
  shows "store sv' = store sv"
  using assms unfolding list_messages_def
  by (auto elim!: with_limit_cases split: option.splits)

context link_store
begin

lemma open_effect:
  assumes "inv (store sv)" "d_links d = ops" "open_message d now i req sv = (out, sv')"
  shows "(store sv' = store sv \<and> (\<forall>r. out = Inr r \<longrightarrow> status_code r \<in> {400, 429})) \<or>
    (case Option.bind (abs (store sv) i) (open_entry now) of
       None \<Rightarrow> out = Inr gone_response \<and> abs (store sv') = abs (store sv) \<and> inv (store sv')
     | Some e' \<Rightarrow> abs (store sv') = (abs (store sv))(i \<mapsto> e') \<and> inv (store sv') \<and>
         out = Inr (case Option.bind (abs (store sv) i) e_blob of
                      None \<Rightarrow> gone_response | Some b \<Rightarrow> open_response (d_env d) b (e_meta e')))"
proof (cases "LINK_ID_REGEX i \<and> isEmptyBody (raw_body req)")
  case True
  then have "with_limit d now ''messages:open:'' RATE_LIMIT_MAX req sv (\<lambda>sv.
        let blob = get_blob (d_links d) i (store sv);
            (row, s) = incrementOpens (d_links d) now i (store sv);
            sv' = sv\<lparr>store := s\<rparr>
        in case row of
             None \<Rightarrow> (Inr gone_response, sv')
           | Some r \<Rightarrow>
               (case blob of
                  None \<Rightarrow> (Inr gone_response, sv')
                | Some b \<Rightarrow> (Inr (open_response (d_env d) b r), sv'))) = (out, sv')"
    using assms(3) by (simp add: open_message_def)
  then show ?thesis
  proof (cases rule: with_limit_cases)
    case (passed n r)
    obtain q s where q: "incrementOpens ops now i (store sv) = (q, s)" by (cases "incrementOpens ops now i (store sv)")
    have sim: "spec_increment now i (abs (store sv)) = (q, abs s)" "inv s"
      using increment_sim [OF assms(1) q] by simp_all
    show ?thesis
      using passed(2) sim q assms(2) blob_sim [OF assms(1), of i]
      by (auto simp: spec_increment_def Let_def split: option.splits)
  qed auto
next
  case False
  then have "out = Inr bad_request" "sv' = sv"
    using assms(3) by (auto simp: open_message_def split: if_splits)
  then show ?thesis by simp
qed

lemma revoke_effect:
  assumes "inv (store sv)" "d_links d = ops" "revoke_message d now i req sv = (out, sv')"
  shows "store sv' = store sv \<or>
    (\<exists>h. abs (store sv') = spec_revoke now i h (abs (store sv)) \<and> inv (store sv'))"
  using assms revoke_sim [OF assms(1)] unfolding revoke_message_def
  by (auto simp: Let_def split: if_splits elim!: with_limit_cases)

lemma create_effect:
  assumes "inv (store sv)" "d_links d = ops" "create_message d now token req sv = (out, sv')"
  shows "store sv' = store sv \<and> (\<forall>r. out = Inr r \<longrightarrow> status_code r \<noteq> 201) \<or>
    (\<exists>body expiresAt blob q.
       parseBody (d_env d) (raw_body req) = Some body \<and> check_create (d_env d) now body = Some (expiresAt, blob) \<and>
       abs (store sv) (b_id body) = None \<and> inv (store sv') \<and>
       (out = Inr (jsonError 500 ''internal_error'') \<and> abs (store sv') = abs (store sv) \<or>
        out = Inr (jsonOk (JObj [(''id'', JStr (b_id body)),
            (''url'', JStr (publicLinkOrigin (d_env d) @ ''/l/'' @ b_id body)), (''revocationToken'', JStr token)])) \<and>
        spec_create \<lparr>cr_id = b_id body, cr_expiresAt = expiresAt, cr_maxOpens = int_of_num (b_maxOpens body),
            cr_tokenHash = Some (hash_token (d_env d) token)\<rparr> blob (abs (store sv)) = (q, abs (store sv'))))"
  using assms(3) unfolding create_message_def
proof (cases rule: with_limit_cases)
  case (passed n r)
  show ?thesis
  proof (cases "\<exists>body expiresAt blob. length (raw_body req) \<le> MAX_BODY_BYTES \<and>
      parseBody (d_env d) (raw_body req) = Some body \<and>
      check_create (d_env d) now body = Some (expiresAt, blob) \<and> get_link ops (b_id body) (store sv) = None")
    case True
    then obtain body expiresAt blob where b: "length (raw_body req) \<le> MAX_BODY_BYTES"
      "parseBody (d_env d) (raw_body req) = Some body" "check_create (d_env d) now body = Some (expiresAt, blob)"
      "get_link ops (b_id body) (store sv) = None" by blast
    let ?r = "\<lparr>cr_id = b_id body, cr_expiresAt = expiresAt, cr_maxOpens = int_of_num (b_maxOpens body),
            cr_tokenHash = Some (hash_token (d_env d) token)\<rparr>"
    obtain q s where q: "createWithCiphertext ops ?r blob (store sv) = (q, s)"
      by (cases "createWithCiphertext ops ?r blob (store sv)")
    have new: "abs (store sv) (b_id body) = None" using get_sim [OF assms(1), of "b_id body"] b(4) by simp
    have s': "store sv' = s" using passed(2) b q assms(2) by (auto split: sum.splits)
    note any = create_any [OF assms(1) q]
    show ?thesis
    proof (cases q)
      case (Inl e)
      then have "abs s = abs (store sv)" using any new by (auto simp: spec_create_def)
      moreover have "out = Inr (jsonError 500 ''internal_error'')" using passed(2) b q assms(2) Inl by auto
      ultimately show ?thesis using any new b s' by blast
    next
      case (Inr m)
      then have "spec_create ?r blob (abs (store sv)) = (q, abs s)" using any by simp
      moreover have "out = Inr (jsonOk (JObj [(''id'', JStr (b_id body)),
            (''url'', JStr (publicLinkOrigin (d_env d) @ ''/l/'' @ b_id body)), (''revocationToken'', JStr token)]))"
        using passed(2) b q assms(2) Inr by auto
      ultimately show ?thesis using any new b s' by blast
    qed
  next
    case False
    then show ?thesis
      using passed(2) assms(2) by (auto split: if_splits option.splits simp: not_less)
  qed
qed auto

text \<open>Creating is all or nothing, and what it accepts has passed every check.\<close>

lemma create_all_or_nothing:
  assumes "inv (store sv)" "d_links d = ops" "create_message d now token req sv = (out, sv')"
  shows "inv (store sv') \<and> (abs (store sv') = abs (store sv) \<and> (\<forall>r. out = Inr r \<longrightarrow> status_code r \<noteq> 201) \<or>
    (\<exists>body expiresAt blob. parseBody (d_env d) (raw_body req) = Some body \<and>
       check_create (d_env d) now body = Some (expiresAt, blob) \<and> abs (store sv) (b_id body) = None \<and>
       (\<exists>r. out = Inr r \<and> status_code r = 201) \<and>
       abs (store sv') = (abs (store sv))(b_id body \<mapsto>
         \<lparr>e_meta = new_meta (requested (d_env d) token expiresAt body), e_token = Some (hash_token (d_env d) token),
          e_terminal = None, e_blob = Some blob\<rparr>)))"
proof -
  from create_effect [OF assms] consider
      (kept) "store sv' = store sv" "\<forall>r. out = Inr r \<longrightarrow> status_code r \<noteq> 201"
    | (failed) "out = Inr (jsonError 500 ''internal_error'')" "inv (store sv')" "abs (store sv') = abs (store sv)"
    | (made) body expiresAt blob q where "parseBody (d_env d) (raw_body req) = Some body"
      "check_create (d_env d) now body = Some (expiresAt, blob)" "abs (store sv) (b_id body) = None"
      "\<exists>r. out = Inr r \<and> status_code r = 201" "inv (store sv')"
      "spec_create (requested (d_env d) token expiresAt body) blob (abs (store sv)) = (q, abs (store sv'))"
    unfolding requested_def by fastforce
  then show ?thesis
  proof cases
    case (made body expiresAt blob q)
    then have "abs (store sv') = (abs (store sv))(b_id body \<mapsto>
         \<lparr>e_meta = new_meta (requested (d_env d) token expiresAt body), e_token = Some (hash_token (d_env d) token),
          e_terminal = None, e_blob = Some blob\<rparr>)"
      by (auto simp: spec_create_def requested_def)
    then show ?thesis using made by blast
  qed (use assms(1) in auto)
qed

text \<open>A client call is one operation of the store contract, or none.\<close>

lemma api_step_sim:
  assumes "inv (store sv)" "d_links d = ops" "api_step d now c sv = (out, sv')" "abs (store sv) i \<noteq> None"
  shows "inv (store sv') \<and>
    (abs (store sv') = abs (store sv) \<and> \<not> delivers i c out \<or>
     (\<exists>p r. ops_step spec_ops now p (abs (store sv)) = (r, abs (store sv')) \<and> client_op p \<and>
        \<not> creates i p \<and> (delivers i c out \<longrightarrow> won i p r = 1)))"
proof (cases c)
  case (CallCreate token req)
  then have "\<not> delivers i c out" by (simp add: delivers_def)
  have "create_message d now token req sv = (out, sv')" using assms(3) CallCreate by simp
  from create_effect [OF assms(1,2) this] consider (same) "store sv' = store sv"
    | (failed) "inv (store sv')" "abs (store sv') = abs (store sv)"
    | (made) body expiresAt blob q where "check_create (d_env d) now body = Some (expiresAt, blob)"
      "abs (store sv) (b_id body) = None" "inv (store sv')"
      "spec_create \<lparr>cr_id = b_id body, cr_expiresAt = expiresAt, cr_maxOpens = int_of_num (b_maxOpens body),
            cr_tokenHash = Some (hash_token (d_env d) token)\<rparr> blob (abs (store sv)) = (q, abs (store sv'))"
    by blast
  then show ?thesis
  proof cases
    case (made body expiresAt blob q)
    let ?p = "OpCreate \<lparr>cr_id = b_id body, cr_expiresAt = expiresAt, cr_maxOpens = int_of_num (b_maxOpens body),
            cr_tokenHash = Some (hash_token (d_env d) token)\<rparr> blob"
    have "ops_step spec_ops now ?p (abs (store sv)) = (RCreate q, abs (store sv'))" using made(4) by simp
    moreover have "client_op ?p" using check_create_opens [OF made(1)] by (simp add: client_op_def)
    moreover have "\<not> creates i ?p" using made(2) assms(4) by auto
    ultimately show ?thesis using made(3) \<open>\<not> delivers i c out\<close> by blast
  qed (use assms(1) \<open>\<not> delivers i c out\<close> in auto)
next
  case (CallOpen j req)
  then have "open_message d now j req sv = (out, sv')" using assms(3) by simp
  note eff = open_effect [OF assms(1,2) this]
  show ?thesis
  proof (cases "store sv' = store sv \<and> (\<forall>r. out = Inr r \<longrightarrow> status_code r \<in> {400, 429})")
    case True
    then show ?thesis using assms(1) by (auto simp: delivers_def)
  next
    case False
    let ?p = "OpIncrement j"
    from eff False have e: "case Option.bind (abs (store sv) j) (open_entry now) of
       None \<Rightarrow> out = Inr gone_response \<and> abs (store sv') = abs (store sv) \<and> inv (store sv')
     | Some e' \<Rightarrow> abs (store sv') = (abs (store sv))(j \<mapsto> e') \<and> inv (store sv') \<and>
         out = Inr (case Option.bind (abs (store sv) j) e_blob of
                      None \<Rightarrow> gone_response | Some b \<Rightarrow> open_response (d_env d) b (e_meta e'))" by blast
    show ?thesis
    proof (cases "Option.bind (abs (store sv) j) (open_entry now)")
      case None
      then show ?thesis using e by (auto simp: delivers_def)
    next
      case (Some e')
      then have "ops_step spec_ops now ?p (abs (store sv)) = (RMeta (Some (e_meta e')), abs (store sv'))"
        using e by (simp add: spec_increment_def)
      moreover have "delivers i c out \<longrightarrow> won i ?p (RMeta (Some (e_meta e'))) = 1"
        using CallOpen by (simp add: delivers_def won_def granted_def)
      moreover have "client_op ?p" "\<not> creates i ?p" by (simp_all add: client_op_def)
      moreover have "inv (store sv')" using e Some by simp
      ultimately show ?thesis by blast
    qed
  qed
next
  case (CallRevoke j req)
  then have nd: "\<not> delivers i c out" by (simp add: delivers_def)
  have "revoke_message d now j req sv = (out, sv')" using assms(3) CallRevoke by simp
  from revoke_effect [OF assms(1,2) this] consider "store sv' = store sv"
    | h where "abs (store sv') = spec_revoke now j h (abs (store sv))" "inv (store sv')" by blast
  then show ?thesis
  proof cases
    case (2 h)
    then have "ops_step spec_ops now (OpRevoke j h) (abs (store sv)) = (RUnit, abs (store sv'))" by simp
    moreover have "client_op (OpRevoke j h)" "\<not> creates i (OpRevoke j h)" by (simp_all add: client_op_def)
    ultimately show ?thesis using 2 nd by blast
  qed (use assms(1) nd in auto)
next
  case (CallGet j req)
  then show ?thesis using get_effect [of d now j req sv out sv'] assms(1,3) by (simp add: delivers_def)
next
  case (CallList req)
  then show ?thesis using list_effect [of d now req sv out sv'] assms(1,3) by (simp add: delivers_def)
qed

text \<open>However the calls are interleaved, a link is delivered at most as often as it has opens left.\<close>

lemma deliveries_bounded:
  assumes "inv (store sv)" "d_links d = ops" "store_ok (abs (store sv))" "bounded_link (abs (store sv)) i"
    "abs (store sv) i \<noteq> None" "api_run d cs sv = (outs, sv')"
  shows "deliveries i cs outs + opens_left (abs (store sv')) i \<le> opens_left (abs (store sv)) i"
  using assms
proof (induction cs arbitrary: sv outs)
  case Nil
  then show ?case by simp
next
  case (Cons p cs)
  obtain now c where p: "p = (now, c)" by (cases p)
  obtain out sv1 where s1: "api_step d now c sv = (out, sv1)" by (cases "api_step d now c sv")
  obtain outs2 sv2 where s2: "api_run d cs sv1 = (outs2, sv2)" by (cases "api_run d cs sv1")
  have outs: "outs = out # outs2" "sv' = sv2" using Cons.prems(6) p s1 s2 by auto
  note sim = api_step_sim [OF Cons.prems(1,2) s1 Cons.prems(5)]
  have step: "(if delivers i c out then 1 else 0) + opens_left (abs (store sv1)) i \<le> opens_left (abs (store sv)) i
      \<and> bounded_link (abs (store sv1)) i \<and> store_ok (abs (store sv1)) \<and> abs (store sv1) i \<noteq> None"
  proof (cases "abs (store sv1) = abs (store sv) \<and> \<not> delivers i c out")
    case True
    then show ?thesis using Cons.prems by simp
  next
    case False
    then obtain q r where q: "ops_step spec_ops now q (abs (store sv)) = (r, abs (store sv1))" "client_op q"
      "\<not> creates i q" "delivers i c out \<longrightarrow> won i q r = 1" using sim by blast
    have "won i q r + opens_left (abs (store sv1)) i \<le> opens_left (abs (store sv)) i \<and> bounded_link (abs (store sv1)) i"
      using step_opens_left [OF Cons.prems(3,4) q(3,1)] .
    moreover have "store_ok (abs (store sv1))" "abs (store sv1) i \<noteq> None"
      using client_op_ok [OF Cons.prems(3) q(2,1)] client_op_keeps [OF q(2,1) Cons.prems(5)] .
    ultimately show ?thesis using q(4) by auto
  qed
  then show ?case using Cons.IH [of sv1 outs2] sim Cons.prems(2) s2 by (simp add: p outs)
qed

text \<open>A link that is not live answers every open alike and stays as it is.\<close>

lemma open_dead:
  assumes "inv (store sv)" "d_links d = ops" "\<not> live now (abs (store sv)) i"
  shows "fst (open_message d now i req sv) = open_refused d now i req (limiter sv)
    \<and> abs (store (snd (open_message d now i req sv))) = abs (store sv)"
proof -
  obtain q s where q: "incrementOpens ops now i (store sv) = (q, s)" by (cases "incrementOpens ops now i (store sv)")
  have "spec_increment now i (abs (store sv)) = (q, abs s)" using increment_sim [OF assms(1) q] by simp
  moreover have "Option.bind (abs (store sv) i) (open_entry now) = None"
    using assms(3) by (cases "abs (store sv) i") (auto simp: live_def open_entry_def Let_def)
  ultimately have "q = None" "abs s = abs (store sv)" by (simp_all add: spec_increment_def)
  then show ?thesis
    using q assms(2) by (auto simp: open_message_def open_refused_def with_limit_def split: prod.splits sum.splits)
qed

text \<open>A live link that passes the limiter is opened: the answer carries its ciphertext.\<close>

lemma open_live:
  assumes "inv (store sv)" "d_links d = ops" "LINK_ID_REGEX i" "isEmptyBody (raw_body req)"
    "d_rate d now (''messages:open:'' @ hash_ip (d_env d) (getClientIp req)) RATE_LIMIT_WINDOW_SECONDS (limiter sv) = (Inr n, r)"
    "n \<le> RATE_LIMIT_MAX" "abs (store sv) i = Some e" "open_entry now e = Some e'" "e_blob e = Some b"
  shows "fst (open_message d now i req sv) = Inr (open_response (d_env d) b (e_meta e'))
    \<and> abs (store (snd (open_message d now i req sv))) = (abs (store sv))(i \<mapsto> e')"
proof -
  obtain q s where q: "incrementOpens ops now i (store sv) = (q, s)" by (cases "incrementOpens ops now i (store sv)")
  have "spec_increment now i (abs (store sv)) = (q, abs s)" using increment_sim [OF assms(1) q] by simp
  then have "q = Some (e_meta e')" "abs s = (abs (store sv))(i \<mapsto> e')"
    using assms(7,8) by (simp_all add: spec_increment_def)
  moreover have "get_blob ops i (store sv) = Some b" using blob_sim [OF assms(1), of i] assms(7,9) by simp
  ultimately show ?thesis using q assms by (simp add: open_message_def with_limit_def)
qed

text \<open>A revocation that passes the limiter acts as the abstract one.\<close>

lemma revoke_passed:
  assumes "inv (store sv)" "d_links d = ops" "LINK_ID_REGEX i" "isEmptyBody (raw_body req)"
    "d_rate d now (''messages:revoke:'' @ hash_ip (d_env d) (getClientIp req)) RATE_LIMIT_WINDOW_SECONDS (limiter sv) = (Inr n, r)"
    "n \<le> RATE_LIMIT_MAX"
  shows "abs (store (snd (revoke_message d now i req sv))) =
    spec_revoke now i (presented (d_env d) (token_header req)) (abs (store sv))"
  using assms revoke_sim [OF assms(1)] by (simp add: revoke_message_def with_limit_def presented_def)

text \<open>A request to create that passes the limiter and every check stores the link.\<close>

lemma create_passed:
  assumes "inv (store sv)" "d_links d = ops"
    "d_rate d now (''messages:'' @ hash_ip (d_env d) (getClientIp req)) RATE_LIMIT_WINDOW_SECONDS (limiter sv) = (Inr n, r)"
    "n \<le> RATE_LIMIT_MAX" "length (raw_body req) \<le> MAX_BODY_BYTES" "parseBody (d_env d) (raw_body req) = Some body"
    "check_create (d_env d) now body = Some (expiresAt, blob)" "abs (store sv) (b_id body) = None"
    "int_of_num (b_maxOpens body) < 2 ^ 31"
    "rec = requested (d_env d) token expiresAt body"
  shows "\<exists>resp sv'. create_message d now token req sv = (Inr resp, sv') \<and> status_code resp = 201 \<and> inv (store sv') \<and>
    limiter sv' = r \<and>
    abs (store sv') = (abs (store sv))(b_id body \<mapsto>
      \<lparr>e_meta = new_meta rec, e_token = cr_tokenHash rec, e_terminal = None, e_blob = Some blob\<rparr>)"
proof -
  obtain q s where q: "createWithCiphertext ops rec blob (store sv) = (q, s)"
    by (cases "createWithCiphertext ops rec blob (store sv)")
  have "valid_record rec" using check_create_opens [OF assms(7)] assms(9) by (auto simp: valid_record_def assms(10) requested_def)
  from create_sim [OF assms(1) this q]
  have sim: "spec_create rec blob (abs (store sv)) = (q, abs s)" "inv s" by simp_all
  then have "q = Inr (new_meta rec)"
    "abs s = (abs (store sv))(b_id body \<mapsto>
      \<lparr>e_meta = new_meta rec, e_token = cr_tokenHash rec, e_terminal = None, e_blob = Some blob\<rparr>)"
    using assms(8) by (simp_all add: spec_create_def assms(10) requested_def)
  then show ?thesis
    using sim(2) q assms get_sim [OF assms(1), of "b_id body"] by (simp add: create_message_def with_limit_def requested_def)
qed

end

end
