(* ===== verification/Wire_Format.thy ===== *)
theory Wire_Format
  imports Base_Codec
begin

text \<open>
  The wire formats of packages/crypto/src/wire.ts on top of the codecs: the public-key string
  \<open>amk1:\<close>, the ciphertext blob and upper-case hexadecimal; and the fingerprints of fingerprint.ts.
  SHA-256 is a parameter.
\<close>

section \<open>Public keys and ciphertext blobs\<close>

definition PUBKEY_PREFIX :: string where "PUBKEY_PREFIX = ''amk1:''"
definition WIRE_VERSION :: byte where "WIRE_VERSION = 1"
definition SUITE_X25519_AES256GCM :: byte where "SUITE_X25519_AES256GCM = 1"
definition RAW_X25519_PUBKEY_LEN :: nat where "RAW_X25519_PUBKEY_LEN = 32"
definition CANONICAL_PUBKEY_LEN :: nat where "CANONICAL_PUBKEY_LEN = 2 + RAW_X25519_PUBKEY_LEN"
definition ENCAPSULATED_KEY_LEN :: nat where "ENCAPSULATED_KEY_LEN = 32"
definition CIPHERTEXT_PREFIX_LEN :: nat where "CIPHERTEXT_PREFIX_LEN = 2 + ENCAPSULATED_KEY_LEN"

lemmas wire_consts = WIRE_VERSION_def SUITE_X25519_AES256GCM_def RAW_X25519_PUBKEY_LEN_def
  CANONICAL_PUBKEY_LEN_def ENCAPSULATED_KEY_LEN_def CIPHERTEXT_PREFIX_LEN_def

definition encodePubkey :: "bytes \<Rightarrow> crypto_error + string" where
  "encodePubkey rawKey =
     (if length rawKey \<noteq> RAW_X25519_PUBKEY_LEN
      then Inl (InvalidFormatError ''Expected 32-byte X25519 public key'')
      else Inr (PUBKEY_PREFIX @ base64urlEncode (WIRE_VERSION # SUITE_X25519_AES256GCM # rawKey)))"

record decoded_pubkey =
  rawKey :: bytes
  canonical :: bytes

definition starts_with :: "'a list \<Rightarrow> 'a list \<Rightarrow> bool" where
  "starts_with p s = (take (length p) s = p)"

definition decodePubkey :: "string \<Rightarrow> crypto_error + decoded_pubkey" where
  "decodePubkey s =
     (if \<not> starts_with PUBKEY_PREFIX s
      then Inl (InvalidFormatError ''Not an aesmsg public key (missing amk1: prefix)'')
      else and_then (base64urlDecode (drop (length PUBKEY_PREFIX) s)) (\<lambda>canon.
        if length canon \<noteq> CANONICAL_PUBKEY_LEN
        then Inl (InvalidFormatError ''Public key must decode to 34 bytes'')
        else if canon ! 0 \<noteq> WIRE_VERSION
        then Inl (InvalidFormatError ''Unknown public key version'')
        else if canon ! 1 \<noteq> SUITE_X25519_AES256GCM
        then Inl (InvalidFormatError ''Unknown public key suite'')
        else Inr \<lparr>rawKey = drop 2 canon, canonical = canon\<rparr>))"

definition encodeCiphertextBlob :: "bytes \<Rightarrow> bytes \<Rightarrow> crypto_error + bytes" where
  "encodeCiphertextBlob enc aeadOutput =
     (if length enc \<noteq> ENCAPSULATED_KEY_LEN
      then Inl (PlainError ''Encapsulated key must be 32 bytes'')
      else Inr (WIRE_VERSION # SUITE_X25519_AES256GCM # enc @ aeadOutput))"

definition decodeCiphertextBlob :: "bytes \<Rightarrow> crypto_error + (bytes \<times> bytes)" where
  "decodeCiphertextBlob blob =
     (if length blob < CIPHERTEXT_PREFIX_LEN then Inl (PlainError ''Ciphertext blob too short'')
      else if blob ! 0 \<noteq> WIRE_VERSION then Inl (PlainError ''Unknown ciphertext version'')
      else if blob ! 1 \<noteq> SUITE_X25519_AES256GCM then Inl (PlainError ''Unknown ciphertext suite'')
      else Inr (drop 2 (take CIPHERTEXT_PREFIX_LEN blob), drop CIPHERTEXT_PREFIX_LEN blob))"

lemma pubkey_roundtrip:
  assumes "length raw = RAW_X25519_PUBKEY_LEN"
  shows "and_then (encodePubkey raw) decodePubkey =
    Inr \<lparr>rawKey = raw, canonical = WIRE_VERSION # SUITE_X25519_AES256GCM # raw\<rparr>"
  using assms
  by (simp add: encodePubkey_def decodePubkey_def starts_with_def base64url_roundtrip wire_consts)

lemma encodePubkey_decode:
  "encodePubkey raw = Inr s \<Longrightarrow>
   decodePubkey s = Inr \<lparr>rawKey = raw, canonical = WIRE_VERSION # SUITE_X25519_AES256GCM # raw\<rparr>"
  using pubkey_roundtrip [of raw] by (auto simp: encodePubkey_def split: if_splits)

lemma decodePubkey_Inr:
  "decodePubkey s = Inr k \<Longrightarrow>
   length (rawKey k) = RAW_X25519_PUBKEY_LEN \<and>
   canonical k = WIRE_VERSION # SUITE_X25519_AES256GCM # rawKey k"
  by (auto simp: decodePubkey_def result_simps wire_consts numeral_2_eq_2 length_Suc_conv
      eval_nat_numeral split: if_splits)

lemma blob_roundtrip:
  "length enc = ENCAPSULATED_KEY_LEN \<Longrightarrow>
   and_then (encodeCiphertextBlob enc out) decodeCiphertextBlob = Inr (enc, out)"
  by (simp add: encodeCiphertextBlob_def decodeCiphertextBlob_def wire_consts)

lemma blob_decode_encode:
  assumes "decodeCiphertextBlob blob = Inr (enc, out)"
  shows "encodeCiphertextBlob enc out = Inr blob"
proof -
  have len: "34 \<le> length blob" and v: "blob ! 0 = 1" "blob ! 1 = 1"
    and parts: "enc = drop 2 (take 34 blob)" "out = drop 34 blob"
    using assms by (auto simp: decodeCiphertextBlob_def wire_consts split: if_splits)
  obtain x y r where "blob = x # y # r"
    using len by (cases blob; cases "tl blob") auto
  then show ?thesis
    using len v parts by (auto simp: encodeCiphertextBlob_def wire_consts)
qed

section \<open>Hexadecimal and fingerprints\<close>

fun bytesToUpperHex :: "bytes \<Rightarrow> string" where
  "bytesToUpperHex [] = []"
| "bytesToUpperHex (b # bs) =
     HEX_CHARS ! unat (drop_bit 4 b AND 0xf) # HEX_CHARS ! unat (b AND 0xf) # bytesToUpperHex bs"

definition FINGERPRINT_BYTES :: nat where "FINGERPRINT_BYTES = 16"
definition FINGERPRINT_PREFIX :: string where "FINGERPRINT_PREFIX = ''AM-''"
definition HEX_GROUP_SIZE :: nat where "HEX_GROUP_SIZE = 4"
definition HEX_GROUP_COUNT :: nat where "HEX_GROUP_COUNT = 8"

lemmas fingerprint_consts = FINGERPRINT_BYTES_def FINGERPRINT_PREFIX_def HEX_GROUP_SIZE_def HEX_GROUP_COUNT_def

fun join :: "'a list \<Rightarrow> 'a list list \<Rightarrow> 'a list" where
  "join sep [] = []"
| "join sep [x] = x"
| "join sep (x # y # zs) = x @ sep @ join sep (y # zs)"

text \<open>\<open>hex.slice(i * HEX_GROUP_SIZE, (i + 1) * HEX_GROUP_SIZE)\<close> for \<open>i\<close> below \<open>n\<close>.\<close>

definition hex_slices :: "nat \<Rightarrow> string \<Rightarrow> string list" where
  "hex_slices n hex = map (\<lambda>i. take HEX_GROUP_SIZE (drop (i * HEX_GROUP_SIZE) hex)) [0..<n]"

definition fingerprint :: "(bytes \<Rightarrow> bytes) \<Rightarrow> string \<Rightarrow> crypto_error + string" where
  "fingerprint sha256 pk = and_then (decodePubkey pk) (\<lambda>k.
     let digest = take FINGERPRINT_BYTES (sha256 (canonical k));
         hex = bytesToUpperHex digest
     in Inr (FINGERPRINT_PREFIX @ join ''-'' (hex_slices HEX_GROUP_COUNT hex)))"

definition truncateFingerprint :: "string \<Rightarrow> int \<Rightarrow> crypto_error + string" where
  "truncateFingerprint fp grps =
     (if grps < 1 \<or> grps > int HEX_GROUP_COUNT
      then Inl (PlainError ''truncateFingerprint: groups must be 1..8'')
      else let body = filter (\<lambda>c. c \<noteq> CHR ''-'') (drop (length FINGERPRINT_PREFIX) fp)
           in Inr (join '' '' (hex_slices (nat grps) body)))"

definition compareFingerprint :: "string \<Rightarrow> string \<Rightarrow> bool" where
  "compareFingerprint a b =
     (if length a \<noteq> length b then False
      else foldl (\<lambda>diff i. diff OR (of_nat (of_char (a ! i)) XOR of_nat (of_char (b ! i)))) (0 :: int32) [0..<length a] = 0)"

lemma compare_fold:
  "foldl (\<lambda>diff i. diff OR f i) d xs = (0 :: int32) \<longleftrightarrow> d = 0 \<and> (\<forall>i \<in> set xs. f i = 0)"
  by (induction xs arbitrary: d) (auto simp: or_eq_0_iff)

lemma of_char_word_eq: "(of_nat (of_char c) :: int32) = of_nat (of_char d) \<longleftrightarrow> c = d"
proof
  assume eq: "(of_nat (of_char c) :: int32) = of_nat (of_char d)"
  have small: "unat (of_nat (of_char x) :: int32) = of_char x" for x :: char
  proof -
    have "(of_char x :: nat) < 256" by (rule nat_of_char_less_256)
    then have "(of_char x :: nat) < 4294967296" by linarith
    then show ?thesis by (simp add: unat_of_nat)
  qed
  have "(of_char c :: nat) = of_char d" by (metis small eq)
  then show "c = d" by simp
qed simp

lemma compareFingerprint_eq: "compareFingerprint a b \<longleftrightarrow> a = b"
proof -
  have "x XOR y = 0 \<longleftrightarrow> x = y" for x y :: int32
    by (metis xor_self_eq xor.left_neutral xor.assoc)
  then have "compareFingerprint a b \<longleftrightarrow> length a = length b \<and> (\<forall>i < length a. a ! i = b ! i)"
    unfolding compareFingerprint_def compare_fold by (auto simp: of_char_word_eq)
  then show ?thesis by (simp add: list_eq_iff_nth_eq)
qed

lemma length_bytesToUpperHex [simp]: "length (bytesToUpperHex bs) = 2 * length bs"
  by (induction bs) auto

lemma nibble_less: "unat ((b :: byte) AND 0xf) < 16"
proof -
  have "unat (take_bit 4 b) < 2 ^ 4" using take_bit_nat_less_exp [of 4 "unat b"] by (simp add: unsigned_take_bit_eq)
  moreover have "b AND 0xf = take_bit 4 b" by (simp add: take_bit_eq_mask mask_eq_exp_minus_1)
  ultimately show ?thesis by simp
qed

lemma nibbles_inject:
  assumes "drop_bit 4 (a :: byte) AND 0xf = drop_bit 4 b AND 0xf" "a AND 0xf = b AND 0xf"
  shows "a = b"
proof (rule bit_word_eqI)
  fix n assume "n < LENGTH(8)"
  have m: "(0xf :: byte) = mask 4" by (simp add: mask_eq_exp_minus_1)
  have "bit a n = bit b n" if "n < 4"
    using that arg_cong [OF assms(2), of "\<lambda>w. bit w n"] by (simp add: m bit_and_iff bit_mask_iff)
  moreover have "bit a n = bit b n" if "\<not> n < 4"
    using that \<open>n < LENGTH(8)\<close> less_diff_conv2 [of 4 n 4] arg_cong [OF assms(1), of "\<lambda>w. bit w (n - 4)"]
    by (simp add: m bit_and_iff bit_mask_iff bit_drop_bit_eq)
  ultimately show "bit a n = bit b n" by blast
qed

lemma hex_char_eq:
  "HEX_CHARS ! unat ((x :: byte) AND 0xf) = HEX_CHARS ! unat (y AND 0xf) \<longleftrightarrow> x AND 0xf = y AND 0xf"
  by (simp add: nth_eq_iff_index_eq nibble_less word_unat_eq_iff)

lemma bytesToUpperHex_inject: "bytesToUpperHex a = bytesToUpperHex b \<longleftrightarrow> a = b"
proof (induction a arbitrary: b)
  case (Cons x a)
  then show ?case by (cases b) (auto simp: hex_char_eq intro: nibbles_inject)
next
  case Nil
  then show ?case by (cases b) auto
qed

lemma hex_char_not_dash: "c \<in> set (bytesToUpperHex bs) \<Longrightarrow> c \<noteq> CHR ''-''"
proof (induction bs)
  case (Cons b bs)
  have "CHR ''-'' \<noteq> HEX_CHARS ! unat (x AND 0xf)" for x :: byte
  proof -
    have "HEX_CHARS ! unat (x AND 0xf) \<in> set HEX_CHARS" by (simp add: nibble_less)
    then show ?thesis by (auto simp: HEX_CHARS_def)
  qed
  with Cons show ?case by auto
qed simp

lemma concat_hex_slices: "concat (hex_slices n hex) = take (n * HEX_GROUP_SIZE) hex"
  by (induction n) (simp_all add: hex_slices_def take_add [symmetric] mult.commute add.commute)

lemma filter_join:
  "\<forall>g \<in> set gs. sep \<notin> set g \<Longrightarrow> filter (\<lambda>c. c \<noteq> sep) (join [sep] gs) = concat gs"
  by (induction "[sep]" gs rule: join.induct) (auto simp: filter_id_conv)

lemma hex_slices_subset: "g \<in> set (hex_slices n hex) \<Longrightarrow> set g \<subseteq> set hex"
  by (auto simp: hex_slices_def dest!: in_set_takeD in_set_dropD)

lemma fingerprint_body:
  assumes "length d = FINGERPRINT_BYTES"
  shows "filter (\<lambda>c. c \<noteq> CHR ''-'') (join ''-'' (hex_slices HEX_GROUP_COUNT (bytesToUpperHex d))) =
    bytesToUpperHex d"
proof -
  have "\<forall>g \<in> set (hex_slices HEX_GROUP_COUNT (bytesToUpperHex d)). CHR ''-'' \<notin> set g"
    using hex_slices_subset hex_char_not_dash by blast
  then show ?thesis
    using assms by (simp add: filter_join concat_hex_slices fingerprint_consts)
qed

text \<open>Two fingerprints agree exactly when the first 16 bytes of the digests agree.\<close>

lemma fingerprint_inject:
  assumes "fingerprint sha256 p = Inr f" "fingerprint sha256 q = Inr f" "\<And>m. length (sha256 m) = 32"
    "decodePubkey p = Inr a" "decodePubkey q = Inr b"
  shows "take 16 (sha256 (canonical a)) = take 16 (sha256 (canonical b))"
proof -
  let ?d = "\<lambda>k. take FINGERPRINT_BYTES (sha256 (canonical k))"
  let ?j = "\<lambda>k. join ''-'' (hex_slices HEX_GROUP_COUNT (bytesToUpperHex (?d k)))"
  have "?j a = ?j b" using assms by (auto simp: fingerprint_def Let_def)
  moreover have "length (?d k) = FINGERPRINT_BYTES" for k
    using assms(3) by (simp add: fingerprint_consts)
  ultimately have "bytesToUpperHex (?d a) = bytesToUpperHex (?d b)"
    using fingerprint_body by metis
  then show ?thesis by (simp add: bytesToUpperHex_inject fingerprint_consts)
qed

lemma length_join:
  "\<forall>g \<in> set gs. length g = n \<Longrightarrow> gs \<noteq> [] \<Longrightarrow>
   length (join [sep] gs) = n * length gs + length gs - 1"
  by (induction "[sep]" gs rule: join.induct) auto

lemma fingerprint_length:
  assumes "fingerprint sha256 p = Inr f" "\<And>m. length (sha256 m) = 32"
  shows "length f = 42 \<and> starts_with FINGERPRINT_PREFIX f"
proof -
  obtain a where "decodePubkey p = Inr a"
    using assms(1) by (cases "decodePubkey p") (auto simp: fingerprint_def)
  then have a: "f = FINGERPRINT_PREFIX @ join ''-'' (hex_slices HEX_GROUP_COUNT
      (bytesToUpperHex (take FINGERPRINT_BYTES (sha256 (canonical a)))))"
    using assms(1) by (simp add: fingerprint_def Let_def)
  have "\<forall>g \<in> set (hex_slices HEX_GROUP_COUNT (bytesToUpperHex (take FINGERPRINT_BYTES (sha256 (canonical a))))).
      length g = 4"
    using assms(2) by (auto simp: hex_slices_def fingerprint_consts)
  moreover have "length (hex_slices HEX_GROUP_COUNT hex) = 8" for hex
    by (simp add: hex_slices_def fingerprint_consts)
  ultimately have "length (join ''-'' (hex_slices HEX_GROUP_COUNT
      (bytesToUpperHex (take FINGERPRINT_BYTES (sha256 (canonical a)))))) = 39"
    by (subst length_join) (auto simp flip: length_greater_0_conv)
  then show ?thesis by (simp add: a starts_with_def fingerprint_consts)
qed

end
