(* ===== verification/Utf8_Codec.thy ===== *)
theory Utf8_Codec
  imports Js_Prelude
begin

text \<open>
  JavaScript text as UTF-16 code units, the platform's TextEncoder (lone surrogates become U+FFFD)
  and TextDecoder (the WHATWG UTF-8 decoder with replacement, which drops a leading byte-order
  mark), and big-endian integers as DataView writes them. All of it is the standard library the
  payload and AAD encoders call.
\<close>

section \<open>UTF-16\<close>

type_synonym js_text = "16 word list"

definition high_surrogate :: "nat \<Rightarrow> bool" where
  "high_surrogate u = (0xD800 \<le> u \<and> u \<le> 0xDBFF)"

definition low_surrogate :: "nat \<Rightarrow> bool" where
  "low_surrogate u = (0xDC00 \<le> u \<and> u \<le> 0xDFFF)"

definition REPLACEMENT :: nat where "REPLACEMENT = 0xFFFD"

text \<open>The scalar values of a string: USVString conversion.\<close>

fun utf16_scalars :: "js_text \<Rightarrow> nat list" where
  "utf16_scalars [] = []"
| "utf16_scalars [u] =
     [if high_surrogate (unat u) \<or> low_surrogate (unat u) then REPLACEMENT else unat u]"
| "utf16_scalars (u # v # us) =
     (if high_surrogate (unat u) then
        if low_surrogate (unat v)
        then (0x10000 + (unat u - 0xD800) * 1024 + (unat v - 0xDC00)) # utf16_scalars us
        else REPLACEMENT # utf16_scalars (v # us)
      else if low_surrogate (unat u) then REPLACEMENT # utf16_scalars (v # us)
      else unat u # utf16_scalars (v # us))"

definition scalar_units :: "nat \<Rightarrow> js_text" where
  "scalar_units cp =
     (if cp < 0x10000 then [of_nat cp]
      else [of_nat (0xD800 + (cp - 0x10000) div 1024), of_nat (0xDC00 + (cp - 0x10000) mod 1024)])"

text \<open>A string without lone surrogates.\<close>

fun well_formed :: "js_text \<Rightarrow> bool" where
  "well_formed [] = True"
| "well_formed [u] = (\<not> high_surrogate (unat u) \<and> \<not> low_surrogate (unat u))"
| "well_formed (u # v # us) =
     (if high_surrogate (unat u) then low_surrogate (unat v) \<and> well_formed us
      else \<not> low_surrogate (unat u) \<and> well_formed (v # us))"

definition scalar_value :: "nat \<Rightarrow> bool" where
  "scalar_value cp = (cp < 0x110000 \<and> \<not> high_surrogate cp \<and> \<not> low_surrogate cp)"

section \<open>UTF-8\<close>

definition scalar_bytes :: "nat \<Rightarrow> bytes" where
  "scalar_bytes cp =
     (if cp < 0x80 then [of_nat cp]
      else if cp < 0x800 then [of_nat (0xC0 + cp div 64), of_nat (0x80 + cp mod 64)]
      else if cp < 0x10000 then
        [of_nat (0xE0 + cp div 4096), of_nat (0x80 + cp div 64 mod 64), of_nat (0x80 + cp mod 64)]
      else [of_nat (0xF0 + cp div 262144), of_nat (0x80 + cp div 4096 mod 64),
            of_nat (0x80 + cp div 64 mod 64), of_nat (0x80 + cp mod 64)])"

definition TextEncoder :: "js_text \<Rightarrow> bytes" where
  "TextEncoder t = concat (map scalar_bytes (utf16_scalars t))"

text \<open>
  The decoder's state: the continuation bytes still needed, the range the next one must lie in,
  and the code point so far. A byte outside the range ends the sequence and is read again.
\<close>

function utf8_loop :: "bytes \<Rightarrow> nat \<Rightarrow> nat \<Rightarrow> nat \<Rightarrow> nat \<Rightarrow> nat list" where
  "utf8_loop [] needed lo hi cp = (if 0 < needed then [REPLACEMENT] else [])"
| "utf8_loop (b # bs) needed lo hi cp =
     (let x = unat b in
      if needed = 0 then
        if x \<le> 0x7F then x # utf8_loop bs 0 0x80 0xBF 0
        else if 0xC2 \<le> x \<and> x \<le> 0xDF then utf8_loop bs 1 0x80 0xBF (x mod 32)
        else if 0xE0 \<le> x \<and> x \<le> 0xEF then
          utf8_loop bs 2 (if x = 0xE0 then 0xA0 else 0x80) (if x = 0xED then 0x9F else 0xBF) (x mod 16)
        else if 0xF0 \<le> x \<and> x \<le> 0xF4 then
          utf8_loop bs 3 (if x = 0xF0 then 0x90 else 0x80) (if x = 0xF4 then 0x8F else 0xBF) (x mod 8)
        else REPLACEMENT # utf8_loop bs 0 0x80 0xBF 0
      else if x < lo \<or> hi < x then REPLACEMENT # utf8_loop (b # bs) 0 0x80 0xBF 0
      else if needed = 1 then (cp * 64 + x mod 64) # utf8_loop bs 0 0x80 0xBF 0
      else utf8_loop bs (needed - 1) 0x80 0xBF (cp * 64 + x mod 64))"
  by pat_completeness auto
termination
  by (relation "measure (\<lambda>(bs, needed, lo, hi, cp). 2 * length bs + (if 0 < needed then 1 else 0))") auto

declare utf8_loop.simps(2) [simp del]

definition strip_bom :: "bytes \<Rightarrow> bytes" where
  "strip_bom bs = (if take 3 bs = [0xEF, 0xBB, 0xBF] then drop 3 bs else bs)"

definition TextDecoder :: "bytes \<Rightarrow> js_text" where
  "TextDecoder bs = concat (map scalar_units (utf8_loop (strip_bom bs) 0 0x80 0xBF 0))"

text \<open>ASCII protocol strings as text.\<close>

definition text_of_string :: "string \<Rightarrow> js_text" where
  "text_of_string s = map (\<lambda>c. of_nat (of_char c)) s"

section \<open>Round trip\<close>

lemma unat_small_byte: "n < 256 \<Longrightarrow> unat (of_nat n :: byte) = n"
  by (simp add: unat_of_nat)

lemma unat_small_unit: "n < 65536 \<Longrightarrow> unat (of_nat n :: 16 word) = n"
  by (simp add: unat_of_nat)

lemma unit_bound: "unat (u :: 16 word) < 65536"
  using unsigned_less [of u] by simp

lemma utf8_lead3:
  assumes "q < 16"
  shows "utf8_loop (of_nat (0xE0 + q) # bs) 0 lo hi c = 
    utf8_loop bs 2 (if q = 0 then 0xA0 else 0x80) (if q = 13 then 0x9F else 0xBF) q"
proof -
  have u: "unat (of_nat (0xE0 + q) :: byte) = 0xE0 + q"
    using assms by (intro unat_small_byte) simp
  have "(0xE0 + q) mod 16 = q"
    using assms by (simp add: mod_add_eq [symmetric, of 224 q 16])
  then show ?thesis
    using assms by (simp del: of_nat_add add: utf8_loop.simps(2) Let_def u)
qed

lemma utf8_lead4:
  assumes "q < 5"
  shows "utf8_loop (of_nat (0xF0 + q) # bs) 0 lo hi c = 
    utf8_loop bs 3 (if q = 0 then 0x90 else 0x80) (if q = 4 then 0x8F else 0xBF) q"
proof -
  have u: "unat (of_nat (0xF0 + q) :: byte) = 0xF0 + q"
    using assms by (intro unat_small_byte) simp
  have "(0xF0 + q) mod 8 = q"
    using assms by (simp add: mod_add_eq [symmetric, of 240 q 8])
  then show ?thesis
    using assms by (simp del: of_nat_add add: utf8_loop.simps(2) Let_def u)
qed

lemma utf8_lead2:
  assumes "2 \<le> q" "q < 32"
  shows "utf8_loop (of_nat (0xC0 + q) # bs) 0 lo hi c = utf8_loop bs 1 0x80 0xBF q"
proof -
  have u: "unat (of_nat (0xC0 + q) :: byte) = 0xC0 + q"
    using assms by (intro unat_small_byte) simp
  have "(0xC0 + q) mod 32 = q"
    using assms by (simp add: mod_add_eq [symmetric, of 192 q 32])
  then show ?thesis
    using assms by (simp del: of_nat_add add: utf8_loop.simps(2) Let_def u)
qed

lemma utf8_cont:
  assumes "q < 64" "lo \<le> 0x80 + q" "0x80 + q \<le> hi" "0 < needed"
  shows "utf8_loop (of_nat (0x80 + q) # bs) needed lo hi c = 
    (if needed = 1 then (c * 64 + q) # utf8_loop bs 0 0x80 0xBF 0
     else utf8_loop bs (needed - 1) 0x80 0xBF (c * 64 + q))"
proof -
  have u: "unat (of_nat (0x80 + q) :: byte) = 0x80 + q"
    using assms by (intro unat_small_byte) simp
  have "(0x80 + q) mod 64 = q"
    using assms by (simp add: mod_add_eq [symmetric, of 128 q 64])
  then show ?thesis
    using assms by (simp del: of_nat_add add: utf8_loop.simps(2) Let_def u)
qed

lemma div_mod_64: "cp div 64 * 64 + cp mod 64 = (cp :: nat)"
  "cp div 4096 * 64 + cp div 64 mod 64 = cp div 64"
  "cp div 262144 * 64 + cp div 4096 mod 64 = cp div 4096"
proof -
  have "cp div 4096 = cp div 64 div 64" "cp div 262144 = cp div 4096 div 64"
    by (simp_all add: div_mult2_eq [symmetric])
  then show "cp div 64 * 64 + cp mod 64 = cp" "cp div 4096 * 64 + cp div 64 mod 64 = cp div 64"
    "cp div 262144 * 64 + cp div 4096 mod 64 = cp div 4096" by simp_all
qed

lemma utf8_scalar2:
  assumes "0x80 \<le> cp" "cp < 0x800"
  shows "utf8_loop (scalar_bytes cp @ bs) 0 lo hi c = cp # utf8_loop bs 0 0x80 0xBF 0"
proof -
  have "2 \<le> cp div 64" "cp div 64 < 32" using assms by auto
  then show ?thesis
    using assms by (simp add: scalar_bytes_def utf8_lead2 utf8_cont div_mod_64 del: of_nat_add)
qed

lemma utf8_scalar3:
  assumes "0x800 \<le> cp" "cp < 0x10000" "\<not> high_surrogate cp" "\<not> low_surrogate cp"
  shows "utf8_loop (scalar_bytes cp @ bs) 0 lo hi c = cp # utf8_loop bs 0 0x80 0xBF 0"
proof -
  have q: "cp div 4096 < 16" using assms by auto
  have r: "cp div 64 mod 64 \<le> 63" using mod_less_divisor [of 64 "cp div 64"] by linarith
  have "cp div 64 mod 64 \<ge> 32" if "cp div 4096 = 0"
    using that assms(1) div_mod_64(2) [of cp] by auto
  moreover have "cp div 64 mod 64 \<le> 31" if "cp div 4096 = 13"
  proof -
    have "53248 \<le> cp" "cp < 57344" using that by auto
    then have "cp < 55296" using assms(3,4) by (auto simp: high_surrogate_def low_surrogate_def)
    then show ?thesis using that div_mod_64(2) [of cp] by auto
  qed
  moreover have "utf8_loop (scalar_bytes cp @ bs) 0 lo hi c =
      utf8_loop (of_nat (0x80 + cp div 64 mod 64) # of_nat (0x80 + cp mod 64) # bs) 2
        (if cp div 4096 = 0 then 0xA0 else 0x80) (if cp div 4096 = 13 then 0x9F else 0xBF) (cp div 4096)"
    using assms q by (simp add: scalar_bytes_def utf8_lead3 del: of_nat_add)
  ultimately have "utf8_loop (scalar_bytes cp @ bs) 0 lo hi c =
      ((cp div 4096 * 64 + cp div 64 mod 64) * 64 + cp mod 64) # utf8_loop bs 0 0x80 0xBF 0"
    using r by (simp only: utf8_cont [of "cp mod 64"]) (subst utf8_cont; simp add: utf8_cont del: of_nat_add)
  then show ?thesis by (simp only: div_mod_64)
qed

lemma utf8_scalar4:
  assumes "0x10000 \<le> cp" "cp < 0x110000"
  shows "utf8_loop (scalar_bytes cp @ bs) 0 lo hi c = cp # utf8_loop bs 0 0x80 0xBF 0"
proof -
  have q: "cp div 262144 < 5" using assms by auto
  have r: "cp div 4096 mod 64 \<le> 63" using mod_less_divisor [of 64 "cp div 4096"] by linarith
  have "cp div 4096 mod 64 \<ge> 16" if "cp div 262144 = 0"
    using that assms(1) div_mod_64(3) [of cp] by auto
  moreover have "cp div 4096 mod 64 \<le> 15" if "cp div 262144 = 4"
    using that assms(2) div_mod_64(3) [of cp] by auto
  moreover have "utf8_loop (scalar_bytes cp @ bs) 0 lo hi c =
      utf8_loop (of_nat (0x80 + cp div 4096 mod 64) # of_nat (0x80 + cp div 64 mod 64) #
          of_nat (0x80 + cp mod 64) # bs) 3
        (if cp div 262144 = 0 then 0x90 else 0x80) (if cp div 262144 = 4 then 0x8F else 0xBF) (cp div 262144)"
    using assms q by (simp add: scalar_bytes_def utf8_lead4 del: of_nat_add)
  ultimately have "utf8_loop (scalar_bytes cp @ bs) 0 lo hi c =
      (((cp div 262144 * 64 + cp div 4096 mod 64) * 64 + cp div 64 mod 64) * 64 + cp mod 64) #
      utf8_loop bs 0 0x80 0xBF 0"
    using r by (simp only: utf8_cont [of "cp mod 64"]) (subst utf8_cont; simp add: utf8_cont del: of_nat_add)
  then show ?thesis by (simp only: div_mod_64)
qed

lemma utf8_scalar:
  assumes "scalar_value cp"
  shows "utf8_loop (scalar_bytes cp @ bs) 0 lo hi c = cp # utf8_loop bs 0 0x80 0xBF 0"
proof -
  consider "cp < 0x80" | "0x80 \<le> cp" "cp < 0x800" | "0x800 \<le> cp" "cp < 0x10000" | "0x10000 \<le> cp"
    by linarith
  then show ?thesis
  proof cases
    case 1
    then show ?thesis by (simp add: scalar_bytes_def utf8_loop.simps(2) unat_small_byte)
  qed (use assms in \<open>simp_all add: utf8_scalar2 utf8_scalar3 utf8_scalar4 scalar_value_def\<close>)
qed

lemma utf8_scalars:
  "list_all scalar_value cps \<Longrightarrow> utf8_loop (concat (map scalar_bytes cps)) 0 lo hi c = cps"
proof (induction cps arbitrary: lo hi c)
  case Nil
  show ?case by simp
next
  case (Cons cp cps)
  then show ?case by (simp add: utf8_scalar)
qed

lemma REPLACEMENT_scalar [simp]: "scalar_value REPLACEMENT"
  by (simp add: scalar_value_def REPLACEMENT_def high_surrogate_def low_surrogate_def)

lemma unit_scalar:
  "\<not> high_surrogate (unat u) \<Longrightarrow> \<not> low_surrogate (unat u) \<Longrightarrow> scalar_value (unat (u :: 16 word))"
  using unit_bound [of u] by (simp add: scalar_value_def)

lemma pair_scalar:
  "high_surrogate x \<Longrightarrow> low_surrogate y \<Longrightarrow> scalar_value (0x10000 + (x - 0xD800) * 1024 + (y - 0xDC00))"
  by (auto simp: scalar_value_def high_surrogate_def low_surrogate_def)

lemma utf16_scalars_valid: "list_all scalar_value (utf16_scalars t)"
  by (induction t rule: utf16_scalars.induct) (auto simp: unit_scalar pair_scalar)

lemma surrogate_pair:
  assumes "high_surrogate (unat u)" "low_surrogate (unat v)"
  shows "scalar_units (0x10000 + (unat u - 0xD800) * 1024 + (unat v - 0xDC00)) = [u, v]"
proof -
  have e: "0xD800 + (unat u - 0xD800) = unat u" "0xDC00 + (unat v - 0xDC00) = unat v"
    and l: "unat v - 0xDC00 < 1024"
    using assms by (auto simp: high_surrogate_def low_surrogate_def)
  let ?cp = "0x10000 + (unat u - 0xD800) * 1024 + (unat v - 0xDC00)"
  have "(?cp - 0x10000) div 1024 = unat u - 0xD800" "(?cp - 0x10000) mod 1024 = unat v - 0xDC00"
    using l by simp_all
  then have "scalar_units ?cp = [of_nat (0xD800 + (unat u - 0xD800)), of_nat (0xDC00 + (unat v - 0xDC00))]"
    by (simp only: scalar_units_def) simp
  then show ?thesis by (simp only: e) simp
qed

lemma scalar_units_unit: "scalar_units (unat u) = [u]"
  using unit_bound [of u] by (simp add: scalar_units_def)

lemma utf16_roundtrip: "well_formed t \<Longrightarrow> concat (map scalar_units (utf16_scalars t)) = t"
  by (induction t rule: well_formed.induct)
    (auto simp: surrogate_pair scalar_units_unit split: if_splits)

lemma text_roundtrip:
  assumes "well_formed t" "take 3 (TextEncoder t) \<noteq> [0xEF, 0xBB, 0xBF]"
  shows "TextDecoder (TextEncoder t) = t"
  using assms utf8_scalars [OF utf16_scalars_valid] utf16_roundtrip
  by (simp add: TextDecoder_def strip_bom_def) (simp add: TextEncoder_def)

lemma TextEncoder_inject:
  assumes "well_formed s" "well_formed t" "TextEncoder s = TextEncoder t"
  shows "s = t"
proof -
  have "utf16_scalars s = utf16_scalars t"
    using assms(3) utf8_scalars [OF utf16_scalars_valid] unfolding TextEncoder_def by metis
  then show ?thesis using assms(1,2) utf16_roundtrip by metis
qed

lemma unat_char_unit: "unat (of_nat (of_char c) :: 16 word) = of_char c"
proof -
  have "(of_char c :: nat) < 256" by (rule nat_of_char_less_256)
  then show ?thesis by (intro unat_small_unit) linarith
qed

lemma text_of_string_plain_unit:
  "\<not> high_surrogate (unat (of_nat (of_char c) :: 16 word))" "\<not> low_surrogate (unat (of_nat (of_char c) :: 16 word))"
  unfolding unat_char_unit high_surrogate_def low_surrogate_def
  using nat_of_char_less_256 [of c] by linarith+

lemma well_formed_text_of_string [simp]: "well_formed (text_of_string s)"
proof (induction s)
  case (Cons c s)
  then show ?case
    by (cases s) (simp_all add: text_of_string_def text_of_string_plain_unit del: of_nat_of_char)
qed (simp add: text_of_string_def)

lemma text_of_string_inject: "text_of_string s = text_of_string t \<Longrightarrow> s = t"
proof -
  have "inj (\<lambda>c. of_nat (of_char c) :: 16 word)"
  proof (rule injI)
    fix c d assume "(of_nat (of_char c) :: 16 word) = of_nat (of_char d)"
    then have "(of_char c :: nat) = of_char d" by (metis unat_char_unit)
    then show "c = d" by simp
  qed
  then show "text_of_string s = text_of_string t \<Longrightarrow> s = t"
    by (simp add: text_of_string_def inj_map_eq_map)
qed

end
