(* ===== verification/Pad_Policy.thy ===== *)
theory Pad_Policy
  imports Js_Prelude
begin

text \<open>
  The length-hiding padding policy of packages/crypto/src/pad.ts: three fixed buckets, then Padme.
  Lengths are natural numbers, \<open>Math.floor(Math.log2 n)\<close> is the integer logarithm \<open>ilog2\<close>
  (exact in floating point below 2^48, far above any length the code handles), and
  \<open>Math.ceil(len / blockSize)\<close> the rounded-up quotient.
\<close>

definition PAD_BUCKETS :: "nat list" where
  "PAD_BUCKETS = [256, 1024, 4096]"

definition LARGEST_FIXED_BUCKET :: nat where
  "LARGEST_FIXED_BUCKET = last PAD_BUCKETS"

fun ilog2 :: "nat \<Rightarrow> nat" where
  "ilog2 n = (if n < 2 then 0 else Suc (ilog2 (n div 2)))"

declare ilog2.simps [simp del]

definition ceil_div :: "nat \<Rightarrow> nat \<Rightarrow> nat" where
  "ceil_div a b = (a + b - 1) div b"

definition padme :: "nat \<Rightarrow> nat" where
  "padme len =
     (let exponent = ilog2 len;
          mantissaBits = ilog2 exponent + 1
      in if exponent \<le> mantissaBits then len
         else let blockSize = 2 ^ (exponent - mantissaBits) in ceil_div len blockSize * blockSize)"

text \<open>The argument is an integer; a negative one is the code's thrown Error.\<close>

definition targetPaddedLen :: "int \<Rightarrow> string + nat" where
  "targetPaddedLen rawLen =
     (if rawLen < 0 then Inl ''targetPaddedLen: rawLen must be a non-negative integer''
      else case find (\<lambda>bucket. rawLen \<le> int bucket) PAD_BUCKETS of
             Some bucket \<Rightarrow> Inr bucket
           | None \<Rightarrow> Inr (padme (nat rawLen)))"

definition padded_len :: "nat \<Rightarrow> nat" where
  "padded_len n = (if n \<le> 256 then 256 else if n \<le> 1024 then 1024 else if n \<le> 4096 then 4096 else padme n)"

lemma targetPaddedLen_nat: "targetPaddedLen (int n) = Inr (padded_len n)"
  by (simp add: targetPaddedLen_def padded_len_def PAD_BUCKETS_def)

lemma ilog2_bounds:
  assumes "0 < n"
  shows "2 ^ ilog2 n \<le> n \<and> n < 2 ^ Suc (ilog2 n)"
  using assms
proof (induction n rule: ilog2.induct)
  case (1 n)
  show ?case
  proof (cases "n < 2")
    case True
    with 1(2) show ?thesis by (subst (1 2) ilog2.simps) simp
  next
    case False
    then have "2 ^ ilog2 (n div 2) \<le> n div 2" "n div 2 < 2 ^ Suc (ilog2 (n div 2))"
      using 1(1) by auto
    moreover have "ilog2 n = Suc (ilog2 (n div 2))" using False by (subst ilog2.simps) simp
    ultimately show ?thesis by simp linarith
  qed
qed

lemma ilog2_eqI:
  assumes "2 ^ k \<le> n" "n < 2 ^ Suc k"
  shows "ilog2 n = k"
proof -
  have "0 < n" using assms(1) by (metis gr0I not_less_zero power_eq_0_iff le_zero_eq zero_neq_numeral)
  note b = ilog2_bounds [OF this]
  have "(2::nat) ^ k < 2 ^ Suc (ilog2 n)" "(2::nat) ^ ilog2 n < 2 ^ Suc k"
    using assms b by linarith+
  then have "k < Suc (ilog2 n)" "ilog2 n < Suc k"
    by (simp_all only: power_strict_increasing_iff one_less_numeral_iff semiring_norm)
  then show ?thesis by simp
qed

lemma ilog2_mono:
  assumes "0 < m" "m \<le> n"
  shows "ilog2 m \<le> ilog2 n"
proof -
  have "(2::nat) ^ ilog2 m < 2 ^ Suc (ilog2 n)"
    using ilog2_bounds [of m] ilog2_bounds [of n] assms by linarith
  then show ?thesis by (simp only: power_strict_increasing_iff one_less_numeral_iff semiring_norm less_Suc_eq_le)
qed

lemma ceil_div_bounds:
  assumes "0 < b"
  shows "n \<le> ceil_div n b * b" "ceil_div n b * b < n + b"
proof -
  have "(n + b - 1) div b * b + (n + b - 1) mod b = n + b - 1" by simp
  moreover have "(n + b - 1) mod b < b" using assms by simp
  ultimately show "n \<le> ceil_div n b * b" "ceil_div n b * b < n + b"
    using assms unfolding ceil_div_def by linarith+
qed

lemma ceil_div_multiple:
  assumes "0 < b" "b dvd n"
  shows "ceil_div n b * b = n"
proof -
  obtain k where k: "n = k * b" using assms(2) by (metis dvdE mult.commute)
  have "ceil_div n b * b < (k + 1) * b" "k * b \<le> ceil_div n b * b"
    using ceil_div_bounds [OF assms(1), of n] by (simp_all add: k)
  then have "ceil_div n b < k + 1" "k \<le> ceil_div n b"
    using assms(1) by (metis mult_less_cancel2, metis mult_le_cancel2)
  then show ?thesis by (simp add: k)
qed

text \<open>The granularity of Padme at a length: a power of two, 1 where the code returns the length itself.\<close>

definition pad_block :: "nat \<Rightarrow> nat" where
  "pad_block len = 2 ^ (ilog2 len - (ilog2 (ilog2 len) + 1))"

lemma pad_block_pos [simp]: "0 < pad_block n"
  by (simp add: pad_block_def)

lemma padme_blocks: "padme len = ceil_div len (pad_block len) * pad_block len"
  by (auto simp: padme_def pad_block_def Let_def ceil_div_def)

lemma padme_ge: "n \<le> padme n"
  unfolding padme_blocks by (rule ceil_div_bounds) simp

lemma padme_less: "padme n < n + pad_block n"
  unfolding padme_blocks by (rule ceil_div_bounds) simp

lemma pad_block_dvd_power: "ilog2 n \<le> k \<Longrightarrow> pad_block n dvd 2 ^ k"
  unfolding pad_block_def by (rule le_imp_power_dvd) simp

lemma pad_block_dvd: "pad_block n dvd padme n"
  unfolding padme_blocks by simp

lemma padme_le_power:
  assumes "0 < n"
  shows "padme n \<le> 2 ^ Suc (ilog2 n)"
proof (rule ccontr)
  let ?P = "2 ^ Suc (ilog2 n) :: nat"
  assume "\<not> ?thesis"
  then have less: "?P < padme n" by simp
  have "pad_block n dvd padme n - ?P"
    using pad_block_dvd_power [of n "Suc (ilog2 n)"] pad_block_dvd by (intro dvd_diff_nat) auto
  then have "pad_block n \<le> padme n - ?P" using less by (intro dvd_imp_le) auto
  then show False using padme_less [of n] less ilog2_bounds [OF assms] by linarith
qed

lemma padme_idem:
  assumes "0 < n"
  shows "padme (padme n) = padme n"
proof (cases "padme n = 2 ^ Suc (ilog2 n)")
  case True
  have "ilog2 (padme n) = Suc (ilog2 n)" unfolding True by (rule ilog2_eqI) simp_all
  then have "pad_block (padme n) dvd padme n"
    using pad_block_dvd_power [of "padme n" "Suc (ilog2 n)"] True by simp
  then show ?thesis unfolding padme_blocks [of "padme n"] by (intro ceil_div_multiple) simp_all
next
  case False
  then have "padme n < 2 ^ Suc (ilog2 n)" using padme_le_power [OF assms] by simp
  moreover have "2 ^ ilog2 n \<le> padme n" using ilog2_bounds [OF assms] padme_ge [of n] by linarith
  ultimately have "ilog2 (padme n) = ilog2 n" by (intro ilog2_eqI)
  then have "pad_block (padme n) = pad_block n" by (simp add: pad_block_def)
  then show ?thesis
    unfolding padme_blocks [of "padme n"] using pad_block_dvd [of n] by (intro ceil_div_multiple) simp_all
qed

lemma padme_mono:
  assumes "0 < m" "m \<le> n"
  shows "padme m \<le> padme n"
proof (cases "ilog2 m = ilog2 n")
  case True
  then have "pad_block m = pad_block n" by (simp add: pad_block_def)
  moreover have "ceil_div m (pad_block n) \<le> ceil_div n (pad_block n)"
    using assms unfolding ceil_div_def by (intro div_le_mono) simp
  ultimately show ?thesis unfolding padme_blocks by simp
next
  case False
  then have "Suc (ilog2 m) \<le> ilog2 n" using ilog2_mono [OF assms] by simp
  then have "(2::nat) ^ Suc (ilog2 m) \<le> 2 ^ ilog2 n" by (intro power_increasing) simp_all
  also have "\<dots> \<le> n" using ilog2_bounds [of n] assms by simp
  finally show ?thesis using padme_le_power [of m] padme_ge [of n] assms by linarith
qed

lemma pad_block_small:
  assumes "4096 < n"
  shows "16 * pad_block n \<le> n"
proof -
  let ?E = "ilog2 n"
  have "ilog2 4096 \<le> ?E" using assms by (intro ilog2_mono) simp_all
  moreover have "ilog2 4096 = 12" by (rule ilog2_eqI) simp_all
  ultimately have E: "12 \<le> ?E" by simp
  then have "ilog2 12 \<le> ilog2 ?E" by (intro ilog2_mono) simp_all
  moreover have "ilog2 12 = 3" by (rule ilog2_eqI) simp_all
  ultimately have "?E - (ilog2 ?E + 1) + 4 \<le> ?E" using E by simp
  then have "(2::nat) ^ (?E - (ilog2 ?E + 1) + 4) \<le> 2 ^ ?E" by (intro power_increasing) simp_all
  then show ?thesis using ilog2_bounds [of n] assms by (simp add: pad_block_def power_add)
qed

lemma padded_len_ge: "n \<le> padded_len n"
  using padme_ge [of n] by (simp add: padded_len_def)

lemma padded_len_mono:
  assumes "m \<le> n"
  shows "padded_len m \<le> padded_len n"
  using assms padme_mono [of m n] padme_ge [of n] by (auto simp: padded_len_def)

lemma padded_len_idem: "padded_len (padded_len n) = padded_len n"
proof (cases "n \<le> 4096")
  case False
  then show ?thesis using padme_ge [of n] by (simp add: padded_len_def padme_idem)
qed (simp add: padded_len_def)

lemma padded_len_overhead: "4096 < n \<Longrightarrow> 16 * padded_len n < 17 * n"
  using padme_less [of n] pad_block_small [of n] by (simp add: padded_len_def)

end
