(* ===== verification/Payload_Codec.thy ===== *)
theory Payload_Codec
  imports Base_Codec Utf8_Codec Pad_Policy
begin

text \<open>
  The plaintext envelope of packages/crypto/src/payload.ts: one text body and its attachments,
  length-prefixed big-endian fields, and from version 2 a zero pad trailer that rounds the whole
  envelope up to a bucket of the padding policy. Writing at a growing offset into a zero-filled
  array is appending; reading at an offset is consuming the input.
\<close>

section \<open>Big-endian integers\<close>

text \<open>The low \<open>n\<close> bytes of \<open>v\<close>, most significant first: setUint8, setUint16, setUint32, setBigUint64.\<close>

primrec be_bytes :: "nat \<Rightarrow> nat \<Rightarrow> bytes" where
  "be_bytes 0 v = []"
| "be_bytes (Suc n) v = of_nat (v div 256 ^ n) # be_bytes n v"

definition be_nat :: "bytes \<Rightarrow> nat" where
  "be_nat bs = foldl (\<lambda>a b. a * 256 + unat b) 0 bs"

lemma length_be_bytes [simp]: "length (be_bytes n v) = n"
  by (induction n) auto

lemma foldl_be_acc:
  "foldl (\<lambda>a b. a * 256 + unat (b :: byte)) c bs = c * 256 ^ length bs + foldl (\<lambda>a b. a * 256 + unat b) 0 bs"
proof (induction bs arbitrary: c)
  case (Cons b bs)
  show ?case using Cons.IH [of "c * 256 + unat b"] Cons.IH [of "unat b"] by (simp add: algebra_simps)
qed simp

lemma be_nat_Cons: "be_nat (b # bs) = unat b * 256 ^ length bs + be_nat bs"
  by (simp add: be_nat_def foldl_be_acc [of "unat b"])

lemma be_nat_be_bytes_mod: "be_nat (be_bytes n v) = v mod 256 ^ n"
proof (induction n)
  case 0
  show ?case by (simp add: be_nat_def)
next
  case (Suc n)
  have "unat (of_nat (v div 256 ^ n) :: byte) = v div 256 ^ n mod 256" by (simp add: unat_of_nat)
  then show ?case using mod_mult2_eq [of v "256 ^ n" 256] by (simp add: be_nat_Cons Suc ac_simps)
qed

lemma be_nat_be_bytes: "v < 256 ^ n \<Longrightarrow> be_nat (be_bytes n v) = v"
  by (simp add: be_nat_be_bytes_mod)

section \<open>Encoding\<close>

definition PAYLOAD_VERSION :: byte where "PAYLOAD_VERSION = 2"
definition PAYLOAD_VERSION_V1 :: byte where "PAYLOAD_VERSION_V1 = 1"
definition U16_MAX :: nat where "U16_MAX = 0xffff"
definition U32_MAX :: nat where "U32_MAX = 0xffffffff"
definition PAD_LEN_FIELD_BYTES :: nat where "PAD_LEN_FIELD_BYTES = 4"

lemmas payload_consts = PAYLOAD_VERSION_def PAYLOAD_VERSION_V1_def U16_MAX_def U32_MAX_def
  PAD_LEN_FIELD_BYTES_def

record payload_attachment =
  filename :: js_text
  mimetype :: js_text
  att_bytes :: bytes

record payload =
  msg_text :: js_text
  attachments :: "payload_attachment list"

record encoded_field =
  nameBytes :: bytes
  mimeBytes :: bytes
  content :: bytes

definition encode_field :: "payload_attachment \<Rightarrow> crypto_error + encoded_field" where
  "encode_field att =
     (let nb = TextEncoder (filename att); mb = TextEncoder (mimetype att) in
      if length nb > U16_MAX then Inl (InvalidFormatError ''encodePayload: filename exceeds u16 length'')
      else if length mb > U16_MAX then Inl (InvalidFormatError ''encodePayload: mimetype exceeds u16 length'')
      else if length (att_bytes att) > U32_MAX
      then Inl (InvalidFormatError ''encodePayload: attachment exceeds u32 length'')
      else Inr \<lparr>nameBytes = nb, mimeBytes = mb, content = att_bytes att\<rparr>)"

definition field_len :: "encoded_field \<Rightarrow> nat" where
  "field_len f = 2 + length (nameBytes f) + 2 + length (mimeBytes f) + 4 + length (content f)"

definition write_field :: "encoded_field \<Rightarrow> bytes" where
  "write_field f =
     be_bytes 2 (length (nameBytes f)) @ nameBytes f @
     be_bytes 2 (length (mimeBytes f)) @ mimeBytes f @
     be_bytes 4 (length (content f)) @ content f"

definition write_frame :: "bytes \<Rightarrow> encoded_field list \<Rightarrow> bytes" where
  "write_frame textBytes fds =
     PAYLOAD_VERSION # be_bytes 4 (length textBytes) @ textBytes @
     be_bytes 2 (length fds) @ concat (map write_field fds)"

definition encodePayload :: "payload \<Rightarrow> crypto_error + bytes" where
  "encodePayload p =
     (let textBytes = TextEncoder (msg_text p) in
      if length textBytes > U32_MAX then Inl (InvalidFormatError ''encodePayload: text exceeds u32 length'')
      else if length (attachments p) > U16_MAX
      then Inl (InvalidFormatError ''encodePayload: too many attachments'')
      else and_then (map_err encode_field (attachments p)) (\<lambda>fds.
        let bodyLen = 1 + 4 + length textBytes + 2 + sum_list (map field_len fds);
            minLen = bodyLen + PAD_LEN_FIELD_BYTES
        in case targetPaddedLen (int minLen) of
             Inl e \<Rightarrow> Inl (PlainError e)
           | Inr tot \<Rightarrow>
               (let padLen = int tot - int minLen in
                if padLen < 0 \<or> padLen > int U32_MAX
                then Inl (PlainError ''encodePayload: internal pad length out of range'')
                else let out = write_frame textBytes fds @ be_bytes 4 (nat padLen);
                         off = int (length out) + padLen
                     in if off \<noteq> int tot
                        then Inl (PlainError ''encodePayload: internal offset mismatch'')
                        else Inr (out @ replicate (nat padLen) 0))))"

section \<open>Decoding\<close>

text \<open>\<open>need n\<close> followed by the read of \<open>n\<close> bytes.\<close>

definition read_bytes :: "nat \<Rightarrow> bytes \<Rightarrow> crypto_error + (bytes \<times> bytes)" where
  "read_bytes n bs =
     (if n > length bs then Inl (InvalidFormatError ''decodePayload: truncated payload'')
      else Inr (take n bs, drop n bs))"

text \<open>A length field of \<open>n\<close> bytes and the bytes it announces.\<close>

definition read_field :: "nat \<Rightarrow> bytes \<Rightarrow> crypto_error + (bytes \<times> bytes)" where
  "read_field n bs = and_then (read_bytes n bs) (\<lambda>(len, rest). read_bytes (be_nat len) rest)"

primrec read_attachments :: "nat \<Rightarrow> bytes \<Rightarrow> crypto_error + (payload_attachment list \<times> bytes)" where
  "read_attachments 0 bs = Inr ([], bs)"
| "read_attachments (Suc n) bs =
     and_then (read_field 2 bs) (\<lambda>(nb, bs1).
     and_then (read_field 2 bs1) (\<lambda>(mb, bs2).
     and_then (read_field 4 bs2) (\<lambda>(ct, bs3).
     and_then (read_attachments n bs3) (\<lambda>(atts, bs4).
       Inr (\<lparr>filename = TextDecoder nb, mimetype = TextDecoder mb, att_bytes = ct\<rparr> # atts, bs4)))))"

definition decodeStrict :: "bytes \<Rightarrow> crypto_error + payload" where
  "decodeStrict bs =
     (case bs of
        [] \<Rightarrow> Inl (InvalidFormatError ''decodePayload: unknown payload version'')
      | version # rest \<Rightarrow>
          if version \<noteq> PAYLOAD_VERSION \<and> version \<noteq> PAYLOAD_VERSION_V1
          then Inl (InvalidFormatError ''decodePayload: unknown payload version'')
          else
            and_then (read_field 4 rest) (\<lambda>(tb, bs1).
            and_then (read_bytes 2 bs1) (\<lambda>(cnt, bs2).
            and_then (read_attachments (be_nat cnt) bs2) (\<lambda>(atts, bs3).
            and_then (if version = PAYLOAD_VERSION
                      then and_then (read_field 4 bs3) (\<lambda>(pad, bs4). Inr bs4) else Inr bs3) (\<lambda>left.
            if left \<noteq> [] then Inl (InvalidFormatError ''decodePayload: trailing bytes after payload'')
            else Inr \<lparr>msg_text = TextDecoder tb, attachments = atts\<rparr>)))))"

definition decodePayload :: "bytes \<Rightarrow> payload" where
  "decodePayload bs =
     (case decodeStrict bs of
        Inr p \<Rightarrow> p
      | Inl _ \<Rightarrow> \<lparr>msg_text = TextDecoder bs, attachments = []\<rparr>)"

section \<open>Round trip and length\<close>

text \<open>Text that TextEncoder and TextDecoder carry over unchanged.\<close>

definition plain_text :: "js_text \<Rightarrow> bool" where
  "plain_text t = (well_formed t \<and> take 3 (TextEncoder t) \<noteq> [0xEF, 0xBB, 0xBF])"

definition plain_attachment :: "payload_attachment \<Rightarrow> bool" where
  "plain_attachment a = (plain_text (filename a) \<and> plain_text (mimetype a))"

definition plain_payload :: "payload \<Rightarrow> bool" where
  "plain_payload p = (plain_text (msg_text p) \<and> list_all plain_attachment (attachments p))"

lemma plain_roundtrip [simp]: "plain_text t \<Longrightarrow> TextDecoder (TextEncoder t) = t"
  by (simp add: plain_text_def text_roundtrip)

lemma read_field_written [simp]:
  assumes "length f < 256 ^ n"
  shows "read_field n (be_bytes n (length f) @ f @ rest) = Inr (f, rest)"
  using assms by (simp add: read_field_def read_bytes_def be_nat_be_bytes)

definition field_ok :: "encoded_field \<Rightarrow> bool" where
  "field_ok f = (length (nameBytes f) \<le> U16_MAX \<and> length (mimeBytes f) \<le> U16_MAX \<and> length (content f) \<le> U32_MAX)"

definition decode_field :: "encoded_field \<Rightarrow> payload_attachment" where
  "decode_field f = \<lparr>filename = TextDecoder (nameBytes f), mimetype = TextDecoder (mimeBytes f), att_bytes = content f\<rparr>"

lemma read_attachments_written:
  "list_all field_ok fs \<Longrightarrow>
   read_attachments (length fs) (concat (map write_field fs) @ rest) = Inr (map decode_field fs, rest)"
proof (induction fs)
  case (Cons f fs)
  then show ?case by (simp add: field_ok_def payload_consts write_field_def decode_field_def)
qed simp

lemma length_write_field: "length (write_field f) = field_len f"
  by (simp add: write_field_def field_len_def)

lemma length_write_frame:
  "length (write_frame t fs) = 7 + length t + sum_list (map field_len fs)"
  by (simp add: write_frame_def length_concat comp_def length_write_field)

lemma encode_field_Inr:
  "encode_field a = Inr f \<longleftrightarrow>
   f = \<lparr>nameBytes = TextEncoder (filename a), mimeBytes = TextEncoder (mimetype a), content = att_bytes a\<rparr>
   \<and> field_ok f"
  by (auto simp: encode_field_def Let_def field_ok_def)

text \<open>What a successful encoding looks like.\<close>

lemma encodePayload_Inr:
  assumes "encodePayload p = Inr out"
  obtains fs pad where
    "map_err encode_field (attachments p) = Inr fs"
    "length (TextEncoder (msg_text p)) \<le> U32_MAX" "length fs \<le> U16_MAX" "pad \<le> U32_MAX"
    "out = write_frame (TextEncoder (msg_text p)) fs @ be_bytes 4 pad @ replicate pad 0"
    "length out = padded_len (length (write_frame (TextEncoder (msg_text p)) fs) + 4)"
proof -
  let ?t = "TextEncoder (msg_text p)"
  obtain fs where fs: "map_err encode_field (attachments p) = Inr fs"
    using assms by (auto simp: encodePayload_def Let_def result_simps split: if_splits)
  let ?min = "length (write_frame ?t fs) + 4"
  have min: "1 + 4 + length ?t + 2 + sum_list (map field_len fs) + PAD_LEN_FIELD_BYTES = ?min"
    by (simp add: length_write_frame payload_consts)
  obtain k where k: "padded_len ?min = ?min + k" using padded_len_ge [of ?min] le_Suc_ex by blast
  have pad: "int (padded_len ?min) - int ?min = int k" by (simp add: k)
  have "length fs = length (attachments p)"
    using fs by (auto simp: map_err_Inr dest: list_all2_lengthD)
  then show ?thesis
    using that [of fs k] assms fs
    unfolding encodePayload_def Let_def fs and_then.simps min targetPaddedLen_nat sum.case pad nat_int
    by (auto simp: k split: if_splits)
qed

lemma map_err_fields:
  assumes "map_err encode_field as = Inr fs"
  shows "list_all field_ok fs"
    "list_all plain_attachment as \<Longrightarrow> map decode_field fs = as"
  using assms
  by (induction as arbitrary: fs)
    (auto simp: result_simps encode_field_Inr decode_field_def plain_attachment_def)

lemma payload_roundtrip:
  assumes "encodePayload p = Inr out" "plain_payload p"
  shows "decodeStrict out = Inr p"
proof -
  obtain fs pad where fs: "map_err encode_field (attachments p) = Inr fs"
    and len: "length (TextEncoder (msg_text p)) \<le> U32_MAX" "length fs \<le> U16_MAX" "pad \<le> U32_MAX"
    and out: "out = write_frame (TextEncoder (msg_text p)) fs @ be_bytes 4 pad @ replicate pad 0"
    using encodePayload_Inr [OF assms(1)] by metis
  have atts: "map decode_field fs = attachments p"
    using map_err_fields(2) [OF fs] assms(2) by (simp add: plain_payload_def)
  have pad: "read_field 4 (be_bytes 4 pad @ replicate pad 0) = Inr (replicate pad 0, [])"
    using read_field_written [of "replicate pad 0" 4 "[]"] len(3) by (simp add: payload_consts)
  have cnt: "read_bytes 2 (be_bytes 2 (length fs) @ rest) = Inr (be_bytes 2 (length fs), rest)" for rest
    by (simp add: read_bytes_def)
  show ?thesis
    using len assms(2)
    by (simp add: decodeStrict_def out write_frame_def payload_consts cnt be_nat_be_bytes
        read_attachments_written map_err_fields(1) [OF fs] pad atts plain_payload_def)
qed

lemma decodePayload_roundtrip:
  "encodePayload p = Inr out \<Longrightarrow> plain_payload p \<Longrightarrow> decodePayload out = p"
  by (simp add: decodePayload_def payload_roundtrip)

text \<open>The size of the frame before padding.\<close>

definition payload_size :: "payload \<Rightarrow> nat" where
  "payload_size p = 11 + length (TextEncoder (msg_text p))
     + (\<Sum>a\<leftarrow>attachments p. 8 + length (TextEncoder (filename a)) + length (TextEncoder (mimetype a)) + length (att_bytes a))"

lemma map_err_sizes:
  "map_err encode_field as = Inr fs \<Longrightarrow>
   sum_list (map field_len fs) =
   (\<Sum>a\<leftarrow>as. 8 + length (TextEncoder (filename a)) + length (TextEncoder (mimetype a)) + length (att_bytes a))"
  by (induction as arbitrary: fs) (auto simp: result_simps encode_field_Inr field_len_def)

lemma payload_size_eq:
  assumes "encodePayload p = Inr out"
  shows "length out = padded_len (payload_size p)"
  using assms
proof (rule encodePayload_Inr)
  fix fs pad
  assume a: "map_err encode_field (attachments p) = Inr fs"
    "length out = padded_len (length (write_frame (TextEncoder (msg_text p)) fs) + 4)"
  have "length (write_frame (TextEncoder (msg_text p)) fs) + 4 = payload_size p"
    using map_err_sizes [OF a(1)] by (simp add: length_write_frame payload_size_def)
  then show ?thesis using a(2) by simp
qed

text \<open>The decoder strips a leading byte order mark that the encoder wrote.\<close>

lemma utf16_scalars_bom: "utf16_scalars (0xFEFF # t) = 0xFEFF # utf16_scalars t"
  by (cases t) (simp_all add: high_surrogate_def low_surrogate_def)

lemma bom_stripped:
  assumes "well_formed t"
  shows "TextDecoder (TextEncoder (0xFEFF # t)) = t"
proof -
  have "TextEncoder (0xFEFF # t) = 0xEF # 0xBB # 0xBF # TextEncoder t"
    by (simp add: TextEncoder_def utf16_scalars_bom scalar_bytes_def)
  then have "strip_bom (TextEncoder (0xFEFF # t)) = TextEncoder t" by (simp add: strip_bom_def)
  then show ?thesis
    using utf8_scalars [OF utf16_scalars_valid, of t] utf16_roundtrip [OF assms]
    by (simp add: TextDecoder_def) (simp add: TextEncoder_def)
qed

lemma bom_dropped:
  assumes "encodePayload \<lparr>msg_text = 0xFEFF # t, attachments = []\<rparr> = Inr out" "well_formed t"
  shows "decodeStrict out = Inr \<lparr>msg_text = t, attachments = []\<rparr>"
  using assms(1)
proof (rule encodePayload_Inr)
  fix fs pad
  assume a: "map_err encode_field (attachments \<lparr>msg_text = 0xFEFF # t, attachments = []\<rparr>) = Inr fs"
    and len: "length (TextEncoder (msg_text \<lparr>msg_text = 0xFEFF # t, attachments = []\<rparr>)) \<le> U32_MAX" "pad \<le> U32_MAX"
    and out: "out = write_frame (TextEncoder (msg_text \<lparr>msg_text = 0xFEFF # t, attachments = []\<rparr>)) fs @
      be_bytes 4 pad @ replicate pad 0"
  have pad: "read_field 4 (be_bytes 4 pad @ replicate pad 0) = Inr (replicate pad 0, [])"
    using read_field_written [of "replicate pad 0" 4 "[]"] len(2) by (simp add: payload_consts)
  have cnt: "read_bytes 2 (be_bytes 2 0 @ rest) = Inr (be_bytes 2 0, rest)" for rest
    by (simp add: read_bytes_def)
  show ?thesis
    using a len out cnt pad bom_stripped [OF assms(2)]
    by (simp add: decodeStrict_def write_frame_def payload_consts be_nat_be_bytes)
qed

end
