(* ===== verification/Aad_Binding.thy ===== *)
theory Aad_Binding
  imports Wire_Format Payload_Codec Js_Number
begin

text \<open>
  The additional authenticated data of a sealed message, packages/crypto/src/aad.ts. HPKE and
  SHA-256 are third-party code: the record \<open>hpke_suite\<close> holds the calls hpke.ts makes on them.
\<close>

section \<open>The HPKE suite\<close>

text \<open>
  The CipherSuite and KEM calls of hpke.ts, on opaque public and private keys. Sealing takes the
  randomness the library draws as an argument. \<open>public_of\<close> is not called by the code; the
  correctness hypotheses need it to say which key pairs belong together.
\<close>

record ('pub, 'priv) hpke_suite =
  serializePublicKey :: "'pub \<Rightarrow> bytes"
  deserializePublicKey :: "bytes \<Rightarrow> 'pub option"
  serializePrivateKey :: "'priv \<Rightarrow> bytes"
  deserializePrivateKey :: "bytes \<Rightarrow> 'priv option"
  sender_seal :: "bytes \<Rightarrow> 'pub \<Rightarrow> bytes \<Rightarrow> bytes \<Rightarrow> bytes \<times> bytes"
  recipient_open :: "'priv \<Rightarrow> bytes \<Rightarrow> bytes \<Rightarrow> bytes \<Rightarrow> bytes option"
  sha256 :: "bytes \<Rightarrow> bytes"
  public_of :: "'priv \<Rightarrow> 'pub"

text \<open>What hpke.ts does with them: every failure of the library is a thrown Error.\<close>

definition exportRawPublicKey :: "('pub, 'priv) hpke_suite \<Rightarrow> 'pub \<Rightarrow> bytes" where
  "exportRawPublicKey S k = serializePublicKey S k"

definition exportRawPrivateKey :: "('pub, 'priv) hpke_suite \<Rightarrow> 'priv \<Rightarrow> bytes" where
  "exportRawPrivateKey S k = serializePrivateKey S k"

definition lift_lib :: "string \<Rightarrow> 'a option \<Rightarrow> crypto_error + 'a" where
  "lift_lib msg r = (case r of None \<Rightarrow> Inl (PlainError msg) | Some x \<Rightarrow> Inr x)"

definition importRawPublicKey :: "('pub, 'priv) hpke_suite \<Rightarrow> bytes \<Rightarrow> crypto_error + 'pub" where
  "importRawPublicKey S raw = lift_lib ''Invalid public key for the ciphersuite'' (deserializePublicKey S raw)"

definition importRawPrivateKey :: "('pub, 'priv) hpke_suite \<Rightarrow> bytes \<Rightarrow> crypto_error + 'priv" where
  "importRawPrivateKey S raw = lift_lib ''Invalid private key for the ciphersuite'' (deserializePrivateKey S raw)"

definition sealHpke :: "('pub, 'priv) hpke_suite \<Rightarrow> bytes \<Rightarrow> 'pub \<Rightarrow> bytes \<Rightarrow> bytes \<Rightarrow> bytes \<times> bytes" where
  "sealHpke S rnd recipient plaintext aad = sender_seal S rnd recipient plaintext aad"

definition openHpke :: "('pub, 'priv) hpke_suite \<Rightarrow> 'priv \<Rightarrow> bytes \<Rightarrow> bytes \<Rightarrow> bytes \<Rightarrow> crypto_error + bytes" where
  "openHpke S priv enc aeadOutput aad = lift_lib ''Failed to open'' (recipient_open S priv enc aeadOutput aad)"

section \<open>Identities\<close>

record ('pub, 'priv) identity_impl =
  publicKey :: 'pub
  privateKey :: 'priv
  publicKeyRaw :: bytes
  publicKeyString :: string

record 'pub recipient_impl =
  recipientRaw :: bytes
  cryptoKey :: 'pub

text \<open>generateIdentity, with the key pair the KEM generates as an argument.\<close>

definition generateIdentity :: "('pub, 'priv) hpke_suite \<Rightarrow> 'pub \<times> 'priv \<Rightarrow> crypto_error + ('pub, 'priv) identity_impl" where
  "generateIdentity S kp =
     (let raw = exportRawPublicKey S (fst kp) in
      and_then (encodePubkey raw) (\<lambda>s.
        Inr \<lparr>publicKey = fst kp, privateKey = snd kp, publicKeyRaw = raw, publicKeyString = s\<rparr>))"

definition exportPublicKey :: "('pub, 'priv) identity_impl \<Rightarrow> string" where
  "exportPublicKey i = publicKeyString i"

definition importPublicKey :: "('pub, 'priv) hpke_suite \<Rightarrow> string \<Rightarrow> crypto_error + 'pub recipient_impl" where
  "importPublicKey S s =
     and_then (decodePubkey s) (\<lambda>k.
     and_then (importRawPublicKey S (rawKey k)) (\<lambda>ck.
       Inr \<lparr>recipientRaw = rawKey k, cryptoKey = ck\<rparr>))"

section \<open>The AAD encoder\<close>

definition AAD_VERSION :: byte where "AAD_VERSION = 1"
definition AAD_VERSION_V2 :: byte where "AAD_VERSION_V2 = 2"
definition RECIP_HASH_LEN :: nat where "RECIP_HASH_LEN = 32"
definition LINK_ID_BYTES_EXACT :: nat where "LINK_ID_BYTES_EXACT = 16"
definition aad_fixed_len :: nat where "aad_fixed_len = 3 + 2 + RECIP_HASH_LEN + 8 + 4"

lemmas aad_consts = AAD_VERSION_def AAD_VERSION_V2_def RECIP_HASH_LEN_def LINK_ID_BYTES_EXACT_def
  aad_fixed_len_def

record binding_context =
  linkId :: string
  recipientPublicKey :: string
  createdAtMs :: "js_num option"
  expiresAtMs :: js_num
  maxOpens :: js_num

text \<open>setInt32 keeps the low 32 bits; setBigUint64 the low 64.\<close>

definition be_i32 :: "int \<Rightarrow> bytes" where
  "be_i32 v = be_bytes 4 (nat (v mod 2 ^ 32))"

definition be_u64 :: "int \<Rightarrow> bytes" where
  "be_u64 v = be_bytes 8 (nat (v mod 2 ^ 64))"

definition hashRecipientPubkey :: "('pub, 'priv) hpke_suite \<Rightarrow> string \<Rightarrow> crypto_error + bytes" where
  "hashRecipientPubkey S pk =
     and_then (importPublicKey S pk) (\<lambda>r. Inr (sha256 S (exportRawPublicKey S (cryptoKey r))))"

definition aad_checks :: "binding_context \<Rightarrow> crypto_error + unit" where
  "aad_checks ctx =
     (let created = createdAtMs ctx; isV1 = (created \<noteq> None) in
      if isV1 \<and> (\<not> isSafeInteger (the created) \<or> int_of_num (the created) < 0)
      then Inl (PlainError ''encodeAad: createdAtMs must be a non-negative safe integer'')
      else if \<not> isSafeInteger (expiresAtMs ctx) \<or> int_of_num (expiresAtMs ctx) < 0
      then Inl (PlainError ''encodeAad: expiresAtMs must be a non-negative safe integer'')
      else if \<not> isInteger (maxOpens ctx) \<or> (int_of_num (maxOpens ctx) \<le> 0 \<and> int_of_num (maxOpens ctx) \<noteq> -1)
      then Inl (PlainError ''encodeAad: maxOpens must be a positive integer or -1'')
      else if isV1 \<and> int_of_num (expiresAtMs ctx) \<le> int_of_num (the created)
      then Inl (PlainError ''encodeAad: expiresAtMs must be strictly greater than createdAtMs'')
      else if \<not> isV1 \<and> int_of_num (expiresAtMs ctx) \<le> 0
      then Inl (PlainError ''encodeAad: expiresAtMs must be a positive instant'')
      else Inr ())"

definition encodeAad :: "('pub, 'priv) hpke_suite \<Rightarrow> binding_context \<Rightarrow> crypto_error + bytes" where
  "encodeAad S ctx =
     and_then (aad_checks ctx) (\<lambda>_.
       let isV1 = (createdAtMs ctx \<noteq> None);
           linkIdBytes = TextEncoder (text_of_string (linkId ctx))
       in if length linkIdBytes \<noteq> LINK_ID_BYTES_EXACT
          then Inl (PlainError ''encodeAad: linkId must be exactly 16 bytes'')
          else and_then (hashRecipientPubkey S (recipientPublicKey ctx)) (\<lambda>recipHash.
            if length recipHash \<noteq> RECIP_HASH_LEN
            then Inl (PlainError ''encodeAad: recipient hash unexpected length'')
            else
              let tot = aad_fixed_len + length linkIdBytes + (if isV1 then 8 else 0);
                  out = [if isV1 then AAD_VERSION else AAD_VERSION_V2, WIRE_VERSION, SUITE_X25519_AES256GCM]
                    @ be_bytes 2 (length linkIdBytes) @ linkIdBytes @ recipHash
                    @ (if isV1 then be_u64 (int_of_num (the (createdAtMs ctx))) else [])
                    @ be_u64 (int_of_num (expiresAtMs ctx)) @ be_i32 (int_of_num (maxOpens ctx))
              in if length out \<noteq> tot then Inl (PlainError ''encodeAad: internal offset mismatch'')
                 else Inr out))"

section \<open>What the AAD binds\<close>

text \<open>The byte layout, and that a produced AAD has it.\<close>

definition aad_layout :: "int option \<Rightarrow> bytes \<Rightarrow> bytes \<Rightarrow> int \<Rightarrow> int \<Rightarrow> bytes" where
  "aad_layout created lid h expires opens =
     [if created \<noteq> None then AAD_VERSION else AAD_VERSION_V2, WIRE_VERSION, SUITE_X25519_AES256GCM]
     @ be_bytes 2 16 @ lid @ h @ (case created of None \<Rightarrow> [] | Some c \<Rightarrow> be_u64 c)
     @ be_u64 expires @ be_i32 opens"

lemma encodeAad_Inr:
  assumes "encodeAad S ctx = Inr a"
  obtains h where "aad_checks ctx = Inr ()" "hashRecipientPubkey S (recipientPublicKey ctx) = Inr h"
    "length h = 32" "length (TextEncoder (text_of_string (linkId ctx))) = 16"
    "a = aad_layout (map_option int_of_num (createdAtMs ctx)) (TextEncoder (text_of_string (linkId ctx))) h
       (int_of_num (expiresAtMs ctx)) (int_of_num (maxOpens ctx))"
  using assms that
  by (cases "createdAtMs ctx")
    (auto simp: encodeAad_def Let_def result_simps aad_layout_def aad_consts split: if_splits)

lemma aad_checks_facts:
  assumes "aad_checks ctx = Inr ()"
  shows "isSafeInteger (expiresAtMs ctx)" "0 < int_of_num (expiresAtMs ctx)" "isInteger (maxOpens ctx)"
    "int_of_num (maxOpens ctx) = -1 \<or> 0 < int_of_num (maxOpens ctx)"
    "\<forall>c. createdAtMs ctx = Some c \<longrightarrow>
       isSafeInteger c \<and> 0 \<le> int_of_num c \<and> int_of_num c < int_of_num (expiresAtMs ctx)"
  using assms by (cases "createdAtMs ctx"; auto simp: aad_checks_def Let_def split: if_splits)+

lemma be_u64_inject:
  assumes "be_u64 a = be_u64 b" "0 \<le> a" "a < 2 ^ 53" "0 \<le> b" "b < 2 ^ 53"
  shows "a = b"
proof -
  have "be_nat (be_u64 x) = nat x" if "0 \<le> x" "x < 2 ^ 53" for x
    using that by (simp add: be_u64_def be_nat_be_bytes_mod)
  then have "nat a = nat b" using assms by metis
  then show ?thesis using assms by simp
qed

lemma be_i32_eq: "be_i32 a = be_i32 b \<longleftrightarrow> a mod 2 ^ 32 = b mod 2 ^ 32"
proof
  assume "be_i32 a = be_i32 b"
  moreover have "be_nat (be_i32 x) = nat (x mod 2 ^ 32)" for x
    unfolding be_i32_def by (rule be_nat_be_bytes) (simp add: nat_less_iff)
  ultimately have "nat (a mod 2 ^ 32) = nat (b mod 2 ^ 32)" by metis
  then show "a mod 2 ^ 32 = b mod 2 ^ 32" by simp
qed (simp add: be_i32_def)

lemma mod_int32_inject:
  assumes "a mod 2 ^ 32 = b mod (2 ^ 32 :: int)" "-1 \<le> a" "a < 2 ^ 31" "-1 \<le> b" "b < 2 ^ 31"
  shows "a = b"
proof -
  have "(a + 1) mod 2 ^ 32 = (b + 1) mod 2 ^ 32" using assms(1) by (metis mod_add_left_eq)
  moreover have "(a + 1) mod 2 ^ 32 = a + 1" "(b + 1) mod 2 ^ 32 = b + 1"
    using assms(2-5) by (intro mod_pos_pos_trivial; simp)+
  ultimately show ?thesis by simp
qed

lemma length_be [simp]: "length (be_u64 v) = 8" "length (be_i32 v) = 4"
  by (simp_all add: be_u64_def be_i32_def)

lemma aad_layout_inject:
  assumes "aad_layout c1 l1 h1 e1 o1 = aad_layout c2 l2 h2 e2 o2"
    "length l1 = length l2" "length h1 = length h2"
  shows "l1 = l2" "h1 = h2" "be_u64 e1 = be_u64 e2" "be_i32 o1 = be_i32 o2"
    "map_option be_u64 c1 = map_option be_u64 c2"
  using assms
  by (cases c1; cases c2; auto simp: aad_layout_def aad_consts append_eq_append_conv)+

text \<open>
  One AAD determines the version, the link, the recipient key's hash, the times and the low 32 bits of
  the open limit.
\<close>

lemma encodeAad_determines:
  assumes "encodeAad S c = Inr a" "encodeAad S d = Inr a"
  shows "linkId c = linkId d \<and> createdAtMs c = createdAtMs d \<and> expiresAtMs c = expiresAtMs d
    \<and> int_of_num (maxOpens c) mod 2 ^ 32 = int_of_num (maxOpens d) mod 2 ^ 32
    \<and> hashRecipientPubkey S (recipientPublicKey c) = hashRecipientPubkey S (recipientPublicKey d)"
proof -
  obtain h where c: "aad_checks c = Inr ()" "hashRecipientPubkey S (recipientPublicKey c) = Inr h"
    "length h = 32" "length (TextEncoder (text_of_string (linkId c))) = 16"
    "a = aad_layout (map_option int_of_num (createdAtMs c)) (TextEncoder (text_of_string (linkId c))) h
       (int_of_num (expiresAtMs c)) (int_of_num (maxOpens c))"
    using encodeAad_Inr [OF assms(1)] .
  obtain k where d: "aad_checks d = Inr ()" "hashRecipientPubkey S (recipientPublicKey d) = Inr k"
    "length k = 32" "length (TextEncoder (text_of_string (linkId d))) = 16"
    "a = aad_layout (map_option int_of_num (createdAtMs d)) (TextEncoder (text_of_string (linkId d))) k
       (int_of_num (expiresAtMs d)) (int_of_num (maxOpens d))"
    using encodeAad_Inr [OF assms(2)] .
  have len: "length (TextEncoder (text_of_string (linkId c))) = length (TextEncoder (text_of_string (linkId d)))"
    "length h = length k" using c(3,4) d(3,4) by simp_all
  note eq = aad_layout_inject [OF trans [OF c(5) [symmetric] d(5)] len]
  note fc = aad_checks_facts [OF c(1)] and fd = aad_checks_facts [OF d(1)]
  have "linkId c = linkId d"
    using eq(1) by (metis TextEncoder_inject well_formed_text_of_string text_of_string_inject)
  moreover have "h = k" by (rule eq(2))
  moreover have "int_of_num (expiresAtMs c) = int_of_num (expiresAtMs d)"
    using eq(3) fc(1,2) fd(1,2) by (intro be_u64_inject) (auto simp: isSafeInteger_def)
  then have "expiresAtMs c = expiresAtMs d"
    using fc(1) fd(1) by (metis num_int_of_num isSafeInteger_def)
  moreover have "int_of_num (maxOpens c) mod 2 ^ 32 = int_of_num (maxOpens d) mod 2 ^ 32"
    using eq(4) by (simp only: be_i32_eq)
  moreover have "createdAtMs c = createdAtMs d"
  proof (cases "createdAtMs c")
    case None
    then show ?thesis using eq(5) by simp
  next
    case (Some x)
    then obtain y where y: "createdAtMs d = Some y" and "be_u64 (int_of_num x) = be_u64 (int_of_num y)"
      using eq(5) by (cases "createdAtMs d") auto
    then have "int_of_num x = int_of_num y"
      using Some fc(5) fd(5) by (intro be_u64_inject) (auto simp: isSafeInteger_def)
    then show ?thesis using Some y fc(5) fd(5) by (metis num_int_of_num isSafeInteger_def)
  qed
  ultimately show ?thesis using c(2) d(2) by simp
qed

lemma encodeAad_inject:
  assumes "encodeAad S c = Inr a" "encodeAad S d = Inr a"
    "int_of_num (maxOpens c) < 2 ^ 31" "int_of_num (maxOpens d) < 2 ^ 31"
  shows "linkId c = linkId d \<and> createdAtMs c = createdAtMs d \<and> expiresAtMs c = expiresAtMs d
    \<and> maxOpens c = maxOpens d
    \<and> hashRecipientPubkey S (recipientPublicKey c) = hashRecipientPubkey S (recipientPublicKey d)"
proof -
  have "aad_checks c = Inr ()" "aad_checks d = Inr ()" using assms(1,2) by (auto elim: encodeAad_Inr)
  note f = this [THEN aad_checks_facts(3)] this [THEN aad_checks_facts(4)]
  have low: "-1 \<le> int_of_num (maxOpens c)" "-1 \<le> int_of_num (maxOpens d)" using f(3,4) by linarith+
  note all = encodeAad_determines [OF assms(1,2)]
  have "int_of_num (maxOpens c) = int_of_num (maxOpens d)"
    by (rule mod_int32_inject [OF all [THEN conjunct2, THEN conjunct2, THEN conjunct2, THEN conjunct1] low(1) assms(3) low(2) assms(4)])
  then have "maxOpens c = maxOpens d" using f(1,2) by (metis num_int_of_num)
  then show ?thesis using all by blast
qed

text \<open>The open limit is written with 32 bits: beyond them two limits share an AAD.\<close>

lemma encodeAad_wraps:
  assumes "0 < m"
  shows "encodeAad S (ctx\<lparr>maxOpens := num (m + 2 ^ 32)\<rparr>) = encodeAad S (ctx\<lparr>maxOpens := num m\<rparr>)"
proof -
  have "be_i32 (m + 2 ^ 32) = be_i32 m" by (simp add: be_i32_eq)
  moreover have "aad_checks (ctx\<lparr>maxOpens := num (m + 2 ^ 32)\<rparr>) = aad_checks (ctx\<lparr>maxOpens := num m\<rparr>)"
    using assms by (auto simp: aad_checks_def Let_def)
  ultimately show ?thesis by (simp add: encodeAad_def Let_def cong: if_cong)
qed

end
