(* ===== verification/Seal_Open.thy ===== *)
theory Seal_Open
  imports Aad_Binding
begin

text \<open>
  Sealing and opening a message: packages/crypto/src/seal.ts over the HPKE suite. The security of
  HPKE is not proved; what the code relies on is stated as two named predicates on the suite
  (RFC 9180: decryption inverts encryption, and a ciphertext opens under no other AAD), and a
  concrete suite satisfies both.
\<close>

section \<open>seal and open\<close>

definition bytesEqual :: "bytes \<Rightarrow> bytes \<Rightarrow> bool" where
  "bytesEqual a b =
     (if length a \<noteq> length b then False else list_all (\<lambda>i. a ! i = b ! i) [0..<length a])"

definition seal :: "('pub, 'priv) hpke_suite \<Rightarrow> bytes \<Rightarrow> bytes \<Rightarrow> 'pub recipient_impl \<Rightarrow> binding_context
    \<Rightarrow> crypto_error + bytes" where
  "seal S rnd plaintext r ctx =
     and_then (decodePubkey (recipientPublicKey ctx)) (\<lambda>k.
     if \<not> bytesEqual (recipientRaw r) (rawKey k) then Inl RecipientMismatchError
     else and_then (encodeAad S ctx) (\<lambda>aad.
       let (enc, aeadOutput) = sealHpke S rnd (cryptoKey r) plaintext aad
       in encodeCiphertextBlob enc aeadOutput))"

definition decryption_failed :: crypto_error where
  "decryption_failed = DecryptionError ''Decryption failed''"

text \<open>\<open>try { ... } catch { throw new DecryptionError() }\<close>\<close>

definition or_decryption_error :: "crypto_error + 'a \<Rightarrow> crypto_error + 'a" where
  "or_decryption_error r = (case r of Inl _ \<Rightarrow> Inl decryption_failed | Inr x \<Rightarrow> Inr x)"

definition open_sealed :: "('pub, 'priv) hpke_suite \<Rightarrow> bytes \<Rightarrow> ('pub, 'priv) identity_impl \<Rightarrow> binding_context
    \<Rightarrow> crypto_error + bytes" where
  "open_sealed S ciphertext i ctx =
     and_then (or_decryption_error (encodeAad S ctx)) (\<lambda>aad.
     and_then (or_decryption_error (decodeCiphertextBlob ciphertext)) (\<lambda>(enc, aeadOutput).
       or_decryption_error (openHpke S (privateKey i) enc aeadOutput aad)))"

section \<open>What the code relies on\<close>

definition seal_inverts :: "('pub, 'priv) hpke_suite \<Rightarrow> bytes \<Rightarrow> 'priv \<Rightarrow> bytes \<Rightarrow> bytes \<Rightarrow> bool" where
  "seal_inverts S rnd priv pt aad =
     (case sender_seal S rnd (public_of S priv) pt aad of
        (enc, ct) \<Rightarrow> length enc = 32 \<and> recipient_open S priv enc ct aad = Some pt)"

definition hpke_correct :: "('pub, 'priv) hpke_suite \<Rightarrow> bool" where
  "hpke_correct S =
     ((\<forall>rnd priv pt aad. seal_inverts S rnd priv pt aad) \<and>
      (\<forall>k. length (serializePublicKey S k) = 32 \<and> deserializePublicKey S (serializePublicKey S k) = Some k) \<and>
      (\<forall>k. length (serializePrivateKey S k) = 32 \<and> deserializePrivateKey S (serializePrivateKey S k) = Some k) \<and>
      (\<forall>m. length (sha256 S m) = 32))"

text \<open>Authenticity, idealised: a sealed message opens under its own AAD only.\<close>

definition seal_rejects :: "('pub, 'priv) hpke_suite \<Rightarrow> bytes \<Rightarrow> 'pub \<Rightarrow> 'priv \<Rightarrow> bytes \<Rightarrow> bytes \<Rightarrow> bytes \<Rightarrow> bool" where
  "seal_rejects S rnd pub priv pt aad aad' =
     (case sender_seal S rnd pub pt aad of (enc, ct) \<Rightarrow> recipient_open S priv enc ct aad' = None)"

definition hpke_binding :: "('pub, 'priv) hpke_suite \<Rightarrow> bool" where
  "hpke_binding S =
     (\<forall>rnd pub priv pt aad aad'. aad \<noteq> aad' \<longrightarrow> seal_rejects S rnd pub priv pt aad aad')"

text \<open>A suite with both properties: the "ciphertext" carries its AAD in a prefix-free code.\<close>

definition toy_tag :: "bytes \<Rightarrow> bytes" where
  "toy_tag aad = concat (map (\<lambda>b. [1, b]) aad) @ [0]"

definition toy_suite :: "(byte, byte) hpke_suite" where
  "toy_suite = \<lparr>
     serializePublicKey = \<lambda>k. replicate 32 k,
     deserializePublicKey = \<lambda>bs. if bs \<noteq> [] \<and> bs = replicate 32 (hd bs) then Some (hd bs) else None,
     serializePrivateKey = \<lambda>k. replicate 32 k,
     deserializePrivateKey = \<lambda>bs. if bs \<noteq> [] \<and> bs = replicate 32 (hd bs) then Some (hd bs) else None,
     sender_seal = \<lambda>rnd k pt aad. (replicate 32 k, toy_tag aad @ pt),
     recipient_open = \<lambda>k enc ct aad.
       if enc = replicate 32 k \<and> take (length (toy_tag aad)) ct = toy_tag aad
       then Some (drop (length (toy_tag aad)) ct) else None,
     sha256 = \<lambda>m. take 32 (m @ replicate 32 0),
     public_of = \<lambda>k. k\<rparr>"

lemma toy_tag_prefix_free: "take (length (toy_tag a)) (toy_tag b @ pt) = toy_tag a \<Longrightarrow> a = b"
proof (induction a arbitrary: b)
  case Nil
  then show ?case by (cases b) (auto simp: toy_tag_def)
next
  case (Cons x a)
  then show ?case by (cases b) (auto simp: toy_tag_def)
qed

lemma toy_correct: "hpke_correct toy_suite"
  by (auto simp: hpke_correct_def seal_inverts_def toy_suite_def min_def)

lemma toy_binding: "hpke_binding toy_suite"
  by (auto simp: hpke_binding_def seal_rejects_def toy_suite_def simp del: take_append dest: toy_tag_prefix_free)

lemma hpke_opens:
  assumes "hpke_correct S" "sender_seal S rnd (public_of S priv) pt aad = (enc, ct)"
  shows "length enc = 32" "recipient_open S priv enc ct aad = Some pt"
proof -
  have "seal_inverts S rnd priv pt aad" using assms(1) by (simp add: hpke_correct_def)
  then show "length enc = 32" "recipient_open S priv enc ct aad = Some pt"
    using assms(2) by (simp_all add: seal_inverts_def)
qed

lemma hpke_keys:
  assumes "hpke_correct S"
  shows "length (serializePublicKey S k) = 32" "deserializePublicKey S (serializePublicKey S k) = Some k"
    "length (serializePrivateKey S p) = 32" "deserializePrivateKey S (serializePrivateKey S p) = Some p"
    "length (sha256 S m) = 32"
  using assms by (simp_all add: hpke_correct_def)

lemma hpke_rejects:
  assumes "hpke_binding S" "sender_seal S rnd pub pt aad = (enc, ct)" "aad' \<noteq> aad"
  shows "recipient_open S priv enc ct aad' = None"
proof -
  have "seal_rejects S rnd pub priv pt aad aad'" using assms(1,3) by (auto simp: hpke_binding_def)
  then show ?thesis using assms(2) by (simp add: seal_rejects_def)
qed

section \<open>Opening\<close>

lemma or_decryption_error_pass [simp]: "or_decryption_error (Inr x) = Inr x"
  by (simp add: or_decryption_error_def)

lemma or_decryption_error_Inr [simp]: "or_decryption_error r = Inr x \<longleftrightarrow> r = Inr x"
  by (cases r) (simp_all add: or_decryption_error_def)

lemma or_decryption_error_Inl: "or_decryption_error r = Inl e \<Longrightarrow> e = decryption_failed"
  by (cases r) (simp_all add: or_decryption_error_def)

lemma open_sealed_error: "open_sealed S ct i ctx = Inl e \<Longrightarrow> e = decryption_failed"
  by (auto simp: open_sealed_def result_simps dest: or_decryption_error_Inl)

lemma seal_Inr:
  assumes "seal S rnd pt r ctx = Inr ct"
  obtains aad enc out where "encodeAad S ctx = Inr aad"
    "sender_seal S rnd (cryptoKey r) pt aad = (enc, out)" "length enc = 32" "decodeCiphertextBlob ct = Inr (enc, out)"
proof -
  obtain aad where aad: "encodeAad S ctx = Inr aad"
    and blob: "(case sender_seal S rnd (cryptoKey r) pt aad of (enc, out) \<Rightarrow> encodeCiphertextBlob enc out) = Inr ct"
    using assms by (auto simp: seal_def result_simps sealHpke_def split: if_splits)
  obtain enc out where "encodeAad S ctx = Inr aad"
    "sender_seal S rnd (cryptoKey r) pt aad = (enc, out)" "encodeCiphertextBlob enc out = Inr ct"
    using aad blob by (cases "sender_seal S rnd (cryptoKey r) pt aad") auto
  moreover from this(3) have "length enc = ENCAPSULATED_KEY_LEN"
    by (auto simp: encodeCiphertextBlob_def split: if_splits)
  ultimately show ?thesis
    using that [of aad enc out] blob_roundtrip [of enc out] by (simp add: wire_consts)
qed

lemma seal_then_open:
  assumes "hpke_correct S" "cryptoKey r = public_of S (privateKey i)" "seal S rnd pt r ctx = Inr ct"
  shows "open_sealed S ct i ctx = Inr pt"
  using assms(3)
proof (rule seal_Inr)
  fix aad enc out
  assume *: "encodeAad S ctx = Inr aad" "sender_seal S rnd (cryptoKey r) pt aad = (enc, out)"
    "decodeCiphertextBlob ct = Inr (enc, out)"
  then have "recipient_open S (privateKey i) enc out aad = Some pt"
    using assms(1,2) hpke_opens(2) by metis
  then show ?thesis
    using * by (simp add: open_sealed_def openHpke_def lift_lib_def)
qed

lemma open_other_aad:
  assumes "hpke_binding S" "seal S rnd pt r ctx = Inr ct" "encodeAad S ctx' \<noteq> encodeAad S ctx"
  shows "open_sealed S ct i ctx' = Inl decryption_failed"
  using assms(2)
proof (rule seal_Inr)
  fix aad enc out
  assume *: "encodeAad S ctx = Inr aad" "sender_seal S rnd (cryptoKey r) pt aad = (enc, out)"
    "decodeCiphertextBlob ct = Inr (enc, out)"
  show ?thesis
  proof (cases "encodeAad S ctx'")
    case (Inr aad')
    then have "recipient_open S (privateKey i) enc out aad' = None"
      using hpke_rejects [OF assms(1) *(2)] assms(3) *(1) by auto
    then show ?thesis
      using * Inr by (simp add: open_sealed_def openHpke_def lift_lib_def or_decryption_error_def)
  qed (simp add: open_sealed_def or_decryption_error_def)
qed

section \<open>Identities\<close>

lemma exported_key_imports:
  assumes "hpke_correct S" "generateIdentity S kp = Inr i"
  shows "importPublicKey S (exportPublicKey i) = Inr \<lparr>recipientRaw = publicKeyRaw i, cryptoKey = fst kp\<rparr>"
proof -
  obtain s where s: "encodePubkey (serializePublicKey S (fst kp)) = Inr s"
    and i: "i = \<lparr>publicKey = fst kp, privateKey = snd kp, publicKeyRaw = serializePublicKey S (fst kp),
      publicKeyString = s\<rparr>"
    using assms(2) by (auto simp: generateIdentity_def Let_def result_simps exportRawPublicKey_def)
  show ?thesis
    using hpke_keys(2) [OF assms(1), of "fst kp"]
    by (simp add: i exportPublicKey_def importPublicKey_def encodePubkey_decode [OF s]
        importRawPublicKey_def lift_lib_def)
qed

lemma identity_private: "generateIdentity S kp = Inr i \<Longrightarrow> privateKey i = snd kp"
  by (auto simp: generateIdentity_def Let_def result_simps)

lemma generateIdentity_total: "hpke_correct S \<Longrightarrow> \<exists>i. generateIdentity S kp = Inr i"
  by (simp add: generateIdentity_def Let_def exportRawPublicKey_def encodePubkey_def hpke_keys wire_consts)

lemma bytesEqual_eq: "bytesEqual a b \<longleftrightarrow> a = b"
  by (auto simp: bytesEqual_def list_all_iff intro: nth_equalityI)

text \<open>Sealing to one key under a context naming another is refused.\<close>

lemma seal_mismatch:
  assumes "decodePubkey (recipientPublicKey ctx) = Inr k" "recipientRaw r \<noteq> rawKey k"
  shows "seal S rnd pt r ctx = Inl RecipientMismatchError"
  using assms by (simp add: seal_def bytesEqual_eq)

text \<open>Sealing to an exported key succeeds whenever the context itself can be encoded.\<close>

lemma seal_total:
  assumes "hpke_correct S" "generateIdentity S (public_of S priv, priv) = Inr i"
    "importPublicKey S (exportPublicKey i) = Inr r" "recipientPublicKey ctx = exportPublicKey i"
    "encodeAad S ctx = Inr aad"
  shows "\<exists>ct. seal S rnd pt r ctx = Inr ct"
proof -
  obtain k where k: "decodePubkey (exportPublicKey i) = Inr k" "recipientRaw r = rawKey k"
    using assms(3) by (auto simp: importPublicKey_def result_simps)
  have "cryptoKey r = public_of S priv"
    using exported_key_imports [OF assms(1,2)] assms(3) by simp
  moreover obtain enc out where s: "sender_seal S rnd (public_of S priv) pt aad = (enc, out)"
    by (cases "sender_seal S rnd (public_of S priv) pt aad")
  moreover have "length enc = 32"
    using hpke_opens(1) [OF assms(1) s] .
  ultimately show ?thesis
    using k assms(4,5) by (simp add: seal_def bytesEqual_eq sealHpke_def encodeCiphertextBlob_def wire_consts)
qed

text \<open>The context of an exported key encodes whenever its numbers are in range and its link id has 16 bytes.\<close>

lemma encodeAad_total:
  assumes "hpke_correct S" "importPublicKey S (recipientPublicKey ctx) = Inr r" "aad_checks ctx = Inr ()"
    "length (TextEncoder (text_of_string (linkId ctx))) = 16"
  shows "\<exists>aad. encodeAad S ctx = Inr aad \<and> length aad \<le> 73"
  using assms hpke_keys(5) [OF assms(1)]
  by (auto simp: encodeAad_def hashRecipientPubkey_def Let_def aad_consts)

lemma length_toy_tag: "length (toy_tag a) = 2 * length a + 1"
  by (induction a) (simp_all add: toy_tag_def)

lemma toy_seal_length:
  assumes "seal toy_suite rnd pt r ctx = Inr ct" "encodeAad toy_suite ctx = Inr aad"
  shows "length ct = 35 + 2 * length aad + length pt"
  using assms
  by (auto simp: seal_def result_simps sealHpke_def toy_suite_def encodeCiphertextBlob_def length_toy_tag wire_consts
      split: if_splits)

end
