(* ===== verification/Key_Wrap.thy ===== *)
theory Key_Wrap
  imports Seal_Open Json_Model "HOL-Library.Countable"
begin

text \<open>
  The wrapped private key: packages/crypto/src/wrap.ts and argon2.ts, the mobile KDF policy
  (identity/kdf-policy.ts) and the backup file built on it (keys/export-backup.ts,
  onboarding/import-backup.ts). AES-GCM, the two Argon2id libraries, JSON's text syntax and
  \<open>String(x)\<close> are the record \<open>platform\<close>.
\<close>

section \<open>The platform\<close>

datatype argon2_backend = Wasm | Noble

record platform =
  json_text :: "json \<Rightarrow> string"
  json_read :: "string \<Rightarrow> json option"
  js_String :: "json option \<Rightarrow> string"
  wasm_argon2 :: "js_text \<Rightarrow> bytes \<Rightarrow> js_num \<Rightarrow> js_num \<Rightarrow> js_num \<Rightarrow> nat \<Rightarrow> bytes option"
  noble_argon2 :: "bytes \<Rightarrow> bytes \<Rightarrow> js_num \<Rightarrow> js_num \<Rightarrow> js_num \<Rightarrow> nat \<Rightarrow> bytes option"
  gcm_encrypt :: "bytes \<Rightarrow> bytes \<Rightarrow> bytes \<Rightarrow> bytes"
  gcm_decrypt :: "bytes \<Rightarrow> bytes \<Rightarrow> bytes \<Rightarrow> bytes option"
  has_wasm :: bool
  node_env :: "string option"
  forced_backend :: "argon2_backend option"

section \<open>Key derivation\<close>

definition selectBackend :: "platform \<Rightarrow> argon2_backend" where
  "selectBackend P =
     (case forced_backend P of
        Some b \<Rightarrow> b
      | None \<Rightarrow> if has_wasm P then Wasm else Noble)"

definition assertTestEnv :: "platform \<Rightarrow> string \<Rightarrow> crypto_error + unit" where
  "assertTestEnv P fn =
     (if node_env P \<noteq> Some ''test'' then Inl (PlainError (fn @ '': test-only helper'')) else Inr ())"

definition setArgon2Backend :: "platform \<Rightarrow> argon2_backend \<Rightarrow> crypto_error + platform" where
  "setArgon2Backend P b =
     and_then (assertTestEnv P ''__setArgon2BackendForTests'') (\<lambda>_. Inr (P\<lparr>forced_backend := Some b\<rparr>))"

definition resetArgon2Backend :: "platform \<Rightarrow> crypto_error + platform" where
  "resetArgon2Backend P =
     and_then (assertTestEnv P ''__resetArgon2BackendForTests'') (\<lambda>_. Inr (P\<lparr>forced_backend := None\<rparr>))"

text \<open>An error of the library itself carries its own message, which nothing reads.\<close>

definition deriveArgon2id :: "platform \<Rightarrow> js_text \<Rightarrow> bytes \<Rightarrow> js_num \<Rightarrow> js_num \<Rightarrow> js_num \<Rightarrow> nat \<Rightarrow> crypto_error + bytes" where
  "deriveArgon2id P passphrase salt mKib t p hashLength =
     (if p \<noteq> num 1
      then Inl (PlainError (''deriveArgon2id: parallelism (p) must be 1, got '' @ js_String P (Some (JNum p))))
      else if selectBackend P = Noble
      then lift_lib ''argon2id'' (noble_argon2 P (TextEncoder passphrase) salt t mKib p hashLength)
      else lift_lib ''argon2id'' (wasm_argon2 P passphrase salt p t mKib hashLength))"

section \<open>The envelope\<close>

definition ENVELOPE_VERSION :: int where "ENVELOPE_VERSION = 1"
definition KDF_ID :: string where "KDF_ID = ''argon2id-aes256gcm''"
definition SALT_LEN :: nat where "SALT_LEN = 16"
definition IV_LEN :: nat where "IV_LEN = 12"
definition RAW_X25519_PRIVKEY_LEN :: nat where "RAW_X25519_PRIVKEY_LEN = 32"
definition AEAD_TAG_LEN :: nat where "AEAD_TAG_LEN = 16"
definition CT_LEN :: nat where "CT_LEN = RAW_X25519_PRIVKEY_LEN + AEAD_TAG_LEN"
definition WRAP_KEY_LEN :: nat where "WRAP_KEY_LEN = 32"

lemmas wrap_consts = ENVELOPE_VERSION_def KDF_ID_def SALT_LEN_def IV_LEN_def RAW_X25519_PRIVKEY_LEN_def
  AEAD_TAG_LEN_def CT_LEN_def WRAP_KEY_LEN_def

record kdf_params =
  mKib :: js_num
  tCost :: js_num
  pPar :: js_num

definition DEFAULT_WRAP_KDF_PARAMS :: kdf_params where
  "DEFAULT_WRAP_KDF_PARAMS = \<lparr>mKib = num 65536, tCost = num 3, pPar = num 1\<rparr>"

definition deriveWrapKey :: "platform \<Rightarrow> js_text \<Rightarrow> bytes \<Rightarrow> js_num \<Rightarrow> js_num \<Rightarrow> js_num \<Rightarrow> crypto_error + bytes" where
  "deriveWrapKey P passphrase salt m t p = deriveArgon2id P passphrase salt m t p WRAP_KEY_LEN"

definition envelope_json :: "kdf_params \<Rightarrow> bytes \<Rightarrow> bytes \<Rightarrow> bytes \<Rightarrow> bytes \<Rightarrow> json" where
  "envelope_json params salt iv ct pub =
     JObj [(''v'', jint ENVELOPE_VERSION), (''kdf'', JStr KDF_ID), (''m_kib'', JNum (mKib params)),
       (''t'', JNum (tCost params)), (''p'', JNum (pPar params)), (''salt'', JStr (base64urlEncode salt)),
       (''iv'', JStr (base64urlEncode iv)), (''ct'', JStr (base64urlEncode ct)), (''pub'', JStr (base64urlEncode pub))]"

text \<open>The salt and the IV that getRandomValues draws are arguments.\<close>

definition wrapPrivateKey :: "('pub, 'priv) hpke_suite \<Rightarrow> platform \<Rightarrow> ('pub, 'priv) identity_impl \<Rightarrow> js_text \<Rightarrow> kdf_params
    \<Rightarrow> bytes \<Rightarrow> bytes \<Rightarrow> crypto_error + string" where
  "wrapPrivateKey S P i passphrase params salt iv =
     (let rawPriv = exportRawPrivateKey S (privateKey i); rawPub = publicKeyRaw i in
      and_then (deriveWrapKey P passphrase salt (mKib params) (tCost params) (pPar params)) (\<lambda>wrapKey.
        Inr (json_text P (envelope_json params salt iv (gcm_encrypt P wrapKey iv rawPriv) rawPub))))"

record envelope =
  env_salt :: bytes
  env_iv :: bytes
  env_ct :: bytes
  env_pub :: bytes
  env_kdf :: kdf_params

definition format_error :: "string \<Rightarrow> crypto_error + 'a" where
  "format_error m = Inl (InvalidFormatError m)"

definition decode_fields :: "string \<Rightarrow> string \<Rightarrow> string \<Rightarrow> string \<Rightarrow> crypto_error + (bytes \<times> bytes \<times> bytes \<times> bytes)" where
  "decode_fields salt iv ct pub =
     (case (base64urlDecode salt, base64urlDecode iv, base64urlDecode ct, base64urlDecode pub) of
        (Inr a, Inr b, Inr c, Inr d) \<Rightarrow> Inr (a, b, c, d)
      | _ \<Rightarrow> format_error ''Envelope field is not valid base64url'')"

definition check_lengths :: "bytes \<Rightarrow> bytes \<Rightarrow> bytes \<Rightarrow> bytes \<Rightarrow> crypto_error + unit" where
  "check_lengths salt iv ct pub =
     (if length salt \<noteq> SALT_LEN then format_error (''Salt must be 16 bytes, got '' @ show_nat (length salt))
      else if length iv \<noteq> IV_LEN then format_error (''IV must be 12 bytes, got '' @ show_nat (length iv))
      else if length ct \<noteq> CT_LEN then format_error (''Ciphertext must be 48 bytes, got '' @ show_nat (length ct))
      else if length pub \<noteq> RAW_X25519_PUBKEY_LEN
      then format_error (''Public key must be 32 bytes, got '' @ show_nat (length pub))
      else Inr ())"

definition parseEnvelope :: "platform \<Rightarrow> string \<Rightarrow> crypto_error + envelope" where
  "parseEnvelope P s =
     (case json_read P s of
        None \<Rightarrow> format_error ''Wrapped key is not valid JSON''
      | Some e \<Rightarrow>
          if \<not> is_object e then format_error ''Wrapped key envelope must be an object''
          else if json_prop ''v'' e \<noteq> Some (jint ENVELOPE_VERSION)
          then format_error (''Unknown wrapped key version: '' @ js_String P (json_prop ''v'' e))
          else if json_prop ''kdf'' e \<noteq> Some (JStr KDF_ID)
          then format_error (''Unknown KDF: '' @ js_String P (json_prop ''kdf'' e))
          else case (prop_num ''m_kib'' e, prop_num ''t'' e, prop_num ''p'' e) of
                 (Some m, Some t, Some p) \<Rightarrow>
                   (case (prop_string ''salt'' e, prop_string ''iv'' e, prop_string ''ct'' e) of
                      (Some salt, Some iv, Some ct) \<Rightarrow>
                        (case prop_string ''pub'' e of
                           None \<Rightarrow> format_error ''Envelope field 'pub' missing or wrong type''
                         | Some pub \<Rightarrow>
                             and_then (decode_fields salt iv ct pub) (\<lambda>(salt, iv, ct, pub).
                             and_then (check_lengths salt iv ct pub) (\<lambda>_.
                               Inr \<lparr>env_salt = salt, env_iv = iv, env_ct = ct, env_pub = pub,
                                    env_kdf = \<lparr>mKib = m, tCost = t, pPar = p\<rparr>\<rparr>)))
                    | _ \<Rightarrow> format_error ''Required envelope fields (salt, iv, ct) missing or wrong type'')
               | _ \<Rightarrow> format_error ''KDF parameters missing or wrong type'')"

definition readWrapKdfParams :: "platform \<Rightarrow> string \<Rightarrow> crypto_error + kdf_params" where
  "readWrapKdfParams P wrapped = and_then (parseEnvelope P wrapped) (\<lambda>e. Inr (env_kdf e))"

definition unwrapPrivateKey :: "('pub, 'priv) hpke_suite \<Rightarrow> platform \<Rightarrow> string \<Rightarrow> js_text
    \<Rightarrow> crypto_error + ('pub, 'priv) identity_impl" where
  "unwrapPrivateKey S P wrapped passphrase =
     and_then (parseEnvelope P wrapped) (\<lambda>e.
     and_then (deriveWrapKey P passphrase (env_salt e) (mKib (env_kdf e)) (tCost (env_kdf e)) (pPar (env_kdf e))) (\<lambda>wrapKey.
       case gcm_decrypt P wrapKey (env_iv e) (env_ct e) of
         None \<Rightarrow> Inl BadPassphraseError
       | Some rawPriv \<Rightarrow>
           if length rawPriv \<noteq> RAW_X25519_PRIVKEY_LEN then Inl decryption_failed
           else and_then (or_decryption_error (importRawPrivateKey S rawPriv)) (\<lambda>privKey.
                and_then (or_decryption_error (importRawPublicKey S (env_pub e))) (\<lambda>pubKey.
                and_then (encodePubkey (env_pub e)) (\<lambda>s.
                  Inr \<lparr>publicKey = pubKey, privateKey = privKey, publicKeyRaw = env_pub e, publicKeyString = s\<rparr>)))))"

section \<open>The mobile policy and the backup file\<close>

definition MOBILE_KDF_PARAMS :: kdf_params where
  "MOBILE_KDF_PARAMS = \<lparr>mKib = num 2048, tCost = num 1, pPar = num 1\<rparr>"

definition needsRewrap :: "platform \<Rightarrow> string \<Rightarrow> crypto_error + bool" where
  "needsRewrap P wrapped = and_then (readWrapKdfParams P wrapped) (\<lambda>params.
     Inr (num_less (mKib MOBILE_KDF_PARAMS) (mKib params) \<or> num_less (tCost MOBILE_KDF_PARAMS) (tCost params)))"

record backup_file =
  bf_filename :: string
  bf_contents :: string

definition BACKUP_FILENAME :: string where
  "BACKUP_FILENAME = ''aesmsg-identity-backup.aesmsg''"

definition buildBackup :: "('pub, 'priv) hpke_suite \<Rightarrow> platform \<Rightarrow> ('pub, 'priv) identity_impl \<Rightarrow> js_text \<Rightarrow> bytes \<Rightarrow> bytes
    \<Rightarrow> crypto_error + backup_file" where
  "buildBackup S P i passphrase salt iv =
     and_then (wrapPrivateKey S P i passphrase DEFAULT_WRAP_KDF_PARAMS salt iv) (\<lambda>wrapped.
       Inr \<lparr>bf_filename = BACKUP_FILENAME, bf_contents = wrapped\<rparr>)"

datatype restore_reason = BadPassphrase | InvalidFile

definition restoreIdentity :: "('pub, 'priv) hpke_suite \<Rightarrow> platform \<Rightarrow> string \<Rightarrow> js_text
    \<Rightarrow> restore_reason + ('pub, 'priv) identity_impl" where
  "restoreIdentity S P wrapped passphrase =
     (case unwrapPrivateKey S P wrapped passphrase of
        Inr i \<Rightarrow> Inr i
      | Inl BadPassphraseError \<Rightarrow> Inl BadPassphrase
      | Inl _ \<Rightarrow> Inl InvalidFile)"

section \<open>What the code relies on\<close>

text \<open>
  The two Argon2id libraries agree, decryption inverts encryption under one key and IV, a GCM
  ciphertext is 16 bytes longer than its plaintext, JSON.parse reads what JSON.stringify wrote of a value
  that survives it (\<open>json_plain\<close>), which is never the empty text, and the Argon2id libraries refuse
  costs that are no finite numbers.
\<close>

definition gcm_inverts :: "platform \<Rightarrow> bytes \<Rightarrow> bytes \<Rightarrow> bytes \<Rightarrow> bool" where
  "gcm_inverts P k iv pt =
     (length (gcm_encrypt P k iv pt) = length pt + AEAD_TAG_LEN \<and> gcm_decrypt P k iv (gcm_encrypt P k iv pt) = Some pt)"

definition platform_ok :: "platform \<Rightarrow> bool" where
  "platform_ok P =
     (json_returns (json_text P) (json_read P) \<and> (\<forall>j. json_text P j \<noteq> []) \<and> (\<forall>k iv pt. gcm_inverts P k iv pt) \<and>
      (\<forall>pw salt t m p n. noble_argon2 P (TextEncoder pw) salt t m p n = wasm_argon2 P pw salt p t m n) \<and>
      (\<forall>pw salt p t m n. wasm_argon2 P pw salt p t m n \<noteq> None \<longrightarrow> is_finite t \<and> is_finite m))"

text \<open>Authenticity of GCM for the derived keys: under another key a ciphertext does not open.\<close>

definition gcm_refuses :: "platform \<Rightarrow> bytes option \<Rightarrow> bytes option \<Rightarrow> bytes \<Rightarrow> bytes \<Rightarrow> bool" where
  "gcm_refuses P k k' iv pt =
     (case (k, k') of
        (Some k, Some k') \<Rightarrow> k = k' \<or> gcm_decrypt P k' iv (gcm_encrypt P k iv pt) = None
      | _ \<Rightarrow> True)"

definition gcm_authentic :: "platform \<Rightarrow> bool" where
  "gcm_authentic P =
     (\<forall>pw pw' salt t m p iv pt.
        gcm_refuses P (wasm_argon2 P pw salt p t m WRAP_KEY_LEN) (wasm_argon2 P pw' salt p t m WRAP_KEY_LEN) iv pt)"

section \<open>Round trip\<close>

text \<open>A platform on which the other backend runs.\<close>

definition on_backend :: "bool \<Rightarrow> argon2_backend option \<Rightarrow> platform \<Rightarrow> platform" where
  "on_backend w f P = P\<lparr>has_wasm := w, forced_backend := f\<rparr>"

lemma on_backend_sel [simp]:
  "json_text (on_backend w f P) = json_text P" "json_read (on_backend w f P) = json_read P"
  "gcm_encrypt (on_backend w f P) = gcm_encrypt P" "gcm_decrypt (on_backend w f P) = gcm_decrypt P"
  by (simp_all add: on_backend_def)

lemma derive_any_backend:
  assumes "platform_ok P"
  shows "p = num 1 \<Longrightarrow> deriveWrapKey P pw salt m t p = lift_lib ''argon2id'' (wasm_argon2 P pw salt p t m WRAP_KEY_LEN)"
    "p \<noteq> num 1 \<Longrightarrow> is_err (deriveWrapKey P pw salt m t p)"
    "p = num 1 \<Longrightarrow> deriveWrapKey (on_backend w f P) pw salt m t p = deriveWrapKey P pw salt m t p"
  using assms by (auto simp: deriveWrapKey_def deriveArgon2id_def platform_ok_def on_backend_def)

lemma envelope_parses:
  assumes "platform_ok P" "length salt = 16" "length iv = 12" "length ct = 48" "length pub = 32"
    "is_finite (mKib params)" "is_finite (tCost params)" "pPar params = num 1"
  shows "parseEnvelope P (json_text P (envelope_json params salt iv ct pub)) =
    Inr \<lparr>env_salt = salt, env_iv = iv, env_ct = ct, env_pub = pub, env_kdf = params\<rparr>"
proof -
  have "json_plain (envelope_json params salt iv ct pub)" using assms(6-8) by (simp add: envelope_json_def)
  then have "json_read P (json_text P (envelope_json params salt iv ct pub)) = Some (envelope_json params salt iv ct pub)"
    using assms(1) by (simp add: platform_ok_def json_returns_D)
  then show ?thesis using assms(2-5)
  by (simp add: parseEnvelope_def envelope_json_def is_object_def json_prop_def prop_num_def
      prop_string_def decode_fields_def check_lengths_def base64url_roundtrip wrap_consts wire_consts)
qed

lemma wrap_Inr:
  assumes "hpke_correct S" "platform_ok P" "generateIdentity S kp = Inr i" "length salt = 16" "length iv = 12"
    "wrapPrivateKey S P i pw params salt iv = Inr s"
  obtains k where "pPar params = num 1" "wasm_argon2 P pw salt (pPar params) (tCost params) (mKib params) WRAP_KEY_LEN = Some k"
    "parseEnvelope (on_backend w f P) s = Inr \<lparr>env_salt = salt, env_iv = iv,
       env_ct = gcm_encrypt P k iv (serializePrivateKey S (privateKey i)), env_pub = publicKeyRaw i, env_kdf = params\<rparr>"
proof -
  obtain k where k: "deriveWrapKey P pw salt (mKib params) (tCost params) (pPar params) = Inr k"
    and s: "s = json_text P (envelope_json params salt iv (gcm_encrypt P k iv (serializePrivateKey S (privateKey i))) (publicKeyRaw i))"
    using assms(6) by (auto simp: wrapPrivateKey_def Let_def result_simps exportRawPrivateKey_def)
  have p: "pPar params = num 1"
    using k derive_any_backend(2) [OF assms(2)] by (metis is_err_simps(2))
  have "length (publicKeyRaw i) = 32"
    using assms(3) hpke_keys(1) [OF assms(1)] by (auto simp: generateIdentity_def Let_def result_simps exportRawPublicKey_def)
  moreover have "length (gcm_encrypt P k iv (serializePrivateKey S (privateKey i))) = 48"
    using assms(2) hpke_keys(3) [OF assms(1)] by (simp add: platform_ok_def gcm_inverts_def wrap_consts)
  moreover have "platform_ok (on_backend w f P)" using assms(2) by (simp add: platform_ok_def on_backend_def gcm_inverts_def)
  moreover have key: "wasm_argon2 P pw salt (pPar params) (tCost params) (mKib params) WRAP_KEY_LEN = Some k"
    using k derive_any_backend(1) [OF assms(2) p] by (auto simp: lift_lib_def p split: option.splits)
  moreover have "is_finite (mKib params)" "is_finite (tCost params)"
    using assms(2) key unfolding platform_ok_def by (metis option.distinct(1))+
  ultimately show ?thesis
    using that [of k] p envelope_parses [of "on_backend w f P" salt iv _ _ params] assms(4,5) s by simp
qed

lemma wrap_unwrap:
  assumes "hpke_correct S" "platform_ok P" "generateIdentity S kp = Inr i" "length salt = 16" "length iv = 12"
    "wrapPrivateKey S P i pw params salt iv = Inr s"
  shows "unwrapPrivateKey S (on_backend w f P) s pw = Inr i" "readWrapKdfParams (on_backend w f P) s = Inr params"
proof -
  obtain k where k: "pPar params = num 1"
    "wasm_argon2 P pw salt (pPar params) (tCost params) (mKib params) WRAP_KEY_LEN = Some k"
    "parseEnvelope (on_backend w f P) s = Inr \<lparr>env_salt = salt, env_iv = iv,
       env_ct = gcm_encrypt P k iv (serializePrivateKey S (privateKey i)), env_pub = publicKeyRaw i, env_kdf = params\<rparr>"
    using wrap_Inr [OF assms] by metis
  have der: "deriveWrapKey (on_backend w f P) pw salt (mKib params) (tCost params) (pPar params) = Inr k"
    using derive_any_backend [OF assms(2)] k(1,2) by (simp add: lift_lib_def)
  have dec: "gcm_decrypt P k iv (gcm_encrypt P k iv (serializePrivateKey S (privateKey i))) = Some (serializePrivateKey S (privateKey i))"
    using assms(2) by (simp add: platform_ok_def gcm_inverts_def)
  obtain str where i: "encodePubkey (serializePublicKey S (fst kp)) = Inr str"
    "i = \<lparr>publicKey = fst kp, privateKey = snd kp, publicKeyRaw = serializePublicKey S (fst kp), publicKeyString = str\<rparr>"
    using assms(3) by (auto simp: generateIdentity_def Let_def result_simps exportRawPublicKey_def)
  show "unwrapPrivateKey S (on_backend w f P) s pw = Inr i"
    using hpke_keys [OF assms(1)] i(1) der dec
    by (simp add: unwrapPrivateKey_def k(3) i(2) importRawPrivateKey_def importRawPublicKey_def lift_lib_def wrap_consts)
  show "readWrapKdfParams (on_backend w f P) s = Inr params" by (simp add: readWrapKdfParams_def k(3))
qed

lemma wrong_passphrase:
  assumes "hpke_correct S" "platform_ok P" "gcm_authentic P" "generateIdentity S kp = Inr i" "length salt = 16"
    "length iv = 12" "wrapPrivateKey S P i pw params salt iv = Inr s"
    "deriveWrapKey P pw' salt (mKib params) (tCost params) (pPar params) = Inr k'"
    "deriveWrapKey P pw salt (mKib params) (tCost params) (pPar params) \<noteq> Inr k'"
  shows "unwrapPrivateKey S P s pw' = Inl BadPassphraseError"
proof -
  obtain k where k: "pPar params = num 1"
    "wasm_argon2 P pw salt (pPar params) (tCost params) (mKib params) WRAP_KEY_LEN = Some k"
    "parseEnvelope (on_backend (has_wasm P) (forced_backend P) P) s = Inr \<lparr>env_salt = salt, env_iv = iv,
       env_ct = gcm_encrypt P k iv (serializePrivateKey S (privateKey i)), env_pub = publicKeyRaw i, env_kdf = params\<rparr>"
    using wrap_Inr [OF assms(1,2,4-7)] by metis
  have same: "on_backend (has_wasm P) (forced_backend P) P = P" by (simp add: on_backend_def)
  have k': "wasm_argon2 P pw' salt (pPar params) (tCost params) (mKib params) WRAP_KEY_LEN = Some k'"
    using assms(8) derive_any_backend(1) [OF assms(2) k(1)] by (auto simp: lift_lib_def split: option.splits)
  have "k \<noteq> k'" using assms(9) derive_any_backend(1) [OF assms(2) k(1)] k(2) by (auto simp: lift_lib_def)
  moreover have "gcm_refuses P (Some k) (Some k') iv (serializePrivateKey S (privateKey i))"
    using assms(3) k(2) k' unfolding gcm_authentic_def by metis
  ultimately have "gcm_decrypt P k' iv (gcm_encrypt P k iv (serializePrivateKey S (privateKey i))) = None"
    by (simp add: gcm_refuses_def)
  then show ?thesis using k(3) assms(8) by (simp add: unwrapPrivateKey_def same)
qed

text \<open>
  A platform with all these properties: keys are cut from the passphrase, tags from the keys, and a
  JSON value is written as its number in an enumeration.
\<close>

instance js_num :: countable by countable_datatype
instance json :: countable by countable_datatype

definition toy_kdf :: "bytes \<Rightarrow> bytes" where
  "toy_kdf pw = take 16 (pw @ replicate 16 0) @ replicate 16 0"

definition toy_tag16 :: "bytes \<Rightarrow> bytes" where
  "toy_tag16 k = take 16 (k @ replicate 16 0)"

definition toy_platform :: platform where
  "toy_platform = \<lparr>
     json_text = \<lambda>j. CHR ''x'' # replicate (to_nat j) CHR ''x'',
     json_read = \<lambda>s. Some (from_nat (length s - 1)),
     js_String = \<lambda>j. [],
     wasm_argon2 = \<lambda>pw salt p t m n. if is_finite t \<and> is_finite m then Some (toy_kdf (TextEncoder pw)) else None,
     noble_argon2 = \<lambda>pw salt t m p n. if is_finite t \<and> is_finite m then Some (toy_kdf pw) else None,
     gcm_encrypt = \<lambda>k iv pt. pt @ toy_tag16 k,
     gcm_decrypt = \<lambda>k iv ct.
       if 16 \<le> length ct \<and> drop (length ct - 16) ct = toy_tag16 k then Some (take (length ct - 16) ct) else None,
     has_wasm = True, node_env = None, forced_backend = None\<rparr>"

lemma length_toy_tag16 [simp]: "length (toy_tag16 k) = 16"
  by (simp add: toy_tag16_def)

lemma toy_platform_ok: "platform_ok toy_platform"
  by (auto simp: platform_ok_def json_returns_def toy_platform_def gcm_inverts_def wrap_consts)

lemma toy_kdf_tag: "toy_tag16 (toy_kdf a) = toy_tag16 (toy_kdf b) \<longleftrightarrow> toy_kdf a = toy_kdf b"
proof -
  have "take 16 (toy_kdf x @ ys) = take 16 (x @ replicate 16 0)" for x ys by (simp add: toy_kdf_def)
  then show ?thesis by (auto simp: toy_tag16_def) (simp add: toy_kdf_def)
qed

lemma toy_gcm_authentic: "gcm_authentic toy_platform"
  using toy_kdf_tag
  by (auto simp: gcm_authentic_def gcm_refuses_def toy_platform_def)

section \<open>Migration\<close>

text \<open>Re-wrapping reaches a fixed point: an envelope under the mobile parameters needs no further one.\<close>

lemma needsRewrap_wrapped:
  assumes "hpke_correct S" "platform_ok P" "generateIdentity S kp = Inr i" "length salt = 16" "length iv = 12"
    "wrapPrivateKey S P i pw params salt iv = Inr s"
  shows "needsRewrap P s = Inr (num_less (num 2048) (mKib params) \<or> num_less (num 1) (tCost params))"
proof -
  have "on_backend (has_wasm P) (forced_backend P) P = P" by (simp add: on_backend_def)
  then have "readWrapKdfParams P s = Inr params"
    using wrap_unwrap(2) [OF assms, of "has_wasm P" "forced_backend P"] by simp
  then show ?thesis by (simp add: needsRewrap_def MOBILE_KDF_PARAMS_def)
qed

text \<open>Wrapping fails only where the derivation does.\<close>

lemma wrap_total:
  assumes "deriveWrapKey P pw salt (mKib params) (tCost params) (pPar params) = Inr k"
  shows "\<exists>s. wrapPrivateKey S P i pw params salt iv = Inr s"
  using assms by (simp add: wrapPrivateKey_def Let_def)

lemma toy_derive: "p = num 1 \<Longrightarrow> is_finite m \<Longrightarrow> is_finite t \<Longrightarrow> deriveWrapKey toy_platform pw salt m t p = Inr (toy_kdf (TextEncoder pw))"
  using derive_any_backend(1) [OF toy_platform_ok] by (simp add: lift_lib_def toy_platform_def)

text \<open>Outside the test environment the derivation backend cannot be switched.\<close>

lemma backend_locked:
  "node_env P \<noteq> Some ''test'' \<Longrightarrow> is_err (setArgon2Backend P b) \<and> is_err (resetArgon2Backend P)"
  by (simp add: setArgon2Backend_def resetArgon2Backend_def assertTestEnv_def)

end
