(* ===== verification/Retired_Keys.thy ===== *)
theory Retired_Keys
  imports Key_Wrap
begin

text \<open>
  The retired keys of an identity (apps/mobile/src/identity/identity-bundle.ts): the blob they are
  kept in, the list operations rotation and unlock need, and the decryption that falls back through
  them (decrypt-keys.ts).
\<close>

section \<open>Entries and their blob\<close>

record retired_entry =
  re_wrapped :: string
  re_publicKeyString :: string
  re_fingerprint :: string
  re_retiredAtMs :: js_num

definition RETIRED_BLOB_VERSION :: int where "RETIRED_BLOB_VERSION = 1"

text \<open>\<open>isRetiredKeyEntry\<close>: Some is the entry the type guard lets through.\<close>

definition isRetiredKeyEntry :: "json \<Rightarrow> retired_entry option" where
  "isRetiredKeyEntry v =
     (if \<not> is_object v then None
      else case (prop_string ''wrapped'' v, prop_string ''publicKeyString'' v, prop_string ''fingerprint'' v,
                 prop_num ''retiredAtMs'' v) of
             (Some w, Some pk, Some f, Some t) \<Rightarrow>
               if is_finite t
               then Some \<lparr>re_wrapped = w, re_publicKeyString = pk, re_fingerprint = f, re_retiredAtMs = t\<rparr>
               else None
           | _ \<Rightarrow> None)"

definition entry_json :: "retired_entry \<Rightarrow> json" where
  "entry_json e = JObj [(''wrapped'', JStr (re_wrapped e)), (''publicKeyString'', JStr (re_publicKeyString e)),
     (''fingerprint'', JStr (re_fingerprint e)),
     (''retiredAtMs'', if is_finite (re_retiredAtMs e) then JNum (re_retiredAtMs e) else JNull)]"

definition serializeRetiredKeys :: "platform \<Rightarrow> retired_entry list \<Rightarrow> string" where
  "serializeRetiredKeys P entries =
     json_text P (JObj [(''v'', jint RETIRED_BLOB_VERSION), (''keys'', JArr (map entry_json entries))])"

primrec dedupe_loop :: "string list \<Rightarrow> retired_entry list \<Rightarrow> retired_entry list" where
  "dedupe_loop seen [] = []"
| "dedupe_loop seen (e # es) =
     (if re_publicKeyString e \<in> set seen then dedupe_loop seen es
      else e # dedupe_loop (re_publicKeyString e # seen) es)"

definition dedupeRetired :: "retired_entry list \<Rightarrow> retired_entry list" where
  "dedupeRetired es = dedupe_loop [] es"

definition parseRetiredKeys :: "platform \<Rightarrow> string option \<Rightarrow> retired_entry list" where
  "parseRetiredKeys P raw =
     (case raw of
        None \<Rightarrow> []
      | Some s \<Rightarrow>
          if length s = 0 then []
          else case json_read P s of
                 None \<Rightarrow> []
               | Some blob \<Rightarrow>
                   if \<not> is_object blob then []
                   else if json_prop ''v'' blob \<noteq> Some (jint RETIRED_BLOB_VERSION) then []
                   else case json_prop ''keys'' blob of
                          Some (JArr ks) \<Rightarrow> dedupeRetired (List.map_filter isRetiredKeyEntry ks)
                        | _ \<Rightarrow> [])"

definition prependRetired :: "retired_entry list \<Rightarrow> retired_entry \<Rightarrow> retired_entry list" where
  "prependRetired existing e = dedupeRetired (e # existing)"

definition retiredExcludingActive :: "retired_entry list \<Rightarrow> string \<Rightarrow> retired_entry list" where
  "retiredExcludingActive es activePublicKey = filter (\<lambda>e. re_publicKeyString e \<noteq> activePublicKey) es"

section \<open>Laws of the list operations\<close>

lemma dedupe_loop_distinct:
  "distinct (map re_publicKeyString (dedupe_loop seen es))
   \<and> set (map re_publicKeyString (dedupe_loop seen es)) = re_publicKeyString ` set es - set seen"
  by (induction es arbitrary: seen) auto

lemma dedupe_loop_id:
  "distinct (map re_publicKeyString es) \<Longrightarrow> re_publicKeyString ` set es \<inter> set seen = {} \<Longrightarrow> dedupe_loop seen es = es"
  by (induction es arbitrary: seen) auto

lemma dedupe_loop_subset: "set (dedupe_loop seen es) \<subseteq> set es"
  by (induction es arbitrary: seen) (auto split: if_splits)

lemma dedupe_distinct [simp]: "distinct (map re_publicKeyString (dedupeRetired es))"
  using dedupe_loop_distinct [of "[]" es] by (simp add: dedupeRetired_def)

lemma dedupe_keys [simp]: "re_publicKeyString ` set (dedupeRetired es) = re_publicKeyString ` set es"
  using dedupe_loop_distinct [of "[]" es] by (simp add: dedupeRetired_def)

lemma dedupe_id: "distinct (map re_publicKeyString es) \<Longrightarrow> dedupeRetired es = es"
  by (simp add: dedupeRetired_def dedupe_loop_id)

lemma dedupe_subset: "set (dedupeRetired es) \<subseteq> set es"
  by (simp add: dedupeRetired_def dedupe_loop_subset)

text \<open>The entry retired last is kept, in front.\<close>

lemma prepend_first: "\<exists>rest. prependRetired es e = e # rest"
  by (simp add: prependRetired_def dedupeRetired_def)

section \<open>The blob round trip\<close>

lemma isRetiredKeyEntry_json: "is_finite (re_retiredAtMs e) \<Longrightarrow> isRetiredKeyEntry (entry_json e) = Some e"
  by (simp add: isRetiredKeyEntry_def entry_json_def is_object_def prop_string_def prop_num_def json_prop_def)

lemma map_filter_entries:
  "list_all (\<lambda>e. is_finite (re_retiredAtMs e)) es \<Longrightarrow> List.map_filter isRetiredKeyEntry (map entry_json es) = es"
  by (induction es) (simp_all add: List.map_filter_simps isRetiredKeyEntry_json)

lemma retired_blob_roundtrip:
  assumes "platform_ok P" "list_all (\<lambda>e. is_finite (re_retiredAtMs e)) es"
  shows "parseRetiredKeys P (Some (serializeRetiredKeys P es)) = dedupeRetired es"
proof -
  let ?v = "JObj [(''v'', jint RETIRED_BLOB_VERSION), (''keys'', JArr (map entry_json es))]"
  have "json_plain ?v" using assms(2) by (simp add: list_all_iff entry_json_def)
  then have "json_read P (json_text P ?v) = Some ?v" "json_text P ?v \<noteq> []"
    using assms(1) by (simp_all add: platform_ok_def json_returns_D)
  then show ?thesis
    by (simp add: parseRetiredKeys_def serializeRetiredKeys_def is_object_def json_prop_def map_filter_entries [OF assms(2)])
qed

lemma parse_distinct: "distinct (map re_publicKeyString (parseRetiredKeys P raw))"
  by (auto simp: parseRetiredKeys_def split: option.splits json.splits)

lemma isRetiredKeyEntry_finite: "isRetiredKeyEntry v = Some e \<Longrightarrow> is_finite (re_retiredAtMs e)"
  by (auto simp: isRetiredKeyEntry_def split: if_splits option.splits)

lemma set_map_filter_D: "y \<in> set (List.map_filter f xs) \<Longrightarrow> \<exists>x \<in> set xs. f x = Some y"
  by (induction xs) (auto simp: List.map_filter_simps split: option.splits)

lemma parse_finite:
  assumes "e \<in> set (parseRetiredKeys P raw)"
  shows "is_finite (re_retiredAtMs e)"
proof -
  have "\<exists>ks. e \<in> set (dedupeRetired (List.map_filter isRetiredKeyEntry ks))"
    using assms unfolding parseRetiredKeys_def
    by (cases raw) (fastforce split: option.splits json.splits if_splits)+
  then show ?thesis using dedupe_subset set_map_filter_D isRetiredKeyEntry_finite by (metis subsetD)
qed

section \<open>Decrypting with all keys\<close>

fun fallback_loop :: "crypto_error \<Rightarrow> ('k \<Rightarrow> crypto_error + 'a) \<Rightarrow> 'k list \<Rightarrow> crypto_error + 'a" where
  "fallback_loop lastError attempt [] = Inl lastError"
| "fallback_loop lastError attempt (k # ks) =
     (case attempt k of
        Inr x \<Rightarrow> Inr x
      | Inl e \<Rightarrow> if is_DecryptionError e then fallback_loop e attempt ks else Inl e)"

definition decryptWithKeyFallback :: "'k list \<Rightarrow> ('k \<Rightarrow> crypto_error + 'a) \<Rightarrow> crypto_error + 'a" where
  "decryptWithKeyFallback ks attempt = fallback_loop decryption_failed attempt ks"

lemma fallback_finds:
  assumes "attempt k = Inr x" "\<forall>k' \<in> set ks1. \<exists>e. attempt k' = Inl e \<and> is_DecryptionError e"
  shows "decryptWithKeyFallback (ks1 @ k # ks2) attempt = Inr x"
proof -
  have "fallback_loop l attempt (ks1 @ k # ks2) = Inr x" for l
    using assms(2) by (induction ks1 arbitrary: l) (auto simp: assms(1))
  then show ?thesis by (simp add: decryptWithKeyFallback_def)
qed

lemma fallback_error:
  assumes "decryptWithKeyFallback ks attempt = Inl e" "\<not> is_DecryptionError e"
  shows "\<exists>k \<in> set ks. attempt k = Inl e"
proof -
  have "fallback_loop l attempt ks = Inl e \<Longrightarrow> is_DecryptionError l \<Longrightarrow> \<exists>k \<in> set ks. attempt k = Inl e" for l
    by (induction ks arbitrary: l) (use assms(2) in \<open>auto split: sum.splits if_splits\<close>)
  then show ?thesis using assms(1) by (simp add: decryptWithKeyFallback_def decryption_failed_def)
qed

text \<open>
  A message sealed to a retired key still opens: the keys tried before it bind another recipient
  into the AAD and fail with the error that moves on to the next key.
\<close>

definition open_with :: "('pub, 'priv) hpke_suite \<Rightarrow> bytes \<Rightarrow> binding_context \<Rightarrow> ('pub, 'priv) identity_impl \<Rightarrow> crypto_error + bytes" where
  "open_with S ct ctx k = open_sealed S ct k (ctx\<lparr>recipientPublicKey := exportPublicKey k\<rparr>)"

lemma other_key_fails:
  assumes "hpke_correct S" "hpke_binding S" "seal S rnd pt r ctx = Inr ct" "recipientPublicKey ctx = exportPublicKey k"
    "hashRecipientPubkey S (exportPublicKey k') \<noteq> hashRecipientPubkey S (exportPublicKey k)" "int_of_num (maxOpens ctx) < 2 ^ 31"
  shows "open_with S ct ctx k' = Inl decryption_failed"
proof -
  obtain aad where aad: "encodeAad S ctx = Inr aad" using assms(3) by (rule seal_Inr)
  have "encodeAad S (ctx\<lparr>recipientPublicKey := exportPublicKey k'\<rparr>) \<noteq> Inr aad"
  proof
    assume "encodeAad S (ctx\<lparr>recipientPublicKey := exportPublicKey k'\<rparr>) = Inr aad"
    from encodeAad_inject [OF this aad] assms(4-6) show False by auto
  qed
  then show ?thesis unfolding open_with_def using aad by (intro open_other_aad [OF assms(2,3)]) simp
qed

lemma legacy_opens:
  assumes "hpke_correct S" "hpke_binding S" "seal S rnd pt r ctx = Inr ct" "recipientPublicKey ctx = exportPublicKey k"
    "cryptoKey r = public_of S (privateKey k)"
    "\<forall>k' \<in> set ks1. hashRecipientPubkey S (exportPublicKey k') \<noteq> hashRecipientPubkey S (exportPublicKey k)"
    "int_of_num (maxOpens ctx) < 2 ^ 31"
  shows "decryptWithKeyFallback (ks1 @ k # ks2) (open_with S ct ctx) = Inr pt"
proof (rule fallback_finds)
  have "ctx\<lparr>recipientPublicKey := exportPublicKey k\<rparr> = ctx" using assms(4) by simp
  then show "open_with S ct ctx k = Inr pt"
    using seal_then_open [OF assms(1,5,3)] by (simp add: open_with_def)
  show "\<forall>k' \<in> set ks1. \<exists>e. open_with S ct ctx k' = Inl e \<and> is_DecryptionError e"
    using other_key_fails [OF assms(1-4) _ assms(7)] assms(6) by (simp add: decryption_failed_def)
qed

end
