(* ===== verification/Identity_Machine.thy ===== *)
theory Identity_Machine
  imports Retired_Keys
begin

text \<open>
  The identity state machine of the mobile client (apps/mobile/src/identity/identity-machine.ts) with
  the keychain items it works on (secure-store.ts, device-secret.ts). Every await of an action is a
  point where other actions may run: an action is a task, and resuming a task runs the code up to its
  next await. A task also says what it is waiting for; the awaited call takes effect when it resolves.
  Keys are an opaque type; the calls on them are the record \<open>id_crypto\<close>. Listeners are not modelled.
\<close>

section \<open>State\<close>

datatype 'k identity_state =
    Loading
  | NoIdentity
  | Locked
  | Unlocked 'k string "'k list"

text \<open>The injected crypto; wrapping and generating draw randomness, which the resumption supplies.\<close>

record 'k id_crypto =
  ic_wrap :: "'k \<Rightarrow> string \<Rightarrow> bytes \<Rightarrow> string option"
  ic_unwrap :: "string \<Rightarrow> string \<Rightarrow> 'k option"
  ic_export :: "'k \<Rightarrow> string"
  ic_fingerprint :: "string \<Rightarrow> string option"
  ic_needsRewrap :: "string \<Rightarrow> bool option"
  ic_platform :: platform

text \<open>The keychain items and the encrypted blobs of the device.\<close>

record keychain =
  wrapped_item :: "string option"
  retired_item :: "string option"
  secret_item :: "string option"
  blobs_present :: bool

record 'k machine =
  mstate :: "'k identity_state"
  keychain :: keychain

definition loadRetiredKeys :: "'k id_crypto \<Rightarrow> keychain \<Rightarrow> retired_entry list" where
  "loadRetiredKeys ic kc = parseRetiredKeys (ic_platform ic) (retired_item kc)"

definition saveRetiredKeys :: "'k id_crypto \<Rightarrow> retired_entry list \<Rightarrow> keychain \<Rightarrow> keychain" where
  "saveRetiredKeys ic es kc = kc\<lparr>retired_item := Some (serializeRetiredKeys (ic_platform ic) es)\<rparr>"

text \<open>
  \<open>if (!secret) throw\<close>: an absent or empty item does not unlock.
\<close>

definition unlockDeviceSecret :: "keychain \<Rightarrow> string option" where
  "unlockDeviceSecret kc = (case secret_item kc of None \<Rightarrow> None | Some s \<Rightarrow> if s = [] then None else Some s)"

section \<open>Tasks\<close>

text \<open>
  One constructor per await, with the local variables that are live after it. The suffix counts the
  awaits of an action.
\<close>

datatype 'k task =
    Init1
  | Setup1
  | Persist1 'k
  | Persist2 'k string
  | Persist3 'k string
  | Unlock1
  | Unlock2 string
  | Unlock3 string string
  | Unlock4 string string 'k
  | Unlock5 string string 'k retired_entry "retired_entry list" "'k list"
  | Rewrap1 'k string
  | Rewrap2 string
  | Wipe1
  | Wipe2
  | Wipe3
  | Wipe4
  | Rotate1 'k string "'k list"
  | Rotate2 'k string "'k list" string
  | Rotate3 'k string "'k list" string string
  | Rotate4 'k string "'k list" string string string
  | Rotate5 'k string "'k list" string string string 'k
  | Rotate6 'k "'k list" 'k string retired_entry
  | Rotate7 'k "'k list" 'k string "retired_entry list"
  | Rotate8 'k "'k list" 'k string

datatype 'k outcome = Await "'k task" | Done | Threw

text \<open>What an awaited call resolves with: it may reject, and it may supply fresh values.\<close>

record 'k resolution =
  rejects :: bool
  fresh_key :: 'k
  fresh_secret :: string
  seed :: bytes
  clock :: js_num

definition set_state :: "'k identity_state \<Rightarrow> 'k machine \<Rightarrow> 'k machine" where
  "set_state st m = m\<lparr>mstate := st\<rparr>"

text \<open>The end of unlock: the state is set, then the lazy re-wrap starts if it is due.\<close>

definition finish_unlock :: "'k id_crypto \<Rightarrow> string \<Rightarrow> string \<Rightarrow> 'k \<Rightarrow> 'k list \<Rightarrow> 'k machine \<Rightarrow> 'k outcome \<times> 'k machine" where
  "finish_unlock ic wrapped sec k retired m =
     (case ic_needsRewrap ic wrapped of
        Some True \<Rightarrow> Await (Rewrap1 k sec)
      | _ \<Rightarrow> Done,
      set_state (Unlocked k (ic_export ic k) retired) m)"

definition next_retired :: "'k id_crypto \<Rightarrow> string \<Rightarrow> string \<Rightarrow> 'k \<Rightarrow> retired_entry list \<Rightarrow> 'k list \<Rightarrow> 'k machine
    \<Rightarrow> 'k outcome \<times> 'k machine" where
  "next_retired ic wrapped sec k entries acc m =
     (case entries of
        [] \<Rightarrow> finish_unlock ic wrapped sec k acc m
      | e # es \<Rightarrow> (Await (Unlock5 wrapped sec k e es acc), m))"

section \<open>Resuming a task\<close>

text \<open>init.\<close>

fun init_resume :: "'k id_crypto \<Rightarrow> 'k resolution \<Rightarrow> 'k task \<Rightarrow> 'k machine \<Rightarrow> 'k outcome \<times> 'k machine" where
  "init_resume ic r Init1 m =
     (Done, set_state (if wrapped_item (keychain m) \<noteq> None then Locked else NoIdentity) m)"
| "init_resume ic r _ m = (Threw, m)"

text \<open>setupNew after generateIdentity.\<close>

fun setupNew_resume :: "'k id_crypto \<Rightarrow> 'k resolution \<Rightarrow> 'k task \<Rightarrow> 'k machine \<Rightarrow> 'k outcome \<times> 'k machine" where
  "setupNew_resume ic r Setup1 m = (Await (Persist1 (fresh_key r)), m)"
| "setupNew_resume ic r _ m = (Threw, m)"

text \<open>persistAndUnlock, shared by setupNew and importIdentity.\<close>

fun persistAndUnlock :: "'k id_crypto \<Rightarrow> 'k resolution \<Rightarrow> 'k task \<Rightarrow> 'k machine \<Rightarrow> 'k outcome \<times> 'k machine" where
  "persistAndUnlock ic r (Persist1 k) m =
     (Await (Persist2 k (fresh_secret r)), m\<lparr>keychain := (keychain m)\<lparr>secret_item := Some (fresh_secret r)\<rparr>\<rparr>)"
| "persistAndUnlock ic r (Persist2 k sec) m =
     (case ic_wrap ic k sec (seed r) of None \<Rightarrow> (Threw, m) | Some w \<Rightarrow> (Await (Persist3 k w), m))"
| "persistAndUnlock ic r (Persist3 k w) m =
     (Done, set_state (Unlocked k (ic_export ic k) []) (m\<lparr>keychain := (keychain m)\<lparr>wrapped_item := Some w\<rparr>\<rparr>))"
| "persistAndUnlock ic r _ m = (Threw, m)"

text \<open>unlock, with its lazy migration.\<close>

fun unlock_resume :: "'k id_crypto \<Rightarrow> 'k resolution \<Rightarrow> 'k task \<Rightarrow> 'k machine \<Rightarrow> 'k outcome \<times> 'k machine" where
  "unlock_resume ic r Unlock1 m =
     (case wrapped_item (keychain m) of
        None \<Rightarrow> (Done, set_state NoIdentity m)
      | Some w \<Rightarrow> if w = [] then (Done, set_state NoIdentity m) else (Await (Unlock2 w), m))"
| "unlock_resume ic r (Unlock2 w) m =
     (case unlockDeviceSecret (keychain m) of None \<Rightarrow> (Threw, m) | Some sec \<Rightarrow> (Await (Unlock3 w sec), m))"
| "unlock_resume ic r (Unlock3 w sec) m =
     (case ic_unwrap ic w sec of None \<Rightarrow> (Threw, m) | Some k \<Rightarrow> (Await (Unlock4 w sec k), m))"
| "unlock_resume ic r (Unlock4 w sec k) m =
     next_retired ic w sec k (retiredExcludingActive (loadRetiredKeys ic (keychain m)) (ic_export ic k)) [] m"
| "unlock_resume ic r (Unlock5 w sec k e es acc) m =
     next_retired ic w sec k es (case ic_unwrap ic (re_wrapped e) sec of None \<Rightarrow> acc | Some k' \<Rightarrow> acc @ [k']) m"
| "unlock_resume ic r (Rewrap1 k sec) m =
     (case ic_wrap ic k sec (seed r) of
        None \<Rightarrow> (Done, m)
      | Some w \<Rightarrow> (case mstate m of Unlocked _ _ _ \<Rightarrow> (Await (Rewrap2 w), m) | _ \<Rightarrow> (Done, m)))"
| "unlock_resume ic r (Rewrap2 w) m = (Done, m\<lparr>keychain := (keychain m)\<lparr>wrapped_item := Some w\<rparr>\<rparr>)"
| "unlock_resume ic r _ m = (Threw, m)"

text \<open>wipe.\<close>

fun wipe_resume :: "'k id_crypto \<Rightarrow> 'k resolution \<Rightarrow> 'k task \<Rightarrow> 'k machine \<Rightarrow> 'k outcome \<times> 'k machine" where
  "wipe_resume ic r Wipe1 m = (Await Wipe2, m\<lparr>keychain := (keychain m)\<lparr>wrapped_item := None\<rparr>\<rparr>)"
| "wipe_resume ic r Wipe2 m = (Await Wipe3, m\<lparr>keychain := (keychain m)\<lparr>retired_item := None\<rparr>\<rparr>)"
| "wipe_resume ic r Wipe3 m = (Await Wipe4, m\<lparr>keychain := (keychain m)\<lparr>secret_item := None\<rparr>\<rparr>)"
| "wipe_resume ic r Wipe4 m = (Done, set_state NoIdentity (m\<lparr>keychain := (keychain m)\<lparr>blobs_present := False\<rparr>\<rparr>))"
| "wipe_resume ic r _ m = (Threw, m)"

text \<open>rotate.\<close>

fun rotate_resume :: "'k id_crypto \<Rightarrow> 'k resolution \<Rightarrow> 'k task \<Rightarrow> 'k machine \<Rightarrow> 'k outcome \<times> 'k machine" where
  "rotate_resume ic r (Rotate1 k pk rs) m =
     (case unlockDeviceSecret (keychain m) of None \<Rightarrow> (Threw, m) | Some sec \<Rightarrow> (Await (Rotate2 k pk rs sec), m))"
| "rotate_resume ic r (Rotate2 k pk rs sec) m =
     (case ic_wrap ic k sec (seed r) of None \<Rightarrow> (Threw, m) | Some oldW \<Rightarrow> (Await (Rotate3 k pk rs sec oldW), m))"
| "rotate_resume ic r (Rotate3 k pk rs sec oldW) m =
     (case ic_fingerprint ic pk of None \<Rightarrow> (Threw, m) | Some f \<Rightarrow> (Await (Rotate4 k pk rs sec oldW f), m))"
| "rotate_resume ic r (Rotate4 k pk rs sec oldW f) m = (Await (Rotate5 k pk rs sec oldW f (fresh_key r)), m)"
| "rotate_resume ic r (Rotate5 k pk rs sec oldW f k') m =
     (case ic_wrap ic k' sec (seed r) of
        None \<Rightarrow> (Threw, m)
      | Some newW \<Rightarrow>
          (Await (Rotate6 k rs k' newW
             \<lparr>re_wrapped = oldW, re_publicKeyString = pk, re_fingerprint = f, re_retiredAtMs = clock r\<rparr>), m))"
| "rotate_resume ic r (Rotate6 k rs k' newW e) m =
     (Await (Rotate7 k rs k' newW (prependRetired (loadRetiredKeys ic (keychain m)) e)), m)"
| "rotate_resume ic r (Rotate7 k rs k' newW es) m =
     (Await (Rotate8 k rs k' newW), m\<lparr>keychain := saveRetiredKeys ic es (keychain m)\<rparr>)"
| "rotate_resume ic r (Rotate8 k rs k' newW) m =
     (Done, set_state (Unlocked k' (ic_export ic k') (k # rs)) (m\<lparr>keychain := (keychain m)\<lparr>wrapped_item := Some newW\<rparr>\<rparr>))"
| "rotate_resume ic r _ m = (Threw, m)"

fun resume_ok :: "'k id_crypto \<Rightarrow> 'k resolution \<Rightarrow> 'k task \<Rightarrow> 'k machine \<Rightarrow> 'k outcome \<times> 'k machine" where
  "resume_ok ic r Init1 m = init_resume ic r Init1 m"
| "resume_ok ic r Setup1 m = setupNew_resume ic r Setup1 m"
| "resume_ok ic r (Persist1 k) m = persistAndUnlock ic r (Persist1 k) m"
| "resume_ok ic r (Persist2 k sec) m = persistAndUnlock ic r (Persist2 k sec) m"
| "resume_ok ic r (Persist3 k w) m = persistAndUnlock ic r (Persist3 k w) m"
| "resume_ok ic r Unlock1 m = unlock_resume ic r Unlock1 m"
| "resume_ok ic r (Unlock2 w) m = unlock_resume ic r (Unlock2 w) m"
| "resume_ok ic r (Unlock3 w sec) m = unlock_resume ic r (Unlock3 w sec) m"
| "resume_ok ic r (Unlock4 w sec k) m = unlock_resume ic r (Unlock4 w sec k) m"
| "resume_ok ic r (Unlock5 w sec k e es acc) m = unlock_resume ic r (Unlock5 w sec k e es acc) m"
| "resume_ok ic r (Rewrap1 k sec) m = unlock_resume ic r (Rewrap1 k sec) m"
| "resume_ok ic r (Rewrap2 w) m = unlock_resume ic r (Rewrap2 w) m"
| "resume_ok ic r Wipe1 m = wipe_resume ic r Wipe1 m"
| "resume_ok ic r Wipe2 m = wipe_resume ic r Wipe2 m"
| "resume_ok ic r Wipe3 m = wipe_resume ic r Wipe3 m"
| "resume_ok ic r Wipe4 m = wipe_resume ic r Wipe4 m"
| "resume_ok ic r (Rotate1 k pk rs) m = rotate_resume ic r (Rotate1 k pk rs) m"
| "resume_ok ic r (Rotate2 k pk rs sec) m = rotate_resume ic r (Rotate2 k pk rs sec) m"
| "resume_ok ic r (Rotate3 k pk rs sec oldW) m = rotate_resume ic r (Rotate3 k pk rs sec oldW) m"
| "resume_ok ic r (Rotate4 k pk rs sec oldW f) m = rotate_resume ic r (Rotate4 k pk rs sec oldW f) m"
| "resume_ok ic r (Rotate5 k pk rs sec oldW f k') m = rotate_resume ic r (Rotate5 k pk rs sec oldW f k') m"
| "resume_ok ic r (Rotate6 k rs k' newW e) m = rotate_resume ic r (Rotate6 k rs k' newW e) m"
| "resume_ok ic r (Rotate7 k rs k' newW es) m = rotate_resume ic r (Rotate7 k rs k' newW es) m"
| "resume_ok ic r (Rotate8 k rs k' newW) m = rotate_resume ic r (Rotate8 k rs k' newW) m"

text \<open>
  A rejection ends the action with the error, except inside the two try blocks of unlock: a retired key
  that does not unwrap is skipped, and a failed migration is dropped.
\<close>

definition resume_rejected :: "'k id_crypto \<Rightarrow> 'k task \<Rightarrow> 'k machine \<Rightarrow> 'k outcome \<times> 'k machine" where
  "resume_rejected ic t m =
     (case t of
        Unlock5 w sec k e es acc \<Rightarrow> next_retired ic w sec k es acc m
      | Rewrap1 k sec \<Rightarrow> (Done, m)
      | Rewrap2 w \<Rightarrow> (Done, m)
      | _ \<Rightarrow> (Threw, m))"

definition resume :: "'k id_crypto \<Rightarrow> 'k resolution \<Rightarrow> 'k task \<Rightarrow> 'k machine \<Rightarrow> 'k outcome \<times> 'k machine" where
  "resume ic r t m = (if rejects r then resume_rejected ic t m else resume_ok ic r t m)"

section \<open>Starting an action\<close>

datatype 'k action = Init | SetupNew | ImportIdentity 'k | Unlock | Lock | Wipe | Rotate

definition start :: "'k action \<Rightarrow> 'k machine \<Rightarrow> 'k outcome \<times> 'k machine" where
  "start a m =
     (case a of
        Init \<Rightarrow> (Await Init1, m)
      | SetupNew \<Rightarrow> (case mstate m of NoIdentity \<Rightarrow> (Await Setup1, m) | _ \<Rightarrow> (Threw, m))
      | ImportIdentity k \<Rightarrow> (case mstate m of NoIdentity \<Rightarrow> (Await (Persist1 k), m) | _ \<Rightarrow> (Threw, m))
      | Unlock \<Rightarrow> (Await Unlock1, m)
      | Lock \<Rightarrow> (case mstate m of Unlocked _ _ _ \<Rightarrow> (Done, set_state Locked m) | _ \<Rightarrow> (Done, m))
      | Wipe \<Rightarrow> (Await Wipe1, m)
      | Rotate \<Rightarrow> (case mstate m of Unlocked k pk rs \<Rightarrow> (Await (Rotate1 k pk rs), m) | _ \<Rightarrow> (Threw, m)))"

text \<open>The keys the reader tries, the active one first.\<close>

definition allPrivateKeysForDecrypt :: "'k identity_state \<Rightarrow> 'k list" where
  "allPrivateKeysForDecrypt st = (case st of Unlocked k pk rs \<Rightarrow> k # rs | _ \<Rightarrow> [])"

section \<open>The running program\<close>

text \<open>Any started action may be resumed next; a crash loses the tasks and the memory, not the keychain.\<close>

record 'k app =
  am :: "'k machine"
  tasks :: "'k task list"

datatype 'k event = Start "'k action" | Resume nat "'k resolution" | Crash

definition note_outcome :: "'k outcome \<Rightarrow> 'k task list \<Rightarrow> 'k task list" where
  "note_outcome out ts = (case out of Await t \<Rightarrow> ts @ [t] | _ \<Rightarrow> ts)"

definition continue_at :: "nat \<Rightarrow> 'k outcome \<Rightarrow> 'k task list \<Rightarrow> 'k task list" where
  "continue_at i out ts = (case out of Await t \<Rightarrow> ts[i := t] | _ \<Rightarrow> take i ts @ drop (Suc i) ts)"

fun app_step :: "'k id_crypto \<Rightarrow> 'k event \<Rightarrow> 'k app \<Rightarrow> 'k app" where
  "app_step ic (Start a) s = (let (out, m) = start a (am s) in \<lparr>am = m, tasks = note_outcome out (tasks s)\<rparr>)"
| "app_step ic (Resume i r) s =
     (if i < length (tasks s)
      then let (out, m) = resume ic r (tasks s ! i) (am s) in \<lparr>am = m, tasks = continue_at i out (tasks s)\<rparr>
      else s)"
| "app_step ic Crash s = \<lparr>am = set_state Loading (am s), tasks = []\<rparr>"

fun app_run :: "'k id_crypto \<Rightarrow> 'k event list \<Rightarrow> 'k app \<Rightarrow> 'k app" where
  "app_run ic [] s = s"
| "app_run ic (e # es) s = app_run ic es (app_step ic e s)"

end
