(* ===== verification/Identity_Laws.thy ===== *)
theory Identity_Laws
  imports Identity_Machine
begin

text \<open>
  Laws of the identity machine: a rotation loses no key wherever it is cut off, an unlock brings back
  every key the keychain holds, and a wiped device stays wiped while nothing else runs.
\<close>

section \<open>What the crypto provides\<close>

definition ic_ok :: "'k id_crypto \<Rightarrow> bool" where
  "ic_ok ic =
     (platform_ok (ic_platform ic) \<and> inj (ic_export ic) \<and>
      (\<forall>k s r w. ic_wrap ic k s r = Some w \<longrightarrow> ic_unwrap ic w s = Some k \<and> w \<noteq> []))"

lemma ic_okD:
  assumes "ic_ok ic"
  shows "platform_ok (ic_platform ic)" "inj (ic_export ic)"
    "ic_wrap ic k s r = Some w \<Longrightarrow> ic_unwrap ic w s = Some k" "ic_wrap ic k s r = Some w \<Longrightarrow> w \<noteq> []"
  using assms by (auto simp: ic_ok_def)

section \<open>The keys a keychain holds\<close>

definition active_keys :: "'k id_crypto \<Rightarrow> string \<Rightarrow> keychain \<Rightarrow> 'k set" where
  "active_keys ic sec kc = {k. \<exists>w. wrapped_item kc = Some w \<and> w \<noteq> [] \<and> ic_unwrap ic w sec = Some k}"

definition retired_keys :: "'k id_crypto \<Rightarrow> string \<Rightarrow> retired_entry list \<Rightarrow> 'k set" where
  "retired_keys ic sec es = {k. \<exists>e \<in> set es. ic_unwrap ic (re_wrapped e) sec = Some k}"

definition held_keys :: "'k id_crypto \<Rightarrow> string \<Rightarrow> keychain \<Rightarrow> 'k set" where
  "held_keys ic sec kc = active_keys ic sec kc \<union> retired_keys ic sec (loadRetiredKeys ic kc)"

text \<open>The public key recorded with an entry is the one of its private key.\<close>

definition entries_ok :: "'k id_crypto \<Rightarrow> string \<Rightarrow> retired_entry list \<Rightarrow> bool" where
  "entries_ok ic sec es =
     (\<forall>e \<in> set es. \<forall>k. ic_unwrap ic (re_wrapped e) sec = Some k \<longrightarrow> re_publicKeyString e = ic_export ic k)"

lemma load_save:
  assumes "ic_ok ic" "distinct (map re_publicKeyString es)" "list_all (\<lambda>e. is_finite (re_retiredAtMs e)) es"
  shows "loadRetiredKeys ic (saveRetiredKeys ic es kc) = es"
  using retired_blob_roundtrip [OF ic_okD(1) [OF assms(1)] assms(3)] dedupe_id [OF assms(2)]
  by (simp add: loadRetiredKeys_def saveRetiredKeys_def)

lemma dedupe_loop_keeps:
  "e \<in> set es \<Longrightarrow> re_publicKeyString e \<notin> set seen \<Longrightarrow> distinct (map re_publicKeyString es) \<Longrightarrow> e \<in> set (dedupe_loop seen es)"
proof (induction es arbitrary: seen)
  case (Cons a es)
  show ?case
  proof (cases "e = a")
    case False
    then have "e \<in> set es" using Cons.prems by simp
    moreover from this have "re_publicKeyString e \<noteq> re_publicKeyString a" using Cons.prems by (metis distinct.simps(2) imageI list.set_map list.simps(9))
    moreover note Cons.prems
    ultimately have "e \<in> set es" "re_publicKeyString e \<noteq> re_publicKeyString a" by blast+
    then show ?thesis using Cons.IH [of "re_publicKeyString a # seen"] Cons.IH [of seen] Cons.prems by auto
  qed (use Cons.prems in auto)
qed simp

text \<open>Prepending the entry of a key drops only entries of that key.\<close>

lemma prepend_keys:
  assumes "ic_ok ic" "entries_ok ic sec es" "ic_unwrap ic (re_wrapped e) sec = Some k" "re_publicKeyString e = ic_export ic k"
    "distinct (map re_publicKeyString es)"
  shows "insert k (retired_keys ic sec es) \<subseteq> retired_keys ic sec (prependRetired es e)"
    "entries_ok ic sec (prependRetired es e)"
proof -
  have dd: "prependRetired es e = e # dedupe_loop [re_publicKeyString e] es"
    by (simp add: prependRetired_def dedupeRetired_def)
  show "insert k (retired_keys ic sec es) \<subseteq> retired_keys ic sec (prependRetired es e)"
  proof
    fix x assume "x \<in> insert k (retired_keys ic sec es)"
    then consider "x = k" | e' where "e' \<in> set es" "ic_unwrap ic (re_wrapped e') sec = Some x" "x \<noteq> k"
      by (auto simp: retired_keys_def)
    then show "x \<in> retired_keys ic sec (prependRetired es e)"
    proof cases
      case 1
      then show ?thesis using assms(3) by (auto simp: retired_keys_def dd)
    next
      case (2 e')
      have "re_publicKeyString e' = ic_export ic x" using assms(2) 2 by (simp add: entries_ok_def)
      moreover have "ic_export ic x \<noteq> ic_export ic k" using 2(3) ic_okD(2) [OF assms(1)] by (auto dest: injD)
      ultimately have "e' \<in> set (dedupe_loop [re_publicKeyString e] es)"
        using 2(1) assms(4,5) by (intro dedupe_loop_keeps) auto
      then show ?thesis using 2(2) by (auto simp: retired_keys_def dd)
    qed
  qed
  show "entries_ok ic sec (prependRetired es e)"
    using assms(2-4) dedupe_loop_subset [of "[re_publicKeyString e]" es] by (auto simp: entries_ok_def dd)
qed

section \<open>One action on its own\<close>

fun drive :: "'k id_crypto \<Rightarrow> 'k resolution list \<Rightarrow> 'k outcome \<times> 'k machine \<Rightarrow> 'k outcome \<times> 'k machine" where
  "drive ic (r # rs) (Await t, m) = drive ic rs (resume ic r t m)"
| "drive ic _ om = om"

text \<open>
  What holds at every await of a rotation, for a set of keys that the keychain held when it began.
\<close>

definition kept :: "'k id_crypto \<Rightarrow> string \<Rightarrow> 'k set \<Rightarrow> 'k machine \<Rightarrow> bool" where
  "kept ic sec K m =
     (unlockDeviceSecret (keychain m) = Some sec \<and> active_keys ic sec (keychain m) \<noteq> {} \<and>
      entries_ok ic sec (loadRetiredKeys ic (keychain m)) \<and> K \<subseteq> held_keys ic sec (keychain m))"

fun rotating :: "'k id_crypto \<Rightarrow> string \<Rightarrow> 'k set \<Rightarrow> 'k machine \<Rightarrow> 'k task \<Rightarrow> bool" where
  "rotating ic sec K m (Rotate1 k pk rs) =
     (pk = ic_export ic k \<and> K \<subseteq> insert k (retired_keys ic sec (loadRetiredKeys ic (keychain m))))"
| "rotating ic sec K m (Rotate2 k pk rs sec') =
     (pk = ic_export ic k \<and> K \<subseteq> insert k (retired_keys ic sec (loadRetiredKeys ic (keychain m))) \<and> sec' = sec)"
| "rotating ic sec K m (Rotate3 k pk rs sec' oldW) =
     (pk = ic_export ic k \<and> K \<subseteq> insert k (retired_keys ic sec (loadRetiredKeys ic (keychain m))) \<and> sec' = sec \<and>
      ic_unwrap ic oldW sec = Some k)"
| "rotating ic sec K m (Rotate4 k pk rs sec' oldW f) =
     (pk = ic_export ic k \<and> K \<subseteq> insert k (retired_keys ic sec (loadRetiredKeys ic (keychain m))) \<and> sec' = sec \<and>
      ic_unwrap ic oldW sec = Some k)"
| "rotating ic sec K m (Rotate5 k pk rs sec' oldW f k') =
     (pk = ic_export ic k \<and> K \<subseteq> insert k (retired_keys ic sec (loadRetiredKeys ic (keychain m))) \<and> sec' = sec \<and>
      ic_unwrap ic oldW sec = Some k)"
| "rotating ic sec K m (Rotate6 k rs k' newW e) =
     (K \<subseteq> insert k (retired_keys ic sec (loadRetiredKeys ic (keychain m))) \<and> ic_unwrap ic newW sec = Some k' \<and> newW \<noteq> [] \<and>
      ic_unwrap ic (re_wrapped e) sec = Some k \<and> re_publicKeyString e = ic_export ic k \<and> is_finite (re_retiredAtMs e))"
| "rotating ic sec K m (Rotate7 k rs k' newW es) =
     (K \<subseteq> retired_keys ic sec es \<and> ic_unwrap ic newW sec = Some k' \<and> newW \<noteq> [] \<and> entries_ok ic sec es \<and>
      distinct (map re_publicKeyString es) \<and> list_all (\<lambda>e. is_finite (re_retiredAtMs e)) es)"
| "rotating ic sec K m (Rotate8 k rs k' newW) =
     (K \<subseteq> retired_keys ic sec (loadRetiredKeys ic (keychain m)) \<and> ic_unwrap ic newW sec = Some k' \<and> newW \<noteq> [])"
| "rotating ic sec K m _ = False"

definition rot_inv :: "'k id_crypto \<Rightarrow> string \<Rightarrow> 'k set \<Rightarrow> 'k outcome \<times> 'k machine \<Rightarrow> bool" where
  "rot_inv ic sec K om =
     (kept ic sec K (snd om) \<and> (case fst om of Await t \<Rightarrow> rotating ic sec K (snd om) t | _ \<Rightarrow> True))"

lemma set_state_sel [simp]: "keychain (set_state st m) = keychain m" "mstate (set_state st m) = st"
  by (simp_all add: set_state_def)

lemma kept_set_state [simp]: "kept ic sec K (set_state st m) = kept ic sec K m"
  by (simp add: kept_def)

lemma rotate_step:
  assumes "ic_ok ic" "kept ic sec K m" "rotating ic sec K m t" "is_finite (clock r)"
  shows "rot_inv ic sec K (resume ic r t m)"
proof (cases "rejects r")
  case True
  then show ?thesis
    using assms(2,3) by (cases t) (simp_all add: resume_def resume_rejected_def rot_inv_def)
next
  case False
  note wr = ic_okD(3,4) [OF assms(1)]
  show ?thesis
  proof (cases t)
    case (Rotate6 k rs k' newW e)
    have dist: "distinct (map re_publicKeyString (loadRetiredKeys ic (keychain m)))"
      by (simp add: loadRetiredKeys_def parse_distinct)
    have fin: "list_all (\<lambda>e. is_finite (re_retiredAtMs e)) (prependRetired (loadRetiredKeys ic (keychain m)) e)"
      using assms(3) Rotate6 dedupe_subset [of "e # loadRetiredKeys ic (keychain m)"]
      by (auto simp: list_all_iff prependRetired_def loadRetiredKeys_def dest!: parse_finite)
    have ok: "entries_ok ic sec (loadRetiredKeys ic (keychain m))" using assms(2) by (simp add: kept_def)
    note pk = prepend_keys [OF assms(1) ok, of e k]
    have "distinct (map re_publicKeyString (prependRetired (loadRetiredKeys ic (keychain m)) e))"
      by (simp add: prependRetired_def)
    then show ?thesis using assms(2,3) False Rotate6 pk dist fin by (auto simp: resume_def rot_inv_def)
  next
    case (Rotate7 k rs k' newW es)
    have ld: "loadRetiredKeys ic (saveRetiredKeys ic es (keychain m)) = es"
      using load_save [OF assms(1)] assms(3) Rotate7 by simp
    have same: "unlockDeviceSecret (saveRetiredKeys ic es (keychain m)) = unlockDeviceSecret (keychain m)"
      "active_keys ic sec (saveRetiredKeys ic es (keychain m)) = active_keys ic sec (keychain m)"
      by (simp_all add: saveRetiredKeys_def unlockDeviceSecret_def active_keys_def)
    then show ?thesis
      using assms(2,3) False Rotate7 ld by (auto simp: resume_def rot_inv_def kept_def held_keys_def)
  next
    case (Rotate8 k rs k' newW)
    have "loadRetiredKeys ic ((keychain m)\<lparr>wrapped_item := Some newW\<rparr>) = loadRetiredKeys ic (keychain m)"
      "unlockDeviceSecret ((keychain m)\<lparr>wrapped_item := Some newW\<rparr>) = unlockDeviceSecret (keychain m)"
      by (simp_all add: loadRetiredKeys_def unlockDeviceSecret_def)
    then show ?thesis
      using assms(2,3) False Rotate8 by (auto simp: resume_def rot_inv_def kept_def held_keys_def active_keys_def)
  qed (use assms(2-4) False wr in \<open>auto simp: resume_def rot_inv_def kept_def split: option.splits\<close>)
qed

lemma rotate_drive:
  assumes "ic_ok ic" "rot_inv ic sec K om" "list_all (\<lambda>r. is_finite (clock r)) rs"
  shows "rot_inv ic sec K (drive ic rs om)"
  using assms
proof (induction ic rs om rule: drive.induct)
  case (1 ic r rs t m)
  have "rot_inv ic sec K (resume ic r t m)"
    using rotate_step [of ic sec K m t r] 1(2-4) by (simp add: rot_inv_def)
  then show ?case using 1 by simp
qed simp_all

section \<open>Unlocking\<close>

lemma drive_stop [simp]: "drive ic rs (Done, m) = (Done, m)" "drive ic rs (Threw, m) = (Threw, m)"
  by (cases rs; simp)+

lemma drive_Rewrap2: "mstate (snd (drive ic rs (Await (Rewrap2 w), m))) = mstate m"
  by (cases rs) (simp_all add: resume_def resume_rejected_def)

lemma drive_Rewrap1: "mstate (snd (drive ic rs (Await (Rewrap1 k sec), m))) = mstate m"
  by (cases rs) (auto simp: resume_def resume_rejected_def drive_Rewrap2 split: option.splits identity_state.splits)

lemma drive_finish: "mstate (snd (drive ic rs (finish_unlock ic w sec k acc m))) = Unlocked k (ic_export ic k) acc"
  by (auto simp: finish_unlock_def drive_Rewrap1 split: option.splits bool.splits)

definition unwrapped :: "'k id_crypto \<Rightarrow> string \<Rightarrow> retired_entry list \<Rightarrow> 'k list" where
  "unwrapped ic sec es = List.map_filter (\<lambda>e. ic_unwrap ic (re_wrapped e) sec) es"

lemma set_unwrapped: "set (unwrapped ic sec es) = retired_keys ic sec es"
  unfolding unwrapped_def retired_keys_def
  by (induction es) (auto simp: List.map_filter_simps split: option.splits)

lemma drive_retired:
  assumes "list_all (\<lambda>r. \<not> rejects r) rs" "length es \<le> length rs"
  shows "mstate (snd (drive ic rs (next_retired ic w sec k es acc m))) = Unlocked k (ic_export ic k) (acc @ unwrapped ic sec es)"
  using assms
proof (induction es arbitrary: rs acc)
  case Nil
  then show ?case by (simp add: next_retired_def drive_finish unwrapped_def List.map_filter_simps)
next
  case (Cons e es)
  obtain r rs' where rs: "rs = r # rs'" using Cons.prems(2) by (cases rs) auto
  have "drive ic rs (next_retired ic w sec k (e # es) acc m) =
      drive ic rs' (next_retired ic w sec k es (case ic_unwrap ic (re_wrapped e) sec of None \<Rightarrow> acc | Some k' \<Rightarrow> acc @ [k']) m)"
    using Cons.prems(1) by (simp add: rs next_retired_def [of _ _ _ _ "e # es"] resume_def)
  then show ?case
    using Cons.IH [of rs'] Cons.prems
    by (auto simp: rs unwrapped_def List.map_filter_simps split: option.splits)
qed

lemma unlock_drive:
  assumes "unlockDeviceSecret (keychain m) = Some sec" "wrapped_item (keychain m) = Some w" "w \<noteq> []"
    "ic_unwrap ic w sec = Some k" "list_all (\<lambda>r. \<not> rejects r) rs"
    "4 + length (loadRetiredKeys ic (keychain m)) \<le> length rs"
  shows "mstate (snd (drive ic rs (start Unlock m))) =
    Unlocked k (ic_export ic k) (unwrapped ic sec (retiredExcludingActive (loadRetiredKeys ic (keychain m)) (ic_export ic k)))"
proof -
  obtain a b c d rs' where rs: "rs = a # b # c # d # rs'"
    using assms(6) by (auto simp: numeral_eq_Suc Suc_le_length_iff)
  let ?es = "retiredExcludingActive (loadRetiredKeys ic (keychain m)) (ic_export ic k)"
  have "length ?es \<le> length (loadRetiredKeys ic (keychain m))"
    by (simp add: retiredExcludingActive_def)
  then have "length ?es \<le> length rs'" using assms(6) rs by simp
  moreover have "drive ic rs (start Unlock m) = drive ic rs' (next_retired ic w sec k ?es [] m)"
    using assms(1-5) by (simp add: rs start_def resume_def)
  ultimately show ?thesis using drive_retired [of rs' ?es ic w sec k "[]" m] assms(5) rs by simp
qed

text \<open>An unlock brings back every key the keychain holds.\<close>

lemma unlock_restores:
  assumes "ic_ok ic" "kept ic sec K m" "list_all (\<lambda>r. \<not> rejects r) rs"
    "4 + length (loadRetiredKeys ic (keychain m)) \<le> length rs"
  shows "K \<subseteq> set (allPrivateKeysForDecrypt (mstate (snd (drive ic rs (start Unlock m)))))"
proof -
  obtain k w where w: "wrapped_item (keychain m) = Some w" "w \<noteq> []" "ic_unwrap ic w sec = Some k"
    using assms(2) by (auto simp: kept_def active_keys_def)
  let ?es = "loadRetiredKeys ic (keychain m)"
  have sec: "unlockDeviceSecret (keychain m) = Some sec" using assms(2) by (simp add: kept_def)
  have "K \<subseteq> insert k (retired_keys ic sec (retiredExcludingActive ?es (ic_export ic k)))"
  proof
    fix x assume "x \<in> K"
    then have "x = k \<or> x \<in> retired_keys ic sec ?es"
      using assms(2) w by (auto simp: kept_def held_keys_def active_keys_def)
    moreover have "x \<in> retired_keys ic sec (retiredExcludingActive ?es (ic_export ic k))"
      if ret: "x \<in> retired_keys ic sec ?es" "x \<noteq> k"
    proof -
      obtain e where e: "e \<in> set ?es" "ic_unwrap ic (re_wrapped e) sec = Some x" using ret(1) by (auto simp: retired_keys_def)
      then have "re_publicKeyString e = ic_export ic x" using assms(2) by (auto simp: kept_def entries_ok_def)
      moreover have "ic_export ic x \<noteq> ic_export ic k" using ret(2) ic_okD(2) [OF assms(1)] by (auto dest: injD)
      ultimately show ?thesis using e by (auto simp: retired_keys_def retiredExcludingActive_def)
    qed
    ultimately show "x \<in> insert k (retired_keys ic sec (retiredExcludingActive ?es (ic_export ic k)))" by auto
  qed
  then show ?thesis
    using unlock_drive [OF sec w assms(3,4)] by (simp add: allPrivateKeysForDecrypt_def set_unwrapped)
qed

section \<open>Crashes during a rotation\<close>

definition stored :: "'k id_crypto \<Rightarrow> string \<Rightarrow> 'k machine \<Rightarrow> bool" where
  "stored ic sec m =
     (unlockDeviceSecret (keychain m) = Some sec \<and> entries_ok ic sec (loadRetiredKeys ic (keychain m)) \<and>
      (case mstate m of
         Unlocked k pk rs \<Rightarrow> pk = ic_export ic k \<and> k \<in> active_keys ic sec (keychain m) \<and>
           set rs \<subseteq> retired_keys ic sec (loadRetiredKeys ic (keychain m))
       | _ \<Rightarrow> False))"

lemma rotate_crash:
  assumes "ic_ok ic" "stored ic sec m" "list_all (\<lambda>r. is_finite (clock r)) rs1"
    "m1 = snd (drive ic rs1 (start Rotate m))" "list_all (\<lambda>r. \<not> rejects r) rs2"
    "4 + length (loadRetiredKeys ic (keychain m1)) \<le> length rs2"
  shows "set (allPrivateKeysForDecrypt (mstate m)) \<subseteq>
    set (allPrivateKeysForDecrypt (mstate (snd (drive ic rs2 (start Unlock (set_state Loading m1))))))"
proof -
  obtain k pk rs where u: "mstate m = Unlocked k pk rs"
    using assms(2) by (auto simp: stored_def split: identity_state.splits)
  define K where "K = set (k # rs)"
  have "rot_inv ic sec K (start Rotate m)"
    using assms(2) u by (auto simp: rot_inv_def start_def kept_def held_keys_def stored_def K_def)
  from rotate_drive [OF assms(1) this assms(3)] have "kept ic sec K (set_state Loading m1)"
    by (simp add: rot_inv_def assms(4))
  from unlock_restores [OF assms(1) this assms(5)] assms(6)
  show ?thesis by (simp add: u allPrivateKeysForDecrypt_def K_def)
qed

text \<open>A rotation that runs to its end puts a new key in front and keeps the others.\<close>

lemma rotate_completes:
  assumes "ic_ok ic" "mstate m = Unlocked k pk rs" "unlockDeviceSecret (keychain m) = Some sec"
    "ic_fingerprint ic pk = Some f" "\<And>k r. ic_wrap ic k sec r \<noteq> None"
    "length rl = 8" "list_all (\<lambda>r. \<not> rejects r) rl"
  shows "fst (drive ic rl (start Rotate m)) = Done \<and>
    mstate (snd (drive ic rl (start Rotate m))) = Unlocked (fresh_key (rl ! 3)) (ic_export ic (fresh_key (rl ! 3))) (k # rs)"
proof -
  obtain a b c d e f' g h where rl: "rl = [a, b, c, d, e, f', g, h]"
    using assms(6) by (auto simp: numeral_eq_Suc length_Suc_conv)
  obtain w1 where "ic_wrap ic k sec (seed b) = Some w1" using assms(5) by blast
  moreover obtain w2 where "ic_wrap ic (fresh_key d) sec (seed e) = Some w2" using assms(5) by blast
  ultimately show ?thesis
    using assms(2-4,7) by (simp add: rl start_def resume_def)
qed

section \<open>Wiping\<close>

lemma wipe_completes:
  assumes "length rl = 4" "list_all (\<lambda>r. \<not> rejects r) rl"
  shows "drive ic rl (start Wipe m) = (Done, \<lparr>mstate = NoIdentity,
    keychain = \<lparr>wrapped_item = None, retired_item = None, secret_item = None, blobs_present = False\<rparr>\<rparr>)"
proof -
  obtain a b c d where "rl = [a, b, c, d]"
    using assms(1) by (auto simp: numeral_eq_Suc length_Suc_conv)
  then show ?thesis using assms(2) by (simp add: start_def resume_def set_state_def)
qed

text \<open>
  A wiped device: nothing stored, no identity in memory, and no task under way that carries a key.
  Only setting up or importing an identity leaves this condition.
\<close>

fun keyless :: "'k task \<Rightarrow> bool" where
  "keyless Init1 = True"
| "keyless Unlock1 = True"
| "keyless Wipe1 = True"
| "keyless Wipe2 = True"
| "keyless Wipe3 = True"
| "keyless Wipe4 = True"
| "keyless _ = False"

definition wiped :: "'k app \<Rightarrow> bool" where
  "wiped s = (wrapped_item (keychain (am s)) = None \<and> mstate (am s) \<in> {Loading, NoIdentity, Locked} \<and> list_all keyless (tasks s))"

fun no_new_identity :: "'k event \<Rightarrow> bool" where
  "no_new_identity (Start SetupNew) = False"
| "no_new_identity (Start (ImportIdentity k)) = False"
| "no_new_identity _ = True"

lemma resume_keyless:
  assumes "keyless t" "wrapped_item (keychain m) = None" "mstate m \<in> {Loading, NoIdentity, Locked}" "resume ic r t m = (out, m')"
  shows "wrapped_item (keychain m') = None \<and> mstate m' \<in> {Loading, NoIdentity, Locked} \<and> (\<forall>t'. out = Await t' \<longrightarrow> keyless t')"
  using assms by (cases t) (auto simp: resume_def resume_rejected_def split: if_splits)

lemma list_all_continue:
  "list_all P ts \<Longrightarrow> (\<forall>t'. out = Await t' \<longrightarrow> P t') \<Longrightarrow> list_all P (continue_at i out ts)"
  by (auto simp: continue_at_def list_all_iff split: outcome.splits dest: in_set_takeD in_set_dropD
      set_update_subset_insert [THEN subsetD])

lemma wiped_step:
  assumes "wiped s" "no_new_identity e"
  shows "wiped (app_step ic e s)"
proof (cases e)
  case (Start a)
  then show ?thesis
    using assms by (cases a) (auto simp: wiped_def start_def note_outcome_def split: identity_state.splits)
next
  case (Resume i r)
  show ?thesis
  proof (cases "i < length (tasks s)")
    case True
    obtain out m where run: "resume ic r (tasks s ! i) (am s) = (out, m)" by (cases "resume ic r (tasks s ! i) (am s)")
    have "keyless (tasks s ! i)" using assms(1) True by (simp add: wiped_def list_all_length)
    from resume_keyless [OF this _ _ run] assms(1) show ?thesis
      using True run Resume by (auto simp: wiped_def intro!: list_all_continue)
  qed (use assms(1) Resume in simp)
next
  case Crash
  then show ?thesis using assms(1) by (simp add: wiped_def)
qed

lemma wiped_run:
  "wiped s \<Longrightarrow> list_all no_new_identity es \<Longrightarrow> wiped (app_run ic es s)"
  by (induction es arbitrary: s) (simp_all add: wiped_step)

text \<open>Setting up and importing refuse to start over an identity.\<close>

lemma setup_refused:
  "mstate m \<noteq> NoIdentity \<Longrightarrow> start SetupNew m = (Threw, m) \<and> start (ImportIdentity k) m = (Threw, m)"
  by (simp add: start_def split: identity_state.splits)

end
