(* ===== verification/Identity_Properties.thy ===== *)
theory Identity_Properties
  imports Identity_Laws
begin

text \<open>
  The properties of the wrapped key, the retired keys and the identity machine, with the concrete
  instances that show their hypotheses can hold.
\<close>

section \<open>Wrapped keys\<close>

text \<open>
  A private key wrapped under a passphrase comes back whole on any platform that runs either of the two
  Argon2id libraries, with the cost parameters it was wrapped under.
\<close>

theorem wrapped_key_returns:
  assumes "hpke_correct S" "platform_ok P" "generateIdentity S kp = Inr i" "length salt = 16" "length iv = 12"
    "wrapPrivateKey S P i pw params salt iv = Inr s"
  shows "unwrapPrivateKey S (on_backend w f P) s pw = Inr i \<and> readWrapKdfParams (on_backend w f P) s = Inr params
    \<and> needsRewrap P s = Inr (num_less (num 2048) (mKib params) \<or> num_less (num 1) (tCost params))"
  using wrap_unwrap [OF assms] needsRewrap_wrapped [OF assms] by simp

lemma toy_wrapped:
  obtains i s where "generateIdentity toy_suite (5, 5) = Inr i"
    "wrapPrivateKey toy_suite toy_platform i pw DEFAULT_WRAP_KDF_PARAMS (replicate 16 1) (replicate 12 2) = Inr s"
proof -
  obtain i where i: "generateIdentity toy_suite (5, 5) = Inr i" using generateIdentity_total [OF toy_correct] by blast
  have "deriveWrapKey toy_platform pw (replicate 16 1) (mKib DEFAULT_WRAP_KDF_PARAMS) (tCost DEFAULT_WRAP_KDF_PARAMS)
      (pPar DEFAULT_WRAP_KDF_PARAMS) = Inr (toy_kdf (TextEncoder pw))"
    by (rule toy_derive) (simp_all add: DEFAULT_WRAP_KDF_PARAMS_def)
  from wrap_total [OF this] i that show ?thesis by blast
qed

theorem wrapped_key_returns_witness:
  "\<exists>i s. wrapPrivateKey toy_suite toy_platform i [0x61] DEFAULT_WRAP_KDF_PARAMS (replicate 16 1) (replicate 12 2) = Inr s
     \<and> unwrapPrivateKey toy_suite (on_backend False None toy_platform) s [0x61] = Inr i \<and> needsRewrap toy_platform s = Inr True"
proof (rule toy_wrapped [of "[0x61]"])
  fix i s assume a: "generateIdentity toy_suite (5, 5) = Inr i"
    "wrapPrivateKey toy_suite toy_platform i [0x61] DEFAULT_WRAP_KDF_PARAMS (replicate 16 1) (replicate 12 2) = Inr s"
  from wrapped_key_returns [OF toy_correct toy_platform_ok a(1) _ _ a(2), of False None] a(2)
  show ?thesis by (auto simp: DEFAULT_WRAP_KDF_PARAMS_def)
qed

text \<open>
  A wrong passphrase is told from a damaged file: when it derives another key, unwrapping fails with
  the passphrase error, and restoring a backup reports a bad passphrase.
\<close>

theorem wrong_passphrase_reported:
  assumes "hpke_correct S" "platform_ok P" "gcm_authentic P" "generateIdentity S kp = Inr i" "length salt = 16"
    "length iv = 12" "buildBackup S P i pw salt iv = Inr b"
    "deriveWrapKey P pw' salt (num 65536) (num 3) (num 1) = Inr k'" "deriveWrapKey P pw salt (num 65536) (num 3) (num 1) \<noteq> Inr k'"
  shows "restoreIdentity S P (bf_contents b) pw' = Inl BadPassphrase"
proof -
  obtain s where s: "wrapPrivateKey S P i pw DEFAULT_WRAP_KDF_PARAMS salt iv = Inr s" "b = \<lparr>bf_filename = BACKUP_FILENAME, bf_contents = s\<rparr>"
    using assms(7) by (auto simp: buildBackup_def result_simps)
  have "unwrapPrivateKey S P s pw' = Inl BadPassphraseError"
    using wrong_passphrase [OF assms(1-6) s(1)] assms(8,9) by (simp add: DEFAULT_WRAP_KDF_PARAMS_def)
  then show ?thesis by (simp add: restoreIdentity_def s(2))
qed

theorem wrong_passphrase_reported_witness:
  "\<exists>b. restoreIdentity toy_suite toy_platform b [0x62] = Inl BadPassphrase"
proof (rule toy_wrapped [of "[0x61]"])
  fix i s assume a: "generateIdentity toy_suite (5, 5) = Inr i"
    "wrapPrivateKey toy_suite toy_platform i [0x61] DEFAULT_WRAP_KDF_PARAMS (replicate 16 1) (replicate 12 2) = Inr s"
  then have b: "buildBackup toy_suite toy_platform i [0x61] (replicate 16 1) (replicate 12 2) = Inr \<lparr>bf_filename = BACKUP_FILENAME, bf_contents = s\<rparr>"
    by (simp add: buildBackup_def)
  have "toy_kdf (TextEncoder [0x61]) \<noteq> toy_kdf (TextEncoder [0x62])"
    by (simp add: toy_kdf_def TextEncoder_def scalar_bytes_def high_surrogate_def low_surrogate_def)
  then show ?thesis
    using wrong_passphrase_reported [OF toy_correct toy_platform_ok toy_gcm_authentic a(1) _ _ b, of "[0x62]"]
    by (auto simp: toy_derive)
qed

text \<open>
  After any number of rotations a message sealed to a retired key still opens: the fallback passes
  over the keys before it and decrypts with the key it was sealed to.
\<close>

theorem legacy_message_opens:
  assumes "hpke_correct S" "hpke_binding S" "seal S rnd pt r ctx = Inr ct" "recipientPublicKey ctx = exportPublicKey k"
    "cryptoKey r = public_of S (privateKey k)" "int_of_num (maxOpens ctx) < 2 ^ 31"
    "\<forall>k' \<in> set ks1. hashRecipientPubkey S (exportPublicKey k') \<noteq> hashRecipientPubkey S (exportPublicKey k)"
  shows "decryptWithKeyFallback (ks1 @ k # ks2) (open_with S ct ctx) = Inr pt"
  by (rule legacy_opens [OF assms(1-5,7,6)])

theorem legacy_message_opens_witness:
  "\<exists>k1 k2 ct ctx. decryptWithKeyFallback [k1, k2] (open_with toy_suite ct ctx) = Inr [1, 2]"
proof -
  obtain k1 where k1: "generateIdentity toy_suite (6, 6) = Inr k1" using generateIdentity_total [OF toy_correct] by blast
  obtain k2 where k2: "generateIdentity toy_suite (public_of toy_suite 5, 5) = Inr k2"
    using generateIdentity_total [OF toy_correct] by blast
  define ctx where "ctx = \<lparr>linkId = ''BBBBBBBBBBBBBBBB'', recipientPublicKey = exportPublicKey k2, createdAtMs = None,
      expiresAtMs = num 100, maxOpens = num 1\<rparr>"
  note imp = exported_key_imports [OF toy_correct k2]
  have chk: "aad_checks ctx = Inr ()" by (simp add: ctx_def aad_checks_def Let_def isSafeInteger_def)
  have key: "importPublicKey toy_suite (recipientPublicKey ctx) = Inr \<lparr>recipientRaw = publicKeyRaw k2, cryptoKey = public_of toy_suite 5\<rparr>"
    using imp by (simp add: ctx_def)
  have "length (TextEncoder (text_of_string (linkId ctx))) = 16"
    by (simp add: ctx_def text_of_string_def TextEncoder_def high_surrogate_def low_surrogate_def scalar_bytes_def)
  then obtain aad where aad: "encodeAad toy_suite ctx = Inr aad"
    using encodeAad_total [OF toy_correct key chk] by blast
  obtain ct where ct: "seal toy_suite [] [1, 2] \<lparr>recipientRaw = publicKeyRaw k2, cryptoKey = public_of toy_suite 5\<rparr> ctx = Inr ct"
    using seal_total [OF toy_correct k2 imp [unfolded fst_conv] _ aad] by (auto simp: ctx_def)
  have "hashRecipientPubkey toy_suite (exportPublicKey k1) \<noteq> hashRecipientPubkey toy_suite (exportPublicKey k2)"
    using imp exported_key_imports [OF toy_correct k1]
    by (simp add: hashRecipientPubkey_def exportRawPublicKey_def) (simp add: toy_suite_def numeral_eq_Suc)
  then have "decryptWithKeyFallback ([k1] @ k2 # []) (open_with toy_suite ct ctx) = Inr [1, 2]"
    using identity_private [OF k2]
    by (intro legacy_message_opens [OF toy_correct toy_binding ct]) (simp_all add: ctx_def)
  then show ?thesis by auto
qed

section \<open>The identity machine\<close>

text \<open>
  C7: a rotation loses no key. Wherever the app dies during a rotation, and whichever call of it was
  rejected, a later unlock that goes through brings back every key the user could decrypt with before.
\<close>

theorem rotation_survives_crash:
  assumes "ic_ok ic" "stored ic sec m" "list_all (\<lambda>r. is_finite (clock r)) rs1"
    "m1 = snd (drive ic rs1 (start Rotate m))" "list_all (\<lambda>r. \<not> rejects r) rs2"
    "4 + length (loadRetiredKeys ic (keychain m1)) \<le> length rs2"
  shows "set (allPrivateKeysForDecrypt (mstate m)) \<subseteq>
    set (allPrivateKeysForDecrypt (mstate (snd (drive ic rs2 (start Unlock (set_state Loading m1))))))"
  by (rule rotate_crash [OF assms])

definition toy_ic :: "string id_crypto" where
  "toy_ic = \<lparr>ic_wrap = (\<lambda>k s r. Some (CHR ''w'' # k)), ic_unwrap = (\<lambda>w s. Some (tl w)), ic_export = (\<lambda>k. k),
     ic_fingerprint = (\<lambda>pk. Some pk), ic_needsRewrap = (\<lambda>w. Some True), ic_platform = toy_platform\<rparr>"

lemma toy_ic_ok: "ic_ok toy_ic"
  by (simp add: ic_ok_def toy_ic_def toy_platform_ok)

definition toy_machine :: "string machine" where
  "toy_machine = \<lparr>mstate = Unlocked ''a'' ''a'' [],
     keychain = \<lparr>wrapped_item = Some ''wa'', retired_item = None, secret_item = Some ''s'', blobs_present = True\<rparr>\<rparr>"

definition ok_reply :: "string \<Rightarrow> string resolution" where
  "ok_reply k = \<lparr>rejects = False, fresh_key = k, fresh_secret = ''t'', seed = [], clock = num 7\<rparr>"

lemma toy_stored: "stored toy_ic ''s'' toy_machine"
  by (simp add: stored_def toy_machine_def unlockDeviceSecret_def loadRetiredKeys_def parseRetiredKeys_def entries_ok_def
      active_keys_def retired_keys_def toy_ic_def)

theorem rotation_survives_crash_witness:
  "\<exists>n. ''a'' \<in> set (allPrivateKeysForDecrypt (mstate (snd (drive toy_ic (replicate n (ok_reply ''b''))
     (start Unlock (set_state Loading (snd (drive toy_ic (replicate 7 (ok_reply ''b'')) (start Rotate toy_machine)))))))))"
proof -
  let ?m1 = "snd (drive toy_ic (replicate 7 (ok_reply ''b'')) (start Rotate toy_machine))"
  let ?n = "4 + length (loadRetiredKeys toy_ic (keychain ?m1))"
  have "set (allPrivateKeysForDecrypt (mstate toy_machine)) \<subseteq> set (allPrivateKeysForDecrypt (mstate (snd (drive toy_ic
      (replicate ?n (ok_reply ''b'')) (start Unlock (set_state Loading ?m1))))))"
    using rotation_survives_crash [OF toy_ic_ok toy_stored, of "replicate 7 (ok_reply ''b'')" ?m1 "replicate ?n (ok_reply ''b'')"]
    by (simp add: ok_reply_def list_all_length)
  then show ?thesis by (auto simp: toy_machine_def allPrivateKeysForDecrypt_def)
qed

text \<open>
  Wiping is final. Once a wipe has run to its end with nothing else under way, no sequence of
  unlocks, locks, rotations, wipes, restarts and crashes yields a key again.
\<close>

theorem wipe_is_final:
  assumes "length rl = 4" "list_all (\<lambda>r. \<not> rejects r) rl" "list_all no_new_identity es"
  shows "allPrivateKeysForDecrypt (mstate (am (app_run ic es \<lparr>am = snd (drive ic rl (start Wipe m)), tasks = []\<rparr>))) = []"
proof -
  have "wiped \<lparr>am = snd (drive ic rl (start Wipe m)), tasks = []\<rparr>"
    by (simp add: wipe_completes [OF assms(1,2)] wiped_def)
  from wiped_run [OF this assms(3), of ic] show ?thesis
    by (auto simp: wiped_def allPrivateKeysForDecrypt_def)
qed

theorem wipe_is_final_witness:
  "allPrivateKeysForDecrypt (mstate (am (app_run toy_ic [Start Unlock, Resume 0 (ok_reply ''b''), Crash, Start Init]
     \<lparr>am = snd (drive toy_ic (replicate 4 (ok_reply ''b'')) (start Wipe toy_machine)), tasks = []\<rparr>))) = []"
  by (rule wipe_is_final) (simp_all add: ok_reply_def numeral_eq_Suc)

text \<open>
  But a wipe is not final while an unlock is still migrating its envelope: the migration checks the
  state before it saves, and the state stays unlocked until the last step of the wipe, so the deleted
  envelope is written again and survives a wipe that reports success.
\<close>

theorem wipe_races_migration:
  assumes "wrapped_item (keychain m) = Some w" "w \<noteq> []" "unlockDeviceSecret (keychain m) = Some sec"
    "ic_unwrap ic w sec = Some k" "loadRetiredKeys ic (keychain m) = []" "ic_needsRewrap ic w = Some True"
    "ic_wrap ic k sec (seed r) = Some w'" "\<not> rejects r"
  defines "s \<equiv> app_run ic (Start Unlock # replicate 4 (Resume 0 r) @ [Start Wipe, Resume 1 r] @ replicate 5 (Resume 0 r))
      \<lparr>am = m, tasks = []\<rparr>"
  shows "mstate (am s) = NoIdentity \<and> tasks s = [] \<and> wrapped_item (keychain (am s)) = Some w'"
  using assms(1-8)
  by (simp add: s_def numeral_eq_Suc start_def note_outcome_def resume_def continue_at_def next_retired_def finish_unlock_def
      retiredExcludingActive_def set_state_def)

theorem wipe_races_migration_witness:
  "\<exists>es. let s = app_run toy_ic es \<lparr>am = toy_machine, tasks = []\<rparr> in
     mstate (am s) = NoIdentity \<and> tasks s = [] \<and> wrapped_item (keychain (am s)) = Some ''wa''"
  unfolding Let_def
  by (rule exI, rule wipe_races_migration [where sec = "''s''" and k = "''a''" and r = "ok_reply ''b''" and w = "''wa''"])
    (simp_all add: toy_machine_def unlockDeviceSecret_def toy_ic_def loadRetiredKeys_def parseRetiredKeys_def ok_reply_def)

text \<open>
  Nor does locking hold against a rotation in flight: its last step sets the unlocked state
  whatever happened meanwhile, so a lock during the rotation is undone and both keys are in memory again.
\<close>

theorem rotation_undoes_lock:
  assumes "mstate m = Unlocked k pk rs" "unlockDeviceSecret (keychain m) = Some sec" "ic_fingerprint ic pk = Some f"
    "ic_wrap ic k sec (seed r) = Some w1" "ic_wrap ic (fresh_key r) sec (seed r) = Some w2" "\<not> rejects r"
  defines "locked \<equiv> app_run ic (Start Rotate # replicate 7 (Resume 0 r) @ [Start Lock]) \<lparr>am = m, tasks = []\<rparr>"
  shows "mstate (am locked) = Locked \<and>
    mstate (am (app_step ic (Resume 0 r) locked)) = Unlocked (fresh_key r) (ic_export ic (fresh_key r)) (k # rs)"
  using assms(1-6)
  by (simp add: locked_def numeral_eq_Suc start_def note_outcome_def resume_def continue_at_def set_state_def)

theorem rotation_undoes_lock_witness:
  "\<exists>locked. mstate (am locked) = Locked \<and> mstate (am (app_step toy_ic (Resume 0 (ok_reply ''b'')) locked)) = Unlocked ''b'' ''b'' [''a'']"
proof -
  have "ic_export toy_ic ''b'' = ''b''" "fresh_key (ok_reply ''b'') = ''b''" by (simp_all add: toy_ic_def ok_reply_def)
  then show ?thesis
    using rotation_undoes_lock [of toy_machine "''a''" "''a''" "[]" "''s''" toy_ic "''a''" "ok_reply ''b''" "''wa''" "''wb''"]
    by (auto simp: toy_machine_def unlockDeviceSecret_def toy_ic_def ok_reply_def)
qed

text \<open>
  Setting up refuses to start over an identity, yet two setups started from a clean slate both run,
  and the identity of the first is overwritten.
\<close>

theorem double_setup:
  assumes "mstate m = NoIdentity" "ic_wrap ic (fresh_key r1) (fresh_secret r1) (seed r1) = Some w1"
    "ic_wrap ic (fresh_key r2) (fresh_secret r2) (seed r2) = Some w2" "\<not> rejects r1" "\<not> rejects r2"
  defines "s1 \<equiv> app_run ic ([Start SetupNew, Start SetupNew] @ replicate 4 (Resume 0 r1)) \<lparr>am = m, tasks = []\<rparr>"
  shows "mstate (am s1) = Unlocked (fresh_key r1) (ic_export ic (fresh_key r1)) []
    \<and> wrapped_item (keychain (am s1)) = Some w1
    \<and> fst (start SetupNew (am s1)) = Threw
    \<and> wrapped_item (keychain (am (app_run ic (replicate 4 (Resume 0 r2)) s1))) = Some w2"
  using assms(1-5)
  by (simp add: s1_def numeral_eq_Suc start_def note_outcome_def resume_def continue_at_def set_state_def)

theorem double_setup_witness:
  "\<exists>s1. mstate (am s1) = Unlocked ''a'' ''a'' [] \<and>
     wrapped_item (keychain (am (app_run toy_ic (replicate 4 (Resume 0 (ok_reply ''b''))) s1))) = Some ''wb''"
proof -
  have "ic_export toy_ic ''a'' = ''a''" "fresh_key (ok_reply ''a'') = ''a''" by (simp_all add: toy_ic_def ok_reply_def)
  then show ?thesis
    using double_setup [of "toy_machine\<lparr>mstate := NoIdentity\<rparr>" toy_ic "ok_reply ''a''" "''wa''" "ok_reply ''b''" "''wb''"]
    by (auto simp: toy_ic_def ok_reply_def)
qed

end
