(* ===== verification/Api_Client.thy ===== *)
theory Api_Client
  imports Messages_Api Utf8_Codec Wire_Format
begin

text \<open>
  The mobile client's API layer, apps/mobile/src/api/client.ts: requests, the shape checks of the
  answers and the errors they turn into. The network is a function from requests to what a fetch
  resolves with; a timeout and a cancel are outcomes of it, not of a clock.
\<close>

section \<open>Errors and requests\<close>

datatype client_error =
    ApiError nat
  | TimeoutError
  | MalformedResponseError string
  | ConfigError
  | FetchError

record http_request =
  hr_method :: string
  hr_url :: string
  hr_headers :: "(string \<times> string) list"
  hr_body :: "string option"

text \<open>
  A fetch is aborted by the timer, rejects for another reason (transport failure, the caller's
  cancel), or resolves with a status and a body that may fail to parse as JSON.
\<close>

datatype fetch_result = TimedOut | Rejected | Response nat "json option"

record client_env =
  BASE_URL :: string
  LINK_ORIGIN :: string
  production :: bool
  net :: "http_request \<Rightarrow> fetch_result"
  stringify :: "json \<Rightarrow> string"

definition DEFAULT_REQUEST_TIMEOUT_MS :: nat where "DEFAULT_REQUEST_TIMEOUT_MS = 30000"

definition requireBaseUrl :: "client_env \<Rightarrow> client_error + string" where
  "requireBaseUrl env = (if BASE_URL env = [] \<and> production env then Inl ConfigError else Inr (BASE_URL env))"

definition requestWithTimeout :: "client_env \<Rightarrow> string \<Rightarrow> string \<Rightarrow> (string \<times> string) list \<Rightarrow> string option
    \<Rightarrow> client_error + (nat \<times> json option)" where
  "requestWithTimeout env path method headers body =
     and_then (requireBaseUrl env) (\<lambda>base.
       case net env \<lparr>hr_method = method, hr_url = base @ path, hr_headers = headers, hr_body = body\<rparr> of
         TimedOut \<Rightarrow> Inl TimeoutError
       | Rejected \<Rightarrow> Inl FetchError
       | Response st j \<Rightarrow> Inr (st, j))"

text \<open>\<open>res.ok\<close>\<close>

definition res_ok :: "nat \<Rightarrow> bool" where
  "res_ok st = (200 \<le> st \<and> st \<le> 299)"

definition fetchJson :: "client_env \<Rightarrow> string \<Rightarrow> string \<Rightarrow> (string \<times> string) list \<Rightarrow> string option
    \<Rightarrow> (json \<Rightarrow> client_error + 'a) \<Rightarrow> client_error + 'a" where
  "fetchJson env path method headers body validate =
     and_then (requestWithTimeout env path method headers body) (\<lambda>(st, j).
       if \<not> res_ok st then Inl (ApiError st)
       else case j of
              None \<Rightarrow> Inl (MalformedResponseError ''body was not valid JSON'')
            | Some b \<Rightarrow> validate b)"

section \<open>The shape checks\<close>

definition malformed :: "string \<Rightarrow> client_error + 'a" where
  "malformed m = Inl (MalformedResponseError m)"

fun known_status :: "string \<Rightarrow> link_status option" where
  "known_status s =
     (if s = ''active'' then Some Active else if s = ''revoked'' then Some Revoked
      else if s = ''expired'' then Some Expired else None)"

text \<open>\<open>isKnownStatus\<close> on a property: Some is the status.\<close>

definition isKnownStatus :: "json option \<Rightarrow> link_status option" where
  "isKnownStatus v = (case v of Some (JStr s) \<Rightarrow> known_status s | _ \<Rightarrow> None)"

record message_metadata =
  mm_status :: link_status
  mm_expiresAt :: string
  mm_maxOpens :: js_num
  mm_opensCount :: js_num

definition validateMessageMetadata :: "json \<Rightarrow> client_error + message_metadata" where
  "validateMessageMetadata body =
     (if \<not> is_object body then malformed ''metadata was not an object''
      else case isKnownStatus (json_prop ''status'' body) of
        None \<Rightarrow> malformed ''metadata.status is missing or unknown''
      | Some st \<Rightarrow> (case prop_string ''expiresAt'' body of
        None \<Rightarrow> malformed ''metadata.expiresAt was not a string''
      | Some e \<Rightarrow> (case prop_num ''maxOpens'' body of
        None \<Rightarrow> malformed ''metadata.maxOpens was not a number''
      | Some mo \<Rightarrow> (case prop_num ''opensCount'' body of
        None \<Rightarrow> malformed ''metadata.opensCount was not a number''
      | Some oc \<Rightarrow> Inr \<lparr>mm_status = st, mm_expiresAt = e, mm_maxOpens = mo, mm_opensCount = oc\<rparr>))))"

record open_response =
  or_ciphertext :: string
  or_createdAt :: "string option"
  or_expiresAt :: string
  or_opensCount :: js_num
  or_maxOpens :: js_num
  or_status :: link_status

definition created_or_null :: "json option \<Rightarrow> string option option" where
  "created_or_null v = (case v of Some JNull \<Rightarrow> Some None | Some (JStr s) \<Rightarrow> Some (Some s) | _ \<Rightarrow> None)"

definition validateOpenMessageResponse :: "json \<Rightarrow> client_error + open_response" where
  "validateOpenMessageResponse body =
     (if \<not> is_object body then malformed ''open response was not an object''
      else case prop_string ''ciphertext'' body of
        None \<Rightarrow> malformed ''open response is missing ciphertext''
      | Some c \<Rightarrow>
          if length c = 0 then malformed ''open response is missing ciphertext''
          else (case prop_string ''expiresAt'' body of
        None \<Rightarrow> malformed ''open response.expiresAt was not a string''
      | Some e \<Rightarrow> (case created_or_null (json_prop ''createdAt'' body) of
        None \<Rightarrow> malformed ''open response.createdAt was not a string or null''
      | Some cr \<Rightarrow> (case prop_num ''maxOpens'' body of
        None \<Rightarrow> malformed ''open response.maxOpens was not a number''
      | Some mo \<Rightarrow> (case prop_num ''opensCount'' body of
        None \<Rightarrow> malformed ''open response.opensCount was not a number''
      | Some oc \<Rightarrow> (case isKnownStatus (json_prop ''status'' body) of
        None \<Rightarrow> malformed ''open response.status is missing or unknown''
      | Some st \<Rightarrow> Inr \<lparr>or_ciphertext = c, or_createdAt = cr, or_expiresAt = e, or_opensCount = oc,
                        or_maxOpens = mo, or_status = st\<rparr>))))))"

record create_response =
  cr_resp_id :: string
  cr_resp_token :: "string option"

definition validateCreateMessageResponse :: "json \<Rightarrow> client_error + create_response" where
  "validateCreateMessageResponse body =
     (if \<not> is_object body then malformed ''create response was not an object''
      else case prop_string ''id'' body of
        None \<Rightarrow> malformed ''create response is missing id''
      | Some i \<Rightarrow>
          if length i = 0 then malformed ''create response is missing id''
          else (case json_prop ''revocationToken'' body of
                  None \<Rightarrow> Inr \<lparr>cr_resp_id = i, cr_resp_token = None\<rparr>
                | Some (JStr t) \<Rightarrow> Inr \<lparr>cr_resp_id = i, cr_resp_token = Some t\<rparr>
                | Some _ \<Rightarrow> malformed ''create response.revocationToken was not a string''))"

datatype list_result =
    ListGone string
  | ListActive string string js_num js_num

definition validate_list_result :: "json \<Rightarrow> client_error + list_result" where
  "validate_list_result r =
     (case (if is_object r then prop_string ''id'' r else None) of
        None \<Rightarrow> malformed ''list result is missing id''
      | Some i \<Rightarrow>
          if json_prop ''status'' r = Some (JStr ''gone'') then Inr (ListGone i)
          else if json_prop ''status'' r = Some (JStr ''active'')
          then (case (prop_string ''expiresAt'' r, prop_num ''maxOpens'' r, prop_num ''opensCount'' r) of
                  (Some e, Some mo, Some oc) \<Rightarrow> Inr (ListActive i e mo oc)
                | _ \<Rightarrow> malformed ''active list result is missing fields'')
          else malformed ''list result has an unknown status'')"

definition validateListMessagesResponse :: "json \<Rightarrow> client_error + list_result list" where
  "validateListMessagesResponse body =
     (case (if is_object body then json_prop ''results'' body else None) of
        Some (JArr rs) \<Rightarrow> map_err validate_list_result rs
      | _ \<Rightarrow> malformed ''list response.results was not an array'')"

section \<open>The calls\<close>

definition unreserved :: "char \<Rightarrow> bool" where
  "unreserved c = (alnum c \<or> c \<in> set ''-_.!~*'' \<or> c = CHR 0x27 \<or> c = CHR ''('' \<or> c = CHR '')'')"

definition encodeURIComponent :: "string \<Rightarrow> string" where
  "encodeURIComponent s =
     concat (map (\<lambda>c. if unreserved c then [c]
                      else concat (map (\<lambda>b. CHR ''%'' # bytesToUpperHex [b]) (scalar_bytes (of_char c)))) s)"

definition NO_BODY :: string where "NO_BODY = []"

definition REVOCATION_TOKEN_HEADER :: string where
  "REVOCATION_TOKEN_HEADER = ''x-aesmsg-revocation-token''"

definition json_type_header :: "(string \<times> string) list" where
  "json_type_header = [(''content-type'', ''application/json'')]"

definition getMessage :: "client_env \<Rightarrow> string \<Rightarrow> client_error + message_metadata" where
  "getMessage env i = fetchJson env (''/api/messages/'' @ encodeURIComponent i) ''GET'' [] None validateMessageMetadata"

definition openMessage :: "client_env \<Rightarrow> string \<Rightarrow> client_error + open_response" where
  "openMessage env i =
     fetchJson env (''/api/messages/'' @ encodeURIComponent i @ ''/open'') ''POST'' [] (Some NO_BODY)
       validateOpenMessageResponse"

record create_request =
  cq_id :: string
  cq_ciphertext :: string
  cq_expiresAt :: string
  cq_maxOpens :: js_num

definition create_request_json :: "create_request \<Rightarrow> json" where
  "create_request_json req = JObj [(''id'', JStr (cq_id req)), (''ciphertext'', JStr (cq_ciphertext req)),
     (''expiresAt'', JStr (cq_expiresAt req)), (''maxOpens'', JNum (cq_maxOpens req))]"

definition postMessage :: "client_env \<Rightarrow> create_request \<Rightarrow> client_error + create_response" where
  "postMessage env req =
     fetchJson env ''/api/messages'' ''POST'' json_type_header (Some (stringify env (create_request_json req)))
       validateCreateMessageResponse"

definition listMessages :: "client_env \<Rightarrow> string list \<Rightarrow> client_error + list_result list" where
  "listMessages env ids =
     (if length ids = 0 then Inr []
      else fetchJson env ''/api/messages/list'' ''POST'' json_type_header
             (Some (stringify env (JObj [(''ids'', JArr (map JStr ids))]))) validateListMessagesResponse)"

definition revokeLink :: "client_env \<Rightarrow> string \<Rightarrow> string option \<Rightarrow> client_error + unit" where
  "revokeLink env i revocationToken =
     (let headers = (case revocationToken of
                       None \<Rightarrow> []
                     | Some t \<Rightarrow> if t = [] then [] else [(REVOCATION_TOKEN_HEADER, t)])
      in and_then (requestWithTimeout env (''/api/messages/'' @ encodeURIComponent i @ ''/revoke'') ''POST'' headers (Some NO_BODY))
           (\<lambda>(st, j). if \<not> res_ok st then Inl (ApiError st) else Inr ()))"

section \<open>Ids pass the URL unchanged\<close>

lemma encodeURIComponent_id:
  assumes "LINK_ID_REGEX i"
  shows "encodeURIComponent i = i"
proof -
  have "list_all unreserved i"
    using assms by (auto simp: LINK_ID_REGEX_def list_all_iff unreserved_def)
  then show ?thesis by (induction i) (simp_all add: encodeURIComponent_def)
qed

section \<open>The client understands the server\<close>

lemma known_status_string [simp]: "known_status (status_string st) = Some st"
  by (cases st) simp_all

declare known_status.simps [simp del]

lemma created_or_null_simps [simp]:
  "created_or_null (Some JNull) = Some None" "created_or_null (Some (JStr s)) = Some (Some s)"
  by (simp_all add: created_or_null_def)

lemma get_body_validates:
  "validateMessageMetadata (JObj [(''status'', JStr (status_string st)), (''expiresAt'', JStr e), (''maxOpens'', jint mo),
      (''opensCount'', jint oc)]) = Inr \<lparr>mm_status = st, mm_expiresAt = e, mm_maxOpens = num mo, mm_opensCount = num oc\<rparr>"
  by (simp add: validateMessageMetadata_def is_object_def isKnownStatus_def prop_string_def prop_num_def json_prop_def jint_def)

lemma open_body_validates:
  assumes "blob \<noteq> []"
  shows "validateOpenMessageResponse (resp_body (open_response env blob row)) =
    Inr \<lparr>or_ciphertext = bytesToBase64 blob, or_createdAt = map_option (iso_date env) (lm_createdAt row),
      or_expiresAt = iso_date env (lm_expiresAt row), or_opensCount = num (lm_opensCount row),
      or_maxOpens = num (lm_maxOpens row), or_status = lm_status row\<rparr>"
proof -
  have "bytesToBase64 blob \<noteq> bytesToBase64 []" using assms base64_roundtrip by (metis sum.inject(2))
  moreover have "bytesToBase64 [] = []"
    using btoa_eq_bytesToBase64 [of "[]"] by simp
  ultimately have "bytesToBase64 blob \<noteq> []" by simp
  then show ?thesis
    by (cases "lm_createdAt row")
      (simp_all add: open_response_def ok200_def validateOpenMessageResponse_def is_object_def isKnownStatus_def
        prop_string_def prop_num_def json_prop_def jint_def api_bytesToBase64_def btoa_eq_bytesToBase64)
qed

lemma create_body_validates:
  assumes "i \<noteq> []"
  shows "validateCreateMessageResponse (JObj [(''id'', JStr i), (''url'', JStr u), (''revocationToken'', JStr t)]) =
    Inr \<lparr>cr_resp_id = i, cr_resp_token = Some t\<rparr>"
  using assms by (simp add: validateCreateMessageResponse_def is_object_def prop_string_def json_prop_def)

text \<open>What the server says of a link in a list.\<close>

definition listed :: "('s, 'r) deps \<Rightarrow> int \<Rightarrow> 's \<Rightarrow> string \<Rightarrow> list_result" where
  "listed d now s i =
     (case get_link (d_links d) i s of
        None \<Rightarrow> ListGone i
      | Some row \<Rightarrow> if lm_status row \<noteq> Active \<or> lm_expiresAt row \<le> now then ListGone i
                    else ListActive i (iso_date (d_env d) (lm_expiresAt row)) (num (lm_maxOpens row)) (num (lm_opensCount row)))"

lemma list_entry_validates: "validate_list_result (list_entry d now s i) = Inr (listed d now s i)"
  by (auto simp: list_entry_def listed_def Let_def validate_list_result_def is_object_def prop_string_def prop_num_def
      json_prop_def jint_def split: option.splits)

lemma list_body_validates:
  "validateListMessagesResponse (JObj [(''results'', JArr (map (list_entry d now s) ids))]) = Inr (map (listed d now s) ids)"
proof -
  have "map_err validate_list_result (map (list_entry d now s) ids) = Inr (map (listed d now s) ids)"
    by (induction ids) (simp_all add: list_entry_validates)
  then show ?thesis by (simp add: validateListMessagesResponse_def is_object_def json_prop_def)
qed

text \<open>What the client posts, the server parses to the same fields.\<close>

lemma posted_body_parses:
  assumes "parse_json env (stringify cenv (create_request_json req)) = Some (create_request_json req)"
  shows "parseBody env (stringify cenv (create_request_json req)) =
    Some \<lparr>b_id = cq_id req, b_ciphertext = cq_ciphertext req, b_expiresAt = cq_expiresAt req, b_maxOpens = cq_maxOpens req\<rparr>"
  using assms
  by (simp add: parseBody_def create_request_json_def is_object_def prop_string_def prop_num_def json_prop_def)

end
