(* ===== verification/Mobile_Reader.thy ===== *)
theory Mobile_Reader
  imports Api_Client Seal_Open Payload_Codec
begin

text \<open>
  Reading a message in the mobile client (apps/mobile/src/reader): the coordinator that spends at most
  one open per reading, the classification of errors, the screens, and the local decryption.
\<close>

section \<open>The open coordinator\<close>

text \<open>
  A session is the id, its phase and the number of the POST it waits for or came from; a POST's outcome
  arrives later, as the event that settles it.
\<close>

datatype 'r phase = InFlight | Held 'r

record 'r session =
  se_id :: string
  se_post :: nat
  se_phase :: "'r phase"

record 'r coordinator =
  co_current :: "'r session option"
  co_posts :: "string list"

definition createOpenCoordinator :: "'r coordinator" where
  "createOpenCoordinator = \<lparr>co_current = None, co_posts = []\<rparr>"

definition co_peek :: "string \<Rightarrow> 'r coordinator \<Rightarrow> 'r session option" where
  "co_peek i c = (case co_current c of None \<Rightarrow> None | Some se \<Rightarrow> if se_id se \<noteq> i then None else Some se)"

datatype 'r begin_result = Started nat | Joined nat | AlreadyHeld 'r

text \<open>\<open>co_posts\<close> lists the ids of the POSTs issued; a new one has the next number.\<close>

definition co_begin :: "string \<Rightarrow> 'r coordinator \<Rightarrow> 'r begin_result \<times> 'r coordinator" where
  "co_begin i c =
     (let current = (case co_current c of Some se \<Rightarrow> if se_id se \<noteq> i then None else Some se | None \<Rightarrow> None) in
      case current of
        Some se \<Rightarrow> (case se_phase se of
                       Held r \<Rightarrow> (AlreadyHeld r, c\<lparr>co_current := current\<rparr>)
                     | InFlight \<Rightarrow> (Joined (se_post se), c\<lparr>co_current := current\<rparr>))
      | None \<Rightarrow>
          let n = length (co_posts c) in
          (Started n, c\<lparr>co_current := Some \<lparr>se_id = i, se_post = n, se_phase = InFlight\<rparr>, co_posts := co_posts c @ [i]\<rparr>))"

definition co_settle :: "nat \<Rightarrow> 'r option \<Rightarrow> 'r coordinator \<Rightarrow> 'r coordinator" where
  "co_settle n outcome c =
     (case co_current c of
        None \<Rightarrow> c
      | Some se \<Rightarrow>
          if se_post se \<noteq> n then c
          else case outcome of
                 Some r \<Rightarrow> c\<lparr>co_current := Some (se\<lparr>se_phase := Held r\<rparr>)\<rparr>
               | None \<Rightarrow> c\<lparr>co_current := None\<rparr>)"

definition co_clear :: "string \<Rightarrow> 'r coordinator \<Rightarrow> 'r coordinator" where
  "co_clear i c =
     (case co_current c of None \<Rightarrow> c | Some se \<Rightarrow> if se_id se = i then c\<lparr>co_current := None\<rparr> else c)"

datatype 'r co_event = Begin string | Settle nat "'r option" | Clear string

fun co_step :: "'r co_event \<Rightarrow> 'r coordinator \<Rightarrow> 'r coordinator" where
  "co_step (Begin i) c = snd (co_begin i c)"
| "co_step (Settle n r) c = co_settle n r c"
| "co_step (Clear i) c = co_clear i c"

section \<open>Errors\<close>

datatype reader_error =
    Client client_error
  | Crypto crypto_error
  | OtherError

datatype reader_outcome = Gone | Invalid | NetworkOutcome | Failed | AlreadyOpened

fun isDecryptionFailure :: "reader_error \<Rightarrow> bool" where
  "isDecryptionFailure (Crypto (DecryptionError m)) = True"
| "isDecryptionFailure (Crypto BadPassphraseError) = True"
| "isDecryptionFailure _ = False"

definition classifyReaderError :: "reader_error \<Rightarrow> reader_outcome" where
  "classifyReaderError err =
     (if isDecryptionFailure err then Failed
      else case err of
             Client (ApiError st) \<Rightarrow>
               if st = 410 \<or> st = 404 then Gone else if st = 400 then Invalid else NetworkOutcome
           | _ \<Rightarrow> NetworkOutcome)"

datatype open_failure = GoneKind | FailedKind

definition classifyOpenError :: "reader_error \<Rightarrow> open_failure" where
  "classifyOpenError err = (case err of Client (ApiError st) \<Rightarrow> if st = 410 then GoneKind else FailedKind | _ \<Rightarrow> FailedKind)"

section \<open>Decrypting\<close>

record reader_output =
  ro_text :: js_text
  ro_attachments :: "payload_attachment list"
  ro_fingerprint :: string
  ro_opensCount :: js_num
  ro_maxOpens :: js_num
  ro_status :: link_status

text \<open>\<open>new Date(s).getTime()\<close>: NaN when the text is no date.\<close>

definition date_ms :: "(string \<Rightarrow> int option) \<Rightarrow> string \<Rightarrow> js_num" where
  "date_ms parse s = (case parse s of None \<Rightarrow> NaN | Some t \<Rightarrow> num t)"

definition crypto :: "crypto_error + 'a \<Rightarrow> reader_error + 'a" where
  "crypto r = (case r of Inl e \<Rightarrow> Inl (Crypto e) | Inr x \<Rightarrow> Inr x)"

definition client :: "client_error + 'a \<Rightarrow> reader_error + 'a" where
  "client r = (case r of Inl e \<Rightarrow> Inl (Client e) | Inr x \<Rightarrow> Inr x)"

definition response_context :: "(string \<Rightarrow> int option) \<Rightarrow> open_response \<Rightarrow> string \<Rightarrow> string \<Rightarrow> binding_context" where
  "response_context parse response ownPublicKey i =
     \<lparr>linkId = i, recipientPublicKey = ownPublicKey,
      createdAtMs = (case or_createdAt response of None \<Rightarrow> None | Some c \<Rightarrow> Some (date_ms parse c)),
      expiresAtMs = date_ms parse (or_expiresAt response), maxOpens = or_maxOpens response\<rparr>"

definition decryptOpenResponse :: "('pub, 'priv) hpke_suite \<Rightarrow> (string \<Rightarrow> int option) \<Rightarrow> open_response
    \<Rightarrow> ('pub, 'priv) identity_impl \<Rightarrow> string \<Rightarrow> reader_error + reader_output" where
  "decryptOpenResponse S parse response identity i =
     (let ownPublicKey = exportPublicKey identity;
          ctx = response_context parse response ownPublicKey i
      in and_then (crypto (base64ToBytes (or_ciphertext response))) (\<lambda>ciphertext.
         and_then (crypto (open_sealed S ciphertext identity ctx)) (\<lambda>plaintextBytes.
         let payload = decodePayload plaintextBytes in
         and_then (crypto (fingerprint (sha256 S) ownPublicKey)) (\<lambda>recipientFingerprint.
           Inr \<lparr>ro_text = msg_text payload, ro_attachments = attachments payload, ro_fingerprint = recipientFingerprint,
                ro_opensCount = or_opensCount response, ro_maxOpens = or_maxOpens response, ro_status = or_status response\<rparr>))))"

definition fetchOpenResponse :: "client_env \<Rightarrow> string \<Rightarrow> reader_error + open_response" where
  "fetchOpenResponse env i = client (openMessage env i)"

definition fetchAndOpen :: "('pub, 'priv) hpke_suite \<Rightarrow> (string \<Rightarrow> int option) \<Rightarrow> client_env \<Rightarrow> ('pub, 'priv) identity_impl
    \<Rightarrow> string \<Rightarrow> reader_error + reader_output" where
  "fetchAndOpen S parse env identity i =
     and_then (fetchOpenResponse env i) (\<lambda>response. decryptOpenResponse S parse response identity i)"

section \<open>Screens\<close>

datatype reader_state =
    Loading
  | SGone
  | SNetwork "message_metadata option" "string option"
  | SInvalid
  | Landing message_metadata string
  | Opening
  | Gated open_response bool
  | Decrypted reader_output
  | SFailed

datatype screen_name = DecryptingScreen | GoneScreen | NetworkScreen | InvalidScreen | LandingScreen | GatedScreen
  | FailedScreen | ReaderScreen

fun selectScreen :: "reader_state \<Rightarrow> screen_name" where
  "selectScreen Loading = DecryptingScreen"
| "selectScreen Opening = DecryptingScreen"
| "selectScreen SGone = GoneScreen"
| "selectScreen (SNetwork m f) = NetworkScreen"
| "selectScreen SInvalid = InvalidScreen"
| "selectScreen (Landing m f) = LandingScreen"
| "selectScreen (Gated r u) = GatedScreen"
| "selectScreen SFailed = FailedScreen"
| "selectScreen (Decrypted q) = ReaderScreen"

section \<open>At most one POST per reading\<close>

text \<open>
  While a session for an id is neither cleared, superseded nor failed, no second POST is issued for it.
\<close>

definition co_inv :: "'r coordinator \<Rightarrow> bool" where
  "co_inv c = (case co_current c of None \<Rightarrow> True | Some se \<Rightarrow> se_post se < length (co_posts c) \<and> co_posts c ! se_post se = se_id se)"

lemma co_step_inv: "co_inv c \<Longrightarrow> co_inv (co_step e c)"
  by (cases e) (auto simp: co_inv_def co_begin_def co_settle_def co_clear_def Let_def nth_append
      split: option.splits phase.splits if_splits)

text \<open>The events that end a reading of \<open>i\<close>: its reader is dismissed, another link is opened, its POST fails.\<close>

definition ends_reading :: "string \<Rightarrow> nat \<Rightarrow> 'r co_event \<Rightarrow> bool" where
  "ends_reading i n e =
     (case e of Begin j \<Rightarrow> j \<noteq> i | Settle m r \<Rightarrow> m = n \<and> r = None | Clear j \<Rightarrow> j = i)"

lemma same_phase: "\<exists>ph. se = se\<lparr>se_phase := ph\<rparr>"
  by (rule exI [of _ "se_phase se"]) simp

lemma co_step_keeps:
  assumes "co_current c = Some se" "\<not> ends_reading (se_id se) (se_post se) e"
  shows "\<exists>ph. co_current (co_step e c) = Some (se\<lparr>se_phase := ph\<rparr>) \<and> co_posts (co_step e c) = co_posts c"
proof (cases e)
  case (Begin j)
  then show ?thesis
    using assms same_phase [of se] by (auto simp: co_begin_def ends_reading_def Let_def split: phase.splits)
next
  case (Settle m r)
  then show ?thesis
    using assms same_phase [of se] by (auto simp: co_settle_def ends_reading_def split: option.splits)
next
  case (Clear j)
  then show ?thesis
    using assms same_phase [of se] by (auto simp: co_clear_def ends_reading_def)
qed

lemma co_run_keeps:
  assumes "co_current c = Some se" "list_all (\<lambda>e. \<not> ends_reading (se_id se) (se_post se) e) es"
  shows "\<exists>ph. co_current (fold co_step es c) = Some (se\<lparr>se_phase := ph\<rparr>) \<and> co_posts (fold co_step es c) = co_posts c"
  using assms
proof (induction es arbitrary: c se)
  case (Cons e es)
  obtain ph where ph: "co_current (co_step e c) = Some (se\<lparr>se_phase := ph\<rparr>)" "co_posts (co_step e c) = co_posts c"
    using co_step_keeps [OF Cons.prems(1)] Cons.prems(2) by auto
  from Cons.IH [OF ph(1)] Cons.prems(2) show ?case by (simp add: ph(2))
next
  case Nil
  then show ?case using same_phase [of se] by simp
qed

lemma held_stays:
  assumes "co_current c = Some se" "se_phase se = Held r"
    "list_all (\<lambda>e. \<not> ends_reading (se_id se) (se_post se) e \<and> (\<forall>q. e \<noteq> Settle (se_post se) q)) es"
  shows "co_current (fold co_step es c) = Some se"
  using assms
proof (induction es arbitrary: c)
  case (Cons e es)
  have "co_current (co_step e c) = Some se"
    using Cons.prems
    by (cases e) (auto simp: co_begin_def co_settle_def co_clear_def ends_reading_def)
  then show ?case using Cons by simp
qed simp

end
