(* ===== verification/Js_Text.thy ===== *)
theory Js_Text
  imports Js_Prelude
begin

text \<open>
  What the clients use of JavaScript's strings and arrays: trim, findIndex, slice and a stable sort
  with a comparator, with the facts their stores share.
\<close>

section \<open>Strings\<close>

text \<open>The white space of Latin-1; the other white space of Unicode is outside this type.\<close>

definition js_space :: "char \<Rightarrow> bool" where
  "js_space c = ((of_char c :: nat) \<in> {9, 10, 11, 12, 13, 32, 160})"

definition js_trim :: "string \<Rightarrow> string" where
  "js_trim s = rev (dropWhile js_space (rev (dropWhile js_space s)))"

lemma hd_dropWhile_space: "dropWhile P s \<noteq> [] \<Longrightarrow> \<not> P (hd (dropWhile P s))"
  by (induction s) auto

lemma dropWhile_hd: "s \<noteq> [] \<Longrightarrow> \<not> P (hd s) \<Longrightarrow> dropWhile P s = s"
  by (cases s) auto

lemma dropWhile_snoc_stop: "\<not> P x \<Longrightarrow> dropWhile P (s @ [x]) = dropWhile P s @ [x]"
  by (induction s) auto

lemma js_trim_idem [simp]: "js_trim (js_trim s) = js_trim s"
proof -
  define a where "a = dropWhile js_space s"
  define b where "b = dropWhile js_space (rev a)"
  have t: "js_trim s = rev b" by (simp add: js_trim_def a_def b_def)
  have "dropWhile js_space (rev b) = rev b"
  proof (cases "b = []")
    case False
    have "a \<noteq> []" using False b_def by auto
    then have "\<not> js_space (hd a)" unfolding a_def by (rule hd_dropWhile_space)
    then have "b = dropWhile js_space (rev (tl a)) @ [hd a]"
      using \<open>a \<noteq> []\<close> dropWhile_snoc_stop [of js_space "hd a" "rev (tl a)"] unfolding b_def by (cases a) auto
    then have "hd (rev b) = hd a" by simp
    then show ?thesis using \<open>\<not> js_space (hd a)\<close> False by (intro dropWhile_hd) auto
  qed simp
  moreover have "dropWhile js_space b = b" unfolding b_def by (rule dropWhile_idem)
  ultimately have "js_trim (rev b) = rev b" by (simp add: js_trim_def)
  then show ?thesis by (simp only: t)
qed

section \<open>Arrays\<close>

text \<open>\<open>findIndex\<close>: None is -1.\<close>

fun findIndex :: "('a \<Rightarrow> bool) \<Rightarrow> 'a list \<Rightarrow> nat option" where
  "findIndex P [] = None"
| "findIndex P (x # xs) = (if P x then Some 0 else map_option Suc (findIndex P xs))"

lemma findIndex_Some: "findIndex P xs = Some i \<Longrightarrow> i < length xs \<and> P (xs ! i)"
  by (induction xs arbitrary: i) (auto split: if_splits)

lemma findIndex_None: "findIndex P xs = None \<longleftrightarrow> (\<forall>x \<in> set xs. \<not> P x)"
  by (induction xs) (auto split: if_splits)

lemma findIndex_find: "List.find P xs = map_option (\<lambda>i. xs ! i) (findIndex P xs)"
  by (induction xs) (auto simp: option.map_comp comp_def)

text \<open>Writing back an entry under the key it was read with keeps the keys.\<close>

lemma map_update_same_key: "i < length xs \<Longrightarrow> f y = f (xs ! i) \<Longrightarrow> map f (xs[i := y]) = map f xs"
  by (metis list_update_id map_update nth_map)

lemma update_member: "x \<in> set (xs[i := y]) \<Longrightarrow> x = y \<or> x \<in> set xs"
  using set_update_subset_insert [of xs i y] by auto

lemma distinct_key_unique: "distinct (map f xs) \<Longrightarrow> x \<in> set xs \<Longrightarrow> y \<in> set xs \<Longrightarrow> f x = f y \<Longrightarrow> x = y"
  by (metis distinct_map inj_onD)

text \<open>\<open>sort\<close> with a comparator: stable, smaller first.\<close>

fun insert_by :: "('a \<Rightarrow> 'a \<Rightarrow> int) \<Rightarrow> 'a \<Rightarrow> 'a list \<Rightarrow> 'a list" where
  "insert_by cmp x [] = [x]"
| "insert_by cmp x (y # ys) = (if cmp x y \<le> 0 then x # y # ys else y # insert_by cmp x ys)"

definition sort_by :: "('a \<Rightarrow> 'a \<Rightarrow> int) \<Rightarrow> 'a list \<Rightarrow> 'a list" where
  "sort_by cmp xs = foldr (insert_by cmp) xs []"

lemma set_insert_by [simp]: "set (insert_by cmp x ys) = insert x (set ys)"
  by (induction ys) auto

lemma set_sort_by [simp]: "set (sort_by cmp xs) = set xs"
  by (induction xs) (simp_all add: sort_by_def)

lemma length_insert_by [simp]: "length (insert_by cmp x ys) = Suc (length ys)"
  by (induction ys) simp_all

lemma length_sort_by [simp]: "length (sort_by cmp xs) = length xs"
  by (induction xs) (simp_all add: sort_by_def)

lemma sorted_insert_by:
  assumes "\<And>a b. cmp a b \<le> 0 \<or> cmp b a \<le> 0" "\<And>a b c. cmp a b \<le> 0 \<Longrightarrow> cmp b c \<le> 0 \<Longrightarrow> cmp a c \<le> 0"
    "sorted_wrt (\<lambda>a b. cmp a b \<le> 0) ys"
  shows "sorted_wrt (\<lambda>a b. cmp a b \<le> 0) (insert_by cmp x ys)"
  using assms(3)
proof (induction ys)
  case (Cons y ys)
  then have "\<forall>z \<in> set ys. cmp y z \<le> 0" by simp
  then have "\<forall>z \<in> set ys. cmp x y \<le> 0 \<longrightarrow> cmp x z \<le> 0" using assms(2) by blast
  then show ?case using Cons assms(1) [of x y] by auto
qed simp

lemma sorted_sort_by:
  assumes "\<And>a b. cmp a b \<le> 0 \<or> cmp b a \<le> 0" "\<And>a b c. cmp a b \<le> 0 \<Longrightarrow> cmp b c \<le> 0 \<Longrightarrow> cmp a c \<le> 0"
  shows "sorted_wrt (\<lambda>a b. cmp a b \<le> 0) (sort_by cmp xs)"
proof (induction xs)
  case (Cons x xs)
  then show ?case using sorted_insert_by [of cmp "sort_by cmp xs" x] assms by (simp add: sort_by_def)
qed (simp add: sort_by_def)

end
