(* ===== verification/Sent_Links.thy ===== *)
theory Sent_Links
  imports Api_Client Js_Text
begin

text \<open>
  The sender's links on the device (apps/mobile/src/links, create/revoke-created-link.ts and
  identity/wipe-orchestration.ts): the tracking store, the reconciliation with the server's answer,
  revoking, and revoking everything before a wipe.
\<close>

section \<open>The store\<close>

record sent_link =
  sl_id :: string
  sl_fingerprint :: string
  sl_createdAt :: string
  sl_expiresAt :: string
  sl_maxOpens :: js_num
  sl_label :: "string option"
  sl_revocationToken :: "string option"
  sl_reminder :: "string option"

text \<open>What the encrypted store holds under "sent-links": an object keyed by id, in insertion order.\<close>

type_synonym sent_store = "(string, sent_link) js_map option"

definition readMap :: "sent_store \<Rightarrow> (string, sent_link) js_map" where
  "readMap st = (case st of None \<Rightarrow> [] | Some m \<Rightarrow> m)"

definition recordSentLink :: "sent_link \<Rightarrow> sent_store \<Rightarrow> sent_store" where
  "recordSentLink r st = Some (map_set (sl_id r) r (readMap st))"

definition setSentLinkReminder :: "string \<Rightarrow> string \<Rightarrow> sent_store \<Rightarrow> sent_store" where
  "setSentLinkReminder i n st =
     (case map_get (readMap st) i of
        None \<Rightarrow> st
      | Some existing \<Rightarrow> Some (map_set i (existing\<lparr>sl_reminder := Some n\<rparr>) (readMap st)))"

text \<open>
  \<open>a.createdAt < b.createdAt ? 1 : -1\<close>, strings by code unit. The comparator never answers 0, so
  JavaScript leaves the order of records with one creation time open; the model keeps theirs.
\<close>

fun string_less :: "string \<Rightarrow> string \<Rightarrow> bool" where
  "string_less s [] = False"
| "string_less [] (b # t) = True"
| "string_less (a # s) (b # t) = ((of_char a :: nat) < of_char b \<or> (a = b \<and> string_less s t))"

definition newest_first :: "sent_link \<Rightarrow> sent_link \<Rightarrow> int" where
  "newest_first a b = (if string_less (sl_createdAt a) (sl_createdAt b) then 1 else -1)"

definition listSentLinks :: "sent_store \<Rightarrow> sent_link list" where
  "listSentLinks st = sort_by newest_first (map snd (readMap st))"

definition getSentLink :: "string \<Rightarrow> sent_store \<Rightarrow> sent_link option" where
  "getSentLink i st = map_get (readMap st) i"

definition deleteSentLink :: "string \<Rightarrow> sent_store \<Rightarrow> sent_store" where
  "deleteSentLink i st = (if map_get (readMap st) i = None then st else Some (map_del i (readMap st)))"

definition clearSentLinks :: "sent_store \<Rightarrow> sent_store" where
  "clearSentLinks st = None"

section \<open>Reconciliation\<close>

datatype server_status = SActive | SGoneStatus | SUnknown

record reconciled =
  rl_record :: sent_link
  rl_status :: server_status
  rl_opensCount :: "js_num option"
  rl_maxOpens :: js_num
  rl_expiresAt :: string

text \<open>\<open>parse\<close> is Date's; a text that is no date is never past.\<close>

definition locally_expired :: "(string \<Rightarrow> int option) \<Rightarrow> int \<Rightarrow> sent_link \<Rightarrow> bool" where
  "locally_expired parse now r = (case parse (sl_expiresAt r) of None \<Rightarrow> False | Some t \<Rightarrow> t \<le> now)"

fun result_id :: "list_result \<Rightarrow> string" where
  "result_id (ListGone i) = i"
| "result_id (ListActive i e mo oc) = i"

definition byId :: "list_result list \<Rightarrow> (string, list_result) js_map" where
  "byId rs = fold (\<lambda>r m. map_set (result_id r) r m) rs []"

definition as_local :: "sent_link \<Rightarrow> server_status \<Rightarrow> reconciled" where
  "as_local r st = \<lparr>rl_record = r, rl_status = st, rl_opensCount = None, rl_maxOpens = sl_maxOpens r, rl_expiresAt = sl_expiresAt r\<rparr>"

definition reconcile_one :: "(string \<Rightarrow> int option) \<Rightarrow> list_result list option \<Rightarrow> int \<Rightarrow> sent_link \<Rightarrow> reconciled" where
  "reconcile_one parse serverResponse now r =
     (case serverResponse of
        None \<Rightarrow> as_local r (if locally_expired parse now r then SGoneStatus else SUnknown)
      | Some results \<Rightarrow>
          if locally_expired parse now r then as_local r SGoneStatus
          else (case map_get (byId results) (sl_id r) of
                  Some (ListActive i e mo oc) \<Rightarrow>
                    \<lparr>rl_record = r, rl_status = SActive, rl_opensCount = Some oc, rl_maxOpens = mo, rl_expiresAt = e\<rparr>
                | Some (ListGone i) \<Rightarrow> as_local r SGoneStatus
                | None \<Rightarrow> as_local r SUnknown))"

definition reconcileSentLinks :: "(string \<Rightarrow> int option) \<Rightarrow> sent_link list \<Rightarrow> list_result list option \<Rightarrow> int \<Rightarrow> reconciled list" where
  "reconcileSentLinks parse localRecords serverResponse now = map (reconcile_one parse serverResponse now) localRecords"

text \<open>loadAndReconcile up to the display; the second component says whether the server was reached.\<close>

definition loadAndReconcile :: "(string \<Rightarrow> int option) \<Rightarrow> client_env \<Rightarrow> int \<Rightarrow> sent_store \<Rightarrow> reconciled list \<times> bool" where
  "loadAndReconcile parse env now st =
     (let records = listSentLinks st in
      if length records = 0 then ([], True)
      else let server = (case listMessages env (map sl_id records) of Inl e \<Rightarrow> None | Inr rs \<Rightarrow> Some rs)
           in (reconcileSentLinks parse records server now, server \<noteq> None))"

section \<open>Revoking\<close>

datatype revoke_result = RevokedResult | ErrorResult

definition isAlreadyGone :: "client_error \<Rightarrow> bool" where
  "isAlreadyGone e = (e = ApiError 404 \<or> e = ApiError 410)"

definition revokeTrackedLink :: "client_env \<Rightarrow> string \<Rightarrow> sent_store \<Rightarrow> (client_error + unit) \<times> sent_store" where
  "revokeTrackedLink env i st =
     (let r = getSentLink i st in
      case revokeLink env i (case r of None \<Rightarrow> None | Some r \<Rightarrow> sl_revocationToken r) of
        Inl e \<Rightarrow> (Inl e, st)
      | Inr _ \<Rightarrow> (Inr (), deleteSentLink i st))"

definition revokeTrackedLinkOutcome :: "client_env \<Rightarrow> string \<Rightarrow> sent_store \<Rightarrow> revoke_result \<times> sent_store" where
  "revokeTrackedLinkOutcome env i st =
     (case revokeTrackedLink env i st of
        (Inr _, st') \<Rightarrow> (RevokedResult, st')
      | (Inl e, st') \<Rightarrow> if isAlreadyGone e then (RevokedResult, deleteSentLink i st') else (ErrorResult, st'))"

section \<open>Revoke, then wipe\<close>

record link_ref =
  lr_id :: string
  lr_label :: "string option"

definition selectLiveTrackedLinks :: "(string \<Rightarrow> int option) \<Rightarrow> sent_link list \<Rightarrow> int \<Rightarrow> link_ref list" where
  "selectLiveTrackedLinks parse records now =
     map (\<lambda>r. \<lparr>lr_id = sl_id r, lr_label = sl_label r\<rparr>)
       (filter (\<lambda>r. case parse (sl_expiresAt r) of None \<Rightarrow> False | Some t \<Rightarrow> t > now) records)"

record wipe_result =
  wiped :: bool
  revokedCount :: nat
  failures :: "(link_ref \<times> client_error) list"

text \<open>The loop: the revoke attempts so far count the successes and list the failures.\<close>

primrec revoke_loop :: "(string \<Rightarrow> 'w \<Rightarrow> (client_error + unit) \<times> 'w) \<Rightarrow> link_ref list \<Rightarrow> nat \<times> (link_ref \<times> client_error) list \<times> 'w
    \<Rightarrow> nat \<times> (link_ref \<times> client_error) list \<times> 'w" where
  "revoke_loop revoke [] acc = acc"
| "revoke_loop revoke (l # ls) acc =
     (case acc of (n, fs, w) \<Rightarrow>
        (case revoke (lr_id l) w of
           (Inr _, w') \<Rightarrow> revoke_loop revoke ls (n + 1, fs, w')
         | (Inl e, w') \<Rightarrow>
             if isAlreadyGone e then revoke_loop revoke ls (n + 1, fs, w')
             else revoke_loop revoke ls (n, fs @ [(l, e)], w')))"

text \<open>\<open>'w\<close> is the world the injected calls act on.\<close>

definition revokeAllThenWipe :: "(string \<Rightarrow> 'w \<Rightarrow> (client_error + unit) \<times> 'w) \<Rightarrow> ((link_ref \<times> client_error) list \<Rightarrow> bool)
    \<Rightarrow> ('w \<Rightarrow> 'w) \<Rightarrow> link_ref list \<Rightarrow> 'w \<Rightarrow> wipe_result \<times> 'w" where
  "revokeAllThenWipe revoke confirm wipe links w =
     (case revoke_loop revoke links (0, [], w) of
        (n, fs, w') \<Rightarrow>
          if length fs > 0 \<and> \<not> confirm fs then (\<lparr>wiped = False, revokedCount = n, failures = fs\<rparr>, w')
          else (\<lparr>wiped = True, revokedCount = n, failures = fs\<rparr>, wipe w'))"

section \<open>Facts\<close>

lemma readMap_simps [simp]: "readMap None = []" "readMap (Some m) = m"
  by (simp_all add: readMap_def)

lemma getSentLink_record [simp]: "getSentLink i (recordSentLink r st) = (if i = sl_id r then Some r else getSentLink i st)"
  by (simp add: getSentLink_def recordSentLink_def)

lemma getSentLink_delete [simp]: "getSentLink i (deleteSentLink j st) = (if i = j then None else getSentLink i st)"
  by (simp add: getSentLink_def deleteSentLink_def)

lemma byId_get_aux:
  "map_get (fold (\<lambda>r m. map_set (result_id r) r m) rs m) i =
     (case List.find (\<lambda>r. result_id r = i) (rev rs) of Some r \<Rightarrow> Some r | None \<Rightarrow> map_get m i)"
proof (induction rs arbitrary: m)
  case (Cons r rs)
  have find_snoc: "List.find P (xs @ [x]) = (case List.find P xs of None \<Rightarrow> (if P x then Some x else None) | Some y \<Rightarrow> Some y)"
    for P and xs :: "list_result list" and x
    by (induction xs) auto
  show ?case using Cons [of "map_set (result_id r) r m"] by (auto simp: find_snoc split: option.splits)
qed simp

lemma byId_get: "map_get (byId rs) i = List.find (\<lambda>r. result_id r = i) (rev rs)"
  by (simp add: byId_def byId_get_aux split: option.splits)

lemma byId_member: "map_get (byId rs) i = Some r \<Longrightarrow> r \<in> set rs \<and> result_id r = i"
  by (auto simp: byId_get find_Some_iff) (metis length_rev nth_mem set_rev)

lemma revoke_loop_facts:
  assumes "revoke_loop revoke ls (n, fs, w) = (n', fs', w')"
  shows "n' + length fs' = n + length fs + length ls" "set fs' \<subseteq> set fs \<union> {(l, e). l \<in> set ls \<and> \<not> isAlreadyGone e}"
    "set fs \<subseteq> set fs'"
proof -
  have "n' + length fs' = n + length fs + length ls \<and> set fs' \<subseteq> set fs \<union> {(l, e). l \<in> set ls \<and> \<not> isAlreadyGone e} \<and> set fs \<subseteq> set fs'"
    using assms
  proof (induction ls arbitrary: n fs w)
    case (Cons l ls)
    show ?case
    proof (cases "revoke (lr_id l) w")
      case (Pair q v)
      then show ?thesis
        using Cons.prems Cons.IH [of "n + 1" fs v] Cons.IH [of n "fs @ [(l, e)]" v for e]
        by (auto split: sum.splits if_splits)
    qed
  qed simp
  then show "n' + length fs' = n + length fs + length ls" "set fs' \<subseteq> set fs \<union> {(l, e). l \<in> set ls \<and> \<not> isAlreadyGone e}"
    "set fs \<subseteq> set fs'" by blast+
qed

end
