(* ===== verification/Mobile_Composer.thy ===== *)
theory Mobile_Composer
  imports Mobile_Reader Sent_Links
begin

text \<open>
  Creating a link in the mobile client, apps/mobile/src/create/create-and-seal.ts and
  create-outcome.ts: the recipient key is checked, the message sealed, the ciphertext uploaded and the
  link recorded on the device.
\<close>

section \<open>createAndSeal\<close>

datatype encrypting_phase = Prepare | Encrypt | Upload

record seal_input =
  si_recipient :: string
  si_message :: js_text
  si_expiresAt :: int
  si_maxOpens :: js_num
  si_label :: "string option"
  si_attachment :: "payload_attachment option"

record seal_output =
  so_id :: string
  so_url :: string
  so_fingerprint :: string

text \<open>
  What the platform adds: the random bytes of the id and of the encapsulation, \<open>toISOString\<close> and the
  clock, and whether the write of the local record succeeds.
\<close>

record seal_platform =
  sp_id_bytes :: bytes
  sp_seal_bytes :: bytes
  sp_iso :: "int \<Rightarrow> string"
  sp_now :: int
  sp_store_writes :: bool

definition seal_context :: "string \<Rightarrow> seal_input \<Rightarrow> binding_context" where
  "seal_context i inp =
     \<lparr>linkId = i, recipientPublicKey = si_recipient inp, createdAtMs = None, expiresAtMs = num (si_expiresAt inp),
      maxOpens = si_maxOpens inp\<rparr>"

definition seal_payload :: "seal_input \<Rightarrow> payload" where
  "seal_payload inp =
     \<lparr>msg_text = si_message inp, attachments = (case si_attachment inp of None \<Rightarrow> [] | Some a \<Rightarrow> [a])\<rparr>"

definition sent_record :: "seal_platform \<Rightarrow> seal_input \<Rightarrow> string \<Rightarrow> string \<Rightarrow> string option \<Rightarrow> sent_link" where
  "sent_record P inp i fp token =
     \<lparr>sl_id = i, sl_fingerprint = fp, sl_createdAt = sp_iso P (sp_now P), sl_expiresAt = sp_iso P (si_expiresAt inp),
      sl_maxOpens = si_maxOpens inp, sl_label = si_label inp, sl_revocationToken = token, sl_reminder = None\<rparr>"

text \<open>The steps before the upload: the id, the fingerprint and the ciphertext.\<close>

definition prepare_and_encrypt :: "('pub, 'priv) hpke_suite \<Rightarrow> seal_platform \<Rightarrow> seal_input
    \<Rightarrow> (crypto_error + (string \<times> string \<times> bytes)) \<times> encrypting_phase list" where
  "prepare_and_encrypt S P inp =
     (case and_then (importPublicKey S (si_recipient inp)) (\<lambda>recipient.
             and_then (fingerprint (sha256 S) (si_recipient inp)) (\<lambda>fp.
               and_then (encodePayload (seal_payload inp)) (\<lambda>plaintext. Inr (recipient, fp, plaintext)))) of
        Inl e \<Rightarrow> (Inl e, [Prepare])
      | Inr (recipient, fp, plaintext) \<Rightarrow>
          let i = generateLinkId (sp_id_bytes P) in
          (and_then (seal S (sp_seal_bytes P) plaintext recipient (seal_context i inp)) (\<lambda>ciphertext. Inr (i, fp, ciphertext)),
           [Prepare, Encrypt]))"

definition create_request_of :: "seal_platform \<Rightarrow> seal_input \<Rightarrow> string \<Rightarrow> bytes \<Rightarrow> create_request" where
  "create_request_of P inp i ciphertext =
     \<lparr>cq_id = i, cq_ciphertext = bytesToBase64 ciphertext, cq_expiresAt = sp_iso P (si_expiresAt inp), cq_maxOpens = si_maxOpens inp\<rparr>"

definition createAndSeal :: "('pub, 'priv) hpke_suite \<Rightarrow> seal_platform \<Rightarrow> client_env \<Rightarrow> seal_input \<Rightarrow> sent_store
    \<Rightarrow> (reader_error + seal_output) \<times> encrypting_phase list \<times> sent_store" where
  "createAndSeal S P env inp st =
     (case prepare_and_encrypt S P inp of
        (Inl e, phases) \<Rightarrow> (Inl (Crypto e), phases, st)
      | (Inr (i, fp, ciphertext), phases) \<Rightarrow>
          (case postMessage env (create_request_of P inp i ciphertext) of
             Inl e \<Rightarrow> (Inl (Client e), phases @ [Upload], st)
           | Inr resp \<Rightarrow>
               (Inr \<lparr>so_id = i, so_url = LINK_ORIGIN env @ ''/l/'' @ i, so_fingerprint = fp\<rparr>, phases @ [Upload],
                if sp_store_writes P then recordSentLink (sent_record P inp i fp (cr_resp_token resp)) st else st)))"

datatype create_failure = TimeoutFailure | NetworkFailure | ErrorFailure

definition classifyCreateFailure :: "reader_error \<Rightarrow> create_failure" where
  "classifyCreateFailure err =
     (case err of
        Client TimeoutError \<Rightarrow> TimeoutFailure
      | Client (ApiError st) \<Rightarrow> ErrorFailure
      | _ \<Rightarrow> NetworkFailure)"

section \<open>Facts\<close>

lemma prepare_Inr:
  assumes "prepare_and_encrypt S P inp = (Inr (i, fp, ct), phases)"
  obtains r pt where "importPublicKey S (si_recipient inp) = Inr r" "fingerprint (sha256 S) (si_recipient inp) = Inr fp"
    "encodePayload (seal_payload inp) = Inr pt" "i = generateLinkId (sp_id_bytes P)"
    "seal S (sp_seal_bytes P) pt r (seal_context i inp) = Inr ct" "phases = [Prepare, Encrypt]"
  using assms by (auto simp: prepare_and_encrypt_def result_simps Let_def split: sum.splits)

lemma createAndSeal_Inr:
  assumes "createAndSeal S P env inp st = (Inr sent, phases, st')"
  obtains fp ct resp where "prepare_and_encrypt S P inp = (Inr (so_id sent, fp, ct), [Prepare, Encrypt])"
    "postMessage env (create_request_of P inp (so_id sent) ct) = Inr resp"
    "phases = [Prepare, Encrypt, Upload]" "sent = \<lparr>so_id = so_id sent, so_url = LINK_ORIGIN env @ ''/l/'' @ so_id sent, so_fingerprint = fp\<rparr>"
    "st' = (if sp_store_writes P then recordSentLink (sent_record P inp (so_id sent) fp (cr_resp_token resp)) st else st)"
proof -
  obtain i fp ct ph where p: "prepare_and_encrypt S P inp = (Inr (i, fp, ct), ph)"
    using assms by (auto simp: createAndSeal_def split: sum.splits prod.splits)
  then have "ph = [Prepare, Encrypt]" by (rule prepare_Inr)
  moreover obtain resp where "postMessage env (create_request_of P inp i ct) = Inr resp"
    using assms p by (auto simp: createAndSeal_def split: sum.splits)
  ultimately show ?thesis using that [of fp ct resp] assms p by (auto simp: createAndSeal_def)
qed

end
