(* ===== verification/Client_Properties.thy ===== *)
theory Client_Properties
  imports Mobile_Composer Api_Laws
begin

text \<open>
  Properties of the mobile client around the API: it accepts every answer the server's handlers give,
  spends one open per reading, classifies errors without leaking, and neither reports a live link as
  revoked nor wipes past a failed revocation.
\<close>

text \<open>Reading a message's metadata and a list of them, as the answers say.\<close>

definition answer_of :: "(limiter_error + response) \<times> 'a \<Rightarrow> (nat \<times> json) option" where
  "answer_of h = (case fst h of Inl e \<Rightarrow> None | Inr r \<Rightarrow> Some (status_code r, resp_body r))"

definition understood :: "(json \<Rightarrow> 'e + 'a) \<Rightarrow> (limiter_error + response) \<times> 'b \<Rightarrow> bool" where
  "understood validate h =
     (case answer_of h of
        None \<Rightarrow> True
      | Some (st, b) \<Rightarrow> res_ok st \<longrightarrow> (\<exists>v. validate b = Inr v))"

lemma understood_simps [simp]:
  "understood V (Inl e, s)" "understood V (Inr r, s) = (res_ok (status_code r) \<longrightarrow> (\<exists>v. V (resp_body r) = Inr v))"
  by (simp_all add: understood_def answer_of_def)

lemma res_ok_codes [simp]: "res_ok 200" "res_ok 201" "\<not> res_ok 400" "\<not> res_ok 404" "\<not> res_ok 409" "\<not> res_ok 410"
    "\<not> res_ok 429" "\<not> res_ok 500"
  by (simp_all add: res_ok_def)

lemma understood_limit:
  assumes "\<And>sv'. store sv' = store sv \<Longrightarrow> understood V (k sv')"
  shows "understood V (with_limit d now p l req sv k)"
  using assms by (auto simp: with_limit_def split: prod.splits sum.splits)

lemma resp_bodies [simp]: "resp_body (ok200 b) = b" "resp_body (jsonOk b) = b"
  by (simp_all add: ok200_def jsonOk_def)

lemma get_understood: "understood validateMessageMetadata (get_message d now i req sv)"
  unfolding get_message_def
  by (auto intro!: understood_limit simp: get_body_validates [of Active, simplified] split: option.splits)

lemma list_understood: "understood validateListMessagesResponse (list_messages d now req sv)"
  unfolding list_messages_def
  by (auto intro!: understood_limit simp: list_body_validates split: option.splits)

lemma create_understood: "understood validateCreateMessageResponse (create_message d now token req sv)"
proof -
  have "b_id body \<noteq> []" if "check_create (d_env d) now body = Some p" for body p
    using check_create_facts(1) [of "d_env d" now body "fst p" "snd p"] that by (auto simp: LINK_ID_REGEX_def)
  then show ?thesis
    unfolding create_message_def
    by (auto intro!: understood_limit simp: create_body_validates split: option.splits prod.splits sum.splits)
qed

lemma open_understood:
  assumes "get_blob (d_links d) i (store sv) \<noteq> Some []"
  shows "understood validateOpenMessageResponse (open_message d now i req sv)"
  using assms unfolding open_message_def
  by (auto intro!: understood_limit simp: open_body_validates Let_def split: option.splits prod.splits)

text \<open>
  C10: the client understands the server. Whatever the store, the limiter and the request are, an answer
  with a 2xx status passes the shape check the client reads it with; for the open handler this holds
  of a link whose stored ciphertext is not empty.
\<close>

theorem client_understands_server:
  assumes "get_blob (d_links d) i (store sv) \<noteq> Some []"
  shows "understood validateMessageMetadata (get_message d now i req sv)
    \<and> understood validateListMessagesResponse (list_messages d now req sv)
    \<and> understood validateCreateMessageResponse (create_message d now token req sv)
    \<and> understood validateOpenMessageResponse (open_message d now i req sv)"
  by (intro conjI get_understood list_understood create_understood open_understood [OF assms])

theorem client_understands_server_witness:
  "understood validateOpenMessageResponse (open_message
     \<lparr>d_links = \<lparr>createWithCiphertext = (\<lambda>r b s. (Inl DuplicateLink, s)), get_link = (\<lambda>i s. None), incrementOpens = (\<lambda>t i s. (None, s)),
        revoke_link = (\<lambda>t i h s. s), expirePastDue = (\<lambda>t r s. (0, s)), pruneTerminal = (\<lambda>t s. (0, s)),
        adminPurge = (\<lambda>t i s. (\<lparr>pr_found = False, pr_wasActive = False, pr_ciphertextRemoved = False\<rparr>, s)), get_blob = (\<lambda>i s. Some [1])\<rparr>,
      d_rate = (\<lambda>t k w r. (Inr 1, r)),
      d_env = \<lparr>parse_json = (\<lambda>s. None), parse_date = (\<lambda>s. None), iso_date = (\<lambda>t. []), hash_token = (\<lambda>t. t),
        hash_ip = (\<lambda>s. s), publicLinkOrigin = [], maxRetentionMs = None\<rparr>\<rparr>
     5 ''AAAAAAAAAAAAAAAA'' \<lparr>client_ip = None, raw_body = [], token_header = None\<rparr> \<lparr>store = (), limiter = ()\<rparr>)"
  by (rule client_understands_server [THEN conjunct2, THEN conjunct2, THEN conjunct2]) simp

section \<open>Reading\<close>

text \<open>
  C26: reading a link spends one open. Once a reading has begun, and until its reader is dismissed, another
  link is opened or its request fails, no second open request is issued for the link, however often it
  is begun again; and the response it got is the one every later begin returns.
\<close>

theorem one_post_per_reading:
  assumes "co_begin i c = (Started n, c1)" "list_all (\<lambda>e. \<not> ends_reading i n e) es"
    "list_all (\<lambda>e. \<forall>q. e \<noteq> Settle n q) es'" "list_all (\<lambda>e. \<not> ends_reading i n e) es'"
  shows "co_posts (fold co_step es c1) = co_posts c @ [i]
    \<and> fst (co_begin i (fold co_step (es @ Settle n (Some r) # es') c1)) = AlreadyHeld r"
proof
  let ?se = "\<lparr>se_id = i, se_post = n, se_phase = InFlight\<rparr>"
  have c1: "co_current c1 = Some ?se" "co_posts c1 = co_posts c @ [i]"
    using assms(1) by (auto simp: co_begin_def Let_def split: option.splits phase.splits)
  obtain ph where ph: "co_current (fold co_step es c1) = Some (?se\<lparr>se_phase := ph\<rparr>)" "co_posts (fold co_step es c1) = co_posts c1"
    using co_run_keeps [OF c1(1), of es] assms(2) by auto
  show "co_posts (fold co_step es c1) = co_posts c @ [i]" using ph(2) c1(2) by simp
  let ?c2 = "co_step (Settle n (Some r)) (fold co_step es c1)" and ?held = "\<lparr>se_id = i, se_post = n, se_phase = Held r\<rparr>"
  have "co_current ?c2 = Some ?held" using ph(1) by (simp add: co_settle_def)
  from held_stays [OF this, of r es'] have "co_current (fold co_step es' ?c2) = Some ?held"
    using assms(3,4) by (simp add: list_all_iff)
  then show "fst (co_begin i (fold co_step (es @ Settle n (Some r) # es') c1)) = AlreadyHeld r"
    by (simp add: co_begin_def)
qed

theorem one_post_per_reading_witness:
  "co_posts (fold co_step [Begin ''a'', Begin ''a''] (snd (co_begin ''a'' (createOpenCoordinator :: nat coordinator)))) = [''a'']"
  using one_post_per_reading [of "''a''" "createOpenCoordinator :: nat coordinator" 0
      "snd (co_begin ''a'' (createOpenCoordinator :: nat coordinator))" "[Begin ''a'', Begin ''a'']" "[]" 5]
  by (simp add: createOpenCoordinator_def co_begin_def ends_reading_def)

text \<open>
  An error screen leaks nothing. A link that is unknown, used up, revoked or expired always ends on
  the one screen of unavailable links, whichever the server's 404 or 410 was; the screen of a link
  already opened is never shown; and a failed decryption is reported only when decryption failed.
\<close>

theorem reader_errors_opaque:
  "classifyReaderError (Client (ApiError 404)) = classifyReaderError (Client (ApiError 410)) \<and>
   classifyReaderError err \<noteq> AlreadyOpened \<and>
   (classifyReaderError err = Failed \<longleftrightarrow> (\<exists>e. err = Crypto e \<and> is_DecryptionError e)) \<and>
   (classifyReaderError err = Gone \<longleftrightarrow> err = Client (ApiError 404) \<or> err = Client (ApiError 410))"
proof -
  have "isDecryptionFailure err \<longleftrightarrow> (\<exists>e. err = Crypto e \<and> is_DecryptionError e)"
    by (cases err rule: isDecryptionFailure.cases) auto
  then show ?thesis
    by (auto simp: classifyReaderError_def split: reader_error.splits client_error.splits if_splits)
qed

section \<open>The sender's links\<close>

text \<open>
  C32: the list of links tells the truth. Reconciled with the server's answer about exactly the tracked
  links, a link is shown as active only if the server held it active and unexpired, and as gone only if
  it was not or its own expiry has passed; without an answer a link is shown as gone only if its own
  expiry has passed.
\<close>

theorem links_tell_the_truth:
  assumes "r \<in> set (listSentLinks st)" "q = reconcile_one parse resp now r"
    "resp = None \<or> resp = Some (map (listed d t s) (map sl_id (listSentLinks st)))"
  shows "(rl_status q = SActive \<longrightarrow> resp \<noteq> None \<and> \<not> locally_expired parse now r \<and>
      (\<exists>row. get_link (d_links d) (sl_id r) s = Some row \<and> lm_status row = Active \<and> t < lm_expiresAt row))
    \<and> (rl_status q = SGoneStatus \<longrightarrow> locally_expired parse now r \<or>
      resp \<noteq> None \<and> (case get_link (d_links d) (sl_id r) s of None \<Rightarrow> True | Some row \<Rightarrow> lm_status row \<noteq> Active \<or> lm_expiresAt row \<le> t))
    \<and> (rl_status q = SUnknown \<longrightarrow> resp = None)"
proof (cases resp)
  case None
  then show ?thesis by (simp add: assms(2) reconcile_one_def as_local_def)
next
  case (Some rs)
  then have rs: "rs = map (listed d t s) (map sl_id (listSentLinks st))" using assms(3) by simp
  have rid: "result_id (listed d t s i) = i" for i by (auto simp: listed_def split: option.splits)
  have "map_get (byId rs) (sl_id r) = Some (listed d t s (sl_id r))"
  proof (cases "map_get (byId rs) (sl_id r)")
    case None
    then have "\<forall>x \<in> set rs. result_id x \<noteq> sl_id r" by (auto simp: byId_get find_None_iff)
    then show ?thesis using assms(1) by (auto simp: rs rid)
  next
    case (Some x)
    then have "x \<in> set rs" "result_id x = sl_id r" using byId_member by blast+
    then show ?thesis using Some by (auto simp: rs rid)
  qed
  then show ?thesis
    using Some by (auto simp: assms(2) reconcile_one_def as_local_def listed_def split: option.splits)
qed

definition demo_sent :: sent_link where
  "demo_sent = \<lparr>sl_id = ''AAAAAAAAAAAAAAAA'', sl_fingerprint = [], sl_createdAt = [], sl_expiresAt = [], sl_maxOpens = num 1,
     sl_label = None, sl_revocationToken = None, sl_reminder = None\<rparr>"

theorem links_tell_the_truth_witness:
  "rl_status (reconcile_one (\<lambda>s. Some 100) None 5 demo_sent) \<noteq> SGoneStatus"
  using links_tell_the_truth [of demo_sent "recordSentLink demo_sent None" "reconcile_one (\<lambda>s. Some 100) None 5 demo_sent"
      "\<lambda>s. Some 100" None 5]
  by (auto simp: listSentLinks_def recordSentLink_def sort_by_def locally_expired_def)

text \<open>
  A wipe never strands a live link unnoticed. Every tracked link is either revoked (already gone
  counts) or listed as a failure; the device is wiped exactly when nothing failed or the user accepted
  the list of failures, and only after all the attempts.
\<close>

theorem wipe_needs_consent:
  "case revokeAllThenWipe revoke confirm wipe ls w of (res, w') \<Rightarrow>
     revokedCount res + length (failures res) = length ls \<and>
     (wiped res \<longleftrightarrow> failures res = [] \<or> confirm (failures res)) \<and>
     (\<forall>(l, e) \<in> set (failures res). l \<in> set ls \<and> \<not> isAlreadyGone e) \<and>
     (\<exists>w1. revoke_loop revoke ls (0, [], w) = (revokedCount res, failures res, w1) \<and> w' = (if wiped res then wipe w1 else w1))"
proof -
  obtain n fs w1 where l: "revoke_loop revoke ls (0, [], w) = (n, fs, w1)"
    by (cases "revoke_loop revoke ls (0, [], w)")
  from revoke_loop_facts [OF l] l show ?thesis
    by (auto simp: revokeAllThenWipe_def)
qed

theorem wipe_needs_consent_witness:
  "case revokeAllThenWipe (\<lambda>i w. (Inl (ApiError (if i = ''a'' then 410 else 500)), w)) (\<lambda>fs. False) (\<lambda>w. w + 1)
      [\<lparr>lr_id = ''a'', lr_label = None\<rparr>, \<lparr>lr_id = ''b'', lr_label = None\<rparr>] (0 :: nat) of
     (res, w) \<Rightarrow> \<not> wiped res \<and> w = 0"
  using wipe_needs_consent [where revoke = "\<lambda>i w. (Inl (ApiError (if i = ''a'' then 410 else 500)), w)" and confirm = "\<lambda>fs. False"
      and wipe = "\<lambda>w. w + 1" and ls = "[\<lparr>lr_id = ''a'', lr_label = None\<rparr>, \<lparr>lr_id = ''b'', lr_label = None\<rparr>]" and w = "0 :: nat"]
  by (auto simp: isAlreadyGone_def)

text \<open>
  A failed revocation keeps the record and with it the token: only a revocation the server accepted, or
  a link already gone, removes a tracked link; an error leaves the store as it was.
\<close>

theorem failed_revoke_keeps_token:
  "case revokeTrackedLinkOutcome env i st of (res, st') \<Rightarrow>
     (res = ErrorResult \<longrightarrow> st' = st) \<and>
     (res = RevokedResult \<longrightarrow> getSentLink i st' = None \<and> (\<forall>j. j \<noteq> i \<longrightarrow> getSentLink j st' = getSentLink j st))"
  by (auto simp: revokeTrackedLinkOutcome_def revokeTrackedLink_def Let_def split: sum.splits)

definition offline_env :: client_env where
  "offline_env = \<lparr>BASE_URL = [], LINK_ORIGIN = [], production = False, net = (\<lambda>r. Rejected), stringify = (\<lambda>j. [])\<rparr>"

theorem failed_revoke_keeps_token_witness:
  "snd (revokeTrackedLinkOutcome offline_env ''AAAAAAAAAAAAAAAA'' (recordSentLink demo_sent None)) = recordSentLink demo_sent None"
  using failed_revoke_keeps_token [where env = offline_env and i = "''AAAAAAAAAAAAAAAA''" and st = "recordSentLink demo_sent None"]
  by (auto simp: revokeTrackedLinkOutcome_def revokeTrackedLink_def revokeLink_def requestWithTimeout_def requireBaseUrl_def
      offline_env_def isAlreadyGone_def Let_def)

end
