(* ===== verification/Metrics.thy ===== *)
theory Metrics
  imports Js_Text
begin

text \<open>
  The operator's metrics, apps/api/src/metrics/registry.ts and http-metrics.ts: a fixed catalogue of
  names and labels, a registry of series and the recording of a finished request. The catalogue's help
  texts and localeCompare, which only the rendering uses, are arguments of it.
\<close>

section \<open>The catalogue\<close>

datatype metric_type = Counter | Gauge

datatype metric_name =
    HttpRequestsTotal
  | RateLimitedTotal
  | MessagesCreatedTotal
  | MessagesOpenedTotal
  | MessagesRevokedTotal
  | DependencyErrorsTotal
  | StoreMemoryFallback
  | ActiveLinks
  | CiphertextBytes

definition METRIC_NAMES :: "metric_name list" where
  "METRIC_NAMES = [HttpRequestsTotal, RateLimitedTotal, MessagesCreatedTotal, MessagesOpenedTotal, MessagesRevokedTotal,
     DependencyErrorsTotal, StoreMemoryFallback, ActiveLinks, CiphertextBytes]"

fun metric_string :: "metric_name \<Rightarrow> string" where
  "metric_string HttpRequestsTotal = ''aesmsg_http_requests_total''"
| "metric_string RateLimitedTotal = ''aesmsg_rate_limited_total''"
| "metric_string MessagesCreatedTotal = ''aesmsg_messages_created_total''"
| "metric_string MessagesOpenedTotal = ''aesmsg_messages_opened_total''"
| "metric_string MessagesRevokedTotal = ''aesmsg_messages_revoked_total''"
| "metric_string DependencyErrorsTotal = ''aesmsg_dependency_errors_total''"
| "metric_string StoreMemoryFallback = ''aesmsg_store_memory_fallback''"
| "metric_string ActiveLinks = ''aesmsg_active_links''"
| "metric_string CiphertextBytes = ''aesmsg_ciphertext_bytes''"

definition metric_type :: "metric_name \<Rightarrow> metric_type" where
  "metric_type n = (if n \<in> {StoreMemoryFallback, ActiveLinks, CiphertextBytes} then Gauge else Counter)"

fun labelNames :: "metric_name \<Rightarrow> string list" where
  "labelNames HttpRequestsTotal = [''route'', ''status_class'']"
| "labelNames RateLimitedTotal = [''route'']"
| "labelNames DependencyErrorsTotal = [''route'']"
| "labelNames _ = []"

section \<open>Labels\<close>

type_synonym labels = "(string \<times> string) list"

text \<open>The three replacements in turn.\<close>

definition replace_char :: "char \<Rightarrow> string \<Rightarrow> string \<Rightarrow> string" where
  "replace_char c r s = concat (map (\<lambda>x. if x = c then r else [x]) s)"

definition escapeLabelValue :: "string \<Rightarrow> string" where
  "escapeLabelValue value =
     replace_char (CHR 0x0A) (CHR 0x5C # ''n'')
       (replace_char (CHR 0x22) [CHR 0x5C, CHR 0x22]
         (replace_char (CHR 0x5C) [CHR 0x5C, CHR 0x5C] value))"

fun js_join :: "string \<Rightarrow> string list \<Rightarrow> string" where
  "js_join sep [] = []"
| "js_join sep [x] = x"
| "js_join sep (x # y # xs) = x @ sep @ js_join sep (y # xs)"

text \<open>Property names are distinct; \<open>sort()\<close> orders them by code unit.\<close>

fun char_le :: "string \<Rightarrow> string \<Rightarrow> bool" where
  "char_le [] t = True"
| "char_le (a # s) [] = False"
| "char_le (a # s) (b # t) =
     ((of_char a :: nat) < of_char b \<or> (a = b \<and> char_le s t))"

definition code_order :: "string \<Rightarrow> string \<Rightarrow> int" where
  "code_order s t = (if char_le s t then 0 else 1)"

definition serializeLabels :: "labels \<Rightarrow> string" where
  "serializeLabels labels =
     (let keys = sort_by code_order (map fst labels) in
      if length keys = 0 then []
      else CHR ''{'' # js_join '','' (map (\<lambda>k. k @ [CHR ''='', CHR 0x22] @
             escapeLabelValue (case map_of labels k of None \<Rightarrow> [] | Some v \<Rightarrow> v) @ [CHR 0x22]) keys) @ ''}'')"

section \<open>The registry\<close>

record series =
  s_labels :: labels
  s_value :: int

type_synonym registry = "metric_name \<Rightarrow> (string, series) js_map option"

datatype metric_error = UnknownLabel metric_name string | NotACounter metric_name | NotAGauge metric_name

type_synonym recorded = "(metric_error + unit) \<times> registry"

definition validateLabels :: "metric_name \<Rightarrow> labels \<Rightarrow> metric_error + unit" where
  "validateLabels name labels =
     (case List.find (\<lambda>k. k \<notin> set (labelNames name)) (map fst labels) of
        Some k \<Rightarrow> Inl (UnknownLabel name k)
      | None \<Rightarrow> Inr ())"

definition increment :: "metric_name \<Rightarrow> labels \<Rightarrow> int \<Rightarrow> registry \<Rightarrow> recorded" where
  "increment name labels by R =
     (if metric_type name \<noteq> Counter then (Inl (NotACounter name), R)
      else case validateLabels name labels of
             Inl e \<Rightarrow> (Inl e, R)
           | Inr _ \<Rightarrow>
               (case R name of
                  None \<Rightarrow> (Inr (), R)
                | Some bucket \<Rightarrow>
                    let key = serializeLabels labels in
                    (case map_get bucket key of
                       Some existing \<Rightarrow> (Inr (), R(name \<mapsto> map_set key (existing\<lparr>s_value := s_value existing + by\<rparr>) bucket))
                     | None \<Rightarrow> (Inr (), R(name \<mapsto> map_set key \<lparr>s_labels = labels, s_value = by\<rparr> bucket)))))"

definition set_gauge :: "metric_name \<Rightarrow> int \<Rightarrow> labels \<Rightarrow> registry \<Rightarrow> recorded" where
  "set_gauge name val labels R =
     (if metric_type name \<noteq> Gauge then (Inl (NotAGauge name), R)
      else case validateLabels name labels of
             Inl e \<Rightarrow> (Inl e, R)
           | Inr _ \<Rightarrow>
               (case R name of
                  None \<Rightarrow> (Inr (), R)
                | Some bucket \<Rightarrow>
                    (Inr (), R(name \<mapsto> map_set (serializeLabels labels) \<lparr>s_labels = labels, s_value = val\<rparr> bucket))))"

definition get_metric :: "metric_name \<Rightarrow> labels \<Rightarrow> registry \<Rightarrow> int option" where
  "get_metric name labels R =
     (case R name of
        None \<Rightarrow> None
      | Some bucket \<Rightarrow> map_option s_value (map_get bucket (serializeLabels labels)))"

definition clearMetric :: "metric_name \<Rightarrow> registry \<Rightarrow> registry" where
  "clearMetric name R = (case R name of None \<Rightarrow> R | Some bucket \<Rightarrow> R(name \<mapsto> []))"

definition setUnlabelledZero :: "metric_name \<Rightarrow> registry \<Rightarrow> registry" where
  "setUnlabelledZero name R =
     (case R name of None \<Rightarrow> R | Some bucket \<Rightarrow> R(name \<mapsto> map_set [] \<lparr>s_labels = [], s_value = 0\<rparr> bucket))"

definition reset :: registry where
  "reset = snd (set_gauge StoreMemoryFallback 0 []
     (setUnlabelledZero MessagesRevokedTotal (setUnlabelledZero MessagesOpenedTotal (setUnlabelledZero MessagesCreatedTotal
       (fold (\<lambda>name R. R(name \<mapsto> [])) METRIC_NAMES (\<lambda>_. None))))))"

definition render_metric :: "(metric_name \<Rightarrow> string) \<Rightarrow> (string \<Rightarrow> string \<Rightarrow> int) \<Rightarrow> registry \<Rightarrow> metric_name \<Rightarrow> string list" where
  "render_metric help localeCompare R name =
     (case R name of
        None \<Rightarrow> []
      | Some bucket \<Rightarrow>
          if length bucket = 0 then []
          else (''# HELP '' @ metric_string name @ '' '' @ help name) #
               (''# TYPE '' @ metric_string name @ '' '' @ (if metric_type name = Counter then ''counter'' else ''gauge'')) #
               map (\<lambda>(labelStr, s). metric_string name @ labelStr @ '' '' @ show_int (s_value s))
                 (sort_by (\<lambda>a b. localeCompare (fst a) (fst b)) bucket))"

definition render :: "(metric_name \<Rightarrow> string) \<Rightarrow> (string \<Rightarrow> string \<Rightarrow> int) \<Rightarrow> registry \<Rightarrow> string" where
  "render help localeCompare R =
     js_join [CHR 0x0A] (concat (map (render_metric help localeCompare R) METRIC_NAMES)) @ [CHR 0x0A]"

section \<open>Recording a request\<close>

record http_event =
  ev_route :: string
  ev_method :: string
  ev_status :: nat

definition statusClass :: "nat \<Rightarrow> string" where
  "statusClass st = show_nat (st div 100) @ ''xx''"

text \<open>A throwing increment would end the hook; the result says whether one did.\<close>

definition then_increment :: "bool \<Rightarrow> metric_name \<Rightarrow> labels \<Rightarrow> recorded \<Rightarrow> recorded" where
  "then_increment cond name labels r =
     (case r of (Inl e, R) \<Rightarrow> (Inl e, R) | (Inr _, R) \<Rightarrow> if cond then increment name labels 1 R else (Inr (), R))"

fun business_metric :: "http_event \<Rightarrow> metric_name option" where
  "business_metric ev =
     (if ev_method ev = ''POST'' \<and> ev_route ev = ''/api/messages'' \<and> ev_status ev = 201 then Some MessagesCreatedTotal
      else if ev_method ev = ''POST'' \<and> ev_route ev = ''/api/messages/:id/open'' \<and> ev_status ev = 200
      then Some MessagesOpenedTotal
      else if ev_method ev = ''POST'' \<and> ev_route ev = ''/api/messages/:id/revoke'' \<and> ev_status ev = 200
      then Some MessagesRevokedTotal
      else None)"

definition route_label :: "http_event \<Rightarrow> labels" where
  "route_label ev = [(''route'', ev_route ev)]"

definition request_label :: "http_event \<Rightarrow> labels" where
  "request_label ev = [(''route'', ev_route ev), (''status_class'', statusClass (ev_status ev))]"

definition recordHttp :: "registry \<Rightarrow> http_event \<Rightarrow> recorded" where
  "recordHttp R ev =
     then_increment (business_metric ev \<noteq> None) (case business_metric ev of None \<Rightarrow> MessagesCreatedTotal | Some n \<Rightarrow> n) []
       (then_increment (500 \<le> ev_status ev) DependencyErrorsTotal (route_label ev)
         (then_increment (ev_status ev = 429) RateLimitedTotal (route_label ev)
           (increment HttpRequestsTotal (request_label ev) 1 R)))"


text \<open>
  The metrics registry counts what it is meant to count: two label values never share a series, a
  recording never throws, and each counter is the number of the requests it is about.
\<close>

section \<open>Label texts are unambiguous\<close>

definition esc_char :: "char \<Rightarrow> string" where
  "esc_char c = (if c = CHR 0x5C then [CHR 0x5C, CHR 0x5C] else if c = CHR 0x22 then [CHR 0x5C, CHR 0x22]
     else if c = CHR 0x0A then [CHR 0x5C, CHR ''n''] else [c])"

lemma escape_chars: "escapeLabelValue s = concat (map esc_char s)"
  by (induction s) (auto simp: escapeLabelValue_def replace_char_def esc_char_def)

lemma escape_simps [simp]: "escapeLabelValue [] = []" "escapeLabelValue (c # s) = esc_char c @ escapeLabelValue s"
  by (simp_all add: escape_chars)

lemma escape_inject:
  "escapeLabelValue a @ CHR 0x22 # x = escapeLabelValue b @ CHR 0x22 # y \<Longrightarrow> a = b \<and> x = y"
proof (induction a arbitrary: b)
  case Nil
  then show ?case by (cases b) (auto simp: esc_char_def split: if_splits)
next
  case (Cons c a)
  then show ?case by (cases b) (fastforce simp: esc_char_def split: if_splits)+
qed

lemma serialize_route [simp]:
  "serializeLabels [(''route'', r)] = ''{route='' @ CHR 0x22 # escapeLabelValue r @ CHR 0x22 # ''}''"
  by (simp add: serializeLabels_def sort_by_def)

lemma serialize_request [simp]:
  "serializeLabels [(''route'', r), (''status_class'', c)] =
     ''{route='' @ CHR 0x22 # escapeLabelValue r @ CHR 0x22 # '',status_class='' @ CHR 0x22 # escapeLabelValue c @ CHR 0x22 # ''}''"
  by (simp add: serializeLabels_def sort_by_def code_order_def)

lemma serialize_none [simp]: "serializeLabels [] = []"
  by (simp add: serializeLabels_def sort_by_def)

lemma serialize_route_eq: "serializeLabels [(''route'', r)] = serializeLabels [(''route'', r')] \<longleftrightarrow> r = r'"
  using escape_inject [of r "''}''" r' "''}''"] by auto

lemma serialize_request_eq:
  "serializeLabels [(''route'', r), (''status_class'', c)] = serializeLabels [(''route'', r'), (''status_class'', c')]
     \<longleftrightarrow> r = r' \<and> c = c'"
proof
  assume eq: "serializeLabels [(''route'', r), (''status_class'', c)] = serializeLabels [(''route'', r'), (''status_class'', c')]"
  then have "r = r' \<and> '',status_class='' @ CHR 0x22 # escapeLabelValue c @ CHR 0x22 # ''}'' =
      '',status_class='' @ CHR 0x22 # escapeLabelValue c' @ CHR 0x22 # ''}''"
    by (intro escape_inject) simp
  then show "r = r' \<and> c = c'" using escape_inject [of c "''}''" c' "''}''"] by auto
qed simp

section \<open>Counting\<close>

text \<open>The value of a series, zero when it was never recorded.\<close>

definition mval :: "registry \<Rightarrow> metric_name \<Rightarrow> labels \<Rightarrow> int" where
  "mval R n l = (case get_metric n l R of None \<Rightarrow> 0 | Some v \<Rightarrow> v)"

definition seeded :: "registry \<Rightarrow> bool" where
  "seeded R = (\<forall>n. R n \<noteq> None)"

lemma increment_counts:
  assumes "seeded R" "metric_type n = Counter" "validateLabels n l = Inr ()"
  obtains R' where "increment n l 1 R = (Inr (), R')" "seeded R'"
    "\<And>m k. mval R' m k = mval R m k + of_bool (m = n \<and> serializeLabels k = serializeLabels l)"
proof -
  obtain bucket where b: "R n = Some bucket" using assms(1) by (auto simp: seeded_def)
  define s where "s = (case map_get bucket (serializeLabels l) of
      Some existing \<Rightarrow> existing\<lparr>s_value := s_value existing + 1\<rparr> | None \<Rightarrow> \<lparr>s_labels = l, s_value = 1\<rparr>)"
  define R' where "R' = R(n \<mapsto> map_set (serializeLabels l) s bucket)"
  have "increment n l 1 R = (Inr (), R')"
    using assms(2,3) b by (simp add: increment_def R'_def s_def Let_def split: option.splits)
  moreover have "seeded R'" using assms(1) by (simp add: seeded_def R'_def)
  moreover have "mval R' m k = mval R m k + of_bool (m = n \<and> serializeLabels k = serializeLabels l)" for m k
    using b by (auto simp: mval_def get_metric_def R'_def s_def split: option.splits)
  ultimately show ?thesis using that by blast
qed

definition bumps :: "http_event \<Rightarrow> metric_name \<Rightarrow> string \<Rightarrow> bool" where
  "bumps ev n key =
     (n = HttpRequestsTotal \<and> key = serializeLabels (request_label ev) \<or>
      n = RateLimitedTotal \<and> ev_status ev = 429 \<and> key = serializeLabels (route_label ev) \<or>
      n = DependencyErrorsTotal \<and> 500 \<le> ev_status ev \<and> key = serializeLabels (route_label ev) \<or>
      business_metric ev = Some n \<and> key = [])"

lemma then_increment_counts:
  assumes "seeded R" "metric_type n = Counter" "validateLabels n l = Inr ()"
  obtains R' where "then_increment c n l (Inr (), R) = (Inr (), R')" "seeded R'"
    "\<And>m k. mval R' m k = mval R m k + of_bool (c \<and> m = n \<and> serializeLabels k = serializeLabels l)"
proof (cases c)
  case True
  from increment_counts [OF assms] show ?thesis using that True by (auto simp: then_increment_def)
next
  case False
  then show ?thesis using that [of R] assms(1) by (simp add: then_increment_def)
qed

lemma business_cases: "business_metric ev = Some n \<Longrightarrow> n \<in> {MessagesCreatedTotal, MessagesOpenedTotal, MessagesRevokedTotal}"
  by (auto split: if_splits)

declare business_metric.simps [simp del]

lemma valid_labels [simp]:
  "validateLabels HttpRequestsTotal (request_label ev) = Inr ()"
  "validateLabels RateLimitedTotal (route_label ev) = Inr ()"
  "validateLabels DependencyErrorsTotal (route_label ev) = Inr ()"
  "validateLabels n [] = Inr ()"
  by (simp_all add: validateLabels_def request_label_def route_label_def)

lemma record_counts:
  assumes "seeded R"
  obtains R' where "recordHttp R ev = (Inr (), R')" "seeded R'"
    "\<And>m k. mval R' m k = mval R m k + of_bool (bumps ev m (serializeLabels k))"
proof -
  obtain R1 where 1: "increment HttpRequestsTotal (request_label ev) 1 R = (Inr (), R1)" "seeded R1"
    "\<And>m k. mval R1 m k = mval R m k + of_bool (m = HttpRequestsTotal \<and> serializeLabels k = serializeLabels (request_label ev))"
    by (rule increment_counts [OF assms, of HttpRequestsTotal "request_label ev"]) (auto simp: metric_type_def)
  obtain R2 where 2: "then_increment (ev_status ev = 429) RateLimitedTotal (route_label ev) (Inr (), R1) = (Inr (), R2)"
    "seeded R2" "\<And>m k. mval R2 m k = mval R1 m k +
       of_bool (ev_status ev = 429 \<and> m = RateLimitedTotal \<and> serializeLabels k = serializeLabels (route_label ev))"
    by (rule then_increment_counts [OF 1(2), of RateLimitedTotal "route_label ev" "ev_status ev = 429"]) (auto simp: metric_type_def)
  obtain R3 where 3: "then_increment (500 \<le> ev_status ev) DependencyErrorsTotal (route_label ev) (Inr (), R2) = (Inr (), R3)"
    "seeded R3" "\<And>m k. mval R3 m k = mval R2 m k +
       of_bool (500 \<le> ev_status ev \<and> m = DependencyErrorsTotal \<and> serializeLabels k = serializeLabels (route_label ev))"
    by (rule then_increment_counts [OF 2(2), of DependencyErrorsTotal "route_label ev" "500 \<le> ev_status ev"])
      (auto simp: metric_type_def)
  let ?b = "case business_metric ev of None \<Rightarrow> MessagesCreatedTotal | Some n \<Rightarrow> n"
  have "metric_type ?b = Counter"
    by (cases "business_metric ev") (auto simp: metric_type_def dest: business_cases)
  then obtain R4 where 4: "then_increment (business_metric ev \<noteq> None) ?b [] (Inr (), R3) = (Inr (), R4)" "seeded R4"
    "\<And>m k. mval R4 m k = mval R3 m k + of_bool (business_metric ev \<noteq> None \<and> m = ?b \<and> serializeLabels k = serializeLabels [])"
    by (rule then_increment_counts [OF 3(2), of ?b "[]" "business_metric ev \<noteq> None"]) auto
  have "recordHttp R ev = (Inr (), R4)" by (simp only: recordHttp_def 1(1) 2(1) 3(1) 4(1))
  moreover have "mval R4 m k = mval R m k + of_bool (bumps ev m (serializeLabels k))" for m k
    unfolding 4(3) 3(3) 2(3) 1(3)
    by (cases "business_metric ev") (auto simp: bumps_def dest: business_cases)
  ultimately show ?thesis using that 4(2) by blast
qed

text \<open>A day's requests, recorded one after the other.\<close>

primrec record_all :: "http_event list \<Rightarrow> registry \<Rightarrow> recorded" where
  "record_all [] R = (Inr (), R)"
| "record_all (ev # evs) R = (case recordHttp R ev of (Inl e, R') \<Rightarrow> (Inl e, R') | (Inr _, R') \<Rightarrow> record_all evs R')"

lemma record_all_counts:
  assumes "seeded R"
  shows "\<exists>R'. record_all evs R = (Inr (), R') \<and>
    (\<forall>m k. mval R' m k = mval R m k + int (length (filter (\<lambda>ev. bumps ev m (serializeLabels k)) evs)))"
  using assms
proof (induction evs arbitrary: R)
  case (Cons ev evs)
  obtain R' where r: "recordHttp R ev = (Inr (), R')" "seeded R'"
    "\<And>m k. mval R' m k = mval R m k + of_bool (bumps ev m (serializeLabels k))"
    using record_counts [OF Cons.prems, of ev] by blast
  obtain S where "record_all evs R' = (Inr (), S)"
    "\<forall>m k. mval S m k = mval R' m k + int (length (filter (\<lambda>ev. bumps ev m (serializeLabels k)) evs))"
    using Cons.IH [OF r(2)] by blast
  then show ?case using r by auto
qed simp

lemma reset_facts: "seeded reset" "mval reset n l = 0"
proof -
  have r: "reset = (\<lambda>n. Some (if n \<in> {MessagesCreatedTotal, MessagesOpenedTotal, MessagesRevokedTotal, StoreMemoryFallback}
      then [([], \<lparr>s_labels = [], s_value = 0\<rparr>)] else []))"
    by (rule ext, case_tac n) (simp_all add: reset_def setUnlabelledZero_def METRIC_NAMES_def set_gauge_def metric_type_def)
  show "seeded reset" "mval reset n l = 0"
    by (auto simp: r seeded_def mval_def get_metric_def split: if_splits)
qed

section \<open>Properties\<close>

text \<open>
  The counters count. Recording any requests in a fresh registry never throws; afterwards the request
  counter of a route and a status class, the rate-limit and the dependency-error counter of a route and
  the counters of created, opened and revoked messages are the numbers of those requests.
\<close>

theorem metrics_count:
  "fst (record_all evs reset) = Inr () \<and>
   mval (snd (record_all evs reset)) HttpRequestsTotal [(''route'', r), (''status_class'', c)] =
     int (length (filter (\<lambda>ev. ev_route ev = r \<and> statusClass (ev_status ev) = c) evs)) \<and>
   mval (snd (record_all evs reset)) RateLimitedTotal [(''route'', r)] =
     int (length (filter (\<lambda>ev. ev_route ev = r \<and> ev_status ev = 429) evs)) \<and>
   mval (snd (record_all evs reset)) DependencyErrorsTotal [(''route'', r)] =
     int (length (filter (\<lambda>ev. ev_route ev = r \<and> 500 \<le> ev_status ev) evs)) \<and>
   mval (snd (record_all evs reset)) MessagesOpenedTotal [] =
     int (length (filter (\<lambda>ev. ev_method ev = ''POST'' \<and> ev_route ev = ''/api/messages/:id/open'' \<and> ev_status ev = 200) evs))"
proof -
  obtain R where R: "record_all evs reset = (Inr (), R)"
    and count: "\<And>m k. mval R m k = int (length (filter (\<lambda>ev. bumps ev m (serializeLabels k)) evs))"
    using record_all_counts [OF reset_facts(1), of evs] reset_facts(2) by auto
  have b: "bumps ev HttpRequestsTotal (serializeLabels [(''route'', r), (''status_class'', c)]) =
      (ev_route ev = r \<and> statusClass (ev_status ev) = c)"
    "bumps ev RateLimitedTotal (serializeLabels [(''route'', r)]) = (ev_route ev = r \<and> ev_status ev = 429)"
    "bumps ev DependencyErrorsTotal (serializeLabels [(''route'', r)]) = (ev_route ev = r \<and> 500 \<le> ev_status ev)"
    "bumps ev MessagesOpenedTotal (serializeLabels []) =
      (ev_method ev = ''POST'' \<and> ev_route ev = ''/api/messages/:id/open'' \<and> ev_status ev = 200)" for ev
    using serialize_request_eq [of r c] serialize_route_eq [of r] business_cases [of ev]
    unfolding bumps_def request_label_def route_label_def
    by (auto simp del: serialize_request serialize_route) (auto simp: business_metric.simps split: if_splits)
  show ?thesis by (simp only: R fst_conv snd_conv count b simp_thms)
qed

text \<open>
  A label value cannot forge another series: whatever quotes, backslashes and line breaks two routes
  contain, their series have different names unless the routes are the same.
\<close>

theorem series_names_distinct:
  "serializeLabels (request_label ev) = serializeLabels (request_label ev') \<longleftrightarrow>
   ev_route ev = ev_route ev' \<and> statusClass (ev_status ev) = statusClass (ev_status ev')"
  unfolding request_label_def by (rule serialize_request_eq)

end
