(* ===== verification/Server_Shell.thy ===== *)
theory Server_Shell
  imports Api_Laws Metrics Utf8_Codec
begin

text \<open>
  The server around the handlers (apps/api/src): the configuration that is checked at boot, the choice
  of stores, the adapter between Fastify and the handlers, the routes, the error handler, the metrics
  endpoint and the hook that records every response. Fastify's routing and the CORS plugin are the
  libraries': what they make of a request is an argument, with the replies they give by themselves. A
  body over the limit is answered by the error handler.
\<close>

section \<open>Configuration\<close>

type_synonym env_bag = "string \<Rightarrow> string option"

definition ascii_lower :: "string \<Rightarrow> string" where
  "ascii_lower s = map (\<lambda>c. if (of_char c :: nat) \<in> {65..90} then char_of ((of_char c :: nat) + 32) else c) s"

definition is_digit :: "char \<Rightarrow> bool" where
  "is_digit c = ((of_char c :: nat) \<in> {48..57})"

definition parseInt10 :: "string \<Rightarrow> nat" where
  "parseInt10 s = foldl (\<lambda>a c. 10 * a + digit_val c) 0 s"

datatype trust_proxy = TrustBool bool | TrustHops nat | TrustList string

definition resolveTrustProxy :: "string option \<Rightarrow> trust_proxy" where
  "resolveTrustProxy raw =
     (case map_option js_trim raw of
        None \<Rightarrow> TrustBool False
      | Some val \<Rightarrow>
          if val = [] \<or> ascii_lower val = ''false'' then TrustBool False
          else if ascii_lower val = ''true'' then TrustBool True
          else if list_all is_digit val then TrustHops (parseInt10 val)
          else TrustList val)"

definition utf8_length :: "string \<Rightarrow> nat" where
  "utf8_length s = length (TextEncoder (text_of_string s))"

definition MIN_SALT_BYTES :: nat where "MIN_SALT_BYTES = 32"

text \<open>\<open>hmac\<close> is HMAC-SHA256 in hex; None: the salt is refused.\<close>

definition hashIpWith :: "(string \<Rightarrow> string \<Rightarrow> string) \<Rightarrow> string \<Rightarrow> string \<Rightarrow> bool \<Rightarrow> string option" where
  "hashIpWith hmac ip salt production =
     (if production \<and> utf8_length salt < MIN_SALT_BYTES then None else Some (hmac salt ip))"

definition falsy :: "string option \<Rightarrow> bool" where
  "falsy v = (v = None \<or> v = Some [])"

definition salt_message :: string where
  "salt_message = ''RATE_LIMIT_IP_SALT must be set to at least 32 bytes in production (refusing to hash client IPs with a weak/empty salt)''"

definition saltConfigError :: "string option \<Rightarrow> bool \<Rightarrow> string option" where
  "saltConfigError salt production =
     (if \<not> production then None
      else if falsy salt \<or> utf8_length (the salt) < MIN_SALT_BYTES then Some salt_message
      else None)"

definition is_production :: "env_bag \<Rightarrow> bool" where
  "is_production env = (env ''NODE_ENV'' = Some ''production'')"

definition hashIp :: "(string \<Rightarrow> string \<Rightarrow> string) \<Rightarrow> env_bag \<Rightarrow> string \<Rightarrow> string option" where
  "hashIp hmac env ip =
     hashIpWith hmac ip (case env ''RATE_LIMIT_IP_SALT'' of None \<Rightarrow> [] | Some s \<Rightarrow> s) (is_production env)"

definition shouldUseDbStores :: "env_bag \<Rightarrow> bool" where
  "shouldUseDbStores env = (\<not> falsy (env ''DATABASE_URL'') \<and> \<not> falsy (env ''REDIS_URL''))"

definition missingProductionStoreVars :: "env_bag \<Rightarrow> string list" where
  "missingProductionStoreVars env =
     (if env ''NODE_ENV'' \<noteq> Some ''production'' then []
      else (if falsy (env ''DATABASE_URL'') then [''DATABASE_URL''] else []) @
           (if falsy (env ''REDIS_URL'') then [''REDIS_URL''] else []))"

text \<open>What the boot guard does: Some is the line it logs before it exits with code 1.\<close>

definition assertProductionConfig :: "env_bag \<Rightarrow> string option" where
  "assertProductionConfig env =
     (let missing = missingProductionStoreVars env in
      if length missing > 0
      then Some (''[aesmsg-api] refusing to boot: NODE_ENV=production requires '' @ js_join '' and '' missing @
             '' to be set (Postgres + Redis). Without '' @ (if length missing > 1 then ''them'' else ''it'') @
             '' the API would silently run on in-memory stores and lose every link on restart. '' @
             ''Set the missing variable(s), or unset NODE_ENV=production to use in-memory stores in dev.'')
      else case saltConfigError (env ''RATE_LIMIT_IP_SALT'') (is_production env) of
             None \<Rightarrow> None
           | Some e \<Rightarrow> Some (''[aesmsg-api] refusing to boot: '' @ e))"

datatype backend = PostgresAndRedis | InMemory

definition buildStores :: "env_bag \<Rightarrow> registry \<Rightarrow> backend \<times> registry" where
  "buildStores env R =
     (if shouldUseDbStores env then (PostgresAndRedis, snd (set_gauge StoreMemoryFallback 0 [] R))
      else (InMemory, snd (set_gauge StoreMemoryFallback 1 [] R)))"

section \<open>The adapter\<close>

datatype header_value = HOne string | HMany "string list"

record fastify_request =
  fq_method :: string
  fq_headers :: "(string \<times> header_value option) list"
  fq_ip :: string
  fq_body :: "string option"

text \<open>The Headers class: names in lower case, values stripped, repeated ones joined when read.\<close>

type_synonym web_headers = "(string \<times> string) list"

definition http_space :: "char \<Rightarrow> bool" where
  "http_space c = ((of_char c :: nat) \<in> {9, 10, 13, 32})"

definition http_strip :: "string \<Rightarrow> string" where
  "http_strip s = rev (dropWhile http_space (rev (dropWhile http_space s)))"

definition headers_append :: "string \<Rightarrow> string \<Rightarrow> web_headers \<Rightarrow> web_headers" where
  "headers_append k v h = h @ [(ascii_lower k, http_strip v)]"

definition headers_set :: "string \<Rightarrow> string \<Rightarrow> web_headers \<Rightarrow> web_headers" where
  "headers_set k v h =
     takeWhile (\<lambda>p. fst p \<noteq> ascii_lower k) h @ [(ascii_lower k, http_strip v)] @
     filter (\<lambda>p. fst p \<noteq> ascii_lower k) (dropWhile (\<lambda>p. fst p \<noteq> ascii_lower k) h)"

definition headers_get :: "string \<Rightarrow> web_headers \<Rightarrow> string option" where
  "headers_get k h =
     (let vs = map snd (filter (\<lambda>p. fst p = ascii_lower k) h) in if vs = [] then None else Some (js_join '', '' vs))"

definition CLIENT_IP_HEADER :: string where "CLIENT_IP_HEADER = ''x-aesmsg-client-ip''"
definition TOKEN_HEADER :: string where "TOKEN_HEADER = ''x-aesmsg-revocation-token''"

definition SKIP :: "string list" where
  "SKIP = [''host'', ''content-length'', ''connection'', ''transfer-encoding'', CLIENT_IP_HEADER]"

definition copy_header :: "string \<times> header_value option \<Rightarrow> web_headers \<Rightarrow> web_headers" where
  "copy_header kv h =
     (case kv of (key, v) \<Rightarrow>
        if ascii_lower key \<in> set SKIP then h
        else case v of
               None \<Rightarrow> h
             | Some (HOne s) \<Rightarrow> headers_append key s h
             | Some (HMany ss) \<Rightarrow> fold (headers_append key) ss h)"

definition build_headers :: "fastify_request \<Rightarrow> web_headers" where
  "build_headers req =
     headers_set CLIENT_IP_HEADER (if fq_ip req = [] then ''unknown'' else fq_ip req)
       (fold copy_header (fq_headers req) [])"

definition ascii_upper :: "string \<Rightarrow> string" where
  "ascii_upper s = map (\<lambda>c. if (of_char c :: nat) \<in> {97..122} then char_of ((of_char c :: nat) - 32) else c) s"

text \<open>What a handler reads of the Request that runHandler builds.\<close>

definition web_request :: "fastify_request \<Rightarrow> request" where
  "web_request req =
     (let method = ascii_upper (fq_method req);
          hasBody = (method \<noteq> ''GET'' \<and> method \<noteq> ''HEAD'');
          headers = build_headers req
      in \<lparr>client_ip = headers_get CLIENT_IP_HEADER headers,
          raw_body = (if hasBody then (case fq_body req of None \<Rightarrow> [] | Some b \<Rightarrow> b) else []),
          token_header = headers_get TOKEN_HEADER headers\<rparr>)"

section \<open>Routes and errors\<close>

datatype route = RHealth | RMetrics | RCreate | RList | RGet string | ROpen string | RRevoke string

fun template :: "route \<Rightarrow> string" where
  "template RHealth = ''/api/health''"
| "template RMetrics = ''/metrics''"
| "template RCreate = ''/api/messages''"
| "template RList = ''/api/messages/list''"
| "template (RGet i) = ''/api/messages/:id''"
| "template (ROpen i) = ''/api/messages/:id/open''"
| "template (RRevoke i) = ''/api/messages/:id/revoke''"

definition NO_BODY_ROUTE_BYTES :: nat where "NO_BODY_ROUTE_BYTES = 1024"
definition SERVER_MAX_BODY_BYTES :: nat where "SERVER_MAX_BODY_BYTES = 38 * 1024 * 1024"

definition bodyLimit :: "route \<Rightarrow> nat" where
  "bodyLimit r = (case r of ROpen i \<Rightarrow> NO_BODY_ROUTE_BYTES | RRevoke i \<Rightarrow> NO_BODY_ROUTE_BYTES | _ \<Rightarrow> SERVER_MAX_BODY_BYTES)"

datatype reply_body = JsonBody json | TextBody string

record http_reply =
  rp_status :: nat
  rp_body :: reply_body

definition json_reply :: "response \<Rightarrow> http_reply" where
  "json_reply r = \<lparr>rp_status = status_code r, rp_body = JsonBody (resp_body r)\<rparr>"

text \<open>setErrorHandler, on the status the thrown error carries; setNotFoundHandler.\<close>

definition errorHandler :: "nat option \<Rightarrow> http_reply" where
  "errorHandler st =
     (case st of
        Some s \<Rightarrow> if 400 \<le> s \<and> s < 500 then json_reply (jsonError s ''bad_request'') else json_reply (jsonError 500 ''internal_error'')
      | None \<Rightarrow> json_reply (jsonError 500 ''internal_error''))"

definition notFoundHandler :: http_reply where
  "notFoundHandler = json_reply (jsonError 404 ''not_found'')"

definition corsOrigin :: "string \<Rightarrow> string option \<Rightarrow> bool" where
  "corsOrigin webappOrigin origin = (falsy origin \<or> origin = Some webappOrigin)"

section \<open>The metrics endpoint\<close>

definition tokenMatches :: "string \<Rightarrow> string \<Rightarrow> bool" where
  "tokenMatches configured given =
     (let a = TextEncoder (text_of_string configured); b = TextEncoder (text_of_string given)
      in if length a \<noteq> length b then False else a = b)"

definition extractBearer :: "header_value option \<Rightarrow> string option" where
  "extractBearer h =
     (case h of
        Some (HOne s) \<Rightarrow>
          if take 7 s = ''Bearer '' \<and> drop 7 s \<noteq> [] \<and> CHR 0x0A \<notin> set (drop 7 s) \<and> CHR 0x0D \<notin> set (drop 7 s)
          then Some (drop 7 s) else None
      | _ \<Rightarrow> None)"

record storage_stats =
  activeLinks :: nat
  ciphertextBytes :: nat

text \<open>The effect of a permitted scrape; \<open>stats = None\<close> is a store that is down.\<close>

definition scrape :: "storage_stats option \<Rightarrow> registry \<Rightarrow> registry" where
  "scrape stats R =
     (let R0 = clearMetric CiphertextBytes (clearMetric ActiveLinks R) in
      case stats of
        None \<Rightarrow> R0
      | Some st \<Rightarrow> snd (set_gauge CiphertextBytes (int (ciphertextBytes st)) [] (snd (set_gauge ActiveLinks (int (activeLinks st)) [] R0))))"

definition metricsRoute :: "string option \<Rightarrow> header_value option \<Rightarrow> storage_stats option \<Rightarrow> (registry \<Rightarrow> string) \<Rightarrow> registry
    \<Rightarrow> http_reply \<times> registry" where
  "metricsRoute token authorization stats rend R =
     (if falsy token then (json_reply (jsonError 404 ''not_found''), R)
      else case extractBearer authorization of
             None \<Rightarrow> (json_reply (jsonError 401 ''unauthorized''), R)
           | Some p \<Rightarrow>
               if \<not> tokenMatches (the token) p then (json_reply (jsonError 401 ''unauthorized''), R)
               else (let R' = scrape stats R in (\<lparr>rp_status = 200, rp_body = TextBody (rend R')\<rparr>, R')))"

section \<open>Serving a request\<close>

record ('s, 'r) shell =
  sh_deps :: "('s, 'r) deps"
  sh_token :: "string option"
  sh_stats :: "'s \<Rightarrow> storage_stats option"
  sh_render :: "registry \<Rightarrow> string"

definition reply_of :: "('s, 'r) handled \<Rightarrow> http_reply \<times> ('s, 'r) server" where
  "reply_of h = (case h of (Inl e, sv) \<Rightarrow> (errorHandler None, sv) | (Inr r, sv) \<Rightarrow> (json_reply r, sv))"

definition run_route :: "('s, 'r) shell \<Rightarrow> int \<Rightarrow> string \<Rightarrow> route \<Rightarrow> fastify_request \<Rightarrow> ('s, 'r) server \<times> registry
    \<Rightarrow> http_reply \<times> ('s, 'r) server \<times> registry" where
  "run_route sh now minted r req st =
     (let d = sh_deps sh; w = web_request req; sv = fst st; R = snd st;
          on = (\<lambda>h. case reply_of h of (rep, sv') \<Rightarrow> (rep, sv', R))
      in case r of
           RHealth \<Rightarrow> (\<lparr>rp_status = 200, rp_body = JsonBody (JObj [(''status'', JStr ''ok'')])\<rparr>, sv, R)
         | RMetrics \<Rightarrow> (case metricsRoute (sh_token sh)
                (case map_of (fq_headers req) ''authorization'' of None \<Rightarrow> None | Some v \<Rightarrow> v)
                (sh_stats sh (store sv)) (sh_render sh) R of (rep, R') \<Rightarrow> (rep, sv, R'))
         | RCreate \<Rightarrow> on (create_message d now minted w sv)
         | RList \<Rightarrow> on (list_messages d now w sv)
         | RGet i \<Rightarrow> on (get_message d now i w sv)
         | ROpen i \<Rightarrow> on (open_message d now i w sv)
         | RRevoke i \<Rightarrow> on (revoke_message d now i w sv))"

text \<open>
  How a request comes out of Fastify and its CORS plugin. Both are libraries: what they answer
  themselves is data of the model. A URL that Fastify cannot decode gets the library's reply, without
  the hooks; an OPTIONS request ends in the plugin's route, with a reply of the plugin or, for an origin
  that \<open>corsOrigin\<close> refuses, with a call of the not-found handler; an error that Fastify raises before
  a handler carries a status; everything else is routed.
\<close>

datatype arrival =
    Bad_Url http_reply
  | Cors_Route string "http_reply option"
  | Raised string "nat option"
  | Routed "route option"

definition library_reply :: "arrival \<Rightarrow> http_reply option" where
  "library_reply a = (case a of Bad_Url rep \<Rightarrow> Some rep | Cors_Route t rep \<Rightarrow> rep | _ \<Rightarrow> None)"

definition onResponse :: "string \<Rightarrow> fastify_request \<Rightarrow> http_reply \<Rightarrow> registry \<Rightarrow> registry" where
  "onResponse rt req rep R =
     snd (recordHttp R \<lparr>ev_route = rt, ev_method = fq_method req, ev_status = rp_status rep\<rparr>)"

text \<open>One request: routing, body limit, handler, and the onResponse hook.\<close>

definition serve :: "('s, 'r) shell \<Rightarrow> int \<Rightarrow> string \<Rightarrow> arrival \<Rightarrow> fastify_request \<Rightarrow> ('s, 'r) server \<times> registry
    \<Rightarrow> http_reply \<times> ('s, 'r) server \<times> registry" where
  "serve sh now minted arr req st =
     (case arr of
        Bad_Url rep \<Rightarrow> (rep, st)
      | Cors_Route t answer \<Rightarrow>
          (let rep = (case answer of None \<Rightarrow> notFoundHandler | Some rep \<Rightarrow> rep)
           in (rep, fst st, onResponse t req rep (snd st)))
      | Raised t status \<Rightarrow>
          (let rep = errorHandler status in (rep, fst st, onResponse t req rep (snd st)))
      | Routed matched \<Rightarrow>
          (let (rep, sv, R) =
             (case matched of
                None \<Rightarrow> (notFoundHandler, st)
              | Some r \<Rightarrow>
                  if (case fq_body req of None \<Rightarrow> 0 | Some b \<Rightarrow> utf8_length b) > bodyLimit r
                  then (errorHandler (Some 413), st)
                  else run_route sh now minted r req st)
           in (rep, sv, onResponse (case matched of None \<Rightarrow> ''unmatched'' | Some r \<Rightarrow> template r) req rep R)))"

end
