(* ===== verification/Server_Properties.thy ===== *)
theory Server_Properties
  imports Server_Shell
begin

text \<open>
  Properties of the server around the handlers: opaque refusals, a client identity that cannot be forged,
  a boot guard that rules the memory stores out, and a gated metrics endpoint.
\<close>

section \<open>Refusals\<close>

definition error_codes :: "string list" where
  "error_codes = [''bad_request'', ''rate_limited'', ''id_conflict'', ''internal_error'', ''not_found'',
     ''no_longer_available'', ''unauthorized'']"

definition opaque :: "http_reply \<Rightarrow> bool" where
  "opaque rep = (400 \<le> rp_status rep \<longrightarrow> (\<exists>code \<in> set error_codes. rp_body rep = JsonBody (JObj [(''error'', JStr code)])))"

definition handled_opaque :: "('s, 'r) handled \<Rightarrow> bool" where
  "handled_opaque h = (case fst h of Inl e \<Rightarrow> True | Inr r \<Rightarrow> opaque (json_reply r))"

lemma opaque_codes [simp]:
  "opaque (json_reply (jsonError c ''bad_request''))" "opaque (json_reply (jsonError c ''rate_limited''))"
  "opaque (json_reply (jsonError c ''id_conflict''))" "opaque (json_reply (jsonError c ''internal_error''))"
  "opaque (json_reply (jsonError c ''not_found''))" "opaque (json_reply (jsonError c ''no_longer_available''))"
  "opaque (json_reply (jsonError c ''unauthorized''))" "opaque (json_reply (ok200 b))" "opaque (json_reply (jsonOk b))"
  by (simp_all add: opaque_def json_reply_def jsonError_def ok200_def jsonOk_def error_codes_def)

lemma opaque_named [simp]: "opaque (json_reply bad_request)" "opaque (json_reply gone_response)"
  "opaque (json_reply (open_response env b row))" "opaque (errorHandler st)" "opaque notFoundHandler"
  by (auto simp: bad_request_def gone_response_def open_response_def errorHandler_def notFoundHandler_def split: option.splits)

lemma handled_opaque_simps [simp]:
  "handled_opaque (Inl e, sv)" "handled_opaque (Inr r, sv) = opaque (json_reply r)"
  by (simp_all add: handled_opaque_def)

lemma limit_opaque: "(\<And>sv'. handled_opaque (k sv')) \<Longrightarrow> handled_opaque (with_limit d now p l req sv k)"
  by (auto simp: with_limit_def split: prod.splits sum.splits)

lemma create_opaque: "handled_opaque (create_message d now token req sv)"
  unfolding create_message_def
  by (rule limit_opaque) (simp split: option.split prod.split sum.split)

lemma get_opaque: "handled_opaque (get_message d now i req sv)"
  unfolding get_message_def
  by (simp, intro impI limit_opaque, simp split: option.split)

lemma open_opaque: "handled_opaque (open_message d now i req sv)"
  unfolding open_message_def
  by (simp, intro impI limit_opaque, simp add: Let_def split: option.split prod.split)

lemma list_opaque: "handled_opaque (list_messages d now req sv)"
  unfolding list_messages_def
  by (rule limit_opaque) (simp split: option.split)

lemma revoke_opaque: "handled_opaque (revoke_message d now i req sv)"
  unfolding revoke_message_def
  by (simp, intro impI limit_opaque, simp add: Let_def)

lemmas handlers_opaque = create_opaque get_opaque open_opaque list_opaque revoke_opaque

lemma reply_of_opaque: "handled_opaque h \<Longrightarrow> opaque (fst (reply_of h))"
  by (auto simp: reply_of_def handled_opaque_def split: prod.splits sum.splits)

lemma metrics_opaque: "opaque (fst (metricsRoute token h stats rend R))"
  by (auto simp: metricsRoute_def Let_def opaque_def [of "\<lparr>rp_status = 200, rp_body = b\<rparr>" for b] split: option.splits)

lemma opaque_200 [simp]: "opaque \<lparr>rp_status = 200, rp_body = b\<rparr>"
  by (simp add: opaque_def)

lemma run_route_opaque: "opaque (fst (run_route sh now minted r req st))"
proof -
  have on: "fst (case reply_of h of (rep, sv') \<Rightarrow> (rep, sv', R)) = fst (reply_of h)" for h and R :: registry
    by (simp add: case_prod_beta)
  have me: "fst (case p of (rep, R') \<Rightarrow> (rep, sv, R')) = fst p" for p :: "http_reply \<times> registry" and sv
    by (simp add: case_prod_beta)
  show ?thesis
    by (cases r) (simp_all only: run_route_def Let_def route.case on me fst_conv opaque_200 metrics_opaque
        reply_of_opaque [OF create_opaque] reply_of_opaque [OF get_opaque] reply_of_opaque [OF open_opaque]
        reply_of_opaque [OF list_opaque] reply_of_opaque [OF revoke_opaque])
qed

lemma serve_opaque:
  assumes "library_reply arr = None"
  shows "opaque (fst (serve sh now minted arr req st))"
proof (cases arr)
  case (Routed matched)
  have "fst (serve sh now minted arr req st) =
    (case matched of
       None \<Rightarrow> notFoundHandler
     | Some r \<Rightarrow> if (case fq_body req of None \<Rightarrow> 0 | Some b \<Rightarrow> utf8_length b) > bodyLimit r then errorHandler (Some 413)
                 else fst (run_route sh now minted r req st))"
    by (simp add: Routed serve_def Let_def case_prod_beta split: option.split)
  then show ?thesis by (simp add: run_route_opaque split: option.split)
qed (use assms in \<open>auto simp: serve_def library_reply_def Let_def\<close>)

text \<open>
  C9: a refusal of the program says nothing but its code. Whatever the request, the store, the limiter
  and the errors they or Fastify raise, a response with a status of 400 or more has the body
  {error: code} with one of seven codes, and no message of an inner error reaches a client, unless the
  CORS plugin or Fastify's URL decoder answered by itself (an OPTIONS request that is no valid
  preflight, a URL that does not decode), whose replies are passed on as they are.
\<close>

theorem refusals_opaque:
  "(library_reply arr = None \<longrightarrow> 400 \<le> rp_status (fst (serve sh now minted arr req st)) \<longrightarrow>
     (\<exists>code \<in> set error_codes. rp_body (fst (serve sh now minted arr req st)) = JsonBody (JObj [(''error'', JStr code)]))) \<and>
   (\<forall>rep. library_reply arr = Some rep \<longrightarrow> fst (serve sh now minted arr req st) = rep)"
proof -
  have "fst (serve sh now minted arr req st) = rep" if "library_reply arr = Some rep" for rep
    using that by (cases arr) (simp_all add: serve_def library_reply_def Let_def)
  then show ?thesis using serve_opaque [of arr sh now minted req st] by (auto simp: opaque_def)
qed

theorem refusals_opaque_witness:
  "\<exists>code \<in> set error_codes. rp_body (fst (serve
     \<lparr>sh_deps = \<lparr>d_links = undefined, d_rate = undefined, d_env = undefined\<rparr>, sh_token = None, sh_stats = \<lambda>s. None, sh_render = \<lambda>R. []\<rparr>
     5 ''t'' (Routed (Some RMetrics)) \<lparr>fq_method = ''GET'', fq_headers = [], fq_ip = [], fq_body = None\<rparr>
     (\<lparr>store = (), limiter = ()\<rparr>, reset))) = JsonBody (JObj [(''error'', JStr code)])"
  by (rule refusals_opaque [THEN conjunct1, THEN mp, THEN mp])
    (simp_all add: library_reply_def serve_def run_route_def metricsRoute_def falsy_def json_reply_def bodyLimit_def Let_def)

text \<open>A reply of the CORS plugin with a text body: the exception above is taken.\<close>

theorem preflight_not_opaque:
  "rp_body (fst (serve sh now minted (Cors_Route ''*'' (Some \<lparr>rp_status = 400, rp_body = TextBody t\<rparr>)) req st)) = TextBody t"
  by (simp add: serve_def Let_def)

section \<open>The client's identity\<close>

lemma fold_copy_filter:
  "fold copy_header hs h = fold copy_header (filter (\<lambda>kv. ascii_lower (fst kv) \<noteq> CLIENT_IP_HEADER) hs) h"
  by (induction hs arbitrary: h) (auto simp: copy_header_def SKIP_def)

lemma filter_takeWhile_not: "filter P (takeWhile (\<lambda>x. \<not> P x) xs) = []"
  by (induction xs) auto

lemma headers_get_set: "headers_get k (headers_set k v h) = Some (http_strip v)"
  using filter_takeWhile_not [of "\<lambda>p. fst p = ascii_lower k" h]
  by (simp add: headers_get_def headers_set_def Let_def conj_commute)

lemma client_ip_stamped: "client_ip (web_request req) = Some (http_strip (if fq_ip req = [] then ''unknown'' else fq_ip req))"
  by (simp only: web_request_def build_headers_def Let_def headers_get_set request.simps)

definition forget_ip :: "fastify_request \<Rightarrow> fastify_request" where
  "forget_ip req = req\<lparr>fq_headers := filter (\<lambda>kv. ascii_lower (fst kv) \<noteq> CLIENT_IP_HEADER) (fq_headers req)\<rparr>"

lemma web_request_forget: "web_request (forget_ip req) = web_request req"
  by (simp add: web_request_def build_headers_def forget_ip_def Let_def fold_copy_filter [symmetric])

lemma authorization_forget: "map_of (fq_headers (forget_ip req)) ''authorization'' = map_of (fq_headers req) ''authorization''"
proof -
  have "map_of (filter (\<lambda>kv. ascii_lower (fst kv) \<noteq> CLIENT_IP_HEADER) hs) ''authorization'' = map_of hs ''authorization''"
    for hs :: "(string \<times> header_value option) list"
    by (induction hs) (auto simp: ascii_lower_def CLIENT_IP_HEADER_def)
  then show ?thesis by (simp add: forget_ip_def)
qed

text \<open>
  A client cannot choose its rate-limit identity. The address every handler keys the limiter on is
  the one Fastify resolved; headers with the name of the internal address header, in any case and
  number, change neither it nor anything else of how the request is served.
\<close>

theorem forged_ip_ignored:
  "getClientIp (web_request req) = http_strip (if fq_ip req = [] then ''unknown'' else fq_ip req)
   \<and> serve sh now minted arr (forget_ip req) st = serve sh now minted arr req st"
proof
  show "getClientIp (web_request req) = http_strip (if fq_ip req = [] then ''unknown'' else fq_ip req)"
    by (simp add: getClientIp_def client_ip_stamped)
  have "fq_body (forget_ip req) = fq_body req" "fq_method (forget_ip req) = fq_method req"
    by (simp_all add: forget_ip_def)
  moreover have "run_route sh now minted r (forget_ip req) st = run_route sh now minted r req st" for r
    by (simp only: run_route_def web_request_forget authorization_forget)
  ultimately show "serve sh now minted arr (forget_ip req) st = serve sh now minted arr req st"
    by (simp only: serve_def onResponse_def)
qed

section \<open>The boot guard\<close>

text \<open>
  A production server that gets past the boot guard runs on Postgres and Redis, reports so, and never
  refuses to hash a client address.
\<close>

theorem boot_guard:
  assumes "is_production env" "assertProductionConfig env = None" "R StoreMemoryFallback \<noteq> None"
  shows "fst (buildStores env R) = PostgresAndRedis
    \<and> get_metric StoreMemoryFallback [] (snd (buildStores env R)) = Some 0
    \<and> hashIp hmac env ip \<noteq> None"
proof -
  have m: "missingProductionStoreVars env = []" "saltConfigError (env ''RATE_LIMIT_IP_SALT'') True = None"
    using assms(1,2) by (auto simp: assertProductionConfig_def Let_def split: if_splits option.splits)
  then have "shouldUseDbStores env"
    using assms(1) by (auto simp: missingProductionStoreVars_def shouldUseDbStores_def is_production_def split: if_splits)
  moreover have "validateLabels StoreMemoryFallback [] = Inr ()" by simp
  ultimately show ?thesis
    using assms(1,3) m(2)
    by (auto simp: buildStores_def set_gauge_def metric_type_def get_metric_def hashIp_def hashIpWith_def saltConfigError_def
        falsy_def split: option.splits if_splits)
qed

definition demo_production :: env_bag where
  "demo_production = [''NODE_ENV'' \<mapsto> ''production'', ''DATABASE_URL'' \<mapsto> ''pg'', ''REDIS_URL'' \<mapsto> ''redis'',
     ''RATE_LIMIT_IP_SALT'' \<mapsto> ''0123456789abcdef0123456789abcdef'']"

theorem boot_guard_witness: "hashIp (\<lambda>salt ip. salt @ ip) demo_production ''1.2.3.4'' \<noteq> None"
proof -
  have "utf8_length ''0123456789abcdef0123456789abcdef'' = 32"
    by (simp add: utf8_length_def TextEncoder_def text_of_string_def high_surrogate_def low_surrogate_def scalar_bytes_def)
  then show ?thesis
    using boot_guard [of demo_production reset "\<lambda>salt ip. salt @ ip" "''1.2.3.4''"] reset_facts(1)
    by (simp add: demo_production_def is_production_def assertProductionConfig_def missingProductionStoreVars_def falsy_def
        saltConfigError_def MIN_SALT_BYTES_def seeded_def)
qed

section \<open>The metrics endpoint\<close>

text \<open>
  Without the operator's token the metrics endpoint gives nothing away: with no token configured it
  answers as an unknown route does, with another token it answers 401, and neither touches the registry.
\<close>

theorem metrics_gated:
  assumes "falsy token \<or> (\<forall>p. extractBearer h = Some p \<longrightarrow> p \<noteq> the token)"
  shows "metricsRoute token h stats rend R = (if falsy token then notFoundHandler else json_reply (jsonError 401 ''unauthorized''), R)"
proof (cases "falsy token")
  case False
  then have no: "\<not> tokenMatches (the token) p" if "extractBearer h = Some p" for p
    using assms that TextEncoder_inject [of "text_of_string (the token)" "text_of_string p"] text_of_string_inject
    by (auto simp: tokenMatches_def Let_def)
  show ?thesis using False no by (auto simp: metricsRoute_def split: option.splits)
qed (simp add: metricsRoute_def notFoundHandler_def)

theorem metrics_gated_witness:
  "metricsRoute (Some ''secret'') (Some (HOne ''Bearer guess'')) None (\<lambda>R. []) reset =
   (json_reply (jsonError 401 ''unauthorized''), reset)"
  using metrics_gated [of "Some ''secret''" "Some (HOne ''Bearer guess'')" None "\<lambda>R. []" reset]
  by (simp add: falsy_def extractBearer_def)

end
