(* ===== verification/Lifecycle.thy ===== *)
theory Lifecycle
  imports Link_Spec Js_Number Js_Text
begin

text \<open>
  Process lifecycles: the graceful shutdown of the API and the worker (apps/api/src/shutdown.ts, which
  apps/worker/src/shutdown.ts repeats) and the worker's scheduler, configuration and sweep job
  (apps/worker/src). Promises that settle, timers that fire and signals that arrive are events.
\<close>

section \<open>Graceful shutdown\<close>

datatype sd_event = Signal string | Settled bool | Deadline

record shutdown =
  sd_shuttingDown :: bool
  sd_pending :: "string list"
  sd_closed :: "string list"
  sd_hadError :: bool
  sd_forceTimer :: bool
  sd_exits :: "nat list"
  sd_log :: "string list"

definition sd_init :: shutdown where
  "sd_init = \<lparr>sd_shuttingDown = False, sd_pending = [], sd_closed = [], sd_hadError = False, sd_forceTimer = False,
     sd_exits = [], sd_log = []\<rparr>"

definition log_line :: "string \<Rightarrow> shutdown \<Rightarrow> shutdown" where
  "log_line m s = s\<lparr>sd_log := sd_log s @ [m]\<rparr>"

text \<open>What follows the loop over the steps.\<close>

definition sd_finish :: "shutdown \<Rightarrow> shutdown" where
  "sd_finish s =
     (let s = s\<lparr>sd_forceTimer := False\<rparr> in
      if sd_hadError s then (log_line ''graceful shutdown finished with errors'' s)\<lparr>sd_exits := sd_exits s @ [1]\<rparr>
      else (log_line ''graceful shutdown complete'' s)\<lparr>sd_exits := sd_exits s @ [0]\<rparr>)"

text \<open>The loop waits for its first pending step, or is over.\<close>

definition sd_next :: "shutdown \<Rightarrow> shutdown" where
  "sd_next s = (if sd_pending s = [] then sd_finish s else s)"

definition sd_run :: "string list \<Rightarrow> string \<Rightarrow> shutdown \<Rightarrow> shutdown" where
  "sd_run steps signal s =
     sd_next ((log_line (''received '' @ signal @ '': starting graceful shutdown'') s)\<lparr>sd_forceTimer := True, sd_pending := steps\<rparr>)"

definition requestShutdown :: "string list \<Rightarrow> string \<Rightarrow> shutdown \<Rightarrow> shutdown" where
  "requestShutdown steps signal s =
     (if sd_shuttingDown s then log_line (''already shutting down; ignoring '' @ signal) s
      else sd_run steps signal (s\<lparr>sd_shuttingDown := True\<rparr>))"

definition sd_settled :: "bool \<Rightarrow> shutdown \<Rightarrow> shutdown" where
  "sd_settled ok s =
     (case sd_pending s of
        [] \<Rightarrow> s
      | name # rest \<Rightarrow>
          if ok then sd_next ((log_line (''closed '' @ name) s)\<lparr>sd_closed := sd_closed s @ [name], sd_pending := rest\<rparr>)
          else sd_next ((log_line (''error closing '' @ name) s)\<lparr>sd_hadError := True, sd_pending := rest\<rparr>))"

definition sd_deadline :: "nat \<Rightarrow> shutdown \<Rightarrow> shutdown" where
  "sd_deadline ms s =
     (if sd_forceTimer s
      then (log_line (''graceful shutdown exceeded '' @ show_nat ms @ ''ms; forcing exit'') s)
             \<lparr>sd_forceTimer := False, sd_exits := sd_exits s @ [1]\<rparr>
      else s)"

text \<open>The exit ends the process: nothing happens after it.\<close>

fun sd_handle :: "string list \<Rightarrow> nat \<Rightarrow> sd_event \<Rightarrow> shutdown \<Rightarrow> shutdown" where
  "sd_handle steps ms ev s =
     (if sd_exits s \<noteq> [] then s
      else case ev of
             Signal sig \<Rightarrow> requestShutdown steps sig s
           | Settled ok \<Rightarrow> sd_settled ok s
           | Deadline \<Rightarrow> sd_deadline ms s)"

definition sd_events :: "string list \<Rightarrow> nat \<Rightarrow> sd_event list \<Rightarrow> shutdown" where
  "sd_events steps ms evs = fold (sd_handle steps ms) evs sd_init"

definition api_steps :: "string list" where "api_steps = [''http server'', ''pg pool'', ''redis'']"
definition worker_steps :: "string list" where "worker_steps = [''scheduler'', ''pg pool'']"
definition forceExitAfterMs :: nat where "forceExitAfterMs = 15000"

definition sd_inv :: "string list \<Rightarrow> shutdown \<Rightarrow> bool" where
  "sd_inv steps s =
     (if sd_shuttingDown s
      then (sd_exits s = [] \<longrightarrow> sd_forceTimer s \<and> sd_pending s \<noteq> [] \<and> (\<not> sd_hadError s \<longrightarrow> sd_closed s @ sd_pending s = steps)) \<and>
           (sd_exits s \<noteq> [] \<longrightarrow> sd_exits s = [1] \<or> (sd_exits s = [0] \<and> sd_closed s = steps))
      else sd_pending s = [] \<and> sd_closed s = [] \<and> \<not> sd_hadError s \<and> \<not> sd_forceTimer s \<and> sd_exits s = [])"

lemma sd_finish_simps [simp]:
  "sd_exits (sd_finish s) = sd_exits s @ [if sd_hadError s then 1 else 0]" "sd_closed (sd_finish s) = sd_closed s"
  "sd_shuttingDown (sd_finish s) = sd_shuttingDown s"
  by (simp_all add: sd_finish_def log_line_def Let_def)

lemma sd_handle_inv: "sd_inv steps s \<Longrightarrow> sd_inv steps (sd_handle steps ms ev s)"
  by (cases ev)
    (auto simp: sd_inv_def requestShutdown_def sd_run_def sd_next_def sd_settled_def sd_deadline_def log_line_def sd_init_def
      split: list.splits if_splits)

lemma sd_events_inv: "sd_inv steps (sd_events steps ms evs)"
proof -
  have "sd_inv steps s \<Longrightarrow> sd_inv steps (fold (sd_handle steps ms) evs s)" for s
    by (induction evs arbitrary: s) (simp_all add: sd_handle_inv del: sd_handle.simps)
  moreover have "sd_inv steps sd_init" by (simp add: sd_inv_def sd_init_def)
  ultimately show ?thesis by (simp add: sd_events_def)
qed

lemma sd_settling:
  assumes "sd_exits s = []" "sd_pending s \<noteq> []" "sd_hadError s = False" "length oks = length (sd_pending s)"
  shows "sd_exits (fold (sd_handle steps ms) (map Settled oks) s) = [if list_all id oks then 0 else 1]"
proof -
  have "sd_exits (fold (sd_handle steps ms) (map Settled oks) s) = [if \<not> sd_hadError s \<and> list_all id oks then 0 else 1]"
    if "sd_exits s = []" "sd_pending s \<noteq> []" "length oks = length (sd_pending s)" for s oks
    using that
  proof (induction oks arbitrary: s)
    case (Cons ok oks)
    obtain name rest where p: "sd_pending s = name # rest" using Cons.prems by (cases "sd_pending s") auto
    show ?case
    proof (cases "rest = []")
      case True
      then show ?thesis using Cons.prems p by (simp add: sd_settled_def sd_next_def log_line_def)
    next
      case False
      let ?s = "sd_handle steps ms (Settled ok) s"
      have "sd_exits ?s = []" "sd_pending ?s = rest" "sd_hadError ?s = (sd_hadError s \<or> \<not> ok)"
        using Cons.prems False p by (auto simp: sd_settled_def sd_next_def log_line_def)
      then show ?thesis using Cons.IH [of ?s] Cons.prems p False by (simp del: sd_handle.simps)
    qed
  qed simp
  from this [OF assms(1,2,4)] show ?thesis by (simp add: assms(3))
qed

section \<open>The worker's configuration\<close>

definition DEFAULT_INTERVAL_MS :: rat where "DEFAULT_INTERVAL_MS = 900000"

text \<open>\<open>Number(raw)\<close> is an argument.\<close>

definition parseIntervalMs :: "(string \<Rightarrow> js_num) \<Rightarrow> string option \<Rightarrow> rat" where
  "parseIntervalMs to_number raw =
     (case raw of
        None \<Rightarrow> DEFAULT_INTERVAL_MS
      | Some s \<Rightarrow> (case to_number s of
                     Fin q \<Rightarrow> if q < 0 then DEFAULT_INTERVAL_MS else q
                   | _ \<Rightarrow> DEFAULT_INTERVAL_MS))"

record worker_config =
  expirySweepIntervalMs :: rat
  sweepRunOnStart :: bool

definition loadWorkerConfig :: "(string \<Rightarrow> js_num) \<Rightarrow> (string \<Rightarrow> string option) \<Rightarrow> worker_config" where
  "loadWorkerConfig to_number env =
     \<lparr>expirySweepIntervalMs = parseIntervalMs to_number (env ''AESMSG_EXPIRY_SWEEP_INTERVAL_MS''),
      sweepRunOnStart = (env ''AESMSG_SWEEP_RUN_ON_START'' \<noteq> Some ''false'')\<rparr>"

section \<open>The scheduler\<close>

record job =
  job_name :: string
  job_intervalMs :: rat
  job_runOnStart :: bool

definition createExpirySweepJob :: "worker_config \<Rightarrow> job" where
  "createExpirySweepJob c =
     \<lparr>job_name = ''expiry-sweep'', job_intervalMs = expirySweepIntervalMs c, job_runOnStart = sweepRunOnStart c\<rparr>"

text \<open>
  \<open>sc_running\<close> lists the job bodies that run, \<open>sc_inFlight\<close> the names in the code's map, \<open>sc_begun\<close>
  counts the runs begun.
\<close>

record scheduler =
  sc_started :: bool
  sc_handles :: "job list"
  sc_inFlight :: "string list"
  sc_running :: "string list"
  sc_begun :: nat

definition createScheduler :: scheduler where
  "createScheduler = \<lparr>sc_started = False, sc_handles = [], sc_inFlight = [], sc_running = [], sc_begun = 0\<rparr>"

definition sc_execute :: "job \<Rightarrow> scheduler \<Rightarrow> scheduler" where
  "sc_execute j s =
     (if job_name j \<in> set (sc_inFlight s) then s
      else s\<lparr>sc_inFlight := job_name j # sc_inFlight s, sc_running := job_name j # sc_running s, sc_begun := sc_begun s + 1\<rparr>)"

definition sc_arm :: "job \<Rightarrow> scheduler \<Rightarrow> scheduler" where
  "sc_arm j s =
     (if job_intervalMs j \<le> 0 then s
      else (let s = (if job_runOnStart j then sc_execute j s else s) in s\<lparr>sc_handles := sc_handles s @ [j]\<rparr>))"

definition sc_start :: "job list \<Rightarrow> scheduler \<Rightarrow> scheduler" where
  "sc_start jobs s = (if sc_started s then s else fold sc_arm jobs (s\<lparr>sc_started := True\<rparr>))"

definition sc_stop :: "scheduler \<Rightarrow> scheduler" where
  "sc_stop s = s\<lparr>sc_started := False, sc_handles := []\<rparr>"

text \<open>
  A timer that ticks, a body that ends (returning or throwing), its entry's removal in the finally
  handler, and calls of start and stop, in any order.
\<close>

inductive sc_step :: "job list \<Rightarrow> scheduler \<Rightarrow> scheduler \<Rightarrow> bool" for jobs where
  started: "sc_step jobs s (sc_start jobs s)"
| ticked: "j \<in> set (sc_handles s) \<Longrightarrow> sc_step jobs s (sc_execute j s)"
| ended: "n \<in> set (sc_running s) \<Longrightarrow> sc_step jobs s (s\<lparr>sc_running := remove1 n (sc_running s)\<rparr>)"
| cleared: "n \<in> set (sc_inFlight s) \<Longrightarrow> n \<notin> set (sc_running s) \<Longrightarrow>
    sc_step jobs s (s\<lparr>sc_inFlight := filter (\<lambda>m. m \<noteq> n) (sc_inFlight s)\<rparr>)"
| stopped: "sc_step jobs s (sc_stop s)"

text \<open>The steps other than start.\<close>

definition sc_quiet :: "job list \<Rightarrow> scheduler \<Rightarrow> scheduler \<Rightarrow> bool" where
  "sc_quiet jobs s t = (sc_step jobs s t \<and> (sc_started t \<longrightarrow> sc_started s))"

definition sc_inv :: "scheduler \<Rightarrow> bool" where
  "sc_inv s = (distinct (sc_running s) \<and> set (sc_running s) \<subseteq> set (sc_inFlight s) \<and> (\<not> sc_started s \<longrightarrow> sc_handles s = []))"

lemma sc_execute_inv: "sc_inv s \<Longrightarrow> sc_inv (sc_execute j s)"
  by (auto simp: sc_inv_def sc_execute_def)

lemma sc_execute_started [simp]: "sc_started (sc_execute j s) = sc_started s"
  by (simp add: sc_execute_def)

lemma sc_arm_inv: "sc_inv s \<Longrightarrow> sc_started s \<Longrightarrow> sc_inv (sc_arm j s) \<and> sc_started (sc_arm j s)"
  using sc_execute_inv [of s j] by (auto simp: sc_arm_def sc_inv_def Let_def)

lemma fold_sc_arm_inv: "sc_inv s \<Longrightarrow> sc_started s \<Longrightarrow> sc_inv (fold sc_arm js s) \<and> sc_started (fold sc_arm js s)"
  by (induction js arbitrary: s) (simp_all add: sc_arm_inv)

lemma sc_step_inv: "sc_step jobs s t \<Longrightarrow> sc_inv s \<Longrightarrow> sc_inv t"
proof (induction rule: sc_step.induct)
  case (started s)
  then show ?case using fold_sc_arm_inv [of "s\<lparr>sc_started := True\<rparr>" jobs] by (auto simp: sc_start_def sc_inv_def)
next
  case (ended n s)
  then show ?case by (auto simp: sc_inv_def dest: notin_set_remove1 [THEN contrapos_pp])
next
  case (ticked j s)
  then show ?case by (intro sc_execute_inv)
qed (auto simp: sc_inv_def sc_stop_def)

lemma sc_reachable_inv: "(sc_step jobs)\<^sup>*\<^sup>* s t \<Longrightarrow> sc_inv s \<Longrightarrow> sc_inv t"
  by (induction rule: rtranclp_induct) (auto intro: sc_step_inv)

lemma sc_quiet_step:
  assumes "sc_quiet jobs s t" "sc_inv s" "\<not> sc_started s"
  shows "sc_begun t = sc_begun s \<and> \<not> sc_started t \<and> set (sc_running t) \<subseteq> set (sc_running s)"
proof -
  have st: "sc_step jobs s t" "\<not> sc_started t" using assms(1,3) by (auto simp: sc_quiet_def)
  from st(1) show ?thesis
  proof (cases rule: sc_step.cases)
    case started
    then show ?thesis using st(2) assms(3) fold_sc_arm_inv [of "s\<lparr>sc_started := True\<rparr>" jobs] assms(2)
      by (simp add: sc_start_def sc_inv_def)
  qed (use assms in \<open>auto simp: sc_inv_def sc_stop_def dest: set_remove1_subset [THEN subsetD]\<close>)
qed

lemma sc_quiet_run:
  assumes "(sc_quiet jobs)\<^sup>*\<^sup>* s t" "sc_inv s" "\<not> sc_started s"
  shows "sc_begun t = sc_begun s \<and> \<not> sc_started t \<and> set (sc_running t) \<subseteq> set (sc_running s) \<and> sc_inv t"
  using assms
proof (induction rule: rtranclp_induct)
  case (step t u)
  then have "sc_inv u" using sc_step_inv by (auto simp: sc_quiet_def)
  then show ?case using step sc_quiet_step [of jobs t u] by auto
qed auto

end
