(* ===== verification/Lifecycle_Properties.thy ===== *)
theory Lifecycle_Properties
  imports Lifecycle
begin

text \<open>
  Properties of the shutdown controller and the scheduler.
\<close>

section \<open>Shutdown\<close>

text \<open>
  A process exits once and says the truth: whatever signals, settled steps and deadlines occur, it
  exits at most once, and with code 0 only after every step closed without error, in the given order.
\<close>

theorem shutdown_exit_code:
  "sd_exits (sd_events steps ms evs) \<in> {[], [0], [1]} \<and>
   (sd_exits (sd_events steps ms evs) = [0] \<longrightarrow> sd_closed (sd_events steps ms evs) = steps)"
  using sd_events_inv [of steps ms evs] by (auto simp: sd_inv_def split: if_splits)

theorem shutdown_exit_code_witness:
  "sd_closed (sd_events worker_steps forceExitAfterMs [Signal ''SIGTERM'', Settled True, Signal ''SIGINT'', Settled True]) =
   [''scheduler'', ''pg pool'']"
proof -
  let ?evs = "[Signal ''SIGTERM'', Settled True, Signal ''SIGINT'', Settled True]"
  have "sd_exits (sd_events worker_steps forceExitAfterMs ?evs) = [0]"
    by (simp add: sd_events_def sd_init_def requestShutdown_def sd_run_def sd_next_def sd_settled_def log_line_def worker_steps_def
        del: sd_finish_simps) (simp add: sd_finish_def log_line_def)
  then show ?thesis using shutdown_exit_code [of worker_steps forceExitAfterMs ?evs] by (simp add: worker_steps_def)
qed

lemma shutting_stays:
  "sd_shuttingDown s \<or> sd_exits s \<noteq> [] \<Longrightarrow>
   sd_shuttingDown (fold (sd_handle steps ms) evs s) \<or> sd_exits (fold (sd_handle steps ms) evs s) \<noteq> []"
proof (induction evs arbitrary: s)
  case (Cons ev evs)
  have "sd_shuttingDown (sd_handle steps ms ev s) \<or> sd_exits (sd_handle steps ms ev s) \<noteq> []"
    using Cons.prems
    by (cases ev)
      (auto simp: requestShutdown_def sd_settled_def sd_next_def sd_deadline_def log_line_def split: list.splits)
  then show ?case using Cons.IH by simp
qed simp

lemma signal_shuts:
  assumes "Signal sig \<in> set evs"
  shows "sd_shuttingDown (sd_events steps ms evs) \<or> sd_exits (sd_events steps ms evs) \<noteq> []"
proof -
  obtain xs ys where evs: "evs = xs @ Signal sig # ys" using split_list [OF assms] by blast
  let ?s = "sd_handle steps ms (Signal sig) (fold (sd_handle steps ms) xs sd_init)"
  have "sd_shuttingDown ?s \<or> sd_exits ?s \<noteq> []"
    by (simp add: requestShutdown_def sd_run_def sd_next_def log_line_def)
  then show ?thesis using shutting_stays [of ?s steps ms ys] by (simp add: sd_events_def evs)
qed

text \<open>
  C36: a shutdown ends. Once a signal has arrived, the process has exited when its force-exit deadline
  has passed, whatever else happened and even if a step never settles; and when every step settles
  first, it exits then, with 0 exactly when none failed.
\<close>

theorem shutdown_ends:
  assumes "Signal sig \<in> set evs" "length oks = length steps" "steps \<noteq> []"
  shows "sd_exits (sd_events steps ms (evs @ [Deadline])) \<noteq> []
    \<and> sd_exits (sd_events steps ms (Signal sig # map Settled oks)) = [if list_all id oks then 0 else 1]"
proof
  let ?s = "sd_events steps ms evs"
  have "sd_exits ?s \<noteq> [] \<or> sd_forceTimer ?s"
    using signal_shuts [OF assms(1), of steps ms] sd_events_inv [of steps ms evs] by (auto simp: sd_inv_def)
  then show "sd_exits (sd_events steps ms (evs @ [Deadline])) \<noteq> []"
    by (auto simp: sd_events_def sd_deadline_def)
  let ?t = "sd_handle steps ms (Signal sig) sd_init"
  have "sd_exits ?t = []" "sd_pending ?t = steps" "sd_hadError ?t = False"
    using assms(3) by (simp_all add: sd_init_def requestShutdown_def sd_run_def sd_next_def log_line_def)
  then show "sd_exits (sd_events steps ms (Signal sig # map Settled oks)) = [if list_all id oks then 0 else 1]"
    using sd_settling [of ?t oks steps ms] assms(2,3) by (simp add: sd_events_def del: sd_handle.simps)
qed

theorem shutdown_ends_witness:
  "sd_exits (sd_events api_steps forceExitAfterMs [Settled True, Signal ''SIGTERM'', Settled True, Deadline]) \<noteq> []
   \<and> sd_exits (sd_events api_steps forceExitAfterMs (Signal ''SIGTERM'' # map Settled [True, False, True])) = [1]"
  using shutdown_ends [of "''SIGTERM''" "[Settled True, Signal ''SIGTERM'', Settled True]" "[True, False, True]" api_steps
      forceExitAfterMs]
  by (simp add: api_steps_def del: sd_handle.simps)

section \<open>The scheduler\<close>

text \<open>
  A sweep never runs over itself: in every state the scheduler can reach, with any jobs, ticks, slow
  runs, starts and stops, no two runs of a job are in progress at the same time.
\<close>

theorem no_overlapping_runs:
  assumes "(sc_step jobs)\<^sup>*\<^sup>* createScheduler s"
  shows "distinct (sc_running s)"
proof -
  have "sc_inv createScheduler" by (simp add: sc_inv_def createScheduler_def)
  from sc_reachable_inv [OF assms this] show ?thesis by (simp add: sc_inv_def)
qed

definition demo_job :: job where
  "demo_job = createExpirySweepJob (loadWorkerConfig (\<lambda>s. NaN) (\<lambda>k. None))"

lemma demo_job_fields: "job_name demo_job = ''expiry-sweep''" "job_runOnStart demo_job" "job_intervalMs demo_job = 900000"
  by (simp_all add: demo_job_def createExpirySweepJob_def loadWorkerConfig_def parseIntervalMs_def DEFAULT_INTERVAL_MS_def)

lemma demo_started: "(sc_step [demo_job])\<^sup>*\<^sup>* createScheduler
    \<lparr>sc_started = True, sc_handles = [demo_job], sc_inFlight = [''expiry-sweep''], sc_running = [''expiry-sweep''], sc_begun = 1\<rparr>"
proof -
  have "sc_start [demo_job] createScheduler = \<lparr>sc_started = True, sc_handles = [demo_job], sc_inFlight = [''expiry-sweep''],
      sc_running = [''expiry-sweep''], sc_begun = 1\<rparr>"
    by (simp add: sc_start_def createScheduler_def sc_arm_def sc_execute_def demo_job_fields)
  then show ?thesis using sc_step.started [of "[demo_job]" createScheduler] by (metis r_into_rtranclp)
qed

theorem no_overlapping_runs_witness: "distinct [''expiry-sweep'']"
  using no_overlapping_runs [OF demo_started] by simp

text \<open>
  A stopped scheduler is quiet: as long as it is not started again, no run begins after a stop, and
  the runs in progress are among those that were.
\<close>

theorem stop_is_quiet:
  assumes "(sc_step jobs)\<^sup>*\<^sup>* createScheduler s" "(sc_quiet jobs)\<^sup>*\<^sup>* (sc_stop s) t"
  shows "sc_begun t = sc_begun s \<and> set (sc_running t) \<subseteq> set (sc_running s)"
proof -
  have "sc_inv createScheduler" by (simp add: sc_inv_def createScheduler_def)
  then have "sc_inv s" using sc_reachable_inv [OF assms(1)] by blast
  then have "sc_inv (sc_stop s)" using sc_step.stopped sc_step_inv by blast
  from sc_quiet_run [OF assms(2) this] show ?thesis by (simp add: sc_stop_def)
qed

theorem stop_is_quiet_witness: "sc_begun (sc_stop createScheduler) = sc_begun createScheduler"
  using stop_is_quiet [of "[demo_job]" createScheduler "sc_stop createScheduler"] by simp

end
