(* ===== verification/Contact_Book.thy ===== *)
theory Contact_Book
  imports Js_Text
begin

text \<open>
  The contact directory, apps/mobile/src/contacts/contacts-store.ts and label.ts. The stored state is
  what the encrypted store holds under the "contacts" key (None: nothing); the fingerprint function,
  the clock and the random id are arguments.
\<close>

section \<open>Data\<close>

record contact =
  c_id :: string
  c_label :: string
  c_publicKey :: string
  c_fingerprint :: string
  c_verified :: bool
  c_previous :: "string list"
  c_createdAt :: string
  c_updatedAt :: string

record add_input =
  in_label :: string
  in_publicKey :: string

datatype duplicate_reason = CurrentKey | PreviousKey

datatype 'e contact_error =
    InvalidLabelError
  | NotFoundError string
  | SameKeyError
  | RotatedAwayError
  | DuplicateFingerprintError string string duplicate_reason
  | KeyError 'e

type_synonym book = "contact list option"
type_synonym 'e fp_fun = "string \<Rightarrow> 'e + string"
type_synonym 'e booked = "('e contact_error + contact) \<times> book"

definition MAX_LABEL_LEN :: nat where "MAX_LABEL_LEN = 80"

definition isValidLabel :: "string \<Rightarrow> bool" where
  "isValidLabel raw = (let trimmed = js_trim raw in length trimmed \<ge> 1 \<and> length trimmed \<le> MAX_LABEL_LEN)"

definition normalizeLabel :: "string \<Rightarrow> string" where
  "normalizeLabel raw = take MAX_LABEL_LEN (js_trim raw)"

definition validateLabel :: "string \<Rightarrow> 'e contact_error + string" where
  "validateLabel raw =
     (let trimmed = js_trim raw in
      if length trimmed = 0 then Inl InvalidLabelError
      else if length trimmed > MAX_LABEL_LEN then Inl InvalidLabelError
      else Inr trimmed)"

definition readAll :: "book \<Rightarrow> contact list" where
  "readAll st = (case st of None \<Rightarrow> [] | Some cs \<Rightarrow> cs)"

definition writeAll :: "contact list \<Rightarrow> book" where
  "writeAll cs = Some cs"

definition key_error :: "'e + 'a \<Rightarrow> 'e contact_error + 'a" where
  "key_error r = (case r of Inl e \<Rightarrow> Inl (KeyError e) | Inr x \<Rightarrow> Inr x)"

section \<open>Operations\<close>

fun duplicate_check :: "string \<Rightarrow> contact list \<Rightarrow> 'e contact_error + unit" where
  "duplicate_check fp [] = Inr ()"
| "duplicate_check fp (c # cs) =
     (if c_fingerprint c = fp then Inl (DuplicateFingerprintError (c_id c) (c_label c) CurrentKey)
      else if fp \<in> set (c_previous c) then Inl (DuplicateFingerprintError (c_id c) (c_label c) PreviousKey)
      else duplicate_check fp cs)"

definition new_contact :: "string \<Rightarrow> string \<Rightarrow> string \<Rightarrow> string \<Rightarrow> string \<Rightarrow> contact" where
  "new_contact now uuid label publicKey fp =
     \<lparr>c_id = uuid, c_label = label, c_publicKey = publicKey, c_fingerprint = fp, c_verified = False,
      c_previous = [], c_createdAt = now, c_updatedAt = now\<rparr>"

definition addContact :: "'e fp_fun \<Rightarrow> string \<Rightarrow> string \<Rightarrow> add_input \<Rightarrow> book \<Rightarrow> 'e booked" where
  "addContact fpr now uuid inp st =
     (case and_then (validateLabel (in_label inp)) (\<lambda>label.
             and_then (key_error (fpr (in_publicKey inp))) (\<lambda>fp.
               and_then (duplicate_check fp (readAll st)) (\<lambda>_. Inr (label, fp)))) of
        Inl e \<Rightarrow> (Inl e, st)
      | Inr (label, fp) \<Rightarrow>
          let rec = new_contact now uuid label (in_publicKey inp) fp
          in (Inr rec, writeAll (readAll st @ [rec])))"

definition listContacts :: "(string \<Rightarrow> string \<Rightarrow> int) \<Rightarrow> book \<Rightarrow> contact list" where
  "listContacts collate st = sort_by (\<lambda>a b. collate (c_label a) (c_label b)) (readAll st)"

definition getContact :: "string \<Rightarrow> book \<Rightarrow> contact option" where
  "getContact i st = List.find (\<lambda>c. c_id c = i) (readAll st)"

definition updateContactKey :: "'e fp_fun \<Rightarrow> string \<Rightarrow> string \<Rightarrow> string \<Rightarrow> book \<Rightarrow> 'e booked" where
  "updateContactKey fpr now i newPublicKey st =
     (let all = readAll st in
      case findIndex (\<lambda>c. c_id c = i) all of
        None \<Rightarrow> (Inl (NotFoundError i), st)
      | Some idx \<Rightarrow>
          let existing = all ! idx in
          (case key_error (fpr newPublicKey) of
             Inl e \<Rightarrow> (Inl e, st)
           | Inr newFp \<Rightarrow>
               if newFp = c_fingerprint existing then (Inl SameKeyError, st)
               else if newFp \<in> set (c_previous existing) then (Inl RotatedAwayError, st)
               else
                 let updated = existing\<lparr>c_publicKey := newPublicKey, c_fingerprint := newFp, c_verified := False,
                       c_previous := c_previous existing @ [c_fingerprint existing], c_updatedAt := now\<rparr>
                 in (Inr updated, writeAll (all[idx := updated]))))"

definition setContactVerified :: "string \<Rightarrow> string \<Rightarrow> bool \<Rightarrow> book \<Rightarrow> 'e booked" where
  "setContactVerified now i verified st =
     (let all = readAll st in
      case findIndex (\<lambda>c. c_id c = i) all of
        None \<Rightarrow> (Inl (NotFoundError i), st)
      | Some idx \<Rightarrow>
          let updated = (all ! idx)\<lparr>c_verified := verified, c_updatedAt := now\<rparr>
          in (Inr updated, writeAll (all[idx := updated])))"

definition renameContact :: "string \<Rightarrow> string \<Rightarrow> string \<Rightarrow> book \<Rightarrow> 'e booked" where
  "renameContact now i label st =
     (case validateLabel label of
        Inl e \<Rightarrow> (Inl e, st)
      | Inr trimmed \<Rightarrow>
          let all = readAll st in
          case findIndex (\<lambda>c. c_id c = i) all of
            None \<Rightarrow> (Inl (NotFoundError i), st)
          | Some idx \<Rightarrow>
              let updated = (all ! idx)\<lparr>c_label := trimmed, c_updatedAt := now\<rparr>
              in (Inr updated, writeAll (all[idx := updated])))"

definition deleteContact :: "string \<Rightarrow> book \<Rightarrow> book" where
  "deleteContact i st =
     (let all = readAll st; next = filter (\<lambda>c. c_id c \<noteq> i) all
      in if length next = length all then st else writeAll next)"

text \<open>A user's actions; the clock and the id an action draws are part of it.\<close>

datatype book_op =
    AddC add_input string string
  | UpdateKey string string string
  | SetVerified string bool string
  | Rename string string string
  | DeleteC string

fun book_step :: "'e fp_fun \<Rightarrow> book_op \<Rightarrow> book \<Rightarrow> book" where
  "book_step fpr (AddC inp uuid now) st = snd (addContact fpr now uuid inp st)"
| "book_step fpr (UpdateKey i k now) st = snd (updateContactKey fpr now i k st)"
| "book_step fpr (SetVerified i v now) st = snd (setContactVerified now i v st :: 'e booked)"
| "book_step fpr (Rename i l now) st = snd (renameContact now i l st :: 'e booked)"
| "book_step fpr (DeleteC i) st = deleteContact i st"

definition book_run :: "'e fp_fun \<Rightarrow> book_op list \<Rightarrow> book \<Rightarrow> book" where
  "book_run fpr ops st = fold (book_step fpr) ops st"

section \<open>The directory's invariant\<close>

definition contact_ok :: "'e fp_fun \<Rightarrow> contact \<Rightarrow> bool" where
  "contact_ok fpr c =
     (fpr (c_publicKey c) = Inr (c_fingerprint c) \<and> isValidLabel (c_label c) \<and> js_trim (c_label c) = c_label c \<and>
      distinct (c_previous c @ [c_fingerprint c]))"

definition book_ok :: "'e fp_fun \<Rightarrow> book \<Rightarrow> bool" where
  "book_ok fpr st = (distinct (map c_id (readAll st)) \<and> list_all (contact_ok fpr) (readAll st))"

definition book_ids :: "book \<Rightarrow> string set" where
  "book_ids st = c_id ` set (readAll st)"

lemma readAll_simps [simp]: "readAll None = []" "readAll (Some cs) = cs" "readAll (writeAll cs) = cs"
  by (simp_all add: readAll_def writeAll_def)

lemma validateLabel_Inr: "validateLabel raw = Inr l \<longleftrightarrow> isValidLabel raw \<and> l = js_trim raw"
  by (cases "js_trim raw") (auto simp: validateLabel_def isValidLabel_def Let_def)

lemma isValidLabel_trim [simp]: "isValidLabel (js_trim raw) = isValidLabel raw"
  by (simp add: isValidLabel_def)

lemma key_error_Inr: "key_error r = Inr x \<longleftrightarrow> r = Inr x"
  by (cases r) (simp_all add: key_error_def)

lemma duplicate_check_Inr:
  "duplicate_check fp cs = Inr u \<longleftrightarrow> (\<forall>c \<in> set cs. c_fingerprint c \<noteq> fp \<and> fp \<notin> set (c_previous c))"
  by (induction cs) auto

text \<open>Every operation leaves the book alone, appends one entry, replaces one entry under its id or drops some.\<close>

lemma book_ok_replace:
  assumes "book_ok fpr st" "findIndex (\<lambda>c. c_id c = i) (readAll st) = Some idx" "c_id u = i" "contact_ok fpr u"
  shows "book_ok fpr (writeAll ((readAll st)[idx := u]))"
proof -
  have idx: "idx < length (readAll st)" "c_id (readAll st ! idx) = i" using findIndex_Some [OF assms(2)] by auto
  then have "map c_id ((readAll st)[idx := u]) = map c_id (readAll st)"
    by (intro map_update_same_key) (simp_all add: assms(3))
  then show ?thesis
    using assms(1,4) by (auto simp: book_ok_def list_all_iff dest: update_member)
qed

lemma found_ok:
  assumes "book_ok fpr st" "findIndex P (readAll st) = Some idx"
  shows "contact_ok fpr (readAll st ! idx)"
  using assms findIndex_Some [OF assms(2)] by (auto simp: book_ok_def list_all_iff)

lemma addContact_cases:
  assumes "addContact fpr now uuid inp st = (out, st')"
  obtains (refused) e where "out = Inl e" "st' = st"
    | (added) fp where "out = Inr (new_contact now uuid (js_trim (in_label inp)) (in_publicKey inp) fp)"
        "st' = writeAll (readAll st @ [new_contact now uuid (js_trim (in_label inp)) (in_publicKey inp) fp])"
        "fpr (in_publicKey inp) = Inr fp" "isValidLabel (in_label inp)"
        "\<forall>d \<in> set (readAll st). c_fingerprint d \<noteq> fp \<and> fp \<notin> set (c_previous d)"
  using assms unfolding addContact_def
  by (auto split: sum.splits prod.splits simp: result_simps validateLabel_Inr key_error_Inr duplicate_check_Inr Let_def)

lemma addContact_ok:
  assumes "book_ok fpr st" "uuid \<notin> book_ids st"
  shows "book_ok fpr (snd (addContact fpr now uuid inp st))"
proof -
  obtain out st' where a: "addContact fpr now uuid inp st = (out, st')" by fastforce
  from a have "book_ok fpr st'"
    by (cases rule: addContact_cases)
      (use assms in \<open>auto simp: book_ok_def book_ids_def contact_ok_def list_all_iff new_contact_def\<close>)
  then show ?thesis by (simp add: a)
qed

lemma updateContactKey_ok:
  assumes "book_ok fpr st"
  shows "book_ok fpr (snd (updateContactKey fpr now i k st))"
  using assms found_ok [OF assms] findIndex_Some [of "\<lambda>c. c_id c = i" "readAll st"]
  by (auto simp: updateContactKey_def Let_def key_error_Inr contact_ok_def split: option.splits sum.splits intro!: book_ok_replace)

lemma setContactVerified_ok:
  assumes "book_ok fpr st"
  shows "book_ok fpr (snd (setContactVerified now i v st))"
  using assms found_ok [OF assms] findIndex_Some [of "\<lambda>c. c_id c = i" "readAll st"]
  by (auto simp: setContactVerified_def Let_def contact_ok_def split: option.splits intro!: book_ok_replace)

lemma renameContact_ok:
  assumes "book_ok fpr st"
  shows "book_ok fpr (snd (renameContact now i l st))"
  using assms found_ok [OF assms] findIndex_Some [of "\<lambda>c. c_id c = i" "readAll st"]
  by (auto simp: renameContact_def Let_def contact_ok_def validateLabel_Inr split: option.splits sum.splits intro!: book_ok_replace)

lemma deleteContact_ok: "book_ok fpr st \<Longrightarrow> book_ok fpr (deleteContact i st)"
  by (auto simp: deleteContact_def Let_def book_ok_def list_all_iff distinct_map_filter)

lemma replaced_ids:
  assumes "findIndex P cs = Some idx" "c_id u = c_id (cs ! idx)"
  shows "c_id ` set (cs[idx := u]) = c_id ` set cs"
  using findIndex_Some [OF assms(1)] assms(2) map_update_same_key [of idx cs c_id u] by (metis list.set_map)

lemma book_ids_simps:
  "book_ids (snd (updateContactKey fpr now i k st)) = book_ids st"
  "book_ids (snd (setContactVerified now i v st)) = book_ids st"
  "book_ids (snd (renameContact now i l st)) = book_ids st"
  "book_ids (snd (addContact fpr now uuid inp st)) \<subseteq> insert uuid (book_ids st)"
  "book_ids (deleteContact i st) \<subseteq> book_ids st"
  by (simp_all add: updateContactKey_def setContactVerified_def renameContact_def book_ids_def Let_def replaced_ids
        addContact_def new_contact_def deleteContact_def image_mono subset_insertI split: option.splits sum.splits prod.splits)

end
