(* ===== verification/Contact_Laws.thy ===== *)
theory Contact_Laws
  imports Contact_Book
begin

text \<open>
  Lemmas on runs of the contact directory and its properties.
\<close>

section \<open>Runs\<close>

primrec op_uuids :: "book_op list \<Rightarrow> string list" where
  "op_uuids [] = []"
| "op_uuids (p # ps) = (case p of AddC inp uuid now \<Rightarrow> [uuid] | _ \<Rightarrow> []) @ op_uuids ps"

definition fresh_ids :: "book_op list \<Rightarrow> book \<Rightarrow> bool" where
  "fresh_ids ops st = (distinct (op_uuids ops) \<and> set (op_uuids ops) \<inter> book_ids st = {})"

lemma book_step_ok:
  fixes fpr :: "'a fp_fun"
  assumes "book_ok fpr st" "fresh_ids (p # ps) st"
  shows "book_ok fpr (book_step fpr p st) \<and> fresh_ids ps (book_step fpr p st)"
proof
  have upd: "book_ok fpr (snd (setContactVerified now i v st :: 'a booked))"
    "book_ok fpr (snd (renameContact now i l st :: 'a booked))" for now i v l
    using setContactVerified_ok [OF assms(1)] renameContact_ok [OF assms(1)] by blast+
  show "book_ok fpr (book_step fpr p st)"
    using assms upd by (cases p) (auto simp: fresh_ids_def intro: addContact_ok updateContactKey_ok deleteContact_ok)
  have "book_ids (book_step fpr p st) \<subseteq> book_ids st \<union> set (op_uuids [p])"
    by (cases p) (auto simp: book_ids_simps(1-3) dest: subsetD [OF book_ids_simps(4)] subsetD [OF book_ids_simps(5)])
  then show "fresh_ids ps (book_step fpr p st)"
    using assms(2) by (auto simp: fresh_ids_def)
qed

lemma book_run_ok:
  assumes "book_ok fpr st" "fresh_ids ops st"
  shows "book_ok fpr (book_run fpr ops st)"
  using assms
proof (induction ops arbitrary: st)
  case (Cons p ps)
  then have "book_ok fpr (book_step fpr p st)" "fresh_ids ps (book_step fpr p st)"
    using book_step_ok by blast+
  then show ?case using Cons.IH by (simp add: book_run_def)
qed (simp add: book_run_def)

text \<open>A contact that is verified after a step was so before, for the same key, unless the step verified it.\<close>

definition verifies :: "string \<Rightarrow> book_op \<Rightarrow> bool" where
  "verifies i p = (case p of SetVerified j v now \<Rightarrow> j = i \<and> v | _ \<Rightarrow> False)"

lemma verified_step:
  assumes "c \<in> set (readAll (book_step fpr p st))" "c_verified c" "\<not> verifies (c_id c) p"
  shows "\<exists>d \<in> set (readAll st). c_id d = c_id c \<and> c_verified d \<and> c_publicKey d = c_publicKey c"
proof (cases p)
  case (AddC inp uuid now)
  obtain out st' where a: "addContact fpr now uuid inp st = (out, st')" by fastforce
  then show ?thesis
    by (cases rule: addContact_cases) (use assms AddC a in \<open>auto simp: new_contact_def\<close>)
next
  case (UpdateKey i k now)
  then show ?thesis
    using assms
    by (auto simp: updateContactKey_def Let_def split: option.splits sum.splits if_splits dest!: update_member)
next
  case (SetVerified i v now)
  then show ?thesis
    using assms
    by (auto simp: setContactVerified_def Let_def verifies_def split: option.splits dest!: update_member findIndex_Some)
next
  case (Rename i l now)
  then show ?thesis
    using assms
    by (auto simp: renameContact_def Let_def split: option.splits sum.splits dest!: update_member findIndex_Some)
next
  case (DeleteC i)
  then show ?thesis using assms by (auto simp: deleteContact_def Let_def split: if_splits)
qed

lemma verified_run:
  assumes "c \<in> set (readAll (book_run fpr ops st))" "c_verified c" "list_all (\<lambda>p. \<not> verifies (c_id c) p) ops"
  shows "\<exists>d \<in> set (readAll st). c_id d = c_id c \<and> c_verified d \<and> c_publicKey d = c_publicKey c"
  using assms
proof (induction ops arbitrary: st)
  case (Cons p ps)
  then obtain e where e: "e \<in> set (readAll (book_step fpr p st))" "c_id e = c_id c" "c_verified e" "c_publicKey e = c_publicKey c"
    by (auto simp: book_run_def)
  then show ?case using verified_step [of e fpr p st] Cons.prems(3) by auto
qed (auto simp: book_run_def)

section \<open>Properties\<close>

definition name_key :: "unit fp_fun" where
  "name_key k = Inr (''AM-'' @ k)"

definition demo_book_ops :: "book_op list" where
  "demo_book_ops = [AddC \<lparr>in_label = '' Ann '', in_publicKey = ''k1''\<rparr> ''1'' ''t0'',
     AddC \<lparr>in_label = ''Bob'', in_publicKey = ''k2''\<rparr> ''2'' ''t0'', SetVerified ''1'' True ''t1'',
     UpdateKey ''1'' ''k3'' ''t2'', Rename ''2'' ''Bo'' ''t3'']"

definition demo_book :: book where
  "demo_book = Some
     [\<lparr>c_id = ''1'', c_label = ''Ann'', c_publicKey = ''k1'', c_fingerprint = ''AM-k1'', c_verified = True,
       c_previous = [], c_createdAt = ''t0'', c_updatedAt = ''t1''\<rparr>,
      \<lparr>c_id = ''2'', c_label = ''Bob'', c_publicKey = ''k2'', c_fingerprint = ''AM-k2'', c_verified = True,
       c_previous = [], c_createdAt = ''t0'', c_updatedAt = ''t0''\<rparr>]"

lemma demo_book_ok: "book_ok name_key demo_book" "book_ok name_key None"
  by (simp_all add: demo_book_def book_ok_def contact_ok_def name_key_def isValidLabel_def js_trim_def js_space_def
      MAX_LABEL_LEN_def)

text \<open>
  Whatever the user does with the directory, in whatever order, its contacts keep distinct ids, each
  carries the fingerprint of its own key, a trimmed label of 1 to 80 characters and a history without
  repetition in which its current fingerprint does not occur.
\<close>

theorem directory_invariant:
  assumes "book_ok fpr st" "fresh_ids ops st"
  shows "book_ok fpr (book_run fpr ops st)"
  by (rule book_run_ok [OF assms])

theorem directory_invariant_witness: "book_ok name_key (book_run name_key demo_book_ops None)"
  by (rule directory_invariant) (simp_all add: demo_book_ok demo_book_ops_def fresh_ids_def book_ids_def)

text \<open>
  C34: a contact is verified for the key it was verified with. As long as the user does not verify it
  anew, a contact that is verified after any actions was verified before them, with the same key:
  neither a changed key nor a re-added contact comes out verified.
\<close>

theorem verified_for_this_key:
  assumes "c \<in> set (readAll (book_run fpr ops st))" "c_verified c" "list_all (\<lambda>p. \<not> verifies (c_id c) p) ops"
  shows "\<exists>d \<in> set (readAll st). c_id d = c_id c \<and> c_verified d \<and> c_publicKey d = c_publicKey c"
  by (rule verified_run [OF assms])

theorem verified_for_this_key_witness:
  "\<exists>c \<in> set (readAll demo_book). c_id c = ''2'' \<and> c_verified c \<and> c_publicKey c = ''k2''"
proof -
  let ?c = "\<lparr>c_id = ''2'', c_label = ''Bo'', c_publicKey = ''k2'', c_fingerprint = ''AM-k2'', c_verified = True,
       c_previous = [], c_createdAt = ''t0'', c_updatedAt = ''t3''\<rparr>"
  have "?c \<in> set (readAll (book_run name_key [UpdateKey ''1'' ''k3'' ''t2'', Rename ''2'' ''Bo'' ''t3''] demo_book))"
    by (simp add: book_run_def demo_book_def updateContactKey_def renameContact_def Let_def name_key_def key_error_def
        validateLabel_def js_trim_def js_space_def MAX_LABEL_LEN_def)
  from verified_for_this_key [OF this] show ?thesis by (simp add: verifies_def)
qed

text \<open>
  A changed key may repeat another contact's. A key that addContact refuses because a contact holds
  it already is accepted by updateContactKey on a second contact, which then shares the first one's
  fingerprint.
\<close>

theorem key_change_duplicates:
  assumes "book_ok fpr st" "c \<in> set (readAll st)" "d \<in> set (readAll st)" "c_id c \<noteq> c_id d"
    "c_fingerprint c \<noteq> c_fingerprint d" "c_fingerprint c \<notin> set (c_previous d)"
  shows "(\<exists>e. fst (addContact fpr now uuid \<lparr>in_label = l, in_publicKey = c_publicKey c\<rparr> st) = Inl e)
    \<and> (\<exists>u st'. updateContactKey fpr now (c_id d) (c_publicKey c) st = (Inr u, st') \<and> {c, u} \<subseteq> set (readAll st') \<and>
          c_id u = c_id d \<and> c_fingerprint u = c_fingerprint c)"
proof
  have key: "fpr (c_publicKey c) = Inr (c_fingerprint c)"
    using assms(1,2) by (simp add: book_ok_def list_all_iff contact_ok_def)
  obtain out st' where a: "addContact fpr now uuid \<lparr>in_label = l, in_publicKey = c_publicKey c\<rparr> st = (out, st')" by fastforce
  then have "\<exists>e. out = Inl e" by (cases rule: addContact_cases) (use assms(2) key in auto)
  then show "\<exists>e. fst (addContact fpr now uuid \<lparr>in_label = l, in_publicKey = c_publicKey c\<rparr> st) = Inl e" by (simp add: a)
  obtain idx where idx: "findIndex (\<lambda>x. c_id x = c_id d) (readAll st) = Some idx"
    using assms(3) findIndex_None [of "\<lambda>x. c_id x = c_id d" "readAll st"] by fastforce
  note at = findIndex_Some [OF idx]
  have "readAll st ! idx = d"
    using distinct_key_unique [of c_id "readAll st" "readAll st ! idx" d] at assms(1,3) by (simp add: book_ok_def)
  moreover have "c \<in> set ((readAll st)[idx := u])" for u
  proof -
    obtain k where k: "k < length (readAll st)" "readAll st ! k = c" using assms(2) by (auto simp: in_set_conv_nth)
    then have "k \<noteq> idx" using at assms(4) by auto
    then have "(readAll st)[idx := u] ! k = c" using k by simp
    then show ?thesis using k(1) by (metis length_list_update nth_mem)
  qed
  ultimately show "\<exists>u st'. updateContactKey fpr now (c_id d) (c_publicKey c) st = (Inr u, st') \<and> {c, u} \<subseteq> set (readAll st') \<and>
      c_id u = c_id d \<and> c_fingerprint u = c_fingerprint c"
    using idx key at assms(5,6) by (auto simp: updateContactKey_def key_error_def set_update_memI Let_def)
qed

theorem key_change_duplicates_witness:
  "\<exists>u st'. updateContactKey name_key ''t9'' ''2'' ''k1'' demo_book = (Inr u, st') \<and> c_fingerprint u = ''AM-k1''"
proof -
  have "\<exists>u st'. updateContactKey name_key ''t9'' (c_id (the demo_book ! 1)) (c_publicKey (hd (the demo_book))) demo_book = (Inr u, st')
      \<and> {hd (the demo_book), u} \<subseteq> set (readAll st') \<and> c_id u = c_id (the demo_book ! 1)
      \<and> c_fingerprint u = c_fingerprint (hd (the demo_book))"
    by (rule key_change_duplicates [THEN conjunct2, OF demo_book_ok(1)]) (simp_all add: demo_book_def)
  then show ?thesis by (auto simp: demo_book_def)
qed

end
