(* ===== verification/Indexed_Db.thy ===== *)
theory Indexed_Db
  imports Js_Text "HOL-Library.Char_ord" "HOL-Library.List_Lexorder"
begin

text \<open>
  The web client's database, apps/webapp/src/identity/db.ts. An IndexedDB object store keeps its
  records in the order of their keys (strings, by code unit); a transaction commits all of its writes
  or none. Whether a transaction commits is an argument of the functions that run one.
\<close>

section \<open>Object stores\<close>

type_synonym 'r object_store = "(string \<times> 'r) list"

fun os_put :: "string \<Rightarrow> 'r \<Rightarrow> 'r object_store \<Rightarrow> 'r object_store" where
  "os_put k r [] = [(k, r)]"
| "os_put k r ((j, x) # s) =
     (if k < j then (k, r) # (j, x) # s else if k = j then (k, r) # s else (j, x) # os_put k r s)"

definition os_get :: "string \<Rightarrow> 'r object_store \<Rightarrow> 'r option" where
  "os_get k s = map_of s k"

definition os_getAll :: "'r object_store \<Rightarrow> 'r list" where
  "os_getAll s = map snd s"

definition os_delete :: "string \<Rightarrow> 'r object_store \<Rightarrow> 'r object_store" where
  "os_delete k s = filter (\<lambda>(j, r). j \<noteq> k) s"

definition os_ok :: "('r \<Rightarrow> string) \<Rightarrow> 'r object_store \<Rightarrow> bool" where
  "os_ok key s = (sorted_wrt (<) (map fst s) \<and> list_all (\<lambda>(k, r). key r = k) s)"

section \<open>The database and its transactions\<close>

definition DB_VERSION :: nat where "DB_VERSION = 4"
definition IDENTITY_STORE :: string where "IDENTITY_STORE = ''identity''"
definition SENT_LINKS_STORE :: string where "SENT_LINKS_STORE = ''sent-links''"
definition CONTACTS_STORE :: string where "CONTACTS_STORE = ''contacts''"
definition RETIRED_STORE :: string where "RETIRED_STORE = ''retired-keys''"
definition SETTINGS_STORE :: string where "SETTINGS_STORE = ''settings''"

definition store_names :: "string list" where
  "store_names = [IDENTITY_STORE, SENT_LINKS_STORE, CONTACTS_STORE, RETIRED_STORE, SETTINGS_STORE]"

type_synonym 'r idb = "string \<Rightarrow> 'r object_store option"

text \<open>onupgradeneeded: every missing store is created, empty.\<close>

definition create_missing :: "string \<Rightarrow> 'r idb \<Rightarrow> 'r idb" where
  "create_missing name db = (if db name = None then db(name \<mapsto> []) else db)"

definition onupgradeneeded :: "'r idb \<Rightarrow> 'r idb" where
  "onupgradeneeded db = fold create_missing store_names db"

datatype 'e tx_error = TxAborted | TxThrown 'e | NoSuchStore string

text \<open>One transaction over one store; \<open>fn\<close> may throw.\<close>

definition withStore :: "bool \<Rightarrow> string \<Rightarrow> ('r object_store \<Rightarrow> 'e + ('a \<times> 'r object_store)) \<Rightarrow> 'r idb
    \<Rightarrow> ('e tx_error + 'a) \<times> 'r idb" where
  "withStore commits name fn db =
     (case db name of
        None \<Rightarrow> (Inl (NoSuchStore name), db)
      | Some s \<Rightarrow>
          (case fn s of
             Inl e \<Rightarrow> (Inl (TxThrown e), db)
           | Inr (x, s') \<Rightarrow> if commits then (Inr x, db(name \<mapsto> s')) else (Inl TxAborted, db)))"

text \<open>One transaction over several stores, as key rotation uses it.\<close>

definition withStores :: "bool \<Rightarrow> string list \<Rightarrow> ((string \<Rightarrow> 'r object_store) \<Rightarrow> 'e + ('a \<times> (string \<Rightarrow> 'r object_store)))
    \<Rightarrow> 'r idb \<Rightarrow> ('e tx_error + 'a) \<times> 'r idb" where
  "withStores commits names fn db =
     (case List.find (\<lambda>n. db n = None) names of
        Some n \<Rightarrow> (Inl (NoSuchStore n), db)
      | None \<Rightarrow>
          (case fn (\<lambda>n. the (db n)) of
             Inl e \<Rightarrow> (Inl (TxThrown e), db)
           | Inr (x, s') \<Rightarrow>
               if commits then (Inr x, \<lambda>n. if n \<in> set names then Some (s' n) else db n)
               else (Inl TxAborted, db)))"

section \<open>Facts\<close>

lemma os_get_put [simp]:
  assumes "sorted_wrt (<) (map fst s)"
  shows "os_get j (os_put k r s) = (if j = k then Some r else os_get j s)"
  using assms
proof (induction s)
  case (Cons p s)
  obtain i x where p: "p = (i, x)" by (cases p)
  have "map_of s k = None" if "k < i"
  proof -
    have "k \<notin> fst ` set s" using Cons.prems that p by (fastforce simp: image_iff)
    then show ?thesis by (simp add: map_of_eq_None_iff)
  qed
  then show ?case using Cons p by (auto simp: os_get_def)
qed (simp add: os_get_def)

lemma os_put_keys: "fst ` set (os_put k r s) = insert k (fst ` set s)"
  by (induction k r s rule: os_put.induct) auto

lemma os_put_sorted: "sorted_wrt (<) (map fst s) \<Longrightarrow> sorted_wrt (<) (map fst (os_put k r s))"
proof (induction k r s rule: os_put.induct)
  case (2 k r j x s)
  have keys: "set (map fst (os_put k r s)) = insert k (set (map fst s))" using os_put_keys [of k r s] by simp
  show ?case using 2 keys by (cases "k < j"; cases "k = j") (auto simp del: list.set_map)
qed simp

lemma os_put_member: "(j, x) \<in> set (os_put k r s) \<Longrightarrow> (j, x) = (k, r) \<or> (j, x) \<in> set s"
  by (induction k r s rule: os_put.induct) (auto split: if_splits)

lemma os_put_ok: "os_ok key s \<Longrightarrow> key r = k \<Longrightarrow> os_ok key (os_put k r s)"
  by (auto simp: os_ok_def os_put_sorted list_all_iff dest!: os_put_member)

lemma os_get_delete [simp]: "os_get j (os_delete k s) = (if j = k then None else os_get j s)"
  by (induction s) (auto simp: os_get_def os_delete_def)

lemma os_delete_ok: "os_ok key s \<Longrightarrow> os_ok key (os_delete k s)"
proof -
  have "sorted_wrt (<) (map fst s) \<Longrightarrow> sorted_wrt (<) (map fst (filter P s))" for P :: "string \<times> 'a \<Rightarrow> bool"
    by (induction s) auto
  then show "os_ok key s \<Longrightarrow> os_ok key (os_delete k s)" by (auto simp: os_ok_def os_delete_def list_all_iff)
qed

lemma os_getAll_members:
  assumes "os_ok key s"
  shows "x \<in> set (os_getAll s) \<longleftrightarrow> os_get (key x) s = Some x"
proof
  have dist: "distinct (map fst s)" using assms by (simp add: os_ok_def strict_sorted_iff)
  assume "x \<in> set (os_getAll s)"
  then obtain k where "(k, x) \<in> set s" by (auto simp: os_getAll_def)
  moreover from this have "key x = k" using assms by (auto simp: os_ok_def list_all_iff)
  ultimately show "os_get (key x) s = Some x" using dist by (simp add: os_get_def)
next
  assume "os_get (key x) s = Some x"
  then have "(key x, x) \<in> set s" by (simp add: os_get_def map_of_SomeD)
  then show "x \<in> set (os_getAll s)" by (auto simp: os_getAll_def intro: rev_image_eqI)
qed

lemma create_missing_keeps: "db n = Some s \<Longrightarrow> create_missing name db n = Some s"
  by (auto simp: create_missing_def)

lemma fold_create_keeps: "db n = Some s \<Longrightarrow> fold create_missing names db n = Some s"
  by (induction names arbitrary: db) (auto intro: create_missing_keeps)

lemma fold_create_present: "n \<in> set names \<Longrightarrow> fold create_missing names db n \<noteq> None"
proof (induction names arbitrary: db)
  case (Cons m names)
  show ?case
  proof (cases "m = n")
    case True
    then obtain s where "create_missing m db n = Some s" by (cases "db n") (auto simp: create_missing_def)
    then show ?thesis using fold_create_keeps by fastforce
  qed (use Cons in simp)
qed simp

end
