(* ===== verification/Web_Contacts.thy ===== *)
theory Web_Contacts
  imports Contact_Laws Indexed_Db
begin

text \<open>
  The web client's contact directory, apps/webapp/src/contacts/contacts-store.ts: the same operations as
  the mobile client's over an IndexedDB object store, and the proof that the two agree. The data types
  and the label check are those of \<open>Contact_Book\<close>; transactions are taken to commit.
\<close>

section \<open>Operations\<close>

type_synonym web_book = "contact object_store"
type_synonym 'e web_booked = "('e contact_error + contact) \<times> web_book"

definition web_readAll :: "web_book \<Rightarrow> contact list" where
  "web_readAll s = os_getAll s"

definition web_put :: "contact \<Rightarrow> web_book \<Rightarrow> web_book" where
  "web_put c s = os_put (c_id c) c s"

definition web_addContact :: "'e fp_fun \<Rightarrow> string \<Rightarrow> string \<Rightarrow> add_input \<Rightarrow> web_book \<Rightarrow> 'e web_booked" where
  "web_addContact fpr now uuid inp s =
     (case and_then (validateLabel (in_label inp)) (\<lambda>label.
             and_then (key_error (fpr (in_publicKey inp))) (\<lambda>fp.
               and_then (duplicate_check fp (web_readAll s)) (\<lambda>_. Inr (label, fp)))) of
        Inl e \<Rightarrow> (Inl e, s)
      | Inr (label, fp) \<Rightarrow>
          let rec = new_contact now uuid label (in_publicKey inp) fp in (Inr rec, web_put rec s))"

definition web_listContacts :: "(string \<Rightarrow> string \<Rightarrow> int) \<Rightarrow> web_book \<Rightarrow> contact list" where
  "web_listContacts collate s = sort_by (\<lambda>a b. collate (c_label a) (c_label b)) (web_readAll s)"

definition web_getContact :: "string \<Rightarrow> web_book \<Rightarrow> contact option" where
  "web_getContact i s = os_get i s"

definition web_updateContactKey :: "'e fp_fun \<Rightarrow> string \<Rightarrow> string \<Rightarrow> string \<Rightarrow> web_book \<Rightarrow> 'e web_booked" where
  "web_updateContactKey fpr now i newPublicKey s =
     (case web_getContact i s of
        None \<Rightarrow> (Inl (NotFoundError i), s)
      | Some existing \<Rightarrow>
          (case key_error (fpr newPublicKey) of
             Inl e \<Rightarrow> (Inl e, s)
           | Inr newFp \<Rightarrow>
               if newFp = c_fingerprint existing then (Inl SameKeyError, s)
               else if newFp \<in> set (c_previous existing) then (Inl RotatedAwayError, s)
               else
                 let updated = existing\<lparr>c_publicKey := newPublicKey, c_fingerprint := newFp, c_verified := False,
                       c_previous := c_previous existing @ [c_fingerprint existing], c_updatedAt := now\<rparr>
                 in (Inr updated, web_put updated s)))"

definition web_setContactVerified :: "string \<Rightarrow> string \<Rightarrow> bool \<Rightarrow> web_book \<Rightarrow> 'e web_booked" where
  "web_setContactVerified now i verified s =
     (case web_getContact i s of
        None \<Rightarrow> (Inl (NotFoundError i), s)
      | Some existing \<Rightarrow>
          let updated = existing\<lparr>c_verified := verified, c_updatedAt := now\<rparr> in (Inr updated, web_put updated s))"

definition web_renameContact :: "string \<Rightarrow> string \<Rightarrow> string \<Rightarrow> web_book \<Rightarrow> 'e web_booked" where
  "web_renameContact now i label s =
     (case validateLabel label of
        Inl e \<Rightarrow> (Inl e, s)
      | Inr trimmed \<Rightarrow>
          (case web_getContact i s of
             None \<Rightarrow> (Inl (NotFoundError i), s)
           | Some existing \<Rightarrow>
               let updated = existing\<lparr>c_label := trimmed, c_updatedAt := now\<rparr> in (Inr updated, web_put updated s)))"

definition web_deleteContact :: "string \<Rightarrow> web_book \<Rightarrow> web_book" where
  "web_deleteContact i s = os_delete i s"

definition web_clearContacts :: "web_book \<Rightarrow> web_book" where
  "web_clearContacts s = []"

section \<open>The two directories agree\<close>

text \<open>What a step answers; the contact a duplicate is reported against depends on the order of the scan.\<close>

fun erase_duplicate :: "'e contact_error + 'a \<Rightarrow> 'e contact_error + 'a" where
  "erase_duplicate (Inl (DuplicateFingerprintError i l r)) = Inl (DuplicateFingerprintError [] [] CurrentKey)"
| "erase_duplicate r = r"

definition as_answer :: "'e contact_error + contact \<Rightarrow> ('e contact_error + contact) option" where
  "as_answer r = Some (erase_duplicate r)"

fun book_answer :: "'e fp_fun \<Rightarrow> book_op \<Rightarrow> book \<Rightarrow> ('e contact_error + contact) option \<times> book" where
  "book_answer fpr (AddC inp uuid now) st = map_prod as_answer id (addContact fpr now uuid inp st)"
| "book_answer fpr (UpdateKey i k now) st = map_prod as_answer id (updateContactKey fpr now i k st)"
| "book_answer fpr (SetVerified i v now) st = map_prod as_answer id (setContactVerified now i v st)"
| "book_answer fpr (Rename i l now) st = map_prod as_answer id (renameContact now i l st)"
| "book_answer fpr (DeleteC i) st = (None, deleteContact i st)"

fun web_answer :: "'e fp_fun \<Rightarrow> book_op \<Rightarrow> web_book \<Rightarrow> ('e contact_error + contact) option \<times> web_book" where
  "web_answer fpr (AddC inp uuid now) s = map_prod as_answer id (web_addContact fpr now uuid inp s)"
| "web_answer fpr (UpdateKey i k now) s = map_prod as_answer id (web_updateContactKey fpr now i k s)"
| "web_answer fpr (SetVerified i v now) s = map_prod as_answer id (web_setContactVerified now i v s)"
| "web_answer fpr (Rename i l now) s = map_prod as_answer id (web_renameContact now i l s)"
| "web_answer fpr (DeleteC i) s = (None, web_deleteContact i s)"

primrec answers :: "('p \<Rightarrow> 's \<Rightarrow> 'a \<times> 's) \<Rightarrow> 'p list \<Rightarrow> 's \<Rightarrow> 'a list \<times> 's" where
  "answers step [] s = ([], s)"
| "answers step (p # ps) s =
     (case step p s of (a, s') \<Rightarrow> (case answers step ps s' of (as, t) \<Rightarrow> (a # as, t)))"

definition same_book :: "book \<Rightarrow> web_book \<Rightarrow> bool" where
  "same_book st s = (distinct (map c_id (readAll st)) \<and> os_ok c_id s \<and> (\<forall>i. getContact i st = web_getContact i s))"

lemma find_update:
  "findIndex (\<lambda>c. c_id c = i) cs = Some idx \<Longrightarrow> c_id u = i \<Longrightarrow>
   List.find (\<lambda>c. c_id c = j) (cs[idx := u]) = (if j = i then Some u else List.find (\<lambda>c. c_id c = j) cs)"
  by (induction cs arbitrary: idx) (auto split: if_splits nat.splits)

lemma find_snoc: "List.find P (cs @ [c]) = (case List.find P cs of None \<Rightarrow> (if P c then Some c else None) | Some x \<Rightarrow> Some x)"
  by (induction cs) auto

lemma find_filter: "List.find (\<lambda>c. c_id c = j) (filter (\<lambda>c. c_id c \<noteq> i) cs) =
    (if j = i then None else List.find (\<lambda>c. c_id c = j) cs)"
  by (induction cs) auto

lemma find_member: "distinct (map c_id cs) \<Longrightarrow> c \<in> set cs \<longleftrightarrow> List.find (\<lambda>d. c_id d = c_id c) cs = Some c"
  by (induction cs) (auto simp: find_Some_iff image_iff)

lemma same_members:
  assumes "same_book st s"
  shows "set (readAll st) = set (web_readAll s)"
  using assms find_member [of "readAll st"] os_getAll_members [of c_id s]
  by (auto simp: same_book_def getContact_def web_getContact_def web_readAll_def)

lemma same_put:
  assumes "same_book st s" "findIndex (\<lambda>c. c_id c = i) (readAll st) = Some idx" "c_id u = i"
  shows "same_book (writeAll ((readAll st)[idx := u])) (web_put u s)"
proof -
  have "c_id (readAll st ! idx) = i" "idx < length (readAll st)" using findIndex_Some [OF assms(2)] by auto
  then have "map c_id ((readAll st)[idx := u]) = map c_id (readAll st)"
    by (intro map_update_same_key) (simp_all add: assms(3))
  moreover have "os_ok c_id (web_put u s)" "sorted_wrt (<) (map fst s)"
    using assms(1) os_put_ok [of c_id s u] by (simp_all add: same_book_def web_put_def) (simp add: os_ok_def)
  ultimately show ?thesis
    using assms find_update [OF assms(2,3)]
    by (simp add: same_book_def getContact_def web_getContact_def) (simp add: web_put_def)
qed

lemma same_found:
  assumes "same_book st s"
  shows "web_getContact i s = map_option (\<lambda>k. readAll st ! k) (findIndex (\<lambda>c. c_id c = i) (readAll st))"
  using assms findIndex_find [of "\<lambda>c. c_id c = i" "readAll st"] by (simp add: same_book_def getContact_def)


lemma duplicate_check_erased:
  assumes "set cs = set ds"
  shows "erase_duplicate (duplicate_check fp cs :: 'e contact_error + unit) = erase_duplicate (duplicate_check fp ds)"
proof -
  have err: "\<exists>i l r. duplicate_check fp cs = (Inl (DuplicateFingerprintError i l r) :: 'e contact_error + unit)"
    if "duplicate_check fp cs \<noteq> (Inr () :: 'e contact_error + unit)" for cs
    using that by (induction cs) auto
  have "duplicate_check fp cs = (Inr () :: 'e contact_error + unit) \<longleftrightarrow>
      duplicate_check fp ds = (Inr () :: 'e contact_error + unit)"
    by (simp add: duplicate_check_Inr assms)
  then show ?thesis using err [of cs] err [of ds] by fastforce
qed

lemma same_add:
  assumes "same_book st s" "uuid \<notin> book_ids st"
    "addContact fpr now uuid inp st = (a, st')" "web_addContact fpr now uuid inp s = (b, s')"
  shows "erase_duplicate a = erase_duplicate b \<and> same_book st' s'"
proof -
  let ?d = "\<lambda>fp cs. duplicate_check fp cs :: 'a contact_error + unit"
  have er: "erase_duplicate (?d fp (readAll st)) = erase_duplicate (?d fp (web_readAll s))" for fp
    by (rule duplicate_check_erased [OF same_members [OF assms(1)]])
  have same: "?d fp (readAll st) = Inr () \<longleftrightarrow> ?d fp (web_readAll s) = Inr ()" for fp
    by (simp add: duplicate_check_Inr same_members [OF assms(1)])
  have lift: "erase_duplicate (Inl e :: 'a contact_error + contact) = erase_duplicate (Inl e')"
    if "erase_duplicate (Inl e :: 'a contact_error + unit) = erase_duplicate (Inl e')" for e e'
    using that by (cases e; cases e') auto
  have new: "same_book (writeAll (readAll st @ [c])) (web_put c s)" if "c_id c = uuid" for c
  proof -
    have "List.find (\<lambda>d. c_id d = uuid) (readAll st) = None"
      using assms(2) by (auto simp: find_None_iff book_ids_def)
    moreover have "os_ok c_id (web_put c s)" "sorted_wrt (<) (map fst s)"
      using assms(1) os_put_ok [of c_id s c] by (simp_all add: same_book_def web_put_def) (simp add: os_ok_def)
    ultimately show ?thesis
      using assms that by (auto simp: same_book_def getContact_def web_getContact_def find_snoc book_ids_def web_put_def
          split: option.splits)
  qed
  show ?thesis
  proof (cases "and_then (validateLabel (in_label inp)) (\<lambda>label. and_then (key_error (fpr (in_publicKey inp))) (\<lambda>fp. Inr (label, fp)))
      :: 'a contact_error + string \<times> string")
    case (Inl e)
    then show ?thesis
      using assms(1,3,4) by (auto simp: addContact_def web_addContact_def result_simps)
  next
    case (Inr q)
    then obtain label fp where q: "validateLabel (in_label inp) = (Inr label :: 'a contact_error + string)"
      "key_error (fpr (in_publicKey inp)) = Inr fp"
      by (auto simp: result_simps)
    show ?thesis
    proof (cases "?d fp (readAll st)")
      case (Inl e)
      then obtain e' where "?d fp (web_readAll s) = Inl e'" using same [of fp] by (cases "?d fp (web_readAll s)") auto
      then show ?thesis
        using Inl assms(1,3,4) er [of fp] lift by (auto simp: addContact_def web_addContact_def q)
    next
      case (Inr u)
      then have "?d fp (web_readAll s) = Inr ()" using same [of fp] by simp
      then show ?thesis
        using Inr assms(3,4) new by (auto simp: addContact_def web_addContact_def q Let_def new_contact_def)
    qed
  qed
qed

lemma same_delete:
  assumes "same_book st s"
  shows "same_book (deleteContact i st) (web_deleteContact i s)"
proof -
  have "getContact j (deleteContact i st) = (if j = i then None else getContact j st)" for j
  proof (cases "length (filter (\<lambda>c. c_id c \<noteq> i) (readAll st)) = length (readAll st)")
    case True
    then have "filter (\<lambda>c. c_id c \<noteq> i) (readAll st) = readAll st" by (metis filter_id_conv length_filter_less less_irrefl)
    then show ?thesis
      using find_filter [of j i "readAll st"] by (auto simp: deleteContact_def getContact_def split: if_splits)
  qed (simp add: deleteContact_def getContact_def Let_def find_filter)
  moreover have "distinct (map c_id (readAll (deleteContact i st)))"
    using assms by (auto simp: same_book_def deleteContact_def Let_def distinct_map_filter)
  ultimately show ?thesis
    using assms by (simp add: same_book_def web_deleteContact_def os_delete_ok web_getContact_def)
qed

lemma answer_sim:
  assumes "same_book st s" "fresh_ids (p # ps) st"
    "book_answer fpr p st = (a, st')" "web_answer fpr p s = (b, s')"
  shows "a = b \<and> same_book st' s'"
proof (cases p)
  case (AddC inp uuid now)
  obtain o1 t1 where m: "addContact fpr now uuid inp st = (o1, t1)" by fastforce
  obtain o2 t2 where w: "web_addContact fpr now uuid inp s = (o2, t2)" by fastforce
  have "uuid \<notin> book_ids st" using assms(2) AddC by (auto simp: fresh_ids_def)
  from same_add [OF assms(1) this m w] show ?thesis using assms(3,4) AddC m w by (auto simp: as_answer_def)
next
  case (UpdateKey i k now)
  then show ?thesis
    using assms(1,3,4) same_found [OF assms(1), of i]
    by (cases "findIndex (\<lambda>c. c_id c = i) (readAll st)")
      (auto simp: updateContactKey_def web_updateContactKey_def Let_def split: sum.splits if_splits
        intro!: same_put dest: findIndex_Some)
next
  case (SetVerified i v now)
  then show ?thesis
    using assms(1,3,4) same_found [OF assms(1), of i]
    by (cases "findIndex (\<lambda>c. c_id c = i) (readAll st)")
      (auto simp: setContactVerified_def web_setContactVerified_def Let_def intro!: same_put dest: findIndex_Some)
next
  case (Rename i l now)
  then show ?thesis
    using assms(1,3,4) same_found [OF assms(1), of i]
    by (cases "findIndex (\<lambda>c. c_id c = i) (readAll st)")
      (auto simp: renameContact_def web_renameContact_def Let_def split: sum.splits intro!: same_put dest: findIndex_Some)
next
  case (DeleteC i)
  then show ?thesis using assms(1,3,4) same_delete by auto
qed

lemma book_answer_state: "snd (book_answer fpr p st) = book_step fpr p st"
  by (cases p) simp_all

lemma answers_sim:
  assumes "book_ok fpr st" "same_book st s" "fresh_ids ps st"
    "answers (book_answer fpr) ps st = (as, st')" "answers (web_answer fpr) ps s = (bs, s')"
  shows "as = bs \<and> same_book st' s'"
  using assms
proof (induction ps arbitrary: st s as bs)
  case (Cons p ps)
  obtain a t as' where a: "book_answer fpr p st = (a, t)" "answers (book_answer fpr) ps t = (as', st')" "as = a # as'"
    using Cons.prems(4) by (auto split: prod.splits)
  obtain b u bs' where b: "web_answer fpr p s = (b, u)" "answers (web_answer fpr) ps u = (bs', s')" "bs = b # bs'"
    using Cons.prems(5) by (auto split: prod.splits)
  have t: "t = book_step fpr p st" using book_answer_state [of fpr p st] a(1) by simp
  have "book_ok fpr t" "fresh_ids ps t" using book_step_ok [OF Cons.prems(1,3)] by (simp_all add: t)
  moreover have "a = b \<and> same_book t u" by (rule answer_sim [OF Cons.prems(2,3) a(1) b(1)])
  ultimately show ?case using Cons.IH [of t u] a b by simp
qed simp

section \<open>Properties\<close>

text \<open>
  The web and the mobile contact directory are the same directory. From the empty one, any sequence
  of actions gets the same answers from both clients (the contact a duplicate key is reported against
  apart), and afterwards every contact is the same on both.
\<close>

theorem directories_agree:
  assumes "distinct (op_uuids ps)"
  shows "fst (answers (book_answer fpr) ps None) = fst (answers (web_answer fpr) ps [])
    \<and> getContact i (snd (answers (book_answer fpr) ps None)) = web_getContact i (snd (answers (web_answer fpr) ps []))"
proof -
  have "book_ok fpr None" "same_book None []" "fresh_ids ps None"
    using assms by (simp_all add: book_ok_def same_book_def os_ok_def getContact_def web_getContact_def os_get_def
        fresh_ids_def book_ids_def)
  from answers_sim [OF this prod.collapse [symmetric] prod.collapse [symmetric]]
  show ?thesis by (simp add: same_book_def)
qed

theorem directories_agree_witness:
  "getContact ''1'' (snd (answers (book_answer name_key) demo_book_ops None)) =
   web_getContact ''1'' (snd (answers (web_answer name_key) demo_book_ops []))"
  using directories_agree [of demo_book_ops name_key "''1''"] by (simp add: demo_book_ops_def)

text \<open>
  Upgrading the web client's database loses nothing: after it every object store exists, and the
  stores that existed hold what they held.
\<close>

theorem upgrade_keeps_rows:
  "(n \<in> set store_names \<longrightarrow> onupgradeneeded db n \<noteq> None) \<and> (db n = Some s \<longrightarrow> onupgradeneeded db n = Some s)"
  unfolding onupgradeneeded_def using fold_create_present fold_create_keeps by blast

theorem upgrade_keeps_rows_witness:
  "onupgradeneeded [IDENTITY_STORE \<mapsto> [(''identity'', 1 :: nat)]] IDENTITY_STORE = Some [(''identity'', 1)]
   \<and> onupgradeneeded [IDENTITY_STORE \<mapsto> [(''identity'', 1 :: nat)]] CONTACTS_STORE \<noteq> None"
  using upgrade_keeps_rows [of IDENTITY_STORE "[IDENTITY_STORE \<mapsto> [(''identity'', 1 :: nat)]]" "[(''identity'', 1)]"]
    upgrade_keeps_rows [of CONTACTS_STORE "[IDENTITY_STORE \<mapsto> [(''identity'', 1 :: nat)]]" "[]"]
  by (simp add: store_names_def)

end
