(* ===== verification/End_To_End.thy ===== *)
theory End_To_End
  imports Client_Properties Server_Properties Pg_Store
begin

text \<open>
  The mobile client against the server over Postgres: the network takes a request to the route of
  apps/api/src/routes/messages.ts it names, the server answers, and the client reads the answer.
\<close>

section \<open>The network between client and server\<close>

fun split_on :: "char \<Rightarrow> string \<Rightarrow> string list" where
  "split_on c [] = [[]]"
| "split_on c (x # xs) =
     (if x = c then [] # split_on c xs
      else case split_on c xs of [] \<Rightarrow> [[x]] | h # t \<Rightarrow> (x # h) # t)"

text \<open>
  The routes the server registers. Fastify decodes percent escapes of a parameter; link ids have none, so
  the raw segment is taken.
\<close>

definition match_route :: "string \<Rightarrow> string \<Rightarrow> route option" where
  "match_route method path =
     (let p = split_on (CHR ''/'') path in
      if method = ''GET'' \<and> p = [[], ''api'', ''health''] then Some RHealth
      else if method = ''GET'' \<and> p = [[], ''metrics''] then Some RMetrics
      else if method = ''POST'' \<and> p = [[], ''api'', ''messages''] then Some RCreate
      else if method = ''POST'' \<and> p = [[], ''api'', ''messages'', ''list''] then Some RList
      else if method = ''GET'' \<and> length p = 4 \<and> take 3 p = [[], ''api'', ''messages''] then Some (RGet (p ! 3))
      else if method = ''POST'' \<and> length p = 5 \<and> take 3 p = [[], ''api'', ''messages''] \<and> p ! 4 = ''open'' then Some (ROpen (p ! 3))
      else if method = ''POST'' \<and> length p = 5 \<and> take 3 p = [[], ''api'', ''messages''] \<and> p ! 4 = ''revoke'' then Some (RRevoke (p ! 3))
      else None)"

definition fastify_of :: "string \<Rightarrow> http_request \<Rightarrow> fastify_request" where
  "fastify_of ip hr =
     \<lparr>fq_method = hr_method hr, fq_headers = map (\<lambda>(k, v). (k, Some (HOne v))) (hr_headers hr), fq_ip = ip, fq_body = hr_body hr\<rparr>"

definition api_call :: "('s, 'r) shell \<Rightarrow> int \<Rightarrow> string \<Rightarrow> string \<Rightarrow> string \<Rightarrow> ('s, 'r) server \<times> registry \<Rightarrow> http_request
    \<Rightarrow> fetch_result \<times> ('s, 'r) server \<times> registry" where
  "api_call sh now minted ip base st hr =
     (case serve sh now minted (Routed (match_route (hr_method hr) (drop (length base) (hr_url hr)))) (fastify_of ip hr) st of
        (rep, st') \<Rightarrow> (Response (rp_status rep) (case rp_body rep of JsonBody j \<Rightarrow> Some j | TextBody t \<Rightarrow> None), st'))"

text \<open>The request that postMessage sends.\<close>

definition posted :: "client_env \<Rightarrow> create_request \<Rightarrow> http_request" where
  "posted env q = \<lparr>hr_method = ''POST'', hr_url = BASE_URL env @ ''/api/messages'', hr_headers = json_type_header,
     hr_body = Some (stringify env (create_request_json q))\<rparr>"

definition opened :: "client_env \<Rightarrow> string \<Rightarrow> http_request" where
  "opened env i = \<lparr>hr_method = ''POST'', hr_url = BASE_URL env @ ''/api/messages/'' @ encodeURIComponent i @ ''/open'', hr_headers = [],
     hr_body = Some NO_BODY\<rparr>"

lemma split_on_plain: "c \<notin> set s \<Longrightarrow> split_on c s = [s]"
  by (induction s) auto

lemma split_on_join: "c \<notin> set s \<Longrightarrow> split_on c (s @ c # t) = s # split_on c t"
  by (induction s) auto

lemma route_create: "match_route ''POST'' ''/api/messages'' = Some RCreate"
  by (simp add: match_route_def)

lemma route_open:
  assumes "LINK_ID_REGEX i"
  shows "match_route ''POST'' (''/api/messages/'' @ i @ ''/open'') = Some (ROpen i)"
proof -
  have "CHR ''/'' \<notin> set i" using assms by (auto simp: LINK_ID_REGEX_def alnum_def char_in_def list_all_iff)
  then have "split_on (CHR ''/'') (i @ CHR ''/'' # ''open'') = [i, ''open'']"
    by (simp add: split_on_join)
  then have "split_on (CHR ''/'') (''/api/messages/'' @ i @ ''/open'') = [[], ''api'', ''messages'', i, ''open'']" by simp
  then show ?thesis by (simp only: match_route_def Let_def) (simp add: numeral_eq_Suc)
qed

lemma web_request_posted:
  "web_request (fastify_of ip (posted env q)) =
     \<lparr>client_ip = Some (http_strip (if ip = [] then ''unknown'' else ip)), raw_body = stringify env (create_request_json q),
      token_header = None\<rparr>"
  by (simp add: web_request_def build_headers_def fastify_of_def posted_def json_type_header_def ascii_upper_def Let_def
      copy_header_def SKIP_def ascii_lower_def CLIENT_IP_HEADER_def headers_append_def headers_set_def headers_get_def TOKEN_HEADER_def)

lemma web_request_opened:
  "web_request (fastify_of ip (opened env i)) =
     \<lparr>client_ip = Some (http_strip (if ip = [] then ''unknown'' else ip)), raw_body = [], token_header = None\<rparr>"
  by (simp add: web_request_def build_headers_def fastify_of_def opened_def NO_BODY_def ascii_upper_def Let_def
      ascii_lower_def CLIENT_IP_HEADER_def headers_append_def headers_set_def headers_get_def TOKEN_HEADER_def)

section \<open>A message created\<close>

lemma posted_Inr:
  assumes "postMessage env q = Inr resp"
  obtains st j where "net env (posted env q) = Response st (Some j)" "res_ok st"
  using assms
  by (auto simp: postMessage_def fetchJson_def requestWithTimeout_def requireBaseUrl_def posted_def result_simps
      split: if_splits fetch_result.splits option.splits)

definition create_status_ok :: "('s, 'r) handled \<Rightarrow> bool" where
  "create_status_ok h = (\<forall>r. fst h = Inr r \<longrightarrow> status_code r \<in> {201, 400, 409, 429, 500})"

lemma limit_statuses: "(\<And>sv'. create_status_ok (k sv')) \<Longrightarrow> create_status_ok (with_limit d now p l req sv k)"
  by (auto simp: with_limit_def create_status_ok_def split: prod.splits sum.splits)

lemma create_statuses: "create_status_ok (create_message d now token req sv)"
  unfolding create_message_def
  by (rule limit_statuses) (simp add: create_status_ok_def split: option.split prod.split sum.split)

lemma api_created:
  assumes "api_call sh now minted ip (BASE_URL env) st (posted env q) = (Response s (Some j), st1)" "res_ok s"
  obtains r where "create_message (sh_deps sh) now minted (web_request (fastify_of ip (posted env q))) (fst st) = (Inr r, fst st1)"
    "status_code r = 201"
proof -
  let ?h = "create_message (sh_deps sh) now minted (web_request (fastify_of ip (posted env q))) (fst st)"
  have m: "match_route (hr_method (posted env q)) (drop (length (BASE_URL env)) (hr_url (posted env q))) = Some RCreate"
    by (simp add: posted_def route_create)
  obtain out sv' where h: "?h = (out, sv')" by (cases ?h)
  have codes: "\<not> res_ok 413" "\<not> res_ok 500" "rp_status (errorHandler (Some 413)) = 413" "rp_status (errorHandler None) = 500"
    by (simp_all add: res_ok_def errorHandler_def json_reply_def)
  show ?thesis
  proof (cases out)
    case (Inl e)
    then show ?thesis
      using assms codes
      by (auto simp: api_call_def serve_def m run_route_def Let_def reply_of_def h split: prod.splits if_splits)
  next
    case (Inr r)
    then have "status_code r \<in> {201, 400, 409, 429, 500}"
      using create_statuses [of "sh_deps sh" now minted "web_request (fastify_of ip (posted env q))" "fst st"] h
      by (simp add: create_status_ok_def)
    moreover have "sv' = fst st1 \<and> status_code r = s"
      using assms codes Inr
      by (auto simp: api_call_def serve_def m run_route_def Let_def reply_of_def h json_reply_def split: prod.splits if_splits)
    ultimately show ?thesis using that [of r] h Inr assms(2) by (auto simp: res_ok_def)
  qed
qed

lemma fetched_open:
  assumes "requireBaseUrl env = Inr (BASE_URL env)" "LINK_ID_REGEX i"
    "net env (opened env i) = fst (api_call sh now minted ip (BASE_URL env) st (opened env i))"
    "fst (open_message (sh_deps sh) now i (web_request (fastify_of ip (opened env i))) (fst st)) = Inr r" "status_code r = 200"
  shows "openMessage env i = validateOpenMessageResponse (resp_body r)"
proof -
  have m: "match_route (hr_method (opened env i)) (drop (length (BASE_URL env)) (hr_url (opened env i))) = Some (ROpen i)"
    using route_open [OF assms(2)] by (simp add: opened_def encodeURIComponent_id [OF assms(2)])
  obtain sv' where h: "open_message (sh_deps sh) now i (web_request (fastify_of ip (opened env i))) (fst st) = (Inr r, sv')"
    using assms(4) by (cases "open_message (sh_deps sh) now i (web_request (fastify_of ip (opened env i))) (fst st)") simp
  have "utf8_length NO_BODY = 0" by (simp add: utf8_length_def NO_BODY_def text_of_string_def TextEncoder_def)
  moreover have "fq_body (fastify_of ip (opened env i)) = Some NO_BODY" by (simp add: fastify_of_def opened_def)
  ultimately have "fst (api_call sh now minted ip (BASE_URL env) st (opened env i)) = Response 200 (Some (resp_body r))"
    by (simp add: api_call_def serve_def m run_route_def Let_def reply_of_def h json_reply_def assms(5) case_prod_beta
        bodyLimit_def)
  then show ?thesis
    using assms(1,3)
    by (simp add: openMessage_def fetchJson_def requestWithTimeout_def opened_def)
qed

section \<open>The whole way\<close>

text \<open>What the server hands out of a message that it has accepted, whichever client asks.\<close>

lemma delivered:
  fixes st :: "(pg_db, 'r) server \<times> registry"
  assumes "i = generateLinkId (sp_id_bytes P)" "q = create_request_of P inp i ct"
    and json: "parse_json (d_env (sh_deps sh)) (stringify env (create_request_json q)) = Some (create_request_json q)"
    and server: "d_links (sh_deps sh) = pg_ops" "pg_inv (store (fst st))"
      "api_call sh t1 minted ip1 (BASE_URL env) st (posted env q) = (Response s (Some j), st1)" "res_ok s"
      "parse_date (d_env (sh_deps sh)) (sp_iso P (si_expiresAt inp)) = Some (si_expiresAt inp)"
    and reader: "t2 < si_expiresAt inp"
  obtains row where "\<And>w2 n rl. raw_body w2 = [] \<Longrightarrow>
      d_rate (sh_deps sh) t2 (''messages:open:'' @ hash_ip (d_env (sh_deps sh)) (getClientIp w2)) RATE_LIMIT_WINDOW_SECONDS
         (limiter (fst st1)) = (Inr n, rl) \<Longrightarrow> n \<le> RATE_LIMIT_MAX \<Longrightarrow>
      fst (open_message (sh_deps sh) t2 i w2 (fst st1)) = Inr (open_response (d_env (sh_deps sh)) ct row)"
    "lm_createdAt row = None" "lm_expiresAt row = si_expiresAt inp" "num (lm_maxOpens row) = si_maxOpens inp"
    "LINK_ID_REGEX i" "ct \<noteq> []"
proof -
  let ?d = "sh_deps sh" and ?w = "web_request (fastify_of ip1 (posted env q))"
  obtain r1 where r1: "create_message ?d t1 minted ?w (fst st) = (Inr r1, fst st1)" "status_code r1 = 201"
    by (rule api_created [OF server(3,4)])
  let ?body = "\<lparr>b_id = i, b_ciphertext = bytesToBase64 ct, b_expiresAt = sp_iso P (si_expiresAt inp), b_maxOpens = si_maxOpens inp\<rparr>"
  have body: "parseBody (d_env ?d) (raw_body ?w) = Some ?body"
    using posted_body_parses [OF json] by (simp add: web_request_posted assms(2) create_request_of_def)
  from pg.create_all_or_nothing [OF server(2,1) r1(1)] r1(2) body
  obtain expiresAt blob where chk: "check_create (d_env ?d) t1 ?body = Some (expiresAt, blob)" and inv: "pg_inv (store (fst st1))"
    and abs: "pg_abs (store (fst st1)) i = Some \<lparr>e_meta = new_meta (requested (d_env ?d) minted expiresAt ?body),
      e_token = Some (hash_token (d_env ?d) minted), e_terminal = None, e_blob = Some blob\<rparr>"
    by auto
  note facts = check_create_facts [OF chk, simplified]
  have exp: "expiresAt = si_expiresAt inp" and opens: "num (int_of_num (si_maxOpens inp)) = si_maxOpens inp"
    using chk server(5) by (auto simp: check_create_def num_int_of_num split: if_splits option.splits)
  have blob: "blob = ct" using facts(4) by (simp add: decodeBase64_bytesToBase64)
  define e where "e = \<lparr>e_meta = new_meta (requested (d_env ?d) minted expiresAt ?body),
      e_token = Some (hash_token (d_env ?d) minted), e_terminal = None, e_blob = Some blob\<rparr>"
  obtain e' where e': "open_entry t2 e = Some e'"
    using reader(1) by (simp add: open_entry_def e_def new_meta_def requested_def Let_def exp)
  note kept = open_entry_Some [OF e']
  have meta: "lm_createdAt (e_meta e') = None" "lm_expiresAt (e_meta e') = si_expiresAt inp"
    "lm_maxOpens (e_meta e') = int_of_num (si_maxOpens inp)"
    by (simp_all add: kept) (simp_all add: e_def new_meta_def requested_def exp)
  have "fst (open_message ?d t2 i w2 (fst st1)) = Inr (open_response (d_env ?d) ct (e_meta e'))"
    if "raw_body w2 = []" "d_rate (sh_deps sh) t2 (''messages:open:'' @ hash_ip (d_env (sh_deps sh)) (getClientIp w2))
      RATE_LIMIT_WINDOW_SECONDS (limiter (fst st1)) = (Inr n, rl)" "n \<le> RATE_LIMIT_MAX" for w2 n rl
    using pg.open_live [OF inv server(1) facts(1) _ that(2,3) _ e', of ct] abs that(1)
    by (simp add: e_def blob isEmptyBody_def)
  moreover have "ct \<noteq> []" using facts(5) by (auto simp: blob MIN_CIPHERTEXT_BYTES_def)
  ultimately show ?thesis using that meta opens facts(1) by simp
qed

text \<open>
  C2: what one person writes in the mobile app, the other reads in theirs. A message that createAndSeal
  reports as sent, uploaded to the server over Postgres, is fetched and decrypted by the holder of the
  recipient key, before its expiry and within the rate limit, to the same text and attachment, and
  both sides show the same fingerprint.
\<close>

theorem client_end_to_end:
  fixes st :: "(pg_db, 'r) server \<times> registry"
  assumes crypto: "hpke_correct S" "generateIdentity S (public_of S priv, priv) = Inr me" "si_recipient inp = exportPublicKey me"
    and sender: "createAndSeal S P env inp tracked = (Inr sent, phases, tracked')" "plain_payload (seal_payload inp)"
      "prepare_and_encrypt S P inp = (Inr (i, fp, ct), ph)" "q = create_request_of P inp i ct"
      "parse_json (d_env (sh_deps sh)) (stringify env (create_request_json q)) = Some (create_request_json q)"
    and server: "d_links (sh_deps sh) = pg_ops" "pg_inv (store (fst st))"
      "net env (posted env q) = fst (api_call sh t1 minted ip1 (BASE_URL env) st (posted env q))"
      "st1 = snd (api_call sh t1 minted ip1 (BASE_URL env) st (posted env q))"
      "parse_date (d_env (sh_deps sh)) (sp_iso P (si_expiresAt inp)) = Some (si_expiresAt inp)"
    and reader: "requireBaseUrl env' = Inr (BASE_URL env')" "t2 < si_expiresAt inp"
      "net env' (opened env' i) = fst (api_call sh t2 minted' ip2 (BASE_URL env') st1 (opened env' i))"
      "parse (iso_date (d_env (sh_deps sh)) (si_expiresAt inp)) = Some (si_expiresAt inp)"
      "d_rate (sh_deps sh) t2 (''messages:open:'' @ hash_ip (d_env (sh_deps sh)) (getClientIp (web_request (fastify_of ip2 (opened env' i)))))
         RATE_LIMIT_WINDOW_SECONDS (limiter (fst st1)) = (Inr n, rl)" "n \<le> RATE_LIMIT_MAX"
  shows "\<exists>out. fetchAndOpen S parse env' me i = Inr out \<and> ro_text out = si_message inp
    \<and> ro_attachments out = attachments (seal_payload inp) \<and> ro_fingerprint out = so_fingerprint sent \<and> so_id sent = i"
proof -
  obtain resp where sent: "so_id sent = i" "so_fingerprint sent = fp" "postMessage env q = Inr resp"
    using sender(1,3,4) by (auto elim!: createAndSeal_Inr)
  obtain r pt where prep: "importPublicKey S (si_recipient inp) = Inr r" "fingerprint (sha256 S) (si_recipient inp) = Inr fp"
    "encodePayload (seal_payload inp) = Inr pt" "seal S (sp_seal_bytes P) pt r (seal_context i inp) = Inr ct"
    using sender(3) by (rule prepare_Inr)
  have i: "i = generateLinkId (sp_id_bytes P)" using sender(3) by (rule prepare_Inr)
  obtain s j where "net env (posted env q) = Response s (Some j)" "res_ok s" using sent(3) by (rule posted_Inr)
  then have call: "api_call sh t1 minted ip1 (BASE_URL env) st (posted env q) = (Response s (Some j), st1)" "res_ok s"
    using server(3,4) by (simp_all add: prod_eq_iff)
  have "raw_body (web_request (fastify_of ip2 (opened env' i))) = []" by (simp add: web_request_opened)
  with delivered [OF i sender(4,5) server(1,2) call server(5) reader(2)] reader(5,6)
  obtain row where row: "fst (open_message (sh_deps sh) t2 i (web_request (fastify_of ip2 (opened env' i))) (fst st1)) =
      Inr (open_response (d_env (sh_deps sh)) ct row)" "lm_createdAt row = None" "lm_expiresAt row = si_expiresAt inp"
    "num (lm_maxOpens row) = si_maxOpens inp" "LINK_ID_REGEX i" "ct \<noteq> []" by metis
  from fetched_open [OF reader(1) row(5) reader(3) row(1)]
  have "openMessage env' i = validateOpenMessageResponse (resp_body (open_response (d_env (sh_deps sh)) ct row))" by simp
  then have opened: "openMessage env' i = Inr \<lparr>or_ciphertext = bytesToBase64 ct, or_createdAt = None,
      or_expiresAt = iso_date (d_env (sh_deps sh)) (si_expiresAt inp), or_opensCount = num (lm_opensCount row),
      or_maxOpens = si_maxOpens inp, or_status = lm_status row\<rparr>"
    using open_body_validates [OF row(6), of "d_env (sh_deps sh)" row] by (simp add: row(2-4))
  have "cryptoKey r = public_of S (privateKey me)"
    using prep(1) crypto(3) exported_key_imports [OF crypto(1,2)] identity_private [OF crypto(2)] by auto
  then have "open_sealed S ct me (seal_context i inp) = Inr pt" using seal_then_open [OF crypto(1) _ prep(4)] by simp
  then show ?thesis
    using decodePayload_roundtrip [OF prep(3) sender(2)] prep(2) base64_roundtrip [of ct]
    by (simp add: fetchAndOpen_def fetchOpenResponse_def client_def opened decryptOpenResponse_def crypto_def response_context_def
        date_ms_def reader(4) crypto(3) [symmetric] seal_context_def sent seal_payload_def)
qed

section \<open>A message that arrives\<close>

lemma utf16_scalars_plain:
  "\<not> high_surrogate (unat u) \<Longrightarrow> \<not> low_surrogate (unat u) \<Longrightarrow> utf16_scalars (u # t) = unat u # utf16_scalars t"
  by (cases t) auto

lemma ascii_bytes:
  assumes "list_all (\<lambda>c. (of_char c :: nat) < 128) s"
  shows "length (TextEncoder (text_of_string s)) = length s"
  using assms
proof (induction s)
  case (Cons c s)
  have "(of_char c :: nat) < 128" using Cons.prems by simp
  then have "\<not> high_surrogate (of_char c)" "\<not> low_surrogate (of_char c)"
    by (simp_all add: high_surrogate_def low_surrogate_def)
  then show ?case
    using Cons by (simp add: text_of_string_def TextEncoder_def unat_char_unit utf16_scalars_plain scalar_bytes_def)
qed (simp add: text_of_string_def TextEncoder_def)

lemma link_id_bytes: "LINK_ID_REGEX i \<Longrightarrow> length (TextEncoder (text_of_string i)) = 16"
  by (subst ascii_bytes) (auto simp: LINK_ID_REGEX_def list_all_iff alnum_def char_in_def)

lemma api_create_answer:
  assumes "create_message (sh_deps sh) now minted (web_request (fastify_of ip (posted env q))) (fst st) = (Inr r, sv')" "status_code r = 201"
    "utf8_length (stringify env (create_request_json q)) \<le> SERVER_MAX_BODY_BYTES"
  shows "fst (api_call sh now minted ip (BASE_URL env) st (posted env q)) = Response 201 (Some (resp_body r))"
    and "fst (snd (api_call sh now minted ip (BASE_URL env) st (posted env q))) = sv'"
proof -
  have m: "match_route (hr_method (posted env q)) (drop (length (BASE_URL env)) (hr_url (posted env q))) = Some RCreate"
    by (simp add: posted_def route_create)
  have b: "fq_body (fastify_of ip (posted env q)) = Some (stringify env (create_request_json q))"
    by (simp add: fastify_of_def posted_def)
  show "fst (api_call sh now minted ip (BASE_URL env) st (posted env q)) = Response 201 (Some (resp_body r))"
    "fst (snd (api_call sh now minted ip (BASE_URL env) st (posted env q))) = sv'"
    using assms(3)
    by (simp_all add: api_call_def serve_def m b run_route_def Let_def reply_of_def assms(1,2) json_reply_def case_prod_beta
        bodyLimit_def)
qed

lemma fetched_create:
  assumes "requireBaseUrl env = Inr (BASE_URL env)"
    "net env (posted env q) = fst (api_call sh now minted ip (BASE_URL env) st (posted env q))"
    "create_message (sh_deps sh) now minted (web_request (fastify_of ip (posted env q))) (fst st) = (Inr r, sv')" "status_code r = 201"
    "utf8_length (stringify env (create_request_json q)) \<le> SERVER_MAX_BODY_BYTES"
  shows "\<exists>resp. postMessage env q = Inr resp"
proof -
  obtain v where "validateCreateMessageResponse (resp_body r) = Inr v"
    using create_understood [of "sh_deps sh" now minted "web_request (fastify_of ip (posted env q))" "fst st"] assms(3,4) by auto
  then show ?thesis
    using assms(1,2) api_create_answer(1) [OF assms(3-5)]
    by (simp add: postMessage_def fetchJson_def requestWithTimeout_def posted_def)
qed

text \<open>A limiter that lets everything pass, and a platform whose dates are all one text.\<close>

definition easy_shell :: "json \<Rightarrow> (pg_db, unit) shell" where
  "easy_shell j =
     \<lparr>sh_deps = \<lparr>d_links = pg_ops, d_rate = (\<lambda>t k w r. (Inr 1, r)),
        d_env = \<lparr>parse_json = (\<lambda>s. Some j), parse_date = (\<lambda>s. Some 100), iso_date = (\<lambda>t. ''x''), hash_token = (\<lambda>t. t),
          hash_ip = (\<lambda>s. s), publicLinkOrigin = [], maxRetentionMs = None\<rparr>\<rparr>,
      sh_token = None, sh_stats = (\<lambda>s. None), sh_render = (\<lambda>R. [])\<rparr>"

definition easy_platform :: seal_platform where
  "easy_platform = \<lparr>sp_id_bytes = replicate 12 0, sp_seal_bytes = [], sp_iso = (\<lambda>t. ''x''), sp_now = 5, sp_store_writes = True\<rparr>"

definition easy_input :: "string \<Rightarrow> seal_input" where
  "easy_input pk = \<lparr>si_recipient = pk, si_message = [], si_expiresAt = 100, si_maxOpens = num 1, si_label = None, si_attachment = None\<rparr>"

definition easy_client :: "(http_request \<Rightarrow> fetch_result) \<Rightarrow> client_env" where
  "easy_client n = \<lparr>BASE_URL = ''b'', LINK_ORIGIN = ''o'', production = True, net = n, stringify = (\<lambda>j. [])\<rparr>"

lemma easy_simps [simp]:
  "d_links (sh_deps (easy_shell j)) = pg_ops" "d_rate (sh_deps (easy_shell j)) t k w r = (Inr 1, r)"
  "parse_json (d_env (sh_deps (easy_shell j))) x = Some j" "parse_date (d_env (sh_deps (easy_shell j))) x = Some 100"
  "maxRetentionMs (d_env (sh_deps (easy_shell j))) = None"
  "si_recipient (easy_input pk) = pk" "si_expiresAt (easy_input pk) = 100" "si_maxOpens (easy_input pk) = num 1"
  "BASE_URL (easy_client n) = ''b''" "stringify (easy_client n) v = []" "net (easy_client n) = n"
  "requireBaseUrl (easy_client n) = Inr ''b''" "sp_iso easy_platform t = ''x''" "sp_seal_bytes easy_platform = []"
  by (simp_all add: easy_shell_def easy_input_def easy_client_def easy_platform_def requireBaseUrl_def)

lemma easy_prepared:
  assumes "generateIdentity toy_suite (public_of toy_suite 5, 5) = Inr me"
  obtains i fp ct where "prepare_and_encrypt toy_suite easy_platform (easy_input (exportPublicKey me)) = (Inr (i, fp, ct), [Prepare, Encrypt])"
    "LINK_ID_REGEX i" "32 \<le> length ct" "length ct \<le> 8192"
proof -
  let ?inp = "easy_input (exportPublicKey me)" and ?i = "generateLinkId (sp_id_bytes easy_platform)"
  have i: "LINK_ID_REGEX ?i" by (rule generateLinkId_valid) (simp add: easy_platform_def)
  note imp = exported_key_imports [OF toy_correct assms]
  obtain fp where fp: "fingerprint (sha256 toy_suite) (exportPublicKey me) = Inr fp"
  proof -
    obtain k where "decodePubkey (exportPublicKey me) = Inr k" using imp by (auto simp: importPublicKey_def result_simps)
    then show ?thesis using that by (auto simp: fingerprint_def Let_def)
  qed
  obtain pt where pt: "encodePayload (seal_payload ?inp) = Inr pt" "length pt \<le> 4096"
    by (simp add: seal_payload_def easy_input_def encodePayload_def TextEncoder_def payload_consts Let_def write_frame_def
        length_write_frame targetPaddedLen_def PAD_BUCKETS_def)
  have chk: "aad_checks (seal_context ?i ?inp) = Inr ()"
    by (simp add: seal_context_def aad_checks_def Let_def isSafeInteger_def)
  obtain aad where aad: "encodeAad toy_suite (seal_context ?i ?inp) = Inr aad" "length aad \<le> 73"
    using encodeAad_total [OF toy_correct _ chk] imp link_id_bytes [OF i] by (auto simp: seal_context_def)
  obtain ct where ct: "seal toy_suite [] pt \<lparr>recipientRaw = publicKeyRaw me, cryptoKey = public_of toy_suite 5\<rparr> (seal_context ?i ?inp) = Inr ct"
    using seal_total [OF toy_correct assms imp [unfolded fst_conv] _ aad(1)] by (auto simp: seal_context_def)
  have "prepare_and_encrypt toy_suite easy_platform ?inp = (Inr (?i, fp, ct), [Prepare, Encrypt])"
    using imp fp pt(1) ct by (simp add: prepare_and_encrypt_def Let_def)
  then show ?thesis using that i toy_seal_length [OF ct aad(1)] aad(2) pt(2) by simp
qed

text \<open>The upload of such a message is accepted.\<close>

lemma easy_created:
  assumes "generateIdentity toy_suite (public_of toy_suite 5, 5) = Inr me"
    "prepare_and_encrypt toy_suite easy_platform (easy_input (exportPublicKey me)) = (Inr (i, fp, ct), ph)"
    "LINK_ID_REGEX i" "32 \<le> length ct" "length ct \<le> 8192"
    "q = create_request_of easy_platform (easy_input (exportPublicKey me)) i ct" "sh = easy_shell (create_request_json q)"
    "st = (\<lparr>store = pg_empty, limiter = ()\<rparr>, reset)" "stringify env (create_request_json q) = []"
  obtains r sv' where "create_message (sh_deps sh) 5 minted (web_request (fastify_of ''ip'' (posted env q))) (fst st) = (Inr r, sv')"
    "status_code r = 201"
proof -
  let ?w = "web_request (fastify_of ''ip'' (posted env q))"
  let ?body = "\<lparr>b_id = i, b_ciphertext = bytesToBase64 ct, b_expiresAt = ''x'', b_maxOpens = num 1\<rparr>"
  have body: "parseBody (d_env (sh_deps sh)) (raw_body ?w) = Some ?body"
    using posted_body_parses [of "d_env (sh_deps sh)" env q] assms(6,7) by (simp add: web_request_posted create_request_of_def)
  have chk: "check_create (d_env (sh_deps sh)) 5 ?body = Some (100, ct)"
    using assms(3-5,7) by (simp add: check_create_def decodeBase64_bytesToBase64 DEFAULT_MAX_RETENTION_MS_def
        RETENTION_GRACE_MS_def MIN_CIPHERTEXT_BYTES_def MAX_CIPHERTEXT_BYTES_def)
  show ?thesis
    using pg.create_passed [of "fst st" "sh_deps sh" 5 ?w 1 "()" ?body 100 ct "requested (d_env (sh_deps sh)) minted 100 ?body" minted] body chk pg_empty_ok that assms(7-9)
    by (fastforce simp: RATE_LIMIT_MAX_def web_request_posted pg_empty_def pg_abs_def pg_select_def)
qed

theorem client_end_to_end_witness:
  "\<exists>me env i parse out. fetchAndOpen toy_suite parse env me i = Inr out \<and> ro_text out = []"
proof -
  obtain me where me: "generateIdentity toy_suite (public_of toy_suite 5, 5) = Inr me"
    using generateIdentity_total [OF toy_correct] by blast
  let ?inp = "easy_input (exportPublicKey me)"
  obtain i fp ct where p: "prepare_and_encrypt toy_suite easy_platform ?inp = (Inr (i, fp, ct), [Prepare, Encrypt])"
    "LINK_ID_REGEX i" "32 \<le> length ct" "length ct \<le> 8192" by (rule easy_prepared [OF me])
  define q where "q = create_request_of easy_platform ?inp i ct"
  define sh where "sh = easy_shell (create_request_json q)"
  define st where "st = (\<lparr>store = pg_empty, limiter = ()\<rparr>, reset)"
  define env where "env = easy_client (\<lambda>hr. fst (api_call sh 5 ''t'' ''ip'' ''b'' st hr))"
  define st1 where "st1 = snd (api_call sh 5 ''t'' ''ip'' ''b'' st (posted env q))"
  define env' where "env' = easy_client (\<lambda>hr. fst (api_call sh 6 ''u'' ''jq'' ''b'' st1 hr))"
  obtain r sv' where created: "create_message (sh_deps sh) 5 ''t'' (web_request (fastify_of ''ip'' (posted env q))) (fst st) = (Inr r, sv')"
    "status_code r = 201"
    using easy_created [OF me p(1-4) q_def sh_def st_def, of env "''t''"] by (auto simp: env_def)
  obtain resp where resp: "postMessage env q = Inr resp"
    using fetched_create [of env q sh 5 "''t''" "''ip''" st r sv'] created
    by (auto simp: env_def utf8_length_def text_of_string_def TextEncoder_def)
  obtain sent phases links' where sent: "createAndSeal toy_suite easy_platform env ?inp None = (Inr sent, phases, links')"
    using p(1) resp by (auto simp: createAndSeal_def q_def)
  have "\<exists>out. fetchAndOpen toy_suite (\<lambda>s. Some 100) env' me i = Inr out \<and> ro_text out = si_message ?inp
      \<and> ro_attachments out = attachments (seal_payload ?inp) \<and> ro_fingerprint out = so_fingerprint sent \<and> so_id sent = i"
  proof (rule client_end_to_end [OF toy_correct me _ sent _ p(1) q_def, where sh = sh and st = st and ?t1.0 = 5 and minted = "''t''"
        and ?ip1.0 = "''ip''" and ?st1.0 = st1 and ?t2.0 = 6 and minted' = "''u''" and ?ip2.0 = "''jq''" and n = 1 and rl = "()"])
    show "plain_payload (seal_payload ?inp)"
      by (simp add: seal_payload_def easy_input_def plain_payload_def plain_text_def TextEncoder_def)
  qed (simp_all add: sh_def st_def env_def env'_def st1_def pg_empty_ok RATE_LIMIT_MAX_def)
  then obtain out where "fetchAndOpen toy_suite (\<lambda>s. Some 100) env' me i = Inr out" "ro_text out = []"
    by (auto simp: easy_input_def)
  then show ?thesis by (intro exI conjI)
qed

end
