(* ===== verification/File_Blobs.thy ===== *)
theory File_Blobs
  imports Api_Client
begin

text \<open>
  The encrypted blobs as files (apps/mobile/src/storage/file-blob-store.ts): one file per key below the
  application's aesmsg directory. expo-file-system is the record \<open>file_system\<close>; what the store relies on
  is \<open>fs_correct\<close>. The interface IBlobStore of encrypted-store.types.ts is the locale \<open>blob_store\<close>, which
  the file store is shown to satisfy.
\<close>

section \<open>Percent decoding\<close>

definition hex_value :: "char \<Rightarrow> nat option" where
  "hex_value c =
     (let n = of_char c :: nat in
      if 48 \<le> n \<and> n \<le> 57 then Some (n - 48)
      else if 65 \<le> n \<and> n \<le> 70 then Some (n - 55)
      else if 97 \<le> n \<and> n \<le> 102 then Some (n - 87)
      else None)"

definition hex_byte :: "char \<Rightarrow> char \<Rightarrow> nat option" where
  "hex_byte a b = (case (hex_value a, hex_value b) of (Some h, Some l) \<Rightarrow> Some (16 * h + l) | _ \<Rightarrow> None)"

text \<open>
  \<open>decodeURIComponent\<close>; None is the URIError. Characters of this type are the code units below 256, so an
  escape that decodes to another character is None as well.
\<close>

fun decodeURIComponent :: "string \<Rightarrow> string option" where
  "decodeURIComponent [] = Some []"
| "decodeURIComponent (c # r) =
     (if c \<noteq> CHR ''%'' then map_option ((#) c) (decodeURIComponent r)
      else case r of
        a # b # r1 \<Rightarrow>
          (case hex_byte a b of
             None \<Rightarrow> None
           | Some v \<Rightarrow>
               if v < 128 then map_option ((#) (char_of v)) (decodeURIComponent r1)
               else if v = 0xC2 \<or> v = 0xC3
               then (case r1 of
                       e # x # y # r2 \<Rightarrow>
                         (case (if e = CHR ''%'' then hex_byte x y else None) of
                            Some w \<Rightarrow> if 0x80 \<le> w \<and> w < 0xC0
                                      then map_option ((#) (char_of ((v - 0xC0) * 64 + (w - 0x80)))) (decodeURIComponent r2)
                                      else None
                          | None \<Rightarrow> None)
                     | _ \<Rightarrow> None)
               else None)
      | _ \<Rightarrow> None)"

lemma hex_value_digit: "n < 16 \<Longrightarrow> hex_value (HEX_CHARS ! n) = Some n"
  by (simp add: numeral_eq_Suc less_Suc_eq, elim disjE) (simp_all add: HEX_CHARS_def hex_value_def)

lemma hex_byte_upper: "hex_byte (HEX_CHARS ! unat (drop_bit 4 b AND 0xf)) (HEX_CHARS ! unat (b AND 0xf)) = Some (unat (b :: byte))"
proof -
  have "b AND 0xf = take_bit 4 b" by (simp add: take_bit_eq_mask mask_eq_exp_minus_1)
  then have lo: "unat (b AND 0xf) = unat b mod 16" by (simp only: unsigned_take_bit_eq) (simp add: take_bit_eq_mod)
  have bound: "unat b < 256" using unsigned_less [of b] by simp
  have "drop_bit 4 b AND 0xf = take_bit 4 (drop_bit 4 b)" by (simp add: take_bit_eq_mask mask_eq_exp_minus_1)
  then have "unat (drop_bit 4 b AND 0xf) = unat (drop_bit 4 b) mod 16"
    by (simp only: unsigned_take_bit_eq) (simp add: take_bit_eq_mod)
  moreover have "unat (drop_bit 4 b) = unat b div 16" 
    by (simp only: unsigned_drop_bit_eq) (use bound in \<open>simp add: take_bit_eq_mod drop_bit_eq_div\<close>)
  ultimately have hi: "unat (drop_bit 4 b AND 0xf) = unat b div 16" using bound by simp
  show ?thesis
    unfolding lo hi hex_byte_def using hex_value_digit [of "unat b mod 16"] hex_value_digit [of "unat b div 16"] bound
    by (simp add: mult.commute)
qed

lemma unreserved_not_special: "unreserved c \<Longrightarrow> c \<noteq> CHR ''%'' \<and> c \<noteq> CHR ''/''"
  by (auto simp: unreserved_def alnum_def char_in_def)

definition escape_char :: "char \<Rightarrow> string" where
  "escape_char c =
     (if unreserved c then [c] else concat (map (\<lambda>b. CHR ''%'' # bytesToUpperHex [b]) (scalar_bytes (of_char c))))"

lemma encodeURIComponent_escapes: "encodeURIComponent s = concat (map escape_char s)"
  unfolding encodeURIComponent_def escape_char_def [abs_def] ..

lemma decode_escaped: "decodeURIComponent (escape_char c @ r) = map_option ((#) c) (decodeURIComponent r)"
proof (cases "unreserved c")
  case True
  then show ?thesis using unreserved_not_special [OF True] by (simp add: escape_char_def)
next
  case False
  let ?n = "of_char c :: nat"
  have n: "?n < 256" by (rule nat_of_char_less_256)
  show ?thesis
  proof (cases "?n < 128")
    case True
    then have "scalar_bytes ?n = [of_nat ?n]" by (simp add: scalar_bytes_def)
    moreover have "unat (of_nat ?n :: byte) = ?n" using n by (simp add: unat_small_byte)
    ultimately show ?thesis
      using False True hex_byte_upper [of "of_nat ?n"] by (simp add: escape_char_def)
  next
    case big: False
    let ?a = "of_nat (0xC0 + ?n div 64) :: byte" and ?b = "of_nat (0x80 + ?n mod 64) :: byte"
    have s: "scalar_bytes ?n = [?a, ?b]"
    proof -
      have "?n < 0x800" using n by linarith
      then show ?thesis using big by (simp add: scalar_bytes_def)
    qed
    have a: "unat ?a = 0xC0 + ?n div 64" by (rule unat_small_byte) (use n in linarith)
    have "?n mod 64 < 64" by simp
    then have "0x80 + ?n mod 64 < 256" by linarith
    then have b: "unat ?b = 0x80 + ?n mod 64" by (rule unat_small_byte)
    have q: "?n div 64 = 2 \<or> ?n div 64 = 3" using big n by linarith
    have c: "char_of (?n div 64 * 64 + ?n mod 64) = c" by (simp only: div_mult_mod_eq) simp
    note hb = hex_byte_upper [of ?a, unfolded a] hex_byte_upper [of ?b, unfolded b]
    show ?thesis
      using False hb q c by (simp add: escape_char_def s)
  qed
qed

lemma decode_encode [simp]: "decodeURIComponent (encodeURIComponent s) = Some s"
  by (induction s) (simp_all add: encodeURIComponent_escapes decode_escaped)

lemma encodeURIComponent_inject: "encodeURIComponent s = encodeURIComponent t \<longleftrightarrow> s = t"
  by (metis decode_encode option.inject)

section \<open>The file system and the store\<close>

datatype storage_error =
    FsError string
  | NoDocumentDirectory
  | UriError
  | KeychainError string
  | KeyImportError
  | StoreDecryptionError string

record 'f file_system =
  documentDirectory :: "string option"
  fs_exists :: "string \<Rightarrow> 'f \<Rightarrow> storage_error + bool"
  makeDirectoryAsync :: "string \<Rightarrow> 'f \<Rightarrow> (storage_error + unit) \<times> 'f"
  readAsStringAsync :: "string \<Rightarrow> 'f \<Rightarrow> storage_error + string"
  writeAsStringAsync :: "string \<Rightarrow> string \<Rightarrow> 'f \<Rightarrow> (storage_error + unit) \<times> 'f"
  deleteAsync :: "string \<Rightarrow> 'f \<Rightarrow> (storage_error + unit) \<times> 'f"
  readDirectoryAsync :: "string \<Rightarrow> 'f \<Rightarrow> storage_error + string list"

definition SUBDIR :: string where "SUBDIR = ''aesmsg''"
definition EXT :: string where "EXT = ''.enc''"

definition dirUri :: "'f file_system \<Rightarrow> storage_error + string" where
  "dirUri FS = (case documentDirectory FS of None \<Rightarrow> Inl NoDocumentDirectory | Some base \<Rightarrow> Inr (base @ SUBDIR @ ''/''))"

definition fileUri :: "'f file_system \<Rightarrow> string \<Rightarrow> storage_error + string" where
  "fileUri FS key = and_then (dirUri FS) (\<lambda>d. Inr (d @ encodeURIComponent key @ EXT))"

text \<open>A step that may fail, then a step on the state it left.\<close>

definition state_then :: "('e + 'a) \<times> 's \<Rightarrow> ('a \<Rightarrow> 's \<Rightarrow> ('e + 'b) \<times> 's) \<Rightarrow> ('e + 'b) \<times> 's" where
  "state_then p f = (case p of (Inl e, s) \<Rightarrow> (Inl e, s) | (Inr x, s) \<Rightarrow> f x s)"

definition ensureDir :: "'f file_system \<Rightarrow> 'f \<Rightarrow> (storage_error + unit) \<times> 'f" where
  "ensureDir FS s =
     (case dirUri FS of
        Inl e \<Rightarrow> (Inl e, s)
      | Inr d \<Rightarrow> (case fs_exists FS d s of
            Inl e \<Rightarrow> (Inl e, s)
          | Inr ex \<Rightarrow> if \<not> ex then makeDirectoryAsync FS d s else (Inr (), s)))"

definition blob_get :: "'f file_system \<Rightarrow> string \<Rightarrow> 'f \<Rightarrow> storage_error + string option" where
  "blob_get FS key s =
     and_then (fileUri FS key) (\<lambda>uri.
       and_then (fs_exists FS uri s) (\<lambda>ex.
         if \<not> ex then Inr None else and_then (readAsStringAsync FS uri s) (\<lambda>t. Inr (Some t))))"

definition blob_set :: "'f file_system \<Rightarrow> string \<Rightarrow> string \<Rightarrow> 'f \<Rightarrow> (storage_error + unit) \<times> 'f" where
  "blob_set FS key value s =
     state_then (ensureDir FS s) (\<lambda>u s1.
       case fileUri FS key of Inl e \<Rightarrow> (Inl e, s1) | Inr uri \<Rightarrow> writeAsStringAsync FS uri value s1)"

definition blob_remove :: "'f file_system \<Rightarrow> string \<Rightarrow> 'f \<Rightarrow> (storage_error + unit) \<times> 'f" where
  "blob_remove FS key s = (case fileUri FS key of Inl e \<Rightarrow> (Inl e, s) | Inr uri \<Rightarrow> deleteAsync FS uri s)"

definition ends_with :: "string \<Rightarrow> string \<Rightarrow> bool" where
  "ends_with suf s = (length suf \<le> length s \<and> drop (length s - length suf) s = suf)"

definition blob_keys :: "'f file_system \<Rightarrow> 'f \<Rightarrow> storage_error + string list" where
  "blob_keys FS s =
     and_then (dirUri FS) (\<lambda>d.
       and_then (fs_exists FS d s) (\<lambda>ex.
         if \<not> ex then Inr []
         else and_then (readDirectoryAsync FS d s) (\<lambda>entries.
           map_err (\<lambda>name. case decodeURIComponent (take (length name - length EXT) name) of
                            None \<Rightarrow> Inl UriError | Some k \<Rightarrow> Inr k)
             (filter (ends_with EXT) entries))))"

fun remove_all :: "(string \<Rightarrow> 's \<Rightarrow> ('e + unit) \<times> 's) \<Rightarrow> string list \<Rightarrow> 's \<Rightarrow> ('e + unit) \<times> 's" where
  "remove_all rm [] s = (Inr (), s)"
| "remove_all rm (k # ks) s = state_then (rm k s) (\<lambda>u. remove_all rm ks)"

definition blob_clear :: "'f file_system \<Rightarrow> 'f \<Rightarrow> (storage_error + unit) \<times> 'f" where
  "blob_clear FS s = (case blob_keys FS s of Inl e \<Rightarrow> (Inl e, s) | Inr ks \<Rightarrow> remove_all (blob_remove FS) ks s)"

section \<open>The interface\<close>

record 's blob_ops =
  bl_get :: "string \<Rightarrow> 's \<Rightarrow> storage_error + string option"
  bl_set :: "string \<Rightarrow> string \<Rightarrow> 's \<Rightarrow> (storage_error + unit) \<times> 's"
  bl_remove :: "string \<Rightarrow> 's \<Rightarrow> (storage_error + unit) \<times> 's"
  bl_clear :: "'s \<Rightarrow> (storage_error + unit) \<times> 's"

definition file_blobs :: "'f file_system \<Rightarrow> 'f blob_ops" where
  "file_blobs FS = \<lparr>bl_get = blob_get FS, bl_set = blob_set FS, bl_remove = blob_remove FS, bl_clear = blob_clear FS\<rparr>"

locale blob_store =
  fixes B :: "'s blob_ops" and inv :: "'s \<Rightarrow> bool" and blob :: "'s \<Rightarrow> string \<Rightarrow> string option"
  assumes get_law: "inv s \<Longrightarrow> bl_get B k s = Inr v \<Longrightarrow> v = blob s k"
    and set_law: "inv s \<Longrightarrow> bl_set B k c s = (r, s') \<Longrightarrow>
      inv s' \<and> (\<forall>j. j \<noteq> k \<longrightarrow> blob s' j = blob s j) \<and> (r = Inr () \<longrightarrow> blob s' k = Some c)"
    and remove_law: "inv s \<Longrightarrow> bl_remove B k s = (r, s') \<Longrightarrow>
      inv s' \<and> (\<forall>j. j \<noteq> k \<longrightarrow> blob s' j = blob s j) \<and> (r = Inr () \<longrightarrow> blob s' k = None)"
    and clear_law: "inv s \<Longrightarrow> bl_clear B s = (r, s') \<Longrightarrow> inv s' \<and> (r = Inr () \<longrightarrow> blob s' k = None)"

text \<open>
  What expo-file-system does, over the files and directories it holds: an operation touches at most the
  file it is given, and a file's directory exists.
\<close>

definition fs_correct :: "'f file_system \<Rightarrow> ('f \<Rightarrow> string \<Rightarrow> string option) \<Rightarrow> ('f \<Rightarrow> string set) \<Rightarrow> bool" where
  "fs_correct FS files dirs =
     ((\<forall>u s b. fs_exists FS u s = Inr b \<longrightarrow> b = (files s u \<noteq> None \<or> u \<in> dirs s)) \<and>
      (\<forall>u s r s'. makeDirectoryAsync FS u s = (r, s') \<longrightarrow> files s' = files s \<and> dirs s' \<subseteq> dirs s \<union> {v. \<exists>w. u = v @ w}) \<and>
      (\<forall>u s t. readAsStringAsync FS u s = Inr t \<longrightarrow> files s u = Some t) \<and>
      (\<forall>u c s r s'. writeAsStringAsync FS u c s = (r, s') \<longrightarrow>
         dirs s' = dirs s \<and> (\<forall>v. v \<noteq> u \<longrightarrow> files s' v = files s v) \<and> (r = Inr () \<longrightarrow> files s' u = Some c)) \<and>
      (\<forall>u s r s'. deleteAsync FS u s = (r, s') \<longrightarrow>
         dirs s' \<subseteq> dirs s \<and> (\<forall>v. v \<noteq> u \<longrightarrow> files s' v = files s v) \<and> (r = Inr () \<longrightarrow> files s' u = None)) \<and>
      (\<forall>d s ns n. readDirectoryAsync FS d s = Inr ns \<longrightarrow> CHR ''/'' \<notin> set n \<longrightarrow> files s (d @ n) \<noteq> None \<longrightarrow> n \<in> set ns) \<and>
      (\<forall>s d n. CHR ''/'' \<notin> set n \<longrightarrow> files s (d @ ''/'' @ n) \<noteq> None \<longrightarrow> d @ ''/'' \<in> dirs s))"

section \<open>The file store keeps the contract\<close>

definition blob_uri :: "string \<Rightarrow> string \<Rightarrow> string" where
  "blob_uri base k = base @ SUBDIR @ ''/'' @ encodeURIComponent k @ EXT"

definition file_blob :: "('f \<Rightarrow> string \<Rightarrow> string option) \<Rightarrow> string \<Rightarrow> 'f \<Rightarrow> string \<Rightarrow> string option" where
  "file_blob files base s k = files s (blob_uri base k)"

definition file_inv :: "'f file_system \<Rightarrow> ('f \<Rightarrow> string \<Rightarrow> string option) \<Rightarrow> ('f \<Rightarrow> string set) \<Rightarrow> string \<Rightarrow> 'f \<Rightarrow> bool" where
  "file_inv FS files dirs base s =
     (fs_correct FS files dirs \<and> documentDirectory FS = Some base \<and> (\<forall>k. blob_uri base k \<notin> dirs s))"

lemma blob_uri_inject: "blob_uri base j = blob_uri base k \<longleftrightarrow> j = k"
  by (simp add: blob_uri_def encodeURIComponent_inject)

lemma upper_hex_plain: "c \<in> set (bytesToUpperHex bs) \<Longrightarrow> c \<noteq> CHR ''/''"
proof (induction bs)
  case (Cons b bs)
  have "HEX_CHARS ! unat (drop_bit 4 b AND 0xf) \<in> set HEX_CHARS" "HEX_CHARS ! unat (b AND 0xf) \<in> set HEX_CHARS"
    by (simp_all add: nibble_less)
  then have "HEX_CHARS ! unat (drop_bit 4 b AND 0xf) \<noteq> CHR ''/''" "HEX_CHARS ! unat (b AND 0xf) \<noteq> CHR ''/''"
    by (auto simp: HEX_CHARS_def)
  then show ?case using Cons by auto
qed simp

lemma escape_no_slash: "CHR ''/'' \<notin> set (encodeURIComponent s)"
proof -
  have "CHR ''/'' \<notin> set (escape_char c)" for c
  proof (cases "unreserved c")
    case False
    then show ?thesis using upper_hex_plain by (auto simp: escape_char_def simp del: bytesToUpperHex.simps)
  qed (use unreserved_not_special [of c] in \<open>auto simp: escape_char_def\<close>)
  then show ?thesis by (simp add: encodeURIComponent_escapes)
qed

lemma uri_simps:
  assumes "file_inv FS files dirs base s"
  shows "dirUri FS = Inr (base @ SUBDIR @ ''/'')" "fileUri FS k = Inr (blob_uri base k)"
  using assms by (simp_all add: file_inv_def dirUri_def fileUri_def blob_uri_def)

text \<open>The parts of the assumption on the file system, each in the form the proofs use.\<close>

lemma fs_facts:
  assumes "fs_correct FS files dirs"
  shows "fs_exists FS u s = Inr b \<Longrightarrow> b = (files s u \<noteq> None \<or> u \<in> dirs s)"
    "makeDirectoryAsync FS u s = (r, s') \<Longrightarrow> files s' = files s \<and> dirs s' \<subseteq> dirs s \<union> {v. \<exists>w. u = v @ w}"
    "readAsStringAsync FS u s = Inr t \<Longrightarrow> files s u = Some t"
    "writeAsStringAsync FS u c s = (r, s') \<Longrightarrow>
       dirs s' = dirs s \<and> (\<forall>v. v \<noteq> u \<longrightarrow> files s' v = files s v) \<and> (r = Inr () \<longrightarrow> files s' u = Some c)"
    "deleteAsync FS u s = (r, s') \<Longrightarrow>
       dirs s' \<subseteq> dirs s \<and> (\<forall>v. v \<noteq> u \<longrightarrow> files s' v = files s v) \<and> (r = Inr () \<longrightarrow> files s' u = None)"
    "readDirectoryAsync FS d s = Inr ns \<Longrightarrow> CHR ''/'' \<notin> set n \<Longrightarrow> files s (d @ n) \<noteq> None \<Longrightarrow> n \<in> set ns"
    "CHR ''/'' \<notin> set n \<Longrightarrow> files s (d @ ''/'' @ n) \<noteq> None \<Longrightarrow> d @ ''/'' \<in> dirs s"
  subgoal by (rule assms [unfolded fs_correct_def, THEN conjunct1, rule_format])
  subgoal by (rule assms [unfolded fs_correct_def, THEN conjunct2, THEN conjunct1, rule_format])
  subgoal by (rule assms [unfolded fs_correct_def, THEN conjunct2, THEN conjunct2, THEN conjunct1, rule_format])
  subgoal by (rule assms [unfolded fs_correct_def, THEN conjunct2, THEN conjunct2, THEN conjunct2, THEN conjunct1, rule_format])
  subgoal by (rule assms [unfolded fs_correct_def, THEN conjunct2, THEN conjunct2, THEN conjunct2, THEN conjunct2, THEN conjunct1, rule_format])
  subgoal by (rule assms [unfolded fs_correct_def, THEN conjunct2, THEN conjunct2, THEN conjunct2, THEN conjunct2, THEN conjunct2, THEN conjunct1, rule_format])
  subgoal by (rule assms [unfolded fs_correct_def, THEN conjunct2, THEN conjunct2, THEN conjunct2, THEN conjunct2, THEN conjunct2, THEN conjunct2, rule_format])
  done

lemma ensureDir_keeps:
  assumes "file_inv FS files dirs base s" "ensureDir FS s = (r, s')"
  shows "file_inv FS files dirs base s' \<and> files s' = files s"
proof (cases "\<exists>r'. makeDirectoryAsync FS (base @ SUBDIR @ ''/'') s = (r', s')")
  case True
  then have m: "files s' = files s" "dirs s' \<subseteq> dirs s \<union> {v. \<exists>w. base @ SUBDIR @ ''/'' = v @ w}"
    using assms(1) fs_facts(2) unfolding file_inv_def by metis+
  have "base @ SUBDIR @ ''/'' \<noteq> blob_uri base k @ w" for k w
    by (simp add: blob_uri_def EXT_def)
  then have "blob_uri base k \<notin> {v. \<exists>w. base @ SUBDIR @ ''/'' = v @ w}" for k by blast
  then show ?thesis using assms(1) m unfolding file_inv_def by blast
next
  case False
  then have "s' = s" using assms(2) uri_simps [OF assms(1)] by (auto simp: ensureDir_def split: sum.splits if_splits)
  then show ?thesis using assms(1) by simp
qed

lemma blob_set_keeps:
  assumes "file_inv FS files dirs base s" "blob_set FS k c s = (r, s')"
  shows "file_inv FS files dirs base s' \<and> (\<forall>j. j \<noteq> k \<longrightarrow> file_blob files base s' j = file_blob files base s j)
    \<and> (r = Inr () \<longrightarrow> file_blob files base s' k = Some c)"
proof -
  obtain r1 s1 where e: "ensureDir FS s = (r1, s1)" by (cases "ensureDir FS s")
  note kept = ensureDir_keeps [OF assms(1) e]
  show ?thesis
  proof (cases r1)
    case (Inl x)
    then show ?thesis using assms(2) e kept by (auto simp: blob_set_def state_then_def file_blob_def)
  next
    case (Inr x)
    then have w: "writeAsStringAsync FS (blob_uri base k) c s1 = (r, s')"
      using assms(2) e uri_simps(2) [of FS files dirs base s1 k] kept by (simp add: blob_set_def state_then_def)
    have fs: "fs_correct FS files dirs" using assms(1) by (simp add: file_inv_def)
    show ?thesis using fs_facts(4) [OF fs w] kept by (auto simp: file_inv_def file_blob_def blob_uri_inject)
  qed
qed

lemma blob_remove_keeps:
  assumes "file_inv FS files dirs base s" "blob_remove FS k s = (r, s')"
  shows "file_inv FS files dirs base s' \<and> (\<forall>j. j \<noteq> k \<longrightarrow> file_blob files base s' j = file_blob files base s j)
    \<and> (r = Inr () \<longrightarrow> file_blob files base s' k = None)"
proof -
  have d: "deleteAsync FS (blob_uri base k) s = (r, s')"
    using assms uri_simps(2) [OF assms(1), of k] by (simp add: blob_remove_def)
  have fs: "fs_correct FS files dirs" using assms(1) by (simp add: file_inv_def)
  show ?thesis using fs_facts(5) [OF fs d] assms(1) by (auto simp: file_inv_def file_blob_def blob_uri_inject)
qed

lemma blob_get_reads:
  assumes "file_inv FS files dirs base s" "blob_get FS k s = Inr v"
  shows "v = file_blob files base s k"
proof -
  have fs: "fs_correct FS files dirs" "blob_uri base k \<notin> dirs s" using assms(1) by (simp_all add: file_inv_def)
  obtain ex where ex: "fs_exists FS (blob_uri base k) s = Inr ex"
    "(if \<not> ex then Inr None else and_then (readAsStringAsync FS (blob_uri base k) s) (\<lambda>t. Inr (Some t))) = Inr v"
    using assms(2) uri_simps(2) [OF assms(1), of k] by (auto simp: blob_get_def result_simps)
  then show ?thesis using fs_facts(1) [OF fs(1) ex(1)] fs_facts(3) [OF fs(1)] fs(2)
    by (auto simp: file_blob_def result_simps split: if_splits)
qed

lemma remove_all_keeps:
  assumes "file_inv FS files dirs base s" "remove_all (blob_remove FS) ks s = (r, s')"
  shows "file_inv FS files dirs base s' \<and>
    (r = Inr () \<longrightarrow> (\<forall>k. k \<in> set ks \<or> file_blob files base s k = None \<longrightarrow> file_blob files base s' k = None))"
  using assms
proof (induction ks arbitrary: s)
  case (Cons k ks)
  obtain r1 s1 where one: "blob_remove FS k s = (r1, s1)" by (cases "blob_remove FS k s")
  note kept = blob_remove_keeps [OF Cons.prems(1) one]
  show ?case
  proof (cases r1)
    case (Inl e)
    then show ?thesis using Cons.prems(2) one kept by (auto simp: state_then_def)
  next
    case (Inr u)
    then have "remove_all (blob_remove FS) ks s1 = (r, s')" using Cons.prems(2) one by (simp add: state_then_def)
    from Cons.IH [OF conjunct1 [OF kept] this]
    show ?thesis using kept Inr by (metis (full_types) old.unit.exhaust set_ConsD)
  qed
qed auto

lemma ends_with_ext: "ends_with suf (n @ suf)"
  by (simp add: ends_with_def)

lemma blob_keys_complete:
  assumes "file_inv FS files dirs base s" "blob_keys FS s = Inr ks" "file_blob files base s k \<noteq> None"
  shows "k \<in> set ks"
proof -
  have fs: "fs_correct FS files dirs" using assms(1) by (simp add: file_inv_def)
  let ?d = "base @ SUBDIR @ ''/''" and ?n = "encodeURIComponent k @ EXT"
  have n: "CHR ''/'' \<notin> set ?n" using escape_no_slash by (simp add: EXT_def)
  have f: "files s (?d @ ?n) \<noteq> None" using assms(3) by (simp add: file_blob_def blob_uri_def)
  have "?d \<in> dirs s" using fs_facts(7) [OF fs n, of s "base @ SUBDIR"] f by simp
  then obtain entries where e: "readDirectoryAsync FS ?d s = Inr entries"
    "map_err (\<lambda>name. case decodeURIComponent (take (length name - length EXT) name) of None \<Rightarrow> Inl UriError | Some k \<Rightarrow> Inr k)
       (filter (ends_with EXT) entries) = Inr ks"
    using assms(2) uri_simps(1) [OF assms(1)] fs_facts(1) [OF fs]
    by (fastforce simp: blob_keys_def result_simps split: if_splits)
  have "?n \<in> set (filter (ends_with EXT) entries)"
    using fs_facts(6) [OF fs e(1) n f] by (simp add: ends_with_ext)
  then obtain i where i: "i < length (filter (ends_with EXT) entries)" "filter (ends_with EXT) entries ! i = ?n"
    by (metis in_set_conv_nth)
  have "ks ! i = k" "i < length ks"
    using e(2) i unfolding map_err_Inr by (auto simp: list_all2_conv_all_nth split: option.splits)
  then show ?thesis by auto
qed

lemma blob_clear_keeps:
  assumes "file_inv FS files dirs base s" "blob_clear FS s = (r, s')"
  shows "file_inv FS files dirs base s' \<and> (r = Inr () \<longrightarrow> file_blob files base s' k = None)"
proof (cases "blob_keys FS s")
  case (Inl e)
  then show ?thesis using assms by (auto simp: blob_clear_def)
next
  case (Inr ks)
  then have rm: "remove_all (blob_remove FS) ks s = (r, s')" using assms(2) by (simp add: blob_clear_def)
  show ?thesis using remove_all_keeps [OF assms(1) rm] blob_keys_complete [OF assms(1) Inr] by blast
qed

interpretation files: blob_store "file_blobs FS" "file_inv FS files dirs base" "file_blob files base"
  by unfold_locales
    (auto simp: file_blobs_def dest: blob_get_reads blob_set_keeps blob_remove_keeps blob_clear_keeps)

end
