(* ===== verification/Encrypted_Store.thy ===== *)
theory Encrypted_Store
  imports File_Blobs Base64_Text Utf8_Codec Json_Model
begin

text \<open>
  The encrypted JSON store of the mobile client (apps/mobile/src/storage: encrypted-store.ts, data-key.ts
  and index.ts): a frame of nonce and AES-GCM ciphertext per key, the data key in the keychain, and the
  one store the application shares. JSON's text syntax and AES-GCM are the record \<open>vault\<close>, the keychain
  the record \<open>secure_items\<close>.
\<close>

section \<open>The store\<close>

record vault =
  stringify_json :: "json \<Rightarrow> js_text"
  parse_json_text :: "js_text \<Rightarrow> json option"
  aes_encrypt :: "bytes \<Rightarrow> bytes \<Rightarrow> bytes \<Rightarrow> bytes"
  aes_decrypt :: "bytes \<Rightarrow> bytes \<Rightarrow> bytes \<Rightarrow> bytes option"

definition NONCE_LEN :: nat where "NONCE_LEN = 12"

text \<open>Importing raw bytes as an AES key; the cached promise gives the same answer each time.\<close>

definition storeKey :: "bytes \<Rightarrow> storage_error + bytes" where
  "storeKey dek = (if length dek \<in> {16, 24, 32} then Inr dek else Inl KeyImportError)"

definition unreadable :: "string \<Rightarrow> string \<Rightarrow> storage_error + 'a" where
  "unreadable key why = Inl (StoreDecryptionError (''blob for key '' @ key @ why))"

definition open_frame :: "vault \<Rightarrow> bytes \<Rightarrow> string \<Rightarrow> bytes \<Rightarrow> storage_error + json" where
  "open_frame V dek key frame =
     (if length frame \<le> NONCE_LEN then unreadable key '' is too short to contain a nonce''
      else let nonce = take NONCE_LEN frame; body = drop NONCE_LEN frame
           in and_then (storeKey dek) (\<lambda>k.
                case aes_decrypt V k nonce body of
                  None \<Rightarrow> unreadable key '' failed to decrypt''
                | Some plaintext \<Rightarrow>
                    (case parse_json_text V (TextDecoder plaintext) of
                       None \<Rightarrow> unreadable key '' decrypted to invalid JSON''
                     | Some v \<Rightarrow> Inr v)))"

definition getJson :: "'s blob_ops \<Rightarrow> vault \<Rightarrow> bytes \<Rightarrow> string \<Rightarrow> 's \<Rightarrow> storage_error + json option" where
  "getJson B V dek key s =
     and_then (bl_get B key s) (\<lambda>framed.
       case framed of
         None \<Rightarrow> Inr None
       | Some t \<Rightarrow>
           (case base64ToBytes t of
              Inl e \<Rightarrow> unreadable key '' has invalid base64 framing''
            | Inr frame \<Rightarrow> and_then (open_frame V dek key frame) (\<lambda>v. Inr (Some v))))"

text \<open>The nonce that randomBytes draws is an argument.\<close>

definition setJson :: "'s blob_ops \<Rightarrow> vault \<Rightarrow> bytes \<Rightarrow> bytes \<Rightarrow> string \<Rightarrow> json \<Rightarrow> 's \<Rightarrow> (storage_error + unit) \<times> 's" where
  "setJson B V dek nonce key v s =
     (let plaintext = TextEncoder (stringify_json V v) in
      case storeKey dek of
        Inl e \<Rightarrow> (Inl e, s)
      | Inr k \<Rightarrow> bl_set B key (bytesToBase64 (nonce @ aes_encrypt V k nonce plaintext)) s)"

section \<open>The data key\<close>

record 'c secure_items =
  getItemAsync :: "string \<Rightarrow> 'c \<Rightarrow> storage_error + string option"
  setItemAsync :: "string \<Rightarrow> string \<Rightarrow> 'c \<Rightarrow> (storage_error + unit) \<times> 'c"
  deleteItemAsync :: "string \<Rightarrow> 'c \<Rightarrow> (storage_error + unit) \<times> 'c"

definition DATA_KEY_STORE_KEY :: string where "DATA_KEY_STORE_KEY = ''aesmsg.data-key''"
definition DEK_BYTES :: nat where "DEK_BYTES = 32"

text \<open>The key that \<open>random\<close> draws is an argument; a stored key that is not base64 throws.\<close>

definition getOrCreateDEK :: "'c secure_items \<Rightarrow> bytes \<Rightarrow> 'c \<Rightarrow> (storage_error + bytes) \<times> 'c" where
  "getOrCreateDEK KC fresh c =
     (case getItemAsync KC DATA_KEY_STORE_KEY c of
        Inl e \<Rightarrow> (Inl e, c)
      | Inr (Some t) \<Rightarrow> (case base64ToBytes t of Inl e \<Rightarrow> (Inl (KeychainError ''Invalid base64 character''), c) | Inr dek \<Rightarrow> (Inr dek, c))
      | Inr None \<Rightarrow>
          state_then (setItemAsync KC DATA_KEY_STORE_KEY (bytesToBase64 fresh) c) (\<lambda>u c1. (Inr fresh, c1)))"

definition deleteDEK :: "'c secure_items \<Rightarrow> 'c \<Rightarrow> (storage_error + unit) \<times> 'c" where
  "deleteDEK KC c = deleteItemAsync KC DATA_KEY_STORE_KEY c"

definition keychain_correct :: "'c secure_items \<Rightarrow> ('c \<Rightarrow> string \<Rightarrow> string option) \<Rightarrow> bool" where
  "keychain_correct KC items =
     ((\<forall>k c v. getItemAsync KC k c = Inr v \<longrightarrow> v = items c k) \<and>
      (\<forall>k t c r c'. setItemAsync KC k t c = (r, c') \<longrightarrow>
         (\<forall>j. j \<noteq> k \<longrightarrow> items c' j = items c j) \<and> (r = Inr () \<longrightarrow> items c' k = Some t)) \<and>
      (\<forall>k c r c'. deleteItemAsync KC k c = (r, c') \<longrightarrow>
         (\<forall>j. j \<noteq> k \<longrightarrow> items c' j = items c j) \<and> (r = Inr () \<longrightarrow> items c' k = None)))"

section \<open>The shared store\<close>

text \<open>
  What the application holds: the blobs, the keychain and the memoized promise of the store, which is
  determined by the data key it was built with; a rejected promise is memoized as well.
\<close>

record ('s, 'c) device =
  blobs :: 's
  chain :: 'c
  store_promise :: "(storage_error + bytes) option"

definition getEncryptedStore :: "'c secure_items \<Rightarrow> bytes \<Rightarrow> ('s, 'c) device \<Rightarrow> (storage_error + bytes) \<times> ('s, 'c) device" where
  "getEncryptedStore KC fresh d =
     (case store_promise d of
        Some r \<Rightarrow> (r, d)
      | None \<Rightarrow> (case getOrCreateDEK KC fresh (chain d) of (r, c) \<Rightarrow> (r, d\<lparr>chain := c, store_promise := Some r\<rparr>)))"

definition wipeEncryptedStorage :: "'s blob_ops \<Rightarrow> 'c secure_items \<Rightarrow> bytes \<Rightarrow> ('s, 'c) device \<Rightarrow> (storage_error + unit) \<times> ('s, 'c) device" where
  "wipeEncryptedStorage B KC fresh d =
     state_then (getEncryptedStore KC fresh d) (\<lambda>dek d1.
       case bl_clear B (blobs d1) of
         (Inl e, s) \<Rightarrow> (Inl e, d1\<lparr>blobs := s\<rparr>)
       | (Inr u, s) \<Rightarrow>
           (case deleteDEK KC (chain d1) of
              (Inl e, c) \<Rightarrow> (Inl e, d1\<lparr>blobs := s, chain := c\<rparr>)
            | (Inr u, c) \<Rightarrow> (Inr (), d1\<lparr>blobs := s, chain := c, store_promise := None\<rparr>)))"

text \<open>What a domain does with the shared store: fetch it, then read or write under its own key.\<close>

definition load_value :: "'s blob_ops \<Rightarrow> 'c secure_items \<Rightarrow> vault \<Rightarrow> bytes \<Rightarrow> string \<Rightarrow> ('s, 'c) device \<Rightarrow> (storage_error + json option) \<times> ('s, 'c) device" where
  "load_value B KC V fresh key d =
     state_then (getEncryptedStore KC fresh d) (\<lambda>dek d1. (getJson B V dek key (blobs d1), d1))"

definition save_value :: "'s blob_ops \<Rightarrow> 'c secure_items \<Rightarrow> vault \<Rightarrow> bytes \<Rightarrow> bytes \<Rightarrow> string \<Rightarrow> json \<Rightarrow> ('s, 'c) device
    \<Rightarrow> (storage_error + unit) \<times> ('s, 'c) device" where
  "save_value B KC V fresh nonce key v d =
     state_then (getEncryptedStore KC fresh d) (\<lambda>dek d1.
       case setJson B V dek nonce key v (blobs d1) of (r, s) \<Rightarrow> (r, d1\<lparr>blobs := s\<rparr>))"

section \<open>Lemmas\<close>

text \<open>
  JSON's round trip over the text it writes of the values that survive it, and AES-GCM: decryption inverts encryption and the tag makes
  every ciphertext non-empty; that a ciphertext decrypts under no other 256-bit key is a separate hypothesis.
\<close>

definition vault_correct :: "vault \<Rightarrow> bool" where
  "vault_correct V =
     (json_returns (stringify_json V) (parse_json_text V) \<and>
      (\<forall>v. well_formed (stringify_json V v) \<and> take 3 (TextEncoder (stringify_json V v)) \<noteq> [0xEF, 0xBB, 0xBF]) \<and>
      (\<forall>k n p. aes_decrypt V k n (aes_encrypt V k n p) = Some p) \<and>
      (\<forall>k n p. aes_encrypt V k n p \<noteq> []))"

definition vault_authentic :: "vault \<Rightarrow> bool" where
  "vault_authentic V =
     (\<forall>k k' n p. length k = DEK_BYTES \<longrightarrow> length k' = DEK_BYTES \<longrightarrow> k \<noteq> k' \<longrightarrow>
        aes_decrypt V k' n (aes_encrypt V k n p) = None)"

lemma open_own_frame:
  assumes "vault_correct V" "length nonce = NONCE_LEN" "storeKey dek = Inr k" "json_plain v"
  shows "open_frame V dek key (nonce @ aes_encrypt V k nonce (TextEncoder (stringify_json V v))) = Inr v"
  using assms text_roundtrip by (simp add: vault_correct_def json_returns_D open_frame_def Let_def)

lemma open_foreign_frame:
  assumes "vault_correct V" "vault_authentic V" "length nonce = NONCE_LEN" "length dek = DEK_BYTES" "length k = DEK_BYTES" "dek \<noteq> k"
  shows "open_frame V dek key (nonce @ aes_encrypt V k nonce p) = unreadable key '' failed to decrypt''"
  using assms by (simp add: vault_correct_def vault_authentic_def open_frame_def Let_def storeKey_def DEK_BYTES_def)

lemma storeKey_Inr: "storeKey dek = Inr k \<longleftrightarrow> k = dek \<and> length dek \<in> {16, 24, 32}"
  by (auto simp: storeKey_def)

context blob_store
begin

lemma set_then_get:
  assumes "inv s" "vault_correct V" "length nonce = NONCE_LEN" "setJson B V dek nonce key v s = (Inr (), s1)"
    "bl_get B key s1 = Inr x" "json_plain v"
  shows "getJson B V dek key s1 = Inr (Some v)"
proof -
  obtain k where k: "storeKey dek = Inr k" using assms(4) by (cases "storeKey dek") (auto simp: setJson_def Let_def)
  let ?frame = "nonce @ aes_encrypt V k nonce (TextEncoder (stringify_json V v))"
  have "bl_set B key (bytesToBase64 ?frame) s = (Inr (), s1)" using assms(4) k by (simp add: setJson_def Let_def)
  then have "blob s1 key = Some (bytesToBase64 ?frame)" "inv s1" using set_law [OF assms(1)] by blast+
  then have "x = Some (bytesToBase64 ?frame)" using get_law assms(5) by metis
  then show ?thesis using assms(5) open_own_frame [OF assms(2,3) k assms(6), of key] by (simp add: getJson_def base64_roundtrip)
qed

lemma set_keeps_others:
  assumes "inv s" "setJson B V dek nonce key v s = (r, s1)" "j \<noteq> key" "bl_get B j s = Inr x" "bl_get B j s1 = Inr y"
  shows "getJson B V dek j s1 = getJson B V dek j s"
proof (cases "storeKey dek")
  case (Inl e)
  then show ?thesis using assms(2) by (simp add: setJson_def)
next
  case (Inr k)
  then have "bl_set B key (bytesToBase64 (nonce @ aes_encrypt V k nonce (TextEncoder (stringify_json V v)))) s = (r, s1)"
    using assms(2) by (simp add: setJson_def Let_def)
  then have "inv s1" "blob s1 j = blob s j" using set_law [OF assms(1)] assms(3) by blast+
  then have "y = x" using get_law [OF assms(1,4)] get_law assms(5) by metis
  then show ?thesis using assms(4,5) by (simp add: getJson_def)
qed

lemma set_keeps_inv:
  assumes "inv s" "setJson B V dek nonce key v s = (r, s1)"
  shows "inv s1"
  using assms set_law by (auto simp: setJson_def Let_def split: sum.splits)

lemma wiped:
  assumes "inv (blobs d)" "wipeEncryptedStorage B KC fresh d = (Inr (), d1)" "keychain_correct KC items"
  shows "inv (blobs d1) \<and> blob (blobs d1) key = None \<and> store_promise d1 = None \<and> items (chain d1) DATA_KEY_STORE_KEY = None"
proof -
  obtain dek d0 where g: "getEncryptedStore KC fresh d = (Inr dek, d0)" and b0: "blobs d0 = blobs d"
    using assms(2) by (cases "getEncryptedStore KC fresh d")
      (auto simp: wipeEncryptedStorage_def state_then_def getEncryptedStore_def split: sum.splits option.splits prod.splits)
  obtain s where s: "bl_clear B (blobs d) = (Inr (), s)"
    using assms(2) g b0 by (cases "bl_clear B (blobs d)") (auto simp: wipeEncryptedStorage_def state_then_def split: sum.splits)
  obtain c where c: "deleteDEK KC (chain d0) = (Inr (), c)" and d1: "d1 = d0\<lparr>blobs := s, chain := c, store_promise := None\<rparr>"
    using assms(2) g b0 s by (cases "deleteDEK KC (chain d0)") (auto simp: wipeEncryptedStorage_def state_then_def split: sum.splits)
  have "items c DATA_KEY_STORE_KEY = None" using assms(3) c by (auto simp: keychain_correct_def deleteDEK_def)
  then show ?thesis using clear_law [OF assms(1) s] d1 by simp
qed

end

end
