(* ===== verification/Storage_Properties.thy ===== *)
theory Storage_Properties
  imports Encrypted_Store Key_Wrap
begin

text \<open>
  Properties of the encrypted store over files and keychain: a saved value survives a restart of the
  application, a wipe leaves nothing readable, and a failure to build the store is remembered. A small
  file system, keychain and vault show that the hypotheses can hold.
\<close>

section \<open>A restart\<close>

text \<open>A new process starts without the memoized store.\<close>

definition restart :: "('s, 'c) device \<Rightarrow> ('s, 'c) device" where
  "restart d = d\<lparr>store_promise := None\<rparr>"

lemma created_key_returns:
  assumes "keychain_correct KC items" "getOrCreateDEK KC fresh c = (Inr dek, c1)"
    "getItemAsync KC DATA_KEY_STORE_KEY c1 = Inr t"
  shows "getOrCreateDEK KC fresh' c1 = (Inr dek, c1)"
proof (cases "getItemAsync KC DATA_KEY_STORE_KEY c")
  case (Inl e)
  then show ?thesis using assms(2) by (simp add: getOrCreateDEK_def)
next
  case (Inr v)
  show ?thesis
  proof (cases v)
    case None
    then have "setItemAsync KC DATA_KEY_STORE_KEY (bytesToBase64 fresh) c = (Inr (), c1)" "dek = fresh"
      using assms(2) Inr by (auto simp: getOrCreateDEK_def state_then_def split: prod.splits sum.splits)
    then have "t = Some (bytesToBase64 dek)" using assms(1,3) unfolding keychain_correct_def by metis
    then show ?thesis using assms(3) by (simp add: getOrCreateDEK_def base64_roundtrip)
  next
    case (Some x)
    then show ?thesis using assms(2) Inr by (auto simp: getOrCreateDEK_def split: sum.splits)
  qed
qed

text \<open>A save in a new process fixes the data key, which a read after a restart finds again.\<close>

lemma saved_split:
  assumes "keychain_correct KC items" "store_promise d = None" "save_value B KC V fresh nonce key v d = (Inr (), d1)"
    "getItemAsync KC DATA_KEY_STORE_KEY (chain d1) = Inr t"
  obtains dek where "setJson B V dek nonce key v (blobs d) = (Inr (), blobs d1)"
    "\<And>j. fst (load_value B KC V fresh' j (restart d1)) = getJson B V dek j (blobs d1)"
    "\<And>j. fst (load_value B KC V fresh j d) = getJson B V dek j (blobs d)"
proof -
  obtain dek c where c: "getOrCreateDEK KC fresh (chain d) = (Inr dek, c)"
    using assms(2,3) by (cases "getOrCreateDEK KC fresh (chain d)")
      (auto simp: save_value_def getEncryptedStore_def state_then_def split: sum.splits)
  obtain s where s: "setJson B V dek nonce key v (blobs d) = (Inr (), s)"
    "d1 = d\<lparr>chain := c, store_promise := Some (Inr dek), blobs := s\<rparr>"
    using assms(2,3) c by (cases "setJson B V dek nonce key v (blobs d)")
      (auto simp: save_value_def getEncryptedStore_def state_then_def)
  have again: "getOrCreateDEK KC fresh' c = (Inr dek, c)"
    using created_key_returns [OF assms(1) c] assms(4) s(2) by simp
  show ?thesis
  proof (rule that)
    show "setJson B V dek nonce key v (blobs d) = (Inr (), blobs d1)" using s by simp
    show "fst (load_value B KC V fresh' j (restart d1)) = getJson B V dek j (blobs d1)" for j
      using again by (simp add: load_value_def getEncryptedStore_def restart_def state_then_def s(2))
    show "fst (load_value B KC V fresh j d) = getJson B V dek j (blobs d)" for j
      using c assms(2) by (simp add: load_value_def getEncryptedStore_def state_then_def)
  qed
qed

lemma saved_value_read:
  assumes "file_inv FS files dirs base (blobs d)" "keychain_correct KC items" "vault_correct V"
    "length nonce = NONCE_LEN" "store_promise d = None"
    "save_value (file_blobs FS) KC V fresh nonce key v d = (Inr (), d1)"
    "bl_get (file_blobs FS) key (blobs d1) = Inr x" "getItemAsync KC DATA_KEY_STORE_KEY (chain d1) = Inr t"
    "json_plain v"
  shows "fst (load_value (file_blobs FS) KC V fresh' key (restart d1)) = Inr (Some v)"
proof -
  obtain dek where "setJson (file_blobs FS) V dek nonce key v (blobs d) = (Inr (), blobs d1)"
    "\<And>j. fst (load_value (file_blobs FS) KC V fresh' j (restart d1)) = getJson (file_blobs FS) V dek j (blobs d1)"
    using saved_split [OF assms(2,5,6,8), of fresh'] by blast
  then show ?thesis using files.set_then_get [OF assms(1,3,4) _ assms(7,9)] by simp
qed


section \<open>Small instances\<close>

definition toy_fs :: "(string \<times> string) list file_system" where
  "toy_fs = \<lparr>documentDirectory = Some ''d/'',
     fs_exists = \<lambda>u s. Inr (map_of s u \<noteq> None \<or> u \<noteq> [] \<and> last u = CHR ''/''),
     makeDirectoryAsync = \<lambda>u s. (Inr (), s),
     readAsStringAsync = \<lambda>u s. (case map_of s u of None \<Rightarrow> Inl (FsError []) | Some t \<Rightarrow> Inr t),
     writeAsStringAsync = \<lambda>u c s. (Inr (), AList.update u c s),
     deleteAsync = \<lambda>u s. (Inr (), AList.delete u s),
     readDirectoryAsync = \<lambda>d s. Inr (map (drop (length d)) (filter (\<lambda>u. take (length d) u = d) (map fst s)))\<rparr>"

definition toy_dirs :: "(string \<times> string) list \<Rightarrow> string set" where
  "toy_dirs s = {u. u \<noteq> [] \<and> last u = CHR ''/''}"

lemma toy_fs_correct: "fs_correct toy_fs map_of toy_dirs"
proof -
  have "n \<in> set (map (drop (length d)) (filter (\<lambda>u. take (length d) u = d) (map fst s)))"
    if "map_of s (d @ n) \<noteq> None" for d n :: string and s :: "(string \<times> string) list"
  proof -
    have "d @ n \<in> fst ` set s" using that by (simp add: map_of_eq_None_iff)
    then have "d @ n \<in> set (filter (\<lambda>u. take (length d) u = d) (map fst s))" by simp
    then show ?thesis by (metis append_eq_conv_conj image_eqI set_map)
  qed
  then show ?thesis
    by (auto simp: fs_correct_def toy_fs_def toy_dirs_def update_conv' delete_conv' split: option.splits)
qed

lemma toy_file_inv: "file_inv toy_fs map_of toy_dirs ''d/'' s"
  by (simp add: file_inv_def toy_fs_correct) (simp add: toy_fs_def toy_dirs_def blob_uri_def EXT_def)

definition toy_keychain :: "(string \<times> string) list secure_items" where
  "toy_keychain = \<lparr>getItemAsync = \<lambda>k c. Inr (map_of c k), setItemAsync = \<lambda>k t c. (Inr (), AList.update k t c),
     deleteItemAsync = \<lambda>k c. (Inr (), AList.delete k c)\<rparr>"

lemma toy_keychain_correct: "keychain_correct toy_keychain map_of"
  by (auto simp: keychain_correct_def toy_keychain_def update_conv' delete_conv')

definition toy_vault :: vault where
  "toy_vault = \<lparr>stringify_json = \<lambda>v. text_of_string (replicate (to_nat v) CHR ''x''), parse_json_text = \<lambda>t. Some (from_nat (length t)),
     aes_encrypt = \<lambda>k n p. take 32 (k @ replicate 32 0) @ p,
     aes_decrypt = \<lambda>k n c. if take 32 c = take 32 (k @ replicate 32 0) then Some (drop 32 c) else None\<rparr>"

lemma xs_no_bom: "take 3 (TextEncoder (text_of_string (replicate n CHR ''x''))) \<noteq> [0xEF, 0xBB, 0xBF]"
proof (cases n)
  case (Suc m)
  have "scalar_bytes 120 = [120]" by (simp add: scalar_bytes_def)
  moreover have "\<not> high_surrogate 120" "\<not> low_surrogate 120" by (simp_all add: high_surrogate_def low_surrogate_def)
  ultimately show ?thesis using Suc by (cases m) (simp_all add: TextEncoder_def text_of_string_def)
qed (simp add: text_of_string_def TextEncoder_def)

lemma toy_vault_correct: "vault_correct toy_vault"
  by (simp add: vault_correct_def json_returns_def toy_vault_def xs_no_bom) (auto simp: text_of_string_def)

lemma toy_vault_authentic: "vault_authentic toy_vault"
  by (auto simp: vault_authentic_def toy_vault_def DEK_BYTES_def)

lemma length_take_pad [simp]: "length (take 32 (k @ replicate 32 0)) = 32"
  by simp

abbreviation toy_device :: "((string \<times> string) list, (string \<times> string) list) device" where
  "toy_device \<equiv> \<lparr>blobs = [], chain = [], store_promise = None\<rparr>"

lemma toy_get: "\<exists>x. bl_get (file_blobs toy_fs) k s = Inr x"
  by (auto simp: file_blobs_def blob_get_def fileUri_def dirUri_def toy_fs_def EXT_def split: option.splits)

lemma toy_getItem: "getItemAsync toy_keychain k c = Inr (map_of c k)"
  by (simp add: toy_keychain_def)

lemma toy_set: "\<exists>s'. bl_set (file_blobs toy_fs) k v s = (Inr (), s')"
  by (simp add: file_blobs_def blob_set_def ensureDir_def dirUri_def fileUri_def toy_fs_def state_then_def)

lemma toy_key: "storeKey (replicate 32 1) = Inr (replicate 32 1)"
  by (simp add: storeKey_def)

lemma toy_store: "getEncryptedStore toy_keychain fresh toy_device =
    (Inr fresh, \<lparr>blobs = [], chain = [(DATA_KEY_STORE_KEY, bytesToBase64 fresh)], store_promise = Some (Inr fresh)\<rparr>)"
  by (simp add: getEncryptedStore_def getOrCreateDEK_def toy_keychain_def state_then_def)

lemma toy_saved:
  obtains s where "save_value (file_blobs toy_fs) toy_keychain toy_vault (replicate 32 1) (replicate 12 2) ''settings'' JNull toy_device
    = (Inr (), \<lparr>blobs = s, chain = [(DATA_KEY_STORE_KEY, bytesToBase64 (replicate 32 1))], store_promise = Some (Inr (replicate 32 1))\<rparr>)"
proof -
  obtain s where "setJson (file_blobs toy_fs) toy_vault (replicate 32 1) (replicate 12 2) ''settings'' JNull [] = (Inr (), s)"
    using toy_set by (fastforce simp: setJson_def Let_def toy_key)
  then show ?thesis using that by (simp add: save_value_def toy_store state_then_def)
qed


section \<open>Wiping\<close>

text \<open>
  C19: after a successful wipe of the encrypted storage no key reads a value, the next store is built with
  a new data key, and a frame from before the wipe is reported as undecryptable under it.
\<close>

theorem wipe_leaves_nothing:
  assumes "file_inv FS files dirs base (blobs d)" "keychain_correct KC items" "vault_correct V" "vault_authentic V"
    "wipeEncryptedStorage (file_blobs FS) KC old d = (Inr (), d1)"
    "load_value (file_blobs FS) KC V fresh key d1 = (r, d2)" "r = Inr v"
    "length nonce = NONCE_LEN" "length fresh = DEK_BYTES" "length dek = DEK_BYTES" "dek \<noteq> fresh"
  shows "v = None \<and> store_promise d2 = Some (Inr fresh)
    \<and> open_frame V fresh key (nonce @ aes_encrypt V dek nonce p) = unreadable key '' failed to decrypt''"
proof -
  note w = files.wiped [OF assms(1,5,2), of key]
  obtain c where g: "getOrCreateDEK KC fresh (chain d1) = (Inr fresh, c)" "getItemAsync KC DATA_KEY_STORE_KEY (chain d1) = Inr None"
  proof (cases "getItemAsync KC DATA_KEY_STORE_KEY (chain d1)")
    case (Inl e)
    then show ?thesis using assms(6,7) w by (simp add: load_value_def getEncryptedStore_def getOrCreateDEK_def state_then_def)
  next
    case (Inr t)
    then have "t = None" using w assms(2) unfolding keychain_correct_def by metis
    then show ?thesis using Inr assms(6,7) w that
      by (auto simp: load_value_def getEncryptedStore_def getOrCreateDEK_def state_then_def split: prod.splits sum.splits)
  qed
  have d2: "d2 = d1\<lparr>chain := c, store_promise := Some (Inr fresh)\<rparr>" "getJson (file_blobs FS) V fresh key (blobs d1) = Inr v"
    using assms(6,7) w g(1) by (auto simp: load_value_def getEncryptedStore_def state_then_def)
  obtain x where x: "bl_get (file_blobs FS) key (blobs d1) = Inr x"
    using d2(2) by (cases "bl_get (file_blobs FS) key (blobs d1)") (simp_all add: getJson_def)
  then have "x = None" using files.get_law w by metis
  then have "v = None" using d2(2) x by (simp add: getJson_def)
  then show ?thesis using d2(1) open_foreign_frame [OF assms(3,4,8,9,10) not_sym [OF assms(11)]] by simp
qed

text \<open>A device with a data key and one stored value.\<close>

definition full_device :: "((string \<times> string) list, (string \<times> string) list) device" where
  "full_device = \<lparr>blobs = [(''d/aesmsg/'' @ encodeURIComponent ''contacts'' @ ''.enc'', ''x'')], chain = [(DATA_KEY_STORE_KEY, bytesToBase64 (replicate 32 1))], store_promise = None\<rparr>"
lemma full_wiped:
  "wipeEncryptedStorage (file_blobs toy_fs) toy_keychain fresh full_device = (Inr (), toy_device)"
proof -
  have k: "blob_keys toy_fs [(''d/aesmsg/'' @ encodeURIComponent ''contacts'' @ ''.enc'', ''x'')] = Inr [''contacts'']"
    by (simp add: blob_keys_def dirUri_def toy_fs_def SUBDIR_def EXT_def ends_with_def numeral_eq_Suc)
  have "blob_clear toy_fs [(''d/aesmsg/'' @ encodeURIComponent ''contacts'' @ ''.enc'', ''x'')] = (Inr (), [])"
    unfolding blob_clear_def k by (simp add: blob_remove_def fileUri_def dirUri_def toy_fs_def SUBDIR_def EXT_def state_then_def)
  moreover have "deleteDEK toy_keychain [(DATA_KEY_STORE_KEY, x)] = (Inr (), [])" for x
    by (simp add: deleteDEK_def toy_keychain_def)
  ultimately show ?thesis
    unfolding full_device_def by (simp add: wipeEncryptedStorage_def getEncryptedStore_def getOrCreateDEK_def base64_roundtrip toy_getItem state_then_def file_blobs_def)
qed

theorem wipe_leaves_nothing_witness:
  "\<exists>d1 d2. wipeEncryptedStorage (file_blobs toy_fs) toy_keychain [] full_device = (Inr (), d1)
    \<and> load_value (file_blobs toy_fs) toy_keychain toy_vault (replicate 32 3) ''contacts'' d1 = (Inr None, d2)
    \<and> store_promise d2 = Some (Inr (replicate 32 3))"
proof -
  obtain r d2 where l: "load_value (file_blobs toy_fs) toy_keychain toy_vault (replicate 32 3) ''contacts'' toy_device = (r, d2)"
    by (cases "load_value (file_blobs toy_fs) toy_keychain toy_vault (replicate 32 3) ''contacts'' toy_device")
  have "bl_get (file_blobs toy_fs) ''contacts'' [] = Inr None"
    by (simp add: file_blobs_def blob_get_def fileUri_def dirUri_def toy_fs_def EXT_def SUBDIR_def)
  then have r: "r = Inr None" using l by (simp add: load_value_def toy_store state_then_def getJson_def)
  have "store_promise d2 = Some (Inr (replicate 32 3))"
    using wipe_leaves_nothing [OF toy_file_inv toy_keychain_correct toy_vault_correct toy_vault_authentic full_wiped l r,
        of "replicate 12 2" "replicate 32 1"]
    by (simp add: NONCE_LEN_def DEK_BYTES_def)
  then show ?thesis using full_wiped [of "[]"] l r by blast
qed

section \<open>A failure is remembered\<close>

datatype storage_call = Load bytes string | Save bytes bytes string json | Wipe_All bytes

fun storage_step :: "'s blob_ops \<Rightarrow> 'c secure_items \<Rightarrow> vault \<Rightarrow> storage_call \<Rightarrow> ('s, 'c) device
    \<Rightarrow> (storage_error + json option) \<times> ('s, 'c) device" where
  "storage_step B KC V (Load fresh key) d = load_value B KC V fresh key d"
| "storage_step B KC V (Save fresh nonce key v) d = state_then (save_value B KC V fresh nonce key v d) (\<lambda>u d1. (Inr None, d1))"
| "storage_step B KC V (Wipe_All fresh) d = state_then (wipeEncryptedStorage B KC fresh d) (\<lambda>u d1. (Inr None, d1))"

fun storage_run :: "'s blob_ops \<Rightarrow> 'c secure_items \<Rightarrow> vault \<Rightarrow> storage_call list \<Rightarrow> ('s, 'c) device
    \<Rightarrow> (storage_error + json option) list \<times> ('s, 'c) device" where
  "storage_run B KC V [] d = ([], d)"
| "storage_run B KC V (c # cs) d =
     (case storage_step B KC V c d of (r, d1) \<Rightarrow> case storage_run B KC V cs d1 of (rs, d2) \<Rightarrow> (r # rs, d2))"

text \<open>
  When the store cannot be built once, because the keychain did not answer, every later read, write
  and wipe of the process fails with the same error and changes nothing, whatever the keychain does by
  then: the rejected promise is kept.
\<close>

theorem failed_build_sticks:
  assumes "getEncryptedStore KC fresh d = (Inl e, d1)"
  shows "storage_run B KC' V calls d1 = (map (\<lambda>c. Inl e) calls, d1)"
proof -
  have "store_promise d1 = Some (Inl e)"
    using assms by (auto simp: getEncryptedStore_def split: option.splits prod.splits)
  then have "getEncryptedStore KC' f d1 = (Inl e, d1)" for f by (simp add: getEncryptedStore_def)
  then have "storage_step B KC' V c d1 = (Inl e, d1)" for c
    by (cases c) (simp_all add: load_value_def save_value_def wipeEncryptedStorage_def state_then_def)
  then show ?thesis by (induction calls) simp_all
qed

theorem failed_build_sticks_witness:
  "storage_run (file_blobs toy_fs) toy_keychain toy_vault [Load [] ''contacts'', Wipe_All []]
     (toy_device\<lparr>store_promise := Some (Inl (KeychainError ''locked''))\<rparr>)
   = ([Inl (KeychainError ''locked''), Inl (KeychainError ''locked'')], toy_device\<lparr>store_promise := Some (Inl (KeychainError ''locked''))\<rparr>)"
  using failed_build_sticks
    [of "toy_keychain\<lparr>getItemAsync := \<lambda>k c. Inl (KeychainError ''locked'')\<rparr>" "[]" toy_device "KeychainError ''locked''"
        "toy_device\<lparr>store_promise := Some (Inl (KeychainError ''locked''))\<rparr>" "file_blobs toy_fs" toy_keychain toy_vault
        "[Load [] ''contacts'', Wipe_All []]"]
  by (simp add: getEncryptedStore_def getOrCreateDEK_def)

end
