(* ===== verification/Device_Prefs.thy ===== *)
theory Device_Prefs
  imports Storage_Properties
begin

text \<open>
  What the mobile client keeps about itself in the encrypted store: the settings
  (apps/mobile/src/settings: settings-format.ts, settings-store.ts) and whether a backup exists
  (keys/backup-state.ts). Both are read fail-soft: whatever is stored is coerced field by field.
\<close>

section \<open>The settings record\<close>

datatype app_lock_timeout = LNever | L1m | L5m | L15m | L1h

fun lock_string :: "app_lock_timeout \<Rightarrow> string" where
  "lock_string LNever = ''never''"
| "lock_string L1m = ''1m''"
| "lock_string L5m = ''5m''"
| "lock_string L15m = ''15m''"
| "lock_string L1h = ''1h''"

definition APP_LOCK_TIMEOUTS :: "app_lock_timeout list" where
  "APP_LOCK_TIMEOUTS = [LNever, L1m, L5m, L15m, L1h]"

definition isAppLockTimeout :: "json option \<Rightarrow> app_lock_timeout option" where
  "isAppLockTimeout v =
     (case v of Some (JStr s) \<Rightarrow> List.find (\<lambda>t. lock_string t = s) APP_LOCK_TIMEOUTS | _ \<Rightarrow> None)"

fun appLockTimeoutMs :: "app_lock_timeout \<Rightarrow> int option" where
  "appLockTimeoutMs LNever = None"
| "appLockTimeoutMs L1m = Some 60000"
| "appLockTimeoutMs L5m = Some (5 * 60000)"
| "appLockTimeoutMs L15m = Some (15 * 60000)"
| "appLockTimeoutMs L1h = Some (60 * 60 * 1000)"

definition CLIPBOARD_CLEAR_MIN_SECONDS :: int where "CLIPBOARD_CLEAR_MIN_SECONDS = 10"
definition CLIPBOARD_CLEAR_MAX_SECONDS :: int where "CLIPBOARD_CLEAR_MAX_SECONDS = 90"

definition clampClipboardSeconds :: "js_num \<Rightarrow> int" where
  "clampClipboardSeconds seconds =
     (case seconds of
        Fin q \<Rightarrow> let floored = \<lfloor>q\<rfloor> in
          if floored < CLIPBOARD_CLEAR_MIN_SECONDS then CLIPBOARD_CLEAR_MIN_SECONDS
          else if floored > CLIPBOARD_CLEAR_MAX_SECONDS then CLIPBOARD_CLEAR_MAX_SECONDS
          else floored
      | _ \<Rightarrow> CLIPBOARD_CLEAR_MIN_SECONDS)"

definition clipboardFillFraction :: "js_num \<Rightarrow> rat" where
  "clipboardFillFraction seconds =
     (let v = clampClipboardSeconds seconds; span = CLIPBOARD_CLEAR_MAX_SECONDS - CLIPBOARD_CLEAR_MIN_SECONDS in
      if span \<le> 0 then 0 else of_int (v - CLIPBOARD_CLEAR_MIN_SECONDS) / of_int span)"

text \<open>\<open>Math.round\<close> rounds halves up.\<close>

definition js_round :: "rat \<Rightarrow> int" where
  "js_round q = \<lfloor>q + 1 / 2\<rfloor>"

definition clipboardSecondsForX :: "rat \<Rightarrow> rat \<Rightarrow> int option" where
  "clipboardSecondsForX x trackWidth =
     (if \<not> trackWidth > 0 then None
      else let frac = max 0 (min 1 (x / trackWidth)); span = CLIPBOARD_CLEAR_MAX_SECONDS - CLIPBOARD_CLEAR_MIN_SECONDS
           in Some (clampClipboardSeconds (num (CLIPBOARD_CLEAR_MIN_SECONDS + js_round (frac * of_int span)))))"

definition isValidClipboardSeconds :: "json option \<Rightarrow> js_num option" where
  "isValidClipboardSeconds v =
     (case v of
        Some (JNum n) \<Rightarrow>
          if isInteger n \<and> CLIPBOARD_CLEAR_MIN_SECONDS \<le> int_of_num n \<and> int_of_num n \<le> CLIPBOARD_CLEAR_MAX_SECONDS
          then Some n else None
      | _ \<Rightarrow> None)"

record settings =
  st_biometric :: bool
  st_introSeen :: bool
  st_biometricOnboardingSeen :: bool
  st_requireUnlock :: bool
  st_blurPreview :: bool
  st_blockScreens :: bool
  st_autoWipe :: bool
  st_clipboardClearSeconds :: js_num
  st_appLockTimeout :: app_lock_timeout
  st_analytics :: bool
  st_createdAt :: js_num
  st_updatedAt :: js_num

definition SETTINGS_DEFAULTS :: settings where
  "SETTINGS_DEFAULTS = \<lparr>st_biometric = True, st_introSeen = False, st_biometricOnboardingSeen = False, st_requireUnlock = True,
     st_blurPreview = True, st_blockScreens = True, st_autoWipe = True, st_clipboardClearSeconds = num 45,
     st_appLockTimeout = LNever, st_analytics = False, st_createdAt = num 0, st_updatedAt = num 0\<rparr>"

definition settings_json :: "settings \<Rightarrow> json" where
  "settings_json s =
     JObj [(''biometric'', JBool (st_biometric s)), (''introSeen'', JBool (st_introSeen s)),
       (''biometricOnboardingSeen'', JBool (st_biometricOnboardingSeen s)), (''requireUnlock'', JBool (st_requireUnlock s)),
       (''blurPreview'', JBool (st_blurPreview s)), (''blockScreens'', JBool (st_blockScreens s)),
       (''autoWipe'', JBool (st_autoWipe s)), (''clipboardClearSeconds'', JNum (st_clipboardClearSeconds s)),
       (''appLockTimeout'', JStr (lock_string (st_appLockTimeout s))), (''analytics'', JBool (st_analytics s)),
       (''schemaVersion'', jint 1), (''createdAt'', JNum (st_createdAt s)), (''updatedAt'', JNum (st_updatedAt s))]"

definition bool_or :: "json option \<Rightarrow> bool \<Rightarrow> bool" where
  "bool_or v fallback = (case v of Some (JBool b) \<Rightarrow> b | _ \<Rightarrow> fallback)"

definition finite_or_zero :: "json option \<Rightarrow> js_num" where
  "finite_or_zero v = (case v of Some (JNum n) \<Rightarrow> if is_finite n then n else num 0 | _ \<Rightarrow> num 0)"

definition validateSettings :: "json \<Rightarrow> settings" where
  "validateSettings input =
     (if \<not> is_object input then SETTINGS_DEFAULTS
      else let p = (\<lambda>k. json_prop k input); D = SETTINGS_DEFAULTS in
        \<lparr>st_biometric = bool_or (p ''biometric'') (st_biometric D),
         st_introSeen = bool_or (p ''introSeen'') (st_introSeen D),
         st_biometricOnboardingSeen = bool_or (p ''biometricOnboardingSeen'') (st_biometricOnboardingSeen D),
         st_requireUnlock = bool_or (p ''requireUnlock'') (st_requireUnlock D),
         st_blurPreview = bool_or (p ''blurPreview'') (st_blurPreview D),
         st_blockScreens = bool_or (p ''blockScreens'') (st_blockScreens D),
         st_autoWipe = bool_or (p ''autoWipe'') (st_autoWipe D),
         st_clipboardClearSeconds =
           (case isValidClipboardSeconds (p ''clipboardClearSeconds'') of Some n \<Rightarrow> n | None \<Rightarrow> st_clipboardClearSeconds D),
         st_appLockTimeout = (case isAppLockTimeout (p ''appLockTimeout'') of Some t \<Rightarrow> t | None \<Rightarrow> st_appLockTimeout D),
         st_analytics = bool_or (p ''analytics'') (st_analytics D),
         st_createdAt = finite_or_zero (p ''createdAt''),
         st_updatedAt = finite_or_zero (p ''updatedAt'')\<rparr>)"

definition migrateSettings :: "json \<Rightarrow> settings" where
  "migrateSettings input = validateSettings input"

definition SETTINGS_BLOB_KEY :: string where "SETTINGS_BLOB_KEY = ''settings''"

text \<open>The store a domain works on: the blobs, the keychain, the crypto, and the key drawn if there is none.\<close>

definition loadSettings :: "'s blob_ops \<Rightarrow> 'c secure_items \<Rightarrow> vault \<Rightarrow> bytes \<Rightarrow> ('s, 'c) device \<Rightarrow> settings \<times> ('s, 'c) device" where
  "loadSettings B KC V fresh d =
     (case load_value B KC V fresh SETTINGS_BLOB_KEY d of
        (Inl e, d1) \<Rightarrow> (SETTINGS_DEFAULTS, d1)
      | (Inr None, d1) \<Rightarrow> (SETTINGS_DEFAULTS, d1)
      | (Inr (Some raw), d1) \<Rightarrow> (migrateSettings raw, d1))"

definition stamped :: "int \<Rightarrow> settings \<Rightarrow> settings" where
  "stamped now next =
     (let normalised = migrateSettings (settings_json next) in
      normalised\<lparr>st_createdAt := if num_less (num 0) (st_createdAt normalised) then st_createdAt normalised else num now,
                 st_updatedAt := num now\<rparr>)"

definition saveSettings :: "'s blob_ops \<Rightarrow> 'c secure_items \<Rightarrow> vault \<Rightarrow> bytes \<Rightarrow> bytes \<Rightarrow> int \<Rightarrow> settings \<Rightarrow> ('s, 'c) device
    \<Rightarrow> (storage_error + unit) \<times> ('s, 'c) device" where
  "saveSettings B KC V fresh nonce now next d =
     save_value B KC V fresh nonce SETTINGS_BLOB_KEY (settings_json (stamped now next)) d"

definition deleteSettings :: "'s blob_ops \<Rightarrow> 'c secure_items \<Rightarrow> bytes \<Rightarrow> ('s, 'c) device \<Rightarrow> (storage_error + unit) \<times> ('s, 'c) device" where
  "deleteSettings B KC fresh d =
     state_then (getEncryptedStore KC fresh d) (\<lambda>dek d1.
       case bl_remove B SETTINGS_BLOB_KEY (blobs d1) of (r, s) \<Rightarrow> (r, d1\<lparr>blobs := s\<rparr>))"

definition hasSavedSettings :: "'s blob_ops \<Rightarrow> 'c secure_items \<Rightarrow> vault \<Rightarrow> bytes \<Rightarrow> ('s, 'c) device \<Rightarrow> bool \<times> ('s, 'c) device" where
  "hasSavedSettings B KC V fresh d =
     (case load_value B KC V fresh SETTINGS_BLOB_KEY d of (r, d1) \<Rightarrow> (r \<noteq> Inr None \<and> \<not> is_err r, d1))"

section \<open>Settings are coerced once and for all\<close>

definition settings_ok :: "settings \<Rightarrow> bool" where
  "settings_ok s =
     (isInteger (st_clipboardClearSeconds s)
      \<and> CLIPBOARD_CLEAR_MIN_SECONDS \<le> int_of_num (st_clipboardClearSeconds s)
      \<and> int_of_num (st_clipboardClearSeconds s) \<le> CLIPBOARD_CLEAR_MAX_SECONDS
      \<and> is_finite (st_createdAt s) \<and> is_finite (st_updatedAt s))"

lemma find_lock [simp]: "List.find (\<lambda>t. lock_string t = lock_string x) APP_LOCK_TIMEOUTS = Some x"
  by (cases x) (simp_all add: APP_LOCK_TIMEOUTS_def)

lemma validate_json:
  assumes "settings_ok s"
  shows "validateSettings (settings_json s) = s"
  using assms
  by (simp add: validateSettings_def settings_json_def is_object_def json_prop_def Let_def bool_or_def finite_or_zero_def
      isValidClipboardSeconds_def isAppLockTimeout_def settings_ok_def)

lemma validated_ok: "settings_ok (validateSettings j)"
  by (auto simp: validateSettings_def settings_ok_def SETTINGS_DEFAULTS_def Let_def finite_or_zero_def isValidClipboardSeconds_def
      CLIPBOARD_CLEAR_MIN_SECONDS_def CLIPBOARD_CLEAR_MAX_SECONDS_def split: option.splits json.splits if_splits)

lemma stamped_ok: "settings_ok (stamped now next)"
  using validated_ok [of "settings_json next"] by (auto simp: stamped_def migrateSettings_def settings_ok_def Let_def)

lemma settings_plain: "settings_ok s \<Longrightarrow> json_plain (settings_json s)"
  by (auto simp: settings_json_def settings_ok_def isInteger_iff)

lemma clamp_in_range: "CLIPBOARD_CLEAR_MIN_SECONDS \<le> clampClipboardSeconds x \<and> clampClipboardSeconds x \<le> CLIPBOARD_CLEAR_MAX_SECONDS"
  by (auto simp: clampClipboardSeconds_def CLIPBOARD_CLEAR_MIN_SECONDS_def CLIPBOARD_CLEAR_MAX_SECONDS_def Let_def split: js_num.splits)

lemma js_round_int: "js_round (of_int k) = k"
  by (simp add: js_round_def floor_eq_iff)

text \<open>The slider: the fraction drawn for a delay maps back to it, whatever the track's width.\<close>

lemma slider_roundtrip:
  assumes "0 < w"
  shows "clipboardSecondsForX (clipboardFillFraction x * w) w = Some (clampClipboardSeconds x)"
proof -
  let ?v = "clampClipboardSeconds x"
  have v: "10 \<le> ?v" "?v \<le> 90" using clamp_in_range [of x] by (simp_all add: CLIPBOARD_CLEAR_MIN_SECONDS_def CLIPBOARD_CLEAR_MAX_SECONDS_def)
  define f where "f = (of_int (?v - 10) / 80 :: rat)"
  have f: "clipboardFillFraction x = f"
    by (simp add: clipboardFillFraction_def f_def Let_def CLIPBOARD_CLEAR_MIN_SECONDS_def CLIPBOARD_CLEAR_MAX_SECONDS_def)
  have "0 \<le> f" "f \<le> 1" using v by (simp_all add: f_def)
  moreover have "f * 80 = of_int (?v - 10)" by (simp add: f_def)
  then have "js_round (f * 80) = ?v - 10" by (simp only: js_round_int)
  ultimately show ?thesis
    using assms v
    by (simp add: clipboardSecondsForX_def f Let_def CLIPBOARD_CLEAR_MIN_SECONDS_def CLIPBOARD_CLEAR_MAX_SECONDS_def)
      (simp add: clampClipboardSeconds_def num_def CLIPBOARD_CLEAR_MIN_SECONDS_def CLIPBOARD_CLEAR_MAX_SECONDS_def)
qed

text \<open>
  Settings that are reported as saved are the ones a new process loads, and whatever is stored, the
  loaded settings are complete and in range, and saving them again does not change them.
\<close>

theorem settings_survive:
  assumes "file_inv FS files dirs base (blobs d)" "keychain_correct KC items" "vault_correct V"
    "length nonce = NONCE_LEN" "store_promise d = None"
    "saveSettings (file_blobs FS) KC V fresh nonce now next d = (Inr (), d1)"
    "bl_get (file_blobs FS) SETTINGS_BLOB_KEY (blobs d1) = Inr x" "getItemAsync KC DATA_KEY_STORE_KEY (chain d1) = Inr t"
  shows "fst (loadSettings (file_blobs FS) KC V fresh' (restart d1)) = stamped now next
    \<and> settings_ok (stamped now next) \<and> st_updatedAt (stamped now next) = num now
    \<and> validateSettings (settings_json (validateSettings raw)) = validateSettings raw"
proof -
  have "save_value (file_blobs FS) KC V fresh nonce SETTINGS_BLOB_KEY (settings_json (stamped now next)) d = (Inr (), d1)"
    using assms(6) by (simp add: saveSettings_def)
  from saved_value_read [OF assms(1-5) this assms(7,8) settings_plain [OF stamped_ok]]
  have "fst (load_value (file_blobs FS) KC V fresh' SETTINGS_BLOB_KEY (restart d1)) = Inr (Some (settings_json (stamped now next)))" .
  then have "fst (loadSettings (file_blobs FS) KC V fresh' (restart d1)) = migrateSettings (settings_json (stamped now next))"
    by (simp add: loadSettings_def case_prod_beta split: sum.split option.split)
  then show ?thesis
    using validate_json [OF stamped_ok] stamped_ok validate_json [OF validated_ok]
    by (simp add: migrateSettings_def) (simp add: stamped_def Let_def)
qed

theorem settings_survive_witness:
  "\<exists>d1. fst (loadSettings (file_blobs toy_fs) toy_keychain toy_vault [] (restart d1)) = stamped 7 SETTINGS_DEFAULTS"
proof -
  obtain s where s: "setJson (file_blobs toy_fs) toy_vault (replicate 32 1) (replicate 12 2) SETTINGS_BLOB_KEY
      (settings_json (stamped 7 SETTINGS_DEFAULTS)) [] = (Inr (), s)"
    using toy_set by (fastforce simp: setJson_def Let_def toy_key)
  define d1 where "d1 = \<lparr>blobs = s, chain = [(DATA_KEY_STORE_KEY, bytesToBase64 (replicate 32 1))],
      store_promise = Some (Inr (replicate 32 1 :: bytes) :: storage_error + bytes)\<rparr>"
  have save: "saveSettings (file_blobs toy_fs) toy_keychain toy_vault (replicate 32 1) (replicate 12 2) 7 SETTINGS_DEFAULTS toy_device
    = (Inr (), d1)"
    using s by (simp add: saveSettings_def save_value_def toy_store state_then_def d1_def)
  obtain x where x: "bl_get (file_blobs toy_fs) SETTINGS_BLOB_KEY (blobs d1) = Inr x" using toy_get by blast
  have "fst (loadSettings (file_blobs toy_fs) toy_keychain toy_vault [] (restart d1)) = stamped 7 SETTINGS_DEFAULTS"
    using settings_survive [OF toy_file_inv toy_keychain_correct toy_vault_correct _ _ save x toy_getItem, of "[]" JNull]
    by (simp add: NONCE_LEN_def)
  then show ?thesis ..
qed

section \<open>Whether a backup exists\<close>

record backup_state =
  backedUp :: bool
  backedUpAt :: js_num
  nudgeSeen :: bool

definition DEFAULT_BACKUP_STATE :: backup_state where
  "DEFAULT_BACKUP_STATE = \<lparr>backedUp = False, backedUpAt = num 0, nudgeSeen = False\<rparr>"

definition backup_json :: "backup_state \<Rightarrow> json" where
  "backup_json b = JObj [(''backedUp'', JBool (backedUp b)), (''backedUpAt'', JNum (backedUpAt b)), (''nudgeSeen'', JBool (nudgeSeen b))]"

definition normalizeBackupState :: "json \<Rightarrow> backup_state" where
  "normalizeBackupState raw =
     (if \<not> is_object raw then DEFAULT_BACKUP_STATE
      else let bu = (json_prop ''backedUp'' raw = Some (JBool True));
               ts = (case json_prop ''backedUpAt'' raw of
                       Some (JNum n) \<Rightarrow> if is_finite n \<and> num_less (num 0) n then n else num 0
                     | _ \<Rightarrow> num 0)
           in \<lparr>backedUp = bu, backedUpAt = (if bu then ts else num 0), nudgeSeen = (json_prop ''nudgeSeen'' raw = Some (JBool True))\<rparr>)"

definition shouldShowBackupNudge :: "backup_state \<Rightarrow> bool" where
  "shouldShowBackupNudge b = (\<not> backedUp b \<and> \<not> nudgeSeen b)"

definition shouldShowBackupReminder :: "backup_state \<Rightarrow> bool" where
  "shouldShowBackupReminder b = (\<not> backedUp b)"

definition withBackedUp :: "js_num \<Rightarrow> backup_state \<Rightarrow> backup_state" where
  "withBackedUp ts b = b\<lparr>backedUp := True, backedUpAt := ts, nudgeSeen := True\<rparr>"

definition withNudgeSeen :: "backup_state \<Rightarrow> backup_state" where
  "withNudgeSeen b = b\<lparr>nudgeSeen := True\<rparr>"

definition BACKUP_STATE_BLOB_KEY :: string where "BACKUP_STATE_BLOB_KEY = ''backup-state''"

definition loadBackupState :: "'s blob_ops \<Rightarrow> 'c secure_items \<Rightarrow> vault \<Rightarrow> bytes \<Rightarrow> ('s, 'c) device \<Rightarrow> backup_state \<times> ('s, 'c) device" where
  "loadBackupState B KC V fresh d =
     (case load_value B KC V fresh BACKUP_STATE_BLOB_KEY d of
        (Inr (Some raw), d1) \<Rightarrow> (normalizeBackupState raw, d1)
      | (_, d1) \<Rightarrow> (DEFAULT_BACKUP_STATE, d1))"

definition updateBackupState :: "'s blob_ops \<Rightarrow> 'c secure_items \<Rightarrow> vault \<Rightarrow> bytes \<Rightarrow> bytes \<Rightarrow> (backup_state \<Rightarrow> backup_state) \<Rightarrow> ('s, 'c) device
    \<Rightarrow> (storage_error + backup_state) \<times> ('s, 'c) device" where
  "updateBackupState B KC V fresh nonce mutate d =
     state_then (getEncryptedStore KC fresh d) (\<lambda>dek d1.
       case loadBackupState B KC V fresh d1 of (prev, d2) \<Rightarrow>
         let new = mutate prev in
         case setJson B V dek nonce BACKUP_STATE_BLOB_KEY (backup_json new) (blobs d2) of
           (Inl e, s) \<Rightarrow> (Inl e, d2\<lparr>blobs := s\<rparr>)
         | (Inr u, s) \<Rightarrow> (Inr new, d2\<lparr>blobs := s\<rparr>))"

definition markBackedUp :: "'s blob_ops \<Rightarrow> 'c secure_items \<Rightarrow> vault \<Rightarrow> bytes \<Rightarrow> bytes \<Rightarrow> js_num \<Rightarrow> ('s, 'c) device
    \<Rightarrow> (storage_error + backup_state) \<times> ('s, 'c) device" where
  "markBackedUp B KC V fresh nonce ts d = updateBackupState B KC V fresh nonce (withBackedUp ts) d"

definition markNudgeSeen :: "'s blob_ops \<Rightarrow> 'c secure_items \<Rightarrow> vault \<Rightarrow> bytes \<Rightarrow> bytes \<Rightarrow> ('s, 'c) device
    \<Rightarrow> (storage_error + backup_state) \<times> ('s, 'c) device" where
  "markNudgeSeen B KC V fresh nonce d = updateBackupState B KC V fresh nonce withNudgeSeen d"

definition backup_ok :: "backup_state \<Rightarrow> bool" where
  "backup_ok b = (is_finite (backedUpAt b) \<and> (if backedUp b then backedUpAt b = num 0 \<or> num_less (num 0) (backedUpAt b) else backedUpAt b = num 0))"

lemma normalize_json: "backup_ok b \<Longrightarrow> normalizeBackupState (backup_json b) = b"
  by (cases b) (auto simp: normalizeBackupState_def backup_json_def is_object_def json_prop_def Let_def backup_ok_def split: if_splits)

lemma normalized_ok: "backup_ok (normalizeBackupState j)"
  by (auto simp: normalizeBackupState_def backup_ok_def DEFAULT_BACKUP_STATE_def Let_def split: option.splits json.splits)

lemma nudge_never_after_backup: "\<not> shouldShowBackupNudge (withBackedUp ts b) \<and> \<not> shouldShowBackupReminder (withBackedUp ts b)"
  by (simp add: shouldShowBackupNudge_def shouldShowBackupReminder_def withBackedUp_def)

text \<open>A nudge shown does not stop the reminder: only a backup does.\<close>

lemma reminder_stays: "shouldShowBackupReminder (withNudgeSeen b) = shouldShowBackupReminder b"
  by (simp add: shouldShowBackupReminder_def withNudgeSeen_def)

text \<open>
  An update in its two phases: what runs before its last await (the store and the previous state), and
  the write. Between the two, other updates may run.
\<close>

definition update_begin :: "'s blob_ops \<Rightarrow> 'c secure_items \<Rightarrow> vault \<Rightarrow> bytes \<Rightarrow> ('s, 'c) device
    \<Rightarrow> (storage_error + bytes \<times> backup_state) \<times> ('s, 'c) device" where
  "update_begin B KC V fresh d =
     state_then (getEncryptedStore KC fresh d) (\<lambda>dek d1.
       case loadBackupState B KC V fresh d1 of (prev, d2) \<Rightarrow> (Inr (dek, prev), d2))"

definition update_finish :: "'s blob_ops \<Rightarrow> vault \<Rightarrow> bytes \<Rightarrow> (backup_state \<Rightarrow> backup_state) \<Rightarrow> bytes \<times> backup_state \<Rightarrow> ('s, 'c) device
    \<Rightarrow> (storage_error + backup_state) \<times> ('s, 'c) device" where
  "update_finish B V nonce mutate p d =
     (case p of (dek, prev) \<Rightarrow>
        case setJson B V dek nonce BACKUP_STATE_BLOB_KEY (backup_json (mutate prev)) (blobs d) of
          (Inl e, s) \<Rightarrow> (Inl e, d\<lparr>blobs := s\<rparr>)
        | (Inr u, s) \<Rightarrow> (Inr (mutate prev), d\<lparr>blobs := s\<rparr>))"

lemma update_phases:
  "updateBackupState B KC V fresh nonce mutate d =
     state_then (update_begin B KC V fresh d) (update_finish B V nonce mutate)"
proof (cases "getEncryptedStore KC fresh d")
  case (Pair r d1)
  show ?thesis
  proof (cases r)
    case (Inr dek)
    obtain prev d2 where "loadBackupState B KC V fresh d1 = (prev, d2)" by (cases "loadBackupState B KC V fresh d1")
    then show ?thesis using Pair Inr
      by (simp add: updateBackupState_def update_begin_def update_finish_def state_then_def Let_def)
  qed (simp add: Pair updateBackupState_def update_begin_def state_then_def)
qed

lemma begin_keeps_store:
  assumes "update_begin B KC V fresh d = (Inr (dek, prev), d1)"
  shows "blobs d1 = blobs d \<and> store_promise d1 = Some (Inr dek) \<and> prev = fst (loadBackupState B KC V fresh d1)"
proof -
  obtain d0 where g: "getEncryptedStore KC fresh d = (Inr dek, d0)"
    using assms by (cases "getEncryptedStore KC fresh d") (auto simp: update_begin_def state_then_def split: sum.splits prod.splits)
  then have p: "store_promise d0 = Some (Inr dek)" "blobs d0 = blobs d"
    by (auto simp: getEncryptedStore_def split: option.splits prod.splits)
  then have again: "getEncryptedStore KC fresh d0 = (Inr dek, d0)" by (simp add: getEncryptedStore_def)
  then have "loadBackupState B KC V fresh d0 = (fst (loadBackupState B KC V fresh d0), d0)"
    by (auto simp: loadBackupState_def load_value_def state_then_def split: sum.split option.split)
  then have "d1 = d0 \<and> prev = fst (loadBackupState B KC V fresh d0)"
    using assms g by (simp add: update_begin_def state_then_def split: prod.splits)
  then show ?thesis using p by simp
qed

text \<open>
  Two updates of the backup state that overlap lose one of them: when the nudge is marked as seen
  while a finished export is being recorded, both report success and the device says it has no backup.
\<close>

theorem backup_flag_lost:
  assumes "file_inv FS files dirs base (blobs d)" "vault_correct V" "length n1 = NONCE_LEN" "length n2 = NONCE_LEN"
    and seen: "update_begin (file_blobs FS) KC V fresh d = (Inr (k, prev), d1)" "\<not> backedUp prev"
    and exported: "update_begin (file_blobs FS) KC V fresh d1 = (Inr (k', prev'), d2)"
      "update_finish (file_blobs FS) V n1 (withBackedUp ts) (k', prev') d2 = (Inr done_state, d3)"
    and late: "update_finish (file_blobs FS) V n2 withNudgeSeen (k, prev) d3 = (Inr seen_state, d4)"
      "bl_get (file_blobs FS) BACKUP_STATE_BLOB_KEY (blobs d4) = Inr x"
  shows "backedUp done_state \<and> \<not> backedUp (fst (loadBackupState (file_blobs FS) KC V fresh d4))"
proof -
  note b1 = begin_keeps_store [OF seen(1)] and b2 = begin_keeps_store [OF exported(1)]
  have k: "k' = k" using b1 b2 exported(1) by (auto simp: update_begin_def getEncryptedStore_def state_then_def split: prod.splits)
  have d3: "setJson (file_blobs FS) V k n1 BACKUP_STATE_BLOB_KEY (backup_json (withBackedUp ts prev')) (blobs d2) = (Inr (), blobs d3)"
    "done_state = withBackedUp ts prev'" "store_promise d3 = Some (Inr k)"
    using exported(2) b2 k by (auto simp: update_finish_def split: prod.splits sum.splits)
  have i3: "file_inv FS files dirs base (blobs d3)"
    using files.set_keeps_inv [OF _ d3(1)] assms(1) b1 b2 by simp
  have d4: "setJson (file_blobs FS) V k n2 BACKUP_STATE_BLOB_KEY (backup_json (withNudgeSeen prev)) (blobs d3) = (Inr (), blobs d4)"
    "store_promise d4 = Some (Inr k)"
    using late(1) d3(3) by (auto simp: update_finish_def split: prod.splits sum.splits)
  have "backup_ok prev" using b1 normalized_ok
    by (auto simp: loadBackupState_def backup_ok_def DEFAULT_BACKUP_STATE_def split: prod.splits sum.splits option.splits)
  then have "normalizeBackupState (backup_json (withNudgeSeen prev)) = withNudgeSeen prev"
    by (intro normalize_json) (simp add: backup_ok_def withNudgeSeen_def)
  moreover have "getJson (file_blobs FS) V k BACKUP_STATE_BLOB_KEY (blobs d4) = Inr (Some (backup_json (withNudgeSeen prev)))"
    by (rule files.set_then_get [OF i3 assms(2,4) d4(1) late(2)])
      (use \<open>backup_ok prev\<close> in \<open>auto simp: backup_json_def backup_ok_def withNudgeSeen_def\<close>)
  ultimately have "fst (loadBackupState (file_blobs FS) KC V fresh d4) = withNudgeSeen prev"
    using d4(2) by (simp add: loadBackupState_def load_value_def getEncryptedStore_def state_then_def)
  then show ?thesis using seen(2) d3(2) by (simp add: withNudgeSeen_def withBackedUp_def)
qed

lemma toy_begin:
  "update_begin (file_blobs toy_fs) toy_keychain toy_vault (replicate 32 1) toy_device =
     (Inr (replicate 32 1, DEFAULT_BACKUP_STATE),
      \<lparr>blobs = [], chain = [(DATA_KEY_STORE_KEY, bytesToBase64 (replicate 32 1))], store_promise = Some (Inr (replicate 32 1))\<rparr>)"
  "update_begin (file_blobs toy_fs) toy_keychain toy_vault (replicate 32 1)
      \<lparr>blobs = [], chain = [(DATA_KEY_STORE_KEY, bytesToBase64 (replicate 32 1))], store_promise = Some (Inr (replicate 32 1))\<rparr> =
     (Inr (replicate 32 1, DEFAULT_BACKUP_STATE),
      \<lparr>blobs = [], chain = [(DATA_KEY_STORE_KEY, bytesToBase64 (replicate 32 1))], store_promise = Some (Inr (replicate 32 1))\<rparr>)"
proof -
  have "bl_get (file_blobs toy_fs) BACKUP_STATE_BLOB_KEY [] = Inr None"
    by (simp add: file_blobs_def blob_get_def fileUri_def dirUri_def toy_fs_def EXT_def SUBDIR_def)
  then have "loadBackupState (file_blobs toy_fs) toy_keychain toy_vault (replicate 32 1)
      \<lparr>blobs = [], chain = [(DATA_KEY_STORE_KEY, bytesToBase64 (replicate 32 1))], store_promise = Some (Inr (replicate 32 1))\<rparr> =
     (DEFAULT_BACKUP_STATE,
      \<lparr>blobs = [], chain = [(DATA_KEY_STORE_KEY, bytesToBase64 (replicate 32 1))], store_promise = Some (Inr (replicate 32 1))\<rparr>)"
    by (simp add: loadBackupState_def load_value_def getEncryptedStore_def state_then_def getJson_def)
  then show "update_begin (file_blobs toy_fs) toy_keychain toy_vault (replicate 32 1) toy_device =
     (Inr (replicate 32 1, DEFAULT_BACKUP_STATE),
      \<lparr>blobs = [], chain = [(DATA_KEY_STORE_KEY, bytesToBase64 (replicate 32 1))], store_promise = Some (Inr (replicate 32 1))\<rparr>)"
    "update_begin (file_blobs toy_fs) toy_keychain toy_vault (replicate 32 1)
      \<lparr>blobs = [], chain = [(DATA_KEY_STORE_KEY, bytesToBase64 (replicate 32 1))], store_promise = Some (Inr (replicate 32 1))\<rparr> =
     (Inr (replicate 32 1, DEFAULT_BACKUP_STATE),
      \<lparr>blobs = [], chain = [(DATA_KEY_STORE_KEY, bytesToBase64 (replicate 32 1))], store_promise = Some (Inr (replicate 32 1))\<rparr>)"
    by (simp_all add: update_begin_def toy_store state_then_def) (simp add: getEncryptedStore_def)
qed

lemma toy_finish:
  "\<exists>s. update_finish (file_blobs toy_fs) toy_vault n mutate (replicate 32 1, prev) d = (Inr (mutate prev), d\<lparr>blobs := s\<rparr>)"
proof -
  obtain s where "setJson (file_blobs toy_fs) toy_vault (replicate 32 1) n BACKUP_STATE_BLOB_KEY (backup_json (mutate prev)) (blobs d) = (Inr (), s)"
    using toy_set by (fastforce simp: setJson_def Let_def toy_key)
  then show ?thesis by (intro exI [of _ s]) (simp add: update_finish_def)
qed

theorem backup_flag_lost_witness:
  "\<exists>d4. \<not> backedUp (fst (loadBackupState (file_blobs toy_fs) toy_keychain toy_vault (replicate 32 1) d4))
    \<and> backedUp (withBackedUp (num 9) DEFAULT_BACKUP_STATE)"
proof -
  define d2 where "d2 = \<lparr>blobs = [] :: (string \<times> string) list, chain = [(DATA_KEY_STORE_KEY, bytesToBase64 (replicate 32 1))],
      store_promise = Some (Inr (replicate 32 1) :: storage_error + bytes)\<rparr>"
  obtain s3 where f3: "update_finish (file_blobs toy_fs) toy_vault (replicate 12 2) (withBackedUp (num 9)) (replicate 32 1, DEFAULT_BACKUP_STATE) d2
    = (Inr (withBackedUp (num 9) DEFAULT_BACKUP_STATE), d2\<lparr>blobs := s3\<rparr>)" using toy_finish by blast
  obtain s4 where f4: "update_finish (file_blobs toy_fs) toy_vault (replicate 12 3) withNudgeSeen (replicate 32 1, DEFAULT_BACKUP_STATE) (d2\<lparr>blobs := s3\<rparr>)
    = (Inr (withNudgeSeen DEFAULT_BACKUP_STATE), d2\<lparr>blobs := s3\<rparr>\<lparr>blobs := s4\<rparr>)" using toy_finish by blast
  obtain x where x: "bl_get (file_blobs toy_fs) BACKUP_STATE_BLOB_KEY (blobs (d2\<lparr>blobs := s3\<rparr>\<lparr>blobs := s4\<rparr>)) = Inr x" using toy_get by blast
  have "backedUp (withBackedUp (num 9) DEFAULT_BACKUP_STATE)
    \<and> \<not> backedUp (fst (loadBackupState (file_blobs toy_fs) toy_keychain toy_vault (replicate 32 1) (d2\<lparr>blobs := s3\<rparr>\<lparr>blobs := s4\<rparr>)))"
    by (rule backup_flag_lost [OF toy_file_inv toy_vault_correct _ _ toy_begin(1) _ toy_begin(2) f3 [unfolded d2_def] f4 [unfolded d2_def] x [unfolded d2_def], folded d2_def])
      (simp_all add: NONCE_LEN_def DEFAULT_BACKUP_STATE_def)
  then show ?thesis by blast
qed

end
