(* ===== verification/Device_Timers.thy ===== *)
theory Device_Timers
  imports Sent_Links
begin

text \<open>
  What runs by the clock on the device: the idle lock (apps/mobile/src/identity/idle-lock-timer.ts,
  auto-lock.ts), the clipboard clearing and the privacy shield (shield), quiet hours and the reminder
  before a link expires (notifications). Clock readings and the firing of a timeout are events.
\<close>

section \<open>The idle lock\<close>

text \<open>\<open>il_handle\<close>: when the timeout in flight is due.\<close>

record idle =
  il_handle :: "int option"
  il_deadline :: int

definition idle_start :: idle where "idle_start = \<lparr>il_handle = None, il_deadline = 0\<rparr>"

definition idle_tick :: "int \<Rightarrow> idle \<Rightarrow> idle \<times> bool" where
  "idle_tick now s =
     (let s1 = s\<lparr>il_handle := None\<rparr>; remaining = il_deadline s1 - now in
      if remaining \<le> 0 then (s1, True) else (s1\<lparr>il_handle := Some (now + remaining)\<rparr>, False))"

definition idle_reset :: "int \<Rightarrow> int \<Rightarrow> idle \<Rightarrow> idle" where
  "idle_reset timeoutMs now s =
     (let s1 = s\<lparr>il_deadline := now + timeoutMs\<rparr> in
      if il_handle s1 = None then s1\<lparr>il_handle := Some (now + timeoutMs)\<rparr> else s1)"

definition idle_stop :: "idle \<Rightarrow> idle" where
  "idle_stop s = (if il_handle s \<noteq> None then s\<lparr>il_handle := None\<rparr> else s)"

text \<open>A timeout fires when it is in flight and due; the clock does not run backwards.\<close>

datatype idle_event = Touched | Stopped | Fired

definition idle_step :: "int \<Rightarrow> int \<Rightarrow> idle_event \<Rightarrow> idle \<Rightarrow> idle \<times> bool" where
  "idle_step timeoutMs now e s =
     (case e of Touched \<Rightarrow> (idle_reset timeoutMs now s, False) | Stopped \<Rightarrow> (idle_stop s, False) | Fired \<Rightarrow> idle_tick now s)"

definition may_happen :: "int \<Rightarrow> idle_event \<Rightarrow> idle \<Rightarrow> bool" where
  "may_happen now e s = (e = Fired \<longrightarrow> (\<exists>h. il_handle s = Some h \<and> h \<le> now))"

inductive idle_run :: "int \<Rightarrow> (int \<times> idle_event) list \<Rightarrow> idle \<Rightarrow> bool" for timeoutMs where
  idle_run_start: "idle_run timeoutMs [] idle_start"
| idle_run_step: "idle_run timeoutMs es s \<Longrightarrow> may_happen now e s \<Longrightarrow> (\<forall>(t, x) \<in> set es. t \<le> now)
    \<Longrightarrow> idle_run timeoutMs (es @ [(now, e)]) (fst (idle_step timeoutMs now e s))"

inductive_cases idle_run_snocE: "idle_run timeoutMs (es @ [(now, e)]) s"

definition touches :: "(int \<times> idle_event) list \<Rightarrow> int list" where
  "touches es = map fst (filter (\<lambda>p. snd p = Touched) es)"

lemma touches_snoc [simp]: "touches (es @ [(now, e)]) = touches es @ (if e = Touched then [now] else [])"
  by (simp add: touches_def)

lemma touches_past: "(\<forall>(t, x) \<in> set es. t \<le> now) \<Longrightarrow> (\<forall>t \<in> set (touches es). t \<le> now)"
  by (auto simp: touches_def)

text \<open>
  While a timeout is in flight it is due no later than the deadline, which is the last interaction plus
  the window.
\<close>

lemma idle_invariant:
  assumes "idle_run T es s"
  shows "(il_handle s \<noteq> None \<longrightarrow> touches es \<noteq> [] \<and> the (il_handle s) \<le> il_deadline s)
    \<and> (touches es \<noteq> [] \<longrightarrow> il_deadline s = last (touches es) + T)
    \<and> (\<forall>t \<in> set (touches es). t \<le> last (touches es))"
  using assms
proof (induction rule: idle_run.induct)
  case idle_run_start
  then show ?case by (simp add: idle_start_def touches_def)
next
  case (idle_run_step es s now e)
  have past: "\<forall>t \<in> set (touches es). t \<le> now" using idle_run_step.hyps(3) by (rule touches_past)
  show ?case
  proof (cases e)
    case Touched
    then show ?thesis using idle_run_step.IH past
      by (auto simp: idle_step_def idle_reset_def Let_def) (metis in_set_butlast_appendI last_in_set order.trans add_right_mono)+
  next
    case Stopped
    then show ?thesis using idle_run_step.IH by (auto simp: idle_step_def idle_stop_def)
  next
    case Fired
    then show ?thesis using idle_run_step.IH idle_run_step.hyps(2)
      by (auto simp: idle_step_def idle_tick_def Let_def may_happen_def)
  qed
qed

text \<open>
  C35: the idle lock locks exactly when nothing was touched for the whole window: a timeout that fires
  locks if and only if every interaction is at least the window ago, and otherwise it is set again for
  the instant that the window after the last interaction ends, where it does lock if nothing is touched
  until then: an abandoned device always ends up locked.
\<close>

theorem idle_lock_exact:
  assumes "idle_run T es s" "may_happen now Fired s"
  shows "(snd (idle_step T now Fired s) \<longleftrightarrow> (\<forall>t \<in> set (touches es). t + T \<le> now))
    \<and> the (il_handle s) \<le> last (touches es) + T
    \<and> il_handle (fst (idle_step T now Fired s)) = (if snd (idle_step T now Fired s) then None else Some (last (touches es) + T))
    \<and> (snd (idle_step T now Fired s)
       \<or> snd (idle_step T (last (touches es) + T) Fired (fst (idle_step T now Fired s))))"
proof -
  have inv: "touches es \<noteq> []" "the (il_handle s) \<le> il_deadline s" "il_deadline s = last (touches es) + T"
    "\<forall>t \<in> set (touches es). t \<le> last (touches es)"
    using idle_invariant [OF assms(1)] assms(2) by (auto simp: may_happen_def)
  have "last (touches es) \<in> set (touches es)" using inv(1) by simp
  then have "(\<forall>t \<in> set (touches es). t + T \<le> now) \<longleftrightarrow> last (touches es) + T \<le> now" using inv(4) by fastforce
  then show ?thesis using inv by (auto simp: idle_step_def idle_tick_def Let_def)
qed

theorem idle_lock_exact_witness:
  "snd (idle_step 60 60 Fired \<lparr>il_handle = Some 60, il_deadline = 60\<rparr>)"
proof -
  have "idle_run 60 ([] @ [(0, Touched)]) (fst (idle_step 60 0 Touched idle_start))"
    by (rule idle_run_step [OF idle_run_start]) (simp_all add: may_happen_def)
  then have run: "idle_run 60 [(0, Touched)] \<lparr>il_handle = Some 60, il_deadline = 60\<rparr>"
    by (simp add: idle_step_def idle_reset_def idle_start_def Let_def)
  show ?thesis using idle_lock_exact [OF run, of 60] by (simp add: may_happen_def touches_def)
qed

datatype app_state = AppActive | AppInactive | AppBackground

definition shouldLockOnAppState :: "app_state \<Rightarrow> bool" where
  "shouldLockOnAppState a = (a = AppBackground)"

section \<open>The privacy shield and the clipboard\<close>

definition isObscured :: "app_state \<Rightarrow> bool" where
  "isObscured a = (a \<noteq> AppActive)"

datatype shield_surface = AppRoot | ComposeSurface | ReaderSurface

definition shieldConfig :: "shield_surface \<Rightarrow> bool \<Rightarrow> bool \<Rightarrow> bool \<times> bool" where
  "shieldConfig surface blurPreview blockScreens =
     (blurPreview, if surface = AppRoot then False else blockScreens)"

text \<open>What the controller did to the screen capture module, and whether it listens to the app state.\<close>

datatype shield_call = Prevent | Allow | Obscured bool

record shield =
  sh_blockScreens :: bool
  sh_obscureEnabled :: bool
  sh_listening :: bool
  sh_calls :: "shield_call list"

definition shield_start :: "shield \<Rightarrow> shield" where
  "shield_start s =
     (let s1 = (if sh_blockScreens s then s\<lparr>sh_calls := sh_calls s @ [Prevent]\<rparr> else s) in s1\<lparr>sh_listening := True\<rparr>)"

definition shield_change :: "app_state \<Rightarrow> shield \<Rightarrow> shield" where
  "shield_change a s =
     (if sh_listening s
      then s\<lparr>sh_calls := sh_calls s @ [Obscured (if sh_obscureEnabled s then isObscured a else False)]\<rparr> else s)"

definition shield_stop :: "shield \<Rightarrow> shield" where
  "shield_stop s =
     (let s1 = (if sh_blockScreens s then s\<lparr>sh_calls := sh_calls s @ [Allow]\<rparr> else s) in s1\<lparr>sh_listening := False\<rparr>)"

lemma shield_covers:
  "sh_listening s \<Longrightarrow> sh_obscureEnabled s \<Longrightarrow> last (sh_calls (shield_change a s)) = Obscured (a \<noteq> AppActive)"
  by (simp add: shield_change_def isObscured_def)

lemma shield_pairs:
  "sh_calls (shield_stop (foldl (\<lambda>s a. shield_change a s) (shield_start s) as)) =
     (if sh_blockScreens s
      then sh_calls s @ [Prevent] @ map (\<lambda>a. Obscured (sh_obscureEnabled s \<and> isObscured a)) as @ [Allow]
      else sh_calls s @ map (\<lambda>a. Obscured (sh_obscureEnabled s \<and> isObscured a)) as)"
proof -
  have "sh_listening t \<Longrightarrow>
    foldl (\<lambda>s a. shield_change a s) t as = t\<lparr>sh_calls := sh_calls t @ map (\<lambda>a. Obscured (sh_obscureEnabled t \<and> isObscured a)) as\<rparr>" for t
    by (induction as arbitrary: t) (simp_all add: shield_change_def)
  from this [of "shield_start s"] show ?thesis by (simp add: shield_start_def shield_stop_def Let_def)
qed

definition CLIPBOARD_CLEAR_MS :: int where "CLIPBOARD_CLEAR_MS = 60000"

text \<open>The clipboard timer: the function in flight and when it is due.\<close>

type_synonym 'f clip = "(int \<times> 'f) option"

definition clip_cancel :: "'f clip \<Rightarrow> 'f clip" where
  "clip_cancel c = None"

definition clip_schedule :: "int option \<Rightarrow> int \<Rightarrow> 'f \<Rightarrow> 'f clip \<Rightarrow> 'f clip" where
  "clip_schedule clearMs now f c =
     (let delayMs = (case clearMs of None \<Rightarrow> CLIPBOARD_CLEAR_MS | Some ms \<Rightarrow> ms); c1 = clip_cancel c in Some (now + delayMs, f))"

definition clip_fire :: "'f clip \<Rightarrow> 'f clip \<times> 'f option" where
  "clip_fire c = (case c of None \<Rightarrow> (None, None) | Some (t, f) \<Rightarrow> (None, Some f))"

lemma clip_latest: "clip_fire (clip_schedule ms now g (clip_schedule ms now' f c)) = (None, Some g)"
  by (simp add: clip_fire_def clip_schedule_def Let_def)

section \<open>Quiet hours\<close>

record quiet_hours =
  qh_enabled :: bool
  qh_from :: string
  qh_to :: string

definition is_digit :: "char \<Rightarrow> bool" where
  "is_digit c = (48 \<le> (of_char c :: nat) \<and> (of_char c :: nat) \<le> 57)"

fun match_time :: "string \<Rightarrow> (int \<times> int) option" where
  "match_time [a, c, m, n] =
     (if is_digit a \<and> c = CHR '':'' \<and> is_digit m \<and> is_digit n
      then Some (int (digit_val a), int (10 * digit_val m + digit_val n)) else None)"
| "match_time [a, b, c, m, n] =
     (if is_digit a \<and> is_digit b \<and> c = CHR '':'' \<and> is_digit m \<and> is_digit n
      then Some (int (10 * digit_val a + digit_val b), int (10 * digit_val m + digit_val n)) else None)"
| "match_time _ = None"

definition parseTimeToMinutes :: "string \<Rightarrow> int option" where
  "parseTimeToMinutes hhmm =
     (case match_time (js_trim hhmm) of
        None \<Rightarrow> None
      | Some (h, m) \<Rightarrow> if h < 0 \<or> h > 23 \<or> m < 0 \<or> m > 59 then None else Some (h * 60 + m))"

definition MINUTES_PER_DAY :: int where "MINUTES_PER_DAY = 24 * 60"

definition isWithinQuietHours :: "int \<Rightarrow> quiet_hours \<Rightarrow> bool" where
  "isWithinQuietHours minuteOfDay q =
     (if \<not> qh_enabled q then False
      else case (parseTimeToMinutes (qh_from q), parseTimeToMinutes (qh_to q)) of
        (Some f, Some t) \<Rightarrow>
          let m = minuteOfDay mod MINUTES_PER_DAY in
          if f = t then True
          else if f < t then m \<ge> f \<and> m < t
          else m \<ge> f \<or> m < t
      | _ \<Rightarrow> False)"

text \<open>The device's local time is an argument.\<close>

definition shouldSuppressForQuietHours :: "(int \<Rightarrow> int) \<Rightarrow> int \<Rightarrow> quiet_hours \<Rightarrow> bool" where
  "shouldSuppressForQuietHours localMinuteOfDay fireAtMs q = isWithinQuietHours (localMinuteOfDay fireAtMs) q"

lemma parse_bounds: "parseTimeToMinutes s = Some m \<Longrightarrow> 0 \<le> m \<and> m < MINUTES_PER_DAY"
  by (auto simp: parseTimeToMinutes_def MINUTES_PER_DAY_def split: option.splits prod.splits if_splits)

text \<open>
  The quiet window is the circular interval from its opening minute up to its closing minute: a minute
  is quiet exactly if it is fewer minutes after the opening than the window is long, a whole day when the
  two coincide; a window that is off or malformed silences nothing.
\<close>

theorem quiet_window:
  assumes "qh_enabled q" "parseTimeToMinutes (qh_from q) = Some f" "parseTimeToMinutes (qh_to q) = Some t"
  shows "isWithinQuietHours m q \<longleftrightarrow> f = t \<or> (m - f) mod MINUTES_PER_DAY < (t - f) mod MINUTES_PER_DAY"
proof -
  define k where "k = m mod MINUTES_PER_DAY"
  have k: "0 \<le> k" "k < MINUTES_PER_DAY" by (simp_all add: k_def MINUTES_PER_DAY_def)
  note ft = parse_bounds [OF assms(2)] parse_bounds [OF assms(3)]
  have wrap: "x mod MINUTES_PER_DAY = (if x < 0 then x + MINUTES_PER_DAY else x)"
    if "- MINUTES_PER_DAY < x" "x < MINUTES_PER_DAY" for x
    using that mod_pos_pos_trivial [of "x + MINUTES_PER_DAY" MINUTES_PER_DAY] mod_pos_pos_trivial [of x MINUTES_PER_DAY] by auto
  have "(m - f) mod MINUTES_PER_DAY = (k - f) mod MINUTES_PER_DAY" by (simp add: k_def mod_diff_left_eq)
  also have "\<dots> = (if k < f then k - f + MINUTES_PER_DAY else k - f)" using wrap [of "k - f"] k ft by simp
  finally have mf: "(m - f) mod MINUTES_PER_DAY = (if k < f then k - f + MINUTES_PER_DAY else k - f)" .
  have tf: "(t - f) mod MINUTES_PER_DAY = (if t < f then t - f + MINUTES_PER_DAY else t - f)" using wrap [of "t - f"] ft by simp
  show ?thesis using assms k ft unfolding mf tf by (auto simp: isWithinQuietHours_def Let_def k_def [symmetric])
qed

theorem quiet_window_witness:
  "isWithinQuietHours 60 \<lparr>qh_enabled = True, qh_from = ''22:00'', qh_to = ''07:00''\<rparr>"
proof -
  have "parseTimeToMinutes ''22:00'' = Some 1320" "parseTimeToMinutes ''07:00'' = Some 420"
    by (simp_all add: parseTimeToMinutes_def js_trim_def js_space_def is_digit_def digit_val_def)
  then show ?thesis
    using quiet_window [of "\<lparr>qh_enabled = True, qh_from = ''22:00'', qh_to = ''07:00''\<rparr>" 1320 420 60]
    by (simp add: MINUTES_PER_DAY_def)
qed

section \<open>The reminder before a link expires\<close>

definition LEAD_MS :: int where "LEAD_MS = 60 * 60 * 1000"

definition planExpiryReminder :: "int \<Rightarrow> int \<Rightarrow> int option" where
  "planExpiryReminder expiresAtMs nowMs =
     (let fireAtMs = expiresAtMs - LEAD_MS in if fireAtMs \<le> nowMs then None else Some fireAtMs)"

datatype permission = Granted | Denied | Undetermined

definition shouldPrimeNotifications :: "permission \<Rightarrow> bool \<Rightarrow> bool" where
  "shouldPrimeNotifications p alreadyPrimed = (p = Undetermined \<and> \<not> alreadyPrimed)"

text \<open>
  What the scheduler asks of its surroundings: the two preferences (None: loading them failed), the
  permission, the notification id (None: scheduling was rejected) and whether the link store can be
  written. The result is the answer, the instants something was scheduled for, and the link store.
\<close>

record reminder_env =
  re_prefs :: "(bool \<times> quiet_hours) option"
  re_permission :: "permission option"
  re_minute_of_day :: "int \<Rightarrow> int"
  re_schedule :: "int \<Rightarrow> string option"
  re_store_writes :: bool

definition scheduleExpiryReminderOnCreate :: "reminder_env \<Rightarrow> int \<Rightarrow> string \<Rightarrow> int \<Rightarrow> sent_store \<Rightarrow> string option \<times> int list \<times> sent_store" where
  "scheduleExpiryReminderOnCreate R now i expiresAt st =
     (case re_prefs R of
        None \<Rightarrow> (None, [], st)
      | Some (expiringSoon, quiet) \<Rightarrow>
          if \<not> expiringSoon then (None, [], st)
          else if re_permission R \<noteq> Some Granted then (None, [], st)
          else case planExpiryReminder expiresAt now of
            None \<Rightarrow> (None, [], st)
          | Some fireAtMs \<Rightarrow>
              if shouldSuppressForQuietHours (re_minute_of_day R) fireAtMs quiet then (None, [], st)
              else case re_schedule R fireAtMs of
                None \<Rightarrow> (None, [], st)
              | Some n \<Rightarrow>
                  if re_store_writes R then (Some n, [fireAtMs], setSentLinkReminder i n st) else (None, [fireAtMs], st))"

text \<open>\<open>record?.reminderNotificationId ?? null\<close>\<close>

definition reminderCancelTarget :: "sent_link option \<Rightarrow> string option" where
  "reminderCancelTarget r = (case r of None \<Rightarrow> None | Some l \<Rightarrow> sl_reminder l)"

lemma getSentLink_setReminder:
  "getSentLink j (setSentLinkReminder i n st) =
     (if j = i then map_option (\<lambda>r. r\<lparr>sl_reminder := Some n\<rparr>) (getSentLink i st) else getSentLink j st)"
  by (auto simp: setSentLinkReminder_def getSentLink_def split: option.splits)

text \<open>
  At most one reminder is scheduled for a new link, only with the preference on, the permission
  granted, an hour before the expiry and outside the quiet hours; when its id is returned, it is the id
  that revoking the tracked link cancels.
\<close>

theorem reminder_respects_user:
  assumes "scheduleExpiryReminderOnCreate R now i expiresAt st = (r, fired, st')"
  shows "(fired = [] \<or> (\<exists>q. re_prefs R = Some (True, q) \<and> re_permission R = Some Granted \<and> fired = [expiresAt - LEAD_MS]
      \<and> now < expiresAt - LEAD_MS \<and> \<not> isWithinQuietHours (re_minute_of_day R (expiresAt - LEAD_MS)) q))
    \<and> (\<forall>n. r = Some n \<longrightarrow> getSentLink i st \<noteq> None \<longrightarrow> reminderCancelTarget (getSentLink i st') = Some n)
    \<and> (\<forall>j. j \<noteq> i \<longrightarrow> getSentLink j st' = getSentLink j st)"
  using assms
  by (auto simp: scheduleExpiryReminderOnCreate_def planExpiryReminder_def shouldSuppressForQuietHours_def Let_def
      getSentLink_setReminder reminderCancelTarget_def split: option.splits if_splits)

theorem reminder_respects_user_witness:
  "\<exists>st'. scheduleExpiryReminderOnCreate
      \<lparr>re_prefs = Some (True, \<lparr>qh_enabled = False, qh_from = [], qh_to = []\<rparr>), re_permission = Some Granted,
       re_minute_of_day = (\<lambda>t. 0), re_schedule = (\<lambda>t. Some ''n1''), re_store_writes = True\<rparr> 0 ''a'' 7200000
      (recordSentLink \<lparr>sl_id = ''a'', sl_fingerprint = [], sl_createdAt = [], sl_expiresAt = [], sl_maxOpens = num 1, sl_label = None,
         sl_revocationToken = None, sl_reminder = None\<rparr> None) = (Some ''n1'', [3600000], st')
    \<and> reminderCancelTarget (getSentLink ''a'' st') = Some ''n1''"
proof -
  let ?R = "\<lparr>re_prefs = Some (True, \<lparr>qh_enabled = False, qh_from = [], qh_to = []\<rparr>), re_permission = Some Granted,
       re_minute_of_day = (\<lambda>t. 0), re_schedule = (\<lambda>t. Some ''n1''), re_store_writes = True\<rparr>"
  let ?st = "recordSentLink \<lparr>sl_id = ''a'', sl_fingerprint = [], sl_createdAt = [], sl_expiresAt = [], sl_maxOpens = num 1, sl_label = None,
         sl_revocationToken = None, sl_reminder = None\<rparr> None"
  have run: "scheduleExpiryReminderOnCreate ?R 0 ''a'' 7200000 ?st = (Some ''n1'', [3600000], setSentLinkReminder ''a'' ''n1'' ?st)"
    by (simp add: scheduleExpiryReminderOnCreate_def planExpiryReminder_def shouldSuppressForQuietHours_def isWithinQuietHours_def LEAD_MS_def)
  show ?thesis using reminder_respects_user [OF run] run by (simp add: exI)
qed

end
