(* ===== verification/Web_Identity.thy ===== *)
theory Web_Identity
  imports Retired_Keys
begin

text \<open>
  The identity of the web client (apps/webapp/src/identity): identity-context.tsx with the rows that
  identity-store.ts and retired-keys-store.ts keep in IndexedDB. Every await of an action is a point where
  other actions may run, as in the mobile machine; the awaited call takes effect when it resolves. The
  retired keys and the transforms on them (identity-bundle.ts) are those of \<open>Retired_Keys\<close>.
\<close>

section \<open>State\<close>

datatype web_state = WLoading | WNoIdentity | WLocked | WUnlocked

record stored_identity =
  ws_publicKeyString :: string
  ws_wrapped :: string
  ws_createdAt :: string

text \<open>
  The component's state and refs (in memory) and the "primary" rows of the two object stores (on disk);
  the row of the retired keys is what structured cloning keeps of the record.
\<close>

record 'k web_machine =
  w_state :: web_state
  w_wrongPassphrase :: bool
  w_identity :: "'k option"
  w_publicKey :: "string option"
  w_retired :: "'k list"
  w_epoch :: nat
  w_row :: "stored_identity option"
  w_blob :: "json option"

record 'k web_crypto =
  wc_wrap :: "'k \<Rightarrow> string \<Rightarrow> bytes \<Rightarrow> string option"
  wc_unwrap :: "string \<Rightarrow> string \<Rightarrow> crypto_error + 'k"
  wc_export :: "'k \<Rightarrow> string"
  wc_fingerprint :: "string \<Rightarrow> string option"

definition sanitizeRetiredEntries :: "json option \<Rightarrow> retired_entry list" where
  "sanitizeRetiredEntries v =
     (case v of Some (JArr es) \<Rightarrow> dedupeRetired (List.map_filter isRetiredKeyEntry es) | _ \<Rightarrow> [])"

definition retired_record :: "retired_entry list \<Rightarrow> json" where
  "retired_record es = JObj [(''id'', JStr ''primary''), (''entries'', JArr (map entry_json es)), (''schemaVersion'', jint 1)]"

text \<open>A rejected read counts as no record.\<close>

definition loadRetiredEntries :: "bool \<Rightarrow> json option \<Rightarrow> retired_entry list" where
  "loadRetiredEntries rejected blob =
     (if rejected then [] else sanitizeRetiredEntries (case blob of None \<Rightarrow> None | Some rec \<Rightarrow> json_prop ''entries'' rec))"

definition setIdentity :: "'k web_crypto \<Rightarrow> 'k option \<Rightarrow> 'k web_machine \<Rightarrow> 'k web_machine" where
  "setIdentity wc k m = m\<lparr>w_identity := k, w_publicKey := map_option (wc_export wc) k\<rparr>"

definition applyState :: "web_state \<Rightarrow> 'k web_machine \<Rightarrow> 'k web_machine" where
  "applyState st m = m\<lparr>w_state := st\<rparr>"

text \<open>The last lines of setupNew, importIdentity, unlock and rotate.\<close>

definition now_unlocked :: "'k web_crypto \<Rightarrow> 'k \<Rightarrow> 'k list \<Rightarrow> 'k web_machine \<Rightarrow> 'k web_machine" where
  "now_unlocked wc k retired m =
     applyState WUnlocked (setIdentity wc (Some k) (m\<lparr>w_retired := retired, w_wrongPassphrase := False\<rparr>))"

section \<open>Tasks\<close>

text \<open>One constructor per await, with the local variables that are live after it.\<close>

datatype 'k web_task =
    WInit
  | WSetup1 string
  | WSetup2 'k string
  | WPersist1 'k string
  | WPersist2 'k
  | WUnlock1 string nat
  | WUnlock2 string nat string
  | WBack1 string nat string
  | WBack2 string nat retired_entry "retired_entry list"
  | WRotate1 string nat 'k
  | WRotate2 string nat 'k stored_identity
  | WRotate3 string nat 'k stored_identity
  | WRotate4 string nat 'k retired_entry
  | WRotate5 string nat 'k retired_entry 'k
  | WRotate6 nat 'k retired_entry 'k stored_identity
  | WRotate7 nat 'k 'k stored_identity "retired_entry list"
  | WWipe1
  | WWipe2

datatype 'k web_outcome = WAwait "'k web_task" | WDone | WThrew

record 'k web_resolution =
  wr_rejects :: bool
  wr_key :: 'k
  wr_seed :: bytes
  wr_clock :: js_num
  wr_iso :: string

text \<open>Loading the stored identity, which may reject; the state that is left is the same.\<close>

fun web_init :: "'k web_crypto \<Rightarrow> 'k web_resolution \<Rightarrow> 'k web_task \<Rightarrow> 'k web_machine \<Rightarrow> 'k web_outcome \<times> 'k web_machine" where
  "web_init wc r WInit m =
     (WDone, applyState (if \<not> wr_rejects r \<and> w_row m \<noteq> None then WLocked else WNoIdentity) m)"
| "web_init wc r _ m = (WThrew, m)"

text \<open>setupNew and importIdentity; requestPersistentStorage never rejects.\<close>

fun web_setup :: "'k web_crypto \<Rightarrow> 'k web_resolution \<Rightarrow> 'k web_task \<Rightarrow> 'k web_machine \<Rightarrow> 'k web_outcome \<times> 'k web_machine" where
  "web_setup wc r (WSetup1 pw) m = (if wr_rejects r then (WThrew, m) else (WAwait (WSetup2 (wr_key r) pw), m))"
| "web_setup wc r (WSetup2 k pw) m =
     (case wc_wrap wc k pw (wr_seed r) of None \<Rightarrow> (WThrew, m) | Some w \<Rightarrow> (WAwait (WPersist1 k w), m))"
| "web_setup wc r (WPersist1 k w) m =
     (if wr_rejects r then (WThrew, m)
      else (WAwait (WPersist2 k), m\<lparr>w_row := Some \<lparr>ws_publicKeyString = wc_export wc k, ws_wrapped = w, ws_createdAt = wr_iso r\<rparr>\<rparr>))"
| "web_setup wc r (WPersist2 k) m = (WDone, now_unlocked wc k [] m)"
| "web_setup wc r _ m = (WThrew, m)"

text \<open>The head of the background loop of unlock.\<close>

definition back_loop :: "string \<Rightarrow> nat \<Rightarrow> retired_entry list \<Rightarrow> 'k web_machine \<Rightarrow> 'k web_outcome \<times> 'k web_machine" where
  "back_loop pw epoch es m =
     (case es of
        [] \<Rightarrow> (WDone, m)
      | e # rest \<Rightarrow> if epoch \<noteq> w_epoch m then (WDone, m) else (WAwait (WBack2 pw epoch e rest), m))"

fun web_unlock :: "'k web_crypto \<Rightarrow> 'k web_resolution \<Rightarrow> 'k web_task \<Rightarrow> 'k web_machine \<Rightarrow> 'k web_outcome \<times> 'k web_machine" where
  "web_unlock wc r (WUnlock1 pw epoch) m =
     (if wr_rejects r then (WThrew, m)
      else case w_row m of
        None \<Rightarrow> (WDone, if epoch = w_epoch m then applyState WNoIdentity m else m)
      | Some rec \<Rightarrow> (WAwait (WUnlock2 pw epoch (ws_wrapped rec)), m))"
| "web_unlock wc r (WUnlock2 pw epoch w) m =
     (case wc_unwrap wc w pw of
        Inl e \<Rightarrow>
          if epoch \<noteq> w_epoch m then (WDone, m)
          else if e = BadPassphraseError then (WDone, m\<lparr>w_wrongPassphrase := True\<rparr>)
          else (WThrew, m)
      | Inr k \<Rightarrow>
          if epoch \<noteq> w_epoch m then (WDone, m)
          else (WAwait (WBack1 pw epoch (wc_export wc k)), now_unlocked wc k [] m))"
| "web_unlock wc r (WBack1 pw epoch activePk) m =
     back_loop pw epoch (retiredExcludingActive (loadRetiredEntries (wr_rejects r) (w_blob m)) activePk) m"
| "web_unlock wc r (WBack2 pw epoch e rest) m =
     (case wc_unwrap wc (re_wrapped e) pw of
        Inl err \<Rightarrow> back_loop pw epoch rest m
      | Inr k \<Rightarrow>
          if epoch \<noteq> w_epoch m then (WDone, m)
          else back_loop pw epoch rest (m\<lparr>w_retired := w_retired m @ [k]\<rparr>))"
| "web_unlock wc r _ m = (WThrew, m)"

fun web_rotate :: "'k web_crypto \<Rightarrow> 'k web_resolution \<Rightarrow> 'k web_task \<Rightarrow> 'k web_machine \<Rightarrow> 'k web_outcome \<times> 'k web_machine" where
  "web_rotate wc r (WRotate1 pw epoch old) m =
     (if wr_rejects r then (WThrew, m)
      else case w_row m of
        None \<Rightarrow> (WThrew, m)
      | Some stored \<Rightarrow> if epoch \<noteq> w_epoch m then (WThrew, m) else (WAwait (WRotate2 pw epoch old stored), m))"
| "web_rotate wc r (WRotate2 pw epoch old stored) m =
     (case wc_unwrap wc (ws_wrapped stored) pw of
        Inl e \<Rightarrow> (WThrew, m)
      | Inr k \<Rightarrow> (WAwait (WRotate3 pw epoch old stored), m))"
| "web_rotate wc r (WRotate3 pw epoch old stored) m =
     (case wc_fingerprint wc (ws_publicKeyString stored) of
        None \<Rightarrow> (WThrew, m)
      | Some f \<Rightarrow> (WAwait (WRotate4 pw epoch old
          \<lparr>re_wrapped = ws_wrapped stored, re_publicKeyString = ws_publicKeyString stored, re_fingerprint = f, re_retiredAtMs = wr_clock r\<rparr>), m))"
| "web_rotate wc r (WRotate4 pw epoch old e) m =
     (if wr_rejects r then (WThrew, m) else (WAwait (WRotate5 pw epoch old e (wr_key r)), m))"
| "web_rotate wc r (WRotate5 pw epoch old e k) m =
     (case wc_wrap wc k pw (wr_seed r) of
        None \<Rightarrow> (WThrew, m)
      | Some w \<Rightarrow>
          if epoch \<noteq> w_epoch m then (WThrew, m)
          else (WAwait (WRotate6 epoch old e k \<lparr>ws_publicKeyString = wc_export wc k, ws_wrapped = w, ws_createdAt = wr_iso r\<rparr>), m))"
| "web_rotate wc r (WRotate6 epoch old e k newStored) m =
     (WAwait (WRotate7 epoch old k newStored (prependRetired (loadRetiredEntries (wr_rejects r) (w_blob m)) e)), m)"
| "web_rotate wc r (WRotate7 epoch old k newStored es) m =
     (if wr_rejects r then (WThrew, m)
      else let m1 = m\<lparr>w_row := Some newStored, w_blob := Some (retired_record es)\<rparr> in
           if epoch \<noteq> w_epoch m1 then (WDone, m1)
           else (WDone, now_unlocked wc k (old # w_retired m1) m1))"
| "web_rotate wc r _ m = (WThrew, m)"

fun web_wipe :: "'k web_crypto \<Rightarrow> 'k web_resolution \<Rightarrow> 'k web_task \<Rightarrow> 'k web_machine \<Rightarrow> 'k web_outcome \<times> 'k web_machine" where
  "web_wipe wc r WWipe1 m = (if wr_rejects r then (WThrew, m) else (WAwait WWipe2, m\<lparr>w_row := None\<rparr>))"
| "web_wipe wc r WWipe2 m =
     (if wr_rejects r then (WThrew, m)
      else (WDone, applyState WNoIdentity (setIdentity wc None (m\<lparr>w_blob := None, w_retired := [], w_wrongPassphrase := False\<rparr>))))"
| "web_wipe wc r _ m = (WThrew, m)"

definition web_resume :: "'k web_crypto \<Rightarrow> 'k web_resolution \<Rightarrow> 'k web_task \<Rightarrow> 'k web_machine \<Rightarrow> 'k web_outcome \<times> 'k web_machine" where
  "web_resume wc r t m =
     (case t of
        WInit \<Rightarrow> web_init wc r t m
      | WSetup1 _ \<Rightarrow> web_setup wc r t m | WSetup2 _ _ \<Rightarrow> web_setup wc r t m
      | WPersist1 _ _ \<Rightarrow> web_setup wc r t m | WPersist2 _ \<Rightarrow> web_setup wc r t m
      | WUnlock1 _ _ \<Rightarrow> web_unlock wc r t m | WUnlock2 _ _ _ \<Rightarrow> web_unlock wc r t m
      | WBack1 _ _ _ \<Rightarrow> web_unlock wc r t m | WBack2 _ _ _ _ \<Rightarrow> web_unlock wc r t m
      | WWipe1 \<Rightarrow> web_wipe wc r t m | WWipe2 \<Rightarrow> web_wipe wc r t m
      | _ \<Rightarrow> web_rotate wc r t m)"

section \<open>Starting an action\<close>

datatype 'k web_action =
    WStart
  | WSetupNew string
  | WImport string 'k
  | WUnlock string
  | WRotate string
  | WLock
  | WWipe
  | WClearWrong

definition lock_now :: "'k web_crypto \<Rightarrow> 'k web_machine \<Rightarrow> 'k web_machine" where
  "lock_now wc m =
     applyState WLocked ((setIdentity wc None (m\<lparr>w_epoch := w_epoch m + 1, w_retired := []\<rparr>))\<lparr>w_wrongPassphrase := False\<rparr>)"

definition web_begin :: "'k web_crypto \<Rightarrow> 'k web_action \<Rightarrow> 'k web_machine \<Rightarrow> 'k web_outcome \<times> 'k web_machine" where
  "web_begin wc a m =
     (case a of
        WStart \<Rightarrow> (WAwait WInit, m)
      | WSetupNew pw \<Rightarrow> (WAwait (WSetup1 pw), m)
      | WImport env k \<Rightarrow> if w_state m \<noteq> WNoIdentity then (WThrew, m) else (WAwait (WPersist1 k env), m)
      | WUnlock pw \<Rightarrow> (WAwait (WUnlock1 pw (w_epoch m)), m)
      | WRotate pw \<Rightarrow> (case w_identity m of None \<Rightarrow> (WThrew, m) | Some k \<Rightarrow> (WAwait (WRotate1 pw (w_epoch m) k), m))
      | WLock \<Rightarrow> (WDone, lock_now wc m)
      | WWipe \<Rightarrow> (WAwait WWipe1, m\<lparr>w_epoch := w_epoch m + 1\<rparr>)
      | WClearWrong \<Rightarrow> (WDone, m\<lparr>w_wrongPassphrase := False\<rparr>))"

definition getAllPrivateKeysForDecrypt :: "'k web_machine \<Rightarrow> 'k list" where
  "getAllPrivateKeysForDecrypt m = (case w_identity m of None \<Rightarrow> [] | Some active \<Rightarrow> active # w_retired m)"

definition requireUnlocked :: "'k web_machine \<Rightarrow> 'k option" where
  "requireUnlocked m = w_identity m"

section \<open>The running page\<close>

text \<open>Any started action may be resumed next; closing the page loses the tasks and the memory.\<close>

record 'k page =
  pg_m :: "'k web_machine"
  pg_tasks :: "'k web_task list"

datatype 'k web_event = WBegin "'k web_action" | WResume nat "'k web_resolution" | WReload

definition fresh_page :: "stored_identity option \<Rightarrow> json option \<Rightarrow> 'k page" where
  "fresh_page row blob =
     \<lparr>pg_m = \<lparr>w_state = WLoading, w_wrongPassphrase = False, w_identity = None, w_publicKey = None, w_retired = [], w_epoch = 0,
        w_row = row, w_blob = blob\<rparr>, pg_tasks = []\<rparr>"

fun page_step :: "'k web_crypto \<Rightarrow> 'k web_event \<Rightarrow> 'k page \<Rightarrow> 'k page" where
  "page_step wc (WBegin a) p =
     (case web_begin wc a (pg_m p) of (out, m) \<Rightarrow>
        \<lparr>pg_m = m, pg_tasks = (case out of WAwait t \<Rightarrow> pg_tasks p @ [t] | _ \<Rightarrow> pg_tasks p)\<rparr>)"
| "page_step wc (WResume i r) p =
     (if i < length (pg_tasks p)
      then case web_resume wc r (pg_tasks p ! i) (pg_m p) of (out, m) \<Rightarrow>
        \<lparr>pg_m = m, pg_tasks = (case out of WAwait t \<Rightarrow> (pg_tasks p)[i := t] | _ \<Rightarrow> take i (pg_tasks p) @ drop (Suc i) (pg_tasks p))\<rparr>
      else p)"
| "page_step wc WReload p = fresh_page (w_row (pg_m p)) (w_blob (pg_m p))"

fun page_run :: "'k web_crypto \<Rightarrow> 'k web_event list \<Rightarrow> 'k page \<Rightarrow> 'k page" where
  "page_run wc [] p = p"
| "page_run wc (e # es) p = page_run wc es (page_step wc e p)"

end
