(* ===== verification/Web_Identity_Laws.thy ===== *)
theory Web_Identity_Laws
  imports Web_Identity Identity_Laws Js_Text
begin

text \<open>
  Laws of the web client's identity: the epoch keeps a locked page locked, a rotation is on disk whole or
  not at all, and the one gap in it: a wipe between the rotation's epoch check and its write.
\<close>

section \<open>Locking\<close>

text \<open>The actions that put a key into memory without looking at the epoch.\<close>

fun unguarded :: "'k web_task \<Rightarrow> bool" where
  "unguarded (WSetup1 pw) = True"
| "unguarded (WSetup2 k pw) = True"
| "unguarded (WPersist1 k w) = True"
| "unguarded (WPersist2 k) = True"
| "unguarded _ = False"

text \<open>The epoch an action took when it started.\<close>

fun snapshot :: "'k web_task \<Rightarrow> nat option" where
  "snapshot (WUnlock1 pw e) = Some e"
| "snapshot (WUnlock2 pw e w) = Some e"
| "snapshot (WBack1 pw e pk) = Some e"
| "snapshot (WBack2 pw e x rest) = Some e"
| "snapshot (WRotate1 pw e k) = Some e"
| "snapshot (WRotate2 pw e k s) = Some e"
| "snapshot (WRotate3 pw e k s) = Some e"
| "snapshot (WRotate4 pw e k x) = Some e"
| "snapshot (WRotate5 pw e k x k') = Some e"
| "snapshot (WRotate6 e k x k' s) = Some e"
| "snapshot (WRotate7 e k k' s es) = Some e"
| "snapshot _ = None"

definition stale :: "nat \<Rightarrow> 'k web_task \<Rightarrow> bool" where
  "stale n t = (\<not> unguarded t \<and> (\<forall>e. snapshot t = Some e \<longrightarrow> e < n))"

definition quiet :: "'k page \<Rightarrow> bool" where
  "quiet p = (w_identity (pg_m p) = None \<and> w_retired (pg_m p) = [] \<and> list_all (stale (w_epoch (pg_m p))) (pg_tasks p))"

lemma machine_simps [simp]:
  "w_identity (setIdentity wc k m) = k" "w_retired (setIdentity wc k m) = w_retired m" "w_epoch (setIdentity wc k m) = w_epoch m"
  "w_row (setIdentity wc k m) = w_row m" "w_blob (setIdentity wc k m) = w_blob m"
  "w_identity (applyState st m) = w_identity m" "w_retired (applyState st m) = w_retired m" "w_epoch (applyState st m) = w_epoch m"
  "w_row (applyState st m) = w_row m" "w_blob (applyState st m) = w_blob m" "w_state (applyState st m) = st"
  by (simp_all add: setIdentity_def applyState_def)

lemma unlocked_simps [simp]:
  "w_identity (now_unlocked wc k rs m) = Some k" "w_retired (now_unlocked wc k rs m) = rs" "w_epoch (now_unlocked wc k rs m) = w_epoch m"
  "w_row (now_unlocked wc k rs m) = w_row m" "w_blob (now_unlocked wc k rs m) = w_blob m"
  by (simp_all add: now_unlocked_def)

lemma resume_stale:
  assumes "stale (w_epoch m) t" "web_resume wc r t m = (out, m')" "w_identity m = None" "w_retired m = []"
  shows "w_identity m' = None \<and> w_retired m' = [] \<and> w_epoch m' = w_epoch m
    \<and> (\<forall>t'. out = WAwait t' \<longrightarrow> stale (w_epoch m) t')"
  using assms
  by (cases t) (auto simp: web_resume_def stale_def back_loop_def Let_def split: if_splits option.splits sum.splits list.splits)

lemma list_all_update: "list_all P xs \<Longrightarrow> P y \<Longrightarrow> list_all P (xs[i := y])"
  by (auto simp: list_all_iff dest!: update_member)

lemma list_all_drop_nth: "list_all P xs \<Longrightarrow> list_all P (take i xs @ drop (Suc i) xs)"
  by (auto simp: list_all_iff dest: in_set_takeD in_set_dropD)

lemma stale_mono: "stale n t \<Longrightarrow> n \<le> m \<Longrightarrow> stale m t"
  by (auto simp: stale_def)

fun wakes :: "'k web_event \<Rightarrow> bool" where
  "wakes (WBegin (WSetupNew pw)) = True"
| "wakes (WBegin (WImport env k)) = True"
| "wakes (WBegin (WUnlock pw)) = True"
| "wakes _ = False"

lemma quiet_step:
  assumes "quiet p" "\<not> wakes ev"
  shows "quiet (page_step wc ev p)"
proof (cases ev)
  case (WBegin a)
  have "list_all (stale (Suc (w_epoch (pg_m p)))) (pg_tasks p)"
    using assms(1) stale_mono [of "w_epoch (pg_m p)" _ "Suc (w_epoch (pg_m p))"] by (auto simp: quiet_def list_all_iff)
  then show ?thesis using assms WBegin
    by (cases a) (auto simp: quiet_def web_begin_def lock_now_def stale_def split: option.splits)
next
  case (WResume i r)
  show ?thesis
  proof (cases "i < length (pg_tasks p)")
    case True
    obtain out m' where o: "web_resume wc r (pg_tasks p ! i) (pg_m p) = (out, m')" by (cases "web_resume wc r (pg_tasks p ! i) (pg_m p)")
    have s: "stale (w_epoch (pg_m p)) (pg_tasks p ! i)" using assms(1) True by (simp add: quiet_def list_all_length)
    note kept = resume_stale [OF s o]
    show ?thesis using assms(1) kept True
      by (auto simp: WResume o quiet_def list_all_update list_all_drop_nth simp del: list_all_append split: web_outcome.split)
  qed (use assms WResume in simp)
next
  case WReload
  then show ?thesis by (simp add: quiet_def fresh_page_def)
qed

lemma quiet_run: "quiet p \<Longrightarrow> list_all (\<lambda>ev. \<not> wakes ev) evs \<Longrightarrow> quiet (page_run wc evs p)"
  by (induction evs arbitrary: p) (auto simp: quiet_step)

text \<open>In every reachable page no action holds an epoch from the future.\<close>

definition snaps_ok :: "'k page \<Rightarrow> bool" where
  "snaps_ok p = list_all (\<lambda>t. \<forall>e. snapshot t = Some e \<longrightarrow> e \<le> w_epoch (pg_m p)) (pg_tasks p)"

lemma resume_snaps:
  assumes "\<forall>e. snapshot t = Some e \<longrightarrow> e \<le> w_epoch m" "web_resume wc r t m = (out, m')"
  shows "w_epoch m' = w_epoch m \<and> (\<forall>t'. out = WAwait t' \<longrightarrow> (\<forall>e. snapshot t' = Some e \<longrightarrow> e \<le> w_epoch m))"
  using assms
  by (cases t) (auto simp: web_resume_def back_loop_def Let_def split: if_splits option.splits sum.splits list.splits)

lemma snaps_step: "snaps_ok p \<Longrightarrow> snaps_ok (page_step wc ev p)"
proof (cases ev)
  case (WBegin a)
  assume "snaps_ok p"
  then show ?thesis using WBegin
    by (cases a) (auto simp: snaps_ok_def web_begin_def lock_now_def list_all_iff intro: le_SucI split: option.splits if_splits)
next
  case (WResume i r)
  assume p: "snaps_ok p"
  show ?thesis
  proof (cases "i < length (pg_tasks p)")
    case True
    obtain out m' where o: "web_resume wc r (pg_tasks p ! i) (pg_m p) = (out, m')" by (cases "web_resume wc r (pg_tasks p ! i) (pg_m p)")
    have s: "\<forall>e. snapshot (pg_tasks p ! i) = Some e \<longrightarrow> e \<le> w_epoch (pg_m p)" using p True by (simp add: snaps_ok_def list_all_length)
    show ?thesis using p resume_snaps [OF s o] True
      by (auto simp: WResume o snaps_ok_def list_all_update list_all_drop_nth simp del: list_all_append split: web_outcome.split)
  qed (use p WResume in simp)
next
  case WReload
  then show ?thesis by (simp add: snaps_ok_def fresh_page_def)
qed

lemma snaps_run: "snaps_ok p \<Longrightarrow> snaps_ok (page_run wc evs p)"
  by (induction evs arbitrary: p) (auto simp: snaps_step)

text \<open>
  C16: once the page is locked it holds no private key, however the unlocks and rotations that were under
  way resolve, until somebody unlocks, sets up or imports an identity: the epoch discards their results.
\<close>

theorem locked_page_holds_no_key:
  assumes "p = page_run wc before (fresh_page row blob)" "list_all (\<lambda>t. \<not> unguarded t) (pg_tasks p)"
    "list_all (\<lambda>ev. \<not> wakes ev) later"
  shows "getAllPrivateKeysForDecrypt (pg_m (page_run wc (WBegin WLock # later) p)) = []"
proof -
  have "snaps_ok p" unfolding assms(1) by (rule snaps_run) (simp add: snaps_ok_def fresh_page_def)
  then have "quiet (page_step wc (WBegin WLock) p)"
    using assms(2) by (auto simp: quiet_def snaps_ok_def web_begin_def lock_now_def stale_def list_all_iff less_Suc_eq_le)
  then have "quiet (page_run wc later (page_step wc (WBegin WLock) p))" using assms(3) by (rule quiet_run)
  then show ?thesis by (simp add: quiet_def getAllPrivateKeysForDecrypt_def)
qed

section \<open>Rotation\<close>

definition wc_ok :: "'k web_crypto \<Rightarrow> bool" where
  "wc_ok wc = (inj (wc_export wc) \<and> (\<forall>k pw r w. wc_wrap wc k pw r = Some w \<longrightarrow> wc_unwrap wc w pw = Inr k))"

definition disk_keys :: "'k web_crypto \<Rightarrow> string \<Rightarrow> 'k web_machine \<Rightarrow> 'k set" where
  "disk_keys wc pw m =
     {k. \<exists>rec. w_row m = Some rec \<and> wc_unwrap wc (ws_wrapped rec) pw = Inr k}
     \<union> {k. \<exists>e \<in> set (loadRetiredEntries False (w_blob m)). wc_unwrap wc (re_wrapped e) pw = Inr k}"

text \<open>The public keys on disk are those of the wrapped keys beside them.\<close>

definition disk_ok :: "'k web_crypto \<Rightarrow> string \<Rightarrow> 'k web_machine \<Rightarrow> bool" where
  "disk_ok wc pw m =
     ((\<forall>rec k. w_row m = Some rec \<longrightarrow> wc_unwrap wc (ws_wrapped rec) pw = Inr k \<longrightarrow> ws_publicKeyString rec = wc_export wc k) \<and>
      (\<forall>e \<in> set (loadRetiredEntries False (w_blob m)). \<forall>k. wc_unwrap wc (re_wrapped e) pw = Inr k \<longrightarrow> re_publicKeyString e = wc_export wc k))"

lemma load_distinct: "distinct (map re_publicKeyString (loadRetiredEntries rej blob))"
  by (simp add: loadRetiredEntries_def sanitizeRetiredEntries_def split: option.split json.split)

lemma load_finite: "list_all (\<lambda>e. is_finite (re_retiredAtMs e)) (loadRetiredEntries rej blob)"
  using dedupe_subset set_map_filter_D isRetiredKeyEntry_finite
  by (fastforce simp: loadRetiredEntries_def sanitizeRetiredEntries_def list_all_iff split: option.split json.split)

lemma load_record:
  assumes "distinct (map re_publicKeyString es)" "list_all (\<lambda>e. is_finite (re_retiredAtMs e)) es"
  shows "loadRetiredEntries False (Some (retired_record es)) = es"
  using map_filter_entries [OF assms(2)] dedupe_id [OF assms(1)]
  by (simp add: loadRetiredEntries_def sanitizeRetiredEntries_def retired_record_def json_prop_def)

lemma prepend_shape: "prependRetired es e = e # dedupe_loop [re_publicKeyString e] es"
  by (simp add: prependRetired_def dedupeRetired_def)

text \<open>The disk after the transaction still holds every key that it held before.\<close>

lemma rotated_holds:
  assumes "wc_ok wc" "disk_ok wc pw m" "w_row m = Some sr" "wc_unwrap wc (ws_wrapped sr) pw = Inr k0"
    "re_wrapped x = ws_wrapped sr" "re_publicKeyString x = ws_publicKeyString sr" "is_finite (re_retiredAtMs x)"
    "w_blob m' = Some (retired_record (prependRetired (loadRetiredEntries False (w_blob m)) x))"
  shows "disk_keys wc pw m \<subseteq> disk_keys wc pw m'"
proof
  let ?old = "loadRetiredEntries False (w_blob m)"
  have fin: "list_all (\<lambda>e. is_finite (re_retiredAtMs e)) (prependRetired ?old x)"
    using load_finite [of False "w_blob m"] assms(7) dedupe_loop_subset [of "[re_publicKeyString x]" ?old]
    by (auto simp: prepend_shape list_all_iff)
  have "distinct (map re_publicKeyString (prependRetired ?old x))" unfolding prependRetired_def by simp
  then have now: "loadRetiredEntries False (w_blob m') = x # dedupe_loop [re_publicKeyString x] ?old"
    using load_record [OF _ fin] assms(8) by (simp add: prepend_shape)
  fix k assume "k \<in> disk_keys wc pw m"
  then consider "k = k0" | e where "e \<in> set ?old" "wc_unwrap wc (re_wrapped e) pw = Inr k" "k \<noteq> k0"
    using assms(3,4) by (auto simp: disk_keys_def)
  then show "k \<in> disk_keys wc pw m'"
  proof cases
    case 1
    then show ?thesis using assms(4,5) by (auto simp: disk_keys_def now)
  next
    case (2 e)
    have "re_publicKeyString e = wc_export wc k" "re_publicKeyString x = wc_export wc k0"
      using assms(2-4,6) 2 by (auto simp: disk_ok_def)
    moreover have "wc_export wc k \<noteq> wc_export wc k0" using assms(1) 2(3) by (auto simp: wc_ok_def dest: injD)
    ultimately have "e \<in> set (dedupe_loop [re_publicKeyString x] ?old)"
      using 2(1) load_distinct by (intro dedupe_loop_keeps) auto
    then show ?thesis using 2(2) by (auto simp: disk_keys_def now)
  qed
qed

text \<open>What holds at each await of a rotation that started from the disk of \<open>m0\<close>.\<close>

definition retires :: "'k web_machine \<Rightarrow> retired_entry \<Rightarrow> bool" where
  "retires m0 x = (\<exists>sr. w_row m0 = Some sr \<and> re_wrapped x = ws_wrapped sr \<and> re_publicKeyString x = ws_publicKeyString sr
     \<and> is_finite (re_retiredAtMs x))"

definition opens_row :: "'k web_crypto \<Rightarrow> string \<Rightarrow> 'k web_machine \<Rightarrow> bool" where
  "opens_row wc pw m0 = (\<exists>sr k0. w_row m0 = Some sr \<and> wc_unwrap wc (ws_wrapped sr) pw = Inr k0)"

fun web_rotating :: "'k web_crypto \<Rightarrow> string \<Rightarrow> 'k web_machine \<Rightarrow> 'k web_task \<Rightarrow> bool" where
  "web_rotating wc pw m0 (WRotate1 pw' e k) = (pw' = pw)"
| "web_rotating wc pw m0 (WRotate2 pw' e k st) = (pw' = pw \<and> w_row m0 = Some st)"
| "web_rotating wc pw m0 (WRotate3 pw' e k st) = (pw' = pw \<and> w_row m0 = Some st \<and> opens_row wc pw m0)"
| "web_rotating wc pw m0 (WRotate4 pw' e k x) = (pw' = pw \<and> retires m0 x \<and> opens_row wc pw m0)"
| "web_rotating wc pw m0 (WRotate5 pw' e k x k') = (pw' = pw \<and> retires m0 x \<and> opens_row wc pw m0)"
| "web_rotating wc pw m0 (WRotate6 e k x k' st) =
     (retires m0 x \<and> opens_row wc pw m0 \<and> wc_unwrap wc (ws_wrapped st) pw = Inr k' \<and> ws_publicKeyString st = wc_export wc k')"
| "web_rotating wc pw m0 (WRotate7 e k k' st es) =
     (\<exists>x. retires m0 x \<and> opens_row wc pw m0 \<and> wc_unwrap wc (ws_wrapped st) pw = Inr k' \<and> ws_publicKeyString st = wc_export wc k'
        \<and> es = prependRetired (loadRetiredEntries False (w_blob m0)) x)"
| "web_rotating wc pw m0 _ = False"

definition same_disk :: "'k web_machine \<Rightarrow> 'k web_machine \<Rightarrow> bool" where
  "same_disk m0 m = (w_row m = w_row m0 \<and> w_blob m = w_blob m0)"

definition rotated_disk :: "'k web_crypto \<Rightarrow> string \<Rightarrow> 'k web_machine \<Rightarrow> 'k web_machine \<Rightarrow> bool" where
  "rotated_disk wc pw m0 m =
     (\<exists>k rec. w_row m = Some rec \<and> wc_unwrap wc (ws_wrapped rec) pw = Inr k \<and> ws_publicKeyString rec = wc_export wc k
        \<and> disk_keys wc pw m0 \<subseteq> disk_keys wc pw m)"

fun reads_retired :: "'k web_task \<Rightarrow> bool" where
  "reads_retired (WRotate6 e k x k' st) = True"
| "reads_retired _ = False"

lemma rotating_step:
  assumes "wc_ok wc" "disk_ok wc pw m0" "same_disk m0 m" "web_rotating wc pw m0 t" "web_resume wc r t m = (out, m')"
    "is_finite (wr_clock r)" "reads_retired t \<longrightarrow> \<not> wr_rejects r"
  shows "(case out of WAwait t' \<Rightarrow> web_rotating wc pw m0 t' \<and> same_disk m0 m' | _ \<Rightarrow> same_disk m0 m' \<or> rotated_disk wc pw m0 m')"
proof (cases t)
  case (WRotate7 e k k' st es)
  obtain x where x: "retires m0 x" "opens_row wc pw m0" "wc_unwrap wc (ws_wrapped st) pw = Inr k'" "ws_publicKeyString st = wc_export wc k'"
    "es = prependRetired (loadRetiredEntries False (w_blob m0)) x"
    using assms(4) WRotate7 by auto
  have "rotated_disk wc pw m0 m1" if "w_row m1 = Some st" "w_blob m1 = Some (retired_record es)" for m1
  proof -
    have "disk_keys wc pw m0 \<subseteq> disk_keys wc pw m1"
      using rotated_holds [OF assms(1,2), of _ _ x m1] x that unfolding retires_def opens_row_def by force
    then show ?thesis using x that by (auto simp: rotated_disk_def)
  qed
  then show ?thesis using assms(3,5) WRotate7 by (auto simp: web_resume_def Let_def split: if_splits)
next
  case (WRotate5 pw' e k x k')
  then show ?thesis using assms by (auto simp: web_resume_def wc_ok_def split: option.splits if_splits)
qed (use assms in \<open>auto simp: web_resume_def same_disk_def opens_row_def retires_def split: if_splits option.splits sum.splits\<close>)

fun rotate_stage :: "'k web_task \<Rightarrow> nat" where
  "rotate_stage (WRotate1 pw e k) = 0"
| "rotate_stage (WRotate2 pw e k st) = 1"
| "rotate_stage (WRotate3 pw e k st) = 2"
| "rotate_stage (WRotate4 pw e k x) = 3"
| "rotate_stage (WRotate5 pw e k x k') = 4"
| "rotate_stage (WRotate6 e k x k' st) = 5"
| "rotate_stage _ = 6"

lemma rotate_stage_next:
  assumes "web_rotating wc pw m0 t" "web_resume wc r t m = (WAwait t', m')"
  shows "rotate_stage t' = Suc (rotate_stage t)"
  using assms by (cases t) (auto simp: web_resume_def Let_def split: if_splits option.splits sum.splits)

definition all_or_nothing :: "'k web_crypto \<Rightarrow> string \<Rightarrow> 'k web_machine \<Rightarrow> 'k page \<Rightarrow> bool" where
  "all_or_nothing wc pw m0 p = (same_disk m0 (pg_m p) \<or> rotated_disk wc pw m0 (pg_m p))"

lemma rotating_run:
  assumes "wc_ok wc" "disk_ok wc pw m0" "same_disk m0 (pg_m p)" "pg_tasks p = [t]" "web_rotating wc pw m0 t"
    "\<forall>r \<in> set rs. is_finite (wr_clock r)" "rotate_stage t \<le> 5 \<longrightarrow> 5 - rotate_stage t < length rs \<longrightarrow> \<not> wr_rejects (rs ! (5 - rotate_stage t))"
  shows "all_or_nothing wc pw m0 (page_run wc (map (WResume 0) rs) p)"
  using assms(3-7)
proof (induction rs arbitrary: p t)
  case Nil
  then show ?case by (simp add: all_or_nothing_def)
next
  case (Cons r rs)
  obtain out m' where o: "web_resume wc r t (pg_m p) = (out, m')" by (cases "web_resume wc r t (pg_m p)")
  have reads: "reads_retired t \<longrightarrow> \<not> wr_rejects r" using Cons.prems(5) by (cases t) auto
  note step = rotating_step [OF assms(1,2) Cons.prems(1,3) o _ reads]
  show ?case
  proof (cases out)
    case (WAwait t')
    have stage: "rotate_stage t' = Suc (rotate_stage t)" using rotate_stage_next [OF Cons.prems(3)] o WAwait by blast
    have late: "rotate_stage t' \<le> 5 \<longrightarrow> 5 - rotate_stage t' < length rs \<longrightarrow> \<not> wr_rejects (rs ! (5 - rotate_stage t'))"
    proof (intro impI)
      assume a: "rotate_stage t' \<le> 5" "5 - rotate_stage t' < length rs"
      then have "5 - rotate_stage t = Suc (5 - rotate_stage t')" using stage by linarith
      then show "\<not> wr_rejects (rs ! (5 - rotate_stage t'))" using Cons.prems(5) a stage by simp
    qed
    have "web_rotating wc pw m0 t' \<and> same_disk m0 m'" using step WAwait Cons.prems(4) by simp
    then show ?thesis
      using Cons.IH [of "\<lparr>pg_m = m', pg_tasks = [t']\<rparr>" t'] Cons.prems(2,4) late o WAwait by simp
  next
    case WDone
    have idle: "page_run wc (map (WResume 0) rs) \<lparr>pg_m = m', pg_tasks = []\<rparr> = \<lparr>pg_m = m', pg_tasks = []\<rparr>"
      by (induction rs) simp_all
    show ?thesis using step WDone Cons.prems(2,4) o idle by (simp add: all_or_nothing_def)
  next
    case WThrew
    have idle: "page_run wc (map (WResume 0) rs) \<lparr>pg_m = m', pg_tasks = []\<rparr> = \<lparr>pg_m = m', pg_tasks = []\<rparr>"
      by (induction rs) simp_all
    show ?thesis using step WThrew Cons.prems(2,4) o idle by (simp add: all_or_nothing_def)
  qed
qed


section \<open>A wipe that does not last\<close>

text \<open>
  The resolutions of a rotation that succeeds, with a wipe that runs from start to end while the retired
  keys are being read.
\<close>

definition wipe_inside_rotation :: "string \<Rightarrow> 'k web_resolution \<Rightarrow> 'k web_event list" where
  "wipe_inside_rotation pw r =
     [WBegin (WRotate pw), WResume 0 r, WResume 0 r, WResume 0 r, WResume 0 r, WResume 0 r,
      WBegin WWipe, WResume 1 r, WResume 1 r,
      WResume 0 r, WResume 0 r]"

text \<open>
  A wipe that starts and completes after the rotation's last look at the epoch but before its write
  is undone on disk: the page says that there is no identity, and after a reload it finds one.
\<close>

theorem rotation_undoes_wipe:
  assumes "pg_tasks p = []" "w_identity (pg_m p) = Some k" "w_row (pg_m p) = Some sr" "\<not> wr_rejects r"
    "wc_unwrap wc (ws_wrapped sr) pw = Inr k0" "wc_fingerprint wc (ws_publicKeyString sr) = Some f"
    "wc_wrap wc (wr_key r) pw (wr_seed r) = Some w" "wc_ok wc"
  shows "w_state (pg_m (page_run wc (wipe_inside_rotation pw r) p)) = WNoIdentity
    \<and> getAllPrivateKeysForDecrypt (pg_m (page_run wc (wipe_inside_rotation pw r) p)) = []
    \<and> w_state (pg_m (page_run wc (wipe_inside_rotation pw r @ [WReload, WBegin WStart, WResume 0 r]) p)) = WLocked
    \<and> wr_key r \<in> disk_keys wc pw (pg_m (page_run wc (wipe_inside_rotation pw r) p))"
proof -
  have unwrap: "wc_unwrap wc w pw = Inr (wr_key r)" using assms(7,8) by (auto simp: wc_ok_def)
  show ?thesis
    using assms(1-7) unwrap
    by (simp add: wipe_inside_rotation_def web_begin_def web_resume_def getAllPrivateKeysForDecrypt_def fresh_page_def disk_keys_def)
qed

text \<open>
  The retired keys are read fail-soft inside the rotation too: when that read fails and the write that
  follows does not, the rotation overwrites the list with the one key it retires.
\<close>

theorem failed_read_forgets_keys:
  assumes "pg_tasks p = [WRotate6 e old x k st]" "wr_rejects r" "\<not> wr_rejects r'" "is_finite (re_retiredAtMs x)"
  shows "loadRetiredEntries False (w_blob (pg_m (page_run wc [WResume 0 r, WResume 0 r'] p))) = [x]"
proof -
  have "loadRetiredEntries False (Some (retired_record [x])) = [x]" by (rule load_record) (simp_all add: assms(4))
  moreover have "prependRetired [] x = [x]" by (simp add: prependRetired_def dedupeRetired_def)
  ultimately show ?thesis using assms(1-3) by (simp add: web_resume_def loadRetiredEntries_def Let_def)
qed

section \<open>A small instance\<close>

text \<open>Keys are numbers; a wrapped key is its passphrase, a bar and the number in unary.\<close>

definition toy_web :: "nat web_crypto" where
  "toy_web = \<lparr>wc_wrap = \<lambda>k pw r. Some (pw @ CHR ''|'' # replicate k CHR ''x''),
     wc_unwrap = \<lambda>w pw. if take (Suc (length pw)) w = pw @ ''|'' then Inr (length w - Suc (length pw)) else Inl BadPassphraseError,
     wc_export = \<lambda>k. replicate k CHR ''k'', wc_fingerprint = \<lambda>s. Some s\<rparr>"

lemma toy_web_ok: "wc_ok toy_web"
proof -
  have "inj (\<lambda>k. replicate k CHR ''k'')" by (rule injI) (metis length_replicate)
  then show ?thesis by (simp add: wc_ok_def toy_web_def)
qed

definition toy_row :: stored_identity where
  "toy_row = \<lparr>ws_publicKeyString = ''kk'', ws_wrapped = ''p|xx'', ws_createdAt = []\<rparr>"

definition toy_res :: "nat web_resolution" where
  "toy_res = \<lparr>wr_rejects = False, wr_key = 5, wr_seed = [], wr_clock = num 1, wr_iso = []\<rparr>"

text \<open>A page that has found the stored identity and unlocked it.\<close>

definition toy_page :: "nat page" where
  "toy_page = page_run toy_web [WBegin (WUnlock ''p''), WResume 0 toy_res, WResume 0 toy_res, WResume 0 toy_res] (fresh_page (Some toy_row) None)"

lemma toy_unwrap [simp]: "wc_unwrap toy_web ''p|xx'' ''p'' = Inr 2"
  by (simp add: toy_web_def)

lemma toy_page_facts: "pg_tasks toy_page = []" "w_identity (pg_m toy_page) = Some 2" "w_row (pg_m toy_page) = Some toy_row"
  "w_blob (pg_m toy_page) = None" "\<not> wr_rejects toy_res"
  by (simp_all add: toy_page_def toy_res_def fresh_page_def web_begin_def web_resume_def toy_row_def back_loop_def
      loadRetiredEntries_def sanitizeRetiredEntries_def retiredExcludingActive_def)

theorem locked_page_holds_no_key_witness:
  "getAllPrivateKeysForDecrypt (pg_m (page_run toy_web [WBegin WLock, WResume 0 toy_res] toy_page)) = []"
  using locked_page_holds_no_key [OF toy_page_def, of "[WResume 0 toy_res]"] toy_page_facts(1) by simp


theorem rotation_undoes_wipe_witness:
  "w_state (pg_m (page_run toy_web (wipe_inside_rotation ''p'' toy_res @ [WReload, WBegin WStart, WResume 0 toy_res]) toy_page)) = WLocked"
  using rotation_undoes_wipe [OF toy_page_facts(1-3), of toy_res toy_web "''p''" 2 "''kk''" "''p|xxxxx''"] toy_web_ok
  by (simp add: toy_row_def toy_res_def) (simp add: toy_web_def numeral_eq_Suc)

end
