(* ===== verification/Web_Client.thy ===== *)
theory Web_Client
  imports Client_Properties
begin

text \<open>
  The web client's API layer, apps/webapp/src/api/client.ts. Requests, shape checks and calls follow the
  mobile client's (\<open>Api_Client\<close>, whose types of answers are shared) with an error taxonomy of their own.
  A fetch resolves with a status and a body, or rejects; on a rejection the code looks at whether its timer
  has fired and whether the caller has aborted.
\<close>

section \<open>Errors and requests\<close>

datatype web_error =
    WebApiError nat
  | WebTimeoutError
  | WebMalformedResponseError string
  | WebNetworkError
  | WebAbortError

datatype web_fetch = Fetch_Rejects bool bool | Fetch_Resolves nat "json option"

record web_env =
  API_ORIGIN :: string
  web_net :: "http_request \<Rightarrow> web_fetch"
  web_stringify :: "json \<Rightarrow> string"

datatype api_error_kind = KNetwork | KNotFound | KGone | KRateLimited | KInvalid | KConflict | KServer | KUnknown

text \<open>\<open>None\<close> is a thrown value that is none of the module's errors.\<close>

definition classifyApiError :: "web_error option \<Rightarrow> api_error_kind" where
  "classifyApiError err =
     (case err of
        Some WebNetworkError \<Rightarrow> KNetwork
      | Some WebTimeoutError \<Rightarrow> KNetwork
      | Some (WebMalformedResponseError m) \<Rightarrow> KNetwork
      | Some (WebApiError st) \<Rightarrow>
          if st = 404 then KNotFound
          else if st = 410 then KGone
          else if st = 429 then KRateLimited
          else if st = 409 then KConflict
          else if st = 400 then KInvalid
          else if st \<ge> 500 then KServer
          else KUnknown
      | _ \<Rightarrow> KUnknown)"

definition web_requestWithTimeout :: "web_env \<Rightarrow> string \<Rightarrow> string \<Rightarrow> (string \<times> string) list \<Rightarrow> string option
    \<Rightarrow> web_error + (nat \<times> json option)" where
  "web_requestWithTimeout env path method headers body =
     (case web_net env \<lparr>hr_method = method, hr_url = API_ORIGIN env @ path, hr_headers = headers, hr_body = body\<rparr> of
        Fetch_Rejects timedOut aborted \<Rightarrow>
          if timedOut then Inl WebTimeoutError
          else if aborted then Inl WebAbortError
          else Inl WebNetworkError
      | Fetch_Resolves st j \<Rightarrow> Inr (st, j))"

definition web_fetchJson :: "web_env \<Rightarrow> string \<Rightarrow> string \<Rightarrow> (string \<times> string) list \<Rightarrow> string option
    \<Rightarrow> (json \<Rightarrow> web_error + 'a) \<Rightarrow> web_error + 'a" where
  "web_fetchJson env path method headers body validate =
     and_then (web_requestWithTimeout env path method headers body) (\<lambda>(st, j).
       if \<not> res_ok st then Inl (WebApiError st)
       else case j of
              None \<Rightarrow> Inl (WebMalformedResponseError ''body was not valid JSON'')
            | Some b \<Rightarrow> validate b)"

definition web_malformed :: "string \<Rightarrow> web_error + 'a" where
  "web_malformed m = Inl (WebMalformedResponseError m)"

section \<open>Create\<close>

record web_created =
  wcr_id :: string
  wcr_url :: string
  wcr_token :: string

text \<open>A property that is a non-empty string.\<close>

definition nonempty_string :: "string \<Rightarrow> json \<Rightarrow> string option" where
  "nonempty_string k body = (case prop_string k body of Some s \<Rightarrow> if length s = 0 then None else Some s | None \<Rightarrow> None)"

definition web_validateCreateMessageResponse :: "json \<Rightarrow> web_error + web_created" where
  "web_validateCreateMessageResponse body =
     (if \<not> is_object body then web_malformed ''create response was not an object''
      else case nonempty_string ''id'' body of
        None \<Rightarrow> web_malformed ''create response is missing id''
      | Some i \<Rightarrow> (case nonempty_string ''url'' body of
        None \<Rightarrow> web_malformed ''create response is missing url''
      | Some u \<Rightarrow> (case nonempty_string ''revocationToken'' body of
        None \<Rightarrow> web_malformed ''create response is missing revocationToken''
      | Some t \<Rightarrow> Inr \<lparr>wcr_id = i, wcr_url = u, wcr_token = t\<rparr>)))"

definition web_postMessage :: "web_env \<Rightarrow> create_request \<Rightarrow> web_error + web_created" where
  "web_postMessage env req =
     web_fetchJson env ''/api/messages'' ''POST'' json_type_header (Some (web_stringify env (create_request_json req)))
       web_validateCreateMessageResponse"

section \<open>List, revoke and open\<close>

definition web_validate_list_result :: "json \<Rightarrow> web_error + list_result" where
  "web_validate_list_result r =
     (case (if is_object r then prop_string ''id'' r else None) of
        None \<Rightarrow> web_malformed ''list result is missing id''
      | Some i \<Rightarrow>
          if json_prop ''status'' r = Some (JStr ''gone'') then Inr (ListGone i)
          else if json_prop ''status'' r = Some (JStr ''active'')
          then (case (prop_string ''expiresAt'' r, prop_num ''maxOpens'' r, prop_num ''opensCount'' r) of
                  (Some e, Some mo, Some oc) \<Rightarrow> Inr (ListActive i e mo oc)
                | _ \<Rightarrow> web_malformed ''active list result is missing fields'')
          else web_malformed ''list result has an unknown status'')"

definition web_validateListMessagesResponse :: "json \<Rightarrow> web_error + list_result list" where
  "web_validateListMessagesResponse body =
     (case (if is_object body then json_prop ''results'' body else None) of
        Some (JArr rs) \<Rightarrow> map_err web_validate_list_result rs
      | _ \<Rightarrow> web_malformed ''list response.results was not an array'')"

definition web_listMessages :: "web_env \<Rightarrow> string list \<Rightarrow> web_error + list_result list" where
  "web_listMessages env ids =
     (if length ids = 0 then Inr []
      else web_fetchJson env ''/api/messages/list'' ''POST'' json_type_header
             (Some (web_stringify env (JObj [(''ids'', JArr (map JStr ids))]))) web_validateListMessagesResponse)"

text \<open>The revocation token travels in a header; the request has no body.\<close>

definition web_revokeLink :: "web_env \<Rightarrow> string \<Rightarrow> string option \<Rightarrow> web_error + unit" where
  "web_revokeLink env i revocationToken =
     (let headers = (case revocationToken of
                       None \<Rightarrow> []
                     | Some t \<Rightarrow> if t = [] then [] else [(REVOCATION_TOKEN_HEADER, t)])
      in and_then (web_requestWithTimeout env (''/api/messages/'' @ encodeURIComponent i @ ''/revoke'') ''POST'' headers None)
           (\<lambda>(st, j). if \<not> res_ok st then Inl (WebApiError st) else Inr ()))"

definition web_validateOpenMessageResponse :: "json \<Rightarrow> web_error + open_response" where
  "web_validateOpenMessageResponse body =
     (if \<not> is_object body then web_malformed ''open response was not an object''
      else case nonempty_string ''ciphertext'' body of
        None \<Rightarrow> web_malformed ''open response is missing ciphertext''
      | Some c \<Rightarrow> (case created_or_null (json_prop ''createdAt'' body) of
        None \<Rightarrow> web_malformed ''open response createdAt must be a string or null''
      | Some cr \<Rightarrow> (case prop_string ''expiresAt'' body of
        None \<Rightarrow> web_malformed ''open response is missing expiresAt''
      | Some e \<Rightarrow> (case (prop_num ''opensCount'' body, prop_num ''maxOpens'' body) of
          (Some oc, Some mo) \<Rightarrow>
            (case isKnownStatus (json_prop ''status'' body) of
               None \<Rightarrow> web_malformed ''open response has an unknown status''
             | Some st \<Rightarrow> Inr \<lparr>or_ciphertext = c, or_createdAt = cr, or_expiresAt = e, or_opensCount = oc,
                               or_maxOpens = mo, or_status = st\<rparr>)
        | _ \<Rightarrow> web_malformed ''open response is missing opens fields''))))"

definition web_openMessage :: "web_env \<Rightarrow> string \<Rightarrow> web_error + open_response" where
  "web_openMessage env i =
     web_fetchJson env (''/api/messages/'' @ encodeURIComponent i @ ''/open'') ''POST'' [] None
       web_validateOpenMessageResponse"

section \<open>The clients read the same answers\<close>

text \<open>What is left of a result when the error is forgotten.\<close>

definition got :: "'e + 'a \<Rightarrow> 'a option" where
  "got r = (case r of Inl e \<Rightarrow> None | Inr x \<Rightarrow> Some x)"

lemma got_simps [simp]: "got (Inl e) = None" "got (Inr x) = Some x" "got (malformed m) = None" "got (web_malformed m) = None"
  by (simp_all add: got_def malformed_def web_malformed_def)

lemma got_Some [simp]: "got r = Some x \<longleftrightarrow> r = Inr x"
  by (cases r) (auto simp: got_def)

lemma opens_read_alike: "got (web_validateOpenMessageResponse b) = got (validateOpenMessageResponse b)"
  by (simp add: web_validateOpenMessageResponse_def validateOpenMessageResponse_def nonempty_string_def split: option.split)

lemma list_results_read_alike: "got (web_validate_list_result r) = got (validate_list_result r)"
  by (simp add: web_validate_list_result_def validate_list_result_def split: option.split)

lemma got_map_err: "(\<And>x. got (f x) = got (g x)) \<Longrightarrow> got (map_err f xs) = got (map_err g xs)"
proof (induction xs)
  case (Cons x xs)
  have "got (f x) = got (g x)" "got (map_err f xs) = got (map_err g xs)" using Cons by blast+
  then show ?case by (cases "f x"; cases "g x"; cases "map_err f xs"; cases "map_err g xs") (auto simp: got_def)
qed simp

lemma lists_read_alike: "got (web_validateListMessagesResponse b) = got (validateListMessagesResponse b)"
  using got_map_err [OF list_results_read_alike]
  by (auto simp: web_validateListMessagesResponse_def validateListMessagesResponse_def split: option.split json.split)

text \<open>The web client asks for more in a create response: a link and a token.\<close>

lemma created_reads_alike:
  "web_validateCreateMessageResponse b = Inr c \<Longrightarrow>
     validateCreateMessageResponse b = Inr \<lparr>cr_resp_id = wcr_id c, cr_resp_token = Some (wcr_token c)\<rparr>"
  by (auto simp: web_validateCreateMessageResponse_def validateCreateMessageResponse_def nonempty_string_def web_malformed_def
      prop_string_def split: if_splits option.splits json.splits)

lemma web_create_body_validates:
  assumes "i \<noteq> []" "u \<noteq> []" "t \<noteq> []"
  shows "web_validateCreateMessageResponse (JObj [(''id'', JStr i), (''url'', JStr u), (''revocationToken'', JStr t)]) =
    Inr \<lparr>wcr_id = i, wcr_url = u, wcr_token = t\<rparr>"
  using assms by (simp add: web_validateCreateMessageResponse_def nonempty_string_def is_object_def prop_string_def json_prop_def)

text \<open>The web client, too, understood every answer of the handlers.\<close>

lemma understood_alike:
  assumes "understood V h" "\<And>b v. V b = Inr v \<Longrightarrow> \<exists>v'. V' b = Inr v'"
  shows "understood V' h"
  using assms by (cases "fst h") (auto simp: understood_def answer_of_def)

lemma read_alike: "got x = got y \<Longrightarrow> y = Inr v \<Longrightarrow> \<exists>v'. x = Inr v'"
  by (metis got_Some got_simps(2))

lemma web_create_understood:
  assumes "token \<noteq> []"
  shows "understood web_validateCreateMessageResponse (create_message d now token req sv)"
proof -
  have "b_id body \<noteq> []" if "check_create (d_env d) now body = Some p" for body p
    using check_create_facts(1) [of "d_env d" now body "fst p" "snd p"] that by (auto simp: LINK_ID_REGEX_def)
  then show ?thesis
    using assms unfolding create_message_def
    by (auto intro!: understood_limit simp: web_create_body_validates split: option.splits prod.splits sum.splits)
qed

theorem web_client_understands_server:
  assumes "get_blob (d_links d) i (store sv) \<noteq> Some []" "token \<noteq> []"
  shows "understood web_validateListMessagesResponse (list_messages d now req sv)
    \<and> understood web_validateCreateMessageResponse (create_message d now token req sv)
    \<and> understood web_validateOpenMessageResponse (open_message d now i req sv)"
proof (intro conjI)
  show "understood web_validateListMessagesResponse (list_messages d now req sv)"
    using list_understood by (rule understood_alike) (rule read_alike [OF lists_read_alike])
  show "understood web_validateOpenMessageResponse (open_message d now i req sv)"
    using open_understood [OF assms(1)] by (rule understood_alike) (rule read_alike [OF opens_read_alike])
qed (rule web_create_understood [OF assms(2)])

end
