(* ===== verification/Web_Links.thy ===== *)
theory Web_Links
  imports Web_Client Indexed_Db
begin

text \<open>
  The sender's links in the web client (apps/webapp/src/links: sent-links-store.ts, link-status.ts,
  link-url.ts, use-sent-links.ts) and revoking everything before a wipe (settings/wipe-local.ts). The
  tracking store is an IndexedDB object store, the dates are read by \<open>parse\<close>, and the network is that of
  \<open>Web_Client\<close>.
\<close>

section \<open>The store\<close>

record web_link =
  wl_id :: string
  wl_fingerprint :: string
  wl_createdAt :: string
  wl_expiresAt :: string
  wl_maxOpens :: js_num
  wl_label :: "string option"
  wl_revocationToken :: "string option"
  wl_url :: "string option"

type_synonym web_links = "web_link object_store"

definition web_recordSentLink :: "web_link \<Rightarrow> web_links \<Rightarrow> web_links" where
  "web_recordSentLink r s = os_put (wl_id r) r s"

definition web_newest_first :: "web_link \<Rightarrow> web_link \<Rightarrow> int" where
  "web_newest_first a b = (if string_less (wl_createdAt a) (wl_createdAt b) then 1 else -1)"

definition web_listSentLinks :: "web_links \<Rightarrow> web_link list" where
  "web_listSentLinks s = sort_by web_newest_first (os_getAll s)"

definition web_getSentLink :: "string \<Rightarrow> web_links \<Rightarrow> web_link option" where
  "web_getSentLink i s = os_get i s"

definition web_deleteSentLink :: "string \<Rightarrow> web_links \<Rightarrow> web_links" where
  "web_deleteSentLink i s = os_delete i s"

definition web_clearSentLinks :: "web_links \<Rightarrow> web_links" where
  "web_clearSentLinks s = []"

definition SECURE_LINK_ORIGIN :: string where "SECURE_LINK_ORIGIN = ''https://www.aesmsg.com''"

definition secureLinkUrl :: "string \<Rightarrow> string" where
  "secureLinkUrl i = SECURE_LINK_ORIGIN @ ''/l/'' @ i"

section \<open>The status shown\<close>

datatype display_status = DActive | DExpiring | DExpired | DRevoked | DOpenedOut

definition EXPIRING_SOON_MS :: int where "EXPIRING_SOON_MS = 60 * 60 * 1000"

record display_link =
  dl_record :: web_link
  dl_status :: display_status
  dl_opensCount :: "js_num option"
  dl_maxOpens :: js_num
  dl_expiresAt :: string

text \<open>\<open>new Date(s).getTime() - now \<le> ms\<close>; false for a text that is no date.\<close>

definition within_ms :: "(string \<Rightarrow> int option) \<Rightarrow> string \<Rightarrow> int \<Rightarrow> int \<Rightarrow> bool" where
  "within_ms parse s now ms = (case parse s of None \<Rightarrow> False | Some t \<Rightarrow> t - now \<le> ms)"

text \<open>\<open>a >= b\<close> on numbers.\<close>

definition num_ge :: "js_num \<Rightarrow> js_num \<Rightarrow> bool" where
  "num_ge a b = (a = b \<and> a \<noteq> NaN \<or> num_less b a)"

definition reconcileLink :: "(string \<Rightarrow> int option) \<Rightarrow> web_link \<Rightarrow> list_result option \<Rightarrow> int \<Rightarrow> display_link" where
  "reconcileLink parse r serverResult now =
     (case serverResult of
        Some (ListGone i) \<Rightarrow>
          \<lparr>dl_record = r, dl_status = (if within_ms parse (wl_expiresAt r) now 0 then DExpired else DRevoked),
           dl_opensCount = None, dl_maxOpens = wl_maxOpens r, dl_expiresAt = wl_expiresAt r\<rparr>
      | _ \<Rightarrow>
          let (expiresAt, maxOpens, opensCount) =
                (case serverResult of Some (ListActive i e mo oc) \<Rightarrow> (e, mo, Some oc) | _ \<Rightarrow> (wl_expiresAt r, wl_maxOpens r, None));
              st = (if within_ms parse expiresAt now 0 then DExpired
                    else if (case opensCount of None \<Rightarrow> False | Some oc \<Rightarrow> maxOpens \<noteq> num (-1) \<and> num_ge oc maxOpens) then DOpenedOut
                    else if within_ms parse expiresAt now EXPIRING_SOON_MS then DExpiring
                    else DActive)
          in \<lparr>dl_record = r, dl_status = st, dl_opensCount = opensCount, dl_maxOpens = maxOpens, dl_expiresAt = expiresAt\<rparr>)"

section \<open>The links tab\<close>

definition LIST_CHUNK :: nat where "LIST_CHUNK = 100"

function chunk :: "'a list \<Rightarrow> nat \<Rightarrow> 'a list list" where
  "chunk items n = (if items = [] \<or> n = 0 then [] else take n items # chunk (drop n items) n)"
  by auto
termination
  by (relation "measure (\<lambda>(items, n). length items)") auto

declare chunk.simps [simp del]

text \<open>A batch that fails leaves its ids absent.\<close>

definition add_batch :: "web_env \<Rightarrow> string list \<Rightarrow> (string, list_result) js_map \<Rightarrow> (string, list_result) js_map" where
  "add_batch env batch m =
     (case web_listMessages env batch of
        Inl e \<Rightarrow> m
      | Inr results \<Rightarrow> fold (\<lambda>r m. map_set (result_id r) r m) results m)"

definition fetchServerMap :: "web_env \<Rightarrow> string list \<Rightarrow> (string, list_result) js_map" where
  "fetchServerMap env ids = fold (add_batch env) (chunk ids LIST_CHUNK) []"

text \<open>The hook's state; a read of the store may reject.\<close>

record links_hook =
  lh_raw :: "display_link list"
  lh_revoked :: "string list"
  lh_loading :: bool
  lh_error :: bool

definition links_start :: links_hook where
  "links_start = \<lparr>lh_raw = [], lh_revoked = [], lh_loading = True, lh_error = False\<rparr>"

definition refresh_links :: "(string \<Rightarrow> int option) \<Rightarrow> web_env \<Rightarrow> int \<Rightarrow> web_links option \<Rightarrow> links_hook \<Rightarrow> links_hook" where
  "refresh_links parse env now st h =
     (case st of
        None \<Rightarrow> h\<lparr>lh_loading := False, lh_error := True\<rparr>
      | Some s \<Rightarrow>
          let records = web_listSentLinks s;
              serverMap = (if length records = 0 then [] else fetchServerMap env (map wl_id records))
          in h\<lparr>lh_raw := map (\<lambda>r. reconcileLink parse r (map_get serverMap (wl_id r)) now) records,
               lh_loading := False, lh_error := False\<rparr>)"

definition revoke_token :: "web_links option \<Rightarrow> links_hook \<Rightarrow> string \<Rightarrow> string option" where
  "revoke_token st h i =
     (case (case List.find (\<lambda>l. wl_id (dl_record l) = i) (lh_raw h) of
              Some l \<Rightarrow> Some (dl_record l)
            | None \<Rightarrow> (case st of None \<Rightarrow> None | Some s \<Rightarrow> web_getSentLink i s)) of
        None \<Rightarrow> None
      | Some r \<Rightarrow> wl_revocationToken r)"

definition revoke_shown :: "web_env \<Rightarrow> web_links option \<Rightarrow> string \<Rightarrow> links_hook \<Rightarrow> revoke_result \<times> links_hook" where
  "revoke_shown env st i h =
     (case web_revokeLink env i (revoke_token st h i) of
        Inr _ \<Rightarrow> (RevokedResult, h\<lparr>lh_revoked := List.insert i (lh_revoked h)\<rparr>)
      | Inl e \<Rightarrow>
          if classifyApiError (Some e) = KNotFound \<or> classifyApiError (Some e) = KGone
          then (RevokedResult, h\<lparr>lh_revoked := List.insert i (lh_revoked h)\<rparr>)
          else (ErrorResult, h))"

definition shown_links :: "links_hook \<Rightarrow> display_link list" where
  "shown_links h =
     map (\<lambda>l. if wl_id (dl_record l) \<in> set (lh_revoked h) then l\<lparr>dl_status := DRevoked\<rparr> else l) (lh_raw h)"

section \<open>Revoke, then wipe\<close>

definition web_selectLiveTrackedLinks :: "(string \<Rightarrow> int option) \<Rightarrow> web_link list \<Rightarrow> int \<Rightarrow> link_ref list" where
  "web_selectLiveTrackedLinks parse records now =
     map (\<lambda>r. \<lparr>lr_id = wl_id r, lr_label = wl_label r\<rparr>)
       (filter (\<lambda>r. case parse (wl_expiresAt r) of None \<Rightarrow> False | Some t \<Rightarrow> t > now) records)"

definition isAlreadyGoneRevokeError :: "web_error \<Rightarrow> bool" where
  "isAlreadyGoneRevokeError e = (e = WebApiError 404 \<or> e = WebApiError 410)"

record web_wipe_result =
  ww_wiped :: bool
  ww_revokedCount :: nat
  ww_failures :: "(link_ref \<times> web_error) list"

primrec web_revoke_loop :: "(string \<Rightarrow> 'w \<Rightarrow> (web_error + unit) \<times> 'w) \<Rightarrow> link_ref list \<Rightarrow> nat \<times> (link_ref \<times> web_error) list \<times> 'w
    \<Rightarrow> nat \<times> (link_ref \<times> web_error) list \<times> 'w" where
  "web_revoke_loop revoke [] acc = acc"
| "web_revoke_loop revoke (l # ls) acc =
     (case acc of (n, fs, w) \<Rightarrow>
        (case revoke (lr_id l) w of
           (Inr _, w') \<Rightarrow> web_revoke_loop revoke ls (n + 1, fs, w')
         | (Inl e, w') \<Rightarrow>
             if isAlreadyGoneRevokeError e then web_revoke_loop revoke ls (n + 1, fs, w')
             else web_revoke_loop revoke ls (n, fs @ [(l, e)], w')))"

text \<open>The wipe itself may reject; then the call rejects with what it left.\<close>

definition web_revokeAllThenWipe :: "(string \<Rightarrow> 'w \<Rightarrow> (web_error + unit) \<times> 'w) \<Rightarrow> ((link_ref \<times> web_error) list \<Rightarrow> bool)
    \<Rightarrow> ('w \<Rightarrow> ('e + unit) \<times> 'w) \<Rightarrow> link_ref list \<Rightarrow> 'w \<Rightarrow> ('e + web_wipe_result) \<times> 'w" where
  "web_revokeAllThenWipe revoke confirm wipe ls w =
     (case web_revoke_loop revoke ls (0, [], w) of
        (n, fs, w') \<Rightarrow>
          if length fs > 0 \<and> \<not> confirm fs then (Inr \<lparr>ww_wiped = False, ww_revokedCount = n, ww_failures = fs\<rparr>, w')
          else (case wipe w' of
                  (Inl e, w'') \<Rightarrow> (Inl e, w'')
                | (Inr _, w'') \<Rightarrow> (Inr \<lparr>ww_wiped = True, ww_revokedCount = n, ww_failures = fs\<rparr>, w'')))"

text \<open>One transaction per store; \<open>commits\<close> tells which of the five commit.\<close>

definition clear_store :: "'r object_store \<Rightarrow> unit + (unit \<times> 'r object_store)" where
  "clear_store s = Inr ((), [])"

definition delete_primary :: "'r object_store \<Rightarrow> unit + (unit \<times> 'r object_store)" where
  "delete_primary s = Inr ((), os_delete ''primary'' s)"

fun wipe_stores :: "(bool \<times> string \<times> ('r object_store \<Rightarrow> unit + (unit \<times> 'r object_store))) list \<Rightarrow> 'r idb
    \<Rightarrow> (unit tx_error + unit) \<times> 'r idb" where
  "wipe_stores [] db = (Inr (), db)"
| "wipe_stores ((commits, name, fn) # steps) db =
     (case withStore commits name fn db of
        (Inl e, db') \<Rightarrow> (Inl e, db')
      | (Inr _, db') \<Rightarrow> wipe_stores steps db')"

definition wipeAllLocalStores :: "(string \<Rightarrow> bool) \<Rightarrow> 'r idb \<Rightarrow> (unit tx_error + unit) \<times> 'r idb" where
  "wipeAllLocalStores commits db =
     wipe_stores
       [(commits IDENTITY_STORE, IDENTITY_STORE, delete_primary), (commits RETIRED_STORE, RETIRED_STORE, clear_store),
        (commits SETTINGS_STORE, SETTINGS_STORE, clear_store), (commits SENT_LINKS_STORE, SENT_LINKS_STORE, clear_store),
        (commits CONTACTS_STORE, CONTACTS_STORE, clear_store)] db"

text \<open>
  The glue of settings/use-local-wipe.ts: the tracked links still live are revoked with their stored tokens,
  the stores are purged, and the identity context drops its key (\<open>wipeIdentity\<close>). The world is the list of
  the revokes issued and the database.
\<close>

datatype web_row = LinkRow web_link | OtherRow json

definition link_row :: "web_row \<Rightarrow> web_link option" where
  "link_row row = (case row of LinkRow r \<Rightarrow> Some r | OtherRow j \<Rightarrow> None)"

definition stored_links :: "web_row idb \<Rightarrow> web_link list" where
  "stored_links db = (case db SENT_LINKS_STORE of None \<Rightarrow> [] | Some s \<Rightarrow> sort_by web_newest_first (List.map_filter link_row (os_getAll s)))"

type_synonym wipe_world = "(string \<times> string option) list \<times> web_row idb"

definition tokenById :: "web_link list \<Rightarrow> (string, string option) js_map" where
  "tokenById records = fold (\<lambda>r m. map_set (wl_id r) (wl_revocationToken r) m) records []"

definition revoke_tracked :: "web_env \<Rightarrow> web_link list \<Rightarrow> string \<Rightarrow> wipe_world \<Rightarrow> (web_error + unit) \<times> wipe_world" where
  "revoke_tracked env records i w =
     (let token = (case map_get (tokenById records) i of None \<Rightarrow> None | Some t \<Rightarrow> t)
      in (web_revokeLink env i token, (fst w @ [(i, token)], snd w)))"

definition purge_device :: "(string \<Rightarrow> bool) \<Rightarrow> (web_row idb \<Rightarrow> (unit tx_error + unit) \<times> web_row idb) \<Rightarrow> wipe_world
    \<Rightarrow> (unit tx_error + unit) \<times> wipe_world" where
  "purge_device commits wipeIdentity w =
     (case wipeAllLocalStores commits (snd w) of
        (Inl e, db) \<Rightarrow> (Inl e, (fst w, db))
      | (Inr _, db) \<Rightarrow> (case wipeIdentity db of (q, db') \<Rightarrow> (q, (fst w, db'))))"

definition local_wipe :: "(string \<Rightarrow> int option) \<Rightarrow> web_env \<Rightarrow> int \<Rightarrow> ((link_ref \<times> web_error) list \<Rightarrow> bool) \<Rightarrow> (string \<Rightarrow> bool)
    \<Rightarrow> (web_row idb \<Rightarrow> (unit tx_error + unit) \<times> web_row idb) \<Rightarrow> web_row idb \<Rightarrow> (unit tx_error + web_wipe_result) \<times> wipe_world" where
  "local_wipe parse env now confirm commits wipeIdentity db =
     (let records = stored_links db; live = web_selectLiveTrackedLinks parse records now
      in web_revokeAllThenWipe (revoke_tracked env records) confirm (purge_device commits wipeIdentity) live ([], db))"

end
