(* ===== verification/Web_Messages.thy ===== *)
theory Web_Messages
  imports Web_Links Mobile_Composer Retired_Keys
begin

text \<open>
  Creating and reading a message in the web client: apps/webapp/src/create/create-and-seal.ts,
  reader/open-and-decrypt.ts, reader/reader-error.ts and lib/base64.ts. The sealing steps, the binding
  context and what a reading yields are those of the mobile client (\<open>Mobile_Composer\<close>, \<open>Mobile_Reader\<close>);
  the keys tried are the active and the retired ones.
\<close>

section \<open>base64 in the browser\<close>

text \<open>\<open>String.fromCharCode\<close> and btoa on the whole text, however it is chunked.\<close>

definition web_bytesToBase64 :: "bytes \<Rightarrow> string" where
  "web_bytesToBase64 bs = btoa bs"

definition web_bytesToBase64Url :: "bytes \<Rightarrow> string" where
  "web_bytesToBase64Url bs =
     strip_eq (map (\<lambda>c. if c = CHR ''+'' then CHR ''-'' else if c = CHR ''/'' then CHR ''_'' else c) (web_bytesToBase64 bs))"

text \<open>None: atob throws.\<close>

definition web_base64ToBytes :: "string \<Rightarrow> bytes option" where
  "web_base64ToBytes s = atob (map (\<lambda>c. if c = CHR ''-'' then CHR ''+'' else if c = CHR ''_'' then CHR ''/'' else c) s)"

definition web_generateLinkId :: "bytes \<Rightarrow> string" where
  "web_generateLinkId random = web_bytesToBase64Url random"

section \<open>Creating\<close>

definition web_seal_context :: "string \<Rightarrow> seal_input \<Rightarrow> binding_context" where
  "web_seal_context i inp =
     \<lparr>linkId = i, recipientPublicKey = si_recipient inp, createdAtMs = None, expiresAtMs = num (si_expiresAt inp),
      maxOpens = si_maxOpens inp\<rparr>"

definition web_seal_payload :: "seal_input \<Rightarrow> payload" where
  "web_seal_payload inp =
     \<lparr>msg_text = si_message inp, attachments = (case si_attachment inp of None \<Rightarrow> [] | Some a \<Rightarrow> [a])\<rparr>"

datatype web_failure = WebClient web_error | WebCrypto crypto_error | WebOther

definition web_client_err :: "web_error + 'a \<Rightarrow> web_failure + 'a" where
  "web_client_err r = (case r of Inl e \<Rightarrow> Inl (WebClient e) | Inr x \<Rightarrow> Inr x)"

definition web_crypto_err :: "crypto_error + 'a \<Rightarrow> web_failure + 'a" where
  "web_crypto_err r = (case r of Inl e \<Rightarrow> Inl (WebCrypto e) | Inr x \<Rightarrow> Inr x)"

text \<open>Steps 1 to 6: everything before the network.\<close>

definition web_prepare :: "('pub, 'priv) hpke_suite \<Rightarrow> seal_platform \<Rightarrow> seal_input \<Rightarrow> crypto_error + (string \<times> string \<times> bytes)" where
  "web_prepare S P inp =
     and_then (importPublicKey S (si_recipient inp)) (\<lambda>recipient.
     and_then (fingerprint (sha256 S) (si_recipient inp)) (\<lambda>recipientFingerprint.
       let i = web_generateLinkId (sp_id_bytes P) in
       and_then (encodePayload (web_seal_payload inp)) (\<lambda>plaintext.
       and_then (seal S (sp_seal_bytes P) plaintext recipient (web_seal_context i inp)) (\<lambda>ciphertext.
         Inr (i, recipientFingerprint, ciphertext)))))"

definition web_create_request :: "seal_platform \<Rightarrow> seal_input \<Rightarrow> string \<Rightarrow> bytes \<Rightarrow> create_request" where
  "web_create_request P inp i ciphertext =
     \<lparr>cq_id = i, cq_ciphertext = web_bytesToBase64 ciphertext, cq_expiresAt = sp_iso P (si_expiresAt inp), cq_maxOpens = si_maxOpens inp\<rparr>"

definition web_sent_record :: "seal_platform \<Rightarrow> seal_input \<Rightarrow> string \<Rightarrow> string \<Rightarrow> web_created \<Rightarrow> web_link" where
  "web_sent_record P inp i fp resp =
     \<lparr>wl_id = i, wl_fingerprint = fp, wl_createdAt = sp_iso P (sp_now P), wl_expiresAt = sp_iso P (si_expiresAt inp),
      wl_maxOpens = si_maxOpens inp, wl_label = si_label inp, wl_revocationToken = Some (wcr_token resp), wl_url = Some (wcr_url resp)\<rparr>"

definition web_createAndSeal :: "('pub, 'priv) hpke_suite \<Rightarrow> seal_platform \<Rightarrow> web_env \<Rightarrow> seal_input \<Rightarrow> web_links
    \<Rightarrow> (web_failure + seal_output) \<times> web_links" where
  "web_createAndSeal S P env inp st =
     (case web_prepare S P inp of
        Inl e \<Rightarrow> (Inl (WebCrypto e), st)
      | Inr (i, fp, ciphertext) \<Rightarrow>
          (case web_postMessage env (web_create_request P inp i ciphertext) of
             Inl e \<Rightarrow> (Inl (WebClient e), st)
           | Inr resp \<Rightarrow>
               (Inr \<lparr>so_id = i, so_url = wcr_url resp, so_fingerprint = fp\<rparr>,
                if sp_store_writes P then web_recordSentLink (web_sent_record P inp i fp resp) st else st)))"

section \<open>Reading\<close>

text \<open>
  One key's attempt. \<open>fingerprint\<close> and \<open>open\<close> fail with errors of the crypto package, on which the fallback
  decides.
\<close>

definition web_attempt :: "('pub, 'priv) hpke_suite \<Rightarrow> (string \<Rightarrow> int option) \<Rightarrow> open_response \<Rightarrow> string \<Rightarrow> bytes
    \<Rightarrow> ('pub, 'priv) identity_impl \<Rightarrow> crypto_error + (payload \<times> string)" where
  "web_attempt S parse response i ciphertext key =
     (let ownPublicKey = exportPublicKey key in
      and_then (open_sealed S ciphertext key (response_context parse response ownPublicKey i)) (\<lambda>plaintextBytes.
        let payload = decodePayload plaintextBytes in
        and_then (fingerprint (sha256 S) ownPublicKey) (\<lambda>recipientFingerprint. Inr (payload, recipientFingerprint))))"

definition openAndDecrypt :: "('pub, 'priv) hpke_suite \<Rightarrow> (string \<Rightarrow> int option) \<Rightarrow> web_env \<Rightarrow> ('pub, 'priv) identity_impl list
    \<Rightarrow> string \<Rightarrow> web_failure + reader_output" where
  "openAndDecrypt S parse env ks i =
     and_then (web_client_err (web_openMessage env i)) (\<lambda>response.
     case web_base64ToBytes (or_ciphertext response) of
       None \<Rightarrow> Inl WebOther
     | Some ciphertext \<Rightarrow>
         and_then (web_crypto_err (decryptWithKeyFallback ks (web_attempt S parse response i ciphertext))) (\<lambda>(payload, fp).
           Inr \<lparr>ro_text = msg_text payload, ro_attachments = attachments payload, ro_fingerprint = fp,
                ro_opensCount = or_opensCount response, ro_maxOpens = or_maxOpens response, ro_status = or_status response\<rparr>))"

section \<open>Errors\<close>

datatype web_reader_outcome = WGone | WInvalid | WNetwork | WFailed

definition web_isDecryptionFailure :: "web_failure \<Rightarrow> bool" where
  "web_isDecryptionFailure err =
     (case err of WebCrypto (DecryptionError m) \<Rightarrow> True | WebCrypto BadPassphraseError \<Rightarrow> True | _ \<Rightarrow> False)"

definition isInvalidFormat :: "web_failure \<Rightarrow> bool" where
  "isInvalidFormat err = (case err of WebCrypto (InvalidFormatError m) \<Rightarrow> True | _ \<Rightarrow> False)"

definition web_classifyReaderError :: "web_failure \<Rightarrow> web_reader_outcome" where
  "web_classifyReaderError err =
     (if web_isDecryptionFailure err then WFailed
      else if isInvalidFormat err then WInvalid
      else case err of
             WebClient (WebMalformedResponseError m) \<Rightarrow> WInvalid
           | WebClient (WebApiError st) \<Rightarrow>
               if st = 410 \<or> st = 404 then WGone else if st = 400 then WInvalid else WNetwork
           | _ \<Rightarrow> WNetwork)"

end
