(* ===== verification/Web_Links_Laws.thy ===== *)
theory Web_Links_Laws
  imports Web_Links End_To_End
begin

text \<open>
  What holds of the sender's links in the two clients: the tracking stores refine one map, the statuses the
  web client shows follow from what the server holds, its bulk fetch is complete where the mobile client's
  is not, and a wipe comes after the revocations.
\<close>

section \<open>Tracking stores\<close>

datatype 'r track_op = Track 'r | Forget string | Forget_All

fun spec_track :: "('r \<Rightarrow> string) \<Rightarrow> 'r track_op \<Rightarrow> (string \<Rightarrow> 'r option) \<Rightarrow> string \<Rightarrow> 'r option" where
  "spec_track key (Track r) m = m(key r \<mapsto> r)"
| "spec_track key (Forget i) m = m(i := None)"
| "spec_track key Forget_All m = Map.empty"

fun track_step :: "('r \<Rightarrow> 's \<Rightarrow> 's) \<Rightarrow> (string \<Rightarrow> 's \<Rightarrow> 's) \<Rightarrow> ('s \<Rightarrow> 's) \<Rightarrow> 'r track_op \<Rightarrow> 's \<Rightarrow> 's" where
  "track_step track forget clear (Track r) s = track r s"
| "track_step track forget clear (Forget i) s = forget i s"
| "track_step track forget clear Forget_All s = clear s"

locale tracking_store =
  fixes key :: "'r \<Rightarrow> string" and track :: "'r \<Rightarrow> 's \<Rightarrow> 's" and forget :: "string \<Rightarrow> 's \<Rightarrow> 's" and clear :: "'s \<Rightarrow> 's"
    and lookup :: "string \<Rightarrow> 's \<Rightarrow> 'r option" and enum :: "'s \<Rightarrow> 'r list" and inv :: "'s \<Rightarrow> bool"
  assumes lookup_track: "inv s \<Longrightarrow> inv (track r s) \<and> lookup i (track r s) = (if i = key r then Some r else lookup i s)"
    and lookup_forget: "inv s \<Longrightarrow> inv (forget j s) \<and> lookup i (forget j s) = (if i = j then None else lookup i s)"
    and lookup_clear: "inv s \<Longrightarrow> inv (clear s) \<and> lookup i (clear s) = None"
    and enum_lookup: "inv s \<Longrightarrow> r \<in> set (enum s) \<longleftrightarrow> lookup (key r) s = Some r"
begin

lemma step_refines:
  assumes "inv s"
  shows "inv (track_step track forget clear p s)
    \<and> (\<lambda>i. lookup i (track_step track forget clear p s)) = spec_track key p (\<lambda>i. lookup i s)"
  using assms by (cases p) (auto simp: lookup_track lookup_forget lookup_clear fun_eq_iff)

lemma run_refines:
  assumes "inv s"
  shows "inv (fold (track_step track forget clear) ps s)
    \<and> (\<lambda>i. lookup i (fold (track_step track forget clear) ps s)) = fold (spec_track key) ps (\<lambda>i. lookup i s)"
  using assms
proof (induction ps arbitrary: s)
  case (Cons p ps)
  from step_refines [OF Cons.prems, of p] have step: "inv (track_step track forget clear p s)"
    "(\<lambda>i. lookup i (track_step track forget clear p s)) = spec_track key p (\<lambda>i. lookup i s)" by blast+
  show ?case using Cons.IH [OF step(1)] unfolding step(2) by simp
qed simp

end

lemma map_set_member: "(k, v) \<in> set (map_set i x m) \<Longrightarrow> (k, v) = (i, x) \<or> (k, v) \<in> set m"
  by (induction m) (auto split: if_splits)

interpretation device: tracking_store sl_id recordSentLink deleteSentLink clearSentLinks getSentLink listSentLinks
    "\<lambda>st. map_ok (readMap st) \<and> list_all (\<lambda>(k, r). sl_id r = k) (readMap st)"
proof (unfold_locales, goal_cases)
  case (1 s r i)
  then show ?case by (auto simp: recordSentLink_def getSentLink_def list_all_iff dest!: map_set_member)
next
  case (2 s j i)
  have "list_all P (map_del j m)" if "list_all P m" for P and m :: "(string, sent_link) js_map"
    using that by (auto simp: list_all_iff AList.delete_eq)
  then have "map_ok (readMap (deleteSentLink j s)) \<and> list_all (\<lambda>(k, r). sl_id r = k) (readMap (deleteSentLink j s))"
    using 2 map_ok_del [of "readMap s" j] by (auto simp: deleteSentLink_def)
  then show ?case by simp
next
  case (3 s i)
  then show ?case by (simp add: clearSentLinks_def getSentLink_def)
next
  case (4 s r)
  show ?case
  proof
    assume "r \<in> set (listSentLinks s)"
    then obtain k where "(k, r) \<in> set (readMap s)" by (auto simp: listSentLinks_def)
    moreover from this have "sl_id r = k" using 4 by (auto simp: list_all_iff)
    ultimately show "getSentLink (sl_id r) s = Some r" using 4 by (simp add: getSentLink_def)
  next
    assume "getSentLink (sl_id r) s = Some r"
    then have "(sl_id r, r) \<in> set (readMap s)" by (simp add: getSentLink_def map_of_SomeD)
    then show "r \<in> set (listSentLinks s)" by (auto simp: listSentLinks_def intro: rev_image_eqI)
  qed
qed

interpretation browser: tracking_store wl_id web_recordSentLink web_deleteSentLink web_clearSentLinks web_getSentLink
    web_listSentLinks "os_ok wl_id"
proof (unfold_locales, goal_cases)
  case (1 s r i)
  then show ?case
    by (simp add: web_recordSentLink_def web_getSentLink_def os_put_ok) (simp add: os_ok_def)
next
  case (2 s j i)
  then show ?case by (simp add: web_deleteSentLink_def web_getSentLink_def os_delete_ok)
next
  case (3 s i)
  then show ?case by (simp add: web_clearSentLinks_def web_getSentLink_def os_ok_def os_get_def)
next
  case (4 s r)
  then show ?case by (simp add: web_listSentLinks_def web_getSentLink_def os_getAll_members)
qed

text \<open>
  In the browser every call of the tracking store is one IndexedDB transaction, so whatever overlaps, the
  calls take effect one after the other, on a map from ids to records that the list shows.
\<close>

lemma browser_tracking:
  assumes "os_ok wl_id s"
  shows "(\<lambda>i. web_getSentLink i (fold (track_step web_recordSentLink web_deleteSentLink web_clearSentLinks) ps s))
      = fold (spec_track wl_id) ps (\<lambda>i. web_getSentLink i s)
    \<and> (r \<in> set (web_listSentLinks (fold (track_step web_recordSentLink web_deleteSentLink web_clearSentLinks) ps s))
       \<longleftrightarrow> fold (spec_track wl_id) ps (\<lambda>i. web_getSentLink i s) (wl_id r) = Some r)"
  using browser.run_refines [OF assms, of ps]
    browser.enum_lookup [of "fold (track_step web_recordSentLink web_deleteSentLink web_clearSentLinks) ps s" r]
  by (metis (mono_tags, lifting))

definition demo_link :: web_link where
  "demo_link = \<lparr>wl_id = ''AAAAAAAAAAAAAAAA'', wl_fingerprint = ''AM'', wl_createdAt = ''2026'', wl_expiresAt = ''2027'',
     wl_maxOpens = num 1, wl_label = None, wl_revocationToken = Some ''t'', wl_url = None\<rparr>"

section \<open>What the statuses mean\<close>

lemma within_Some: "within_ms parse s now ms \<longleftrightarrow> (\<exists>t. parse s = Some t \<and> t - now \<le> ms)"
  by (auto simp: within_ms_def split: option.splits)

lemma num_ge_num [simp]: "num_ge (num a) (num b) \<longleftrightarrow> b \<le> a"
  by (auto simp: num_ge_def) (auto simp: num_def)

lemma listed_not_opened_out:
  assumes "d_links d = pg_ops" "pg_inv db" "store_ok (pg_abs db)"
  shows "dl_status (reconcileLink parse r (Some (listed d now db i)) t) \<noteq> DOpenedOut"
proof -
  have "lm_maxOpens m = -1 \<or> lm_opensCount m < lm_maxOpens m" if "get_link pg_ops i db = Some m" "lm_status m = Active" for m
  proof -
    from that(1) pg.get_sim [OF assms(2)] obtain e where "pg_abs db i = Some e" "m = e_meta e" by auto
    then show ?thesis using store_ok_D [OF assms(3)] that(2) by (auto simp: entry_ok_def Let_def)
  qed
  then have "\<not> (lm_maxOpens m \<noteq> -1 \<and> lm_maxOpens m \<le> lm_opensCount m)" if "get_link pg_ops i db = Some m" "lm_status m = Active" for m
    using that by force
  then show ?thesis
    by (auto simp: listed_def assms(1) reconcileLink_def Let_def split: option.split)
qed

text \<open>
  The web client cannot tell a link that was opened out from one that was revoked. Over the Postgres
  store the status "opened out" is never shown for an answer of the server, and a link whose last open has
  just been granted, and whose expiry is in the future, is shown as revoked although nobody revoked it.
\<close>

theorem opened_out_reads_revoked:
  assumes "d_links d = pg_ops" "pg_inv db" "store_ok (pg_abs db)"
    "pg_incrementOpens t i db = (Some m, db')" "lm_maxOpens m = lm_opensCount m"
    "parse (wl_expiresAt r) = Some e" "now < e"
  shows "dl_status (reconcileLink parse r (Some (listed d t' db' i)) now) = DRevoked
    \<and> dl_status (reconcileLink parse r (Some (listed d t' db' j)) now) \<noteq> DOpenedOut"
proof -
  have sim: "spec_increment t i (pg_abs db) = (Some m, pg_abs db')" "pg_inv db'"
    using pg.increment_sim [of db t i "Some m" db'] assms(2,4) by (auto simp: pg_ops_def)
  then obtain e1 e2 where e: "pg_abs db i = Some e1" "open_entry t e1 = Some e2" "pg_abs db' = (pg_abs db)(i \<mapsto> e2)" "m = e_meta e2"
    by (auto simp: spec_increment_def bind_eq_Some_conv split: option.splits)
  have ok: "entry_ok e2" using open_entry_ok [OF e(2)] store_ok_D [OF assms(3) e(1)] by simp
  have "0 < lm_opensCount m" using open_entry_Some [OF e(2)] store_ok_D [OF assms(3) e(1)] e(4) by (simp add: entry_ok_def Let_def)
  then have "lm_status m \<noteq> Active" using ok assms(5) by (auto simp: entry_ok_def Let_def e(4))
  moreover have "get_link pg_ops i db' = Some m" using pg.get_sim [OF sim(2), of i] e by simp
  ultimately have "listed d t' db' i = ListGone i" by (simp add: listed_def assms(1))
  moreover have "store_ok (pg_abs db')"
    using store_ok_update [OF assms(3) ok, of i] open_entry_Some(6) [OF e(2)] store_ok_D [OF assms(3) e(1)] e(3) by simp
  ultimately show ?thesis
    using listed_not_opened_out [OF assms(1) sim(2)] assms(6,7) by (simp add: reconcileLink_def within_ms_def)
qed

section \<open>The bulk status of many links\<close>

lemma concat_chunk: "0 < n \<Longrightarrow> concat (chunk xs n) = xs"
  by (induction xs n rule: chunk.induct) (simp add: chunk.simps)

lemma chunk_sizes: "b \<in> set (chunk xs n) \<Longrightarrow> b \<noteq> [] \<and> length b \<le> n \<and> set b \<subseteq> set xs"
proof (induction xs n rule: chunk.induct)
  case (1 xs n)
  then show ?case
    by (subst (asm) (2) chunk.simps) (auto split: if_splits dest: in_set_takeD in_set_dropD)
qed

definition list_request :: "string \<Rightarrow> string \<Rightarrow> http_request" where
  "list_request base body =
     \<lparr>hr_method = ''POST'', hr_url = base @ ''/api/messages/list'', hr_headers = json_type_header, hr_body = Some body\<rparr>"

definition ids_json :: "string list \<Rightarrow> json" where
  "ids_json ids = JObj [(''ids'', JArr (map JStr ids))]"

lemma route_list: "match_route ''POST'' ''/api/messages/list'' = Some RList"
  by (simp add: match_route_def)

lemma web_request_list: "raw_body (web_request (fastify_of ip (list_request base body))) = body"
  by (simp add: web_request_def build_headers_def fastify_of_def list_request_def json_type_header_def ascii_upper_def Let_def)

lemma list_answers:
  assumes "list_messages d now req sv = (Inr r, sv')" "res_ok (status_code r)"
  obtains ids where "parseListBody (d_env d) (raw_body req) = Some ids"
    "resp_body r = JObj [(''results'', JArr (map (list_entry d now (store sv)) ids))]"
  using assms by (auto simp: list_messages_def with_limit_def split: prod.splits sum.splits if_splits option.splits)

lemma api_list:
  assumes "api_call sh now minted ip base st (list_request base body) = (Response s (Some j), st')" "res_ok s"
  obtains ids where "parseListBody (d_env (sh_deps sh)) body = Some ids"
    "j = JObj [(''results'', JArr (map (list_entry (sh_deps sh) now (store (fst st))) ids))]"
proof -
  let ?h = "list_messages (sh_deps sh) now (web_request (fastify_of ip (list_request base body))) (fst st)"
  have m: "match_route (hr_method (list_request base body)) (drop (length base) (hr_url (list_request base body))) = Some RList"
    by (simp add: list_request_def route_list)
  obtain out sv' where h: "?h = (out, sv')" by (cases ?h)
  have codes: "\<not> res_ok 413" "\<not> res_ok 500" "rp_status (errorHandler (Some 413)) = 413" "rp_status (errorHandler None) = 500"
    by (simp_all add: res_ok_def errorHandler_def json_reply_def)
  obtain r where r: "out = Inr r" "status_code r = s" "resp_body r = j"
    using assms codes
    by (cases out) (auto simp: api_call_def serve_def m run_route_def Let_def reply_of_def h json_reply_def split: prod.splits if_splits)
  from list_answers [OF h [unfolded r(1)]] r assms(2) show ?thesis
    using that by (auto simp: web_request_list)
qed

lemma those_ids: "those (map json_link_id (map JStr ids)) = Some js \<Longrightarrow> js = ids"
  by (induction ids arbitrary: js) (auto simp: json_link_id_def split: if_splits)

lemma parse_ids:
  assumes "parse_json env raw = Some (ids_json ids)"
  shows "parseListBody env raw = Some js \<Longrightarrow> js = ids \<and> ids \<noteq> [] \<and> length ids \<le> 100"
  using assms those_ids [of ids js]
  by (auto simp: parseListBody_def ids_json_def is_object_def json_prop_def LIST_MAX_IDS_def split: if_splits)

text \<open>What the browser's fetch makes of the server's answer.\<close>

definition web_fetched :: "fetch_result \<Rightarrow> web_fetch" where
  "web_fetched f = (case f of TimedOut \<Rightarrow> Fetch_Rejects True False | Rejected \<Rightarrow> Fetch_Rejects False False | Response s j \<Rightarrow> Fetch_Resolves s j)"

definition list_net :: "('s, 'r) shell \<Rightarrow> int \<Rightarrow> 's \<Rightarrow> (string \<Rightarrow> fetch_result) \<Rightarrow> string \<Rightarrow> bool" where
  "list_net sh now s answer base =
     (\<forall>body. \<exists>minted ip st. store (fst st) = s \<and> answer body = fst (api_call sh now minted ip base st (list_request base body)))"

lemma web_list_truth:
  assumes "list_net sh now s answer (API_ORIGIN env)"
    "\<And>body. web_net env (list_request (API_ORIGIN env) body) = web_fetched (answer body)"
    "parse_json (d_env (sh_deps sh)) (web_stringify env (ids_json ids)) = Some (ids_json ids)"
    "ids \<noteq> []" "web_listMessages env ids = Inr rs"
  shows "rs = map (listed (sh_deps sh) now s) ids"
proof -
  let ?body = "web_stringify env (ids_json ids)"
  obtain minted ip st where st: "store (fst st) = s"
    "answer ?body = fst (api_call sh now minted ip (API_ORIGIN env) st (list_request (API_ORIGIN env) ?body))"
    using assms(1) unfolding list_net_def by blast
  obtain q j where qj: "answer ?body = Response q (Some j)" "res_ok q" "web_validateListMessagesResponse j = Inr rs"
    using assms(5,2) assms(4)
    by (auto simp: web_listMessages_def web_fetchJson_def web_requestWithTimeout_def result_simps list_request_def ids_json_def
        web_fetched_def split: fetch_result.splits if_splits option.splits)
  obtain st' where "api_call sh now minted ip (API_ORIGIN env) st (list_request (API_ORIGIN env) ?body) = (Response q (Some j), st')"
    using st(2) qj(1) by (metis prod.collapse)
  from api_list [OF this qj(2)] obtain ids' where "parseListBody (d_env (sh_deps sh)) ?body = Some ids'"
    "j = JObj [(''results'', JArr (map (list_entry (sh_deps sh) now s) ids'))]" using st(1) by auto
  with parse_ids [OF assms(3)] have "j = JObj [(''results'', JArr (map (list_entry (sh_deps sh) now s) ids))]" by auto
  then show ?thesis using qj(3) lists_read_alike [of j] list_body_validates [of "sh_deps sh" now s ids] by simp
qed

lemma fold_set_get:
  "map_get (fold (\<lambda>r m. map_set (result_id r) r m) (map (listed d now s) ids) m) i =
     (if i \<in> set ids then Some (listed d now s i) else map_get m i)"
proof -
  have "result_id (listed d now s j) = j" for j by (simp add: listed_def split: option.split)
  then show ?thesis by (induction ids arbitrary: m) auto
qed

lemma fetch_batches:
  assumes "\<forall>b \<in> set bs. \<forall>rs. web_listMessages env b = Inr rs \<longrightarrow> rs = map (listed d now s) b"
  shows "map_get (fold (add_batch env) bs m) i \<in> {map_get m i, Some (listed d now s i)}
    \<and> (i \<notin> set (concat bs) \<longrightarrow> map_get (fold (add_batch env) bs m) i = map_get m i)
    \<and> (i \<in> set (concat bs) \<longrightarrow> (\<forall>b \<in> set bs. \<exists>rs. web_listMessages env b = Inr rs) \<longrightarrow>
         map_get (fold (add_batch env) bs m) i = Some (listed d now s i))"
  using assms
proof (induction bs arbitrary: m)
  case (Cons b bs)
  have step: "map_get (add_batch env b m) i \<in> {map_get m i, Some (listed d now s i)}"
    "i \<notin> set b \<Longrightarrow> map_get (add_batch env b m) i = map_get m i"
    "i \<in> set b \<Longrightarrow> web_listMessages env b = Inr rs \<Longrightarrow> map_get (add_batch env b m) i = Some (listed d now s i)" for rs
    using Cons.prems by (auto simp: add_batch_def fold_set_get split: sum.split)
  show ?case
    using Cons.IH [of "add_batch env b m"] Cons.prems step by (cases "i \<in> set (concat bs)") auto
qed simp

text \<open>
  The web client's bulk fetch tells the truth about any number of links. Against the server each id is
  either left out (its batch of at most a hundred failed) or carries what the server holds of it; and when
  no batch fails, no id is left out.
\<close>

theorem bulk_status_complete:
  assumes "list_net sh now s answer (API_ORIGIN env)"
    "\<And>body. web_net env (list_request (API_ORIGIN env) body) = web_fetched (answer body)"
    "\<forall>b \<in> set (chunk ids LIST_CHUNK). parse_json (d_env (sh_deps sh)) (web_stringify env (ids_json b)) = Some (ids_json b)"
  shows "map_get (fetchServerMap env ids) i \<in> {None, Some (listed (sh_deps sh) now s i)}
    \<and> (i \<notin> set ids \<longrightarrow> map_get (fetchServerMap env ids) i = None)
    \<and> (i \<in> set ids \<longrightarrow> (\<forall>b \<in> set (chunk ids LIST_CHUNK). \<exists>rs. web_listMessages env b = Inr rs) \<longrightarrow>
         map_get (fetchServerMap env ids) i = Some (listed (sh_deps sh) now s i))"
proof -
  have "\<forall>b \<in> set (chunk ids LIST_CHUNK). \<forall>rs. web_listMessages env b = Inr rs \<longrightarrow> rs = map (listed (sh_deps sh) now s) b"
    using web_list_truth [OF assms(1,2)] assms(3) chunk_sizes by blast
  from fetch_batches [OF this, of "[]" i] show ?thesis
    by (simp add: fetchServerMap_def concat_chunk LIST_CHUNK_def)
qed

text \<open>
  The mobile client asks for all its links at once, and the server refuses more than a hundred ids: with
  more tracked links than that it never learns the state of any of them. Each reading reports the server as
  unreachable, and a link that was revoked or used up is shown as unknown until its own expiry has passed.
\<close>

theorem many_links_unknown:
  assumes "100 < length (listSentLinks st)" "list_net sh now s answer (BASE_URL env)"
    "\<And>body. net env (list_request (BASE_URL env) body) = answer body"
    "parse_json (d_env (sh_deps sh)) (stringify env (ids_json (map sl_id (listSentLinks st)))) = Some (ids_json (map sl_id (listSentLinks st)))"
  shows "loadAndReconcile parse env t st =
    (map (\<lambda>r. as_local r (if locally_expired parse t r then SGoneStatus else SUnknown)) (listSentLinks st), False)"
proof -
  let ?ids = "map sl_id (listSentLinks st)"
  let ?body = "stringify env (ids_json ?ids)"
  have "\<exists>e. listMessages env ?ids = Inl e"
  proof (rule ccontr)
    assume "\<nexists>e. listMessages env ?ids = Inl e"
    then obtain rs where "listMessages env ?ids = Inr rs" by (cases "listMessages env ?ids") auto
    moreover from this have "requireBaseUrl env = Inr (BASE_URL env)" using assms(1)
      by (auto simp: listMessages_def fetchJson_def requestWithTimeout_def requireBaseUrl_def result_simps split: if_splits)
    ultimately obtain q j where qj: "answer ?body = Response q (Some j)" "res_ok q"
      using assms(1) assms(3) [of ?body]
      by (cases "answer ?body")
        (auto simp: listMessages_def fetchJson_def requestWithTimeout_def result_simps list_request_def ids_json_def
          split: if_splits option.splits)
    obtain minted ip st0 where "answer ?body = fst (api_call sh now minted ip (BASE_URL env) st0 (list_request (BASE_URL env) ?body))"
      using assms(2) unfolding list_net_def by blast
    then obtain st' where "api_call sh now minted ip (BASE_URL env) st0 (list_request (BASE_URL env) ?body) = (Response q (Some j), st')"
      using qj(1) by (metis prod.collapse)
    from api_list [OF this qj(2)] obtain ids' where "parseListBody (d_env (sh_deps sh)) ?body = Some ids'" by blast
    with parse_ids [OF assms(4) this] assms(1) show False by simp
  qed
  then show ?thesis using assms(1) by (auto simp: loadAndReconcile_def reconcileSentLinks_def reconcile_one_def Let_def)
qed

section \<open>Concrete instances\<close>

definition burn_db :: pg_db where
  "burn_db = \<lparr>links = [\<lparr>pl_id = ''AAAAAAAAAAAAAAAA'', pl_status = Active, pl_created_at = None, pl_expires_at = 100,
       pl_max_opens = 1, pl_opens_count = 0, pl_token_hash = Some ''ab'', pl_terminal_at = None\<rparr>],
     link_ciphertexts = [\<lparr>pb_link_id = ''AAAAAAAAAAAAAAAA'', pb_blob = [1], pb_size = 1\<rparr>]\<rparr>"

lemma burn_db_ok: "pg_inv burn_db" "store_ok (pg_abs burn_db)"
  by (auto simp: burn_db_def pg_inv_def pg_abs_def pg_select_def store_ok_def entry_ok_def rowToMeta_def pg_ct_get_def
      split: if_splits)

theorem opened_out_reads_revoked_witness:
  "\<exists>m db'. pg_incrementOpens 5 ''AAAAAAAAAAAAAAAA'' burn_db = (Some m, db') \<and>
     dl_status (reconcileLink (\<lambda>s. Some 100) demo_link (Some (listed (sh_deps (easy_shell JNull)) 6 db' ''AAAAAAAAAAAAAAAA'')) 6) = DRevoked"
proof -
  obtain m db' where run: "pg_incrementOpens 5 ''AAAAAAAAAAAAAAAA'' burn_db = (Some m, db')" "lm_maxOpens m = lm_opensCount m"
    by (simp add: pg_incrementOpens_def burn_db_def Let_def pg_select_def rowToMeta_def sql_count_open_def)
  from opened_out_reads_revoked [OF _ burn_db_ok run, of "sh_deps (easy_shell JNull)" "\<lambda>s. Some 100" demo_link 100 6 6]
  show ?thesis using run(1) by auto
qed

definition three_ids :: "string list" where
  "three_ids = [''AAAAAAAAAAAAAAAA'', ''BBBBBBBBBBBBBBBB'', ''CCCCCCCCCCCCCCCC'']"

definition easy_answer :: "json \<Rightarrow> pg_db \<Rightarrow> string \<Rightarrow> string \<Rightarrow> fetch_result" where
  "easy_answer j db base body =
     fst (api_call (easy_shell j) 6 [] [] base (\<lparr>store = db, limiter = ()\<rparr>, reset) (list_request base body))"

lemma easy_list_net: "list_net (easy_shell j) 6 db (easy_answer j db base) base"
proof -
  have "\<exists>minted ip st. store (fst st) = db \<and>
      easy_answer j db base body = fst (api_call (easy_shell j) 6 minted ip base st (list_request base body))" for body
    by (rule exI [of _ "[]"], rule exI [of _ "[]"], rule exI [of _ "(\<lparr>store = db, limiter = ()\<rparr>, reset)"])
      (simp add: easy_answer_def)
  then show ?thesis by (simp add: list_net_def)
qed

definition easy_browser :: "json \<Rightarrow> pg_db \<Rightarrow> web_env" where
  "easy_browser j db = \<lparr>API_ORIGIN = ''b'', web_net = (\<lambda>hr. web_fetched (easy_answer j db ''b'' (case hr_body hr of None \<Rightarrow> [] | Some b \<Rightarrow> b))),
     web_stringify = (\<lambda>j. [])\<rparr>"

lemma hr_body_list [simp]: "hr_body (list_request base body) = Some body"
  by (simp add: list_request_def)

theorem bulk_status_complete_witness:
  "map_get (fetchServerMap (easy_browser (ids_json three_ids) burn_db) three_ids) ''AAAAAAAAAAAAAAAA''
     \<in> {None, Some (listed (sh_deps (easy_shell (ids_json three_ids))) 6 burn_db ''AAAAAAAAAAAAAAAA'')}"
proof -
  let ?E = "easy_browser (ids_json three_ids) burn_db"
  have "list_net (easy_shell (ids_json three_ids)) 6 burn_db (easy_answer (ids_json three_ids) burn_db ''b'') (API_ORIGIN ?E)"
    using easy_list_net by (simp add: easy_browser_def)
  moreover have "chunk three_ids LIST_CHUNK = [three_ids]"
    by (simp add: chunk.simps LIST_CHUNK_def three_ids_def)
  ultimately show ?thesis
    using bulk_status_complete [of "easy_shell (ids_json three_ids)" 6 burn_db "easy_answer (ids_json three_ids) burn_db ''b''" ?E three_ids]
    by (simp add: easy_browser_def)
qed

definition many_links :: sent_store where
  "many_links = Some (map (\<lambda>n. (show_nat n, \<lparr>sl_id = show_nat n, sl_fingerprint = [], sl_createdAt = [], sl_expiresAt = [],
     sl_maxOpens = num 1, sl_label = None, sl_revocationToken = None, sl_reminder = None\<rparr>)) [0..<101])"

lemma many_links_length: "length (listSentLinks many_links) = 101"
  by (simp add: listSentLinks_def many_links_def)

theorem many_links_unknown_witness:
  "\<exists>env. snd (loadAndReconcile (\<lambda>s. None) env 0 many_links) = False \<and> BASE_URL env = ''b''"
proof -
  define j where "j = ids_json (map sl_id (listSentLinks many_links))"
  define env where "env = easy_client (\<lambda>hr. easy_answer j burn_db ''b'' (case hr_body hr of None \<Rightarrow> [] | Some b \<Rightarrow> b))"
  have net: "list_net (easy_shell j) 6 burn_db (easy_answer j burn_db ''b'') (BASE_URL env)"
    using easy_list_net by (simp add: env_def)
  have "net env (list_request (BASE_URL env) body) = easy_answer j burn_db ''b'' body" for body
    by (simp add: env_def)
  moreover have "parse_json (d_env (sh_deps (easy_shell j))) (stringify env (ids_json (map sl_id (listSentLinks many_links))))
      = Some (ids_json (map sl_id (listSentLinks many_links)))" by (simp add: j_def)
  moreover have "100 < length (listSentLinks many_links)" using many_links_length by simp
  ultimately have "snd (loadAndReconcile (\<lambda>s. None) env 0 many_links) = False"
    using many_links_unknown [OF _ net] by simp
  moreover have "BASE_URL env = ''b''" by (simp add: env_def)
  ultimately show ?thesis by blast
qed

section \<open>Revocation comes before the wipe\<close>

lemma wipe_stores_done:
  "wipeAllLocalStores commits db = (Inr u, db') \<Longrightarrow>
     db' RETIRED_STORE = Some [] \<and> db' SETTINGS_STORE = Some [] \<and> db' SENT_LINKS_STORE = Some [] \<and> db' CONTACTS_STORE = Some []
     \<and> (\<exists>s. db' IDENTITY_STORE = Some s \<and> os_get ''primary'' s = None)"
  by (auto simp: wipeAllLocalStores_def withStore_def clear_store_def delete_primary_def IDENTITY_STORE_def RETIRED_STORE_def
      SETTINGS_STORE_def SENT_LINKS_STORE_def CONTACTS_STORE_def split: option.splits if_splits)

lemma tokens_absent:
  "i \<notin> wl_id ` set rs \<Longrightarrow> map_get (fold (\<lambda>r m. map_set (wl_id r) (wl_revocationToken r) m) rs m) i = map_get m i"
  by (induction rs arbitrary: m) auto

lemma tokenById_get:
  assumes "distinct (map wl_id records)" "r \<in> set records"
  shows "map_get (tokenById records) (wl_id r) = Some (wl_revocationToken r)"
proof -
  have "map_get (fold (\<lambda>r m. map_set (wl_id r) (wl_revocationToken r) m) records m) (wl_id r) = Some (wl_revocationToken r)" for m
    using assms by (induction records arbitrary: m) (auto simp: tokens_absent)
  then show ?thesis by (simp add: tokenById_def)
qed

lemma web_loop_facts:
  assumes "web_revoke_loop (revoke_tracked env records) ls (n, fs, w) = (n', fs', w')"
  shows "snd w' = snd w \<and> fst w' = fst w @ map (\<lambda>l. (lr_id l, case map_get (tokenById records) (lr_id l) of None \<Rightarrow> None | Some t \<Rightarrow> t)) ls
    \<and> n' + length fs' = n + length fs + length ls
    \<and> (\<forall>l \<in> set ls. (\<exists>e. (l, e) \<in> set fs') \<or> (\<exists>u. fst (revoke_tracked env records (lr_id l) w) = Inr u)
         \<or> (\<exists>e. fst (revoke_tracked env records (lr_id l) w) = Inl e \<and> isAlreadyGoneRevokeError e))
    \<and> set fs \<subseteq> set fs'"
  using assms
proof (induction ls arbitrary: n fs w)
  case (Cons l ls)
  have same: "fst (revoke_tracked env records i v) = fst (revoke_tracked env records i w)" for i v
    by (simp add: revoke_tracked_def Let_def)
  obtain q v where q: "revoke_tracked env records (lr_id l) w = (q, v)" by (cases "revoke_tracked env records (lr_id l) w")
  then have v: "snd v = snd w" "fst v = fst w @ [(lr_id l, case map_get (tokenById records) (lr_id l) of None \<Rightarrow> None | Some t \<Rightarrow> t)]"
    by (auto simp: revoke_tracked_def Let_def)
  show ?case
    using Cons.prems Cons.IH [of "n + 1" fs v] Cons.IH [of n "fs @ [(l, e)]" v for e] v same [of _ v]
    by (auto simp: q split: sum.splits if_splits)
qed simp

lemma stored_links_distinct:
  assumes "db SENT_LINKS_STORE = Some s" "os_ok (\<lambda>row. case row of LinkRow r \<Rightarrow> wl_id r | OtherRow j \<Rightarrow> []) s" "\<forall>(k, row) \<in> set s. \<exists>r. row = LinkRow r"
  shows "distinct (map wl_id (stored_links db))"
proof -
  have "map wl_id (List.map_filter link_row (os_getAll s)) = map fst s"
    using assms(2,3) by (induction s) (auto simp: os_getAll_def os_ok_def List.map_filter_simps link_row_def)
  then have "distinct (map wl_id (List.map_filter link_row (os_getAll s)))"
    using assms(2) by (simp add: os_ok_def strict_sorted_iff)
  then have "distinct (map wl_id (sort_by web_newest_first (List.map_filter link_row (os_getAll s))))"
    by (intro card_distinct) (metis distinct_card length_map length_sort_by list.set_map set_sort_by)
  then show ?thesis using assms(1) by (simp add: stored_links_def)
qed

text \<open>
  C33: the web client revokes before it wipes. When the wipe runs to its end, every tracked link that was
  not past its expiry has been sent a revocation with its own token, in the order of the list; the stores
  are empty exactly when the result says so; and it says so only if every revocation was accepted or the
  user consented to the list of those that were not.
\<close>

theorem web_wipe_revokes_first:
  assumes "local_wipe parse env now confirm commits wipeIdentity db = (Inr res, (calls, db'))"
    "distinct (map wl_id (stored_links db))" "wipeIdentity = (\<lambda>db. (Inr (), db))"
  shows "map fst calls = map lr_id (web_selectLiveTrackedLinks parse (stored_links db) now)
    \<and> (\<forall>(i, t) \<in> set calls. \<exists>r \<in> set (stored_links db). wl_id r = i \<and> wl_revocationToken r = t)
    \<and> ww_revokedCount res + length (ww_failures res) = length calls
    \<and> (if ww_wiped res
       then (ww_failures res = [] \<or> confirm (ww_failures res)) \<and> db' SENT_LINKS_STORE = Some [] \<and> db' CONTACTS_STORE = Some []
         \<and> db' RETIRED_STORE = Some [] \<and> (\<exists>s. db' IDENTITY_STORE = Some s \<and> os_get ''primary'' s = None)
       else ww_failures res \<noteq> [] \<and> \<not> confirm (ww_failures res) \<and> db' = db)"
proof -
  let ?live = "web_selectLiveTrackedLinks parse (stored_links db) now"
  obtain n fs w where loop: "web_revoke_loop (revoke_tracked env (stored_links db)) ?live (0, [], ([], db)) = (n, fs, w)"
    by (cases "web_revoke_loop (revoke_tracked env (stored_links db)) ?live (0, [], ([], db))")
  note facts = web_loop_facts [OF loop]
  have calls: "fst w = map (\<lambda>l. (lr_id l, case map_get (tokenById (stored_links db)) (lr_id l) of None \<Rightarrow> None | Some t \<Rightarrow> t)) ?live"
    and w: "snd w = db" and n: "n + length fs = length ?live" using facts by simp_all
  have tokens: "\<exists>r \<in> set (stored_links db). wl_id r = i \<and> wl_revocationToken r = t" if "(i, t) \<in> set (fst w)" for i t
    using that tokenById_get [OF assms(2)] by (auto simp: calls web_selectLiveTrackedLinks_def)
  have same: "map fst (fst w) = map lr_id ?live" by (simp add: calls comp_def)
  show ?thesis
  proof (cases "length fs > 0 \<and> \<not> confirm fs")
    case True
    then have "res = \<lparr>ww_wiped = False, ww_revokedCount = n, ww_failures = fs\<rparr> \<and> calls = fst w \<and> db' = snd w"
      using assms(1) loop by (auto simp: local_wipe_def web_revokeAllThenWipe_def Let_def)
    then show ?thesis using True same tokens w n by (auto simp: calls)
  next
    case False
    then obtain u where p: "purge_device commits wipeIdentity w = (Inr u, (calls, db'))"
      and res: "res = \<lparr>ww_wiped = True, ww_revokedCount = n, ww_failures = fs\<rparr>"
      using assms(1) loop by (auto simp: local_wipe_def web_revokeAllThenWipe_def Let_def split: prod.splits sum.splits)
    then have "calls = fst w" "wipeAllLocalStores commits (snd w) = (Inr (), db')"
      using assms(3) by (auto simp: purge_device_def split: prod.splits sum.splits)
    then show ?thesis using wipe_stores_done [of commits "snd w" "()" db'] False same tokens n res by (auto simp: calls)
  qed
qed

definition wipe_demo_db :: "web_row idb" where
  "wipe_demo_db = (\<lambda>n. if n = SENT_LINKS_STORE then Some [(''AAAAAAAAAAAAAAAA'', LinkRow demo_link)]
     else if n \<in> set store_names then Some [] else None)"

theorem web_wipe_revokes_first_witness:
  "\<exists>res calls db'. local_wipe (\<lambda>s. Some 100) (easy_browser JNull burn_db\<lparr>web_net := (\<lambda>hr. Fetch_Rejects False False)\<rparr>) 5 (\<lambda>fs. False)
       (\<lambda>n. True) (\<lambda>db. (Inr (), db)) wipe_demo_db = (Inr res, (calls, db')) \<and> db' = wipe_demo_db
     \<and> calls = [(''AAAAAAAAAAAAAAAA'', Some ''t'')]"
proof -
  let ?env = "easy_browser JNull burn_db\<lparr>web_net := (\<lambda>hr. Fetch_Rejects False False)\<rparr>"
  have stored: "stored_links wipe_demo_db = [demo_link]"
    by (simp add: stored_links_def wipe_demo_db_def os_getAll_def List.map_filter_simps link_row_def sort_by_def)
  obtain res calls db' where run: "local_wipe (\<lambda>s. Some 100) ?env 5 (\<lambda>fs. False) (\<lambda>n. True) (\<lambda>db. (Inr (), db)) wipe_demo_db = (Inr res, (calls, db'))"
    "\<not> ww_wiped res"
    by (simp add: local_wipe_def stored web_selectLiveTrackedLinks_def demo_link_def web_revokeAllThenWipe_def revoke_tracked_def
        web_revokeLink_def web_requestWithTimeout_def isAlreadyGoneRevokeError_def Let_def)
  from web_wipe_revokes_first [OF run(1)] stored run(2) have
    "db' = wipe_demo_db" "map fst calls = [''AAAAAAAAAAAAAAAA'']" "\<forall>(i, t) \<in> set calls. t = Some ''t''"
    by (auto simp: web_selectLiveTrackedLinks_def demo_link_def)
  moreover from this have "calls = [(''AAAAAAAAAAAAAAAA'', Some ''t'')]" by (auto simp: map_eq_Cons_conv)
  ultimately show ?thesis using run(1) by blast
qed

end
