(* ===== verification/Reader_Flow.thy ===== *)
theory Reader_Flow
  imports Mobile_Reader Retired_Keys
begin

text \<open>
  The flow around the mobile reader, apps/mobile/src/navigation/ReaderFlow.tsx, with the notice on its landing
  (reader/landing-notice.ts) and the biometric gate (reader/decrypt-gate.ts, the probe and the prompt of
  onboarding/biometric-onboarding.ts). The reader is mounted and unmounted with the lock; the open coordinator
  outlives it. Every await is a pending task that remembers the closure it runs in: its mount, link, setting and
  keys. Tasks end in any order, so a sequence of events is one interleaving.
\<close>

section \<open>The notice on the landing\<close>

datatype landing_warning = View_Once | Last_Open

text \<open>The label of the count is the pair of numbers it shows.\<close>

record landing_notice =
  ln_lastView :: bool
  ln_warning :: "landing_warning option"
  ln_opensLabel :: "(js_num \<times> js_num) option"

definition isUnlimited :: "js_num \<Rightarrow> bool" where
  "isUnlimited n = num_less n (num 0)"

text \<open>\<open>Math.max(0, maxOpens - opensCount) <= 1\<close>, on the finite numbers JSON yields.\<close>

definition at_most_one_left :: "js_num \<Rightarrow> js_num \<Rightarrow> bool" where
  "at_most_one_left m n = (case (m, n) of (Fin p, Fin q) \<Rightarrow> max 0 (p - q) \<le> 1 | _ \<Rightarrow> False)"

definition landingNotice :: "message_metadata \<Rightarrow> landing_notice" where
  "landingNotice md =
     (if isUnlimited (mm_maxOpens md) then \<lparr>ln_lastView = False, ln_warning = None, ln_opensLabel = None\<rparr>
      else
        let label = Some (mm_opensCount md, mm_maxOpens md) in
        if mm_maxOpens md = num 1 then \<lparr>ln_lastView = True, ln_warning = Some View_Once, ln_opensLabel = label\<rparr>
        else if at_most_one_left (mm_maxOpens md) (mm_opensCount md)
        then \<lparr>ln_lastView = True, ln_warning = Some Last_Open, ln_opensLabel = label\<rparr>
        else \<lparr>ln_lastView = False, ln_warning = None, ln_opensLabel = label\<rparr>)"

section \<open>The gate\<close>

datatype gate_decision = Gate_Skip | Gate_Prompt | Gate_Unavailable

definition decideDecryptGate :: "bool \<Rightarrow> bool \<Rightarrow> gate_decision" where
  "decideDecryptGate requireUnlock capable =
     (if \<not> requireUnlock then Gate_Skip else if capable then Gate_Prompt else Gate_Unavailable)"

record biometric_capability =
  bc_hasHardware :: bool
  bc_isEnrolled :: bool
  bc_capable :: bool

definition checkBiometricCapability :: "bool \<Rightarrow> bool \<Rightarrow> biometric_capability" where
  "checkBiometricCapability hasHardware isEnrolled =
     \<lparr>bc_hasHardware = hasHardware, bc_isEnrolled = isEnrolled, bc_capable = (hasHardware \<and> isEnrolled)\<rparr>"

section \<open>Decrypting a held response\<close>

definition held_attempt :: "('pub, 'priv) hpke_suite \<Rightarrow> (string \<Rightarrow> int option) \<Rightarrow> open_response \<Rightarrow> string
    \<Rightarrow> ('pub, 'priv) identity_impl \<Rightarrow> crypto_error + reader_output" where
  "held_attempt S parse response i identity =
     (let ownPublicKey = exportPublicKey identity;
          ctx = response_context parse response ownPublicKey i
      in and_then (base64ToBytes (or_ciphertext response)) (\<lambda>ciphertext.
         and_then (open_sealed S ciphertext identity ctx) (\<lambda>plaintextBytes.
         let payload = decodePayload plaintextBytes in
         and_then (fingerprint (sha256 S) ownPublicKey) (\<lambda>recipientFingerprint.
           Inr \<lparr>ro_text = msg_text payload, ro_attachments = attachments payload, ro_fingerprint = recipientFingerprint,
                ro_opensCount = or_opensCount response, ro_maxOpens = or_maxOpens response, ro_status = or_status response\<rparr>))))"

lemma held_attempt_eq: "decryptOpenResponse S parse response k i = crypto (held_attempt S parse response i k)"
  by (simp add: decryptOpenResponse_def held_attempt_def crypto_def Let_def split: sum.splits)

definition decrypt_held :: "('pub, 'priv) hpke_suite \<Rightarrow> (string \<Rightarrow> int option) \<Rightarrow> ('pub, 'priv) identity_impl list \<Rightarrow> open_response \<Rightarrow> string
    \<Rightarrow> reader_error + reader_output" where
  "decrypt_held S parse ks response i = crypto (decryptWithKeyFallback ks (held_attempt S parse response i))"

definition held_state :: "reader_error + reader_output \<Rightarrow> reader_state" where
  "held_state r =
     (case r of
        Inr output \<Rightarrow> Decrypted output
      | Inl err \<Rightarrow> (if classifyReaderError err = Invalid then SInvalid else SFailed))"

section \<open>The state\<close>

record ('pub, 'priv) closure =
  cl_mount :: nat
  cl_id :: string
  cl_require :: bool
  cl_active :: "('pub, 'priv) identity_impl"
  cl_retired :: "('pub, 'priv) identity_impl list"

abbreviation cl_keys :: "('pub, 'priv) closure \<Rightarrow> ('pub, 'priv) identity_impl list" where
  "cl_keys cl \<equiv> cl_active cl # cl_retired cl"

text \<open>Whether an open was asked for by a tap, with the landing's data, or taken up by the effect of a mount.\<close>

datatype via = Via_Tap message_metadata string | Via_Resume

datatype task =
    Load_Metadata
  | Await_Post nat via
  | Probe open_response via
  | Authenticate open_response
  | Decrypt open_response

record ('pub, 'priv) reader_flow =
  rf_closure :: "('pub, 'priv) closure"
  rf_decided :: "string option"
  rf_state :: reader_state

text \<open>
  Beside the state: the outcomes of the POSTs that have settled, the number of mounts, and, for the statements, the
  prompts that were passed (mount and response).
\<close>

record ('pub, 'priv) reader_system =
  sy_co :: "open_response coordinator"
  sy_outcomes :: "nat \<rightharpoonup> reader_error + open_response"
  sy_flow :: "('pub, 'priv) reader_flow option"
  sy_mounts :: nat
  sy_tasks :: "(('pub, 'priv) closure \<times> task) list"
  sy_authed :: "(nat \<times> open_response) list"

definition reader_start :: "('pub, 'priv) reader_system" where
  "reader_start = \<lparr>sy_co = createOpenCoordinator, sy_outcomes = Map.empty, sy_flow = None, sy_mounts = 0, sy_tasks = [],
     sy_authed = []\<rparr>"

definition cancelled :: "('pub, 'priv) closure \<Rightarrow> ('pub, 'priv) reader_system \<Rightarrow> bool" where
  "cancelled cl s = (case sy_flow s of None \<Rightarrow> True | Some f \<Rightarrow> cl_mount (rf_closure f) \<noteq> cl_mount cl)"

definition set_reader :: "('pub, 'priv) closure \<Rightarrow> reader_state \<Rightarrow> ('pub, 'priv) reader_system \<Rightarrow> ('pub, 'priv) reader_system" where
  "set_reader cl st s = (if cancelled cl s then s else s\<lparr>sy_flow := map_option (\<lambda>f. f\<lparr>rf_state := st\<rparr>) (sy_flow s)\<rparr>)"

definition spawn :: "('pub, 'priv) closure \<Rightarrow> task \<Rightarrow> ('pub, 'priv) reader_system \<Rightarrow> ('pub, 'priv) reader_system" where
  "spawn cl t s = s\<lparr>sy_tasks := sy_tasks s @ [(cl, t)]\<rparr>"

section \<open>The operations\<close>

definition decryptHeld :: "('pub, 'priv) closure \<Rightarrow> open_response \<Rightarrow> ('pub, 'priv) reader_system \<Rightarrow> ('pub, 'priv) reader_system" where
  "decryptHeld cl response s = spawn cl (Decrypt response) (set_reader cl Opening s)"

definition proceedAfterOpen :: "('pub, 'priv) closure \<Rightarrow> open_response \<Rightarrow> via \<Rightarrow> ('pub, 'priv) reader_system \<Rightarrow> ('pub, 'priv) reader_system" where
  "proceedAfterOpen cl response v s =
     (if cancelled cl s then s
      else if \<not> cl_require cl then decryptHeld cl response s
      else spawn cl (Probe response v) s)"

definition loadMetadata :: "('pub, 'priv) closure \<Rightarrow> ('pub, 'priv) reader_system \<Rightarrow> ('pub, 'priv) reader_system" where
  "loadMetadata cl s = spawn cl Load_Metadata (set_reader cl Loading s)"

definition metadata_loaded :: "('pub, 'priv) hpke_suite \<Rightarrow> ('pub, 'priv) closure \<Rightarrow> reader_error + message_metadata
    \<Rightarrow> ('pub, 'priv) reader_system \<Rightarrow> ('pub, 'priv) reader_system" where
  "metadata_loaded S cl r s =
     (case and_then r (\<lambda>metadata. and_then (crypto (fingerprint (sha256 S) (exportPublicKey (cl_active cl))))
             (\<lambda>myFingerprint. Inr (metadata, myFingerprint))) of
        Inr (metadata, myFingerprint) \<Rightarrow> set_reader cl (Landing metadata myFingerprint) s
      | Inl err \<Rightarrow>
          set_reader cl (case classifyReaderError err of
             NetworkOutcome \<Rightarrow> SNetwork None None | Invalid \<Rightarrow> SInvalid | _ \<Rightarrow> SGone) s)"

definition open_failed :: "via \<Rightarrow> reader_error \<Rightarrow> reader_state" where
  "open_failed v err =
     (case (v, classifyReaderError err) of
        (_, Gone) \<Rightarrow> SGone
      | (_, Invalid) \<Rightarrow> SInvalid
      | (Via_Tap m f, NetworkOutcome) \<Rightarrow> SNetwork (Some m) (Some f)
      | (Via_Tap m f, _) \<Rightarrow> SFailed
      | (Via_Resume, _) \<Rightarrow> SNetwork None None)"

definition tryOpen :: "('pub, 'priv) closure \<Rightarrow> message_metadata \<Rightarrow> string \<Rightarrow> ('pub, 'priv) reader_system \<Rightarrow> ('pub, 'priv) reader_system" where
  "tryOpen cl metadata myFingerprint s =
     (let s1 = set_reader cl Opening s; (r, c) = co_begin (cl_id cl) (sy_co s1);
          s2 = s1\<lparr>sy_co := c\<rparr>
      in case r of
           AlreadyHeld response \<Rightarrow> proceedAfterOpen cl response (Via_Tap metadata myFingerprint) s2
         | Started n \<Rightarrow> spawn cl (Await_Post n (Via_Tap metadata myFingerprint)) s2
         | Joined n \<Rightarrow> spawn cl (Await_Post n (Via_Tap metadata myFingerprint)) s2)"

text \<open>The effect of a mount and of a new link; it never issues a POST.\<close>

definition resume_effect :: "('pub, 'priv) reader_system \<Rightarrow> ('pub, 'priv) reader_system" where
  "resume_effect s =
     (case sy_flow s of
        None \<Rightarrow> s
      | Some f \<Rightarrow>
          let cl = rf_closure f in
          if rf_decided f = Some (cl_id cl) then s
          else
            let s1 = s\<lparr>sy_flow := Some (f\<lparr>rf_decided := Some (cl_id cl)\<rparr>)\<rparr> in
            case co_peek (cl_id cl) (sy_co s1) of
              Some se \<Rightarrow>
                (case se_phase se of
                   Held response \<Rightarrow> proceedAfterOpen cl response Via_Resume s1
                 | InFlight \<Rightarrow> spawn cl (Await_Post (se_post se) Via_Resume) (set_reader cl Opening s1))
            | None \<Rightarrow> loadMetadata cl s1)"

definition mount_reader :: "string \<Rightarrow> bool \<Rightarrow> ('pub, 'priv) identity_impl \<Rightarrow> ('pub, 'priv) identity_impl list
    \<Rightarrow> ('pub, 'priv) reader_system \<Rightarrow> ('pub, 'priv) reader_system" where
  "mount_reader i require k rs s =
     resume_effect (s\<lparr>sy_mounts := Suc (sy_mounts s),
       sy_flow := Some \<lparr>rf_closure = \<lparr>cl_mount = sy_mounts s, cl_id = i, cl_require = require, cl_active = k, cl_retired = rs\<rparr>,
                        rf_decided = None, rf_state = Loading\<rparr>\<rparr>)"

definition retryFromNetwork :: "('pub, 'priv) reader_system \<Rightarrow> ('pub, 'priv) reader_system" where
  "retryFromNetwork s =
     (case sy_flow s of
        Some f \<Rightarrow>
          (case rf_state f of
             SNetwork (Some m) (Some (c # cs)) \<Rightarrow> tryOpen (rf_closure f) m (c # cs) s
           | SNetwork m fp \<Rightarrow> loadMetadata (rf_closure f) s
           | _ \<Rightarrow> s)
      | None \<Rightarrow> s)"

text \<open>\<open>onDone\<close> takes the reader off the screen.\<close>

definition finish :: "('pub, 'priv) reader_system \<Rightarrow> ('pub, 'priv) reader_system" where
  "finish s = (case sy_flow s of None \<Rightarrow> s | Some f \<Rightarrow> s\<lparr>sy_co := co_clear (cl_id (rf_closure f)) (sy_co s), sy_flow := None\<rparr>)"

definition has_exit :: "reader_state \<Rightarrow> bool" where
  "has_exit st = (selectScreen st \<noteq> DecryptingScreen)"

section \<open>Events\<close>

text \<open>What a task is given when it goes on; a probe or a prompt that throws yields None or False.\<close>

datatype reply_to =
    Metadata_Reply "reader_error + message_metadata"
  | Probe_Reply "biometric_capability option"
  | Prompt_Reply bool
  | Go_On

datatype ('pub, 'priv) flow_event =
    Mount string bool "('pub, 'priv) identity_impl" "('pub, 'priv) identity_impl list"
  | Unmount
  | New_Link string
  | Setting bool
  | Post_Settles nat "reader_error + open_response"
  | Tap_Open
  | Tap_Retry
  | Tap_Decrypt
  | Tap_Close
  | Goes_On nat reply_to

definition task_goes_on :: "('pub, 'priv) hpke_suite \<Rightarrow> (string \<Rightarrow> int option) \<Rightarrow> ('pub, 'priv) closure \<Rightarrow> task \<Rightarrow> reply_to
    \<Rightarrow> ('pub, 'priv) reader_system \<Rightarrow> ('pub, 'priv) reader_system" where
  "task_goes_on S parse cl t r s =
     (case (t, r) of
        (Load_Metadata, Metadata_Reply m) \<Rightarrow> metadata_loaded S cl m s
      | (Await_Post n v, Go_On) \<Rightarrow>
          (case sy_outcomes s n of
             None \<Rightarrow> s
           | Some (Inr response) \<Rightarrow> proceedAfterOpen cl response v s
           | Some (Inl err) \<Rightarrow> set_reader cl (open_failed v err) s)
      | (Probe response v, Probe_Reply None) \<Rightarrow> set_reader cl (open_failed v OtherError) s
      | (Probe response v, Probe_Reply (Some cap)) \<Rightarrow>
          set_reader cl (Gated response (decideDecryptGate True (bc_capable cap) = Gate_Unavailable)) s
      | (Authenticate response, Prompt_Reply ok) \<Rightarrow>
          (if ok then decryptHeld cl response (s\<lparr>sy_authed := sy_authed s @ [(cl_mount cl, response)]\<rparr>) else s)
      | (Decrypt response, Go_On) \<Rightarrow> set_reader cl (held_state (decrypt_held S parse (cl_keys cl) response (cl_id cl))) s
      | _ \<Rightarrow> s)"

text \<open>Whether the reply is the one the task waits for; a POST is awaited until it has settled.\<close>

definition can_go_on :: "('pub, 'priv) reader_system \<Rightarrow> task \<Rightarrow> reply_to \<Rightarrow> bool" where
  "can_go_on s t r =
     (case (t, r) of
        (Load_Metadata, Metadata_Reply m) \<Rightarrow> True
      | (Await_Post n v, Go_On) \<Rightarrow> sy_outcomes s n \<noteq> None
      | (Probe response v, Probe_Reply c) \<Rightarrow> True
      | (Authenticate response, Prompt_Reply ok) \<Rightarrow> True
      | (Decrypt response, Go_On) \<Rightarrow> True
      | _ \<Rightarrow> False)"

fun flow_step :: "('pub, 'priv) hpke_suite \<Rightarrow> (string \<Rightarrow> int option) \<Rightarrow> ('pub, 'priv) flow_event \<Rightarrow> ('pub, 'priv) reader_system
    \<Rightarrow> ('pub, 'priv) reader_system" where
  "flow_step S parse (Mount i require k rs) s = (if sy_flow s = None then mount_reader i require k rs s else s)"
| "flow_step S parse Unmount s = s\<lparr>sy_flow := None\<rparr>"
| "flow_step S parse (New_Link i) s =
     resume_effect (s\<lparr>sy_flow := map_option (\<lambda>f. f\<lparr>rf_closure := (rf_closure f)\<lparr>cl_id := i\<rparr>\<rparr>) (sy_flow s)\<rparr>)"
| "flow_step S parse (Setting b) s =
     s\<lparr>sy_flow := map_option (\<lambda>f. f\<lparr>rf_closure := (rf_closure f)\<lparr>cl_require := b\<rparr>\<rparr>) (sy_flow s)\<rparr>"
| "flow_step S parse (Post_Settles n r) s =
     (if n < length (co_posts (sy_co s)) \<and> sy_outcomes s n = None
      then s\<lparr>sy_outcomes := (sy_outcomes s)(n \<mapsto> r),
             sy_co := co_settle n (case r of Inr response \<Rightarrow> Some response | Inl err \<Rightarrow> None) (sy_co s)\<rparr>
      else s)"
| "flow_step S parse Tap_Open s =
     (case sy_flow s of
        Some f \<Rightarrow> (case rf_state f of Landing m fp \<Rightarrow> tryOpen (rf_closure f) m fp s | _ \<Rightarrow> s)
      | None \<Rightarrow> s)"
| "flow_step S parse Tap_Retry s = retryFromNetwork s"
| "flow_step S parse Tap_Decrypt s =
     (case sy_flow s of
        Some f \<Rightarrow> (case rf_state f of Gated response False \<Rightarrow> spawn (rf_closure f) (Authenticate response) s | _ \<Rightarrow> s)
      | None \<Rightarrow> s)"
| "flow_step S parse Tap_Close s =
     (case sy_flow s of Some f \<Rightarrow> (if has_exit (rf_state f) then finish s else s) | None \<Rightarrow> s)"
| "flow_step S parse (Goes_On k r) s =
     (if k < length (sy_tasks s) \<and> can_go_on s (snd (sy_tasks s ! k)) r
      then task_goes_on S parse (fst (sy_tasks s ! k)) (snd (sy_tasks s ! k)) r
             (s\<lparr>sy_tasks := take k (sy_tasks s) @ drop (Suc k) (sy_tasks s)\<rparr>)
      else s)"

definition flow_run :: "('pub, 'priv) hpke_suite \<Rightarrow> (string \<Rightarrow> int option) \<Rightarrow> ('pub, 'priv) flow_event list \<Rightarrow> ('pub, 'priv) reader_system" where
  "flow_run S parse es = fold (flow_step S parse) es reader_start"

end
