(* ===== verification/Web_Messages_Laws.thy ===== *)
theory Web_Messages_Laws
  imports Web_Messages End_To_End Web_Links_Laws Reader_Flow
begin

text \<open>
  The web client's messages: it seals what the mobile client would, a message it sends is read alike by both
  clients (with retired keys in the way), and its error screens keep their promise about the open.
\<close>

section \<open>The two clients seal alike\<close>

lemma web_base64_eq [simp]: "web_bytesToBase64 bs = bytesToBase64 bs"
  by (simp add: web_bytesToBase64_def btoa_eq_bytesToBase64)

lemma web_link_id_eq [simp]: "web_generateLinkId rnd = generateLinkId rnd"
proof -
  have "(\<lambda>c. if c = CHR ''+'' then CHR ''-'' else if c = CHR ''/'' then CHR ''_'' else c) =
      (\<lambda>c. if c = CHR ''/'' then CHR ''_'' else c) \<circ> (\<lambda>c. if c = CHR ''+'' then CHR ''-'' else c)" by auto
  then show ?thesis
    by (simp only: web_generateLinkId_def web_bytesToBase64Url_def web_base64_eq generateLinkId_def bytesToBase64Url_def map_map)
qed

lemma web_prepare_eq: "web_prepare S P inp = fst (prepare_and_encrypt S P inp)"
proof -
  have "web_seal_context = seal_context" "web_seal_payload = seal_payload"
    by (simp_all add: fun_eq_iff web_seal_context_def seal_context_def web_seal_payload_def seal_payload_def)
  then show ?thesis
    by (cases "importPublicKey S (si_recipient inp)"; cases "fingerprint (sha256 S) (si_recipient inp)"; cases "encodePayload (seal_payload inp)")
      (simp_all add: web_prepare_def prepare_and_encrypt_def Let_def)
qed

lemma web_request_eq: "web_create_request P inp i ct = create_request_of P inp i ct"
  by (simp add: web_create_request_def create_request_of_def)

section \<open>Reading in the browser\<close>

lemma web_atob: "web_base64ToBytes (bytesToBase64 bs) = Some bs"
proof -
  have "set (bytesToBase64 bs) \<subseteq> set BASE64_ALPHABET \<union> {CHR ''=''}"
    using set_pack [of BASE64_ALPHABET bs] by (auto simp: bytesToBase64_def pad_eq_count length_alphabets)
  then have "c \<noteq> CHR ''-'' \<and> c \<noteq> CHR ''_''" if "c \<in> set (bytesToBase64 bs)" for c
    using that by (auto simp: BASE64_ALPHABET_def)
  then have "map (\<lambda>c. if c = CHR ''-'' then CHR ''+'' else if c = CHR ''_'' then CHR ''/'' else c) (bytesToBase64 bs) = bytesToBase64 bs"
    by (intro map_idI) auto
  then show ?thesis by (simp add: web_base64ToBytes_def atob_bytesToBase64)
qed

text \<open>The web client's network towards the server, and the requests it sends.\<close>

definition as_client :: "web_env \<Rightarrow> client_env" where
  "as_client env = \<lparr>BASE_URL = API_ORIGIN env, LINK_ORIGIN = [], production = False, net = (\<lambda>hr. TimedOut), stringify = web_stringify env\<rparr>"

lemma as_client_sel [simp]: "BASE_URL (as_client env) = API_ORIGIN env" "stringify (as_client env) = web_stringify env"
  by (simp_all add: as_client_def)

definition web_opened :: "web_env \<Rightarrow> string \<Rightarrow> http_request" where
  "web_opened env i = \<lparr>hr_method = ''POST'', hr_url = API_ORIGIN env @ ''/api/messages/'' @ encodeURIComponent i @ ''/open'', hr_headers = [],
     hr_body = None\<rparr>"

lemma web_posted_Inr:
  assumes "web_postMessage env q = Inr resp"
  obtains s j where "web_net env (posted (as_client env) q) = Fetch_Resolves s (Some j)" "res_ok s"
  using assms
  by (auto simp: web_postMessage_def web_fetchJson_def web_requestWithTimeout_def posted_def result_simps
      split: if_splits web_fetch.splits option.splits)

lemma web_request_web_opened: "raw_body (web_request (fastify_of ip (web_opened env i))) = []"
  by (simp add: web_request_def build_headers_def fastify_of_def web_opened_def Let_def ascii_upper_def)

lemma web_fetched_open:
  assumes "LINK_ID_REGEX i"
    "web_net env (web_opened env i) = web_fetched (fst (api_call sh now minted ip (API_ORIGIN env) st (web_opened env i)))"
    "fst (open_message (sh_deps sh) now i (web_request (fastify_of ip (web_opened env i))) (fst st)) = Inr r" "status_code r = 200"
  shows "web_openMessage env i = web_validateOpenMessageResponse (resp_body r)"
proof -
  have m: "match_route (hr_method (web_opened env i)) (drop (length (API_ORIGIN env)) (hr_url (web_opened env i))) = Some (ROpen i)"
    using route_open [OF assms(1)] by (simp add: web_opened_def encodeURIComponent_id [OF assms(1)])
  obtain sv' where h: "open_message (sh_deps sh) now i (web_request (fastify_of ip (web_opened env i))) (fst st) = (Inr r, sv')"
    using assms(3) by (cases "open_message (sh_deps sh) now i (web_request (fastify_of ip (web_opened env i))) (fst st)") simp
  have "fq_body (fastify_of ip (web_opened env i)) = None" by (simp add: fastify_of_def web_opened_def)
  then have "fst (api_call sh now minted ip (API_ORIGIN env) st (web_opened env i)) = Response 200 (Some (resp_body r))"
    by (simp add: api_call_def serve_def m run_route_def Let_def reply_of_def h json_reply_def assms(4) case_prod_beta)
  then show ?thesis
    using assms(2)
    by (simp add: web_openMessage_def web_fetchJson_def web_requestWithTimeout_def web_opened_def web_fetched_def)
qed

text \<open>
  C5: a message written in the browser is read everywhere. One that the web client reports as sent, with a
  well-formed text (\<open>plain_payload\<close>) and an open limit below 2^31, uploaded to the server over Postgres, is
  opened by the holder of the recipient key before its expiry by the first reader, be it the web client or
  the mobile client: with any number of newer keys tried before the right one and of older ones after it,
  both arrive at the same text, attachment and fingerprint.
\<close>

theorem web_message_read_everywhere:
  fixes st :: "(pg_db, 'r) server \<times> registry"
  assumes crypto: "hpke_correct S" "hpke_binding S" "generateIdentity S (public_of S priv, priv) = Inr me"
      "si_recipient inp = exportPublicKey me"
      "\<forall>k \<in> set ks1. hashRecipientPubkey S (exportPublicKey k) \<noteq> hashRecipientPubkey S (exportPublicKey me)"
      "int_of_num (si_maxOpens inp) < 2 ^ 31"
    and sender: "web_createAndSeal S P env inp tracked = (Inr sent, tracked')" "plain_payload (seal_payload inp)"
      "web_prepare S P inp = Inr (i, fp, ct)" "q = web_create_request P inp i ct"
      "parse_json (d_env (sh_deps sh)) (web_stringify env (create_request_json q)) = Some (create_request_json q)"
    and server: "d_links (sh_deps sh) = pg_ops" "pg_inv (store (fst st))"
      "web_net env (posted (as_client env) q) = web_fetched (fst (api_call sh t1 minted ip1 (API_ORIGIN env) st (posted (as_client env) q)))"
      "st1 = snd (api_call sh t1 minted ip1 (API_ORIGIN env) st (posted (as_client env) q))"
      "parse_date (d_env (sh_deps sh)) (sp_iso P (si_expiresAt inp)) = Some (si_expiresAt inp)"
    and reader: "t2 < si_expiresAt inp" "parse (iso_date (d_env (sh_deps sh)) (si_expiresAt inp)) = Some (si_expiresAt inp)"
      "\<forall>ip. \<exists>n rl. d_rate (sh_deps sh) t2 (''messages:open:'' @ ip) RATE_LIMIT_WINDOW_SECONDS (limiter (fst st1)) = (Inr n, rl) \<and> n \<le> RATE_LIMIT_MAX"
    and browser: "web_net env' (web_opened env' i) = web_fetched (fst (api_call sh t2 minted' ip2 (API_ORIGIN env') st1 (web_opened env' i)))"
    and phone: "requireBaseUrl env'' = Inr (BASE_URL env'')"
      "net env'' (opened env'' i) = fst (api_call sh t2 minted' ip3 (BASE_URL env'') st1 (opened env'' i))"
  shows "\<exists>out. openAndDecrypt S parse env' (ks1 @ me # ks2) i = Inr out
    \<and> and_then (fetchOpenResponse env'' i) (\<lambda>response. decrypt_held S parse (ks1 @ me # ks2) response i) = Inr out
    \<and> ro_text out = si_message inp \<and> ro_attachments out = attachments (seal_payload inp)
    \<and> ro_fingerprint out = so_fingerprint sent \<and> so_id sent = i"
proof -
  obtain ph where ph: "prepare_and_encrypt S P inp = (Inr (i, fp, ct), ph)"
    using sender(3) unfolding web_prepare_eq by (metis prod.collapse)
  obtain r pt where prep: "importPublicKey S (si_recipient inp) = Inr r" "fingerprint (sha256 S) (si_recipient inp) = Inr fp"
    "encodePayload (seal_payload inp) = Inr pt" "i = generateLinkId (sp_id_bytes P)" "seal S (sp_seal_bytes P) pt r (seal_context i inp) = Inr ct"
    using ph by (rule prepare_Inr)
  obtain resp where sent: "web_postMessage env q = Inr resp" "so_id sent = i" "so_fingerprint sent = fp"
    using sender(1,3,4) by (auto simp: web_createAndSeal_def split: sum.splits)
  obtain s j where "web_net env (posted (as_client env) q) = Fetch_Resolves s (Some j)" "res_ok s" using sent(1) by (rule web_posted_Inr)
  then have call: "api_call sh t1 minted ip1 (BASE_URL (as_client env)) st (posted (as_client env) q) = (Response s (Some j), st1)" "res_ok s"
    using server(3,4) by (auto simp: prod_eq_iff web_fetched_def split: fetch_result.splits)
  have json: "parse_json (d_env (sh_deps sh)) (stringify (as_client env) (create_request_json q)) = Some (create_request_json q)"
    using sender(5) by simp
  have q: "q = create_request_of P inp i ct" using sender(4) by (simp add: web_request_eq)
  let ?out = "\<lambda>oc stt. \<lparr>ro_text = si_message inp, ro_attachments = attachments (seal_payload inp), ro_fingerprint = fp,
      ro_opensCount = oc, ro_maxOpens = si_maxOpens inp, ro_status = stt\<rparr>"
  have ct_key: "cryptoKey r = public_of S (privateKey me)"
    using prep(1) crypto(4) exported_key_imports [OF crypto(1,3)] identity_private [OF crypto(3)] by auto
  have ctx: "recipientPublicKey (seal_context i inp) = exportPublicKey me" "int_of_num (maxOpens (seal_context i inp)) < 2 ^ 31"
    using crypto(4,6) by (simp_all add: seal_context_def)
  have own: "open_sealed S ct me (seal_context i inp) = Inr pt" using seal_then_open [OF crypto(1) ct_key prep(5)] by simp
  have payload: "decodePayload pt = seal_payload inp" using decodePayload_roundtrip [OF prep(3) sender(2)] .
  from delivered [OF prep(4) q json server(1,2) call server(5) reader(1)]
  obtain row where row: "\<And>w2 n rl. raw_body w2 = [] \<Longrightarrow>
      d_rate (sh_deps sh) t2 (''messages:open:'' @ hash_ip (d_env (sh_deps sh)) (getClientIp w2)) RATE_LIMIT_WINDOW_SECONDS
         (limiter (fst st1)) = (Inr n, rl) \<Longrightarrow> n \<le> RATE_LIMIT_MAX \<Longrightarrow>
      fst (open_message (sh_deps sh) t2 i w2 (fst st1)) = Inr (open_response (d_env (sh_deps sh)) ct row)"
    "lm_createdAt row = None" "lm_expiresAt row = si_expiresAt inp" "num (lm_maxOpens row) = si_maxOpens inp" "LINK_ID_REGEX i" "ct \<noteq> []"
    by metis
  have granted: "fst (open_message (sh_deps sh) t2 i w2 (fst st1)) = Inr (open_response (d_env (sh_deps sh)) ct row)"
    if "raw_body w2 = []" for w2
    using row(1) [OF that] reader(3) by metis
  let ?resp = "\<lparr>or_ciphertext = bytesToBase64 ct, or_createdAt = None, or_expiresAt = iso_date (d_env (sh_deps sh)) (si_expiresAt inp),
      or_opensCount = num (lm_opensCount row), or_maxOpens = si_maxOpens inp, or_status = lm_status row\<rparr>"
  have valid: "validateOpenMessageResponse (resp_body (open_response (d_env (sh_deps sh)) ct row)) = Inr ?resp"
    using open_body_validates [OF row(6), of "d_env (sh_deps sh)" row] by (simp add: row(2-4))
  then have web_valid: "web_validateOpenMessageResponse (resp_body (open_response (d_env (sh_deps sh)) ct row)) = Inr ?resp"
    using opens_read_alike [of "resp_body (open_response (d_env (sh_deps sh)) ct row)"] by simp
  have web: "web_openMessage env' i = Inr ?resp"
    using web_fetched_open [OF row(5) browser granted] web_valid by (simp add: web_request_web_opened)
  have mobile: "openMessage env'' i = Inr ?resp"
    using fetched_open [OF phone(1) row(5) phone(2) granted] valid by (simp add: web_request_opened)
  have resp_ctx: "response_context parse ?resp (exportPublicKey k) i = (seal_context i inp)\<lparr>recipientPublicKey := exportPublicKey k\<rparr>" for k
    by (simp add: response_context_def seal_context_def date_ms_def reader(2))
  have same: "(seal_context i inp)\<lparr>recipientPublicKey := exportPublicKey me\<rparr> = seal_context i inp"
    using ctx(1) by simp
  have fp: "fingerprint (sha256 S) (exportPublicKey me) = Inr fp" using prep(2) crypto(4) by simp
  have mine: "web_attempt S parse ?resp i ct me = Inr (seal_payload inp, fp)"
    using own fp payload by (simp add: web_attempt_def resp_ctx same)
  have others: "web_attempt S parse ?resp i ct k = Inl decryption_failed" if "k \<in> set ks1" for k
    using other_key_fails [OF crypto(1,2) prep(5) ctx(1) _ ctx(2)] crypto(5) that
    by (simp add: web_attempt_def resp_ctx open_with_def)
  have "decryptWithKeyFallback (ks1 @ me # ks2) (web_attempt S parse ?resp i ct) = Inr (seal_payload inp, fp)"
    using others by (intro fallback_finds mine) (simp add: decryption_failed_def)
  then have "openAndDecrypt S parse env' (ks1 @ me # ks2) i = Inr (?out (num (lm_opensCount row)) (lm_status row))"
    by (simp add: openAndDecrypt_def web web_client_err_def web_atob web_crypto_err_def seal_payload_def)
  moreover have "and_then (fetchOpenResponse env'' i) (\<lambda>response. decrypt_held S parse (ks1 @ me # ks2) response i)
      = Inr (?out (num (lm_opensCount row)) (lm_status row))"
  proof -
    have "held_attempt S parse ?resp i me = Inr (?out (num (lm_opensCount row)) (lm_status row))"
      using own fp payload base64_roundtrip [of ct] by (simp add: held_attempt_def resp_ctx same seal_payload_def)
    moreover have "held_attempt S parse ?resp i k = Inl decryption_failed" if "k \<in> set ks1" for k
      using other_key_fails [OF crypto(1,2) prep(5) ctx(1) _ ctx(2)] crypto(5) that base64_roundtrip [of ct]
      by (simp add: held_attempt_def resp_ctx open_with_def)
    ultimately have "decryptWithKeyFallback (ks1 @ me # ks2) (held_attempt S parse ?resp i)
        = Inr (?out (num (lm_opensCount row)) (lm_status row))"
      by (intro fallback_finds) (auto simp: decryption_failed_def)
    then show ?thesis by (simp add: fetchOpenResponse_def client_def mobile decrypt_held_def crypto_def)
  qed
  ultimately show ?thesis using sent(2,3) by simp
qed

lemma web_fetched_create:
  assumes "web_net env (posted (as_client env) q) = web_fetched (fst (api_call sh now minted ip (API_ORIGIN env) st (posted (as_client env) q)))"
    "create_message (sh_deps sh) now minted (web_request (fastify_of ip (posted (as_client env) q))) (fst st) = (Inr r, sv')" "status_code r = 201"
    "utf8_length (web_stringify env (create_request_json q)) \<le> SERVER_MAX_BODY_BYTES" "minted \<noteq> []"
  shows "\<exists>resp. web_postMessage env q = Inr resp"
proof -
  obtain v where "web_validateCreateMessageResponse (resp_body r) = Inr v"
    using web_create_understood [OF assms(5), of "sh_deps sh" now "web_request (fastify_of ip (posted (as_client env) q))" "fst st"] assms(2,3)
    by auto
  moreover have "fst (api_call sh now minted ip (API_ORIGIN env) st (posted (as_client env) q)) = Response 201 (Some (resp_body r))"
    using api_create_answer(1) [OF assms(2,3)] assms(4) by simp
  ultimately show ?thesis
    using assms(1)
    by (simp add: web_postMessage_def web_fetchJson_def web_requestWithTimeout_def posted_def web_fetched_def)
qed

definition easy_web :: "(http_request \<Rightarrow> fetch_result) \<Rightarrow> web_env" where
  "easy_web n = \<lparr>API_ORIGIN = ''b'', web_net = (\<lambda>hr. web_fetched (n hr)), web_stringify = (\<lambda>j. [])\<rparr>"

lemma easy_web_sel [simp]: "API_ORIGIN (easy_web n) = ''b''" "web_net (easy_web n) hr = web_fetched (n hr)" "web_stringify (easy_web n) j = []"
  by (simp_all add: easy_web_def)

theorem web_message_read_everywhere_witness:
  "\<exists>me env env' i parse out. openAndDecrypt toy_suite parse env [me] i = Inr out
     \<and> and_then (fetchOpenResponse env' i) (\<lambda>response. decrypt_held toy_suite parse [me] response i) = Inr out
     \<and> ro_text out = []"
proof -
  obtain me where me: "generateIdentity toy_suite (public_of toy_suite 5, 5) = Inr me"
    using generateIdentity_total [OF toy_correct] by blast
  let ?inp = "easy_input (exportPublicKey me)"
  obtain i fp ct where p: "prepare_and_encrypt toy_suite easy_platform ?inp = (Inr (i, fp, ct), [Prepare, Encrypt])"
    "LINK_ID_REGEX i" "32 \<le> length ct" "length ct \<le> 8192" by (rule easy_prepared [OF me])
  define q where "q = create_request_of easy_platform ?inp i ct"
  define sh where "sh = easy_shell (create_request_json q)"
  define st where "st = (\<lparr>store = pg_empty, limiter = ()\<rparr>, reset)"
  define env where "env = easy_web (\<lambda>hr. fst (api_call sh 5 ''t'' ''ip'' ''b'' st hr))"
  define st1 where "st1 = snd (api_call sh 5 ''t'' ''ip'' ''b'' st (posted (as_client env) q))"
  define env' where "env' = easy_web (\<lambda>hr. fst (api_call sh 6 ''u'' ''jq'' ''b'' st1 hr))"
  define env'' where "env'' = easy_client (\<lambda>hr. fst (api_call sh 6 ''u'' ''jr'' ''b'' st1 hr))"
  have q: "q = web_create_request easy_platform ?inp i ct" by (simp add: q_def web_request_eq)
  have prep: "web_prepare toy_suite easy_platform ?inp = Inr (i, fp, ct)" by (simp add: web_prepare_eq p(1))
  obtain r sv' where created: "create_message (sh_deps sh) 5 ''t'' (web_request (fastify_of ''ip'' (posted (as_client env) q))) (fst st) = (Inr r, sv')"
    "status_code r = 201"
    using easy_created [OF me p(1-4) q_def sh_def st_def, of "as_client env" "''t''"] by (auto simp: env_def)
  obtain resp where resp: "web_postMessage env q = Inr resp"
    using web_fetched_create [OF _ created] by (auto simp: env_def utf8_length_def text_of_string_def TextEncoder_def)
  obtain sent tracked' where sent: "web_createAndSeal toy_suite easy_platform env ?inp [] = (Inr sent, tracked')"
    using prep resp by (auto simp: web_createAndSeal_def q)
  have "\<exists>out. openAndDecrypt toy_suite (\<lambda>s. Some 100) env' ([] @ me # []) i = Inr out
      \<and> and_then (fetchOpenResponse env'' i) (\<lambda>response. decrypt_held toy_suite (\<lambda>s. Some 100) ([] @ me # []) response i) = Inr out
      \<and> ro_text out = si_message ?inp
      \<and> ro_attachments out = attachments (seal_payload ?inp) \<and> ro_fingerprint out = so_fingerprint sent \<and> so_id sent = i"
  proof (rule web_message_read_everywhere [OF toy_correct toy_binding me _ _ _ sent _ prep q, where sh = sh and st = st and ?t1.0 = 5
        and minted = "''t''" and ?ip1.0 = "''ip''" and ?st1.0 = st1 and ?t2.0 = 6 and minted' = "''u''" and ?ip2.0 = "''jq''" and ?ip3.0 = "''jr''"])
    show "plain_payload (seal_payload ?inp)"
      by (simp add: seal_payload_def easy_input_def plain_payload_def plain_text_def TextEncoder_def)
  qed (simp_all add: sh_def st_def env_def env'_def env''_def st1_def pg_empty_ok RATE_LIMIT_MAX_def)
  then obtain out where "openAndDecrypt toy_suite (\<lambda>s. Some 100) env' [me] i = Inr out"
      "and_then (fetchOpenResponse env'' i) (\<lambda>response. decrypt_held toy_suite (\<lambda>s. Some 100) [me] response i) = Inr out" "ro_text out = []"
    by (auto simp: easy_input_def)
  then show ?thesis by (intro exI conjI)
qed

section \<open>The error screens\<close>

lemma base64url_errors: "base64urlDecode s = Inl e \<Longrightarrow> \<exists>m. e = InvalidFormatError m"
  by (auto simp: base64urlDecode_def split: option.splits if_splits)

lemma fingerprint_errors: "fingerprint h pk = Inl e \<Longrightarrow> \<exists>m. e = InvalidFormatError m"
  by (auto simp: fingerprint_def decodePubkey_def result_simps Let_def split: if_splits dest: base64url_errors)

lemma attempt_errors:
  assumes "web_attempt S parse response i ct k = Inl e"
  shows "is_DecryptionError e \<or> (\<exists>m. e = InvalidFormatError m)"
  using assms
  by (auto simp: web_attempt_def result_simps Let_def decryption_failed_def dest!: open_sealed_error fingerprint_errors)

text \<open>
  When the browser's reader offers a retry. A reading ends on the network screen only if no answer with
  a 2xx status reached the client, or if such an answer carried a ciphertext that is no base64, which the
  server's encoder never writes; it ends on "failed" only after an answer that consumed an open, and on
  "gone" exactly for the statuses 404 and 410.
\<close>

theorem retry_after_no_success:
  assumes "openAndDecrypt S parse env ks i = Inl err"
  shows "(web_classifyReaderError err = WNetwork \<longrightarrow>
      (\<forall>st j. web_net env (web_opened env i) = Fetch_Resolves st j \<longrightarrow> \<not> res_ok st)
      \<or> (\<exists>resp. web_openMessage env i = Inr resp \<and> web_base64ToBytes (or_ciphertext resp) = None))
    \<and> (web_classifyReaderError err = WFailed \<longrightarrow>
      (\<exists>resp. web_openMessage env i = Inr resp))
    \<and> (web_classifyReaderError err = WGone \<longleftrightarrow> err = WebClient (WebApiError 404) \<or> err = WebClient (WebApiError 410))
    \<and> web_base64ToBytes (api_bytesToBase64 blob) = Some blob"
proof -
  have opened: "web_openMessage env i = web_fetchJson env (''/api/messages/'' @ encodeURIComponent i @ ''/open'') ''POST'' [] None
      web_validateOpenMessageResponse" by (rule web_openMessage_def)
  have codec: "web_base64ToBytes (api_bytesToBase64 blob) = Some blob"
    by (simp add: api_bytesToBase64_def btoa_eq_bytesToBase64 web_atob)
  have malformed_only: "\<exists>m. e = WebMalformedResponseError m" if "web_validateOpenMessageResponse b = Inl e" for b e
    using that by (auto simp: web_validateOpenMessageResponse_def web_malformed_def split: if_splits option.splits)
  show ?thesis
  proof (cases "web_openMessage env i")
    case (Inl e)
    then have err: "err = WebClient e" using assms by (simp add: openAndDecrypt_def web_client_err_def)
    have "\<not> res_ok st" if "web_net env (web_opened env i) = Fetch_Resolves st j" "web_classifyReaderError err = WNetwork" for st j
    proof
      assume "res_ok st"
      then have "\<exists>m. e = WebMalformedResponseError m"
        using Inl that(1) malformed_only
        by (auto simp: opened web_fetchJson_def web_requestWithTimeout_def web_opened_def split: option.splits)
      then show False using that(2) by (auto simp: err web_classifyReaderError_def web_isDecryptionFailure_def isInvalidFormat_def)
    qed
    moreover have "web_classifyReaderError err \<noteq> WFailed"
      by (auto simp: err web_classifyReaderError_def web_isDecryptionFailure_def isInvalidFormat_def split: web_error.split)
    moreover have "web_classifyReaderError err = WGone \<longleftrightarrow> err = WebClient (WebApiError 404) \<or> err = WebClient (WebApiError 410)"
      by (auto simp: err web_classifyReaderError_def web_isDecryptionFailure_def isInvalidFormat_def split: web_error.split)
    ultimately show ?thesis using codec by blast
  next
    case (Inr resp)
    show ?thesis
    proof (cases "web_base64ToBytes (or_ciphertext resp)")
      case None
      then have "err = WebOther" using assms Inr by (simp add: openAndDecrypt_def web_client_err_def)
      then show ?thesis using None Inr codec
        by (simp add: web_classifyReaderError_def web_isDecryptionFailure_def isInvalidFormat_def)
    next
      case (Some ct)
      then obtain e where e: "decryptWithKeyFallback ks (web_attempt S parse resp i ct) = Inl e" "err = WebCrypto e"
        using assms Inr by (auto simp: openAndDecrypt_def web_client_err_def web_crypto_err_def result_simps split: sum.splits prod.splits)
      have "is_DecryptionError e \<or> (\<exists>m. e = InvalidFormatError m)"
        using fallback_error [OF e(1)] attempt_errors by blast
      then have "web_classifyReaderError err \<in> {WFailed, WInvalid}" "\<nexists>c. err = WebClient c"
        by (auto simp: e(2) web_classifyReaderError_def web_isDecryptionFailure_def isInvalidFormat_def
            elim!: is_DecryptionError.elims split: crypto_error.split)
      then show ?thesis using Inr codec by auto
    qed
  qed
qed

theorem retry_after_no_success_witness:
  "\<nexists>j. web_net (easy_web (\<lambda>hr. Response 503 None)) (web_opened (easy_web (\<lambda>hr. Response 503 None)) ''a'') = Fetch_Resolves 200 j"
proof -
  let ?E = "easy_web (\<lambda>hr. Response 503 None)"
  have bad: "\<not> res_ok 503" by (simp add: res_ok_def)
  then have none: "web_openMessage ?E ''a'' = Inl (WebApiError 503)"
    by (simp add: web_openMessage_def web_fetchJson_def web_requestWithTimeout_def web_fetched_def)
  then have "openAndDecrypt toy_suite (\<lambda>s. None) ?E [] ''a'' = Inl (WebClient (WebApiError 503))"
    by (simp add: openAndDecrypt_def web_client_err_def)
  from retry_after_no_success [OF this] show ?thesis
    using none by (force simp: web_classifyReaderError_def web_isDecryptionFailure_def isInvalidFormat_def)
qed

end
