(* ===== verification/Link_Urls.thy ===== *)
theory Link_Urls
  imports Web_Links File_Blobs End_To_End
begin

text \<open>
  The addresses of links and the ways back from them to a link id: the mobile client
  (apps/mobile/src/navigation/parse-link-id.ts), the static site that bounces a link to the app or to the
  browser (apps/web/src/bouncer: deep-link.ts, reader-link.ts) and the web client's reader
  (apps/webapp/src/reader/reader-id.ts). expo-linking's parse is an argument.
\<close>

section \<open>The mobile client\<close>

record parsed_url =
  pu_scheme :: "string option"
  pu_hostname :: "string option"
  pu_path :: "string option"

text \<open>A string that is neither null nor empty.\<close>

definition truthy :: "string option \<Rightarrow> bool" where
  "truthy s = (case s of None \<Rightarrow> False | Some t \<Rightarrow> t \<noteq> [])"

text \<open>\<open>/^l\/([^/]+)$/\<close>\<close>

definition match_l_path :: "string \<Rightarrow> string option" where
  "match_l_path p =
     (case p of
        a # b # rest \<Rightarrow> if a = CHR ''l'' \<and> b = CHR ''/'' \<and> rest \<noteq> [] \<and> CHR ''/'' \<notin> set rest then Some rest else None
      | _ \<Rightarrow> None)"

definition fullPath :: "parsed_url \<Rightarrow> string option" where
  "fullPath u =
     (let isWeb = (pu_scheme u = Some ''http'' \<or> pu_scheme u = Some ''https'') in
      if \<not> isWeb \<and> truthy (pu_hostname u)
      then Some (the (pu_hostname u) @ (if truthy (pu_path u) then ''/'' @ the (pu_path u) else []))
      else pu_path u)"

definition parseLinkId :: "(string \<Rightarrow> parsed_url) \<Rightarrow> string option \<Rightarrow> string option" where
  "parseLinkId parse_url url =
     (if \<not> truthy url then None
      else case fullPath (parse_url (the url)) of None \<Rightarrow> None | Some p \<Rightarrow> match_l_path p)"

definition parsePastedLink :: "(string \<Rightarrow> parsed_url) \<Rightarrow> string \<Rightarrow> string option" where
  "parsePastedLink parse_url input =
     (let trimmed = js_trim input in
      if trimmed = [] then None
      else if LINK_ID_REGEX trimmed then Some trimmed
      else case parseLinkId parse_url (Some trimmed) of
             None \<Rightarrow> None
           | Some i \<Rightarrow> if LINK_ID_REGEX i then Some i else None)"

section \<open>The bouncer\<close>

definition isValidLinkId :: "string \<Rightarrow> bool" where
  "isValidLinkId i = LINK_ID_REGEX i"

definition appDeepLink :: "string \<Rightarrow> string option" where
  "appDeepLink i = (if \<not> isValidLinkId i then None else Some (''aesmsg://l/'' @ i))"

definition browserReaderUrl :: "string \<Rightarrow> string \<Rightarrow> string option" where
  "browserReaderUrl webapp_origin i = (if \<not> isValidLinkId i then None else Some (webapp_origin @ ''/l/'' @ i))"

text \<open>What the page does when it opens and what it offers: where it navigates, and its two buttons.\<close>

definition BouncerScreen :: "string \<Rightarrow> string \<Rightarrow> string option \<times> string option \<times> string option" where
  "BouncerScreen webapp_origin i =
     (let deepLink = appDeepLink i; browserUrl = browserReaderUrl webapp_origin i in (deepLink, deepLink, browserUrl))"

section \<open>The web client's reader\<close>

text \<open>\<open>/^\/l\/([A-Za-z0-9_-]{16})\/?$/\<close>\<close>

definition LINK_PATH_REGEX :: "string \<Rightarrow> string option" where
  "LINK_PATH_REGEX pathname =
     (if take 3 pathname = ''/l/'' \<and> LINK_ID_REGEX (take 16 (drop 3 pathname)) \<and> drop 19 pathname \<in> {[], ''/''}
      then Some (take 16 (drop 3 pathname)) else None)"

text \<open>
  \<open>new URLSearchParams(search).get(k)\<close>: the first pair with the name, plus signs and percent escapes
  decoded (a byte outside ASCII is kept as one character, which no link id contains).
\<close>

fun form_decode :: "string \<Rightarrow> string" where
  "form_decode [] = []"
| "form_decode (c # s) =
     (if c = CHR ''+'' then CHR '' '' # form_decode s
      else if c = CHR ''%'' then
        (case s of
           a # b # r \<Rightarrow> (case hex_byte a b of Some n \<Rightarrow> char_of n # form_decode r | None \<Rightarrow> c # form_decode s)
         | _ \<Rightarrow> c # form_decode s)
      else c # form_decode s)"

definition form_pair :: "string \<Rightarrow> string \<times> string" where
  "form_pair part =
     (form_decode (takeWhile (\<lambda>c. c \<noteq> CHR ''='') part), form_decode (drop 1 (dropWhile (\<lambda>c. c \<noteq> CHR ''='') part)))"

definition search_get :: "string \<Rightarrow> string \<Rightarrow> string option" where
  "search_get k search =
     (let s = (case search of c # r \<Rightarrow> if c = CHR ''?'' then r else search | [] \<Rightarrow> [])
      in map_of (map form_pair (filter (\<lambda>p. p \<noteq> []) (split_on (CHR ''&'') s))) k)"

definition readLinkId :: "string \<Rightarrow> string \<Rightarrow> string option" where
  "readLinkId pathname search =
     (case LINK_PATH_REGEX pathname of
        Some i \<Rightarrow> Some i
      | None \<Rightarrow>
          (case search_get ''id'' search of
             Some q \<Rightarrow> if LINK_ID_REGEX q then Some q else None
           | None \<Rightarrow> None))"

section \<open>Every address of a link leads back to it\<close>

lemma link_id_chars:
  assumes "LINK_ID_REGEX i"
  shows "length i = 16" "CHR ''/'' \<notin> set i" "CHR ''&'' \<notin> set i" "CHR ''='' \<notin> set i" "CHR ''%'' \<notin> set i" "CHR ''+'' \<notin> set i"
  using assms by (auto simp: LINK_ID_REGEX_def list_all_iff alnum_def char_in_def)

lemma form_decode_plain: "CHR ''%'' \<notin> set s \<Longrightarrow> CHR ''+'' \<notin> set s \<Longrightarrow> form_decode s = s"
  by (induction s) auto

lemma path_matches:
  assumes "LINK_ID_REGEX i" "t \<in> {[], ''/''}"
  shows "LINK_PATH_REGEX (''/l/'' @ i @ t) = Some i"
  using assms link_id_chars(1) [OF assms(1)] by (auto simp: LINK_PATH_REGEX_def)

lemma search_matches:
  assumes "LINK_ID_REGEX i"
  shows "search_get ''id'' (''?id='' @ i) = Some i"
proof -
  note i = link_id_chars [OF assms]
  have "split_on (CHR ''&'') (''id='' @ i) = [''id='' @ i]" using i by (intro split_on_plain) auto
  then show ?thesis using i by (simp add: search_get_def form_pair_def form_decode_plain)
qed

text \<open>How expo-linking reads the two forms of a link (its documented behaviour).\<close>

definition reads_links :: "(string \<Rightarrow> parsed_url) \<Rightarrow> string \<Rightarrow> bool" where
  "reads_links parse_url i =
     (parse_url (''aesmsg://l/'' @ i) = \<lparr>pu_scheme = Some ''aesmsg'', pu_hostname = Some ''l'', pu_path = Some i\<rparr> \<and>
      parse_url (SECURE_LINK_ORIGIN @ ''/l/'' @ i) =
        \<lparr>pu_scheme = Some ''https'', pu_hostname = Some ''www.aesmsg.com'', pu_path = Some (''l/'' @ i)\<rparr>)"

lemma trimmed_link: "js_trim (SECURE_LINK_ORIGIN @ ''/l/'' @ i) = SECURE_LINK_ORIGIN @ ''/l/'' @ i" if "LINK_ID_REGEX i" for i
proof -
  have i: "i \<noteq> []" "\<not> js_space (last i)" using that
    by (auto simp: LINK_ID_REGEX_def list_all_iff alnum_def char_in_def js_space_def dest!: bspec [OF _ last_in_set])
  show ?thesis using i
    by (auto simp: js_trim_def SECURE_LINK_ORIGIN_def dropWhile_eq_self_iff js_space_def hd_rev)
qed

text \<open>
  Every address the product makes of a link leads back to it. The server's link in the browser or pasted
  into the app, the app link and the browser link of the bouncer, the bare id, and the reader's path (with
  or without a final slash) or query all resolve to the id; and whatever text they are given, the reader
  and the paste field resolve only to well-formed ids.
\<close>

theorem links_lead_home:
  assumes "LINK_ID_REGEX i" "reads_links parse_url i"
  shows "BouncerScreen webapp_origin i = (Some (''aesmsg://l/'' @ i), Some (''aesmsg://l/'' @ i), Some (webapp_origin @ ''/l/'' @ i))
    \<and> parseLinkId parse_url (Some (''aesmsg://l/'' @ i)) = Some i \<and> parseLinkId parse_url (Some (secureLinkUrl i)) = Some i
    \<and> parsePastedLink parse_url (secureLinkUrl i) = Some i \<and> parsePastedLink parse_url i = Some i
    \<and> readLinkId (''/l/'' @ i) search = Some i \<and> readLinkId (''/l/'' @ i @ ''/'') search = Some i
    \<and> readLinkId ''/l'' (''?id='' @ i) = Some i
    \<and> (readLinkId p q = Some j \<or> parsePastedLink parse_url t = Some j \<longrightarrow> LINK_ID_REGEX j)"
proof -
  note i = link_id_chars [OF assms(1)]
  have ne: "i \<noteq> []" using i(1) by auto
  have app: "parseLinkId parse_url (Some (''aesmsg://l/'' @ i)) = Some i"
    and web: "parseLinkId parse_url (Some (secureLinkUrl i)) = Some i"
    using assms(2) i(2) ne
    by (simp_all add: parseLinkId_def truthy_def reads_links_def fullPath_def match_l_path_def secureLinkUrl_def SECURE_LINK_ORIGIN_def)
  have "\<not> LINK_ID_REGEX (SECURE_LINK_ORIGIN @ ''/l/'' @ i)" using i(1) by (simp add: LINK_ID_REGEX_def SECURE_LINK_ORIGIN_def)
  then have pasted: "parsePastedLink parse_url (secureLinkUrl i) = Some i"
    using web trimmed_link [OF assms(1)] assms(1)
    by (simp add: parsePastedLink_def secureLinkUrl_def Let_def SECURE_LINK_ORIGIN_def)
  have bare: "js_trim i = i"
  proof -
    have "\<not> js_space c" if "c \<in> set i" for c
      using assms(1) that by (auto simp: LINK_ID_REGEX_def list_all_iff alnum_def char_in_def js_space_def)
    then have "dropWhile js_space i = i" "dropWhile js_space (rev i) = rev i"
      using ne by (simp_all add: dropWhile_eq_self_iff hd_rev)
    then show ?thesis by (simp add: js_trim_def)
  qed
  have paths: "readLinkId (''/l/'' @ i) search = Some i" "readLinkId (''/l/'' @ i @ ''/'') search = Some i"
    using path_matches [OF assms(1), of "[]"] path_matches [OF assms(1), of "''/''"] by (simp_all add: readLinkId_def)
  have "LINK_PATH_REGEX ''/l'' = None" by (simp add: LINK_PATH_REGEX_def)
  then have query: "readLinkId ''/l'' (''?id='' @ i) = Some i" using search_matches [OF assms(1)] assms(1) by (simp add: readLinkId_def)
  have formed: "readLinkId p q = Some j \<or> parsePastedLink parse_url t = Some j \<longrightarrow> LINK_ID_REGEX j"
    by (auto simp: readLinkId_def LINK_PATH_REGEX_def parsePastedLink_def Let_def split: option.splits if_splits)
  show ?thesis
    using app web pasted paths query formed bare assms(1) ne
    by (simp add: BouncerScreen_def appDeepLink_def browserReaderUrl_def isValidLinkId_def Let_def parsePastedLink_def)
qed

theorem links_lead_home_witness:
  "\<exists>parse_url. parsePastedLink parse_url (secureLinkUrl ''AAAAAAAAAAAAAAAA'') = Some ''AAAAAAAAAAAAAAAA''
    \<and> parseLinkId parse_url (Some ''aesmsg://l/AAAAAAAAAAAAAAAA'') = Some ''AAAAAAAAAAAAAAAA''"
proof -
  let ?p = "\<lambda>u. if take 6 u = ''aesmsg'' then \<lparr>pu_scheme = Some ''aesmsg'', pu_hostname = Some ''l'', pu_path = Some ''AAAAAAAAAAAAAAAA''\<rparr>
    else \<lparr>pu_scheme = Some ''https'', pu_hostname = Some ''www.aesmsg.com'', pu_path = Some ''l/AAAAAAAAAAAAAAAA''\<rparr>"
  have "LINK_ID_REGEX ''AAAAAAAAAAAAAAAA''" by (simp add: LINK_ID_REGEX_def alnum_def char_in_def)
  moreover have "reads_links ?p ''AAAAAAAAAAAAAAAA''" by (simp add: reads_links_def SECURE_LINK_ORIGIN_def)
  ultimately show ?thesis using links_lead_home [of "''AAAAAAAAAAAAAAAA''" ?p] by (intro exI [of _ ?p]) simp
qed

end
