(* ===== verification/Contact_Trust.thy ===== *)
theory Contact_Trust
  imports Web_Contacts Link_Urls Seal_Open
begin

text \<open>
  What the clients make of a contact's key: its trust status, the fingerprints shown, the detection of a
  changed key and the contact cards (apps/mobile/src/contacts: contacts-display.ts, trust-status.ts,
  key-change.ts, scanned-key.ts, paste-contact-error.ts, contact-card.ts, and create/recipient.ts), with the
  web client's counterparts (apps/webapp/src/contacts, create/compose-contact.ts,
  lib/validate-public-key.ts). Locale-dependent dates are arguments; spoken labels are left out.
\<close>

section \<open>Trust status and its indicator\<close>

datatype trust_status = TVerified | TUnverified | TChanged

definition deriveTrustStatus :: "contact \<Rightarrow> trust_status" where
  "deriveTrustStatus c =
     (if c_verified c then TVerified
      else if length (c_previous c) > 0 then TChanged
      else TUnverified)"

definition web_deriveTrustStatus :: "contact \<Rightarrow> trust_status" where
  "web_deriveTrustStatus c =
     (if c_verified c then TVerified
      else if length (c_previous c) > 0 then TChanged
      else TUnverified)"

datatype indicator_kind = Glyph | Chip
datatype tone = Green | Amber | Violet | Neutral | Error_Tone

record trust_indicator =
  ti_kind :: indicator_kind
  ti_tone :: tone
  ti_icon :: string
  ti_fill :: bool
  ti_label :: string

fun trustIndicator :: "trust_status \<Rightarrow> trust_indicator" where
  "trustIndicator TVerified = \<lparr>ti_kind = Glyph, ti_tone = Green, ti_icon = ''verified'', ti_fill = True, ti_label = []\<rparr>"
| "trustIndicator TUnverified = \<lparr>ti_kind = Chip, ti_tone = Amber, ti_icon = ''priority_high'', ti_fill = False, ti_label = ''Unverified''\<rparr>"
| "trustIndicator TChanged = \<lparr>ti_kind = Chip, ti_tone = Amber, ti_icon = ''priority_high'', ti_fill = False, ti_label = ''Key changed''\<rparr>"

fun web_trustIndicator :: "trust_status \<Rightarrow> trust_indicator" where
  "web_trustIndicator TVerified = \<lparr>ti_kind = Glyph, ti_tone = Green, ti_icon = ''verified'', ti_fill = True, ti_label = ''Verified''\<rparr>"
| "web_trustIndicator TUnverified = \<lparr>ti_kind = Chip, ti_tone = Amber, ti_icon = ''priority_high'', ti_fill = False, ti_label = ''Unverified''\<rparr>"
| "web_trustIndicator TChanged = \<lparr>ti_kind = Chip, ti_tone = Amber, ti_icon = ''priority_high'', ti_fill = False, ti_label = ''Key changed''\<rparr>"

section \<open>Fingerprints and the view of a contact\<close>

text \<open>The group counts passed here are within the range \<open>truncateFingerprint\<close> accepts, so it does not throw.\<close>

definition shortFingerprint :: "string \<Rightarrow> string" where
  "shortFingerprint fp = projr (truncateFingerprint fp 2)"

definition web_shortFingerprint :: "string \<Rightarrow> string" where
  "web_shortFingerprint fp = projr (truncateFingerprint fp 2)"

lemma truncate_in_range: "truncateFingerprint fp 2 = Inr (shortFingerprint fp)" "\<exists>s. truncateFingerprint fp 8 = Inr s"
  by (simp_all add: shortFingerprint_def truncateFingerprint_def fingerprint_consts Let_def)

text \<open>\<open>value.replace(/\s+/g, "")\<close>, cut into groups and the groups into lines.\<close>

definition formatFingerprintLines :: "string \<Rightarrow> nat \<Rightarrow> nat \<Rightarrow> string list" where
  "formatFingerprintLines v groupSize groupsPerLine =
     (let clean = filter (\<lambda>c. \<not> js_space c) v
      in if length clean = 0 then []
         else map (join '' '') (chunk (chunk clean (max 1 groupSize)) (max 1 groupsPerLine)))"

definition chunkFingerprint :: "string \<Rightarrow> nat \<Rightarrow> string" where
  "chunkFingerprint v sz =
     (let clean = filter (\<lambda>c. \<not> js_space c) v
      in if length clean = 0 then [] else join '' '' (chunk clean (max 1 sz)))"

definition fullFingerprintLines :: "string \<Rightarrow> string list" where
  "fullFingerprintLines fp = formatFingerprintLines (projr (truncateFingerprint fp 8)) 4 4"

record contact_view =
  cv_id :: string
  cv_name :: string
  cv_fingerprint :: string
  cv_full :: string
  cv_previous :: "string option"
  cv_status :: trust_status
  cv_keyCreated :: string

definition last_option :: "'a list \<Rightarrow> 'a option" where
  "last_option xs = (if xs = [] then None else Some (last xs))"

text \<open>The mobile view also carries the fixed text \<open>"Never used"\<close>, which is left out.\<close>

definition contactRecordToContact :: "(string \<Rightarrow> string) \<Rightarrow> contact \<Rightarrow> contact_view" where
  "contactRecordToContact keyCreatedLabel c =
     (let previous = last_option (c_previous c) in
      \<lparr>cv_id = c_id c, cv_name = c_label c, cv_fingerprint = shortFingerprint (c_fingerprint c),
       cv_full = join '' '' (fullFingerprintLines (c_fingerprint c)),
       cv_previous = (if truthy previous then map_option shortFingerprint previous else None),
       cv_status = deriveTrustStatus c, cv_keyCreated = keyCreatedLabel (c_createdAt c)\<rparr>)"

definition web_contactRecordToContact :: "(string \<Rightarrow> string) \<Rightarrow> contact \<Rightarrow> contact_view" where
  "web_contactRecordToContact keyCreatedLabel c =
     (let st = web_deriveTrustStatus c; previous = last_option (c_previous c) in
      \<lparr>cv_id = c_id c, cv_name = c_label c, cv_fingerprint = web_shortFingerprint (c_fingerprint c),
       cv_full = c_fingerprint c,
       cv_previous = (if st = TChanged \<and> truthy previous then map_option web_shortFingerprint previous else None),
       cv_status = st, cv_keyCreated = keyCreatedLabel (c_createdAt c)\<rparr>)"

section \<open>A changed key\<close>

datatype key_change = SameKey | RotatedBack | KeyChanged string string

definition classifyKeyChange :: "contact \<Rightarrow> string \<Rightarrow> key_change" where
  "classifyKeyChange existing candidate =
     (if candidate = c_fingerprint existing then SameKey
      else if candidate \<in> set (c_previous existing) then RotatedBack
      else KeyChanged (c_fingerprint existing) candidate)"

definition detectKeyChange :: "'e fp_fun \<Rightarrow> contact \<Rightarrow> string \<Rightarrow> 'e + key_change" where
  "detectKeyChange fpr existing candidateKey =
     (case fpr candidateKey of
        Inl e \<Rightarrow> Inl e
      | Inr fp \<Rightarrow> Inr (classifyKeyChange existing fp))"

definition web_classifyKeyChange :: "contact \<Rightarrow> string \<Rightarrow> key_change" where
  "web_classifyKeyChange existing candidate =
     (if candidate = c_fingerprint existing then SameKey
      else if candidate \<in> set (c_previous existing) then RotatedBack
      else KeyChanged (c_fingerprint existing) candidate)"

definition web_detectKeyChange :: "'e fp_fun \<Rightarrow> contact \<Rightarrow> string \<Rightarrow> 'e + key_change" where
  "web_detectKeyChange fpr existing candidateKey =
     (case fpr candidateKey of
        Inl e \<Rightarrow> Inl e
      | Inr fp \<Rightarrow> Inr (web_classifyKeyChange existing fp))"

record key_change_view =
  kv_name :: string
  kv_previous :: string
  kv_new :: string

definition keyChangeAlertView :: "string \<Rightarrow> string \<Rightarrow> string \<Rightarrow> key_change_view" where
  "keyChangeAlertView name previousFp newFp =
     \<lparr>kv_name = name, kv_previous = shortFingerprint previousFp, kv_new = shortFingerprint newFp\<rparr>"

definition web_keyChangeAlertView :: "string \<Rightarrow> string \<Rightarrow> string \<Rightarrow> key_change_view" where
  "web_keyChangeAlertView name previousFp newFp =
     \<lparr>kv_name = name, kv_previous = web_shortFingerprint previousFp, kv_new = web_shortFingerprint newFp\<rparr>"

section \<open>Keys typed, pasted or scanned\<close>

definition key_char :: "char \<Rightarrow> bool" where
  "key_char c = (alnum c \<or> js_space c \<or> c \<in> set ''+/=-_:.'')"

definition looksLikePublicKey :: "string \<Rightarrow> bool" where
  "looksLikePublicKey v =
     (let trimmed = js_trim v in if length trimmed < 16 then False else trimmed \<noteq> [] \<and> list_all key_char trimmed)"

definition web_looksLikePublicKey :: "string \<Rightarrow> bool" where
  "web_looksLikePublicKey v =
     (let trimmed = js_trim v in if length trimmed < 16 then False else trimmed \<noteq> [] \<and> list_all key_char trimmed)"

definition AMK_PREFIX :: string where "AMK_PREFIX = ''amk1:''"

definition normalizeScannedPayload :: "string \<Rightarrow> string" where
  "normalizeScannedPayload raw = js_trim raw"

definition isAcceptableScan :: "string \<Rightarrow> bool" where
  "isAcceptableScan raw =
     (let normalized = normalizeScannedPayload raw in starts_with AMK_PREFIX normalized \<and> looksLikePublicKey normalized)"

definition web_isAcceptableScan :: "string \<Rightarrow> bool" where
  "web_isAcceptableScan raw =
     (let normalized = js_trim raw in starts_with AMK_PREFIX normalized \<and> web_looksLikePublicKey normalized)"

definition canAddContact :: "string \<Rightarrow> string \<Rightarrow> bool" where
  "canAddContact key name = (length (js_trim name) > 0 \<and> looksLikePublicKey key)"

datatype key_validation = ValidKey string string | EmptyKey | InvalidKey

definition validatePublicKey :: "('pub, 'priv) hpke_suite \<Rightarrow> string \<Rightarrow> key_validation" where
  "validatePublicKey S inp =
     (let trimmed = js_trim inp in
      if length trimmed = 0 then EmptyKey
      else (case and_then (importPublicKey S trimmed) (\<lambda>_. fingerprint (sha256 S) trimmed) of
              Inr fp \<Rightarrow> ValidKey trimmed fp
            | Inl e \<Rightarrow> InvalidKey))"

section \<open>The messages of the add and re-key screens\<close>

definition quote_label :: "string \<Rightarrow> string" where
  "quote_label l = CHR 0x22 # l @ [CHR 0x22, CHR ''.'']"

definition is_format_error :: "crypto_error \<Rightarrow> bool" where
  "is_format_error e = (case e of InvalidFormatError m \<Rightarrow> True | _ \<Rightarrow> False)"

definition pasteContactError :: "crypto_error contact_error \<Rightarrow> string" where
  "pasteContactError e =
     (case e of
        KeyError c \<Rightarrow>
          if is_format_error c
          then ''That doesn'' @ [CHR 0x27] @ ''t look like a valid aesmsg public key. Check that you copied the whole key.''
          else ''Couldn'' @ [CHR 0x27] @ ''t add this contact. Please try again.''
      | DuplicateFingerprintError i l reason \<Rightarrow>
          if reason = PreviousKey then ''This key was rotated away by '' @ quote_label l
          else ''This key is already saved as '' @ quote_label l
      | SameKeyError \<Rightarrow> ''That'' @ [CHR 0x27] @ ''s already this contact'' @ [CHR 0x27] @ ''s current key.''
      | RotatedAwayError \<Rightarrow> ''This key was previously rotated away from this contact.''
      | InvalidLabelError \<Rightarrow> ''Enter a name for this contact.''
      | NotFoundError i \<Rightarrow> ''Couldn'' @ [CHR 0x27] @ ''t add this contact. Please try again.'')"

definition contactErrorCopy :: "crypto_error contact_error \<Rightarrow> string" where
  "contactErrorCopy e =
     (case e of
        KeyError c \<Rightarrow>
          if is_format_error c
          then ''That doesn'' @ [CHR 0x27] @ ''t look like a valid aesmsg public key. Check that you copied the whole key.''
          else ''Couldn'' @ [CHR 0x27] @ ''t add this contact. Please try again.''
      | DuplicateFingerprintError i l reason \<Rightarrow>
          if reason = PreviousKey then ''This key was rotated away by '' @ quote_label l
          else ''This key is already saved as '' @ quote_label l
      | SameKeyError \<Rightarrow> ''That'' @ [CHR 0x27] @ ''s already this contact'' @ [CHR 0x27] @ ''s current key.''
      | RotatedAwayError \<Rightarrow> ''This key was previously rotated away from this contact.''
      | InvalidLabelError \<Rightarrow> ''Enter a name for this contact.''
      | NotFoundError i \<Rightarrow> ''Couldn'' @ [CHR 0x27] @ ''t add this contact. Please try again.'')"

section \<open>The recipient of a draft\<close>

datatype recipient = ContactRecipient contact_view string | PastedRecipient string

fun recipient_key :: "recipient \<Rightarrow> string" where
  "recipient_key (ContactRecipient c k) = k"
| "recipient_key (PastedRecipient k) = k"

definition contactRecipient :: "contact_view \<Rightarrow> string \<Rightarrow> recipient" where
  "contactRecipient c k = ContactRecipient c k"

definition isChangedContactRecipient :: "recipient \<Rightarrow> bool" where
  "isChangedContactRecipient r = (case r of ContactRecipient c k \<Rightarrow> cv_status c = TChanged | PastedRecipient k \<Rightarrow> False)"

text \<open>The pair of the recipient adopted and the one held back.\<close>

definition seedComposeRecipient :: "recipient option \<Rightarrow> recipient option \<times> recipient option" where
  "seedComposeRecipient initial =
     (case initial of
        Some r \<Rightarrow> if isChangedContactRecipient r then (None, Some r) else (Some r, None)
      | None \<Rightarrow> (None, None))"

definition recipientLabel :: "recipient option \<Rightarrow> string" where
  "recipientLabel r =
     (case r of
        None \<Rightarrow> ''Select recipient''
      | Some (ContactRecipient c k) \<Rightarrow> cv_name c
      | Some (PastedRecipient k) \<Rightarrow> ''Pasted public key'')"

definition recipientPublicKeyString :: "recipient option \<Rightarrow> string option" where
  "recipientPublicKeyString r =
     (case r of
        None \<Rightarrow> None
      | Some r \<Rightarrow> let trimmed = js_trim (recipient_key r) in if length trimmed > 0 then Some trimmed else None)"

datatype picked_recipient = PickedContact contact_view string string | PickedPasted string string

definition web_isChangedContactRecipient :: "picked_recipient \<Rightarrow> bool" where
  "web_isChangedContactRecipient r = (case r of PickedContact c k f \<Rightarrow> cv_status c = TChanged | PickedPasted k f \<Rightarrow> False)"

definition web_seedComposeRecipient :: "picked_recipient option \<Rightarrow> picked_recipient option \<times> picked_recipient option" where
  "web_seedComposeRecipient initial =
     (case initial of
        Some r \<Rightarrow> if web_isChangedContactRecipient r then (None, Some r) else (Some r, None)
      | None \<Rightarrow> (None, None))"


text \<open>
  Laws of the trust logic: every exported key passes the cheap checks in front of the real one, and what the
  key-change alert announces is what the directory then does, in both clients.
\<close>

section \<open>Exported keys pass the screens' checks\<close>

lemma trim_plain: "list_all (\<lambda>c. \<not> js_space c) s \<Longrightarrow> js_trim s = s"
proof -
  assume "list_all (\<lambda>c. \<not> js_space c) s"
  then have "dropWhile js_space s = s" "dropWhile js_space (rev s) = rev s"
    by (auto simp: dropWhile_eq_self_iff list_all_iff intro: hd_in_set) (metis hd_in_set rev_is_Nil_conv set_rev)
  then show ?thesis by (simp add: js_trim_def)
qed

lemma trim_around:
  assumes "list_all js_space a" "list_all js_space b" "s \<noteq> []" "list_all (\<lambda>c. \<not> js_space c) s"
  shows "js_trim (a @ s @ b) = s"
proof -
  have "\<not> js_space (hd s)" "\<not> js_space (hd (rev s))"
    using assms(3,4) by (auto simp: list_all_iff hd_rev)
  moreover have "dropWhile js_space (a @ x) = dropWhile js_space x" "dropWhile js_space (rev b @ x) = dropWhile js_space x" for x
    using dropWhile_append2 [of a js_space x] dropWhile_append2 [of "rev b" js_space x] assms(1,2) by (simp_all add: list_all_iff)
  ultimately show ?thesis using assms(3) by (simp add: js_trim_def dropWhile_append1 dropWhile_hd)
qed

lemma exported_key_text:
  assumes "encodePubkey raw = Inr s"
  shows "starts_with AMK_PREFIX s" "16 \<le> length s" "list_all (\<lambda>c. key_char c \<and> \<not> js_space c) s"
proof -
  have s: "s = PUBKEY_PREFIX @ base64urlEncode (WIRE_VERSION # SUITE_X25519_AES256GCM # raw)" "length raw = 32"
    using assms by (auto simp: encodePubkey_def wire_consts split: if_splits)
  have "set (base64urlEncode bs) \<subseteq> set BASE64URL_ALPHABET" for bs
    by (simp add: base64urlEncode_def set_pack)
  moreover have "\<forall>c \<in> set BASE64URL_ALPHABET. key_char c \<and> \<not> js_space c"
    by (simp add: BASE64URL_ALPHABET_def key_char_def alnum_def char_in_def js_space_def)
  ultimately show "list_all (\<lambda>c. key_char c \<and> \<not> js_space c) s"
    unfolding list_all_iff s(1) by (auto simp: PUBKEY_PREFIX_def key_char_def alnum_def char_in_def js_space_def)
  show "starts_with AMK_PREFIX s" by (simp add: s(1) starts_with_def AMK_PREFIX_def PUBKEY_PREFIX_def)
  show "16 \<le> length s" by (simp add: s PUBKEY_PREFIX_def base64urlEncode_def length_pack)
qed

text \<open>
  A scanned or pasted public key is never turned away by the checks in front of the parser: any key an
  identity exports, with white space around it, is acceptable to the scanner and to the paste field of both
  clients and is read as that key, and the web client's validation yields it with its fingerprint.
\<close>

theorem exported_keys_accepted:
  assumes "hpke_correct S" "generateIdentity S kp = Inr me" "list_all js_space a" "list_all js_space b"
    "fingerprint (sha256 S) (exportPublicKey me) = Inr fp" "js_trim name \<noteq> []"
  shows "isAcceptableScan (a @ exportPublicKey me @ b) \<and> web_isAcceptableScan (a @ exportPublicKey me @ b)
    \<and> canAddContact (a @ exportPublicKey me @ b) name
    \<and> normalizeScannedPayload (a @ exportPublicKey me @ b) = exportPublicKey me
    \<and> recipientPublicKeyString (Some (PastedRecipient (a @ exportPublicKey me @ b))) = Some (exportPublicKey me)
    \<and> validatePublicKey S (a @ exportPublicKey me @ b) = ValidKey (exportPublicKey me) fp"
proof -
  let ?k = "exportPublicKey me"
  have enc: "encodePubkey (serializePublicKey S (fst kp)) = Inr ?k"
    using assms(2) by (auto simp: generateIdentity_def exportPublicKey_def exportRawPublicKey_def result_simps Let_def)
  note k = exported_key_text [OF enc]
  have ne: "?k \<noteq> []" using k(2) by auto
  have plain: "list_all (\<lambda>c. \<not> js_space c) ?k" "list_all key_char ?k" using k(3) by (auto simp: list_all_iff)
  have trim: "js_trim (a @ ?k @ b) = ?k" by (rule trim_around [OF assms(3,4) ne plain(1)])
  show ?thesis
    using k(1,2) ne plain trim trim_plain [OF plain(1)] assms(5,6) exported_key_imports [OF assms(1,2)]
    by (simp add: isAcceptableScan_def web_isAcceptableScan_def normalizeScannedPayload_def looksLikePublicKey_def
        web_looksLikePublicKey_def canAddContact_def recipientPublicKeyString_def validatePublicKey_def Let_def)
qed

theorem exported_keys_accepted_witness:
  "\<exists>k. isAcceptableScan (k @ [CHR 0x0A])"
proof -
  obtain me where me: "generateIdentity toy_suite (5, 5) = Inr me" using generateIdentity_total [OF toy_correct] by blast
  then obtain k where "decodePubkey (exportPublicKey me) = Inr k"
    using exported_key_imports [OF toy_correct me] by (auto simp: importPublicKey_def result_simps)
  then obtain fp where "fingerprint (sha256 toy_suite) (exportPublicKey me) = Inr fp" by (auto simp: fingerprint_def Let_def)
  from exported_keys_accepted [OF toy_correct me _ _ this, of "[]" "[CHR 0x0A]" "''x''"]
  show ?thesis by (auto simp: js_space_def js_trim_def)
qed

section \<open>The alert and the directory\<close>

text \<open>
  The key-change alert announces what the directory then does. For a contact of a well-formed directory
  and a candidate key, both clients classify the candidate alike; "same" and "rotated back" are exactly the
  two refusals of the store, which changes nothing; and a change that is announced goes through, with the two
  fingerprints of the alert as the old and the new one, and leaves the contact unverified and marked changed,
  held back from composing.
\<close>

theorem alert_matches_directory:
  assumes "same_book st s" "getContact i st = Some c" "fpr k = Inr fp"
  shows "detectKeyChange fpr c k = Inr (classifyKeyChange c fp) \<and> web_detectKeyChange fpr c k = Inr (classifyKeyChange c fp)
    \<and> (case classifyKeyChange c fp of
         SameKey \<Rightarrow> updateContactKey fpr now i k st = (Inl SameKeyError, st) \<and> web_updateContactKey fpr now i k s = (Inl SameKeyError, s)
       | RotatedBack \<Rightarrow> updateContactKey fpr now i k st = (Inl RotatedAwayError, st)
           \<and> web_updateContactKey fpr now i k s = (Inl RotatedAwayError, s)
       | KeyChanged p n \<Rightarrow> (\<exists>u. fst (updateContactKey fpr now i k st) = Inr u \<and> fst (web_updateContactKey fpr now i k s) = Inr u
           \<and> c_publicKey u = k \<and> c_verified u = False \<and> deriveTrustStatus u = TChanged \<and> web_deriveTrustStatus u = TChanged
           \<and> cv_fingerprint (contactRecordToContact lbl u) = kv_new (keyChangeAlertView (c_label c) p n)
           \<and> (truthy (Some p) \<longrightarrow>
                cv_previous (contactRecordToContact lbl u) = Some (kv_previous (keyChangeAlertView (c_label c) p n)))
           \<and> seedComposeRecipient (Some (contactRecipient (contactRecordToContact lbl u) k)) =
               (None, Some (contactRecipient (contactRecordToContact lbl u) k))))"
proof -
  have web: "web_getContact i s = Some c" using assms(1,2) by (simp add: same_book_def)
  obtain idx where idx: "findIndex (\<lambda>c. c_id c = i) (readAll st) = Some idx" "readAll st ! idx = c"
    using assms(2) by (auto simp: getContact_def findIndex_find)
  show ?thesis
    using assms(3) idx web
    by (auto simp: detectKeyChange_def web_detectKeyChange_def web_classifyKeyChange_def classifyKeyChange_def
        updateContactKey_def web_updateContactKey_def Let_def key_error_def deriveTrustStatus_def web_deriveTrustStatus_def
        contactRecordToContact_def keyChangeAlertView_def last_option_def seedComposeRecipient_def isChangedContactRecipient_def
        contactRecipient_def)
qed

theorem alert_matches_directory_witness:
  "\<exists>u. fst (updateContactKey (\<lambda>k. Inr k :: unit + string) [] ''1'' ''new'' (Some [new_contact [] ''1'' ''Ada'' ''old'' ''old''])) = Inr u
     \<and> deriveTrustStatus u = TChanged"
proof -
  let ?c = "new_contact [] ''1'' ''Ada'' ''old'' ''old''"
  have "same_book (Some [?c]) [(''1'', ?c)]"
    by (simp add: same_book_def os_ok_def getContact_def web_getContact_def os_get_def new_contact_def)
  from alert_matches_directory [OF this, of "''1''" ?c "\<lambda>k. Inr k :: unit + string" "''new''" "''new''" "[]"]
  show ?thesis by (auto simp: getContact_def new_contact_def classifyKeyChange_def)
qed

end
