(* ===== verification/Contact_Screens.thy ===== *)
theory Contact_Screens
  imports Contact_Trust
begin

text \<open>
  The contacts tab of the mobile client (apps/mobile/src/contacts: ContactsFlow.tsx, PasteKeyScreen.tsx) and
  the contact detail of the web client (apps/webapp/src/screens: ContactDetailScreen.tsx,
  VerifyFingerprintScreen.tsx). React state is a record, a handler runs up to its first await, and every await
  is a task that other events may overtake; the awaited call takes effect when the task is resumed. A task that
  is never resumed is a call that never settles. Layout and the camera are left out.
\<close>

section \<open>The contacts tab\<close>

datatype route =
    List_Route
  | Detail_Route string
  | Add_Route
  | Verify_Route string
  | Scan_Route "string option"
  | Paste_Route "string option" "string option" "string option"
  | Changed_Route string string string string
  | Import_Error_Route

text \<open>The mounted paste screen; \<open>ps_mount\<close> tells its instances apart.\<close>

record paste_screen =
  ps_key :: string
  ps_name :: string
  ps_error :: "string option"
  ps_busy :: bool
  ps_mount :: nat

record contacts_tab =
  ct_records :: "contact list"
  ct_loaded :: bool
  ct_removeVisible :: bool
  ct_route :: route
  ct_paste :: paste_screen

datatype initial_intent = Intent_Scan | Intent_Add

definition findRecord :: "string \<Rightarrow> contacts_tab \<Rightarrow> contact option" where
  "findRecord i t = List.find (\<lambda>c. c_id c = i) (ct_records t)"

text \<open>What is rendered.\<close>

datatype screen =
    Empty_Screen
  | List_Screen
  | Detail_Screen contact
  | Add_Screen
  | Verify_Screen contact
  | Scan_Screen "string option"
  | Paste_Screen "contact option"
  | Changed_Screen string string key_change_view
  | Import_Error_Screen

fun hides_empty :: "route \<Rightarrow> bool" where
  "hides_empty Add_Route = True"
| "hides_empty (Scan_Route i) = True"
| "hides_empty (Paste_Route k n i) = True"
| "hides_empty (Changed_Route i k p n) = True"
| "hides_empty Import_Error_Route = True"
| "hides_empty _ = False"

definition rendered :: "contacts_tab \<Rightarrow> screen" where
  "rendered t =
     (if ct_loaded t \<and> length (ct_records t) = 0 \<and> \<not> hides_empty (ct_route t) then Empty_Screen
      else case ct_route t of
        Detail_Route i \<Rightarrow> (case findRecord i t of None \<Rightarrow> List_Screen | Some c \<Rightarrow> Detail_Screen c)
      | Add_Route \<Rightarrow> Add_Screen
      | Verify_Route i \<Rightarrow> (case findRecord i t of None \<Rightarrow> List_Screen | Some c \<Rightarrow> Verify_Screen c)
      | Scan_Route i \<Rightarrow> Scan_Screen i
      | Paste_Route k n (Some i) \<Rightarrow> (case findRecord i t of None \<Rightarrow> List_Screen | Some c \<Rightarrow> Paste_Screen (Some c))
      | Paste_Route k n None \<Rightarrow> Paste_Screen None
      | Changed_Route i k p n \<Rightarrow>
          (case findRecord i t of None \<Rightarrow> List_Screen | Some c \<Rightarrow> Changed_Screen i k (keyChangeAlertView (c_label c) p n))
      | Import_Error_Route \<Rightarrow> Import_Error_Screen
      | List_Route \<Rightarrow> List_Screen)"

definition shows_paste :: "contacts_tab \<Rightarrow> bool" where
  "shows_paste t = (case rendered t of Paste_Screen r \<Rightarrow> True | _ \<Rightarrow> False)"

definition prefills :: "route \<Rightarrow> string \<times> string" where
  "prefills r =
     (case r of
        Paste_Route k n i \<Rightarrow> (case k of None \<Rightarrow> [] | Some k \<Rightarrow> k, case (i, n) of (None, Some n) \<Rightarrow> n | _ \<Rightarrow> [])
      | _ \<Rightarrow> ([], []))"

text \<open>The render after an update: a paste screen that was not there is mounted with its prefilled fields.\<close>

definition render :: "contacts_tab \<Rightarrow> contacts_tab \<Rightarrow> contacts_tab" where
  "render old t =
     (if shows_paste t \<and> \<not> shows_paste old
      then t\<lparr>ct_paste := \<lparr>ps_key = fst (prefills (ct_route t)), ps_name = snd (prefills (ct_route t)), ps_error = None, ps_busy = False,
              ps_mount = ps_mount (ct_paste t) + 1\<rparr>\<rparr>
      else t)"

definition setRoute :: "route \<Rightarrow> contacts_tab \<Rightarrow> contacts_tab" where
  "setRoute r t = render t (t\<lparr>ct_route := r\<rparr>)"

definition setRecords :: "contact list \<Rightarrow> contacts_tab \<Rightarrow> contacts_tab" where
  "setRecords cs t = render t (t\<lparr>ct_records := cs, ct_loaded := True\<rparr>)"

definition goList :: "contacts_tab \<Rightarrow> contacts_tab" where
  "goList t = setRoute List_Route (t\<lparr>ct_removeVisible := False\<rparr>)"

definition goDetail :: "string \<Rightarrow> contacts_tab \<Rightarrow> contacts_tab" where
  "goDetail i t = setRoute (Detail_Route i) t"

definition contacts_mount :: "initial_intent option \<Rightarrow> contacts_tab" where
  "contacts_mount intent =
     \<lparr>ct_records = [], ct_loaded = False, ct_removeVisible = False,
      ct_route = (case intent of Some Intent_Scan \<Rightarrow> Scan_Route None | Some Intent_Add \<Rightarrow> Add_Route | None \<Rightarrow> List_Route),
      ct_paste = \<lparr>ps_key = [], ps_name = [], ps_error = None, ps_busy = False, ps_mount = 0\<rparr>\<rparr>"

text \<open>
  What a task awaits. The paste screen hands on the instance it belongs to, whether it re-keys (the contact it
  was rendered for) or adds (the name typed), and the trimmed key.
\<close>

datatype paste_mode = Rekeying contact | Adding string

datatype task =
    Loading
  | Importing
  | Checking nat paste_mode string
  | Detecting nat contact string
  | Storing nat string string
  | Reloading_Added nat string
  | Deleting string
  | Reloading_Deleted
  | Marking string
  | Reloading_Marked string
  | Updating string string
  | Reloading_Updated string

datatype contacts_tap =
    Tap_Add | Select_Contact string | Back | Scan_Qr | Send | Ask_Remove | Cancel_Remove | Confirm_Remove | Tap_Verify
  | Mark_Verified | Not_Now | Pick_Scan | Pick_Paste | Pick_Import | Scan_Paste | Scan_Result string
  | Type_Key string | Type_Name string | Paste_Clipboard string | Submit | Update_Key | Keep_Current

definition paste_set :: "(paste_screen \<Rightarrow> paste_screen) \<Rightarrow> contacts_tab \<Rightarrow> contacts_tab" where
  "paste_set f t = t\<lparr>ct_paste := f (ct_paste t)\<rparr>"

text \<open>\<open>submit\<close> of the paste screen up to its first await.\<close>

definition paste_ready :: "contact option \<Rightarrow> paste_screen \<Rightarrow> bool" where
  "paste_ready rekey p = (case rekey of Some c \<Rightarrow> looksLikePublicKey (ps_key p) | None \<Rightarrow> canAddContact (ps_key p) (ps_name p))"

definition paste_submit :: "contact option \<Rightarrow> contacts_tab \<Rightarrow> contacts_tab \<times> task option" where
  "paste_submit rekey t =
     (let p = ct_paste t in
      if ps_busy p \<or> \<not> paste_ready rekey p then (t, None)
      else (paste_set (\<lambda>p. p\<lparr>ps_busy := True, ps_error := None\<rparr>) t,
            Some (Checking (ps_mount p) (case rekey of Some c \<Rightarrow> Rekeying c | None \<Rightarrow> Adding (ps_name p)) (js_trim (ps_key p)))))"

text \<open>A tap on what is rendered: the new state, the task started and the recipient handed out.\<close>

type_synonym tapped = "contacts_tab \<times> task option \<times> recipient option"

definition only :: "contacts_tab \<Rightarrow> tapped" where
  "only t = (t, None, None)"

definition on_empty :: "contacts_tap \<Rightarrow> contacts_tab \<Rightarrow> tapped" where
  "on_empty tap t =
     (case tap of
        Pick_Scan \<Rightarrow> only (setRoute (Scan_Route None) t)
      | Pick_Paste \<Rightarrow> only (setRoute (Paste_Route None None None) t)
      | _ \<Rightarrow> only t)"

definition on_list :: "contacts_tap \<Rightarrow> contacts_tab \<Rightarrow> tapped" where
  "on_list tap t =
     (case tap of
        Tap_Add \<Rightarrow> only (setRoute Add_Route t)
      | Select_Contact i \<Rightarrow> only (setRoute (Detail_Route i) t)
      | _ \<Rightarrow> only t)"

definition on_detail :: "(string \<Rightarrow> string) \<Rightarrow> contact \<Rightarrow> contacts_tap \<Rightarrow> contacts_tab \<Rightarrow> tapped" where
  "on_detail lbl c tap t =
     (case tap of
        Back \<Rightarrow> only (goList t)
      | Scan_Qr \<Rightarrow> only (setRoute (Scan_Route (Some (c_id c))) t)
      | Send \<Rightarrow> (t, None, Some (contactRecipient (contactRecordToContact lbl c) (c_publicKey c)))
      | Ask_Remove \<Rightarrow> only (t\<lparr>ct_removeVisible := True\<rparr>)
      | Cancel_Remove \<Rightarrow> only (t\<lparr>ct_removeVisible := False\<rparr>)
      | Confirm_Remove \<Rightarrow>
          if ct_removeVisible t then (t\<lparr>ct_removeVisible := False\<rparr>, Some (Deleting (c_id c)), None) else only t
      | Tap_Verify \<Rightarrow> only (setRoute (Verify_Route (c_id c)) t)
      | _ \<Rightarrow> only t)"

definition on_add :: "contacts_tap \<Rightarrow> contacts_tab \<Rightarrow> tapped" where
  "on_add tap t =
     (case tap of
        Back \<Rightarrow> only (goList t)
      | Pick_Scan \<Rightarrow> only (setRoute (Scan_Route None) t)
      | Pick_Paste \<Rightarrow> only (setRoute (Paste_Route None None None) t)
      | Pick_Import \<Rightarrow> (t, Some Importing, None)
      | _ \<Rightarrow> only t)"

definition on_verify :: "contact \<Rightarrow> contacts_tap \<Rightarrow> contacts_tab \<Rightarrow> tapped" where
  "on_verify c tap t =
     (case tap of
        Back \<Rightarrow> only (goDetail (c_id c) t)
      | Not_Now \<Rightarrow> only (goDetail (c_id c) t)
      | Mark_Verified \<Rightarrow> (t, Some (Marking (c_id c)), None)
      | _ \<Rightarrow> only t)"

definition on_scan :: "string option \<Rightarrow> contacts_tap \<Rightarrow> contacts_tab \<Rightarrow> tapped" where
  "on_scan rekeyId tap t =
     (case tap of
        Back \<Rightarrow> only (case rekeyId of Some i \<Rightarrow> goDetail i t | None \<Rightarrow> goList t)
      | Scan_Paste \<Rightarrow> only (setRoute (Paste_Route None None rekeyId) t)
      | Scan_Result k \<Rightarrow> only (setRoute (Paste_Route (Some k) None rekeyId) t)
      | _ \<Rightarrow> only t)"

definition on_paste :: "contact option \<Rightarrow> contacts_tap \<Rightarrow> contacts_tab \<Rightarrow> tapped" where
  "on_paste rekey tap t =
     (case tap of
        Back \<Rightarrow> only (case rekey of Some c \<Rightarrow> goDetail (c_id c) t | None \<Rightarrow> goList t)
      | Type_Key k \<Rightarrow> only (paste_set (\<lambda>p. p\<lparr>ps_key := k, ps_error := None\<rparr>) t)
      | Type_Name n \<Rightarrow> only (paste_set (\<lambda>p. p\<lparr>ps_name := n, ps_error := None\<rparr>) t)
      | Paste_Clipboard s \<Rightarrow> only (if s = [] then t else paste_set (\<lambda>p. p\<lparr>ps_key := js_trim s, ps_error := None\<rparr>) t)
      | Submit \<Rightarrow> (fst (paste_submit rekey t), snd (paste_submit rekey t), None)
      | _ \<Rightarrow> only t)"

definition on_changed :: "string \<Rightarrow> string \<Rightarrow> contacts_tap \<Rightarrow> contacts_tab \<Rightarrow> tapped" where
  "on_changed i key tap t =
     (case tap of
        Update_Key \<Rightarrow> (t, Some (Updating i key), None)
      | Keep_Current \<Rightarrow> only (goDetail i t)
      | _ \<Rightarrow> only t)"

definition on_import_error :: "contacts_tap \<Rightarrow> contacts_tab \<Rightarrow> tapped" where
  "on_import_error tap t = (case tap of Back \<Rightarrow> only (goList t) | _ \<Rightarrow> only t)"

definition on_screen :: "(string \<Rightarrow> string) \<Rightarrow> screen \<Rightarrow> contacts_tap \<Rightarrow> contacts_tab \<Rightarrow> tapped" where
  "on_screen lbl sc tap t =
     (case sc of
        Empty_Screen \<Rightarrow> on_empty tap t
      | List_Screen \<Rightarrow> on_list tap t
      | Detail_Screen c \<Rightarrow> on_detail lbl c tap t
      | Add_Screen \<Rightarrow> on_add tap t
      | Verify_Screen c \<Rightarrow> on_verify c tap t
      | Scan_Screen i \<Rightarrow> on_scan i tap t
      | Paste_Screen r \<Rightarrow> on_paste r tap t
      | Changed_Screen i k v \<Rightarrow> on_changed i k tap t
      | Import_Error_Screen \<Rightarrow> on_import_error tap t)"

text \<open>How an awaited call ends; a call of the store draws the time and an id, the import yields its outcome.\<close>

datatype import_outcome = Card_Picked string string | Card_Canceled | Card_Error

datatype reply = Settles string string | Rejects | Imported import_outcome

definition paste_fails :: "nat \<Rightarrow> crypto_error contact_error \<Rightarrow> contacts_tab \<Rightarrow> contacts_tab" where
  "paste_fails m e t =
     (if shows_paste t \<and> ps_mount (ct_paste t) = m
      then paste_set (\<lambda>p. p\<lparr>ps_error := Some (pasteContactError e), ps_busy := False\<rparr>) t else t)"

text \<open>An error the screen has no message for; all of them read alike.\<close>

definition storage_failure :: "crypto_error contact_error" where
  "storage_failure = NotFoundError []"

text \<open>\<open>submitRekey\<close> after the detection.\<close>

definition submitRekey :: "nat \<Rightarrow> contact \<Rightarrow> string \<Rightarrow> crypto_error + key_change \<Rightarrow> contacts_tab \<Rightarrow> contacts_tab" where
  "submitRekey m c key detection t =
     (case detection of
        Inl e \<Rightarrow> paste_fails m (KeyError e) t
      | Inr SameKey \<Rightarrow> paste_fails m SameKeyError t
      | Inr RotatedBack \<Rightarrow> paste_fails m RotatedAwayError t
      | Inr (KeyChanged p n) \<Rightarrow> setRoute (Changed_Route (c_id c) key p n) t)"

type_synonym contacts_world = "contacts_tab \<times> book"

definition resume :: "('pub, 'priv) hpke_suite \<Rightarrow> (string \<Rightarrow> string \<Rightarrow> int) \<Rightarrow> reply \<Rightarrow> task \<Rightarrow> contacts_world \<Rightarrow> task option \<times> contacts_world" where
  "resume S collate r k w =
     (case w of (t, st) \<Rightarrow>
      let fpr = fingerprint (sha256 S); all = listContacts collate st in
      (case k of
         Loading \<Rightarrow> (case r of Rejects \<Rightarrow> (None, (t\<lparr>ct_loaded := True\<rparr>, st)) | _ \<Rightarrow> (None, (setRecords all t, st)))
       | Importing \<Rightarrow>
           (case r of
              Imported (Card_Picked key label) \<Rightarrow> (None, (setRoute (Paste_Route (Some key) (Some label) None) t, st))
            | Imported Card_Error \<Rightarrow> (None, (setRoute Import_Error_Route t, st))
            | _ \<Rightarrow> (None, (t, st)))
       | Checking m mode key \<Rightarrow>
           (case importPublicKey S key of
              Inl e \<Rightarrow> (None, (paste_fails m (KeyError e) t, st))
            | Inr _ \<Rightarrow>
                (case mode of
                   Rekeying c \<Rightarrow> (Some (Detecting m c key), (t, st))
                 | Adding name \<Rightarrow> (Some (Storing m name key), (t, st))))
       | Detecting m c key \<Rightarrow> (None, (submitRekey m c key (detectKeyChange fpr c key) t, st))
       | Storing m name key \<Rightarrow>
           (case r of
              Settles now uuid \<Rightarrow>
                (case addContact fpr now uuid \<lparr>in_label = name, in_publicKey = key\<rparr> st of
                   (Inr rec, st') \<Rightarrow> (Some (Reloading_Added m (c_id rec)), (t, st'))
                 | (Inl e, st') \<Rightarrow> (None, (paste_fails m e t, st')))
            | _ \<Rightarrow> (None, (paste_fails m storage_failure t, st)))
       | Reloading_Added m i \<Rightarrow> (case r of Rejects \<Rightarrow> (None, (t, st)) | _ \<Rightarrow> (None, (goDetail i (setRecords all t), st)))
       | Deleting i \<Rightarrow> (case r of Rejects \<Rightarrow> (None, (t, st)) | _ \<Rightarrow> (Some Reloading_Deleted, (t, deleteContact i st)))
       | Reloading_Deleted \<Rightarrow> (case r of Rejects \<Rightarrow> (None, (t, st)) | _ \<Rightarrow> (None, (goList (setRecords all t), st)))
       | Marking i \<Rightarrow>
           (case r of
              Settles now uuid \<Rightarrow>
                (case setContactVerified now i True st :: unit booked of
                   (Inr rec, st') \<Rightarrow> (Some (Reloading_Marked i), (t, st'))
                 | (Inl e, st') \<Rightarrow> (None, (t, st')))
            | _ \<Rightarrow> (None, (t, st)))
       | Reloading_Marked i \<Rightarrow> (case r of Rejects \<Rightarrow> (None, (t, st)) | _ \<Rightarrow> (None, (goDetail i (setRecords all t), st)))
       | Updating i key \<Rightarrow>
           (case r of
              Settles now uuid \<Rightarrow> (Some (Reloading_Updated i), (t, snd (updateContactKey fpr now i key st)))
            | _ \<Rightarrow> (Some (Reloading_Updated i), (t, st)))
       | Reloading_Updated i \<Rightarrow> (case r of Rejects \<Rightarrow> (None, (t, st)) | _ \<Rightarrow> (None, (goDetail i (setRecords all t), st)))))"

text \<open>
  Runs: taps on what is rendered, and tasks resumed in any order. The last argument lists the updates the user
  has asked for on an alert, with the alert; an id drawn is none of those the directory began with.
\<close>

inductive contacts_run :: "('pub, 'priv) hpke_suite \<Rightarrow> (string \<Rightarrow> string \<Rightarrow> int) \<Rightarrow> (string \<Rightarrow> string) \<Rightarrow> contacts_world
    \<Rightarrow> contacts_world \<Rightarrow> task list \<Rightarrow> (string \<times> string \<times> key_change_view) list \<Rightarrow> bool"
  for S collate lbl w0 where
  run_start: "contacts_run S collate lbl w0 w0 [Loading] []"
| run_tap: "contacts_run S collate lbl w0 (t, st) ks cs \<Longrightarrow> on_screen lbl (rendered t) tap t = (t', k, out) \<Longrightarrow>
     contacts_run S collate lbl w0 (t', st) (ks @ (case k of None \<Rightarrow> [] | Some k \<Rightarrow> [k]))
       (cs @ (case (rendered t, tap) of (Changed_Screen i key v, Update_Key) \<Rightarrow> [(i, key, v)] | _ \<Rightarrow> []))"
| run_resume: "contacts_run S collate lbl w0 w (ks1 @ k # ks2) cs \<Longrightarrow> resume S collate r k w = (k', w') \<Longrightarrow>
     (case r of Settles now uuid \<Rightarrow> uuid \<notin> book_ids (snd w0) | _ \<Rightarrow> True) \<Longrightarrow>
     contacts_run S collate lbl w0 w' (ks1 @ (case k' of None \<Rightarrow> [] | Some k' \<Rightarrow> [k']) @ ks2) cs"

section \<open>The web client's contact detail\<close>

record web_key_changed =
  kc_candidate :: string
  kc_previous :: string
  kc_new :: string

text \<open>\<open>wd_record\<close>: None while loading, then the contact or that there is none.\<close>

record web_detail =
  wd_id :: string
  wd_record :: "contact option option"
  wd_verifying :: bool
  wd_renaming :: bool
  wd_renameValue :: string
  wd_deleteOpen :: bool
  wd_deleting :: bool
  wd_rekeyOpen :: bool
  wd_scanTab :: bool
  wd_rekeyInput :: string
  wd_rekeyError :: "string option"
  wd_keyChanged :: "web_key_changed option"

definition web_detail_mount :: "string \<Rightarrow> web_detail" where
  "web_detail_mount i =
     \<lparr>wd_id = i, wd_record = None, wd_verifying = False, wd_renaming = False, wd_renameValue = [], wd_deleteOpen = False,
      wd_deleting = False, wd_rekeyOpen = False, wd_scanTab = False, wd_rekeyInput = [], wd_rekeyError = None, wd_keyChanged = None\<rparr>"

text \<open>\<open>reload\<close>; the read may reject.\<close>

definition web_reload :: "bool \<Rightarrow> web_book \<Rightarrow> web_detail \<Rightarrow> web_detail" where
  "web_reload reads s d =
     (if length (wd_id d) = 0 then d\<lparr>wd_record := Some None\<rparr>
      else if reads then d\<lparr>wd_record := Some (web_getContact (wd_id d) s)\<rparr>
      else d\<lparr>wd_record := Some None\<rparr>)"

definition web_onResult :: "string \<Rightarrow> web_detail \<Rightarrow> web_detail" where
  "web_onResult scanned d = d\<lparr>wd_rekeyInput := scanned, wd_rekeyError := None, wd_scanTab := False\<rparr>"

text \<open>\<open>submitRekey\<close> for the record it was rendered with.\<close>

definition web_submitRekey :: "('pub, 'priv) hpke_suite \<Rightarrow> contact \<Rightarrow> web_detail \<Rightarrow> web_detail" where
  "web_submitRekey S c d =
     (case validatePublicKey S (wd_rekeyInput d) of
        ValidKey key fp \<Rightarrow>
          if fp = c_fingerprint c
          then d\<lparr>wd_rekeyError := Some (''That'' @ [CHR 0x27] @ ''s already this contact'' @ [CHR 0x27] @ ''s current key.'')\<rparr>
          else if fp \<in> set (c_previous c)
          then d\<lparr>wd_rekeyError := Some ''This key was previously rotated away from this contact.''\<rparr>
          else let view = web_keyChangeAlertView (c_label c) (c_fingerprint c) fp
               in d\<lparr>wd_rekeyError := None, wd_keyChanged := Some \<lparr>kc_candidate = key, kc_previous = kv_previous view, kc_new = kv_new view\<rparr>\<rparr>
      | _ \<Rightarrow> d\<lparr>wd_rekeyError := Some (''That doesn'' @ [CHR 0x27] @ ''t look like a valid aesmsg public key. Check the whole key.'')\<rparr>)"

text \<open>The handlers that write, each as what it does to the store and to the screen when its calls succeed.\<close>

definition web_submitRename :: "string \<Rightarrow> web_detail \<Rightarrow> web_book \<Rightarrow> web_detail \<times> web_book" where
  "web_submitRename now d s =
     (case wd_record d of
        Some (Some c) \<Rightarrow>
          (case web_renameContact now (c_id c) (wd_renameValue d) s :: crypto_error web_booked of
             (Inr _, s') \<Rightarrow> (web_reload True s' (d\<lparr>wd_renaming := False\<rparr>), s')
           | (Inl e, s') \<Rightarrow> (d\<lparr>wd_rekeyError := Some (contactErrorCopy e)\<rparr>, s'))
      | _ \<Rightarrow> (d, s))"

definition adoptNewKey :: "('pub, 'priv) hpke_suite \<Rightarrow> string \<Rightarrow> web_detail \<Rightarrow> web_book \<Rightarrow> web_detail \<times> web_book" where
  "adoptNewKey S now d s =
     (case (wd_record d, wd_keyChanged d) of
        (Some (Some c), Some kc) \<Rightarrow>
          let s' = snd (web_updateContactKey (fingerprint (sha256 S)) now (c_id c) (kc_candidate kc) s)
          in (web_reload True s' (d\<lparr>wd_keyChanged := None, wd_rekeyOpen := False, wd_rekeyInput := []\<rparr>), s')
      | _ \<Rightarrow> (d, s))"

definition web_markVerified :: "string \<Rightarrow> web_detail \<Rightarrow> web_book \<Rightarrow> web_detail \<times> web_book" where
  "web_markVerified now d s =
     (case wd_record d of
        Some (Some c) \<Rightarrow>
          (case web_setContactVerified now (c_id c) True s :: unit web_booked of
             (Inr _, s') \<Rightarrow> ((web_reload True s' d)\<lparr>wd_verifying := False\<rparr>, s')
           | (Inl e, s') \<Rightarrow> (d, s'))
      | _ \<Rightarrow> (d, s))"

definition web_markUnverified :: "string \<Rightarrow> web_detail \<Rightarrow> web_book \<Rightarrow> web_detail \<times> web_book" where
  "web_markUnverified now d s =
     (case wd_record d of
        Some (Some c) \<Rightarrow>
          (case web_setContactVerified now (c_id c) False s :: unit web_booked of
             (Inr _, s') \<Rightarrow> (web_reload True s' d, s')
           | (Inl e, s') \<Rightarrow> (d, s'))
      | _ \<Rightarrow> (d, s))"

definition web_confirmDelete :: "web_detail \<Rightarrow> web_book \<Rightarrow> web_detail \<times> web_book" where
  "web_confirmDelete d s =
     (case wd_record d of
        Some (Some c) \<Rightarrow> (d\<lparr>wd_deleting := False, wd_deleteOpen := False\<rparr>, web_deleteContact (c_id c) s)
      | _ \<Rightarrow> (d, s))"

definition sendSecureMessage :: "(string \<Rightarrow> string) \<Rightarrow> web_detail \<Rightarrow> picked_recipient option" where
  "sendSecureMessage lbl d =
     (case wd_record d of
        Some (Some c) \<Rightarrow> Some (PickedContact (web_contactRecordToContact lbl c) (c_publicKey c) (c_fingerprint c))
      | _ \<Rightarrow> None)"

end
