(* ===== verification/Compose_Options.thy ===== *)
theory Compose_Options
  imports Mobile_Composer
begin

text \<open>
  What a sender can choose: expiries and open limits of the two clients (apps/mobile/src/create: expiry.ts,
  compose-options.ts; apps/mobile/src/pro: custom-expiry.ts, entitlements.ts, entitlement-model.ts,
  purchase-state.ts; apps/webapp/src/create/compose-options.ts). Dates are milliseconds, None an invalid date.
\<close>

section \<open>The mobile client\<close>

datatype expiry_choice = Exp10m | Exp1h | Exp24h | Exp7d | Exp1y

definition MAX_LINK_LIFETIME_MS :: int where "MAX_LINK_LIFETIME_MS = 365 * 24 * 60 * 60 * 1000"

definition EXPIRY_OPTIONS :: "(expiry_choice \<times> string) list" where
  "EXPIRY_OPTIONS = [(Exp10m, ''10 minutes''), (Exp1h, ''1 hour''), (Exp24h, ''24 hours''), (Exp7d, ''7 days''),
     (Exp1y, ''1 year (maximum)'')]"

definition MAX_OPENS_OPTIONS :: "(int \<times> string) list" where
  "MAX_OPENS_OPTIONS = [(1, ''Once''), (5, ''5 times''), (10, ''10 times''), (-1, ''Unlimited (until expiry)'')]"

fun expiryToDate :: "expiry_choice \<Rightarrow> int \<Rightarrow> int" where
  "expiryToDate Exp10m now = now + 10 * 60 * 1000"
| "expiryToDate Exp1h now = now + 60 * 60 * 1000"
| "expiryToDate Exp24h now = now + 24 * 60 * 60 * 1000"
| "expiryToDate Exp7d now = now + 7 * 24 * 60 * 60 * 1000"
| "expiryToDate Exp1y now = now + MAX_LINK_LIFETIME_MS"

definition DEFAULT_EXPIRY :: expiry_choice where "DEFAULT_EXPIRY = Exp24h"

definition expiryOptionRows :: "(expiry_choice \<times> string \<times> bool) list" where
  "expiryOptionRows = map (\<lambda>(v, l). (v, l, v = DEFAULT_EXPIRY)) EXPIRY_OPTIONS"

definition expirySummary :: "expiry_choice \<Rightarrow> string" where
  "expirySummary choice = (case List.find (\<lambda>p. fst p = choice) EXPIRY_OPTIONS of None \<Rightarrow> [] | Some p \<Rightarrow> snd p)"

definition MAX_OPENS_DESCRIPTIONS :: "int \<Rightarrow> string" where
  "MAX_OPENS_DESCRIPTIONS n =
     (if n = 1 then ''Burns after the first successful open.''
      else if n = 5 then ''Available for up to five opens, then gone.''
      else if n = 10 then ''Available for up to ten opens, then gone.''
      else ''Opens freely until the link expires.'')"

definition maxOpensOptionRows :: "(int \<times> string \<times> string) list" where
  "maxOpensOptionRows = map (\<lambda>(v, l). (v, l, MAX_OPENS_DESCRIPTIONS v)) MAX_OPENS_OPTIONS"

definition maxOpensSummary :: "int \<Rightarrow> string" where
  "maxOpensSummary choice = (case List.find (\<lambda>p. fst p = choice) MAX_OPENS_OPTIONS of None \<Rightarrow> [] | Some p \<Rightarrow> snd p)"

datatype expiry_check = ExpiryOk | TooSoon | TooFar

definition CUSTOM_EXPIRY_MIN_MS :: int where "CUSTOM_EXPIRY_MIN_MS = 5 * (60 * 1000)"
definition CUSTOM_EXPIRY_MAX_MS :: int where "CUSTOM_EXPIRY_MAX_MS = MAX_LINK_LIFETIME_MS"

definition validateCustomExpiry :: "int option \<Rightarrow> int \<Rightarrow> expiry_check" where
  "validateCustomExpiry date now =
     (case date of
        None \<Rightarrow> TooSoon
      | Some t \<Rightarrow>
          let delta = t - now in
          if delta < CUSTOM_EXPIRY_MIN_MS then TooSoon
          else if delta > CUSTOM_EXPIRY_MAX_MS then TooFar
          else ExpiryOk)"

definition customExpiryDefault :: "int \<Rightarrow> int" where
  "customExpiryDefault now = now + 3 * (24 * 60 * (60 * 1000))"

section \<open>The Pro tier\<close>

definition FREE_ATTACHMENT_BYTES :: nat where "FREE_ATTACHMENT_BYTES = 10 * 1024 * 1024"
definition PRO_ATTACHMENT_BYTES :: nat where "PRO_ATTACHMENT_BYTES = 25 * 1024 * 1024"

definition maxAttachmentBytes :: "bool \<Rightarrow> nat" where
  "maxAttachmentBytes isPro = (if isPro then PRO_ATTACHMENT_BYTES else FREE_ATTACHMENT_BYTES)"

definition allowsCustomExpiry :: "bool \<Rightarrow> bool" where
  "allowsCustomExpiry isPro = isPro"

datatype interval = Monthly | Annual

definition PRODUCT_IDS :: "interval \<Rightarrow> string" where
  "PRODUCT_IDS i = (case i of Monthly \<Rightarrow> ''com.aesmsg.app.pro.monthly'' | Annual \<Rightarrow> ''com.aesmsg.app.pro.annual'')"

record entitlement =
  en_isPro :: bool
  en_interval :: "interval option"
  en_renewsAt :: "js_num option"
  en_productId :: "string option"

definition FREE_ENTITLEMENT :: entitlement where
  "FREE_ENTITLEMENT = \<lparr>en_isPro = False, en_interval = None, en_renewsAt = None, en_productId = None\<rparr>"

record subscription =
  su_productId :: string
  su_expiresAtMs :: "js_num option"

record plan_product =
  pp_interval :: interval
  pp_productId :: string
  pp_displayPrice :: string
  pp_currencyCode :: string

record store_product =
  po_id :: string
  po_displayPrice :: string
  po_currencyCode :: string

definition intervalForProduct :: "string \<Rightarrow> interval option" where
  "intervalForProduct productId =
     (if productId = PRODUCT_IDS Monthly then Some Monthly
      else if productId = PRODUCT_IDS Annual then Some Annual
      else None)"

fun toEntitlement :: "subscription list \<Rightarrow> entitlement" where
  "toEntitlement [] = FREE_ENTITLEMENT"
| "toEntitlement (s # active) =
     (case intervalForProduct (su_productId s) of
        None \<Rightarrow> toEntitlement active
      | Some i \<Rightarrow>
          \<lparr>en_isPro = True, en_interval = Some i,
           en_renewsAt = (case su_expiresAtMs s of Some (Fin q) \<Rightarrow> Some (Fin q) | _ \<Rightarrow> None),
           en_productId = Some (su_productId s)\<rparr>)"

fun toPlanProducts :: "store_product list \<Rightarrow> plan_product list" where
  "toPlanProducts [] = []"
| "toPlanProducts (p # ps) =
     (case intervalForProduct (po_id p) of
        None \<Rightarrow> toPlanProducts ps
      | Some i \<Rightarrow>
          \<lparr>pp_interval = i, pp_productId = po_id p, pp_displayPrice = po_displayPrice p, pp_currencyCode = po_currencyCode p\<rparr>
          # toPlanProducts ps)"

datatype purchase_error = Purchase_Cancelled | Purchase_Deferred | Purchase_Failed
datatype purchase_phase = Purchase_Idle | Purchase_Pending | Purchase_Error purchase_error
datatype restore_phase = Restore_Idle | Restore_Pending | Restore_Done bool | Restore_Error

definition classifyPurchaseError :: "string option \<Rightarrow> purchase_error" where
  "classifyPurchaseError code =
     (if code = Some ''user-cancelled'' then Purchase_Cancelled
      else if code = Some ''deferred-payment'' then Purchase_Deferred
      else Purchase_Failed)"

definition isPurchaseInFlight :: "purchase_phase \<Rightarrow> bool" where
  "isPurchaseInFlight p = (p = Purchase_Pending)"

definition isRestoreInFlight :: "restore_phase \<Rightarrow> bool" where
  "isRestoreInFlight p = (p = Restore_Pending)"

section \<open>The web client\<close>

datatype web_expiry = Web10m | Web1h | Web24h | Web7d | WebCustom

definition WEB_MAX_LINK_LIFETIME_MS :: int where "WEB_MAX_LINK_LIFETIME_MS = 365 * (24 * (60 * (60 * 1000)))"
definition MIN_CUSTOM_EXPIRY_MS :: int where "MIN_CUSTOM_EXPIRY_MS = 60 * 1000"

text \<open>The label of the last entry ends in an ellipsis, which this type of texts does not have.\<close>

definition EXPIRY_PRESETS :: "(web_expiry \<times> int option) list" where
  "EXPIRY_PRESETS = [(Web10m, Some (10 * (60 * 1000))), (Web1h, Some (60 * (60 * 1000))), (Web24h, Some (24 * (60 * (60 * 1000)))),
     (Web7d, Some (7 * (24 * (60 * (60 * 1000))))), (WebCustom, None)]"

definition WEB_DEFAULT_EXPIRY :: web_expiry where "WEB_DEFAULT_EXPIRY = Web24h"

definition WEB_MAX_OPENS_OPTIONS :: "(int \<times> string) list" where
  "WEB_MAX_OPENS_OPTIONS = [(1, ''1 view (burn on read)''), (3, ''3 views''), (-1, ''Unlimited (until expiry)'')]"

definition DEFAULT_MAX_OPENS :: int where "DEFAULT_MAX_OPENS = 1"

definition web_validateCustomExpiry :: "int option \<Rightarrow> int \<Rightarrow> expiry_check" where
  "web_validateCustomExpiry date now =
     (case date of
        None \<Rightarrow> TooSoon
      | Some t \<Rightarrow>
          let delta = t - now in
          if delta < MIN_CUSTOM_EXPIRY_MS then TooSoon
          else if delta > WEB_MAX_LINK_LIFETIME_MS then TooFar
          else ExpiryOk)"

text \<open>The custom date is absent (None), invalid (\<open>Some None\<close>) or a time.\<close>

definition web_expiryToDate :: "web_expiry \<Rightarrow> int \<Rightarrow> int option option \<Rightarrow> int" where
  "web_expiryToDate choice now customDate =
     (case List.find (\<lambda>p. fst p = choice) EXPIRY_PRESETS of
        Some (_, Some offset) \<Rightarrow> now + offset
      | _ \<Rightarrow>
          let mn = now + MIN_CUSTOM_EXPIRY_MS; mx = now + WEB_MAX_LINK_LIFETIME_MS;
              target = (case customDate of None \<Rightarrow> mx | Some None \<Rightarrow> mn | Some (Some t) \<Rightarrow> t)
          in min (max target mn) mx)"

section \<open>What can be chosen is accepted\<close>

lemmas option_consts = MAX_LINK_LIFETIME_MS_def CUSTOM_EXPIRY_MIN_MS_def CUSTOM_EXPIRY_MAX_MS_def WEB_MAX_LINK_LIFETIME_MS_def
  MIN_CUSTOM_EXPIRY_MS_def EXPIRY_PRESETS_def

lemma expiry_bounds: "now + 10 * 60 * 1000 \<le> expiryToDate choice now \<and> expiryToDate choice now \<le> now + MAX_LINK_LIFETIME_MS"
  by (cases choice) (simp_all add: option_consts)

lemma custom_bounds:
  "validateCustomExpiry date now = ExpiryOk \<longleftrightarrow>
     (\<exists>t. date = Some t \<and> now + CUSTOM_EXPIRY_MIN_MS \<le> t \<and> t \<le> now + MAX_LINK_LIFETIME_MS)"
  by (auto simp: validateCustomExpiry_def option_consts Let_def split: option.splits)

lemma web_custom_bounds:
  "web_validateCustomExpiry date now = ExpiryOk \<longleftrightarrow>
     (\<exists>t. date = Some t \<and> now + MIN_CUSTOM_EXPIRY_MS \<le> t \<and> t \<le> now + WEB_MAX_LINK_LIFETIME_MS)"
  by (auto simp: web_validateCustomExpiry_def option_consts Let_def split: option.splits)

lemma web_expiry_bounds:
  "now + MIN_CUSTOM_EXPIRY_MS \<le> web_expiryToDate choice now custom \<and> web_expiryToDate choice now custom \<le> now + MAX_LINK_LIFETIME_MS"
  by (cases choice) (auto simp: web_expiryToDate_def option_consts Let_def)

text \<open>A custom date the form lets through is sent as it is, not clamped.\<close>

lemma web_custom_exact:
  "web_validateCustomExpiry (Some t) now = ExpiryOk \<Longrightarrow> web_expiryToDate WebCustom now (Some (Some t)) = t"
  by (auto simp: web_custom_bounds) (auto simp: web_expiryToDate_def option_consts)

definition offered_expiry :: "int \<Rightarrow> int \<Rightarrow> bool" where
  "offered_expiry now t =
     ((\<exists>choice. t = expiryToDate choice now) \<or> validateCustomExpiry (Some t) now = ExpiryOk
      \<or> (\<exists>choice custom. t = web_expiryToDate choice now custom))"

definition offered_opens :: "int set" where
  "offered_opens = fst ` set MAX_OPENS_OPTIONS \<union> fst ` set WEB_MAX_OPENS_OPTIONS"

lemma offered_bounds: "offered_expiry now t \<Longrightarrow> now + MIN_CUSTOM_EXPIRY_MS \<le> t \<and> t \<le> now + MAX_LINK_LIFETIME_MS"
proof -
  assume "offered_expiry now t"
  then consider choice where "t = expiryToDate choice now" | "validateCustomExpiry (Some t) now = ExpiryOk"
    | choice custom where "t = web_expiryToDate choice now custom" by (auto simp: offered_expiry_def)
  then show ?thesis
  proof cases
    case (1 choice)
    then show ?thesis using expiry_bounds [of now choice] by (simp add: option_consts)
  next
    case 2
    then show ?thesis by (auto simp: custom_bounds option_consts)
  next
    case (3 choice custom)
    then show ?thesis using web_expiry_bounds by simp
  qed
qed

lemma offered_opens_iff: "m \<in> offered_opens \<longleftrightarrow> m \<in> {-1, 1, 3, 5, 10}"
  by (auto simp: offered_opens_def MAX_OPENS_OPTIONS_def WEB_MAX_OPENS_OPTIONS_def)

text \<open>
  Whatever a client offers the server takes. Every expiry either client computes or lets through and
  every open limit it offers passes the checks of sealing and, unless the clocks differ by more than the
  server's grace of an hour or the link has expired on the way, the checks of the server with its default
  retention; and no link outlives a year.
\<close>

theorem offered_choices_accepted:
  assumes "offered_expiry now t" "m \<in> offered_opens" "0 \<le> now" "now \<le> 2 ^ 52"
    "now - RETENTION_GRACE_MS \<le> server_now" "server_now < t" "maxRetentionMs env = None" "parse_date env e = Some t"
    "LINK_ID_REGEX i" "decodeBase64 c = Some blob" "MIN_CIPHERTEXT_BYTES \<le> length blob" "length blob \<le> MAX_CIPHERTEXT_BYTES"
  shows "check_create env server_now \<lparr>b_id = i, b_ciphertext = c, b_expiresAt = e, b_maxOpens = num m\<rparr> = Some (t, blob)
    \<and> aad_checks \<lparr>linkId = i, recipientPublicKey = pk, createdAtMs = None, expiresAtMs = num t, maxOpens = num m\<rparr> = Inr ()
    \<and> now < t \<and> t \<le> now + 365 * 24 * 60 * 60 * 1000"
proof -
  have t: "now + 60000 \<le> t" "t \<le> now + 31536000000" using offered_bounds [OF assms(1)] by (simp_all add: option_consts)
  have m: "m = -1 \<or> 0 < m" using assms(2) by (auto simp: offered_opens_iff)
  have "t - server_now \<le> DEFAULT_MAX_RETENTION_MS + RETENTION_GRACE_MS"
    using t(2) assms(5) by (simp add: DEFAULT_MAX_RETENTION_MS_def RETENTION_GRACE_MS_def)
  moreover have "isSafeInteger (num t)" using t assms(3,4) by (simp add: isSafeInteger_def)
  ultimately show ?thesis
    using assms(3,6-12) t m by (auto simp: check_create_def aad_checks_def Let_def)
qed

text \<open>
  The longest expiry, set on a device whose clock is ten minutes ahead of the server's.
\<close>

theorem offered_choices_accepted_witness:
  "\<exists>env. check_create env 400000 \<lparr>b_id = ''AAAAAAAAAAAAAAAA'', b_ciphertext = bytesToBase64 (replicate 1000 0),
      b_expiresAt = [], b_maxOpens = num 5\<rparr> = Some (31537000000, replicate 1000 0)"
proof -
  let ?env = "\<lparr>parse_json = (\<lambda>s. None), parse_date = (\<lambda>s. Some 31537000000), iso_date = (\<lambda>t. []), hash_token = (\<lambda>t. t),
     hash_ip = (\<lambda>s. s), publicLinkOrigin = [], maxRetentionMs = None\<rparr>"
  have "decodeBase64 (bytesToBase64 (replicate 1000 (0 :: byte))) = Some (replicate 1000 0)"
    by (rule decodeBase64_bytesToBase64)
  moreover have "offered_expiry 1000000 31537000000" unfolding offered_expiry_def
    by (rule disjI1, rule exI [of _ Exp1y]) (simp add: option_consts)
  moreover have "LINK_ID_REGEX ''AAAAAAAAAAAAAAAA''" by (simp add: LINK_ID_REGEX_def alnum_def char_in_def)
  moreover have "MIN_CIPHERTEXT_BYTES \<le> length (replicate 1000 (0 :: byte))" "length (replicate 1000 (0 :: byte)) \<le> MAX_CIPHERTEXT_BYTES"
    by (simp_all only: length_replicate MIN_CIPHERTEXT_BYTES_def MAX_CIPHERTEXT_BYTES_def)
  moreover have "(5 :: int) \<in> offered_opens" "(1000000 :: int) - RETENTION_GRACE_MS \<le> 400000"
    by (simp_all add: offered_opens_iff RETENTION_GRACE_MS_def)
  ultimately have "check_create ?env 400000 \<lparr>b_id = ''AAAAAAAAAAAAAAAA'', b_ciphertext = bytesToBase64 (replicate 1000 0),
      b_expiresAt = [], b_maxOpens = num 5\<rparr> = Some (31537000000, replicate 1000 0)"
    using offered_choices_accepted [of 1000000 31537000000 5 400000 ?env "[]" "''AAAAAAAAAAAAAAAA''" "bytesToBase64 (replicate 1000 0)"
        "replicate 1000 0" "[]"] by simp
  then show ?thesis by blast
qed

end
