(* ===== verification/Compose_Screens.thy ===== *)
theory Compose_Screens
  imports Compose_Options Contact_Trust Web_Messages
begin

text \<open>
  The screens a message is composed on: apps/mobile/src/create (ComposeScreen.tsx, CreateFlow.tsx,
  create-outcome.ts, result-save-contact.ts, encrypting-steps.ts) and apps/webapp/src/screens
  (ComposeScreen.tsx, the key field of AddContactScreen.tsx). React state is a record; an effect is run with
  the update that triggers it; the check of a key is asynchronous, so its end is an event of its own, and a
  newer check cancels an older one. Layout, message texts, the open sheet and the shield are left out.
\<close>

definition blank_unit :: "16 word \<Rightarrow> bool" where
  "blank_unit u = (unat u \<in> {9, 10, 11, 12, 13, 32, 160, 0x1680, 0x2028, 0x2029, 0x202F, 0x205F, 0x3000, 0xFEFF}
     \<or> 0x2000 \<le> unat u \<and> unat u \<le> 0x200A)"

text \<open>\<open>message.trim().length > 0\<close>\<close>

definition has_text :: "js_text \<Rightarrow> bool" where
  "has_text m = list_ex (\<lambda>u. \<not> blank_unit u) m"

definition check_key :: "('pub, 'priv) hpke_suite \<Rightarrow> string \<Rightarrow> crypto_error + string" where
  "check_key S trimmed = and_then (importPublicKey S trimmed) (\<lambda>_. fingerprint (sha256 S) trimmed)"

section \<open>The mobile composer\<close>

record compose =
  cm_message :: js_text
  cm_recipient :: "recipient option"
  cm_recipientKey :: string
  cm_fp :: "string option"
  cm_keyError :: bool
  cm_flight :: "string option"
  cm_expiry :: expiry_choice
  cm_maxOpens :: int
  cm_attachment :: "payload_attachment option"
  cm_customExpiresAt :: "int option"
  cm_keyChanged :: "recipient option"

text \<open>The effect on \<open>recipientKey\<close>: what was shown is cleared and a check of the new key starts.\<close>

definition begin_check :: "compose \<Rightarrow> compose" where
  "begin_check s =
     (let trimmed = js_trim (cm_recipientKey s) in
      if trimmed = [] then s\<lparr>cm_fp := None, cm_keyError := False, cm_flight := None\<rparr>
      else s\<lparr>cm_fp := None, cm_keyError := False, cm_flight := Some trimmed\<rparr>)"

definition setRecipientKey :: "string \<Rightarrow> compose \<Rightarrow> compose" where
  "setRecipientKey k s = (if k = cm_recipientKey s then s else begin_check (s\<lparr>cm_recipientKey := k\<rparr>))"

text \<open>\<open>setRecipient\<close> with the effect on \<open>recipient\<close>.\<close>

definition setRecipient :: "recipient option \<Rightarrow> compose \<Rightarrow> compose" where
  "setRecipient r s =
     setRecipientKey (case recipientPublicKeyString r of None \<Rightarrow> [] | Some k \<Rightarrow> k) (s\<lparr>cm_recipient := r\<rparr>)"

definition compose_mount :: "recipient option \<Rightarrow> compose" where
  "compose_mount initialRecipient =
     setRecipient (fst (seedComposeRecipient initialRecipient))
       \<lparr>cm_message = [], cm_recipient = None, cm_recipientKey = [], cm_fp = None, cm_keyError = False, cm_flight = None,
        cm_expiry = DEFAULT_EXPIRY, cm_maxOpens = 1, cm_attachment = None, cm_customExpiresAt = None,
        cm_keyChanged = snd (seedComposeRecipient initialRecipient)\<rparr>"

definition handlePicked :: "recipient \<Rightarrow> compose \<Rightarrow> compose" where
  "handlePicked r s = (if isChangedContactRecipient r then s\<lparr>cm_keyChanged := Some r\<rparr> else setRecipient (Some r) s)"

definition onProceed :: "compose \<Rightarrow> compose" where
  "onProceed s = (case cm_keyChanged s of None \<Rightarrow> s | Some r \<Rightarrow> (setRecipient (Some r) s)\<lparr>cm_keyChanged := None\<rparr>)"

definition key_checked :: "('pub, 'priv) hpke_suite \<Rightarrow> compose \<Rightarrow> compose" where
  "key_checked S s =
     (case cm_flight s of
        None \<Rightarrow> s
      | Some trimmed \<Rightarrow>
          (case check_key S trimmed of
             Inr f \<Rightarrow> s\<lparr>cm_fp := Some (projr (truncateFingerprint f 8)), cm_keyError := False, cm_flight := None\<rparr>
           | Inl e \<Rightarrow> s\<lparr>cm_fp := None, cm_keyError := True, cm_flight := None\<rparr>))"

definition canSend :: "bool \<Rightarrow> compose \<Rightarrow> bool" where
  "canSend busy s = ((has_text (cm_message s) \<or> cm_attachment s \<noteq> None) \<and> cm_fp s \<noteq> None \<and> \<not> cm_keyError s \<and> \<not> busy)"

definition compose_submit :: "bool \<Rightarrow> int \<Rightarrow> compose \<Rightarrow> seal_input option" where
  "compose_submit busy now s =
     (if \<not> canSend busy s then None
      else Some \<lparr>si_recipient = js_trim (cm_recipientKey s), si_message = cm_message s,
                 si_expiresAt = (case cm_customExpiresAt s of Some d \<Rightarrow> d | None \<Rightarrow> expiryToDate (cm_expiry s) now),
                 si_maxOpens = num (cm_maxOpens s), si_label = None, si_attachment = cm_attachment s\<rparr>)"

datatype compose_event =
    TypeMessage js_text | Attach "payload_attachment option" | PickRecipient recipient | Proceed | DismissWarning
  | KeyChecked | PickExpiry expiry_choice | PickCustomExpiry int | PickMaxOpens int

fun compose_step :: "('pub, 'priv) hpke_suite \<Rightarrow> compose_event \<Rightarrow> compose \<Rightarrow> compose" where
  "compose_step S (TypeMessage m) s = s\<lparr>cm_message := m\<rparr>"
| "compose_step S (Attach a) s = s\<lparr>cm_attachment := a\<rparr>"
| "compose_step S (PickRecipient r) s = handlePicked r s"
| "compose_step S Proceed s = onProceed s"
| "compose_step S DismissWarning s = s\<lparr>cm_keyChanged := None\<rparr>"
| "compose_step S KeyChecked s = key_checked S s"
| "compose_step S (PickExpiry e) s = s\<lparr>cm_expiry := e, cm_customExpiresAt := None\<rparr>"
| "compose_step S (PickCustomExpiry d) s = s\<lparr>cm_customExpiresAt := Some d\<rparr>"
| "compose_step S (PickMaxOpens m) s = s\<lparr>cm_maxOpens := m\<rparr>"

section \<open>The mobile creation flow\<close>

datatype step_status = Step_Done | Step_Active | Step_Pending

definition ENCRYPTING_PHASES :: "encrypting_phase list" where
  "ENCRYPTING_PHASES = [Prepare, Encrypt, Upload]"

fun phase_label :: "encrypting_phase \<Rightarrow> string" where
  "phase_label Prepare = ''Preparing message''"
| "phase_label Encrypt = ''Encrypting locally''"
| "phase_label Upload = ''Uploading ciphertext''"

definition encryptingSteps :: "encrypting_phase \<Rightarrow> (encrypting_phase \<times> string \<times> step_status) list" where
  "encryptingSteps active =
     (let activeIndex = the (findIndex (\<lambda>p. p = active) ENCRYPTING_PHASES) in
      map (\<lambda>(p, i). (p, phase_label p, if i < activeIndex then Step_Done else if i = activeIndex then Step_Active else Step_Pending))
        (zip ENCRYPTING_PHASES [0..<length ENCRYPTING_PHASES]))"

definition encryptingHeading :: "encrypting_phase \<Rightarrow> string" where
  "encryptingHeading active = phase_label active"

fun isUnknownRecipientFingerprint :: "string \<Rightarrow> contact list \<Rightarrow> bool" where
  "isUnknownRecipientFingerprint fp [] = True"
| "isUnknownRecipientFingerprint fp (c # cs) =
     (if c_fingerprint c = fp then False
      else if fp \<in> set (c_previous c) then False
      else isUnknownRecipientFingerprint fp cs)"

datatype create_state =
    Composing "create_failure option"
  | Encrypting seal_input encrypting_phase
  | Showing seal_output seal_input

text \<open>
  Attempts are numbered; \<open>fl_abort\<close> is the attempt whose controller the ref holds, \<open>fl_aborted\<close> those whose
  controller was aborted, \<open>fl_reminders\<close> the links a reminder was scheduled for.
\<close>

record create_flow =
  fl_state :: create_state
  fl_abort :: "nat option"
  fl_cancelled :: bool
  fl_aborted :: "nat list"
  fl_started :: nat
  fl_reminders :: "(string \<times> int) list"

definition flow_mount :: create_flow where
  "flow_mount = \<lparr>fl_state = Composing None, fl_abort = None, fl_cancelled = False, fl_aborted = [], fl_started = 0, fl_reminders = []\<rparr>"

definition flow_submit :: "seal_input \<Rightarrow> create_flow \<Rightarrow> create_flow" where
  "flow_submit v f = f\<lparr>fl_abort := Some (fl_started f), fl_cancelled := False, fl_state := Encrypting v Prepare, fl_started := fl_started f + 1\<rparr>"

definition flow_phase :: "encrypting_phase \<Rightarrow> create_flow \<Rightarrow> create_flow" where
  "flow_phase p f = (case fl_state f of Encrypting v _ \<Rightarrow> f\<lparr>fl_state := Encrypting v p\<rparr> | _ \<Rightarrow> f)"

text \<open>The end of an attempt's \<open>createAndSeal\<close>, with the \<open>finally\<close> block.\<close>

definition flow_settle :: "seal_input \<Rightarrow> reader_error + seal_output \<Rightarrow> create_flow \<Rightarrow> create_flow" where
  "flow_settle v r f =
     (case r of
        Inr out \<Rightarrow>
          if fl_cancelled f then f\<lparr>fl_abort := None\<rparr>
          else f\<lparr>fl_state := Showing out v, fl_reminders := fl_reminders f @ [(so_id out, si_expiresAt v)], fl_abort := None\<rparr>
      | Inl e \<Rightarrow>
          if fl_cancelled f then f\<lparr>fl_state := Composing None, fl_abort := None\<rparr>
          else f\<lparr>fl_state := Composing (Some (classifyCreateFailure e)), fl_abort := None\<rparr>)"

definition cancelEncrypting :: "create_flow \<Rightarrow> create_flow" where
  "cancelEncrypting f =
     f\<lparr>fl_cancelled := True, fl_aborted := fl_aborted f @ (case fl_abort f of None \<Rightarrow> [] | Some n \<Rightarrow> [n]), fl_state := Composing None\<rparr>"

datatype flow_event = Submitted seal_input | PhaseReported encrypting_phase | Cancelled | Ended seal_input "reader_error + seal_output" | NewMessage

fun flow_step :: "flow_event \<Rightarrow> create_flow \<Rightarrow> create_flow" where
  "flow_step (Submitted v) f = flow_submit v f"
| "flow_step (PhaseReported p) f = flow_phase p f"
| "flow_step Cancelled f = cancelEncrypting f"
| "flow_step (Ended v r) f = flow_settle v r f"
| "flow_step NewMessage f = f\<lparr>fl_state := Composing None\<rparr>"

section \<open>The web composer\<close>

record key_field =
  kf_input :: string
  kf_checked :: "key_validation option"
  kf_flight :: "string option"

definition empty_field :: key_field where
  "empty_field = \<lparr>kf_input = [], kf_checked = None, kf_flight = None\<rparr>"

text \<open>The effect on the input: an old result stays until the new check ends.\<close>

definition field_edit :: "string \<Rightarrow> key_field \<Rightarrow> key_field" where
  "field_edit t f =
     (if t = kf_input f then f
      else let trimmed = js_trim t in
        if length trimmed = 0 then f\<lparr>kf_input := t, kf_checked := None, kf_flight := None\<rparr>
        else f\<lparr>kf_input := t, kf_flight := Some trimmed\<rparr>)"

definition field_checked :: "('pub, 'priv) hpke_suite \<Rightarrow> key_field \<Rightarrow> key_field" where
  "field_checked S f =
     (case kf_flight f of
        None \<Rightarrow> f
      | Some trimmed \<Rightarrow> f\<lparr>kf_checked := Some (validatePublicKey S trimmed), kf_flight := None\<rparr>)"

datatype recipient_mode = Paste_Mode | Contact_Mode

record web_created_link =
  wl_created_url :: string
  wl_created_fingerprint :: string

record web_compose =
  wc_mode :: recipient_mode
  wc_field :: key_field
  wc_picked :: "picked_recipient option"
  wc_keyChanged :: "picked_recipient option"
  wc_message :: js_text
  wc_attachment :: "payload_attachment option"
  wc_attachmentError :: "nat option"
  wc_label :: string
  wc_expiry :: web_expiry
  wc_customDate :: string
  wc_maxOpens :: int
  wc_submitting :: bool
  wc_error :: "api_error_kind option"
  wc_created :: "web_created_link option"

definition web_compose_reset :: "web_compose \<Rightarrow> web_compose" where
  "web_compose_reset s =
     s\<lparr>wc_created := None, wc_mode := Paste_Mode, wc_field := empty_field, wc_picked := None, wc_keyChanged := None,
       wc_message := [], wc_attachment := None, wc_attachmentError := None, wc_label := [], wc_expiry := WEB_DEFAULT_EXPIRY,
       wc_customDate := [], wc_maxOpens := DEFAULT_MAX_OPENS, wc_error := None\<rparr>"

definition handlePick :: "picked_recipient \<Rightarrow> web_compose \<Rightarrow> web_compose" where
  "handlePick r s =
     (let seeded = web_seedComposeRecipient (Some r) in s\<lparr>wc_picked := fst seeded, wc_keyChanged := snd seeded\<rparr>)"

text \<open>The mount, with the recipient staged by another screen (compose-handoff.ts), which is consumed.\<close>

definition consumePendingRecipient :: "picked_recipient option \<Rightarrow> picked_recipient option \<times> picked_recipient option" where
  "consumePendingRecipient pending = (pending, None)"

definition web_compose_mount :: "picked_recipient option \<Rightarrow> web_compose" where
  "web_compose_mount pending =
     (let s = \<lparr>wc_mode = Paste_Mode, wc_field = empty_field, wc_picked = None, wc_keyChanged = None, wc_message = [],
               wc_attachment = None, wc_attachmentError = None, wc_label = [], wc_expiry = WEB_DEFAULT_EXPIRY, wc_customDate = [],
               wc_maxOpens = DEFAULT_MAX_OPENS, wc_submitting = False, wc_error = None, wc_created = None\<rparr>
      in case fst (consumePendingRecipient pending) of
           None \<Rightarrow> s
         | Some r \<Rightarrow> (handlePick r s)\<lparr>wc_mode := Contact_Mode\<rparr>)"

definition selectRecipientMode :: "recipient_mode \<Rightarrow> web_compose \<Rightarrow> web_compose" where
  "selectRecipientMode m s =
     (if m = Paste_Mode then s\<lparr>wc_mode := m, wc_keyChanged := None, wc_picked := None\<rparr> else s\<lparr>wc_mode := m\<rparr>)"

text \<open>The outcome of \<open>fileToAttachment\<close>: the attachment, or the size of a file that is too large.\<close>

definition handleFileChange :: "nat + payload_attachment \<Rightarrow> web_compose \<Rightarrow> web_compose" where
  "handleFileChange r s =
     (case r of
        Inl sz \<Rightarrow> s\<lparr>wc_attachment := None, wc_attachmentError := Some sz\<rparr>
      | Inr a \<Rightarrow> s\<lparr>wc_attachmentError := None, wc_attachment := Some a\<rparr>)"

definition removeAttachment :: "web_compose \<Rightarrow> web_compose" where
  "removeAttachment s = s\<lparr>wc_attachment := None, wc_attachmentError := None\<rparr>"

definition sendAnyway :: "web_compose \<Rightarrow> web_compose" where
  "sendAnyway s = (case wc_keyChanged s of None \<Rightarrow> s | Some r \<Rightarrow> s\<lparr>wc_picked := Some r, wc_keyChanged := None\<rparr>)"

definition cancelGate :: "web_compose \<Rightarrow> web_compose" where
  "cancelGate s = s\<lparr>wc_keyChanged := None, wc_picked := None\<rparr>"

fun picked_pair :: "picked_recipient \<Rightarrow> string \<times> string" where
  "picked_pair (PickedContact c k f) = (k, f)"
| "picked_pair (PickedPasted k f) = (k, f)"

definition activeRecipient :: "web_compose \<Rightarrow> (string \<times> string) option" where
  "activeRecipient s =
     (case wc_mode s of
        Paste_Mode \<Rightarrow> (case kf_checked (wc_field s) of Some (ValidKey k f) \<Rightarrow> Some (k, f) | _ \<Rightarrow> None)
      | Contact_Mode \<Rightarrow> map_option picked_pair (wc_picked s))"

definition expiryValid :: "(string \<Rightarrow> int option) \<Rightarrow> int \<Rightarrow> web_compose \<Rightarrow> bool" where
  "expiryValid parse now s =
     (wc_expiry s \<noteq> WebCustom \<or> wc_customDate s \<noteq> [] \<and> web_validateCustomExpiry (parse (wc_customDate s)) now = ExpiryOk)"

definition canSubmit :: "(string \<Rightarrow> int option) \<Rightarrow> int \<Rightarrow> web_compose \<Rightarrow> bool" where
  "canSubmit parse now s =
     (activeRecipient s \<noteq> None \<and> wc_keyChanged s = None \<and> expiryValid parse now s \<and> wc_attachmentError s = None \<and> \<not> wc_submitting s)"

definition handleSubmit :: "(string \<Rightarrow> int option) \<Rightarrow> int \<Rightarrow> web_compose \<Rightarrow> (seal_input \<times> web_compose) option" where
  "handleSubmit parse now s =
     (case activeRecipient s of
        None \<Rightarrow> None
      | Some (key, fp) \<Rightarrow>
          if wc_keyChanged s \<noteq> None \<or> wc_submitting s then None
          else
            let custom = parse (wc_customDate s);
                expiresAt = (if wc_expiry s = WebCustom then web_expiryToDate WebCustom now (Some custom)
                             else web_expiryToDate (wc_expiry s) now None)
            in if wc_expiry s = WebCustom \<and> web_validateCustomExpiry custom now \<noteq> ExpiryOk then None
               else Some (\<lparr>si_recipient = key, si_message = wc_message s, si_expiresAt = expiresAt, si_maxOpens = num (wc_maxOpens s),
                           si_label = (let l = js_trim (wc_label s) in if l = [] then None else Some l),
                           si_attachment = wc_attachment s\<rparr>,
                          s\<lparr>wc_submitting := True, wc_error := None\<rparr>))"

definition submit_ended :: "web_failure + seal_output \<Rightarrow> web_compose \<Rightarrow> web_compose" where
  "submit_ended r s =
     (case r of
        Inr out \<Rightarrow> s\<lparr>wc_created := Some \<lparr>wl_created_url = so_url out, wl_created_fingerprint = so_fingerprint out\<rparr>, wc_submitting := False\<rparr>
      | Inl (WebClient e) \<Rightarrow> s\<lparr>wc_error := Some (classifyApiError (Some e)), wc_submitting := False\<rparr>
      | Inl e \<Rightarrow> s\<lparr>wc_error := Some (classifyApiError None), wc_submitting := False\<rparr>)"

datatype web_compose_event =
    EditKey string | FieldChecked | SelectMode recipient_mode | PickContact picked_recipient | ChangePicked | SendAnyway | CancelGate
  | EditMessage js_text | FilePicked "nat + payload_attachment" | FileRemoved | EditLabel string | ChooseExpiry web_expiry
  | EditCustomDate string | ChooseMaxOpens int | SubmitAt int | SubmitEnded "web_failure + seal_output" | CreateAnother

fun web_compose_step :: "('pub, 'priv) hpke_suite \<Rightarrow> (string \<Rightarrow> int option) \<Rightarrow> web_compose_event \<Rightarrow> web_compose \<Rightarrow> web_compose" where
  "web_compose_step S parse (EditKey t) s = s\<lparr>wc_field := field_edit t (wc_field s)\<rparr>"
| "web_compose_step S parse FieldChecked s = s\<lparr>wc_field := field_checked S (wc_field s)\<rparr>"
| "web_compose_step S parse (SelectMode m) s = selectRecipientMode m s"
| "web_compose_step S parse (PickContact r) s = handlePick r s"
| "web_compose_step S parse ChangePicked s = s\<lparr>wc_picked := None\<rparr>"
| "web_compose_step S parse SendAnyway s = sendAnyway s"
| "web_compose_step S parse CancelGate s = cancelGate s"
| "web_compose_step S parse (EditMessage m) s = s\<lparr>wc_message := m\<rparr>"
| "web_compose_step S parse (FilePicked r) s = handleFileChange r s"
| "web_compose_step S parse FileRemoved s = removeAttachment s"
| "web_compose_step S parse (EditLabel l) s = s\<lparr>wc_label := l\<rparr>"
| "web_compose_step S parse (ChooseExpiry e) s = s\<lparr>wc_expiry := e\<rparr>"
| "web_compose_step S parse (EditCustomDate d) s = s\<lparr>wc_customDate := d\<rparr>"
| "web_compose_step S parse (ChooseMaxOpens m) s = s\<lparr>wc_maxOpens := m\<rparr>"
| "web_compose_step S parse (SubmitAt now) s = (case handleSubmit parse now s of None \<Rightarrow> s | Some (inp, s') \<Rightarrow> s')"
| "web_compose_step S parse (SubmitEnded r) s = submit_ended r s"
| "web_compose_step S parse CreateAnother s = web_compose_reset s"

section \<open>The web client's add screen\<close>

record add_screen =
  as_name :: string
  as_field :: key_field
  as_submitting :: bool

definition add_mount :: add_screen where
  "add_mount = \<lparr>as_name = [], as_field = empty_field, as_submitting = False\<rparr>"

definition keyInput_edit :: "string \<Rightarrow> add_screen \<Rightarrow> add_screen" where
  "keyInput_edit t s = s\<lparr>as_field := field_edit t (as_field s)\<rparr>"

definition canAdd :: "add_screen \<Rightarrow> bool" where
  "canAdd s = (length (js_trim (as_name s)) > 0 \<and> (case kf_checked (as_field s) of Some (ValidKey k f) \<Rightarrow> True | _ \<Rightarrow> False)
     \<and> \<not> as_submitting s)"

definition handleAdd :: "add_screen \<Rightarrow> add_input option" where
  "handleAdd s =
     (case kf_checked (as_field s) of
        Some (ValidKey k f) \<Rightarrow>
          if length (js_trim (as_name s)) = 0 \<or> as_submitting s then None
          else Some \<lparr>in_label = as_name s, in_publicKey = k\<rparr>
      | _ \<Rightarrow> None)"

end
