(* ===== verification/Compose_Laws.thy ===== *)
theory Compose_Laws
  imports Compose_Screens Contact_Trust End_To_End
begin

text \<open>
  What the composing screens guarantee, and where the web client's differ: a key that is sealed against was
  checked and shown, a changed contact passes only through its warning, and a cancelled creation stays
  cancelled unless another was started before it ended.
\<close>

section \<open>The mobile composer\<close>

definition compose_ok :: "('pub, 'priv) hpke_suite \<Rightarrow> compose \<Rightarrow> bool" where
  "compose_ok S s =
     (cm_recipientKey s = (case recipientPublicKeyString (cm_recipient s) of None \<Rightarrow> [] | Some k \<Rightarrow> k)
      \<and> (\<forall>t. cm_flight s = Some t \<longrightarrow> cm_fp s = None)
      \<and> (\<forall>f. cm_fp s = Some f \<longrightarrow>
           (\<exists>fp. check_key S (js_trim (cm_recipientKey s)) = Inr fp \<and> f = projr (truncateFingerprint fp 8)))
      \<and> (\<forall>t. cm_flight s = Some t \<longrightarrow> t = js_trim (cm_recipientKey s)))"

lemma compose_ok_cong:
  assumes "compose_ok S s" "cm_recipientKey s' = cm_recipientKey s" "cm_recipient s' = cm_recipient s"
    "cm_flight s' = cm_flight s" "cm_fp s' = cm_fp s"
  shows "compose_ok S s'"
  using assms(1) unfolding compose_ok_def assms(2-5) .

lemma recipient_key_string: "recipientPublicKeyString r = Some k \<Longrightarrow> \<exists>q. r = Some q \<and> k = js_trim (recipient_key q)"
  by (auto simp: recipientPublicKeyString_def Let_def split: option.splits if_splits)

lemma setRecipient_ok: "compose_ok S s \<Longrightarrow> compose_ok S (setRecipient r s)"
  by (auto simp: compose_ok_def setRecipient_def setRecipientKey_def begin_check_def Let_def)

lemma setRecipient_keeps [simp]:
  "cm_keyChanged (setRecipient r s) = cm_keyChanged s" "cm_recipient (setRecipient r s) = r"
  by (auto simp: setRecipient_def setRecipientKey_def begin_check_def Let_def)

lemma key_checked_keeps [simp]: "cm_recipient (key_checked S s) = cm_recipient s" "cm_keyChanged (key_checked S s) = cm_keyChanged s"
  by (simp_all add: key_checked_def split: option.split sum.split)

lemma mount_ok: "compose_ok S (compose_mount initial)"
  unfolding compose_mount_def
  by (rule setRecipient_ok) (simp add: compose_ok_def recipientPublicKeyString_def)

lemma step_ok: "compose_ok S s \<Longrightarrow> compose_ok S (compose_step S e s)"
proof (cases e)
  case (PickRecipient r)
  assume ok: "compose_ok S s"
  then have "compose_ok S (s\<lparr>cm_keyChanged := Some r\<rparr>)" by (rule compose_ok_cong) simp_all
  then show ?thesis using PickRecipient setRecipient_ok [OF ok] by (simp add: handlePicked_def)
next
  case Proceed
  assume ok: "compose_ok S s"
  have "compose_ok S ((setRecipient r s)\<lparr>cm_keyChanged := None\<rparr>)" for r
    by (rule compose_ok_cong [OF setRecipient_ok [OF ok, of r]]) simp_all
  then show ?thesis using Proceed ok by (simp add: onProceed_def split: option.split)
next
  case KeyChecked
  assume "compose_ok S s"
  then show ?thesis using KeyChecked by (auto simp: compose_ok_def key_checked_def split: option.split sum.split)
qed (auto elim: compose_ok_cong)

lemma run_ok: "compose_ok S (fold (compose_step S) evs (compose_mount initial))"
proof (induction evs rule: rev_induct)
  case (snoc e evs)
  then show ?case by (simp add: step_ok)
qed (simp add: mount_ok)

text \<open>A changed contact became the recipient by an answer to its warning.\<close>

lemma step_recipient:
  "cm_recipient (compose_step S e s) = cm_recipient s
   \<or> (e = Proceed \<and> cm_keyChanged s \<noteq> None \<and> cm_recipient (compose_step S e s) = cm_keyChanged s)
   \<or> (\<exists>r. cm_recipient (compose_step S e s) = Some r \<and> \<not> isChangedContactRecipient r)"
  by (cases e) (auto simp: handlePicked_def onProceed_def key_checked_def split: option.split sum.split)

lemma mount_recipient: "cm_recipient (compose_mount initial) = Some r \<Longrightarrow> \<not> isChangedContactRecipient r"
  by (auto simp: compose_mount_def seedComposeRecipient_def split: option.splits if_splits)

lemma changed_was_warned:
  assumes "cm_recipient (fold (compose_step S) evs (compose_mount initial)) = Some r" "isChangedContactRecipient r"
  shows "\<exists>before after. evs = before @ Proceed # after
    \<and> cm_keyChanged (fold (compose_step S) before (compose_mount initial)) = Some r"
  using assms(1)
proof (induction evs rule: rev_induct)
  case Nil
  then show ?case using mount_recipient assms(2) by force
next
  case (snoc e evs)
  let ?s = "fold (compose_step S) evs (compose_mount initial)"
  consider "cm_recipient ?s = Some r" | "e = Proceed" "cm_keyChanged ?s = Some r"
    using step_recipient [of S e ?s] snoc.prems assms(2) by auto
  then show ?case
  proof cases
    case 1
    then obtain b a where "evs = b @ Proceed # a" "cm_keyChanged (fold (compose_step S) b (compose_mount initial)) = Some r"
      using snoc.IH by blast
    then show ?thesis by (intro exI [of _ b] exI [of _ "a @ [e]"]) simp
  next
    case 2
    then show ?thesis by (intro exI [of _ evs] exI [of _ "[]"]) simp
  qed
qed

text \<open>
  C27: what the mobile composer seals is what it shows. Whatever the user does and whenever the checks end,
  a submission goes to the key of the chosen recipient, which was found valid and whose fingerprint is the
  one on the screen; and a contact whose key has changed is the recipient only because the user answered
  its warning with "send anyway".
\<close>

theorem composer_seals_what_it_shows:
  assumes "compose_submit busy now (fold (compose_step S) evs (compose_mount initial)) = Some v"
  shows "\<exists>r key fp. cm_recipient (fold (compose_step S) evs (compose_mount initial)) = Some r
    \<and> si_recipient v = js_trim (recipient_key r) \<and> importPublicKey S (si_recipient v) = Inr key
    \<and> fingerprint (sha256 S) (si_recipient v) = Inr fp
    \<and> cm_fp (fold (compose_step S) evs (compose_mount initial)) = Some (projr (truncateFingerprint fp 8))
    \<and> (isChangedContactRecipient r \<longrightarrow> (\<exists>before after. evs = before @ Proceed # after
         \<and> cm_keyChanged (fold (compose_step S) before (compose_mount initial)) = Some r))"
proof -
  let ?s = "fold (compose_step S) evs (compose_mount initial)"
  have v: "canSend busy ?s" "si_recipient v = js_trim (cm_recipientKey ?s)"
    using assms by (auto simp: compose_submit_def split: if_splits)
  then obtain f where f: "cm_fp ?s = Some f" by (auto simp: canSend_def)
  then obtain fp where fp: "check_key S (si_recipient v) = Inr fp" "f = projr (truncateFingerprint fp 8)"
    using run_ok [of S evs initial] v(2) by (auto simp: compose_ok_def)
  then obtain key where key: "importPublicKey S (si_recipient v) = Inr key" "fingerprint (sha256 S) (si_recipient v) = Inr fp"
    by (auto simp: check_key_def result_simps)
  have "si_recipient v \<noteq> []" using key(1) by (auto simp: importPublicKey_def decodePubkey_def starts_with_def PUBKEY_PREFIX_def)
  then have "recipientPublicKeyString (cm_recipient ?s) = Some (cm_recipientKey ?s)"
    using run_ok [of S evs initial] v(2) by (auto simp: compose_ok_def js_trim_def split: option.splits)
  from recipient_key_string [OF this] v(2)
  obtain r where "cm_recipient ?s = Some r" "si_recipient v = js_trim (recipient_key r)" by auto
  then show ?thesis using key f fp(2) changed_was_warned [of S evs initial r] by blast
qed

text \<open>Keys of a concrete suite, one for each byte.\<close>

lemma toy_keys:
  obtains k :: "byte \<Rightarrow> string" where "\<forall>b. importPublicKey toy_suite (k b) = Inr \<lparr>recipientRaw = replicate 32 b, cryptoKey = b\<rparr>"
    "\<forall>b. js_trim (k b) = k b" "\<forall>b. k b \<noteq> []" "\<forall>b. \<exists>fp. fingerprint (sha256 toy_suite) (k b) = Inr fp"
proof -
  have "\<exists>k. importPublicKey toy_suite k = Inr \<lparr>recipientRaw = replicate 32 b, cryptoKey = b\<rparr> \<and> js_trim k = k \<and> k \<noteq> []
      \<and> (\<exists>fp. fingerprint (sha256 toy_suite) k = Inr fp)" for b :: byte
  proof -
    obtain me where me: "generateIdentity toy_suite (b, b) = Inr me" using generateIdentity_total [OF toy_correct] by blast
    have imp: "importPublicKey toy_suite (exportPublicKey me) = Inr \<lparr>recipientRaw = replicate 32 b, cryptoKey = b\<rparr>"
      using exported_key_imports [OF toy_correct me] me
      by (auto simp: generateIdentity_def result_simps exportRawPublicKey_def toy_suite_def Let_def)
    then obtain r where r: "decodePubkey (exportPublicKey me) = Inr r" by (auto simp: importPublicKey_def result_simps)
    have "encodePubkey (replicate 32 b) = Inr (exportPublicKey me)"
      using me by (auto simp: generateIdentity_def exportPublicKey_def exportRawPublicKey_def result_simps Let_def toy_suite_def)
    note chars = exported_key_text [OF this]
    have "js_trim (exportPublicKey me) = exportPublicKey me"
      by (rule trim_plain) (use chars(3) in \<open>auto simp: list_all_iff\<close>)
    then show ?thesis using imp chars(2) r
      by (intro exI [of _ "exportPublicKey me"]) (auto simp: fingerprint_def Let_def)
  qed
  then show ?thesis using that by metis
qed

theorem composer_seals_what_it_shows_witness:
  "\<exists>k v. compose_submit False 0 (fold (compose_step toy_suite) [PickRecipient (PastedRecipient k), TypeMessage [0x61], KeyChecked]
       (compose_mount None)) = Some v \<and> si_recipient v = k \<and> k \<noteq> []"
proof -
  obtain k :: "byte \<Rightarrow> string" where k: "\<And>b. importPublicKey toy_suite (k b) = Inr \<lparr>recipientRaw = replicate 32 b, cryptoKey = b\<rparr>"
    "\<And>b. js_trim (k b) = k b" "\<And>b. k b \<noteq> []" "\<And>b. \<exists>fp. fingerprint (sha256 toy_suite) (k b) = Inr fp"
    using toy_keys by metis
  let ?evs = "[PickRecipient (PastedRecipient (k 0)), TypeMessage [0x61], KeyChecked]"
  obtain v where v: "compose_submit False 0 (fold (compose_step toy_suite) ?evs (compose_mount None)) = Some v"
  proof -
    obtain fp where "check_key toy_suite (k 0) = Inr fp" using k(1,4) [of 0] by (auto simp: check_key_def)
    then show ?thesis
      using that k(2,3) [of 0]
      by (simp add: compose_submit_def canSend_def has_text_def blank_unit_def compose_mount_def seedComposeRecipient_def
          handlePicked_def isChangedContactRecipient_def setRecipient_def setRecipientKey_def recipientPublicKeyString_def
          begin_check_def key_checked_def Let_def)
  qed
  have "cm_recipient (fold (compose_step toy_suite) ?evs (compose_mount None)) = Some (PastedRecipient (k 0))"
    by (simp add: handlePicked_def isChangedContactRecipient_def)
  with composer_seals_what_it_shows [OF v] have "si_recipient v = k 0" by (auto simp: k(2) simp del: fold_simps)
  then show ?thesis using v k(3) [of 0] by blast
qed

section \<open>The mobile creation flow\<close>

lemma flow_cancelled:
  "fold flow_step [Submitted v1, PhaseReported p, Cancelled, PhaseReported q] f =
     f\<lparr>fl_abort := Some (fl_started f), fl_cancelled := True, fl_aborted := fl_aborted f @ [fl_started f], fl_state := Composing None,
       fl_started := fl_started f + 1\<rparr>"
  by (simp add: flow_submit_def flow_phase_def cancelEncrypting_def)

lemma flow_restarted:
  "fold flow_step [Submitted v1, Cancelled, Submitted v2] f =
     f\<lparr>fl_abort := Some (fl_started f + 1), fl_cancelled := False, fl_aborted := fl_aborted f @ [fl_started f],
       fl_state := Encrypting v2 Prepare, fl_started := fl_started f + 2\<rparr>"
  by (simp add: flow_submit_def cancelEncrypting_def)

text \<open>
  A cancelled creation. When an attempt is cancelled and then ends, the user is back at the draft whatever
  it ended with, and its controller was aborted. But when another attempt was started before the cancelled
  one ended, the ending of the cancelled one is taken for the other's: its link is shown, or its failure
  reported, over the message being encrypted, and the running attempt can no longer be aborted.
\<close>

theorem cancelled_creation:
  "fl_state (flow_settle v1 r (fold flow_step [Submitted v1, PhaseReported p, Cancelled, PhaseReported q] f)) = Composing None
   \<and> fl_started f \<in> set (fl_aborted (fold flow_step [Submitted v1, PhaseReported p, Cancelled, PhaseReported q] f))
   \<and> fl_state (flow_settle v1 (Inr out) (fold flow_step [Submitted v1, Cancelled, Submitted v2] f)) = Showing out v1
   \<and> fl_state (flow_settle v1 (Inl e) (fold flow_step [Submitted v1, Cancelled, Submitted v2] f)) = Composing (Some (classifyCreateFailure e))
   \<and> fl_aborted (cancelEncrypting (flow_settle v1 r (fold flow_step [Submitted v1, Cancelled, Submitted v2] f))) = fl_aborted f @ [fl_started f]"
  unfolding flow_cancelled flow_restarted
  by (cases r) (simp_all add: flow_settle_def cancelEncrypting_def)

section \<open>The web composer\<close>

definition field_ok :: "('pub, 'priv) hpke_suite \<Rightarrow> key_field \<Rightarrow> bool" where
  "field_ok S f =
     ((\<forall>t. kf_flight f = Some t \<longrightarrow> t = js_trim (kf_input f) \<and> t \<noteq> [])
      \<and> (\<forall>k p. kf_checked f = Some (ValidKey k p) \<longrightarrow> validatePublicKey S k = ValidKey k p \<and> (kf_flight f = None \<longrightarrow> k = js_trim (kf_input f))))"

lemma validate_trimmed: "validatePublicKey S t = ValidKey k p \<Longrightarrow> k = js_trim t \<and> validatePublicKey S k = ValidKey k p"
  by (auto simp: validatePublicKey_def Let_def split: if_splits sum.splits)

lemma field_edit_ok: "field_ok S f \<Longrightarrow> field_ok S (field_edit t f)"
  by (auto simp: field_ok_def field_edit_def Let_def)

lemma field_checked_ok: "field_ok S f \<Longrightarrow> field_ok S (field_checked S f)"
proof (cases "kf_flight f")
  case (Some t)
  assume "field_ok S f"
  then have "t = js_trim (kf_input f)" using Some by (simp add: field_ok_def)
  then show ?thesis using Some by (auto simp: field_ok_def field_checked_def dest: validate_trimmed)
qed (simp add: field_checked_def)

lemma empty_field_ok: "field_ok S empty_field"
  by (simp add: field_ok_def empty_field_def)

lemma handlePick_keeps [simp]: "wc_field (handlePick r s) = wc_field s" "wc_mode (handlePick r s) = wc_mode s"
  by (simp_all add: handlePick_def Let_def)

lemma handleSubmit_keeps:
  "handleSubmit parse now s = Some (inp, s') \<Longrightarrow> wc_field s' = wc_field s \<and> wc_picked s' = wc_picked s \<and> wc_keyChanged s' = wc_keyChanged s"
  by (auto simp: handleSubmit_def Let_def split: option.splits prod.splits if_splits)

lemma submit_ended_keeps [simp]:
  "wc_field (submit_ended r s) = wc_field s" "wc_picked (submit_ended r s) = wc_picked s" "wc_keyChanged (submit_ended r s) = wc_keyChanged s"
  by (auto simp: submit_ended_def split: sum.split web_failure.split)

lemma web_step_field: "field_ok S (wc_field s) \<Longrightarrow> field_ok S (wc_field (web_compose_step S parse e s))"
  by (cases e) (auto simp: field_edit_ok field_checked_ok empty_field_ok selectRecipientMode_def sendAnyway_def cancelGate_def
      handleFileChange_def removeAttachment_def web_compose_reset_def dest!: handleSubmit_keeps split: option.splits sum.splits)

lemma web_run_field: "field_ok S (wc_field (fold (web_compose_step S parse) evs (web_compose_mount pending)))"
proof (induction evs rule: rev_induct)
  case Nil
  then show ?case by (simp add: web_compose_mount_def Let_def empty_field_ok split: option.split)
next
  case (snoc e evs)
  then show ?case by (simp add: web_step_field)
qed

lemma web_step_picked:
  "wc_picked (web_compose_step S parse e s) \<in> {None, wc_picked s}
   \<or> (e = SendAnyway \<and> wc_keyChanged s \<noteq> None \<and> wc_picked (web_compose_step S parse e s) = wc_keyChanged s)
   \<or> (\<exists>r. wc_picked (web_compose_step S parse e s) = Some r \<and> \<not> web_isChangedContactRecipient r)"
  by (cases e) (auto simp: handlePick_def web_seedComposeRecipient_def selectRecipientMode_def sendAnyway_def cancelGate_def Let_def
      handleFileChange_def removeAttachment_def web_compose_reset_def dest!: handleSubmit_keeps split: option.splits sum.splits)

lemma web_changed_was_warned:
  assumes "wc_picked (fold (web_compose_step S parse) evs (web_compose_mount pending)) = Some r" "web_isChangedContactRecipient r"
  shows "\<exists>before after. evs = before @ SendAnyway # after
    \<and> wc_keyChanged (fold (web_compose_step S parse) before (web_compose_mount pending)) = Some r"
  using assms(1)
proof (induction evs rule: rev_induct)
  case Nil
  then show ?case
    using assms(2) by (auto simp: web_compose_mount_def Let_def handlePick_def web_seedComposeRecipient_def split: option.splits if_splits)
next
  case (snoc e evs)
  let ?s = "fold (web_compose_step S parse) evs (web_compose_mount pending)"
  consider "wc_picked ?s = Some r" | "e = SendAnyway" "wc_keyChanged ?s = Some r"
    using web_step_picked [of S parse e ?s] snoc.prems assms(2) by auto
  then show ?case
  proof cases
    case 1
    then obtain b a where "evs = b @ SendAnyway # a" "wc_keyChanged (fold (web_compose_step S parse) b (web_compose_mount pending)) = Some r"
      using snoc.IH by blast
    then show ?thesis by (intro exI [of _ b] exI [of _ "a @ [e]"]) simp
  next
    case 2
    then show ?thesis by (intro exI [of _ evs] exI [of _ "[]"]) simp
  qed
qed

text \<open>
  C29: the web composer's gate. Whatever the user does and whenever the checks end, a submission goes to a key
  that was validated, which is the one in the field once its check has ended, or to the contact picked; and
  a contact whose key has changed is picked only because the user answered its warning with "send anyway".
\<close>

theorem web_composer_gate:
  assumes "handleSubmit parse now (fold (web_compose_step S parse) evs (web_compose_mount pending)) = Some (inp, s')"
    "s = fold (web_compose_step S parse) evs (web_compose_mount pending)"
  shows "(case wc_mode s of
       Paste_Mode \<Rightarrow> (\<exists>f. validatePublicKey S (si_recipient inp) = ValidKey (si_recipient inp) f)
         \<and> (kf_flight (wc_field s) = None \<longrightarrow> si_recipient inp = js_trim (kf_input (wc_field s)))
     | Contact_Mode \<Rightarrow> (\<exists>r. wc_picked s = Some r \<and> si_recipient inp = fst (picked_pair r)
         \<and> (web_isChangedContactRecipient r \<longrightarrow> (\<exists>before after. evs = before @ SendAnyway # after
              \<and> wc_keyChanged (fold (web_compose_step S parse) before (web_compose_mount pending)) = Some r))))
    \<and> wc_keyChanged s = None \<and> \<not> wc_submitting s"
proof -
  obtain k f where act: "activeRecipient s = Some (k, f)" "si_recipient inp = k" "wc_keyChanged s = None" "\<not> wc_submitting s"
    using assms by (auto simp: handleSubmit_def Let_def split: option.splits prod.splits if_splits)
  have field: "field_ok S (wc_field s)" using web_run_field assms(2) by blast
  show ?thesis
  proof (cases "wc_mode s")
    case Paste_Mode
    then have "kf_checked (wc_field s) = Some (ValidKey k f)"
      using act(1) by (auto simp: activeRecipient_def split: option.splits key_validation.splits)
    then show ?thesis using field act Paste_Mode by (auto simp: field_ok_def)
  next
    case Contact_Mode
    then obtain r where "wc_picked s = Some r" "picked_pair r = (k, f)" using act(1) by (auto simp: activeRecipient_def)
    then show ?thesis using act(2-4) Contact_Mode web_changed_was_warned [of S parse evs pending r] assms(2) by auto
  qed
qed

text \<open>
  The web client's key fields lag behind. After a valid key has been checked and the field edited to other
  text, and before the check of that text ends, the composer can be submitted and seals to the old key, and
  the add screen saves the old key under the name given, while the field shows the new text. The mobile
  composer cannot be submitted then.
\<close>

theorem stale_key_accepted:
  assumes "validatePublicKey S k1 = ValidKey k f" "js_trim k2 \<noteq> []" "k2 \<noteq> k1" "js_trim name \<noteq> []" "js_trim k2 \<noteq> js_trim k1"
    "s = fold (web_compose_step S parse) [EditKey k1, FieldChecked, EditKey k2] (web_compose_mount None)"
    "a = \<lparr>as_name = name, as_field = field_edit k2 (field_checked S (field_edit k1 empty_field)), as_submitting = False\<rparr>"
  shows "kf_input (wc_field s) = k2 \<and> canSubmit parse now s
    \<and> map_option (\<lambda>(inp, _). si_recipient inp) (handleSubmit parse now s) = Some (js_trim k1)
    \<and> kf_input (as_field a) = k2 \<and> canAdd a \<and> map_option in_publicKey (handleAdd a) = Some (js_trim k1)
    \<and> compose_submit busy now (fold (compose_step S) [PickRecipient (PastedRecipient k1), KeyChecked, PickRecipient (PastedRecipient k2)]
        (compose_mount None)) = None"
proof -
  have k: "k = js_trim k1" "js_trim k1 \<noteq> []" using assms(1) by (auto simp: validatePublicKey_def Let_def split: if_splits sum.splits)
  have ne: "k1 \<noteq> []" using k(2) by (auto simp: js_trim_def)
  have "validatePublicKey S (js_trim k1) = ValidKey k f" using validate_trimmed [OF assms(1)] k(1) by simp
  then have field: "field_edit k2 (field_checked S (field_edit k1 empty_field)) =
      \<lparr>kf_input = k2, kf_checked = Some (ValidKey (js_trim k1) f), kf_flight = Some (js_trim k2)\<rparr>"
    using assms(2,3) k ne by (simp add: field_edit_def field_checked_def empty_field_def Let_def)
  have s: "wc_field s = field_edit k2 (field_checked S (field_edit k1 empty_field))" "wc_mode s = Paste_Mode" "wc_keyChanged s = None"
    "wc_expiry s = Web24h" "wc_attachmentError s = None" "\<not> wc_submitting s"
    by (simp_all add: assms(6) web_compose_mount_def consumePendingRecipient_def WEB_DEFAULT_EXPIRY_def Let_def)
  have act: "activeRecipient s = Some (js_trim k1, f)" by (simp add: activeRecipient_def s field)
  have web: "canSubmit parse now s" "map_option (\<lambda>(inp, _). si_recipient inp) (handleSubmit parse now s) = Some (js_trim k1)"
    by (simp_all add: canSubmit_def handleSubmit_def act s expiryValid_def Let_def)
  have add: "canAdd a" "map_option in_publicKey (handleAdd a) = Some (js_trim k1)"
    using assms(4) by (simp_all add: assms(7) canAdd_def handleAdd_def field)
  have mobile: "cm_fp (fold (compose_step S) [PickRecipient (PastedRecipient k1), KeyChecked, PickRecipient (PastedRecipient k2)] (compose_mount None)) = None"
  proof -
    let ?t = "fold (compose_step S) [PickRecipient (PastedRecipient k1), KeyChecked] (compose_mount None)"
    have "compose_ok S ?t" "cm_recipient ?t = Some (PastedRecipient k1)"
      using run_ok [of S "[PickRecipient (PastedRecipient k1), KeyChecked]" None]
      by (simp_all add: handlePicked_def isChangedContactRecipient_def)
    then have "cm_recipientKey ?t = js_trim k1" using k(2) by (auto simp: compose_ok_def recipientPublicKeyString_def Let_def)
    moreover have "cm_fp (setRecipient (Some (PastedRecipient k2)) t) = None" if "cm_recipientKey t = js_trim k1" for t
      using that assms(2,5) by (simp add: setRecipient_def recipientPublicKeyString_def setRecipientKey_def begin_check_def Let_def)
    ultimately show ?thesis by (simp add: handlePicked_def isChangedContactRecipient_def)
  qed
  show ?thesis
    using web add mobile s(1) field by (simp add: compose_submit_def canSend_def assms(7) del: fold_simps)
qed

theorem stale_key_accepted_witness:
  "\<exists>k1 k2. k1 \<noteq> k2 \<and> map_option (\<lambda>(inp, _). si_recipient inp) (handleSubmit (\<lambda>s. None) 0
     (fold (web_compose_step toy_suite (\<lambda>s. None)) [EditKey k1, FieldChecked, EditKey k2] (web_compose_mount None))) = Some k1"
proof -
  obtain k :: "byte \<Rightarrow> string" where k: "\<And>b. importPublicKey toy_suite (k b) = Inr \<lparr>recipientRaw = replicate 32 b, cryptoKey = b\<rparr>"
    "\<And>b. js_trim (k b) = k b" "\<And>b. k b \<noteq> []" "\<And>b. \<exists>fp. fingerprint (sha256 toy_suite) (k b) = Inr fp"
    using toy_keys by metis
  obtain f where f: "validatePublicKey toy_suite (k 0) = ValidKey (k 0) f"
    using k(4) [of 0] k(1-3) by (auto simp: validatePublicKey_def)
  have "k 1 \<noteq> k 0"
  proof
    assume "k 1 = k 0"
    then have "importPublicKey toy_suite (k 1) = importPublicKey toy_suite (k 0)" by simp
    then show False by (simp add: k(1))
  qed
  then show ?thesis
    using stale_key_accepted [OF f, of "k 1" "''x''" _ "\<lambda>s. None", OF _ _ _ _ refl refl, of 0] k(2) [of 0] k(2) [of 1] k(3) [of 1]
    by (intro exI [of _ "k 0"] exI [of _ "k 1"]) (simp add: trim_plain js_space_def del: fold_simps)
qed

theorem web_composer_gate_witness:
  "\<exists>k inp s'. handleSubmit (\<lambda>s. None) 0 (fold (web_compose_step toy_suite (\<lambda>s. None)) [EditKey k, FieldChecked] (web_compose_mount None))
     = Some (inp, s') \<and> si_recipient inp = k \<and> k \<noteq> []"
proof -
  obtain k :: "byte \<Rightarrow> string" where k: "\<And>b. importPublicKey toy_suite (k b) = Inr \<lparr>recipientRaw = replicate 32 b, cryptoKey = b\<rparr>"
    "\<And>b. js_trim (k b) = k b" "\<And>b. k b \<noteq> []" "\<And>b. \<exists>fp. fingerprint (sha256 toy_suite) (k b) = Inr fp"
    using toy_keys by metis
  let ?s = "fold (web_compose_step toy_suite (\<lambda>s. None)) [EditKey (k 0), FieldChecked] (web_compose_mount None)"
  obtain f where f: "validatePublicKey toy_suite (k 0) = ValidKey (k 0) f"
    using k(4) [of 0] k(1-3) by (auto simp: validatePublicKey_def)
  then have field: "wc_field ?s = \<lparr>kf_input = k 0, kf_checked = Some (ValidKey (k 0) f), kf_flight = None\<rparr>" "wc_mode ?s = Paste_Mode"
    using k(2,3) [of 0]
    by (simp_all add: web_compose_mount_def consumePendingRecipient_def field_edit_def field_checked_def empty_field_def Let_def)
  then have act: "activeRecipient ?s = Some (k 0, f)" unfolding activeRecipient_def by simp
  moreover have "wc_keyChanged ?s = None" "\<not> wc_submitting ?s" "wc_expiry ?s = Web24h"
    by (simp_all add: web_compose_mount_def consumePendingRecipient_def WEB_DEFAULT_EXPIRY_def Let_def)
  ultimately obtain inp s' where run: "handleSubmit (\<lambda>s. None) 0 ?s = Some (inp, s')" unfolding handleSubmit_def by (simp add: Let_def)
  have "kf_flight (wc_field ?s) = None" "js_trim (kf_input (wc_field ?s)) = k 0" unfolding field by (simp_all add: k(2))
  then have "si_recipient inp = k 0" using web_composer_gate [OF run refl] unfolding field(2) by (simp del: fold_simps)
  then show ?thesis using run k(3) [of 0] by blast
qed

end
