(* ===== verification/Contact_Screens_Laws.thy ===== *)
theory Contact_Screens_Laws
  imports Contact_Screens Compose_Laws
begin

text \<open>
  What the contact screens guarantee: a stored key is replaced only by one whose fingerprint was shown on an
  alert the user answered. Marking a contact verified carries no such bond to the fingerprint compared.
\<close>

section \<open>Where alerts and updates come from\<close>

fun route_ok :: "('pub, 'priv) hpke_suite \<Rightarrow> route \<Rightarrow> bool" where
  "route_ok S (Changed_Route i key p n) = (fingerprint (sha256 S) key = Inr n)"
| "route_ok S r = True"

lemma render_route [simp]: "ct_route (render old t) = ct_route t" "ct_records (render old t) = ct_records t"
  by (simp_all add: render_def)

lemma nav_route [simp]:
  "ct_route (setRoute r t) = r" "ct_route (setRecords cs t) = ct_route t" "ct_route (goList t) = List_Route"
  "ct_route (goDetail i t) = Detail_Route i" "ct_route (paste_set f t) = ct_route t" "ct_route (paste_fails m e t) = ct_route t"
  by (simp_all add: setRoute_def setRecords_def goList_def goDetail_def paste_set_def paste_fails_def)

lemma submit_route [simp]: "ct_route (fst (paste_submit r t)) = ct_route t"
  by (simp add: paste_submit_def Let_def)

lemma submit_task: "snd (paste_submit r t) = Some k \<Longrightarrow> \<exists>m mode key. k = Checking m mode key"
  by (auto simp: paste_submit_def Let_def split: if_splits)

lemmas tap_defs = on_screen_def on_empty_def on_list_def on_detail_def on_add_def on_verify_def on_scan_def on_paste_def
  on_changed_def on_import_error_def only_def

lemma tap_route:
  assumes "on_screen lbl sc tap t = (t', k, out)" "route_ok S (ct_route t)"
  shows "route_ok S (ct_route t')"
  using assms by (auto simp: tap_defs split: screen.splits contacts_tap.splits if_splits option.splits)

lemma tap_update:
  assumes "on_screen lbl sc tap t = (t', Some (Updating i key), out)"
  shows "tap = Update_Key \<and> (\<exists>v. sc = Changed_Screen i key v)"
  using assms by (auto simp: tap_defs dest!: submit_task split: screen.splits contacts_tap.splits if_splits option.splits)

lemma alert_shown:
  assumes "rendered t = Changed_Screen i key v" "route_ok S (ct_route t)"
  shows "\<exists>n. fingerprint (sha256 S) key = Inr n \<and> kv_new v = shortFingerprint n"
  using assms by (auto simp: rendered_def keyChangeAlertView_def split: if_splits route.splits option.splits)

lemma resume_route:
  assumes "resume S collate r k (t, st) = (k', (t', st'))" "route_ok S (ct_route t)"
  shows "route_ok S (ct_route t')"
proof (cases k)
  case (Detecting m c key)
  then have t': "t' = submitRekey m c key (detectKeyChange (fingerprint (sha256 S)) c key) t"
    using assms(1) by (simp add: resume_def Let_def)
  show ?thesis
    using assms(2) unfolding t'
    by (auto simp: submitRekey_def detectKeyChange_def classifyKeyChange_def split: sum.splits key_change.splits if_splits)
qed (use assms in \<open>auto simp: resume_def Let_def split: reply.splits import_outcome.splits sum.splits prod.splits paste_mode.splits\<close>)

lemma resume_task: "resume S collate r k w = (Some (Updating i key), w') \<Longrightarrow> False"
  by (cases w, cases k) (auto simp: resume_def Let_def split: reply.splits import_outcome.splits sum.splits prod.splits paste_mode.splits)

section \<open>What a task does to the directory\<close>

lemma getContact_id: "getContact i st = Some c \<Longrightarrow> c_id c = i"
  by (auto simp: getContact_def find_Some_iff)

lemma getContact_add:
  assumes "addContact fpr now uuid inp st = (out, st')" "i \<noteq> uuid"
  shows "getContact i st' = getContact i st"
  using assms(1) by (cases rule: addContact_cases)
    (use assms(2) in \<open>auto simp: getContact_def find_snoc new_contact_def split: option.split\<close>)

lemma getContact_found:
  "findIndex (\<lambda>c. c_id c = j) (readAll st) = Some idx \<Longrightarrow> c_id u = j \<Longrightarrow>
   getContact i (writeAll ((readAll st)[idx := u])) = (if i = j then Some u else getContact i st)"
  by (simp add: getContact_def find_update)

lemma getContact_update:
  assumes "getContact i (snd (updateContactKey fpr now j key st)) = Some c"
  shows "getContact i st = Some c \<or> (i = j \<and> c_publicKey c = key \<and> getContact i st \<noteq> None)"
proof (cases "findIndex (\<lambda>c. c_id c = j) (readAll st)")
  case (Some idx)
  note upd = getContact_found [OF Some] and at = findIndex_Some [OF Some]
  show ?thesis
    using assms Some at
    by (auto simp: updateContactKey_def Let_def upd getContact_def [of i st] findIndex_find [of _ "readAll st"] split: sum.splits if_splits)
qed (use assms in \<open>simp add: updateContactKey_def Let_def\<close>)

lemma getContact_verified:
  assumes "setContactVerified now j v st = (out, st')"
  shows "getContact i st' = (case getContact i st of None \<Rightarrow> None | Some c \<Rightarrow>
    Some (if i = j then c\<lparr>c_verified := v, c_updatedAt := now\<rparr> else c))"
proof (cases "findIndex (\<lambda>c. c_id c = j) (readAll st)")
  case None
  then have "getContact j st = None" by (simp add: getContact_def findIndex_find)
  then show ?thesis using assms None by (auto simp: setContactVerified_def Let_def split: option.split)
next
  case (Some idx)
  note upd = getContact_found [OF Some] and at = findIndex_Some [OF Some]
  show ?thesis
    using assms Some at
    by (auto simp: setContactVerified_def Let_def upd getContact_def [of i st] findIndex_find [of _ "readAll st"] split: option.split)
qed

lemma getContact_delete: "getContact i (deleteContact j st) = Some c \<Longrightarrow> getContact i st = Some c"
  by (auto simp: deleteContact_def Let_def getContact_def find_filter split: if_splits)

lemma resume_keys:
  assumes "resume S collate r k (t, st) = (k', (t', st'))" "getContact i st' = Some c"
    "case r of Settles now uuid \<Rightarrow> uuid \<noteq> i | _ \<Rightarrow> True"
  shows "\<exists>d. getContact i st = Some d \<and> (c_publicKey c = c_publicKey d \<or> k = Updating i (c_publicKey c))"
proof (cases k)
  case (Storing m name key)
  then show ?thesis using assms
    by (auto simp: resume_def Let_def getContact_add split: reply.splits prod.splits sum.splits)
next
  case (Updating j key)
  then show ?thesis using assms(1,2) getContact_update [of i "fingerprint (sha256 S)" _ j key st c]
    by (auto simp: resume_def Let_def split: reply.splits)
next
  case (Marking j)
  then show ?thesis using assms(1,2)
    by (auto simp: resume_def Let_def getContact_verified split: reply.splits prod.splits sum.splits option.splits if_splits)
next
  case (Deleting j)
  then show ?thesis using assms(1,2) getContact_delete [of i j st c]
    by (auto simp: resume_def Let_def split: reply.splits)
qed (use assms in \<open>auto simp: resume_def Let_def split: reply.splits import_outcome.splits sum.splits paste_mode.splits\<close>)

section \<open>Replacing a key\<close>

definition confirmed :: "('pub, 'priv) hpke_suite \<Rightarrow> (string \<times> string \<times> key_change_view) list \<Rightarrow> string \<Rightarrow> string \<Rightarrow> bool" where
  "confirmed S cs i key = (\<exists>v n. (i, key, v) \<in> set cs \<and> fingerprint (sha256 S) key = Inr n \<and> kv_new v = shortFingerprint n)"

definition keys_accounted :: "('pub, 'priv) hpke_suite \<Rightarrow> book \<Rightarrow> contacts_world \<Rightarrow> task list \<Rightarrow> (string \<times> string \<times> key_change_view) list \<Rightarrow> bool" where
  "keys_accounted S st0 w ks cs =
     (route_ok S (ct_route (fst w))
      \<and> (\<forall>i key. Updating i key \<in> set ks \<longrightarrow> confirmed S cs i key)
      \<and> (\<forall>i c. i \<in> book_ids st0 \<longrightarrow> getContact i (snd w) = Some c \<longrightarrow>
           (\<exists>c0. getContact i st0 = Some c0 \<and> (c_publicKey c = c_publicKey c0 \<or> confirmed S cs i (c_publicKey c)))))"

lemma confirmed_more: "confirmed S cs i key \<Longrightarrow> confirmed S (cs @ ds) i key"
  by (auto simp: confirmed_def)

lemma tap_accounted:
  assumes "keys_accounted S st0 (t, st) ks cs" "on_screen lbl (rendered t) tap t = (t', k, out)"
  shows "keys_accounted S st0 (t', st) (ks @ (case k of None \<Rightarrow> [] | Some k \<Rightarrow> [k]))
    (cs @ (case (rendered t, tap) of (Changed_Screen i key v, Update_Key) \<Rightarrow> [(i, key, v)] | _ \<Rightarrow> []))"
    (is "keys_accounted S st0 _ _ (cs @ ?new)")
proof -
  have route: "route_ok S (ct_route t)" using assms(1) by (simp add: keys_accounted_def)
  have "confirmed S (cs @ ?new) i key" if "k = Some (Updating i key)" for i key
  proof -
    from tap_update [OF assms(2) [unfolded that]] obtain v where v: "tap = Update_Key" "rendered t = Changed_Screen i key v" by blast
    from alert_shown [OF v(2) route] show ?thesis using v by (auto simp: confirmed_def)
  qed
  then show ?thesis
    using assms(1) tap_route [OF assms(2) route] confirmed_more unfolding keys_accounted_def
    by (auto split: option.splits) blast+
qed

lemma run_accounted: "contacts_run S collate lbl w0 w ks cs \<Longrightarrow> route_ok S (ct_route (fst w0)) \<Longrightarrow> keys_accounted S (snd w0) w ks cs"
proof (induction rule: contacts_run.induct)
  case run_start
  then show ?case by (auto simp: keys_accounted_def)
next
  case (run_tap t st ks cs tap t' k out)
  then show ?case using tap_accounted by blast
next
  case (run_resume w ks1 k ks2 cs r k' w')
  obtain t st t' st' where w: "w = (t, st)" "w' = (t', st')" by (cases w, cases w')
  have acc: "keys_accounted S (snd w0) (t, st) (ks1 @ k # ks2) cs" using run_resume.IH run_resume.prems w by simp
  have res: "resume S collate r k (t, st) = (k', t', st')" using run_resume.hyps(2) w by simp
  have route: "route_ok S (ct_route t')" using resume_route [OF res] acc by (simp add: keys_accounted_def)
  have tasks: "confirmed S cs i key" if "Updating i key \<in> set (ks1 @ (case k' of None \<Rightarrow> [] | Some k' \<Rightarrow> [k']) @ ks2)" for i key
  proof -
    have "k' \<noteq> Some (Updating i key)" using resume_task res by blast
    then show ?thesis using that acc by (auto simp: keys_accounted_def split: option.splits)
  qed
  have "\<exists>c0. getContact i (snd w0) = Some c0 \<and> (c_publicKey c = c_publicKey c0 \<or> confirmed S cs i (c_publicKey c))"
    if "i \<in> book_ids (snd w0)" "getContact i st' = Some c" for i c
  proof -
    have "case r of Settles now uuid \<Rightarrow> uuid \<noteq> i | _ \<Rightarrow> True" using run_resume.hyps(3) that(1) by (auto split: reply.splits)
    from resume_keys [OF res that(2) this] obtain d where d: "getContact i st = Some d"
      "c_publicKey c = c_publicKey d \<or> k = Updating i (c_publicKey c)" by blast
    have "confirmed S cs i (c_publicKey c)" if "k = Updating i (c_publicKey c)" using that acc by (simp add: keys_accounted_def)
    moreover from acc d(1) that(1) obtain c0 where "getContact i (snd w0) = Some c0"
      "c_publicKey d = c_publicKey c0 \<or> confirmed S cs i (c_publicKey d)" unfolding keys_accounted_def snd_conv by blast
    ultimately show ?thesis using d(2) by metis
  qed
  then show ?case using route tasks w by (simp add: keys_accounted_def)
qed

text \<open>
  C28: a stored key is replaced only after the alert. Whatever is tapped on the contacts tab, and in whatever
  order the calls it makes end, a contact the directory began with is either gone, or has the key it began
  with, or one for which the user answered "update" on an alert of this contact that showed the fingerprint of
  that very key.
\<close>

theorem key_replaced_only_after_alert:
  assumes "contacts_run S collate lbl (contacts_mount intent, st0) (t, st) ks cs" "getContact i st0 = Some c0"
    "getContact i st = Some c"
  shows "c_publicKey c = c_publicKey c0
    \<or> (\<exists>v n. (i, c_publicKey c, v) \<in> set cs \<and> fingerprint (sha256 S) (c_publicKey c) = Inr n \<and> kv_new v = shortFingerprint n)"
proof -
  have "route_ok S (ct_route (contacts_mount intent))"
    by (cases intent) (auto simp: contacts_mount_def split: initial_intent.split)
  then have "keys_accounted S st0 (t, st) ks cs" using run_accounted [OF assms(1)] by simp
  moreover have "i \<in> book_ids st0" using assms(2) by (auto simp: getContact_def book_ids_def find_Some_iff)
  ultimately obtain c1 where "getContact i st0 = Some c1" "c_publicKey c = c_publicKey c1 \<or> confirmed S cs i (c_publicKey c)"
    using assms(3) unfolding keys_accounted_def snd_conv by blast
  then show ?thesis using assms(2) by (auto simp: confirmed_def)
qed

theorem key_replaced_only_after_alert_witness:
  "\<exists>t ks. contacts_run toy_suite (\<lambda>a b. 0) (\<lambda>x. x) (contacts_mount None, Some [new_contact [] ''1'' ''Ada'' ''k'' ''f''])
     (t, Some [new_contact [] ''1'' ''Ada'' ''k'' ''f'']) ks [] \<and> rendered t = List_Screen
   \<and> c_publicKey (new_contact [] ''1'' ''Ada'' ''k'' ''f'') = ''k''"
proof -
  let ?c = "new_contact [] ''1'' ''Ada'' ''k'' ''f''"
  let ?w = "(contacts_mount None, Some [?c])"
  have "resume toy_suite (\<lambda>a b. 0) (Settles [] ''2'') Loading ?w = (None, (setRecords [?c] (contacts_mount None), Some [?c]))"
    by (simp add: resume_def Let_def listContacts_def sort_by_def)
  from contacts_run.run_resume [where ?ks1.0 = "[]" and ?ks2.0 = "[]", simplified, OF contacts_run.run_start this]
  have run: "contacts_run toy_suite (\<lambda>a b. 0) (\<lambda>x. x) ?w (setRecords [?c] (contacts_mount None), Some [?c]) [] []"
    by (simp add: book_ids_def new_contact_def)
  moreover have "rendered (setRecords [?c] (contacts_mount None)) = List_Screen"
    by (simp add: rendered_def setRecords_def render_def contacts_mount_def shows_paste_def)
  ultimately show ?thesis
    using key_replaced_only_after_alert [OF run, of "''1''" ?c ?c] by (auto simp: getContact_def new_contact_def)
qed

text \<open>
  Marking a contact verified is not bound to the fingerprint that was compared. The verify screens of both
  clients name only the contact: whatever key the directory holds for it when the call takes effect (another
  tab, or an update still under way, may have replaced it since the screen was drawn) becomes verified, and
  composing to it is not held back.
\<close>

theorem verification_not_bound:
  assumes "rendered t = Verify_Screen c" "getContact (c_id c) st = Some c'" "wd_record d = Some (Some c)" "web_getContact (c_id c) s = Some c'"
    "c_id c' = c_id c" "wd_id d = c_id c" "c_id c \<noteq> []" "os_ok c_id s"
  shows "on_screen lbl (rendered t) Mark_Verified t = (t, Some (Marking (c_id c)), None)
    \<and> (\<exists>w. resume S collate (Settles now uuid) (Marking (c_id c)) (t, st) = (Some (Reloading_Marked (c_id c)), w)
         \<and> getContact (c_id c) (snd w) = Some (c'\<lparr>c_verified := True, c_updatedAt := now\<rparr>))
    \<and> wd_record (fst (web_markVerified now d s)) = Some (Some (c'\<lparr>c_verified := True, c_updatedAt := now\<rparr>))
    \<and> seedComposeRecipient (Some (contactRecipient (contactRecordToContact lbl (c'\<lparr>c_verified := True, c_updatedAt := now\<rparr>)) (c_publicKey c')))
        = (Some (contactRecipient (contactRecordToContact lbl (c'\<lparr>c_verified := True, c_updatedAt := now\<rparr>)) (c_publicKey c')), None)"
proof -
  obtain idx where idx: "findIndex (\<lambda>x. c_id x = c_id c) (readAll st) = Some idx" "readAll st ! idx = c'"
    using assms(2) by (auto simp: getContact_def findIndex_find)
  then have "(setContactVerified now (c_id c) True st :: unit booked) = (Inr (c'\<lparr>c_verified := True, c_updatedAt := now\<rparr>),
      writeAll ((readAll st)[idx := c'\<lparr>c_verified := True, c_updatedAt := now\<rparr>]))"
    by (simp add: setContactVerified_def Let_def)
  moreover have "getContact (c_id c) (writeAll ((readAll st)[idx := c'\<lparr>c_verified := True, c_updatedAt := now\<rparr>]))
      = Some (c'\<lparr>c_verified := True, c_updatedAt := now\<rparr>)"
    using getContact_found [OF idx(1), of "c'\<lparr>c_verified := True, c_updatedAt := now\<rparr>" "c_id c"] assms(5) by simp
  ultimately have mobile: "\<exists>w. resume S collate (Settles now uuid) (Marking (c_id c)) (t, st) = (Some (Reloading_Marked (c_id c)), w)
         \<and> getContact (c_id c) (snd w) = Some (c'\<lparr>c_verified := True, c_updatedAt := now\<rparr>)"
    by (simp add: resume_def Let_def)
  have "on_screen lbl (rendered t) Mark_Verified t = (t, Some (Marking (c_id c)), None)"
    by (simp add: assms(1) on_screen_def on_verify_def)
  moreover have "wd_record (fst (web_markVerified now d s)) = Some (Some (c'\<lparr>c_verified := True, c_updatedAt := now\<rparr>))"
    using assms(3-8) by (simp add: os_ok_def web_markVerified_def web_setContactVerified_def web_reload_def web_put_def web_getContact_def Let_def)
  ultimately show ?thesis using mobile
    by (simp add: seedComposeRecipient_def contactRecipient_def isChangedContactRecipient_def contactRecordToContact_def
        deriveTrustStatus_def Let_def)
qed

theorem verification_not_bound_witness:
  "\<exists>d. wd_record d = Some (Some (new_contact [] ''1'' ''Ada'' ''old'' ''fp1''))
     \<and> wd_record (fst (web_markVerified [] d [(''1'', new_contact [] ''1'' ''Ada'' ''new'' ''fp2'')]))
         = Some (Some ((new_contact [] ''1'' ''Ada'' ''new'' ''fp2'')\<lparr>c_verified := True\<rparr>))"
proof -
  let ?c = "new_contact [] ''1'' ''Ada'' ''old'' ''fp1''" and ?c' = "new_contact [] ''1'' ''Ada'' ''new'' ''fp2''"
  let ?d = "(web_detail_mount ''1'')\<lparr>wd_record := Some (Some ?c)\<rparr>"
  let ?t = "(contacts_mount None)\<lparr>ct_records := [?c], ct_route := Verify_Route ''1''\<rparr>"
  have id: "c_id ?c = ''1''" "c_id ?c' = ''1''" "c_updatedAt ?c' = []" by (simp_all add: new_contact_def)
  have "rendered ?t = Verify_Screen ?c" by (simp add: rendered_def findRecord_def id contacts_mount_def)
  moreover have "getContact (c_id ?c) (Some [?c']) = Some ?c'" "web_getContact (c_id ?c) [(''1'', ?c')] = Some ?c'"
    "os_ok c_id [(''1'', ?c')]" by (simp_all add: id getContact_def web_getContact_def os_get_def os_ok_def)
  ultimately have "wd_record (fst (web_markVerified [] ?d [(''1'', ?c')])) = Some (Some (?c'\<lparr>c_verified := True, c_updatedAt := []\<rparr>))"
    using verification_not_bound [of ?t ?c "Some [?c']" ?c' ?d "[(''1'', ?c')]" "\<lambda>x. x" toy_suite "\<lambda>a b. 0" "[]" "''2''"]
    by (simp add: id web_detail_mount_def)
  then show ?thesis by (intro exI [of _ ?d]) (simp add: new_contact_def)
qed

end
