(* ===== verification/Device_Files.thy ===== *)
theory Device_Files
  imports Contact_Screens Key_Wrap File_Blobs Compose_Options
begin

text \<open>
  Files the clients read and write: contact cards (apps/mobile/src/contacts/contact-card.ts), the files of a
  backup (keys/export-backup.ts, onboarding/import-backup.ts), attachments picked for a message
  (create/pick-attachment.ts of both clients) and decrypted attachments saved from the reader
  (reader/attachment-cache.ts, the file handling of reader/ReaderScreen.tsx, settings/clear-local-history.ts).
  What the pickers of the platform return is an argument; the file system is the record of calls of
  File_Blobs, its cache directory an argument. Presenting the share sheet changes no file and never fails.
\<close>

section \<open>Pickers\<close>

record 'a picker_result =
  pr_canceled :: bool
  pr_assets :: "'a list option"

definition first_asset :: "'a picker_result \<Rightarrow> 'a option" where
  "first_asset r =
     (if pr_canceled r then None else case pr_assets r of Some (a # as) \<Rightarrow> Some a | _ \<Rightarrow> None)"

record document_asset =
  da_uri :: string
  da_name :: js_text
  da_mimeType :: "js_text option"
  da_size :: "js_num option"

record image_asset =
  ia_uri :: string
  ia_fileName :: "js_text option"
  ia_mimeType :: "js_text option"
  ia_fileSize :: "js_num option"

record picked_file =
  pf_uri :: string
  pf_name :: js_text
  pf_size :: js_num

definition picked_of :: "'e + document_asset picker_result \<Rightarrow> 'e + picked_file option" where
  "picked_of r = and_then r (\<lambda>res.
     case first_asset res of
       None \<Rightarrow> Inr None
     | Some a \<Rightarrow> Inr (Some \<lparr>pf_uri = da_uri a, pf_name = da_name a,
                            pf_size = (case da_size a of Some n \<Rightarrow> n | None \<Rightarrow> num 0)\<rparr>))"

section \<open>Files in the cache\<close>

definition CACHE_FILE_PREFIX :: string where "CACHE_FILE_PREFIX = ''aesmsg-''"

text \<open>A template literal prints an absent directory as null.\<close>

definition cache_uri :: "string option \<Rightarrow> int \<Rightarrow> string \<Rightarrow> string" where
  "cache_uri dir now name =
     (case dir of None \<Rightarrow> ''null'' | Some d \<Rightarrow> d) @ CACHE_FILE_PREFIX @ show_int now @ ''-'' @ name"

section \<open>Contact cards\<close>

definition CONTACT_CARD_TYPE :: string where "CONTACT_CARD_TYPE = ''aesmsg.contact-card''"
definition CONTACT_CARD_VERSION :: int where "CONTACT_CARD_VERSION = 1"
definition CONTACT_CARD_FILENAME :: string where "CONTACT_CARD_FILENAME = ''aesmsg-contact-card.aesmsg''"

datatype card_error = InvalidContactCardError

record card_file =
  cf_filename :: string
  cf_contents :: string

definition buildContactCard :: "platform \<Rightarrow> string \<Rightarrow> string \<Rightarrow> card_error + card_file" where
  "buildContactCard P label key =
     (if \<not> isValidLabel label then Inl InvalidContactCardError
      else Inr \<lparr>cf_filename = CONTACT_CARD_FILENAME,
                cf_contents = json_text P (JObj [(''type'', JStr CONTACT_CARD_TYPE), (''version'', jint CONTACT_CARD_VERSION),
                  (''label'', JStr (js_trim label)), (''publicKey'', JStr key)])\<rparr>)"

datatype card_problem = Card_Invalid_File | Card_Wrong_Type

record parsed_card =
  cd_label :: string
  cd_publicKey :: string

definition parseContactCard :: "('pub, 'priv) hpke_suite \<Rightarrow> platform \<Rightarrow> string \<Rightarrow> card_problem + parsed_card" where
  "parseContactCard S P t =
     (case json_read P t of
        None \<Rightarrow> Inl Card_Invalid_File
      | Some obj \<Rightarrow>
          if \<not> is_object obj then Inl Card_Invalid_File
          else if json_prop ''type'' obj \<noteq> Some (JStr CONTACT_CARD_TYPE) then Inl Card_Wrong_Type
          else case prop_string ''publicKey'' obj of
                 None \<Rightarrow> Inl Card_Invalid_File
               | Some keyText \<Rightarrow>
                   (case importPublicKey S keyText of
                      Inl e \<Rightarrow> Inl Card_Invalid_File
                    | Inr k \<Rightarrow>
                        Inr \<lparr>cd_label = (case prop_string ''label'' obj of Some l \<Rightarrow> normalizeLabel l | None \<Rightarrow> []),
                             cd_publicKey = keyText\<rparr>))"

definition writeCardToCache :: "'f file_system \<Rightarrow> string option \<Rightarrow> int \<Rightarrow> card_file \<Rightarrow> 'f \<Rightarrow> (storage_error + string) \<times> 'f" where
  "writeCardToCache FS dir now f s =
     (let uri = cache_uri dir now (cf_filename f)
      in state_then (writeAsStringAsync FS uri (cf_contents f) s) (\<lambda>u s'. (Inr uri, s')))"

definition pickCardFile :: "'e + document_asset picker_result \<Rightarrow> 'e + picked_file option" where
  "pickCardFile r = picked_of r"

definition readCardFile :: "'f file_system \<Rightarrow> string \<Rightarrow> 'f \<Rightarrow> storage_error + string" where
  "readCardFile FS uri s = readAsStringAsync FS uri s"

datatype card_outcome = Card_Imported parsed_card | Card_Import_Canceled | Card_Import_Failed card_problem

definition importContactCard :: "('pub, 'priv) hpke_suite \<Rightarrow> platform \<Rightarrow> 'f file_system \<Rightarrow> 'f \<Rightarrow> 'e + document_asset picker_result
    \<Rightarrow> card_outcome" where
  "importContactCard S P FS s picker =
     (case pickCardFile picker of
        Inl e \<Rightarrow> Card_Import_Failed Card_Invalid_File
      | Inr None \<Rightarrow> Card_Import_Canceled
      | Inr (Some f) \<Rightarrow>
          (case readCardFile FS (pf_uri f) s of
             Inl e \<Rightarrow> Card_Import_Failed Card_Invalid_File
           | Inr t \<Rightarrow> (case parseContactCard S P t of Inr c \<Rightarrow> Card_Imported c | Inl p \<Rightarrow> Card_Import_Failed p)))"

text \<open>What the contacts tab makes of the outcome (\<open>handleImportPick\<close>).\<close>

fun import_reply :: "card_outcome \<Rightarrow> reply" where
  "import_reply (Card_Imported c) = Imported (Card_Picked (cd_publicKey c) (cd_label c))"
| "import_reply Card_Import_Canceled = Imported Card_Canceled"
| "import_reply (Card_Import_Failed p) = Imported Card_Error"

section \<open>Backup files\<close>

definition writeBackupToCache :: "'f file_system \<Rightarrow> string option \<Rightarrow> int \<Rightarrow> backup_file \<Rightarrow> 'f \<Rightarrow> (storage_error + string) \<times> 'f" where
  "writeBackupToCache FS dir now backup s =
     (let uri = cache_uri dir now (bf_filename backup)
      in state_then (writeAsStringAsync FS uri (bf_contents backup) s) (\<lambda>u s'. (Inr uri, s')))"

definition cleanup_written :: "'f file_system \<Rightarrow> string \<Rightarrow> 'f \<Rightarrow> (storage_error + unit) \<times> 'f" where
  "cleanup_written FS uri s = deleteAsync FS uri s"

definition pickBackupFile :: "'e + document_asset picker_result \<Rightarrow> 'e + picked_file option" where
  "pickBackupFile r = picked_of r"

definition readBackupFile :: "'f file_system \<Rightarrow> string \<Rightarrow> 'f \<Rightarrow> storage_error + string" where
  "readBackupFile FS uri s = readAsStringAsync FS uri s"

section \<open>Picking an attachment\<close>

definition MAX_ATTACHMENT_BYTES :: nat where "MAX_ATTACHMENT_BYTES = 10 * 1024 * 1024"

definition validateAttachmentSize :: "js_num \<Rightarrow> nat \<Rightarrow> bool" where
  "validateAttachmentSize n maxBytes = (\<not> num_less (num (int maxBytes)) n)"

definition DEFAULT_MIME :: js_text where "DEFAULT_MIME = text_of_string ''application/octet-stream''"

datatype pick_result = Picked payload_attachment | Too_Large js_text js_num | Pick_Cancelled

definition basename :: "js_text \<Rightarrow> js_text" where
  "basename name =
     (let seg = rev (takeWhile (\<lambda>u. u \<noteq> 0x2F \<and> u \<noteq> 0x5C) (rev name)) in if seg = [] then name else seg)"

definition fallbackName :: "js_text \<Rightarrow> js_text" where
  "fallbackName mime =
     (let rest = dropWhile (\<lambda>u. u \<noteq> 0x2F) mime;
          subtype = (if rest = [] then text_of_string ''bin'' else takeWhile (\<lambda>u. u \<noteq> 0x2F) (tl rest));
          ext = (if subtype = text_of_string ''jpeg'' then text_of_string ''jpg'' else subtype)
      in text_of_string ''attachment.'' @ ext)"

record normalized_asset =
  na_uri :: string
  na_filename :: js_text
  na_mimetype :: js_text
  na_knownSize :: "js_num option"

definition mime_or_default :: "js_text option \<Rightarrow> js_text" where
  "mime_or_default m = (case m of Some (u # us) \<Rightarrow> u # us | _ \<Rightarrow> DEFAULT_MIME)"

datatype pick_error = Pick_Storage storage_error | Pick_Decode crypto_error

definition buildResult :: "normalized_asset \<Rightarrow> 'f file_system \<Rightarrow> 'f \<Rightarrow> nat \<Rightarrow> pick_error + pick_result" where
  "buildResult a FS s maxBytes =
     (let tooLarge = (case na_knownSize a of Some n \<Rightarrow> \<not> validateAttachmentSize n maxBytes | None \<Rightarrow> False) in
      if tooLarge then Inr (Too_Large (na_filename a) (the (na_knownSize a)))
      else case readAsStringAsync FS (na_uri a) s of
             Inl e \<Rightarrow> Inl (Pick_Storage e)
           | Inr base64 \<Rightarrow>
               (case base64ToBytes base64 of
                  Inl e \<Rightarrow> Inl (Pick_Decode e)
                | Inr bs \<Rightarrow>
                    if \<not> validateAttachmentSize (num (int (length bs))) maxBytes
                    then Inr (Too_Large (na_filename a) (num (int (length bs))))
                    else Inr (Picked \<lparr>filename = na_filename a, mimetype = na_mimetype a, att_bytes = bs\<rparr>)))"

definition normalizeImage :: "image_asset \<Rightarrow> normalized_asset" where
  "normalizeImage a =
     (let mime = mime_or_default (ia_mimeType a) in
      \<lparr>na_uri = ia_uri a, na_filename = (case ia_fileName a of Some (u # us) \<Rightarrow> basename (u # us) | _ \<Rightarrow> fallbackName mime),
       na_mimetype = mime, na_knownSize = ia_fileSize a\<rparr>)"

definition normalizeDocument :: "document_asset \<Rightarrow> normalized_asset" where
  "normalizeDocument a =
     (let mime = mime_or_default (da_mimeType a); base = basename (da_name a) in
      \<lparr>na_uri = da_uri a, na_filename = (if base = [] then fallbackName mime else base), na_mimetype = mime, na_knownSize = da_size a\<rparr>)"

definition build_first :: "('a \<Rightarrow> normalized_asset) \<Rightarrow> 'f file_system \<Rightarrow> 'f \<Rightarrow> nat \<Rightarrow> 'a picker_result \<Rightarrow> pick_error + pick_result" where
  "build_first nf FS s maxBytes r =
     (case first_asset r of None \<Rightarrow> Inr Pick_Cancelled | Some a \<Rightarrow> buildResult (nf a) FS s maxBytes)"

definition pickFromLibrary :: "'f file_system \<Rightarrow> 'f \<Rightarrow> nat \<Rightarrow> image_asset picker_result \<Rightarrow> pick_error + pick_result" where
  "pickFromLibrary FS s maxBytes r = build_first normalizeImage FS s maxBytes r"

definition pickFromCamera :: "bool \<Rightarrow> 'f file_system \<Rightarrow> 'f \<Rightarrow> nat \<Rightarrow> image_asset picker_result \<Rightarrow> pick_error + pick_result" where
  "pickFromCamera allowed FS s maxBytes r =
     (if \<not> allowed then Inr Pick_Cancelled else build_first normalizeImage FS s maxBytes r)"

definition pickDocument :: "'f file_system \<Rightarrow> 'f \<Rightarrow> nat \<Rightarrow> document_asset picker_result \<Rightarrow> pick_error + pick_result" where
  "pickDocument FS s maxBytes r = build_first normalizeDocument FS s maxBytes r"

text \<open>The web client's; the bytes are what \<open>arrayBuffer\<close> yields.\<close>

record web_file =
  wf_name :: js_text
  wf_size :: nat
  wf_type :: js_text
  wf_bytes :: bytes

definition web_validateAttachmentSize :: "nat \<Rightarrow> nat \<Rightarrow> bool" where
  "web_validateAttachmentSize n maxBytes = (\<not> n > maxBytes)"

definition fileToAttachment :: "web_file \<Rightarrow> nat \<Rightarrow> pick_result" where
  "fileToAttachment f maxBytes =
     (let base = basename (wf_name f); name = (if base = [] then text_of_string ''attachment.bin'' else base); bs = wf_bytes f in
      if \<not> web_validateAttachmentSize (wf_size f) maxBytes then Too_Large name (num (int (wf_size f)))
      else if \<not> web_validateAttachmentSize (length bs) maxBytes then Too_Large name (num (int (length bs)))
      else Picked \<lparr>filename = name, mimetype = (if wf_type f = [] then DEFAULT_MIME else wf_type f), att_bytes = bs\<rparr>)"

section \<open>Attachments saved from the reader\<close>

text \<open>\<open>filename.replace(/[^\w.-]+/g, "_")\<close>\<close>

definition word_unit :: "16 word \<Rightarrow> bool" where
  "word_unit u = (unat u < 128 \<and> (let c = char_of (unat u) in alnum c \<or> c = CHR ''_'' \<or> c = CHR ''.'' \<or> c = CHR ''-''))"

function safe_name :: "js_text \<Rightarrow> string" where
  "safe_name [] = []"
| "safe_name (u # us) =
     (if word_unit u then char_of (unat u) # safe_name us
      else CHR ''_'' # safe_name (dropWhile (\<lambda>v. \<not> word_unit v) us))"
  by pat_completeness auto
termination
  by (relation "measure length") (auto simp: less_Suc_eq_le intro: length_dropWhile_le)

text \<open>
  A reading: the files tracked for the wipe, the writes under way (address and contents) and whether the reader
  has been left. A write takes effect when it ends; the share that follows does not matter here.
\<close>

record reading =
  rd_tracked :: "string list"
  rd_writing :: "(string \<times> string) list"
  rd_left :: bool

definition reader_mount :: reading where
  "reader_mount = \<lparr>rd_tracked = [], rd_writing = [], rd_left = False\<rparr>"

definition onDownload :: "string option \<Rightarrow> int \<Rightarrow> payload_attachment \<Rightarrow> reading \<Rightarrow> reading" where
  "onDownload dir now a r =
     (if rd_left r then r
      else r\<lparr>rd_writing := rd_writing r @ [(cache_uri dir now (safe_name (filename a)), bytesToBase64 (att_bytes a))]\<rparr>)"

definition writeAttachmentToCache :: "'f file_system \<Rightarrow> string \<times> string \<Rightarrow> reading \<times> 'f \<Rightarrow> reading \<times> 'f" where
  "writeAttachmentToCache FS w rs =
     (case rs of (r, s) \<Rightarrow>
        (case writeAsStringAsync FS (fst w) (snd w) s of
           (Inl e, s') \<Rightarrow> (r, s')
         | (Inr u, s') \<Rightarrow> (r\<lparr>rd_tracked := rd_tracked r @ [fst w]\<rparr>, s')))"

definition write_ends :: "'f file_system \<Rightarrow> nat \<Rightarrow> reading \<times> 'f \<Rightarrow> reading \<times> 'f" where
  "write_ends FS n rs =
     (case rs of (r, s) \<Rightarrow>
        if n < length (rd_writing r)
        then writeAttachmentToCache FS (rd_writing r ! n)
               (r\<lparr>rd_writing := take n (rd_writing r) @ drop (Suc n) (rd_writing r)\<rparr>, s)
        else (r, s))"

text \<open>\<open>deleteAsync(uri).catch(() => {})\<close> of every address\<close>

definition clearCachedFiles :: "'f file_system \<Rightarrow> string list \<Rightarrow> 'f \<Rightarrow> 'f" where
  "clearCachedFiles FS uris s = fold (\<lambda>uri s. snd (deleteAsync FS uri s)) uris s"

definition leave_reader :: "'f file_system \<Rightarrow> bool \<Rightarrow> reading \<times> 'f \<Rightarrow> reading \<times> 'f" where
  "leave_reader FS autoWipe rs =
     (case rs of (r, s) \<Rightarrow>
        if rd_left r then (r, s)
        else (r\<lparr>rd_tracked := [], rd_left := True\<rparr>, if autoWipe then clearCachedFiles FS (rd_tracked r) s else s))"

datatype reader_event = Download int payload_attachment | Write_Ends nat | Leave bool

fun reader_step :: "'f file_system \<Rightarrow> string option \<Rightarrow> reader_event \<Rightarrow> reading \<times> 'f \<Rightarrow> reading \<times> 'f" where
  "reader_step FS dir (Download now a) (r, s) = (onDownload dir now a r, s)"
| "reader_step FS dir (Write_Ends n) (r, s) = write_ends FS n (r, s)"
| "reader_step FS dir (Leave autoWipe) (r, s) = leave_reader FS autoWipe (r, s)"

section \<open>Clearing the local history\<close>

definition clearAttachmentCache :: "'f file_system \<Rightarrow> string option \<Rightarrow> 'f \<Rightarrow> 'f" where
  "clearAttachmentCache FS dir s =
     (case dir of
        None \<Rightarrow> s
      | Some d \<Rightarrow>
          if d = [] then s
          else case readDirectoryAsync FS d s of
                 Inl e \<Rightarrow> s
               | Inr names \<Rightarrow> clearCachedFiles FS (map (\<lambda>name. d @ name) (filter (starts_with CACHE_FILE_PREFIX) names)) s)"

definition clearLocalHistory :: "'f file_system \<Rightarrow> string option \<Rightarrow> 'f \<times> sent_store \<Rightarrow> 'f \<times> sent_store" where
  "clearLocalHistory FS dir w = (case w of (s, st) \<Rightarrow> (clearAttachmentCache FS dir s, clearSentLinks st))"

end
