(* ===== verification/Device_Files_Laws.thy ===== *)
theory Device_Files_Laws
  imports Device_Files Contact_Trust Storage_Properties End_To_End
begin

text \<open>
  What the files of the clients guarantee: contact cards and backups are never taken for each other, a picked
  attachment fits the server's limits, and decrypted attachments saved from the reader are wiped when it is
  left, except when a save is still under way.
\<close>

section \<open>Contact cards and backups\<close>

lemma buildContactCard_Inr:
  assumes "buildContactCard P label key = Inr f"
  shows "isValidLabel label" "cf_contents f = json_text P (JObj [(''type'', JStr CONTACT_CARD_TYPE), (''version'', jint CONTACT_CARD_VERSION),
    (''label'', JStr (js_trim label)), (''publicKey'', JStr key)])"
  using assms by (auto simp: buildContactCard_def split: if_splits)

lemma normalize_valid: "isValidLabel label \<Longrightarrow> normalizeLabel (js_trim label) = js_trim label"
  by (simp add: isValidLabel_def normalizeLabel_def Let_def)

lemma card_read:
  assumes "platform_ok P" "buildContactCard P label key = Inr f"
  shows "json_read P (cf_contents f) = Some (JObj [(''type'', JStr CONTACT_CARD_TYPE), (''version'', jint CONTACT_CARD_VERSION),
    (''label'', JStr (js_trim label)), (''publicKey'', JStr key)])"
  unfolding buildContactCard_Inr(2) [OF assms(2)]
  by (rule json_returns_D) (use assms(1) in \<open>simp_all add: platform_ok_def\<close>)

lemma parse_card:
  assumes "hpke_correct S" "platform_ok P" "generateIdentity S kp = Inr me" "buildContactCard P label (exportPublicKey me) = Inr f"
  shows "parseContactCard S P (cf_contents f) = Inr \<lparr>cd_label = js_trim label, cd_publicKey = exportPublicKey me\<rparr>"
  using buildContactCard_Inr(1) [OF assms(4)] card_read [OF assms(2,4)] exported_key_imports [OF assms(1,3)]
  by (simp add: parseContactCard_def is_object_def json_prop_def prop_string_def normalize_valid)

lemma parse_backup:
  assumes "platform_ok P" "buildBackup S P i pw salt iv = Inr b"
  shows "parseContactCard S P (bf_contents b) = Inl Card_Wrong_Type"
proof -
  obtain ct where b: "bf_contents b = json_text P (envelope_json DEFAULT_WRAP_KDF_PARAMS salt iv ct (publicKeyRaw i))"
    using assms(2) by (auto simp: buildBackup_def wrapPrivateKey_def Let_def result_simps)
  have "json_plain (envelope_json DEFAULT_WRAP_KDF_PARAMS salt iv ct (publicKeyRaw i))"
    by (simp add: envelope_json_def DEFAULT_WRAP_KDF_PARAMS_def)
  then have "json_read P (bf_contents b) = Some (envelope_json DEFAULT_WRAP_KDF_PARAMS salt iv ct (publicKeyRaw i))"
    using assms(1) unfolding b by (simp add: platform_ok_def json_returns_D)
  then show ?thesis by (simp add: parseContactCard_def envelope_json_def is_object_def json_prop_def)
qed

lemma restore_card:
  assumes "platform_ok P" "buildContactCard P label key = Inr f"
  shows "restoreIdentity S P (cf_contents f) pw = Inl InvalidFile"
  using card_read [OF assms]
  by (simp add: restoreIdentity_def unwrapPrivateKey_def parseEnvelope_def is_object_def json_prop_def format_error_def)

lemma written_file:
  assumes "fs_correct FS files dirs" "state_then (writeAsStringAsync FS u c s) (\<lambda>x s'. (Inr u, s')) = (Inr v, s')"
  shows "v = u \<and> files s' u = Some c"
  using assms by (cases "writeAsStringAsync FS u c s") (auto simp: state_then_def fs_correct_def split: sum.splits)

text \<open>
  A contact card arrives, and is told from a backup. A card built from an exported key and written to a file is
  imported from it as the trimmed name and that key, the tab then opens the paste screen with both filled in,
  and adding the contact from there stores that key, unverified. A backup file picked as a card is reported as
  the wrong type of file, and a card picked as a backup as no valid one, whatever the passphrase.
\<close>

theorem cards_and_backups:
  assumes "hpke_correct S" "platform_ok P" "generateIdentity S kp = Inr me" "fs_correct FS files dirs"
    "buildContactCard P label (exportPublicKey me) = Inr f" "writeCardToCache FS dir now f s = (Inr u, s1)"
    "readAsStringAsync FS u s1 = Inr t" "da_uri a = u" "ct_route tab = Add_Route"
    "buildBackup S P i pw salt iv = Inr b" "fingerprint (sha256 S) (exportPublicKey me) = Inr fp"
  shows "importContactCard S P FS s1 (Inr \<lparr>pr_canceled = False, pr_assets = Some (a # as)\<rparr> :: 'e + document_asset picker_result)
      = Card_Imported \<lparr>cd_label = js_trim label, cd_publicKey = exportPublicKey me\<rparr>
    \<and> ct_paste (fst (snd (resume S collate (import_reply (Card_Imported \<lparr>cd_label = js_trim label, cd_publicKey = exportPublicKey me\<rparr>)) Importing (tab, st))))
        = \<lparr>ps_key = exportPublicKey me, ps_name = js_trim label, ps_error = None, ps_busy = False, ps_mount = ps_mount (ct_paste tab) + 1\<rparr>
    \<and> canAddContact (exportPublicKey me) (js_trim label)
    \<and> addContact (fingerprint (sha256 S)) day uuid \<lparr>in_label = js_trim label, in_publicKey = exportPublicKey me\<rparr> None
        = (Inr (new_contact day uuid (js_trim label) (exportPublicKey me) fp), writeAll [new_contact day uuid (js_trim label) (exportPublicKey me) fp])
    \<and> parseContactCard S P (bf_contents b) = Inl Card_Wrong_Type
    \<and> restoreIdentity S P (cf_contents f) pw' = Inl InvalidFile"
proof -
  have "t = cf_contents f"
    using written_file [OF assms(4), of u "cf_contents f" s u s1] assms(4,6,7)
    by (auto simp: writeCardToCache_def Let_def fs_correct_def state_then_def split: prod.splits sum.splits)
  then have "importContactCard S P FS s1 (Inr \<lparr>pr_canceled = False, pr_assets = Some (a # as)\<rparr> :: 'e + document_asset picker_result)
      = Card_Imported \<lparr>cd_label = js_trim label, cd_publicKey = exportPublicKey me\<rparr>"
    using parse_card [OF assms(1-3,5)] assms(7,8)
    by (simp add: importContactCard_def pickCardFile_def picked_of_def first_asset_def readCardFile_def)
  moreover have "ct_paste (fst (snd (resume S collate (import_reply (Card_Imported \<lparr>cd_label = js_trim label, cd_publicKey = exportPublicKey me\<rparr>)) Importing (tab, st))))
        = \<lparr>ps_key = exportPublicKey me, ps_name = js_trim label, ps_error = None, ps_busy = False, ps_mount = ps_mount (ct_paste tab) + 1\<rparr>"
    using assms(9) by (simp add: resume_def Let_def setRoute_def render_def shows_paste_def rendered_def prefills_def)
  moreover have label: "isValidLabel label" by (rule buildContactCard_Inr(1) [OF assms(5)])
  moreover have "canAddContact (exportPublicKey me) (js_trim label)"
  proof -
    have "js_trim (js_trim label) \<noteq> []" using label by (auto simp: isValidLabel_def Let_def)
    then show ?thesis using exported_keys_accepted [OF assms(1,3) _ _ assms(11), of "[]" "[]" "js_trim label"] by simp
  qed
  moreover have "addContact (fingerprint (sha256 S)) day uuid \<lparr>in_label = js_trim label, in_publicKey = exportPublicKey me\<rparr> None
        = (Inr (new_contact day uuid (js_trim label) (exportPublicKey me) fp), writeAll [new_contact day uuid (js_trim label) (exportPublicKey me) fp])"
    using validateLabel_Inr [where raw = "js_trim label" and l = "js_trim label" and 'a = crypto_error] label assms(11)
    by (simp add: addContact_def key_error_def readAll_def Let_def)
  ultimately show ?thesis using parse_backup [OF assms(2,10)] restore_card [OF assms(2,5)] by blast
qed

theorem cards_and_backups_witness:
  "\<exists>k. canAddContact k (js_trim ''Ada'')"
proof -
  obtain me where me: "generateIdentity toy_suite (5, 5) = Inr me" using generateIdentity_total [OF toy_correct] by blast
  then obtain k where "decodePubkey (exportPublicKey me) = Inr k"
    using exported_key_imports [OF toy_correct me] by (auto simp: importPublicKey_def result_simps)
  then obtain fp where fp: "fingerprint (sha256 toy_suite) (exportPublicKey me) = Inr fp" by (auto simp: fingerprint_def Let_def)
  obtain f where f: "buildContactCard toy_platform ''Ada'' (exportPublicKey me) = Inr f"
    by (simp add: buildContactCard_def isValidLabel_def js_trim_def js_space_def MAX_LABEL_LEN_def)
  obtain b where b: "buildBackup toy_suite toy_platform me [] (replicate 16 0) (replicate 12 0) = Inr b"
    by (simp add: buildBackup_def wrapPrivateKey_def toy_derive DEFAULT_WRAP_KDF_PARAMS_def Let_def)
  let ?u = "cache_uri (Some ''c/'') 7 (cf_filename f)"
  let ?a = "\<lparr>da_uri = ?u, da_name = [], da_mimeType = None, da_size = None\<rparr>"
  have "writeCardToCache toy_fs (Some ''c/'') 7 f [] = (Inr ?u, [(?u, cf_contents f)])"
    "readAsStringAsync toy_fs ?u [(?u, cf_contents f)] = Inr (cf_contents f)"
    by (simp_all add: writeCardToCache_def toy_fs_def state_then_def Let_def)
  moreover have "da_uri ?a = ?u" "ct_route (contacts_mount (Some Intent_Add)) = Add_Route" by (simp_all add: contacts_mount_def)
  ultimately have "canAddContact (exportPublicKey me) (js_trim ''Ada'')"
    using cards_and_backups [OF toy_correct toy_platform_ok me toy_fs_correct f _ _ _ _ b fp] by blast
  then show ?thesis by blast
qed

section \<open>Attachments fit\<close>

lemma size_checked [simp]:
  "validateAttachmentSize (num (int n)) m \<longleftrightarrow> n \<le> m" "web_validateAttachmentSize n m \<longleftrightarrow> n \<le> m"
  by (auto simp: validateAttachmentSize_def web_validateAttachmentSize_def)

lemma buildResult_size: "buildResult a FS s m = Inr (Picked att) \<Longrightarrow> length (att_bytes att) \<le> m"
  by (auto simp: buildResult_def Let_def split: if_splits sum.splits)

lemma build_first_size: "build_first nf FS s m r = Inr (Picked att) \<Longrightarrow> length (att_bytes att) \<le> m"
  by (auto simp: build_first_def split: option.splits dest: buildResult_size)

lemma web_size: "fileToAttachment f m = Picked att \<Longrightarrow> length (att_bytes att) \<le> m"
  by (auto simp: fileToAttachment_def Let_def split: if_splits)

lemma largest_padded: "n \<le> 26738688 \<Longrightarrow> padded_len n \<le> 26738688"
proof -
  assume n: "n \<le> 26738688"
  have "ilog2 26738688 = 24" "ilog2 24 = 4" by (rule ilog2_eqI; simp)+
  then have "padded_len 26738688 = 26738688" by (simp add: padded_len_def padme_def ceil_div_def)
  then show ?thesis using padded_len_mono [OF n] by simp
qed

text \<open>Any attachment the clients pick, with whichever entitlement.\<close>

definition picked_by_a_client :: "'f file_system \<Rightarrow> payload_attachment \<Rightarrow> bool" where
  "picked_by_a_client FS a =
     (\<exists>isPro s ok docs images f.
        pickDocument FS s (maxAttachmentBytes isPro) docs = Inr (Picked a)
        \<or> pickFromLibrary FS s (maxAttachmentBytes isPro) images = Inr (Picked a)
        \<or> pickFromCamera ok FS s (maxAttachmentBytes isPro) images = Inr (Picked a)
        \<or> fileToAttachment f MAX_ATTACHMENT_BYTES = Picked a)"

lemma picked_size: "picked_by_a_client FS a \<Longrightarrow> length (att_bytes a) \<le> 26214400"
proof -
  assume "picked_by_a_client FS a"
  then obtain isPro and m :: nat where "length (att_bytes a) \<le> m" "m = maxAttachmentBytes isPro \<or> m = MAX_ATTACHMENT_BYTES"
    unfolding picked_by_a_client_def pickDocument_def pickFromLibrary_def pickFromCamera_def
    by (auto split: if_splits dest!: build_first_size web_size)
  then show ?thesis
    by (auto simp: maxAttachmentBytes_def FREE_ATTACHMENT_BYTES_def PRO_ATTACHMENT_BYTES_def MAX_ATTACHMENT_BYTES_def split: if_splits)
qed

text \<open>
  An attachment that can be picked can be sent. A message with an attachment either client picked, of the
  largest size any entitlement allows, and up to 500,000 bytes of text and names, is sealed into a blob whose
  size the server accepts.
\<close>

theorem attachments_fit:
  assumes "picked_by_a_client FS a" "length (TextEncoder m) + length (TextEncoder (filename a)) + length (TextEncoder (mimetype a)) \<le> 500000"
    "\<forall>rnd k pt aad. length (snd (sender_seal S rnd k pt aad)) = length pt + 16"
    "encodePayload \<lparr>msg_text = m, attachments = [a]\<rparr> = Inr pt" "seal S rnd pt r ctx = Inr blob"
  shows "MIN_CIPHERTEXT_BYTES \<le> length blob \<and> length blob \<le> MAX_CIPHERTEXT_BYTES"
proof -
  have "payload_size \<lparr>msg_text = m, attachments = [a]\<rparr> \<le> 26738688"
    using assms(2) picked_size [OF assms(1)] by (simp add: payload_size_def)
  then have pt: "length pt \<le> 26738688" using payload_size_eq [OF assms(4)] largest_padded by simp
  from assms(5) obtain aad enc out where "sender_seal S rnd (cryptoKey r) pt aad = (enc, out)" "length enc = 32"
    "decodeCiphertextBlob blob = Inr (enc, out)" by (rule seal_Inr)
  moreover have "length out = length pt + 16" using assms(3) calculation(1) by (metis snd_conv)
  ultimately have "length blob = 50 + length pt"
    by (auto simp: decodeCiphertextBlob_def wire_consts result_simps Let_def split: if_splits)
  then show ?thesis using pt by (simp add: MIN_CIPHERTEXT_BYTES_def MAX_CIPHERTEXT_BYTES_def)
qed

definition tagged_suite :: "(byte, byte) hpke_suite" where
  "tagged_suite = toy_suite\<lparr>sender_seal := \<lambda>rnd k pt aad. (replicate 32 k, pt @ replicate 16 0),
     recipient_open := \<lambda>k enc ct aad. Some (take (length ct - 16) ct)\<rparr>"

lemma tagged_correct: "hpke_correct tagged_suite"
  using toy_correct by (simp add: tagged_suite_def hpke_correct_def seal_inverts_def)

theorem attachments_fit_witness:
  "\<exists>pt. encodePayload \<lparr>msg_text = [], attachments = [\<lparr>filename = [0x61], mimetype = [0x61], att_bytes = [7]\<rparr>]\<rparr> = Inr pt
     \<and> (\<exists>r ctx blob. seal tagged_suite [] pt r ctx = Inr blob \<and> length blob \<le> MAX_CIPHERTEXT_BYTES)"
proof -
  let ?a = "\<lparr>filename = [0x61 :: 16 word], mimetype = [0x61], att_bytes = [7 :: byte]\<rparr>"
  have enc: "TextEncoder [] = []" "TextEncoder [0x61] = [0x61]"
    by (simp_all add: TextEncoder_def scalar_bytes_def high_surrogate_def low_surrogate_def)
  have "fileToAttachment \<lparr>wf_name = [0x61], wf_size = 1, wf_type = [0x61], wf_bytes = [7]\<rparr> MAX_ATTACHMENT_BYTES = Picked ?a"
    by (simp add: fileToAttachment_def basename_def MAX_ATTACHMENT_BYTES_def Let_def)
  then have picked: "picked_by_a_client toy_fs ?a" unfolding picked_by_a_client_def by blast
  have "targetPaddedLen 22 = Inr 256" using targetPaddedLen_nat [of 22] by (simp add: padded_len_def)
  then have "\<exists>pt. encodePayload \<lparr>msg_text = [], attachments = [?a]\<rparr> = Inr pt"
    by (simp add: encodePayload_def encode_field_def enc payload_consts field_len_def length_write_frame Let_def)
  then obtain pt where pt: "encodePayload \<lparr>msg_text = [], attachments = [?a]\<rparr> = Inr pt" by blast
  have pub: "public_of tagged_suite 5 = 5" by (simp add: tagged_suite_def toy_suite_def)
  obtain me where me: "generateIdentity tagged_suite (5, 5) = Inr me" using generateIdentity_total [OF tagged_correct] by blast
  obtain r where r: "importPublicKey tagged_suite (exportPublicKey me) = Inr r" using exported_key_imports [OF tagged_correct me] by blast
  let ?ctx = "\<lparr>linkId = ''aaaaaaaaaaaaaaaa'', recipientPublicKey = exportPublicKey me, createdAtMs = None, expiresAtMs = num 9, maxOpens = num 1\<rparr>"
  have "length (TextEncoder (text_of_string (linkId ?ctx))) = 16"
    by (rule link_id_bytes) (simp add: LINK_ID_REGEX_def alnum_def char_in_def)
  then obtain aad where "encodeAad tagged_suite ?ctx = Inr aad"
    using encodeAad_total [OF tagged_correct, of ?ctx r] r by (auto simp: aad_checks_def isSafeInteger_def Let_def)
  then obtain blob where blob: "seal tagged_suite [] pt r ?ctx = Inr blob"
    using seal_total [OF tagged_correct _ r, of 5 ?ctx aad "[]" pt] me pub by auto
  have tag: "\<forall>rnd k pt aad. length (snd (sender_seal tagged_suite rnd k pt aad)) = length pt + 16" by (simp add: tagged_suite_def)
  have "length blob \<le> MAX_CIPHERTEXT_BYTES"
    using attachments_fit [OF picked _ tag pt blob] by (simp add: enc)
  then show ?thesis using pt blob by blast
qed

section \<open>Saved attachments\<close>

text \<open>
  The deletions of a sweep that fail (the code catches and drops them), and the writes of a run that fail: the
  file system promises nothing of their files.
\<close>

fun failed_deletes :: "'f file_system \<Rightarrow> string list \<Rightarrow> 'f \<Rightarrow> string set" where
  "failed_deletes FS [] s = {}"
| "failed_deletes FS (u # us) s =
     (case deleteAsync FS u s of (r, s') \<Rightarrow> (if is_err r then {u} else {}) \<union> failed_deletes FS us s')"

fun failed_writes :: "'f file_system \<Rightarrow> string option \<Rightarrow> reader_event list \<Rightarrow> reading \<times> 'f \<Rightarrow> string set" where
  "failed_writes FS dir [] rs = {}"
| "failed_writes FS dir (e # es) rs =
     (case e of
        Write_Ends n \<Rightarrow>
          (if n < length (rd_writing (fst rs))
              \<and> is_err (fst (writeAsStringAsync FS (fst (rd_writing (fst rs) ! n)) (snd (rd_writing (fst rs) ! n)) (snd rs)))
           then {fst (rd_writing (fst rs) ! n)} else {})
      | _ \<Rightarrow> {}) \<union> failed_writes FS dir es (reader_step FS dir e rs)"

lemma cleared_files:
  assumes "fs_correct FS files dirs" "u \<notin> failed_deletes FS us s"
  shows "files (clearCachedFiles FS us s) u = (if u \<in> set us then None else files s u)"
  using assms(2)
proof (induction us arbitrary: s)
  case (Cons v us)
  obtain r s' where d: "deleteAsync FS v s = (r, s')" by fastforce
  have "files s' u = (if u = v then None else files s u)"
    using assms(1) d Cons.prems by (cases r) (auto simp: fs_correct_def split: if_splits)
  then show ?case using Cons.IH [of s'] Cons.prems d by (cases "u = v") (simp_all add: clearCachedFiles_def)
qed (simp add: clearCachedFiles_def)

definition tracks_new :: "('f \<Rightarrow> string \<Rightarrow> string option) \<Rightarrow> 'f \<Rightarrow> string \<Rightarrow> reading \<times> 'f \<Rightarrow> bool" where
  "tracks_new files s0 u rs = (\<not> rd_left (fst rs) \<longrightarrow> u \<in> set (rd_tracked (fst rs)) \<or> files (snd rs) u = files s0 u)"

lemma reader_step_tracks:
  assumes "fs_correct FS files dirs" "tracks_new files s0 u rs" "u \<notin> failed_writes FS dir [e] rs"
  shows "tracks_new files s0 u (reader_step FS dir e rs)"
proof -
  obtain r s where rs: "rs = (r, s)" by (cases rs)
  show ?thesis
  proof (cases e)
    case (Write_Ends n)
    show ?thesis
    proof (cases "n < length (rd_writing r)")
      case True
      obtain out s' where w: "writeAsStringAsync FS (fst (rd_writing r ! n)) (snd (rd_writing r ! n)) s = (out, s')" by fastforce
      then have other: "u \<noteq> fst (rd_writing r ! n) \<longrightarrow> files s' u = files s u" using assms(1) by (auto simp: fs_correct_def)
      show ?thesis
      proof (cases out)
        case (Inl er)
        then have "u \<noteq> fst (rd_writing r ! n)" using assms(3) True w by (auto simp: rs Write_Ends)
        then show ?thesis using assms(2) True w Inl other by (simp add: rs Write_Ends write_ends_def writeAttachmentToCache_def tracks_new_def)
      next
        case (Inr x)
        then show ?thesis using assms(2) True w other
          by (auto simp: rs Write_Ends write_ends_def writeAttachmentToCache_def tracks_new_def)
      qed
    qed (use assms(2) in \<open>simp add: rs Write_Ends write_ends_def\<close>)
  qed (use assms(2) in \<open>auto simp: rs onDownload_def leave_reader_def tracks_new_def\<close>)
qed

lemma reader_run_tracks:
  assumes "fs_correct FS files dirs" "tracks_new files s0 u rs" "u \<notin> failed_writes FS dir es rs"
  shows "tracks_new files s0 u (fold (reader_step FS dir) es rs)"
  using assms(2,3)
proof (induction es arbitrary: rs)
  case (Cons e es)
  have "tracks_new files s0 u (reader_step FS dir e rs)"
    using Cons.prems by (intro reader_step_tracks [OF assms(1)]) auto
  then show ?case using Cons by simp
qed simp


text \<open>
  A write that fails half-way. The file is tracked only after the write has succeeded, so if the write of a decrypted
  attachment fails after it has put something into the file, leaving the reader does not delete that file.
\<close>

theorem cut_write_stays:
  assumes "fs_correct FS files dirs" "\<not> rd_left r" "n < length (rd_writing r)" "rd_writing r ! n = (u, c)" "u \<notin> set (rd_tracked r)"
    "writeAsStringAsync FS u c s = (Inl e, s')" "files s' u = Some part"
  shows "files (snd (leave_reader FS True (write_ends FS n (r, s)))) u = Some part"
proof -
  have "files (clearCachedFiles FS us s') u = files s' u" if "u \<notin> set us" for us and s' :: 'a
    using that
  proof (induction us arbitrary: s')
    case (Cons v us)
    obtain x s2 where d: "deleteAsync FS v s' = (x, s2)" by fastforce
    then have "files s2 u = files s' u" using assms(1) Cons.prems by (auto simp: fs_correct_def)
    then show ?case using Cons.IH [of s2] Cons.prems d by (simp add: clearCachedFiles_def)
  qed (simp add: clearCachedFiles_def)
  then show ?thesis using assms(2-7) by (simp add: write_ends_def writeAttachmentToCache_def leave_reader_def)
qed

text \<open>
  Except for a save under way. If the reader is left while the write of an attachment has not ended, the wipe
  does not know of it: when the write then ends, the decrypted file is there, and it stays whatever else the
  screen still does, until the local history is cleared.
\<close>

theorem late_save_stays:
  assumes "fs_correct FS files dirs" "\<not> rd_left r" "n < length (rd_writing r)" "rd_writing r ! n = (u, c)"
    "fst (writeAsStringAsync FS u c (snd (leave_reader FS wipe (r, s)))) = Inr ()"
  shows "let after = write_ends FS n (leave_reader FS wipe (r, s)) in
    files (snd after) u = Some c \<and> reader_step FS dir (Leave True) after = after \<and> reader_step FS dir (Download now a) after = after"
proof -
  obtain r' s' where leave: "leave_reader FS wipe (r, s) = (r', s')" "rd_left r'" "rd_writing r' = rd_writing r"
    using assms(2) by (auto simp: leave_reader_def)
  obtain s'' where w: "writeAsStringAsync FS u c s' = (Inr (), s'')" using assms(5) leave(1) by (metis prod.collapse snd_conv)
  then have "files s'' u = Some c" using assms(1) by (auto simp: fs_correct_def)
  then show ?thesis
    using assms(3,4) leave w by (auto simp: Let_def write_ends_def writeAttachmentToCache_def leave_reader_def onDownload_def)
qed


theorem late_save_stays_witness:
  "map_of (snd (write_ends toy_fs 0 (leave_reader toy_fs True (\<lparr>rd_tracked = [], rd_writing = [(''u'', ''c'')], rd_left = False\<rparr>, [])))) ''u'' = Some ''c''"
  using late_save_stays [OF toy_fs_correct, of "\<lparr>rd_tracked = [], rd_writing = [(''u'', ''c'')], rd_left = False\<rparr>" 0 "''u''" "''c''" True "[]"]
  by (simp add: toy_fs_def Let_def)

section \<open>Clearing the local history\<close>

lemma safe_name_plain: "CHR ''/'' \<notin> set (safe_name t)"
proof (induction t rule: safe_name.induct)
  case (2 u us)
  have "char_of (unat u) \<noteq> CHR ''/''" if "word_unit u"
  proof
    assume "char_of (unat u) = CHR ''/''"
    then have "(of_char (char_of (unat u)) :: nat) = of_char CHR ''/''" by simp
    then have "unat u = 47" using that by (simp add: word_unit_def)
    then show False using that \<open>char_of (unat u) = CHR ''/''\<close> by (simp add: word_unit_def alnum_def char_in_def Let_def)
  qed
  then show ?case using 2 by auto
qed simp

lemma show_int_no_slash: "CHR ''/'' \<notin> set (show_int i)"
proof -
  have "CHR ''/'' \<noteq> digit_char n" if "n < 10" for n
    using nth_mem [of n "''0123456789''"] that by (auto simp: digit_char_def simp del: nth_mem)
  then have "CHR ''/'' \<notin> set (show_nat n)" for n
    by (induction n rule: show_nat.induct) (subst show_nat.simps, auto)
  then show ?thesis by (auto simp: show_int_def)
qed

lemma cache_uri_name:
  "CHR ''/'' \<notin> set name \<Longrightarrow> \<exists>n. cache_uri (Some d) now name = d @ n \<and> CHR ''/'' \<notin> set n \<and> starts_with CACHE_FILE_PREFIX n"
  using show_int_no_slash [of now] by (auto simp: cache_uri_def CACHE_FILE_PREFIX_def starts_with_def)

text \<open>
  Clearing the local history, when its deletions go through, reclaims every file the app put into the cache: attachments (also those saved
  too late to be wiped), cards and backups; it touches no other file, and the sent links are forgotten.
\<close>

theorem history_cleared:
  assumes "fs_correct FS files dirs" "d \<noteq> []" "readDirectoryAsync FS d s = Inr names"
    "failed_deletes FS (map (\<lambda>name. d @ name) (filter (starts_with CACHE_FILE_PREFIX) names)) s = {}"
    "clearLocalHistory FS (Some d) (s, st) = (s', st')"
  shows "files s' (cache_uri (Some d) now (safe_name (filename a))) = None \<and> files s' (cache_uri (Some d) now CONTACT_CARD_FILENAME) = None
    \<and> files s' (cache_uri (Some d) now BACKUP_FILENAME) = None
    \<and> ((\<exists>n. u = d @ CACHE_FILE_PREFIX @ n) \<or> files s' u = files s u) \<and> listSentLinks st' = []"
proof -
  have s': "files s' u = (if u \<in> (@) d ` {n \<in> set names. starts_with CACHE_FILE_PREFIX n} then None else files s u)" for u
    using assms(2-5) cleared_files [OF assms(1), of u "map (\<lambda>name. d @ name) (filter (starts_with CACHE_FILE_PREFIX) names)" s]
    by (simp add: clearLocalHistory_def clearAttachmentCache_def)
  have gone: "files s' (d @ n) = None" if "CHR ''/'' \<notin> set n" "starts_with CACHE_FILE_PREFIX n" for n
  proof -
    have "files s (d @ n) \<noteq> None \<longrightarrow> n \<in> set names" using assms(1,3) that(1) unfolding fs_correct_def by blast
    then show ?thesis using that(2) by (auto simp: s')
  qed
  have "files s' (cache_uri (Some d) now name) = None" if "CHR ''/'' \<notin> set name" for name
    using cache_uri_name [OF that, of d now] gone by auto
  then have "files s' (cache_uri (Some d) now (safe_name (filename a))) = None" "files s' (cache_uri (Some d) now CONTACT_CARD_FILENAME) = None"
    "files s' (cache_uri (Some d) now BACKUP_FILENAME) = None"
    by (simp_all add: safe_name_plain CONTACT_CARD_FILENAME_def BACKUP_FILENAME_def)
  moreover have "(\<exists>n. u = d @ CACHE_FILE_PREFIX @ n) \<or> files s' u = files s u"
    by (auto simp: s' starts_with_def) (metis append_eq_conv_conj append_take_drop_id)
  moreover have "listSentLinks st' = []"
    using assms(5) by (auto simp: clearLocalHistory_def clearSentLinks_def listSentLinks_def readMap_def sort_by_def)
  ultimately show ?thesis by blast
qed

theorem history_cleared_witness:
  "\<exists>s' st'. clearLocalHistory toy_fs (Some ''c/'') ([(cache_uri (Some ''c/'') 5 BACKUP_FILENAME, ''x''), (''c/y'', ''z'')], None) = (s', st')
     \<and> map_of s' (cache_uri (Some ''c/'') 5 BACKUP_FILENAME) = None"
proof -
  let ?s = "[(cache_uri (Some ''c/'') 5 BACKUP_FILENAME, ''x''), (''c/y'', ''z'')]"
  obtain names where names: "readDirectoryAsync toy_fs ''c/'' ?s = Inr names" by (simp add: toy_fs_def)
  obtain s' st' where run: "clearLocalHistory toy_fs (Some ''c/'') (?s, None) = (s', st')" by fastforce
  have "failed_deletes toy_fs us s = {}" for us s by (induction us arbitrary: s) (simp_all add: toy_fs_def)
  then show ?thesis using run history_cleared [OF toy_fs_correct _ names _ run, of 5] by blast
qed

end
