(* ===== verification/Links_Screens.thy ===== *)
theory Links_Screens
  imports Contact_Trust Sent_Links
begin

text \<open>
  The links tab of the mobile client, apps/mobile/src/links: how a reconciled link is displayed
  (link-display.ts, link-status.ts, links-filter.ts, link-confirm.ts, expiring-window.ts,
  recipient-resolution.ts), the state of the hook that loads the links (use-sent-links.ts) and the screen
  LinksFlow.tsx; with the labels of home/recent-links.ts, create/result-labels.ts, system/format-countdown.ts
  and system/activity-data.ts. \<open>parse\<close> is Date's reading of a text, None an invalid date (whose time is NaN); texts that
  depend on the locale are arguments. Sheets are modal: while one is open the screen below takes no taps.
\<close>

section \<open>The status of a link\<close>

datatype link_status = LAvailable | LOpened | LExpiring | LRevoked | LExpired | LUnknown

record status_descriptor =
  sd_tone :: tone
  sd_icon :: string
  sd_label :: string

fun statusDescriptor :: "link_status \<Rightarrow> status_descriptor" where
  "statusDescriptor LAvailable = \<lparr>sd_tone = Green, sd_icon = ''check_circle'', sd_label = ''Available''\<rparr>"
| "statusDescriptor LOpened = \<lparr>sd_tone = Violet, sd_icon = ''visibility'', sd_label = ''Opened''\<rparr>"
| "statusDescriptor LExpiring = \<lparr>sd_tone = Amber, sd_icon = ''schedule'', sd_label = ''Expiring soon''\<rparr>"
| "statusDescriptor LRevoked = \<lparr>sd_tone = Error_Tone, sd_icon = ''block'', sd_label = ''Revoked''\<rparr>"
| "statusDescriptor LExpired = \<lparr>sd_tone = Neutral, sd_icon = ''history'', sd_label = ''Expired''\<rparr>"
| "statusDescriptor LUnknown = \<lparr>sd_tone = Neutral, sd_icon = ''cloud_off'', sd_label = ''Status unknown''\<rparr>"

definition isDimmedStatus :: "link_status \<Rightarrow> bool" where
  "isDimmedStatus st = (st = LRevoked \<or> st = LExpired)"

definition isExpiringStatus :: "link_status \<Rightarrow> bool" where
  "isExpiringStatus st = (st = LExpiring)"

datatype link_filter = All_Links | Active_Links | Expired_Links

definition matchesFilter :: "link_status \<Rightarrow> link_filter \<Rightarrow> bool" where
  "matchesFilter st f =
     (case f of
        All_Links \<Rightarrow> True
      | Active_Links \<Rightarrow> st \<in> {LAvailable, LOpened, LExpiring, LUnknown}
      | Expired_Links \<Rightarrow> st \<in> {LExpired, LRevoked})"

definition filterByStatus :: "('a \<Rightarrow> link_status) \<Rightarrow> 'a list \<Rightarrow> link_filter \<Rightarrow> 'a list" where
  "filterByStatus status items f = filter (\<lambda>item. matchesFilter (status item) f) items"

definition filterEmptyCopy :: "link_filter \<Rightarrow> (string \<times> string) option" where
  "filterEmptyCopy f =
     (case f of
        All_Links \<Rightarrow> None
      | Active_Links \<Rightarrow>
          Some (''No active links'', ''None of your links are currently active. Switch to All to see expired and revoked links.'')
      | Expired_Links \<Rightarrow> Some (''No expired links'', ''None of your links have expired or been revoked yet.''))"

definition isLinkStillLive :: "link_status \<Rightarrow> bool" where
  "isLinkStillLive st = (st \<noteq> LRevoked \<and> st \<noteq> LExpired)"

section \<open>The expiring window\<close>

definition EXPIRING_FRACTION :: rat where "EXPIRING_FRACTION = 1 / 5"
definition EXPIRING_MIN_WINDOW_MS :: rat where "EXPIRING_MIN_WINDOW_MS = 60000"
definition EXPIRING_MAX_WINDOW_MS :: rat where "EXPIRING_MAX_WINDOW_MS = 24 * (60 * 60000)"

text \<open>
  The doubles round \<open>lifetime * 0.2\<close> to the exact fifth when that is an integer, and to the same side of every
  integer otherwise, so comparing integers with the exact fifth agrees with the code.
\<close>

definition expiringWindowMs :: "rat option \<Rightarrow> rat" where
  "expiringWindowMs lifetime =
     (case lifetime of
        None \<Rightarrow> EXPIRING_MIN_WINDOW_MS
      | Some l \<Rightarrow>
          let raw = l * EXPIRING_FRACTION in
          if \<not> raw > EXPIRING_MIN_WINDOW_MS then EXPIRING_MIN_WINDOW_MS
          else if raw > EXPIRING_MAX_WINDOW_MS then EXPIRING_MAX_WINDOW_MS
          else raw)"

definition isExpiringSoon :: "int option \<Rightarrow> int option \<Rightarrow> int \<Rightarrow> bool" where
  "isExpiringSoon createdAt expiresAt now =
     (case expiresAt of
        None \<Rightarrow> False
      | Some e \<Rightarrow>
          let remaining = e - now in
          if remaining \<le> 0 then False
          else of_int remaining \<le> expiringWindowMs (map_option (\<lambda>c. of_int (e - c)) createdAt))"

definition deriveLinkStatus :: "(string \<Rightarrow> int option) \<Rightarrow> reconciled \<Rightarrow> int \<Rightarrow> link_status" where
  "deriveLinkStatus parse l now =
     (let past = (case parse (rl_expiresAt l) of None \<Rightarrow> False | Some e \<Rightarrow> e \<le> now) in
      if rl_status l = SUnknown then LUnknown
      else if rl_status l = SGoneStatus then (if past then LExpired else LRevoked)
      else if num_less (num 0) (case rl_opensCount l of None \<Rightarrow> num 0 | Some n \<Rightarrow> n) then LOpened
      else if isExpiringSoon (parse (sl_createdAt (rl_record l))) (parse (rl_expiresAt l)) now then LExpiring
      else LAvailable)"

section \<open>Times as text\<close>

definition MINUTE :: int where "MINUTE = 60000"
definition HOUR :: int where "HOUR = 3600000"
definition DAY :: int where "DAY = 24 * HOUR"

lemmas time_consts = MINUTE_def HOUR_def DAY_def

definition relativeTime :: "int option \<Rightarrow> int \<Rightarrow> string" where
  "relativeTime timestamp now =
     (case timestamp of
        None \<Rightarrow> ''NaNw''
      | Some t \<Rightarrow>
          let diff = now - t; days = diff div DAY in
          if diff < MINUTE then ''Now''
          else if diff < HOUR then show_int (diff div MINUTE) @ ''m''
          else if diff < DAY then show_int (diff div HOUR) @ ''h''
          else if days = 1 then ''Yesterday''
          else if days < 7 then show_int days @ ''d''
          else show_int (days div 7) @ ''w'')"

definition formatTimeLabel :: "(string \<Rightarrow> int option) \<Rightarrow> string \<Rightarrow> int \<Rightarrow> string" where
  "formatTimeLabel parse createdAt now =
     (let rel = relativeTime (parse createdAt) now in if rel = ''Now'' \<or> rel = ''Yesterday'' then rel else rel @ '' ago'')"

definition formatRemaining :: "int option \<Rightarrow> string" where
  "formatRemaining ms =
     (case ms of
        None \<Rightarrow> ''in NaNm''
      | Some ms \<Rightarrow>
          if ms \<le> 0 then ''Expired''
          else if ms \<ge> DAY then (let days = ms div DAY in if days = 1 then ''in 1 day'' else ''in '' @ show_int days @ '' days'')
          else if ms \<ge> HOUR then
            (let hours = ms div HOUR; minutes = ms mod HOUR div MINUTE in
             if minutes > 0 then ''in '' @ show_int hours @ ''h '' @ show_int minutes @ ''m'' else ''in '' @ show_int hours @ ''h'')
          else ''in '' @ show_int (max 1 (ms div MINUTE)) @ ''m'')"

definition formatExpiresLabel :: "(string \<Rightarrow> int option) \<Rightarrow> reconciled \<Rightarrow> int \<Rightarrow> string" where
  "formatExpiresLabel parse l now =
     (let expires = parse (rl_expiresAt l) in
      if rl_status l = SGoneStatus
      then (case expires of Some e \<Rightarrow> if e \<le> now then ''Expired'' else ''Revoked'' | None \<Rightarrow> ''Revoked'')
      else formatRemaining (map_option (\<lambda>e. e - now) expires))"

definition expiryChipLabel :: "int \<Rightarrow> int \<Rightarrow> string" where
  "expiryChipLabel expiresAt now =
     (let ms = expiresAt - now; totalMinutes = ms div 60000; days = totalMinutes div (60 * 24);
          hours = totalMinutes mod (60 * 24) div 60; minutes = totalMinutes mod 60 in
      if ms \<le> 0 then ''Expired''
      else if days > 0 then
        (if hours > 0 then ''Expires in '' @ show_int days @ ''d '' @ show_int hours @ ''h'' else ''Expires in '' @ show_int days @ ''d'')
      else if hours > 0 then
        (if minutes > 0 then ''Expires in '' @ show_int hours @ ''h '' @ show_int minutes @ ''m'' else ''Expires in '' @ show_int hours @ ''h'')
      else ''Expires in '' @ show_int (max 1 minutes) @ ''m'')"

definition opensChipLabel :: "int \<Rightarrow> string" where
  "opensChipLabel n =
     (if n < 0 then ''Unlimited'' else if n = 1 then ''1 open'' else show_int n @ '' opens'')"

definition resultChipLabels :: "int \<Rightarrow> int \<Rightarrow> int \<Rightarrow> string \<times> string" where
  "resultChipLabels expiresAt opens now = (expiryChipLabel expiresAt now, opensChipLabel opens)"

definition plural :: "int \<Rightarrow> string \<Rightarrow> string" where
  "plural n u = show_int n @ '' '' @ u @ (if n = 1 then [] else ''s'')"

definition friendlyRemaining :: "int \<Rightarrow> string" where
  "friendlyRemaining ms =
     (if ms \<le> 0 then ''now''
      else if ms < MINUTE then ''in under a minute''
      else if ms < HOUR then ''in '' @ plural (ms div MINUTE) ''minute''
      else if ms < DAY then ''in '' @ plural (ms div HOUR) ''hour''
      else ''in '' @ plural (ms div DAY) ''day'')"

section \<open>The recipient of a link\<close>

record link_recipient =
  lr_name :: string
  lr_short :: string
  lr_verified :: bool

definition UNKNOWN_RECIPIENT_NAME :: string where "UNKNOWN_RECIPIENT_NAME = ''Unknown recipient''"

definition resolveRecipient :: "string \<Rightarrow> contact list \<Rightarrow> link_recipient" where
  "resolveRecipient fp contacts =
     (let short = projr (truncateFingerprint fp 2) in
      case List.find (\<lambda>c. c_fingerprint c = fp) contacts of
        Some c \<Rightarrow> \<lparr>lr_name = c_label c, lr_short = short, lr_verified = c_verified c\<rparr>
      | None \<Rightarrow>
          (case List.find (\<lambda>c. fp \<in> set (c_previous c)) contacts of
             Some c \<Rightarrow> \<lparr>lr_name = c_label c, lr_short = short, lr_verified = False\<rparr>
           | None \<Rightarrow> \<lparr>lr_name = UNKNOWN_RECIPIENT_NAME, lr_short = short, lr_verified = False\<rparr>))"

record link_view =
  lv_id :: string
  lv_to :: string
  lv_recipient :: link_recipient
  lv_createdAt :: string
  lv_time :: string
  lv_status :: link_status
  lv_opensUsed :: js_num
  lv_opensMax :: "js_num option"
  lv_url :: string
  lv_expiresLabel :: string

definition toDisplayLink :: "string \<Rightarrow> (string \<Rightarrow> int option) \<Rightarrow> (string \<Rightarrow> string) \<Rightarrow> reconciled \<Rightarrow> int \<Rightarrow> contact list \<Rightarrow> link_view" where
  "toDisplayLink origin parse createdLabel l now contacts =
     \<lparr>lv_id = sl_id (rl_record l),
      lv_to = (case sl_label (rl_record l) of Some (c # cs) \<Rightarrow> c # cs | _ \<Rightarrow> ''Secure link''),
      lv_recipient = resolveRecipient (sl_fingerprint (rl_record l)) contacts,
      lv_createdAt = createdLabel (sl_createdAt (rl_record l)),
      lv_time = formatTimeLabel parse (sl_createdAt (rl_record l)) now,
      lv_status = deriveLinkStatus parse l now,
      lv_opensUsed = (case rl_opensCount l of None \<Rightarrow> num 0 | Some n \<Rightarrow> n),
      lv_opensMax = (if rl_maxOpens l = num (-1) then None else Some (rl_maxOpens l)),
      lv_url = origin @ ''/l/'' @ sl_id (rl_record l),
      lv_expiresLabel = formatExpiresLabel parse l now\<rparr>"

text \<open>\<open>loadAndReconcile\<close> with its last step, the display; the directory read yields the contacts, or none.\<close>

definition load_display :: "string \<Rightarrow> (string \<Rightarrow> int option) \<Rightarrow> (string \<Rightarrow> string) \<Rightarrow> client_env \<Rightarrow> int \<Rightarrow> contact list option \<Rightarrow> sent_store
    \<Rightarrow> link_view list \<times> bool" where
  "load_display origin parse createdLabel env now contacts st =
     (let (ls, reached) = loadAndReconcile parse env now st in
      (map (\<lambda>l. toDisplayLink origin parse createdLabel l now (case contacts of None \<Rightarrow> [] | Some cs \<Rightarrow> cs)) ls, reached))"

record recent_link =
  rv_id :: string
  rv_title :: string
  rv_sub :: string
  rv_status :: link_status

definition toRecentLinks :: "link_view list \<Rightarrow> int \<Rightarrow> recent_link list" where
  "toRecentLinks ls limit =
     map (\<lambda>l. \<lparr>rv_id = lv_id l, rv_title = lv_to l, rv_sub = lv_time l, rv_status = lv_status l\<rparr>) (take (nat (max 0 limit)) ls)"

definition recentLinkChip :: "link_status \<Rightarrow> status_descriptor \<times> bool" where
  "recentLinkChip st = (statusDescriptor st, st = LAvailable)"

section \<open>The hook\<close>

record sent_hook =
  sh_links :: "link_view list"
  sh_loading :: bool
  sh_error :: bool
  sh_offline :: bool

definition hook_mount :: sent_hook where
  "hook_mount = \<lparr>sh_links = [], sh_loading = True, sh_error = False, sh_offline = False\<rparr>"

text \<open>The flags (error, offline) of a settled load: whether the server was reached, None if the store failed.\<close>

definition sentLinksLoadFlags :: "bool option \<Rightarrow> bool \<times> bool" where
  "sentLinksLoadFlags outcome = (case outcome of Some reached \<Rightarrow> (False, \<not> reached) | None \<Rightarrow> (True, False))"

definition refresh_begins :: "sent_hook \<Rightarrow> sent_hook" where
  "refresh_begins h = h\<lparr>sh_loading := True, sh_error := False\<rparr>"

definition refresh_ends :: "(link_view list \<times> bool) option \<Rightarrow> sent_hook \<Rightarrow> sent_hook" where
  "refresh_ends res h =
     (let flags = sentLinksLoadFlags (map_option snd res);
          h1 = (case res of Some (ls, reached) \<Rightarrow> h\<lparr>sh_links := ls\<rparr> | None \<Rightarrow> h)
      in h1\<lparr>sh_error := fst flags, sh_offline := snd flags, sh_loading := False\<rparr>)"

section \<open>The screen\<close>

record links_flow =
  lf_hook :: sent_hook
  lf_route :: "string option"
  lf_revokeVisible :: bool
  lf_revoking :: bool
  lf_revokeError :: bool
  lf_deleteVisible :: bool

definition links_mount :: links_flow where
  "links_mount = \<lparr>lf_hook = hook_mount, lf_route = None, lf_revokeVisible = False, lf_revoking = False, lf_revokeError = False,
     lf_deleteVisible = False\<rparr>"

definition selected :: "links_flow \<Rightarrow> link_view option" where
  "selected f = (case lf_route f of None \<Rightarrow> None | Some i \<Rightarrow> List.find (\<lambda>l. lv_id l = i) (sh_links (lf_hook f)))"

datatype links_screen = Links_Spinner | Links_Error | Links_Empty | Links_Details link_view | Links_List

definition links_rendered :: "links_flow \<Rightarrow> links_screen" where
  "links_rendered f =
     (let h = lf_hook f; none = (length (sh_links h) = 0) in
      if sh_loading h \<and> none then Links_Spinner
      else if sh_error h \<and> none then Links_Error
      else if none then Links_Empty
      else case selected f of Some l \<Rightarrow> Links_Details l | None \<Rightarrow> Links_List)"

datatype links_tap = Open_Link string | Links_Back | Open_Revoke | Cancel_Revoke | Confirm_Revoke | Open_Delete | Cancel_Delete
  | Confirm_Delete | Pull_Refresh

datatype links_request = Refresh_Request | Revoke_Request string | Delete_Request string

definition openLink :: "string \<Rightarrow> links_flow \<Rightarrow> links_flow" where
  "openLink i f = f\<lparr>lf_route := Some i\<rparr>"

definition backToList :: "links_flow \<Rightarrow> links_flow" where
  "backToList f = f\<lparr>lf_revokeVisible := False, lf_revokeError := False, lf_deleteVisible := False, lf_route := None\<rparr>"

definition openRevoke :: "links_flow \<Rightarrow> links_flow" where
  "openRevoke f = f\<lparr>lf_revokeError := False, lf_revokeVisible := True\<rparr>"

definition cancelRevoke :: "links_flow \<Rightarrow> links_flow" where
  "cancelRevoke f = (if lf_revoking f then f else f\<lparr>lf_revokeVisible := False, lf_revokeError := False\<rparr>)"

definition confirmRevoke :: "links_flow \<Rightarrow> links_flow \<times> links_request option" where
  "confirmRevoke f =
     (case selected f of
        None \<Rightarrow> (f, None)
      | Some l \<Rightarrow> if lf_revoking f then (f, None) else (f\<lparr>lf_revoking := True, lf_revokeError := False\<rparr>, Some (Revoke_Request (lv_id l))))"

definition revoke_ended :: "revoke_result \<Rightarrow> links_flow \<Rightarrow> links_flow" where
  "revoke_ended r f =
     (case r of
        RevokedResult \<Rightarrow> f\<lparr>lf_revokeVisible := False, lf_route := None, lf_revoking := False\<rparr>
      | ErrorResult \<Rightarrow> f\<lparr>lf_revokeError := True, lf_revoking := False\<rparr>)"

definition confirmDelete :: "links_flow \<Rightarrow> links_flow \<times> links_request option" where
  "confirmDelete f =
     (case selected f of
        Some l \<Rightarrow> if lv_id l = [] then (f\<lparr>lf_deleteVisible := False, lf_route := None\<rparr>, None)
                  else (f\<lparr>lf_deleteVisible := False\<rparr>, Some (Delete_Request (lv_id l)))
      | None \<Rightarrow> (f\<lparr>lf_deleteVisible := False, lf_route := None\<rparr>, None))"

text \<open>A tap on what is rendered.\<close>

definition links_tapped :: "links_tap \<Rightarrow> links_flow \<Rightarrow> links_flow \<times> links_request option" where
  "links_tapped tap f =
     (case links_rendered f of
        Links_Spinner \<Rightarrow> (f, None)
      | Links_Error \<Rightarrow> (f, if tap = Pull_Refresh then Some Refresh_Request else None)
      | Links_Empty \<Rightarrow> (f, None)
      | Links_List \<Rightarrow>
          (case tap of
             Open_Link i \<Rightarrow> (if i \<in> lv_id ` set (sh_links (lf_hook f)) then openLink i f else f, None)
           | Pull_Refresh \<Rightarrow> (f, Some Refresh_Request)
           | _ \<Rightarrow> (f, None))
      | Links_Details l \<Rightarrow>
          if lf_revokeVisible f
          then (case tap of Cancel_Revoke \<Rightarrow> (cancelRevoke f, None) | Confirm_Revoke \<Rightarrow> confirmRevoke f | _ \<Rightarrow> (f, None))
          else if lf_deleteVisible f
          then (case tap of Cancel_Delete \<Rightarrow> (f\<lparr>lf_deleteVisible := False\<rparr>, None) | Confirm_Delete \<Rightarrow> confirmDelete f | _ \<Rightarrow> (f, None))
          else (case tap of
                  Links_Back \<Rightarrow> (backToList f, None)
                | Open_Revoke \<Rightarrow> (openRevoke f, None)
                | Open_Delete \<Rightarrow> (f\<lparr>lf_deleteVisible := True\<rparr>, None)
                | _ \<Rightarrow> (f, None)))"

text \<open>
  Runs: taps and endings of what they started, in any order. Listed are the revocations under way that this mount of
  the tab asked for, those left behind by earlier mounts (a lock, a deep link or a change of the tab drops the screen, and
  what such a call sets when it ends is lost), and, for every one ever asked for, its link and the screen it was asked
  on. A load may end with any list.
\<close>

inductive links_run :: "links_flow \<Rightarrow> string list \<Rightarrow> string list \<Rightarrow> (string \<times> links_screen) list \<Rightarrow> bool" where
  links_start: "links_run links_mount [] [] []"
| links_tap: "links_run f rs os hist \<Longrightarrow> links_tapped tap f = (f', req) \<Longrightarrow>
     links_run f' (rs @ (case req of Some (Revoke_Request i) \<Rightarrow> [i] | _ \<Rightarrow> [])) os
       (hist @ (case req of Some (Revoke_Request i) \<Rightarrow> [(i, links_rendered f)] | _ \<Rightarrow> []))"
| links_revoked: "links_run f (rs @ i # ss) os hist \<Longrightarrow> links_run (revoke_ended r f) (rs @ ss) os hist"
| links_deleted: "links_run f rs os hist \<Longrightarrow> links_run (f\<lparr>lf_route := None\<rparr>) rs os hist"
| links_refresh: "links_run f rs os hist \<Longrightarrow> links_run (f\<lparr>lf_hook := refresh_begins (lf_hook f)\<rparr>) rs os hist"
| links_loaded: "links_run f rs os hist \<Longrightarrow> links_run (f\<lparr>lf_hook := refresh_ends res (lf_hook f)\<rparr>) rs os hist"
| links_remount: "links_run f rs os hist \<Longrightarrow> links_run links_mount [] (os @ rs) hist"
| links_orphan_ends: "links_run f rs (os @ i # os') hist \<Longrightarrow> links_run f rs (os @ os') hist"

section \<open>The activity list\<close>

datatype activity_kind = Activity_Opened | Activity_Expiring | Activity_Key_Changed | Activity_Revoked

record activity_event =
  ae_id :: string
  ae_kind :: activity_kind
  ae_title :: string
  ae_context :: string
  ae_timestamp :: int
  ae_unread :: bool

fun activityVisual :: "activity_kind \<Rightarrow> string \<times> tone" where
  "activityVisual Activity_Opened = (''visibility'', Violet)"
| "activityVisual Activity_Expiring = (''schedule'', Amber)"
| "activityVisual Activity_Key_Changed = (''key'', Amber)"
| "activityVisual Activity_Revoked = (''block'', Violet)"

datatype activity_bucket = Today | Yesterday | Earlier

text \<open>\<open>startOfDay\<close> is the local calendar's.\<close>

definition bucketFor :: "(int \<Rightarrow> int) \<Rightarrow> int \<Rightarrow> int \<Rightarrow> activity_bucket" where
  "bucketFor startOfDay timestamp now =
     (let startOfToday = startOfDay now in
      if timestamp \<ge> startOfToday then Today
      else if timestamp \<ge> startOfToday - DAY then Yesterday
      else Earlier)"

definition groupActivity :: "(int \<Rightarrow> int) \<Rightarrow> activity_event list \<Rightarrow> int \<Rightarrow> (activity_bucket \<times> activity_event list) list" where
  "groupActivity startOfDay events now =
     filter (\<lambda>(b, es). length es > 0)
       (map (\<lambda>b. (b, sort_by (\<lambda>x y. ae_timestamp y - ae_timestamp x) (filter (\<lambda>e. bucketFor startOfDay (ae_timestamp e) now = b) events)))
         [Today, Yesterday, Earlier])"

definition unreadCount :: "activity_event list \<Rightarrow> nat" where
  "unreadCount events = fold (\<lambda>e n. if ae_unread e then n + 1 else n) events 0"

end
