(* ===== verification/Links_Screens_Laws.thy ===== *)
theory Links_Screens_Laws
  imports Links_Screens Compose_Options
begin

text \<open>
  What the links tab shows and asks for: the status of a link follows from the server's answer and the clock,
  amber means the last fifth of a link's life, a revocation is asked for only on the details of its link, and
  loads that end out of order bring removed links back.
\<close>

section \<open>The status shown\<close>

text \<open>
  The status shown is justified. A link reads "Expired" exactly when its own expiry has passed, "Revoked"
  exactly when it has not and the server answered that the link is gone, and "Status unknown" exactly when it
  has not and the server gave no answer about it; the two segments of the list split all links between them,
  and a deletion warns that a link keeps working exactly for those in the active segment, which are the ones
  not dimmed.
\<close>

theorem status_justified:
  "let st = deriveLinkStatus parse (reconcile_one parse resp now r) now;
       answer = (case resp of None \<Rightarrow> None | Some rs \<Rightarrow> map_get (byId rs) (sl_id r)) in
   (st = LExpired \<longleftrightarrow> locally_expired parse now r)
   \<and> (st = LRevoked \<longleftrightarrow> \<not> locally_expired parse now r \<and> (\<exists>i. answer = Some (ListGone i)))
   \<and> (st = LUnknown \<longleftrightarrow> \<not> locally_expired parse now r \<and> answer = None)
   \<and> (st \<in> {LAvailable, LOpened, LExpiring} \<longleftrightarrow> \<not> locally_expired parse now r \<and> (\<exists>i e mo oc. answer = Some (ListActive i e mo oc)))
   \<and> (matchesFilter st Active_Links \<longleftrightarrow> \<not> matchesFilter st Expired_Links)
   \<and> (isLinkStillLive st \<longleftrightarrow> matchesFilter st Active_Links) \<and> (isDimmedStatus st \<longleftrightarrow> matchesFilter st Expired_Links)"
proof -
  let ?q = "reconcile_one parse resp now r"
  have filters: "(matchesFilter st Active_Links \<longleftrightarrow> \<not> matchesFilter st Expired_Links)
      \<and> (isLinkStillLive st \<longleftrightarrow> matchesFilter st Active_Links) \<and> (isDimmedStatus st \<longleftrightarrow> matchesFilter st Expired_Links)" for st
    by (cases st) (simp_all add: matchesFilter_def isLinkStillLive_def isDimmedStatus_def)
  show ?thesis
  proof (cases "locally_expired parse now r")
    case True
    then have "?q = as_local r SGoneStatus" by (auto simp: reconcile_one_def split: option.splits)
    moreover from True have "deriveLinkStatus parse (as_local r SGoneStatus) now = LExpired"
      by (simp add: deriveLinkStatus_def as_local_def locally_expired_def Let_def)
    ultimately show ?thesis using True filters by (simp add: Let_def)
  next
    case False
    then have gone: "deriveLinkStatus parse (as_local r SGoneStatus) now = LRevoked"
      and unknown: "deriveLinkStatus parse (as_local r SUnknown) now = LUnknown"
      by (simp_all add: deriveLinkStatus_def as_local_def locally_expired_def Let_def)
    let ?a = "case resp of None \<Rightarrow> None | Some rs \<Rightarrow> map_get (byId rs) (sl_id r)"
    consider "?a = None" | i where "?a = Some (ListGone i)" | i e mo oc where "?a = Some (ListActive i e mo oc)"
      by (metis not_None_eq list_result.exhaust)
    then show ?thesis
    proof cases
      case 1
      then have "?q = as_local r SUnknown" using False by (auto simp: reconcile_one_def split: option.splits)
      then show ?thesis using False 1 unknown filters by (simp add: Let_def)
    next
      case (2 i)
      then have "?q = as_local r SGoneStatus" using False by (auto simp: reconcile_one_def split: option.splits)
      then show ?thesis using False 2 gone filters by (simp add: Let_def)
    next
      case (3 i e mo oc)
      then have "rl_status ?q = SActive" using False by (auto simp: reconcile_one_def split: option.splits)
      then have "deriveLinkStatus parse ?q now \<in> {LAvailable, LOpened, LExpiring}" by (auto simp: deriveLinkStatus_def Let_def)
      then show ?thesis using False 3 filters by (auto simp: Let_def)
    qed
  qed
qed

section \<open>Amber\<close>

text \<open>
  Amber means the end is near. For every expiry the mobile client offers, a link is shown as expiring exactly in
  the last fifth of its life, but never more than a day ahead; so no link is born amber, and once amber it stays
  so until it has expired.
\<close>

theorem amber_at_the_end:
  assumes "(\<exists>choice. e = expiryToDate choice c) \<or> validateCustomExpiry (Some e) c = ExpiryOk" "t \<le> t'" "t' < e"
  shows "(isExpiringSoon (Some c) (Some e) t \<longleftrightarrow> 5 * (e - t) \<le> e - c \<and> e - t \<le> DAY)
    \<and> \<not> isExpiringSoon (Some c) (Some e) c \<and> \<not> (isExpiringSoon (Some c) (Some e) t \<and> \<not> isExpiringSoon (Some c) (Some e) t')"
proof -
  have life: "300000 \<le> e - c"
    using assms(1)
  proof
    assume "\<exists>choice. e = expiryToDate choice c"
    then obtain choice where "e = expiryToDate choice c" ..
    then show ?thesis using expiry_bounds [of c choice] by (simp add: option_consts)
  qed (simp add: custom_bounds option_consts)
  define w :: rat where "w = expiringWindowMs (Some (of_int (e - c)))"
  have w: "w = min (of_int (e - c) / 5) 86400000"
  proof -
    have "(60000 :: rat) \<le> of_int (e - c) / 5" using life by simp
    then show ?thesis
      by (auto simp: w_def expiringWindowMs_def EXPIRING_FRACTION_def EXPIRING_MIN_WINDOW_MS_def EXPIRING_MAX_WINDOW_MS_def Let_def min_def)
  qed
  have soon: "isExpiringSoon (Some c) (Some e) s \<longleftrightarrow> s < e \<and> 5 * (e - s) \<le> e - c \<and> e - s \<le> DAY" for s
  proof -
    have "of_int (e - s) \<le> w \<longleftrightarrow> 5 * (e - s) \<le> e - c \<and> e - s \<le> DAY"
    proof -
      have "of_int (e - s) \<le> of_int (e - c) / (5 :: rat) \<longleftrightarrow> of_int (5 * (e - s)) \<le> (of_int (e - c) :: rat)" by (simp add: pos_le_divide_eq mult.commute)
      also have "\<dots> \<longleftrightarrow> 5 * (e - s) \<le> e - c" by (rule of_int_le_iff)
      finally have "of_int (e - s) \<le> of_int (e - c) / (5 :: rat) \<longleftrightarrow> 5 * (e - s) \<le> e - c" .
      moreover have "of_int (e - s) \<le> (86400000 :: rat) \<longleftrightarrow> e - s \<le> 86400000" by (metis of_int_le_iff of_int_numeral)
      ultimately show ?thesis by (simp add: w time_consts)
    qed
    then show ?thesis by (auto simp: isExpiringSoon_def w_def Let_def)
  qed
  show ?thesis using assms(2,3) life by (auto simp: soon)
qed

theorem amber_at_the_end_witness:
  "isExpiringSoon (Some 0) (Some 600000) 500000 \<and> \<not> isExpiringSoon (Some 0) (Some 600000) 400000"
proof -
  have choice: "\<exists>choice. 600000 = expiryToDate choice 0" by (intro exI [of _ Exp10m]) simp
  show ?thesis
    using amber_at_the_end [of 600000 0 500000 500001] amber_at_the_end [of 600000 0 400000 500000] choice
    by (auto simp: time_consts)
qed

section \<open>Revoking\<close>

lemma rendered_selected: "links_rendered f = Links_Details l \<Longrightarrow> selected f = Some l"
  by (auto simp: links_rendered_def Let_def split: if_splits option.splits)

lemma tapped_revokes:
  assumes "links_tapped tap f = (f', req)"
  shows "(\<exists>l. req = Some (Revoke_Request (lv_id l)) \<and> links_rendered f = Links_Details l \<and> lf_revokeVisible f
            \<and> tap = Confirm_Revoke \<and> \<not> lf_revoking f \<and> lf_revoking f')
      \<or> (\<forall>i. req \<noteq> Some (Revoke_Request i)) \<and> lf_revoking f' = lf_revoking f"
proof (cases "links_rendered f")
  case (Links_Details l)
  then show ?thesis using assms rendered_selected [OF Links_Details]
    by (auto simp: links_tapped_def confirmRevoke_def confirmDelete_def cancelRevoke_def openRevoke_def backToList_def
        split: links_tap.splits if_splits)
qed (use assms in \<open>auto simp: links_tapped_def openLink_def split: links_tap.splits if_splits\<close>)

text \<open>
  C40: revoking is deliberate. Whatever is tapped on the links tab, however often the tab is left and mounted again, and
  in whatever order its calls end, a mount has at most one revocation under way, its screen knows of it, and every
  revocation ever asked for was asked for on the details of that very link.
\<close>

theorem revocation_deliberate:
  assumes "links_run f rs os hist"
  shows "length rs \<le> 1 \<and> (lf_revoking f \<longleftrightarrow> rs \<noteq> []) \<and> list_all (\<lambda>(i, sc). \<exists>l. sc = Links_Details l \<and> lv_id l = i) hist"
  using assms
proof (induction rule: links_run.induct)
  case (links_tap f rs os hist tap f' req)
  from tapped_revokes [OF links_tap.hyps(2)] links_tap.IH show ?case
    by (auto split: option.splits links_request.splits)
next
  case (links_revoked f rs i ss os hist r)
  then show ?case by (auto simp: revoke_ended_def split: revoke_result.splits)
qed (simp_all add: links_mount_def)

text \<open>One link listed, its details, its revocation.\<close>

definition one_link :: link_view where
  "one_link = \<lparr>lv_id = ''a'', lv_to = [], lv_recipient = resolveRecipient [] [], lv_createdAt = [], lv_time = [],
     lv_status = LAvailable, lv_opensUsed = num 0, lv_opensMax = None, lv_url = [], lv_expiresLabel = []\<rparr>"

definition one_revoking :: links_flow where
  "one_revoking = (openRevoke (openLink ''a'' (links_mount\<lparr>lf_hook := refresh_ends (Some ([one_link], True)) (lf_hook links_mount)\<rparr>)))
     \<lparr>lf_revoking := True, lf_revokeError := False\<rparr>"

lemma one_link_revoked:
  assumes "links_run links_mount [] os hist"
  shows "links_run one_revoking [''a''] os (hist @ [(''a'', Links_Details one_link)])"
proof -
  let ?f1 = "links_mount\<lparr>lf_hook := refresh_ends (Some ([one_link], True)) (lf_hook links_mount)\<rparr>"
  let ?f2 = "openLink ''a'' ?f1" and ?f3 = "openRevoke (openLink ''a'' ?f1)"
  have one: "lv_id one_link = ''a''" by (simp add: one_link_def)
  then have hook: "sh_links (lf_hook ?f1) = [one_link]" "\<not> sh_loading (lf_hook ?f1)"
    by (simp_all add: refresh_ends_def Let_def)
  have "links_run ?f1 [] os hist" by (rule links_loaded [OF assms])
  moreover have "links_tapped (Open_Link ''a'') ?f1 = (?f2, None)"
    using hook one by (simp add: links_tapped_def links_rendered_def selected_def links_mount_def refresh_ends_def sentLinksLoadFlags_def Let_def)
  ultimately have "links_run ?f2 [] os hist" using links_tap by fastforce
  moreover have "links_tapped Open_Revoke ?f2 = (?f3, None)" using one
    by (simp add: links_tapped_def links_rendered_def selected_def openLink_def links_mount_def hook_mount_def refresh_ends_def sentLinksLoadFlags_def Let_def)
  ultimately have "links_run ?f3 [] os hist" using links_tap by fastforce
  moreover have details: "links_rendered ?f3 = Links_Details one_link" using one
    by (simp add: links_rendered_def selected_def openRevoke_def openLink_def links_mount_def hook_mount_def refresh_ends_def sentLinksLoadFlags_def Let_def)
  moreover have "links_tapped Confirm_Revoke ?f3 = (one_revoking, Some (Revoke_Request ''a''))"
    using details rendered_selected [OF details] one
    by (simp add: links_tapped_def confirmRevoke_def one_revoking_def) (simp add: openRevoke_def openLink_def links_mount_def)
  ultimately show ?thesis using links_tap [of ?f3 "[]" os hist Confirm_Revoke] by fastforce
qed

text \<open>
  The same link is revoked twice when the tab is mounted again while the first request is under way: the flag that
  disables the button went with the mount.
\<close>

lemma remount_revokes_again: "\<exists>hist. links_run one_revoking [''a''] [''a''] hist"
  using one_link_revoked [OF links_remount [OF one_link_revoked [OF links_start]]] by (auto intro: exI)

theorem revocation_deliberate_witness: "lf_revoking one_revoking"
proof -
  from remount_revokes_again obtain hist where "links_run one_revoking [''a''] [''a''] hist" ..
  from revocation_deliberate [OF this] show ?thesis by simp
qed

section \<open>Loads that overtake each other\<close>

lemma removed_not_listed:
  assumes "list_all (\<lambda>(k, r). sl_id r = k) (readMap st)" "r \<in> set (listSentLinks (deleteSentLink i st))"
  shows "sl_id r \<noteq> i"
proof -
  have "sl_id r = k \<and> k \<noteq> i" if "(k, r) \<in> set (readMap (deleteSentLink i st))" for k
  proof (cases "map_get (readMap st) i")
    case None
    then have "i \<notin> fst ` set (readMap st)" by (simp add: map_of_eq_None_iff)
    with None that assms(1) show ?thesis by (force simp: deleteSentLink_def list_all_iff)
  next
    case (Some r0)
    with that assms(1) show ?thesis by (force simp: deleteSentLink_def list_all_iff AList.delete_eq)
  qed
  moreover obtain k where "(k, r) \<in> set (readMap (deleteSentLink i st))" using assms(2) by (auto simp: listSentLinks_def)
  ultimately show ?thesis by blast
qed

text \<open>
  Loads are not ordered. If a load began before a link was removed and ends after the load that followed the
  removal, its result stands: the removed link is listed again, as it was, until the next load.
\<close>

theorem stale_load_wins:
  assumes "i \<in> lv_id ` set (fst (load_display origin parse lbl env now cs st))" "list_all (\<lambda>(k, r). sl_id r = k) (readMap st)"
  shows "let before = load_display origin parse lbl env now cs st;
             after = load_display origin parse lbl env' now' cs (deleteSentLink i st);
             h' = refresh_ends (Some before) (refresh_ends (Some after) h)
    in i \<notin> lv_id ` set (fst after) \<and> i \<in> lv_id ` set (sh_links h') \<and> \<not> sh_loading h' \<and> \<not> sh_error h'"
proof -
  have gone: "sl_id (rl_record l) \<noteq> i" if "l \<in> set (fst (loadAndReconcile parse env' now' (deleteSentLink i st)))" for l
  proof -
    from that obtain r where "r \<in> set (listSentLinks (deleteSentLink i st))" "sl_id (rl_record l) = sl_id r"
      by (auto simp: loadAndReconcile_def Let_def reconcileSentLinks_def reconcile_one_def as_local_def
          split: if_splits sum.splits option.splits list_result.splits)
    moreover from this(1) have "sl_id r \<noteq> i" by (rule removed_not_listed [OF assms(2)])
    ultimately show ?thesis by simp
  qed
  have "i \<notin> lv_id ` set (fst (load_display origin parse lbl env' now' cs (deleteSentLink i st)))"
    using gone by (fastforce simp: load_display_def toDisplayLink_def Let_def split: prod.splits)
  then show ?thesis using assms(1)
    by (auto simp: refresh_ends_def sentLinksLoadFlags_def Let_def split: prod.splits)
qed

theorem stale_load_wins_witness:
  "let st = recordSentLink \<lparr>sl_id = ''a'', sl_fingerprint = [], sl_createdAt = [], sl_expiresAt = [], sl_maxOpens = num 1, sl_label = None,
         sl_revocationToken = None, sl_reminder = None\<rparr> None;
       env = \<lparr>BASE_URL = [], LINK_ORIGIN = [], production = False, net = (\<lambda>r. Rejected), stringify = (\<lambda>j. [])\<rparr>;
       load = load_display [] (\<lambda>t. None) (\<lambda>t. t) env 5 None
   in ''a'' \<in> lv_id ` set (sh_links (refresh_ends (Some (load st)) (refresh_ends (Some (load (deleteSentLink ''a'' st))) hook_mount)))"
proof -
  let ?r = "\<lparr>sl_id = ''a'', sl_fingerprint = [], sl_createdAt = [], sl_expiresAt = [], sl_maxOpens = num 1, sl_label = None,
     sl_revocationToken = None, sl_reminder = None\<rparr>"
  let ?env = "\<lparr>BASE_URL = [], LINK_ORIGIN = [], production = False, net = (\<lambda>r. Rejected), stringify = (\<lambda>j. [])\<rparr>"
  have "listSentLinks (recordSentLink ?r None) = [?r]" by (simp add: listSentLinks_def recordSentLink_def sort_by_def)
  then have "''a'' \<in> lv_id ` set (fst (load_display [] (\<lambda>t. None) (\<lambda>t. t) ?env 5 None (recordSentLink ?r None)))"
    by (simp add: load_display_def loadAndReconcile_def toDisplayLink_def reconcileSentLinks_def reconcile_one_def as_local_def Let_def
        split: prod.splits sum.splits option.splits list_result.splits)
  moreover have "list_all (\<lambda>(k, r). sl_id r = k) (readMap (recordSentLink ?r None))" by (simp add: recordSentLink_def)
  ultimately show ?thesis
    using stale_load_wins [of "''a''" "[]" "\<lambda>t. None" "\<lambda>t. t" ?env 5 None "recordSentLink ?r None" ?env 5 hook_mount]
    by (simp add: Let_def)
qed

end
