(* ===== verification/Reader_Flow_Laws.thy ===== *)
theory Reader_Flow_Laws
  imports Reader_Flow End_To_End "HOL-Library.Sublist"
begin

text \<open>
  What the reader's flow guarantees: with the guard on, plaintext is shown only after the prompt was passed for that
  very message; opens are spent only on taps; an interruption costs no second open. And where it errs: a landing may
  show another link's data, and the network screen may follow an open that was spent.
\<close>

section \<open>Shapes of a step\<close>

lemma set_reader_sel [simp]:
  "sy_co (set_reader cl st s) = sy_co s" "sy_outcomes (set_reader cl st s) = sy_outcomes s" "sy_mounts (set_reader cl st s) = sy_mounts s"
  "sy_tasks (set_reader cl st s) = sy_tasks s" "sy_authed (set_reader cl st s) = sy_authed s"
  by (simp_all add: set_reader_def)

lemma cancelled_set_reader [simp]: "cancelled cl' (set_reader cl st s) = cancelled cl' s"
  by (auto simp: cancelled_def set_reader_def split: option.splits)

lemma spawn_sel [simp]:
  "sy_co (spawn cl t s) = sy_co s" "sy_flow (spawn cl t s) = sy_flow s" "sy_tasks (spawn cl t s) = sy_tasks s @ [(cl, t)]"
  "sy_authed (spawn cl t s) = sy_authed s" "sy_mounts (spawn cl t s) = sy_mounts s"
  "sy_outcomes (spawn cl t s) = sy_outcomes s"
  by (simp_all add: spawn_def)

lemma proceed_sel [simp]:
  "sy_co (proceedAfterOpen cl r v s) = sy_co s"
  "sy_authed (proceedAfterOpen cl r v s) = sy_authed s" "sy_mounts (proceedAfterOpen cl r v s) = sy_mounts s"
  by (simp_all add: proceedAfterOpen_def decryptHeld_def)

lemma load_sel [simp]:
  "sy_co (loadMetadata cl s) = sy_co s" "sy_authed (loadMetadata cl s) = sy_authed s"
  "sy_mounts (loadMetadata cl s) = sy_mounts s"
  by (simp_all add: loadMetadata_def)

lemma metadata_sel [simp]:
  "sy_co (metadata_loaded S cl r s) = sy_co s"
  by (simp_all add: metadata_loaded_def split: sum.splits prod.splits)

lemma decrypt_sel [simp]:
  "sy_co (decryptHeld cl r s) = sy_co s"
  by (simp_all add: decryptHeld_def)

lemma resume_sel [simp]:
  "sy_co (resume_effect s) = sy_co s" "sy_authed (resume_effect s) = sy_authed s"
  "sy_mounts (resume_effect s) = sy_mounts s"
  by (simp_all add: resume_effect_def Let_def split: option.splits phase.splits)

lemma task_sel [simp]:
  "sy_co (task_goes_on S parse cl t r s) = sy_co s"
  by (simp_all add: task_goes_on_def split: task.splits reply_to.splits option.splits sum.splits)

section \<open>Opens are spent on taps\<close>

text \<open>The taps of a run on "Open message" and "Retry", where those buttons are shown, with the link of the reader.\<close>

definition tapped_link :: "('pub, 'priv) flow_event \<Rightarrow> ('pub, 'priv) reader_system \<Rightarrow> string list" where
  "tapped_link e s =
     (case sy_flow s of
        None \<Rightarrow> []
      | Some f \<Rightarrow>
          (case (e, rf_state f) of
             (Tap_Open, Landing m fp) \<Rightarrow> [cl_id (rf_closure f)]
           | (Tap_Retry, SNetwork m fp) \<Rightarrow> [cl_id (rf_closure f)]
           | _ \<Rightarrow> []))"

primrec taps :: "('pub, 'priv) hpke_suite \<Rightarrow> (string \<Rightarrow> int option) \<Rightarrow> ('pub, 'priv) flow_event list \<Rightarrow> ('pub, 'priv) reader_system \<Rightarrow> string list" where
  "taps S parse [] s = []"
| "taps S parse (e # es) s = tapped_link e s @ taps S parse es (flow_step S parse e s)"

lemma begin_posts: "co_posts (snd (co_begin i c)) = co_posts c \<or> co_posts (snd (co_begin i c)) = co_posts c @ [i]"
  by (simp add: co_begin_def Let_def split: option.splits phase.splits)

lemma try_co [simp]: "sy_co (tryOpen cl m fp s) = snd (co_begin (cl_id cl) (sy_co s))"
  by (simp add: tryOpen_def Let_def split: begin_result.splits prod.splits)

lemma posts_kept: "co_posts (co_settle n r c) = co_posts c" "co_posts (co_clear i c) = co_posts c"
  by (simp_all add: co_settle_def co_clear_def split: option.splits)

lemma step_posts:
  "co_posts (sy_co (flow_step S parse e s)) = co_posts (sy_co s)
   \<or> (\<exists>i. tapped_link e s = [i] \<and> co_posts (sy_co (flow_step S parse e s)) = co_posts (sy_co s) @ [i])"
proof (cases e)
  case Tap_Open
  then show ?thesis using begin_posts [of _ "sy_co s"] by (auto simp: tapped_link_def split: option.splits reader_state.splits)
next
  case Tap_Retry
  then show ?thesis using begin_posts [of _ "sy_co s"]
    by (auto simp: tapped_link_def retryFromNetwork_def split: option.splits reader_state.splits list.splits)
qed (auto simp: mount_reader_def posts_kept finish_def split: option.splits reader_state.splits bool.splits)

lemma run_posts:
  "\<exists>ps. co_posts (sy_co (fold (flow_step S parse) es s)) = co_posts (sy_co s) @ ps \<and> subseq ps (taps S parse es s)"
proof (induction es arbitrary: s)
  case (Cons e es)
  obtain ps where ps: "co_posts (sy_co (fold (flow_step S parse) es (flow_step S parse e s))) = co_posts (sy_co (flow_step S parse e s)) @ ps"
    "subseq ps (taps S parse es (flow_step S parse e s))" using Cons.IH by blast
  from step_posts [of S parse e s] show ?case
  proof
    assume "co_posts (sy_co (flow_step S parse e s)) = co_posts (sy_co s)"
    then show ?thesis using ps by (auto intro: list_emb_append2)
  next
    assume "\<exists>i. tapped_link e s = [i] \<and> co_posts (sy_co (flow_step S parse e s)) = co_posts (sy_co s) @ [i]"
    then show ?thesis using ps by auto
  qed
qed simp

text \<open>
  C24: an open is spent only on a tap. Over any run of mounts, locks, new links, answers, prompts and taps, the opens
  requested are, in this order, some of the taps on a shown "Open message" or "Retry" button, each for the link of the
  reader that was tapped: neither a mount, nor a resumption, nor an answer, nor the biometric gate requests one.
\<close>

theorem opens_only_on_taps: "subseq (co_posts (sy_co (flow_run S parse es))) (taps S parse es reader_start)"
  using run_posts [of S parse es reader_start] by (auto simp: flow_run_def reader_start_def createOpenCoordinator_def)

section \<open>The guard\<close>

definition guard_on :: "('pub, 'priv) flow_event \<Rightarrow> bool" where
  "guard_on e = (case e of Mount i b k rs \<Rightarrow> b | Setting b \<Rightarrow> b | _ \<Rightarrow> True)"

definition fits :: "('pub, 'priv) closure \<Rightarrow> ('pub, 'priv) reader_system \<Rightarrow> bool" where
  "fits cl s = (cl_require cl \<and> cl_mount cl < sy_mounts s
     \<and> (\<forall>f. sy_flow s = Some f \<longrightarrow> cl_mount (rf_closure f) = cl_mount cl \<longrightarrow> cl_keys (rf_closure f) = cl_keys cl))"

definition prompted :: "('pub, 'priv) hpke_suite \<Rightarrow> (string \<Rightarrow> int option) \<Rightarrow> ('pub, 'priv) reader_system \<Rightarrow> ('pub, 'priv) reader_flow \<Rightarrow> bool" where
  "prompted S parse s f = (\<forall>q. rf_state f = Decrypted q \<longrightarrow>
     (\<exists>r i. (cl_mount (rf_closure f), r) \<in> set (sy_authed s) \<and> decrypt_held S parse (cl_keys (rf_closure f)) r i = Inr q))"

definition guarded :: "('pub, 'priv) hpke_suite \<Rightarrow> (string \<Rightarrow> int option) \<Rightarrow> ('pub, 'priv) reader_system \<Rightarrow> bool" where
  "guarded S parse s =
     ((\<forall>cl t. (cl, t) \<in> set (sy_tasks s) \<longrightarrow> fits cl s \<and> (\<forall>r. t = Decrypt r \<longrightarrow> (cl_mount cl, r) \<in> set (sy_authed s)))
      \<and> (\<forall>f. sy_flow s = Some f \<longrightarrow> fits (rf_closure f) s \<and> prompted S parse s f))"

lemma fits_set_reader [simp]: "fits cl (set_reader cl' st s) = fits cl s"
  by (auto simp: fits_def set_reader_def cancelled_def split: option.splits)

lemma guarded_set_reader:
  assumes "guarded S parse s" "\<forall>q. st \<noteq> Decrypted q"
  shows "guarded S parse (set_reader cl st s)"
proof -
  have "prompted S parse (set_reader cl st s) f" if "sy_flow (set_reader cl st s) = Some f" for f
    using that assms by (auto simp: guarded_def prompted_def set_reader_def cancelled_def split: if_splits option.splits)
  moreover have "fits (rf_closure f) s" if "sy_flow (set_reader cl st s) = Some f" for f
    using that assms(1) by (auto simp: guarded_def set_reader_def fits_def split: if_splits)
  ultimately show ?thesis using assms(1) by (auto simp: guarded_def)
qed

lemma fits_spawn [simp]: "fits cl (spawn cl' t s) = fits cl s"
  by (simp add: fits_def)

lemma guarded_spawn:
  assumes "guarded S parse s" "fits cl s" "\<forall>r. t \<noteq> Decrypt r"
  shows "guarded S parse (spawn cl t s)"
  using assms by (auto simp: guarded_def prompted_def)

lemma guarded_decrypt:
  assumes "guarded S parse s" "fits cl s" "(cl_mount cl, r) \<in> set (sy_authed s)"
  shows "guarded S parse (decryptHeld cl r s)"
proof -
  have "guarded S parse (set_reader cl Opening s)" using assms(1) by (rule guarded_set_reader) simp
  then show ?thesis using assms(2,3) by (auto simp: decryptHeld_def guarded_def prompted_def)
qed

lemma guarded_proceed:
  assumes "guarded S parse s" "fits cl s"
  shows "guarded S parse (proceedAfterOpen cl r v s)"
  using assms guarded_spawn [OF assms] by (auto simp: proceedAfterOpen_def fits_def)

lemma guarded_load:
  assumes "guarded S parse s" "fits cl s"
  shows "guarded S parse (loadMetadata cl s)"
  using assms by (auto simp: loadMetadata_def intro!: guarded_spawn guarded_set_reader)

lemma guarded_resume:
  assumes "guarded S parse s"
  shows "guarded S parse (resume_effect s)"
proof (cases "sy_flow s")
  case (Some f)
  let ?s1 = "s\<lparr>sy_flow := Some (f\<lparr>rf_decided := Some (cl_id (rf_closure f))\<rparr>)\<rparr>"
  have "guarded S parse ?s1" "fits (rf_closure f) ?s1"
    using assms Some by (auto simp: guarded_def fits_def prompted_def)
  then show ?thesis using Some assms
    by (auto simp: resume_effect_def Let_def split: option.splits phase.splits
        intro!: guarded_load guarded_proceed guarded_spawn guarded_set_reader)
qed (simp add: resume_effect_def assms)

lemma guarded_co: "guarded S parse (s\<lparr>sy_co := c\<rparr>) = guarded S parse s" "fits cl (s\<lparr>sy_co := c\<rparr>) = fits cl s"
  by (simp_all add: guarded_def fits_def prompted_def)

lemma guarded_try:
  assumes "guarded S parse s" "fits cl s"
  shows "guarded S parse (tryOpen cl m fp s)"
proof -
  obtain r c where b: "co_begin (cl_id cl) (sy_co s) = (r, c)" by fastforce
  let ?s2 = "set_reader cl Opening s\<lparr>sy_co := c\<rparr>"
  have "guarded S parse ?s2" "fits cl ?s2"
    using guarded_set_reader [OF assms(1), of Opening cl] assms(2) by (simp_all add: guarded_co)
  then show ?thesis using b
    by (auto simp: tryOpen_def Let_def split: begin_result.splits intro!: guarded_proceed guarded_spawn)
qed

lemma guarded_task:
  assumes "guarded S parse s" "fits cl s" "\<forall>r. t = Decrypt r \<longrightarrow> (cl_mount cl, r) \<in> set (sy_authed s)"
  shows "guarded S parse (task_goes_on S parse cl t r s)"
proof -
  have fail: "open_failed v e \<noteq> Decrypted q" for v e q by (simp add: open_failed_def split: via.splits reader_outcome.splits)
  show ?thesis
  proof (cases t)
    case Load_Metadata
    then show ?thesis using assms(1)
      by (auto simp: task_goes_on_def metadata_loaded_def split: reply_to.splits sum.splits prod.splits reader_outcome.splits
          intro!: guarded_set_reader)
  next
    case (Await_Post n v)
    then show ?thesis using assms(1,2)
      by (auto simp: task_goes_on_def fail split: reply_to.splits sum.splits option.splits intro!: guarded_set_reader guarded_proceed)
  next
    case (Probe resp v)
    then show ?thesis using assms(1)
      by (auto simp: task_goes_on_def fail split: reply_to.splits option.splits intro!: guarded_set_reader)
  next
    case (Authenticate resp)
    let ?s1 = "s\<lparr>sy_authed := sy_authed s @ [(cl_mount cl, resp)]\<rparr>"
    have "prompted S parse ?s1 f" if "sy_flow s = Some f" for f
      using assms(1) that unfolding guarded_def prompted_def by fastforce
    then have "guarded S parse ?s1" "fits cl ?s1" using assms(1,2) by (auto simp: guarded_def fits_def)
    then show ?thesis using Authenticate assms(1)
      by (auto simp: task_goes_on_def split: reply_to.splits intro!: guarded_decrypt)
  next
    case (Decrypt resp)
    let ?st = "held_state (decrypt_held S parse (cl_keys cl) resp (cl_id cl))"
    have "guarded S parse (set_reader cl ?st s)"
    proof (cases "decrypt_held S parse (cl_keys cl) resp (cl_id cl)")
      case (Inl e)
      then show ?thesis using assms(1) by (auto simp: held_state_def intro!: guarded_set_reader)
    next
      case (Inr q)
      have "prompted S parse (set_reader cl ?st s) f" if f: "sy_flow (set_reader cl ?st s) = Some f" for f
      proof (cases "cancelled cl s")
        case True
        then show ?thesis using f assms(1) by (simp add: set_reader_def guarded_def)
      next
        case False
        then obtain g where g: "sy_flow s = Some g" "cl_mount (rf_closure g) = cl_mount cl" "f = g\<lparr>rf_state := Decrypted q\<rparr>"
          using f Inr by (auto simp: set_reader_def cancelled_def held_state_def split: option.splits)
        then have "cl_keys (rf_closure g) = cl_keys cl" using assms(2) by (auto simp: fits_def)
        then show ?thesis using g Inr assms(3) Decrypt by (auto simp: prompted_def)
      qed
      moreover have "fits (rf_closure f) s" if "sy_flow (set_reader cl ?st s) = Some f" for f
        using that assms(1) by (auto simp: guarded_def set_reader_def fits_def split: if_splits)
      ultimately show ?thesis using assms(1) by (auto simp: guarded_def)
    qed
    then show ?thesis using Decrypt assms(1) by (auto simp: task_goes_on_def split: reply_to.splits)
  qed
qed

lemma guarded_mount:
  assumes "guarded S parse s" "sy_flow s = None"
  shows "guarded S parse (mount_reader i True k rs s)"
  using assms unfolding mount_reader_def
  by (intro guarded_resume) (fastforce simp: guarded_def fits_def prompted_def)

lemma guarded_id:
  assumes "guarded S parse s"
  shows "guarded S parse (s\<lparr>sy_flow := map_option (\<lambda>f. f\<lparr>rf_closure := (rf_closure f)\<lparr>cl_id := i\<rparr>\<rparr>) (sy_flow s)\<rparr>)"
    "guarded S parse (s\<lparr>sy_flow := map_option (\<lambda>f. f\<lparr>rf_closure := (rf_closure f)\<lparr>cl_require := True\<rparr>\<rparr>) (sy_flow s)\<rparr>)"
  using assms by (auto simp: guarded_def fits_def prompted_def)

lemma guarded_less:
  assumes "guarded S parse s" "set ts \<subseteq> set (sy_tasks s)"
  shows "guarded S parse (s\<lparr>sy_tasks := ts, sy_outcomes := m\<rparr>)" "guarded S parse (s\<lparr>sy_tasks := ts\<rparr>)"
    "guarded S parse (s\<lparr>sy_flow := None, sy_co := c\<rparr>)" "guarded S parse (s\<lparr>sy_flow := None\<rparr>)" "guarded S parse (s\<lparr>sy_outcomes := m, sy_co := c\<rparr>)" "guarded S parse (s\<lparr>sy_co := c, sy_flow := None\<rparr>)"
  using assms by (auto simp: guarded_def fits_def prompted_def)

lemma step_guarded:
  assumes "guarded S parse s" "guard_on e"
  shows "guarded S parse (flow_step S parse e s)"
proof -
  have flow: "fits (rf_closure f) s" if "sy_flow s = Some f" for f using assms(1) that by (auto simp: guarded_def)
  show ?thesis
  proof (cases e)
    case (Mount i b k rs)
    then show ?thesis using assms guarded_mount [OF assms(1)] by (simp add: guard_on_def)
  next
    case Unmount
    then show ?thesis using guarded_less(4) [OF assms(1) subset_refl] by simp
  next
    case (New_Link i)
    then show ?thesis using guarded_resume [OF guarded_id(1) [OF assms(1)]] by simp
  next
    case (Setting b)
    then show ?thesis using assms guarded_id(2) [OF assms(1)] by (simp add: guard_on_def)
  next
    case (Post_Settles n r)
    then show ?thesis using assms(1) guarded_less(5) [OF assms(1) subset_refl] by simp
  next
    case Tap_Open
    then show ?thesis using assms(1) flow by (auto split: option.splits reader_state.splits intro!: guarded_try)
  next
    case Tap_Retry
    then show ?thesis using assms(1) flow
      by (auto simp: retryFromNetwork_def split: option.splits reader_state.splits list.splits intro!: guarded_try guarded_load)
  next
    case Tap_Decrypt
    then show ?thesis using assms(1) flow by (auto split: option.splits reader_state.splits bool.splits intro!: guarded_spawn)
  next
    case Tap_Close
    then show ?thesis using assms(1) guarded_less(6) [OF assms(1) subset_refl]
      by (auto simp: finish_def split: option.splits)
  next
    case (Goes_On n r)
    show ?thesis
    proof (cases "n < length (sy_tasks s)")
      case True
      let ?s1 = "s\<lparr>sy_tasks := take n (sy_tasks s) @ drop (Suc n) (sy_tasks s)\<rparr>"
      obtain cl t where t: "sy_tasks s ! n = (cl, t)" by fastforce
      then have "(cl, t) \<in> set (sy_tasks s)" using True by (metis nth_mem)
      then have own: "fits cl ?s1" "\<forall>r. t = Decrypt r \<longrightarrow> (cl_mount cl, r) \<in> set (sy_authed ?s1)"
        using assms(1) by (auto simp: guarded_def fits_def)
      have "guarded S parse ?s1" using assms(1) by (rule guarded_less) (auto dest: in_set_takeD in_set_dropD)
      from guarded_task [OF this own] show ?thesis using Goes_On True t assms(1) by simp
    qed (use Goes_On assms(1) in simp)
  qed
qed

text \<open>
  C13: the guard on every message. While "Require unlock before decrypting" is on, whatever the user taps, however often the
  app is locked in between and in whatever order answers come, a message is shown only in the mount in which the
  biometric prompt was passed for it: the text shown is what that response decrypts to with the keys of that mount.
\<close>

theorem plaintext_after_prompt:
  assumes "list_all guard_on es" "sy_flow (flow_run S parse es) = Some f" "rf_state f = Decrypted q"
  shows "\<exists>r i. (cl_mount (rf_closure f), r) \<in> set (sy_authed (flow_run S parse es))
    \<and> decrypt_held S parse (cl_keys (rf_closure f)) r i = Inr q"
proof -
  have "guarded S parse (fold (flow_step S parse) es s)" if "guarded S parse s" "list_all guard_on es" for s
    using that by (induction es arbitrary: s) (simp_all add: step_guarded)
  from this [of reader_start, OF _ assms(1)] have "guarded S parse (flow_run S parse es)"
    by (simp add: flow_run_def guarded_def reader_start_def)
  then show ?thesis using assms(2,3) by (auto simp: guarded_def prompted_def)
qed

section \<open>Interruptions\<close>

text \<open>What is left of a reading once the response is there, and the taps and answers that finish it.\<close>

definition gate_events :: "bool \<Rightarrow> nat \<Rightarrow> ('pub, 'priv) flow_event list" where
  "gate_events require n =
     (if require
      then [Goes_On n (Probe_Reply (Some (checkBiometricCapability True True))), Tap_Decrypt, Goes_On n (Prompt_Reply True)]
      else []) @ [Goes_On n Go_On]"

definition response_task :: "bool \<Rightarrow> open_response \<Rightarrow> task" where
  "response_task require r = (if require then Probe r Via_Resume else Decrypt r)"

lemma gate_to_text:
  assumes "sy_flow s = Some f" "rf_closure f = cl" "sy_tasks s = ts @ [(cl, response_task (cl_require cl) r)]"
    "decrypt_held S parse (cl_keys cl) r (cl_id cl) = Inr q"
  shows "let s' = fold (flow_step S parse) (gate_events (cl_require cl) (length ts)) s
    in map_option rf_state (sy_flow s') = Some (Decrypted q) \<and> sy_co s' = sy_co s"
proof (cases "cl_require cl")
  case True
  then show ?thesis using assms
    by (simp add: gate_events_def response_task_def can_go_on_def task_goes_on_def set_reader_def cancelled_def Let_def
        checkBiometricCapability_def decideDecryptGate_def spawn_def decryptHeld_def held_state_def)
next
  case False
  then show ?thesis using assms
    by (simp add: gate_events_def response_task_def can_go_on_def task_goes_on_def set_reader_def cancelled_def Let_def held_state_def)
qed

lemma proceed_task:
  assumes "sy_flow s = Some f" "rf_closure f = cl"
  shows "\<exists>st. proceedAfterOpen cl r Via_Resume s =
    s\<lparr>sy_flow := Some (f\<lparr>rf_state := st\<rparr>), sy_tasks := sy_tasks s @ [(cl, response_task (cl_require cl) r)]\<rparr>"
proof (cases "cl_require cl")
  case True
  have "s\<lparr>sy_flow := Some (f\<lparr>rf_state := rf_state f\<rparr>)\<rparr> = s" using assms(1) by simp
  then show ?thesis using True assms
    by (intro exI [of _ "rf_state f"]) (simp add: proceedAfterOpen_def response_task_def cancelled_def spawn_def)
next
  case False
  then show ?thesis using assms
    by (intro exI [of _ Opening]) (simp add: proceedAfterOpen_def response_task_def cancelled_def spawn_def decryptHeld_def set_reader_def)
qed

lemma remount_held:
  assumes "sy_flow s = None" "co_peek i (sy_co s) = Some se" "se_phase se = Held r" "decrypt_held S parse (k # rs) r i = Inr q"
  shows "let s' = fold (flow_step S parse) (Mount i require k rs # gate_events require (length (sy_tasks s))) s
    in map_option rf_state (sy_flow s') = Some (Decrypted q) \<and> sy_co s' = sy_co s"
proof -
  let ?cl = "\<lparr>cl_mount = sy_mounts s, cl_id = i, cl_require = require, cl_active = k, cl_retired = rs\<rparr>"
  let ?f = "\<lparr>rf_closure = ?cl, rf_decided = Some i, rf_state = Loading\<rparr>"
  let ?s1 = "s\<lparr>sy_mounts := Suc (sy_mounts s), sy_flow := Some ?f\<rparr>"
  obtain st where st: "proceedAfterOpen ?cl r Via_Resume ?s1 =
      ?s1\<lparr>sy_flow := Some (?f\<lparr>rf_state := st\<rparr>), sy_tasks := sy_tasks ?s1 @ [(?cl, response_task (cl_require ?cl) r)]\<rparr>"
    using proceed_task [of ?s1 ?f ?cl r] by auto
  have m: "flow_step S parse (Mount i require k rs) s = proceedAfterOpen ?cl r Via_Resume ?s1"
    using assms(1-3) by (simp add: mount_reader_def resume_effect_def Let_def)
  have dec: "decrypt_held S parse (cl_keys ?cl) r (cl_id ?cl) = Inr q" using assms(4) by simp
  show ?thesis
    using gate_to_text [OF _ _ _ dec, of "flow_step S parse (Mount i require k rs) s" "?f\<lparr>rf_state := st\<rparr>" "sy_tasks s"]
    by (simp add: m st Let_def del: flow_step.simps)
qed

lemma remount_in_flight:
  assumes "sy_flow s = None" "co_peek i (sy_co s) = Some se" "se_phase se = InFlight" "se_post se = n"
    "n < length (co_posts (sy_co s))" "sy_outcomes s n = None" "decrypt_held S parse (k # rs) r i = Inr q"
  shows "let t = length (sy_tasks s);
      s' = fold (flow_step S parse) ([Mount i require k rs, Post_Settles n (Inr r), Goes_On t Go_On] @ gate_events require t) s
    in map_option rf_state (sy_flow s') = Some (Decrypted q) \<and> co_posts (sy_co s') = co_posts (sy_co s)"
proof -
  let ?cl = "\<lparr>cl_mount = sy_mounts s, cl_id = i, cl_require = require, cl_active = k, cl_retired = rs\<rparr>"
  let ?f = "\<lparr>rf_closure = ?cl, rf_decided = Some i, rf_state = Opening\<rparr>" and ?t = "length (sy_tasks s)"
  define s1 where "s1 = s\<lparr>sy_mounts := Suc (sy_mounts s), sy_flow := Some ?f, sy_outcomes := (sy_outcomes s)(n \<mapsto> Inr r),
    sy_co := co_settle n (Some r) (sy_co s)\<rparr>"
  have m: "flow_step S parse (Mount i require k rs) s =
      s\<lparr>sy_mounts := Suc (sy_mounts s), sy_flow := Some ?f, sy_tasks := sy_tasks s @ [(?cl, Await_Post n Via_Resume)]\<rparr>"
    using assms(1-4) by (simp add: mount_reader_def resume_effect_def Let_def set_reader_def cancelled_def spawn_def)
  have p: "flow_step S parse (Post_Settles n (Inr r)) (flow_step S parse (Mount i require k rs) s) =
      s1\<lparr>sy_tasks := sy_tasks s @ [(?cl, Await_Post n Via_Resume)]\<rparr>"
    unfolding m using assms(5,6) by (simp add: s1_def)
  have g: "flow_step S parse (Goes_On ?t Go_On) (s1\<lparr>sy_tasks := sy_tasks s @ [(?cl, Await_Post n Via_Resume)]\<rparr>) =
      proceedAfterOpen ?cl r Via_Resume (s1\<lparr>sy_tasks := sy_tasks s\<rparr>)"
    by (simp add: can_go_on_def task_goes_on_def s1_def)
  have f: "sy_flow (s1\<lparr>sy_tasks := sy_tasks s\<rparr>) = Some ?f" by (simp add: s1_def)
  obtain st where st: "proceedAfterOpen ?cl r Via_Resume (s1\<lparr>sy_tasks := sy_tasks s\<rparr>) =
      s1\<lparr>sy_tasks := sy_tasks s, sy_flow := Some (?f\<lparr>rf_state := st\<rparr>), sy_tasks := sy_tasks s @ [(?cl, response_task (cl_require ?cl) r)]\<rparr>"
    using proceed_task [OF f, of ?cl r] by auto
  have dec: "decrypt_held S parse (cl_keys ?cl) r (cl_id ?cl) = Inr q" using assms(7) by simp
  let ?s3 = "s1\<lparr>sy_tasks := sy_tasks s, sy_flow := Some (?f\<lparr>rf_state := st\<rparr>), sy_tasks := sy_tasks s @ [(?cl, response_task (cl_require ?cl) r)]\<rparr>"
  have "co_posts (sy_co ?s3) = co_posts (sy_co s)" by (simp add: s1_def posts_kept)
  then show ?thesis
    using gate_to_text [OF _ _ _ dec, of ?s3 "?f\<lparr>rf_state := st\<rparr>" "sy_tasks s"] p g st
    by (simp add: Let_def del: flow_step.simps)
qed

text \<open>A reading is undisturbed while nobody closes it or takes up another link and its POST does not fail.\<close>

definition undisturbed :: "string \<Rightarrow> nat \<Rightarrow> ('pub, 'priv) flow_event \<Rightarrow> bool" where
  "undisturbed i n e =
     (case e of
        Tap_Close \<Rightarrow> False
      | Mount j b k rs \<Rightarrow> j = i
      | New_Link j \<Rightarrow> j = i
      | Post_Settles m r \<Rightarrow> m = n \<longrightarrow> \<not> is_err r
      | _ \<Rightarrow> True)"

definition settled_as :: "open_response phase \<Rightarrow> (reader_error + open_response) option \<Rightarrow> bool" where
  "settled_as ph x = (x = (case ph of InFlight \<Rightarrow> None | Held r \<Rightarrow> Some (Inr r)))"

lemma settled_as_simps [simp]: "settled_as InFlight x \<longleftrightarrow> x = None" "settled_as (Held r) x \<longleftrightarrow> x = Some (Inr r)"
  by (simp_all add: settled_as_def)

definition reading_on :: "string \<Rightarrow> nat \<Rightarrow> string list \<Rightarrow> ('pub, 'priv) reader_system \<Rightarrow> bool" where
  "reading_on i n ps s =
     ((\<forall>f. sy_flow s = Some f \<longrightarrow> cl_id (rf_closure f) = i)
      \<and> co_posts (sy_co s) = ps \<and> n < length ps
      \<and> (\<exists>ph. co_current (sy_co s) = Some \<lparr>se_id = i, se_post = n, se_phase = ph\<rparr>
           \<and> settled_as ph (sy_outcomes s n)))"

lemma same_reader:
  "sy_outcomes (proceedAfterOpen cl r v s) = sy_outcomes s" "sy_outcomes (loadMetadata cl s) = sy_outcomes s"
  "sy_outcomes (resume_effect s) = sy_outcomes s" "sy_outcomes (task_goes_on S parse cl t a s) = sy_outcomes s"
  by (auto simp: proceedAfterOpen_def decryptHeld_def loadMetadata_def resume_effect_def task_goes_on_def metadata_loaded_def Let_def
      split: option.splits phase.splits task.splits reply_to.splits sum.splits prod.splits)

definition link_of :: "('pub, 'priv) reader_system \<Rightarrow> string option" where
  "link_of s = map_option (\<lambda>f. cl_id (rf_closure f)) (sy_flow s)"

lemma link_of_sel [simp]:
  "link_of (set_reader cl st s) = link_of s" "link_of (spawn cl t s) = link_of s"
  "link_of (proceedAfterOpen cl r v s) = link_of s" "link_of (loadMetadata cl s) = link_of s"
  by (simp_all add: link_of_def set_reader_def proceedAfterOpen_def decryptHeld_def loadMetadata_def option.map_comp comp_def)

lemma link_of_resume [simp]: "link_of (resume_effect s) = link_of s"
proof (cases "sy_flow s")
  case (Some f)
  let ?s1 = "s\<lparr>sy_flow := Some (f\<lparr>rf_decided := Some (cl_id (rf_closure f))\<rparr>)\<rparr>"
  have "link_of ?s1 = link_of s" using Some by (simp add: link_of_def)
  then show ?thesis using Some by (simp add: resume_effect_def Let_def split: option.splits phase.splits)
qed (simp add: resume_effect_def)

lemma link_of_task [simp]: "link_of (task_goes_on S parse cl t r s) = link_of s"
proof -
  have "link_of (decryptHeld cl x (s\<lparr>sy_authed := as\<rparr>)) = link_of s" for x as
    by (simp add: decryptHeld_def) (simp add: link_of_def)
  then show ?thesis
    by (simp add: task_goes_on_def metadata_loaded_def split: option.splits task.splits reply_to.splits sum.splits prod.splits)
qed

lemma reading_iff:
  "reading_on i n ps s \<longleftrightarrow> (link_of s = None \<or> link_of s = Some i) \<and> co_posts (sy_co s) = ps \<and> n < length ps
    \<and> (\<exists>ph. co_current (sy_co s) = Some \<lparr>se_id = i, se_post = n, se_phase = ph\<rparr>
         \<and> settled_as ph (sy_outcomes s n))"
  by (auto simp: reading_on_def link_of_def)

lemma reading_same:
  assumes "reading_on i n ps s" "sy_co s' = sy_co s" "sy_outcomes s' = sy_outcomes s" "link_of s' = link_of s \<or> link_of s' = Some i \<or> link_of s' = None"
  shows "reading_on i n ps s'"
  using assms unfolding reading_iff by auto

lemma reading_try:
  assumes "reading_on i n ps s" "cl_id cl = i"
  shows "reading_on i n ps (tryOpen cl m fp s)"
proof -
  obtain ph where "co_current (sy_co s) = Some \<lparr>se_id = i, se_post = n, se_phase = ph\<rparr>" using assms(1) by (auto simp: reading_iff)
  then have c: "snd (co_begin i (sy_co s)) = sy_co s" by (cases ph) (simp_all add: co_begin_def Let_def)
  have set: "sy_flow (x\<lparr>sy_co := c'\<rparr>) = sy_flow x" "link_of (x\<lparr>sy_co := c'\<rparr>) = link_of x" for x c' by (simp_all add: link_of_def)
  have "link_of (tryOpen cl m fp s) = link_of s" "sy_outcomes (tryOpen cl m fp s) = sy_outcomes s"
    by (simp_all add: tryOpen_def Let_def set same_reader split: begin_result.splits prod.splits)
  then show ?thesis using assms c by (intro reading_same [OF assms(1)]) simp_all
qed

lemma reading_step:
  assumes "reading_on i n ps s" "undisturbed i n e"
  shows "reading_on i n ps (flow_step S parse e s)"
proof (cases e)
  case (Mount j b k rs)
  have "link_of (mount_reader j b k rs s) = Some j" "sy_outcomes (mount_reader j b k rs s) = sy_outcomes s"
    "sy_co (mount_reader j b k rs s) = sy_co s"
    by (simp_all add: mount_reader_def same_reader) (simp add: link_of_def)
  then show ?thesis using Mount assms by (auto simp: undisturbed_def intro: reading_same)
next
  case Unmount
  then show ?thesis using assms(1) by (auto simp: link_of_def intro: reading_same)
next
  case (New_Link j)
  then show ?thesis using assms
    by (auto simp: undisturbed_def same_reader intro!: reading_same [OF assms(1)]) (auto simp: link_of_def)
next
  case (Setting b)
  then show ?thesis by (auto simp: link_of_def option.map_comp comp_def intro!: reading_same [OF assms(1)])
next
  case (Post_Settles m r)
  show ?thesis
  proof (cases "m < length (co_posts (sy_co s)) \<and> sy_outcomes s m = None")
    case True
    have link: "link_of (s\<lparr>sy_outcomes := x, sy_co := c\<rparr>) = link_of s" for x c by (simp add: link_of_def)
    show ?thesis using True assms Post_Settles
      by (cases r) (auto simp: reading_iff link undisturbed_def co_settle_def split: phase.splits)
  qed (use assms(1) Post_Settles in auto)
next
  case Tap_Open
  then show ?thesis using assms(1) reading_try [OF assms(1)]
    by (auto simp: reading_on_def [of _ _ _ s] split: option.splits reader_state.splits)
next
  case Tap_Retry
  have "reading_on i n ps (loadMetadata cl s)" for cl
    by (rule reading_same [OF assms(1)]) (simp_all add: same_reader)
  then show ?thesis using Tap_Retry assms(1) reading_try [OF assms(1)]
    by (auto simp: retryFromNetwork_def reading_on_def [of _ _ _ s] split: option.splits reader_state.splits list.splits)
next
  case Tap_Decrypt
  have "reading_on i n ps (spawn cl t s)" for cl t by (rule reading_same [OF assms(1)]) simp_all
  then show ?thesis using Tap_Decrypt assms(1) by (auto split: option.splits reader_state.splits bool.splits)
next
  case (Goes_On m r)
  have "reading_on i n ps (task_goes_on S parse cl t r (s\<lparr>sy_tasks := ts\<rparr>))" for cl t ts
    by (rule reading_same [OF assms(1)]) (simp_all add: same_reader, simp add: link_of_def)
  then show ?thesis using Goes_On assms(1) by auto
qed (use assms(2) in \<open>simp add: undisturbed_def\<close>)

lemma reading_run:
  "reading_on i n ps s \<Longrightarrow> list_all (undisturbed i n) es \<Longrightarrow> reading_on i n ps (fold (flow_step S parse) es s)"
  by (induction es arbitrary: s) (simp_all add: reading_step del: flow_step.simps)

lemma outcomes_step:
  assumes "\<forall>m \<ge> length (co_posts (sy_co s)). sy_outcomes s m = None"
  shows "\<forall>m \<ge> length (co_posts (sy_co (flow_step S parse e s))). sy_outcomes (flow_step S parse e s) m = None"
proof -
  have grow: "length (co_posts (sy_co s)) \<le> length (co_posts (sy_co (flow_step S parse e s)))"
    using step_posts [of S parse e s] by auto
  have "sy_outcomes (tryOpen cl m fp s) = sy_outcomes s" for cl m fp
    by (simp add: tryOpen_def Let_def same_reader split: begin_result.splits prod.splits)
  then have "sy_outcomes (flow_step S parse e s) = sy_outcomes s \<or>
      (\<exists>n r. n < length (co_posts (sy_co s)) \<and> sy_outcomes (flow_step S parse e s) = (sy_outcomes s)(n \<mapsto> r))"
    by (cases e) (auto simp: mount_reader_def same_reader finish_def retryFromNetwork_def
        split: option.splits reader_state.splits list.splits bool.splits)
  then show ?thesis using assms grow by auto
qed

lemma outcomes_run: "\<forall>m \<ge> length (co_posts (sy_co (flow_run S parse es))). sy_outcomes (flow_run S parse es) m = None"
proof -
  have "\<forall>m \<ge> length (co_posts (sy_co (fold (flow_step S parse) es s))). sy_outcomes (fold (flow_step S parse) es s) m = None"
    if "\<forall>m \<ge> length (co_posts (sy_co s)). sy_outcomes s m = None" for s
    using that by (induction es arbitrary: s) (simp_all add: outcomes_step del: flow_step.simps)
  from this [of reader_start] show ?thesis by (simp add: flow_run_def reader_start_def)
qed

lemma tap_starts:
  assumes "s = flow_run S parse before" "sy_flow s = Some f" "rf_state f = Landing m fp" "cl_id (rf_closure f) = i"
    "co_peek i (sy_co s) = None" "n = length (co_posts (sy_co s))"
  shows "reading_on i n (co_posts (sy_co s) @ [i]) (flow_step S parse Tap_Open s)"
proof -
  let ?cl = "rf_closure f"
  have c: "co_begin i (sy_co s) = (Started n, (sy_co s)\<lparr>co_current := Some \<lparr>se_id = i, se_post = n, se_phase = InFlight\<rparr>,
      co_posts := co_posts (sy_co s) @ [i]\<rparr>)"
    using assms(5,6) by (auto simp: co_begin_def co_peek_def Let_def split: option.splits if_splits)
  have o: "sy_outcomes (tryOpen ?cl m fp s) = sy_outcomes s"
    by (simp add: tryOpen_def Let_def same_reader split: begin_result.splits prod.splits)
  have l: "link_of (tryOpen ?cl m fp s) = link_of s"
    using c assms(4) by (simp add: tryOpen_def Let_def) (simp add: link_of_def set_reader_def option.map_comp comp_def)
  have "sy_outcomes s n = None" using outcomes_run [of S parse before] assms(1,6) by simp
  then show ?thesis using assms(2-4,6) c o l by (simp add: reading_iff) (simp add: link_of_def)
qed

text \<open>
  C25: an interruption costs no open. After a tap on "Open message" has requested the open of a link, let the app be
  locked and unlocked, the reader be taken off the screen and put back and answers come in any order and number: as
  long as nobody closes the reading or takes up another link and the request does not fail, no second open is requested.
  And if the reader is mounted again while the request is still under way, or after it has succeeded, its response is
  decrypted there, with the guard after one more prompt, and still no second open is requested.
\<close>

theorem interruption_costs_no_open:
  assumes "s = flow_run S parse before" "sy_flow s = Some f" "rf_state f = Landing m fp" "cl_id (rf_closure f) = i"
    "co_peek i (sy_co s) = None" "n = length (co_posts (sy_co s))" "list_all (undisturbed i n) es"
    "s1 = fold (flow_step S parse) (Tap_Open # es) s"
  shows "co_posts (sy_co s1) = co_posts (sy_co s) @ [i] \<and>
    (sy_flow s1 = None \<longrightarrow> decrypt_held S parse (k # rs) r i = Inr q \<longrightarrow>
      sy_outcomes s1 n = None \<or> sy_outcomes s1 n = Some (Inr r) \<longrightarrow>
      (let t = length (sy_tasks s1);
           arrival = (if sy_outcomes s1 n = None then [Post_Settles n (Inr r), Goes_On t Go_On] else []);
           s2 = fold (flow_step S parse) (Mount i require k rs # arrival @ gate_events require t) s1
       in map_option rf_state (sy_flow s2) = Some (Decrypted q) \<and> co_posts (sy_co s2) = co_posts (sy_co s) @ [i]))"
proof -
  have on: "reading_on i n (co_posts (sy_co s) @ [i]) s1"
    using reading_run [OF tap_starts [OF assms(1-6)] assms(7)] assms(8) by (simp del: flow_step.simps)
  then obtain ph where ph: "co_peek i (sy_co s1) = Some \<lparr>se_id = i, se_post = n, se_phase = ph\<rparr>"
    "settled_as ph (sy_outcomes s1 n)"
    "co_posts (sy_co s1) = co_posts (sy_co s) @ [i]" "n < length (co_posts (sy_co s1))"
    by (auto simp: reading_on_def co_peek_def)
  show ?thesis
  proof (intro conjI impI)
    assume a: "sy_flow s1 = None" "decrypt_held S parse (k # rs) r i = Inr q" "sy_outcomes s1 n = None \<or> sy_outcomes s1 n = Some (Inr r)"
    show "let t = length (sy_tasks s1);
           arrival = (if sy_outcomes s1 n = None then [Post_Settles n (Inr r), Goes_On t Go_On] else []);
           s2 = fold (flow_step S parse) (Mount i require k rs # arrival @ gate_events require t) s1
       in map_option rf_state (sy_flow s2) = Some (Decrypted q) \<and> co_posts (sy_co s2) = co_posts (sy_co s) @ [i]"
    proof (cases ph)
      case InFlight
      then show ?thesis using remount_in_flight [OF a(1) ph(1) _ _ ph(4) _ a(2)] ph(2,3) by (simp add: Let_def del: flow_step.simps)
    next
      case (Held r')
      then have "r' = r" using ph(2) a(3) by auto
      then show ?thesis using remount_held [OF a(1) ph(1) _ a(2)] Held ph(2,3) by (simp add: Let_def del: flow_step.simps)
    qed
  qed (rule ph(3))
qed

section \<open>What can go wrong\<close>

lemmas flow_simps = Let_def flow_run_def reader_start_def createOpenCoordinator_def mount_reader_def resume_effect_def loadMetadata_def spawn_def
  set_reader_def cancelled_def can_go_on_def task_goes_on_def metadata_loaded_def co_peek_def tryOpen_def co_begin_def crypto_def
  co_settle_def proceedAfterOpen_def

text \<open>
  A new link while the old one loads. If a second link arrives while the reader is mounted and the first one's metadata
  comes last, the landing shows the first link's expiry and count, and its "Open message" spends an open of the second.
\<close>

theorem landing_of_other_link:
  assumes "a \<noteq> b" "fingerprint (sha256 S) (exportPublicKey k) = Inr fp"
  shows "let s = flow_run S parse [Mount a require k rs, New_Link b, Goes_On 1 (Metadata_Reply (Inr mb)), Goes_On 0 (Metadata_Reply (Inr ma))]
    in map_option rf_state (sy_flow s) = Some (Landing ma fp) \<and> co_posts (sy_co (flow_step S parse Tap_Open s)) = [b]"
  using assms
  by (simp add: flow_simps)

text \<open>
  The network screen is no proof. It tells the reader that no open was used; with the guard on it is also shown when the
  open has been spent and only the probe of the biometric hardware failed.
\<close>

theorem network_screen_after_open:
  assumes "fingerprint (sha256 S) (exportPublicKey k) = Inr fp"
  shows "let s = flow_run S parse [Mount i True k rs, Goes_On 0 (Metadata_Reply (Inr m)), Tap_Open, Post_Settles 0 (Inr r), Goes_On 0 Go_On,
             Goes_On 0 (Probe_Reply None)]
    in map_option rf_state (sy_flow s) = Some (SNetwork (Some m) (Some fp)) \<and> sy_outcomes s 0 = Some (Inr r)"
  using assms
  by (simp add: flow_simps open_failed_def classifyReaderError_def)

section \<open>A reading, step by step\<close>

lemma readable_message:
  obtains me :: "(byte, byte) identity_impl" and resp q fp where
    "decrypt_held toy_suite (\<lambda>t. Some 9) [me] resp ''aaaaaaaaaaaaaaaa'' = Inr q"
    "fingerprint (sha256 toy_suite) (exportPublicKey me) = Inr fp"
proof -
  have pub: "public_of toy_suite 5 = 5" by (simp add: toy_suite_def)
  obtain me where me: "generateIdentity toy_suite (5, 5) = Inr me" using generateIdentity_total [OF toy_correct] by blast
  obtain r where r: "importPublicKey toy_suite (exportPublicKey me) = Inr r" using exported_key_imports [OF toy_correct me] by blast
  let ?ctx = "\<lparr>linkId = ''aaaaaaaaaaaaaaaa'', recipientPublicKey = exportPublicKey me, createdAtMs = None, expiresAtMs = num 9, maxOpens = num 1\<rparr>"
  have "length (TextEncoder (text_of_string (linkId ?ctx))) = 16"
    by (rule link_id_bytes) (simp add: LINK_ID_REGEX_def alnum_def char_in_def)
  then obtain aad where "encodeAad toy_suite ?ctx = Inr aad"
    using encodeAad_total [OF toy_correct, of ?ctx r] r by (auto simp: aad_checks_def isSafeInteger_def Let_def)
  then obtain blob where blob: "seal toy_suite [] [] r ?ctx = Inr blob"
    using seal_total [OF toy_correct _ r, of 5 ?ctx aad "[]" "[]"] me pub by auto
  have "cryptoKey r = public_of toy_suite (privateKey me)"
    using r exported_key_imports [OF toy_correct me] identity_private [OF me] pub by auto
  then have opened: "open_sealed toy_suite blob me ?ctx = Inr []" using seal_then_open [OF toy_correct _ blob] by simp
  obtain fp where fp: "fingerprint (sha256 toy_suite) (exportPublicKey me) = Inr fp"
    using r by (auto simp: importPublicKey_def result_simps fingerprint_def Let_def)
  let ?resp = "\<lparr>or_ciphertext = bytesToBase64 blob, or_createdAt = None, or_expiresAt = [], or_opensCount = num 1, or_maxOpens = num 1,
    or_status = Active\<rparr>"
  have "\<exists>q. held_attempt toy_suite (\<lambda>t. Some 9) ?resp ''aaaaaaaaaaaaaaaa'' me = Inr q"
    using opened fp base64_roundtrip [of blob] by (simp add: held_attempt_def response_context_def date_ms_def Let_def)
  then obtain q where "held_attempt toy_suite (\<lambda>t. Some 9) ?resp ''aaaaaaaaaaaaaaaa'' me = Inr q" ..
  then have "decrypt_held toy_suite (\<lambda>t. Some 9) [me] ?resp ''aaaaaaaaaaaaaaaa'' = Inr q"
    by (simp add: decrypt_held_def decryptWithKeyFallback_def crypto_def)
  with fp that show ?thesis by blast
qed

theorem plaintext_after_prompt_witness:
  "\<exists>(me :: (byte, byte) identity_impl) resp m. let s = flow_run toy_suite (\<lambda>t. Some 9) [Mount ''aaaaaaaaaaaaaaaa'' True me [],
       Goes_On 0 (Metadata_Reply (Inr m)), Tap_Open, Post_Settles 0 (Inr resp), Goes_On 0 Go_On,
       Goes_On 0 (Probe_Reply (Some (checkBiometricCapability True True))), Tap_Decrypt, Goes_On 0 (Prompt_Reply True), Goes_On 0 Go_On]
     in (\<exists>q. map_option rf_state (sy_flow s) = Some (Decrypted q)) \<and> sy_authed s = [(0, resp)]"
proof -
  obtain me :: "(byte, byte) identity_impl" and resp q fp where r: "decrypt_held toy_suite (\<lambda>t. Some 9) [me] resp ''aaaaaaaaaaaaaaaa'' = Inr q"
    "fingerprint (sha256 toy_suite) (exportPublicKey me) = Inr fp" by (rule readable_message)
  let ?m = "\<lparr>mm_status = Active, mm_expiresAt = [], mm_maxOpens = num 1, mm_opensCount = num 0\<rparr>"
  let ?es = "[Mount ''aaaaaaaaaaaaaaaa'' True me [], Goes_On 0 (Metadata_Reply (Inr ?m)), Tap_Open, Post_Settles 0 (Inr resp), Goes_On 0 Go_On,
    Goes_On 0 (Probe_Reply (Some (checkBiometricCapability True True))), Tap_Decrypt, Goes_On 0 (Prompt_Reply True), Goes_On 0 Go_On]"
  let ?s = "flow_run toy_suite (\<lambda>t. Some 9) ?es"
  have run: "\<exists>f. sy_flow ?s = Some f \<and> rf_state f = Decrypted q" "sy_authed ?s = [(0, resp)]"
    using r by (simp_all add: flow_simps decideDecryptGate_def checkBiometricCapability_def decryptHeld_def held_state_def)
  then obtain f where f: "sy_flow ?s = Some f" "rf_state f = Decrypted q" by blast
  have "list_all guard_on ?es" by (simp add: guard_on_def)
  from plaintext_after_prompt [OF this f] run(2) f show ?thesis by (intro exI [of _ me] exI [of _ resp] exI [of _ ?m]) (auto simp: Let_def)
qed

theorem interruption_costs_no_open_witness:
  "\<exists>(me :: (byte, byte) identity_impl) md resp q. let s2 = flow_run toy_suite (\<lambda>t. Some 9) [Mount ''aaaaaaaaaaaaaaaa'' False me [],
       Goes_On 0 (Metadata_Reply (Inr md)), Tap_Open, Unmount, Mount ''aaaaaaaaaaaaaaaa'' False me [], Post_Settles 0 (Inr resp),
       Goes_On 1 Go_On, Goes_On 1 Go_On]
     in map_option rf_state (sy_flow s2) = Some (Decrypted q) \<and> co_posts (sy_co s2) = [''aaaaaaaaaaaaaaaa'']"
proof -
  obtain me :: "(byte, byte) identity_impl" and resp q fp where r: "decrypt_held toy_suite (\<lambda>t. Some 9) [me] resp ''aaaaaaaaaaaaaaaa'' = Inr q"
    "fingerprint (sha256 toy_suite) (exportPublicKey me) = Inr fp" by (rule readable_message)
  let ?m = "\<lparr>mm_status = Active, mm_expiresAt = [], mm_maxOpens = num 1, mm_opensCount = num 0\<rparr>" and ?S = "toy_suite" and ?parse = "\<lambda>t. Some 9"
  let ?before = "[Mount ''aaaaaaaaaaaaaaaa'' False me [], Goes_On 0 (Metadata_Reply (Inr ?m))]"
  define s where "s = flow_run ?S ?parse ?before"
  define s1 where "s1 = fold (flow_step ?S ?parse) (Tap_Open # [Unmount]) s"
  have s: "\<exists>f. sy_flow s = Some f \<and> rf_state f = Landing ?m fp \<and> cl_id (rf_closure f) = ''aaaaaaaaaaaaaaaa''"
    "co_peek ''aaaaaaaaaaaaaaaa'' (sy_co s) = None" "co_posts (sy_co s) = []"
    using r(2) by (simp_all add: s_def flow_simps)
  then obtain f where f: "sy_flow s = Some f" "rf_state f = Landing ?m fp" "cl_id (rf_closure f) = ''aaaaaaaaaaaaaaaa''" by blast
  have s1: "sy_flow s1 = None" "sy_outcomes s1 0 = None" "length (sy_tasks s1) = 1"
    using r(2) by (simp_all add: s1_def s_def flow_simps)
  have "list_all (undisturbed ''aaaaaaaaaaaaaaaa'' 0) [Unmount]" by (simp add: undisturbed_def)
  from interruption_costs_no_open [OF s_def f s(2) _ this s1_def, of me "[]" resp q False] s(3) s1 r(1)
  have "map_option rf_state (sy_flow (fold (flow_step ?S ?parse) (Mount ''aaaaaaaaaaaaaaaa'' False me [] #
      [Post_Settles 0 (Inr resp), Goes_On 1 Go_On] @ gate_events False 1) s1)) = Some (Decrypted q) \<and>
    co_posts (sy_co (fold (flow_step ?S ?parse) (Mount ''aaaaaaaaaaaaaaaa'' False me [] #
      [Post_Settles 0 (Inr resp), Goes_On 1 Go_On] @ gate_events False 1) s1)) = [''aaaaaaaaaaaaaaaa'']"
    by (simp add: Let_def del: flow_step.simps fold_simps)
  then show ?thesis
    by (intro exI [of _ me] exI [of _ ?m] exI [of _ resp] exI [of _ q])
      (simp add: Let_def s1_def s_def flow_run_def gate_events_def del: flow_step.simps)
qed

theorem landing_of_other_link_witness:
  "\<exists>(me :: (byte, byte) identity_impl) ma mb. co_posts (sy_co (flow_run toy_suite (\<lambda>t. None) [Mount ''a'' True me [], New_Link ''b'',
      Goes_On 1 (Metadata_Reply (Inr mb)), Goes_On 0 (Metadata_Reply (Inr ma)), Tap_Open])) = [''b'']
     \<and> \<not> ln_lastView (landingNotice ma) \<and> ln_lastView (landingNotice mb)"
proof -
  obtain me :: "(byte, byte) identity_impl" and resp q fp where "fingerprint (sha256 toy_suite) (exportPublicKey me) = Inr fp"
    by (rule readable_message)
  note step = landing_of_other_link [OF _ this, of "''a''" "''b''" "\<lambda>t. None" True "[]"]
  let ?m = "\<lambda>n. \<lparr>mm_status = Active, mm_expiresAt = [], mm_maxOpens = num n, mm_opensCount = num 0\<rparr>"
  have "\<not> ln_lastView (landingNotice (?m (-1)))" "ln_lastView (landingNotice (?m 1))"
    by (simp_all add: landingNotice_def isUnlimited_def num_def Let_def)
  then show ?thesis using step [of "?m 1" "?m (-1)"]
    by (intro exI [of _ me] exI [of _ "?m (-1)"] exI [of _ "?m 1"]) (simp add: Let_def flow_run_def del: flow_step.simps)
qed

theorem network_screen_after_open_witness:
  "\<exists>(me :: (byte, byte) identity_impl) m r fp. map_option rf_state (sy_flow (flow_run toy_suite (\<lambda>t. None) [Mount ''a'' True me [],
      Goes_On 0 (Metadata_Reply (Inr m)), Tap_Open, Post_Settles 0 (Inr r), Goes_On 0 Go_On, Goes_On 0 (Probe_Reply None)])) = Some (SNetwork (Some m) fp)"
proof -
  obtain me :: "(byte, byte) identity_impl" and resp q fp where "fingerprint (sha256 toy_suite) (exportPublicKey me) = Inr fp"
    by (rule readable_message)
  from network_screen_after_open [OF this] show ?thesis unfolding Let_def by blast
qed

end
