(* ===== verification/Web_Reader_Flow.thy ===== *)
theory Web_Reader_Flow
  imports Web_Messages Link_Urls
begin

text \<open>
  The reader of the web client: the flow apps/webapp/src/screens/reader/ReaderFlowScreen.tsx, the downloads and the
  copy button of SecureReaderScreen.tsx, the clipboard timer reader/use-clipboard-auto-clear.ts and the cover
  reader/use-privacy-shield.ts. What the identity context reports is an event; an effect runs with the update that
  triggers it; the end of the one await is an event.
\<close>

section \<open>The flow\<close>

datatype reader_phase = Resolving | Entry | No_Identity | Unlock_Phase | Opening_Phase | Decrypted_Phase | Closed_Phase
  | Terminal web_reader_outcome

datatype identity_report = Id_Loading | Id_None | Id_Locked | Id_Unlocked

text \<open>
  Beside the state of the component: the calls of \<open>openAndDecrypt\<close> under way (link and keys) and, for the statements,
  the number of taps on "Open message" and "Retry" and the links for which an open was requested.
\<close>

record ('pub, 'priv) web_reader =
  wr_phase :: reader_phase
  wr_linkId :: "string option"
  wr_output :: "reader_output option"
  wr_wantsOpen :: bool
  wr_inFlight :: bool
  wr_report :: identity_report
  wr_keys :: "('pub, 'priv) identity_impl list option"
  wr_pending :: "(string \<times> ('pub, 'priv) identity_impl list) list"
  wr_taps :: nat
  wr_posts :: "(string \<times> ('pub, 'priv) identity_impl list) list"

definition web_reader_mount :: "('pub, 'priv) web_reader" where
  "web_reader_mount = \<lparr>wr_phase = Resolving, wr_linkId = None, wr_output = None, wr_wantsOpen = False, wr_inFlight = False,
     wr_report = Id_Loading, wr_keys = None, wr_pending = [], wr_taps = 0, wr_posts = []\<rparr>"

definition resolve_effect :: "string \<Rightarrow> string \<Rightarrow> ('pub, 'priv) web_reader \<Rightarrow> ('pub, 'priv) web_reader" where
  "resolve_effect pathname search w =
     (case readLinkId pathname (if search = [] then [] else CHR ''?'' # search) of
        Some i \<Rightarrow> w\<lparr>wr_linkId := Some i, wr_phase := (if wr_phase w = Resolving then Entry else wr_phase w)\<rparr>
      | None \<Rightarrow> w\<lparr>wr_phase := (if wr_phase w = Resolving then Terminal WInvalid else wr_phase w)\<rparr>)"

definition runOpen :: "('pub, 'priv) web_reader \<Rightarrow> ('pub, 'priv) web_reader" where
  "runOpen w =
     (if wr_inFlight w then w
      else case (wr_linkId w, wr_keys w) of
             (Some i, Some ks) \<Rightarrow>
               w\<lparr>wr_inFlight := True, wr_phase := Opening_Phase, wr_pending := wr_pending w @ [(i, ks)], wr_posts := wr_posts w @ [(i, ks)]\<rparr>
           | _ \<Rightarrow> w)"

definition gate_effect :: "('pub, 'priv) web_reader \<Rightarrow> ('pub, 'priv) web_reader" where
  "gate_effect w =
     (if \<not> wr_wantsOpen w then w
      else case wr_report w of
             Id_Loading \<Rightarrow> w
           | Id_None \<Rightarrow> w\<lparr>wr_wantsOpen := False, wr_phase := No_Identity\<rparr>
           | Id_Locked \<Rightarrow> w\<lparr>wr_phase := Unlock_Phase\<rparr>
           | Id_Unlocked \<Rightarrow> (if wr_keys w \<noteq> None then runOpen (w\<lparr>wr_wantsOpen := False\<rparr>) else w))"

definition open_ended :: "nat \<Rightarrow> web_failure + reader_output \<Rightarrow> ('pub, 'priv) web_reader \<Rightarrow> ('pub, 'priv) web_reader" where
  "open_ended n r w =
     (let w1 = w\<lparr>wr_pending := take n (wr_pending w) @ drop (Suc n) (wr_pending w), wr_inFlight := False\<rparr>
      in case r of
           Inr out \<Rightarrow> w1\<lparr>wr_output := Some out, wr_phase := Decrypted_Phase\<rparr>
         | Inl err \<Rightarrow> w1\<lparr>wr_phase := Terminal (web_classifyReaderError err)\<rparr>)"

definition handleWantOpen :: "('pub, 'priv) web_reader \<Rightarrow> ('pub, 'priv) web_reader" where
  "handleWantOpen w = gate_effect (w\<lparr>wr_wantsOpen := True\<rparr>)"

definition handleClose :: "('pub, 'priv) web_reader \<Rightarrow> ('pub, 'priv) web_reader" where
  "handleClose w = w\<lparr>wr_output := None, wr_phase := Closed_Phase\<rparr>"

definition handleRetry :: "('pub, 'priv) web_reader \<Rightarrow> ('pub, 'priv) web_reader" where
  "handleRetry w = runOpen w"

datatype web_screen = Preparing_Status | Landing_Screen string | No_Identity_Screen | Inline_Unlock | Decrypting_Status
  | Secure_Reader reader_output | Unavailable_Screen | Invalid_Screen | Network_Screen | Failed_Screen | Closed_Status

definition web_reader_rendered :: "('pub, 'priv) web_reader \<Rightarrow> web_screen" where
  "web_reader_rendered w =
     (case wr_phase w of
        Resolving \<Rightarrow> Preparing_Status
      | Entry \<Rightarrow> (case wr_linkId w of None \<Rightarrow> Preparing_Status | Some i \<Rightarrow> Landing_Screen i)
      | No_Identity \<Rightarrow> No_Identity_Screen
      | Unlock_Phase \<Rightarrow> Inline_Unlock
      | Opening_Phase \<Rightarrow> Decrypting_Status
      | Decrypted_Phase \<Rightarrow> (case wr_output w of None \<Rightarrow> Decrypting_Status | Some out \<Rightarrow> Secure_Reader out)
      | Closed_Phase \<Rightarrow> Closed_Status
      | Terminal WGone \<Rightarrow> Unavailable_Screen
      | Terminal WInvalid \<Rightarrow> Invalid_Screen
      | Terminal WNetwork \<Rightarrow> Network_Screen
      | Terminal WFailed \<Rightarrow> Failed_Screen)"

text \<open>A call that ends has the result of \<open>openAndDecrypt\<close> on the network as it is then.\<close>

datatype ('pub, 'priv) web_reader_event =
    Url string string
  | Identity_Report identity_report "('pub, 'priv) identity_impl list option"
  | Open_Tap
  | Retry_Tap
  | Close_Tap
  | Open_Ends nat web_env

fun web_reader_step :: "('pub, 'priv) hpke_suite \<Rightarrow> (string \<Rightarrow> int option) \<Rightarrow> ('pub, 'priv) web_reader_event \<Rightarrow> ('pub, 'priv) web_reader
    \<Rightarrow> ('pub, 'priv) web_reader" where
  "web_reader_step S parse (Url p q) w = resolve_effect p q w"
| "web_reader_step S parse (Identity_Report st ks) w = gate_effect (w\<lparr>wr_report := st, wr_keys := ks\<rparr>)"
| "web_reader_step S parse Open_Tap w =
     (case web_reader_rendered w of Landing_Screen i \<Rightarrow> handleWantOpen (w\<lparr>wr_taps := Suc (wr_taps w)\<rparr>) | _ \<Rightarrow> w)"
| "web_reader_step S parse Retry_Tap w =
     (if web_reader_rendered w = Network_Screen then handleRetry (w\<lparr>wr_taps := Suc (wr_taps w)\<rparr>) else w)"
| "web_reader_step S parse Close_Tap w =
     (case web_reader_rendered w of
        Unavailable_Screen \<Rightarrow> handleClose w | Invalid_Screen \<Rightarrow> handleClose w | Network_Screen \<Rightarrow> handleClose w | Failed_Screen \<Rightarrow> handleClose w
      | Secure_Reader out \<Rightarrow> handleClose w
      | _ \<Rightarrow> w)"
| "web_reader_step S parse (Open_Ends n env) w =
     (if n < length (wr_pending w)
      then open_ended n (openAndDecrypt S parse env (snd (wr_pending w ! n)) (fst (wr_pending w ! n))) w
      else w)"

section \<open>Downloads\<close>

text \<open>The object URLs alive and those the reader tracks; \<open>createObjectURL\<close> yields a fresh one.\<close>

record downloads =
  dl_live :: "string list"
  dl_tracked :: "string list"

definition handleDownload :: "string \<Rightarrow> downloads \<Rightarrow> downloads" where
  "handleDownload url d = d\<lparr>dl_live := dl_live d @ [url], dl_tracked := dl_tracked d @ [url]\<rparr>"

definition revokeAllObjectUrls :: "downloads \<Rightarrow> downloads" where
  "revokeAllObjectUrls d = d\<lparr>dl_live := fold (\<lambda>url live. filter (\<lambda>u. u \<noteq> url) live) (dl_tracked d) (dl_live d), dl_tracked := []\<rparr>"

section \<open>The clipboard\<close>

text \<open>
  The clipboard of the platform: its text, whether writing and reading are there, and whether a call is allowed now. The
  pending timer is the text it compares with and when it is due.
\<close>

record web_clipboard =
  wc_text :: js_text
  wc_timer :: "(int \<times> js_text) option"

datatype copy_result = Copied | Copied_No_Autoclear | Copy_Failed

record clipboard_api =
  ca_writeText :: bool
  ca_readText :: bool
  ca_write_allowed :: bool

definition web_copy :: "clipboard_api \<Rightarrow> int \<Rightarrow> int \<Rightarrow> js_text \<Rightarrow> web_clipboard \<Rightarrow> copy_result \<times> web_clipboard" where
  "web_copy api delayMs now t c =
     (if \<not> ca_writeText api then (Copy_Failed, c)
      else if \<not> ca_write_allowed api then (Copy_Failed, c)
      else
        let c1 = c\<lparr>wc_text := t\<rparr> in
        if \<not> ca_readText api then (Copied_No_Autoclear, c1)
        else (Copied, c1\<lparr>wc_timer := Some (now + delayMs, t)\<rparr>))"

text \<open>The timer fires; reading or writing may be refused.\<close>

definition clear_fires :: "bool \<Rightarrow> bool \<Rightarrow> web_clipboard \<Rightarrow> web_clipboard" where
  "clear_fires readable writable c =
     (case wc_timer c of
        None \<Rightarrow> c
      | Some (due, t) \<Rightarrow>
          let c1 = c\<lparr>wc_timer := None\<rparr> in
          if readable \<and> wc_text c = t \<and> writable then c1\<lparr>wc_text := []\<rparr> else c1)"

definition reader_unmounts :: "web_clipboard \<Rightarrow> web_clipboard" where
  "reader_unmounts c = c\<lparr>wc_timer := None\<rparr>"

section \<open>The cover\<close>

definition computeObscured :: "bool \<Rightarrow> bool \<Rightarrow> bool" where
  "computeObscured has_document hidden = (has_document \<and> hidden)"

datatype page_event = Visibility_Change | Page_Blur | Page_Focus

definition cover_after :: "page_event \<Rightarrow> bool \<Rightarrow> bool" where
  "cover_after e hidden = (case e of Page_Blur \<Rightarrow> True | _ \<Rightarrow> computeObscured True hidden)"

end
