(* ===== verification/Web_Reader_Flow_Laws.thy ===== *)
theory Web_Reader_Flow_Laws
  imports Web_Reader_Flow Device_Timers End_To_End
begin

text \<open>
  What the web reader guarantees: an open is requested only on a tap and with an unlocked identity, one at a time; a
  closed page holds no text; the clipboard is never clobbered. But leaving the reader cancels the promised clearing.
\<close>

section \<open>The flow\<close>

definition web_reader_ok :: "('pub, 'priv) web_reader \<Rightarrow> bool" where
  "web_reader_ok w =
     (length (wr_pending w) \<le> 1 \<and> (wr_inFlight w \<longleftrightarrow> wr_pending w \<noteq> []) \<and> (wr_pending w \<noteq> [] \<longrightarrow> wr_phase w = Opening_Phase)
      \<and> (wr_wantsOpen w \<longrightarrow> wr_phase w \<in> {Entry, Unlock_Phase})
      \<and> (wr_output w \<noteq> None \<longleftrightarrow> wr_phase w = Decrypted_Phase)
      \<and> length (wr_posts w) + (if wr_wantsOpen w then 1 else 0) \<le> wr_taps w)"

lemma gate_ok:
  assumes "web_reader_ok w"
  shows "web_reader_ok (gate_effect w)"
  using assms by (cases "wr_pending w") (auto simp: web_reader_ok_def gate_effect_def runOpen_def split: identity_report.splits option.splits)

lemma retry_ok:
  assumes "web_reader_ok w" "wr_phase w = Terminal WNetwork"
  shows "web_reader_ok (handleRetry (w\<lparr>wr_taps := Suc (wr_taps w)\<rparr>))"
  using assms by (auto simp: web_reader_ok_def handleRetry_def runOpen_def split: option.splits)

lemma rendered_phase:
  "web_reader_rendered w = Landing_Screen i \<longleftrightarrow> wr_phase w = Entry \<and> wr_linkId w = Some i"
  "web_reader_rendered w = Network_Screen \<longleftrightarrow> wr_phase w = Terminal WNetwork"
  "web_reader_rendered w = Secure_Reader out \<longleftrightarrow> wr_phase w = Decrypted_Phase \<and> wr_output w = Some out"
  "web_reader_rendered w = Closed_Status \<longleftrightarrow> wr_phase w = Closed_Phase"
  by (auto simp: web_reader_rendered_def split: reader_phase.splits option.splits web_reader_outcome.splits)

lemma ended_ok:
  assumes "web_reader_ok w" "n < length (wr_pending w)"
  shows "web_reader_ok (open_ended n r w)"
proof -
  have "n = 0" "take n (wr_pending w) @ drop (Suc n) (wr_pending w) = []" using assms by (auto simp: web_reader_ok_def)
  then show ?thesis using assms by (auto simp: web_reader_ok_def open_ended_def Let_def split: sum.splits)
qed

lemma close_ok:
  assumes "web_reader_ok w" "wr_phase w \<noteq> Opening_Phase" "wr_phase w \<notin> {Entry, Unlock_Phase}"
  shows "web_reader_ok (handleClose w)"
  using assms by (auto simp: web_reader_ok_def handleClose_def)

lemma web_step_ok:
  assumes "web_reader_ok w"
  shows "web_reader_ok (web_reader_step S parse e w)"
proof (cases e)
  case (Url p q)
  then show ?thesis using assms by (auto simp: web_reader_ok_def resolve_effect_def split: option.splits)
next
  case (Identity_Report st ks)
  have "web_reader_ok (w\<lparr>wr_report := st, wr_keys := ks\<rparr>)" using assms by (simp add: web_reader_ok_def)
  then show ?thesis using gate_ok Identity_Report by simp
next
  case Open_Tap
  show ?thesis
  proof (cases "wr_phase w = Entry")
    case True
    then have "web_reader_ok (w\<lparr>wr_taps := Suc (wr_taps w), wr_wantsOpen := True\<rparr>)" using assms by (auto simp: web_reader_ok_def split: if_splits)
    then show ?thesis using gate_ok Open_Tap assms by (auto simp: handleWantOpen_def split: web_screen.splits)
  qed (use Open_Tap assms rendered_phase(1) in \<open>auto split: web_screen.splits\<close>)
next
  case Retry_Tap
  then show ?thesis using assms retry_ok rendered_phase(2) by auto
next
  case Close_Tap
  then show ?thesis using assms close_ok [OF assms]
    by (auto simp: web_reader_rendered_def split: reader_phase.splits option.splits web_reader_outcome.splits)
next
  case (Open_Ends n env)
  then show ?thesis using assms ended_ok [OF assms] by simp
qed

lemma web_run_ok: "web_reader_ok w \<Longrightarrow> web_reader_ok (fold (web_reader_step S parse) es w)"
  by (induction es arbitrary: w) (simp_all add: web_step_ok)

lemma web_mount_ok: "web_reader_ok web_reader_mount"
  by (simp add: web_reader_ok_def web_reader_mount_def)

text \<open>What the page's address names, and what the identity context reports, after a history.\<close>

fun address_after :: "('pub, 'priv) web_reader_event \<Rightarrow> string option \<Rightarrow> string option" where
  "address_after (Url p q) l =
     (case readLinkId p (if q = [] then [] else CHR ''?'' # q) of Some i \<Rightarrow> Some i | None \<Rightarrow> l)"
| "address_after _ l = l"

fun identity_after :: "('pub, 'priv) web_reader_event \<Rightarrow> identity_report \<times> ('pub, 'priv) identity_impl list option
    \<Rightarrow> identity_report \<times> ('pub, 'priv) identity_impl list option" where
  "identity_after (Identity_Report st ks) r = (st, ks)"
| "identity_after _ r = r"

definition page_link :: "('pub, 'priv) web_reader_event list \<Rightarrow> string option" where
  "page_link es = fold address_after es None"

definition page_identity :: "('pub, 'priv) web_reader_event list \<Rightarrow> identity_report \<times> ('pub, 'priv) identity_impl list option" where
  "page_identity es = fold identity_after es (Id_Loading, None)"

lemma run_open_keeps [simp]:
  "wr_linkId (runOpen w) = wr_linkId w" "wr_report (runOpen w) = wr_report w" "wr_keys (runOpen w) = wr_keys w"
  "wr_linkId (gate_effect w) = wr_linkId w" "wr_report (gate_effect w) = wr_report w" "wr_keys (gate_effect w) = wr_keys w"
  by (auto simp: runOpen_def gate_effect_def split: option.splits identity_report.splits)

lemma step_tracks:
  "wr_linkId (web_reader_step S parse e w) = address_after e (wr_linkId w)"
  "(wr_report (web_reader_step S parse e w), wr_keys (web_reader_step S parse e w)) = identity_after e (wr_report w, wr_keys w)"
  by (cases e; simp add: resolve_effect_def handleWantOpen_def handleRetry_def handleClose_def open_ended_def Let_def
      split: option.splits web_screen.splits sum.splits)+

lemma run_tracks:
  "wr_linkId (fold (web_reader_step S parse) es web_reader_mount) = page_link es"
  "(wr_report (fold (web_reader_step S parse) es web_reader_mount), wr_keys (fold (web_reader_step S parse) es web_reader_mount))
     = page_identity es"
proof (induction es rule: rev_induct)
  case (snoc e es)
  {
    case 1
    show ?case using snoc(1) by (simp add: page_link_def step_tracks)
  next
    case 2
    show ?case using snoc(2) by (simp add: page_identity_def step_tracks)
  }
qed (simp_all add: page_link_def page_identity_def web_reader_mount_def)

text \<open>A request goes out for the link and the keys the component holds, and off the retry button only when unlocked.\<close>

definition requests :: "('pub, 'priv) web_reader \<Rightarrow> ('pub, 'priv) web_reader \<Rightarrow> bool" where
  "requests w w' = (\<exists>i ks. wr_posts w' = wr_posts w @ [(i, ks)] \<and> wr_linkId w' = Some i \<and> wr_keys w' = Some ks)"

lemma runOpen_requests: "wr_posts (runOpen w) = wr_posts w \<or> requests w (runOpen w)"
  by (auto simp: runOpen_def requests_def split: option.splits)

lemma gate_requests:
  "wr_posts (gate_effect w) = wr_posts w \<or> requests w (gate_effect w)"
  using runOpen_requests [of "w\<lparr>wr_wantsOpen := False\<rparr>"]
  by (auto simp: gate_effect_def requests_def split: identity_report.splits)

lemma step_requests:
  "wr_posts (web_reader_step S parse e w) = wr_posts w \<or> requests w (web_reader_step S parse e w)"
proof (cases e)
  case (Identity_Report st ks)
  then show ?thesis using gate_requests [of "w\<lparr>wr_report := st, wr_keys := ks\<rparr>"] by (simp add: requests_def)
next
  case Open_Tap
  then show ?thesis using gate_requests [of "w\<lparr>wr_taps := Suc (wr_taps w), wr_wantsOpen := True\<rparr>"]
    by (auto simp: requests_def handleWantOpen_def split: web_screen.splits)
next
  case Retry_Tap
  then show ?thesis using runOpen_requests [of "w\<lparr>wr_taps := Suc (wr_taps w)\<rparr>"]
    by (auto simp: requests_def handleRetry_def)
qed (auto simp: resolve_effect_def handleClose_def open_ended_def Let_def split: option.splits web_screen.splits sum.splits)

text \<open>The contract of the identity context: it hands out keys only while it is unlocked.\<close>

definition keys_unlocked :: "('pub, 'priv) web_reader_event list \<Rightarrow> bool" where
  "keys_unlocked es = (\<forall>st ks. Identity_Report st (Some ks) \<in> set es \<longrightarrow> st = Id_Unlocked)"

lemma page_identity_unlocked:
  assumes "keys_unlocked es" "page_identity es = (st, Some ks)"
  shows "st = Id_Unlocked"
proof -
  have "page_identity es = (Id_Loading, None) \<or> (\<exists>st ks. page_identity es = (st, ks) \<and> Identity_Report st ks \<in> set es)"
  proof (induction es rule: rev_induct)
    case (snoc e es)
    then show ?case by (cases e) (auto simp: page_identity_def)
  qed (simp add: page_identity_def)
  then show ?thesis using assms by (auto simp: keys_unlocked_def)
qed

text \<open>
  C14: one tap, one open, and only for the link of the page's address with unlocked keys. However the address, the
  identity and the network change, at most one call is under way, no more opens are requested than "Open message" and
  "Retry" were tapped, and text is held exactly while the reader shows it. Whatever happens next, either nothing is
  requested or one open is: for the link that the address named last, with the keys of the latest report of the
  identity context, which is unlocked then (given that the context reports keys only while it is).
\<close>

theorem web_one_open_per_tap:
  fixes es :: "('pub, 'priv) web_reader_event list"
  assumes "keys_unlocked (es @ [e])"
  shows "let w = fold (web_reader_step S parse) es web_reader_mount; w' = web_reader_step S parse e w
   in length (wr_pending w) \<le> 1 \<and> length (wr_posts w) \<le> wr_taps w \<and> (wr_output w = None \<longleftrightarrow> wr_phase w \<noteq> Decrypted_Phase)
      \<and> (wr_posts w' = wr_posts w \<or>
         (\<exists>i ks. wr_posts w' = wr_posts w @ [(i, ks)] \<and> page_link (es @ [e]) = Some i
            \<and> page_identity (es @ [e]) = (Id_Unlocked, Some ks)))"
proof -
  define w where "w = fold (web_reader_step S parse) es (web_reader_mount :: ('pub, 'priv) web_reader)"
  define w' where "w' = web_reader_step S parse e w"
  have w': "w' = fold (web_reader_step S parse) (es @ [e]) web_reader_mount" by (simp add: w'_def w_def)
  have "web_reader_ok w" unfolding w_def by (rule web_run_ok [OF web_mount_ok])
  moreover have "page_link (es @ [e]) = Some i \<and> page_identity (es @ [e]) = (Id_Unlocked, Some ks)"
    if "wr_linkId w' = Some i" "wr_keys w' = Some ks" for i ks
    using run_tracks [of S parse "es @ [e]", folded w'] that page_identity_unlocked [OF assms, of "wr_report w'" ks] by auto
  then have "wr_posts w' = wr_posts w \<or> (\<exists>i ks. wr_posts w' = wr_posts w @ [(i, ks)] \<and> page_link (es @ [e]) = Some i
      \<and> page_identity (es @ [e]) = (Id_Unlocked, Some ks))"
    using step_requests [of S parse e w, folded w'_def] by (auto simp: requests_def)
  ultimately show ?thesis
    unfolding Let_def w_def [symmetric] w'_def [symmetric] by (auto simp: web_reader_ok_def split: if_splits)
qed

theorem web_one_open_per_tap_witness:
  "let w = fold (web_reader_step toy_suite (\<lambda>t. None)) [Url ''/l/AAAAAAAAAAAAAAAA'' [], Identity_Report Id_Locked None, Open_Tap] web_reader_mount;
     w' = web_reader_step toy_suite (\<lambda>t. None) (Identity_Report Id_Unlocked (Some [])) w
   in wr_posts w = [] \<and> wr_posts w' = [(''AAAAAAAAAAAAAAAA'', [])] \<and> length (wr_posts w') \<le> wr_taps w'"
proof -
  let ?es = "[Url ''/l/AAAAAAAAAAAAAAAA'' [], Identity_Report Id_Locked None, Open_Tap]"
  have "LINK_ID_REGEX ''AAAAAAAAAAAAAAAA''" by (simp add: LINK_ID_REGEX_def alnum_def char_in_def)
  from path_matches [OF this, of "[]"] have id: "readLinkId ''/l/AAAAAAAAAAAAAAAA'' [] = Some ''AAAAAAAAAAAAAAAA''" by (simp add: readLinkId_def)
  have "keys_unlocked (?es @ [Identity_Report Id_Unlocked (Some [])])" by (auto simp: keys_unlocked_def)
  from web_one_open_per_tap [OF this, of toy_suite "\<lambda>t. None"] id show ?thesis
    by (simp add: Let_def page_link_def page_identity_def)
      (simp add: resolve_effect_def web_reader_mount_def gate_effect_def web_reader_rendered_def handleWantOpen_def runOpen_def)
qed

text \<open>
  The tap is remembered over the unlock. A tap on "Open message" with a locked identity shows the passphrase prompt and
  requests nothing; once the identity is reported unlocked, the open of that link goes out with its keys, without a
  second tap.
\<close>

theorem unlock_continues:
  assumes "web_reader_ok w" "web_reader_rendered w = Landing_Screen i" "wr_report w = Id_Locked"
  shows "let w1 = web_reader_step S parse Open_Tap w; w2 = web_reader_step S parse (Identity_Report Id_Unlocked (Some ks)) w1
    in web_reader_rendered w1 = Inline_Unlock \<and> wr_posts w1 = wr_posts w
       \<and> web_reader_rendered w2 = Decrypting_Status \<and> wr_pending w2 = [(i, ks)] \<and> wr_posts w2 = wr_posts w @ [(i, ks)]"
proof -
  have "wr_phase w = Entry" "wr_linkId w = Some i" "wr_pending w = []" "\<not> wr_inFlight w"
    using assms(1,2) by (auto simp: rendered_phase web_reader_ok_def)
  then show ?thesis using assms(2,3)
    by (simp add: handleWantOpen_def gate_effect_def runOpen_def web_reader_rendered_def Let_def)
qed

theorem unlock_continues_witness:
  "wr_pending (fold (web_reader_step toy_suite (\<lambda>t. None)) [Url ''/l/AAAAAAAAAAAAAAAA'' [], Identity_Report Id_Locked None, Open_Tap,
     Identity_Report Id_Unlocked (Some [])] web_reader_mount) = [(''AAAAAAAAAAAAAAAA'', [])]"
proof -
  let ?w = "fold (web_reader_step toy_suite (\<lambda>t. None)) [Url ''/l/AAAAAAAAAAAAAAAA'' [], Identity_Report Id_Locked None] web_reader_mount"
  have "LINK_ID_REGEX ''AAAAAAAAAAAAAAAA''" by (simp add: LINK_ID_REGEX_def alnum_def char_in_def)
  from path_matches [OF this, of "[]"] have "readLinkId ''/l/AAAAAAAAAAAAAAAA'' [] = Some ''AAAAAAAAAAAAAAAA''" by (simp add: readLinkId_def)
  then have "web_reader_rendered ?w = Landing_Screen ''AAAAAAAAAAAAAAAA''" "wr_report ?w = Id_Locked"
    by (simp_all add: resolve_effect_def web_reader_mount_def gate_effect_def web_reader_rendered_def)
  from unlock_continues [OF web_run_ok [OF web_mount_ok] this, of toy_suite "\<lambda>t. None" "[]"] show ?thesis by (simp add: Let_def)
qed

text \<open>A closed page stays closed.\<close>

lemma closed_stays:
  assumes "web_reader_ok w" "wr_phase w = Closed_Phase"
  shows "wr_phase (fold (web_reader_step S parse) es w) = Closed_Phase \<and> wr_posts (fold (web_reader_step S parse) es w) = wr_posts w"
  using assms
proof (induction es arbitrary: w)
  case (Cons e es)
  have "wr_phase (web_reader_step S parse e w) = Closed_Phase \<and> wr_posts (web_reader_step S parse e w) = wr_posts w"
    using Cons.prems by (cases e) (auto simp: web_reader_ok_def resolve_effect_def gate_effect_def web_reader_rendered_def split: option.splits)
  then show ?case using Cons.IH [OF web_step_ok [OF Cons.prems(1)]] by simp
qed simp

section \<open>Downloads and the clipboard\<close>

lemma urls_revoked:
  assumes "set urls \<inter> set alive = {}"
  shows "dl_live (revokeAllObjectUrls (fold handleDownload urls \<lparr>dl_live = alive, dl_tracked = []\<rparr>)) = alive"
proof -
  have down: "fold handleDownload urls d = d\<lparr>dl_live := dl_live d @ urls, dl_tracked := dl_tracked d @ urls\<rparr>" for d
    by (induction urls arbitrary: d) (simp_all add: handleDownload_def)
  have revoke: "fold (\<lambda>url alive. filter (\<lambda>u. u \<noteq> url) alive) us xs = filter (\<lambda>u. u \<notin> set us) xs" for us xs :: "string list"
    by (induction us arbitrary: xs) (auto simp: filter_filter intro: filter_cong)
  have "filter (\<lambda>u. u \<notin> set urls) alive = alive" "filter (\<lambda>u. u \<notin> set urls) urls = []" using assms by (auto simp: filter_id_conv)
  then show ?thesis by (simp add: revokeAllObjectUrls_def down revoke)
qed

lemma never_clobbers: "wc_text (clear_fires readable writable c) \<noteq> wc_text c \<Longrightarrow> \<exists>due. wc_timer c = Some (due, wc_text c)"
  by (auto simp: clear_fires_def Let_def split: option.splits if_splits)

text \<open>
  Leaving keeps the copy. The clipboard is cleared only if the reader stays open: in both clients leaving it cancels the
  timer, so a text whose copy was answered with the promise to clear it stays in the clipboard however long one waits.
\<close>

theorem leaving_keeps_copy:
  assumes "web_copy api delayMs now t c = (Copied, c')"
  shows "wc_text (clear_fires readable writable (reader_unmounts c')) = t \<and> wc_timer (reader_unmounts c') = None
    \<and> clip_fire (clip_cancel (clip_schedule ms now f clip)) = (None, None)"
  using assms by (auto simp: web_copy_def clear_fires_def reader_unmounts_def clip_fire_def clip_cancel_def Let_def split: if_splits)

theorem leaving_keeps_copy_witness:
  "wc_text (clear_fires True True (reader_unmounts (snd (web_copy \<lparr>ca_writeText = True, ca_readText = True, ca_write_allowed = True\<rparr> 45000 0
     [0x61] \<lparr>wc_text = [], wc_timer = None\<rparr>)))) = [0x61]"
proof -
  let ?api = "\<lparr>ca_writeText = True, ca_readText = True, ca_write_allowed = True\<rparr>" and ?c = "\<lparr>wc_text = [], wc_timer = None\<rparr> :: web_clipboard"
  have "web_copy ?api 45000 0 [0x61] ?c = (Copied, snd (web_copy ?api 45000 0 [0x61] ?c))" by (simp add: web_copy_def)
  then show ?thesis by (rule leaving_keeps_copy [THEN conjunct1])
qed

end
