(* ===== verification/Store_Ops.thy ===== *)
theory Store_Ops
  imports Sent_Links Link_Spec
begin

text \<open>
  Operating the stores, packages/server-store/src: the migrations (migrate.ts), the caches of Postgres pools and Redis
  clients (pg/pool.ts, redis/client.ts) and the operator's purge (admin/purge.ts, admin/purge-cli.ts). The effect of a
  migration's SQL on the schema is an argument; Postgres runs a transaction as a whole or not at all, and gives up the
  advisory lock of a connection that ends.
\<close>

section \<open>Migrations\<close>

text \<open>The database: the rows of \<open>_migrations\<close> in the order of their insertion (None: no such table), the schema, the lock's holder.\<close>

record 's mig_db =
  md_rows :: "string list option"
  md_schema :: 's
  md_lock :: "nat option"

definition utf16_order :: "string \<Rightarrow> string \<Rightarrow> int" where
  "utf16_order a b = (if string_less a b then -1 else if string_less b a then 1 else 0)"

definition sql_files :: "string list \<Rightarrow> string list" where
  "sql_files allFiles = sort_by utf16_order (filter (ends_with ''.sql'') allFiles)"

text \<open>A run of the migrations, between two awaits on the database.\<close>

datatype runner =
    Mig_Waiting
  | Mig_Running "string list" "string list"
  | Mig_Done "string list"
  | Mig_Failed

definition mig_begin :: "nat \<Rightarrow> string list \<Rightarrow> 's mig_db \<Rightarrow> runner \<times> 's mig_db" where
  "mig_begin me allFiles db =
     (let db1 = db\<lparr>md_lock := Some me, md_rows := Some (case md_rows db of None \<Rightarrow> [] | Some rs \<Rightarrow> rs)\<rparr>;
          alreadyApplied = the (md_rows db1)
      in (Mig_Running (filter (\<lambda>file. file \<notin> set alreadyApplied) (sql_files allFiles)) [], db1))"

text \<open>
  One turn of the loop: the transaction applies the file and records it, or is rolled back. The primary key rejects a
  file that is recorded already.
\<close>

definition mig_apply :: "(string \<Rightarrow> 's \<Rightarrow> 's option) \<Rightarrow> string \<Rightarrow> 's mig_db \<Rightarrow> 's mig_db option" where
  "mig_apply run file db =
     (case run file (md_schema db) of
        None \<Rightarrow> None
      | Some schema \<Rightarrow>
          (case md_rows db of
             None \<Rightarrow> None
           | Some rs \<Rightarrow> if file \<in> set rs then None else Some (db\<lparr>md_schema := schema, md_rows := Some (rs @ [file])\<rparr>)))"

definition mig_release :: "'s mig_db \<Rightarrow> 's mig_db" where
  "mig_release db = db\<lparr>md_lock := None\<rparr>"

definition mig_turn :: "(string \<Rightarrow> 's \<Rightarrow> 's option) \<Rightarrow> (string \<Rightarrow> bool) \<Rightarrow> runner \<Rightarrow> 's mig_db \<Rightarrow> runner \<times> 's mig_db" where
  "mig_turn run readable r db =
     (case r of
        Mig_Running [] newlyApplied \<Rightarrow> (Mig_Done newlyApplied, mig_release db)
      | Mig_Running (file # rest) newlyApplied \<Rightarrow>
          (if \<not> readable file then (Mig_Failed, mig_release db)
           else case mig_apply run file db of
                  None \<Rightarrow> (Mig_Failed, mig_release db)
                | Some db' \<Rightarrow> (Mig_Running rest (newlyApplied @ [file]), db'))
      | _ \<Rightarrow> (r, db))"

text \<open>The whole run, when nobody else holds the lock: None when it throws.\<close>

fun mig_loop :: "(string \<Rightarrow> 's \<Rightarrow> 's option) \<Rightarrow> (string \<Rightarrow> bool) \<Rightarrow> string list \<Rightarrow> string list \<Rightarrow> 's mig_db \<Rightarrow> string list option \<times> 's mig_db" where
  "mig_loop run readable [] applied db = (Some applied, mig_release db)"
| "mig_loop run readable (file # rest) applied db =
     (if \<not> readable file then (None, mig_release db)
      else case mig_apply run file db of
             None \<Rightarrow> (None, mig_release db)
           | Some db' \<Rightarrow> mig_loop run readable rest (applied @ [file]) db')"

definition runMigrations :: "(string \<Rightarrow> 's \<Rightarrow> 's option) \<Rightarrow> (string \<Rightarrow> bool) \<Rightarrow> string list \<Rightarrow> 's mig_db \<Rightarrow> string list option \<times> 's mig_db" where
  "runMigrations run readable allFiles db =
     (case mig_begin 0 allFiles db of
        (Mig_Running todo applied, db1) \<Rightarrow> mig_loop run readable todo applied db1
      | (_, db1) \<Rightarrow> (None, db1))"

text \<open>
  Several processes migrate one database, each with its own files and its own luck. One starts only when the lock is
  free; one that dies loses its connection, and with it the lock.
\<close>

inductive mig_run :: "'s \<Rightarrow> (string \<Rightarrow> 's \<Rightarrow> 's option) \<Rightarrow> (nat \<Rightarrow> runner) \<Rightarrow> 's mig_db \<Rightarrow> bool" for s0 run where
  mig_fresh: "mig_run s0 run (\<lambda>_. Mig_Waiting) \<lparr>md_rows = None, md_schema = s0, md_lock = None\<rparr>"
| mig_starts: "mig_run s0 run rs db \<Longrightarrow> rs me = Mig_Waiting \<Longrightarrow> md_lock db = None \<Longrightarrow> distinct allFiles \<Longrightarrow> mig_begin me allFiles db = (r, db') \<Longrightarrow>
     mig_run s0 run (rs(me := r)) db'"
| mig_goes_on: "mig_run s0 run rs db \<Longrightarrow> mig_turn run readable (rs me) db = (r, db') \<Longrightarrow> mig_run s0 run (rs(me := r)) db'"
| mig_dies: "mig_run s0 run rs db \<Longrightarrow> rs me = Mig_Running todo applied \<Longrightarrow> mig_run s0 run (rs(me := Mig_Failed)) (mig_release db)"
| mig_again: "mig_run s0 run rs db \<Longrightarrow> rs me = Mig_Failed \<or> (\<exists>applied. rs me = Mig_Done applied) \<Longrightarrow> mig_run s0 run (rs(me := Mig_Waiting)) db"

section \<open>Caches of connections\<close>

text \<open>The cached clients by URL, and all that were made: a client is its number, closed ones are listed.\<close>

record conn_cache =
  cc_clients :: "(string, nat) js_map"
  cc_made :: nat
  cc_closed :: "nat list"

definition no_clients :: conn_cache where
  "no_clients = \<lparr>cc_clients = [], cc_made = 0, cc_closed = []\<rparr>"

definition url_or_env :: "string option \<Rightarrow> string option \<Rightarrow> string option" where
  "url_or_env given env = (case (case given of Some u \<Rightarrow> Some u | None \<Rightarrow> env) of Some u \<Rightarrow> if u = [] then None else Some u | None \<Rightarrow> None)"

definition get_cached :: "string option \<Rightarrow> string option \<Rightarrow> conn_cache \<Rightarrow> nat option \<times> conn_cache" where
  "get_cached given env c =
     (case url_or_env given env of
        None \<Rightarrow> (None, c)
      | Some url \<Rightarrow>
          (case map_get (cc_clients c) url of
             Some n \<Rightarrow> (Some n, c)
           | None \<Rightarrow> (Some (cc_made c), c\<lparr>cc_made := Suc (cc_made c), cc_clients := map_set url (cc_made c) (cc_clients c)\<rparr>)))"

definition close_cached :: "string option \<Rightarrow> conn_cache \<Rightarrow> conn_cache" where
  "close_cached given c =
     (case given of
        None \<Rightarrow> c\<lparr>cc_clients := [], cc_closed := cc_closed c @ map snd (cc_clients c)\<rparr>
      | Some url \<Rightarrow>
          (case map_get (cc_clients c) url of
             None \<Rightarrow> c
           | Some n \<Rightarrow> c\<lparr>cc_clients := map_del url (cc_clients c), cc_closed := cc_closed c @ [n]\<rparr>))"

definition getPool :: "string option \<Rightarrow> string option \<Rightarrow> conn_cache \<Rightarrow> nat option \<times> conn_cache" where
  "getPool connectionString env_DATABASE_URL c = get_cached connectionString env_DATABASE_URL c"

definition closePool :: "string option \<Rightarrow> conn_cache \<Rightarrow> conn_cache" where
  "closePool connectionString c = close_cached connectionString c"

definition getRedis :: "string option \<Rightarrow> string option \<Rightarrow> conn_cache \<Rightarrow> nat option \<times> conn_cache" where
  "getRedis connectionString env_REDIS_URL c = get_cached connectionString env_REDIS_URL c"

definition closeRedis :: "string option \<Rightarrow> conn_cache \<Rightarrow> conn_cache" where
  "closeRedis connectionString c = close_cached connectionString c"

datatype conn_op = Get_Conn "string option" "string option" | Close_Conn "string option"

fun conn_step :: "conn_op \<Rightarrow> conn_cache \<Rightarrow> conn_cache" where
  "conn_step (Get_Conn given env) c = snd (get_cached given env c)"
| "conn_step (Close_Conn given) c = close_cached given c"

section \<open>The operator's purge\<close>

definition purgeLink :: "'s link_ops \<Rightarrow> int \<Rightarrow> string \<Rightarrow> 's \<Rightarrow> purge_result option \<times> 's" where
  "purgeLink ops now i s =
     (let trimmed = js_trim i in
      if length trimmed = 0 then (None, s)
      else case adminPurge ops now trimmed s of (r, s') \<Rightarrow> (Some r, s'))"

text \<open>The exit code of the command, and the store; \<open>argv\<close> is its argument.\<close>

definition purge_main :: "'s link_ops \<Rightarrow> int \<Rightarrow> string option \<Rightarrow> 's \<Rightarrow> nat \<times> 's" where
  "purge_main ops now argv s =
     (case argv of
        None \<Rightarrow> (2, s)
      | Some i \<Rightarrow>
          if i = [] \<or> length (js_trim i) = 0 then (2, s)
          else case purgeLink ops now i s of (None, s') \<Rightarrow> (1, s') | (Some r, s') \<Rightarrow> (0, s'))"

end
