(* ===== verification/Store_Ops_Laws.thy ===== *)
theory Store_Ops_Laws
  imports Store_Ops
begin

text \<open>
  Migrations are applied once each, in one process at a time, and a failed run is made good by the next; a closed
  connection is never handed out.
\<close>

section \<open>Migrations\<close>

fun apply_all :: "(string \<Rightarrow> 's \<Rightarrow> 's option) \<Rightarrow> string list \<Rightarrow> 's \<Rightarrow> 's option" where
  "apply_all run [] s = Some s"
| "apply_all run (f # fs) s = Option.bind (run f s) (apply_all run fs)"

lemma apply_all_snoc: "apply_all run (fs @ [f]) s = Option.bind (apply_all run fs s) (run f)"
  by (induction fs arbitrary: s) (auto split: bind_splits)

lemma distinct_sort_by: "distinct xs \<Longrightarrow> distinct (sort_by cmp xs)"
proof -
  have "set (insert_by cmp x ys) = insert x (set ys)" "x \<notin> set ys \<Longrightarrow> distinct ys \<Longrightarrow> distinct (insert_by cmp x ys)" for x and ys :: "'a list"
    by (induction ys) auto
  then show "distinct xs \<Longrightarrow> distinct (sort_by cmp xs)"
    by (induction xs) (auto simp: sort_by_def, metis set_sort_by sort_by_def)
qed

lemma distinct_sql_files: "distinct fs \<Longrightarrow> distinct (sql_files fs)"
  by (simp add: sql_files_def distinct_sort_by)

definition mig_db_ok :: "'s \<Rightarrow> (string \<Rightarrow> 's \<Rightarrow> 's option) \<Rightarrow> 's mig_db \<Rightarrow> bool" where
  "mig_db_ok s0 run db =
     (case md_rows db of None \<Rightarrow> md_schema db = s0 | Some rows \<Rightarrow> distinct rows \<and> apply_all run rows s0 = Some (md_schema db))"

definition runner_ok :: "'s mig_db \<Rightarrow> nat \<Rightarrow> runner \<Rightarrow> bool" where
  "runner_ok db me r =
     (case r of
        Mig_Running todo applied \<Rightarrow>
          md_lock db = Some me \<and> distinct todo \<and> (\<exists>rows. md_rows db = Some rows \<and> set todo \<inter> set rows = {} \<and> set applied \<subseteq> set rows)
      | _ \<Rightarrow> True)"

lemma apply_ok:
  assumes "mig_db_ok s0 run db" "mig_apply run f db = Some db'"
  shows "mig_db_ok s0 run db'" "md_lock db' = md_lock db" "\<exists>rows. md_rows db = Some rows \<and> md_rows db' = Some (rows @ [f])"
  using assms by (auto simp: mig_apply_def mig_db_ok_def apply_all_snoc split: option.splits if_splits)

lemma others_wait: "runner_ok db other r \<Longrightarrow> md_lock db = Some me \<Longrightarrow> other \<noteq> me \<Longrightarrow> runner_ok db' other r"
  by (auto simp: runner_ok_def split: runner.splits)

lemma turn_ok:
  assumes "mig_db_ok s0 run db" "\<forall>other. runner_ok db other (rs other)" "mig_turn run readable (rs me) db = (r, db')"
  shows "mig_db_ok s0 run db' \<and> (\<forall>other. runner_ok db' other ((rs(me := r)) other))"
proof (cases "rs me")
  case (Mig_Running todo applied)
  then have own: "md_lock db = Some me" "distinct todo" "\<exists>rows. md_rows db = Some rows \<and> set todo \<inter> set rows = {} \<and> set applied \<subseteq> set rows"
    using assms(2) [rule_format, of me] by (auto simp: runner_ok_def)
  have "mig_db_ok s0 run db' \<and> runner_ok db' me r"
    using Mig_Running assms(1,3) own apply_ok [OF assms(1)]
    by (cases todo) (fastforce simp: mig_turn_def runner_ok_def mig_release_def mig_db_ok_def split: if_splits option.splits)+
  then show ?thesis using others_wait [OF _ own(1)] assms(2) by auto
qed (use assms in \<open>auto simp: mig_turn_def runner_ok_def\<close>)

text \<open>
  C20: migrations are applied once. However many processes migrate the same database, die, fail and try again, with whatever
  files they have, every migration recorded was applied exactly once, in the order recorded, and the schema is their
  result; at most one process migrates at a time, and what it still has to apply is not recorded yet.
\<close>

theorem migrations_applied_once:
  assumes "mig_run s0 run rs db"
  shows "(case md_rows db of None \<Rightarrow> md_schema db = s0 | Some rows \<Rightarrow> distinct rows \<and> apply_all run rows s0 = Some (md_schema db))
    \<and> (\<forall>me todo applied. rs me = Mig_Running todo applied \<longrightarrow>
         md_lock db = Some me \<and> (\<exists>rows. md_rows db = Some rows \<and> set todo \<inter> set rows = {} \<and> set applied \<subseteq> set rows))"
proof -
  have "mig_db_ok s0 run db \<and> (\<forall>other. runner_ok db other (rs other))" using assms
  proof (induction rule: mig_run.induct)
    case mig_fresh
    then show ?case by (simp add: mig_db_ok_def runner_ok_def)
  next
    case (mig_starts rs db me allFiles r db')
    have "distinct (sql_files allFiles)" using mig_starts.hyps(4) by (rule distinct_sql_files)
    then have "mig_db_ok s0 run db' \<and> runner_ok db' me r"
      using mig_starts by (auto simp: mig_begin_def mig_db_ok_def runner_ok_def Let_def split: option.splits)
    moreover have "runner_ok db' other (rs other)" for other
      using mig_starts.IH mig_starts.hyps(3) by (auto simp: runner_ok_def split: runner.splits)
    ultimately show ?case by auto
  next
    case (mig_goes_on rs db readable me r db')
    then show ?case using turn_ok [of s0 run db rs readable me r db'] by simp
  next
    case (mig_dies rs db me todo applied)
    then have own: "md_lock db = Some me" by (auto simp: runner_ok_def split: runner.splits dest: spec [of _ me])
    have "mig_db_ok s0 run (mig_release db)" using mig_dies.IH by (cases db) (auto simp: mig_db_ok_def mig_release_def split: option.splits)
    then show ?case using mig_dies.IH others_wait [OF _ own] by (auto simp: runner_ok_def)
  next
    case (mig_again rs db me)
    then show ?case by (auto simp: runner_ok_def)
  qed
  then show ?thesis by (fastforce simp: mig_db_ok_def runner_ok_def split: runner.splits)
qed

theorem migrations_applied_once_witness:
  "md_rows (mig_release \<lparr>md_rows = Some [], md_schema = (5 :: nat), md_lock = Some 7\<rparr>) = Some [] \<and>
   distinct (the (md_rows (mig_release \<lparr>md_rows = Some [], md_schema = (5 :: nat), md_lock = Some 7\<rparr>)))"
proof -
  let ?start = "\<lparr>md_rows = None, md_schema = (5 :: nat), md_lock = None\<rparr>" and ?mid = "\<lparr>md_rows = Some [], md_schema = (5 :: nat), md_lock = Some 7\<rparr>"
  have "mig_run 5 (\<lambda>f n. Some (n + length f)) ((\<lambda>_. Mig_Waiting)(7 := Mig_Running [''a.sql''] [])) ?mid"
    by (rule mig_starts [OF mig_fresh, where allFiles = "[''a.sql'', ''a.sql.bak'']"])
      (simp_all add: mig_begin_def sql_files_def sort_by_def ends_with_def)
  from migrations_applied_once [OF mig_dies [OF this, of 7 "[''a.sql'']" "[]"]] show ?thesis by (simp add: mig_release_def)
qed

lemma apply_lock: "mig_apply run f (db\<lparr>md_lock := l\<rparr>) = map_option (\<lambda>d. d\<lparr>md_lock := l\<rparr>) (mig_apply run f db)"
  by (cases db) (simp add: mig_apply_def split: option.split)

lemma loop_lock: "mig_loop run readable todo applied (db\<lparr>md_lock := l\<rparr>) = mig_loop run readable todo applied db"
  by (induction todo arbitrary: applied db) (auto simp: mig_release_def apply_lock split: option.splits)

lemma loop_failed:
  assumes "mig_loop run readable todo applied db = (None, db1)"
    "\<And>f s s'. run f s = Some s' \<Longrightarrow> run' f s = Some s'" "\<And>f. readable f \<Longrightarrow> readable' f" "md_rows db = Some rows"
  shows "\<exists>past rest. todo = past @ rest \<and> md_rows db1 = Some (rows @ past) \<and> md_lock db1 = None
    \<and> mig_loop run' readable' todo applied db = mig_loop run' readable' rest (applied @ past) db1"
  using assms(1,4)
proof (induction todo arbitrary: applied db rows)
  case (Cons f todo)
  show ?case
  proof (cases "readable f \<and> mig_apply run f db \<noteq> None")
    case True
    then obtain db' where db': "mig_apply run f db = Some db'" by blast
    then have same: "mig_apply run' f db = Some db'" "md_rows db' = Some (rows @ [f])"
      using assms(2) Cons.prems(2) by (auto simp: mig_apply_def split: option.splits if_splits)
    have "mig_loop run readable todo (applied @ [f]) db' = (None, db1)" using Cons.prems(1) True db' by simp
    from Cons.IH [OF this same(2)] obtain past rest where "todo = past @ rest" "md_rows db1 = Some (rows @ f # past)" "md_lock db1 = None"
      "mig_loop run' readable' todo (applied @ [f]) db' = mig_loop run' readable' rest (applied @ f # past) db1" by auto
    then show ?thesis using True assms(3) same by (intro exI [of _ "f # past"] exI [of _ rest]) auto
  next
    case False
    then have "db1 = mig_release db" using Cons.prems(1) by (auto split: if_splits)
    moreover have "mig_loop run' readable' (f # todo) applied (db\<lparr>md_lock := None\<rparr>) = mig_loop run' readable' (f # todo) applied db"
      by (rule loop_lock)
    ultimately show ?thesis using Cons.prems(2)
      by (intro exI [of _ "[]"] exI [of _ "f # todo"]) (auto simp: mig_release_def simp del: mig_loop.simps)
  qed
qed simp

lemma loop_done:
  assumes "mig_loop run readable todo applied db = (Some all, db1)" "md_rows db = Some rows"
  shows "all = applied @ todo \<and> md_rows db1 = Some (rows @ todo) \<and> md_lock db1 = None"
  using assms
proof (induction todo arbitrary: applied db rows)
  case (Cons f todo)
  then obtain db' where "mig_apply run f db = Some db'" "mig_loop run readable todo (applied @ [f]) db' = (Some all, db1)"
    by (auto split: if_splits option.splits)
  moreover from this(1) have "md_rows db' = Some (rows @ [f])"
    using Cons.prems(2) by (auto simp: mig_apply_def split: option.splits if_splits)
  ultimately show ?case using Cons.IH [of "applied @ [f]" db' "rows @ [f]"] by simp
qed (auto simp: mig_release_def)

lemma run_unfold:
  "runMigrations run readable fs db =
     (let rows = (case md_rows db of None \<Rightarrow> [] | Some rs \<Rightarrow> rs)
      in mig_loop run readable (filter (\<lambda>f. f \<notin> set rows) (sql_files fs)) [] (db\<lparr>md_lock := None, md_rows := Some rows\<rparr>))"
proof -
  have set_lock: "db\<lparr>md_lock := l, md_rows := r\<rparr> = db\<lparr>md_rows := r\<rparr>\<lparr>md_lock := l\<rparr>" for l r by (cases db) simp
  show ?thesis unfolding Let_def set_lock loop_lock by (simp add: runMigrations_def mig_begin_def Let_def set_lock loop_lock)
qed

text \<open>
  A failed run is made good. Whatever made a run fail on the way, a later run that succeeds leaves the database as one
  successful run from the start would have, and applies exactly the migrations that were missing; and running once more
  applies nothing.
\<close>

theorem failed_migration_resumes:
  assumes "runMigrations run readable fs db = (None, db1)" "runMigrations run' readable' fs db1 = (Some applied2, db2)" "distinct fs"
    "\<And>f s s'. run f s = Some s' \<Longrightarrow> run' f s = Some s'" "\<And>f. readable f \<Longrightarrow> readable' f"
  shows "(\<exists>applied1. runMigrations run' readable' fs db = (Some (applied1 @ applied2), db2)) \<and> runMigrations run' readable' fs db2 = (Some [], db2)"
proof -
  define rows where "rows = (case md_rows db of None \<Rightarrow> [] | Some rs \<Rightarrow> rs)"
  let ?todo = "filter (\<lambda>f. f \<notin> set rows) (sql_files fs)" and ?db = "db\<lparr>md_lock := None, md_rows := Some rows\<rparr>"
  have "mig_loop run readable ?todo [] ?db = (None, db1)" using assms(1) by (simp add: run_unfold rows_def Let_def)
  from loop_failed [OF this, of run' readable' rows] assms(4,5) obtain past rest where
    split: "?todo = past @ rest" "md_rows db1 = Some (rows @ past)" "md_lock db1 = None"
      "mig_loop run' readable' ?todo [] ?db = mig_loop run' readable' rest ([] @ past) db1" by (auto simp del: append_Nil)
  have dist: "distinct ?todo" using distinct_sql_files [OF assms(3)] by simp
  have "filter (\<lambda>f. f \<notin> set (rows @ past)) (sql_files fs) = filter (\<lambda>f. f \<notin> set past) ?todo" by (auto simp: filter_filter intro: filter_cong)
  also have "\<dots> = rest" using dist unfolding split(1) by (auto simp: filter_id_conv filter_empty_conv)
  finally have rest: "filter (\<lambda>f. f \<notin> set (rows @ past)) (sql_files fs) = rest" .
  have db1: "db1\<lparr>md_lock := None, md_rows := Some (rows @ past)\<rparr> = db1" using split(2,3) by (cases db1) simp
  have second: "mig_loop run' readable' rest [] db1 = (Some applied2, db2)"
    using assms(2) split(2) rest db1 by (simp add: run_unfold Let_def)
  have more: "fst (mig_loop run' readable' t (a @ b) d) = map_option ((@) a) (fst (mig_loop run' readable' t b d))
      \<and> snd (mig_loop run' readable' t (a @ b) d) = snd (mig_loop run' readable' t b d)" for t a b d
    by (induction t arbitrary: b d) (auto split: option.splits)
  have "mig_loop run' readable' rest (past @ []) db1 = (Some (past @ applied2), db2)"
    using more [of rest past "[]" db1] second by (simp add: prod_eq_iff)
  then have first: "runMigrations run' readable' fs db = (Some (past @ applied2), db2)"
    using split(4) by (simp add: run_unfold rows_def Let_def)
  have "md_rows db2 = Some (rows @ past @ rest)" "md_lock db2 = None" using loop_done [OF second split(2)] by simp_all
  moreover have "set ?todo = set past \<union> set rest" using split(1) by (metis set_append)
  then have "filter (\<lambda>f. f \<notin> set (rows @ past @ rest)) (sql_files fs) = []" by (auto simp: filter_empty_conv)
  ultimately have "runMigrations run' readable' fs db2 = (Some [], mig_release (db2\<lparr>md_lock := None, md_rows := md_rows db2\<rparr>))"
    by (simp add: run_unfold Let_def)
  moreover have "mig_release (db2\<lparr>md_lock := None, md_rows := md_rows db2\<rparr>) = db2" using \<open>md_lock db2 = None\<close> by (cases db2) (simp add: mig_release_def)
  ultimately show ?thesis using first by auto
qed

theorem failed_migration_resumes_witness:
  "runMigrations (\<lambda>f n. Some (n + length f)) (\<lambda>f. True) [''b.sql'', ''a.sql''] \<lparr>md_rows = None, md_schema = (0 :: nat), md_lock = None\<rparr>
    = (Some [''a.sql'', ''b.sql''], \<lparr>md_rows = Some [''a.sql'', ''b.sql''], md_schema = 10, md_lock = None\<rparr>)"
proof -
  let ?run = "\<lambda>f n. Some (n + length f) :: nat option" and ?fs = "[''b.sql'', ''a.sql'']" and ?db = "\<lparr>md_rows = None, md_schema = (0 :: nat), md_lock = None\<rparr>"
  let ?first = "\<lparr>md_rows = Some [''a.sql''], md_schema = (5 :: nat), md_lock = None\<rparr>"
    and ?last = "\<lparr>md_rows = Some [''a.sql'', ''b.sql''], md_schema = (10 :: nat), md_lock = None\<rparr>"
  have "runMigrations (\<lambda>f n. if f = ''b.sql'' then None else Some (n + length f)) (\<lambda>f. True) ?fs ?db = (None, ?first)"
    by code_simp
  moreover have "runMigrations ?run (\<lambda>f. True) ?fs ?first = (Some [''b.sql''], ?last)" by code_simp
  moreover have "distinct ?fs" by simp
  moreover have "(if f = ''b.sql'' then None else Some (n + length f)) = Some n' \<Longrightarrow> ?run f n = Some n'" for f n n'
    by (simp split: if_splits)
  ultimately have "\<exists>applied1. runMigrations ?run (\<lambda>f. True) ?fs ?db = (Some (applied1 @ [''b.sql'']), ?last)"
    by (rule failed_migration_resumes [THEN conjunct1]) simp
  moreover have "fst (runMigrations ?run (\<lambda>f. True) ?fs ?db) = Some [''a.sql'', ''b.sql'']" by code_simp
  ultimately show ?thesis by auto
qed

section \<open>Connections\<close>

definition conn_ok :: "conn_cache \<Rightarrow> bool" where
  "conn_ok c \<longleftrightarrow> map_ok (cc_clients c) \<and> (\<forall>n \<in> set (cc_closed c). n < cc_made c)
     \<and> (\<forall>u n. map_get (cc_clients c) u = Some n \<longrightarrow> n < cc_made c \<and> n \<notin> set (cc_closed c) \<and> (\<forall>v. map_get (cc_clients c) v = Some n \<longrightarrow> v = u))"

lemma conn_step_ok: assumes ok: "conn_ok c" shows "conn_ok (conn_step op c)"
proof (cases op)
  case (Get_Conn given env)
  from ok show ?thesis using Get_Conn
    by (cases "url_or_env given env"; cases "map_get (cc_clients c) (the (url_or_env given env))")
      (fastforce simp: conn_ok_def get_cached_def less_Suc_eq)+
next
  case (Close_Conn given)
  have "n \<in> snd ` set (cc_clients c) \<Longrightarrow> n < cc_made c" for n
    using ok by (auto simp: conn_ok_def)
  then show ?thesis using ok Close_Conn
    by (cases given) (auto simp: conn_ok_def close_cached_def simp del: map_of_eq_Some_iff split: option.split)
qed

lemma conn_run_ok: "conn_ok c \<Longrightarrow> conn_ok (fold conn_step ops c)"
  by (induction ops arbitrary: c) (auto simp: conn_step_ok)

lemma no_clients_ok: "conn_ok no_clients"
  by (simp add: conn_ok_def no_clients_def)

text \<open>
  A closed client is never handed out. Whatever was requested and closed before, the client of a URL is open, it is the
  one that the next request for the URL gets, no other URL gets it, and a request throws only when no URL is known.
\<close>

theorem no_closed_client:
  fixes given env :: "string option"
  defines "url \<equiv> url_or_env given env"
  shows "let c = fold conn_step ops no_clients; (got, c') = getPool given env c
    in (got = None) = (url = None) \<and> set_option got \<inter> set (cc_closed c') = {} \<and> getPool given env c' = (got, c')
       \<and> (got \<noteq> None \<and> fst (getPool (Some v) env c') = got) = (url = Some v)"
proof -
  define c where "c = fold conn_step ops no_clients"
  have ok: "conn_ok c" by (simp add: c_def conn_run_ok no_clients_ok)
  have next_ok: "conn_ok (snd (getPool given env c))" using conn_step_ok [OF ok, of "Get_Conn given env"] by (simp add: getPool_def)
  show ?thesis
  proof (cases url)
    case None
    then show ?thesis by (simp add: url_def getPool_def get_cached_def Let_def flip: c_def)
  next
    case (Some u)
    then obtain n where n: "fst (getPool given env c) = Some n" "map_get (cc_clients (snd (getPool given env c))) u = Some n"
      by (cases "map_get (cc_clients c) u") (auto simp: url_def getPool_def get_cached_def)
    define c' where "c' = snd (getPool given env c)"
    have known: "map_get (cc_clients c') u = Some n" "conn_ok c'" using n(2) next_ok by (simp_all add: c'_def)
    then have open_n: "n < cc_made c'" "n \<notin> set (cc_closed c')" by (simp_all add: conn_ok_def del: map_of_eq_Some_iff)
    have "u \<noteq> []" using Some by (auto simp: url_def url_or_env_def split: option.splits if_splits)
    have "fst (getPool (Some v) env c') = Some n \<longleftrightarrow> v = u" for v
    proof (cases "map_get (cc_clients c') v")
      case None
      then show ?thesis using known(1) open_n(1) by (auto simp: getPool_def get_cached_def url_or_env_def)
    next
      case (Some m)
      then have "m = n \<longleftrightarrow> v = u" using known unfolding conn_ok_def by (metis option.inject)
      then show ?thesis using Some \<open>u \<noteq> []\<close> by (auto simp: getPool_def get_cached_def url_or_env_def)
    qed
    moreover have "getPool given env c' = (Some n, c')" using known(1) Some by (simp add: url_def getPool_def get_cached_def)
    moreover have "getPool given env c = (Some n, c')" using n(1) by (simp add: c'_def prod_eq_iff)
    ultimately show ?thesis using open_n Some by (auto simp flip: c_def)
  qed
qed

end
