(* ===== verification/Pro_Flow.thy ===== *)
theory Pro_Flow
  imports Compose_Options Device_Prefs
begin

text \<open>
  The subscription of the mobile client: the price shown (apps/mobile/src/pro/paywall-price.ts), the status lines
  (pro/purchase-state.ts), the provider (pro/entitlement-context.tsx) and the screens that use it
  (account/AccountFlow.tsx, PaywallScreen.tsx, ManageSubscriptionScreen.tsx). The store is not part of the code: what it
  reports, pushes and rejects is an event, and what is asked of it is recorded.
\<close>

section \<open>The price and the status lines\<close>

datatype products_status = Products_Loading | Products_Error | Products_Ready

datatype price_display = Price_Loading | Price_Error | Price string string

definition product_for :: "plan_product list \<Rightarrow> interval \<Rightarrow> plan_product option" where
  "product_for products i = List.find (\<lambda>p. pp_interval p = i) products"

definition selectPriceDisplay :: "plan_product list \<Rightarrow> interval \<Rightarrow> products_status \<Rightarrow> price_display" where
  "selectPriceDisplay products i status =
     (case product_for products i of
        Some product \<Rightarrow> Price (pp_displayPrice product) (if i = Annual then ''/yr'' else ''/mo'')
      | None \<Rightarrow> (if status = Products_Loading then Price_Loading else Price_Error))"

definition livePriceForInterval :: "plan_product list \<Rightarrow> interval \<Rightarrow> string option" where
  "livePriceForInterval products i = map_option pp_displayPrice (product_for products i)"

datatype status_tone = Tone_Neutral | Tone_Info

definition ellipsis :: js_text where "ellipsis = [0x2026]"

definition purchaseStatusMessage :: "purchase_phase \<Rightarrow> (status_tone \<times> js_text) option" where
  "purchaseStatusMessage phase =
     (case phase of
        Purchase_Idle \<Rightarrow> None
      | Purchase_Pending \<Rightarrow> Some (Tone_Neutral, text_of_string ''Processing'' @ ellipsis)
      | Purchase_Error Purchase_Cancelled \<Rightarrow> Some (Tone_Neutral, text_of_string ''Purchase canceled.'')
      | Purchase_Error Purchase_Deferred \<Rightarrow> Some (Tone_Info, text_of_string ''Waiting for approval. Pro unlocks once it''
          @ text_of_string [CHR 0x27] @ text_of_string ''s approved.'')
      | Purchase_Error Purchase_Failed \<Rightarrow> Some (Tone_Info, text_of_string ''Purchase didn'' @ text_of_string [CHR 0x27]
          @ text_of_string ''t complete. Please try again.''))"

definition restoreStatusMessage :: "restore_phase \<Rightarrow> (status_tone \<times> js_text) option" where
  "restoreStatusMessage phase =
     (case phase of
        Restore_Idle \<Rightarrow> None
      | Restore_Pending \<Rightarrow> Some (Tone_Neutral, text_of_string ''Restoring'' @ ellipsis)
      | Restore_Done restored \<Rightarrow> Some (Tone_Neutral, text_of_string (if restored then ''Purchases restored.'' else ''No purchases found.''))
      | Restore_Error \<Rightarrow> Some (Tone_Info, text_of_string ''Couldn'' @ text_of_string [CHR 0x27] @ text_of_string ''t restore purchases. Please try again.''))"

text \<open>The renewal line; the date is the text \<open>formatRenewalDate\<close> makes of it, empty for none. 0x2014 is the dash.\<close>

definition formatLiveRenewalLine :: "string option \<Rightarrow> interval \<Rightarrow> string \<Rightarrow> js_text" where
  "formatLiveRenewalLine livePrice i dateStr =
     (let period = (if i = Annual then ''year'' else ''month'') in
      case (case livePrice of Some p \<Rightarrow> if p = [] then None else Some p | None \<Rightarrow> None) of
        Some p \<Rightarrow> text_of_string (if dateStr \<noteq> [] then p @ '' / '' @ period @ '', renews '' @ dateStr
                                  else p @ '' / '' @ period @ '', renews automatically.'')
      | None \<Rightarrow> (if dateStr \<noteq> [] then text_of_string (''Renews '' @ dateStr @ ''.'')
                 else text_of_string ''Renews automatically '' @ [0x2014] @ text_of_string '' manage in the App Store.''))"

text \<open>The savings of a yearly price over twelve monthly ones, in exact fractions of the currency.\<close>

definition annualSavingsPercent :: "rat \<Rightarrow> rat \<Rightarrow> int" where
  "annualSavingsPercent monthlyPrice annualPrice =
     (let fullMonthly = monthlyPrice * 12 in
      if fullMonthly \<le> 0 then 0 else max 0 (js_round ((fullMonthly - annualPrice) / fullMonthly * 100)))"

definition annualSavingsLabel :: "rat \<Rightarrow> rat \<Rightarrow> bool \<Rightarrow> string" where
  "annualSavingsLabel monthlyPrice annualPrice roundToTen =
     (let pct = annualSavingsPercent monthlyPrice annualPrice in
      if pct \<le> 0 then []
      else
        let shown = (if roundToTen then pct div 10 * 10 else pct) in
        if shown \<le> 0 then [] else ''Save '' @ show_int shown @ ''%'')"

section \<open>The provider\<close>

text \<open>A subscription as the store lists it.\<close>

record listed_subscription =
  ls_productId :: string
  ls_isActive :: bool
  ls_expirationDateIOS :: "js_num option"

datatype store_request = Fetch_Products | Query_Active | Request_Purchase string | Restore_Purchases

text \<open>What the store has pushed, the state of the provider, and what was asked of the store.\<close>

record provider =
  pv_connected :: bool
  pv_subscriptions :: "store_product list"
  pv_active :: "listed_subscription list"
  pv_loading :: bool
  pv_productsStatus :: products_status
  pv_purchase :: purchase_phase
  pv_restore :: restore_phase
  pv_requests :: "store_request list"

definition provider_mount :: provider where
  "provider_mount = \<lparr>pv_connected = False, pv_subscriptions = [], pv_active = [], pv_loading = True, pv_productsStatus = Products_Loading,
     pv_purchase = Purchase_Idle, pv_restore = Restore_Idle, pv_requests = []\<rparr>"

definition ask :: "store_request \<Rightarrow> provider \<Rightarrow> provider" where
  "ask r p = p\<lparr>pv_requests := pv_requests p @ [r]\<rparr>"

definition entitlement_of :: "provider \<Rightarrow> entitlement" where
  "entitlement_of p =
     toEntitlement (map (\<lambda>s. \<lparr>su_productId = ls_productId s, su_expiresAtMs = ls_expirationDateIOS s\<rparr>) (filter ls_isActive (pv_active p)))"

definition products_of :: "provider \<Rightarrow> plan_product list" where
  "products_of p = toPlanProducts (pv_subscriptions p)"

definition refresh :: "provider \<Rightarrow> provider" where
  "refresh p = (if pv_connected p then ask Query_Active p else p)"

definition loadProducts :: "provider \<Rightarrow> provider" where
  "loadProducts p =
     (if \<not> pv_connected p then p\<lparr>pv_productsStatus := Products_Error\<rparr>
      else ask Fetch_Products (p\<lparr>pv_productsStatus := Products_Loading\<rparr>))"

definition resetFeedback :: "provider \<Rightarrow> provider" where
  "resetFeedback p = p\<lparr>pv_purchase := Purchase_Idle, pv_restore := Restore_Idle\<rparr>"

definition purchase :: "interval \<Rightarrow> provider \<Rightarrow> provider" where
  "purchase i p =
     (let sku = (if i = Annual then PRODUCT_IDS Annual else PRODUCT_IDS Monthly)
      in ask (Request_Purchase sku) (p\<lparr>pv_purchase := Purchase_Pending\<rparr>))"

definition restore :: "provider \<Rightarrow> provider" where
  "restore p =
     (if \<not> pv_connected p then p\<lparr>pv_restore := Restore_Error\<rparr>
      else ask Restore_Purchases (p\<lparr>pv_restore := Restore_Pending\<rparr>))"

text \<open>
  What comes from the store: the connection, the lists it pushes into the hook, the end of a call, the three callbacks.
  The effect that marks the products ready runs when their number has changed.
\<close>

datatype store_event =
    Connected bool
  | Subscriptions_Pushed "store_product list"
  | Active_Pushed "listed_subscription list"
  | Query_Ended
  | Fetch_Threw
  | Purchase_Success
  | Purchase_Rejected "string option"
  | Restore_Ended "bool option"
  | Store_Error
  | Foreground

definition products_effect :: "nat \<Rightarrow> provider \<Rightarrow> provider" where
  "products_effect before p =
     (if length (products_of p) \<noteq> before \<and> length (products_of p) > 0 then p\<lparr>pv_productsStatus := Products_Ready\<rparr> else p)"

fun store_reports :: "store_event \<Rightarrow> provider \<Rightarrow> provider" where
  "store_reports (Connected b) p = (if b = pv_connected p then p else refresh (p\<lparr>pv_connected := b\<rparr>))"
| "store_reports (Subscriptions_Pushed ps) p = products_effect (length (products_of p)) (p\<lparr>pv_subscriptions := ps\<rparr>)"
| "store_reports (Active_Pushed ss) p = p\<lparr>pv_active := ss\<rparr>"
| "store_reports Query_Ended p = p\<lparr>pv_loading := False\<rparr>"
| "store_reports Fetch_Threw p = p\<lparr>pv_productsStatus := Products_Error\<rparr>"
| "store_reports Purchase_Success p = ask Query_Active (p\<lparr>pv_purchase := Purchase_Idle\<rparr>)"
| "store_reports (Purchase_Rejected code) p = p\<lparr>pv_purchase := Purchase_Error (classifyPurchaseError code)\<rparr>"
| "store_reports (Restore_Ended r) p = p\<lparr>pv_restore := (case r of Some b \<Rightarrow> Restore_Done b | None \<Rightarrow> Restore_Error)\<rparr>"
| "store_reports Store_Error p =
     p\<lparr>pv_loading := False, pv_productsStatus := (if pv_productsStatus p = Products_Ready then Products_Ready else Products_Error)\<rparr>"
| "store_reports Foreground p = refresh p"

section \<open>The screens\<close>

datatype account_route = Account_Route | Paywall_Route | Success_Route | Manage_Route

text \<open>The flow and, while the paywall is up, the interval chosen there.\<close>

record account_flow =
  af_route :: account_route
  af_purchasing :: bool
  af_wasPro :: bool
  af_interval :: interval

definition account_mount :: account_flow where
  "account_mount = \<lparr>af_route = Account_Route, af_purchasing = False, af_wasPro = False, af_interval = Annual\<rparr>"

record pro_system =
  ps_provider :: provider
  ps_account :: "account_flow option"

text \<open>The effect of the route, when it or the connection has changed.\<close>

definition route_effect :: "account_route \<Rightarrow> provider \<Rightarrow> provider" where
  "route_effect r p = (case r of Paywall_Route \<Rightarrow> loadProducts (resetFeedback p) | Manage_Route \<Rightarrow> loadProducts p | _ \<Rightarrow> p)"

definition go_route :: "account_route \<Rightarrow> pro_system \<Rightarrow> pro_system" where
  "go_route r s =
     (case ps_account s of
        None \<Rightarrow> s
      | Some f \<Rightarrow> s\<lparr>ps_account := Some (f\<lparr>af_route := r, af_interval := Annual\<rparr>),
                   ps_provider := (if af_route f = r then ps_provider s else route_effect r (ps_provider s))\<rparr>)"

text \<open>The two effects that end a purchase: a completed upgrade, and a failed one.\<close>

definition purchase_effects :: "pro_system \<Rightarrow> pro_system" where
  "purchase_effects s =
     (case ps_account s of
        None \<Rightarrow> s
      | Some f \<Rightarrow>
          let upgraded = af_purchasing f \<and> en_isPro (entitlement_of (ps_provider s)) \<and> \<not> af_wasPro f;
              f1 = (if upgraded then f\<lparr>af_purchasing := False, af_route := Success_Route\<rparr> else f);
              f2 = (case pv_purchase (ps_provider s) of Purchase_Error e \<Rightarrow> f1\<lparr>af_purchasing := False\<rparr> | _ \<Rightarrow> f1)
          in s\<lparr>ps_account := Some f2\<rparr>)"

datatype pro_event =
    From_Store store_event
  | Open_Account
  | Leave_Account
  | Tap_Plan_Row
  | Tap_Back
  | Tap_Interval interval
  | Tap_Upgrade
  | Tap_Restore
  | Tap_Retry_Price
  | Tap_Change_Plan
  | Tap_Continue
  | Tap_Manage

definition paywall_price :: "pro_system \<Rightarrow> account_flow \<Rightarrow> price_display" where
  "paywall_price s f = selectPriceDisplay (products_of (ps_provider s)) (af_interval f) (pv_productsStatus (ps_provider s))"

definition canBuy :: "pro_system \<Rightarrow> account_flow \<Rightarrow> bool" where
  "canBuy s f =
     ((case paywall_price s f of Price t u \<Rightarrow> True | _ \<Rightarrow> False)
      \<and> \<not> isPurchaseInFlight (pv_purchase (ps_provider s)) \<and> \<not> isRestoreInFlight (pv_restore (ps_provider s)))"

definition onSelectPlan :: "interval \<Rightarrow> account_flow \<Rightarrow> pro_system \<Rightarrow> pro_system" where
  "onSelectPlan i f s =
     s\<lparr>ps_account := Some (f\<lparr>af_wasPro := en_isPro (entitlement_of (ps_provider s)), af_purchasing := True\<rparr>),
       ps_provider := purchase i (ps_provider s)\<rparr>"

definition account_tap :: "account_flow \<Rightarrow> pro_event \<Rightarrow> pro_system \<Rightarrow> pro_system" where
  "account_tap f e s =
     (case (af_route f, e) of
        (Account_Route, Tap_Plan_Row) \<Rightarrow> go_route (if en_isPro (entitlement_of (ps_provider s)) then Manage_Route else Paywall_Route) s
      | (Paywall_Route, Tap_Back) \<Rightarrow> go_route Account_Route s
      | (Paywall_Route, Tap_Interval i) \<Rightarrow> s\<lparr>ps_account := Some (f\<lparr>af_interval := i\<rparr>)\<rparr>
      | (Paywall_Route, Tap_Upgrade) \<Rightarrow> (if canBuy s f then onSelectPlan (af_interval f) f s else s)
      | (Paywall_Route, Tap_Restore) \<Rightarrow>
          (if isRestoreInFlight (pv_restore (ps_provider s)) then s else s\<lparr>ps_provider := restore (ps_provider s)\<rparr>)
      | (Paywall_Route, Tap_Retry_Price) \<Rightarrow> (if paywall_price s f = Price_Error then s\<lparr>ps_provider := loadProducts (ps_provider s)\<rparr> else s)
      | (Success_Route, Tap_Continue) \<Rightarrow> go_route Account_Route s
      | (Success_Route, Tap_Manage) \<Rightarrow> go_route Manage_Route s
      | (Manage_Route, Tap_Back) \<Rightarrow> go_route Account_Route s
      | (Manage_Route, Tap_Change_Plan) \<Rightarrow> go_route Paywall_Route s
      | (Manage_Route, Tap_Restore) \<Rightarrow>
          (if isRestoreInFlight (pv_restore (ps_provider s)) then s else s\<lparr>ps_provider := restore (ps_provider s)\<rparr>)
      | _ \<Rightarrow> s)"

definition pro_step :: "pro_event \<Rightarrow> pro_system \<Rightarrow> pro_system" where
  "pro_step e s =
     purchase_effects
       (case e of
          From_Store r \<Rightarrow>
            let p = store_reports r (ps_provider s);
                p' = (case ps_account s of
                        Some f \<Rightarrow> if pv_connected p \<noteq> pv_connected (ps_provider s) then route_effect (af_route f) p else p
                      | None \<Rightarrow> p)
            in s\<lparr>ps_provider := p'\<rparr>
        | Open_Account \<Rightarrow> (if ps_account s = None then s\<lparr>ps_account := Some account_mount\<rparr> else s)
        | Leave_Account \<Rightarrow> s\<lparr>ps_account := None\<rparr>
        | _ \<Rightarrow> (case ps_account s of Some f \<Rightarrow> account_tap f e s | None \<Rightarrow> s))"

definition pro_start :: pro_system where
  "pro_start = \<lparr>ps_provider = provider_mount, ps_account = None\<rparr>"

end
