(* ===== verification/Pro_Flow_Laws.thy ===== *)
theory Pro_Flow_Laws
  imports Pro_Flow
begin

text \<open>
  A purchase is asked of the store only at the price it reported; where the paywall waits forever, and where it sells a
  second time.
\<close>

section \<open>Products\<close>

lemma plan_product_listed: "p \<in> set (toPlanProducts ps) \<Longrightarrow>
    \<exists>q \<in> set ps. po_id q = pp_productId p \<and> po_displayPrice q = pp_displayPrice p \<and> intervalForProduct (po_id q) = Some (pp_interval p)"
  by (induction ps) (auto split: option.splits)

lemma interval_id: "intervalForProduct i = Some n \<longleftrightarrow> i = PRODUCT_IDS n"
  by (cases n) (auto simp: intervalForProduct_def PRODUCT_IDS_def)

lemma shown_price:
  assumes "selectPriceDisplay (toPlanProducts ps) i st = Price t u"
  shows "u = (if i = Annual then ''/yr'' else ''/mo'') \<and> (\<exists>q \<in> set ps. po_id q = PRODUCT_IDS i \<and> po_displayPrice q = t)"
proof -
  obtain p where p: "product_for (toPlanProducts ps) i = Some p" "t = pp_displayPrice p" "u = (if i = Annual then ''/yr'' else ''/mo'')"
    using assms by (auto simp: selectPriceDisplay_def split: option.splits if_splits)
  then have "p \<in> set (toPlanProducts ps)" "pp_interval p = i"
    by (auto simp: product_for_def find_Some_iff)
  with plan_product_listed [of p ps] show ?thesis using p by (auto simp: interval_id)
qed

section \<open>What is asked of the store\<close>

definition asked :: "provider \<Rightarrow> string list" where
  "asked p = List.map_filter (\<lambda>r. case r of Request_Purchase sku \<Rightarrow> Some sku | _ \<Rightarrow> None) (pv_requests p)"

abbreviation purchases :: "pro_system \<Rightarrow> string list" where
  "purchases s \<equiv> asked (ps_provider s)"

lemma asked_ask: "asked (ask r p) = asked p @ (case r of Request_Purchase sku \<Rightarrow> [sku] | _ \<Rightarrow> [])"
  by (simp add: asked_def ask_def map_filter_def split: store_request.split)

lemma asked_sel [simp]:
  "asked (p\<lparr>pv_connected := b\<rparr>) = asked p" "asked (p\<lparr>pv_subscriptions := ps\<rparr>) = asked p" "asked (p\<lparr>pv_active := ss\<rparr>) = asked p"
  "asked (p\<lparr>pv_loading := b\<rparr>) = asked p" "asked (p\<lparr>pv_productsStatus := st\<rparr>) = asked p" "asked (p\<lparr>pv_purchase := ph\<rparr>) = asked p"
  "asked (p\<lparr>pv_restore := rs\<rparr>) = asked p"
  by (simp_all add: asked_def)

lemma asked_quiet [simp]:
  "asked (refresh p) = asked p" "asked (loadProducts p) = asked p" "asked (restore p) = asked p" "asked (resetFeedback p) = asked p"
  "asked (products_effect n p) = asked p"
  by (simp_all add: refresh_def loadProducts_def restore_def resetFeedback_def products_effect_def asked_ask)

lemma asked_route [simp]: "asked (route_effect r p) = asked p"
  by (simp add: route_effect_def split: account_route.split)

lemma asked_reports [simp]: "asked (store_reports r p) = asked p"
  by (cases r) (simp_all add: asked_ask)

lemma asked_purchase [simp]: "asked (purchase i p) = asked p @ [PRODUCT_IDS i]"
  by (cases i) (simp_all add: purchase_def Let_def asked_ask)

lemma effects_sel [simp]: "ps_provider (purchase_effects s) = ps_provider s"
  by (simp add: purchase_effects_def Let_def split: option.split)

lemma purchases_go [simp]: "purchases (go_route r s) = purchases s"
  by (simp add: go_route_def split: option.split)

lemma tap_purchases:
  "purchases (account_tap f e s) = purchases s \<or>
   (af_route f = Paywall_Route \<and> e = Tap_Upgrade \<and> canBuy s f \<and> purchases (account_tap f e s) = purchases s @ [PRODUCT_IDS (af_interval f)])"
  by (simp add: account_tap_def onSelectPlan_def split: account_route.split pro_event.split)

text \<open>
  C30: the price shown is the price asked. Whatever the state, a step asks the store for a purchase only when the user taps the
  upgrade button of a paywall that shows a price and whose flags show no purchase or restoration pending (a paywall
  opened anew has forgotten one that still is: \<open>reopened_paywall_sells_again\<close>); what is asked for is the
  product of the interval chosen there, which the store listed, and the paywall shows the price that the store reported
  for it, with the unit of that interval.
\<close>

theorem sold_at_store_price:
  assumes "purchases (pro_step e s) \<noteq> purchases s"
  shows "\<exists>f q. e = Tap_Upgrade \<and> ps_account s = Some f \<and> af_route f = Paywall_Route
    \<and> q \<in> set (pv_subscriptions (ps_provider s)) \<and> purchases (pro_step e s) = purchases s @ [po_id q] \<and> po_id q = PRODUCT_IDS (af_interval f)
    \<and> paywall_price s f = Price (po_displayPrice q) (if po_id q = PRODUCT_IDS Annual then ''/yr'' else ''/mo'')
    \<and> pv_purchase (ps_provider s) \<noteq> Purchase_Pending \<and> pv_restore (ps_provider s) \<noteq> Restore_Pending"
proof -
  have quiet: "purchases (pro_step (From_Store r) s) = purchases s" for r
    by (auto simp: pro_step_def Let_def split: option.split)
  have "purchases (pro_step e s) = purchases s \<or> (\<exists>f. ps_account s = Some f \<and> pro_step e s = purchase_effects (account_tap f e s))"
    by (cases e) (auto simp: quiet, auto simp: pro_step_def split: option.split)
  then obtain f where f: "ps_account s = Some f" "pro_step e s = purchase_effects (account_tap f e s)" using assms by blast
  then have bought: "af_route f = Paywall_Route" "e = Tap_Upgrade" "canBuy s f" "purchases (pro_step e s) = purchases s @ [PRODUCT_IDS (af_interval f)]"
    using tap_purchases [of f e s] assms by auto
  then obtain t u where price: "paywall_price s f = Price t u" "pv_purchase (ps_provider s) \<noteq> Purchase_Pending" "pv_restore (ps_provider s) \<noteq> Restore_Pending"
    by (auto simp: canBuy_def isPurchaseInFlight_def isRestoreInFlight_def split: price_display.splits)
  from shown_price [of "pv_subscriptions (ps_provider s)"] price(1) obtain q where
    "u = (if af_interval f = Annual then ''/yr'' else ''/mo'')" "q \<in> set (pv_subscriptions (ps_provider s))"
    "po_id q = PRODUCT_IDS (af_interval f)" "po_displayPrice q = t"
    unfolding paywall_price_def products_of_def by blast
  moreover have "PRODUCT_IDS (af_interval f) = PRODUCT_IDS Annual \<longleftrightarrow> af_interval f = Annual"
    by (cases "af_interval f") (simp_all add: PRODUCT_IDS_def)
  ultimately show ?thesis using f(1) bought price by (intro exI [of _ f] exI [of _ q]) simp
qed

definition yearly :: store_product where
  "yearly = \<lparr>po_id = ''com.aesmsg.app.pro.annual'', po_displayPrice = ''37.99'', po_currencyCode = ''EUR''\<rparr>"

definition on_paywall :: pro_system where
  "on_paywall = fold pro_step [From_Store (Connected True), Open_Account, Tap_Plan_Row, From_Store (Subscriptions_Pushed [yearly])] pro_start"

theorem sold_at_store_price_witness:
  "purchases (pro_step Tap_Upgrade on_paywall) = [''com.aesmsg.app.pro.annual'']
   \<and> (\<exists>q \<in> set (pv_subscriptions (ps_provider on_paywall)). purchases (pro_step Tap_Upgrade on_paywall) = purchases on_paywall @ [po_id q])"
proof -
  have "purchases (pro_step Tap_Upgrade on_paywall) = [''com.aesmsg.app.pro.annual'']" "purchases on_paywall = []" by code_simp+
  then show ?thesis using sold_at_store_price [of Tap_Upgrade on_paywall] by auto
qed

section \<open>The upgrade\<close>

definition upgrading :: "pro_system \<Rightarrow> bool" where
  "upgrading s = (case ps_account s of Some f \<Rightarrow> af_purchasing f \<and> \<not> af_wasPro f | None \<Rightarrow> False)"

definition congratulates :: "pro_system \<Rightarrow> bool" where
  "congratulates s = (case ps_account s of Some f \<Rightarrow> af_route f = Success_Route | None \<Rightarrow> False)"

abbreviation reported_pro :: "pro_system \<Rightarrow> bool" where
  "reported_pro s \<equiv> en_isPro (entitlement_of (ps_provider s))"

lemma isPro_iff: "en_isPro (toEntitlement ss) \<longleftrightarrow> (\<exists>s \<in> set ss. su_productId s \<in> {PRODUCT_IDS Monthly, PRODUCT_IDS Annual})"
  by (induction ss) (auto simp: FREE_ENTITLEMENT_def intervalForProduct_def split: option.split)

lemma pro_reported: "en_isPro (entitlement_of p) \<longleftrightarrow>
    (\<exists>s \<in> set (pv_active p). ls_isActive s \<and> ls_productId s \<in> {PRODUCT_IDS Monthly, PRODUCT_IDS Annual})"
  by (auto simp: entitlement_of_def isPro_iff)

lemma active_quiet [simp]: "entitlement_of (purchase i p) = entitlement_of p"
  by (simp add: entitlement_of_def purchase_def ask_def Let_def)

lemma go_upgrading: "upgrading (go_route r s) = upgrading s" "r \<noteq> Success_Route \<Longrightarrow> congratulates (go_route r s) \<Longrightarrow> congratulates s"
  by (cases "ps_account s"; auto simp: go_route_def upgrading_def congratulates_def)+

lemma upgrading_provider [simp]: "upgrading (s\<lparr>ps_provider := p\<rparr>) = upgrading s" "congratulates (s\<lparr>ps_provider := p\<rparr>) = congratulates s"
  by (simp_all add: upgrading_def congratulates_def)

lemma tap_upgrading:
  assumes "ps_account s = Some f"
  shows "(upgrading (account_tap f e s) \<longrightarrow> upgrading s \<or> (e = Tap_Upgrade \<and> \<not> reported_pro (account_tap f e s) \<and> \<not> reported_pro s
      \<and> purchases (account_tap f e s) = purchases s @ [PRODUCT_IDS (af_interval f)]))
    \<and> (congratulates (account_tap f e s) \<longrightarrow> congratulates s)"
proof -
  have interval: "upgrading (s\<lparr>ps_account := Some (f\<lparr>af_interval := i\<rparr>)\<rparr>) = upgrading s"
    "congratulates (s\<lparr>ps_account := Some (f\<lparr>af_interval := i\<rparr>)\<rparr>) = congratulates s" for i
    using assms by (simp_all add: upgrading_def congratulates_def)
  have buy: "upgrading (onSelectPlan i f s) = (\<not> reported_pro s)" "congratulates (onSelectPlan i f s) = congratulates s"
    "purchases (onSelectPlan i f s) = purchases s @ [PRODUCT_IDS i]" "reported_pro (onSelectPlan i f s) = reported_pro s" for i
    using assms by (simp_all add: onSelectPlan_def upgrading_def congratulates_def)
  have go: "congratulates (go_route Account_Route s) \<Longrightarrow> congratulates s" "congratulates (go_route Manage_Route s) \<Longrightarrow> congratulates s"
    "congratulates (go_route Paywall_Route s) \<Longrightarrow> congratulates s" by (rule go_upgrading(2); simp)+
  show ?thesis by (cases "af_route f"; cases e) (auto simp: account_tap_def go_upgrading(1) interval buy dest: go split: if_splits)
qed

definition before_effects :: "pro_event \<Rightarrow> pro_system \<Rightarrow> pro_system" where
  "before_effects e s =
     (case e of
        From_Store r \<Rightarrow>
          let p = store_reports r (ps_provider s);
              p' = (case ps_account s of
                      Some f \<Rightarrow> if pv_connected p \<noteq> pv_connected (ps_provider s) then route_effect (af_route f) p else p
                    | None \<Rightarrow> p)
          in s\<lparr>ps_provider := p'\<rparr>
      | Open_Account \<Rightarrow> (if ps_account s = None then s\<lparr>ps_account := Some account_mount\<rparr> else s)
      | Leave_Account \<Rightarrow> s\<lparr>ps_account := None\<rparr>
      | _ \<Rightarrow> (case ps_account s of Some f \<Rightarrow> account_tap f e s | None \<Rightarrow> s))"

lemma pro_step_effects: "pro_step e s = purchase_effects (before_effects e s)"
  by (simp add: pro_step_def before_effects_def)

lemma before_upgrading:
  "(upgrading (before_effects e s) \<longrightarrow> upgrading s \<or> (e = Tap_Upgrade \<and> \<not> reported_pro (before_effects e s) \<and> \<not> reported_pro s
      \<and> (\<exists>i. purchases (before_effects e s) = purchases s @ [PRODUCT_IDS i])))
    \<and> (congratulates (before_effects e s) \<longrightarrow> congratulates s)"
proof -
  have "upgrading (s\<lparr>ps_account := None\<rparr>) = False" "congratulates (s\<lparr>ps_account := None\<rparr>) = False"
    "upgrading (s\<lparr>ps_account := Some account_mount\<rparr>) = False" "congratulates (s\<lparr>ps_account := Some account_mount\<rparr>) = False"
    by (simp_all add: upgrading_def congratulates_def account_mount_def)
  then show ?thesis using tap_upgrading [of s _ e]
    by (cases e) (auto simp: before_effects_def Let_def split: option.split)
qed

lemma effects_upgrading:
  "(upgrading (purchase_effects s) \<longrightarrow> upgrading s)
    \<and> (congratulates (purchase_effects s) \<longrightarrow> congratulates s \<or> (upgrading s \<and> reported_pro s))"
  by (auto simp: purchase_effects_def upgrading_def congratulates_def Let_def split: option.splits purchase_phase.splits if_splits)

text \<open>
  Only a new subscriber is congratulated. Over any run, the screen of a completed upgrade comes up only while the store
  reports an active subscription to one of the two products, and only if the user had bought one in this run while the
  store reported none.
\<close>

theorem new_subscriber_congratulated:
  fixes es :: "pro_event list" and e :: pro_event
  defines "s \<equiv> fold pro_step es pro_start"
  assumes "congratulates (pro_step e s)" "\<not> congratulates s"
  shows "(\<exists>l \<in> set (pv_active (ps_provider (pro_step e s))). ls_isActive l \<and> ls_productId l \<in> {PRODUCT_IDS Monthly, PRODUCT_IDS Annual})
    \<and> (\<exists>es1 es2. es = es1 @ Tap_Upgrade # es2 \<and> \<not> reported_pro (fold pro_step es1 pro_start)
         \<and> (\<exists>i. purchases (fold pro_step (es1 @ [Tap_Upgrade]) pro_start) = purchases (fold pro_step es1 pro_start) @ [PRODUCT_IDS i]))"
proof -
  let ?bought = "\<lambda>es. \<exists>es1 es2. es = es1 @ Tap_Upgrade # es2 \<and> \<not> reported_pro (fold pro_step es1 pro_start)
         \<and> (\<exists>i. purchases (fold pro_step (es1 @ [Tap_Upgrade]) pro_start) = purchases (fold pro_step es1 pro_start) @ [PRODUCT_IDS i])"
  have "upgrading (fold pro_step es pro_start) \<Longrightarrow> ?bought es" for es
  proof (induction es rule: rev_induct)
    case Nil
    then show ?case by (simp add: pro_start_def upgrading_def)
  next
    case (snoc e es)
    let ?s = "fold pro_step es pro_start"
    have "upgrading (before_effects e ?s)" using snoc.prems effects_upgrading [of "before_effects e ?s"] pro_step_effects [of e ?s] by simp
    then consider "upgrading ?s" | i where "e = Tap_Upgrade" "\<not> reported_pro ?s" "purchases (pro_step e ?s) = purchases ?s @ [PRODUCT_IDS i]"
      using before_upgrading [of e ?s] pro_step_effects [of e ?s] by auto
    then show ?case
    proof cases
      case 1
      with snoc.IH show ?thesis by (metis append_Cons append_assoc)
    next
      case 2
      then show ?thesis by (intro exI [of _ es] exI [of _ "[]"]) auto
    qed
  qed
  moreover have "upgrading (before_effects e s) \<and> reported_pro (before_effects e s)"
    using assms(2,3) effects_upgrading [of "before_effects e s"] before_upgrading [of e s] pro_step_effects [of e s] by auto
  then have "upgrading s \<and> reported_pro (pro_step e s)" using before_upgrading [of e s] pro_step_effects [of e s] by auto
  ultimately show ?thesis by (simp add: s_def pro_reported)
qed

theorem new_subscriber_congratulated_witness:
  "congratulates (fold pro_step [From_Store (Connected True), Open_Account, Tap_Plan_Row, From_Store (Subscriptions_Pushed [yearly]), Tap_Upgrade,
     From_Store Purchase_Success, From_Store (Active_Pushed [\<lparr>ls_productId = po_id yearly, ls_isActive = True, ls_expirationDateIOS = None\<rparr>])] pro_start)
   \<and> \<not> reported_pro on_paywall"
proof -
  let ?es = "[From_Store (Connected True), Open_Account, Tap_Plan_Row, From_Store (Subscriptions_Pushed [yearly]), Tap_Upgrade, From_Store Purchase_Success]"
    and ?e = "From_Store (Active_Pushed [\<lparr>ls_productId = po_id yearly, ls_isActive = True, ls_expirationDateIOS = None\<rparr>])"
  have facts: "congratulates (pro_step ?e (fold pro_step ?es pro_start))" "\<not> congratulates (fold pro_step ?es pro_start)"
    "\<not> reported_pro on_paywall" by code_simp+
  from new_subscriber_congratulated [of ?e ?es] facts(1,2)
  have "\<exists>l \<in> set (pv_active (ps_provider (pro_step ?e (fold pro_step ?es pro_start)))). ls_isActive l" by blast
  with facts(1,3) show ?thesis by simp
qed

section \<open>Where the paywall waits, and where it sells twice\<close>

text \<open>
  No price and no retry. When the store answers the request for the products without the yearly one, and as many of them
  as before (none at the first time), the paywall goes on showing that the price is loading: there is nothing to retry
  with, and no purchase, although no request is under way any more.
\<close>

theorem price_never_arrives:
  assumes "ps_account s = Some f" "af_route f = Account_Route" "\<not> reported_pro s" "pv_connected (ps_provider s)"
    "length (toPlanProducts ps) = length (products_of (ps_provider s))" "product_for (toPlanProducts ps) Annual = None"
  shows "let t = fold pro_step [Tap_Plan_Row, From_Store (Subscriptions_Pushed ps)] s
    in \<exists>g. ps_account t = Some g \<and> af_route g = Paywall_Route \<and> paywall_price t g = Price_Loading \<and> \<not> canBuy t g
       \<and> purchases (pro_step Tap_Retry_Price t) = purchases t \<and> ps_provider (pro_step Tap_Retry_Price t) = ps_provider t"
  using assms
  by (simp add: pro_step_def account_tap_def go_route_def purchase_effects_def route_effect_def loadProducts_def resetFeedback_def
      products_effect_def products_of_def ask_def paywall_price_def selectPriceDisplay_def canBuy_def entitlement_of_def Let_def)

theorem price_never_arrives_witness:
  "let t = fold pro_step [From_Store (Connected True), Open_Account, Tap_Plan_Row, From_Store (Subscriptions_Pushed [])] pro_start
   in \<exists>g. ps_account t = Some g \<and> paywall_price t g = Price_Loading"
proof -
  let ?s = "fold pro_step [From_Store (Connected True), Open_Account] pro_start"
  have "ps_account ?s = Some account_mount" "\<not> reported_pro ?s" "pv_connected (ps_provider ?s)" "products_of (ps_provider ?s) = []"
    by (simp_all add: pro_step_def pro_start_def purchase_effects_def provider_mount_def account_mount_def refresh_def ask_def
        entitlement_of_def products_of_def FREE_ENTITLEMENT_def Let_def)
  from price_never_arrives [OF this(1) _ this(2,3), of "[]"] this(4) show ?thesis
    by (auto simp: account_mount_def product_for_def Let_def)
qed

text \<open>
  Sold twice. Closing the paywall and opening it again clears the state of the purchase under way, so the button sells a
  second time while the first purchase is still pending.
\<close>

theorem reopened_paywall_sells_again:
  assumes "ps_account s = Some f" "af_route f = Paywall_Route" "\<not> reported_pro s" "product_for (products_of (ps_provider s)) Annual = Some p"
    "pv_purchase (ps_provider s) = Purchase_Pending"
  shows "\<not> canBuy s f \<and> purchases (fold pro_step [Tap_Back, Tap_Plan_Row, Tap_Upgrade] s) = purchases s @ [PRODUCT_IDS Annual]"
  using assms
  by (simp add: pro_step_def account_tap_def go_route_def purchase_effects_def route_effect_def loadProducts_def resetFeedback_def
      products_of_def ask_def paywall_price_def selectPriceDisplay_def canBuy_def entitlement_of_def Let_def isPurchaseInFlight_def
      isRestoreInFlight_def onSelectPlan_def purchase_def asked_def map_filter_def)

end
