(* ===== verification/App_Root.thy ===== *)
theory App_Root
  imports Device_Prefs Device_Timers Link_Urls Contact_Trust Device_Files Reader_Flow
begin

text \<open>
  The mobile app above its tabs, apps/mobile: the settings provider (src/settings/settings-context.tsx), the first run
  (src/onboarding: OnboardingFlow.tsx, carousel.ts, EnableBiometricsScreenIntegration.tsx,
  ImportBackupScreenIntegration.tsx), the Encrypt tab (src/home/HomeFlow.tsx, src/keys/use-backup-state.ts,
  src/reader/OpenLinkSheet.tsx), the routes of the settings (src/settings/SettingsFlow.tsx) and the root of the app
  (App.tsx). A component that leaves the screen loses its state; what the identity machine, the native modules and the
  operating system report is an event.
\<close>

section \<open>Settings\<close>

text \<open>
  The provider of either client: what it shows, and the record that is stored; a load in progress has the value it read.
\<close>

record 's settings_provider =
  sp_shown :: 's
  sp_loading :: bool
  sp_read :: "'s option"
  sp_stored :: 's

definition provider_mounts :: "'s \<Rightarrow> 's \<Rightarrow> 's settings_provider" where
  "provider_mounts defaults stored_record = \<lparr>sp_shown = defaults, sp_loading = True, sp_read = None, sp_stored = stored_record\<rparr>"

text \<open>A load reads the record and then ends; an update is shown at once and stored, or its write fails.\<close>

datatype 's settings_event = Load_Reads | Load_Ends | Update "'s \<Rightarrow> 's" bool

fun settings_step :: "'s settings_event \<Rightarrow> 's settings_provider \<Rightarrow> 's settings_provider" where
  "settings_step Load_Reads p = (if sp_loading p \<and> sp_read p = None then p\<lparr>sp_read := Some (sp_stored p)\<rparr> else p)"
| "settings_step Load_Ends p =
     (if sp_loading p then (case sp_read p of Some v \<Rightarrow> p\<lparr>sp_shown := v, sp_loading := False\<rparr> | None \<Rightarrow> p) else p)"
| "settings_step (Update patch written) p =
     (let nxt = patch (sp_shown p) in p\<lparr>sp_shown := nxt, sp_stored := (if written then nxt else sp_stored p)\<rparr>)"

section \<open>The first run\<close>

definition clampSlideIndex :: "rat \<Rightarrow> int \<Rightarrow> int" where
  "clampSlideIndex index count =
     (if count \<le> 0 then 0 else if index < 0 then 0 else if index > of_int (count - 1) then count - 1 else js_round index)"

definition nextSlide :: "rat \<Rightarrow> int \<Rightarrow> int" where
  "nextSlide index count = clampSlideIndex (index + 1) count"

definition prevSlide :: "rat \<Rightarrow> int \<Rightarrow> int" where
  "prevSlide index count = clampSlideIndex (index - 1) count"

definition isLastSlide :: "rat \<Rightarrow> int \<Rightarrow> bool" where
  "isLastSlide index count = (count > 0 \<and> clampSlideIndex index count = count - 1)"

datatype onboarding_step = Welcome | How_It_Works

datatype biometric_state = Bio_Show | Bio_Skip

definition getBiometricOnboardingState :: "settings \<Rightarrow> biometric_state" where
  "getBiometricOnboardingState s = (if st_biometricOnboardingSeen s then Bio_Skip else Bio_Show)"

text \<open>The biometric step: the capability once probed. What it shows: nothing, an explanation, or the choice.\<close>

datatype biometric_screen = Bio_Blank | Bio_Unavailable | Bio_Choice

definition biometric_rendered :: "biometric_capability option \<Rightarrow> biometric_screen" where
  "biometric_rendered capability =
     (case capability of None \<Rightarrow> Bio_Blank | Some c \<Rightarrow> if bc_capable c then Bio_Choice else Bio_Unavailable)"

definition markSeen :: "settings \<Rightarrow> settings" where
  "markSeen s = s\<lparr>st_biometricOnboardingSeen := True\<rparr>"

definition onEnable :: "bool \<Rightarrow> settings \<Rightarrow> settings" where
  "onEnable confirmed s = (if confirmed then s\<lparr>st_biometric := True, st_biometricOnboardingSeen := True\<rparr> else s)"

text \<open>Restoring a backup: the file picked, the failure shown and how often, whether a restoration is under way.\<close>

record import_screen =
  im_picked :: "picked_file option"
  im_error :: "restore_reason option"
  im_nonce :: nat
  im_busy :: bool

definition import_mount :: import_screen where
  "import_mount = \<lparr>im_picked = None, im_error = None, im_nonce = 0, im_busy = False\<rparr>"

definition handlePickFile :: "picked_file option option \<Rightarrow> import_screen \<Rightarrow> import_screen" where
  "handlePickFile r m = (case r of Some (Some f) \<Rightarrow> m\<lparr>im_picked := Some f, im_error := None\<rparr> | _ \<Rightarrow> m)"

definition restore_begins :: "import_screen \<Rightarrow> import_screen" where
  "restore_begins m = (if im_picked m = None \<or> im_busy m then m else m\<lparr>im_busy := True, im_error := None\<rparr>)"

text \<open>How a restoration ends: the text of the file if it could be read, and whether the identity could be imported.\<close>

definition restore_ends :: "('pub, 'priv) hpke_suite \<Rightarrow> platform \<Rightarrow> string option \<Rightarrow> js_text \<Rightarrow> bool \<Rightarrow> import_screen \<Rightarrow> import_screen" where
  "restore_ends S P contents passphrase imported m =
     (let failed = (\<lambda>reason. m\<lparr>im_error := Some reason, im_nonce := Suc (im_nonce m), im_busy := False\<rparr>) in
      case contents of
        None \<Rightarrow> failed InvalidFile
      | Some t \<Rightarrow>
          (case restoreIdentity S P t passphrase of
             Inr k \<Rightarrow> if imported then m\<lparr>im_busy := False\<rparr> else failed InvalidFile
           | Inl reason \<Rightarrow> failed reason))"

section \<open>The Encrypt tab\<close>

text \<open>\<open>useBackupState\<close>: nothing until the state is loaded.\<close>

definition showReminder :: "backup_state option \<Rightarrow> bool" where
  "showReminder b = (case b of None \<Rightarrow> False | Some s \<Rightarrow> shouldShowBackupReminder s)"

definition showNudge :: "backup_state option \<Rightarrow> bool" where
  "showNudge b = (case b of None \<Rightarrow> False | Some s \<Rightarrow> shouldShowBackupNudge s)"

text \<open>The sheet that takes a pasted link; the value, whether it was detected, whether an error is shown.\<close>

record link_sheet =
  lk_visible :: bool
  lk_value :: string
  lk_detected :: bool
  lk_error :: bool

definition sheet_closed :: link_sheet where
  "sheet_closed = \<lparr>lk_visible = False, lk_value = [], lk_detected = False, lk_error = False\<rparr>"

definition clipboard_read :: "(string \<Rightarrow> parsed_url) \<Rightarrow> string \<Rightarrow> link_sheet \<Rightarrow> link_sheet" where
  "clipboard_read parse_url t k =
     (if lk_visible k \<and> parsePastedLink parse_url t \<noteq> None then k\<lparr>lk_value := js_trim t, lk_detected := True\<rparr> else k)"

definition sheet_open :: "(string \<Rightarrow> parsed_url) \<Rightarrow> link_sheet \<Rightarrow> string option \<times> link_sheet" where
  "sheet_open parse_url k =
     (case parsePastedLink parse_url (lk_value k) of None \<Rightarrow> (None, k\<lparr>lk_error := True\<rparr>) | Some i \<Rightarrow> (Some i, k))"

datatype home_route = Home_Route | Compose_Route

record home_flow =
  hf_route :: home_route
  hf_recipient :: "recipient option"
  hf_sheet :: link_sheet
  hf_backup :: "backup_state option"
  hf_nudge :: bool

definition home_mount :: "bool \<Rightarrow> recipient option \<Rightarrow> home_flow" where
  "home_mount initialCompose initialRecipient =
     \<lparr>hf_route = (if initialCompose then Compose_Route else Home_Route), hf_recipient = (if initialCompose then initialRecipient else None),
      hf_sheet = sheet_closed, hf_backup = None, hf_nudge = False\<rparr>"

text \<open>The backup state arrives; a nudge that is due is shown and taken note of.\<close>

definition backup_loaded :: "backup_state \<Rightarrow> home_flow \<Rightarrow> home_flow" where
  "backup_loaded b h =
     (if hf_backup h \<noteq> None then h
      else if showNudge (Some b) then h\<lparr>hf_backup := Some (withNudgeSeen b), hf_nudge := True\<rparr>
      else h\<lparr>hf_backup := Some b\<rparr>)"

definition openCompose :: "home_flow \<Rightarrow> home_flow" where
  "openCompose h = h\<lparr>hf_recipient := None, hf_route := Compose_Route\<rparr>"

section \<open>The settings tab\<close>

datatype settings_route = Settings_Root | Security_Route | Privacy_Route | Advanced_Route | Notifications_Route | Account_Page | Help_Route
  | About_Route | Activity_Route

datatype settings_section = Security_Section | Privacy_Section | Advanced_Section | Notifications_Section | Account_Section | Help_Section
  | About_Section | Activity_Section | Keys_Section

fun SECTION_ROUTE :: "settings_section \<Rightarrow> settings_route option" where
  "SECTION_ROUTE Security_Section = Some Security_Route"
| "SECTION_ROUTE Privacy_Section = Some Privacy_Route"
| "SECTION_ROUTE Advanced_Section = Some Advanced_Route"
| "SECTION_ROUTE Notifications_Section = Some Notifications_Route"
| "SECTION_ROUTE Account_Section = Some Account_Page"
| "SECTION_ROUTE Help_Section = Some Help_Route"
| "SECTION_ROUTE About_Section = Some About_Route"
| "SECTION_ROUTE Activity_Section = Some Activity_Route"
| "SECTION_ROUTE Keys_Section = None"

section \<open>The root\<close>

datatype tab = Encrypt_Tab | Links_Tab | Contacts_Tab | Keys_Tab | Settings_Tab

definition TABS :: "(tab \<times> string \<times> string) list" where
  "TABS = [(Encrypt_Tab, ''Encrypt'', ''lock''), (Links_Tab, ''Links'', ''link''), (Contacts_Tab, ''Contacts'', ''group''),
     (Keys_Tab, ''Keys'', ''vpn_key''), (Settings_Tab, ''Settings'', ''settings'')]"

datatype nav_intent = Scan_Intent | Add_Intent | Compose_Intent

datatype identity_status = Status_Loading | Status_None | Status_Locked | Status_Unlocked

text \<open>
  The state of the root, what it is told (the identity, the settings, the URL the system last handed over), and the
  state of the parts on screen: the step of the intro, the Encrypt tab, the page of the settings.
\<close>

record app_root =
  rt_url :: "string option"
  rt_linkId :: "string option"
  rt_tab :: tab
  rt_intent :: "(tab \<times> nav_intent \<times> recipient option) option"
  rt_restoring :: bool
  rt_identity :: identity_status
  rt_settings :: "settings settings_provider"
  rt_onboarding :: onboarding_step
  rt_home :: "home_flow option"
  rt_page :: settings_route

datatype root_screen = Splash | Restore_Backup | Onboarding | Setup_Screen | Re_Auth | Biometric_Onboarding | Reader_Screen string | Shell tab

definition root_rendered :: "app_root \<Rightarrow> root_screen" where
  "root_rendered r =
     (case rt_identity r of
        Status_Loading \<Rightarrow> Splash
      | Status_None \<Rightarrow>
          (if rt_restoring r then Restore_Backup
           else if sp_loading (rt_settings r) then Splash
           else if \<not> st_introSeen (sp_shown (rt_settings r)) then Onboarding
           else Setup_Screen)
      | Status_Locked \<Rightarrow> Re_Auth
      | Status_Unlocked \<Rightarrow>
          (if \<not> sp_loading (rt_settings r) \<and> \<not> st_biometricOnboardingSeen (sp_shown (rt_settings r)) then Biometric_Onboarding
           else case rt_linkId r of Some i \<Rightarrow> Reader_Screen i | None \<Rightarrow> Shell (rt_tab r)))"

definition navigate :: "tab \<Rightarrow> nav_intent option \<Rightarrow> app_root \<Rightarrow> app_root" where
  "navigate t sub r = r\<lparr>rt_intent := (case sub of Some i \<Rightarrow> Some (t, i, None) | None \<Rightarrow> None), rt_tab := t\<rparr>"

definition sendToContact :: "recipient \<Rightarrow> app_root \<Rightarrow> app_root" where
  "sendToContact p r = r\<lparr>rt_intent := Some (Encrypt_Tab, Compose_Intent, Some p), rt_tab := Encrypt_Tab\<rparr>"

definition composeOnEncrypt :: "app_root \<Rightarrow> bool" where
  "composeOnEncrypt r = (case rt_intent r of Some (Encrypt_Tab, Compose_Intent, p) \<Rightarrow> True | _ \<Rightarrow> False)"

definition composeRecipient :: "app_root \<Rightarrow> recipient option" where
  "composeRecipient r = (if composeOnEncrypt r then case rt_intent r of Some (t, s, p) \<Rightarrow> p | None \<Rightarrow> None else None)"

definition contactsIntent :: "app_root \<Rightarrow> nav_intent option" where
  "contactsIntent r =
     (case rt_intent r of Some (Contacts_Tab, Scan_Intent, p) \<Rightarrow> Some Scan_Intent | Some (Contacts_Tab, Add_Intent, p) \<Rightarrow> Some Add_Intent | _ \<Rightarrow> None)"

text \<open>The account page has no button that goes back: \<open>AccountFlow\<close> does not use its \<open>onClose\<close>.\<close>

definition page_back :: "app_root \<Rightarrow> app_root" where
  "page_back r = (if rt_page r = Account_Page then r else r\<lparr>rt_page := Settings_Root\<rparr>)"

text \<open>Parts that are no longer on screen are dropped, and new ones mounted.\<close>

definition remount :: "app_root \<Rightarrow> app_root" where
  "remount r =
     r\<lparr>rt_home := (if root_rendered r = Shell Encrypt_Tab
                   then (case rt_home r of Some h \<Rightarrow> Some h | None \<Rightarrow> Some (home_mount (composeOnEncrypt r) (composeRecipient r)))
                   else None),
       rt_onboarding := (if root_rendered r = Onboarding then rt_onboarding r else Welcome),
       rt_page := (if root_rendered r = Shell Settings_Tab then rt_page r else Settings_Root)\<rparr>"

text \<open>The effect on the URL runs when the URL has changed.\<close>

definition url_arrives :: "(string \<Rightarrow> parsed_url) \<Rightarrow> string \<Rightarrow> app_root \<Rightarrow> app_root" where
  "url_arrives parse_url u r =
     (if rt_url r = Some u then r
      else case parseLinkId parse_url (Some u) of
             Some i \<Rightarrow> if i = [] then r\<lparr>rt_url := Some u\<rparr> else r\<lparr>rt_url := Some u, rt_linkId := Some i\<rparr>
           | None \<Rightarrow> r\<lparr>rt_url := Some u\<rparr>)"

definition notification_tapped :: "app_root \<Rightarrow> app_root" where
  "notification_tapped r = r\<lparr>rt_linkId := None, rt_tab := Links_Tab\<rparr>"

datatype root_event =
    Url_Arrives string
  | Notification_Tapped
  | Identity_Reports identity_status
  | Settings_Event "settings settings_event"
  | Intro_Continue
  | Intro_Skip
  | Intro_Restore
  | Restore_Back
  | Reader_Done
  | Tab_Tapped tab
  | Send_To_Contact recipient
  | Create_From_Links
  | Home_Compose
  | Home_Exit_Compose
  | Home_Open_Sheet
  | Home_Sheet_Text string
  | Home_Sheet_Clipboard string
  | Home_Sheet_Submit
  | Home_Sheet_Close
  | Home_Navigate tab "nav_intent option"
  | Home_Backup_Loaded backup_state
  | Home_Nudge_Later
  | Home_Back_Up
  | Section_Tapped settings_section
  | Page_Back

definition onGetStarted :: "app_root \<Rightarrow> app_root" where
  "onGetStarted r = r\<lparr>rt_settings := settings_step (Update (\<lambda>s. s\<lparr>st_introSeen := True\<rparr>) True) (rt_settings r)\<rparr>"

definition on_home :: "(home_flow \<Rightarrow> home_flow) \<Rightarrow> app_root \<Rightarrow> app_root" where
  "on_home f r = r\<lparr>rt_home := map_option f (rt_home r)\<rparr>"

definition home_event :: "(string \<Rightarrow> parsed_url) \<Rightarrow> home_flow \<Rightarrow> root_event \<Rightarrow> app_root \<Rightarrow> app_root" where
  "home_event parse_url h e r =
     (case e of
        Home_Exit_Compose \<Rightarrow> (if hf_route h = Compose_Route then on_home (\<lambda>h. h\<lparr>hf_route := Home_Route\<rparr>) r else r)
      | Home_Backup_Loaded b \<Rightarrow> on_home (backup_loaded b) r
      | _ \<Rightarrow>
          (if hf_route h = Compose_Route then r
           else case e of
             Home_Compose \<Rightarrow> on_home openCompose r
           | Home_Open_Sheet \<Rightarrow> on_home (\<lambda>h. h\<lparr>hf_sheet := sheet_closed\<lparr>lk_visible := True\<rparr>\<rparr>) r
           | Home_Sheet_Text t \<Rightarrow> (if lk_visible (hf_sheet h) then on_home (\<lambda>h. h\<lparr>hf_sheet := (hf_sheet h)\<lparr>lk_value := t, lk_detected := False, lk_error := False\<rparr>\<rparr>) r else r)
           | Home_Sheet_Clipboard t \<Rightarrow> on_home (\<lambda>h. h\<lparr>hf_sheet := clipboard_read parse_url t (hf_sheet h)\<rparr>) r
           | Home_Sheet_Submit \<Rightarrow>
               (if \<not> lk_visible (hf_sheet h) \<or> js_trim (lk_value (hf_sheet h)) = [] then r
                else case sheet_open parse_url (hf_sheet h) of
                  (Some i, k) \<Rightarrow> (on_home (\<lambda>h. h\<lparr>hf_sheet := sheet_closed\<rparr>) r)\<lparr>rt_linkId := Some i\<rparr>
                | (None, k) \<Rightarrow> on_home (\<lambda>h. h\<lparr>hf_sheet := k\<rparr>) r)
           | Home_Sheet_Close \<Rightarrow> on_home (\<lambda>h. h\<lparr>hf_sheet := sheet_closed\<rparr>) r
           | Home_Navigate t sub \<Rightarrow> navigate t sub r
           | Home_Nudge_Later \<Rightarrow> on_home (\<lambda>h. h\<lparr>hf_nudge := False\<rparr>) r
           | Home_Back_Up \<Rightarrow> navigate Keys_Tab None (on_home (\<lambda>h. h\<lparr>hf_nudge := False\<rparr>) r)
           | _ \<Rightarrow> r))"

definition root_event_effect :: "(string \<Rightarrow> parsed_url) \<Rightarrow> root_event \<Rightarrow> app_root \<Rightarrow> app_root" where
  "root_event_effect parse_url e r =
     (case e of
        Url_Arrives u \<Rightarrow> url_arrives parse_url u r
      | Notification_Tapped \<Rightarrow> notification_tapped r
      | Identity_Reports st \<Rightarrow> r\<lparr>rt_identity := st\<rparr>
      | Settings_Event v \<Rightarrow> r\<lparr>rt_settings := settings_step v (rt_settings r)\<rparr>
      | _ \<Rightarrow>
          (case root_rendered r of
             Onboarding \<Rightarrow>
               (case e of
                  Intro_Continue \<Rightarrow> (if rt_onboarding r = Welcome then r\<lparr>rt_onboarding := How_It_Works\<rparr> else onGetStarted r)
                | Intro_Skip \<Rightarrow> (if rt_onboarding r = Welcome then onGetStarted r else r)
                | Intro_Restore \<Rightarrow> (if rt_onboarding r = Welcome then r\<lparr>rt_restoring := True\<rparr> else r)
                | _ \<Rightarrow> r)
           | Restore_Backup \<Rightarrow> (case e of Restore_Back \<Rightarrow> r\<lparr>rt_restoring := False\<rparr> | _ \<Rightarrow> r)
           | Reader_Screen i \<Rightarrow> (case e of Reader_Done \<Rightarrow> r\<lparr>rt_linkId := None\<rparr> | _ \<Rightarrow> r)
           | Shell t \<Rightarrow>
               (case e of
                  Tab_Tapped t' \<Rightarrow> navigate t' None r
                | Send_To_Contact p \<Rightarrow> (if t = Contacts_Tab then sendToContact p r else r)
                | Create_From_Links \<Rightarrow> (if t = Links_Tab then navigate Encrypt_Tab (Some Compose_Intent) r else r)
                | Section_Tapped s \<Rightarrow>
                    (if t \<noteq> Settings_Tab \<or> rt_page r \<noteq> Settings_Root then r
                     else if s = Keys_Section then navigate Keys_Tab None r
                     else case SECTION_ROUTE s of Some p \<Rightarrow> r\<lparr>rt_page := p\<rparr> | None \<Rightarrow> r)
                | Page_Back \<Rightarrow> (if t = Settings_Tab then page_back r else r)
                | _ \<Rightarrow> (case rt_home r of Some h \<Rightarrow> home_event parse_url h e r | None \<Rightarrow> r))
           | _ \<Rightarrow> r))"

definition root_step :: "(string \<Rightarrow> parsed_url) \<Rightarrow> root_event \<Rightarrow> app_root \<Rightarrow> app_root" where
  "root_step parse_url e r = remount (root_event_effect parse_url e r)"

definition app_start :: "settings \<Rightarrow> app_root" where
  "app_start stored_record =
     \<lparr>rt_url = None, rt_linkId = None, rt_tab = Encrypt_Tab, rt_intent = None, rt_restoring = False, rt_identity = Status_Loading,
      rt_settings = provider_mounts SETTINGS_DEFAULTS stored_record, rt_onboarding = Welcome, rt_home = None, rt_page = Settings_Root\<rparr>"

end
