(* ===== verification/App_Root_Laws.thy ===== *)
theory App_Root_Laws
  imports App_Root
begin

text \<open>
  A link that arrives is opened once the gates are passed, and nothing of the shell survives a lock; what the settings
  provider keeps; and where the root loses a link, repeats an intent or offers no way back.
\<close>

section \<open>Links and gates\<close>

lemma remount_sel [simp]: "rt_linkId (remount r) = rt_linkId r" "rt_identity (remount r) = rt_identity r" "rt_settings (remount r) = rt_settings r"
  "rt_tab (remount r) = rt_tab r" "rt_restoring (remount r) = rt_restoring r" "rt_intent (remount r) = rt_intent r" "rt_url (remount r) = rt_url r"
  by (simp_all add: remount_def)

lemma rendered_remount [simp]: "root_rendered (remount r) = root_rendered r"
  by (simp only: root_rendered_def remount_sel)

text \<open>What neither dismisses a link nor brings another one.\<close>

definition keeps_link :: "(string \<Rightarrow> parsed_url) \<Rightarrow> root_event \<Rightarrow> bool" where
  "keeps_link parse_url e =
     (case e of
        Notification_Tapped \<Rightarrow> False
      | Reader_Done \<Rightarrow> False
      | Url_Arrives u \<Rightarrow> parseLinkId parse_url (Some u) = None
      | _ \<Rightarrow> True)"

lemma intro_link [simp]: "rt_linkId (onGetStarted r) = rt_linkId r"
  by (simp add: onGetStarted_def)

lemma link_kept:
  assumes "rt_linkId r = Some i" "keeps_link parse_url e"
  shows "rt_linkId (root_step parse_url e r) = Some i"
proof -
  have "root_rendered r \<noteq> Shell t" for t using assms(1) by (simp add: root_rendered_def split: identity_status.split)
  then show ?thesis using assms
    by (cases e) (auto simp: root_step_def root_event_effect_def keeps_link_def url_arrives_def split: root_screen.split)
qed

text \<open>
  C21: a link is not lost at the gates. Once an address with a link id has arrived that is not the address handled last (the
  same one again is ignored: \<open>same_link_ignored\<close>), in whatever state the app is, the id is kept through locks and
  unlocks, the first run, a restoration and changes of the settings, until the reader is left,
  a notification is tapped or another link arrives; and whenever the identity is unlocked and the biometric step is
  over, the reader for it is on screen.
\<close>

theorem link_survives_gates:
  assumes "parseLinkId parse_url (Some u) = Some i" "i \<noteq> []" "rt_url r \<noteq> Some u" "list_all (keeps_link parse_url) es"
  shows "let r' = fold (root_step parse_url) es (root_step parse_url (Url_Arrives u) r)
    in rt_linkId r' = Some i \<and> (\<forall>t. root_rendered r' \<noteq> Shell t)
       \<and> (rt_identity r' = Status_Unlocked \<and> (sp_loading (rt_settings r') \<or> st_biometricOnboardingSeen (sp_shown (rt_settings r')))
            \<longrightarrow> root_rendered r' = Reader_Screen i)"
proof -
  have "rt_linkId (fold (root_step parse_url) es r) = Some i" if "rt_linkId r = Some i" "list_all (keeps_link parse_url) es" for es r
    using that by (induction es arbitrary: r) (auto simp: link_kept)
  moreover have "rt_linkId (root_step parse_url (Url_Arrives u) r) = Some i"
    using assms(1-3) by (simp add: root_step_def root_event_effect_def url_arrives_def)
  ultimately have "rt_linkId (fold (root_step parse_url) es (root_step parse_url (Url_Arrives u) r)) = Some i" using assms(4) by blast
  then show ?thesis by (simp add: Let_def root_rendered_def split: identity_status.split)
qed

definition toy_url :: "string \<Rightarrow> parsed_url" where
  "toy_url u = \<lparr>pu_scheme = Some ''https'', pu_hostname = Some ''aesmsg.com'', pu_path = Some u\<rparr>"

theorem link_survives_gates_witness:
  "rt_linkId (fold (root_step toy_url) [Identity_Reports Status_Locked, Settings_Event Load_Reads, Settings_Event Load_Ends, Identity_Reports Status_Unlocked]
     (root_step toy_url (Url_Arrives ''l/aaaaaaaaaaaaaaaa'') (app_start (markSeen SETTINGS_DEFAULTS)))) = Some ''aaaaaaaaaaaaaaaa''
   \<and> root_rendered (fold (root_step toy_url) [Identity_Reports Status_Locked, Settings_Event Load_Reads, Settings_Event Load_Ends, Identity_Reports Status_Unlocked]
     (root_step toy_url (Url_Arrives ''l/aaaaaaaaaaaaaaaa'') (app_start (markSeen SETTINGS_DEFAULTS)))) = Reader_Screen ''aaaaaaaaaaaaaaaa''"
proof -
  let ?es = "[Identity_Reports Status_Locked, Settings_Event Load_Reads, Settings_Event Load_Ends, Identity_Reports Status_Unlocked]"
    and ?r = "app_start (markSeen SETTINGS_DEFAULTS)" and ?u = "''l/aaaaaaaaaaaaaaaa''"
  let ?r' = "fold (root_step toy_url) ?es (root_step toy_url (Url_Arrives ?u) ?r)"
  have parse: "parseLinkId toy_url (Some ?u) = Some ''aaaaaaaaaaaaaaaa''" by code_simp
  have "rt_identity ?r' = Status_Unlocked" "st_biometricOnboardingSeen (sp_shown (rt_settings ?r'))"
    by (simp_all add: root_step_def root_event_effect_def app_start_def provider_mounts_def url_arrives_def markSeen_def parse)
  with link_survives_gates [OF parse, of ?r ?es] show ?thesis by (simp add: app_start_def keeps_link_def Let_def)
qed

text \<open>Nothing of the shell survives a lock: the Encrypt tab, its draft and the page of the settings are dropped.\<close>

lemma shell_dropped:
  "rt_home (root_step parse_url e r) = None \<or> (rt_identity (root_step parse_url e r) = Status_Unlocked \<and> rt_linkId (root_step parse_url e r) = None)"
  by (auto simp: root_step_def remount_def root_rendered_def split: identity_status.splits if_splits option.splits)

section \<open>Settings\<close>

text \<open>
  What is shown is what is stored. After the load has ended, the settings shown are the stored record with every update
  since applied in order, and as long as the writes succeed the record follows.
\<close>

fun updates :: "'s settings_event list \<Rightarrow> ('s \<Rightarrow> 's) list" where
  "updates [] = []"
| "updates (Update f b # es) = f # updates es"
| "updates (_ # es) = updates es"

definition write_ok :: "'s settings_event \<Rightarrow> bool" where
  "write_ok e = (case e of Update f written \<Rightarrow> written | _ \<Rightarrow> True)"

theorem settings_follow:
  assumes "list_all write_ok es"
  shows "let p = fold settings_step ([Load_Reads, Load_Ends] @ es) (provider_mounts defaults v)
    in sp_shown p = fold (\<lambda>f. f) (updates es) v \<and> sp_stored p = sp_shown p \<and> \<not> sp_loading p"
proof -
  have "sp_shown (fold settings_step es p) = fold (\<lambda>f. f) (updates es) (sp_shown p)
      \<and> sp_stored (fold settings_step es p) = sp_shown (fold settings_step es p) \<and> \<not> sp_loading (fold settings_step es p)"
    if "sp_stored p = sp_shown p" "\<not> sp_loading p" "list_all write_ok es" for p
    using that
  proof (induction es arbitrary: p)
    case (Cons e es)
    then show ?case by (cases e) (auto simp: write_ok_def Let_def)
  qed simp
  from this [of "fold settings_step [Load_Reads, Load_Ends] (provider_mounts defaults v)"] assms show ?thesis
    by (simp add: provider_mounts_def)
qed

text \<open>
  An early update costs the rest. An update made between the start of the load and its end is lost on the screen when
  the load ends, and what it stores is the defaults with only that change: every other setting the user had made is gone
  at the next start.
\<close>

theorem early_update_overwrites:
  "let p = fold settings_step [Load_Reads, Update patch True, Load_Ends] (provider_mounts defaults v)
   in sp_shown p = v \<and> sp_stored p = patch defaults
      \<and> sp_shown (fold settings_step [Load_Reads, Load_Ends] (provider_mounts defaults (sp_stored p))) = patch defaults"
  by (simp add: provider_mounts_def Let_def)

section \<open>Lost links, repeated intents, dead ends\<close>

lemma shell_rendered:
  assumes "rt_identity r = Status_Unlocked" "sp_loading (rt_settings r) \<or> st_biometricOnboardingSeen (sp_shown (rt_settings r))"
  shows "root_rendered r = (case rt_linkId r of Some i \<Rightarrow> Reader_Screen i | None \<Rightarrow> Shell (rt_tab r))"
  using assms by (auto simp: root_rendered_def)

text \<open>
  The same link twice. After the reader of a link has been left, tapping the same link again outside the app does
  nothing: the address is the one the app already has, so nothing opens.
\<close>

theorem same_link_ignored:
  assumes "rt_identity r = Status_Unlocked" "st_biometricOnboardingSeen (sp_shown (rt_settings r))" "rt_url r \<noteq> Some u"
    "parseLinkId parse_url (Some u) = Some i" "i \<noteq> []"
  shows "root_rendered (root_step parse_url (Url_Arrives u) r) = Reader_Screen i
    \<and> root_rendered (fold (root_step parse_url) [Url_Arrives u, Reader_Done, Url_Arrives u] r) = Shell (rt_tab r)"
proof -
  let ?r1 = "root_step parse_url (Url_Arrives u) r"
  let ?r2 = "root_step parse_url Reader_Done ?r1"
  have r1: "rt_identity ?r1 = Status_Unlocked" "rt_settings ?r1 = rt_settings r" "rt_linkId ?r1 = Some i" "rt_tab ?r1 = rt_tab r" "rt_url ?r1 = Some u"
    using assms by (simp_all add: root_step_def root_event_effect_def url_arrives_def)
  have rend: "root_rendered ?r1 = Reader_Screen i" using shell_rendered [of ?r1] r1 assms(2) by simp
  have r2: "rt_identity ?r2 = Status_Unlocked" "rt_settings ?r2 = rt_settings r" "rt_linkId ?r2 = None" "rt_tab ?r2 = rt_tab r" "rt_url ?r2 = Some u"
    using r1 rend by (simp_all add: root_step_def [of _ Reader_Done] root_event_effect_def)
  have "rt_identity (root_step parse_url (Url_Arrives u) ?r2) = Status_Unlocked" "rt_settings (root_step parse_url (Url_Arrives u) ?r2) = rt_settings r"
    "rt_linkId (root_step parse_url (Url_Arrives u) ?r2) = None" "rt_tab (root_step parse_url (Url_Arrives u) ?r2) = rt_tab r"
    using r2 by (simp_all add: root_step_def [of _ "Url_Arrives u" ?r2] root_event_effect_def url_arrives_def)
  then show ?thesis using rend shell_rendered [of "root_step parse_url (Url_Arrives u) ?r2"] assms(2) by simp
qed

text \<open>
  The intent is not used up. After "Send secure message" on a contact and leaving the composer, locking and unlocking the
  app opens the composer with that recipient again.
\<close>

theorem intent_replayed:
  assumes "rt_identity r = Status_Unlocked" "st_biometricOnboardingSeen (sp_shown (rt_settings r))" "rt_linkId r = None"
    "rt_tab r = Contacts_Tab" "rt_home r = None"
  shows "let r1 = fold (root_step parse_url) [Send_To_Contact p, Home_Exit_Compose] r;
             r2 = fold (root_step parse_url) [Identity_Reports Status_Locked, Identity_Reports Status_Unlocked] r1
    in map_option hf_route (rt_home r1) = Some Home_Route \<and> map_option hf_route (rt_home r2) = Some Compose_Route
       \<and> map_option hf_recipient (rt_home r2) = Some (Some p)"
  using assms
  by (simp add: root_step_def root_event_effect_def remount_def root_rendered_def sendToContact_def home_event_def on_home_def home_mount_def
      composeOnEncrypt_def composeRecipient_def Let_def)

text \<open>
  No way back from the account. On the account page of the settings no event leads back to the list of the settings: it
  stays until another tab, a link, a lock or a gate takes the settings off the screen.
\<close>

theorem account_is_dead_end:
  assumes "root_rendered r = Shell Settings_Tab" "rt_page r = Account_Page"
  shows "root_rendered (root_step parse_url e r) = Shell Settings_Tab \<longrightarrow> rt_page (root_step parse_url e r) = Account_Page"
proof -
  have home: "rt_page (home_event parse_url h e r) = rt_page r" for h
    by (simp add: home_event_def on_home_def navigate_def sheet_open_def split: root_event.split option.split prod.split)
  have "rt_page (root_event_effect parse_url e r) = Account_Page"
    using assms home
    by (cases e) (auto simp: root_event_effect_def url_arrives_def notification_tapped_def navigate_def sendToContact_def page_back_def
        split: option.split)
  moreover have "rt_page (remount q) = rt_page q" if "root_rendered q = Shell Settings_Tab" for q
    using that by (simp add: remount_def)
  ultimately show ?thesis by (simp add: root_step_def)
qed

text \<open>
  After a restoration, a wipe leads back to restoring. The detour of the intro is not ended by the restoration that
  succeeds: when the identity is wiped later on, the app shows the restore screen instead of the setup.
\<close>

theorem wipe_leads_to_restore:
  assumes "root_rendered r = Onboarding" "rt_onboarding r = Welcome"
  shows "root_rendered (fold (root_step parse_url) [Intro_Restore, Identity_Reports Status_Unlocked, Identity_Reports Status_None] r) = Restore_Backup"
proof -
  let ?r1 = "root_step parse_url Intro_Restore r"
  have "rt_restoring ?r1" using assms by (simp add: root_step_def root_event_effect_def)
  then have "rt_restoring (root_step parse_url (Identity_Reports Status_Unlocked) ?r1)"
    by (simp add: root_step_def [of _ "Identity_Reports Status_Unlocked"] root_event_effect_def)
  then show ?thesis
    by (simp add: root_step_def [of _ "Identity_Reports Status_None"] root_event_effect_def root_rendered_def [of "r\<lparr>rt_identity := Status_None\<rparr>" for r])
qed

end
