(* ===== verification/Key_Screens.thy ===== *)
theory Key_Screens
  imports Key_Wrap Device_Files
begin

text \<open>
  The screens around the key: how strong a passphrase is (apps/mobile/src/keys/passphrase-strength.ts,
  apps/webapp/src/identity/passphrase-strength.ts), the Keys tab (apps/mobile/src/keys/KeysFlow.tsx) and, in the web
  client, setting a passphrase, exporting a backup and confirming a wipe (screens/SetPassphraseScreen.tsx,
  ExportBackupScreen.tsx, components/WipeConfirmDialog.tsx).
  Texts are strings of Latin-1 characters.
\<close>

section \<open>Cases and classes of characters\<close>

definition lower_char :: "char \<Rightarrow> char" where
  "lower_char c =
     (let n = of_char c :: nat in
      if (65 \<le> n \<and> n \<le> 90) \<or> (0xC0 \<le> n \<and> n \<le> 0xDE \<and> n \<noteq> 0xD7) then char_of (n + 32) else c)"

definition toLowerCase :: "string \<Rightarrow> string" where
  "toLowerCase s = map lower_char s"

definition between_chars :: "nat \<Rightarrow> nat \<Rightarrow> char \<Rightarrow> bool" where
  "between_chars a b c = (a \<le> of_char c \<and> (of_char c :: nat) \<le> b)"

abbreviation is_lower_az :: "char \<Rightarrow> bool" where "is_lower_az \<equiv> between_chars 97 122"
abbreviation is_upper_az :: "char \<Rightarrow> bool" where "is_upper_az \<equiv> between_chars 65 90"
abbreviation is_digit09 :: "char \<Rightarrow> bool" where "is_digit09 \<equiv> between_chars 48 57"

definition is_other :: "char \<Rightarrow> bool" where
  "is_other c = (\<not> is_lower_az c \<and> \<not> is_upper_az c \<and> \<not> is_digit09 c)"

text \<open>\<open>indexOf\<close> and \<open>includes\<close>.\<close>

fun has_prefix :: "string \<Rightarrow> string \<Rightarrow> bool" where
  "has_prefix [] s = True"
| "has_prefix (c # p) [] = False"
| "has_prefix (c # p) (d # s) = (c = d \<and> has_prefix p s)"

fun includes_text :: "string \<Rightarrow> string \<Rightarrow> bool" where
  "includes_text t [] = (t = [])"
| "includes_text t (c # s) = (has_prefix t (c # s) \<or> includes_text t s)"

section \<open>The mobile gate\<close>

definition MIN_PASSPHRASE_LENGTH :: nat where "MIN_PASSPHRASE_LENGTH = 12"
definition MIN_EXPORT_ENTROPY_BITS :: nat where "MIN_EXPORT_ENTROPY_BITS = 60"

definition COMMON_TOKENS :: "string list" where
  "COMMON_TOKENS = [''password'', ''passw0rd'', ''qwerty'', ''qwertyuiop'', ''asdfgh'', ''zxcvbn'', ''letmein'', ''welcome'', ''admin'',
     ''iloveyou'', ''monkey'', ''dragon'', ''abc123'', ''master'', ''login'', ''sunshine'', ''princess'', ''trustno1'', ''football'',
     ''baseball'', ''superman'', ''starwars'', ''whatever'', ''secret'', ''changeme'', ''aesmsg'']"

definition charPoolSize :: "string \<Rightarrow> nat" where
  "charPoolSize pw =
     max ((if list_ex is_lower_az pw then 26 else 0) + (if list_ex is_upper_az pw then 26 else 0)
          + (if list_ex is_digit09 pw then 10 else 0) + (if list_ex is_other pw then 32 else 0)) 1"

definition continuesRun :: "char \<Rightarrow> char \<Rightarrow> bool" where
  "continuesRun a b = (a = b \<or> \<bar>(of_char a :: int) - of_char b\<bar> = 1)"

text \<open>Effective lengths are in tenths of a character: 10 for a new one, 3 for one that continues a run.\<close>

fun run_tenths :: "string \<Rightarrow> int" where
  "run_tenths [] = 0"
| "run_tenths [c] = 10"
| "run_tenths (a # b # s) = (if continuesRun a b then 3 else 10) + run_tenths (b # s)"

text \<open>The occurrences of a token that the search finds, each from the end of the one before.\<close>

function token_hits :: "string \<Rightarrow> string \<Rightarrow> nat" where
  "token_hits token s =
     (if token = [] \<or> length s < length token then 0
      else if has_prefix token s then Suc (token_hits token (drop (length token) s))
      else token_hits token (tl s))"
  by pat_completeness auto
termination
proof (relation "measure (\<lambda>(token, s). length s)")
  fix token s :: string
  assume "\<not> (token = [] \<or> length s < length token)"
  then have "0 < length token" "0 < length s" by auto
  then show "((token, drop (length token) s), token, s) \<in> measure (\<lambda>(token, s). length s)"
    "((token, tl s), token, s) \<in> measure (\<lambda>(token, s). length s)" by auto
qed simp

declare token_hits.simps [simp del]

definition token_tenths :: "string \<Rightarrow> string \<Rightarrow> int" where
  "token_tenths lower token = int (token_hits token lower) * max 0 (10 * int (length token) - 15)"

definition effectiveTenths :: "string \<Rightarrow> int" where
  "effectiveTenths pw =
     (if length pw = 0 then 0
      else let lower = toLowerCase pw in max 0 (run_tenths lower - sum_list (map (token_tenths lower) COMMON_TOKENS)))"

text \<open>
  Ten times the bits, rounded as \<open>Math.round\<close> does: with k tenths over a pool of p, the largest n with
  \<open>2 ^ (2 * n - 1) \<le> p ^ (2 * k)\<close>, that is \<open>n \<le> k * log2 p + 1 / 2\<close>.
\<close>

fun log2_floor :: "nat \<Rightarrow> nat" where
  "log2_floor n = (if n < 2 then 0 else Suc (log2_floor (n div 2)))"

declare log2_floor.simps [simp del]

definition estimateTenthBits :: "string \<Rightarrow> nat" where
  "estimateTenthBits pw =
     (if length pw = 0 then 0 else (log2_floor (charPoolSize pw ^ (2 * nat (effectiveTenths pw))) + 1) div 2)"

definition scorePassphrase :: "string \<Rightarrow> nat" where
  "scorePassphrase pw =
     (let bits = estimateTenthBits pw in
      if length pw = 0 then 0 else if bits < 360 then 1 else if bits < 10 * MIN_EXPORT_ENTROPY_BITS then 2
      else if bits < 900 then 3 else 4)"

definition strengthLabel :: "string \<Rightarrow> nat \<Rightarrow> string" where
  "strengthLabel pw score =
     (if length pw = 0 then [] else if score \<le> 1 then ''Very weak'' else if score = 2 then ''Weak'' else if score = 3 then ''Strong''
      else ''Very strong'')"

record passphrase_strength =
  ps_score :: nat
  ps_tenthBits :: nat
  ps_label :: string
  ps_requirements :: "(string \<times> string \<times> bool) list"
  ps_canExport :: bool
  ps_mismatch :: bool

definition evaluatePassphrase :: "string \<Rightarrow> string \<Rightarrow> string list \<Rightarrow> passphrase_strength" where
  "evaluatePassphrase pw cf reused =
     (let longEnough = length pw \<ge> MIN_PASSPHRASE_LENGTH;
          strongEnough = estimateTenthBits pw \<ge> 10 * MIN_EXPORT_ENTROPY_BITS;
          notReused = length pw > 0 \<and> pw \<notin> set reused;
          requirements = [(''length'', ''12+ characters'', longEnough), (''strength'', ''Hard to guess (avoid common words)'', strongEnough),
            (''reuse'', ''Not a reused passphrase'', notReused)];
          allMet = list_all (\<lambda>(k, l, m). m) requirements;
          matches = (length pw > 0 \<and> pw = cf);
          score = scorePassphrase pw
      in \<lparr>ps_score = score, ps_tenthBits = estimateTenthBits pw, ps_label = strengthLabel pw score, ps_requirements = requirements,
          ps_canExport = (allMet \<and> matches), ps_mismatch = (length pw > 0 \<and> length cf > 0 \<and> pw \<noteq> cf)\<rparr>)"

section \<open>The web guidance\<close>

definition COMMON_WEAK :: "string list" where
  "COMMON_WEAK = [''password'', ''passphrase'', ''12345678'', ''123456789'', ''1234567890'', ''qwertyuiop'', ''letmein'', ''iloveyou'',
     ''admin'', ''welcome'']"

definition SEQUENCES :: "string list" where
  "SEQUENCES = [''abcdefghijklmnopqrstuvwxyz'', ''0123456789'', ''qwertyuiopasdfghjklzxcvbnm'']"

definition chunks_of4 :: "string \<Rightarrow> string list" where
  "chunks_of4 s = map (\<lambda>i. take 4 (drop i s)) [0..<length s - 3]"

definition hasRun :: "string \<Rightarrow> bool" where
  "hasRun pw = (let lower = toLowerCase pw in list_ex (\<lambda>sq. list_ex (\<lambda>chunk. includes_text chunk lower) (chunks_of4 sq)) SEQUENCES)"

datatype passphrase_tip = Use_Twelve | Add_More nat | Longer_Is_Stronger | Mix_Classes | Avoid_Runs | Commonly_Used

record assessment =
  as_score :: int
  as_label :: string
  as_tips :: "passphrase_tip list"
  as_acceptable :: bool

definition SCORE_LABELS :: "int \<Rightarrow> string" where
  "SCORE_LABELS n = (if n \<le> 0 then ''Too weak'' else if n = 1 then ''Weak'' else if n = 2 then ''Fair'' else if n = 3 then ''Strong'' else ''Very strong'')"

definition assessPassphrase :: "string \<Rightarrow> assessment" where
  "assessPassphrase pw =
     (let n = length pw; acceptable = (n \<ge> MIN_PASSPHRASE_LENGTH) in
      if n = 0 then \<lparr>as_score = 0, as_label = SCORE_LABELS 0, as_tips = [Use_Twelve], as_acceptable = False\<rparr>
      else
        let classes = (if list_ex is_lower_az pw then 1 else 0) + (if list_ex is_upper_az pw then 1 else 0)
              + (if list_ex is_digit09 pw then 1 else 0) + (if list_ex is_other pw then 1 else (0 :: int));
            s1 = (if n \<ge> 20 then 3 else if n \<ge> 16 then 2 else if n \<ge> MIN_PASSPHRASE_LENGTH then 1 else (0 :: int));
            s2 = s1 + (if classes \<ge> 3 then 2 else if classes \<ge> 2 then 1 else 0);
            common = toLowerCase pw \<in> set COMMON_WEAK;
            s3 = (if common then 0 else s2);
            s4 = (if hasRun pw then max 0 (s3 - 1) else s3);
            tips = (if n < MIN_PASSPHRASE_LENGTH then [Add_More (MIN_PASSPHRASE_LENGTH - n)] else if n < 16 then [Longer_Is_Stronger] else [])
              @ (if classes < 3 then [Mix_Classes] else []) @ (if hasRun pw then [Avoid_Runs] else []) @ (if common then [Commonly_Used] else []);
            clamped = max 0 (min 4 s4)
        in \<lparr>as_score = clamped, as_label = SCORE_LABELS clamped, as_tips = tips, as_acceptable = acceptable\<rparr>)"

text \<open>\<open>canSubmit\<close> of the screen that sets the passphrase.\<close>

definition set_canSubmit :: "string \<Rightarrow> string \<Rightarrow> bool \<Rightarrow> bool" where
  "set_canSubmit passphrase confirm submitting =
     (as_acceptable (assessPassphrase passphrase) \<and> passphrase = confirm \<and> length confirm > 0 \<and> \<not> submitting)"

section \<open>The Keys tab (mobile)\<close>

datatype keys_route = Public_Key | Export_Backup | Rotate_Confirm | Rotate_Success string

text \<open>
  The flow, None when it is not on screen; the backup files in the cache; and the exports under way: prompts that are
  up, and wraps that run for a mount that may be gone (its number is kept).
\<close>

record keys_flow =
  kf_mount :: nat
  kf_route :: keys_route
  kf_exporting :: bool
  kf_done :: bool
  kf_rotating :: bool
  kf_written :: "string option"

record keys_system =
  ks_flow :: "keys_flow option"
  ks_mounts :: nat
  ks_prompts :: "nat list"
  ks_wraps :: "nat list"
  ks_cache :: "string list"

definition keys_start :: keys_system where
  "keys_start = \<lparr>ks_flow = None, ks_mounts = 0, ks_prompts = [], ks_wraps = [], ks_cache = []\<rparr>"

definition on_mount :: "nat \<Rightarrow> (keys_flow \<Rightarrow> keys_flow) \<Rightarrow> keys_system \<Rightarrow> keys_system" where
  "on_mount m g s = s\<lparr>ks_flow := map_option (\<lambda>f. if kf_mount f = m then g f else f) (ks_flow s)\<rparr>"

text \<open>\<open>handleExport\<close> up to its prompt, after the prompt, and when the file is written (None when wrapping or writing fails).\<close>

definition export_tapped :: "keys_flow \<Rightarrow> keys_system \<Rightarrow> keys_system" where
  "export_tapped f s = (if kf_exporting f then s else s\<lparr>ks_prompts := ks_prompts s @ [kf_mount f]\<rparr>)"

definition prompt_passed :: "nat \<Rightarrow> keys_system \<Rightarrow> keys_system" where
  "prompt_passed m s = on_mount m (\<lambda>f. f\<lparr>kf_exporting := True\<rparr>) (s\<lparr>ks_wraps := ks_wraps s @ [m]\<rparr>)"

definition export_ends :: "nat \<Rightarrow> string option \<Rightarrow> keys_system \<Rightarrow> keys_system" where
  "export_ends m uri s =
     (case uri of
        None \<Rightarrow> on_mount m (\<lambda>f. f\<lparr>kf_exporting := False\<rparr>) s
      | Some u \<Rightarrow> on_mount m (\<lambda>f. f\<lparr>kf_exporting := False, kf_done := True, kf_written := Some u\<rparr>) (s\<lparr>ks_cache := ks_cache s @ [u]\<rparr>))"

definition dismissExportDone :: "keys_flow \<Rightarrow> keys_system \<Rightarrow> keys_system" where
  "dismissExportDone f s =
     s\<lparr>ks_flow := Some (f\<lparr>kf_done := False, kf_written := None\<rparr>),
       ks_cache := (case kf_written f of Some u \<Rightarrow> filter (\<lambda>v. v \<noteq> u) (ks_cache s) | None \<Rightarrow> ks_cache s)\<rparr>"

datatype keys_event =
    Keys_Mount
  | Keys_Leave
  | To_Export
  | To_Rotate
  | To_Public_Key
  | Export_Tap string string
  | Prompt_Ends nat bool
  | Export_Written nat "string option"
  | Dismiss_Done
  | Rotate_Tap
  | Rotate_Ends nat "string option"

definition drop_nth :: "nat \<Rightarrow> 'a list \<Rightarrow> 'a list" where
  "drop_nth n xs = take n xs @ drop (Suc n) xs"

definition keys_step :: "keys_event \<Rightarrow> keys_system \<Rightarrow> keys_system" where
  "keys_step e s =
     (case e of
        Keys_Mount \<Rightarrow>
          (if ks_flow s \<noteq> None then s
           else s\<lparr>ks_flow := Some \<lparr>kf_mount = ks_mounts s, kf_route = Public_Key, kf_exporting = False, kf_done = False, kf_rotating = False,
                                   kf_written = None\<rparr>, ks_mounts := Suc (ks_mounts s)\<rparr>)
      | Keys_Leave \<Rightarrow> s\<lparr>ks_flow := None\<rparr>
      | Prompt_Ends n ok \<Rightarrow>
          (if n < length (ks_prompts s)
           then let s1 = s\<lparr>ks_prompts := drop_nth n (ks_prompts s)\<rparr> in if ok then prompt_passed (ks_prompts s ! n) s1 else s1
           else s)
      | Export_Written n uri \<Rightarrow>
          (if n < length (ks_wraps s) then export_ends (ks_wraps s ! n) uri (s\<lparr>ks_wraps := drop_nth n (ks_wraps s)\<rparr>) else s)
      | Rotate_Ends m key \<Rightarrow>
          on_mount m (\<lambda>f. case key of Some k \<Rightarrow> f\<lparr>kf_route := Rotate_Success k, kf_rotating := False\<rparr> | None \<Rightarrow> f\<lparr>kf_rotating := False\<rparr>) s
      | _ \<Rightarrow>
          (case ks_flow s of
             None \<Rightarrow> s
           | Some f \<Rightarrow>
               (case (e, kf_route f) of
                  (To_Export, Public_Key) \<Rightarrow> s\<lparr>ks_flow := Some (f\<lparr>kf_route := Export_Backup\<rparr>)\<rparr>
                | (To_Rotate, Public_Key) \<Rightarrow> s\<lparr>ks_flow := Some (f\<lparr>kf_route := Rotate_Confirm\<rparr>)\<rparr>
                | (To_Public_Key, r) \<Rightarrow> s\<lparr>ks_flow := Some (f\<lparr>kf_route := Public_Key\<rparr>)\<rparr>
                | (Export_Tap pw cf, Export_Backup) \<Rightarrow>
                    (if ps_canExport (evaluatePassphrase pw cf []) \<and> \<not> kf_exporting f then export_tapped f s else s)
                | (Dismiss_Done, Export_Backup) \<Rightarrow> (if kf_done f then dismissExportDone f s else s)
                | (Rotate_Tap, Rotate_Confirm) \<Rightarrow>
                    (if kf_rotating f then s else s\<lparr>ks_flow := Some (f\<lparr>kf_rotating := True\<rparr>)\<rparr>)
                | _ \<Rightarrow> s)))"

section \<open>The web screens\<close>

text \<open>
  Exporting a backup: the passphrase must open the stored envelope, and the file is wrapped with it anew. The result of a
  submission: nothing, an error, the file, or, when building the file rejects, a screen that stays busy.
\<close>

datatype export_result = Export_Ignored | Export_Mismatch | Export_Failed | Export_Stuck | Exported backup_file

definition web_export :: "('pub, 'priv) hpke_suite \<Rightarrow> platform \<Rightarrow> string option \<Rightarrow> ('pub, 'priv) identity_impl option \<Rightarrow> bool \<Rightarrow> js_text
    \<Rightarrow> bytes \<Rightarrow> bytes \<Rightarrow> export_result" where
  "web_export S P storedWrapped identity busy passphrase salt iv =
     (case (identity, storedWrapped) of
        (Some k, Some wrapped) \<Rightarrow>
          (if passphrase = [] \<or> busy then Export_Ignored
           else case unwrapPrivateKey S P wrapped passphrase of
                  Inl BadPassphraseError \<Rightarrow> Export_Mismatch
                | Inl e \<Rightarrow> Export_Failed
                | Inr i \<Rightarrow> (case buildBackup S P k passphrase salt iv of Inl e \<Rightarrow> Export_Stuck | Inr b \<Rightarrow> Exported b))
      | _ \<Rightarrow> Export_Ignored)"

text \<open>
  The dialog that confirms a wipe. \<open>upper_char\<close> is exact for telling whether a Latin-1 character becomes a capital letter
  A to Z; the component stays mounted while it is closed.
\<close>

definition upper_char :: "char \<Rightarrow> char" where
  "upper_char c = (if is_lower_az c then char_of ((of_char c :: nat) - 32) else c)"

definition WIPE_CONFIRM_WORD :: string where "WIPE_CONFIRM_WORD = ''WIPE''"

definition matchesWipeConfirm :: "string \<Rightarrow> bool" where
  "matchesWipeConfirm s = (map upper_char (js_trim s) = WIPE_CONFIRM_WORD)"

record wipe_dialog =
  wd_open :: bool
  wd_typed :: string

datatype wipe_event = Wipe_Open | Wipe_Type string | Wipe_Cancel | Wipe_Confirm

text \<open>A step, and whether it wipes; the host closes the dialog when it has started the wipe.\<close>

definition wipe_dialog_step :: "wipe_event \<Rightarrow> wipe_dialog \<Rightarrow> wipe_dialog \<times> bool" where
  "wipe_dialog_step e d =
     (case e of
        Wipe_Open \<Rightarrow> (d\<lparr>wd_open := True\<rparr>, False)
      | Wipe_Type t \<Rightarrow> (if wd_open d then (d\<lparr>wd_typed := t\<rparr>, False) else (d, False))
      | Wipe_Cancel \<Rightarrow> (if wd_open d then (d\<lparr>wd_open := False, wd_typed := []\<rparr>, False) else (d, False))
      | Wipe_Confirm \<Rightarrow> (if wd_open d \<and> matchesWipeConfirm (wd_typed d) then (d\<lparr>wd_open := False\<rparr>, True) else (d, False)))"

end
