(* ===== verification/Key_Screens_Laws.thy ===== *)
theory Key_Screens_Laws
  imports Key_Screens Identity_Properties
begin

text \<open>
  What the export gate admits, how the two clients' ideas of a strong passphrase differ, that an exported backup opens
  again, what stands before an export and before a wipe, and where a backup file and an armed wipe are left behind.
\<close>

section \<open>Strength\<close>

lemma log2_floor_bounds: "0 < n \<Longrightarrow> 2 ^ log2_floor n \<le> n \<and> n < 2 ^ Suc (log2_floor n)"
proof (induction n rule: log2_floor.induct)
  case (1 n)
  show ?case
  proof (cases "n < 2")
    case True
    with 1 show ?thesis by (simp add: log2_floor.simps [of n])
  next
    case False
    then have "2 ^ log2_floor (n div 2) \<le> n div 2 \<and> n div 2 < 2 ^ Suc (log2_floor (n div 2))" using 1 by simp
    then have "2 * 2 ^ log2_floor (n div 2) \<le> n \<and> n < 2 * 2 ^ Suc (log2_floor (n div 2))" by linarith
    then show ?thesis using False by (simp add: log2_floor.simps [of n])
  qed
qed

lemma log2_floor_ge: "0 < n \<Longrightarrow> m \<le> log2_floor n \<longleftrightarrow> 2 ^ m \<le> n"
proof -
  assume "0 < n"
  then have b: "2 ^ log2_floor n \<le> n" "n < 2 ^ Suc (log2_floor n)" using log2_floor_bounds by blast+
  show ?thesis
  proof
    assume "m \<le> log2_floor n"
    then have "(2 :: nat) ^ m \<le> 2 ^ log2_floor n" by (intro power_increasing) auto
    then show "2 ^ m \<le> n" using b(1) by (rule order_trans)
  next
    assume "2 ^ m \<le> n"
    then have "(2 :: nat) ^ m < 2 ^ Suc (log2_floor n)" using b(2) by (rule order_le_less_trans)
    then show "m \<le> log2_floor n" by (simp only: power_strict_increasing_iff less_Suc_eq_le one_less_numeral_iff semiring_norm)
  qed
qed

lemma pool_pos: "0 < charPoolSize pw"
  by (simp add: charPoolSize_def)

lemma run_le: "run_tenths s \<le> 10 * int (length s)"
  by (induction s rule: run_tenths.induct) auto

lemma token_nonneg: "0 \<le> token_tenths l t"
  by (simp add: token_tenths_def)

lemma effective_le: "effectiveTenths pw \<le> 10 * int (length pw)"
proof -
  have "0 \<le> sum_list (map (token_tenths (toLowerCase pw)) COMMON_TOKENS)" by (rule sum_list_nonneg) (auto simp: token_nonneg)
  then show ?thesis using run_le [of "toLowerCase pw"] by (auto simp: effectiveTenths_def Let_def toLowerCase_def)
qed

text \<open>
  The floor of an export. A passphrase can be exported with exactly if it is confirmed, not known as reused, at least
  twelve characters long, and its effective characters, over the alphabet it draws from, leave at least 2 to the 59.95
  possibilities; and its effective characters are never more than its characters.
\<close>

theorem export_floor:
  "ps_canExport (evaluatePassphrase pw cf reused) \<longleftrightarrow>
     cf = pw \<and> pw \<notin> set reused \<and> 12 \<le> length pw \<and> 2 ^ 1199 \<le> charPoolSize pw ^ (2 * nat (effectiveTenths pw))
     \<and> nat (effectiveTenths pw) \<le> 10 * length pw"
proof -
  let ?n = "charPoolSize pw ^ (2 * nat (effectiveTenths pw))"
  have "1199 \<le> log2_floor ?n \<longleftrightarrow> 2 ^ 1199 \<le> ?n" by (rule log2_floor_ge) (simp add: pool_pos)
  moreover have "600 \<le> (log2_floor ?n + 1) div 2 \<longleftrightarrow> 1199 \<le> log2_floor ?n" by linarith
  moreover have "nat (effectiveTenths pw) \<le> 10 * length pw" using effective_le [of pw] by linarith
  ultimately show ?thesis
    by (auto simp: evaluatePassphrase_def estimateTenthBits_def MIN_PASSPHRASE_LENGTH_def MIN_EXPORT_ENTROPY_BITS_def Let_def
        simp del: log2_floor.simps power_strict_increasing_iff)
qed

lemma acceptable_length [simp]: "as_acceptable (assessPassphrase pw) \<longleftrightarrow> 12 \<le> length pw"
  by (simp only: assessPassphrase_def MIN_PASSPHRASE_LENGTH_def Let_def if_distrib [of as_acceptable] assessment.simps) auto

lemma common_short: "12 \<le> length pw \<Longrightarrow> toLowerCase pw \<notin> set COMMON_WEAK"
proof -
  have "\<forall>w \<in> set COMMON_WEAK. length w < 12" by (simp add: COMMON_WEAK_def)
  moreover have "length (toLowerCase pw) = length pw" by (simp add: toLowerCase_def)
  ultimately show "12 \<le> length pw \<Longrightarrow> toLowerCase pw \<notin> set COMMON_WEAK" by force
qed

lemma score_bounds:
  "0 \<le> as_score (assessPassphrase pw) \<and> as_score (assessPassphrase pw) \<le> 4 \<and> (length pw < 12 \<longrightarrow> as_score (assessPassphrase pw) \<le> 2)"
proof -
  define c where "c = (if list_ex is_lower_az pw then 1 else 0) + (if list_ex is_upper_az pw then 1 else 0)
              + (if list_ex is_digit09 pw then 1 else 0) + (if list_ex is_other pw then 1 else (0 :: int))"
  define s1 where "s1 = (if length pw \<ge> 20 then 3 else if length pw \<ge> 16 then 2 else if length pw \<ge> 12 then 1 else (0 :: int))"
  define g where "g = (if c \<ge> 3 then 2 else if c \<ge> 2 then 1 else (0 :: int))"
  define s3 where "s3 = (if toLowerCase pw \<in> set COMMON_WEAK then 0 else s1 + g)"
  have "as_score (assessPassphrase pw) = (if length pw = 0 then 0 else max 0 (min 4 (if hasRun pw then max 0 (s3 - 1) else s3)))"
    unfolding assessPassphrase_def Let_def s3_def s1_def g_def c_def MIN_PASSPHRASE_LENGTH_def
    by (simp only: if_distrib [of as_score] assessment.simps)
  moreover have "length pw < 12 \<longrightarrow> s3 \<le> 2" by (simp add: s3_def s1_def g_def)
  ultimately show ?thesis by auto
qed

text \<open>
  A green meter can be submitted. The web client calls a passphrase strong only if it is also accepted: at least twelve
  characters, none of the common ones. The score is between 0 and 4.
\<close>

theorem green_is_acceptable:
  "0 \<le> as_score (assessPassphrase pw) \<and> as_score (assessPassphrase pw) \<le> 4
   \<and> (as_score (assessPassphrase pw) \<le> 2 \<or> set_canSubmit pw pw False \<and> toLowerCase pw \<notin> set COMMON_WEAK)"
  using score_bounds [of pw] common_short [of pw] by (cases "length pw < 12") (auto simp: set_canSubmit_def)

text \<open>
  One floor, not two. The web client accepts, and so exports backups under, a passphrase that the mobile client refuses
  to export with, whatever it is told about reuse.
\<close>

theorem web_below_floor:
  "\<exists>pw. set_canSubmit pw pw False \<and> (\<forall>cf reused. \<not> ps_canExport (evaluatePassphrase pw cf reused))"
proof -
  have "set_canSubmit ''password1234'' ''password1234'' False" by code_simp
  moreover have "charPoolSize ''password1234'' = 36" "effectiveTenths ''password1234'' = 27" by code_simp+
  then have "\<not> (2 :: nat) ^ 1199 \<le> charPoolSize ''password1234'' ^ (2 * nat (effectiveTenths ''password1234''))" by simp
  ultimately show ?thesis unfolding export_floor by blast
qed

section \<open>Backups\<close>

text \<open>
  C23: a backup opens again. When the web screen hands out a backup, the passphrase had opened the stored key, and on any
  device, with either of the two Argon2id libraries, restoring from the file with that passphrase gives the identity back.
\<close>

theorem web_backup_opens:
  assumes "hpke_correct S" "platform_ok P" "generateIdentity S kp = Inr k" "length salt = 16" "length iv = 12"
    "web_export S P (Some w) (Some k) busy pw salt iv = Exported b"
  shows "restoreIdentity S (on_backend wasm forced P) (bf_contents b) pw = Inr k \<and> bf_filename b = BACKUP_FILENAME
    \<and> (\<exists>i. unwrapPrivateKey S P w pw = Inr i) \<and> pw \<noteq> [] \<and> \<not> busy"
proof -
  obtain i s where u: "unwrapPrivateKey S P w pw = Inr i" "pw \<noteq> []" "\<not> busy"
    "wrapPrivateKey S P k pw DEFAULT_WRAP_KDF_PARAMS salt iv = Inr s" "b = \<lparr>bf_filename = BACKUP_FILENAME, bf_contents = s\<rparr>"
    using assms(6) by (auto simp: web_export_def buildBackup_def result_simps split: if_splits sum.splits crypto_error.splits)
  have "unwrapPrivateKey S (on_backend wasm forced P) s pw = Inr k" using wrap_unwrap(1) [OF assms(1-5) u(4)] .
  then show ?thesis using u by (simp add: restoreIdentity_def)
qed

theorem web_backup_opens_witness:
  "\<exists>k w b. web_export toy_suite toy_platform (Some w) (Some k) False [0x61] (replicate 16 1) (replicate 12 2) = Exported b
     \<and> restoreIdentity toy_suite (on_backend False None toy_platform) (bf_contents b) [0x61] = Inr k"
proof (rule toy_wrapped [of "[0x61]"])
  fix k w assume a: "generateIdentity toy_suite (5, 5) = Inr k"
    "wrapPrivateKey toy_suite toy_platform k [0x61] DEFAULT_WRAP_KDF_PARAMS (replicate 16 1) (replicate 12 2) = Inr w"
  have "unwrapPrivateKey toy_suite toy_platform w [0x61] = Inr k"
    using wrap_unwrap(1) [OF toy_correct toy_platform_ok a(1) _ _ a(2), of "has_wasm toy_platform" "forced_backend toy_platform"] by (simp add: on_backend_def)
  then have e: "web_export toy_suite toy_platform (Some w) (Some k) False [0x61] (replicate 16 1) (replicate 12 2)
      = Exported \<lparr>bf_filename = BACKUP_FILENAME, bf_contents = w\<rparr>"
    using a(2) by (simp add: web_export_def buildBackup_def)
  have "restoreIdentity toy_suite (on_backend False None toy_platform) (bf_contents \<lparr>bf_filename = BACKUP_FILENAME, bf_contents = w\<rparr>) [0x61] = Inr k"
    by (rule web_backup_opens [OF toy_correct toy_platform_ok a(1) _ _ e, THEN conjunct1]) simp_all
  with e show ?thesis by (intro exI conjI)
qed

section \<open>The Keys tab\<close>

definition export_asked :: "keys_event list \<Rightarrow> bool" where
  "export_asked es = (\<exists>pw. Export_Tap pw pw \<in> set es \<and> ps_canExport (evaluatePassphrase pw pw []))"

definition export_passed :: "keys_event list \<Rightarrow> bool" where
  "export_passed es = (\<exists>before n after. es = before @ Prompt_Ends n True # after \<and> export_asked before)"

lemma asked_more: "export_asked es \<Longrightarrow> export_asked (es @ fs)"
  by (auto simp: export_asked_def)

lemma passed_more: "export_passed es \<Longrightarrow> export_passed (es @ fs)"
  by (fastforce simp: export_passed_def)

lemma on_mount_sel [simp]: "ks_prompts (on_mount m g s) = ks_prompts s" "ks_wraps (on_mount m g s) = ks_wraps s" "ks_cache (on_mount m g s) = ks_cache s"
  by (simp_all add: on_mount_def)

lemma drop_nth_Nil: "drop_nth n xs \<noteq> [] \<Longrightarrow> xs \<noteq> []"
  by (auto simp: drop_nth_def)

lemma can_export_confirmed: "ps_canExport (evaluatePassphrase pw cf r) \<Longrightarrow> cf = pw"
  by (simp add: export_floor)

lemma keys_step_gate:
  "(ks_prompts (keys_step e s) \<noteq> [] \<longrightarrow> ks_prompts s \<noteq> [] \<or> (\<exists>pw. e = Export_Tap pw pw \<and> ps_canExport (evaluatePassphrase pw pw [])))
   \<and> (ks_wraps (keys_step e s) \<noteq> [] \<or> ks_cache (keys_step e s) \<noteq> [] \<longrightarrow>
        ks_wraps s \<noteq> [] \<or> ks_cache s \<noteq> [] \<or> (ks_prompts s \<noteq> [] \<and> (\<exists>n. e = Prompt_Ends n True)))"
proof (cases "ks_flow s")
  case None
  then show ?thesis
    by (cases e) (auto simp: keys_step_def prompt_passed_def export_ends_def Let_def dest: drop_nth_Nil split: option.split)
next
  case (Some f)
  then show ?thesis
    by (cases e; cases "kf_route f")
      (auto simp: keys_step_def prompt_passed_def export_ends_def export_tapped_def dismissExportDone_def Let_def
        dest: drop_nth_Nil can_export_confirmed split: option.split)
qed

text \<open>
  C22: a key leaves only behind two gates. Whatever happened on the Keys tab, a backup file was written only after the user
  asked for it with a confirmed passphrase above the floor, and after that passed the prompt of the device.
\<close>

theorem export_behind_gates:
  assumes "ks_cache (fold keys_step es keys_start) \<noteq> []"
  shows "\<exists>before n after pw. es = before @ Prompt_Ends n True # after \<and> Export_Tap pw pw \<in> set before \<and> ps_canExport (evaluatePassphrase pw pw [])"
proof -
  have "(ks_prompts (fold keys_step es keys_start) \<noteq> [] \<longrightarrow> export_asked es)
    \<and> (ks_wraps (fold keys_step es keys_start) \<noteq> [] \<or> ks_cache (fold keys_step es keys_start) \<noteq> [] \<longrightarrow> export_passed es)" for es
  proof (induction es rule: rev_induct)
    case Nil
    then show ?case by (simp add: keys_start_def)
  next
    case (snoc e es)
    have "e = Export_Tap pw pw \<Longrightarrow> ps_canExport (evaluatePassphrase pw pw []) \<Longrightarrow> export_asked (es @ [e])" for pw
      by (auto simp: export_asked_def)
    moreover have "e = Prompt_Ends n True \<Longrightarrow> export_asked es \<Longrightarrow> export_passed (es @ [e])" for n by (auto simp: export_passed_def)
    ultimately show ?case
      using snoc.IH keys_step_gate [of e "fold keys_step es keys_start"] asked_more [of es "[e]"] passed_more [of es "[e]"]
      by (auto simp del: fold_append)
        (auto simp: fold_append)
  qed
  then have "export_passed es" using assms by blast
  then show ?thesis by (fastforce simp: export_passed_def export_asked_def)
qed

lemma strong_passphrase: "ps_canExport (evaluatePassphrase ''violet-Harbor-73-maple'' ''violet-Harbor-73-maple'' [])"
proof -
  have "charPoolSize ''violet-Harbor-73-maple'' = 94" "effectiveTenths ''violet-Harbor-73-maple'' = 220" by code_simp+
  then show ?thesis unfolding export_floor by simp
qed

theorem export_behind_gates_witness:
  "ks_cache (fold keys_step [Keys_Mount, To_Export, Export_Tap ''violet-Harbor-73-maple'' ''violet-Harbor-73-maple'', Prompt_Ends 0 True,
       Export_Written 0 (Some ''u'')] keys_start) = [''u'']
   \<and> (\<exists>before n after pw. [Keys_Mount, To_Export, Export_Tap ''violet-Harbor-73-maple'' ''violet-Harbor-73-maple'', Prompt_Ends 0 True,
       Export_Written 0 (Some ''u'')] = before @ Prompt_Ends n True # after \<and> Export_Tap pw pw \<in> set before
       \<and> ps_canExport (evaluatePassphrase pw pw []))"
proof -
  have c: "ks_cache (fold keys_step [Keys_Mount, To_Export, Export_Tap ''violet-Harbor-73-maple'' ''violet-Harbor-73-maple'', Prompt_Ends 0 True,
       Export_Written 0 (Some ''u'')] keys_start) = [''u'']"
    using strong_passphrase
    by (simp add: keys_start_def keys_step_def export_tapped_def prompt_passed_def export_ends_def on_mount_def drop_nth_def Let_def)
  then show ?thesis using export_behind_gates by (metis (no_types, lifting) list.distinct(1))
qed

text \<open>
  Files left behind. Leaving the tab while the success sheet is up keeps the written file in the cache; and two taps on
  the export button before the first prompt is passed write two files, of which dismissing the sheet deletes one.
\<close>

theorem backup_files_left:
  assumes "ks_flow s = Some f" "kf_route f = Export_Backup" "\<not> kf_exporting f" "ks_prompts s = []" "ks_wraps s = []" "ks_cache s = []"
    "ps_canExport (evaluatePassphrase pw pw [])" "u \<noteq> v"
  shows "ks_cache (fold keys_step [Export_Tap pw pw, Prompt_Ends 0 True, Export_Written 0 (Some u), Keys_Leave, Keys_Mount] s) = [u]
    \<and> ks_cache (fold keys_step [Export_Tap pw pw, Export_Tap pw pw, Prompt_Ends 0 True, Prompt_Ends 0 True, Export_Written 0 (Some u),
        Export_Written 0 (Some v), Dismiss_Done] s) = [u]"
  using assms
  by (simp add: keys_step_def export_tapped_def prompt_passed_def export_ends_def dismissExportDone_def on_mount_def drop_nth_def Let_def)

section \<open>Wiping\<close>

definition wipe_run :: "wipe_event list \<Rightarrow> wipe_dialog" where
  "wipe_run es = fold (\<lambda>e d. fst (wipe_dialog_step e d)) es \<lparr>wd_open = False, wd_typed = []\<rparr>"

text \<open>
  The word comes first. In the web dialog a wipe starts only with the last text typed there being the word, up to case
  and surrounding space.
\<close>

theorem wipe_needs_word:
  assumes "snd (wipe_dialog_step e (wipe_run es))"
  shows "e = Wipe_Confirm \<and> (\<exists>t. Wipe_Type t \<in> set es \<and> matchesWipeConfirm t \<and> wd_typed (wipe_run es) = t)"
proof -
  have "wd_typed (wipe_run es) = [] \<or> Wipe_Type (wd_typed (wipe_run es)) \<in> set es"
  proof (induction es rule: rev_induct)
    case (snoc e es)
    then show ?case by (cases e) (auto simp: wipe_run_def wipe_dialog_step_def)
  qed (simp add: wipe_run_def)
  moreover have "\<not> matchesWipeConfirm []" by (simp add: matchesWipeConfirm_def WIPE_CONFIRM_WORD_def js_trim_def)
  moreover have "e = Wipe_Confirm" "matchesWipeConfirm (wd_typed (wipe_run es))"
    using assms by (auto simp: wipe_dialog_step_def split: wipe_event.splits if_splits)
  ultimately show ?thesis by (metis (full_types))
qed

theorem wipe_needs_word_witness:
  "snd (wipe_dialog_step Wipe_Confirm (wipe_run [Wipe_Open, Wipe_Type '' wipe'']))
   \<and> (\<exists>t. Wipe_Type t \<in> {Wipe_Open, Wipe_Type '' wipe''} \<and> matchesWipeConfirm t)"
proof -
  have "matchesWipeConfirm '' wipe''" by code_simp
  then have "snd (wipe_dialog_step Wipe_Confirm (wipe_run [Wipe_Open, Wipe_Type '' wipe'']))" by (simp add: wipe_run_def wipe_dialog_step_def)
  with wipe_needs_word [OF this] show ?thesis by auto
qed

text \<open>
  Armed from last time. After a wipe that the user called off because links could not be revoked, the web dialog opens
  with the word still typed: the next wipe starts with one tap.
\<close>

theorem wipe_prearmed:
  assumes "matchesWipeConfirm t"
  shows "snd (wipe_dialog_step Wipe_Confirm (wipe_run [Wipe_Open, Wipe_Type t, Wipe_Confirm, Wipe_Open]))"
  using assms by (simp add: wipe_run_def wipe_dialog_step_def)

end
