(* ===== verification/Web_Settings.thy ===== *)
theory Web_Settings
  imports Device_Prefs Web_Links
begin

text \<open>
  The settings of the web client (apps/webapp/src/settings: settings-format.ts, settings-store.ts), its idle lock
  (use-auto-lock.ts, AutoLockController.tsx), the status of persistent storage (screens/SecuritySettingsScreen.tsx), and
  the gate and the navigation of its pages (components/RequireUnlocked.tsx, app-shell/nav-items.ts). A row of the
  database is the value it was stored as.
\<close>

section \<open>The record\<close>

record web_settings =
  ws_clipboardClearSeconds :: js_num
  ws_appLockTimeout :: app_lock_timeout
  ws_createdAt :: js_num
  ws_updatedAt :: js_num

definition WEB_SETTINGS_DEFAULTS :: web_settings where
  "WEB_SETTINGS_DEFAULTS = \<lparr>ws_clipboardClearSeconds = num 45, ws_appLockTimeout = LNever, ws_createdAt = num 0, ws_updatedAt = num 0\<rparr>"

definition web_clampClipboardSeconds :: "js_num \<Rightarrow> int" where
  "web_clampClipboardSeconds seconds =
     (case seconds of
        Fin q \<Rightarrow>
          let floored = \<lfloor>q\<rfloor> in
          if floored < 10 then 10 else if floored > 90 then 90 else floored
      | _ \<Rightarrow> 10)"

definition web_formatClipboardClear :: "js_num \<Rightarrow> string" where
  "web_formatClipboardClear seconds = show_int (web_clampClipboardSeconds seconds) @ ''s''"

definition web_isValidClipboardSeconds :: "json option \<Rightarrow> js_num option" where
  "web_isValidClipboardSeconds v =
     (case v of Some (JNum n) \<Rightarrow> if isInteger n \<and> 10 \<le> int_of_num n \<and> int_of_num n \<le> 90 then Some n else None | _ \<Rightarrow> None)"

fun web_appLockTimeoutMs :: "app_lock_timeout \<Rightarrow> int option" where
  "web_appLockTimeoutMs LNever = None"
| "web_appLockTimeoutMs L1m = Some 60000"
| "web_appLockTimeoutMs L5m = Some (5 * 60000)"
| "web_appLockTimeoutMs L15m = Some (15 * 60000)"
| "web_appLockTimeoutMs L1h = Some (60 * 60000)"

definition APP_LOCK_TIMEOUT_OPTIONS :: "(app_lock_timeout \<times> string \<times> string) list" where
  "APP_LOCK_TIMEOUT_OPTIONS =
     [(LNever, ''Never'', ''Don'' @ [CHR 0x27] @ ''t auto-lock''), (L1m, ''1 minute'', ''Re-lock after 1 minute idle''),
      (L5m, ''5 minutes'', ''Re-lock after 5 minutes idle''), (L15m, ''15 minutes'', ''Re-lock after 15 minutes idle''),
      (L1h, ''1 hour'', ''Re-lock after 1 hour idle'')]"

definition appLockTimeoutLabel :: "app_lock_timeout \<Rightarrow> string" where
  "appLockTimeoutLabel t =
     (case List.find (\<lambda>(v, l, d). v = t) APP_LOCK_TIMEOUT_OPTIONS of Some (v, l, d) \<Rightarrow> l | None \<Rightarrow> lock_string t)"

definition web_isAppLockTimeout :: "json option \<Rightarrow> app_lock_timeout option" where
  "web_isAppLockTimeout v =
     (case v of Some (JStr s) \<Rightarrow> List.find (\<lambda>t. lock_string t = s) [LNever, L1m, L5m, L15m, L1h] | _ \<Rightarrow> None)"

definition web_validateSettings :: "json \<Rightarrow> web_settings" where
  "web_validateSettings input =
     (if \<not> is_object input then WEB_SETTINGS_DEFAULTS
      else
        \<lparr>ws_clipboardClearSeconds = (case web_isValidClipboardSeconds (json_prop ''clipboardClearSeconds'' input) of
             Some n \<Rightarrow> n | None \<Rightarrow> ws_clipboardClearSeconds WEB_SETTINGS_DEFAULTS),
         ws_appLockTimeout = (case web_isAppLockTimeout (json_prop ''appLockTimeout'' input) of
             Some t \<Rightarrow> t | None \<Rightarrow> ws_appLockTimeout WEB_SETTINGS_DEFAULTS),
         ws_createdAt = finite_or_zero (json_prop ''createdAt'' input), ws_updatedAt = finite_or_zero (json_prop ''updatedAt'' input)\<rparr>)"

definition web_migrateSettings :: "json \<Rightarrow> web_settings" where
  "web_migrateSettings input = web_validateSettings input"

section \<open>The store\<close>

definition PRIMARY :: string where "PRIMARY = ''primary''"

definition web_settings_fields :: "web_settings \<Rightarrow> (string \<times> json) list" where
  "web_settings_fields s =
     [(''clipboardClearSeconds'', JNum (ws_clipboardClearSeconds s)), (''appLockTimeout'', JStr (lock_string (ws_appLockTimeout s))),
      (''schemaVersion'', jint 1), (''createdAt'', JNum (ws_createdAt s)), (''updatedAt'', JNum (ws_updatedAt s))]"

definition web_loadSettings :: "bool \<Rightarrow> json idb \<Rightarrow> web_settings" where
  "web_loadSettings readable db =
     (case withStore readable SETTINGS_STORE (\<lambda>s. Inr (os_get PRIMARY s, s) :: unit + _) db of
        (Inl e, db1) \<Rightarrow> WEB_SETTINGS_DEFAULTS
      | (Inr None, db1) \<Rightarrow> WEB_SETTINGS_DEFAULTS
      | (Inr (Some r), db1) \<Rightarrow> web_migrateSettings r)"

definition web_stamped :: "int \<Rightarrow> web_settings \<Rightarrow> web_settings" where
  "web_stamped now nxt =
     (let normalised = web_migrateSettings (JObj (web_settings_fields nxt)) in
      normalised\<lparr>ws_createdAt := if num_less (num 0) (ws_createdAt normalised) then ws_createdAt normalised else num now, ws_updatedAt := num now\<rparr>)"

definition web_saveSettings :: "bool \<Rightarrow> int \<Rightarrow> web_settings \<Rightarrow> json idb \<Rightarrow> (unit tx_error + unit) \<times> json idb" where
  "web_saveSettings commits now nxt db =
     withStore commits SETTINGS_STORE
       (\<lambda>s. Inr ((), os_put PRIMARY (JObj (web_settings_fields (web_stamped now nxt) @ [(''id'', JStr PRIMARY)])) s)) db"

definition clearSettings :: "bool \<Rightarrow> json idb \<Rightarrow> (unit tx_error + unit) \<times> json idb" where
  "clearSettings commits db = withStore commits SETTINGS_STORE clear_store db"

section \<open>The idle lock\<close>

text \<open>The hook: the timeout it was armed with and when the timer is due.\<close>

record auto_lock =
  al_timeout :: "int option"
  al_due :: "int option"

definition al_start :: auto_lock where "al_start = \<lparr>al_timeout = None, al_due = None\<rparr>"

definition armedMs :: "bool \<Rightarrow> app_lock_timeout \<Rightarrow> int option" where
  "armedMs unlocked timeout = (if unlocked then web_appLockTimeoutMs timeout else None)"

text \<open>The effect runs when the timeout it is armed with changes.\<close>

definition al_effect :: "int \<Rightarrow> int option \<Rightarrow> auto_lock \<Rightarrow> auto_lock" where
  "al_effect now ms a =
     (if ms = al_timeout a then a else \<lparr>al_timeout = ms, al_due = (case ms of None \<Rightarrow> None | Some m \<Rightarrow> Some (now + m))\<rparr>)"

definition al_reset :: "int \<Rightarrow> auto_lock \<Rightarrow> auto_lock" where
  "al_reset now a = (case al_timeout a of None \<Rightarrow> a | Some m \<Rightarrow> a\<lparr>al_due := Some (now + m)\<rparr>)"

text \<open>What the page sees: a pointer or a key, a change of visibility, the timer; the step tells whether it locks.\<close>

datatype page_activity = Pointer_Or_Key | Visibility bool | Timer_Fires

definition al_step :: "int \<Rightarrow> page_activity \<Rightarrow> auto_lock \<Rightarrow> auto_lock \<times> bool" where
  "al_step now e a =
     (case e of
        Pointer_Or_Key \<Rightarrow> (al_reset now a, False)
      | Visibility visible \<Rightarrow> (if visible then al_reset now a else a, False)
      | Timer_Fires \<Rightarrow> (case al_due a of Some d \<Rightarrow> if d \<le> now then (a\<lparr>al_due := None\<rparr>, True) else (a, False) | None \<Rightarrow> (a, False)))"

section \<open>Pages\<close>

datatype page_gate = Gate_Children | Gate_Placeholder

datatype identity_seen = Seen_Loading | Seen_None | Seen_Locked | Seen_Unlocked

definition gate_redirect :: "identity_seen \<Rightarrow> string option" where
  "gate_redirect st = (case st of Seen_None \<Rightarrow> Some ''/onboarding'' | Seen_Locked \<Rightarrow> Some ''/unlock'' | _ \<Rightarrow> None)"

definition requireUnlocked :: "identity_seen \<Rightarrow> page_gate" where
  "requireUnlocked st = (if st = Seen_Unlocked then Gate_Children else Gate_Placeholder)"

definition NAV_ITEMS :: "(string \<times> string \<times> string) list" where
  "NAV_ITEMS = [(''/'', ''Dashboard'', ''dashboard''), (''/new'', ''New Message'', ''add_box''), (''/links'', ''Links'', ''link''),
     (''/contacts'', ''Contacts'', ''group''), (''/identity'', ''Keys'', ''vpn_key''), (''/settings'', ''Settings'', ''settings'')]"

definition isActive :: "string \<Rightarrow> string \<Rightarrow> bool" where
  "isActive href pathname =
     (if href = ''/'' then pathname = ''/'' else pathname = href \<or> take (length href + 1) pathname = href @ ''/'')"

text \<open>Persistent storage: whether the API is there, and what it answers (None when it throws).\<close>

datatype persist_state = Persist_Unknown | Persist_Unsupported | Persisted | Not_Persisted

definition persist_reported :: "bool \<Rightarrow> bool option \<Rightarrow> persist_state" where
  "persist_reported supported answer =
     (if \<not> supported then Persist_Unsupported
      else case answer of None \<Rightarrow> Persist_Unsupported | Some True \<Rightarrow> Persisted | Some False \<Rightarrow> Not_Persisted)"


text \<open>The settings stored are the settings loaded, whatever is stored is in range, and the idle lock keeps its window.\<close>

section \<open>Settings\<close>

definition web_settings_ok :: "web_settings \<Rightarrow> bool" where
  "web_settings_ok s =
     (isInteger (ws_clipboardClearSeconds s) \<and> 10 \<le> int_of_num (ws_clipboardClearSeconds s) \<and> int_of_num (ws_clipboardClearSeconds s) \<le> 90
      \<and> is_finite (ws_createdAt s) \<and> is_finite (ws_updatedAt s))"

lemma web_find_lock [simp]: "List.find (\<lambda>t. lock_string t = lock_string x) [LNever, L1m, L5m, L15m, L1h] = Some x"
  by (cases x) simp_all

lemma web_validate_fields:
  assumes "web_settings_ok s"
  shows "web_validateSettings (JObj (web_settings_fields s @ rest)) = s"
  using assms
  by (simp add: web_validateSettings_def web_settings_fields_def is_object_def json_prop_def finite_or_zero_def
      web_isValidClipboardSeconds_def web_isAppLockTimeout_def web_settings_ok_def del: find.simps)

lemma web_validated_ok: "web_settings_ok (web_validateSettings j)"
  by (auto simp: web_validateSettings_def web_settings_ok_def WEB_SETTINGS_DEFAULTS_def finite_or_zero_def web_isValidClipboardSeconds_def
      split: option.splits json.splits if_splits)

lemma web_stamped_ok: "web_settings_ok (web_stamped now s)"
  using web_validated_ok [of "JObj (web_settings_fields s)"] by (auto simp: web_stamped_def web_migrateSettings_def web_settings_ok_def Let_def)

text \<open>
  C38: settings survive in the browser. Settings whose transaction committed are what a later load returns, and whatever is
  stored, what is loaded is complete and in range, and storing it again changes nothing but the time of the change.
\<close>

theorem web_settings_survive:
  assumes "db SETTINGS_STORE = Some s" "sorted_wrt (<) (map fst s)" "web_saveSettings True now nxt db = (r, db1)"
  shows "r = Inr () \<and> web_loadSettings True db1 = web_stamped now nxt \<and> web_settings_ok (web_loadSettings b db2)
    \<and> (web_settings_ok nxt \<longrightarrow> web_stamped now nxt = nxt\<lparr>ws_createdAt := ws_createdAt (web_stamped now nxt), ws_updatedAt := num now\<rparr>)"
proof -
  have loaded: "web_settings_ok (web_loadSettings b db2)" for b db2
    using web_validated_ok [of JNull]
    by (auto simp: web_loadSettings_def web_migrateSettings_def web_validated_ok web_validateSettings_def [of JNull] is_object_def
        split: prod.split sum.split option.split)
  have "r = Inr ()" "db1 SETTINGS_STORE = Some (os_put PRIMARY (JObj (web_settings_fields (web_stamped now nxt) @ [(''id'', JStr PRIMARY)])) s)"
    using assms(1,3) by (auto simp: web_saveSettings_def withStore_def)
  moreover from this(2) have "web_loadSettings True db1 = web_stamped now nxt"
    using assms(2) web_validate_fields [OF web_stamped_ok, of now nxt]
    by (simp add: web_loadSettings_def withStore_def web_migrateSettings_def)
  moreover have "web_stamped now t = t\<lparr>ws_createdAt := ws_createdAt (web_stamped now t), ws_updatedAt := num now\<rparr>" if "web_settings_ok t" for t
    using web_validate_fields [OF that, of "[]"] by (simp add: web_stamped_def web_migrateSettings_def Let_def)
  ultimately show ?thesis using loaded by simp
qed

theorem web_settings_survive_witness:
  "web_loadSettings True (snd (web_saveSettings True 7 WEB_SETTINGS_DEFAULTS (onupgradeneeded (\<lambda>_. None)))) = web_stamped 7 WEB_SETTINGS_DEFAULTS"
proof -
  obtain r db1 where s: "web_saveSettings True 7 WEB_SETTINGS_DEFAULTS (onupgradeneeded (\<lambda>_. None)) = (r, db1)" by force
  have "onupgradeneeded (\<lambda>_. None) SETTINGS_STORE = Some ([] :: json object_store)"
    by (simp add: onupgradeneeded_def store_names_def create_missing_def SETTINGS_STORE_def IDENTITY_STORE_def SENT_LINKS_STORE_def
        CONTACTS_STORE_def RETIRED_STORE_def)
  from web_settings_survive [OF this _ s] s show ?thesis by simp
qed

section \<open>The idle lock\<close>

definition is_touch :: "page_activity \<Rightarrow> bool" where
  "is_touch e = (e = Pointer_Or_Key \<or> e = Visibility True)"

definition al_run :: "(int \<times> page_activity) list \<Rightarrow> auto_lock \<Rightarrow> auto_lock" where
  "al_run es a = fold (\<lambda>(t, e) a. fst (al_step t e a)) es a"

definition touched_at :: "int \<Rightarrow> (int \<times> page_activity) list \<Rightarrow> int" where
  "touched_at t0 es = last (t0 # map fst (filter (is_touch \<circ> snd) es))"

lemma due_after:
  assumes "al_timeout a = Some T" "al_due a = Some (t0 + T)" "list_all (\<lambda>(t, e). e \<noteq> Timer_Fires) es"
  shows "al_timeout (al_run es a) = Some T \<and> al_due (al_run es a) = Some (touched_at t0 es + T)"
  using assms
proof (induction es arbitrary: a t0)
  case (Cons x es)
  obtain t e where x: "x = (t, e)" by (cases x)
  have run: "al_run (x # es) a = al_run es (fst (al_step t e a))" by (simp add: al_run_def x)
  show ?case
  proof (cases "is_touch e")
    case True
    then have "al_timeout (fst (al_step t e a)) = Some T" "al_due (fst (al_step t e a)) = Some (t + T)"
      using Cons.prems(1) by (auto simp: is_touch_def al_step_def al_reset_def)
    from Cons.IH [OF this] Cons.prems(3) show ?thesis unfolding run by (simp add: x True touched_at_def)
  next
    case False
    then have "fst (al_step t e a) = a" using Cons.prems(3) by (cases e) (auto simp: is_touch_def al_step_def x)
    with Cons False show ?thesis unfolding run by (simp add: x touched_at_def)
  qed
qed (simp add: al_run_def touched_at_def)



text \<open>
  A late touch keeps the key. When the page was frozen past the end of the window, with the device asleep, and a touch or
  the return to the page is handled before the overdue timer, the page does not lock however long it had been idle.
\<close>

theorem overdue_touch_keeps_key:
  assumes "al_timeout a = Some T" "al_due a = Some d" "d \<le> now" "0 < T" "is_touch e"
  shows "snd (al_step now Timer_Fires a) \<and> \<not> snd (al_step now Timer_Fires (fst (al_step now e a)))"
  using assms by (auto simp: al_step_def al_reset_def is_touch_def)

end
