(* ===== verification/Pg_Sweep.thy ===== *)
theory Pg_Sweep
  imports Pg_Store
begin

text \<open>
  The sweep of the Postgres store as it runs (packages/server-store/src/pg/link-metadata-store.ts,
  expirePastDue): three statements that commit one by one, between which the operations of other
  connections and the statements of other sweeps run, and after any of which the worker may die.
  The events of a history are the committed statements, in the order of their commits.
\<close>

section \<open>Histories of committed statements\<close>

text \<open>
  The third statement of a sweep is the operation \<open>OpPrune\<close>. \<open>OpExpire\<close> is a sweep that nothing
  came between.
\<close>

datatype sql_event = Call store_op | MarkPastDue | PurgeTerminal

fun sql_step :: "int \<Rightarrow> sql_event \<Rightarrow> pg_db \<Rightarrow> pg_db" where
  "sql_step now (Call p) db = snd (ops_step pg_ops now p db)"
| "sql_step now MarkPastDue db = sql_expire_past_due now db"
| "sql_step now PurgeTerminal db = snd (sql_purge_terminal db)"

fun sql_run :: "(int \<times> sql_event) list \<Rightarrow> pg_db \<Rightarrow> pg_db" where
  "sql_run [] db = db"
| "sql_run ((now, ev) # evs) db = sql_run evs (sql_step now ev db)"

fun event_valid :: "sql_event \<Rightarrow> bool" where
  "event_valid (Call p) = op_valid p"
| "event_valid _ = True"

text \<open>Some statement that marks past-due links has committed and no purge since.\<close>

fun purge_due :: "bool \<Rightarrow> (int \<times> sql_event) list \<Rightarrow> bool" where
  "purge_due b [] = b"
| "purge_due b ((now, MarkPastDue) # evs) = purge_due True evs"
| "purge_due b ((now, PurgeTerminal) # evs) = purge_due False evs"
| "purge_due b ((now, Call (OpExpire ret)) # evs) = purge_due False evs"
| "purge_due b ((now, Call p) # evs) = purge_due b evs"

lemma sweep_of_statements:
  "snd (pg_expirePastDue now ret db) =
    sql_run [(now, MarkPastDue), (now, PurgeTerminal), (now, Call (OpPrune (now - ret)))] db"
  by (simp add: pg_expirePastDue_def pg_ops_def split: prod.splits)

section \<open>The statements on the abstract store\<close>

definition mark_entry :: "int \<Rightarrow> entry \<Rightarrow> entry" where
  "mark_entry now e = (if past_due now e
     then e\<lparr>e_meta := (e_meta e)\<lparr>lm_status := Expired\<rparr>, e_terminal := Some now\<rparr> else e)"

definition purge_entry :: "entry \<Rightarrow> entry" where
  "purge_entry e = (if terminal (e_meta e) then e\<lparr>e_blob := None\<rparr> else e)"

lemma pg_mark_sim:
  assumes "pg_inv db"
  shows "pg_inv (sql_expire_past_due now db)"
    "pg_abs (sql_expire_past_due now db) i = map_option (mark_entry now) (pg_abs db i)"
proof -
  let ?g = "\<lambda>r. if pl_status r = Active \<and> pl_expires_at r \<le> now then r\<lparr>pl_status := Expired, pl_terminal_at := Some now\<rparr> else r"
  have e: "sql_expire_past_due now db = pg_edit ?g (\<lambda>k. True) db"
    by (simp add: sql_expire_past_due_def pg_edit_def)
  have id: "pl_id (?g r) = pl_id r" for r by simp
  show "pg_inv (sql_expire_past_due now db)" unfolding e by (rule pg_edit_inv [OF assms id])
  show "pg_abs (sql_expire_past_due now db) i = map_option (mark_entry now) (pg_abs db i)"
    unfolding e pg_edit_abs [of ?g, OF id]
    by (cases "pg_select i db") (simp_all add: pg_abs_def mark_entry_def past_due_def rowToMeta_def)
qed

lemma pg_purge_terminal_sim:
  assumes "pg_inv db"
  shows "pg_inv (snd (sql_purge_terminal db))"
    "pg_abs (snd (sql_purge_terminal db)) i = map_option purge_entry (pg_abs db i)"
proof -
  define ids where "ids = pl_id ` set (filter sql_terminal (links db))"
  have e: "snd (sql_purge_terminal db) = pg_edit (\<lambda>r. r) (\<lambda>k. k \<notin> ids) db"
    by (simp add: sql_purge_terminal_def pg_edit_def ids_def Let_def)
  have ids: "j \<in> ids \<longleftrightarrow> (\<exists>r. pg_select j db = Some r \<and> sql_terminal r)" for j
    unfolding pg_select_def ids_def by (rule in_key_image [OF pg_inv_D(1) [OF assms]])
  show "pg_inv (snd (sql_purge_terminal db))" unfolding e by (rule pg_edit_inv [OF assms]) simp
  have "pg_abs (pg_edit (\<lambda>r. r) (\<lambda>k. k \<notin> ids) db) i = map_option purge_entry (pg_abs db i)"
    using ids [of i] by (cases "pg_select i db")
      (simp_all add: pg_edit_abs [of "\<lambda>r. r"], simp_all add: pg_abs_def purge_entry_def sql_terminal_meta)
  then show "pg_abs (snd (sql_purge_terminal db)) i = map_option purge_entry (pg_abs db i)" by (simp add: e)
qed

section \<open>The invariant between the statements\<close>

text \<open>
  What every committed state keeps: only a link that was marked by a sweep, past its expiry and with
  opens left, can be closed and still have its ciphertext.
\<close>

definition entry_between :: "entry \<Rightarrow> bool" where
  "entry_between e =
     (let m = e_meta e in
      (e_terminal e = None \<longleftrightarrow> lm_status m = Active) \<and>
      (lm_status m = Active \<longrightarrow> e_blob e \<noteq> None) \<and>
      (lm_status m \<noteq> Active \<and> e_blob e \<noteq> None \<longrightarrow>
         lm_status m = Expired \<and> lm_expiresAt m \<le> the (e_terminal e) \<and>
         (lm_maxOpens m \<noteq> -1 \<longrightarrow> lm_opensCount m < lm_maxOpens m)) \<and>
      0 \<le> lm_opensCount m \<and>
      (lm_maxOpens m = -1 \<or>
       (0 < lm_maxOpens m \<and> lm_opensCount m \<le> lm_maxOpens m \<and>
        (lm_status m = Active \<longrightarrow> lm_opensCount m < lm_maxOpens m))))"

definition store_between :: "abs_store \<Rightarrow> bool" where
  "store_between \<sigma> = (\<forall>i e. \<sigma> i = Some e \<longrightarrow> lm_id (e_meta e) = i \<and> entry_between e)"

definition all_purged :: "abs_store \<Rightarrow> bool" where
  "all_purged \<sigma> = (\<forall>i e. \<sigma> i = Some e \<longrightarrow> lm_status (e_meta e) \<noteq> Active \<longrightarrow> e_blob e = None)"

lemma entry_ok_iff:
  "entry_ok e \<longleftrightarrow> entry_between e \<and> (lm_status (e_meta e) \<noteq> Active \<longrightarrow> e_blob e = None)"
  by (auto simp: entry_ok_def entry_between_def Let_def)

lemma store_ok_iff: "store_ok \<sigma> \<longleftrightarrow> store_between \<sigma> \<and> all_purged \<sigma>"
  by (auto simp: store_ok_def store_between_def all_purged_def entry_ok_iff)

lemma store_between_D: "store_between \<sigma> \<Longrightarrow> \<sigma> i = Some e \<Longrightarrow> lm_id (e_meta e) = i \<and> entry_between e"
  by (simp add: store_between_def)

lemma close_between: "entry_between e \<Longrightarrow> st \<noteq> Active \<Longrightarrow> entry_between (close_entry st now e)"
  by (auto simp: close_entry_def entry_between_def Let_def)

lemma open_between: "open_entry now e = Some e' \<Longrightarrow> entry_between e \<Longrightarrow> entry_between e'"
  by (auto simp: open_entry_def entry_between_def Let_def split: if_splits)

lemma mark_between: "entry_between e \<Longrightarrow> entry_between (mark_entry now e)"
  by (auto simp: mark_entry_def entry_between_def Let_def past_due_def)

lemma purge_between: "entry_between e \<Longrightarrow> entry_between (purge_entry e)"
  by (auto simp: purge_entry_def entry_between_def Let_def terminal_iff)

lemma wipe_between:
  "entry_between e \<Longrightarrow> lm_status (e_meta e) \<noteq> Active \<Longrightarrow> entry_between (e\<lparr>e_blob := None\<rparr>)"
  by (auto simp: entry_between_def Let_def)

lemma expire_between: "entry_between e \<Longrightarrow> entry_between (expire_entry now e)"
  by (auto simp: entry_between_def expire_entry_def Let_def past_due_def terminal_iff)

lemma new_between:
  assumes "0 < cr_maxOpens r \<or> cr_maxOpens r = -1"
  shows "entry_between \<lparr>e_meta = new_meta r, e_token = t, e_terminal = None, e_blob = Some b\<rparr>"
  using assms by (auto simp: entry_between_def new_meta_def Let_def)

lemma spec_step_between:
  assumes "store_between \<sigma>" "op_valid p"
  shows "store_between (snd (ops_step spec_ops now p \<sigma>))"
proof -
  have upd: "store_between (\<sigma>(i \<mapsto> e))" if "entry_between e" "lm_id (e_meta e) = i" for i e
    using assms(1) that by (simp add: store_between_def)
  note D = store_between_D [OF assms(1)]
  show ?thesis
  proof (cases p)
    case (OpCreate r b)
    then show ?thesis using assms upd new_between [of r]
      by (auto simp: spec_create_def valid_record_def new_meta_def)
  next
    case (OpIncrement i)
    show ?thesis
    proof (cases "Option.bind (\<sigma> i) (open_entry now)")
      case (Some e')
      then obtain e where "\<sigma> i = Some e" "open_entry now e = Some e'" by (auto simp: bind_eq_Some_conv)
      then have "entry_between e'" "lm_id (e_meta e') = i"
        using D [of i e] open_between open_entry_Some(6) by fastforce+
      then show ?thesis using OpIncrement Some upd by (simp add: spec_increment_def)
    qed (use OpIncrement assms(1) in \<open>simp add: spec_increment_def\<close>)
  next
    case (OpRevoke i h)
    have "lm_id (e_meta (close_entry Revoked now e)) = i \<and> entry_between (close_entry Revoked now e)"
      if "\<sigma> i = Some e" for e using D [OF that] close_between [of e Revoked now] by (simp add: close_entry_def)
    then show ?thesis using OpRevoke assms(1) upd by (auto simp: spec_revoke_def split: option.splits)
  next
    case (OpExpire ret)
    have "lm_id (e_meta (expire_entry now e)) = i \<and> entry_between (expire_entry now e)"
      if "\<sigma> i = Some e" for e i
      using D [OF that] expire_between [of e now] by (simp add: expire_entry_def Let_def)
    then show ?thesis using OpExpire
      by (auto simp: spec_expirePastDue_def store_between_def prune_map_def expire_map_def split: option.splits if_splits)
  next
    case (OpPrune t)
    then show ?thesis using assms(1)
      by (auto simp: spec_prune_def store_between_def prune_map_def split: option.splits if_splits)
  next
    case (OpAdminPurge i)
    have "lm_id (e_meta (close_entry Revoked now e)) = i \<and> entry_between (close_entry Revoked now e)"
      "lm_status (e_meta e) \<noteq> Active \<longrightarrow> lm_id (e_meta (e\<lparr>e_blob := None\<rparr>)) = i \<and> entry_between (e\<lparr>e_blob := None\<rparr>)"
      if "\<sigma> i = Some e" for e
      using D [OF that] close_between [of e Revoked now] wipe_between [of e] by (simp_all add: close_entry_def)
    then show ?thesis using OpAdminPurge assms(1) upd
      by (auto simp: spec_adminPurge_def split: option.splits)
  qed (use assms(1) in simp_all)
qed

text \<open>No operation but the marking statement leaves a closed link with its ciphertext.\<close>

lemma spec_step_purged:
  assumes "all_purged \<sigma>"
  shows "all_purged (snd (ops_step spec_ops now p \<sigma>))"
proof -
  have upd: "all_purged (\<sigma>(i \<mapsto> e))" if "lm_status (e_meta e) \<noteq> Active \<Longrightarrow> e_blob e = None" for i e
    using assms that by (simp add: all_purged_def)
  show ?thesis
  proof (cases p)
    case (OpCreate r b)
    then show ?thesis using assms by (auto simp: spec_create_def new_meta_def intro!: upd)
  next
    case (OpIncrement i)
    have "lm_status (e_meta e') \<noteq> Active \<Longrightarrow> e_blob e' = None" if "open_entry now e = Some e'" for e e'
      using that by (auto simp: open_entry_def Let_def split: if_splits)
    then show ?thesis using OpIncrement assms upd
      by (auto simp: spec_increment_def bind_eq_Some_conv split: option.splits)
  next
    case (OpRevoke i h)
    then show ?thesis using assms upd by (auto simp: spec_revoke_def close_entry_def split: option.splits)
  next
    case (OpExpire ret)
    then show ?thesis
      by (auto simp: spec_expirePastDue_def all_purged_def prune_map_def expire_map_def expire_entry_def Let_def
          terminal_iff split: option.splits if_splits)
  next
    case (OpPrune t)
    then show ?thesis using assms
      by (auto simp: spec_prune_def all_purged_def prune_map_def split: option.splits if_splits)
  next
    case (OpAdminPurge i)
    then show ?thesis using assms upd by (auto simp: spec_adminPurge_def close_entry_def split: option.splits)
  qed (use assms in simp_all)
qed

lemma expire_purges: "all_purged (snd (ops_step spec_ops now (OpExpire ret) \<sigma>))"
  by (auto simp: spec_expirePastDue_def all_purged_def prune_map_def expire_map_def expire_entry_def Let_def
      terminal_iff split: option.splits if_splits)

definition pg_good :: "bool \<Rightarrow> pg_db \<Rightarrow> bool" where
  "pg_good due db = (pg_inv db \<and> store_between (pg_abs db) \<and> (\<not> due \<longrightarrow> all_purged (pg_abs db)))"

lemma call_good:
  assumes "pg_good b db" "op_valid p"
  shows "pg_good b (sql_step now (Call p) db)" "pg_good False (sql_step now (Call (OpExpire ret)) db)"
proof -
  note inv = assms(1) [unfolded pg_good_def]
  have sim: "pg_abs (snd (ops_step pg_ops now q db)) = snd (ops_step spec_ops now q (pg_abs db))
      \<and> pg_inv (snd (ops_step pg_ops now q db))" if "op_valid q" for q
    using pg.step_sim [of db q now] inv that by (cases "ops_step pg_ops now q db") auto
  show "pg_good b (sql_step now (Call p) db)"
    using sim [OF assms(2)] inv spec_step_between [of "pg_abs db" p now] spec_step_purged [of "pg_abs db" now p] assms(2)
    by (simp add: pg_good_def)
  have v: "op_valid (OpExpire ret)" by simp
  show "pg_good False (sql_step now (Call (OpExpire ret)) db)"
    using sim [OF v] inv spec_step_between [OF _ v, of "pg_abs db" now] expire_purges [of now ret "pg_abs db"]
    by (auto simp only: pg_good_def sql_step.simps)
qed

lemma statement_good:
  assumes "pg_good b db"
  shows "pg_good True (sql_step now MarkPastDue db)" "pg_good False (sql_step now PurgeTerminal db)"
proof -
  note inv = assms [unfolded pg_good_def]
  have "lm_id (e_meta (mark_entry now e)) = lm_id (e_meta e)" "lm_id (e_meta (purge_entry e)) = lm_id (e_meta e)"
    "lm_status (e_meta (purge_entry e)) \<noteq> Active \<Longrightarrow> e_blob (purge_entry e) = None" for e
    by (auto simp: mark_entry_def purge_entry_def terminal_iff)
  then show "pg_good True (sql_step now MarkPastDue db)" "pg_good False (sql_step now PurgeTerminal db)"
    using inv by (auto simp: pg_good_def pg_mark_sim pg_purge_terminal_sim store_between_def all_purged_def
        mark_between purge_between)
qed

lemma run_good:
  assumes "pg_good b db" "list_all (event_valid \<circ> snd) evs"
  shows "pg_good (purge_due b evs) (sql_run evs db)"
  using assms
proof (induction b evs arbitrary: db rule: purge_due.induct)
  case (2 b now evs)
  then show ?case using statement_good(1) [of b db now] by (simp del: sql_step.simps)
next
  case (3 b now evs)
  then show ?case using statement_good(2) [of b db now] by (simp del: sql_step.simps)
next
  case (4 b now ret evs)
  then show ?case using call_good(2) [of b db "OpExpire ret" now ret] by (simp del: sql_step.simps)
qed (simp_all del: sql_step.simps add: call_good(1))

text \<open>
  C15: whatever the connections and sweeps commit, in whatever order and wherever a sweep is cut off:
  a link has a time of closing exactly when it is not active, an active link has its ciphertext and has
  opens left, a revoked link and one whose opens are used up have lost it, and a closed link that still
  has it was marked past its expiry by a sweep. Once a purge has followed the last such mark, a link
  has a ciphertext exactly as long as it is active.
\<close>

theorem reachable_store_ok:
  assumes "list_all (event_valid \<circ> snd) evs"
  shows "store_between (pg_abs (sql_run evs pg_empty)) \<and>
    (\<not> purge_due False evs \<longrightarrow> store_ok (pg_abs (sql_run evs pg_empty)))"
proof -
  have "pg_good False pg_empty"
    by (simp add: pg_good_def pg_empty_ok store_between_def all_purged_def)
  from run_good [OF this assms] show ?thesis by (simp add: pg_good_def store_ok_iff)
qed

definition cut_sweep :: "(int \<times> sql_event) list" where
  "cut_sweep =
     [(1, Call (OpCreate \<lparr>cr_id = ''a'', cr_expiresAt = 50, cr_maxOpens = 2, cr_tokenHash = Some ''ab''\<rparr> [7])),
      (2, Call (OpIncrement ''a'')), (60, MarkPastDue), (61, Call (OpRevoke ''a'' (Some ''ab'')))]"

theorem reachable_store_ok_witness:
  "store_between (pg_abs (sql_run cut_sweep pg_empty)) \<and>
    store_ok (pg_abs (sql_run (cut_sweep @ [(70, PurgeTerminal)]) pg_empty))"
  using reachable_store_ok [of cut_sweep] reachable_store_ok [of "cut_sweep @ [(70, PurgeTerminal)]"]
  by (simp add: cut_sweep_def valid_record_def)

text \<open>The state between the two statements is real: the link is expired and its ciphertext is there.\<close>

theorem ciphertext_outlives_mark:
  "\<exists>e. pg_abs (sql_run cut_sweep pg_empty) ''a'' = Some e \<and> lm_status (e_meta e) = Expired \<and> e_blob e = Some [7]"
  by (auto simp: cut_sweep_def pg_ops_def pg_empty_def pg_createWithCiphertext_def sql_insert_link_def Let_def
      pg_incrementOpens_def sql_count_open_def sql_expire_past_due_def pg_revoke_def pg_select_def pg_abs_def
      rowToMeta_def pg_ct_get_def)

end
