(* ===== verification/Tracking_Steps.thy ===== *)
theory Tracking_Steps
  imports Web_Links_Laws
begin

text \<open>
  The tracking store of the phone with its awaits (apps/mobile/src/links/sent-links-store.ts): recording,
  deleting and attaching a reminder each read the whole map, change it and write it back, and other calls
  may run between the read and the write. There is no queue.
\<close>

section \<open>Calls in steps\<close>

datatype store_call = Record_Link sent_link | Set_Reminder string string | Delete_Link string | Clear_Links

text \<open>What a call writes once it has read the map; None: it returns without writing.\<close>

fun written_map :: "store_call \<Rightarrow> (string, sent_link) js_map \<Rightarrow> (string, sent_link) js_map option" where
  "written_map (Record_Link r) m = Some (map_set (sl_id r) r m)"
| "written_map (Set_Reminder i n) m =
     (case map_get m i of None \<Rightarrow> None | Some existing \<Rightarrow> Some (map_set i (existing\<lparr>sl_reminder := Some n\<rparr>) m))"
| "written_map (Delete_Link i) m = (if map_get m i = None then None else Some (map_del i m))"
| "written_map Clear_Links m = None"

text \<open>The store and the writes under way, each with its call.\<close>

record tracker =
  tk_store :: sent_store
  tk_writes :: "(store_call \<times> (string, sent_link) js_map) list"

text \<open>
  The read of a call resolves; the write (or removal of the blob) of a call under way lands or fails.
  \<open>clearSentLinks\<close> reads nothing: its one await is the removal.
\<close>

datatype tracker_event = Reads store_call | Lands nat | Write_Fails nat

definition write_ends :: "nat \<Rightarrow> tracker \<Rightarrow> tracker" where
  "write_ends k t = t\<lparr>tk_writes := take k (tk_writes t) @ drop (Suc k) (tk_writes t)\<rparr>"

fun tracker_step :: "tracker_event \<Rightarrow> tracker \<Rightarrow> tracker" where
  "tracker_step (Reads c) t =
     (case c of
        Clear_Links \<Rightarrow> t\<lparr>tk_writes := tk_writes t @ [(c, [])]\<rparr>
      | _ \<Rightarrow> (case written_map c (readMap (tk_store t)) of
                None \<Rightarrow> t
              | Some m \<Rightarrow> t\<lparr>tk_writes := tk_writes t @ [(c, m)]\<rparr>))"
| "tracker_step (Lands k) t =
     (if k < length (tk_writes t)
      then write_ends k (t\<lparr>tk_store := (case tk_writes t ! k of (Clear_Links, m) \<Rightarrow> None | (c, m) \<Rightarrow> Some m)\<rparr>)
      else t)"
| "tracker_step (Write_Fails k) t = (if k < length (tk_writes t) then write_ends k t else t)"

text \<open>Without anything in between, a call is the operation of \<open>Sent_Links\<close>.\<close>

definition run_call :: "store_call \<Rightarrow> sent_store \<Rightarrow> sent_store" where
  "run_call c st = tk_store (fold tracker_step [Reads c, Lands 0] \<lparr>tk_store = st, tk_writes = []\<rparr>)"

lemma run_call_eq:
  "run_call (Record_Link r) st = recordSentLink r st" "run_call (Set_Reminder i n) st = setSentLinkReminder i n st"
  "run_call (Delete_Link i) st = deleteSentLink i st" "run_call Clear_Links st = clearSentLinks st"
  by (simp_all add: run_call_def write_ends_def recordSentLink_def setSentLinkReminder_def deleteSentLink_def clearSentLinks_def
      split: option.split)

section \<open>Refinement when calls do not overlap\<close>

fun spec_call :: "store_call \<Rightarrow> (string \<Rightarrow> sent_link option) \<Rightarrow> string \<Rightarrow> sent_link option" where
  "spec_call (Record_Link r) \<sigma> = \<sigma>(sl_id r \<mapsto> r)"
| "spec_call (Set_Reminder i n) \<sigma> = (case \<sigma> i of None \<Rightarrow> \<sigma> | Some r \<Rightarrow> \<sigma>(i \<mapsto> r\<lparr>sl_reminder := Some n\<rparr>))"
| "spec_call (Delete_Link i) \<sigma> = \<sigma>(i := None)"
| "spec_call Clear_Links \<sigma> = Map.empty"

text \<open>The calls whose writes land in a run, in that order; and that no call starts while a write is under way.\<close>

fun landed :: "tracker_event list \<Rightarrow> tracker \<Rightarrow> store_call list" where
  "landed [] t = []"
| "landed (e # es) t =
     (case e of Lands k \<Rightarrow> if k < length (tk_writes t) then [fst (tk_writes t ! k)] else [] | _ \<Rightarrow> [])
     @ landed es (tracker_step e t)"

fun one_at_a_time :: "tracker_event list \<Rightarrow> tracker \<Rightarrow> bool" where
  "one_at_a_time [] t = True"
| "one_at_a_time (e # es) t =
     ((case e of Reads c \<Rightarrow> tk_writes t = [] | _ \<Rightarrow> True) \<and> one_at_a_time es (tracker_step e t))"

definition links_ok :: "sent_store \<Rightarrow> bool" where
  "links_ok st = (map_ok (readMap st) \<and> list_all (\<lambda>(k, r). sl_id r = k) (readMap st))"

definition links_of :: "sent_store \<Rightarrow> string \<Rightarrow> sent_link option" where
  "links_of st i = getSentLink i st"

lemma call_refines:
  assumes "links_ok st"
  shows "links_ok (run_call c st) \<and> links_of (run_call c st) = spec_call c (links_of st)"
proof -
  note inv = assms [unfolded links_ok_def]
  have rec: "links_ok (recordSentLink r st) \<and> links_of (recordSentLink r st) = (links_of st)(sl_id r \<mapsto> r)" for r
    using device.lookup_track [OF inv, of r] by (auto simp: links_ok_def links_of_def fun_eq_iff)
  show ?thesis
  proof (cases c)
    case (Set_Reminder i n)
    show ?thesis
    proof (cases "getSentLink i st")
      case None
      then show ?thesis using assms Set_Reminder by (simp add: run_call_eq setSentLinkReminder_def getSentLink_def links_of_def)
    next
      case (Some e)
      then have "(i, e) \<in> set (readMap st)" by (simp add: getSentLink_def map_of_SomeD)
      then have "sl_id e = i" using inv by (auto simp: list_all_iff)
      then have "setSentLinkReminder i n st = recordSentLink (e\<lparr>sl_reminder := Some n\<rparr>) st"
        using Some by (simp add: setSentLinkReminder_def getSentLink_def recordSentLink_def)
      then show ?thesis using rec [of "e\<lparr>sl_reminder := Some n\<rparr>"] Set_Reminder Some \<open>sl_id e = i\<close>
        by (simp add: run_call_eq links_of_def)
    qed
  next
    case (Delete_Link i)
    then show ?thesis using device.lookup_forget [OF inv, of i] by (auto simp: run_call_eq links_ok_def links_of_def fun_eq_iff)
  next
    case Clear_Links
    then show ?thesis using device.lookup_clear [OF inv] by (auto simp: run_call_eq links_ok_def links_of_def fun_eq_iff)
  qed (simp add: run_call_eq rec)
qed

text \<open>A call under way that has read what the store still holds.\<close>

definition current_write :: "tracker \<Rightarrow> bool" where
  "current_write t = (case tk_writes t of
      [] \<Rightarrow> True
    | [(c, m)] \<Rightarrow> (case c of Clear_Links \<Rightarrow> True | _ \<Rightarrow> written_map c (readMap (tk_store t)) = Some m)
    | _ \<Rightarrow> False)"

lemma tracker_current:
  assumes "current_write t" "case e of Reads c \<Rightarrow> tk_writes t = [] | _ \<Rightarrow> True"
  shows "current_write (tracker_step e t)"
proof (cases "tk_writes t")
  case Nil
  then show ?thesis using assms by (cases e) (auto simp: current_write_def split: store_call.splits option.splits)
next
  case (Cons p ps)
  then have "ps = []" using assms(1) by (cases p; cases ps) (auto simp: current_write_def)
  then show ?thesis using assms Cons by (cases e) (auto simp: current_write_def write_ends_def)
qed

lemma lands_call:
  assumes "current_write t" "k < length (tk_writes t)"
  shows "tk_store (tracker_step (Lands k) t) = run_call (fst (tk_writes t ! k)) (tk_store t)"
proof -
  obtain c m ps where p: "tk_writes t = (c, m) # ps" using assms(2) by (cases "tk_writes t") auto
  then have "ps = []" using assms(1) by (cases ps) (auto simp: current_write_def)
  then have w: "tk_writes t = [(c, m)]" and "k = 0" using p assms(2) by simp_all
  then show ?thesis using assms(1)
    by (cases c) (auto simp: run_call_def write_ends_def current_write_def split: option.splits if_splits)
qed

lemma tracker_refines:
  assumes "links_ok (tk_store t)" "current_write t" "one_at_a_time es t"
  shows "links_ok (tk_store (fold tracker_step es t))
    \<and> links_of (tk_store (fold tracker_step es t)) = fold spec_call (landed es t) (links_of (tk_store t))"
  using assms
proof (induction es arbitrary: t)
  case (Cons e es)
  have cur: "current_write (tracker_step e t)" using Cons.prems by (intro tracker_current) auto
  have rest: "one_at_a_time es (tracker_step e t)" using Cons.prems(3) by simp
  show ?case
  proof (cases "\<exists>k. e = Lands k \<and> k < length (tk_writes t)")
    case True
    then obtain k where k: "e = Lands k" "k < length (tk_writes t)" by blast
    note store = lands_call [OF Cons.prems(2) k(2)] and call = call_refines [OF Cons.prems(1), of "fst (tk_writes t ! k)"]
    have "links_ok (tk_store (tracker_step e t))" "links_of (tk_store (tracker_step e t)) = spec_call (fst (tk_writes t ! k)) (links_of (tk_store t))"
      using call unfolding k(1) store by blast+
    then show ?thesis using Cons.IH [OF _ cur rest] k by (simp del: tracker_step.simps)
  next
    case False
    then have same: "tk_store (tracker_step e t) = tk_store t"
      by (cases e) (auto simp: write_ends_def split: store_call.splits option.splits)
    have none: "landed (e # es) t = landed es (tracker_step e t)" using False by (cases e) simp_all
    show ?thesis using Cons.IH [OF _ cur rest] Cons.prems(1) same none by (simp del: tracker_step.simps landed.simps)
  qed
qed simp


definition one_link :: "string \<Rightarrow> sent_link" where
  "one_link i = \<lparr>sl_id = i, sl_fingerprint = ''AM'', sl_createdAt = ''2026'', sl_expiresAt = ''2027'', sl_maxOpens = num 1,
     sl_label = None, sl_revocationToken = Some ''t'', sl_reminder = None\<rparr>"


section \<open>Overlapping calls\<close>

text \<open>
  Two links recorded at once: both calls read the map before either writes, and the second write drops the
  link of the first. Its revocation token is gone, so it cannot be revoked any more.
\<close>

theorem recorded_link_lost:
  assumes "sl_id a \<noteq> sl_id b" "getSentLink (sl_id a) st = None"
  shows "getSentLink (sl_id a) (tk_store (fold tracker_step [Reads (Record_Link a), Reads (Record_Link b), Lands 0, Lands 0]
      \<lparr>tk_store = st, tk_writes = []\<rparr>)) = None"
  using assms by (simp add: write_ends_def getSentLink_def readMap_def split: option.splits)

text \<open>
  A deleted link comes back: a reminder that is attached while the link is being deleted writes the record
  back.
\<close>

theorem reminder_resurrects:
  assumes "getSentLink i st = Some r"
  shows "getSentLink i (tk_store (fold tracker_step [Reads (Set_Reminder i n), Reads (Delete_Link i), Lands 1, Lands 0]
      \<lparr>tk_store = st, tk_writes = []\<rparr>)) = Some (r\<lparr>sl_reminder := Some n\<rparr>)"
  using assms by (simp add: write_ends_def getSentLink_def readMap_def split: option.splits)

end
