(* ===== verification/Camera_Scan.thy ===== *)
theory Camera_Scan
  imports Contact_Trust
begin

text \<open>
  Scanning a contact's key: the camera hook of the web client (apps/webapp/src/contacts/use-camera-scanner.ts) and the
  scan screen of the mobile client (apps/mobile/src/contacts/QRScanScreen.tsx). The camera, the decoder of frames and
  the permission prompt are events.
\<close>

section \<open>The web scanner\<close>

datatype scan_status = Scan_Idle | Scan_Requesting | Scan_Scanning | Scan_Denied | Scan_Unavailable

text \<open>
  A start that waits: for the camera, or for the video to play. It knows the run of the effect it belongs to. A pending
  animation frame knows its run too.
\<close>

datatype start_task = Acquiring nat | Playing nat

record scanner =
  sc_active :: bool
  sc_run :: nat
  sc_visible :: bool
  sc_handled :: bool
  sc_stream :: "nat option"
  sc_bound :: "nat option"
  sc_raf :: "nat option"
  sc_frames :: "(nat \<times> nat) list"
  sc_starts :: "start_task list"
  sc_status :: scan_status
  sc_live :: "nat list"
  sc_fresh :: nat
  sc_results :: "(nat \<times> string) list"

definition scanner_mount :: scanner where
  "scanner_mount = \<lparr>sc_active = False, sc_run = 0, sc_visible = True, sc_handled = False, sc_stream = None, sc_bound = None, sc_raf = None,
     sc_frames = [], sc_starts = [], sc_status = Scan_Idle, sc_live = [], sc_fresh = 0, sc_results = []\<rparr>"

definition scan_cancelled :: "nat \<Rightarrow> scanner \<Rightarrow> bool" where
  "scan_cancelled n s = (\<not> sc_active s \<or> sc_run s \<noteq> n)"

definition scan_stop :: "scanner \<Rightarrow> scanner" where
  "scan_stop s =
     s\<lparr>sc_raf := None, sc_frames := (case sc_raf s of Some h \<Rightarrow> filter (\<lambda>f. fst f \<noteq> h) (sc_frames s) | None \<Rightarrow> sc_frames s),
       sc_stream := None, sc_live := (case sc_stream s of Some c \<Rightarrow> filter (\<lambda>d. d \<noteq> c) (sc_live s) | None \<Rightarrow> sc_live s),
       sc_bound := None\<rparr>"

definition scan_start :: "bool \<Rightarrow> scanner \<Rightarrow> scanner" where
  "scan_start has_media s =
     (if has_media then s\<lparr>sc_status := Scan_Requesting, sc_starts := sc_starts s @ [Acquiring (sc_run s)]\<rparr>
      else s\<lparr>sc_status := Scan_Unavailable\<rparr>)"

definition request_frame :: "nat \<Rightarrow> scanner \<Rightarrow> scanner" where
  "request_frame n s = s\<lparr>sc_raf := Some (sc_fresh s), sc_frames := sc_frames s @ [(sc_fresh s, n)], sc_fresh := Suc (sc_fresh s)\<rparr>"

definition scan_playing :: "nat \<Rightarrow> scanner \<Rightarrow> scanner" where
  "scan_playing n s = request_frame n (s\<lparr>sc_status := Scan_Scanning\<rparr>)"

text \<open>The camera answers: with a new stream and whether the video element is there, or with the name of an error.\<close>

definition scan_acquired :: "nat \<Rightarrow> bool + string \<Rightarrow> scanner \<Rightarrow> scanner" where
  "scan_acquired n r s =
     (case r of
        Inr e \<Rightarrow>
          (if scan_cancelled n s then s
           else s\<lparr>sc_status := (if e = ''NotAllowedError'' \<or> e = ''SecurityError'' then Scan_Denied else Scan_Unavailable)\<rparr>)
      | Inl has_video \<Rightarrow>
          let c = sc_fresh s; s0 = s\<lparr>sc_fresh := Suc c\<rparr> in
          if scan_cancelled n s then s0
          else let s1 = s0\<lparr>sc_live := c # sc_live s, sc_stream := Some c\<rparr> in
            if has_video then s1\<lparr>sc_bound := Some c, sc_starts := sc_starts s1 @ [Playing n]\<rparr> else scan_playing n s1)"

text \<open>A frame runs; what it decodes, when a bound video has an image with a code in it.\<close>

definition scanFrame :: "nat \<Rightarrow> string option \<Rightarrow> scanner \<Rightarrow> scanner" where
  "scanFrame n decoded s =
     (if scan_cancelled n s \<or> sc_handled s then s
      else case (if sc_bound s = None then None else decoded) of
        Some d \<Rightarrow>
          if isAcceptableScan d
          then let s1 = scan_stop (s\<lparr>sc_handled := True\<rparr>) in s1\<lparr>sc_results := sc_results s1 @ [(n, normalizeScannedPayload d)]\<rparr>
          else request_frame n s
      | None \<Rightarrow> request_frame n s)"

datatype scan_event =
    Scan_Activate bool
  | Scan_Deactivate
  | Page_Hides
  | Page_Shows bool
  | Camera_Answers nat "bool + string"
  | Video_Plays nat
  | Frame_Runs nat "string option"

definition drop_at :: "nat \<Rightarrow> 'a list \<Rightarrow> 'a list" where
  "drop_at i xs = take i xs @ drop (Suc i) xs"

definition scan_step :: "scan_event \<Rightarrow> scanner \<Rightarrow> scanner" where
  "scan_step e s =
     (case e of
        Scan_Activate has_media \<Rightarrow>
          (if sc_active s then s else scan_start has_media (s\<lparr>sc_active := True, sc_run := Suc (sc_run s), sc_handled := False\<rparr>))
      | Scan_Deactivate \<Rightarrow> (if sc_active s then scan_stop (s\<lparr>sc_active := False\<rparr>) else s)
      | Page_Hides \<Rightarrow>
          (if \<not> sc_visible s then s else let s1 = s\<lparr>sc_visible := False\<rparr> in if sc_active s then scan_stop s1 else s1)
      | Page_Shows has_media \<Rightarrow>
          (if sc_visible s then s
           else let s1 = s\<lparr>sc_visible := True\<rparr> in if sc_active s \<and> \<not> sc_handled s then scan_start has_media s1 else s1)
      | Camera_Answers i r \<Rightarrow>
          (if i < length (sc_starts s) then
             (case sc_starts s ! i of Acquiring n \<Rightarrow> scan_acquired n r (s\<lparr>sc_starts := drop_at i (sc_starts s)\<rparr>) | Playing n \<Rightarrow> s)
           else s)
      | Video_Plays i \<Rightarrow>
          (if i < length (sc_starts s) then
             (case sc_starts s ! i of Playing n \<Rightarrow> scan_playing n (s\<lparr>sc_starts := drop_at i (sc_starts s)\<rparr>) | Acquiring n \<Rightarrow> s)
           else s)
      | Frame_Runs i d \<Rightarrow>
          (if i < length (sc_frames s) then scanFrame (snd (sc_frames s ! i)) d (s\<lparr>sc_frames := drop_at i (sc_frames s)\<rparr>) else s))"

section \<open>The mobile scan screen\<close>

datatype permission_status = Perm_Undetermined | Perm_Granted | Perm_Denied

record camera_permission =
  cp_status :: permission_status
  cp_canAskAgain :: bool

definition INVALID_COOLDOWN_MS :: int where "INVALID_COOLDOWN_MS = 2000"

text \<open>The permission is None until the module has answered; a banner timer is the time it is due.\<close>

record scan_screen =
  ss_permission :: "camera_permission option"
  ss_requested :: bool
  ss_requests :: nat
  ss_mountFailed :: bool
  ss_torch :: bool
  ss_handled :: bool
  ss_cooldownUntil :: int
  ss_banner :: bool
  ss_timer :: "int option"

definition scan_screen_mount :: scan_screen where
  "scan_screen_mount = \<lparr>ss_permission = None, ss_requested = False, ss_requests = 0, ss_mountFailed = False, ss_torch = False,
     ss_handled = False, ss_cooldownUntil = 0, ss_banner = False, ss_timer = None\<rparr>"

definition permission_reported :: "camera_permission \<Rightarrow> scan_screen \<Rightarrow> scan_screen" where
  "permission_reported p s =
     (let s1 = s\<lparr>ss_permission := Some p\<rparr> in
      if \<not> ss_requested s \<and> cp_status p = Perm_Undetermined \<and> cp_canAskAgain p then s1\<lparr>ss_requested := True, ss_requests := Suc (ss_requests s)\<rparr>
      else s1)"

definition handleScan :: "int \<Rightarrow> string \<Rightarrow> scan_screen \<Rightarrow> scan_screen \<times> string option" where
  "handleScan now d s =
     (if ss_handled s then (s, None)
      else let key = normalizeScannedPayload d in
        if isAcceptableScan key then (s\<lparr>ss_handled := True\<rparr>, Some key)
        else if now < ss_cooldownUntil s then (s, None)
        else (s\<lparr>ss_cooldownUntil := now + INVALID_COOLDOWN_MS, ss_banner := True, ss_timer := Some (now + INVALID_COOLDOWN_MS)\<rparr>, None))"

datatype scan_view = View_Denied | View_Waiting | View_Camera

definition scan_view :: "scan_screen \<Rightarrow> scan_view" where
  "scan_view s =
     (if ss_mountFailed s \<or> (case ss_permission s of Some p \<Rightarrow> cp_status p = Perm_Denied | None \<Rightarrow> False) then View_Denied
      else if (case ss_permission s of Some p \<Rightarrow> cp_status p = Perm_Undetermined | None \<Rightarrow> True) then View_Waiting
      else View_Camera)"

datatype screen_event =
    Permission_Reported camera_permission
  | Barcode_Scanned string
  | Torch_Tapped
  | Camera_Mount_Fails
  | Banner_Times_Out

definition scan_screen_step :: "int \<Rightarrow> screen_event \<Rightarrow> scan_screen \<Rightarrow> scan_screen \<times> string option" where
  "scan_screen_step now e s =
     (case e of
        Permission_Reported p \<Rightarrow> (permission_reported p s, None)
      | Barcode_Scanned d \<Rightarrow> (if scan_view s = View_Camera then handleScan now d s else (s, None))
      | Torch_Tapped \<Rightarrow> (if scan_view s = View_Camera then (s\<lparr>ss_torch := \<not> ss_torch s\<rparr>, None) else (s, None))
      | Camera_Mount_Fails \<Rightarrow> (if scan_view s = View_Camera then (s\<lparr>ss_mountFailed := True\<rparr>, None) else (s, None))
      | Banner_Times_Out \<Rightarrow>
          (case ss_timer s of Some t \<Rightarrow> if t \<le> now then (s\<lparr>ss_banner := False, ss_timer := None\<rparr>, None) else (s, None) | None \<Rightarrow> (s, None)))"


text \<open>
  A scan hands over at most one key; the web camera is off whenever it should be, as long as the page is not hidden or
  shown while the camera is being asked for, and stays on when it is.
\<close>

section \<open>One key per scan\<close>

definition results_of :: "nat \<Rightarrow> scanner \<Rightarrow> string list" where
  "results_of n s = map snd (filter (\<lambda>r. fst r = n) (sc_results s))"

lemma stop_sel [simp]:
  "sc_active (scan_stop s) = sc_active s" "sc_run (scan_stop s) = sc_run s" "sc_visible (scan_stop s) = sc_visible s"
  "sc_handled (scan_stop s) = sc_handled s" "sc_results (scan_stop s) = sc_results s" "sc_starts (scan_stop s) = sc_starts s"
  "sc_stream (scan_stop s) = None" "sc_bound (scan_stop s) = None" "sc_fresh (scan_stop s) = sc_fresh s"
  by (simp_all add: scan_stop_def)

lemma start_sel [simp]:
  "sc_active (scan_start b s) = sc_active s" "sc_run (scan_start b s) = sc_run s" "sc_visible (scan_start b s) = sc_visible s"
  "sc_handled (scan_start b s) = sc_handled s" "sc_results (scan_start b s) = sc_results s" "sc_stream (scan_start b s) = sc_stream s"
  "sc_bound (scan_start b s) = sc_bound s" "sc_live (scan_start b s) = sc_live s" "sc_fresh (scan_start b s) = sc_fresh s"
  by (simp_all add: scan_start_def)

lemma playing_sel [simp]:
  "sc_active (scan_playing n s) = sc_active s" "sc_run (scan_playing n s) = sc_run s" "sc_visible (scan_playing n s) = sc_visible s"
  "sc_handled (scan_playing n s) = sc_handled s" "sc_results (scan_playing n s) = sc_results s" "sc_stream (scan_playing n s) = sc_stream s"
  "sc_bound (scan_playing n s) = sc_bound s" "sc_live (scan_playing n s) = sc_live s" "sc_starts (scan_playing n s) = sc_starts s"
  by (simp_all add: scan_playing_def request_frame_def)

lemma frame_sel [simp]:
  "sc_active (request_frame n s) = sc_active s" "sc_run (request_frame n s) = sc_run s" "sc_visible (request_frame n s) = sc_visible s"
  "sc_handled (request_frame n s) = sc_handled s" "sc_results (request_frame n s) = sc_results s" "sc_stream (request_frame n s) = sc_stream s"
  "sc_bound (request_frame n s) = sc_bound s" "sc_live (request_frame n s) = sc_live s" "sc_starts (request_frame n s) = sc_starts s"
  by (simp_all add: request_frame_def)

text \<open>Outside a frame, an acceptable one of the current run, nothing is handed over and nothing is marked as handled.\<close>

lemma acquired_sel [simp]:
  "sc_active (scan_acquired n r s) = sc_active s" "sc_run (scan_acquired n r s) = sc_run s" "sc_visible (scan_acquired n r s) = sc_visible s"
  "sc_handled (scan_acquired n r s) = sc_handled s" "sc_results (scan_acquired n r s) = sc_results s"
  by (simp_all add: scan_acquired_def Let_def split: sum.split)

definition once_inv :: "scanner \<Rightarrow> bool" where
  "once_inv s =
     ((\<forall>n. length (results_of n s) \<le> (if n < sc_run s \<or> (n = sc_run s \<and> sc_handled s) then 1 else 0))
      \<and> (\<forall>p \<in> set (sc_results s). \<exists>d. isAcceptableScan d \<and> snd p = normalizeScannedPayload d))"

lemma once_step: "once_inv s \<Longrightarrow> once_inv (scan_step e s)"
proof -
  assume inv: "once_inv s"
  have same: "once_inv t" if "sc_results t = sc_results s" "sc_run t = sc_run s" "sc_handled t = sc_handled s" for t
    using inv that by (simp add: once_inv_def results_of_def)
  have frame: "once_inv (scanFrame n d t)" if t: "sc_results t = sc_results s" "sc_run t = sc_run s" "sc_handled t = sc_handled s" for n d t
  proof (cases "scan_cancelled n t \<or> sc_handled t \<or> sc_bound t = None \<or> d = None \<or> \<not> isAcceptableScan (the d)")
    case True
    then have "sc_results (scanFrame n d t) = sc_results s" "sc_run (scanFrame n d t) = sc_run s" "sc_handled (scanFrame n d t) = sc_handled s"
      using t by (auto simp: scanFrame_def split: option.split)
    then show ?thesis by (rule same)
  next
    case False
    then obtain p where d: "d = Some p" "isAcceptableScan p" "sc_run s = n" "\<not> sc_handled s" using t by (auto simp: scan_cancelled_def)
    let ?u = "scanFrame n d t"
    have r: "sc_results ?u = sc_results s @ [(n, normalizeScannedPayload p)]" "sc_run ?u = n" "sc_handled ?u"
      using False d t by (simp_all add: scanFrame_def Let_def)
    have before: "length (results_of m s) \<le> (if m < n then 1 else 0)" for m using inv d(3,4) by (simp add: once_inv_def)
    have "results_of m ?u = results_of m s @ (if n = m then [normalizeScannedPayload p] else [])" for m
      using r(1) by (simp add: results_of_def)
    then have "length (results_of m ?u) \<le> (if m < sc_run ?u \<or> (m = sc_run ?u \<and> sc_handled ?u) then 1 else 0)" for m
      using before [of m] r(2,3) by auto
    moreover have "\<forall>q \<in> set (sc_results ?u). \<exists>d. isAcceptableScan d \<and> snd q = normalizeScannedPayload d"
      using inv d(2) r(1) by (auto simp: once_inv_def)
    ultimately show ?thesis by (simp add: once_inv_def)
  qed
  show ?thesis
  proof (cases e)
    case (Scan_Activate b)
    show ?thesis
    proof (cases "sc_active s")
      case False
      then have "sc_results (scan_step e s) = sc_results s" "sc_run (scan_step e s) = Suc (sc_run s)" "\<not> sc_handled (scan_step e s)"
        by (simp_all add: scan_step_def Scan_Activate)
      then show ?thesis using inv by (auto simp: once_inv_def results_of_def less_Suc_eq split: if_splits)
    qed (simp add: scan_step_def Scan_Activate inv)
  next
    case (Frame_Runs i d)
    then show ?thesis using frame inv by (simp add: scan_step_def)
  qed (auto simp: scan_step_def Let_def inv split: start_task.split intro!: same)
qed

text \<open>
  One key, once. Over every run of the web scanner, each time it is active it hands over at most one payload, and what it
  hands over is the trimmed text of a code that looked like a key.
\<close>

theorem scan_hands_over_once:
  "length (results_of n (fold scan_step es scanner_mount)) \<le> 1
   \<and> (set (results_of n (fold scan_step es scanner_mount)) \<subseteq> {normalizeScannedPayload d | d. isAcceptableScan d})"
proof -
  have "once_inv (fold scan_step es scanner_mount)"
  proof (induction es rule: rev_induct)
    case Nil
    then show ?case by (simp add: once_inv_def results_of_def scanner_mount_def)
  qed (simp add: once_step)
  then have "length (results_of n (fold scan_step es scanner_mount))
      \<le> (if n < sc_run (fold scan_step es scanner_mount) \<or> (n = sc_run (fold scan_step es scanner_mount) \<and> sc_handled (fold scan_step es scanner_mount)) then 1 else 0)"
    and keys: "\<forall>p \<in> set (sc_results (fold scan_step es scanner_mount)). \<exists>d. isAcceptableScan d \<and> snd p = normalizeScannedPayload d"
    unfolding once_inv_def by blast+
  from this(1) have "length (results_of n (fold scan_step es scanner_mount)) \<le> 1" by (rule order_trans) simp
  then show ?thesis using keys by (fastforce simp: results_of_def)
qed

section \<open>When the camera is off\<close>

definition asking :: "scanner \<Rightarrow> nat" where
  "asking s = (if sc_active s then length (filter (\<lambda>t. t = Acquiring (sc_run s)) (sc_starts s)) else 0)"

definition calm :: "scan_event \<Rightarrow> scanner \<Rightarrow> bool" where
  "calm e s =
     (case e of
        Page_Hides \<Rightarrow> asking s = 0
      | Page_Shows b \<Rightarrow> asking s = 0
      | Scan_Activate b \<Rightarrow> sc_visible s
      | _ \<Rightarrow> True)"

inductive calm_reach :: "scanner \<Rightarrow> bool" where
  calm_start: "calm_reach scanner_mount"
| calm_next: "calm_reach s \<Longrightarrow> calm e s \<Longrightarrow> calm_reach (scan_step e s)"

definition camera_inv :: "scanner \<Rightarrow> bool" where
  "camera_inv s =
     (sc_live s = (case sc_stream s of Some c \<Rightarrow> [c] | None \<Rightarrow> [])
      \<and> (sc_stream s = None \<longrightarrow> sc_bound s = None)
      \<and> (sc_stream s \<noteq> None \<longrightarrow> sc_active s \<and> sc_visible s \<and> \<not> sc_handled s)
      \<and> (asking s \<noteq> 0 \<longrightarrow> asking s = 1 \<and> sc_stream s = None \<and> sc_visible s \<and> \<not> sc_handled s)
      \<and> (\<forall>m. Acquiring m \<in> set (sc_starts s) \<longrightarrow> m \<le> sc_run s))"

lemma stop_live: "sc_live s = (case sc_stream s of Some c \<Rightarrow> [c] | None \<Rightarrow> []) \<Longrightarrow> sc_live (scan_stop s) = []"
  by (cases "sc_stream s") (simp_all add: scan_stop_def)

lemma camera_invI:
  assumes "sc_live s = (case sc_stream s of Some c \<Rightarrow> [c] | None \<Rightarrow> [])" "sc_stream s = None \<longrightarrow> sc_bound s = None"
    "sc_stream s \<noteq> None \<longrightarrow> sc_active s \<and> sc_visible s \<and> \<not> sc_handled s"
    "asking s \<noteq> 0 \<longrightarrow> asking s = 1 \<and> sc_stream s = None \<and> sc_visible s \<and> \<not> sc_handled s"
    "\<forall>m. Acquiring m \<in> set (sc_starts s) \<longrightarrow> m \<le> sc_run s"
  shows "camera_inv s"
  unfolding camera_inv_def using assms by blast

lemma camera_same:
  assumes "camera_inv s" "sc_live t = sc_live s" "sc_stream t = sc_stream s" "sc_bound t = sc_bound s" "sc_active t = sc_active s"
    "sc_visible t = sc_visible s" "sc_handled t = sc_handled s" "sc_run t = sc_run s" "asking t = asking s"
    "\<forall>m. Acquiring m \<in> set (sc_starts t) \<longrightarrow> m \<le> sc_run s"
  shows "camera_inv t"
  using assms(1,10) unfolding camera_inv_def assms(2-9) by blast

lemma off_inv:
  assumes "sc_live s = []" "sc_stream s = None" "sc_bound s = None" "asking s \<noteq> 0 \<Longrightarrow> asking s = 1 \<and> sc_visible s \<and> \<not> sc_handled s"
    "\<forall>m. Acquiring m \<in> set (sc_starts s) \<longrightarrow> m \<le> sc_run s"
  shows "camera_inv s"
  using assms by (simp add: camera_inv_def)

lemma inv_parts:
  assumes "camera_inv s"
  shows "sc_live s = (case sc_stream s of Some c \<Rightarrow> [c] | None \<Rightarrow> [])" "\<forall>m. Acquiring m \<in> set (sc_starts s) \<longrightarrow> m \<le> sc_run s"
    "sc_stream s \<noteq> None \<Longrightarrow> sc_active s \<and> sc_visible s \<and> \<not> sc_handled s \<and> asking s = 0"
    "asking s \<noteq> 0 \<Longrightarrow> asking s = 1 \<and> sc_stream s = None \<and> sc_visible s \<and> \<not> sc_handled s"
    "sc_stream s = None \<Longrightarrow> sc_bound s = None"
proof -
  note c = assms [unfolded camera_inv_def]
  show "sc_live s = (case sc_stream s of Some c \<Rightarrow> [c] | None \<Rightarrow> [])" "\<forall>m. Acquiring m \<in> set (sc_starts s) \<longrightarrow> m \<le> sc_run s"
    using c by blast+
  show "sc_stream s \<noteq> None \<Longrightarrow> sc_active s \<and> sc_visible s \<and> \<not> sc_handled s \<and> asking s = 0" using c by (cases "asking s = 0") simp_all
  show "asking s \<noteq> 0 \<Longrightarrow> asking s = 1 \<and> sc_stream s = None \<and> sc_visible s \<and> \<not> sc_handled s" using c by blast
  show "sc_stream s = None \<Longrightarrow> sc_bound s = None" using c by blast
qed

lemma asking_sel [simp]:
  "asking (scan_stop s) = asking s" "asking (s\<lparr>sc_active := False\<rparr>) = 0" "asking (s\<lparr>sc_visible := v\<rparr>) = asking s"
  "asking (s\<lparr>sc_frames := fs\<rparr>) = asking s" "asking (s\<lparr>sc_handled := h\<rparr>) = asking s" "asking (s\<lparr>sc_results := rs\<rparr>) = asking s"
  "asking (request_frame n s) = asking s" "asking (scan_playing n s) = asking s"
  by (simp_all add: asking_def)

lemma asking_start: "sc_active s \<Longrightarrow> asking (scan_start b s) = asking s + (if b then 1 else 0)"
  by (simp add: asking_def scan_start_def)

lemma start_set: "set (sc_starts (scan_start b s)) \<subseteq> insert (Acquiring (sc_run s)) (set (sc_starts s))"
  by (auto simp: scan_start_def)

lemma filter_drop_at:
  assumes "i < length xs"
  shows "length (filter P (drop_at i xs)) + (if P (xs ! i) then 1 else 0) = length (filter P xs)"
proof -
  have "filter P xs = filter P (take i xs) @ filter P (xs ! i # drop (Suc i) xs)"
    using id_take_nth_drop [OF assms] by (metis filter_append)
  then show ?thesis by (simp add: drop_at_def)
qed

lemma set_drop_at: "set (drop_at i xs) \<subseteq> set xs"
  by (auto simp: drop_at_def dest: in_set_takeD in_set_dropD)

lemma camera_step:
  assumes inv: "camera_inv s" and c: "calm e s"
  shows "camera_inv (scan_step e s)"
proof (cases e)
  case (Scan_Activate b)
  have none: "filter (\<lambda>t. t = Acquiring (Suc (sc_run s))) (sc_starts s) = []"
    using inv by (fastforce simp: camera_inv_def filter_empty_conv)
  show ?thesis
  proof (cases "sc_active s")
    case False
    then have "sc_stream s = None" using inv by (auto simp: camera_inv_def)
    then show ?thesis using inv c False none
      by (auto simp: scan_step_def Scan_Activate camera_inv_def asking_def scan_start_def calm_def)
  qed (simp add: scan_step_def Scan_Activate inv)
next
  case Scan_Deactivate
  have "camera_inv (scan_stop (s\<lparr>sc_active := False\<rparr>))"
    using inv_parts(1,2) [OF inv] by (intro off_inv stop_live) simp_all
  then show ?thesis using inv by (simp add: scan_step_def Scan_Deactivate)
next
  case Page_Hides
  then have a: "asking s = 0" using c by (simp add: calm_def)
  show ?thesis
  proof (cases "sc_active s")
    case True
    have "camera_inv (scan_stop (s\<lparr>sc_visible := False\<rparr>))"
      using inv_parts(1,2) [OF inv] a by (intro off_inv stop_live) simp_all
    then show ?thesis using inv True by (simp add: scan_step_def Page_Hides Let_def)
  next
    case False
    then have "sc_stream s = None" using inv_parts(3) [OF inv] by blast
    then have "camera_inv (s\<lparr>sc_visible := False\<rparr>)"
      using inv_parts(1,2,5) [OF inv] a by (intro off_inv) simp_all
    then show ?thesis using inv False by (simp add: scan_step_def Page_Hides Let_def)
  qed
next
  case (Page_Shows b)
  then have a: "asking s = 0" using c by (simp add: calm_def)
  show ?thesis
  proof (cases "sc_visible s")
    case False
    then have off: "sc_stream s = None" "sc_live s = []" "sc_bound s = None"
      using inv_parts(1,3,5) [OF inv] by (cases "sc_stream s"; simp)+
    have "camera_inv (s\<lparr>sc_visible := True\<rparr>)"
      using off inv_parts(2) [OF inv] a by (intro off_inv) simp_all
    moreover have "camera_inv (scan_start b (s\<lparr>sc_visible := True\<rparr>))" if "sc_active s" "\<not> sc_handled s"
      using off inv_parts(2) [OF inv] a that start_set [of b "s\<lparr>sc_visible := True\<rparr>"]
      by (intro off_inv) (auto simp: asking_start split: if_splits)
    ultimately show ?thesis using False by (simp add: scan_step_def Page_Shows Let_def)
  qed (simp add: scan_step_def Page_Shows inv)
next
  case (Camera_Answers i r)
  show ?thesis
  proof (cases "i < length (sc_starts s) \<and> (\<exists>n. sc_starts s ! i = Acquiring n)")
    case True
    then obtain n where i: "i < length (sc_starts s)" "sc_starts s ! i = Acquiring n" by blast
    let ?t = "s\<lparr>sc_starts := drop_at i (sc_starts s)\<rparr>"
    have step: "scan_step e s = scan_acquired n r ?t" using i by (simp add: scan_step_def Camera_Answers)
    have ask: "asking ?t + (if sc_active s \<and> n = sc_run s then 1 else 0) = asking s"
      using filter_drop_at [OF i(1), of "\<lambda>t. t = Acquiring (sc_run s)"] by (auto simp: asking_def i(2))
    have sub: "Acquiring m \<in> set (drop_at i (sc_starts s)) \<longrightarrow> m \<le> sc_run s" for m
      using inv set_drop_at [of i "sc_starts s"] by (auto simp: camera_inv_def)
    note parts = inv_parts [OF inv]
    have less: "asking ?t \<le> asking s" using ask by (metis le_add1)
    have one: "asking s \<noteq> 0 \<longrightarrow> asking s = 1" using parts(4) by blast
    have asks: "asking ?t \<noteq> 0 \<longrightarrow> asking ?t = 1 \<and> sc_stream ?t = None \<and> sc_visible ?t \<and> \<not> sc_handled ?t"
    proof
      assume t: "asking ?t \<noteq> 0"
      then have "asking s \<noteq> 0" using less by linarith
      from parts(4) [OF this] have "sc_stream s = None" "sc_visible s" "\<not> sc_handled s" by blast+
      moreover have "asking ?t = 1" using t less one by linarith
      ultimately show "asking ?t = 1 \<and> sc_stream ?t = None \<and> sc_visible ?t \<and> \<not> sc_handled ?t" by simp
    qed
    have inv': "camera_inv ?t"
    proof (rule camera_invI [OF _ _ _ asks])
      show "sc_live ?t = (case sc_stream ?t of Some c \<Rightarrow> [c] | None \<Rightarrow> [])" using parts(1) by simp
      show "sc_stream ?t = None \<longrightarrow> sc_bound ?t = None" using parts(5) by simp
      show "sc_stream ?t \<noteq> None \<longrightarrow> sc_active ?t \<and> sc_visible ?t \<and> \<not> sc_handled ?t" using parts(3) by simp
      show "\<forall>m. Acquiring m \<in> set (sc_starts ?t) \<longrightarrow> m \<le> sc_run ?t" using sub by simp
    qed
    show ?thesis
    proof (cases "scan_cancelled n s \<or> (\<exists>e. r = Inr e)")
      case True
      have "camera_inv (?t\<lparr>sc_fresh := k\<rparr>)" "camera_inv (?t\<lparr>sc_status := st\<rparr>)" for k st
        by (rule camera_same [OF inv']; use sub in \<open>simp add: asking_def\<close>)+
      with True inv' show ?thesis
        unfolding step by (auto simp: scan_acquired_def scan_cancelled_def Let_def split: sum.split)
    next
      case False
      then obtain b where r: "r = Inl b" "sc_active s" "sc_run s = n" "\<not> scan_cancelled n ?t" by (cases r) (auto simp: scan_cancelled_def)
      then have s: "asking s = asking ?t + 1" using ask by simp
      then have "asking s \<noteq> 0" by simp
      from parts(4) [OF this] parts(1) s have off: "asking ?t = 0" "sc_live s = []" "sc_visible s" "\<not> sc_handled s" by simp_all
      let ?u = "scan_acquired n r ?t"
      have "asking ?u = 0" "sc_live ?u = [sc_fresh s]" "sc_stream ?u = Some (sc_fresh s)" "set (sc_starts ?u) \<subseteq> insert (Playing n) (set (drop_at i (sc_starts s)))"
        using r off by (auto simp: scan_acquired_def Let_def asking_def)
      then show ?thesis using r off sub unfolding step by (auto simp: camera_inv_def)
    qed
  qed (use inv in \<open>auto simp: scan_step_def Camera_Answers split: start_task.split\<close>)
next
  case (Video_Plays i)
  show ?thesis
  proof (cases "i < length (sc_starts s) \<and> (\<exists>n. sc_starts s ! i = Playing n)")
    case True
    then obtain n where i: "i < length (sc_starts s)" "sc_starts s ! i = Playing n" by blast
    let ?t = "s\<lparr>sc_starts := drop_at i (sc_starts s)\<rparr>"
    have "asking (scan_playing n ?t) = asking s"
      using filter_drop_at [OF i(1), of "\<lambda>t. t = Acquiring (sc_run s)"] by (simp add: asking_def i(2))
    moreover have "Acquiring m \<in> set (drop_at i (sc_starts s)) \<longrightarrow> m \<le> sc_run s" for m
      using inv_parts(2) [OF inv] set_drop_at [of i "sc_starts s"] by auto
    ultimately have "camera_inv (scan_playing n ?t)" by (intro camera_same [OF inv]) simp_all
    then show ?thesis using i by (simp add: scan_step_def Video_Plays)
  qed (use inv in \<open>auto simp: scan_step_def Video_Plays split: start_task.split\<close>)
next
  case (Frame_Runs i d)
  let ?t = "s\<lparr>sc_frames := drop_at i (sc_frames s)\<rparr>" and ?n = "snd (sc_frames s ! i)"
  note parts = inv_parts [OF inv]
  have inv': "camera_inv ?t" and rf: "camera_inv (request_frame ?n ?t)"
    using parts(2) by (intro camera_same [OF inv]; simp)+
  have "camera_inv (scanFrame ?n d ?t)"
  proof (cases "scan_cancelled ?n ?t \<or> sc_handled ?t \<or> sc_bound ?t = None \<or> d = None \<or> \<not> isAcceptableScan (the d)")
    case True
    then show ?thesis using inv' rf by (auto simp: scanFrame_def split: option.split)
  next
    case False
    let ?u = "scanFrame ?n d ?t"
    have "sc_bound s \<noteq> None" using False by simp
    then have "sc_stream s \<noteq> None" by (rule contrapos_nn) (rule parts(5))
    then have "asking s = 0" using parts(3) by blast
    moreover have "sc_live ?u = sc_live (scan_stop ?t)" "sc_stream ?u = None" "sc_bound ?u = None" "asking ?u = asking s" "sc_starts ?u = sc_starts s"
      "sc_run ?u = sc_run s"
      using False by (auto simp: scanFrame_def Let_def asking_def scan_stop_def split: option.split)
    moreover have "sc_live (scan_stop ?t) = []" using parts(1) by (intro stop_live) simp
    ultimately show ?thesis using parts(2) by (intro off_inv) simp_all
  qed
  then show ?thesis using inv by (simp add: scan_step_def Frame_Runs)
qed

text \<open>
  The camera is released. As long as the page is not hidden or shown while the camera is being asked for, and scanning
  starts on a visible page, at most one camera stream is live, and none is while the scanner is not active, while the page
  is hidden, or once a key was scanned.
\<close>

theorem camera_released:
  assumes "calm_reach s"
  shows "length (sc_live s) \<le> 1 \<and> (sc_live s = [] \<or> sc_active s \<and> sc_visible s \<and> \<not> sc_handled s)"
proof -
  have "camera_inv s" using assms
  proof (induction rule: calm_reach.induct)
    case calm_start
    then show ?case by (simp add: camera_inv_def scanner_mount_def asking_def)
  qed (rule camera_step)
  then show ?thesis by (auto simp: camera_inv_def split: option.splits)
qed

theorem camera_released_witness:
  "sc_live (fold scan_step [Scan_Activate True, Camera_Answers 0 (Inl True), Video_Plays 0] scanner_mount) = [0]
   \<and> sc_live (fold scan_step [Scan_Activate True, Camera_Answers 0 (Inl True), Video_Plays 0, Page_Hides] scanner_mount) = []"
proof -
  let ?s = "fold scan_step [Scan_Activate True, Camera_Answers 0 (Inl True), Video_Plays 0] scanner_mount"
  have on: "sc_live ?s = [0]" by code_simp
  have "calm (Scan_Activate True) scanner_mount" by code_simp
  from calm_next [OF calm_start this] have "calm_reach (fold scan_step [Scan_Activate True] scanner_mount)" by simp
  from calm_next [OF this, of "Camera_Answers 0 (Inl True)"]
  have "calm_reach (fold scan_step [Scan_Activate True, Camera_Answers 0 (Inl True)] scanner_mount)" by (simp add: calm_def)
  from calm_next [OF this, of "Video_Plays 0"] have "calm_reach ?s" by (simp add: calm_def)
  moreover have "calm Page_Hides ?s" by code_simp
  ultimately have "calm_reach (scan_step Page_Hides ?s)" by (rule calm_next)
  from camera_released [OF this] have "sc_live (scan_step Page_Hides ?s) = [] \<or> sc_visible (scan_step Page_Hides ?s)" by blast
  moreover have "\<not> sc_visible (scan_step Page_Hides ?s)" by code_simp
  ultimately show ?thesis using on by simp
qed

text \<open>
  The camera is left on. Hiding and showing the page while the camera is being asked for asks twice: the first stream is
  forgotten and still runs after the scanner is gone. And a camera granted while the page is hidden runs on the hidden page.
\<close>

theorem camera_left_on:
  "let s = fold scan_step [Scan_Activate True, Page_Hides, Page_Shows True, Camera_Answers 0 (Inl True), Camera_Answers 0 (Inl True),
         Video_Plays 0, Video_Plays 0, Scan_Deactivate] scanner_mount
   in sc_live s = [0] \<and> \<not> sc_active s"
  "let s = fold scan_step [Scan_Activate True, Page_Hides, Camera_Answers 0 (Inl True)] scanner_mount
   in sc_live s = [0] \<and> \<not> sc_visible s"
  by code_simp+

section \<open>The mobile screen\<close>

definition screen_run :: "(int \<times> screen_event) list \<Rightarrow> scan_screen \<times> string list" where
  "screen_run es = fold (\<lambda>(now, e) (s, out). case scan_screen_step now e s of (s', r) \<Rightarrow> (s', out @ (case r of Some k \<Rightarrow> [k] | None \<Rightarrow> [])))
     es (scan_screen_mount, [])"

text \<open>
  The mobile screen asks for the camera at most once and hands over at most one key, one that looks like a key, and only
  while the camera is on screen.
\<close>

theorem mobile_scan_once:
  "ss_requests (fst (screen_run es)) \<le> 1 \<and> length (snd (screen_run es)) \<le> 1 \<and> list_all isAcceptableScan (snd (screen_run es))"
proof -
  have "ss_requests (fst (screen_run es)) = (if ss_requested (fst (screen_run es)) then 1 else 0)
    \<and> length (snd (screen_run es)) = (if ss_handled (fst (screen_run es)) then 1 else 0) \<and> list_all isAcceptableScan (snd (screen_run es))"
  proof (induction es rule: rev_induct)
    case Nil
    then show ?case by (simp add: screen_run_def scan_screen_mount_def)
  next
    case (snoc x es)
    obtain now e where x: "x = (now, e)" by (cases x)
    obtain s out where p: "screen_run es = (s, out)" by (cases "screen_run es")
    have "screen_run (es @ [x]) = (case scan_screen_step now e s of (s', r) \<Rightarrow> (s', out @ (case r of Some k \<Rightarrow> [k] | None \<Rightarrow> [])))"
      using p by (simp add: screen_run_def x)
    then show ?case using snoc.IH unfolding p
      by (cases e)
        (auto simp: scan_screen_step_def permission_reported_def handleScan_def Let_def split: option.split)
  qed
  then show ?thesis by simp
qed

end
