(* ===== verification/Identity_Guard.thy ===== *)
theory Identity_Guard
  imports Identity_Machine Device_Timers Device_Prefs
begin

text \<open>
  What guards the unlocked key of the mobile app from outside the machine: the provider around it
  (apps/mobile/src/identity/identity-context.tsx) with its background lock, idle timer and interaction signal, and the
  notification preferences (apps/mobile/src/notifications/prefs.ts).
\<close>

section \<open>The provider\<close>

text \<open>
  The machine with its pending actions, the state of the app, the timeout of the settings and the live timer
  (\<open>timerRef\<close>) with its window. Every event comes with the clock.
\<close>

record 'k guard =
  gd_app :: "'k app"
  gd_phase :: app_state
  gd_setting :: app_lock_timeout
  gd_timer :: "(int \<times> idle) option"

definition is_unlocked :: "'k machine \<Rightarrow> bool" where
  "is_unlocked m = (case mstate m of Unlocked k pk rs \<Rightarrow> True | _ \<Rightarrow> False)"

definition guard_unlocked :: "'k guard \<Rightarrow> bool" where
  "guard_unlocked g = is_unlocked (am (gd_app g))"

definition resolveAutoLockMs :: "app_lock_timeout \<Rightarrow> int option" where
  "resolveAutoLockMs t = appLockTimeoutMs t"

definition timer_reset :: "int \<Rightarrow> 'k guard \<Rightarrow> 'k guard" where
  "timer_reset now g = g\<lparr>gd_timer := map_option (\<lambda>(T, i). (T, idle_reset T now i)) (gd_timer g)\<rparr>"

definition timer_stop :: "'k guard \<Rightarrow> 'k guard" where
  "timer_stop g = g\<lparr>gd_timer := map_option (\<lambda>(T, i). (T, idle_stop i)) (gd_timer g)\<rparr>"

definition signalActivity :: "int \<Rightarrow> 'k guard \<Rightarrow> 'k guard" where
  "signalActivity now g = timer_reset now g"

definition lock_machine :: "'k guard \<Rightarrow> 'k guard" where
  "lock_machine g = g\<lparr>gd_app := (gd_app g)\<lparr>am := snd (start Lock (am (gd_app g)))\<rparr>\<rparr>"

text \<open>The effect of the timeout: the old timer is stopped, and a new one made and armed unless the lock is off.\<close>

definition timer_effect :: "int \<Rightarrow> 'k guard \<Rightarrow> 'k guard" where
  "timer_effect now g =
     (case resolveAutoLockMs (gd_setting g) of
        None \<Rightarrow> g\<lparr>gd_timer := None\<rparr>
      | Some ms \<Rightarrow> timer_reset now (g\<lparr>gd_timer := Some (ms, idle_start)\<rparr>))"

definition guard_mount :: "int \<Rightarrow> app_lock_timeout \<Rightarrow> 'k app \<Rightarrow> 'k guard" where
  "guard_mount now t a = timer_effect now \<lparr>gd_app = a, gd_phase = AppActive, gd_setting = t, gd_timer = None\<rparr>"

definition app_changes :: "int \<Rightarrow> app_state \<Rightarrow> 'k guard \<Rightarrow> 'k guard" where
  "app_changes now a g =
     (let g1 = g\<lparr>gd_phase := a\<rparr>; g2 = (if shouldLockOnAppState a then lock_machine g1 else g1)
      in if a = AppActive then timer_reset now g2 else timer_stop g2)"

text \<open>The effect of the status: the window starts anew when the machine becomes unlocked.\<close>

definition status_effect :: "int \<Rightarrow> bool \<Rightarrow> 'k guard \<Rightarrow> 'k guard" where
  "status_effect now was g = (if guard_unlocked g \<and> \<not> was then timer_reset now g else g)"

datatype 'k guard_event =
    Machine_Event "'k event"
  | App_Changes app_state
  | Touch
  | Setting_Changes app_lock_timeout
  | Timer_Due

definition guard_event :: "'k id_crypto \<Rightarrow> int \<Rightarrow> 'k guard_event \<Rightarrow> 'k guard \<Rightarrow> 'k guard" where
  "guard_event ic now e g =
     (case e of
        Machine_Event v \<Rightarrow> g\<lparr>gd_app := app_step ic v (gd_app g)\<rparr>
      | App_Changes a \<Rightarrow> app_changes now a g
      | Touch \<Rightarrow> signalActivity now g
      | Setting_Changes t \<Rightarrow> (if t = gd_setting g then g else timer_effect now (g\<lparr>gd_setting := t\<rparr>))
      | Timer_Due \<Rightarrow>
          (case gd_timer g of
             None \<Rightarrow> g
           | Some (T, i) \<Rightarrow>
               (case il_handle i of
                  None \<Rightarrow> g
                | Some h \<Rightarrow>
                    if now < h then g
                    else (case idle_tick now i of
                            (i', expired) \<Rightarrow> (if expired then lock_machine (g\<lparr>gd_timer := Some (T, i')\<rparr>) else g\<lparr>gd_timer := Some (T, i')\<rparr>)))))"

definition guard_step :: "'k id_crypto \<Rightarrow> int \<Rightarrow> 'k guard_event \<Rightarrow> 'k guard \<Rightarrow> 'k guard" where
  "guard_step ic now e g = status_effect now (guard_unlocked g) (guard_event ic now e g)"

section \<open>Notification preferences\<close>

text \<open>An object as its properties in order; spreading one over another replaces in place or appends.\<close>

type_synonym js_object = "(string, json) js_map"

definition spread :: "js_object \<Rightarrow> js_object \<Rightarrow> js_object" where
  "spread base kvs = fold (\<lambda>(k, v) acc. map_set k v acc) kvs base"

definition props_of :: "json option \<Rightarrow> js_object" where
  "props_of v = (case v of Some (JObj kvs) \<Rightarrow> kvs | _ \<Rightarrow> [])"

definition DEFAULT_QUIET_HOURS :: js_object where
  "DEFAULT_QUIET_HOURS = [(''enabled'', JBool False), (''from'', JStr ''22:00''), (''to'', JStr ''07:00'')]"

definition DEFAULT_PREFS :: js_object where
  "DEFAULT_PREFS = [(''linkOpened'', JBool True), (''expiringSoon'', JBool True), (''keyChanged'', JBool True),
     (''quietHours'', JObj DEFAULT_QUIET_HOURS), (''permissionPrimed'', JBool False)]"

text \<open>
  Values that are parsed but are no objects contribute no property that is read; only \<open>null\<close> makes the access throw,
  which is caught.
\<close>

definition loadNotificationPrefs :: "(string \<Rightarrow> json option) \<Rightarrow> string option \<Rightarrow> js_object" where
  "loadNotificationPrefs parse raw =
     (case raw of
        None \<Rightarrow> DEFAULT_PREFS
      | Some s \<Rightarrow>
          if s = [] then DEFAULT_PREFS
          else case parse s of
            None \<Rightarrow> DEFAULT_PREFS
          | Some JNull \<Rightarrow> DEFAULT_PREFS
          | Some j \<Rightarrow> spread (spread DEFAULT_PREFS (props_of (Some j))) [(''quietHours'', JObj (spread DEFAULT_QUIET_HOURS (props_of (json_prop ''quietHours'' j))))])"

definition merged_prefs :: "js_object \<Rightarrow> js_object \<Rightarrow> js_object" where
  "merged_prefs current patch =
     spread (spread current patch)
       [(''quietHours'', JObj (spread (props_of (map_of current ''quietHours'')) (props_of (map_of patch ''quietHours''))))]"

text \<open>
  The item of the keychain and the updates under way, each with what it loaded and its patch. An update loads when it
  begins and writes when it ends, or its write fails.
\<close>

record prefs_item =
  pi_stored :: "string option"
  pi_updates :: "(js_object \<times> js_object) list"

datatype prefs_event = Update_Begins js_object | Update_Ends nat bool

definition updateNotificationPrefs :: "(string \<Rightarrow> json option) \<Rightarrow> (json \<Rightarrow> string) \<Rightarrow> prefs_event \<Rightarrow> prefs_item \<Rightarrow> prefs_item" where
  "updateNotificationPrefs parse to_text e p =
     (case e of
        Update_Begins patch \<Rightarrow> p\<lparr>pi_updates := pi_updates p @ [(loadNotificationPrefs parse (pi_stored p), patch)]\<rparr>
      | Update_Ends i written \<Rightarrow>
          (if i < length (pi_updates p)
           then (case pi_updates p ! i of
                   (current, patch) \<Rightarrow>
                     let p1 = p\<lparr>pi_updates := take i (pi_updates p) @ drop (Suc i) (pi_updates p)\<rparr> in
                     if written then p1\<lparr>pi_stored := Some (to_text (JObj (merged_prefs current patch)))\<rparr> else p1)
           else p))"


text \<open>
  The idle window of the unlocked key, what the background lock covers and what escapes both, and what an update of the
  notification preferences keeps.
\<close>

section \<open>The idle window\<close>

inductive guard_reach :: "'k id_crypto \<Rightarrow> int \<Rightarrow> 'k guard \<Rightarrow> bool" for ic where
  guard_starts: "guard_reach ic now (guard_mount now t a)"
| guard_steps: "guard_reach ic t g \<Longrightarrow> t \<le> now \<Longrightarrow> e \<noteq> Machine_Event Crash \<Longrightarrow> guard_reach ic now (guard_step ic now e g)"

text \<open>What holds of the timer: it has the window of the setting, is due by its deadline, and runs while the key is unlocked on an active app.\<close>

definition timer_ok :: "int \<Rightarrow> (int \<times> idle) option \<Rightarrow> app_lock_timeout \<Rightarrow> bool \<Rightarrow> bool" where
  "timer_ok t tm setting must_run =
     (case (tm, resolveAutoLockMs setting) of
        (None, None) \<Rightarrow> True
      | (Some (T, i), Some T') \<Rightarrow>
          T = T' \<and> (\<forall>h. il_handle i = Some h \<longrightarrow> h \<le> il_deadline i \<and> il_deadline i \<le> t + T)
          \<and> (must_run \<longrightarrow> il_handle i \<noteq> None)
      | _ \<Rightarrow> False)"

definition guard_inv :: "int \<Rightarrow> 'k guard \<Rightarrow> bool" where
  "guard_inv t g = timer_ok t (gd_timer g) (gd_setting g) (guard_unlocked g \<and> gd_phase g = AppActive)"

lemma timer_weaken: "timer_ok t tm s b \<Longrightarrow> t \<le> now \<Longrightarrow> (b' \<longrightarrow> b) \<Longrightarrow> timer_ok now tm s b'"
  by (auto simp: timer_ok_def split: option.splits)

lemma timer_reset_ok: "timer_ok t tm s b \<Longrightarrow> t \<le> now \<Longrightarrow> timer_ok now (map_option (\<lambda>(T, i). (T, idle_reset T now i)) tm) s b'"
  by (auto simp: timer_ok_def idle_reset_def Let_def split: option.splits)

lemma timer_stop_ok: "timer_ok t tm s b \<Longrightarrow> t \<le> now \<Longrightarrow> timer_ok now (map_option (\<lambda>(T, i). (T, idle_stop i)) tm) s False"
  by (auto simp: timer_ok_def idle_stop_def split: option.splits)

lemma timer_new_ok: "timer_ok now (gd_timer (timer_effect now g)) (gd_setting g) b"
  by (auto simp: timer_ok_def timer_effect_def timer_reset_def idle_reset_def idle_start_def Let_def split: option.split)

lemma timer_sel [simp]:
  "gd_app (timer_reset now g) = gd_app g" "gd_phase (timer_reset now g) = gd_phase g" "gd_setting (timer_reset now g) = gd_setting g"
  "gd_app (timer_stop g) = gd_app g" "gd_phase (timer_stop g) = gd_phase g" "gd_setting (timer_stop g) = gd_setting g"
  "gd_app (timer_effect now g) = gd_app g" "gd_phase (timer_effect now g) = gd_phase g" "gd_setting (timer_effect now g) = gd_setting g"
  "gd_timer (lock_machine g) = gd_timer g" "gd_phase (lock_machine g) = gd_phase g" "gd_setting (lock_machine g) = gd_setting g"
  "tasks (gd_app (lock_machine g)) = tasks (gd_app g)"
  by (simp_all add: timer_reset_def timer_stop_def timer_effect_def lock_machine_def split: option.split)

lemma unlocked_sel [simp]:
  "guard_unlocked (timer_reset now g) = guard_unlocked g" "guard_unlocked (timer_stop g) = guard_unlocked g"
  "guard_unlocked (timer_effect now g) = guard_unlocked g" "guard_unlocked (g\<lparr>gd_phase := a\<rparr>) = guard_unlocked g"
  "guard_unlocked (g\<lparr>gd_setting := s\<rparr>) = guard_unlocked g" "guard_unlocked (g\<lparr>gd_timer := tm\<rparr>) = guard_unlocked g"
  by (simp_all add: guard_unlocked_def)

lemma locked_after [simp]: "\<not> guard_unlocked (lock_machine g)"
  by (simp add: guard_unlocked_def lock_machine_def is_unlocked_def start_def set_state_def split: identity_state.split)

lemma reset_inv: "timer_ok t (gd_timer g) (gd_setting g) b \<Longrightarrow> t \<le> now \<Longrightarrow> guard_inv now (timer_reset now g)"
  unfolding guard_inv_def timer_sel by (simp add: timer_reset_def timer_reset_ok)

lemma status_inv:
  assumes "timer_ok now (gd_timer g) (gd_setting g) (was \<and> gd_phase g = AppActive)"
  shows "guard_inv now (status_effect now was g)"
proof (cases "guard_unlocked g \<and> \<not> was")
  case True
  then show ?thesis using reset_inv [OF assms order_refl] by (simp add: status_effect_def)
next
  case False
  then show ?thesis using timer_weaken [OF assms order_refl] by (auto simp: status_effect_def guard_inv_def)
qed

lemma guard_step_inv:
  assumes inv: "guard_inv t g" and t: "t \<le> now"
  shows "guard_inv now (guard_step ic now e g)"
proof -
  let ?was = "guard_unlocked g"
  have ok: "timer_ok t (gd_timer g) (gd_setting g) (?was \<and> gd_phase g = AppActive)" using inv by (simp add: guard_inv_def)
  have "timer_ok now (gd_timer (guard_event ic now e g)) (gd_setting (guard_event ic now e g)) (?was \<and> gd_phase (guard_event ic now e g) = AppActive)
    \<or> \<not> guard_unlocked (guard_event ic now e g) \<and> timer_ok now (gd_timer (guard_event ic now e g)) (gd_setting (guard_event ic now e g)) False"
  proof (cases e)
    case (Machine_Event v)
    then show ?thesis using timer_weaken [OF ok t] by (simp add: guard_event_def)
  next
    case (App_Changes a)
    show ?thesis
    proof (cases "a = AppActive")
      case True
      then show ?thesis using timer_reset_ok [OF ok t]
        by (simp add: guard_event_def App_Changes app_changes_def shouldLockOnAppState_def timer_reset_def)
    next
      case False
      have "timer_ok now (gd_timer (timer_stop (lock_machine (g\<lparr>gd_phase := a\<rparr>)))) (gd_setting g) False"
        "timer_ok now (gd_timer (timer_stop (g\<lparr>gd_phase := a\<rparr>))) (gd_setting g) False"
        using timer_stop_ok [OF ok t] by (simp_all add: timer_stop_def)
      with False show ?thesis by (cases a) (simp_all add: guard_event_def App_Changes app_changes_def shouldLockOnAppState_def)
    qed
  next
    case Touch
    then show ?thesis using timer_reset_ok [OF ok t] by (simp add: guard_event_def signalActivity_def timer_reset_def)
  next
    case (Setting_Changes s)
    then show ?thesis using timer_weaken [OF ok t] timer_new_ok [of now "g\<lparr>gd_setting := s\<rparr>"] by (simp add: guard_event_def)
  next
    case Timer_Due
    show ?thesis
    proof (cases "\<exists>T i h. gd_timer g = Some (T, i) \<and> il_handle i = Some h \<and> h \<le> now")
      case True
      then obtain T i h where h: "gd_timer g = Some (T, i)" "il_handle i = Some h" "h \<le> now" by blast
      then have r: "resolveAutoLockMs (gd_setting g) = Some T" "il_deadline i \<le> t + T"
        using ok by (auto simp: timer_ok_def split: option.splits)
      show ?thesis
      proof (cases "il_deadline i \<le> now")
        case True
        then have "guard_event ic now e g = lock_machine (g\<lparr>gd_timer := Some (T, i\<lparr>il_handle := None\<rparr>)\<rparr>)"
          using h by (simp add: guard_event_def Timer_Due idle_tick_def)
        then show ?thesis using r t by (simp add: timer_ok_def)
      next
        case False
        then have "guard_event ic now e g = g\<lparr>gd_timer := Some (T, i\<lparr>il_handle := Some (il_deadline i)\<rparr>)\<rparr>"
          using h by (simp add: guard_event_def Timer_Due idle_tick_def Let_def)
        then show ?thesis using r t by (simp add: timer_ok_def)
      qed
    next
      case False
      then have "guard_event ic now e g = g" by (auto simp: guard_event_def Timer_Due split: option.split prod.split)
      then show ?thesis using timer_weaken [OF ok t] by simp
    qed
  qed
  then show ?thesis
  proof
    assume "timer_ok now (gd_timer (guard_event ic now e g)) (gd_setting (guard_event ic now e g)) (?was \<and> gd_phase (guard_event ic now e g) = AppActive)"
    then show ?thesis unfolding guard_step_def by (rule status_inv)
  next
    assume "\<not> guard_unlocked (guard_event ic now e g) \<and> timer_ok now (gd_timer (guard_event ic now e g)) (gd_setting (guard_event ic now e g)) False"
    then show ?thesis by (simp add: guard_step_def status_effect_def guard_inv_def)
  qed
qed

text \<open>
  C31: an idle key is locked in time. Whatever happened before, while the key is unlocked, the app active and the timeout set,
  a timer is running: if nothing else happens, it locks the key once its deadline is reached, at the latest one window
  after the last event, and fired early it is set again for that deadline.
\<close>

theorem idle_key_locked:
  assumes "guard_reach ic t g" "guard_unlocked g" "gd_phase g = AppActive" "resolveAutoLockMs (gd_setting g) = Some T"
  shows "\<exists>h d. h \<le> d \<and> d \<le> t + T
    \<and> (\<forall>now \<ge> h. guard_unlocked (guard_step ic now Timer_Due g) \<longleftrightarrow> now < d)
    \<and> (\<forall>now \<ge> h. now < d \<longrightarrow> \<not> guard_unlocked (guard_step ic d Timer_Due (guard_step ic now Timer_Due g)))"
proof -
  have "guard_inv t g" using assms(1)
  proof (induction rule: guard_reach.induct)
    case (guard_starts now s a)
    have "gd_setting (guard_mount now s a) = s" by (simp add: guard_mount_def)
    then show ?case using timer_new_ok [of now "\<lparr>gd_app = a, gd_phase = AppActive, gd_setting = s, gd_timer = None\<rparr>"]
      by (simp add: guard_inv_def guard_mount_def)
  qed (rule guard_step_inv)
  then obtain i h where i: "gd_timer g = Some (T, i)" "il_handle i = Some h" "h \<le> il_deadline i" "il_deadline i \<le> t + T"
    using assms(2-4) by (auto simp: guard_inv_def timer_ok_def split: option.splits)
  have early: "guard_step ic now Timer_Due g = g\<lparr>gd_timer := Some (T, i\<lparr>il_handle := Some (il_deadline i)\<rparr>)\<rparr>"
    if "h \<le> now" "now < il_deadline i" for now
    using that i(1,2) assms(2) by (simp add: guard_step_def guard_event_def idle_tick_def status_effect_def guard_unlocked_def Let_def)
  have late: "\<not> guard_unlocked (guard_step ic now Timer_Due g')"
    if "gd_timer g' = Some (T, j)" "il_handle j = Some h'" "h' \<le> now" "il_deadline j \<le> now" for g' :: "'a guard" and j h' now
    using that by (simp add: guard_step_def guard_event_def idle_tick_def status_effect_def)
  show ?thesis
  proof (intro exI conjI allI impI)
    show "h \<le> il_deadline i" "il_deadline i \<le> t + T" using i by simp_all
    fix now assume n: "h \<le> now"
    show "guard_unlocked (guard_step ic now Timer_Due g) \<longleftrightarrow> now < il_deadline i"
    proof (cases "now < il_deadline i")
      case True
      then show ?thesis using early [OF n True] assms(2) by (simp add: guard_unlocked_def)
    next
      case False
      then show ?thesis using late [OF i(1,2) n] by simp
    qed
    assume "now < il_deadline i"
    from early [OF n this] show "\<not> guard_unlocked (guard_step ic (il_deadline i) Timer_Due (guard_step ic now Timer_Due g))"
      by (simp add: late)
  qed
qed

definition idle_crypto :: "nat id_crypto" where
  "idle_crypto = \<lparr>ic_wrap = (\<lambda>k sec rnd. None), ic_unwrap = (\<lambda>w sec. None), ic_export = (\<lambda>k. []), ic_fingerprint = (\<lambda>k. None),
     ic_needsRewrap = (\<lambda>w. None), ic_platform = toy_platform\<rparr>"

definition idle_app :: "nat app" where
  "idle_app = \<lparr>am = \<lparr>mstate = Unlocked 0 [] [], keychain = \<lparr>wrapped_item = None, retired_item = None, secret_item = None, blobs_present = False\<rparr>\<rparr>,
     tasks = []\<rparr>"

theorem idle_key_locked_witness:
  "guard_unlocked (guard_step idle_crypto 59999 Timer_Due (guard_step idle_crypto 59998 Timer_Due (guard_mount 0 L1m idle_app)))
   \<and> \<not> guard_unlocked (guard_step idle_crypto 60000 Timer_Due (guard_mount 0 L1m idle_app))"
proof -
  let ?g = "guard_mount 0 L1m idle_app"
  have g: "guard_unlocked ?g" "gd_phase ?g = AppActive" "resolveAutoLockMs (gd_setting ?g) = Some 60000" "gd_timer ?g = Some (60000, \<lparr>il_handle = Some 60000, il_deadline = 60000\<rparr>)"
    by (simp_all add: guard_mount_def guard_unlocked_def is_unlocked_def idle_app_def resolveAutoLockMs_def timer_effect_def timer_reset_def
        idle_reset_def idle_start_def)
  from idle_key_locked [OF guard_starts g(1-3), of idle_crypto] obtain h d
    where d: "d \<le> 60000" "h \<le> d" "\<And>now. h \<le> now \<Longrightarrow> guard_unlocked (guard_step idle_crypto now Timer_Due ?g) \<longleftrightarrow> now < d" by auto
  have "guard_unlocked (guard_step idle_crypto 59999 Timer_Due (guard_step idle_crypto 59998 Timer_Due ?g))"
    using g by (simp add: guard_step_def guard_event_def status_effect_def)
  moreover have "\<not> guard_unlocked (guard_step idle_crypto 60000 Timer_Due ?g)" using d(1,2) d(3) [of 60000] by simp
  ultimately show ?thesis by blast
qed

section \<open>The background\<close>

definition user_starts :: "'k guard_event \<Rightarrow> bool" where
  "user_starts e = (case e of Machine_Event (Start a) \<Rightarrow> True | _ \<Rightarrow> False)"

text \<open>
  In the background the key is locked. Going to the background locks the key, and if no action was under way, it stays
  locked whatever happens until the user starts one.
\<close>

theorem background_locks:
  assumes "list_all (\<lambda>(t, e). \<not> user_starts e) es"
  shows "\<not> guard_unlocked (guard_step ic now (App_Changes AppBackground) g)
    \<and> (tasks (gd_app g) = [] \<longrightarrow>
         \<not> guard_unlocked (fold (\<lambda>(t, e). guard_step ic t e) es (guard_step ic now (App_Changes AppBackground) g)))"
proof -
  have keep: "\<not> guard_unlocked (guard_step ic t e q) \<and> tasks (gd_app (guard_step ic t e q)) = []"
    if q: "\<not> guard_unlocked q" "tasks (gd_app q) = []" and e: "\<not> user_starts e" for t e and q :: "'a guard"
  proof -
    have "\<not> guard_unlocked (guard_event ic t e q) \<and> tasks (gd_app (guard_event ic t e q)) = []"
    proof (cases e)
      case (Machine_Event v)
      then show ?thesis using q e
        by (cases v) (simp_all add: guard_event_def user_starts_def guard_unlocked_def is_unlocked_def set_state_def)
    next
      case (App_Changes a)
      then show ?thesis using q by (simp add: guard_event_def app_changes_def Let_def)
    next
      case Timer_Due
      then show ?thesis using q by (auto simp: guard_event_def split: option.split prod.split)
    qed (use q in \<open>simp_all add: guard_event_def signalActivity_def\<close>)
    then show ?thesis by (simp add: guard_step_def status_effect_def)
  qed
  let ?g = "guard_step ic now (App_Changes AppBackground) g"
  have locked: "\<not> guard_unlocked ?g"
    by (simp add: guard_step_def guard_event_def app_changes_def shouldLockOnAppState_def status_effect_def Let_def)
  have tasks: "tasks (gd_app ?g) = tasks (gd_app g)"
    by (simp add: guard_step_def guard_event_def app_changes_def shouldLockOnAppState_def status_effect_def Let_def)
  have "\<not> guard_unlocked (fold (\<lambda>(t, e). guard_step ic t e) es q)" if "\<not> guard_unlocked q" "tasks (gd_app q) = []" for q
    using assms that by (induction es arbitrary: q) (auto simp: keep)
  then show ?thesis using locked tasks by simp
qed

text \<open>
  An unlock that ends in the background. The background lock finds nothing to lock while an unlock is under way: when the
  last of its awaits ends after the app went to the background, the key is unlocked there, and with the idle lock off
  nothing locks it: coming back, the app is open without a new prompt.
\<close>

theorem unlocked_in_background:
  assumes "tasks (gd_app g) = [Unlock4 w sec k]" "loadRetiredKeys ic (keychain (am (gd_app g))) = []" "mstate (am (gd_app g)) = Locked"
    "gd_timer g = None" "\<not> rejects r"
  shows "let g1 = fold (guard_step ic now) [App_Changes AppBackground, Machine_Event (Resume 0 r)] g
    in guard_unlocked g1 \<and> gd_phase g1 = AppBackground \<and> \<not> guard_unlocked (guard_step ic now (App_Changes AppBackground) g)
       \<and> guard_unlocked (guard_step ic later Timer_Due g1) \<and> guard_unlocked (guard_step ic later (App_Changes AppActive) g1)"
proof -
  let ?g0 = "guard_step ic now (App_Changes AppBackground) g"
  have g0: "?g0 = g\<lparr>gd_phase := AppBackground\<rparr>"
    using assms(3,4)
    by (simp add: guard_step_def guard_event_def app_changes_def shouldLockOnAppState_def lock_machine_def start_def timer_stop_def
        status_effect_def Let_def guard_unlocked_def is_unlocked_def)
  let ?g1 = "guard_step ic now (Machine_Event (Resume 0 r)) ?g0"
  have g1: "guard_unlocked ?g1" "gd_phase ?g1 = AppBackground" "gd_timer ?g1 = None"
    using assms unfolding g0
    by (auto simp: guard_step_def guard_event_def status_effect_def resume_def next_retired_def finish_unlock_def retiredExcludingActive_def
        timer_reset_def guard_unlocked_def is_unlocked_def set_state_def)
  moreover have "guard_unlocked (guard_step ic later Timer_Due ?g1)" "guard_unlocked (guard_step ic later (App_Changes AppActive) ?g1)"
    using g1 by (simp_all add: guard_step_def guard_event_def app_changes_def shouldLockOnAppState_def status_effect_def Let_def)
  moreover have "\<not> guard_unlocked ?g0" using assms(3) unfolding g0 by (simp add: guard_unlocked_def is_unlocked_def)
  ultimately show ?thesis by (simp add: Let_def)
qed

text \<open>
  Inactive is not covered. An app that the system makes inactive without sending it to the background stops its idle timer:
  the key stays unlocked for as long as that lasts, whatever the timeout.
\<close>

theorem inactive_never_locks:
  assumes "guard_unlocked g"
  shows "guard_unlocked (fold (\<lambda>t. guard_step ic t Timer_Due) ts (guard_step ic now (App_Changes AppInactive) g))"
proof -
  let ?off = "\<lambda>q :: 'a guard. guard_unlocked q \<and> (case gd_timer q of Some (T, i) \<Rightarrow> il_handle i = None | None \<Rightarrow> True)"
  have "?off (guard_step ic now (App_Changes AppInactive) g)"
    using assms
    by (auto simp: guard_step_def guard_event_def app_changes_def shouldLockOnAppState_def status_effect_def timer_stop_def idle_stop_def
        Let_def split: option.split)
  moreover have "?off (guard_step ic t Timer_Due q)" if "?off q" for t q
    using that by (auto simp: guard_step_def guard_event_def status_effect_def split: option.splits)
  then have "?off q \<Longrightarrow> ?off (fold (\<lambda>t. guard_step ic t Timer_Due) ts q)" for q by (induction ts arbitrary: q) auto
  ultimately show ?thesis by blast
qed

section \<open>Notification preferences\<close>

lemma map_of_spread_snoc: "map_of (spread base (kvs @ [(k, v)])) = (map_of (spread base kvs))(k \<mapsto> v)"
  by (simp add: spread_def)

lemma map_of_spread: "distinct (map fst kvs) \<Longrightarrow> map_of (spread base kvs) = map_of base ++ map_of kvs"
proof (induction kvs rule: rev_induct)
  case (snoc x kvs)
  obtain k v where x: "x = (k, v)" by (cases x)
  have none: "map_of kvs k = None" using snoc.prems by (simp add: x map_of_eq_None_iff)
  have "map_of (kvs @ [(k, v)]) = (map_of kvs)(k \<mapsto> v)" by (rule ext) (simp add: map_add_def none split: option.split)
  then show ?case using snoc by (auto simp: x map_of_spread_snoc map_add_def fun_eq_iff split: option.split simp del: map_of_eq_Some_iff)
qed (simp add: spread_def)

lemma distinct_spread: "distinct (map fst base) \<Longrightarrow> distinct (map fst (spread base kvs))"
  by (induction kvs arbitrary: base) (auto simp: spread_def)

lemma map_of_spread_dom: "dom (map_of base) \<subseteq> dom (map_of (spread base kvs))"
proof (induction kvs arbitrary: base)
  case (Cons x kvs)
  have "dom (map_of base) \<subseteq> dom (map_of (map_set (fst x) (snd x) base))" by (simp only: map_get_set dom_fun_upd) auto
  also have "\<dots> \<subseteq> dom (map_of (spread (map_set (fst x) (snd x) base) kvs))" by (rule Cons.IH)
  finally show ?case by (simp add: spread_def case_prod_beta)
qed (simp add: spread_def)

definition prefs_complete :: "js_object \<Rightarrow> bool" where
  "prefs_complete c =
     (distinct (map fst c) \<and> dom (map_of DEFAULT_PREFS) \<subseteq> dom (map_of c)
      \<and> (\<exists>q. map_of c ''quietHours'' = Some (JObj q) \<and> distinct (map fst q) \<and> dom (map_of DEFAULT_QUIET_HOURS) \<subseteq> dom (map_of q)))"

lemma defaults_complete: "prefs_complete DEFAULT_PREFS"
  by (simp add: prefs_complete_def DEFAULT_PREFS_def DEFAULT_QUIET_HOURS_def)

lemma spread_complete:
  assumes "prefs_complete base" "distinct (map fst q)" "dom (map_of DEFAULT_QUIET_HOURS) \<subseteq> dom (map_of q)"
  shows "prefs_complete (spread (spread base kvs) [(''quietHours'', JObj q)])"
proof -
  let ?c = "spread (spread base kvs) [(''quietHours'', JObj q)]"
  have "distinct (map fst ?c)" using assms(1) by (intro distinct_spread) (simp add: prefs_complete_def)
  moreover have "dom (map_of DEFAULT_PREFS) \<subseteq> dom (map_of base)" using assms(1) by (simp only: prefs_complete_def)
  then have "dom (map_of DEFAULT_PREFS) \<subseteq> dom (map_of ?c)"
    using map_of_spread_dom [where base = base and kvs = kvs]
      map_of_spread_dom [where base = "spread base kvs" and kvs = "[(''quietHours'', JObj q)]"] by (meson order_trans)
  moreover have "map_of ?c ''quietHours'' = Some (JObj q)" by (simp add: spread_def [of _ "[_]"])
  ultimately show ?thesis using assms(2,3) unfolding prefs_complete_def by blast
qed

lemma quiet_spread: "distinct (map fst q) \<Longrightarrow> dom (map_of DEFAULT_QUIET_HOURS) \<subseteq> dom (map_of q)
    \<Longrightarrow> distinct (map fst (spread q kvs)) \<and> dom (map_of DEFAULT_QUIET_HOURS) \<subseteq> dom (map_of (spread q kvs))"
  by (meson distinct_spread map_of_spread_dom order_trans)

lemma props_cases: "props_of v = [] \<or> (\<exists>q. v = Some (JObj q) \<and> props_of v = q)"
  by (simp add: props_of_def split: option.split json.split)

lemma load_nothing: "loadNotificationPrefs parse None = DEFAULT_PREFS"
  by (simp add: loadNotificationPrefs_def)

lemma loaded_complete: "prefs_complete (loadNotificationPrefs parse raw)"
proof -
  have "prefs_complete (spread (spread DEFAULT_PREFS kvs) [(''quietHours'', JObj (spread DEFAULT_QUIET_HOURS q))])" for kvs q
    using quiet_spread [of DEFAULT_QUIET_HOURS q] by (intro spread_complete defaults_complete) (simp_all add: DEFAULT_QUIET_HOURS_def)
  then show ?thesis by (auto simp: loadNotificationPrefs_def defaults_complete split: option.split json.split)
qed

lemma merged_complete:
  assumes "prefs_complete c"
  shows "prefs_complete (merged_prefs c patch)"
proof -
  obtain q where q: "map_of c ''quietHours'' = Some (JObj q)" "distinct (map fst q)" "dom (map_of DEFAULT_QUIET_HOURS) \<subseteq> dom (map_of q)"
    using assms unfolding prefs_complete_def by blast
  then have "props_of (map_of c ''quietHours'') = q" by (simp only: props_of_def) simp
  then show ?thesis unfolding merged_prefs_def using quiet_spread [OF q(2,3)] by (intro spread_complete assms) simp_all
qed

lemma over_default: "dom d \<subseteq> dom m \<Longrightarrow> d ++ m = m"
  by (rule ext) (metis domIff map_add_None map_add_dom_app_simps(1) map_add_dom_app_simps(3) subsetD)

lemma load_complete:
  assumes "prefs_complete c" "parse s = Some (JObj c)" "s \<noteq> []"
  shows "map_of (loadNotificationPrefs parse (Some s)) k =
    (if k = ''quietHours'' then map_option (\<lambda>q. JObj (spread DEFAULT_QUIET_HOURS (props_of (Some q)))) (map_of c ''quietHours'') else map_of c k)"
proof -
  have "map_of (spread DEFAULT_PREFS c) = map_of c"
    using assms(1) by (simp add: map_of_spread over_default prefs_complete_def)
  moreover obtain q where "map_of c ''quietHours'' = Some (JObj q)" using assms(1) by (auto simp: prefs_complete_def)
  ultimately show ?thesis using assms(2,3)
    by (simp add: loadNotificationPrefs_def spread_def [of _ "[_]"] props_of_def [of "Some (JObj c)"] json_prop_def)
qed

text \<open>
  A change of the preferences is kept. After an update that ran alone, loading the preferences gives every value of the
  patch and, for everything else, what was loaded before; a patch of the quiet hours changes the fields it names only.
\<close>

theorem prefs_update_kept:
  assumes "\<And>j. parse (to_text j) = Some j" "\<And>j. to_text j \<noteq> []" "distinct (map fst patch)"
    "\<And>q. map_of patch ''quietHours'' = Some (JObj q) \<Longrightarrow> distinct (map fst q)" "pi_updates p = []"
  shows "let before = loadNotificationPrefs parse (pi_stored p);
             after = loadNotificationPrefs parse (pi_stored (fold (updateNotificationPrefs parse to_text) [Update_Begins patch, Update_Ends 0 True] p))
    in (\<forall>k. k \<noteq> ''quietHours'' \<longrightarrow> map_of after k = (map_of before ++ map_of patch) k)
       \<and> map_of (props_of (map_of after ''quietHours'')) = map_of (props_of (map_of before ''quietHours'')) ++ map_of (props_of (map_of patch ''quietHours''))"
proof -
  let ?b = "loadNotificationPrefs parse (pi_stored p)" and ?m = "merged_prefs (loadNotificationPrefs parse (pi_stored p)) patch"
  let ?s = "pi_stored (fold (updateNotificationPrefs parse to_text) [Update_Begins patch, Update_Ends 0 True] p)"
  have s: "?s = Some (to_text (JObj ?m))" using assms(5) by (simp add: updateNotificationPrefs_def Let_def)
  have b: "prefs_complete ?b" by (rule loaded_complete)
  obtain q where q: "map_of ?b ''quietHours'' = Some (JObj q)" "distinct (map fst q)" "dom (map_of DEFAULT_QUIET_HOURS) \<subseteq> dom (map_of q)"
    using b by (auto simp: prefs_complete_def)
  let ?q = "spread q (props_of (map_of patch ''quietHours''))"
  have m: "map_of ?m = (map_of ?b ++ map_of patch)(''quietHours'' \<mapsto> JObj ?q)"
    using assms(3) q(1) by (simp add: merged_prefs_def spread_def [of _ "[_]"] map_of_spread props_of_def [of "Some (JObj q)"])
  have load: "map_of (loadNotificationPrefs parse ?s) k =
      (if k = ''quietHours'' then Some (JObj (spread DEFAULT_QUIET_HOURS ?q)) else (map_of ?b ++ map_of patch) k)" for k
    unfolding s using load_complete [where parse = parse, OF merged_complete [OF b] assms(1) assms(2), of patch k] m
    by (simp add: props_of_def)
  have d: "distinct (map fst (props_of (map_of patch ''quietHours'')))"
    by (metis assms(4) distinct.simps(1) list.simps(8) props_cases)
  have "map_of (spread DEFAULT_QUIET_HOURS ?q) = map_of ?q"
    using quiet_spread [OF q(2,3)] by (simp add: map_of_spread over_default)
  also have "\<dots> = map_of q ++ map_of (props_of (map_of patch ''quietHours''))" using d by (rule map_of_spread)
  finally show ?thesis using load q(1) by (simp add: props_of_def)
qed

text \<open>
  Two quick changes. When a second switch is flipped before the write of the first has ended, both having loaded the same
  preferences, the write that ends last takes the change of the other away.
\<close>

theorem prefs_change_lost:
  assumes "\<And>j. parse (to_text j) = Some j" "\<And>j. to_text j \<noteq> []"
  shows "let es = [Update_Begins [(''expiringSoon'', JBool False)], Update_Begins [(''quietHours'', JObj [(''enabled'', JBool True)])],
               Update_Ends 0 True, Update_Ends 0 True];
             after = loadNotificationPrefs parse (pi_stored (fold (updateNotificationPrefs parse to_text) es \<lparr>pi_stored = None, pi_updates = []\<rparr>))
    in map_of after ''expiringSoon'' = Some (JBool True)"
proof -
  let ?q = "[(''quietHours'', JObj [(''enabled'', JBool True)])]"
  let ?es = "[Update_Begins [(''expiringSoon'', JBool False)], Update_Begins ?q, Update_Ends 0 True, Update_Ends 0 True]"
  have "pi_stored (fold (updateNotificationPrefs parse to_text) ?es \<lparr>pi_stored = None, pi_updates = []\<rparr>)
      = Some (to_text (JObj (merged_prefs DEFAULT_PREFS ?q)))"
    by (simp add: updateNotificationPrefs_def load_nothing Let_def)
  moreover have "map_of (merged_prefs DEFAULT_PREFS ?q) ''expiringSoon'' = Some (JBool True)" by code_simp
  ultimately show ?thesis
    using load_complete [where parse = parse, OF merged_complete [OF defaults_complete] assms(1) assms(2), of ?q "''expiringSoon''"]
    by (simp add: Let_def)
qed

end
