(* ===== verification/Kem_Select.thy ===== *)
theory Kem_Select
  imports Js_Prelude
begin

text \<open>
  The choice of the KEM and the KEM written in JavaScript: packages/crypto/src/hpke.ts (the memoized suite) and
  packages/crypto/src/kem-noble.ts. X25519 and HKDF are libraries: arguments.
\<close>

section \<open>The KEM over noble's X25519\<close>

definition RAW_LEN :: nat where "RAW_LEN = 32"

datatype noble_kind = Noble_Public | Noble_Private

record noble_key =
  nk_kind :: noble_kind
  nk_raw :: bytes

text \<open>The libraries: X25519's public key and shared secret (None: the library throws), and the labelled steps of HKDF.\<close>

record x25519 =
  x_getPublicKey :: "bytes \<Rightarrow> bytes"
  x_getSharedSecret :: "bytes \<Rightarrow> bytes \<Rightarrow> bytes option"
  x_labeledExtract :: "bytes \<Rightarrow> bytes \<Rightarrow> bytes \<Rightarrow> bytes"
  x_labeledExpand :: "bytes \<Rightarrow> bytes \<Rightarrow> bytes \<Rightarrow> nat \<Rightarrow> bytes"
  x_LABEL_DKP_PRK :: bytes
  x_LABEL_SK :: bytes

definition noble_serialize :: "noble_key \<Rightarrow> bytes" where
  "noble_serialize k = nk_raw k"

definition noble_deserializePublicKey :: "bytes \<Rightarrow> string + noble_key" where
  "noble_deserializePublicKey raw =
     (if length raw \<noteq> RAW_LEN then Inl ''Invalid public key for the ciphersuite''
      else Inr \<lparr>nk_kind = Noble_Public, nk_raw = raw\<rparr>)"

definition noble_deserializePrivateKey :: "bytes \<Rightarrow> string + noble_key" where
  "noble_deserializePrivateKey raw =
     (if length raw \<noteq> RAW_LEN then Inl ''Invalid private key for the ciphersuite''
      else Inr \<lparr>nk_kind = Noble_Private, nk_raw = raw\<rparr>)"

text \<open>A key handed to \<open>importKey\<close>: bytes, or a JSON web key.\<close>

datatype key_data = Key_Bytes bytes | Key_Jwk

datatype key_format = Format_Raw | Format_Jwk

definition noble_importKey :: "key_format \<Rightarrow> key_data \<Rightarrow> bool \<Rightarrow> string + noble_key" where
  "noble_importKey format key isPublic =
     (if format \<noteq> Format_Raw then Inl ''NobleX25519.importKey supports only raw format''
      else case key of
        Key_Jwk \<Rightarrow> Inl ''NobleX25519.importKey: raw key must be ArrayBuffer/ArrayBufferView''
      | Key_Bytes raw \<Rightarrow>
          if length raw \<noteq> RAW_LEN then Inl ''Invalid key for the ciphersuite''
          else Inr \<lparr>nk_kind = (if isPublic then Noble_Public else Noble_Private), nk_raw = raw\<rparr>)"

definition derivePublicKey :: "x25519 \<Rightarrow> noble_key \<Rightarrow> noble_key" where
  "derivePublicKey X k = \<lparr>nk_kind = Noble_Public, nk_raw = x_getPublicKey X (nk_raw k)\<rparr>"

text \<open>A generated pair draws its private key; a derived one expands it from the input.\<close>

definition noble_generateKeyPair :: "x25519 \<Rightarrow> bytes \<Rightarrow> noble_key \<times> noble_key" where
  "noble_generateKeyPair X sk =
     (\<lparr>nk_kind = Noble_Private, nk_raw = sk\<rparr>, \<lparr>nk_kind = Noble_Public, nk_raw = x_getPublicKey X sk\<rparr>)"

definition noble_deriveKeyPair :: "x25519 \<Rightarrow> bytes \<Rightarrow> noble_key \<times> noble_key" where
  "noble_deriveKeyPair X ikm =
     (let dkpPrk = x_labeledExtract X [] (x_LABEL_DKP_PRK X) ikm;
          sk = x_labeledExpand X dkpPrk (x_LABEL_SK X) [] RAW_LEN;
          privateKey = \<lparr>nk_kind = Noble_Private, nk_raw = sk\<rparr>
      in (privateKey, derivePublicKey X privateKey))"

definition noble_dh :: "x25519 \<Rightarrow> noble_key \<Rightarrow> noble_key \<Rightarrow> bytes option" where
  "noble_dh X sk pk = x_getSharedSecret X (nk_raw sk) (nk_raw pk)"

section \<open>Which KEM\<close>

datatype kem_backend = Kem_Native | Kem_Noble

text \<open>
  The module's variables. Promises are numbered; the entry of one is the backend it resolves to, None while the probe
  runs. A probe that throws counts as not supported, so no promise rejects.
\<close>

record kem_state =
  km_forced :: "kem_backend option"
  km_cached :: "nat option"
  km_promises :: "kem_backend option list"

definition kem_start :: kem_state where
  "kem_start = \<lparr>km_forced = None, km_cached = None, km_promises = []\<rparr>"

definition getResolvedSuite :: "kem_state \<Rightarrow> nat \<times> kem_state" where
  "getResolvedSuite s =
     (case km_cached s of
        Some p \<Rightarrow> (p, s)
      | None \<Rightarrow> (let p = length (km_promises s) in (p, s\<lparr>km_cached := Some p, km_promises := km_promises s @ [km_forced s]\<rparr>)))"

text \<open>The probe of a pending promise ends: whether an X25519 key could be generated for \<open>deriveBits\<close>.\<close>

definition probe_ends :: "nat \<Rightarrow> bool \<Rightarrow> kem_state \<Rightarrow> kem_state" where
  "probe_ends p supported s =
     (if p < length (km_promises s) \<and> km_promises s ! p = None
      then s\<lparr>km_promises := (km_promises s)[p := Some (if supported then Kem_Native else Kem_Noble)]\<rparr> else s)"

definition setKemBackendForTests :: "bool \<Rightarrow> kem_backend \<Rightarrow> kem_state \<Rightarrow> bool \<times> kem_state" where
  "setKemBackendForTests test_env b s = (if \<not> test_env then (False, s) else (True, s\<lparr>km_forced := Some b, km_cached := None\<rparr>))"

definition resetKemBackendForTests :: "bool \<Rightarrow> kem_state \<Rightarrow> bool \<times> kem_state" where
  "resetKemBackendForTests test_env s = (if \<not> test_env then (False, s) else (True, s\<lparr>km_forced := None, km_cached := None\<rparr>))"

datatype kem_event = Use_Suite | Probe_Ends nat bool | Set_For_Tests kem_backend | Reset_For_Tests

text \<open>A step, with the promise a use of the suite waits for.\<close>

definition kem_step :: "bool \<Rightarrow> kem_event \<Rightarrow> kem_state \<Rightarrow> nat option \<times> kem_state" where
  "kem_step test_env e s =
     (case e of
        Use_Suite \<Rightarrow> (case getResolvedSuite s of (p, s') \<Rightarrow> (Some p, s'))
      | Probe_Ends p ok \<Rightarrow> (None, probe_ends p ok s)
      | Set_For_Tests b \<Rightarrow> (None, snd (setKemBackendForTests test_env b s))
      | Reset_For_Tests \<Rightarrow> (None, snd (resetKemBackendForTests test_env s)))"

fun kem_run :: "bool \<Rightarrow> kem_event list \<Rightarrow> kem_state \<Rightarrow> nat list \<times> kem_state" where
  "kem_run test_env [] s = ([], s)"
| "kem_run test_env (e # es) s =
     (case kem_step test_env e s of
        (p, s1) \<Rightarrow> (case kem_run test_env es s1 of (ps, s2) \<Rightarrow> ((case p of Some q \<Rightarrow> q # ps | None \<Rightarrow> ps), s2)))"


text \<open>Outside tests one probe decides the KEM for good; the keys of the noble KEM survive their encoding and agree.\<close>

definition kem_inv :: "kem_state \<Rightarrow> bool" where
  "kem_inv s =
     (km_forced s = None \<and> length (km_promises s) \<le> 1 \<and> (km_cached s = None \<longleftrightarrow> km_promises s = []) \<and> (\<forall>p. km_cached s = Some p \<longrightarrow> p = 0))"

definition settled :: "kem_state \<Rightarrow> kem_backend option" where
  "settled s = (case km_promises s of Some b # ps \<Rightarrow> Some b | _ \<Rightarrow> None)"

lemma kem_step_inv:
  assumes "kem_inv s"
  shows "kem_inv (snd (kem_step False e s))" "fst (kem_step False e s) \<in> {None, Some 0}"
    "settled s \<noteq> None \<Longrightarrow> settled (snd (kem_step False e s)) = settled s"
proof -
  have p: "km_promises s = [] \<and> km_cached s = None \<or> (\<exists>b. km_promises s = [b] \<and> km_cached s = Some 0)" and f: "km_forced s = None"
    using assms unfolding kem_inv_def by (cases "km_promises s"; cases "km_cached s"; auto)+
  show "kem_inv (snd (kem_step False e s))" "fst (kem_step False e s) \<in> {None, Some 0}"
    "settled s \<noteq> None \<Longrightarrow> settled (snd (kem_step False e s)) = settled s"
    using p f
    by (cases e; auto simp: kem_step_def getResolvedSuite_def probe_ends_def setKemBackendForTests_def resetKemBackendForTests_def
        kem_inv_def settled_def Let_def)+
qed

text \<open>
  One KEM for good. Outside tests, whatever is called in whatever order, overrides included, every use of the suite waits
  for the same promise, only one probe is ever made, and once it has ended its outcome never changes.
\<close>

theorem kem_chosen_once:
  "set (fst (kem_run False es kem_start)) \<subseteq> {0} \<and> length (km_promises (snd (kem_run False es kem_start))) \<le> 1
   \<and> (case settled (snd (kem_run False es kem_start)) of
        Some b \<Rightarrow> settled (snd (kem_run False (es @ fs) kem_start)) = Some b
      | None \<Rightarrow> True)"
proof -
  have run: "kem_inv (snd (kem_run False es s)) \<and> set (fst (kem_run False es s)) \<subseteq> {0}
      \<and> (settled s \<noteq> None \<longrightarrow> settled (snd (kem_run False es s)) = settled s)" if "kem_inv s" for es s
    using that
  proof (induction es arbitrary: s)
    case (Cons e es)
    obtain p s1 where st: "kem_step False e s = (p, s1)" by (cases "kem_step False e s")
    obtain ps s2 where r: "kem_run False es s1 = (ps, s2)" by (cases "kem_run False es s1")
    have i: "kem_inv s1" "p \<in> {None, Some 0}" "settled s \<noteq> None \<Longrightarrow> settled s1 = settled s"
      using kem_step_inv [OF Cons.prems, of e] st by simp_all
    with Cons.IH [OF i(1)] show ?case unfolding kem_run.simps st r by (auto simp: r split: option.split)
  qed simp
  have app: "snd (kem_run False (es @ fs) s) = snd (kem_run False fs (snd (kem_run False es s)))" for es fs s
    by (induction es arbitrary: s) (simp_all add: case_prod_beta)
  have start: "kem_inv kem_start" by (simp add: kem_inv_def kem_start_def)
  have "kem_inv (snd (kem_run False es kem_start))" using run [OF start] by blast
  then have "length (km_promises (snd (kem_run False es kem_start))) \<le> 1" by (simp add: kem_inv_def)
  then show ?thesis using run [OF start, of es] run [OF \<open>kem_inv (snd (kem_run False es kem_start))\<close>, of fs]
    by (simp add: app split: option.split)
qed

text \<open>What RFC 7748 promises of X25519, and the lengths of its keys.\<close>

definition x25519_ok :: "x25519 \<Rightarrow> bool" where
  "x25519_ok X =
     ((\<forall>a b. x_getSharedSecret X a (x_getPublicKey X b) = x_getSharedSecret X b (x_getPublicKey X a))
      \<and> (\<forall>a. length (x_getPublicKey X a) = 32) \<and> (\<forall>prk l info n. length (x_labeledExpand X prk l info n) = n))"

text \<open>
  Both sides agree. Two key pairs derived from any inputs reach the same secret from either side, also after their keys
  were written out as raw bytes and read back, which never fails.
\<close>

theorem noble_sides_agree:
  assumes "x25519_ok X" "noble_deriveKeyPair X u = (sa, pa)" "noble_deriveKeyPair X v = (sb, pb)"
  shows "noble_dh X sa pb = noble_dh X sb pa
    \<and> noble_deserializePublicKey (noble_serialize pa) = Inr pa \<and> noble_deserializePrivateKey (noble_serialize sa) = Inr sa
    \<and> noble_importKey Format_Raw (Key_Bytes (noble_serialize sa)) False = Inr sa \<and> derivePublicKey X sa = pa"
  using assms
  by (auto simp: x25519_ok_def noble_deriveKeyPair_def derivePublicKey_def noble_dh_def noble_deserializePublicKey_def
      noble_deserializePrivateKey_def noble_importKey_def noble_serialize_def RAW_LEN_def Let_def)

definition toy_x25519 :: x25519 where
  "toy_x25519 = \<lparr>x_getPublicKey = (\<lambda>k. take 32 (k @ replicate 32 0)), x_getSharedSecret = (\<lambda>a b. Some (map2 (+) (take 32 (a @ replicate 32 0)) b)),
     x_labeledExtract = (\<lambda>salt l ikm. ikm), x_labeledExpand = (\<lambda>prk l info n. take n (prk @ replicate n 0)), x_LABEL_DKP_PRK = [], x_LABEL_SK = []\<rparr>"

lemma toy_x25519_ok: "x25519_ok toy_x25519"
proof -
  have "map2 (+) a b = map2 (+) b a" for a b :: bytes
    by (rule nth_equalityI) (auto simp: add.commute)
  then show ?thesis by (auto simp: x25519_ok_def toy_x25519_def min_def)
qed

theorem noble_sides_agree_witness:
  "noble_dh toy_x25519 (fst (noble_deriveKeyPair toy_x25519 [1])) (snd (noble_deriveKeyPair toy_x25519 [2])) =
   noble_dh toy_x25519 (fst (noble_deriveKeyPair toy_x25519 [2])) (snd (noble_deriveKeyPair toy_x25519 [1]))"
  using noble_sides_agree [OF toy_x25519_ok, of "[1]" _ _ "[2]"] by (simp add: prod_eq_iff)

end
