(* ===== verification/Spec2Isabelle.thy ===== *)
theory Spec2Isabelle
  imports Api_Laws Identity_Properties Client_Properties Server_Properties Lifecycle_Properties Web_Contacts End_To_End
    Device_Prefs Device_Timers Web_Identity_Laws Web_Messages_Laws Link_Urls
    Contact_Screens_Laws Contact_Trust Compose_Options Device_Files_Laws Links_Screens_Laws
    Reader_Flow_Laws Web_Reader_Flow_Laws Store_Ops_Laws Pro_Flow_Laws App_Root_Laws Key_Screens_Laws Web_Settings
    Pg_Sweep Tracking_Steps Camera_Scan Identity_Guard Kem_Select
begin

text \<open>
  aesmsg sends end-to-end encrypted messages as links. A sender's client seals a message for one recipient's
  public key, uploads the ciphertext under a fresh link id with an expiry and an open limit, and hands out
  the link. The recipient's client spends one open, receives the ciphertext and decrypts it with a key that
  never leaves the device. The server keeps ciphertexts and counters only. The parts, under src/:
  packages/crypto (codecs, envelope, binding, sealing, key wrapping), packages/server-store (the link stores
  and rate limiters), apps/api (HTTP handlers, server, metrics), apps/worker (the expiry sweep), apps/mobile
  and apps/webapp (the two clients), apps/web (the static site with the bouncer page for links).

  How the theories model them. A theory \<open>X_Laws\<close> or \<open>X_Properties\<close> holds what is proved of the theories it
  imports.
  Shared vocabulary: \<open>Js_Prelude\<close> (bytes, results, bit lists, JavaScript's Map), \<open>Js_Number\<close>, \<open>Js_Text\<close>,
  \<open>Json_Model\<close>, \<open>Utf8_Codec\<close> (what the code uses of JavaScript's numbers, strings, JSON and text codecs, and
  which values JSON.stringify and JSON.parse return unchanged).
  packages/crypto: \<open>Base_Codec\<close> and \<open>Wire_Format\<close> (wire.ts, fingerprint.ts), \<open>Pad_Policy\<close> (pad.ts),
  \<open>Payload_Codec\<close> (payload.ts), \<open>Aad_Binding\<close> (aad.ts, hpke.ts), \<open>Seal_Open\<close> (seal.ts), \<open>Kem_Select\<close> (the
  memoised suite of hpke.ts, kem-noble.ts), \<open>Key_Wrap\<close> (wrap.ts, argon2.ts, with the clients' KDF policy and
  backup files); \<open>Base64_Text\<close> holds the base64 and link-id codecs of the mobile client and the API.
  packages/server-store: \<open>Link_Spec\<close> (the contract: an abstract store and its operations), \<open>Mem_Store\<close> and
  \<open>Pg_Store\<close> (its two implementations; a Postgres table is a list of rows), \<open>Pg_Sweep\<close> (the sweep as
  three statements that commit one by one), \<open>Store_Ops\<close> (migrations, connections, purge), \<open>Rate_Limiter\<close>.
  apps/api and apps/worker: \<open>Messages_Api\<close> (the message handlers; their runs in \<open>Api_Laws\<close>), \<open>Metrics\<close>,
  \<open>Server_Shell\<close> (configuration, routes, error handler), \<open>Lifecycle\<close> (shutdown, scheduler, sweep).
  apps/mobile: \<open>Api_Client\<close>, \<open>Mobile_Composer\<close>, \<open>Mobile_Reader\<close>, \<open>Sent_Links\<close> with \<open>Tracking_Steps\<close> (the store
  of sent links, its awaits included), \<open>Contact_Book\<close>, \<open>Retired_Keys\<close>, \<open>Identity_Machine\<close> (the identity state
  machine and the keychain items) and \<open>Identity_Guard\<close> (the provider around it, the notification preferences),
  \<open>File_Blobs\<close> and \<open>Encrypted_Store\<close> (storage at rest), \<open>Device_Prefs\<close>, \<open>Device_Timers\<close>, \<open>Device_Files\<close>; the
  flows behind the screens: \<open>App_Root\<close> (gates, tabs, first run), \<open>Reader_Flow\<close>, \<open>Links_Screens\<close>, \<open>Key_Screens\<close>,
  \<open>Pro_Flow\<close> (the subscription).
  apps/webapp: \<open>Indexed_Db\<close>, \<open>Web_Contacts\<close>, \<open>Web_Identity\<close>, \<open>Web_Client\<close>, \<open>Web_Links\<close>, \<open>Web_Messages\<close>,
  \<open>Web_Reader_Flow\<close>, \<open>Web_Settings\<close>. Both clients: \<open>Contact_Trust\<close>, \<open>Contact_Screens\<close>, \<open>Camera_Scan\<close>,
  \<open>Compose_Options\<close>, \<open>Compose_Screens\<close>. apps/web: \<open>Link_Urls\<close> (the bouncer, with the link parsers of the
  other two clients).

  How they interact. A handler is a function of the request and the state of a store and a limiter, so the
  handlers are proved once over the contract (locales \<open>link_store\<close> and \<open>rate_limiter\<close>) and instantiated at
  the memory, Postgres and Redis models. The clients take the network as a function from requests to
  outcomes; \<open>End_To_End\<close> closes the loop by answering each request with the modelled server. Storage on a
  device is reached through the locales \<open>blob_store\<close> and \<open>tracking_store\<close>, interpreted at the file store and
  at the two stores of tracked links.
  State and order: a class, closure or React component becomes a record of its variables and each method,
  effect or handler a function to the new record. Where code awaits, every await is a step at which other
  actions may run (identity machines, tracking store, readers, composers, shutdown, scheduler), so the
  lemmas on runs quantify over all interleavings. An operation of the memory stores is one step: \<open>create\<close>,
  \<open>get\<close>, \<open>incrementOpens\<close> and \<open>revoke\<close> make all their changes before they first suspend, the others (creation with
  a ciphertext, sweep, prune, purge) suspend in between, for the length of a microtask, which the model leaves
  out. A statement or transaction of Postgres is one step. Errors are values of \<open>error + result\<close> or option types, one constructor per class the code throws.
  Numbers: the codecs keep the 32-bit accumulators and bytes as words; Redis windows, counters and times are
  integers; a JSON number is a rational or one of the special values.

  What the lemmas show. Codecs: each encoder is undone by its decoder, and the decoders reject what the code
  rejects. Stores: each implementation simulates the abstract operations and keeps its invariant, hence no
  run of handlers delivers a ciphertext more often than allowed, a closed link never opens again, and
  refusals do not tell why. Clients: a message read after any interleaving equals the message sent, an open
  is spent once per reading and only on a tap, keys survive a rotation cut off anywhere, locking, idleness and
  wiping leave nothing readable, and what a screen shows is what is sealed, sold, replaced or revoked. Where
  the code departs from its comments or loses an update the departure is stated as a theorem.

  Termination: there is no fuel. Loops are structural recursion over lists, or functions whose measure is the
  part of the input still to be read; the scheduler and the shutdown controller are step functions over
  lists of events, and what they reach is proved of every list.

  Third-party code is an argument: HPKE and SHA-256 (\<open>hpke_suite\<close>), X25519 and HKDF (\<open>x25519\<close>), AES-GCM and
  Argon2id (\<open>platform\<close>, \<open>vault\<close>), the keychain, the file system, JSON's text syntax, dates, URL parsing, fetch;
  what Fastify's URL decoder and the CORS plugin answer by themselves comes with a request (\<open>arrival\<close>). What a
  theorem needs of it is a named hypothesis with a concrete instance beside the theorem. Of JSON text only
  values that it carries are assumed to return (\<open>json_plain\<close>); nothing is assumed of a file system whose
  writes and deletions fail.

  Bounds of the model. The strings of identifiers, passphrases and labels are Latin-1 where a theory says
  \<open>string\<close>; message texts are lists of UTF-16 units. The passphrase estimate is computed exactly in tenths of
  a character, where the code rounds doubles. Elsewhere rounding of doubles is not modelled (values stay far
  below 2^53), nor are the costs and the security of the cryptographic primitives.

  Not modelled: the layout, texts and themes of screens, the screens and dialogs whose state is only what is
  being typed or shown (apps/mobile, apps/webapp, packages/ui, packages/design-tokens), the static site
  (apps/web) apart from the bouncer, native modules and polyfills, process start, logging and connection
  set-up of the API and the worker, the SQL text of the schema migrations, test helpers, end-to-end scripts and
  build configuration. They are I/O, layout, or calls into libraries.
\<close>

section \<open>Links on the server\<close>

text \<open>
  C1: against the Postgres store, whatever calls clients make in whatever order, the ciphertext of a
  link with a bounded open limit is delivered at most as many times as the link has opens left.
\<close>

theorem pg_deliveries_bounded:
  assumes "d_links d = pg_ops" "pg_inv (store sv)" "store_ok (pg_abs (store sv))"
    "pg_abs (store sv) i = Some e" "lm_maxOpens (e_meta e) \<noteq> -1"
  shows "deliveries i cs (fst (api_run d cs sv)) \<le> nat (lm_maxOpens (e_meta e) - lm_opensCount (e_meta e))"
proof -
  obtain outs sv' where run: "api_run d cs sv = (outs, sv')" by (cases "api_run d cs sv")
  have "bounded_link (pg_abs (store sv)) i" using assms by (simp add: bounded_link_def)
  from pg.deliveries_bounded [OF assms(2,1,3) this _ run]
  show ?thesis using assms(4) run by (simp add: opens_left_def split: if_splits)
qed

definition demo_env :: api_env where
  "demo_env = \<lparr>parse_json = (\<lambda>s. None), parse_date = (\<lambda>s. None), iso_date = (\<lambda>t. []), hash_token = (\<lambda>t. t),
     hash_ip = (\<lambda>s. s), publicLinkOrigin = [], maxRetentionMs = None\<rparr>"

definition demo_deps :: "(pg_db, mem_limiter) deps" where
  "demo_deps = \<lparr>d_links = pg_ops, d_rate = mem_incrementAndGet, d_env = demo_env\<rparr>"

definition demo_db :: pg_db where
  "demo_db = \<lparr>links = [\<lparr>pl_id = ''AAAAAAAAAAAAAAAA'', pl_status = Active, pl_created_at = None, pl_expires_at = 100,
       pl_max_opens = 1, pl_opens_count = 0, pl_token_hash = Some ''ab'', pl_terminal_at = None\<rparr>],
     link_ciphertexts = [\<lparr>pb_link_id = ''AAAAAAAAAAAAAAAA'', pb_blob = [1], pb_size = 1\<rparr>]\<rparr>"

lemma demo_db_ok: "pg_inv demo_db" "store_ok (pg_abs demo_db)"
  by (auto simp: demo_db_def pg_inv_def pg_abs_def pg_select_def store_ok_def entry_ok_def rowToMeta_def pg_ct_get_def
      split: if_splits)

theorem pg_deliveries_bounded_witness:
  "deliveries ''AAAAAAAAAAAAAAAA'' (replicate 3 (5, CallOpen ''AAAAAAAAAAAAAAAA'' \<lparr>client_ip = None, raw_body = [], token_header = None\<rparr>))
     (fst (api_run demo_deps (replicate 3 (5, CallOpen ''AAAAAAAAAAAAAAAA'' \<lparr>client_ip = None, raw_body = [], token_header = None\<rparr>))
        \<lparr>store = demo_db, limiter = []\<rparr>)) \<le> 1"
  using pg_deliveries_bounded [of demo_deps "\<lparr>store = demo_db, limiter = []\<rparr>" "''AAAAAAAAAAAAAAAA''"
      "the (pg_abs demo_db ''AAAAAAAAAAAAAAAA'')"] demo_db_ok
  by (simp add: demo_deps_def) (simp add: demo_db_def pg_abs_def pg_select_def rowToMeta_def)

text \<open>
  C6: the memory store and the Postgres store cannot be told apart: started empty, they answer every
  sequence of operations that the schema admits, each run to its end before the next begins, with the same replies.
\<close>

theorem stores_equivalent:
  assumes "list_all (op_valid \<circ> snd) ps"
  shows "fst (ops_run mem_ops ps mem_empty) = fst (ops_run pg_ops ps pg_empty)"
proof -
  obtain rs s where m: "ops_run mem_ops ps mem_empty = (rs, s)" by (cases "ops_run mem_ops ps mem_empty")
  obtain rs' s' where p: "ops_run pg_ops ps pg_empty = (rs', s')" by (cases "ops_run pg_ops ps pg_empty")
  have "ops_run spec_ops ps (\<lambda>i. None) = (rs, mem_abs s)" "ops_run spec_ops ps (\<lambda>i. None) = (rs', pg_abs s')"
    using mem.run_sim [OF mem_empty_ok(1) assms m] pg.run_sim [OF pg_empty_ok(1) assms p] mem_empty_ok(2) pg_empty_ok(2)
    by simp_all
  then show ?thesis using m p by simp
qed

definition demo_ops :: "(int \<times> store_op) list" where
  "demo_ops = [(1, OpCreate \<lparr>cr_id = ''a'', cr_expiresAt = 50, cr_maxOpens = 2, cr_tokenHash = Some ''ab''\<rparr> [7]),
     (2, OpIncrement ''a''), (3, OpRevoke ''a'' (Some ''cd'')), (4, OpIncrement ''a''), (5, OpIncrement ''a''),
     (6, OpExpire 1), (9, OpExpire 1), (10, OpGet ''a'')]"

lemma demo_ops_valid: "list_all (op_valid \<circ> snd) demo_ops"
  by (simp add: demo_ops_def valid_record_def)

theorem stores_equivalent_witness:
  "fst (ops_run mem_ops demo_ops mem_empty) = fst (ops_run pg_ops demo_ops pg_empty)"
  by (rule stores_equivalent [OF demo_ops_valid])

text \<open>
  Closing is final. Once a link of the memory store is expired, revoked or used up, no sequence of
  operations that does not create it anew opens it again.
\<close>

theorem closed_is_final:
  assumes "mem_inv s" "list_all (op_valid \<circ> snd) ps" "list_all (\<lambda>q. \<not> creates i (snd q)) ps"
    "closed_link (mem_abs s) i"
  shows "opens_won i ps (fst (ops_run mem_ops ps s)) = 0 \<and> closed_link (mem_abs (snd (ops_run mem_ops ps s))) i"
proof -
  obtain rs s' where m: "ops_run mem_ops ps s = (rs, s')" by (cases "ops_run mem_ops ps s")
  have "ops_run spec_ops ps (mem_abs s) = (rs, mem_abs s')" using mem.run_sim [OF assms(1,2) m] by simp
  from closed_stays_closed [OF assms(4,3) this] show ?thesis using m by simp
qed

theorem closed_is_final_witness:
  "opens_won ''a'' (tl demo_ops) (fst (ops_run mem_ops (tl demo_ops) mem_empty)) = 0
   \<and> closed_link (mem_abs (snd (ops_run mem_ops (tl demo_ops) mem_empty))) ''a''"
  by (rule closed_is_final) (simp_all add: mem_empty_ok closed_link_def demo_ops_def)

section \<open>The message handlers\<close>

text \<open>
  C11: a link that never existed, has expired, was revoked or is used up cannot be told from another
  such link: the answer to an open depends on the request and the rate limiter only, and the
  attempt changes nothing in the store.
\<close>

theorem open_refusal_opaque:
  assumes "pg_inv (store sv)" "d_links d = pg_ops" "\<not> live now (pg_abs (store sv)) i"
  shows "fst (open_message d now i req sv) = open_refused d now i req (limiter sv)
    \<and> pg_abs (store (snd (open_message d now i req sv))) = pg_abs (store sv)"
  by (rule pg.open_dead [OF assms])

definition demo_req :: request where
  "demo_req = \<lparr>client_ip = None, raw_body = [], token_header = None\<rparr>"

theorem open_refusal_opaque_witness:
  "fst (open_message demo_deps 100 ''AAAAAAAAAAAAAAAA'' demo_req \<lparr>store = demo_db, limiter = []\<rparr>) =
     open_refused demo_deps 100 ''AAAAAAAAAAAAAAAA'' demo_req []
   \<and> pg_abs (store (snd (open_message demo_deps 100 ''AAAAAAAAAAAAAAAA'' demo_req \<lparr>store = demo_db, limiter = []\<rparr>))) =
     pg_abs demo_db"
proof -
  have "\<not> live 100 (pg_abs demo_db) ''AAAAAAAAAAAAAAAA''"
    by (simp add: live_def pg_abs_def demo_db_def pg_select_def rowToMeta_def)
  then show ?thesis
    using open_refusal_opaque [of "\<lparr>store = demo_db, limiter = []\<rparr>" demo_deps 100 "''AAAAAAAAAAAAAAAA''" demo_req] demo_db_ok
    by (simp add: demo_deps_def)
qed

text \<open>
  Revoking is an oracle for nothing: whatever the store holds and whatever token is presented, the
  answer is the same.
\<close>

theorem revoke_answer_opaque:
  "fst (revoke_message d now i req sv) =
   fst (revoke_message d now i (req\<lparr>token_header := t\<rparr>) (sv\<lparr>store := s\<rparr>))"
  by (simp add: revoke_message_def with_limit_def getClientIp_def Let_def split: prod.splits sum.splits)

text \<open>
  C12: a revocation that passes the limiter (a well-formed id, an empty body) closes a live link and
  drops its ciphertext exactly when no token hash was stored with the link (links older than the
  tokens) or the hash of the presented token matches the stored one, and leaves every link as it was
  otherwise, a missing token included.
\<close>

theorem revoke_needs_token:
  assumes "pg_inv (store sv)" "d_links d = pg_ops" "LINK_ID_REGEX i" "isEmptyBody (raw_body req)"
    "d_rate d now (''messages:revoke:'' @ hash_ip (d_env d) (getClientIp req)) RATE_LIMIT_WINDOW_SECONDS (limiter sv) = (Inr n, r)"
    "n \<le> RATE_LIMIT_MAX" "pg_abs (store sv) i = Some e" "lm_status (e_meta e) = Active"
  shows "pg_abs (store (snd (revoke_message d now i req sv))) =
    (if e_token e = None \<or>
        (\<exists>h p. e_token e = Some h \<and> presented (d_env d) (token_header req) = Some p \<and> timingSafeEqualHex h p)
     then (pg_abs (store sv))(i \<mapsto> close_entry Revoked now e) else pg_abs (store sv))"
  using pg.revoke_passed [OF assms(1-6)] assms(7,8)
  by (auto simp: spec_revoke_def authorized_def split: option.splits)

definition demo_revoke :: request where
  "demo_revoke = \<lparr>client_ip = None, raw_body = [], token_header = Some ''ab''\<rparr>"

theorem revoke_needs_token_witness:
  "\<exists>e. pg_abs (store (snd (revoke_message demo_deps 5 ''AAAAAAAAAAAAAAAA'' demo_revoke \<lparr>store = demo_db, limiter = []\<rparr>))) =
     (pg_abs demo_db)(''AAAAAAAAAAAAAAAA'' \<mapsto> close_entry Revoked 5 e)"
proof -
  obtain e where e: "pg_abs demo_db ''AAAAAAAAAAAAAAAA'' = Some e" "lm_status (e_meta e) = Active" "e_token e = Some ''ab''"
    by (simp add: pg_abs_def demo_db_def pg_select_def rowToMeta_def)
  have h: "timingSafeEqualHex ''ab'' ''ab''" by (simp add: timingSafeEqualHex_def hex_digit_def upt_rec)
  have r: "d_rate demo_deps 5 (''messages:revoke:'' @ hash_ip (d_env demo_deps) (getClientIp demo_revoke))
      RATE_LIMIT_WINDOW_SECONDS (limiter \<lparr>store = demo_db, limiter = []\<rparr>) =
      (Inr 1, map_set (''messages:revoke:unknown'' @ CHR '':'' # show_int (windowFloor 5 60)) 1 [])"
    by (simp add: demo_deps_def demo_env_def getClientIp_def demo_revoke_def mem_incrementAndGet_def
        RATE_LIMIT_WINDOW_SECONDS_def Let_def)
  show ?thesis
    using revoke_needs_token [OF _ _ _ _ r _ _ e(2), of "''AAAAAAAAAAAAAAAA''"] demo_db_ok e h
    by (auto simp: demo_deps_def demo_env_def LINK_ID_REGEX_def alnum_def char_in_def isEmptyBody_def demo_revoke_def
        RATE_LIMIT_MAX_def presented_def)
qed

text \<open>
  Looking at links changes none: the get and the list handler leave the store as it is, for every
  store and every limiter.
\<close>

theorem reads_keep_store:
  "store (snd (get_message d now i req sv)) = store sv \<and> store (snd (list_messages d now req sv)) = store sv"
  using get_effect [of d now i req sv] list_effect [of d now req sv] by (metis prod.collapse)

text \<open>An exchange for the witnesses: one request body, carrying a given ciphertext.\<close>

definition talk_env :: "string \<Rightarrow> api_env" where
  "talk_env c = demo_env\<lparr>parse_json := (\<lambda>_. Some (JObj [(''id'', JStr ''BBBBBBBBBBBBBBBB''), (''ciphertext'', JStr c),
      (''expiresAt'', JStr ''x''), (''maxOpens'', jint 1)])), parse_date := (\<lambda>_. Some 100)\<rparr>"

definition talk_deps :: "string \<Rightarrow> (pg_db, mem_limiter) deps" where
  "talk_deps c = demo_deps\<lparr>d_env := talk_env c\<rparr>"

definition talk_body :: "string \<Rightarrow> request_body" where
  "talk_body c = \<lparr>b_id = ''BBBBBBBBBBBBBBBB'', b_ciphertext = c, b_expiresAt = ''x'', b_maxOpens = num 1\<rparr>"

lemma talk_deps_sel [simp]:
  "d_links (talk_deps c) = pg_ops" "d_rate (talk_deps c) = mem_incrementAndGet" "d_env (talk_deps c) = talk_env c"
  "hash_ip (talk_env c) ip = ip" "parse_date (talk_env c) x = Some 100" "maxRetentionMs (talk_env c) = None"
  by (simp_all add: talk_deps_def demo_deps_def talk_env_def demo_env_def)

lemma talk_parse: "parseBody (talk_env c) raw = Some (talk_body c)"
  by (simp add: parseBody_def talk_env_def is_object_def prop_string_def prop_num_def json_prop_def jint_def talk_body_def)

lemma talk_limited:
  "mem_incrementAndGet now k 60 [] = (Inr 1, map_set (k @ CHR '':'' # show_int (windowFloor now 60)) 1 [])"
  by (simp add: mem_incrementAndGet_def Let_def)

lemma talk_created:
  assumes "32 \<le> length blob" "length blob \<le> 27262976"
  shows "\<exists>resp sv1. create_message (talk_deps (bytesToBase64 blob)) 5 ''ab'' demo_req \<lparr>store = pg_empty, limiter = []\<rparr> = (Inr resp, sv1)
    \<and> status_code resp = 201 \<and> limiter sv1 = map_set (''messages:unknown'' @ CHR '':'' # show_int (windowFloor 5 60)) 1 []"
proof -
  have chk: "check_create (talk_env (bytesToBase64 blob)) 5 (talk_body (bytesToBase64 blob)) = Some (100, blob)"
    using assms
    by (simp add: check_create_def talk_body_def LINK_ID_REGEX_def alnum_def char_in_def decodeBase64_bytesToBase64
        DEFAULT_MAX_RETENTION_MS_def RETENTION_GRACE_MS_def MIN_CIPHERTEXT_BYTES_def MAX_CIPHERTEXT_BYTES_def)
  have rate: "d_rate (talk_deps (bytesToBase64 blob)) 5 (''messages:'' @ hash_ip (d_env (talk_deps (bytesToBase64 blob))) (getClientIp demo_req))
      RATE_LIMIT_WINDOW_SECONDS (limiter \<lparr>store = pg_empty, limiter = []\<rparr>) =
      (Inr 1, map_set (''messages:unknown'' @ CHR '':'' # show_int (windowFloor 5 60)) 1 [])"
    by (simp add: RATE_LIMIT_WINDOW_SECONDS_def talk_limited getClientIp_def demo_req_def)
  show ?thesis
    using pg.create_passed [OF _ _ rate, of "talk_body (bytesToBase64 blob)" 100 blob] chk pg_empty_ok
    by (fastforce simp: talk_parse RATE_LIMIT_MAX_def demo_req_def talk_body_def)
qed

text \<open>
  Creating is all or nothing: an answer other than 201 leaves the store as it was, and a 201
  means that the id was new and well formed, the expiry ahead and under the ceiling, the ciphertext
  of an admissible size, and that exactly this link was added, active and unopened.
\<close>

theorem create_checked:
  assumes "pg_inv (store sv)" "d_links d = pg_ops"
  shows "case create_message d now token req sv of (out, sv') \<Rightarrow>
    pg_abs (store sv') = pg_abs (store sv) \<and> (\<forall>r. out = Inr r \<longrightarrow> status_code r \<noteq> 201) \<or>
    (\<exists>body expiresAt blob. parseBody (d_env d) (raw_body req) = Some body \<and> LINK_ID_REGEX (b_id body) \<and>
       pg_abs (store sv) (b_id body) = None \<and> now < expiresAt \<and>
       expiresAt \<le> now + (case maxRetentionMs (d_env d) of None \<Rightarrow> DEFAULT_MAX_RETENTION_MS | Some m \<Rightarrow> m) + RETENTION_GRACE_MS \<and>
       decodeBase64 (b_ciphertext body) = Some blob \<and> 32 \<le> length blob \<and> length blob \<le> 26 * 1024 * 1024 \<and>
       (\<exists>r. out = Inr r \<and> status_code r = 201) \<and>
       pg_abs (store sv') = (pg_abs (store sv))(b_id body \<mapsto>
         \<lparr>e_meta = new_meta (requested (d_env d) token expiresAt body), e_token = Some (hash_token (d_env d) token),
          e_terminal = None, e_blob = Some blob\<rparr>))"
proof -
  obtain out sv' where run: "create_message d now token req sv = (out, sv')" by (cases "create_message d now token req sv")
  from pg.create_all_or_nothing [OF assms run] consider
      (kept) "pg_abs (store sv') = pg_abs (store sv)" "\<forall>r. out = Inr r \<longrightarrow> status_code r \<noteq> 201"
    | (made) body expiresAt blob where "parseBody (d_env d) (raw_body req) = Some body"
      "check_create (d_env d) now body = Some (expiresAt, blob)" "pg_abs (store sv) (b_id body) = None"
      "\<exists>r. out = Inr r \<and> status_code r = 201"
      "pg_abs (store sv') = (pg_abs (store sv))(b_id body \<mapsto>
         \<lparr>e_meta = new_meta (requested (d_env d) token expiresAt body), e_token = Some (hash_token (d_env d) token),
          e_terminal = None, e_blob = Some blob\<rparr>)" by blast
  then show ?thesis
  proof cases
    case (made body expiresAt blob)
    note facts = check_create_facts [OF made(2)]
    then show ?thesis
      unfolding run prod.case
      by (intro disjI2 exI [of _ body] exI [of _ expiresAt] exI [of _ blob])
        (use made in \<open>simp add: MIN_CIPHERTEXT_BYTES_def MAX_CIPHERTEXT_BYTES_def\<close>)
  qed (simp add: run)
qed

theorem create_checked_witness:
  "case create_message (talk_deps (bytesToBase64 (replicate 40 7))) 5 ''ab'' demo_req \<lparr>store = pg_empty, limiter = []\<rparr> of
     (out, sv') \<Rightarrow> \<exists>e. pg_abs (store sv') ''BBBBBBBBBBBBBBBB'' = Some e \<and> e_blob e = Some (replicate 40 7)"
proof -
  obtain resp sv1 where run: "create_message (talk_deps (bytesToBase64 (replicate 40 7))) 5 ''ab'' demo_req
      \<lparr>store = pg_empty, limiter = []\<rparr> = (Inr resp, sv1)" "status_code resp = 201"
    using talk_created [of "replicate 40 7"] by auto
  show ?thesis
    using create_checked [where sv = "\<lparr>store = pg_empty, limiter = []\<rparr>" and d = "talk_deps (bytesToBase64 (replicate 40 7))"
        and now = 5 and token = "''ab''" and req = demo_req]
    by (auto simp: run pg_empty_ok talk_parse talk_body_def decodeBase64_bytesToBase64)
qed

text \<open>
  C3: what one person writes, the other reads. A payload that is encoded, sealed to the recipient's exported key
  and accepted by the server comes back, when the link is opened before its expiry and within the
  limit, as the ciphertext that opens under the recipient's key to the same payload.
\<close>

theorem message_end_to_end:
  assumes crypto: "hpke_correct S" "generateIdentity S (public_of S priv, priv) = Inr me"
      "importPublicKey S (exportPublicKey me) = Inr r"
    and sender: "encodePayload p = Inr pt" "plain_payload p" "seal S rnd pt r ctx = Inr ct"
      "parseBody (d_env d) (raw_body req1) = Some body" "b_ciphertext body = bytesToBase64 ct"
    and server: "pg_inv (store sv)" "d_links d = pg_ops"
      "create_message d t1 token req1 sv = (Inr r1, sv1)" "status_code r1 = 201"
    and reader: "isEmptyBody (raw_body req2)" "parse_date (d_env d) (b_expiresAt body) = Some expiry" "t2 < expiry"
      "d_rate d t2 (''messages:open:'' @ hash_ip (d_env d) (getClientIp req2)) RATE_LIMIT_WINDOW_SECONDS (limiter sv1) = (Inr n, rl)"
      "n \<le> RATE_LIMIT_MAX"
  shows "\<exists>r2 c ct'. fst (open_message d t2 (b_id body) req2 sv1) = Inr r2 \<and> status_code r2 = 200 \<and>
    prop_string ''ciphertext'' (resp_body r2) = Some c \<and> base64ToBytes c = Inr ct' \<and>
    open_sealed S ct' me ctx = Inr pt \<and> decodePayload pt = p"
proof -
  note stored = pg.create_all_or_nothing [OF server(1-3)]
  then obtain expiresAt blob where chk: "check_create (d_env d) t1 body = Some (expiresAt, blob)"
    and abs: "pg_abs (store sv1) (b_id body) = Some \<lparr>e_meta = new_meta (requested (d_env d) token expiresAt body),
      e_token = Some (hash_token (d_env d) token), e_terminal = None, e_blob = Some blob\<rparr>"
    using server(4) sender(4) by auto
  note facts = check_create_facts [OF chk]
  have "expiresAt = expiry" using chk reader(2) by (auto simp: check_create_def split: if_splits option.splits)
  have "blob = ct" using facts(4) sender(5) by (simp add: decodeBase64_bytesToBase64)
  define e where "e = \<lparr>e_meta = new_meta (requested (d_env d) token expiresAt body),
      e_token = Some (hash_token (d_env d) token), e_terminal = None, e_blob = Some blob\<rparr>"
  obtain e' where e': "open_entry t2 e = Some e'"
    using reader(3) \<open>expiresAt = expiry\<close>
    by (simp add: open_entry_def e_def new_meta_def requested_def Let_def)
  have "fst (open_message d t2 (b_id body) req2 sv1) = Inr (open_response (d_env d) ct (e_meta e'))"
    using pg.open_live [OF _ server(2) facts(1) reader(1,4,5) _ e', of ct] stored abs \<open>blob = ct\<close>
    by (simp add: e_def)
  moreover have "cryptoKey r = public_of S (privateKey me)"
    using crypto(3) exported_key_imports [OF crypto(1,2)] identity_private [OF crypto(2)] by auto
  then have "open_sealed S ct me ctx = Inr pt" using seal_then_open [OF crypto(1) _ sender(3)] by simp
  moreover have "prop_string ''ciphertext'' (resp_body (open_response (d_env d) ct (e_meta e'))) = Some (bytesToBase64 ct)"
    by (simp add: open_response_def ok200_def prop_string_def json_prop_def api_bytesToBase64_def btoa_eq_bytesToBase64)
  ultimately show ?thesis
    using base64_roundtrip decodePayload_roundtrip [OF sender(1,2)] by auto
qed

definition talk_payload :: payload where
  "talk_payload = \<lparr>msg_text = [], attachments = []\<rparr>"

lemma talk_id_bytes: "length (TextEncoder (text_of_string ''BBBBBBBBBBBBBBBB'')) = 16"
  by (simp add: text_of_string_def TextEncoder_def high_surrogate_def low_surrogate_def scalar_bytes_def)

lemma talk_payload_encodes: "\<exists>pt. encodePayload talk_payload = Inr pt \<and> length pt \<le> 4096"
  by (simp add: talk_payload_def encodePayload_def TextEncoder_def payload_consts Let_def write_frame_def
      length_write_frame targetPaddedLen_def PAD_BUCKETS_def)

theorem message_end_to_end_witness:
  "\<exists>ct me sv1 r2 c ct' ctx pt.
     fst (open_message (talk_deps (bytesToBase64 ct)) 6 ''BBBBBBBBBBBBBBBB'' demo_req sv1) = Inr r2 \<and> status_code r2 = 200 \<and>
     prop_string ''ciphertext'' (resp_body r2) = Some c \<and> base64ToBytes c = Inr ct' \<and>
     open_sealed toy_suite ct' me ctx = Inr pt \<and> decodePayload pt = talk_payload"
proof -
  obtain me where me: "generateIdentity toy_suite (public_of toy_suite 5, 5) = Inr me"
    using generateIdentity_total [OF toy_correct] by blast
  define ctx where "ctx = \<lparr>linkId = ''BBBBBBBBBBBBBBBB'', recipientPublicKey = exportPublicKey me, createdAtMs = None,
      expiresAtMs = num 100, maxOpens = num 1\<rparr>"
  note imp = exported_key_imports [OF toy_correct me]
  have chk: "aad_checks ctx = Inr ()" by (simp add: ctx_def aad_checks_def Let_def isSafeInteger_def)
  have key: "importPublicKey toy_suite (recipientPublicKey ctx) = Inr \<lparr>recipientRaw = publicKeyRaw me, cryptoKey = public_of toy_suite 5\<rparr>"
    using imp by (simp add: ctx_def)
  have "length (TextEncoder (text_of_string (linkId ctx))) = 16" by (simp add: ctx_def talk_id_bytes)
  then obtain aad where aad: "encodeAad toy_suite ctx = Inr aad" "length aad \<le> 73"
    using encodeAad_total [OF toy_correct key chk] by blast
  obtain pt where pt: "encodePayload talk_payload = Inr pt" "length pt \<le> 4096" using talk_payload_encodes by blast
  obtain ct where ct: "seal toy_suite [] pt \<lparr>recipientRaw = publicKeyRaw me, cryptoKey = public_of toy_suite 5\<rparr> ctx = Inr ct"
    using seal_total [OF toy_correct me imp [unfolded fst_conv] _ aad(1)] by (auto simp: ctx_def)
  note len = toy_seal_length [OF ct aad(1)]
  obtain resp sv1 where run: "create_message (talk_deps (bytesToBase64 ct)) 5 ''ab'' demo_req
      \<lparr>store = pg_empty, limiter = []\<rparr> = (Inr resp, sv1)" "status_code resp = 201"
    "limiter sv1 = map_set (''messages:unknown'' @ CHR '':'' # show_int (windowFloor 5 60)) 1 []"
    using talk_created [of ct] len aad(2) pt(2) by auto
  have rate: "d_rate (talk_deps (bytesToBase64 ct)) 6 (''messages:open:'' @ hash_ip (d_env (talk_deps (bytesToBase64 ct)))
      (getClientIp demo_req)) RATE_LIMIT_WINDOW_SECONDS (limiter sv1) =
      (Inr 1, snd (mem_incrementAndGet 6 ''messages:open:unknown'' 60 (limiter sv1)))"
    by (simp add: mem_incrementAndGet_def Let_def run(3) RATE_LIMIT_WINDOW_SECONDS_def getClientIp_def demo_req_def windowFloor_def)
  have "\<exists>r2 c ct'. fst (open_message (talk_deps (bytesToBase64 ct)) 6 (b_id (talk_body (bytesToBase64 ct))) demo_req sv1) = Inr r2 \<and>
      status_code r2 = 200 \<and> prop_string ''ciphertext'' (resp_body r2) = Some c \<and> base64ToBytes c = Inr ct' \<and>
      open_sealed toy_suite ct' me ctx = Inr pt \<and> decodePayload pt = talk_payload"
  proof (rule message_end_to_end [OF toy_correct me imp [unfolded fst_conv] pt(1) _ ct _ _ _ _ run(1,2) _ _ _ rate])
    show "plain_payload talk_payload" by (simp add: talk_payload_def plain_payload_def plain_text_def TextEncoder_def)
  qed (simp_all add: talk_parse talk_body_def pg_empty_ok isEmptyBody_def demo_req_def RATE_LIMIT_MAX_def)+
  then show ?thesis by (simp add: talk_body_def) blast
qed

section \<open>The cryptographic formats\<close>

text \<open>
  C8: a ciphertext is bound to its context. Presented under another link id, another expiry or creation
  time, or an open limit that differs in its low 32 bits, it fails to open, with the one uniform error.
  Any two admitted limits below 2^31 differ there (-1 included).
\<close>

theorem context_is_bound:
  assumes "hpke_binding S" "seal S rnd pt r ctx = Inr ct"
    "linkId ctx' \<noteq> linkId ctx \<or> createdAtMs ctx' \<noteq> createdAtMs ctx \<or> expiresAtMs ctx' \<noteq> expiresAtMs ctx \<or>
      int_of_num (maxOpens ctx') mod 2 ^ 32 \<noteq> int_of_num (maxOpens ctx) mod 2 ^ 32"
  shows "open_sealed S ct i ctx' = Inl decryption_failed"
proof -
  obtain aad where aad: "encodeAad S ctx = Inr aad" using assms(2) by (rule seal_Inr)
  have "encodeAad S ctx' \<noteq> Inr aad"
    using encodeAad_determines [OF _ aad, of ctx'] assms(3) by auto
  then show ?thesis using open_other_aad [OF assms(1,2)] aad by simp
qed

lemma talk_sealed:
  obtains me :: "(byte, byte) identity_impl" and ctx :: binding_context and ct
  where "linkId ctx = ''BBBBBBBBBBBBBBBB''" "maxOpens ctx = num 1"
    "seal toy_suite [] [1, 2] \<lparr>recipientRaw = publicKeyRaw me, cryptoKey = public_of toy_suite 5\<rparr> ctx = Inr ct"
proof -
  obtain me where me: "generateIdentity toy_suite (public_of toy_suite 5, 5) = Inr me"
    using generateIdentity_total [OF toy_correct] by blast
  define ctx where "ctx = \<lparr>linkId = ''BBBBBBBBBBBBBBBB'', recipientPublicKey = exportPublicKey me, createdAtMs = None,
      expiresAtMs = num 100, maxOpens = num 1\<rparr>"
  note imp = exported_key_imports [OF toy_correct me]
  have chk: "aad_checks ctx = Inr ()" by (simp add: ctx_def aad_checks_def Let_def isSafeInteger_def)
  have key: "importPublicKey toy_suite (recipientPublicKey ctx) = Inr \<lparr>recipientRaw = publicKeyRaw me, cryptoKey = public_of toy_suite 5\<rparr>"
    using imp by (simp add: ctx_def)
  have "length (TextEncoder (text_of_string (linkId ctx))) = 16" by (simp add: ctx_def talk_id_bytes)
  then obtain aad where aad: "encodeAad toy_suite ctx = Inr aad"
    using encodeAad_total [OF toy_correct key chk] by blast
  obtain ct where "seal toy_suite [] [1, 2] \<lparr>recipientRaw = publicKeyRaw me, cryptoKey = public_of toy_suite 5\<rparr> ctx = Inr ct"
    using seal_total [OF toy_correct me imp [unfolded fst_conv] _ aad] by (auto simp: ctx_def)
  then show ?thesis using that [of ctx me ct] by (simp add: ctx_def)
qed

theorem context_is_bound_witness:
  "\<exists>ct me ctx. linkId ctx = ''BBBBBBBBBBBBBBBB'' \<and>
     open_sealed toy_suite ct me (ctx\<lparr>linkId := ''BBBBBBBBBBBBBBBC''\<rparr>) = Inl decryption_failed"
proof (rule talk_sealed)
  fix me :: "(byte, byte) identity_impl" and ctx :: binding_context and ct
  assume a: "linkId ctx = ''BBBBBBBBBBBBBBBB''" "maxOpens ctx = num 1"
    "seal toy_suite [] [1, 2] \<lparr>recipientRaw = publicKeyRaw me, cryptoKey = public_of toy_suite 5\<rparr> ctx = Inr ct"
  show ?thesis
    using context_is_bound [OF toy_binding a(3), of "ctx\<lparr>linkId := ''BBBBBBBBBBBBBBBC''\<rparr>" me] a(1,2) by auto
qed

text \<open>
  The AAD writes the open limit with 32 bits while its check admits every positive integer: two
  limits that differ by 2^32 share an AAD, so a ciphertext sealed for one also opens under the other.
\<close>

theorem open_limit_wraps:
  assumes "0 < m" "seal S rnd pt r (ctx\<lparr>maxOpens := num m\<rparr>) = Inr ct" "hpke_correct S"
    "cryptoKey r = public_of S (privateKey i)"
  shows "open_sealed S ct i (ctx\<lparr>maxOpens := num (m + 2 ^ 32)\<rparr>) = Inr pt"
  using seal_then_open [OF assms(3,4,2)] encodeAad_wraps [OF assms(1), of S ctx]
  by (simp add: open_sealed_def)

theorem open_limit_wraps_witness:
  "\<exists>ct me ctx. open_sealed toy_suite ct me (ctx\<lparr>maxOpens := num (1 + 2 ^ 32)\<rparr>) = Inr [1, 2]"
proof (rule talk_sealed)
  fix me :: "(byte, byte) identity_impl" and ctx :: binding_context and ct
  assume a: "linkId ctx = ''BBBBBBBBBBBBBBBB''" "maxOpens ctx = num 1"
    "seal toy_suite [] [1, 2] \<lparr>recipientRaw = publicKeyRaw me, cryptoKey = public_of toy_suite 5\<rparr> ctx = Inr ct"
  have "ctx\<lparr>maxOpens := num 1\<rparr> = ctx" using a(2) by simp
  then show ?thesis
    using open_limit_wraps [of 1 toy_suite "[]" "[1, 2]" _ ctx ct "me\<lparr>privateKey := 5\<rparr>"] a(3) toy_correct
    by (metis identity_impl.select_convs(2) identity_impl.surjective identity_impl.update_convs(2) recipient_impl.select_convs(2) zero_less_one)
qed

text \<open>
  An encoded payload decodes to itself when its texts are well-formed Unicode without a leading
  byte order mark, and its length tells only the padding bucket of its contents.
\<close>

theorem payload_codec:
  assumes "encodePayload p = Inr out"
  shows "(plain_payload p \<longrightarrow> decodeStrict out = Inr p \<and> decodePayload out = p)
    \<and> length out = padded_len (payload_size p)"
  using assms payload_size_eq payload_roundtrip decodePayload_roundtrip by blast

theorem payload_codec_witness:
  "\<exists>out. encodePayload talk_payload = Inr out \<and> decodePayload out = talk_payload \<and> length out = padded_len 11"
proof -
  obtain out where out: "encodePayload talk_payload = Inr out" using talk_payload_encodes by blast
  have "plain_payload talk_payload" by (simp add: talk_payload_def plain_payload_def plain_text_def TextEncoder_def)
  moreover have "payload_size talk_payload = 11"
    by (simp add: payload_size_def talk_payload_def TextEncoder_def)
  ultimately show ?thesis using payload_codec [OF out] out by auto
qed

text \<open>
  A text that begins with a byte order mark loses it on the way: the encoder keeps U+FEFF, the
  decoder strips it.
\<close>

theorem leading_bom_is_lost:
  assumes "encodePayload \<lparr>msg_text = 0xFEFF # t, attachments = []\<rparr> = Inr out" "well_formed t"
  shows "decodePayload out = \<lparr>msg_text = t, attachments = []\<rparr>"
  using bom_dropped [OF assms] by (simp add: decodePayload_def)

theorem leading_bom_is_lost_witness:
  "\<exists>out. encodePayload \<lparr>msg_text = [0xFEFF, 0x41], attachments = []\<rparr> = Inr out \<and>
     decodePayload out = \<lparr>msg_text = [0x41], attachments = []\<rparr>"
proof -
  have "\<exists>out. encodePayload \<lparr>msg_text = [0xFEFF, 0x41], attachments = []\<rparr> = Inr out"
    by (simp add: encodePayload_def TextEncoder_def payload_consts Let_def write_frame_def utf16_scalars_bom
        high_surrogate_def low_surrogate_def scalar_bytes_def length_write_frame targetPaddedLen_def PAD_BUCKETS_def)
  then show ?thesis
    using leading_bom_is_lost [of "[0x41]"] by (auto simp: high_surrogate_def low_surrogate_def)
qed

text \<open>
  Padding hides lengths at a bounded price: it never shrinks, is monotone, leaves a padded length
  as it is, and costs less than a sixteenth above the largest fixed bucket.
\<close>

theorem padding_policy:
  "\<exists>t. targetPaddedLen (int n) = Inr t \<and> n \<le> t \<and> targetPaddedLen (int t) = Inr t
     \<and> (\<exists>t'. targetPaddedLen (int (n + k)) = Inr t' \<and> t \<le> t') \<and> (n \<le> 4096 \<or> 16 * t < 17 * n)"
  using padded_len_ge [of n] padded_len_idem [of n] padded_len_overhead [of n] padded_len_mono [of n "n + k"]
  unfolding targetPaddedLen_nat by (cases "n \<le> 4096") auto

text \<open>
  The wire encoding of bytes as base64url is read back, and the decoder refuses exactly the texts
  with a character outside the alphabet.
\<close>

theorem base64url_codec:
  "base64urlDecode (base64urlEncode bs) = Inr bs \<and> (is_err (base64urlDecode s) \<longleftrightarrow> \<not> set s \<subseteq> set BASE64URL_ALPHABET)"
  using base64url_roundtrip base64urlDecode_rejects by blast

text \<open>
  The server and the mobile client agree on base64: the server's encoder gives the client's text, the
  client reads it back, and the server's checked decoder accepts what the client sends.
\<close>

theorem base64_interop:
  "api_bytesToBase64 bs = bytesToBase64 bs \<and> base64ToBytes (api_bytesToBase64 bs) = Inr bs
   \<and> decodeBase64 (bytesToBase64 bs) = Some bs"
  by (simp add: api_bytesToBase64_def btoa_eq_bytesToBase64 base64_roundtrip decodeBase64_bytesToBase64)

text \<open>
  Every link id the client generates from 12 random bytes has the form the server demands, and
  different bytes give different ids.
\<close>

theorem link_ids:
  assumes "length rnd = 12"
  shows "LINK_ID_REGEX (generateLinkId rnd) \<and> (generateLinkId rnd' = generateLinkId rnd \<longrightarrow> rnd' = rnd)"
  using generateLinkId_valid [OF assms] generateLinkId_inject by blast

theorem link_ids_witness: "LINK_ID_REGEX (generateLinkId (replicate 12 255))"
  using link_ids [of "replicate 12 255"] by simp

text \<open>
  Public keys and ciphertext blobs survive the wire, and a decoded blob encodes to the very bytes it
  was read from.
\<close>

theorem wire_roundtrip:
  "(length raw = 32 \<longrightarrow> and_then (encodePubkey raw) decodePubkey = Inr \<lparr>rawKey = raw, canonical = [1, 1] @ raw\<rparr>)
   \<and> (length enc = 32 \<longrightarrow> and_then (encodeCiphertextBlob enc ct) decodeCiphertextBlob = Inr (enc, ct))
   \<and> (decodeCiphertextBlob blob = Inr (enc, ct) \<longrightarrow> encodeCiphertextBlob enc ct = Inr blob)"
  using pubkey_roundtrip [of raw] blob_roundtrip [of enc ct] blob_decode_encode [of blob enc ct]
  by (simp add: wire_consts)

theorem wire_roundtrip_witness:
  "and_then (encodePubkey (replicate 32 9)) decodePubkey = Inr \<lparr>rawKey = replicate 32 9, canonical = [1, 1] @ replicate 32 9\<rparr>
   \<and> and_then (encodeCiphertextBlob (replicate 32 8) [4]) decodeCiphertextBlob = Inr (replicate 32 8, [4])"
  using wire_roundtrip [of "replicate 32 9" "replicate 32 8" "[4]"] by simp

text \<open>
  Comparing fingerprints decides whether two keys have the same 16 leading digest bytes: the
  comparison is equality of the texts, and equal texts mean equal digest prefixes.
\<close>

theorem fingerprints_compare:
  assumes "fingerprint sha p = Inr f" "fingerprint sha q = Inr g" "\<And>m. length (sha m) = 32"
    "decodePubkey p = Inr a" "decodePubkey q = Inr b"
  shows "length f = 42 \<and> (compareFingerprint f g \<longleftrightarrow> take 16 (sha (canonical a)) = take 16 (sha (canonical b)))"
proof -
  have "f = g" if "take 16 (sha (canonical a)) = take 16 (sha (canonical b))"
    using assms(1,2,4,5) that by (simp add: fingerprint_def Let_def fingerprint_consts)
  then show ?thesis
    using fingerprint_length [OF assms(1,3)] fingerprint_inject [OF assms(1) _ assms(3-5)] assms(2)
    by (auto simp: compareFingerprint_eq)
qed

theorem fingerprints_compare_witness:
  "\<exists>p q f g. fingerprint (\<lambda>m. take 32 (m @ replicate 32 0)) p = Inr f \<and>
     fingerprint (\<lambda>m. take 32 (m @ replicate 32 0)) q = Inr g \<and> \<not> compareFingerprint f g"
proof -
  let ?sha = "\<lambda>m :: bytes. take 32 (m @ replicate 32 0)"
  obtain p where p: "decodePubkey p = Inr \<lparr>rawKey = replicate 32 9, canonical = WIRE_VERSION # SUITE_X25519_AES256GCM # replicate 32 9\<rparr>"
    using encodePubkey_decode [of "replicate 32 9"] by (auto simp: encodePubkey_def wire_consts)
  obtain q where q: "decodePubkey q = Inr \<lparr>rawKey = replicate 32 8, canonical = WIRE_VERSION # SUITE_X25519_AES256GCM # replicate 32 8\<rparr>"
    using encodePubkey_decode [of "replicate 32 8"] by (auto simp: encodePubkey_def wire_consts)
  obtain f g where fg: "fingerprint ?sha p = Inr f" "fingerprint ?sha q = Inr g"
    using p q by (simp add: fingerprint_def Let_def)
  have "\<not> compareFingerprint f g"
    using fingerprints_compare [OF fg _ p q] by (simp add: wire_consts numeral_2_eq_2 numeral_eq_Suc)
  then show ?thesis using fg by blast
qed

section \<open>Rate limits\<close>

text \<open>
  In any window of the memory limiter, at most the limit's number of requests under one key pass,
  in whatever order the requests of all keys arrive.
\<close>

theorem memory_limit_holds:
  "passed w l key f ks (fst (limiter_run (\<lambda>now k. mem_incrementAndGet now k w) ks s)) \<le> l - mem_cnt s key f"
  by (rule mem_rl.passed_bounded [OF TrueI prod.collapse [symmetric]])

text \<open>
  The same holds for the Redis limiter with the windows of a minute the handlers use, even when
  transactions fail before or after they ran.
\<close>

theorem redis_limit_holds:
  assumes "redis_inv 60 s"
  shows "passed 60 l key f ks (fst (limiter_run (\<lambda>now k. redis_incrementAndGet now k 60) ks s)) \<le> l - redis_cnt s key f"
  by (rule redis_rl.passed_bounded [OF assms prod.collapse [symmetric]])

theorem redis_limit_holds_witness:
  "passed 60 30 ''k'' 0 (replicate 50 (7, ''k'')) (fst (limiter_run (\<lambda>now k. redis_incrementAndGet now k 60)
     (replicate 50 (7, ''k'')) \<lparr>counters = [], faults = [ReplyLost]\<rparr>)) \<le> 30"
  using redis_limit_holds [OF redis_empty_inv [of 60 "[ReplyLost]"], of 30 "''k''" 0 "replicate 50 (7, ''k'')"]
  by (simp add: redis_cnt_def)

end
